(* ===== verification/Json.thy ===== *)
theory Json
  imports Prelude "HOL-Library.Char_ord" "HOL-Library.List_Lexorder"
begin

text \<open>
  JSON values and the two encodings the code uses: \<open>json.dumps\<close> with its default separators
  (the stored document, whose length is bounded) and the canonical form with sorted keys and
  compact separators (what \<open>canonical_digest\<close> hashes). A float is carried as the text of its
  \<open>repr\<close>, which is what the encoder writes; \<open>NaN\<close> and the infinities are refused under
  \<open>allow_nan=False\<close>.
\<close>

datatype json =
    JNull
  | JBool bool
  | JInt int
  | JFloat string
  | JStr string
  | JArr "json list"
  | JObj "(string \<times> json) list"

section \<open>Encoding\<close>

definition hex_digit :: "nat \<Rightarrow> char" where
  "hex_digit d = (if d < 10 then char_of (48 + d) else char_of (87 + d))"

text \<open>\<open>ensure_ascii=True\<close>: the short escapes, then \<open>\u00XX\<close> outside the printable range.\<close>

definition escape_char :: "char \<Rightarrow> string" where
  "escape_char c =
     (let n = char_code c in
      if n = 34 \<or> n = 92 then [char_of (92::nat), c]
      else if n = 10 then [char_of (92::nat), CHR ''n'']
      else if n = 13 then [char_of (92::nat), CHR ''r'']
      else if n = 9 then [char_of (92::nat), CHR ''t'']
      else if n = 12 then [char_of (92::nat), CHR ''f'']
      else if n = 8 then [char_of (92::nat), CHR ''b'']
      else if 32 \<le> n \<and> n \<le> 126 then [c]
      else [char_of (92::nat), CHR ''u'', CHR ''0'', CHR ''0'', hex_digit (n div 16), hex_digit (n mod 16)])"

definition quote :: "string \<Rightarrow> string" where
  "quote s = char_of (34::nat) # concat (map escape_char s) @ [char_of (34::nat)]"

fun join :: "string \<Rightarrow> string list \<Rightarrow> string" where
  "join sep [] = []"
| "join sep [x] = x"
| "join sep (x # y # xs) = x @ sep @ join sep (y # xs)"

fun dumps :: "string \<Rightarrow> string \<Rightarrow> json \<Rightarrow> string" where
  "dumps isep ksep JNull = ''null''"
| "dumps isep ksep (JBool b) = (if b then ''true'' else ''false'')"
| "dumps isep ksep (JInt i) = show_int i"
| "dumps isep ksep (JFloat r) = r"
| "dumps isep ksep (JStr s) = quote s"
| "dumps isep ksep (JArr vs) = ''['' @ join isep (map (dumps isep ksep) vs) @ '']''"
| "dumps isep ksep (JObj fs) =
     ''{'' @ join isep (map (\<lambda>(k, v). quote k @ ksep @ dumps isep ksep v) fs) @ ''}''"

text \<open>\<open>json.dumps(value, ensure_ascii=True)\<close>: the default separators.\<close>

definition dumps_default :: "json \<Rightarrow> string" where
  "dumps_default = dumps '', '' '': ''"

fun sort_keys :: "json \<Rightarrow> json" where
  "sort_keys (JArr vs) = JArr (map sort_keys vs)"
| "sort_keys (JObj fs) = JObj (sort_key fst (map (\<lambda>(k, v). (k, sort_keys v)) fs))"
| "sort_keys v = v"

fun has_nan :: "json \<Rightarrow> bool" where
  "has_nan (JFloat r) = (r \<in> {''nan'', ''inf'', ''-inf''})"
| "has_nan (JArr vs) = (\<exists>v \<in> set vs. has_nan v)"
| "has_nan (JObj fs) = (\<exists>f \<in> set fs. has_nan (snd f))"
| "has_nan _ = False"

text \<open>The text \<open>canonical_digest\<close> encodes before hashing.\<close>

definition canonical_json :: "json \<Rightarrow> string" where
  "canonical_json v = dumps '','' '':'' (sort_keys v)"

text \<open>\<open>dict.get(key)\<close>, on a value the code has checked (or not) to be a dictionary.\<close>

fun obj_get :: "json \<Rightarrow> string \<Rightarrow> json option" where
  "obj_get (JObj fs) k = map_of fs k"
| "obj_get _ k = None"

definition opt_json :: "('a \<Rightarrow> json) \<Rightarrow> 'a option \<Rightarrow> json" where
  "opt_json f x = (case x of None \<Rightarrow> JNull | Some v \<Rightarrow> f v)"

lemma opt_json_simps [simp]: "opt_json f None = JNull" "opt_json f (Some v) = f v"
  by (simp_all add: opt_json_def)

section \<open>Lengths of encodings\<close>

text \<open>
  The length of a document is the sum of its parts, so replacing a part by one whose encoding
  is no longer than before does not lengthen the whole. \<open>json_le\<close> is that comparison.
\<close>

lemma length_join: "length (join sep xs) = sum_list (map length xs) + (length xs - 1) * length sep"
proof (induction sep xs rule: join.induct)
  case (3 sep x y xs)
  then show ?case by (simp add: algebra_simps)
qed simp_all

lemma length_join_mono:
  assumes "list_all2 (\<lambda>x y. length x \<le> length y) xs ys"
  shows "length (join sep xs) \<le> length (join sep ys)"
proof -
  have "sum_list (map length xs) \<le> sum_list (map length ys)"
    using assms by (induction rule: list_all2_induct) auto
  moreover have "length xs = length ys" using assms by (rule list_all2_lengthD)
  ultimately show ?thesis by (simp add: length_join)
qed

definition json_le :: "json \<Rightarrow> json \<Rightarrow> bool" where
  "json_le u v \<longleftrightarrow> length (dumps_default u) \<le> length (dumps_default v)"

lemma json_le_refl [simp]: "json_le v v"
  by (simp add: json_le_def)

lemma json_le_trans: "json_le u v \<Longrightarrow> json_le v w \<Longrightarrow> json_le u w"
  by (simp add: json_le_def)

lemma json_le_obj:
  assumes "list_all2 (\<lambda>f g. fst f = fst g \<and> json_le (snd f) (snd g)) fs gs"
  shows "json_le (JObj fs) (JObj gs)"
proof -
  let ?r = "\<lambda>(k, v). quote k @ '': '' @ dumps_default v"
  have "list_all2 (\<lambda>x y. length x \<le> length y) (map ?r fs) (map ?r gs)"
    using assms by (induction rule: list_all2_induct) (auto simp: json_le_def)
  then have "length (join '', '' (map ?r fs)) \<le> length (join '', '' (map ?r gs))"
    by (rule length_join_mono)
  then show ?thesis by (simp add: json_le_def dumps_default_def)
qed

lemma json_le_int: "0 \<le> i \<Longrightarrow> i \<le> j \<Longrightarrow> json_le (JInt i) (JInt j)"
  by (simp add: json_le_def dumps_default_def length_show_int_mono)

lemma json_le_null: "4 \<le> length (dumps_default v) \<Longrightarrow> json_le JNull v"
  by (simp add: json_le_def dumps_default_def)

lemma length_quote_plain:
  "list_all (\<lambda>c. 32 \<le> char_code c \<and> char_code c \<le> 126 \<and> char_code c \<noteq> 34 \<and> char_code c \<noteq> 92) s
     \<Longrightarrow> length (quote s) = length s + 2"
  by (induction s) (simp_all add: quote_def escape_char_def)

lemma length_quote_hex: "list_all is_lower_hex s \<Longrightarrow> length (quote s) = length s + 2"
proof (rule length_quote_plain)
  assume "list_all is_lower_hex s"
  then show "list_all (\<lambda>c. 32 \<le> char_code c \<and> char_code c \<le> 126 \<and> char_code c \<noteq> 34
      \<and> char_code c \<noteq> 92) s"
    by (rule list.pred_mono_strong) (auto simp: is_lower_hex_def is_digit_def)
qed

end
