(* ===== verification/Entitlements.thy ===== *)
theory Entitlements
  imports Prelude
begin

text \<open>
  The per-user policy of \<open>entitlements/models.py\<close>, its cached resolution and the soft per-turn
  decision of \<open>entitlements/service.py\<close>, over an override store with the contract of
  \<open>entitlements/store.py\<close> (a locale, interpreted by the in-memory store).

  Times are numbers of the clock's unit. The monotonic clock is read twice on a cache miss, so
  both readings are arguments. The usage ledger is a reader from a window length to totals that
  may fail; every read it serves is recorded, so that the zero-IO claims can be stated.
\<close>

section \<open>The policy record\<close>

definition MINUTE_SECONDS :: int where "MINUTE_SECONDS = 60"

definition DAY_SECONDS :: int where "DAY_SECONDS = 24 * 60 * 60"

definition MONTH_SECONDS :: int where "MONTH_SECONDS = 30 * DAY_SECONDS"

definition ADMIN_ENTITLEMENT_ID :: string where "ADMIN_ENTITLEMENT_ID = ''__admin__''"

lemmas window_seconds = MINUTE_SECONDS_def DAY_SECONDS_def MONTH_SECONDS_def

datatype scope = Chat | Compute

record limits =
  lim_disabled :: bool
  lim_requestsPerMinute :: "int option"
  lim_tokensPerDay :: "int option"
  lim_costPerDayMicroUsd :: "int option"
  lim_tokensPerMonth :: "int option"
  lim_costPerMonthMicroUsd :: "int option"
  lim_computeExecutionsPerDay :: "int option"
  lim_note :: "string option"

definition default_limits :: limits where
  "default_limits = \<lparr>lim_disabled = False, lim_requestsPerMinute = None, lim_tokensPerDay = None,
     lim_costPerDayMicroUsd = None, lim_tokensPerMonth = None, lim_costPerMonthMicroUsd = None,
     lim_computeExecutionsPerDay = None, lim_note = None\<rparr>"

definition has_any_limit :: "'a limits_scheme \<Rightarrow> bool" where
  "has_any_limit l \<longleftrightarrow> list_ex (\<lambda>v. v \<noteq> None)
     [lim_requestsPerMinute l, lim_tokensPerDay l, lim_costPerDayMicroUsd l, lim_tokensPerMonth l,
      lim_costPerMonthMicroUsd l, lim_computeExecutionsPerDay l]"

definition is_unlimited :: "'a limits_scheme \<Rightarrow> bool" where
  "is_unlimited l \<longleftrightarrow> \<not> lim_disabled l \<and> \<not> has_any_limit l"

record entitlement = limits +
  ent_id :: string
  ent_userId :: string
  ent_updatedAt :: int
  ent_updatedBy :: "string option"

definition unlimited :: "string \<Rightarrow> int \<Rightarrow> entitlement" where
  "unlimited user now = limits.extend default_limits
     \<lparr>ent_id = user, ent_userId = user, ent_updatedAt = now, ent_updatedBy = None\<rparr>"

definition unrestricted_admin :: "int \<Rightarrow> entitlement" where
  "unrestricted_admin now = unlimited ADMIN_ENTITLEMENT_ID now"

definition is_unrestricted_admin :: "entitlement \<Rightarrow> bool" where
  "is_unrestricted_admin e \<longleftrightarrow> ent_userId e = ADMIN_ENTITLEMENT_ID"

lemma unlimited_is_unlimited [simp]:
  "is_unlimited (unlimited user now)" "\<not> lim_disabled (unlimited user now)"
  by (simp_all add: is_unlimited_def unlimited_def has_any_limit_def default_limits_def
        limits.extend_def)

record decision =
  dec_allowed :: bool
  dec_code :: int
  dec_reason :: "string option"
  dec_retry_after :: "int option"
  dec_limit_kind :: "string option"
  dec_limit :: "int option"
  dec_used :: "int option"

definition allow :: decision where
  "allow = \<lparr>dec_allowed = True, dec_code = 200, dec_reason = None, dec_retry_after = None,
     dec_limit_kind = None, dec_limit = None, dec_used = None\<rparr>"

definition refuse :: "int \<Rightarrow> string \<Rightarrow> decision" where
  "refuse code reason = \<lparr>dec_allowed = False, dec_code = code, dec_reason = Some reason,
     dec_retry_after = None, dec_limit_kind = None, dec_limit = None, dec_used = None\<rparr>"

section \<open>The override store\<close>

datatype store_error = StoreUnavailable | InvalidEntitlementOwner

type_synonym override_map = "(string, entitlement) dict"

definition mem_get :: "override_map \<Rightarrow> string \<Rightarrow> store_error + entitlement option" where
  "mem_get st user = Inr (map_of st user)"

definition mem_put :: "override_map \<Rightarrow> entitlement \<Rightarrow> store_error + override_map" where
  "mem_put st e = Inr (AList.update (ent_userId e) e st)"

definition mem_delete :: "override_map \<Rightarrow> string \<Rightarrow> store_error + override_map" where
  "mem_delete st user = Inr (AList.delete user st)"

definition mem_list :: "override_map \<Rightarrow> entitlement list" where
  "mem_list st = map snd st"

section \<open>The service: cached resolution\<close>

record cache_entry =
  ce_value :: "entitlement option"
  ce_expires :: int

record ent_service =
  es_default :: entitlement
  es_enabled :: bool
  es_cache_ttl :: int
  es_cache :: "(string, cache_entry) dict"

definition new_service :: "entitlement \<Rightarrow> bool \<Rightarrow> int \<Rightarrow> ent_service" where
  "new_service dflt enabled ttl =
     \<lparr>es_default = dflt, es_enabled = enabled, es_cache_ttl = max 0 ttl, es_cache = []\<rparr>"

definition cache_put :: "ent_service \<Rightarrow> int \<Rightarrow> string \<Rightarrow> entitlement option \<Rightarrow> ent_service" where
  "cache_put sv now user ov = sv\<lparr>es_cache :=
     AList.update user \<lparr>ce_value = ov, ce_expires = now + es_cache_ttl sv\<rparr> (es_cache sv)\<rparr>"

definition or_default :: "ent_service \<Rightarrow> entitlement option \<Rightarrow> entitlement" where
  "or_default sv ov = (case ov of None \<Rightarrow> es_default sv | Some e \<Rightarrow> e)"

text \<open>
  \<open>admin\<close> is \<open>bound_unrestricted_admin(user_id)\<close> of the policy context; \<open>fetched\<close> is what
  \<open>store.get\<close> returns or raises, \<open>t\<close> and \<open>t'\<close> the clock at the lookup and at the store.
\<close>

definition get_effective ::
  "ent_service \<Rightarrow> bool \<Rightarrow> bool \<Rightarrow> int \<Rightarrow> int \<Rightarrow> (store_error + entitlement option) \<Rightarrow> string
    \<Rightarrow> entitlement \<times> ent_service" where
  "get_effective sv exempt_admin admin t t' fetched user =
     (if exempt_admin \<and> admin then (unrestricted_admin t, sv)
      else
        let entry = map_of (es_cache sv) user in
        case entry of
          Some c \<Rightarrow>
            if t < ce_expires c then (or_default sv (ce_value c), sv)
            else (case fetched of
                Inr ov \<Rightarrow> (or_default sv ov, cache_put sv t' user ov)
              | Inl _ \<Rightarrow> (case ce_value c of
                    Some e \<Rightarrow> if lim_disabled e then (e, sv) else (es_default sv, sv)
                  | None \<Rightarrow> (es_default sv, sv)))
        | None \<Rightarrow> (case fetched of
              Inr ov \<Rightarrow> (or_default sv ov, cache_put sv t' user ov)
            | Inl _ \<Rightarrow> (es_default sv, sv)))"

definition get_for_admission ::
  "ent_service \<Rightarrow> int \<Rightarrow> int \<Rightarrow> int \<Rightarrow> (store_error + entitlement option)
    \<Rightarrow> (store_error + entitlement option) \<Rightarrow> string \<Rightarrow> (store_error + entitlement) \<times> ent_service" where
  "get_for_admission sv t t' t'' fetched strict user =
     (let (eff, sv1) = get_effective sv False False t t' fetched user in
      if lim_disabled eff then (Inr eff, sv1)
      else case strict of
          Inl e \<Rightarrow> (Inl e, sv1)
        | Inr ov \<Rightarrow>
            if (case ov of None \<Rightarrow> False | Some e \<Rightarrow> ent_id e \<noteq> user \<or> ent_userId e \<noteq> user)
            then (Inl InvalidEntitlementOwner, sv1)
            else let sv2 = cache_put sv1 t'' user ov in (Inr (or_default sv2 ov), sv2))"

definition mk_override :: "string \<Rightarrow> limits \<Rightarrow> int \<Rightarrow> string option \<Rightarrow> entitlement" where
  "mk_override user lims now by = limits.extend lims
     \<lparr>ent_id = user, ent_userId = user, ent_updatedAt = now, ent_updatedBy = by\<rparr>"

text \<open>The admin mutations over any store; a failed write leaves the cache untouched.\<close>

definition set_override ::
  "('st \<Rightarrow> entitlement \<Rightarrow> store_error + 'st) \<Rightarrow> 'st \<Rightarrow> ent_service \<Rightarrow> int \<Rightarrow> int \<Rightarrow> string \<Rightarrow> limits
    \<Rightarrow> string option \<Rightarrow> (store_error + entitlement) \<times> 'st \<times> ent_service" where
  "set_override put st sv now t user lims by =
     (let e = mk_override user lims now by in
      case put st e of
        Inl err \<Rightarrow> (Inl err, st, sv)
      | Inr st' \<Rightarrow> (Inr e, st', cache_put sv t user (Some e)))"

definition clear_override ::
  "('st \<Rightarrow> string \<Rightarrow> store_error + 'st) \<Rightarrow> 'st \<Rightarrow> ent_service \<Rightarrow> int \<Rightarrow> string
    \<Rightarrow> (store_error + unit) \<times> 'st \<times> ent_service" where
  "clear_override del st sv t user =
     (case del st user of
        Inl err \<Rightarrow> (Inl err, st, sv)
      | Inr st' \<Rightarrow> (Inr (), st', cache_put sv t user None))"

section \<open>The per-turn decision\<close>

record window_totals =
  wt_requests :: int
  wt_totalTokens :: int
  wt_costMicroUsd :: int
  wt_computeExecutions :: int

definition deny :: "string \<Rightarrow> int \<Rightarrow> int \<Rightarrow> int \<Rightarrow> string \<Rightarrow> decision" where
  "deny kind limit used retry_after reason = \<lparr>dec_allowed = False, dec_code = 429,
     dec_reason = Some reason, dec_retry_after = Some (min retry_after DAY_SECONDS),
     dec_limit_kind = Some kind, dec_limit = Some limit, dec_used = Some used\<rparr>"

text \<open>
  One stage of \<open>_check_budgets\<close>: the ledger error it raised, the denial it returned or
  \<open>None\<close> to go on, with the windows it read.
\<close>

type_synonym stage = "(unit + decision option) \<times> int list"

fun then_stage :: "stage \<Rightarrow> stage \<Rightarrow> stage" where
  "then_stage (Inr None, l) (r, l') = (r, l @ l')"
| "then_stage (r, l) _ = (r, l)"

definition read_window :: "(int \<Rightarrow> unit + window_totals) \<Rightarrow> int \<Rightarrow> (window_totals \<Rightarrow> decision option) \<Rightarrow> stage" where
  "read_window rd secs f = (case rd secs of Inl e \<Rightarrow> (Inl e, [secs]) | Inr t \<Rightarrow> (Inr (f t), [secs]))"

definition over :: "int option \<Rightarrow> int \<Rightarrow> bool" where
  "over cap used \<longleftrightarrow> (case cap of None \<Rightarrow> False | Some c \<Rightarrow> c \<le> used)"

definition minute_stage :: "(int \<Rightarrow> unit + window_totals) \<Rightarrow> 'a limits_scheme \<Rightarrow> stage" where
  "minute_stage rd ent = (case lim_requestsPerMinute ent of
     None \<Rightarrow> (Inr None, [])
   | Some cap \<Rightarrow> read_window rd MINUTE_SECONDS (\<lambda>t.
       if cap \<le> wt_requests t
       then Some (deny ''requests_per_minute'' cap (wt_requests t) MINUTE_SECONDS
                    ''Rate limit exceeded. Please slow down.'')
       else None))"

definition day_stage ::
  "(int \<Rightarrow> unit + window_totals) \<Rightarrow> 'a limits_scheme \<Rightarrow> int option \<Rightarrow> stage" where
  "day_stage rd ent compute_cap =
     (if lim_tokensPerDay ent \<noteq> None \<or> lim_costPerDayMicroUsd ent \<noteq> None \<or> compute_cap \<noteq> None
      then read_window rd DAY_SECONDS (\<lambda>t.
        if over (lim_tokensPerDay ent) (wt_totalTokens t)
        then Some (deny ''tokens_per_day'' (the (lim_tokensPerDay ent)) (wt_totalTokens t)
                     DAY_SECONDS ''Daily token budget reached.'')
        else if over (lim_costPerDayMicroUsd ent) (wt_costMicroUsd t)
        then Some (deny ''cost_per_day'' (the (lim_costPerDayMicroUsd ent)) (wt_costMicroUsd t)
                     DAY_SECONDS ''Daily cost budget reached.'')
        else if over compute_cap (wt_computeExecutions t)
        then Some (deny ''compute_executions_per_day'' (the compute_cap) (wt_computeExecutions t)
                     DAY_SECONDS ''Daily code-execution budget reached.'')
        else None)
      else (Inr None, []))"

definition month_stage :: "(int \<Rightarrow> unit + window_totals) \<Rightarrow> 'a limits_scheme \<Rightarrow> stage" where
  "month_stage rd ent =
     (if lim_tokensPerMonth ent \<noteq> None \<or> lim_costPerMonthMicroUsd ent \<noteq> None
      then read_window rd MONTH_SECONDS (\<lambda>t.
        if over (lim_tokensPerMonth ent) (wt_totalTokens t)
        then Some (deny ''tokens_per_month'' (the (lim_tokensPerMonth ent)) (wt_totalTokens t)
                     MONTH_SECONDS ''Monthly token budget reached.'')
        else if over (lim_costPerMonthMicroUsd ent) (wt_costMicroUsd t)
        then Some (deny ''cost_per_month'' (the (lim_costPerMonthMicroUsd ent)) (wt_costMicroUsd t)
                     MONTH_SECONDS ''Monthly cost budget reached.'')
        else None)
      else (Inr None, []))"

definition check_budgets ::
  "(int \<Rightarrow> unit + window_totals) \<Rightarrow> 'a limits_scheme \<Rightarrow> scope \<Rightarrow> (unit + decision) \<times> int list" where
  "check_budgets rd ent sc =
     (let compute_cap = (if sc = Compute then lim_computeExecutionsPerDay ent else None) in
      case then_stage (minute_stage rd ent)
             (then_stage (day_stage rd ent compute_cap) (month_stage rd ent)) of
        (Inl e, l) \<Rightarrow> (Inl e, l)
      | (Inr (Some d), l) \<Rightarrow> (Inr d, l)
      | (Inr None, l) \<Rightarrow> (Inr allow, l))"

definition check_limits ::
  "bool \<Rightarrow> (int \<Rightarrow> unit + window_totals) \<Rightarrow> 'a limits_scheme \<Rightarrow> scope \<Rightarrow> bool \<Rightarrow> decision \<times> int list" where
  "check_limits enabled rd ent sc failure_unavailable =
     (if lim_disabled ent
      then ((refuse 403 ''This account is not permitted to send chat messages.'')
              \<lparr>dec_limit_kind := Some ''disabled''\<rparr>, [])
      else if \<not> enabled \<or> is_unlimited ent then (allow, [])
      else case check_budgets rd ent sc of
          (Inr d, l) \<Rightarrow> (d, l)
        | (Inl _, l) \<Rightarrow>
            (if failure_unavailable then refuse 503 ''Usage limits are temporarily unavailable.''
             else allow, l))"

text \<open>
  \<open>check\<close>: the policy binding of the task, when it is enabled, decides which limits apply and
  may refuse before them. What the binding resolves to comes from the policy service.
\<close>

record policy_view =
  pv_enabled :: bool
  pv_owner_id :: string
  pv_allowed :: bool
  pv_unavailable :: bool
  pv_reason :: string
  pv_limits :: entitlement

definition check ::
  "ent_service \<Rightarrow> policy_view option \<Rightarrow> bool \<Rightarrow> int \<Rightarrow> int \<Rightarrow> (store_error + entitlement option)
    \<Rightarrow> (int \<Rightarrow> unit + window_totals) \<Rightarrow> string \<Rightarrow> scope \<Rightarrow> decision \<times> int list \<times> ent_service" where
  "check sv binding admin t t' fetched rd user sc =
     (case binding of
        Some b \<Rightarrow>
          if pv_enabled b then
            (if pv_owner_id b \<noteq> user then (refuse 403 ''Policy owner mismatch.'', [], sv)
             else if \<not> pv_allowed b
             then (refuse (if pv_unavailable b then 503 else 403) (pv_reason b), [], sv)
             else let (d, l) = check_limits (es_enabled sv) rd (pv_limits b) sc True in (d, l, sv))
          else (let (ent, sv') = get_effective sv True admin t t' fetched user;
                    (d, l) = check_limits (es_enabled sv) rd ent sc False in (d, l, sv'))
      | None \<Rightarrow> (let (ent, sv') = get_effective sv True admin t t' fetched user;
                     (d, l) = check_limits (es_enabled sv) rd ent sc False in (d, l, sv')))"

section \<open>Resolution laws\<close>

lemma cache_put_lookup [simp]:
  "map_of (es_cache (cache_put sv t u ov)) v =
     (if v = u then Some \<lparr>ce_value = ov, ce_expires = t + es_cache_ttl sv\<rparr> else map_of (es_cache sv) v)"
  by (simp add: cache_put_def map_of_update)

lemma cache_put_fields [simp]:
  "es_default (cache_put sv t u ov) = es_default sv"
  "es_enabled (cache_put sv t u ov) = es_enabled sv"
  "es_cache_ttl (cache_put sv t u ov) = es_cache_ttl sv"
  by (simp_all add: cache_put_def)

lemma or_default_cache_put [simp]: "or_default (cache_put sv t u ov) = or_default sv"
  by (simp add: or_default_def fun_eq_iff split: option.split)

text \<open>
  When the cached value and the store agree on a user, resolution returns that value whatever
  the clock says: a fresh entry serves it, an expired one is refetched.
\<close>

lemma get_effective_agree:
  assumes "map_of (es_cache sv) u = Some c" "ce_value c = ov" "fetched = Inr ov" "\<not> (ex \<and> admin)"
  shows "fst (get_effective sv ex admin t t' fetched u) = or_default sv ov"
  using assms by (auto simp: get_effective_def)

lemma get_effective_other_user:
  assumes "v \<noteq> u"
  shows "fst (get_effective (cache_put sv s u ov) ex admin t t' fetched v)
       = fst (get_effective sv ex admin t t' fetched v)"
  using assms by (auto simp: get_effective_def Let_def or_default_def split: option.splits sum.splits)

locale override_store =
  fixes get :: "'st \<Rightarrow> string \<Rightarrow> store_error + entitlement option"
    and put :: "'st \<Rightarrow> entitlement \<Rightarrow> store_error + 'st"
    and del :: "'st \<Rightarrow> string \<Rightarrow> store_error + 'st"
  assumes get_put: "put st e = Inr st' \<Longrightarrow>
      get st' v = (if v = ent_userId e then Inr (Some e) else get st v)"
    and get_del: "del st u = Inr st' \<Longrightarrow> get st' v = (if v = u then Inr None else get st v)"
begin

lemma set_result:
  assumes "set_override put st sv now t u lims by = (Inr e, st', sv')"
  shows "e = mk_override u lims now by \<and> put st e = Inr st' \<and> sv' = cache_put sv t u (Some e)"
  using assms by (auto simp: set_override_def Let_def split: sum.splits)

lemma set_then_effective:
  assumes "set_override put st sv now t u lims by = (Inr e, st', sv')" "\<not> (ex \<and> admin)"
  shows "fst (get_effective sv' ex admin s s' (get st' u) u) = e"
proof -
  note r = set_result [OF assms(1)]
  have "ent_userId e = u" using r by (simp add: mk_override_def limits.extend_def)
  then have "get st' u = Inr (Some e)" using r get_put by auto
  then show ?thesis
    using r assms(2) get_effective_agree [of sv' u _ "Some e"] by (simp add: or_default_def)
qed

lemma clear_then_effective:
  assumes "clear_override del st sv t u = (Inr (), st', sv')" "\<not> (ex \<and> admin)"
  shows "fst (get_effective sv' ex admin s s' (get st' u) u) = es_default sv"
proof -
  from assms(1) have "del st u = Inr st'" "sv' = cache_put sv t u None"
    by (auto simp: clear_override_def split: sum.splits)
  moreover from this have "get st' u = Inr None" using get_del by simp
  ultimately show ?thesis
    using assms(2) get_effective_agree [of sv' u _ None] by (simp add: or_default_def)
qed

lemma set_isolated:
  assumes "set_override put st sv now t u lims by = (Inr e, st', sv')" "v \<noteq> u"
  shows "fst (get_effective sv' ex admin s s' (get st' v) v)
       = fst (get_effective sv ex admin s s' (get st v) v)"
proof -
  note r = set_result [OF assms(1)]
  have "ent_userId e = u" using r by (simp add: mk_override_def limits.extend_def)
  then have "get st' v = get st v" using r assms(2) get_put by auto
  then show ?thesis using r assms(2) get_effective_other_user by metis
qed

end

interpretation mem_store: override_store mem_get mem_put mem_delete
  by unfold_locales (auto simp: mem_get_def mem_put_def mem_delete_def map_of_update delete_conv')

section \<open>The budget decision\<close>

text \<open>What each stage promises of its answer, when the ledger answers every read.\<close>

lemma minute_stage_none:
  assumes "\<And>s. rd s = Inr (tot s)"
  shows "fst (minute_stage rd ent) = Inr None \<longleftrightarrow>
    \<not> over (lim_requestsPerMinute ent) (wt_requests (tot MINUTE_SECONDS))"
  by (auto simp: minute_stage_def read_window_def assms over_def split: option.splits)

lemma day_stage_none:
  assumes "\<And>s. rd s = Inr (tot s)"
  shows "fst (day_stage rd ent cap) = Inr None \<longleftrightarrow>
    \<not> over (lim_tokensPerDay ent) (wt_totalTokens (tot DAY_SECONDS))
    \<and> \<not> over (lim_costPerDayMicroUsd ent) (wt_costMicroUsd (tot DAY_SECONDS))
    \<and> \<not> over cap (wt_computeExecutions (tot DAY_SECONDS))"
  by (auto simp: day_stage_def read_window_def assms over_def)

lemma month_stage_none:
  assumes "\<And>s. rd s = Inr (tot s)"
  shows "fst (month_stage rd ent) = Inr None \<longleftrightarrow>
    \<not> over (lim_tokensPerMonth ent) (wt_totalTokens (tot MONTH_SECONDS))
    \<and> \<not> over (lim_costPerMonthMicroUsd ent) (wt_costMicroUsd (tot MONTH_SECONDS))"
  by (auto simp: month_stage_def read_window_def assms over_def)

lemma then_stage_none:
  "fst (then_stage a b) = Inr None \<longleftrightarrow> fst a = Inr None \<and> fst b = Inr None"
  by (cases "(a, b)" rule: then_stage.cases; cases b) auto

lemma then_stage_some:
  "fst (then_stage a b) = Inr (Some d) \<Longrightarrow> fst a = Inr (Some d) \<or> fst b = Inr (Some d)"
  by (cases "(a, b)" rule: then_stage.cases; cases b) auto

lemma then_stage_ok: "is_ok (fst a) \<Longrightarrow> is_ok (fst b) \<Longrightarrow> is_ok (fst (then_stage a b))"
  by (cases "(a, b)" rule: then_stage.cases; cases b) auto

lemma stages_deny:
  assumes "fst (minute_stage rd ent) = Inr (Some d) \<or> fst (day_stage rd ent cap) = Inr (Some d)
      \<or> fst (month_stage rd ent) = Inr (Some d)"
  shows "\<not> dec_allowed d \<and> dec_code d = 429 \<and> dec_retry_after d \<in> {Some MINUTE_SECONDS, Some DAY_SECONDS}"
  using assms
proof (elim disjE)
  assume "fst (minute_stage rd ent) = Inr (Some d)"
  then show ?thesis
    by (auto simp: minute_stage_def read_window_def deny_def window_seconds
        split: option.splits sum.splits if_splits)
next
  assume "fst (day_stage rd ent cap) = Inr (Some d)"
  then show ?thesis
    by (auto simp: day_stage_def read_window_def deny_def window_seconds
        split: sum.splits if_split_asm)
next
  assume "fst (month_stage rd ent) = Inr (Some d)"
  then show ?thesis
    by (auto simp: month_stage_def read_window_def deny_def window_seconds
        split: sum.splits if_split_asm)
qed

lemma stages_ok:
  assumes "\<And>s. rd s = Inr (tot s)"
  shows "is_ok (fst (minute_stage rd ent))" "is_ok (fst (day_stage rd ent cap))"
    "is_ok (fst (month_stage rd ent))"
  unfolding minute_stage_def day_stage_def month_stage_def read_window_def assms
  by (simp_all split: option.split)

lemma check_budgets_decision:
  assumes tot: "\<And>s. rd s = Inr (tot s)"
    and cap: "cap = (if sc = Compute then lim_computeExecutionsPerDay ent else None)"
  shows "\<exists>d. fst (check_budgets rd ent sc) = Inr d \<and>
    (dec_allowed d \<longleftrightarrow> fst (then_stage (minute_stage rd ent)
        (then_stage (day_stage rd ent cap) (month_stage rd ent))) = Inr None) \<and>
    (\<not> dec_allowed d \<longrightarrow> dec_code d = 429 \<and> dec_retry_after d \<in> {Some MINUTE_SECONDS, Some DAY_SECONDS})"
proof -
  let ?s = "then_stage (minute_stage rd ent) (then_stage (day_stage rd ent cap) (month_stage rd ent))"
  have "is_ok (fst ?s)" by (intro then_stage_ok stages_ok [OF tot])
  then obtain r l where s: "?s = (Inr r, l)" by (cases ?s) (auto simp: is_ok_iff)
  show ?thesis
  proof (cases r)
    case None
    with s cap show ?thesis by (simp add: check_budgets_def allow_def Let_def)
  next
    case (Some d)
    with s have "fst ?s = Inr (Some d)" by simp
    then have "\<not> dec_allowed d \<and> dec_code d = 429
        \<and> dec_retry_after d \<in> {Some MINUTE_SECONDS, Some DAY_SECONDS}"
      by (intro stages_deny [of rd ent d cap]) (auto dest!: then_stage_some)
    with s cap Some show ?thesis by (simp add: check_budgets_def Let_def)
  qed
qed

section \<open>Properties\<close>

text \<open>
  an admin's override is what every later resolution of that user returns on the replica
  that wrote it, at any clock reading, and no other user's resolution changes. Likewise a
  cleared override resolves to the default.
\<close>

theorem override_takes_effect:
  assumes "set_override mem_put st sv now t u lims by = (Inr e, st', sv')"
  shows "fst (get_effective sv' ex False s s' (mem_get st' u) u) = e
    \<and> (v \<noteq> u \<longrightarrow> fst (get_effective sv' ex admin s s' (mem_get st' v) v)
                  = fst (get_effective sv ex admin s s' (mem_get st v) v))"
  using mem_store.set_then_effective [OF assms, of ex False s s']
    mem_store.set_isolated [OF assms] by blast

theorem override_takes_effect_witness:
  "fst (get_effective (snd (snd (set_override mem_put [] (new_service (unlimited [] 0) True 30) 5 7 ''u''
       (default_limits\<lparr>lim_disabled := True\<rparr>) None))) False False 9000 9001
       (mem_get (fst (snd (set_override mem_put [] (new_service (unlimited [] 0) True 30) 5 7 ''u''
       (default_limits\<lparr>lim_disabled := True\<rparr>) None))) ''u'') ''u'')
   = mk_override ''u'' (default_limits\<lparr>lim_disabled := True\<rparr>) 5 None"
proof -
  obtain st' sv' where s: "set_override mem_put [] (new_service (unlimited [] 0) True 30) 5 7 ''u''
      (default_limits\<lparr>lim_disabled := True\<rparr>) None
    = (Inr (mk_override ''u'' (default_limits\<lparr>lim_disabled := True\<rparr>) 5 None), st', sv')"
    by (simp add: set_override_def mem_put_def Let_def)
  from override_takes_effect [OF s, of False 9000 9001] s show ?thesis by simp
qed

text \<open>
  a deliberate block survives an outage. Once a disabled policy is cached, resolution with
  the store down returns a disabled policy however stale the entry, and the per-turn check
  refuses with 403 without reading the ledger; any other cached policy fails open to the default.
\<close>

theorem disabled_survives_outage:
  assumes "map_of (es_cache sv) u = Some c" "ce_value c = Some e" "fetched = Inl err"
  shows "(lim_disabled e \<longrightarrow>
      fst (get_effective sv ex False t t' fetched u) = e
      \<and> dec_code (fst (check sv None False t t' fetched rd u sc)) = 403
      \<and> fst (snd (check sv None False t t' fetched rd u sc)) = [])
    \<and> (\<not> lim_disabled e \<and> ce_expires c \<le> t \<longrightarrow>
      fst (get_effective sv ex False t t' fetched u) = es_default sv)"
  using assms
  by (auto simp: get_effective_def or_default_def check_def check_limits_def refuse_def)

theorem disabled_survives_outage_witness:
  "dec_code (fst (check (cache_put (new_service (unlimited [] 0) True 30) 0 ''u''
      (Some (mk_override ''u'' (default_limits\<lparr>lim_disabled := True\<rparr>) 0 None)))
      None False 500 501 (Inl StoreUnavailable) (\<lambda>_. Inl ()) ''u'' Chat)) = 403"
  using disabled_survives_outage
    [of "cache_put (new_service (unlimited [] 0) True 30) 0 ''u''
      (Some (mk_override ''u'' (default_limits\<lparr>lim_disabled := True\<rparr>) 0 None))" "''u''"
      "\<lparr>ce_value = Some (mk_override ''u'' (default_limits\<lparr>lim_disabled := True\<rparr>) 0 None),
        ce_expires = 30\<rparr>" "mk_override ''u'' (default_limits\<lparr>lim_disabled := True\<rparr>) 0 None"
      "Inl StoreUnavailable" StoreUnavailable False 500 501 "\<lambda>_. Inl ()" Chat]
  by (simp add: new_service_def mk_override_def limits.extend_def default_limits_def)

text \<open>
  C27: with a ledger that answers, the budget check allows a turn exactly when no limit that
  applies to its scope is reached: the minute rate, both daily budgets, the daily sandbox
  allowance on the compute scope only, and both monthly budgets. Every refusal is a 429 whose
  retry hint is the minute or at most a day.
\<close>

theorem check_budgets_iff:
  shows "\<exists>d. fst (check_budgets (\<lambda>s. Inr (tot s)) ent sc) = Inr d
    \<and> (dec_allowed d \<longleftrightarrow>
        \<not> over (lim_requestsPerMinute ent) (wt_requests (tot MINUTE_SECONDS))
      \<and> \<not> over (lim_tokensPerDay ent) (wt_totalTokens (tot DAY_SECONDS))
      \<and> \<not> over (lim_costPerDayMicroUsd ent) (wt_costMicroUsd (tot DAY_SECONDS))
      \<and> (sc = Compute \<longrightarrow>
           \<not> over (lim_computeExecutionsPerDay ent) (wt_computeExecutions (tot DAY_SECONDS)))
      \<and> \<not> over (lim_tokensPerMonth ent) (wt_totalTokens (tot MONTH_SECONDS))
      \<and> \<not> over (lim_costPerMonthMicroUsd ent) (wt_costMicroUsd (tot MONTH_SECONDS)))
    \<and> (\<not> dec_allowed d \<longrightarrow>
         dec_code d = 429 \<and> dec_retry_after d \<in> {Some MINUTE_SECONDS, Some DAY_SECONDS})"
proof -
  let ?rd = "\<lambda>s. Inr (tot s)" and ?cap = "if sc = Compute then lim_computeExecutionsPerDay ent else None"
  have ans: "?rd s = Inr (tot s)" for s by simp
  from check_budgets_decision [of ?rd tot ?cap sc ent, OF ans refl]
  obtain d where d: "fst (check_budgets ?rd ent sc) = Inr d"
    "dec_allowed d \<longleftrightarrow> fst (then_stage (minute_stage ?rd ent)
        (then_stage (day_stage ?rd ent ?cap) (month_stage ?rd ent))) = Inr None"
    "\<not> dec_allowed d \<longrightarrow> dec_code d = 429 \<and> dec_retry_after d \<in> {Some MINUTE_SECONDS, Some DAY_SECONDS}"
    by blast
  have "over ?cap n \<longleftrightarrow> sc = Compute \<and> over (lim_computeExecutionsPerDay ent) n" for n
    by (simp add: over_def)
  with d show ?thesis
    unfolding then_stage_none minute_stage_none [of ?rd tot, OF ans] day_stage_none [of ?rd tot, OF ans]
      month_stage_none [of ?rd tot, OF ans]
    by (intro exI [of _ d]) simp
qed

theorem check_budgets_iff_witness:
  "\<exists>d. fst (check_budgets (\<lambda>_. Inr \<lparr>wt_requests = 3, wt_totalTokens = 10, wt_costMicroUsd = 0,
       wt_computeExecutions = 2\<rparr>) (default_limits\<lparr>lim_computeExecutionsPerDay := Some 2\<rparr>) Chat)
     = Inr d \<and> dec_allowed d"
  using check_budgets_iff [of "\<lambda>_. \<lparr>wt_requests = 3, wt_totalTokens = 10, wt_costMicroUsd = 0,
       wt_computeExecutions = 2\<rparr>" "default_limits\<lparr>lim_computeExecutionsPerDay := Some 2\<rparr>" Chat]
  by (auto simp: over_def default_limits_def)

text \<open>
  Hard admission never inherits a soft fallback. Its answer is either a disabled policy or
  exactly what the strict store read returned (the default when there is no override), so a
  cached cap or the fail-open default can not stand in for a failed strict read.
\<close>

theorem admission_policy_is_strict:
  assumes "get_for_admission sv t t' t'' fetched strict u = (Inr e, sv')"
  shows "lim_disabled e \<or> (\<exists>ov. strict = Inr ov \<and> e = or_default sv ov
      \<and> (\<forall>x. ov = Some x \<longrightarrow> ent_id x = u \<and> ent_userId x = u))"
proof -
  obtain eff sv1 where g: "get_effective sv False False t t' fetched u = (eff, sv1)" by fastforce
  then have "or_default sv1 = or_default sv"
    by (auto simp: get_effective_def Let_def split: option.splits sum.splits if_splits)
  with assms g show ?thesis
    by (auto simp: get_for_admission_def Let_def split: option.splits sum.splits if_splits)
qed

theorem admission_policy_is_strict_witness:
  "fst (get_for_admission (new_service (unlimited [] 0) True 30) 0 0 0 (Inl StoreUnavailable) (Inr None) ''u'')
     = Inr (unlimited [] 0)
   \<and> \<not> lim_disabled (unlimited [] 0)"
  using admission_policy_is_strict [of "new_service (unlimited [] 0) True 30" 0 0 0
      "Inl StoreUnavailable" "Inr None" "''u''" "unlimited [] 0"]
  by (simp add: get_for_admission_def get_effective_def new_service_def or_default_def)

end
