(* ===== verification/Quota_Models.thy ===== *)
theory Quota_Models
  imports Json Entitlements
begin

text \<open>
  The persisted contract of hard admission, \<open>hard_quota/models.py\<close>: amounts, bounds,
  reservations and the per-owner state document, with the field constraints and the validators
  that decide which documents are accounting at all, the JSON document they serialise to, the
  size bound, the transition-capacity envelope and the operation identity.

  \<open>hashlib.sha256(...).hexdigest()\<close> is a parameter \<open>sha\<close> from text to text.
\<close>

section \<open>Constants and enumerations\<close>

definition MAX_ENTRIES :: nat where "MAX_ENTRIES = 1024"

definition MAX_STATE_BYTES :: nat where "MAX_STATE_BYTES = 512 * 1024"

definition REPLAY_SECONDS :: int where "REPLAY_SECONDS = MONTH_SECONDS"

definition REQUEST_COUNT_REPLAY_SECONDS :: int where "REQUEST_COUNT_REPLAY_SECONDS = 300"

definition RESERVATION_SECONDS :: int where "RESERVATION_SECONDS = 120"

definition MAX_ADMISSION_EVIDENCE :: nat where "MAX_ADMISSION_EVIDENCE = 8"

definition MAX_QUANTITY :: int where "MAX_QUANTITY = 2 ^ 53 - 1"

datatype surface = SChat | SEmbedding | SImage | SVideo | STranscription | SSpeech | SRealtime
  | SCompute | SDocument | SWebSearch | SMcp | SExternalTool | SAvatar | SAvatarLive | SDecision

datatype outcome = OComplete | OCancelled | OError | OTimeout | OUnknown

datatype phase = Reserved | Dispatched | Settled | Unknown | Released

datatype basis = RequestV1 | CatalogTextV1 | CatalogEmbeddingV1 | ComputeV1

datatype limit_name = RequestsPerMinute | TokensPerDay | TokensPerMonth | CostPerDayMicroUsd
  | CostPerMonthMicroUsd | ComputeExecutionsPerDay

fun surface_name :: "surface \<Rightarrow> string" where
  "surface_name SChat = ''chat''"
| "surface_name SEmbedding = ''embedding''"
| "surface_name SImage = ''image''"
| "surface_name SVideo = ''video''"
| "surface_name STranscription = ''transcription''"
| "surface_name SSpeech = ''speech''"
| "surface_name SRealtime = ''realtime''"
| "surface_name SCompute = ''compute''"
| "surface_name SDocument = ''document''"
| "surface_name SWebSearch = ''web_search''"
| "surface_name SMcp = ''mcp''"
| "surface_name SExternalTool = ''external_tool''"
| "surface_name SAvatar = ''avatar''"
| "surface_name SAvatarLive = ''avatar_live''"
| "surface_name SDecision = ''decision''"

fun outcome_name :: "outcome \<Rightarrow> string" where
  "outcome_name OComplete = ''complete''"
| "outcome_name OCancelled = ''cancelled''"
| "outcome_name OError = ''error''"
| "outcome_name OTimeout = ''timeout''"
| "outcome_name OUnknown = ''unknown''"

fun phase_name :: "phase \<Rightarrow> string" where
  "phase_name Reserved = ''reserved''"
| "phase_name Dispatched = ''dispatched''"
| "phase_name Settled = ''settled''"
| "phase_name Unknown = ''unknown''"
| "phase_name Released = ''released''"

fun basis_name :: "basis \<Rightarrow> string" where
  "basis_name RequestV1 = ''request-v1''"
| "basis_name CatalogTextV1 = ''catalog-text-v1''"
| "basis_name CatalogEmbeddingV1 = ''catalog-embedding-v1''"
| "basis_name ComputeV1 = ''compute-v1''"

text \<open>Every refusal has its own constructor in place of its message, and carries its code.\<close>

datatype quota_reason =
    InvalidOperationIdentity | CapacityExhausted | IdentityExpired | NotOneDispatch
  | ComputeUnitsMismatch | AccountDisabled | BoundsOutsideRollout | NeedsReconciliation
  | PayloadChanged | LimitOutsideRollout limit_name | UnsupportedUnder limit_name
  | HistoryBeforeCutover limit_name | UnknownPriorUsage limit_name | WouldExceed limit_name
  | AlreadyClaimed | NotOwned | SettlementChanged | NotDispatched | CannotRelease
  | OwnerMismatch | StateIncompatible | StateExists | StateAbsent | CoordinationBusy
  | CoordinationUnavailable | MissingEtag | WriteUnavailable | LayoutIncompatible
  | ClockUnavailable | PolicyChanged | NoAuthenticatedOwner | IncompatibleCoordination
  | WorkflowOwnerMismatch | NoAttemptBinding

datatype quota_exn = QuotaError quota_reason int | ValidationError | ValueError | AssertionError

abbreviation quota_error :: "quota_reason \<Rightarrow> quota_exn" where
  "quota_error r \<equiv> QuotaError r 503"

section \<open>Records\<close>

record amounts =
  am_requests :: int
  am_tokens :: "int option"
  am_microUsd :: "int option"
  am_compute :: int

definition default_amounts :: amounts where
  "default_amounts = \<lparr>am_requests = 1, am_tokens = None, am_microUsd = None, am_compute = 0\<rparr>"

definition zero_amounts :: amounts where
  "zero_amounts = \<lparr>am_requests = 0, am_tokens = Some 0, am_microUsd = Some 0, am_compute = 0\<rparr>"

record bounds =
  bd_amounts :: amounts
  bd_basis :: basis
  bd_priceVersion :: "string option"
  bd_inputRate :: "string option"
  bd_outputRate :: "string option"
  bd_attemptVersion :: "string option"
  bd_maxAttempts :: "int option"

record reservation =
  rs_operationId :: string
  rs_payloadDigest :: string
  rs_surface :: surface
  rs_bounds :: bounds
  rs_phase :: phase
  rs_reservedAt :: int
  rs_expiresAt :: int
  rs_dispatchedAt :: "int option"
  rs_settledAt :: "int option"
  rs_outcome :: "outcome option"
  rs_settlementDigest :: "string option"
  rs_charged :: amounts

record quota_state =
  qs_userId :: string
  qs_epoch :: string
  qs_validAfter :: int
  qs_replayFloor :: int
  qs_observedAt :: int
  qs_blocked :: bool
  qs_entries :: "(string, reservation) dict"

record snapshot =
  sn_state :: quota_state
  sn_etag :: string
  sn_now :: int

section \<open>Derived facts of a reservation\<close>

abbreviation bound_amounts :: "reservation \<Rightarrow> amounts" where
  "bound_amounts r \<equiv> bd_amounts (rs_bounds r)"

definition has_complete_usage :: "reservation \<Rightarrow> outcome option \<Rightarrow> amounts option \<Rightarrow> bool" where
  "has_complete_usage r out actual \<longleftrightarrow> out = Some OComplete \<and>
     (case actual of None \<Rightarrow> False
      | Some a \<Rightarrow> (am_tokens (bound_amounts r) = None \<or> am_tokens a \<noteq> None)
               \<and> (am_microUsd (bound_amounts r) = None \<or> am_microUsd a \<noteq> None))"

definition request_only :: "reservation \<Rightarrow> bool" where
  "request_only r \<longleftrightarrow> am_tokens (bound_amounts r) = None \<and> am_microUsd (bound_amounts r) = None"

definition is_attempt_settlement :: "reservation \<Rightarrow> outcome option \<Rightarrow> amounts \<Rightarrow> bool" where
  "is_attempt_settlement r out charged \<longleftrightarrow>
     request_only r \<and> out \<noteq> None \<and> charged = bound_amounts r"

definition above :: "int option \<Rightarrow> int option \<Rightarrow> bool" where
  "above charge bound \<longleftrightarrow> (case (bound, charge) of (Some b, Some c) \<Rightarrow> b < c | _ \<Rightarrow> False)"

definition exceeds_bound :: "reservation \<Rightarrow> bool" where
  "exceeds_bound r \<longleftrightarrow> rs_phase r = Settled \<and>
     (above (am_tokens (rs_charged r)) (am_tokens (bound_amounts r))
      \<or> above (am_microUsd (rs_charged r)) (am_microUsd (bound_amounts r)))"

definition protected :: "reservation \<Rightarrow> bool" where
  "protected r \<longleftrightarrow> rs_phase r = Reserved \<or> rs_phase r = Dispatched \<or> rs_phase r = Unknown"

section \<open>Operation identity\<close>

definition is_hex :: "nat \<Rightarrow> string \<Rightarrow> bool" where
  "is_hex n s \<longleftrightarrow> length s = n \<and> list_all is_lower_hex s"

definition parse_operation_id :: "string \<Rightarrow> quota_exn + (string \<times> int)" where
  "parse_operation_id v =
     (let epoch = take 32 v; rest = drop 32 v; ds = takeWhile is_digit (tl rest);
          tail = dropWhile is_digit (tl rest)
      in if is_hex 32 epoch \<and> rest \<noteq> [] \<and> hd rest = CHR ''.''
            \<and> 1 \<le> length ds \<and> length ds \<le> 16
            \<and> tail \<noteq> [] \<and> hd tail = CHR ''.'' \<and> is_hex 64 (tl tail)
         then Inr (epoch, int (nat_of_digits ds))
         else Inl (QuotaError InvalidOperationIdentity 409))"

definition operation_id :: "(string \<Rightarrow> string) \<Rightarrow> string \<Rightarrow> int \<Rightarrow> string \<Rightarrow> quota_exn + string" where
  "operation_id sha epoch issued_at key =
     (let result = epoch @ ''.'' @ show_int issued_at @ ''.'' @ sha key in
      bindE (parse_operation_id result) (\<lambda>_. Inr result))"

section \<open>Validation\<close>

definition count_ok :: "int \<Rightarrow> bool" where
  "count_ok n \<longleftrightarrow> 0 \<le> n \<and> n \<le> MAX_QUANTITY"

definition opt_ok :: "('a \<Rightarrow> bool) \<Rightarrow> 'a option \<Rightarrow> bool" where
  "opt_ok p x \<longleftrightarrow> (case x of None \<Rightarrow> True | Some v \<Rightarrow> p v)"

lemma opt_ok_simps [simp]: "opt_ok p None" "opt_ok p (Some v) = p v"
  by (simp_all add: opt_ok_def)

definition max_len :: "nat \<Rightarrow> string \<Rightarrow> bool" where
  "max_len n s \<longleftrightarrow> length s \<le> n"

definition amounts_ok :: "amounts \<Rightarrow> bool" where
  "amounts_ok a \<longleftrightarrow> count_ok (am_requests a) \<and> opt_ok count_ok (am_tokens a)
     \<and> opt_ok count_ok (am_microUsd a) \<and> count_ok (am_compute a)"

definition dollar_bound_ok :: "bounds \<Rightarrow> bool" where
  "dollar_bound_ok b \<longleftrightarrow> am_microUsd (bd_amounts b) = None \<or>
     \<not> (bd_priceVersion b = None \<or> bd_priceVersion b = Some [] \<or> bd_inputRate b = None
        \<or> bd_outputRate b = None \<or> bd_attemptVersion b = None \<or> bd_attemptVersion b = Some []
        \<or> (case bd_maxAttempts b of None \<Rightarrow> True | Some n \<Rightarrow> n < 1))"

definition bounds_ok :: "bounds \<Rightarrow> bool" where
  "bounds_ok b \<longleftrightarrow> amounts_ok (bd_amounts b) \<and> opt_ok (max_len 96) (bd_priceVersion b)
     \<and> opt_ok (max_len 40) (bd_inputRate b) \<and> opt_ok (max_len 40) (bd_outputRate b)
     \<and> opt_ok (max_len 96) (bd_attemptVersion b) \<and> opt_ok count_ok (bd_maxAttempts b)
     \<and> dollar_bound_ok b"

definition reservation_ok :: "reservation \<Rightarrow> bool" where
  "reservation_ok r \<longleftrightarrow> max_len 120 (rs_operationId r) \<and> is_hex 64 (rs_payloadDigest r)
     \<and> bounds_ok (rs_bounds r) \<and> count_ok (rs_reservedAt r) \<and> count_ok (rs_expiresAt r)
     \<and> opt_ok count_ok (rs_dispatchedAt r) \<and> opt_ok count_ok (rs_settledAt r)
     \<and> opt_ok (is_hex 64) (rs_settlementDigest r) \<and> amounts_ok (rs_charged r)"

definition state_fields_ok :: "quota_state \<Rightarrow> bool" where
  "state_fields_ok s \<longleftrightarrow> 1 \<le> length (qs_userId s) \<and> length (qs_userId s) \<le> 128
     \<and> is_hex 32 (qs_epoch s) \<and> count_ok (qs_validAfter s) \<and> count_ok (qs_replayFloor s)
     \<and> count_ok (qs_observedAt s) \<and> length (qs_entries s) \<le> MAX_ENTRIES
     \<and> list_all (\<lambda>(k, r). reservation_ok r) (qs_entries s)"

definition compute_units :: "surface \<Rightarrow> int" where
  "compute_units sf = (if sf = SCompute then 1 else 0)"

text \<open>The checks of \<open>validate_entries\<close> before and after the identity is parsed.\<close>

definition entry_shape_ok :: "string \<Rightarrow> reservation \<Rightarrow> bool" where
  "entry_shape_ok key r \<longleftrightarrow>
     (let units = compute_units (rs_surface r); rel = (rs_phase r = Released) in
      am_requests (bound_amounts r) = 1 \<and> am_compute (bound_amounts r) = units
      \<and> am_requests (rs_charged r) = (if rel then 0 else 1)
      \<and> am_compute (rs_charged r) = (if rel then 0 else units)
      \<and> key = rs_operationId r)"

definition entry_scope_ok :: "quota_state \<Rightarrow> string \<times> int \<Rightarrow> bool" where
  "entry_scope_ok s ei \<longleftrightarrow> fst ei = qs_epoch s \<and> qs_validAfter s \<le> snd ei"

definition entry_phase_ok :: "reservation \<Rightarrow> bool" where
  "entry_phase_ok r \<longleftrightarrow>
     rs_reservedAt r \<le> rs_expiresAt r
     \<and> (rs_phase r \<in> {Reserved, Released} \<longrightarrow> rs_dispatchedAt r = None)
     \<and> (rs_phase r \<in> {Dispatched, Settled, Unknown} \<longrightarrow> rs_dispatchedAt r \<noteq> None)
     \<and> (rs_phase r \<in> {Settled, Unknown, Released} \<longrightarrow> rs_settledAt r \<noteq> None)
     \<and> (rs_phase r \<in> {Reserved, Dispatched} \<longrightarrow> rs_settledAt r = None)
     \<and> (if rs_phase r \<in> {Settled, Unknown}
        then rs_outcome r \<noteq> None \<and> rs_settlementDigest r \<noteq> None
          \<and> (rs_phase r = Settled \<longrightarrow> has_complete_usage r (rs_outcome r) (Some (rs_charged r))
              \<or> is_attempt_settlement r (rs_outcome r) (rs_charged r))
        else rs_outcome r = None \<and> rs_settlementDigest r = None)"

definition entry_charge_ok :: "quota_state \<Rightarrow> reservation \<Rightarrow> bool" where
  "entry_charge_ok s r \<longleftrightarrow>
     (exceeds_bound r \<longrightarrow> qs_blocked s)
     \<and> (rs_phase r = Released \<longrightarrow> rs_charged r = zero_amounts)
     \<and> (protected r \<longrightarrow> rs_charged r = bound_amounts r)"

definition entry_time_ok :: "quota_state \<Rightarrow> reservation \<Rightarrow> bool" where
  "entry_time_ok s r \<longleftrightarrow>
     rs_reservedAt r \<le> qs_observedAt s
     \<and> (case rs_dispatchedAt r of None \<Rightarrow> True
        | Some d \<Rightarrow> rs_reservedAt r \<le> d \<and> d \<le> rs_expiresAt r \<and> d \<le> qs_observedAt s)
     \<and> (case rs_settledAt r of None \<Rightarrow> True
        | Some t \<Rightarrow> rs_reservedAt r \<le> t \<and> t \<le> qs_observedAt s
            \<and> (case rs_dispatchedAt r of None \<Rightarrow> True | Some d \<Rightarrow> d \<le> t))"

definition validate_entry :: "quota_state \<Rightarrow> string \<times> reservation \<Rightarrow> quota_exn + unit" where
  "validate_entry s kr =
     (let (key, r) = kr in
      bindE (ensure (entry_shape_ok key r) ValidationError) (\<lambda>_.
      bindE (parse_operation_id key) (\<lambda>ei.
      ensure (entry_scope_ok s ei \<and> entry_phase_ok r \<and> entry_charge_ok s r \<and> entry_time_ok s r)
        ValidationError)))"

fun validate_all :: "quota_state \<Rightarrow> (string, reservation) dict \<Rightarrow> quota_exn + unit" where
  "validate_all s [] = Inr ()"
| "validate_all s (kr # krs) = bindE (validate_entry s kr) (\<lambda>_. validate_all s krs)"

text \<open>\<open>QuotaState.model_validate\<close>: field constraints, then the model's own validator.\<close>

definition model_validate :: "quota_state \<Rightarrow> quota_exn + unit" where
  "model_validate s =
     bindE (ensure (state_fields_ok s) ValidationError) (\<lambda>_.
     bindE (ensure (qs_validAfter s \<le> qs_replayFloor s \<and> qs_replayFloor s \<le> qs_observedAt s)
              ValidationError) (\<lambda>_.
     validate_all s (qs_entries s)))"

section \<open>The document\<close>

definition amounts_json :: "amounts \<Rightarrow> json" where
  "amounts_json a = JObj [(''requests'', JInt (am_requests a)),
     (''tokens'', opt_json JInt (am_tokens a)), (''microUsd'', opt_json JInt (am_microUsd a)),
     (''compute'', JInt (am_compute a))]"

definition bounds_json :: "bounds \<Rightarrow> json" where
  "bounds_json b = JObj [(''amounts'', amounts_json (bd_amounts b)),
     (''basis'', JStr (basis_name (bd_basis b))),
     (''priceVersion'', opt_json JStr (bd_priceVersion b)),
     (''inputRate'', opt_json JStr (bd_inputRate b)),
     (''outputRate'', opt_json JStr (bd_outputRate b)),
     (''attemptVersion'', opt_json JStr (bd_attemptVersion b)),
     (''maxAttempts'', opt_json JInt (bd_maxAttempts b))]"

definition reservation_json :: "reservation \<Rightarrow> json" where
  "reservation_json r = JObj [(''operationId'', JStr (rs_operationId r)),
     (''payloadDigest'', JStr (rs_payloadDigest r)),
     (''surface'', JStr (surface_name (rs_surface r))),
     (''bounds'', bounds_json (rs_bounds r)), (''phase'', JStr (phase_name (rs_phase r))),
     (''reservedAt'', JInt (rs_reservedAt r)), (''expiresAt'', JInt (rs_expiresAt r)),
     (''dispatchedAt'', opt_json JInt (rs_dispatchedAt r)),
     (''settledAt'', opt_json JInt (rs_settledAt r)),
     (''outcome'', opt_json (\<lambda>x. JStr (outcome_name x)) (rs_outcome r)),
     (''settlementDigest'', opt_json JStr (rs_settlementDigest r)),
     (''charged'', amounts_json (rs_charged r))]"

definition entries_json :: "(string, reservation) dict \<Rightarrow> json" where
  "entries_json d = JObj (map (\<lambda>(k, r). (k, reservation_json r)) d)"

definition state_json :: "quota_state \<Rightarrow> json" where
  "state_json s = JObj [(''id'', JStr ''hard-quota-state-v1''),
     (''kind'', JStr ''hard_quota_state''), (''policyVersion'', JStr ''rolling-dispatch-v1''),
     (''userId'', JStr (qs_userId s)), (''epoch'', JStr (qs_epoch s)),
     (''validAfter'', JInt (qs_validAfter s)), (''replayFloor'', JInt (qs_replayFloor s)),
     (''observedAt'', JInt (qs_observedAt s)), (''blocked'', JBool (qs_blocked s)),
     (''entries'', entries_json (qs_entries s))]"

definition state_bytes :: "quota_state \<Rightarrow> nat" where
  "state_bytes s = length (dumps_default (state_json s))"

definition state_document :: "quota_state \<Rightarrow> quota_exn + json" where
  "state_document s = bindE (model_validate s) (\<lambda>_.
     if MAX_STATE_BYTES < state_bytes s then Inl (quota_error CapacityExhausted)
     else Inr (state_json s))"

text \<open>\<open>canonical_digest\<close>: \<open>allow_nan=False\<close> raises on a non-finite float.\<close>

definition canonical_digest :: "(string \<Rightarrow> string) \<Rightarrow> json \<Rightarrow> quota_exn + string" where
  "canonical_digest sha v = (if has_nan v then Inl ValueError else Inr (sha (canonical_json v)))"

text \<open>
  The size envelope of \<open>ensure_transition_capacity\<close>: every unfinished entry is measured as if
  it had taken the longest legal value of each field it may still write. The code overwrites
  keys of the dumped dictionary, which keeps their order; here the record is overwritten before
  it is dumped, with the same text.
\<close>

definition envelope_entry :: "reservation \<Rightarrow> reservation" where
  "envelope_entry r =
     (if rs_phase r \<in> {Reserved, Dispatched}
      then r\<lparr>rs_phase := Dispatched, rs_dispatchedAt := Some MAX_QUANTITY,
             rs_settledAt := Some MAX_QUANTITY, rs_outcome := Some OCancelled,
             rs_settlementDigest := Some (replicate 64 (CHR ''f'')),
             rs_charged := (rs_charged r)\<lparr>am_tokens := Some MAX_QUANTITY,
                                          am_microUsd := Some MAX_QUANTITY\<rparr>\<rparr>
      else r)"

definition envelope :: "quota_state \<Rightarrow> quota_state" where
  "envelope s = s\<lparr>qs_observedAt := MAX_QUANTITY, qs_replayFloor := MAX_QUANTITY,
     qs_blocked := False, qs_entries := map (\<lambda>(k, r). (k, envelope_entry r)) (qs_entries s)\<rparr>"

definition ensure_transition_capacity :: "quota_state \<Rightarrow> quota_exn + unit" where
  "ensure_transition_capacity s = bindE (state_document s) (\<lambda>_.
     if MAX_STATE_BYTES < state_bytes (envelope s) then Inl (quota_error CapacityExhausted)
     else Inr ())"

section \<open>Evidence\<close>

record admission_evidence =
  ev_operationHash :: string
  ev_surface :: surface
  ev_phase :: phase
  ev_reserved :: amounts
  ev_charged :: amounts
  ev_priceVersion :: "string option"
  ev_attemptVersion :: "string option"

definition from_record :: "(string \<Rightarrow> string) \<Rightarrow> reservation \<Rightarrow> admission_evidence" where
  "from_record sha r = \<lparr>ev_operationHash = sha (rs_operationId r), ev_surface = rs_surface r,
     ev_phase = rs_phase r, ev_reserved = bound_amounts r, ev_charged = rs_charged r,
     ev_priceVersion = bd_priceVersion (rs_bounds r),
     ev_attemptVersion = bd_attemptVersion (rs_bounds r)\<rparr>"

end
