(* ===== verification/Quota_Store.thy ===== *)
theory Quota_Store
  imports Quota_Models
begin

text \<open>
  The coordination store of \<open>hard_quota/store.py\<close>: the compare-and-swap contract every
  admission rests on, as a locale, and \<open>LocalReservationStore\<close>, the store in the repository,
  which is proved to meet it. A row is a state and a version; the ETag is the version's text.
\<close>

section \<open>The local store\<close>

type_synonym local_rows = "(string, quota_state \<times> nat) dict"

definition fresh_state :: "string \<Rightarrow> string \<Rightarrow> int \<Rightarrow> quota_state" where
  "fresh_state owner epoch now = \<lparr>qs_userId = owner, qs_epoch = epoch, qs_validAfter = now,
     qs_replayFloor = now, qs_observedAt = now, qs_blocked = False, qs_entries = []\<rparr>"

text \<open>\<open>seed\<close>: \<open>epoch\<close> is the fresh \<open>uuid4().hex\<close>; constructing the state validates it.\<close>

definition local_seed ::
  "local_rows \<Rightarrow> string \<Rightarrow> string \<Rightarrow> int \<Rightarrow> quota_exn + (quota_state \<times> local_rows)" where
  "local_seed rows owner epoch now =
     (if map_of rows owner \<noteq> None then Inl (QuotaError StateExists 409)
      else let state = fresh_state owner epoch now in
        bindE (model_validate state) (\<lambda>_. Inr (state, AList.update owner (state, 1) rows)))"

definition local_read :: "local_rows \<Rightarrow> int \<Rightarrow> string \<Rightarrow> quota_exn + snapshot" where
  "local_read rows now owner =
     (case map_of rows owner of
        None \<Rightarrow> Inl (quota_error StateAbsent)
      | Some (state, version) \<Rightarrow>
          Inr \<lparr>sn_state = state, sn_etag = show_nat version, sn_now = now\<rparr>)"

definition local_replace ::
  "local_rows \<Rightarrow> string \<Rightarrow> snapshot \<Rightarrow> quota_state \<Rightarrow> quota_exn + (bool \<times> local_rows)" where
  "local_replace rows owner snap state =
     bindE (state_document state) (\<lambda>_.
     if owner \<noteq> qs_userId state \<or> owner \<noteq> qs_userId (sn_state snap)
     then Inl (QuotaError OwnerMismatch 403)
     else case map_of rows owner of
        None \<Rightarrow> Inl (quota_error StateAbsent)
      | Some (_, version) \<Rightarrow>
          if show_nat version \<noteq> sn_etag snap then Inr (False, rows)
          else Inr (True, AList.update owner (state, Suc version) rows))"

section \<open>The contract\<close>

text \<open>
  \<open>row\<close> is what the store holds for an owner. A read serves the current row and its tag; a
  replacement that reports success found the tag it was given and wrote exactly the new state
  under the next version; one that reports a lost race changed nothing; no other row is touched.
\<close>

locale cas_store =
  fixes rd :: "'s \<Rightarrow> int \<Rightarrow> string \<Rightarrow> quota_exn + snapshot"
    and rp :: "'s \<Rightarrow> string \<Rightarrow> snapshot \<Rightarrow> quota_state \<Rightarrow> quota_exn + (bool \<times> 's)"
    and row :: "'s \<Rightarrow> string \<Rightarrow> (quota_state \<times> nat) option"
    and tag :: "nat \<Rightarrow> string"
  assumes rd_row: "rd s now ow = Inr sn \<Longrightarrow>
      \<exists>v. row s ow = Some (sn_state sn, v) \<and> sn_etag sn = tag v \<and> sn_now sn = now"
    and rd_absent: "row s ow = None \<Longrightarrow> \<not> is_ok (rd s now ow)"
    and rp_won: "rp s ow sn st = Inr (True, s') \<Longrightarrow>
      \<exists>cur v. row s ow = Some (cur, v) \<and> sn_etag sn = tag v
        \<and> row s' = (row s)(ow \<mapsto> (st, Suc v)) \<and> is_ok (state_document st)"
    and rp_lost: "rp s ow sn st = Inr (False, s') \<Longrightarrow> s' = s
        \<and> (\<forall>cur v. row s ow = Some (cur, v) \<longrightarrow> sn_etag sn \<noteq> tag v)"
    and tag_inj: "tag v = tag w \<Longrightarrow> v = w"
begin

text \<open>A snapshot of the current version is a snapshot of the current state.\<close>

lemma rp_won_current:
  assumes "rp s ow sn st = Inr (True, s')" "row s ow = Some (cur, v)"
  shows "sn_etag sn = tag v \<and> row s' ow = Some (st, Suc v)"
  using rp_won [OF assms(1)] assms(2) by auto

lemma rp_won_frame:
  assumes "rp s ow sn st = Inr (True, s')" "ow' \<noteq> ow"
  shows "row s' ow' = row s ow'"
  using rp_won [OF assms(1)] assms(2) by auto

text \<open>A writer that holds an old version can not win.\<close>

lemma stale_loses:
  assumes "rp s ow sn st = Inr (b, s')" "row s ow = Some (cur, v)" "sn_etag sn = tag w" "w \<noteq> v"
  shows "\<not> b \<and> s' = s"
proof (cases b)
  case True
  with rp_won_current [of s ow sn st s' cur v] assms show ?thesis by (auto dest: tag_inj)
next
  case False
  with rp_lost assms(1) show ?thesis by auto
qed

end

text \<open>
  A store that answers: a row that exists is read, and a replacement under the current tag of a
  state that is accounting for its owner succeeds. The local store does; a remote one may fail.
\<close>

locale cas_store_live = cas_store rd rp row tag
  for rd :: "'s \<Rightarrow> int \<Rightarrow> string \<Rightarrow> quota_exn + snapshot"
    and rp :: "'s \<Rightarrow> string \<Rightarrow> snapshot \<Rightarrow> quota_state \<Rightarrow> quota_exn + (bool \<times> 's)"
    and row :: "'s \<Rightarrow> string \<Rightarrow> (quota_state \<times> nat) option"
    and tag :: "nat \<Rightarrow> string" +
  assumes rd_answers: "row s ow = Some (cur, v) \<Longrightarrow>
      rd s now ow = Inr \<lparr>sn_state = cur, sn_etag = tag v, sn_now = now\<rparr>"
    and rp_answers: "row s ow = Some (cur, v) \<Longrightarrow> sn_etag sn = tag v \<Longrightarrow> is_ok (state_document st)
      \<Longrightarrow> qs_userId st = ow \<Longrightarrow> qs_userId (sn_state sn) = ow \<Longrightarrow> \<exists>s'. rp s ow sn st = Inr (True, s')"
    and tag_nonempty: "tag v \<noteq> []"

definition local_row :: "local_rows \<Rightarrow> string \<Rightarrow> (quota_state \<times> nat) option" where
  "local_row rows = map_of rows"

interpretation local_store: cas_store local_read local_replace local_row show_nat
proof unfold_locales
  fix s :: local_rows and now ow sn
  assume "local_read s now ow = Inr sn"
  then show "\<exists>v. local_row s ow = Some (sn_state sn, v) \<and> sn_etag sn = show_nat v \<and> sn_now sn = now"
    by (auto simp: local_read_def local_row_def split: option.splits)
next
  fix s :: local_rows and ow sn st s'
  assume "local_replace s ow sn st = Inr (True, s')"
  then show "\<exists>cur v. local_row s ow = Some (cur, v) \<and> sn_etag sn = show_nat v
      \<and> local_row s' = (local_row s)(ow \<mapsto> (st, Suc v)) \<and> is_ok (state_document st)"
    by (auto simp: local_replace_def local_row_def bindE_Inr_iff is_ok_iff map_of_update
        split: option.splits if_splits)
next
  fix s :: local_rows and ow sn st s'
  assume "local_replace s ow sn st = Inr (False, s')"
  then show "s' = s \<and> (\<forall>cur v. local_row s ow = Some (cur, v) \<longrightarrow> sn_etag sn \<noteq> show_nat v)"
    by (auto simp: local_replace_def local_row_def bindE_Inr_iff split: option.splits if_splits)
qed (auto simp: local_read_def local_row_def dest: show_nat_inj)

interpretation local_live: cas_store_live local_read local_replace local_row show_nat
  by unfold_locales (auto simp: local_read_def local_replace_def local_row_def is_ok_iff)

lemma local_seed_row:
  "local_seed rows ow ep now = Inr (st, rows') \<Longrightarrow>
     local_row rows ow = None \<and> local_row rows' = (local_row rows)(ow \<mapsto> (st, 1))
     \<and> st = fresh_state ow ep now \<and> is_ok (model_validate st)"
  by (cases "map_of rows ow")
    (auto simp: local_seed_def local_row_def Let_def bindE_Inr_iff is_ok_iff map_of_update)

end
