(* ===== verification/Quota_Service.thy ===== *)
theory Quota_Service
  imports Quota_Store
begin

text \<open>
  \<open>hard_quota/service.py\<close>: the rolling-window admission check, reconciliation, and the four
  operations on a reservation as pure changes of the owner's state, run by the compare-and-swap
  loop \<open>_change\<close> over any store with the contract of \<open>Quota_Store\<close>.

  \<open>scope\<close> is \<open>None\<close> for the historical contract and \<open>Some coverage_start\<close> for an approved
  request-count rollout.
\<close>

definition MAX_CAS_ATTEMPTS :: nat where "MAX_CAS_ATTEMPTS = 16"

datatype dimension = DRequests | DTokens | DMicroUsd | DCompute

fun amount_of :: "dimension \<Rightarrow> amounts \<Rightarrow> int option" where
  "amount_of DRequests a = Some (am_requests a)"
| "amount_of DTokens a = am_tokens a"
| "amount_of DMicroUsd a = am_microUsd a"
| "amount_of DCompute a = Some (am_compute a)"

fun limit_of :: "limit_name \<Rightarrow> 'a limits_scheme \<Rightarrow> int option" where
  "limit_of RequestsPerMinute l = lim_requestsPerMinute l"
| "limit_of TokensPerDay l = lim_tokensPerDay l"
| "limit_of TokensPerMonth l = lim_tokensPerMonth l"
| "limit_of CostPerDayMicroUsd l = lim_costPerDayMicroUsd l"
| "limit_of CostPerMonthMicroUsd l = lim_costPerMonthMicroUsd l"
| "limit_of ComputeExecutionsPerDay l = lim_computeExecutionsPerDay l"

type_synonym window = "limit_name \<times> dimension \<times> int"

definition WINDOWS :: "window list" where
  "WINDOWS = [(RequestsPerMinute, DRequests, MINUTE_SECONDS),
     (TokensPerDay, DTokens, DAY_SECONDS), (TokensPerMonth, DTokens, MONTH_SECONDS),
     (CostPerDayMicroUsd, DMicroUsd, DAY_SECONDS), (CostPerMonthMicroUsd, DMicroUsd, MONTH_SECONDS),
     (ComputeExecutionsPerDay, DCompute, DAY_SECONDS)]"

text \<open>\<open>RequestCountScope.__post_init__\<close>.\<close>

definition mk_scope :: "int \<Rightarrow> quota_exn + int" where
  "mk_scope coverage_start =
     (if count_ok coverage_start then Inr coverage_start else Inl ValueError)"

section \<open>Reconciliation\<close>

definition validate_snapshot :: "string \<Rightarrow> snapshot \<Rightarrow> quota_exn + unit" where
  "validate_snapshot owner sn =
     bindE (state_document (sn_state sn)) (\<lambda>_.
     bindE (ensure (qs_userId (sn_state sn) = owner) (QuotaError OwnerMismatch 403)) (\<lambda>_.
     ensure (sn_etag sn \<noteq> [] \<and> qs_observedAt (sn_state sn) \<le> sn_now sn)
       (quota_error StateIncompatible)))"

definition retention :: "int option \<Rightarrow> reservation \<Rightarrow> int" where
  "retention scope r =
     (if scope = None then MONTH_SECONDS
      else if rs_surface r = SCompute \<and> rs_phase r = Settled then DAY_SECONDS
      else MINUTE_SECONDS)"

definition replay_horizon :: "int option \<Rightarrow> int" where
  "replay_horizon scope = (if scope = None then REPLAY_SECONDS else REQUEST_COUNT_REPLAY_SECONDS)"

definition expire :: "int \<Rightarrow> reservation \<Rightarrow> reservation" where
  "expire now r =
     (if rs_phase r = Reserved \<and> rs_expiresAt r < now
      then r\<lparr>rs_phase := Released, rs_settledAt := Some now, rs_charged := zero_amounts\<rparr>
      else r)"

definition prunable :: "int option \<Rightarrow> int \<Rightarrow> int \<Rightarrow> int \<Rightarrow> reservation \<Rightarrow> bool" where
  "prunable scope now floor issued r \<longleftrightarrow> \<not> protected r \<and> issued < floor
     \<and> (case rs_settledAt r of None \<Rightarrow> False | Some t \<Rightarrow> t < now - retention scope r)"

fun reconcile_entries ::
  "int option \<Rightarrow> int \<Rightarrow> int \<Rightarrow> (string, reservation) dict \<Rightarrow> quota_exn + (string, reservation) dict" where
  "reconcile_entries scope now floor [] = Inr []"
| "reconcile_entries scope now floor ((key, record) # rest) =
     bindE (parse_operation_id key) (\<lambda>(_, issued).
     bindE (reconcile_entries scope now floor rest) (\<lambda>entries.
     let r = expire now record in
     Inr (if prunable scope now floor issued r then entries else (key, r) # entries)))"

definition new_floor :: "int option \<Rightarrow> quota_state \<Rightarrow> int \<Rightarrow> int" where
  "new_floor scope s now = max (qs_replayFloor s) (now - replay_horizon scope)"

definition reconcile :: "int option \<Rightarrow> quota_state \<Rightarrow> int \<Rightarrow> quota_exn + quota_state" where
  "reconcile scope s now =
     bindE (reconcile_entries scope now (new_floor scope s now) (qs_entries s)) (\<lambda>entries.
     Inr (s\<lparr>qs_entries := entries, qs_replayFloor := new_floor scope s now\<rparr>))"

section \<open>The admission check\<close>

definition check_identity :: "quota_state \<Rightarrow> string \<Rightarrow> int \<Rightarrow> quota_exn + unit" where
  "check_identity s key now =
     bindE (parse_operation_id key) (\<lambda>(epoch, issued).
     ensure (epoch = qs_epoch s \<and> qs_replayFloor s \<le> issued \<and> issued \<le> now)
       (QuotaError IdentityExpired 409))"

text \<open>
  Whether a record counts in the window of the last \<open>seconds\<close>: unfinished or unknown work
  always does, finished work by its settlement time. \<open>skip\<close> is the identity left out when an
  existing reservation is checked again.
\<close>

definition counts :: "string option \<Rightarrow> int \<Rightarrow> int \<Rightarrow> reservation \<Rightarrow> bool" where
  "counts skip now seconds r \<longleftrightarrow> Some (rs_operationId r) \<noteq> skip
     \<and> (protected r \<or> now - seconds \<le> (case rs_settledAt r of None \<Rightarrow> 0 | Some t \<Rightarrow> t))"

fun window_used ::
  "limit_name \<Rightarrow> dimension \<Rightarrow> int \<Rightarrow> int \<Rightarrow> string option \<Rightarrow> reservation list \<Rightarrow> int \<Rightarrow> quota_exn + int" where
  "window_used ln dim seconds now skip [] used = Inr used"
| "window_used ln dim seconds now skip (r # rs) used =
     (if \<not> counts skip now seconds r then window_used ln dim seconds now skip rs used
      else case amount_of dim (rs_charged r) of
          None \<Rightarrow> Inl (quota_error (UnknownPriorUsage ln))
        | Some charge \<Rightarrow> window_used ln dim seconds now skip rs (used + charge))"

fun check_windows ::
  "int option \<Rightarrow> reservation list \<Rightarrow> amounts \<Rightarrow> 'a limits_scheme \<Rightarrow> int \<Rightarrow> string option
    \<Rightarrow> window list \<Rightarrow> quota_exn + unit" where
  "check_windows fence rs a lims now skip [] = Inr ()"
| "check_windows fence rs a lims now skip ((ln, dim, seconds) # ws) =
     (case limit_of ln lims of
        None \<Rightarrow> check_windows fence rs a lims now skip ws
      | Some cap \<Rightarrow>
          if dim = DCompute \<and> am_compute a = 0 then check_windows fence rs a lims now skip ws
          else (case amount_of dim a of
              None \<Rightarrow> Inl (quota_error (UnsupportedUnder ln))
            | Some requested \<Rightarrow>
                if (case fence of None \<Rightarrow> False | Some f \<Rightarrow> now - seconds < f)
                then Inl (QuotaError (HistoryBeforeCutover ln) 429)
                else bindE (window_used ln dim seconds now skip rs 0) (\<lambda>used.
                  if cap < used + requested then Inl (QuotaError (WouldExceed ln) 429)
                  else check_windows fence rs a lims now skip ws)))"

fun check_scope_limits :: "'a limits_scheme \<Rightarrow> window list \<Rightarrow> quota_exn + unit" where
  "check_scope_limits lims [] = Inr ()"
| "check_scope_limits lims ((ln, dim, seconds) # ws) =
     (if dim \<in> {DTokens, DMicroUsd} \<and> limit_of ln lims \<noteq> None
      then Inl (quota_error (LimitOutsideRollout ln))
      else check_scope_limits lims ws)"

definition check_quota_limits ::
  "int option \<Rightarrow> quota_state \<Rightarrow> amounts \<Rightarrow> 'a limits_scheme \<Rightarrow> int \<Rightarrow> string option \<Rightarrow> quota_exn + unit" where
  "check_quota_limits scope s a lims now skip =
     (case scope of
        None \<Rightarrow> check_windows None (map snd (qs_entries s)) a lims now skip WINDOWS
      | Some coverage_start \<Rightarrow>
          bindE (check_scope_limits lims WINDOWS) (\<lambda>_.
          check_windows (Some (max (qs_validAfter s) coverage_start)) (map snd (qs_entries s))
            a lims now skip WINDOWS))"

section \<open>The operations as changes of the state\<close>

definition put_entry :: "quota_state \<Rightarrow> reservation \<Rightarrow> quota_state" where
  "put_entry s r = s\<lparr>qs_entries := AList.update (rs_operationId r) r (qs_entries s)\<rparr>"

definition mk_reservation :: "string \<Rightarrow> string \<Rightarrow> surface \<Rightarrow> bounds \<Rightarrow> int \<Rightarrow> reservation" where
  "mk_reservation key digest sf bd now = \<lparr>rs_operationId = key, rs_payloadDigest = digest,
     rs_surface = sf, rs_bounds = bd, rs_phase = Reserved, rs_reservedAt = now,
     rs_expiresAt = now + RESERVATION_SECONDS, rs_dispatchedAt = None, rs_settledAt = None,
     rs_outcome = None, rs_settlementDigest = None, rs_charged = bd_amounts bd\<rparr>"

definition reserve_payload :: "string \<Rightarrow> surface \<Rightarrow> json \<Rightarrow> bounds \<Rightarrow> json" where
  "reserve_payload owner sf payload bd = JObj [(''owner'', JStr owner),
     (''surface'', JStr (surface_name sf)), (''payload'', payload), (''bounds'', bounds_json bd)]"

text \<open>
  The body of \<open>reserve\<close>: the guards every request passes, then either the answer for an
  identity already on record (checked again while it is still only reserved) or a new record.
\<close>

definition reserve_guards ::
  "int option \<Rightarrow> string \<Rightarrow> surface \<Rightarrow> bounds \<Rightarrow> 'a limits_scheme \<Rightarrow> quota_state \<Rightarrow> int \<Rightarrow> quota_exn + unit" where
  "reserve_guards scope key sf bd lims s now =
     bindE (check_identity s key now) (\<lambda>_.
     bindE (ensure (am_requests (bd_amounts bd) = 1) (quota_error NotOneDispatch)) (\<lambda>_.
     bindE (ensure (am_compute (bd_amounts bd) = compute_units sf) (quota_error ComputeUnitsMismatch)) (\<lambda>_.
     bindE (ensure (\<not> lim_disabled lims) (QuotaError AccountDisabled 403)) (\<lambda>_.
     bindE (ensure (scope = None \<or> am_tokens (bd_amounts bd) = None \<and> am_microUsd (bd_amounts bd) = None)
              (quota_error BoundsOutsideRollout)) (\<lambda>_.
     ensure (\<not> qs_blocked s) (quota_error NeedsReconciliation))))))"

definition reserve_again ::
  "int option \<Rightarrow> string \<Rightarrow> string \<Rightarrow> 'a limits_scheme \<Rightarrow> quota_state \<Rightarrow> int \<Rightarrow> reservation
    \<Rightarrow> quota_exn + (quota_state \<times> reservation)" where
  "reserve_again scope key digest lims s now prior =
     (if rs_payloadDigest prior \<noteq> digest then Inl (QuotaError PayloadChanged 409)
      else if rs_phase prior = Reserved
      then bindE (check_quota_limits scope s (bound_amounts prior) lims now (Some key)) (\<lambda>_.
           bindE (ensure_transition_capacity s) (\<lambda>_. Inr (s, prior)))
      else Inr (s, prior))"

definition reserve_new ::
  "int option \<Rightarrow> string \<Rightarrow> string \<Rightarrow> surface \<Rightarrow> bounds \<Rightarrow> 'a limits_scheme \<Rightarrow> quota_state \<Rightarrow> int
    \<Rightarrow> quota_exn + (quota_state \<times> reservation)" where
  "reserve_new scope key digest sf bd lims s now =
     bindE (check_quota_limits scope s (bd_amounts bd) lims now None) (\<lambda>_.
     bindE (ensure (length (qs_entries s) < MAX_ENTRIES) (quota_error CapacityExhausted)) (\<lambda>_.
     let record = mk_reservation key digest sf bd now; updated = put_entry s record in
     bindE (ensure (reservation_ok record) ValidationError) (\<lambda>_.
     bindE (ensure_transition_capacity updated) (\<lambda>_. Inr (updated, record)))))"

definition reserve_change ::
  "int option \<Rightarrow> string \<Rightarrow> string \<Rightarrow> surface \<Rightarrow> bounds \<Rightarrow> 'a limits_scheme \<Rightarrow> quota_state \<Rightarrow> int
    \<Rightarrow> quota_exn + (quota_state \<times> reservation)" where
  "reserve_change scope key digest sf bd lims s now =
     bindE (reserve_guards scope key sf bd lims s now) (\<lambda>_.
     case map_of (qs_entries s) key of
       Some prior \<Rightarrow> reserve_again scope key digest lims s now prior
     | None \<Rightarrow> reserve_new scope key digest sf bd lims s now)"

definition owned_record :: "quota_state \<Rightarrow> reservation \<Rightarrow> quota_exn + reservation" where
  "owned_record s res =
     (case map_of (qs_entries s) (rs_operationId res) of
        None \<Rightarrow> Inl (QuotaError NotOwned 403)
      | Some r \<Rightarrow> if rs_payloadDigest r \<noteq> rs_payloadDigest res then Inl (QuotaError NotOwned 403)
                  else Inr r)"

definition dispatch_change ::
  "reservation \<Rightarrow> quota_state \<Rightarrow> int \<Rightarrow> quota_exn + (quota_state \<times> reservation)" where
  "dispatch_change res s now =
     bindE (owned_record s res) (\<lambda>record.
     bindE (ensure (rs_phase record = Reserved) (QuotaError AlreadyClaimed 409)) (\<lambda>_.
     bindE (ensure (\<not> qs_blocked s) (quota_error NeedsReconciliation)) (\<lambda>_.
     bindE (ensure_transition_capacity s) (\<lambda>_.
     let r = record\<lparr>rs_phase := Dispatched, rs_dispatchedAt := Some now\<rparr> in
     Inr (put_entry s r, r)))))"

definition settlement_json :: "outcome \<Rightarrow> amounts option \<Rightarrow> json" where
  "settlement_json out actual =
     JObj [(''outcome'', JStr (outcome_name out)), (''actual'', opt_json amounts_json actual)]"

definition settled_record ::
  "int option \<Rightarrow> outcome \<Rightarrow> amounts option \<Rightarrow> string \<Rightarrow> int \<Rightarrow> reservation \<Rightarrow> quota_exn + reservation" where
  "settled_record scope out actual settlement now record =
     (let complete = has_complete_usage record (Some out) actual;
          attempt_only = (scope \<noteq> None \<and> request_only record);
          charged = (if complete then actual else Some (bound_amounts record))
      in case charged of
           None \<Rightarrow> Inl AssertionError
         | Some c \<Rightarrow>
             Inr (record\<lparr>rs_phase := (if complete \<or> attempt_only then Settled else Unknown),
               rs_outcome := Some out, rs_settledAt := Some now,
               rs_settlementDigest := Some settlement,
               rs_charged := c\<lparr>am_requests := am_requests (bound_amounts record),
                               am_compute := am_compute (bound_amounts record)\<rparr>\<rparr>))"

definition settle_change ::
  "int option \<Rightarrow> reservation \<Rightarrow> outcome \<Rightarrow> amounts option \<Rightarrow> string \<Rightarrow> quota_state \<Rightarrow> int
    \<Rightarrow> quota_exn + (quota_state \<times> reservation)" where
  "settle_change scope res out actual settlement s now =
     bindE (owned_record s res) (\<lambda>record.
     case rs_settlementDigest record of
       Some d \<Rightarrow> if d \<noteq> settlement then Inl (QuotaError SettlementChanged 409) else Inr (s, record)
     | None \<Rightarrow>
         bindE (ensure (rs_phase record = Dispatched) (QuotaError NotDispatched 409)) (\<lambda>_.
         bindE (settled_record scope out actual settlement now record) (\<lambda>r.
         Inr ((put_entry s r)\<lparr>qs_blocked := qs_blocked s \<or> exceeds_bound r\<rparr>, r))))"

definition release_change ::
  "reservation \<Rightarrow> quota_state \<Rightarrow> int \<Rightarrow> quota_exn + (quota_state \<times> reservation)" where
  "release_change res s now =
     bindE (owned_record s res) (\<lambda>record.
     if rs_phase record = Released then Inr (s, record)
     else bindE (ensure (rs_phase record = Reserved) (QuotaError CannotRelease 409)) (\<lambda>_.
       let r = record\<lparr>rs_phase := Released, rs_settledAt := Some now, rs_charged := zero_amounts\<rparr> in
       Inr (put_entry s r, r)))"

section \<open>The compare-and-swap loop\<close>

text \<open>
  One pass of \<open>_change\<close> on a snapshot, up to the replacement: validate, reconcile, stamp the
  clock, apply the change and stamp again.
\<close>

definition attempt ::
  "int option \<Rightarrow> string \<Rightarrow> snapshot \<Rightarrow> (quota_state \<Rightarrow> int \<Rightarrow> quota_exn + (quota_state \<times> 'r))
    \<Rightarrow> quota_exn + (quota_state \<times> 'r)" where
  "attempt scope owner sn change =
     bindE (validate_snapshot owner sn) (\<lambda>_.
     let now = max (sn_now sn) (qs_observedAt (sn_state sn)) in
     bindE (reconcile scope (sn_state sn) now) (\<lambda>reconciled.
     let state = reconciled\<lparr>qs_observedAt := now\<rparr> in
     bindE (change state now) (\<lambda>(updated, result).
     Inr (updated\<lparr>qs_observedAt := now\<rparr>, result))))"

text \<open>
  The loop over a store. Other replicas may write between the read and the replacement of the
  attempt \<open>k\<close>: \<open>env k\<close> is what they do to the store then, and \<open>clock k\<close> is the store's time
  at that read. The result comes with the store as it is left.
\<close>

fun change_loop ::
  "('s \<Rightarrow> int \<Rightarrow> string \<Rightarrow> quota_exn + snapshot)
    \<Rightarrow> ('s \<Rightarrow> string \<Rightarrow> snapshot \<Rightarrow> quota_state \<Rightarrow> quota_exn + (bool \<times> 's))
    \<Rightarrow> (nat \<Rightarrow> 's \<Rightarrow> 's) \<Rightarrow> (nat \<Rightarrow> int) \<Rightarrow> int option \<Rightarrow> string
    \<Rightarrow> (quota_state \<Rightarrow> int \<Rightarrow> quota_exn + (quota_state \<times> 'r)) \<Rightarrow> nat \<Rightarrow> nat \<Rightarrow> 's
    \<Rightarrow> (quota_exn + 'r) \<times> 's" where
  "change_loop rd rp env clock scope owner change 0 k s = (Inl (quota_error CoordinationBusy), s)"
| "change_loop rd rp env clock scope owner change (Suc n) k s =
     (case rd s (clock k) owner of
        Inl e \<Rightarrow> (Inl e, s)
      | Inr sn \<Rightarrow>
          (case attempt scope owner sn change of
             Inl e \<Rightarrow> (Inl e, s)
           | Inr (updated, result) \<Rightarrow>
               (case rp (env k s) owner sn updated of
                  Inl e \<Rightarrow> (Inl e, env k s)
                | Inr (True, s') \<Rightarrow> (Inr result, s')
                | Inr (False, s') \<Rightarrow> change_loop rd rp env clock scope owner change n (Suc k) s')))"

definition run_change ::
  "('s \<Rightarrow> int \<Rightarrow> string \<Rightarrow> quota_exn + snapshot)
    \<Rightarrow> ('s \<Rightarrow> string \<Rightarrow> snapshot \<Rightarrow> quota_state \<Rightarrow> quota_exn + (bool \<times> 's))
    \<Rightarrow> (nat \<Rightarrow> 's \<Rightarrow> 's) \<Rightarrow> (nat \<Rightarrow> int) \<Rightarrow> int option \<Rightarrow> string
    \<Rightarrow> (quota_state \<Rightarrow> int \<Rightarrow> quota_exn + (quota_state \<times> 'r)) \<Rightarrow> 's \<Rightarrow> (quota_exn + 'r) \<times> 's" where
  "run_change rd rp env clock scope owner change s =
     change_loop rd rp env clock scope owner change MAX_CAS_ATTEMPTS 0 s"

text \<open>The public operations, over the store of the service.\<close>

definition reserve where
  "reserve rd rp env clock sha scope owner key payload sf bd lims s =
     (case canonical_digest sha (reserve_payload owner sf payload bd) of
        Inl e \<Rightarrow> (Inl e, s)
      | Inr digest \<Rightarrow>
          run_change rd rp env clock scope owner (reserve_change scope key digest sf bd lims) s)"

definition dispatch where
  "dispatch rd rp env clock scope owner res s =
     run_change rd rp env clock scope owner (dispatch_change res) s"

definition settle where
  "settle rd rp env clock sha scope owner res out actual s =
     (case canonical_digest sha (settlement_json out actual) of
        Inl e \<Rightarrow> (Inl e, s)
      | Inr settlement \<Rightarrow>
          run_change rd rp env clock scope owner (settle_change scope res out actual settlement) s)"

definition release where
  "release rd rp env clock scope owner res s =
     run_change rd rp env clock scope owner (release_change res) s"

definition reconcile_owner where
  "reconcile_owner rd rp env clock scope owner s =
     run_change rd rp env clock scope owner (\<lambda>st now. Inr (st, st)) s"

end
