(* ===== verification/Quota_Validity.thy ===== *)
theory Quota_Validity
  imports Quota_Service
begin

text \<open>
  The validator of the state document as an invariant: \<open>valid_state\<close> is what
  \<open>QuotaState.model_validate\<close> accepts (with the keys of a dictionary distinct), and
  reconciliation and every operation keep it. So the copies the service builds with
  \<open>model_copy\<close>, which validate nothing, are never refused when they are stored.
\<close>

section \<open>The validator as a predicate\<close>

definition entry_valid :: "quota_state \<Rightarrow> string \<Rightarrow> reservation \<Rightarrow> bool" where
  "entry_valid s k r \<longleftrightarrow> entry_shape_ok k r
     \<and> (\<exists>ei. parse_operation_id k = Inr ei \<and> entry_scope_ok s ei)
     \<and> entry_phase_ok r \<and> entry_charge_ok s r \<and> entry_time_ok s r"

definition fences_ok :: "quota_state \<Rightarrow> bool" where
  "fences_ok s \<longleftrightarrow> qs_validAfter s \<le> qs_replayFloor s \<and> qs_replayFloor s \<le> qs_observedAt s"

definition dict_ok :: "quota_state \<Rightarrow> bool" where
  "dict_ok s \<longleftrightarrow> distinct (map fst (qs_entries s))"

definition valid_state :: "quota_state \<Rightarrow> bool" where
  "valid_state s \<longleftrightarrow> model_validate s = Inr () \<and> dict_ok s"

lemma validate_all_iff:
  "validate_all s d = Inr () \<longleftrightarrow> (\<forall>(k, r) \<in> set d. entry_valid s k r)"
  by (induction d)
    (auto simp: validate_entry_def bindE_Inr_iff entry_valid_def split: prod.splits)

lemma model_validate_iff:
  "model_validate s = Inr () \<longleftrightarrow> state_fields_ok s \<and> fences_ok s
     \<and> (\<forall>(k, r) \<in> set (qs_entries s). entry_valid s k r)"
  by (auto simp: model_validate_def bindE_Inr_iff validate_all_iff fences_ok_def)

lemma valid_stateI:
  "state_fields_ok s \<Longrightarrow> fences_ok s \<Longrightarrow> (\<And>k r. (k, r) \<in> set (qs_entries s) \<Longrightarrow> entry_valid s k r)
     \<Longrightarrow> dict_ok s \<Longrightarrow> valid_state s"
  by (auto simp: valid_state_def model_validate_iff)

lemma valid_stateD:
  assumes "valid_state s"
  shows "state_fields_ok s" "fences_ok s" "dict_ok s"
    "(k, r) \<in> set (qs_entries s) \<Longrightarrow> entry_valid s k r"
    "(k, r) \<in> set (qs_entries s) \<Longrightarrow> reservation_ok r"
  using assms
  by (auto simp: valid_state_def model_validate_iff state_fields_ok_def list_all_iff)

lemma valid_lookup:
  assumes "valid_state s" "map_of (qs_entries s) k = Some r"
  shows "entry_valid s k r" "reservation_ok r" "rs_operationId r = k"
proof -
  have "(k, r) \<in> set (qs_entries s)" using assms(2) by (rule map_of_mem)
  then show "entry_valid s k r" "reservation_ok r"
    using valid_stateD [OF assms(1)] by auto
  then show "rs_operationId r = k"
    by (simp add: entry_valid_def entry_shape_ok_def Let_def)
qed

text \<open>What an entry's validity depends on: the scope, the clock and the block of the state.\<close>

lemma entry_valid_mono:
  assumes "entry_valid s k r" "qs_epoch s' = qs_epoch s" "qs_validAfter s' = qs_validAfter s"
    "qs_observedAt s \<le> qs_observedAt s'" "qs_blocked s \<longrightarrow> qs_blocked s'"
  shows "entry_valid s' k r"
  using assms
  by (auto simp: entry_valid_def entry_scope_ok_def entry_charge_ok_def entry_time_ok_def
      split: option.splits)

text \<open>Replacing one entry by a valid one under the same key keeps a state valid.\<close>

lemma put_entry_fields [simp]:
  "qs_userId (put_entry s r) = qs_userId s" "qs_epoch (put_entry s r) = qs_epoch s"
  "qs_validAfter (put_entry s r) = qs_validAfter s" "qs_replayFloor (put_entry s r) = qs_replayFloor s"
  "qs_observedAt (put_entry s r) = qs_observedAt s" "qs_blocked (put_entry s r) = qs_blocked s"
  "qs_entries (put_entry s r) = AList.update (rs_operationId r) r (qs_entries s)"
  by (simp_all add: put_entry_def)

lemma put_entry_valid:
  assumes v: "valid_state s" and k: "rs_operationId r = k"
    and r: "reservation_ok r"
    and e: "entry_valid (put_entry s r) k r"
    and n: "k \<in> fst ` set (qs_entries s) \<or> length (qs_entries s) < MAX_ENTRIES"
  shows "valid_state (put_entry s r)"
proof (rule valid_stateI)
  have d: "distinct (map fst (qs_entries s))" using valid_stateD(3) [OF v] by (simp add: dict_ok_def)
  then show "dict_ok (put_entry s r)" by (simp add: dict_ok_def)
  show "fences_ok (put_entry s r)" using valid_stateD(2) [OF v] by (simp add: fences_ok_def)
  have "length (qs_entries (put_entry s r)) \<le> MAX_ENTRIES"
    using n valid_stateD(1) [OF v] k by (auto simp: length_update state_fields_ok_def)
  moreover have "list_all (\<lambda>(k, r). reservation_ok r) (qs_entries (put_entry s r))"
    using valid_stateD(1) [OF v] r by (auto simp: state_fields_ok_def intro!: list_all_update)
  ultimately show "state_fields_ok (put_entry s r)"
    using valid_stateD(1) [OF v] by (simp add: state_fields_ok_def)
  fix k' r'
  assume "(k', r') \<in> set (qs_entries (put_entry s r))"
  then consider "k' = k" "r' = r" | "(k', r') \<in> set (qs_entries s)"
    using d k by (auto simp: set_update_distinct)
  then show "entry_valid (put_entry s r) k' r'"
  proof cases
    case 1
    with e show ?thesis by simp
  next
    case 2
    then have "entry_valid s k' r'" by (rule valid_stateD(4) [OF v])
    then show ?thesis by (rule entry_valid_mono) simp_all
  qed
qed

lemma blocked_valid:
  assumes "valid_state s" "qs_blocked s \<longrightarrow> b"
  shows "valid_state (s\<lparr>qs_blocked := b\<rparr>)"
  using assms
  by (auto simp: valid_state_def model_validate_iff state_fields_ok_def fences_ok_def dict_ok_def
      intro: entry_valid_mono [of s])

section \<open>Reconciliation\<close>

lemma expire_simps [simp]:
  "rs_operationId (expire now r) = rs_operationId r"
  "rs_payloadDigest (expire now r) = rs_payloadDigest r"
  "rs_surface (expire now r) = rs_surface r" "rs_bounds (expire now r) = rs_bounds r"
  "rs_reservedAt (expire now r) = rs_reservedAt r" "rs_expiresAt (expire now r) = rs_expiresAt r"
  "rs_dispatchedAt (expire now r) = rs_dispatchedAt r"
  "rs_outcome (expire now r) = rs_outcome r"
  "rs_settlementDigest (expire now r) = rs_settlementDigest r"
  by (simp_all add: expire_def)

lemma expire_not_reserved: "rs_phase r \<noteq> Reserved \<Longrightarrow> expire now r = r"
  by (simp add: expire_def)

lemma expire_phase:
  "rs_phase (expire now r) = (if rs_phase r = Reserved \<and> rs_expiresAt r < now then Released else rs_phase r)"
  by (simp add: expire_def)

lemma zero_amounts_ok [simp]: "amounts_ok zero_amounts"
  by (simp add: amounts_ok_def zero_amounts_def count_ok_def MAX_QUANTITY_def)

lemma expire_reservation_ok: "reservation_ok r \<Longrightarrow> count_ok now \<Longrightarrow> reservation_ok (expire now r)"
  by (simp add: expire_def reservation_ok_def)

lemma release_entry_valid:
  assumes "entry_valid s k r" "rs_phase r = Reserved" "qs_observedAt s = now"
  shows "entry_valid s k (r\<lparr>rs_phase := Released, rs_settledAt := Some now, rs_charged := zero_amounts\<rparr>)"
  using assms
  by (auto simp: entry_valid_def entry_shape_ok_def entry_phase_ok_def entry_charge_ok_def
      entry_time_ok_def exceeds_bound_def protected_def zero_amounts_def Let_def)

lemma expire_entry_valid:
  "entry_valid s k r \<Longrightarrow> qs_observedAt s = now \<Longrightarrow> entry_valid s k (expire now r)"
  using release_entry_valid by (auto simp: expire_def)

text \<open>The identity an entry's key carries; every valid key has one.\<close>

definition issued_of :: "string \<Rightarrow> int" where
  "issued_of k = (case parse_operation_id k of Inl _ \<Rightarrow> 0 | Inr (_, i) \<Rightarrow> i)"

lemma reconcile_entries_eq:
  assumes "\<And>k r. (k, r) \<in> set d \<Longrightarrow> is_ok (parse_operation_id k)"
  shows "reconcile_entries scope now floor d = Inr (map (\<lambda>(k, r). (k, expire now r))
     (filter (\<lambda>(k, r). \<not> prunable scope now floor (issued_of k) (expire now r)) d))"
  using assms
proof (induction d)
  case (Cons kr d)
  obtain k r where kr: "kr = (k, r)" by (cases kr)
  have ih: "reconcile_entries scope now floor d = Inr (map (\<lambda>(k, r). (k, expire now r))
     (filter (\<lambda>(k, r). \<not> prunable scope now floor (issued_of k) (expire now r)) d))"
    using Cons.IH Cons.prems by (meson list.set_intros(2))
  from Cons.prems [of k r] kr obtain e i where p: "parse_operation_id k = Inr (e, i)"
    by (auto simp: is_ok_iff)
  then have "issued_of k = i" by (simp add: issued_of_def)
  with ih kr p show ?case by (simp add: Let_def)
qed simp

definition reconciled :: "int option \<Rightarrow> quota_state \<Rightarrow> int \<Rightarrow> quota_state" where
  "reconciled scope s now = s\<lparr>qs_entries := map (\<lambda>(k, r). (k, expire now r))
       (filter (\<lambda>(k, r). \<not> prunable scope now (new_floor scope s now) (issued_of k) (expire now r))
         (qs_entries s)),
     qs_replayFloor := new_floor scope s now, qs_observedAt := now\<rparr>"

lemma reconciled_fields [simp]:
  "qs_userId (reconciled scope s now) = qs_userId s" "qs_epoch (reconciled scope s now) = qs_epoch s"
  "qs_validAfter (reconciled scope s now) = qs_validAfter s"
  "qs_replayFloor (reconciled scope s now) = new_floor scope s now"
  "qs_observedAt (reconciled scope s now) = now" "qs_blocked (reconciled scope s now) = qs_blocked s"
  by (simp_all add: reconciled_def)

lemma valid_parse:
  assumes "valid_state s" "(k, r) \<in> set (qs_entries s)"
  shows "is_ok (parse_operation_id k)"
  using valid_stateD(4) [OF assms] by (auto simp: entry_valid_def)

lemma reconcile_eq:
  assumes "valid_state s"
  shows "bindE (reconcile scope s now) (\<lambda>st. Inr (st\<lparr>qs_observedAt := now\<rparr>)) = Inr (reconciled scope s now)"
  using reconcile_entries_eq [of "qs_entries s", OF valid_parse [OF assms]]
  by (simp add: reconcile_def reconciled_def)

lemma reconciled_entry:
  assumes "(k, r') \<in> set (qs_entries (reconciled scope s now))"
  shows "\<exists>r. (k, r) \<in> set (qs_entries s) \<and> r' = expire now r
     \<and> \<not> prunable scope now (new_floor scope s now) (issued_of k) (expire now r)"
  using assms by (auto simp: reconciled_def)

lemma reconciled_keys: "fst ` set (qs_entries (reconciled scope s now)) \<subseteq> fst ` set (qs_entries s)"
  by (force simp: reconciled_def)

lemma distinct_map_filter:
  "distinct (map fst d) \<Longrightarrow> distinct (map fst (map (\<lambda>(k, r). (k, f r)) (filter P d)))"
proof (induction d)
  case (Cons p d)
  then show ?case by (cases p) force
qed simp

lemma replay_horizon_nonneg: "0 \<le> replay_horizon scope"
  by (simp add: replay_horizon_def REPLAY_SECONDS_def REQUEST_COUNT_REPLAY_SECONDS_def window_seconds)

lemma reconciled_valid:
  assumes v: "valid_state s" and now: "qs_observedAt s \<le> now" "count_ok now"
  shows "valid_state (reconciled scope s now)"
proof (rule valid_stateI)
  note d = valid_stateD [OF v]
  have fl: "qs_replayFloor s \<le> new_floor scope s now" "new_floor scope s now \<le> now"
    using d(2) now(1) replay_horizon_nonneg [of scope] by (auto simp: new_floor_def fences_ok_def)
  then show "fences_ok (reconciled scope s now)" using d(2) by (simp add: fences_ok_def)
  show "dict_ok (reconciled scope s now)"
    using d(3) by (simp add: dict_ok_def reconciled_def distinct_map_filter del: map_map)
  have "length (qs_entries (reconciled scope s now)) \<le> length (qs_entries s)"
    by (simp add: reconciled_def)
  moreover have "list_all (\<lambda>(k, r). reservation_ok r) (qs_entries (reconciled scope s now))"
    using d(5) now(2) by (force simp: list_all_iff dest!: reconciled_entry intro: expire_reservation_ok)
  ultimately show "state_fields_ok (reconciled scope s now)"
    using d(1,2) fl now(2) by (auto simp: state_fields_ok_def count_ok_def fences_ok_def)
  fix k r'
  assume "(k, r') \<in> set (qs_entries (reconciled scope s now))"
  then obtain r where r: "(k, r) \<in> set (qs_entries s)" "r' = expire now r"
    using reconciled_entry by blast
  have "entry_valid (reconciled scope s now) k r"
    using d(4) [OF r(1)] now(1) by (rule_tac entry_valid_mono) auto
  with r(2) show "entry_valid (reconciled scope s now) k r'" by (simp add: expire_entry_valid)
qed

text \<open>After reconciliation a reservation that is still reserved has not expired.\<close>

lemma reconciled_lease:
  assumes "(k, r) \<in> set (qs_entries (reconciled scope s now))" "rs_phase r = Reserved"
  shows "now \<le> rs_expiresAt r"
proof (rule ccontr)
  assume "\<not> now \<le> rs_expiresAt r"
  with reconciled_entry [OF assms(1)] assms(2) show False
    by (auto simp: expire_phase split: if_splits)
qed

section \<open>The operations\<close>

text \<open>The state an operation is applied to: reconciled and stamped with the clock.\<close>

definition ready :: "quota_state \<Rightarrow> int \<Rightarrow> bool" where
  "ready s now \<longleftrightarrow> valid_state s \<and> qs_observedAt s = now \<and> count_ok now
     \<and> (\<forall>(k, r) \<in> set (qs_entries s). rs_phase r = Reserved \<longrightarrow> now \<le> rs_expiresAt r)"

lemma readyD:
  assumes "ready s now"
  shows "valid_state s" "qs_observedAt s = now" "count_ok now"
    "map_of (qs_entries s) k = Some r \<Longrightarrow> rs_phase r = Reserved \<Longrightarrow> now \<le> rs_expiresAt r"
  using assms by (auto simp: ready_def dest: map_of_mem)

lemma reconciled_ready:
  "valid_state s \<Longrightarrow> qs_observedAt s \<le> now \<Longrightarrow> count_ok now \<Longrightarrow> ready (reconciled scope s now) now"
  by (auto simp: ready_def reconciled_valid dest: reconciled_lease)

text \<open>What every change promises: validity, the clock and the owner.\<close>

definition keeps_valid :: "quota_state \<Rightarrow> quota_state \<Rightarrow> bool" where
  "keeps_valid s s' \<longleftrightarrow> valid_state s' \<and> qs_observedAt s' = qs_observedAt s
     \<and> qs_userId s' = qs_userId s \<and> qs_epoch s' = qs_epoch s
     \<and> qs_validAfter s' = qs_validAfter s \<and> qs_replayFloor s' = qs_replayFloor s"

lemma keeps_valid_refl: "ready s now \<Longrightarrow> keeps_valid s s"
  by (simp add: keeps_valid_def readyD)

lemma reserve_guardsD:
  assumes "reserve_guards scope key sf bd lims s now = Inr u"
  shows "\<exists>i. parse_operation_id key = Inr (qs_epoch s, i) \<and> qs_replayFloor s \<le> i \<and> i \<le> now"
    "am_requests (bd_amounts bd) = 1" "am_compute (bd_amounts bd) = compute_units sf"
    "\<not> qs_blocked s" "\<not> lim_disabled lims"
    "scope = None \<or> am_tokens (bd_amounts bd) = None \<and> am_microUsd (bd_amounts bd) = None"
  using assms
  by (auto simp: reserve_guards_def check_identity_def bindE_Inr_iff split: prod.splits)

lemma mk_reservation_simps [simp]:
  "rs_operationId (mk_reservation key dg sf bd now) = key"
  "rs_payloadDigest (mk_reservation key dg sf bd now) = dg"
  "rs_phase (mk_reservation key dg sf bd now) = Reserved"
  "rs_surface (mk_reservation key dg sf bd now) = sf"
  "rs_bounds (mk_reservation key dg sf bd now) = bd"
  "rs_charged (mk_reservation key dg sf bd now) = bd_amounts bd"
  "rs_reservedAt (mk_reservation key dg sf bd now) = now"
  "rs_expiresAt (mk_reservation key dg sf bd now) = now + 120"
  "rs_dispatchedAt (mk_reservation key dg sf bd now) = None"
  "rs_settledAt (mk_reservation key dg sf bd now) = None"
  "rs_outcome (mk_reservation key dg sf bd now) = None"
  "rs_settlementDigest (mk_reservation key dg sf bd now) = None"
  by (simp_all add: mk_reservation_def RESERVATION_SECONDS_def)

lemma reserve_new_keeps:
  assumes rdy: "ready s now" and g: "reserve_guards scope key sf bd lims s now = Inr u"
    and n: "reserve_new scope key dg sf bd lims s now = Inr (s', r)"
  shows "keeps_valid s s'"
proof -
  note v = readyD(1) [OF rdy] and gd = reserve_guardsD [OF g]
  obtain i where i: "parse_operation_id key = Inr (qs_epoch s, i)" "qs_replayFloor s \<le> i"
    using gd(1) by blast
  let ?r = "mk_reservation key dg sf bd now"
  from n have s': "s' = put_entry s ?r" "reservation_ok ?r" "length (qs_entries s) < MAX_ENTRIES"
    by (auto simp: reserve_new_def bindE_Inr_iff Let_def)
  have "qs_validAfter s \<le> i" using i(2) valid_stateD(2) [OF v] by (simp add: fences_ok_def)
  then have "entry_valid (put_entry s ?r) key ?r"
    using gd(2,3) i readyD(2) [OF rdy]
    by (auto simp: entry_valid_def entry_shape_ok_def entry_scope_ok_def entry_phase_ok_def
        entry_charge_ok_def entry_time_ok_def exceeds_bound_def Let_def)
  from put_entry_valid [OF v _ s'(2) this] s' show ?thesis
    by (simp add: keeps_valid_def)
qed

lemma reserve_keeps:
  assumes rdy: "ready s now" and r: "reserve_change scope key dg sf bd lims s now = Inr (s', r)"
  shows "keeps_valid s s'"
proof -
  from r have g: "reserve_guards scope key sf bd lims s now = Inr ()"
    by (auto simp: reserve_change_def bindE_Inr_iff)
  show ?thesis
  proof (cases "map_of (qs_entries s) key")
    case None
    with r g have "reserve_new scope key dg sf bd lims s now = Inr (s', r)"
      by (simp add: reserve_change_def)
    then show ?thesis by (rule reserve_new_keeps [OF rdy g])
  next
    case (Some prior)
    with r g have "reserve_again scope key dg lims s now prior = Inr (s', r)"
      by (simp add: reserve_change_def)
    then have "s' = s" by (auto simp: reserve_again_def bindE_Inr_iff split: if_splits)
    then show ?thesis using keeps_valid_refl [OF rdy] by simp
  qed
qed

lemma owned_recordD:
  assumes "owned_record s res = Inr r"
  shows "map_of (qs_entries s) (rs_operationId res) = Some r"
    "rs_payloadDigest r = rs_payloadDigest res"
  using assms by (auto simp: owned_record_def split: option.splits if_splits)

lemma map_of_key: "map_of d k = Some v \<Longrightarrow> k \<in> fst ` set d"
  by (metis map_of_eq_None_iff option.distinct(1))

text \<open>
  Writing back a changed copy of a record that is on file: what is left to show is that the
  copy is a valid entry.
\<close>

lemma put_owned_valid:
  assumes v: "valid_state s" and m: "map_of (qs_entries s) k = Some r0"
    and k: "rs_operationId r = k" and ok: "reservation_ok r" and e: "entry_valid (put_entry s r) k r"
  shows "valid_state (put_entry s r)"
  using put_entry_valid [OF v k ok e] map_of_key [OF m] by blast

lemma dispatch_keeps:
  assumes rdy: "ready s now" and d: "dispatch_change res s now = Inr (s', r)"
  shows "keeps_valid s s'"
proof -
  note v = readyD(1) [OF rdy]
  from d obtain r0 where r0: "owned_record s res = Inr r0" "rs_phase r0 = Reserved"
    and s': "s' = put_entry s r" "r = r0\<lparr>rs_phase := Dispatched, rs_dispatchedAt := Some now\<rparr>"
    by (auto simp: dispatch_change_def bindE_Inr_iff Let_def)
  note m = owned_recordD(1) [OF r0(1)]
  note l = valid_lookup [OF v m] readyD(4) [OF rdy m r0(2)]
  have "reservation_ok r" using l(2) s'(2) readyD(3) [OF rdy] by (simp add: reservation_ok_def)
  moreover have "entry_valid (put_entry s r) (rs_operationId res) r"
    using l(1,4) s'(2) r0(2) readyD(2) [OF rdy]
    by (auto simp: entry_valid_def entry_shape_ok_def entry_scope_ok_def entry_phase_ok_def
        entry_charge_ok_def entry_time_ok_def exceeds_bound_def protected_def Let_def)
  moreover have "rs_operationId r = rs_operationId res" using l(3) s'(2) by simp
  ultimately have "valid_state (put_entry s r)" using put_owned_valid [OF v m] by blast
  with s'(1) show ?thesis by (simp add: keeps_valid_def)
qed

lemma release_keeps:
  assumes rdy: "ready s now" and d: "release_change res s now = Inr (s', r)"
  shows "keeps_valid s s'"
proof -
  note v = readyD(1) [OF rdy]
  from d obtain r0 where r0: "owned_record s res = Inr r0"
    and c: "s' = s \<or> rs_phase r0 = Reserved \<and> s' = put_entry s r
      \<and> r = r0\<lparr>rs_phase := Released, rs_settledAt := Some now, rs_charged := zero_amounts\<rparr>"
    by (auto simp: release_change_def bindE_Inr_iff Let_def split: if_splits)
  note m = owned_recordD(1) [OF r0]
  note l = valid_lookup [OF v m]
  from c show ?thesis
  proof
    assume "s' = s"
    then show ?thesis using keeps_valid_refl [OF rdy] by simp
  next
    assume c: "rs_phase r0 = Reserved \<and> s' = put_entry s r
      \<and> r = r0\<lparr>rs_phase := Released, rs_settledAt := Some now, rs_charged := zero_amounts\<rparr>"
    have "reservation_ok r" using l(2) c readyD(3) [OF rdy] by (simp add: reservation_ok_def)
    moreover have "entry_valid (put_entry s r) (rs_operationId res) r0"
      using l(1) by (rule entry_valid_mono) simp_all
    then have "entry_valid (put_entry s r) (rs_operationId res) r"
      using c release_entry_valid [of "put_entry s r"] readyD(2) [OF rdy] by simp
    moreover have "rs_operationId r = rs_operationId res" using l(3) c by simp
    ultimately have "valid_state (put_entry s r)" using put_owned_valid [OF v m] by blast
    with c show ?thesis by (simp add: keeps_valid_def)
  qed
qed

text \<open>
  The settled copy. Its charge is the reported usage when that is complete and the bound
  otherwise, with the attempt counters of the bound in both cases.
\<close>

lemma settled_recordD:
  assumes "settled_record scope out actual st now r0 = Inr r"
  shows "rs_operationId r = rs_operationId r0" "rs_payloadDigest r = rs_payloadDigest r0"
    "rs_surface r = rs_surface r0" "rs_bounds r = rs_bounds r0"
    "rs_reservedAt r = rs_reservedAt r0" "rs_expiresAt r = rs_expiresAt r0"
    "rs_dispatchedAt r = rs_dispatchedAt r0" "rs_settledAt r = Some now" "rs_outcome r = Some out"
    "rs_settlementDigest r = Some st" "rs_phase r \<in> {Settled, Unknown}"
    "am_requests (rs_charged r) = am_requests (bound_amounts r0)"
    "am_compute (rs_charged r) = am_compute (bound_amounts r0)"
    "rs_phase r = Settled \<longleftrightarrow>
       has_complete_usage r0 (Some out) actual \<or> scope \<noteq> None \<and> request_only r0"
  using assms by (auto simp: settled_record_def Let_def split: option.splits if_splits)

lemma amounts_update_same [simp]:
  "a\<lparr>am_requests := am_requests a, am_compute := am_compute a\<rparr> = (a :: amounts)"
  by simp

lemma settled_charge:
  assumes "settled_record scope out actual st now r0 = Inr r"
  shows "rs_charged r = (if has_complete_usage r0 (Some out) actual
      then (the actual)\<lparr>am_requests := am_requests (bound_amounts r0),
                        am_compute := am_compute (bound_amounts r0)\<rparr>
      else bound_amounts r0)"
  using assms by (auto simp: settled_record_def Let_def split: option.splits if_splits)

lemma settled_total: "\<exists>r. settled_record scope out actual st now r0 = Inr r"
  by (auto simp: settled_record_def Let_def has_complete_usage_def split: option.splits)

lemma settled_usage:
  assumes "settled_record scope out actual st now r0 = Inr r" "rs_phase r = Settled"
  shows "has_complete_usage r (rs_outcome r) (Some (rs_charged r))
     \<or> is_attempt_settlement r (rs_outcome r) (rs_charged r)"
proof (cases "has_complete_usage r0 (Some out) actual")
  case True
  then show ?thesis
    using settled_recordD [OF assms(1)] settled_charge [OF assms(1)]
    by (auto simp: has_complete_usage_def split: option.splits)
next
  case False
  then show ?thesis
    using settled_recordD [OF assms(1)] settled_charge [OF assms(1)] assms(2)
    by (auto simp: is_attempt_settlement_def request_only_def)
qed

lemma settled_unknown_charge:
  assumes "settled_record scope out actual st now r0 = Inr r" "rs_phase r = Unknown"
  shows "rs_charged r = bound_amounts r0"
  using settled_recordD(14) [OF assms(1)] settled_charge [OF assms(1)] assms(2) by auto

lemma settled_ok:
  assumes "settled_record scope out actual st now r0 = Inr r" "reservation_ok r0"
    "count_ok now" "opt_ok amounts_ok actual" "is_hex 64 st"
  shows "reservation_ok r"
proof -
  have "amounts_ok (bound_amounts r0)" using assms(2) by (simp add: reservation_ok_def bounds_ok_def)
  moreover have "amounts_ok (the actual)" if "has_complete_usage r0 (Some out) actual"
    using that assms(4) by (auto simp: has_complete_usage_def split: option.splits)
  ultimately have "amounts_ok (rs_charged r)"
    unfolding settled_charge [OF assms(1)] by (auto simp: amounts_ok_def)
  then show ?thesis
    using assms settled_recordD [OF assms(1)] by (simp add: reservation_ok_def)
qed

lemma settled_entry_valid:
  assumes e: "entry_valid s k r0" and p: "rs_phase r0 = Dispatched" and o: "qs_observedAt s = now"
    and r: "settled_record scope out actual st now r0 = Inr r"
    and b: "exceeds_bound r \<longrightarrow> qs_blocked s"
  shows "entry_valid s k r"
proof -
  note d = settled_recordD [OF r] and u = settled_usage [OF r] and c = settled_unknown_charge [OF r]
  have "entry_shape_ok k r" using e d p
    by (auto simp: entry_valid_def entry_shape_ok_def Let_def)
  moreover have "entry_phase_ok r" using e d p u
    by (auto simp: entry_valid_def entry_phase_ok_def)
  moreover have "entry_charge_ok s r" using b d c
    by (auto simp: entry_charge_ok_def protected_def)
  moreover have "entry_time_ok s r" using e d p o
    by (auto simp: entry_valid_def entry_time_ok_def entry_phase_ok_def split: option.splits)
  ultimately show ?thesis using e by (simp add: entry_valid_def)
qed

lemma settle_keeps:
  assumes rdy: "ready s now" and d: "settle_change scope res out actual st s now = Inr (s', r)"
    and a: "opt_ok amounts_ok actual" and h: "is_hex 64 st"
  shows "keeps_valid s s'"
proof -
  note v = readyD(1) [OF rdy]
  from d obtain r0 where r0: "owned_record s res = Inr r0"
    and c: "s' = s \<or> rs_phase r0 = Dispatched \<and> settled_record scope out actual st now r0 = Inr r
      \<and> s' = (put_entry s r)\<lparr>qs_blocked := qs_blocked s \<or> exceeds_bound r\<rparr>"
    by (auto simp: settle_change_def bindE_Inr_iff split: option.splits if_splits)
  note m = owned_recordD(1) [OF r0]
  note l = valid_lookup [OF v m]
  from c show ?thesis
  proof
    assume "s' = s"
    then show ?thesis using keeps_valid_refl [OF rdy] by simp
  next
    assume c: "rs_phase r0 = Dispatched \<and> settled_record scope out actual st now r0 = Inr r
      \<and> s' = (put_entry s r)\<lparr>qs_blocked := qs_blocked s \<or> exceeds_bound r\<rparr>"
    let ?s = "s\<lparr>qs_blocked := qs_blocked s \<or> exceeds_bound r\<rparr>"
    have v': "valid_state ?s" using v by (rule blocked_valid) simp
    have eq: "s' = put_entry ?s r" using c by (simp add: put_entry_def)
    have "entry_valid ?s (rs_operationId res) r0"
      using l(1) by (rule entry_valid_mono) simp_all
    then have "entry_valid ?s (rs_operationId res) r"
      by (rule settled_entry_valid) (use c readyD(2) [OF rdy] in auto)
    then have e: "entry_valid (put_entry ?s r) (rs_operationId res) r"
      by (rule entry_valid_mono) simp_all
    have "reservation_ok r" using settled_ok c l(2) readyD(3) [OF rdy] a h by blast
    moreover have "rs_operationId r = rs_operationId res"
      using settled_recordD(1) c l(3) by metis
    ultimately have "valid_state (put_entry ?s r)"
      using put_owned_valid [OF v' _ _ _ e, of r0] m by simp
    with eq show ?thesis by (simp add: keeps_valid_def)
  qed
qed

end
