(* ===== verification/Quota_Capacity.thy ===== *)
theory Quota_Capacity
  imports Quota_Validity
begin

text \<open>
  The transition-capacity envelope of \<open>ensure_transition_capacity\<close>: a document admitted under
  it (\<open>fits\<close>) stays below the size bound through every later reconciliation, dispatch,
  settlement and release, whatever values those write. Only a new reservation may be refused
  for size.
\<close>

section \<open>Lengths of the parts\<close>

lemma phase_json_le: "json_le (JStr (phase_name p)) (JStr (phase_name Dispatched))"
  by (cases p) (simp_all add: json_le_def dumps_default_def quote_def escape_char_def char_code_def)

lemma outcome_json_le: "json_le (opt_json (\<lambda>x. JStr (outcome_name x)) z) (JStr (outcome_name OCancelled))"
  by (cases z; cases "the z")
    (simp_all add: json_le_def dumps_default_def quote_def escape_char_def char_code_def)

lemma length_show_max: "length (show_int MAX_QUANTITY) = 16"
  by (simp add: MAX_QUANTITY_def show_int_def show_nat.simps)

lemma opt_count_json_le: "opt_ok count_ok z \<Longrightarrow> json_le (opt_json JInt z) (JInt MAX_QUANTITY)"
proof (cases z)
  case None
  then show ?thesis by (simp add: json_le_def dumps_default_def length_show_max)
next
  case (Some n)
  then show "opt_ok count_ok z \<Longrightarrow> ?thesis" by (simp add: json_le_int count_ok_def)
qed

lemma digest_json_le:
  "opt_ok (is_hex 64) z \<Longrightarrow> json_le (opt_json JStr z) (JStr (replicate 64 (CHR ''f'')))"
proof -
  have h: "list_all is_lower_hex (replicate 64 (CHR ''f''))"
    by (simp add: list_all_iff is_lower_hex_def is_digit_def char_code_def)
  show "opt_ok (is_hex 64) z \<Longrightarrow> ?thesis"
    using length_quote_hex [OF h]
    by (cases z) (auto simp: json_le_def dumps_default_def is_hex_def length_quote_hex)
qed

lemma amounts_json_le:
  assumes "opt_ok count_ok (am_tokens a)" "opt_ok count_ok (am_microUsd a)"
    "0 \<le> am_requests a" "am_requests a \<le> am_requests b" "0 \<le> am_compute a" "am_compute a \<le> am_compute b"
    "am_tokens b = Some MAX_QUANTITY" "am_microUsd b = Some MAX_QUANTITY"
  shows "json_le (amounts_json a) (amounts_json b)"
  unfolding amounts_json_def
  by (rule json_le_obj) (simp add: assms json_le_int opt_count_json_le)

section \<open>The envelope of an entry\<close>

definition same_identity :: "reservation \<Rightarrow> reservation \<Rightarrow> bool" where
  "same_identity r r' \<longleftrightarrow> rs_operationId r' = rs_operationId r \<and> rs_payloadDigest r' = rs_payloadDigest r
     \<and> rs_surface r' = rs_surface r \<and> rs_bounds r' = rs_bounds r
     \<and> rs_reservedAt r' = rs_reservedAt r \<and> rs_expiresAt r' = rs_expiresAt r
     \<and> am_requests (rs_charged r') \<le> am_requests (rs_charged r)
     \<and> am_compute (rs_charged r') \<le> am_compute (rs_charged r)"

definition unfinished :: "reservation \<Rightarrow> bool" where
  "unfinished r \<longleftrightarrow> rs_phase r \<in> {Reserved, Dispatched}"

lemma envelope_covers:
  assumes r: "unfinished r" and s: "same_identity r r'" and ok: "reservation_ok r'"
  shows "json_le (reservation_json r') (reservation_json (envelope_entry r))"
proof -
  have a: "json_le (amounts_json (rs_charged r')) (amounts_json (rs_charged (envelope_entry r)))"
    by (rule amounts_json_le)
      (use r s ok in \<open>auto simp: envelope_entry_def unfinished_def same_identity_def reservation_ok_def
         amounts_ok_def count_ok_def\<close>)
  show ?thesis
    unfolding reservation_json_def
    by (rule json_le_obj)
      (use r s ok a in \<open>simp add: envelope_entry_def unfinished_def same_identity_def
         reservation_ok_def phase_json_le [simplified] outcome_json_le [simplified]
         opt_count_json_le digest_json_le\<close>)
qed

lemma envelope_entry_ok: "reservation_ok r \<Longrightarrow> reservation_ok (envelope_entry r)"
  by (simp add: envelope_entry_def reservation_ok_def amounts_ok_def count_ok_def MAX_QUANTITY_def
      is_hex_def list_all_iff is_lower_hex_def is_digit_def char_code_def)

lemma envelope_entry_identity: "same_identity r (envelope_entry r)"
  by (simp add: same_identity_def envelope_entry_def)

lemma same_identity_refl [simp]: "same_identity r r"
  by (simp add: same_identity_def)

lemma same_identity_trans: "same_identity r r' \<Longrightarrow> same_identity r' r'' \<Longrightarrow> same_identity r r''"
  by (simp add: same_identity_def)

text \<open>An entry never outgrows its envelope, and a step from an unfinished entry never widens it.\<close>

lemma entry_within_envelope:
  "reservation_ok r \<Longrightarrow> json_le (reservation_json r) (reservation_json (envelope_entry r))"
  by (cases "unfinished r")
    (auto simp: envelope_covers, simp add: envelope_entry_def unfinished_def)

lemma envelope_step:
  assumes "unfinished r" "same_identity r r'" "reservation_ok r'"
  shows "json_le (reservation_json (envelope_entry r')) (reservation_json (envelope_entry r))"
  using assms envelope_covers [of r "envelope_entry r'"] envelope_entry_ok
    same_identity_trans [OF assms(2) envelope_entry_identity] by blast

section \<open>The envelope of a state\<close>

definition fits :: "quota_state \<Rightarrow> bool" where
  "fits s \<longleftrightarrow> state_bytes (envelope s) \<le> MAX_STATE_BYTES"

lemma state_bytes_mono:
  assumes "qs_userId s = qs_userId t" "qs_epoch s = qs_epoch t" "qs_validAfter s = qs_validAfter t"
    "json_le (JInt (qs_replayFloor s)) (JInt (qs_replayFloor t))"
    "json_le (JInt (qs_observedAt s)) (JInt (qs_observedAt t))"
    "json_le (JBool (qs_blocked s)) (JBool (qs_blocked t))"
    "json_le (entries_json (qs_entries s)) (entries_json (qs_entries t))"
  shows "state_bytes s \<le> state_bytes t"
proof -
  have "json_le (state_json s) (state_json t)"
    unfolding state_json_def by (rule json_le_obj) (simp add: assms)
  then show ?thesis by (simp add: state_bytes_def json_le_def)
qed

lemma entries_json_mono:
  assumes "list_all2 (\<lambda>(k, r) (k', r'). k = k' \<and> json_le (reservation_json r) (reservation_json r')) d d'"
  shows "json_le (entries_json d) (entries_json d')"
  unfolding entries_json_def
  by (rule json_le_obj) (use assms in \<open>auto simp: list_all2_map1 list_all2_map2 elim!: list_all2_mono\<close>)

lemma envelope_fields [simp]:
  "qs_userId (envelope s) = qs_userId s" "qs_epoch (envelope s) = qs_epoch s"
  "qs_validAfter (envelope s) = qs_validAfter s" "qs_replayFloor (envelope s) = MAX_QUANTITY"
  "qs_observedAt (envelope s) = MAX_QUANTITY" "\<not> qs_blocked (envelope s)"
  "qs_entries (envelope s) = map (\<lambda>(k, r). (k, envelope_entry r)) (qs_entries s)"
  by (simp_all add: envelope_def)

lemma bool_json_le: "json_le (JBool b) (JBool False)"
  by (simp add: json_le_def dumps_default_def)

lemma bytes_within_envelope:
  assumes v: "valid_state s"
  shows "state_bytes s \<le> state_bytes (envelope s)"
proof (rule state_bytes_mono)
  show "json_le (entries_json (qs_entries s)) (entries_json (qs_entries (envelope s)))"
    by (rule entries_json_mono)
      (use valid_stateD(5) [OF v] in \<open>auto simp: list_all2_conv_all_nth entry_within_envelope
        split: prod.splits dest: nth_mem\<close>)
qed (use valid_stateD(1) [OF v] in \<open>simp_all add: json_le_int state_fields_ok_def count_ok_def bool_json_le\<close>)

text \<open>So a valid state under its envelope is always stored.\<close>

lemma fits_document: "valid_state s \<Longrightarrow> fits s \<Longrightarrow> state_document s = Inr (state_json s)"
  using bytes_within_envelope [of s] by (simp add: state_document_def valid_state_def fits_def)

lemma capacity_iff:
  "valid_state s \<Longrightarrow> ensure_transition_capacity s = Inr () \<longleftrightarrow> fits s"
  using bytes_within_envelope [of s]
  by (auto simp: ensure_transition_capacity_def bindE_Inr_iff fits_def state_document_def valid_state_def)

lemma capacity_fits: "ensure_transition_capacity s = Inr u \<Longrightarrow> fits s"
  by (auto simp: ensure_transition_capacity_def bindE_Inr_iff fits_def split: if_splits)

lemma fits_mono:
  assumes "fits t" "qs_userId s = qs_userId t" "qs_epoch s = qs_epoch t"
    "qs_validAfter s = qs_validAfter t"
    "json_le (entries_json (map (\<lambda>(k, r). (k, envelope_entry r)) (qs_entries s)))
             (entries_json (map (\<lambda>(k, r). (k, envelope_entry r)) (qs_entries t)))"
  shows "fits s"
proof -
  have "state_bytes (envelope s) \<le> state_bytes (envelope t)"
    by (rule state_bytes_mono) (simp_all add: assms)
  with assms(1) show ?thesis by (simp add: fits_def)
qed

lemma list_all2_update:
  assumes "map_of d k = Some r0" "P (k, r) (k, r0)" "\<And>p. P p p"
  shows "list_all2 P (AList.update k r d) d"
  using assms by (induction d) (auto simp: list_all2_same split: if_splits)

lemma fits_put:
  assumes f: "fits s" and m: "map_of (qs_entries s) k = Some r0" and k: "rs_operationId r = k"
    and u: "unfinished r0" and i: "same_identity r0 r" and ok: "reservation_ok r"
  shows "fits (put_entry s r)"
proof (rule fits_mono [OF f])
  show "json_le (entries_json (map (\<lambda>(k, r). (k, envelope_entry r)) (qs_entries (put_entry s r))))
     (entries_json (map (\<lambda>(k, r). (k, envelope_entry r)) (qs_entries s)))"
    by (rule entries_json_mono)
      (use envelope_step [OF u i ok] m k in \<open>auto simp: list_all2_map1 list_all2_map2
        intro!: list_all2_update [of _ _ r0] split: prod.splits\<close>)
qed simp_all

lemma fits_blocked [simp]: "fits (s\<lparr>qs_blocked := b\<rparr>) = fits s"
  by (simp add: fits_def envelope_def)

lemma fits_observed [simp]: "fits (s\<lparr>qs_observedAt := t\<rparr>) = fits s"
  by (simp add: fits_def envelope_def)

lemma filter_json_le: "json_le (entries_json (map f (filter P d))) (entries_json (map f d))"
proof -
  let ?t = "\<lambda>p. case f p of (k, r) \<Rightarrow> quote k @ '': '' @ dumps_default (reservation_json r)"
  have "sum_list (map (length \<circ> ?t) (filter P d)) \<le> sum_list (map (length \<circ> ?t) d)"
    by (induction d) auto
  moreover have "length (filter P d) - 1 \<le> length d - 1" by (simp add: diff_le_mono)
  ultimately have "length (join '', '' (map ?t (filter P d))) \<le> length (join '', '' (map ?t d))"
    unfolding length_join map_map length_map by (intro add_mono mult_le_mono1)
  moreover have "dumps_default (entries_json (map f d)) = ''{'' @ join '', '' (map ?t d) @ ''}''" for d
    by (simp add: dumps_default_def entries_json_def case_prod_beta' comp_def)
  ultimately show ?thesis by (simp add: json_le_def)
qed

lemma expire_identity:
  "entry_valid s k r \<Longrightarrow> same_identity r (expire now r)"
  by (auto simp: same_identity_def expire_def zero_amounts_def entry_valid_def entry_shape_ok_def
      compute_units_def Let_def)

lemma envelope_expire:
  assumes "entry_valid s k r" "reservation_ok r" "count_ok now"
  shows "json_le (reservation_json (envelope_entry (expire now r))) (reservation_json (envelope_entry r))"
proof (cases "rs_phase r = Reserved")
  case True
  then show ?thesis
    using assms by (auto intro!: envelope_step expire_identity expire_reservation_ok simp: unfinished_def)
qed (simp add: expire_not_reserved)

lemma fits_reconciled:
  assumes v: "valid_state s" and f: "fits s" and now: "count_ok now"
  shows "fits (reconciled scope s now)"
proof (rule fits_mono [OF f])
  let ?P = "\<lambda>(k, r). \<not> prunable scope now (new_floor scope s now) (issued_of k) (expire now r)"
  let ?e = "\<lambda>(k, r). (k, envelope_entry r)"
  let ?d = "filter ?P (qs_entries s)"
  have "json_le (entries_json (map ?e (map (\<lambda>(k, r). (k, expire now r)) ?d))) (entries_json (map ?e ?d))"
  proof (rule entries_json_mono)
    have "\<forall>p \<in> set ?d. json_le (reservation_json (envelope_entry (expire now (snd p))))
        (reservation_json (envelope_entry (snd p)))"
      using valid_stateD(4,5) [OF v] now by (force intro: envelope_expire)
    then show "list_all2 (\<lambda>(k, r) (k', r'). k = k' \<and> json_le (reservation_json r) (reservation_json r'))
        (map ?e (map (\<lambda>(k, r). (k, expire now r)) ?d)) (map ?e ?d)"
      by (auto simp: list_all2_map1 list_all2_map2 list_all2_same split: prod.splits)
  qed
  then show "json_le (entries_json (map ?e (qs_entries (reconciled scope s now))))
      (entries_json (map ?e (qs_entries s)))"
    using json_le_trans [OF _ filter_json_le] by (simp add: reconciled_def del: map_map)
qed simp_all

section \<open>The operations keep the envelope\<close>

lemma reserve_fits:
  assumes "fits s" "reserve_change scope key dg sf bd lims s now = Inr (s', r)"
  shows "fits s'"
  using assms
  by (auto simp: reserve_change_def reserve_again_def reserve_new_def bindE_Inr_iff Let_def
      split: option.splits if_splits dest: capacity_fits)

lemma dispatch_fits:
  assumes v: "valid_state s" and now: "count_ok now" and f: "fits s"
    and d: "dispatch_change res s now = Inr (s', r)"
  shows "fits s'"
proof -
  from d obtain r0 where r0: "owned_record s res = Inr r0" "rs_phase r0 = Reserved"
    and s': "s' = put_entry s r" "r = r0\<lparr>rs_phase := Dispatched, rs_dispatchedAt := Some now\<rparr>"
    by (auto simp: dispatch_change_def bindE_Inr_iff Let_def)
  note m = owned_recordD(1) [OF r0(1)]
  note l = valid_lookup [OF v m]
  show ?thesis
    unfolding s'(1) by (rule fits_put [OF f m])
      (use l(2,3) r0(2) s'(2) now in \<open>simp_all add: unfinished_def same_identity_def reservation_ok_def\<close>)
qed

lemma release_fits:
  assumes v: "valid_state s" and now: "count_ok now" and f: "fits s"
    and d: "release_change res s now = Inr (s', r)"
  shows "fits s'"
proof -
  from d obtain r0 where r0: "owned_record s res = Inr r0"
    and c: "s' = s \<or> rs_phase r0 = Reserved \<and> s' = put_entry s r
      \<and> r = r0\<lparr>rs_phase := Released, rs_settledAt := Some now, rs_charged := zero_amounts\<rparr>"
    by (auto simp: release_change_def bindE_Inr_iff Let_def split: if_splits)
  note m = owned_recordD(1) [OF r0]
  note l = valid_lookup [OF v m]
  from c show ?thesis
  proof
    assume c: "rs_phase r0 = Reserved \<and> s' = put_entry s r
      \<and> r = r0\<lparr>rs_phase := Released, rs_settledAt := Some now, rs_charged := zero_amounts\<rparr>"
    have e: "expire (rs_expiresAt r0 + 1) r0 = r0\<lparr>rs_phase := Released,
        rs_settledAt := Some (rs_expiresAt r0 + 1), rs_charged := zero_amounts\<rparr>"
      using c by (simp add: expire_def)
    have "same_identity r0 r"
      using expire_identity [OF l(1), of "rs_expiresAt r0 + 1"] c e by (simp add: same_identity_def)
    then have "fits (put_entry s r)"
      by (intro fits_put [OF f m])
        (use l(2,3) c now in \<open>simp_all add: unfinished_def reservation_ok_def\<close>)
    with c show ?thesis by simp
  qed (use f in simp)
qed

lemma settle_fits:
  assumes v: "valid_state s" and now: "count_ok now" and f: "fits s"
    and d: "settle_change scope res out actual st s now = Inr (s', r)"
    and a: "opt_ok amounts_ok actual" and h: "is_hex 64 st"
  shows "fits s'"
proof -
  from d obtain r0 where r0: "owned_record s res = Inr r0"
    and c: "s' = s \<or> rs_phase r0 = Dispatched \<and> settled_record scope out actual st now r0 = Inr r
      \<and> s' = (put_entry s r)\<lparr>qs_blocked := qs_blocked s \<or> exceeds_bound r\<rparr>"
    by (auto simp: settle_change_def bindE_Inr_iff split: option.splits if_splits)
  note m = owned_recordD(1) [OF r0]
  note l = valid_lookup [OF v m]
  from c show ?thesis
  proof
    assume c: "rs_phase r0 = Dispatched \<and> settled_record scope out actual st now r0 = Inr r
      \<and> s' = (put_entry s r)\<lparr>qs_blocked := qs_blocked s \<or> exceeds_bound r\<rparr>"
    then have sr: "settled_record scope out actual st now r0 = Inr r" by simp
    have "am_requests (rs_charged r0) = am_requests (bound_amounts r0)"
      "am_compute (rs_charged r0) = am_compute (bound_amounts r0)"
      using l(1) c by (auto simp: entry_valid_def entry_shape_ok_def Let_def)
    then have "same_identity r0 r"
      using settled_recordD [OF sr] by (simp add: same_identity_def)
    moreover have "reservation_ok r" by (rule settled_ok [OF sr l(2) now a h])
    ultimately have "fits (put_entry s r)"
      by (intro fits_put [OF f m])
        (use l(3) c settled_recordD(1) [OF sr] in \<open>simp_all add: unfinished_def\<close>)
    with c show ?thesis by simp
  qed (use f in simp)
qed

section \<open>A fresh document\<close>

lemma escape_char_length: "length (escape_char c) \<le> 6"
  by (simp add: escape_char_def Let_def)

lemma length_quote_le: "length (quote s) \<le> 6 * length s + 2"
proof (induction s)
  case (Cons c s)
  then show ?case using escape_char_length [of c] by (simp add: quote_def)
qed (simp add: quote_def)

lemma fresh_valid:
  assumes "1 \<le> length ow" "length ow \<le> 128" "is_hex 32 ep" "count_ok now"
  shows "valid_state (fresh_state ow ep now)"
  using assms
  by (auto simp: valid_state_def model_validate_iff state_fields_ok_def fresh_state_def fences_ok_def
      dict_ok_def)

lemma fresh_fits:
  assumes "length ow \<le> 128" "is_hex 32 ep" "count_ok now"
  shows "fits (fresh_state ow ep now)"
proof -
  have "length (quote ow) \<le> 770" using length_quote_le [of ow] assms(1) by simp
  moreover have "length (quote ep) = 34" using assms(2) by (simp add: is_hex_def length_quote_hex)
  moreover have "length (show_int now) \<le> 16"
    using length_show_int_mono [of now MAX_QUANTITY] assms(3) length_show_max by (simp add: count_ok_def)
  ultimately show ?thesis
    by (simp add: fits_def state_bytes_def envelope_def fresh_state_def state_json_def
        dumps_default_def entries_json_def quote_def escape_char_def char_code_def length_show_max
        MAX_STATE_BYTES_def)
qed

end
