(* ===== verification/Quota_Ops.thy ===== *)
theory Quota_Ops
  imports Quota_Capacity
begin

text \<open>
  The operations as requests against an owner's state, what one pass of the compare-and-swap
  loop does to a well-kept state, and the loop over any store: a call that returns has applied
  its change atomically to the row as it was at the moment of the write, and over a store that
  answers, an undisturbed call returns exactly what its change decides.
\<close>

section \<open>Requests\<close>

datatype request =
    RReserve string string surface bounds limits
  | RDispatch reservation
  | RSettle reservation outcome "amounts option" string
  | RRelease reservation
  | RReconcile

datatype reply = Record reservation | State quota_state

fun tag_record :: "quota_exn + (quota_state \<times> reservation) \<Rightarrow> quota_exn + (quota_state \<times> reply)" where
  "tag_record (Inl e) = Inl e"
| "tag_record (Inr (s, r)) = Inr (s, Record r)"

fun change_of :: "int option \<Rightarrow> request \<Rightarrow> quota_state \<Rightarrow> int \<Rightarrow> quota_exn + (quota_state \<times> reply)" where
  "change_of scope (RReserve key dg sf bd lims) s now =
     tag_record (reserve_change scope key dg sf bd lims s now)"
| "change_of scope (RDispatch res) s now = tag_record (dispatch_change res s now)"
| "change_of scope (RSettle res out actual st) s now =
     tag_record (settle_change scope res out actual st s now)"
| "change_of scope (RRelease res) s now = tag_record (release_change res s now)"
| "change_of scope RReconcile s now = Inr (s, State s)"

lemma tag_record_Inr_iff [simp]:
  "tag_record x = Inr (s, rep) \<longleftrightarrow> (\<exists>r. x = Inr (s, r) \<and> rep = Record r)"
  by (cases x rule: tag_record.cases) auto

text \<open>Well-typed arguments: usage within range, a digest that is a digest.\<close>

fun wf_request :: "request \<Rightarrow> bool" where
  "wf_request (RSettle res out actual st) = (opt_ok amounts_ok actual \<and> is_hex 64 st)"
| "wf_request _ = True"

definition good_state :: "quota_state \<Rightarrow> bool" where
  "good_state s \<longleftrightarrow> valid_state s \<and> fits s"

lemma change_keeps:
  assumes rdy: "ready s now" and f: "fits s" and w: "wf_request req"
    and c: "change_of scope req s now = Inr (s', rep)"
  shows "keeps_valid s s' \<and> fits s'"
proof (cases req)
  case (RReserve key dg sf bd lims)
  then show ?thesis using c reserve_keeps [OF rdy] reserve_fits [OF f] by auto
next
  case (RDispatch res)
  then show ?thesis
    using c dispatch_keeps [OF rdy] dispatch_fits [OF readyD(1,3) [OF rdy] f] by auto
next
  case (RSettle res out actual st)
  then show ?thesis
    using c w settle_keeps [OF rdy] settle_fits [OF readyD(1,3) [OF rdy] f] by auto
next
  case (RRelease res)
  then show ?thesis
    using c release_keeps [OF rdy] release_fits [OF readyD(1,3) [OF rdy] f] by auto
next
  case RReconcile
  then show ?thesis using c f keeps_valid_refl [OF rdy] by simp
qed

section \<open>One pass\<close>

text \<open>
  The pass on a valid snapshot is the change applied to the reconciled state at the store's
  clock; the final stamp writes the clock that is there already.
\<close>

lemma validate_snapshotD:
  assumes "validate_snapshot ow sn = Inr u"
  shows "model_validate (sn_state sn) = Inr ()" "qs_userId (sn_state sn) = ow" "sn_etag sn \<noteq> []"
    "qs_observedAt (sn_state sn) \<le> sn_now sn" "is_ok (state_document (sn_state sn))"
  using assms
  by (auto simp: validate_snapshot_def bindE_Inr_iff state_document_def split: if_splits)

lemma attempt_eq:
  assumes v: "valid_state (sn_state sn)" and vs: "validate_snapshot ow sn = Inr ()"
  shows "attempt scope ow sn change =
    bindE (change (reconciled scope (sn_state sn) (sn_now sn)) (sn_now sn))
      (\<lambda>(u, r). Inr (u\<lparr>qs_observedAt := sn_now sn\<rparr>, r))"
proof -
  have now: "max (sn_now sn) (qs_observedAt (sn_state sn)) = sn_now sn"
    using validate_snapshotD(4) [OF vs] by simp
  obtain st where "reconcile scope (sn_state sn) (sn_now sn) = Inr st"
    and "st\<lparr>qs_observedAt := sn_now sn\<rparr> = reconciled scope (sn_state sn) (sn_now sn)"
    using reconcile_eq [OF v, of scope "sn_now sn"] by (auto simp: bindE_Inr_iff)
  then show ?thesis by (simp add: attempt_def vs now Let_def)
qed

lemma attemptD:
  assumes "attempt scope ow sn change = Inr (u, r)" "dict_ok (sn_state sn)"
  shows "valid_state (sn_state sn)" "validate_snapshot ow sn = Inr ()"
    "\<exists>u'. change (reconciled scope (sn_state sn) (sn_now sn)) (sn_now sn) = Inr (u', r)
       \<and> u = u'\<lparr>qs_observedAt := sn_now sn\<rparr>"
proof -
  from assms(1) show vs: "validate_snapshot ow sn = Inr ()"
    by (auto simp: attempt_def bindE_Inr_iff)
  then show v: "valid_state (sn_state sn)"
    using validate_snapshotD(1) assms(2) by (auto simp: valid_state_def)
  show "\<exists>u'. change (reconciled scope (sn_state sn) (sn_now sn)) (sn_now sn) = Inr (u', r)
       \<and> u = u'\<lparr>qs_observedAt := sn_now sn\<rparr>"
    using assms(1) unfolding attempt_eq [OF v vs] by (auto simp: bindE_Inr_iff)
qed

lemma snapshot_ready:
  assumes "valid_state (sn_state sn)" "validate_snapshot ow sn = Inr ()" "count_ok (sn_now sn)"
  shows "ready (reconciled scope (sn_state sn) (sn_now sn)) (sn_now sn)"
  using assms validate_snapshotD(4) by (auto intro: reconciled_ready)

lemma attempt_keeps:
  assumes a: "attempt scope ow sn (change_of scope req) = Inr (u, rep)" and g: "good_state (sn_state sn)"
    and w: "wf_request req" and now: "count_ok (sn_now sn)"
  shows "good_state u \<and> qs_userId u = ow \<and> qs_observedAt u = sn_now sn
    \<and> qs_epoch u = qs_epoch (sn_state sn) \<and> qs_validAfter u = qs_validAfter (sn_state sn)
    \<and> qs_replayFloor u = new_floor scope (sn_state sn) (sn_now sn)"
proof -
  from g have v: "valid_state (sn_state sn)" and f: "fits (sn_state sn)" by (auto simp: good_state_def)
  note d = attemptD [OF a valid_stateD(3) [OF v]]
  from d(3) obtain u' where
    u': "change_of scope req (reconciled scope (sn_state sn) (sn_now sn)) (sn_now sn) = Inr (u', rep)"
    and u: "u = u'\<lparr>qs_observedAt := sn_now sn\<rparr>" by blast
  have "keeps_valid (reconciled scope (sn_state sn) (sn_now sn)) u' \<and> fits u'"
    by (rule change_keeps [OF snapshot_ready [OF v d(2) now] fits_reconciled [OF v f now] w u'])
  moreover from this u have "u = u'" by (simp add: keeps_valid_def)
  ultimately show ?thesis
    using validate_snapshotD(2) [OF d(2)] by (auto simp: keeps_valid_def good_state_def)
qed

section \<open>The loop over a store\<close>

text \<open>
  The other writers never reuse a version: where the row has the version it had, it has the
  state it had. This is what an ETag promises.
\<close>

definition honest_env :: "('s \<Rightarrow> string \<Rightarrow> (quota_state \<times> nat) option) \<Rightarrow> (nat \<Rightarrow> 's \<Rightarrow> 's) \<Rightarrow> string \<Rightarrow> bool" where
  "honest_env row env ow \<longleftrightarrow> (\<forall>k s cur v cur'. row s ow = Some (cur, v) \<longrightarrow>
     row (env k s) ow = Some (cur', v) \<longrightarrow> cur' = cur)"

context cas_store begin

lemma change_loop_atomic:
  assumes "change_loop rd rp env clock scope ow change n k s = (Inr result, s')"
    and env: "honest_env row env ow"
  shows "\<exists>s0 now cur v st. row s0 ow = Some (cur, v)
     \<and> attempt scope ow \<lparr>sn_state = cur, sn_etag = tag v, sn_now = now\<rparr> change = Inr (st, result)
     \<and> row s' = (row s0)(ow \<mapsto> (st, Suc v)) \<and> is_ok (state_document st)
     \<and> (\<exists>j. k \<le> j \<and> j < k + n \<and> now = clock j)"
  using assms(1)
proof (induction n arbitrary: k s)
  case (Suc n)
  obtain sn where rd: "rd s (clock k) ow = Inr sn"
    using Suc.prems by (cases "rd s (clock k) ow") auto
  obtain st res where at: "attempt scope ow sn change = Inr (st, res)"
    using Suc.prems rd by (cases "attempt scope ow sn change") auto
  obtain b s1 where rp: "rp (env k s) ow sn st = Inr (b, s1)"
    using Suc.prems rd at by (cases "rp (env k s) ow sn st") auto
  show ?case
  proof (cases b)
    case True
    with Suc.prems rd at rp have eq: "res = result" "s1 = s'" by auto
    obtain v0 where v0: "row s ow = Some (sn_state sn, v0)" "sn_etag sn = tag v0" "sn_now sn = clock k"
      using rd_row [OF rd] by blast
    obtain cur v where c: "row (env k s) ow = Some (cur, v)" "sn_etag sn = tag v"
      "row s' = (row (env k s))(ow \<mapsto> (st, Suc v))" "is_ok (state_document st)"
      using rp_won [of "env k s" ow sn st s'] rp True eq by auto
    have "v = v0" using v0(2) c(2) by (metis tag_inj)
    then have "cur = sn_state sn"
      using env v0(1) c(1) unfolding honest_env_def by blast
    then have "sn = \<lparr>sn_state = cur, sn_etag = tag v, sn_now = clock k\<rparr>"
      using v0(3) c(2) by simp
    then show ?thesis using c at eq by (intro exI [of _ "env k s"] exI) auto
  next
    case False
    with Suc.prems rd at rp have "change_loop rd rp env clock scope ow change n (Suc k) s1 = (Inr result, s')"
      by simp
    from Suc.IH [OF this] obtain s0 now cur v st j where
      "row s0 ow = Some (cur, v)"
      "attempt scope ow \<lparr>sn_state = cur, sn_etag = tag v, sn_now = now\<rparr> change = Inr (st, result)"
      "row s' = (row s0)(ow \<mapsto> (st, Suc v))" "is_ok (state_document st)"
      "Suc k \<le> j" "j < Suc k + n" "now = clock j" by blast
    moreover from this have "k \<le> j" "j < k + Suc n" by simp_all
    ultimately show ?thesis by blast
  qed
qed simp

end

context cas_store_live begin

text \<open>Undisturbed, the first pass decides.\<close>

lemma change_loop_live:
  assumes r: "row s ow = Some (cur, v)" and g: "good_state cur" and n: "count_ok (clock k)"
    and u: "qs_userId cur = ow" and o: "qs_observedAt cur \<le> clock k" and w: "wf_request req"
    and quiet: "env k s = s"
  shows "case change_of scope req (reconciled scope cur (clock k)) (clock k) of
      Inl e \<Rightarrow> change_loop rd rp env clock scope ow (change_of scope req) (Suc m) k s = (Inl e, s)
    | Inr (st, rep) \<Rightarrow> \<exists>s'.
        change_loop rd rp env clock scope ow (change_of scope req) (Suc m) k s = (Inr rep, s')
        \<and> row s' = (row s)(ow \<mapsto> (st\<lparr>qs_observedAt := clock k\<rparr>, Suc v))"
proof -
  let ?sn = "\<lparr>sn_state = cur, sn_etag = tag v, sn_now = clock k\<rparr>"
  have v: "valid_state cur" and f: "fits cur" using g by (auto simp: good_state_def)
  have rd: "rd s (clock k) ow = Inr ?sn" by (rule rd_answers [OF r])
  have vs: "validate_snapshot ow ?sn = Inr ()"
    using fits_document [OF v f] u o tag_nonempty by (simp add: validate_snapshot_def)
  note eq = attempt_eq [of ?sn ow scope "change_of scope req", simplified, OF v vs]
  show ?thesis
  proof (cases "change_of scope req (reconciled scope cur (clock k)) (clock k)")
    case (Inl e)
    then show ?thesis using rd eq by simp
  next
    case (Inr p)
    obtain st rep where p: "p = (st, rep)" by (cases p)
    let ?st = "st\<lparr>qs_observedAt := clock k\<rparr>"
    have at: "attempt scope ow ?sn (change_of scope req) = Inr (?st, rep)"
      using eq Inr p by simp
    have k: "good_state ?st \<and> qs_userId ?st = ow"
      using attempt_keeps [OF at _ w] g n by simp
    then have "is_ok (state_document ?st)" by (simp add: good_state_def fits_document)
    then obtain s' where s': "rp s ow ?sn ?st = Inr (True, s')"
      using rp_answers [OF r, of ?sn ?st] k u by auto
    have "row s' = (row s)(ow \<mapsto> (?st, Suc v))"
      using rp_won [OF s'] r by auto
    then show ?thesis using rd at s' quiet Inr p by auto
  qed
qed

text \<open>Undisturbed, a first pass that succeeds is the result.\<close>

lemma change_loop_first:
  assumes r: "row s ow = Some (cur, v)"
    and a: "attempt scope ow \<lparr>sn_state = cur, sn_etag = tag v, sn_now = clock k\<rparr> change = Inr (st, res)"
    and u: "qs_userId cur = ow" "qs_userId st = ow" and d: "is_ok (state_document st)" and quiet: "env k s = s"
  shows "\<exists>s'. change_loop rd rp env clock scope ow change (Suc m) k s = (Inr res, s')
    \<and> row s' = (row s)(ow \<mapsto> (st, Suc v))"
proof -
  let ?sn = "\<lparr>sn_state = cur, sn_etag = tag v, sn_now = clock k\<rparr>"
  obtain s' where s': "rp s ow ?sn st = Inr (True, s')"
    using rp_answers [OF r, of ?sn st] u d by auto
  have "row s' = (row s)(ow \<mapsto> (st, Suc v))" using rp_won [OF s'] r by auto
  then show ?thesis using rd_answers [OF r] a s' quiet by auto
qed

end

section \<open>What the admission check admits\<close>

definition used_total :: "dimension \<Rightarrow> int \<Rightarrow> int \<Rightarrow> string option \<Rightarrow> reservation list \<Rightarrow> int" where
  "used_total dim seconds now skip rs =
     sum_list (map (\<lambda>r. the (amount_of dim (rs_charged r))) (filter (counts skip now seconds) rs))"

definition usage_known :: "dimension \<Rightarrow> int \<Rightarrow> int \<Rightarrow> string option \<Rightarrow> reservation list \<Rightarrow> bool" where
  "usage_known dim seconds now skip rs \<longleftrightarrow>
     (\<forall>r \<in> set rs. counts skip now seconds r \<longrightarrow> amount_of dim (rs_charged r) \<noteq> None)"

lemma window_used_iff:
  "window_used ln dim seconds now skip rs used = Inr t \<longleftrightarrow>
     usage_known dim seconds now skip rs \<and> t = used + used_total dim seconds now skip rs"
  by (induction rs arbitrary: used)
    (auto simp: usage_known_def used_total_def split: option.splits)

text \<open>A window admits a request when it is not capped, or does not meter it, or has room.\<close>

definition window_admits ::
  "int option \<Rightarrow> reservation list \<Rightarrow> amounts \<Rightarrow> 'a limits_scheme \<Rightarrow> int \<Rightarrow> string option \<Rightarrow> window \<Rightarrow> bool" where
  "window_admits fence rs a lims now skip w \<longleftrightarrow> (case w of (ln, dim, seconds) \<Rightarrow>
     (case limit_of ln lims of
        None \<Rightarrow> True
      | Some cap \<Rightarrow> dim = DCompute \<and> am_compute a = 0
          \<or> (\<exists>req. amount_of dim a = Some req
              \<and> (\<forall>f. fence = Some f \<longrightarrow> f \<le> now - seconds)
              \<and> usage_known dim seconds now skip rs
              \<and> used_total dim seconds now skip rs + req \<le> cap)))"

lemma check_windows_iff:
  "check_windows fence rs a lims now skip ws = Inr () \<longleftrightarrow>
     (\<forall>w \<in> set ws. window_admits fence rs a lims now skip w)"
proof (induction ws)
  case (Cons w ws)
  obtain ln dim seconds where w: "w = (ln, dim, seconds)" by (cases w) auto
  show ?case
  proof (cases "limit_of ln lims")
    case None
    with Cons w show ?thesis by (simp add: window_admits_def)
  next
    case (Some cap)
    with Cons w show ?thesis
      by (cases "amount_of dim a"; cases fence)
        (auto simp: window_admits_def bindE_Inr_iff window_used_iff)
  qed
qed simp

lemma check_scope_limits_iff:
  "check_scope_limits lims ws = Inr () \<longleftrightarrow>
     (\<forall>(ln, dim, seconds) \<in> set ws. dim \<in> {DTokens, DMicroUsd} \<longrightarrow> limit_of ln lims = None)"
  by (induction lims ws rule: check_scope_limits.induct) auto

lemma scope_limits_windows:
  "check_scope_limits lims WINDOWS = Inr () \<longleftrightarrow>
     lim_tokensPerDay lims = None \<and> lim_tokensPerMonth lims = None
     \<and> lim_costPerDayMicroUsd lims = None \<and> lim_costPerMonthMicroUsd lims = None"
  by (auto simp: check_scope_limits_iff WINDOWS_def)

definition coverage_fence :: "int option \<Rightarrow> quota_state \<Rightarrow> int option" where
  "coverage_fence scope s = map_option (\<lambda>c. max (qs_validAfter s) c) scope"

lemma check_limits_windows:
  assumes "check_quota_limits scope s a lims now skip = Inr ()" "w \<in> set WINDOWS"
  shows "window_admits (coverage_fence scope s) (map snd (qs_entries s)) a lims now skip w"
  using assms
  by (cases scope) (auto simp: check_quota_limits_def bindE_Inr_iff check_windows_iff coverage_fence_def)

section \<open>Properties\<close>

text \<open>
  C3: every operation keeps the accounting. From a snapshot whose state is valid and within its
  capacity envelope, any reserve, dispatch, settle, release or reconcile that the pass completes
  produces a state that the validator accepts and the size bound admits, so the replacement is
  never refused as malformed; its owner, epoch and cutover fence are unchanged, the clock is the
  store's and the replay floor never moves back.
\<close>

theorem operations_keep_accounting:
  assumes "attempt scope ow sn (change_of scope req) = Inr (st, rep)" "good_state (sn_state sn)"
    "wf_request req" "count_ok (sn_now sn)"
  shows "good_state st \<and> state_document st = Inr (state_json st) \<and> qs_userId st = ow
    \<and> qs_epoch st = qs_epoch (sn_state sn) \<and> qs_validAfter st = qs_validAfter (sn_state sn)
    \<and> qs_observedAt st = sn_now sn \<and> qs_replayFloor (sn_state sn) \<le> qs_replayFloor st"
  using attempt_keeps [OF assms] fits_document by (auto simp: good_state_def new_floor_def)


end
