(* ===== verification/Quota_Demo.thy ===== *)
theory Quota_Demo
  imports Quota_Ops "HOL-Library.Code_Target_Nat"
begin

text \<open>
  A concrete owner, used to show that the hypotheses of the quota properties can hold: one
  operation is reserved, dispatched and settled against a fresh document, each pass evaluated.
\<close>

section \<open>The values\<close>

definition demo_owner :: string where "demo_owner = ''u1''"

definition demo_key :: string where
  "demo_key = replicate 32 (CHR ''a'') @ ''.100.'' @ replicate 64 (CHR ''b'')"

definition demo_digest :: string where "demo_digest = replicate 64 (CHR ''c'')"

definition demo_amounts :: amounts where
  "demo_amounts = \<lparr>am_requests = 1, am_tokens = Some 500, am_microUsd = None, am_compute = 0\<rparr>"

definition demo_bounds :: bounds where
  "demo_bounds = \<lparr>bd_amounts = demo_amounts, bd_basis = CatalogTextV1, bd_priceVersion = None,
     bd_inputRate = None, bd_outputRate = None, bd_attemptVersion = None, bd_maxAttempts = None\<rparr>"

definition demo_limits :: limits where
  "demo_limits = default_limits\<lparr>lim_requestsPerMinute := Some 2\<rparr>"

definition demo_record :: reservation where
  "demo_record = mk_reservation demo_key demo_digest SChat demo_bounds 101"

definition demo_granted :: reservation where
  "demo_granted = demo_record\<lparr>rs_phase := Dispatched, rs_dispatchedAt := Some 102\<rparr>"

definition demo_usage :: amounts where
  "demo_usage = \<lparr>am_requests = 1, am_tokens = Some 320, am_microUsd = None, am_compute = 0\<rparr>"

definition demo_finished :: reservation where
  "demo_finished = demo_granted\<lparr>rs_phase := Settled, rs_outcome := Some OComplete,
     rs_settledAt := Some 110, rs_settlementDigest := Some demo_digest, rs_charged := demo_usage\<rparr>"

definition demo_fresh :: quota_state where
  "demo_fresh = fresh_state demo_owner (replicate 32 (CHR ''a'')) 100"

definition demo_reserved :: quota_state where
  "demo_reserved = demo_fresh\<lparr>qs_observedAt := 101, qs_entries := [(demo_key, demo_record)]\<rparr>"

definition demo_dispatched :: quota_state where
  "demo_dispatched = demo_fresh\<lparr>qs_observedAt := 102, qs_entries := [(demo_key, demo_granted)]\<rparr>"

definition demo_settled :: quota_state where
  "demo_settled = demo_fresh\<lparr>qs_observedAt := 110, qs_entries := [(demo_key, demo_finished)]\<rparr>"

definition demo_snap :: "nat \<Rightarrow> quota_state \<Rightarrow> int \<Rightarrow> snapshot" where
  "demo_snap v s now = \<lparr>sn_state = s, sn_etag = show_nat v, sn_now = now\<rparr>"

definition demo_reserve :: request where
  "demo_reserve = RReserve demo_key demo_digest SChat demo_bounds demo_limits"

definition demo_settle :: request where
  "demo_settle = RSettle demo_granted OComplete (Some demo_usage) demo_digest"

section \<open>The passes\<close>

lemma attemptI:
  assumes "valid_state s" "validate_snapshot ow (demo_snap v s now) = Inr ()"
    "change (reconciled scope s now) now = Inr (u, r)" "qs_observedAt u = now"
  shows "attempt scope ow (demo_snap v s now) change = Inr (u, r)"
  using attempt_eq [of "demo_snap v s now" ow scope change] assms by (simp add: demo_snap_def)

lemma demo_validated [simp]:
  "validate_snapshot demo_owner (demo_snap 1 demo_fresh 101) = Inr ()"
  "validate_snapshot demo_owner (demo_snap 2 demo_reserved 102) = Inr ()"
  "validate_snapshot demo_owner (demo_snap 3 demo_dispatched 110) = Inr ()"
  by code_simp+

lemma demo_models:
  "model_validate demo_fresh = Inr ()" "model_validate demo_reserved = Inr ()"
  "model_validate demo_dispatched = Inr ()" "model_validate demo_settled = Inr ()"
  by code_simp+

lemma demo_dicts:
  "dict_ok demo_fresh" "dict_ok demo_reserved" "dict_ok demo_dispatched" "dict_ok demo_settled"
  by code_simp+


text \<open>The size envelope of the unfinished record, and of the documents that hold it.\<close>

definition demo_widest :: reservation where
  "demo_widest = \<lparr>rs_operationId = demo_key, rs_payloadDigest = demo_digest, rs_surface = SChat,
     rs_bounds = demo_bounds, rs_phase = Dispatched, rs_reservedAt = 101, rs_expiresAt = 221,
     rs_dispatchedAt = Some 9007199254740991, rs_settledAt = Some 9007199254740991,
     rs_outcome = Some OCancelled, rs_settlementDigest = Some (replicate 64 (CHR ''f'')),
     rs_charged = \<lparr>am_requests = 1, am_tokens = Some 9007199254740991,
       am_microUsd = Some 9007199254740991, am_compute = 0\<rparr>\<rparr>"

definition demo_wide :: "(string, reservation) dict \<Rightarrow> quota_state" where
  "demo_wide es = demo_fresh\<lparr>qs_observedAt := 9007199254740991, qs_replayFloor := 9007199254740991,
     qs_entries := es\<rparr>"

lemma demo_envelope:
  "envelope demo_fresh = demo_wide []"
  "envelope demo_reserved = demo_wide [(demo_key, demo_widest)]"
  "envelope demo_dispatched = demo_wide [(demo_key, demo_widest)]"
  "envelope demo_settled = demo_wide [(demo_key, demo_finished)]"
  by (simp_all add: envelope_def envelope_entry_def demo_wide_def demo_widest_def demo_reserved_def
      demo_dispatched_def demo_settled_def demo_fresh_def fresh_state_def demo_granted_def
      demo_record_def mk_reservation_def demo_finished_def demo_bounds_def demo_amounts_def
      MAX_QUANTITY_def RESERVATION_SECONDS_def)

lemma demo_lengths:
  "length (quote demo_key) = 103" "length (quote demo_digest) = 66"
  "length (quote (replicate 64 (CHR ''f''))) = 66" "length (quote (replicate 32 (CHR ''a''))) = 34"
  "length (quote demo_owner) = 4"
  "length (show_int 100) = 3" "length (show_int 101) = 3" "length (show_int 102) = 3"
  "length (show_int 110) = 3" "length (show_int 221) = 3" "length (show_int 500) = 3"
  "length (show_int 320) = 3" "length (show_int 1) = 1" "length (show_int 0) = 1"
  by code_simp+

lemma demo_wide_bytes:
  "state_bytes (demo_wide []) \<le> MAX_STATE_BYTES"
  "state_bytes (demo_wide [(demo_key, demo_widest)]) \<le> MAX_STATE_BYTES"
  "state_bytes (demo_wide [(demo_key, demo_finished)]) \<le> MAX_STATE_BYTES"
  using length_show_max
  by (simp_all add: state_bytes_def demo_wide_def demo_widest_def demo_fresh_def fresh_state_def
      demo_finished_def demo_granted_def demo_record_def demo_bounds_def demo_amounts_def
      demo_usage_def mk_reservation_def state_json_def entries_json_def reservation_json_def
      bounds_json_def amounts_json_def dumps_default_def demo_lengths opt_json_def
      MAX_QUANTITY_def MAX_STATE_BYTES_def RESERVATION_SECONDS_def)
    (simp_all add: quote_def escape_char_def char_code_def)

lemma demo_fits: "fits demo_fresh" "fits demo_reserved" "fits demo_dispatched" "fits demo_settled"
  using demo_wide_bytes by (simp_all add: fits_def demo_envelope)

lemma demo_good [simp]:
  "good_state demo_fresh" "good_state demo_reserved" "good_state demo_dispatched" "good_state demo_settled"
  using demo_models demo_dicts demo_fits by (simp_all add: good_state_def valid_state_def)

lemma demo_valid [simp]:
  "valid_state demo_fresh" "valid_state demo_reserved" "valid_state demo_dispatched"
  using demo_good by (simp_all add: good_state_def)

lemma demo_reconciled:
  "reconciled None demo_fresh 101 = demo_fresh\<lparr>qs_observedAt := 101\<rparr>"
  "reconciled None demo_reserved 102 = demo_reserved\<lparr>qs_observedAt := 102\<rparr>"
  "reconciled None demo_dispatched 110 = demo_dispatched\<lparr>qs_observedAt := 110\<rparr>"
  by code_simp+

lemma demo_reserve_change:
  "change_of None demo_reserve (reconciled None demo_fresh 101) 101
     = Inr (demo_reserved, Record demo_record)"
proof -
  let ?s = "demo_fresh\<lparr>qs_observedAt := 101\<rparr>"
  have "reserve_guards None demo_key SChat demo_bounds demo_limits ?s 101 = Inr ()"
    "check_quota_limits None ?s (bd_amounts demo_bounds) demo_limits 101 None = Inr ()"
    "reservation_ok demo_record"
    "put_entry ?s demo_record = demo_reserved" "map_of (qs_entries ?s) demo_key = None"
    "length (qs_entries ?s) < MAX_ENTRIES"
    by code_simp+
  moreover have "ensure_transition_capacity demo_reserved = Inr ()"
    using capacity_iff demo_valid demo_fits by blast
  ultimately show ?thesis
    by (simp add: demo_reserve_def demo_reconciled reserve_change_def reserve_new_def
        demo_record_def [symmetric])
qed

lemma demo_reserve_pass:
  "attempt None demo_owner (demo_snap 1 demo_fresh 101) (change_of None demo_reserve)
     = Inr (demo_reserved, Record demo_record)"
proof (rule attemptI)
  show "change_of None demo_reserve (reconciled None demo_fresh 101) 101
      = Inr (demo_reserved, Record demo_record)" by (rule demo_reserve_change)
qed (use demo_validated in \<open>simp_all add: demo_reserved_def\<close>)

lemma demo_dispatch_pass:
  "attempt None demo_owner (demo_snap 2 demo_reserved 102) (change_of None (RDispatch demo_record))
     = Inr (demo_dispatched, Record demo_granted)"
proof (rule attemptI)
  let ?s = "demo_reserved\<lparr>qs_observedAt := 102\<rparr>"
  have "owned_record ?s demo_record = Inr demo_record" "rs_phase demo_record = Reserved"
    "qs_blocked ?s = False"
    "put_entry ?s demo_granted = demo_dispatched"
    by code_simp+
  moreover have "ensure_transition_capacity ?s = Inr ()"
  proof (rule capacity_iff [THEN iffD2])
    have "valid_state (reconciled None demo_reserved 102)"
      by (rule reconciled_valid [OF demo_valid(2)])
        (simp_all add: demo_reserved_def count_ok_def MAX_QUANTITY_def)
    then show "valid_state ?s" by (simp add: demo_reconciled)
    show "fits ?s" using demo_fits(2) by (simp add: fits_def envelope_def)
  qed
  ultimately show "change_of None (RDispatch demo_record) (reconciled None demo_reserved 102) 102
      = Inr (demo_dispatched, Record demo_granted)"
    by (simp add: demo_reconciled dispatch_change_def Let_def demo_granted_def [symmetric])
qed (simp_all add: demo_dispatched_def)

lemma demo_settle_pass:
  "attempt None demo_owner (demo_snap 3 demo_dispatched 110) (change_of None demo_settle)
     = Inr (demo_settled, Record demo_finished)"
proof (rule attemptI)
  let ?s = "demo_dispatched\<lparr>qs_observedAt := 110\<rparr>"
  have "owned_record ?s demo_granted = Inr demo_granted" "rs_phase demo_granted = Dispatched"
    "rs_settlementDigest demo_granted = None"
    "settled_record None OComplete (Some demo_usage) demo_digest 110 demo_granted = Inr demo_finished"
    "(put_entry ?s demo_finished)\<lparr>qs_blocked := qs_blocked ?s \<or> exceeds_bound demo_finished\<rparr> = demo_settled"
    by code_simp+
  then show "change_of None demo_settle (reconciled None demo_dispatched 110) 110
      = Inr (demo_settled, Record demo_finished)"
    by (simp add: demo_reconciled demo_settle_def settle_change_def)
qed (simp_all add: demo_settled_def)

lemma demo_wf [simp]: "wf_request demo_settle" "wf_request demo_reserve" "wf_request (RDispatch r)"
  by (code_simp, code_simp, simp)

section \<open>Witnesses\<close>

theorem operations_keep_accounting_witness:
  "good_state demo_settled \<and> state_document demo_settled = Inr (state_json demo_settled)
    \<and> qs_userId demo_settled = demo_owner \<and> qs_observedAt demo_settled = 110"
  using operations_keep_accounting [OF demo_settle_pass] demo_good demo_wf
  by (simp add: demo_snap_def count_ok_def MAX_QUANTITY_def)


end
