(* ===== verification/Quota_Codec.thy ===== *)
theory Quota_Codec
  imports Quota_Demo
begin

text \<open>
  The persisted decoder: \<open>QuotaState.model_validate(document, context=\<open>persisted_quota\<close>)\<close>. Extra
  keys are forbidden and, in this context, every key must be present, so a document stands for
  at most one state. A validator's own \<open>QuotaError\<close> (a malformed identity) is not a
  \<open>ValidationError\<close> and passes through.
\<close>

section \<open>Fields\<close>

definition has_fields :: "string list \<Rightarrow> (string \<times> json) list \<Rightarrow> bool" where
  "has_fields names fs \<longleftrightarrow> set (map fst fs) = set names"

fun dec_int :: "json \<Rightarrow> int option" where
  "dec_int (JInt i) = Some i"
| "dec_int _ = None"

fun dec_str :: "json \<Rightarrow> string option" where
  "dec_str (JStr s) = Some s"
| "dec_str _ = None"

fun dec_bool :: "json \<Rightarrow> bool option" where
  "dec_bool (JBool b) = Some b"
| "dec_bool _ = None"

fun dec_opt :: "(json \<Rightarrow> 'a option) \<Rightarrow> json \<Rightarrow> 'a option option" where
  "dec_opt f JNull = Some None"
| "dec_opt f v = map_option Some (f v)"

text \<open>A \<open>Literal\<close> of strings.\<close>

definition dec_enum :: "('a \<Rightarrow> string) \<Rightarrow> 'a list \<Rightarrow> json \<Rightarrow> 'a option" where
  "dec_enum name vals v = Option.bind (dec_str v) (\<lambda>s. List.find (\<lambda>x. name x = s) vals)"

definition field :: "(string \<times> json) list \<Rightarrow> string \<Rightarrow> (json \<Rightarrow> 'a option) \<Rightarrow> 'a option" where
  "field fs k f = Option.bind (map_of fs k) f"

definition surfaces :: "surface list" where
  "surfaces = [SChat, SEmbedding, SImage, SVideo, STranscription, SSpeech, SRealtime, SCompute,
     SDocument, SWebSearch, SMcp, SExternalTool, SAvatar, SAvatarLive, SDecision]"

definition outcomes :: "outcome list" where
  "outcomes = [OComplete, OCancelled, OError, OTimeout, OUnknown]"

definition phases :: "phase list" where
  "phases = [Reserved, Dispatched, Settled, Unknown, Released]"

definition bases :: "basis list" where
  "bases = [RequestV1, CatalogTextV1, CatalogEmbeddingV1, ComputeV1]"

section \<open>Records\<close>

fun dec_amounts :: "json \<Rightarrow> amounts option" where
  "dec_amounts (JObj fs) =
     (if \<not> has_fields [''requests'', ''tokens'', ''microUsd'', ''compute''] fs then None else
      Option.bind (field fs ''requests'' dec_int) (\<lambda>r.
      Option.bind (field fs ''tokens'' (dec_opt dec_int)) (\<lambda>t.
      Option.bind (field fs ''microUsd'' (dec_opt dec_int)) (\<lambda>m.
      Option.bind (field fs ''compute'' dec_int) (\<lambda>c.
      Some \<lparr>am_requests = r, am_tokens = t, am_microUsd = m, am_compute = c\<rparr>)))))"
| "dec_amounts _ = None"

fun dec_bounds :: "json \<Rightarrow> bounds option" where
  "dec_bounds (JObj fs) =
     (if \<not> has_fields [''amounts'', ''basis'', ''priceVersion'', ''inputRate'', ''outputRate'',
         ''attemptVersion'', ''maxAttempts''] fs then None else
      Option.bind (field fs ''amounts'' dec_amounts) (\<lambda>a.
      Option.bind (field fs ''basis'' (dec_enum basis_name bases)) (\<lambda>b.
      Option.bind (field fs ''priceVersion'' (dec_opt dec_str)) (\<lambda>p.
      Option.bind (field fs ''inputRate'' (dec_opt dec_str)) (\<lambda>i.
      Option.bind (field fs ''outputRate'' (dec_opt dec_str)) (\<lambda>u.
      Option.bind (field fs ''attemptVersion'' (dec_opt dec_str)) (\<lambda>v.
      Option.bind (field fs ''maxAttempts'' (dec_opt dec_int)) (\<lambda>n.
      Some \<lparr>bd_amounts = a, bd_basis = b, bd_priceVersion = p, bd_inputRate = i,
        bd_outputRate = u, bd_attemptVersion = v, bd_maxAttempts = n\<rparr>))))))))"
| "dec_bounds _ = None"

fun dec_reservation :: "json \<Rightarrow> reservation option" where
  "dec_reservation (JObj fs) =
     (if \<not> has_fields [''operationId'', ''payloadDigest'', ''surface'', ''bounds'', ''phase'',
         ''reservedAt'', ''expiresAt'', ''dispatchedAt'', ''settledAt'', ''outcome'',
         ''settlementDigest'', ''charged''] fs then None else
      Option.bind (field fs ''operationId'' dec_str) (\<lambda>oid.
      Option.bind (field fs ''payloadDigest'' dec_str) (\<lambda>pd.
      Option.bind (field fs ''surface'' (dec_enum surface_name surfaces)) (\<lambda>sf.
      Option.bind (field fs ''bounds'' dec_bounds) (\<lambda>bd.
      Option.bind (field fs ''phase'' (dec_enum phase_name phases)) (\<lambda>ph.
      Option.bind (field fs ''reservedAt'' dec_int) (\<lambda>ra.
      Option.bind (field fs ''expiresAt'' dec_int) (\<lambda>ea.
      Option.bind (field fs ''dispatchedAt'' (dec_opt dec_int)) (\<lambda>da.
      Option.bind (field fs ''settledAt'' (dec_opt dec_int)) (\<lambda>sa.
      Option.bind (field fs ''outcome'' (dec_opt (dec_enum outcome_name outcomes))) (\<lambda>oc.
      Option.bind (field fs ''settlementDigest'' (dec_opt dec_str)) (\<lambda>sd.
      Option.bind (field fs ''charged'' dec_amounts) (\<lambda>ch.
      Some \<lparr>rs_operationId = oid, rs_payloadDigest = pd, rs_surface = sf, rs_bounds = bd,
        rs_phase = ph, rs_reservedAt = ra, rs_expiresAt = ea, rs_dispatchedAt = da,
        rs_settledAt = sa, rs_outcome = oc, rs_settlementDigest = sd, rs_charged = ch\<rparr>)))))))))))))"
| "dec_reservation _ = None"

fun dec_items :: "(string \<times> json) list \<Rightarrow> (string, reservation) dict option" where
  "dec_items [] = Some []"
| "dec_items ((k, v) # fs) =
     Option.bind (dec_reservation v) (\<lambda>r. map_option (\<lambda>d. (k, r) # d) (dec_items fs))"

fun dec_entries :: "json \<Rightarrow> (string, reservation) dict option" where
  "dec_entries (JObj fs) = dec_items fs"
| "dec_entries _ = None"

definition dec_literal :: "string \<Rightarrow> json \<Rightarrow> unit option" where
  "dec_literal s v = (if v = JStr s then Some () else None)"

fun dec_state :: "json \<Rightarrow> quota_state option" where
  "dec_state (JObj fs) =
     (if \<not> has_fields [''id'', ''kind'', ''policyVersion'', ''userId'', ''epoch'', ''validAfter'',
         ''replayFloor'', ''observedAt'', ''blocked'', ''entries''] fs then None else
      Option.bind (field fs ''id'' (dec_literal ''hard-quota-state-v1'')) (\<lambda>_.
      Option.bind (field fs ''kind'' (dec_literal ''hard_quota_state'')) (\<lambda>_.
      Option.bind (field fs ''policyVersion'' (dec_literal ''rolling-dispatch-v1'')) (\<lambda>_.
      Option.bind (field fs ''userId'' dec_str) (\<lambda>u.
      Option.bind (field fs ''epoch'' dec_str) (\<lambda>e.
      Option.bind (field fs ''validAfter'' dec_int) (\<lambda>va.
      Option.bind (field fs ''replayFloor'' dec_int) (\<lambda>rf.
      Option.bind (field fs ''observedAt'' dec_int) (\<lambda>oa.
      Option.bind (field fs ''blocked'' dec_bool) (\<lambda>b.
      Option.bind (field fs ''entries'' dec_entries) (\<lambda>es.
      Some \<lparr>qs_userId = u, qs_epoch = e, qs_validAfter = va, qs_replayFloor = rf,
        qs_observedAt = oa, qs_blocked = b, qs_entries = es\<rparr>)))))))))))"
| "dec_state _ = None"

definition persisted_decode :: "json \<Rightarrow> quota_exn + quota_state" where
  "persisted_decode v = (case dec_state v of
     None \<Rightarrow> Inl ValidationError
   | Some s \<Rightarrow> bindE (model_validate s) (\<lambda>_. Inr s))"

section \<open>Round trip\<close>

lemma dec_opt_json [simp]:
  "(\<And>x. dec (enc x) = Some x) \<Longrightarrow> (\<And>x. enc x \<noteq> JNull) \<Longrightarrow> dec_opt dec (opt_json enc v) = Some v"
proof (cases v)
  case (Some x)
  assume "\<And>x. dec (enc x) = Some x" "\<And>x. enc x \<noteq> JNull"
  then show ?thesis using Some by (cases "enc x") (simp_all, (metis option.map(2))+)
qed simp

lemma dec_surface [simp]: "dec_enum surface_name surfaces (JStr (surface_name sf)) = Some sf"
  by (cases sf) (simp_all add: dec_enum_def surfaces_def)

lemma dec_outcome [simp]: "dec_enum outcome_name outcomes (JStr (outcome_name oc)) = Some oc"
  by (cases oc) (simp_all add: dec_enum_def outcomes_def)

lemma dec_phase [simp]: "dec_enum phase_name phases (JStr (phase_name ph)) = Some ph"
  by (cases ph) (simp_all add: dec_enum_def phases_def)

lemma dec_basis [simp]: "dec_enum basis_name bases (JStr (basis_name bs)) = Some bs"
  by (cases bs) (simp_all add: dec_enum_def bases_def)

lemma dec_amounts_json [simp]: "dec_amounts (amounts_json a) = Some a"
  by (simp add: amounts_json_def has_fields_def field_def)

lemma dec_bounds_json [simp]: "dec_bounds (bounds_json b) = Some b"
  by (simp add: bounds_json_def has_fields_def field_def)

lemma dec_reservation_json [simp]: "dec_reservation (reservation_json r) = Some r"
  by (simp add: reservation_json_def has_fields_def field_def)

lemma dec_entries_json [simp]: "dec_entries (entries_json d) = Some d"
proof -
  have "dec_items (map (\<lambda>(k, r). (k, reservation_json r)) d) = Some d" by (induction d) auto
  then show ?thesis by (simp add: entries_json_def)
qed

lemma dec_state_json [simp]: "dec_state (state_json s) = Some s"
  by (simp add: state_json_def has_fields_def field_def dec_literal_def)

declare dec_state.simps [simp del]

lemma state_json_inj: "state_json s = state_json t \<Longrightarrow> s = t"
  by (metis dec_state_json option.inject)

lemma reservation_json_inj: "reservation_json r = reservation_json t \<longleftrightarrow> r = t"
  by (metis dec_reservation_json option.inject)

text \<open>The order of the keys of a document does not matter.\<close>

lemma dec_state_order:
  assumes "distinct (map fst fs)" "distinct (map fst gs)" "set fs = set gs"
  shows "dec_state (JObj fs) = dec_state (JObj gs)"
proof -
  have "map_of fs = map_of gs" using assms by (simp add: map_of_inject_set)
  moreover have "set (map fst fs) = set (map fst gs)" using assms(3) by simp
  ultimately show ?thesis by (simp add: dec_state.simps has_fields_def field_def)
qed

text \<open>
  C32: the document is an exact encoding. What the encoder writes for a state that is accounting,
  the persisted decoder reads back as that state; two states with the same document are equal;
  and whatever the decoder accepts is valid accounting.
\<close>

theorem state_roundtrip:
  "(model_validate s = Inr () \<longrightarrow> persisted_decode (state_json s) = Inr s)
   \<and> (state_json s = state_json t \<longrightarrow> s = t)
   \<and> (persisted_decode v = Inr u \<longrightarrow> model_validate u = Inr ())"
  using state_json_inj by (auto simp: persisted_decode_def bindE_Inr_iff split: option.splits)

theorem state_roundtrip_witness:
  "persisted_decode (state_json demo_dispatched) = Inr demo_dispatched"
  using state_roundtrip [of demo_dispatched demo_dispatched JNull demo_dispatched] demo_models(3) by blast

end
