(* ===== verification/Quota_Cosmos.thy ===== *)
theory Quota_Cosmos
  imports Quota_Codec
begin

text \<open>
  \<open>hard_quota/cosmos_store.py\<close>: the production store's layout checks, its bounded revalidation
  of them, and the read and the conditional replacement of an owner's document. Cosmos DB is not
  in the repository: every response of the service is an argument, so the theorems hold for
  whatever it answers. A response is what the SDK returned or the class of exception it raised.
\<close>

section \<open>Responses\<close>

text \<open>\<open>ClientError\<close>: an \<open>AzureError\<close>, \<open>OSError\<close> or \<open>TimeoutError\<close>.\<close>

datatype 'a response = Answer 'a | ClientError

text \<open>What the \<open>Date\<close> header of a response gives, after \<open>parsedate_to_datetime\<close>.\<close>

datatype http_date = DateMissing | DateMalformed | DateNaive | DateAt int

record raw_item =
  ri_fields :: "(string \<times> json) list"
  ri_date :: http_date

datatype item_response = Item raw_item | ItemNotFound | ItemError

datatype write_response = WriteDone | WriteConflict | WriteError

section \<open>Layout\<close>

definition MAX_LAYOUT_TTL_SECONDS :: int where "MAX_LAYOUT_TTL_SECONDS = 300"

text \<open>A mapping of the response is an object; \<open>get\<close> of an absent key is \<open>None\<close>.\<close>

definition get_or_null :: "json \<Rightarrow> string \<Rightarrow> json" where
  "get_or_null v k = (case obj_get v k of None \<Rightarrow> JNull | Some x \<Rightarrow> x)"

fun is_obj :: "json \<Rightarrow> bool" where
  "is_obj (JObj fs) = True"
| "is_obj _ = False"

fun is_singleton_list :: "json \<Rightarrow> bool" where
  "is_singleton_list (JArr vs) = (length vs = 1)"
| "is_singleton_list _ = False"

definition account_layout_ok :: "json \<Rightarrow> bool" where
  "account_layout_ok account \<longleftrightarrow>
     get_or_null account ''enableMultipleWriteLocations'' = JBool False
     \<and> is_singleton_list (get_or_null account ''writableLocations'')
     \<and> is_obj (get_or_null account ''consistencyPolicy'')
     \<and> get_or_null (get_or_null account ''consistencyPolicy'') ''defaultConsistencyLevel''
         = JStr ''Session''"

definition check_account_layout :: "json \<Rightarrow> quota_exn + unit" where
  "check_account_layout account = ensure (account_layout_ok account) (quota_error LayoutIncompatible)"

definition container_layout_ok :: "json \<Rightarrow> bool" where
  "container_layout_ok container \<longleftrightarrow>
     get_or_null container ''id'' = JStr ''usage''
     \<and> is_obj (get_or_null container ''partitionKey'')
     \<and> get_or_null (get_or_null container ''partitionKey'') ''paths'' = JArr [JStr ''/userId'']
     \<and> get_or_null (get_or_null container ''partitionKey'') ''kind'' = JStr ''Hash''
     \<and> get_or_null container ''defaultTtl'' \<in> {JNull, JInt (- 1)}
     \<and> get_or_null container ''analyticalStorageTtl'' \<in> {JNull, JInt 0}"

definition check_container_layout :: "json \<Rightarrow> quota_exn + unit" where
  "check_container_layout container =
     ensure (container_layout_ok container) (quota_error LayoutIncompatible)"

fun coordination_time :: "http_date \<Rightarrow> quota_exn + int" where
  "coordination_time DateMissing = Inl (quota_error ClockUnavailable)"
| "coordination_time DateMalformed = Inl ValueError"
| "coordination_time DateNaive = Inl (quota_error ClockUnavailable)"
| "coordination_time (DateAt t) = Inr t"

text \<open>The store object's own state: the revalidation interval and the last successful check.\<close>

record cosmos_store =
  cs_layout_ttl :: int
  cs_layout_checked :: "int option"

definition new_cosmos_store :: "int \<Rightarrow> quota_exn + cosmos_store" where
  "new_cosmos_store ttl =
     (if 0 \<le> ttl \<and> ttl \<le> MAX_LAYOUT_TTL_SECONDS
      then Inr \<lparr>cs_layout_ttl = ttl, cs_layout_checked = None\<rparr> else Inl ValueError)"

text \<open>
  \<open>validate_layout\<close> at clock \<open>t\<close>, with \<open>t'\<close> the clock after the two metadata reads. The result
  says how it ended: passed, refused with an exception of the checks, or a client error.
\<close>

definition layout_fresh :: "cosmos_store \<Rightarrow> int \<Rightarrow> bool" where
  "layout_fresh cs t \<longleftrightarrow> (case cs_layout_checked cs of None \<Rightarrow> False
     | Some c \<Rightarrow> 0 < cs_layout_ttl cs \<and> t - c < cs_layout_ttl cs)"

definition validate_layout ::
  "cosmos_store \<Rightarrow> int \<Rightarrow> int \<Rightarrow> json response \<Rightarrow> json response
    \<Rightarrow> (quota_exn + unit) response \<times> cosmos_store" where
  "validate_layout cs t t' account container =
     (if layout_fresh cs t then (Answer (Inr ()), cs)
      else let cs0 = cs\<lparr>cs_layout_checked := None\<rparr> in
        case account of
          ClientError \<Rightarrow> (ClientError, cs0)
        | Answer a \<Rightarrow> (case check_account_layout a of
              Inl e \<Rightarrow> (Answer (Inl e), cs0)
            | Inr _ \<Rightarrow> (case container of
                  ClientError \<Rightarrow> (ClientError, cs0)
                | Answer c \<Rightarrow> (case check_container_layout c of
                      Inl e \<Rightarrow> (Answer (Inl e), cs0)
                    | Inr _ \<Rightarrow> (Answer (Inr ()), cs\<lparr>cs_layout_checked := Some t'\<rparr>)))))"

section \<open>Reading an owner's document\<close>

definition system_field :: "string \<Rightarrow> bool" where
  "system_field k \<longleftrightarrow> (case k of [] \<Rightarrow> False | c # _ \<Rightarrow> c = CHR ''_'')"

definition body_only :: "(string \<times> json) list \<Rightarrow> (string \<times> json) list" where
  "body_only fs = filter (\<lambda>(k, v). \<not> system_field k) fs"

definition document_markers :: "(string \<times> json) list \<Rightarrow> bool" where
  "document_markers fs \<longleftrightarrow> map_of fs ''id'' = Some (JStr ''hard-quota-state-v1'')
     \<and> map_of fs ''kind'' = Some (JStr ''hard_quota_state'')
     \<and> map_of fs ''policyVersion'' = Some (JStr ''rolling-dispatch-v1'')"

definition item_etag :: "raw_item \<Rightarrow> string option" where
  "item_etag it = (case map_of (ri_fields it) ''_etag'' of
     Some (JStr e) \<Rightarrow> if e = [] then None else Some e
   | _ \<Rightarrow> None)"

text \<open>The parsing of a found item, before the enclosing \<open>except\<close>.\<close>

definition parse_item :: "string \<Rightarrow> raw_item \<Rightarrow> quota_exn + snapshot" where
  "parse_item owner it =
     bindE (ensure (document_markers (ri_fields it)) (quota_error StateIncompatible)) (\<lambda>_.
     bindE (case item_etag it of None \<Rightarrow> Inl (quota_error MissingEtag) | Some e \<Rightarrow> Inr e) (\<lambda>etag.
     bindE (coordination_time (ri_date it)) (\<lambda>observed.
     bindE (persisted_decode (JObj (body_only (ri_fields it)))) (\<lambda>state.
     bindE (state_document state) (\<lambda>_.
     bindE (ensure (qs_userId state = owner) (QuotaError OwnerMismatch 403)) (\<lambda>_.
     Inr \<lparr>sn_state = state, sn_etag = etag, sn_now = observed\<rparr>))))))"

text \<open>\<open>except (\<dots>, ValidationError, ValueError)\<close>; a \<open>QuotaError\<close> passes through.\<close>

fun as_unavailable :: "quota_exn + 'a \<Rightarrow> quota_exn + 'a" where
  "as_unavailable (Inl ValidationError) = Inl (quota_error CoordinationUnavailable)"
| "as_unavailable (Inl ValueError) = Inl (quota_error CoordinationUnavailable)"
| "as_unavailable r = r"

definition cosmos_read ::
  "cosmos_store \<Rightarrow> int \<Rightarrow> int \<Rightarrow> json response \<Rightarrow> json response \<Rightarrow> item_response \<Rightarrow> string
    \<Rightarrow> (quota_exn + snapshot) \<times> cosmos_store" where
  "cosmos_read cs t t' account container item owner =
     (case validate_layout cs t t' account container of
        (ClientError, cs') \<Rightarrow> (Inl (quota_error CoordinationUnavailable), cs')
      | (Answer (Inl e), cs') \<Rightarrow> (Inl e, cs')
      | (Answer (Inr _), cs') \<Rightarrow>
          ((case item of
              ItemNotFound \<Rightarrow> Inl (quota_error StateAbsent)
            | ItemError \<Rightarrow> Inl (quota_error CoordinationUnavailable)
            | Item it \<Rightarrow> as_unavailable (parse_item owner it)), cs'))"

section \<open>Replacing it\<close>

text \<open>
  \<open>write\<close> answers the one conditional request, which is given the new document and the snapshot's
  ETag: it is never retried.
\<close>

definition cosmos_replace ::
  "cosmos_store \<Rightarrow> int \<Rightarrow> int \<Rightarrow> json response \<Rightarrow> json response
    \<Rightarrow> (json \<Rightarrow> string \<Rightarrow> write_response) \<Rightarrow> string \<Rightarrow> snapshot \<Rightarrow> quota_state
    \<Rightarrow> (quota_exn + bool) \<times> cosmos_store" where
  "cosmos_replace cs t t' account container write owner sn st =
     (if owner \<noteq> qs_userId st \<or> owner \<noteq> qs_userId (sn_state sn)
      then (Inl (QuotaError OwnerMismatch 403), cs)
      else if sn_etag sn = [] then (Inl (quota_error MissingEtag), cs)
      else case state_document st of
        Inl e \<Rightarrow> (Inl e, cs)
      | Inr doc \<Rightarrow> (case validate_layout cs t t' account container of
            (ClientError, cs') \<Rightarrow> (Inl (quota_error WriteUnavailable), cs')
          | (Answer (Inl e), cs') \<Rightarrow> (Inl e, cs')
          | (Answer (Inr _), cs') \<Rightarrow>
              ((case write doc (sn_etag sn) of
                  WriteDone \<Rightarrow> Inr True
                | WriteConflict \<Rightarrow> Inr False
                | WriteError \<Rightarrow> Inl (quota_error WriteUnavailable)), cs')))"

section \<open>Lemmas\<close>

lemma as_unavailable_Inr [simp]: "as_unavailable r = Inr x \<longleftrightarrow> r = Inr x"
  by (cases r rule: as_unavailable.cases) auto

lemma validate_layout_passed:
  assumes "validate_layout cs t t' account container = (Answer (Inr u), cs')"
  shows "layout_fresh cs t \<and> cs' = cs
    \<or> (\<exists>a c. account = Answer a \<and> container = Answer c \<and> account_layout_ok a \<and> container_layout_ok c
        \<and> cs' = cs\<lparr>cs_layout_checked := Some t'\<rparr>)"
  using assms
  by (auto simp: validate_layout_def check_account_layout_def check_container_layout_def Let_def
      ensure_def split: if_splits response.splits sum.splits)

lemma parse_itemD:
  assumes "parse_item owner it = Inr sn"
  shows "item_etag it = Some (sn_etag sn)" "ri_date it = DateAt (sn_now sn)"
    "dec_state (JObj (body_only (ri_fields it))) = Some (sn_state sn)"
    "state_document (sn_state sn) = Inr (state_json (sn_state sn))"
    "qs_userId (sn_state sn) = owner" "document_markers (ri_fields it)"
proof -
  obtain e n s d where "document_markers (ri_fields it)" and e: "item_etag it = Some e"
    and n: "coordination_time (ri_date it) = Inr n"
    and s: "persisted_decode (JObj (body_only (ri_fields it))) = Inr s" "state_document s = Inr d"
      "qs_userId s = owner"
    and sn: "sn = \<lparr>sn_state = s, sn_etag = e, sn_now = n\<rparr>"
    using assms by (auto simp: parse_item_def bindE_Inr_iff split: option.splits)
  then show "item_etag it = Some (sn_etag sn)" "qs_userId (sn_state sn) = owner"
    "document_markers (ri_fields it)" by simp_all
  show "ri_date it = DateAt (sn_now sn)"
    using n sn by (cases "ri_date it") simp_all
  show "dec_state (JObj (body_only (ri_fields it))) = Some (sn_state sn)"
    using s(1) sn by (auto simp: persisted_decode_def bindE_Inr_iff split: option.splits)
  show "state_document (sn_state sn) = Inr (state_json (sn_state sn))"
    using s(2) sn by (auto simp: state_document_def bindE_Inr_iff split: if_splits)
qed

lemma item_etag_nonempty: "item_etag it = Some e \<Longrightarrow> e \<noteq> []"
  by (auto simp: item_etag_def split: option.splits json.splits if_splits)

section \<open>Properties\<close>


definition demo_account :: json where
  "demo_account = JObj [(''enableMultipleWriteLocations'', JBool False),
     (''writableLocations'', JArr [JStr ''East US'']),
     (''consistencyPolicy'', JObj [(''defaultConsistencyLevel'', JStr ''Session'')])]"

definition demo_container :: json where
  "demo_container = JObj [(''id'', JStr ''usage''),
     (''partitionKey'', JObj [(''paths'', JArr [JStr ''/userId'']), (''kind'', JStr ''Hash'')])]"

fun fields_of :: "json \<Rightarrow> (string \<times> json) list" where
  "fields_of (JObj fs) = fs"
| "fields_of _ = []"

definition demo_item :: raw_item where
  "demo_item = \<lparr>ri_fields = fields_of (state_json demo_dispatched) @ [(''_etag'', JStr ''e7'')],
     ri_date = DateAt 500\<rparr>"

lemma demo_read:
  "cosmos_read \<lparr>cs_layout_ttl = 60, cs_layout_checked = None\<rparr> 10 11 (Answer demo_account)
     (Answer demo_container) (Item demo_item) demo_owner
   = (Inr \<lparr>sn_state = demo_dispatched, sn_etag = ''e7'', sn_now = 500\<rparr>,
      \<lparr>cs_layout_ttl = 60, cs_layout_checked = Some 11\<rparr>)"
proof -
  have b: "body_only (ri_fields demo_item) = fields_of (state_json demo_dispatched)"
    by (simp add: demo_item_def body_only_def state_json_def system_field_def)
  have j: "JObj (fields_of (state_json demo_dispatched)) = state_json demo_dispatched"
    by (simp add: state_json_def)
  have d: "persisted_decode (JObj (body_only (ri_fields demo_item))) = Inr demo_dispatched"
    using demo_models(3) by (simp add: b j persisted_decode_def)
  have m: "document_markers (ri_fields demo_item)" "item_etag demo_item = Some ''e7''"
    "ri_date demo_item = DateAt 500" "qs_userId demo_dispatched = demo_owner"
    by (simp_all add: demo_item_def document_markers_def item_etag_def state_json_def
        demo_dispatched_def demo_fresh_def fresh_state_def)
  have "is_ok (state_document demo_dispatched)"
    using fits_document demo_valid(3) demo_fits(3) by simp
  then have "parse_item demo_owner demo_item
      = Inr \<lparr>sn_state = demo_dispatched, sn_etag = ''e7'', sn_now = 500\<rparr>"
    using d m by (auto simp: parse_item_def is_ok_iff)
  moreover have "validate_layout \<lparr>cs_layout_ttl = 60, cs_layout_checked = None\<rparr> 10 11
      (Answer demo_account) (Answer demo_container)
      = (Answer (Inr ()), \<lparr>cs_layout_ttl = 60, cs_layout_checked = Some 11\<rparr>)"
    by code_simp
  ultimately show ?thesis by (simp add: cosmos_read_def)
qed


text \<open>
  A Cosmos replacement is one guarded write. It reports success only after a conditional
  request that carried the state's own validated document and the snapshot's nonempty ETag, for
  that owner, was done, and a lost race only after the service said the condition failed: a
  request whose outcome is unknown is never reported as either.
\<close>

theorem cosmos_replace_exact:
  assumes "cosmos_replace cs t t' account container write owner sn st = (Inr won, cs')"
  shows "qs_userId st = owner \<and> qs_userId (sn_state sn) = owner \<and> sn_etag sn \<noteq> []
    \<and> state_document st = Inr (state_json st)
    \<and> write (state_json st) (sn_etag sn) = (if won then WriteDone else WriteConflict)"
proof -
  have doc: "d = state_json st" if "state_document st = Inr d" for d
    using that by (auto simp: state_document_def bindE_Inr_iff split: if_splits)
  from assms show ?thesis
    by (auto simp: cosmos_replace_def split: if_splits sum.splits prod.splits response.splits
        write_response.splits dest: doc)
qed

theorem cosmos_replace_exact_witness:
  "state_document demo_settled = Inr (state_json demo_settled)
   \<and> cosmos_replace \<lparr>cs_layout_ttl = 60, cs_layout_checked = None\<rparr> 10 11 (Answer demo_account)
       (Answer demo_container) (\<lambda>doc etag. if etag = ''3'' then WriteDone else WriteConflict)
       demo_owner (demo_snap 3 demo_dispatched 110) demo_settled
     = (Inr True, \<lparr>cs_layout_ttl = 60, cs_layout_checked = Some 11\<rparr>)"
proof -
  have v: "validate_layout \<lparr>cs_layout_ttl = 60, cs_layout_checked = None\<rparr> 10 11
      (Answer demo_account) (Answer demo_container)
      = (Answer (Inr ()), \<lparr>cs_layout_ttl = 60, cs_layout_checked = Some 11\<rparr>)"
    by code_simp
  have "is_ok (state_document demo_settled)"
    using fits_document demo_good(4) by (simp add: good_state_def)
  then obtain d where "state_document demo_settled = Inr d" by (auto simp: is_ok_iff)
  moreover have "qs_userId demo_settled = demo_owner" "qs_userId demo_dispatched = demo_owner"
    "show_nat 3 = ''3''" by code_simp+
  ultimately have r: "cosmos_replace \<lparr>cs_layout_ttl = 60, cs_layout_checked = None\<rparr> 10 11
      (Answer demo_account) (Answer demo_container)
      (\<lambda>doc etag. if etag = ''3'' then WriteDone else WriteConflict)
      demo_owner (demo_snap 3 demo_dispatched 110) demo_settled
     = (Inr True, \<lparr>cs_layout_ttl = 60, cs_layout_checked = Some 11\<rparr>)"
    using v by (simp add: cosmos_replace_def demo_snap_def)
  from cosmos_replace_exact [OF r] r show ?thesis by simp
qed

end
