(* ===== verification/Quota_Operator.thy ===== *)
theory Quota_Operator
  imports Quota_Cosmos
begin

text \<open>
  \<open>hard_quota/operator.py\<close>: the operator tool that creates absent owner documents and settles aged
  holds. Every answer of Cosmos DB is an argument (a script of responses); a run returns its
  outcome together with the write requests it issued, so that the theorems speak of every write
  the tool can ever send.
\<close>

section \<open>Arguments\<close>

definition MAX_OWNERS :: nat where "MAX_OWNERS = 256"

definition HOLD_MIN_AGE_SECONDS :: int where "HOLD_MIN_AGE_SECONDS = DAY_SECONDS"

definition MAX_RESOLVE_ATTEMPTS :: nat where "MAX_RESOLVE_ATTEMPTS = 8"

datatype op_reason =
    BadOwner | CohortTooLarge | CohortNotJson | CohortShape | CohortCount | CohortDuplicate
  | BadEndpoint | BadDatabase | BadLayout | BadDocument | ReadUnavailable | StoreClock
  | StalePlan | BlockedPlan | Appeared | NoEtag | CutoffTooRecent | HoldChanged | NotAccounting
  | KeptChanging | CreateUnknown | ReadbackUnavailable | ReadbackMismatch | ResolutionUnknown

text \<open>\<open>OutcomeUnknown\<close> is the subclass for writes that may have been applied; \<open>Escaped\<close> is any other
  exception, which \<open>main\<close> reports as a refusal.\<close>

datatype op_exn = OperatorError op_reason | OutcomeUnknown op_reason | Escaped

text \<open>
  \<open>str(uuid.UUID(value)) == value\<close> holds of the canonical texts only: five groups of lower-case
  hexadecimal digits of lengths 8, 4, 4, 4 and 12.
\<close>

definition canonical_uuid :: "string \<Rightarrow> bool" where
  "canonical_uuid v \<longleftrightarrow> length v = 36
     \<and> (\<forall>i < 36. if i \<in> {8, 13, 18, 23} then v ! i = CHR ''-'' else is_lower_hex (v ! i))"

definition nil_uuid :: "string \<Rightarrow> bool" where
  "nil_uuid v \<longleftrightarrow> list_all (\<lambda>c. c = CHR ''-'' \<or> c = CHR ''0'') v"

fun owner_id :: "json \<Rightarrow> op_exn + string" where
  "owner_id (JStr v) = (if canonical_uuid v \<and> \<not> nil_uuid v then Inr v else Inl (OperatorError BadOwner))"
| "owner_id _ = Inl (OperatorError BadOwner)"

text \<open>The cohort file as it was read: too large, not JSON, or a document.\<close>

datatype cohort_file = FileTooLarge | FileNotJson | FileDocument json

fun cohort_document :: "cohort_file \<Rightarrow> op_exn + json list" where
  "cohort_document FileTooLarge = Inl (OperatorError CohortTooLarge)"
| "cohort_document FileNotJson = Inl (OperatorError CohortNotJson)"
| "cohort_document (FileDocument d) =
     (case d of
        JObj fs \<Rightarrow>
          if set (map fst fs) = {''schemaVersion'', ''owners''} \<and> map_of fs ''schemaVersion'' = Some (JInt 1)
          then (case map_of fs ''owners'' of Some (JArr vs) \<Rightarrow> Inr vs | _ \<Rightarrow> Inl (OperatorError CohortShape))
          else Inl (OperatorError CohortShape)
      | _ \<Rightarrow> Inl (OperatorError CohortShape))"

fun mapE :: "('a \<Rightarrow> 'e + 'b) \<Rightarrow> 'a list \<Rightarrow> 'e + 'b list" where
  "mapE f [] = Inr []"
| "mapE f (x # xs) = bindE (f x) (\<lambda>y. bindE (mapE f xs) (\<lambda>ys. Inr (y # ys)))"

definition cohort :: "string list \<Rightarrow> cohort_file option \<Rightarrow> op_exn + string list" where
  "cohort owners file =
     bindE (case file of None \<Rightarrow> Inr [] | Some f \<Rightarrow> cohort_document f) (\<lambda>more.
     let vals = map JStr owners @ more in
     bindE (ensure (1 \<le> length vals \<and> length vals \<le> MAX_OWNERS) (OperatorError CohortCount)) (\<lambda>_.
     bindE (mapE owner_id vals) (\<lambda>parsed.
     bindE (ensure (distinct parsed) (OperatorError CohortDuplicate)) (\<lambda>_.
     Inr (sort parsed)))))"

record target =
  tg_endpoint :: string
  tg_host :: string
  tg_database :: string
  tg_owners :: "string list"

definition lower_alnum :: "char \<Rightarrow> bool" where
  "lower_alnum c \<longleftrightarrow> is_digit c \<or> 97 \<le> char_code c \<and> char_code c \<le> 122"

definition account_name :: "string \<Rightarrow> bool" where
  "account_name n \<longleftrightarrow> 3 \<le> length n \<and> length n \<le> 44 \<and> lower_alnum (hd n) \<and> lower_alnum (last n)
     \<and> list_all (\<lambda>c. lower_alnum c \<or> c = CHR ''-'') n"

definition endpoint_host :: "string \<Rightarrow> string option" where
  "endpoint_host e =
     (let rest = drop 8 e; n = takeWhile (\<lambda>c. c \<noteq> CHR ''.'') rest;
          suffix = dropWhile (\<lambda>c. c \<noteq> CHR ''.'') rest in
      if take 8 e = ''https://'' \<and> account_name n
        \<and> suffix \<in> {''.documents.azure.com'', ''.documents.azure.com/'',
                    ''.documents.azure.com:443'', ''.documents.azure.com:443/''}
      then Some (n @ ''.documents.azure.com'') else None)"

definition database_ok :: "string \<Rightarrow> bool" where
  "database_ok d \<longleftrightarrow> 1 \<le> length d \<and> length d \<le> 255 \<and> is_alnum (hd d)
     \<and> list_all (\<lambda>c. is_alnum c \<or> c = CHR ''_'' \<or> c = CHR ''-'') d"

definition mk_target :: "string \<Rightarrow> string \<Rightarrow> string list \<Rightarrow> cohort_file option \<Rightarrow> op_exn + target" where
  "mk_target endpoint database owners file =
     (case endpoint_host endpoint of
        None \<Rightarrow> Inl (OperatorError BadEndpoint)
      | Some host \<Rightarrow>
          bindE (ensure (database_ok database) (OperatorError BadDatabase)) (\<lambda>_.
          bindE (cohort owners file) (\<lambda>os.
          Inr \<lparr>tg_endpoint = endpoint, tg_host = host, tg_database = database, tg_owners = os\<rparr>)))"

section \<open>Observation\<close>

text \<open>\<open>strict_state\<close> of an item: the runtime's decoder, with one diagnostic for every defect.\<close>

definition strict_state :: "(string \<times> json) list \<Rightarrow> string \<Rightarrow> op_exn + quota_state" where
  "strict_state fs owner =
     (if \<not> document_markers fs then Inl (OperatorError BadDocument)
      else case persisted_decode (JObj (body_only fs)) of
        Inl _ \<Rightarrow> Inl (OperatorError BadDocument)
      | Inr state \<Rightarrow>
          if is_ok (state_document state) \<and> qs_userId state = owner then Inr state
          else Inl (OperatorError BadDocument))"

definition store_time :: "http_date \<Rightarrow> op_exn + int" where
  "store_time d = (case coordination_time d of Inl _ \<Rightarrow> Inl (OperatorError StoreClock) | Inr t \<Rightarrow> Inr t)"

text \<open>\<open>observe_layout\<close>: the layout as the plan records it, and the store clock.\<close>

definition observe_layout ::
  "json response \<Rightarrow> (json \<times> http_date) response \<Rightarrow> op_exn + (json \<times> int)" where
  "observe_layout account container =
     (case account of
        ClientError \<Rightarrow> Inl Escaped
      | Answer a \<Rightarrow>
          if \<not> account_layout_ok a then Inl (OperatorError BadLayout)
          else case container of
            ClientError \<Rightarrow> Inl Escaped
          | Answer (c, date) \<Rightarrow>
              if \<not> container_layout_ok c then Inl (OperatorError BadLayout)
              else (case coordination_time date of
                  Inl (QuotaError r code) \<Rightarrow> Inl (OperatorError BadLayout)
                | Inl _ \<Rightarrow> Inl Escaped
                | Inr now \<Rightarrow> Inr (JObj [(''container'', JStr ''usage''), (''partitionKey'', JStr ''/userId''),
                    (''singleWriteRegion'', JBool True), (''consistency'', JStr ''Session''),
                    (''defaultTtl'', get_or_null c ''defaultTtl''),
                    (''analyticalStorageTtl'', get_or_null c ''analyticalStorageTtl'')], now)))"

datatype observed = Absent | Present quota_state | Incompatible

fun read_owner :: "item_response \<Rightarrow> string \<Rightarrow> op_exn + observed" where
  "read_owner ItemNotFound owner = Inr Absent"
| "read_owner ItemError owner = Inl Escaped"
| "read_owner (Item it) owner =
     (case strict_state (ri_fields it) owner of Inl _ \<Rightarrow> Inr Incompatible | Inr s \<Rightarrow> Inr (Present s))"

definition plan_header :: "string \<Rightarrow> target \<Rightarrow> string \<Rightarrow> json \<Rightarrow> (string \<times> json) list" where
  "plan_header command tg source layout =
     [(''tool'', JStr ''ai4ia-hard-quota-operator''), (''version'', JInt 1), (''command'', JStr command),
      (''source'', JStr source),
      (''scope'', JObj [(''endpointHost'', JStr (tg_host tg)), (''database'', JStr (tg_database tg)),
                        (''container'', JStr ''usage'')]),
      (''layout'', layout)]"

fun observed_name :: "observed \<Rightarrow> string" where
  "observed_name Absent = ''absent''"
| "observed_name (Present s) = ''present''"
| "observed_name Incompatible = ''incompatible''"

type_synonym observations = "(string \<times> observed) list"

definition observe_all :: "(string \<Rightarrow> item_response) \<Rightarrow> string list \<Rightarrow> op_exn + observations" where
  "observe_all items owners =
     mapE (\<lambda>ow. bindE (read_owner (items ow) ow) (\<lambda>ob. Inr (ow, ob))) owners"

definition blocked_plan :: "observations \<Rightarrow> bool" where
  "blocked_plan obs \<longleftrightarrow> (\<exists>(ow, ob) \<in> set obs. ob = Incompatible)"

section \<open>Bootstrap\<close>

definition bootstrap_entry :: "string \<times> observed \<Rightarrow> json" where
  "bootstrap_entry p = (case p of (ow, ob) \<Rightarrow>
     JObj ([(''owner'', JStr ow), (''observed'', JStr (observed_name ob))]
       @ (case ob of Present s \<Rightarrow> [(''epoch'', JStr (qs_epoch s)), (''validAfter'', JInt (qs_validAfter s))]
          | _ \<Rightarrow> [])))"

definition bootstrap_plan :: "target \<Rightarrow> string \<Rightarrow> json \<Rightarrow> observations \<Rightarrow> json" where
  "bootstrap_plan tg source layout obs =
     JObj (plan_header ''bootstrap'' tg source layout @ [(''owners'', JArr (map bootstrap_entry obs))])"

datatype create_response = CreateDone | CreateExists | CreateFailed

text \<open>What \<open>create_owner\<close> meets: the clock of its container read, the fresh epoch, the answer to
  the create and the item read back.\<close>

record create_script =
  cr_clock :: "http_date response"
  cr_epoch :: string
  cr_create :: create_response
  cr_readback :: item_response

definition create_owner ::
  "create_script \<Rightarrow> string \<Rightarrow> (op_exn + quota_state) \<times> quota_state list" where
  "create_owner cr owner =
     (case cr_clock cr of
        ClientError \<Rightarrow> (Inl (OperatorError ReadUnavailable), [])
      | Answer date \<Rightarrow> (case store_time date of
          Inl e \<Rightarrow> (Inl e, [])
        | Inr now \<Rightarrow>
            let state = fresh_state owner (cr_epoch cr) now in
            if \<not> is_ok (model_validate state) then (Inl Escaped, [])
            else if \<not> is_ok (state_document state) then (Inl (OutcomeUnknown CreateUnknown), [])
            else (case cr_create cr of
                CreateExists \<Rightarrow> (Inl (OperatorError Appeared), [state])
              | CreateFailed \<Rightarrow> (Inl (OutcomeUnknown CreateUnknown), [state])
              | CreateDone \<Rightarrow> (case cr_readback cr of
                    Item it \<Rightarrow> (case strict_state (ri_fields it) owner of
                        Inl _ \<Rightarrow> (Inl (OutcomeUnknown ReadbackUnavailable), [state])
                      | Inr s \<Rightarrow> (if s = state then Inr state else Inl (OutcomeUnknown ReadbackMismatch), [state]))
                  | _ \<Rightarrow> (Inl (OutcomeUnknown ReadbackUnavailable), [state])))))"

datatype owner_result = Kept | Created int | Resolved int | Refused | UnknownResult

datatype run_status = Ready | Blocked | Applied | Partial

record run_view =
  vw_status :: run_status
  vw_plan :: string
  vw_results :: "(string \<times> owner_result) list"
  vw_error :: "op_exn option"

text \<open>
  The apply loop over the planned owners: it stops at the first failure, whose exception it
  returns; an exception that is not an \<open>OperatorError\<close> leaves the run.
\<close>

fun failure_result :: "op_exn \<Rightarrow> owner_result" where
  "failure_result (OutcomeUnknown r) = UnknownResult"
| "failure_result e = Refused"

fun bootstrap_apply ::
  "(string \<Rightarrow> create_script) \<Rightarrow> observations
    \<Rightarrow> (string \<times> owner_result) list \<times> op_exn option \<times> quota_state list" where
  "bootstrap_apply scr [] = ([], None, [])"
| "bootstrap_apply scr ((ow, ob) # rest) =
     (case ob of
        Present s \<Rightarrow> (let (rs, e, ws) = bootstrap_apply scr rest in ((ow, Kept) # rs, e, ws))
      | _ \<Rightarrow> (case create_owner (scr ow) ow of
          (Inl e, ws) \<Rightarrow> ([(ow, failure_result e)], Some e, ws)
        | (Inr st, ws) \<Rightarrow> (let (rs, e, ws') = bootstrap_apply scr rest in
            ((ow, Created (qs_validAfter st)) # rs, e, ws @ ws'))))"

definition finish_view ::
  "string \<Rightarrow> (string \<times> owner_result) list \<times> op_exn option \<times> 'w list \<Rightarrow> (op_exn + run_view) \<times> 'w list" where
  "finish_view digest r = (case r of (rs, e, ws) \<Rightarrow>
     (case e of
        None \<Rightarrow> (Inr \<lparr>vw_status = Applied, vw_plan = digest, vw_results = rs, vw_error = None\<rparr>, ws)
      | Some Escaped \<Rightarrow> (Inl Escaped, ws)
      | Some x \<Rightarrow> (Inr \<lparr>vw_status = Partial, vw_plan = digest, vw_results = rs, vw_error = Some x\<rparr>, ws)))"

text \<open>What both commands do with a plan and the approval: show it, refuse it, or go on to apply.\<close>

definition approved ::
  "(string \<Rightarrow> string) \<Rightarrow> json \<Rightarrow> observations \<Rightarrow> string option
    \<Rightarrow> (string \<Rightarrow> (op_exn + run_view) \<times> 'w list) \<Rightarrow> (op_exn + run_view) \<times> 'w list" where
  "approved sha plan obs approve apply_plan =
     (case canonical_digest sha plan of
        Inl _ \<Rightarrow> (Inl Escaped, [])
      | Inr digest \<Rightarrow> (case approve of
          None \<Rightarrow> (Inr \<lparr>vw_status = (if blocked_plan obs then Blocked else Ready), vw_plan = digest,
                        vw_results = [], vw_error = None\<rparr>, [])
        | Some a \<Rightarrow>
            if digest \<noteq> a then (Inl (OperatorError StalePlan), [])
            else if blocked_plan obs then (Inl (OperatorError BlockedPlan), [])
            else apply_plan digest))"

definition bootstrap ::
  "(string \<Rightarrow> string) \<Rightarrow> string \<Rightarrow> json response \<Rightarrow> (json \<times> http_date) response
    \<Rightarrow> (string \<Rightarrow> item_response) \<Rightarrow> (string \<Rightarrow> create_script) \<Rightarrow> target \<Rightarrow> string option
    \<Rightarrow> (op_exn + run_view) \<times> quota_state list" where
  "bootstrap sha source account container items scr tg approve =
     (case observe_layout account container of
        Inl e \<Rightarrow> (Inl e, [])
      | Inr (layout, now) \<Rightarrow> (case observe_all items (tg_owners tg) of
          Inl e \<Rightarrow> (Inl e, [])
        | Inr obs \<Rightarrow> approved sha (bootstrap_plan tg source layout obs) obs approve
            (\<lambda>digest. finish_view digest (bootstrap_apply scr obs))))"

end
