(* ===== verification/Quota_Resolve.thy ===== *)
theory Quota_Resolve
  imports Quota_Operator
begin

text \<open>
  The second half of \<open>hard_quota/operator.py\<close>: which holds may be resolved, the resolution of an
  owner's planned holds under compare-and-swap, and what both commands guarantee about every
  write they issue.
\<close>

section \<open>Holds\<close>

datatype hold_action = UnsupportedUnknown | UnsupportedBound | UnsupportedBlocked | TooRecent | Resolve

definition hold_action_of :: "quota_state \<Rightarrow> int \<Rightarrow> reservation \<Rightarrow> hold_action" where
  "hold_action_of s cutoff r =
     (if rs_phase r \<noteq> Dispatched then UnsupportedUnknown
      else if \<not> request_only r then UnsupportedBound
      else if qs_blocked s then UnsupportedBlocked
      else if (case rs_dispatchedAt r of None \<Rightarrow> True | Some t \<Rightarrow> cutoff \<le> t) then TooRecent
      else Resolve)"

type_synonym hold = "string \<times> json"

text \<open>\<open>classify_holds\<close>: the eligible holds with their exact records, and the whole listing.\<close>

definition held_keys :: "quota_state \<Rightarrow> string list" where
  "held_keys s = filter (\<lambda>k. case map_of (qs_entries s) k of
       Some r \<Rightarrow> rs_phase r = Dispatched \<or> rs_phase r = Unknown | None \<Rightarrow> False)
     (sort (map fst (qs_entries s)))"

definition classify_holds ::
  "quota_state \<Rightarrow> int \<Rightarrow> hold list \<times> (string \<times> reservation \<times> hold_action) list" where
  "classify_holds s cutoff =
     (let listed = map (\<lambda>k. let r = the (map_of (qs_entries s) k) in (k, r, hold_action_of s cutoff r)) (held_keys s) in
      (map (\<lambda>(k, r, a). (k, reservation_json r)) (filter (\<lambda>(k, r, a). a = Resolve) listed), listed))"

definition check_cutoff :: "int \<Rightarrow> int \<Rightarrow> op_exn + unit" where
  "check_cutoff cutoff now =
     ensure (0 \<le> cutoff \<and> cutoff \<le> now - HOLD_MIN_AGE_SECONDS) (OperatorError CutoffTooRecent)"

definition hold_json :: "hold \<Rightarrow> json" where
  "hold_json h = JObj [(''operationId'', JStr (fst h)), (''record'', snd h)]"

type_synonym planned = "(string \<times> observed \<times> hold list) list"

definition planned_holds :: "int \<Rightarrow> observations \<Rightarrow> planned" where
  "planned_holds cutoff obs = map (\<lambda>(ow, ob). (ow, ob,
     case ob of Present s \<Rightarrow> fst (classify_holds s cutoff) | _ \<Rightarrow> [])) obs"

definition resolve_plan :: "target \<Rightarrow> string \<Rightarrow> json \<Rightarrow> int \<Rightarrow> string \<Rightarrow> planned \<Rightarrow> json" where
  "resolve_plan tg source layout cutoff evidence_sha pl =
     JObj (plan_header ''resolve'' tg source layout
       @ [(''dispatchedBefore'', JInt cutoff), (''evidenceSha256'', JStr evidence_sha),
          (''owners'', JArr (map (\<lambda>(ow, ob, hs). JObj [(''owner'', JStr ow),
             (''observed'', JStr (observed_name ob)), (''holds'', JArr (map hold_json hs))]) pl))])"

section \<open>Resolving one owner\<close>

definition resolved_record :: "int \<Rightarrow> string \<Rightarrow> reservation \<Rightarrow> reservation" where
  "resolved_record now settlement r = r\<lparr>rs_phase := Settled, rs_outcome := Some OUnknown,
     rs_settledAt := Some now, rs_settlementDigest := Some settlement, rs_charged := bound_amounts r\<rparr>"

fun apply_holds ::
  "int \<Rightarrow> string \<Rightarrow> hold list \<Rightarrow> (string, reservation) dict \<Rightarrow> op_exn + (string, reservation) dict" where
  "apply_holds now settlement [] es = Inr es"
| "apply_holds now settlement ((k, doc) # hs) es =
     (case map_of es k of
        None \<Rightarrow> Inl (OperatorError HoldChanged)
      | Some r \<Rightarrow>
          if reservation_json r \<noteq> doc then Inl (OperatorError HoldChanged)
          else apply_holds now settlement hs (AList.update k (resolved_record now settlement r) es))"

definition resolve_state ::
  "quota_state \<Rightarrow> hold list \<Rightarrow> int \<Rightarrow> int \<Rightarrow> string \<Rightarrow> op_exn + quota_state" where
  "resolve_state state holds cutoff now settlement =
     bindE (check_cutoff cutoff now) (\<lambda>_.
     bindE (apply_holds now settlement holds (qs_entries state)) (\<lambda>es.
     let updated = state\<lparr>qs_entries := es, qs_observedAt := max (qs_observedAt state) now\<rparr> in
     bindE (ensure (is_ok (state_document updated)) (OperatorError NotAccounting)) (\<lambda>_. Inr updated)))"

text \<open>The item an attempt read, as the state it decodes to, its ETag and the store's clock.\<close>

definition resolve_read :: "item_response \<Rightarrow> string \<Rightarrow> op_exn + (quota_state \<times> string \<times> http_date)" where
  "resolve_read item owner =
     (case item of
        Item it \<Rightarrow>
          bindE (strict_state (ri_fields it) owner) (\<lambda>state.
          case item_etag it of
            None \<Rightarrow> Inl (OperatorError NoEtag)
          | Some etag \<Rightarrow> Inr (state, etag, ri_date it))
      | _ \<Rightarrow> Inl (OperatorError ReadUnavailable))"

definition resolve_attempt ::
  "item_response \<Rightarrow> string \<Rightarrow> hold list \<Rightarrow> int \<Rightarrow> string \<Rightarrow> op_exn + (quota_state \<times> string \<times> int \<times> quota_state)" where
  "resolve_attempt item owner holds cutoff settlement =
     bindE (resolve_read item owner) (\<lambda>(state, etag, date).
     bindE (store_time date) (\<lambda>now.
     bindE (resolve_state state holds cutoff now settlement) (\<lambda>updated.
     Inr (state, etag, now, updated))))"

definition readback_matches :: "item_response \<Rightarrow> string \<Rightarrow> hold list \<Rightarrow> quota_state \<Rightarrow> op_exn + unit" where
  "readback_matches item owner holds updated =
     (case item of
        Item it \<Rightarrow> (case strict_state (ri_fields it) owner of
            Inl _ \<Rightarrow> Inl (OutcomeUnknown ReadbackUnavailable)
          | Inr s \<Rightarrow> ensure (list_all (\<lambda>(k, _). map_of (qs_entries s) k = map_of (qs_entries updated) k) holds)
                       (OutcomeUnknown ReadbackMismatch))
      | _ \<Rightarrow> Inl (OutcomeUnknown ReadbackUnavailable))"

text \<open>
  The loop, with the answers of attempt \<open>i\<close> in the script; a write is the document sent and the
  ETag it was conditional on.
\<close>

record resolve_script =
  rv_read :: "nat \<Rightarrow> item_response"
  rv_write :: "nat \<Rightarrow> write_response"
  rv_readback :: "nat \<Rightarrow> item_response"

type_synonym resolve_write = "quota_state \<times> string \<times> quota_state"

fun resolve_loop ::
  "resolve_script \<Rightarrow> string \<Rightarrow> hold list \<Rightarrow> int \<Rightarrow> string \<Rightarrow> nat \<Rightarrow> nat
    \<Rightarrow> (op_exn + int) \<times> resolve_write list" where
  "resolve_loop scr owner holds cutoff settlement 0 i = (Inl (OperatorError KeptChanging), [])"
| "resolve_loop scr owner holds cutoff settlement (Suc n) i =
     (case resolve_attempt (rv_read scr i) owner holds cutoff settlement of
        Inl e \<Rightarrow> (Inl e, [])
      | Inr (state, etag, now, updated) \<Rightarrow> (case rv_write scr i of
            WriteConflict \<Rightarrow>
              (let (r, ws) = resolve_loop scr owner holds cutoff settlement n (Suc i) in
               (r, (state, etag, updated) # ws))
          | WriteError \<Rightarrow> (Inl (OutcomeUnknown ResolutionUnknown), [(state, etag, updated)])
          | WriteDone \<Rightarrow> (case readback_matches (rv_readback scr i) owner holds updated of
                Inl e \<Rightarrow> (Inl e, [(state, etag, updated)])
              | Inr _ \<Rightarrow> (Inr now, [(state, etag, updated)]))))"

definition resolve_owner ::
  "resolve_script \<Rightarrow> string \<Rightarrow> hold list \<Rightarrow> int \<Rightarrow> string \<Rightarrow> (op_exn + int) \<times> resolve_write list" where
  "resolve_owner scr owner holds cutoff settlement =
     resolve_loop scr owner holds cutoff settlement MAX_RESOLVE_ATTEMPTS 0"

fun resolve_apply ::
  "(string \<Rightarrow> resolve_script) \<Rightarrow> int \<Rightarrow> string \<Rightarrow> planned
    \<Rightarrow> (string \<times> owner_result) list \<times> op_exn option \<times> resolve_write list" where
  "resolve_apply scr cutoff settlement [] = ([], None, [])"
| "resolve_apply scr cutoff settlement ((ow, ob, hs) # rest) =
     (if hs = [] then resolve_apply scr cutoff settlement rest
      else case resolve_owner (scr ow) ow hs cutoff settlement of
        (Inl e, ws) \<Rightarrow> ([(ow, failure_result e)], Some e, ws)
      | (Inr t, ws) \<Rightarrow> (let (rs, e, ws') = resolve_apply scr cutoff settlement rest in
          ((ow, Resolved t) # rs, e, ws @ ws')))"

definition resolution_digest :: "(string \<Rightarrow> string) \<Rightarrow> string \<Rightarrow> string \<Rightarrow> string" where
  "resolution_digest sha plan_sha evidence_sha = sha (canonical_json (JObj
     [(''resolution'', JStr ''operator-resolve-v1''), (''plan'', JStr plan_sha),
      (''evidence'', JStr evidence_sha)]))"

definition resolve_run ::
  "(string \<Rightarrow> string) \<Rightarrow> string \<Rightarrow> json response \<Rightarrow> (json \<times> http_date) response
    \<Rightarrow> (string \<Rightarrow> item_response) \<Rightarrow> (string \<Rightarrow> resolve_script) \<Rightarrow> target \<Rightarrow> string option \<Rightarrow> int \<Rightarrow> string
    \<Rightarrow> (op_exn + run_view) \<times> resolve_write list" where
  "resolve_run sha source account container items scr tg approve cutoff evidence =
     (case observe_layout account container of
        Inl e \<Rightarrow> (Inl e, [])
      | Inr (layout, now) \<Rightarrow> (case check_cutoff cutoff now of
          Inl e \<Rightarrow> (Inl e, [])
        | Inr _ \<Rightarrow> (case observe_all items (tg_owners tg) of
            Inl e \<Rightarrow> (Inl e, [])
          | Inr obs \<Rightarrow>
              let pl = planned_holds cutoff obs; plan = resolve_plan tg source layout cutoff (sha evidence) pl in
              approved sha plan obs approve
                (\<lambda>digest. finish_view digest
                   (resolve_apply scr cutoff (resolution_digest sha digest (sha evidence)) pl)))))"

section \<open>Lemmas\<close>

lemma mapE_member: "mapE f xs = Inr ys \<Longrightarrow> y \<in> set ys \<Longrightarrow> \<exists>x \<in> set xs. f x = Inr y"
  by (induction xs arbitrary: ys) (auto simp: bindE_Inr_iff)

lemma observe_all_member:
  assumes "observe_all items owners = Inr obs" "(ow, ob) \<in> set obs"
  shows "ow \<in> set owners \<and> read_owner (items ow) ow = Inr ob"
  using mapE_member [OF assms(1) [unfolded observe_all_def] assms(2)] by (auto simp: bindE_Inr_iff)

lemma read_owner_absent: "read_owner item ow = Inr Absent \<Longrightarrow> item = ItemNotFound"
  by (cases item) (auto split: sum.splits)

lemma read_owner_present:
  "read_owner item ow = Inr (Present s) \<Longrightarrow> \<exists>it. item = Item it \<and> strict_state (ri_fields it) ow = Inr s"
  by (cases item) (auto split: sum.splits)

lemma strict_stateD:
  assumes "strict_state fs ow = Inr s"
  shows "model_validate s = Inr ()" "is_ok (state_document s)" "qs_userId s = ow"
  using assms by (auto simp: strict_state_def persisted_decode_def bindE_Inr_iff
      split: if_splits sum.splits option.splits)

lemma approved_writes:
  assumes "w \<in> set (snd (approved sha plan obs approve f))"
  shows "\<exists>d. canonical_digest sha plan = Inr d \<and> approve = Some d \<and> \<not> blocked_plan obs \<and> w \<in> set (snd (f d))"
  using assms by (auto simp: approved_def split: sum.splits option.splits if_splits)

lemma finish_view_writes [simp]: "snd (finish_view d r) = snd (snd r)"
  by (cases r) (auto simp: finish_view_def split: option.splits op_exn.splits)

lemma create_owner_write:
  assumes "st \<in> set (snd (create_owner cr ow))"
  shows "\<exists>t. cr_clock cr = Answer (DateAt t) \<and> st = fresh_state ow (cr_epoch cr) t \<and> is_ok (state_document st)"
proof -
  obtain date where d: "cr_clock cr = Answer date"
    using assms by (cases "cr_clock cr") (auto simp: create_owner_def)
  obtain t where t: "date = DateAt t"
    using assms d by (cases date) (auto simp: create_owner_def store_time_def)
  have "st = fresh_state ow (cr_epoch cr) t \<and> is_ok (state_document st)"
    using assms d t
    by (auto simp: create_owner_def store_time_def Let_def split: if_splits create_response.splits
        item_response.splits sum.splits)
  with d t show ?thesis by blast
qed

lemma bootstrap_apply_new:
  "\<forall>s. ob \<noteq> Present s \<Longrightarrow> snd (snd (bootstrap_apply scr ((ow, ob) # rest))) =
     (case create_owner (scr ow) ow of (Inl e, ws) \<Rightarrow> ws
      | (Inr st, ws) \<Rightarrow> ws @ snd (snd (bootstrap_apply scr rest)))"
  by (cases ob) (auto split: prod.splits sum.splits)

lemma bootstrap_apply_kept:
  "snd (snd (bootstrap_apply scr ((ow, Present s) # rest))) = snd (snd (bootstrap_apply scr rest))"
  by (simp split: prod.splits)

lemma bootstrap_apply_writes:
  assumes "st \<in> set (snd (snd (bootstrap_apply scr obs)))"
  shows "\<exists>ow ob. (ow, ob) \<in> set obs \<and> (\<forall>s. ob \<noteq> Present s) \<and> st \<in> set (snd (create_owner (scr ow) ow))"
  using assms
proof (induction obs)
  case (Cons p rest)
  obtain ow ob where p: "p = (ow, ob)" by (cases p)
  show ?case
  proof (cases "\<exists>s. ob = Present s")
    case True
    then have "st \<in> set (snd (snd (bootstrap_apply scr rest)))"
      using Cons.prems p bootstrap_apply_kept by fastforce
    with Cons.IH show ?thesis by auto
  next
    case False
    then have new: "\<forall>s. ob \<noteq> Present s" by simp
    obtain r ws where c: "create_owner (scr ow) ow = (r, ws)" by (cases "create_owner (scr ow) ow")
    have "st \<in> set (snd (create_owner (scr ow) ow)) \<or> st \<in> set (snd (snd (bootstrap_apply scr rest)))"
      using Cons.prems unfolding p bootstrap_apply_new [OF new] c by (cases r) auto
    with Cons.IH new p show ?thesis by auto
  qed
qed simp

lemma classify_member:
  assumes "(k, doc) \<in> set (fst (classify_holds s cutoff))"
  shows "\<exists>r. map_of (qs_entries s) k = Some r \<and> doc = reservation_json r \<and> hold_action_of s cutoff r = Resolve"
  using assms
  by (auto simp: classify_holds_def held_keys_def Let_def split: option.splits)

lemma hold_action_resolve:
  "hold_action_of s cutoff r = Resolve \<longleftrightarrow> rs_phase r = Dispatched \<and> request_only r \<and> \<not> qs_blocked s
     \<and> (\<exists>d. rs_dispatchedAt r = Some d \<and> d < cutoff)"
  by (auto simp: hold_action_of_def split: option.splits)

lemma resolved_record_idem [simp]:
  "resolved_record now st (resolved_record now st r) = resolved_record now st r"
  by (simp add: resolved_record_def)

lemma apply_holdsD:
  assumes "apply_holds now st hs es = Inr es'" "\<And>k d. (k, d) \<in> set hs \<Longrightarrow> d = f k"
  shows "(\<forall>k. k \<notin> fst ` set hs \<longrightarrow> map_of es' k = map_of es k)
    \<and> (\<forall>k \<in> fst ` set hs. \<exists>r. map_of es k = Some r \<and> reservation_json r = f k
         \<and> map_of es' k = Some (resolved_record now st r))"
  using assms
proof (induction now st hs es rule: apply_holds.induct)
  case (2 now st k doc hs es)
  from "2.prems"(1) obtain r where r: "map_of es k = Some r" "reservation_json r = doc"
    and rest: "apply_holds now st hs (AList.update k (resolved_record now st r) es) = Inr es'"
    by (auto split: option.splits if_splits)
  let ?es = "AList.update k (resolved_record now st r) es"
  have f: "doc = f k" using "2.prems"(2) by simp
  have "\<not> reservation_json r \<noteq> doc" using r by simp
  from "2.IH" [OF r(1) this rest] "2.prems"(2)
  have IH: "\<And>k'. k' \<notin> fst ` set hs \<Longrightarrow> map_of es' k' = map_of ?es k'"
    "\<And>k'. k' \<in> fst ` set hs \<Longrightarrow> \<exists>r'. map_of ?es k' = Some r' \<and> reservation_json r' = f k'
       \<and> map_of es' k' = Some (resolved_record now st r')" by auto
  have own: "map_of es' k = Some (resolved_record now st r)"
  proof (cases "k \<in> fst ` set hs")
    case True
    from IH(2) [OF True] show ?thesis by (auto simp: map_of_update)
  next
    case False
    from IH(1) [OF False] show ?thesis by (simp add: map_of_update)
  qed
  show ?case
  proof (intro conjI allI impI ballI)
    fix k' assume "k' \<notin> fst ` set ((k, doc) # hs)"
    then show "map_of es' k' = map_of es k'" using IH(1) [of k'] by (simp add: map_of_update)
  next
    fix k' assume k': "k' \<in> fst ` set ((k, doc) # hs)"
    show "\<exists>r. map_of es k' = Some r \<and> reservation_json r = f k' \<and> map_of es' k' = Some (resolved_record now st r)"
    proof (cases "k' = k")
      case True
      with r f own show ?thesis by auto
    next
      case False
      with k' have "k' \<in> fst ` set hs" by simp
      from IH(2) [OF this] False show ?thesis by (simp add: map_of_update)
    qed
  qed
qed simp

lemma resolve_loop_writes:
  assumes "(s, e, u) \<in> set (snd (resolve_loop scr ow hs cutoff st n i))"
  shows "\<exists>j now. resolve_attempt (rv_read scr j) ow hs cutoff st = Inr (s, e, now, u)"
  using assms
proof (induction n arbitrary: i)
  case (Suc n)
  then obtain s0 e0 now u0 where a: "resolve_attempt (rv_read scr i) ow hs cutoff st = Inr (s0, e0, now, u0)"
    by (cases "resolve_attempt (rv_read scr i) ow hs cutoff st") auto
  with Suc.prems have "(s, e, u) = (s0, e0, u0) \<or> (s, e, u) \<in> set (snd (resolve_loop scr ow hs cutoff st n (Suc i)))"
    by (auto split: write_response.splits sum.splits prod.splits)
  with a Suc.IH show ?case by auto
qed simp

lemma resolve_apply_writes:
  assumes "w \<in> set (snd (snd (resolve_apply scr cutoff st pl)))"
  shows "\<exists>ow ob hs. (ow, ob, hs) \<in> set pl \<and> hs \<noteq> [] \<and> w \<in> set (snd (resolve_owner (scr ow) ow hs cutoff st))"
  using assms
proof (induction pl)
  case (Cons p pl)
  obtain ow ob hs where p: "p = (ow, ob, hs)" by (cases p)
  with Cons.prems have "hs \<noteq> [] \<and> w \<in> set (snd (resolve_owner (scr ow) ow hs cutoff st))
      \<or> w \<in> set (snd (snd (resolve_apply scr cutoff st pl)))"
    by (auto split: if_splits prod.splits sum.splits)
  with Cons.IH p show ?case by auto
qed simp

lemma resolve_attemptD:
  assumes "resolve_attempt item ow hs cutoff st = Inr (s, e, now, u)"
  shows "\<exists>it es. item = Item it \<and> strict_state (ri_fields it) ow = Inr s \<and> item_etag it = Some e
    \<and> ri_date it = DateAt now \<and> is_ok (state_document u) \<and> cutoff \<le> now - DAY_SECONDS
    \<and> apply_holds now st hs (qs_entries s) = Inr es
    \<and> u = s\<lparr>qs_entries := es, qs_observedAt := max (qs_observedAt s) now\<rparr>"
proof -
  obtain it where it: "item = Item it"
    using assms by (cases item) (auto simp: resolve_attempt_def resolve_read_def)
  have t: "d = DateAt t" if "store_time d = Inr t" for d t
    using that by (cases d) (simp_all add: store_time_def)
  from assms it show ?thesis
    by (auto simp: resolve_attempt_def resolve_read_def bindE_Inr_iff resolve_state_def check_cutoff_def
        HOLD_MIN_AGE_SECONDS_def Let_def split: option.splits dest: t)
qed

lemma valid_charge:
  assumes "model_validate s = Inr ()" "map_of (qs_entries s) k = Some r" "rs_phase r = Dispatched"
  shows "rs_charged r = bound_amounts r"
proof -
  have "entry_valid s k r" using assms(1) map_of_mem [OF assms(2)] by (auto simp: model_validate_iff)
  with assms(3) show ?thesis by (simp add: entry_valid_def entry_charge_ok_def protected_def)
qed

lemma planned_key:
  assumes es: "apply_holds now st hs (qs_entries s) = Inr es"
    and hs: "hs = fst (classify_holds s0 cutoff)" and v: "model_validate s = Inr ()"
  shows "map_of es k = map_of (qs_entries s) k
        \<or> (\<exists>r t. map_of (qs_entries s0) k = Some r \<and> map_of (qs_entries s) k = Some r
            \<and> rs_phase r = Dispatched \<and> request_only r \<and> \<not> qs_blocked s0
            \<and> rs_dispatchedAt r = Some t \<and> t < cutoff
            \<and> map_of es k = Some (resolved_record now st r) \<and> bound_amounts r = rs_charged r)"
proof -
  let ?f = "\<lambda>k. reservation_json (the (map_of (qs_entries s0) k))"
  have docs: "\<And>k d. (k, d) \<in> set hs \<Longrightarrow> d = ?f k"
    using classify_member hs by fastforce
  note a = apply_holdsD [where f = ?f, OF es docs]
  show ?thesis
  proof (cases "k \<in> fst ` set hs")
    case True
    with a obtain r where r: "map_of (qs_entries s) k = Some r" "reservation_json r = ?f k"
      "map_of es k = Some (resolved_record now st r)" by blast
    from True hs obtain r0 where "map_of (qs_entries s0) k = Some r0" "hold_action_of s0 cutoff r0 = Resolve"
      using classify_member by fastforce
    with r(2) have "map_of (qs_entries s0) k = Some r" "hold_action_of s0 cutoff r = Resolve"
      by (simp_all add: reservation_json_inj)
    with r valid_charge [OF v r(1)] show ?thesis by (auto simp: hold_action_resolve)
  next
    case False
    with a show ?thesis by blast
  qed
qed

section \<open>Properties\<close>

text \<open>
  bootstrap only ever creates. Every document a bootstrap run sends is, under the digest an
  operator approved for exactly the plan this run observed, with no incompatible owner in it, the
  create of an owner of the cohort whose document was observed absent: the empty accounting of
  that owner, fenced at the store clock of its creation, valid and within bounds.
\<close>

theorem bootstrap_creates_only_absent:
  assumes "st \<in> set (snd (bootstrap sha source account container items scr tg approve))"
  shows "\<exists>layout now obs d ow t. observe_layout account container = Inr (layout, now)
    \<and> observe_all items (tg_owners tg) = Inr obs \<and> \<not> blocked_plan obs
    \<and> canonical_digest sha (bootstrap_plan tg source layout obs) = Inr d \<and> approve = Some d
    \<and> ow \<in> set (tg_owners tg) \<and> items ow = ItemNotFound \<and> cr_clock (scr ow) = Answer (DateAt t)
    \<and> st = fresh_state ow (cr_epoch (scr ow)) t \<and> is_ok (state_document st)"
proof -
  obtain layout now where l: "observe_layout account container = Inr (layout, now)"
    using assms by (auto simp: bootstrap_def split: sum.splits)
  obtain obs where o: "observe_all items (tg_owners tg) = Inr obs"
    using assms l by (auto simp: bootstrap_def split: sum.splits)
  have "st \<in> set (snd (approved sha (bootstrap_plan tg source layout obs) obs approve
      (\<lambda>digest. finish_view digest (bootstrap_apply scr obs))))"
    using assms l o by (simp add: bootstrap_def)
  from approved_writes [OF this] obtain d where
    d: "canonical_digest sha (bootstrap_plan tg source layout obs) = Inr d" "approve = Some d"
      "\<not> blocked_plan obs" "st \<in> set (snd (snd (bootstrap_apply scr obs)))" by auto
  from bootstrap_apply_writes [OF d(4)] obtain ow ob where
    w: "(ow, ob) \<in> set obs" "\<forall>s. ob \<noteq> Present s" "st \<in> set (snd (create_owner (scr ow) ow))" by blast
  have "ob = Absent" using w(1,2) d(3) by (cases ob) (auto simp: blocked_plan_def)
  with observe_all_member [OF o w(1)] have "ow \<in> set (tg_owners tg)" "items ow = ItemNotFound"
    by (auto dest: read_owner_absent)
  with create_owner_write [OF w(3)] l o d(1-3) show ?thesis by blast
qed

definition demo_target :: target where
  "demo_target = \<lparr>tg_endpoint = ''https://demo.documents.azure.com/'',
     tg_host = ''demo.documents.azure.com'', tg_database = ''db'', tg_owners = [demo_owner]\<rparr>"

definition demo_create :: create_script where
  "demo_create = \<lparr>cr_clock = Answer (DateAt 100), cr_epoch = replicate 32 (CHR ''a''),
     cr_create = CreateFailed, cr_readback = ItemError\<rparr>"

lemma demo_layout: "is_ok (observe_layout (Answer demo_account) (Answer (demo_container, DateAt 90000)))"
  by code_simp

theorem bootstrap_creates_only_absent_witness:
  "\<exists>ow t. ow \<in> {demo_owner} \<and> cr_clock demo_create = Answer (DateAt t)
     \<and> demo_fresh = fresh_state ow (cr_epoch demo_create) t"
proof -
  obtain layout now where l: "observe_layout (Answer demo_account) (Answer (demo_container, DateAt 90000))
      = Inr (layout, now)" using demo_layout by (auto simp: is_ok_iff)
  have lay: "has_nan layout = False"
    using l by (auto simp: observe_layout_def demo_container_def demo_account_def get_or_null_def
        container_layout_ok_def account_layout_ok_def)
  have "is_ok (state_document demo_fresh)"
    using fits_document demo_good(1) by (simp add: good_state_def)
  moreover have "fresh_state demo_owner (cr_epoch demo_create) 100 = demo_fresh"
    by (simp add: demo_fresh_def demo_create_def)
  ultimately have c: "create_owner demo_create demo_owner = (Inl (OutcomeUnknown CreateUnknown), [demo_fresh])"
    using demo_models(1) by (simp add: create_owner_def demo_create_def store_time_def Let_def)
  have "demo_fresh \<in> set (snd (bootstrap (\<lambda>_. ''d'') ''s'' (Answer demo_account)
      (Answer (demo_container, DateAt 90000)) (\<lambda>_. ItemNotFound) (\<lambda>_. demo_create) demo_target (Some ''d'')))"
    using l lay c
    by (simp add: bootstrap_def observe_all_def demo_target_def approved_def canonical_digest_def
        blocked_plan_def bootstrap_plan_def plan_header_def bootstrap_entry_def)
  from bootstrap_creates_only_absent [OF this] show ?thesis by (auto simp: demo_target_def)
qed

text \<open>
  C34: resolution settles only what was approved, and never lowers a charge. Every document a
  resolve run sends is, under the approved digest of the plan it observed, a replacement
  conditional on the ETag of a document it had just decoded for an owner of the cohort. It leaves
  the owner, the epoch, both fences, the block and every entry outside the plan as they were; each
  planned hold was, in the plan and still in that document, a request-only dispatch older than the
  cutoff, hence than a day of the store's clock, and becomes settled with the charge it had.
\<close>

theorem resolution_settles_only_planned:
  assumes "(s, e, u) \<in> set (snd (resolve_run sha source account container items scr tg approve cutoff evidence))"
  shows "\<exists>layout obs d ow s0 now j it. observe_all items (tg_owners tg) = Inr obs \<and> \<not> blocked_plan obs
    \<and> canonical_digest sha (resolve_plan tg source layout cutoff (sha evidence) (planned_holds cutoff obs)) = Inr d
    \<and> approve = Some d \<and> ow \<in> set (tg_owners tg) \<and> (ow, Present s0) \<in> set obs
    \<and> rv_read (scr ow) j = Item it \<and> strict_state (ri_fields it) ow = Inr s
    \<and> item_etag it = Some e \<and> ri_date it = DateAt now \<and> is_ok (state_document u)
    \<and> u = s\<lparr>qs_entries := qs_entries u, qs_observedAt := max (qs_observedAt s) now\<rparr>
    \<and> (\<forall>k. map_of (qs_entries u) k = map_of (qs_entries s) k
        \<or> (\<exists>r t. map_of (qs_entries s0) k = Some r \<and> map_of (qs_entries s) k = Some r
            \<and> rs_phase r = Dispatched \<and> request_only r \<and> \<not> qs_blocked s0
            \<and> rs_dispatchedAt r = Some t \<and> t < cutoff \<and> cutoff \<le> now - DAY_SECONDS
            \<and> map_of (qs_entries u) k
                = Some (resolved_record now (resolution_digest sha d (sha evidence)) r)
            \<and> bound_amounts r = rs_charged r))"
proof -
  obtain layout now0 where l: "observe_layout account container = Inr (layout, now0)"
    using assms by (auto simp: resolve_run_def split: sum.splits)
  obtain x where c: "check_cutoff cutoff now0 = Inr x"
    using assms l by (auto simp: resolve_run_def split: sum.splits)
  obtain obs where o: "observe_all items (tg_owners tg) = Inr obs"
    using assms l c by (auto simp: resolve_run_def split: sum.splits)
  let ?pl = "planned_holds cutoff obs"
  let ?plan = "resolve_plan tg source layout cutoff (sha evidence) ?pl"
  have "(s, e, u) \<in> set (snd (approved sha ?plan obs approve (\<lambda>digest. finish_view digest
      (resolve_apply scr cutoff (resolution_digest sha digest (sha evidence)) ?pl))))"
    using assms l c o by (simp add: resolve_run_def Let_def)
  from approved_writes [OF this] obtain d where
    d: "canonical_digest sha ?plan = Inr d" "approve = Some d" "\<not> blocked_plan obs"
      "(s, e, u) \<in> set (snd (snd (resolve_apply scr cutoff (resolution_digest sha d (sha evidence)) ?pl)))"
    by auto
  let ?st = "resolution_digest sha d (sha evidence)"
  from resolve_apply_writes [OF d(4)] obtain ow ob hs where
    w: "(ow, ob, hs) \<in> set ?pl" "hs \<noteq> []" "(s, e, u) \<in> set (snd (resolve_owner (scr ow) ow hs cutoff ?st))" by blast
  then obtain s0 where s0: "(ow, Present s0) \<in> set obs" "hs = fst (classify_holds s0 cutoff)"
    by (auto simp: planned_holds_def split: observed.splits)
  have ow: "ow \<in> set (tg_owners tg)" using observe_all_member [OF o s0(1)] by simp
  from resolve_loop_writes w(3) obtain j now where
    "resolve_attempt (rv_read (scr ow) j) ow hs cutoff ?st = Inr (s, e, now, u)"
    unfolding resolve_owner_def by blast
  from resolve_attemptD [OF this] obtain it es where
    at: "rv_read (scr ow) j = Item it" "strict_state (ri_fields it) ow = Inr s" "item_etag it = Some e"
      "ri_date it = DateAt now" "is_ok (state_document u)" "cutoff \<le> now - DAY_SECONDS"
    and es: "apply_holds now ?st hs (qs_entries s) = Inr es"
    and u: "u = s\<lparr>qs_entries := es, qs_observedAt := max (qs_observedAt s) now\<rparr>" by blast
  have "map_of (qs_entries u) k = map_of (qs_entries s) k
        \<or> (\<exists>r t. map_of (qs_entries s0) k = Some r \<and> map_of (qs_entries s) k = Some r
            \<and> rs_phase r = Dispatched \<and> request_only r \<and> \<not> qs_blocked s0
            \<and> rs_dispatchedAt r = Some t \<and> t < cutoff \<and> cutoff \<le> now - DAY_SECONDS
            \<and> map_of (qs_entries u) k = Some (resolved_record now ?st r)
            \<and> bound_amounts r = rs_charged r)" for k
    using planned_key [OF es s0(2) strict_stateD(1) [OF at(2)], of k] at(6) u by auto
  with l o c d(1-3) ow s0(1) at(1-5) u show ?thesis
    by (intro exI [of _ layout] exI [of _ obs] exI [of _ d] exI [of _ ow] exI [of _ s0] exI [of _ now]
        exI [of _ j] exI [of _ it]) simp
qed

text \<open>A request-only dispatch that is more than a day old at the store's clock.\<close>

definition demo_hold :: reservation where
  "demo_hold = (mk_reservation demo_key demo_digest SChat
     (demo_bounds\<lparr>bd_amounts := \<lparr>am_requests = 1, am_tokens = None, am_microUsd = None, am_compute = 0\<rparr>\<rparr>) 101)
     \<lparr>rs_phase := Dispatched, rs_dispatchedAt := Some 102\<rparr>"

definition demo_held :: quota_state where
  "demo_held = demo_fresh\<lparr>qs_observedAt := 102, qs_entries := [(demo_key, demo_hold)]\<rparr>"

definition demo_held_item :: raw_item where
  "demo_held_item = \<lparr>ri_fields = fields_of (state_json demo_held) @ [(''_etag'', JStr ''e7'')],
     ri_date = DateAt 90000\<rparr>"

definition demo_resolve :: resolve_script where
  "demo_resolve = \<lparr>rv_read = (\<lambda>_. Item demo_held_item), rv_write = (\<lambda>_. WriteError),
     rv_readback = (\<lambda>_. ItemError)\<rparr>"

definition demo_done :: quota_state where
  "demo_done = demo_held\<lparr>qs_observedAt := 90000,
     qs_entries := [(demo_key, resolved_record 90000 demo_digest demo_hold)]\<rparr>"

lemma demo_held_strict: "strict_state (ri_fields demo_held_item) demo_owner = Inr demo_held"
proof -
  have m: "model_validate demo_held = Inr ()" "is_ok (state_document demo_held)" by code_simp+
  have b: "body_only (ri_fields demo_held_item) = fields_of (state_json demo_held)"
    by (simp add: demo_held_item_def body_only_def state_json_def system_field_def)
  have j: "JObj (fields_of (state_json demo_held)) = state_json demo_held"
    by (simp add: state_json_def)
  have "document_markers (ri_fields demo_held_item)" "qs_userId demo_held = demo_owner"
    by (simp_all add: demo_held_item_def document_markers_def state_json_def demo_held_def
        demo_fresh_def fresh_state_def)
  with m show ?thesis by (simp add: strict_state_def persisted_decode_def b j)
qed

lemma demo_resolve_state:
  "resolve_state demo_held [(demo_key, reservation_json demo_hold)] 1000 90000 demo_digest = Inr demo_done"
proof -
  have "is_ok (state_document demo_done)" "check_cutoff 1000 90000 = Inr ()" by code_simp+
  moreover have "max (qs_observedAt demo_held) 90000 = 90000" by (simp add: demo_held_def)
  moreover have "apply_holds 90000 demo_digest [(demo_key, reservation_json demo_hold)] (qs_entries demo_held)
      = Inr [(demo_key, resolved_record 90000 demo_digest demo_hold)]"
    by (simp add: demo_held_def)
  moreover have "demo_held\<lparr>qs_entries := [(demo_key, resolved_record 90000 demo_digest demo_hold)],
      qs_observedAt := 90000\<rparr> = demo_done" by (simp add: demo_done_def demo_held_def)
  ultimately show ?thesis by (simp add: resolve_state_def)
qed

theorem resolution_settles_only_planned_witness:
  "\<exists>r t. map_of (qs_entries demo_held) demo_key = Some r \<and> request_only r
     \<and> rs_dispatchedAt r = Some t \<and> t < 1000
     \<and> map_of (qs_entries demo_done) demo_key = Some (resolved_record 90000 demo_digest r)"
proof -
  obtain layout now where l: "observe_layout (Answer demo_account) (Answer (demo_container, DateAt 90000))
      = Inr (layout, now)" using demo_layout by (auto simp: is_ok_iff)
  have lay: "has_nan layout = False" "now = 90000"
    using l by (auto simp: observe_layout_def demo_container_def demo_account_def get_or_null_def
        container_layout_ok_def account_layout_ok_def)
  have e: "item_etag demo_held_item = Some ''e7''"
    by (simp add: demo_held_item_def item_etag_def state_json_def)
  have cl: "fst (classify_holds demo_held 1000) = [(demo_key, reservation_json demo_hold)]"
  proof -
    have "hold_action_of demo_held 1000 demo_hold = Resolve" "rs_phase demo_hold = Dispatched" by code_simp+
    then show ?thesis by (simp add: classify_holds_def held_keys_def demo_held_def)
  qed
  have obs: "observe_all (\<lambda>_. Item demo_held_item) [demo_owner] = Inr [(demo_owner, Present demo_held)]"
    by (simp add: observe_all_def demo_held_strict)
  have nan: "has_nan (reservation_json demo_hold) = False"
    by (simp add: demo_hold_def mk_reservation_def reservation_json_def bounds_json_def amounts_json_def
        demo_bounds_def)
  have d: "resolution_digest (\<lambda>_. demo_digest) x y = demo_digest" for x y by (simp add: resolution_digest_def)
  have "resolve_attempt (Item demo_held_item) demo_owner [(demo_key, reservation_json demo_hold)] 1000 demo_digest
      = Inr (demo_held, ''e7'', 90000, demo_done)"
    by (simp add: resolve_attempt_def resolve_read_def demo_held_strict e store_time_def
        demo_resolve_state, simp add: demo_held_item_def demo_resolve_state)
  then have w: "(demo_held, ''e7'', demo_done) \<in> set (snd (resolve_owner demo_resolve demo_owner
      [(demo_key, reservation_json demo_hold)] 1000 demo_digest))"
    by (simp add: resolve_owner_def MAX_RESOLVE_ATTEMPTS_def numeral_eq_Suc demo_resolve_def)
  have "(demo_held, ''e7'', demo_done) \<in> set (snd (resolve_run (\<lambda>_. demo_digest) ''s'' (Answer demo_account)
      (Answer (demo_container, DateAt 90000)) (\<lambda>_. Item demo_held_item) (\<lambda>_. demo_resolve) demo_target
      (Some demo_digest) 1000 ''ev''))"
    using l lay w
    by (auto simp: resolve_run_def check_cutoff_def HOLD_MIN_AGE_SECONDS_def DAY_SECONDS_def
        demo_target_def obs planned_holds_def cl approved_def canonical_digest_def blocked_plan_def
        resolve_plan_def plan_header_def hold_json_def nan d split: prod.splits sum.splits)
  from resolution_settles_only_planned [OF this]
  obtain layout obs dg ow s0 now j it where
    x: "observe_all (\<lambda>_. Item demo_held_item) (tg_owners demo_target) = Inr obs" "(ow, Present s0) \<in> set obs"
      "rv_read demo_resolve j = Item it" "ri_date it = DateAt now"
    and key: "map_of (qs_entries demo_done) demo_key = map_of (qs_entries demo_held) demo_key
        \<or> (\<exists>r t. map_of (qs_entries s0) demo_key = Some r \<and> request_only r
            \<and> rs_dispatchedAt r = Some t \<and> t < 1000
            \<and> map_of (qs_entries demo_done) demo_key
                = Some (resolved_record now (resolution_digest (\<lambda>_. demo_digest) dg ((\<lambda>_. demo_digest) ''ev'')) r))"
    by blast
  have "s0 = demo_held" using x(1,2) obs by (auto simp: demo_target_def)
  moreover have "now = 90000" using x(3,4) by (auto simp: demo_resolve_def demo_held_item_def)
  moreover have "map_of (qs_entries demo_done) demo_key \<noteq> map_of (qs_entries demo_held) demo_key"
  proof -
    have "rs_phase (resolved_record 90000 demo_digest demo_hold) \<noteq> rs_phase demo_hold"
      by (simp add: resolved_record_def demo_hold_def)
    then show ?thesis by (auto simp: demo_done_def demo_held_def)
  qed
  ultimately show ?thesis using key d by auto
qed

end
