(* ===== verification/Url.thy ===== *)
theory Url
  imports Prelude
begin

text \<open>
  \<open>urllib.parse.urlsplit\<close> on printable ASCII text, as far as the code reads its result: scheme,
  user information, host name, port, path, query and fragment. \<open>bracket_ok\<close> stands for the check
  of the address between square brackets (\<open>ipaddress\<close>).
\<close>

record split_url =
  su_scheme :: string
  su_netloc :: string
  su_path :: string
  su_query :: string
  su_fragment :: string

definition printable_ascii :: "string \<Rightarrow> bool" where
  "printable_ascii s \<longleftrightarrow> list_all (\<lambda>c. 33 \<le> char_code c \<and> char_code c \<le> 126) s"

definition is_alpha :: "char \<Rightarrow> bool" where
  "is_alpha c \<longleftrightarrow> is_alnum c \<and> \<not> is_digit c"

definition scheme_char :: "char \<Rightarrow> bool" where
  "scheme_char c \<longleftrightarrow> is_alnum c \<or> c \<in> {CHR ''+'', CHR ''-'', CHR ''.''}"

text \<open>\<open>str.partition\<close> at the first separator: what is before, whether there is one, what is after.\<close>

definition partition_at :: "char \<Rightarrow> string \<Rightarrow> string \<times> bool \<times> string" where
  "partition_at c s = (takeWhile (\<lambda>x. x \<noteq> c) s, c \<in> set s, drop (Suc (length (takeWhile (\<lambda>x. x \<noteq> c) s))) s)"

text \<open>\<open>str.rpartition\<close> at the last separator.\<close>

definition rpartition_at :: "char \<Rightarrow> string \<Rightarrow> string \<times> bool \<times> string" where
  "rpartition_at c s =
     (if c \<in> set s
      then (rev (drop (Suc (length (takeWhile (\<lambda>x. x \<noteq> c) (rev s)))) (rev s)), True,
            rev (takeWhile (\<lambda>x. x \<noteq> c) (rev s)))
      else ([], False, s))"

definition split_scheme :: "string \<Rightarrow> string \<times> string" where
  "split_scheme url =
     (let (before, found, after) = partition_at (CHR '':'') url in
      if found \<and> before \<noteq> [] \<and> is_alpha (hd before) \<and> list_all scheme_char before
      then (lower before, after) else ([], url))"

definition urlsplit :: "(string \<Rightarrow> bool) \<Rightarrow> string \<Rightarrow> split_url option" where
  "urlsplit bracket_ok url =
     (let (scheme, rest) = split_scheme url;
          has_netloc = (take 2 rest = ''//'');
          delim = (\<lambda>c. c \<in> {CHR ''/'', CHR ''?'', CHR ''#''});
          netloc = (if has_netloc then takeWhile (\<lambda>c. \<not> delim c) (drop 2 rest) else []);
          rest2 = (if has_netloc then dropWhile (\<lambda>c. \<not> delim c) (drop 2 rest) else rest);
          (rest3, _, fragment) = partition_at (CHR ''#'') rest2;
          (path, _, query) = partition_at (CHR ''?'') rest3
      in if (CHR ''['' \<in> set netloc) \<noteq> (CHR '']'' \<in> set netloc) then None
         else if CHR ''['' \<in> set netloc \<and> \<not> bracket_ok netloc then None
         else Some \<lparr>su_scheme = scheme, su_netloc = netloc, su_path = path, su_query = query,
                    su_fragment = fragment\<rparr>)"

definition userinfo :: "split_url \<Rightarrow> string \<times> string" where
  "userinfo u = (let (info, found, _) = rpartition_at (CHR ''@'') (su_netloc u);
       (name, _, pass) = partition_at (CHR '':'') info
     in if found then (name, pass) else ([], []))"

definition hostport :: "split_url \<Rightarrow> string \<times> string" where
  "hostport u = (let (_, _, info) = rpartition_at (CHR ''@'') (su_netloc u);
       (_, br, bracketed) = partition_at (CHR ''['') info
     in if br then (let (host, _, rest) = partition_at (CHR '']'') bracketed;
                        (_, _, port) = partition_at (CHR '':'') rest in (host, port))
        else (let (host, _, port) = partition_at (CHR '':'') info in (host, port)))"

text \<open>\<open>Inl ()\<close>: reading the port raises \<open>ValueError\<close>.\<close>

definition port_of :: "split_url \<Rightarrow> unit + nat option" where
  "port_of u = (let p = snd (hostport u) in
     if p = [] then Inr None
     else if list_all is_digit p \<and> nat_of_digits p \<le> 65535 then Inr (Some (nat_of_digits p))
     else Inl ())"

text \<open>\<open>evidence_reference\<close> of \<open>hard_quota/rollout.py\<close>: a credential-free https reference.\<close>

definition evidence_reference :: "(string \<Rightarrow> bool) \<Rightarrow> string \<Rightarrow> bool" where
  "evidence_reference bracket_ok v \<longleftrightarrow>
     1 \<le> length v \<and> length v \<le> 1000 \<and> printable_ascii v \<and>
     (case urlsplit bracket_ok v of
        None \<Rightarrow> False
      | Some u \<Rightarrow> su_scheme u = ''https'' \<and> fst (hostport u) \<noteq> []
          \<and> fst (userinfo u) = [] \<and> snd (userinfo u) = []
          \<and> su_query u = [] \<and> su_fragment u = []
          \<and> (port_of u = Inr None \<or> port_of u = Inr (Some 443)))"

end
