(* ===== verification/Quota_Rollout.thy ===== *)
theory Quota_Rollout
  imports Quota_Cosmos Url
begin

text \<open>
  \<open>hard_quota/rollout.py\<close> and \<open>hard_quota/factory.py\<close>: the operator-authored activation record
  and what must hold before hard admission is constructed at startup.
\<close>

section \<open>The record\<close>

record rollout =
  ro_id :: string
  ro_coverageStart :: int
  ro_writerCutover :: string
  ro_bootstrap :: string
  ro_recovery :: string

definition rollout_id_ok :: "string \<Rightarrow> bool" where
  "rollout_id_ok s \<longleftrightarrow> 1 \<le> length s \<and> length s \<le> 128 \<and> is_alnum (hd s)
     \<and> list_all (\<lambda>c. is_alnum c \<or> c = CHR ''_'' \<or> c = CHR ''-'') s"

text \<open>\<open>exact_markers\<close>: \<open>True\<close> does not pass for 1, nor 1 for \<open>True\<close>.\<close>

definition exact_markers :: "(string \<times> json) list \<Rightarrow> bool" where
  "exact_markers fs \<longleftrightarrow> (case map_of fs ''protocol'' of Some (JInt i) \<Rightarrow> True | _ \<Rightarrow> False)
     \<and> map_of fs ''singleWriteRegion'' = Some (JBool True)
     \<and> map_of fs ''noCoordinationExpiry'' = Some (JBool True)"

definition rollout_fields :: "string list" where
  "rollout_fields = [''id'', ''userId'', ''kind'', ''protocol'', ''state'', ''policyVersion'', ''scope'',
     ''singleWriteRegion'', ''noCoordinationExpiry'', ''coverageStart'', ''writerCutoverEvidence'',
     ''bootstrapEvidence'', ''recoveryRetentionEvidence'']"

text \<open>
  The model's validation: the markers first, then exactly the declared fields, each literal as
  written, a count, and three evidence references.
\<close>

definition dec_reference :: "(string \<Rightarrow> bool) \<Rightarrow> json \<Rightarrow> string option" where
  "dec_reference br v = Option.bind (dec_str v) (\<lambda>s. if evidence_reference br s then Some s else None)"

definition dec_count :: "json \<Rightarrow> int option" where
  "dec_count v = Option.bind (dec_int v) (\<lambda>i. if count_ok i then Some i else None)"

definition dec_rollout_id :: "json \<Rightarrow> string option" where
  "dec_rollout_id v = Option.bind (dec_str v) (\<lambda>s. if rollout_id_ok s then Some s else None)"

definition rollout_literals :: "(string \<times> json) list \<Rightarrow> bool" where
  "rollout_literals fs \<longleftrightarrow> map_of fs ''userId'' = Some (JStr ''__ai4ia_hard_quota_control__'')
     \<and> map_of fs ''kind'' = Some (JStr ''hard_quota_rollout_v1'')
     \<and> map_of fs ''protocol'' = Some (JInt 1) \<and> map_of fs ''state'' = Some (JStr ''approved'')
     \<and> map_of fs ''policyVersion'' = Some (JStr ''rolling-dispatch-v1'')
     \<and> map_of fs ''scope'' = Some (JStr ''request_count_only'')
     \<and> map_of fs ''singleWriteRegion'' = Some (JBool True)
     \<and> map_of fs ''noCoordinationExpiry'' = Some (JBool True)"

definition rollout_validate :: "(string \<Rightarrow> bool) \<Rightarrow> (string \<times> json) list \<Rightarrow> rollout option" where
  "rollout_validate br fs =
     (if \<not> exact_markers fs \<or> \<not> has_fields rollout_fields fs \<or> \<not> rollout_literals fs then None
      else Option.bind (field fs ''id'' dec_rollout_id) (\<lambda>i.
      Option.bind (field fs ''coverageStart'' dec_count) (\<lambda>c.
      Option.bind (field fs ''writerCutoverEvidence'' (dec_reference br)) (\<lambda>w.
      Option.bind (field fs ''bootstrapEvidence'' (dec_reference br)) (\<lambda>b.
      Option.bind (field fs ''recoveryRetentionEvidence'' (dec_reference br)) (\<lambda>r.
      Some \<lparr>ro_id = i, ro_coverageStart = c, ro_writerCutover = w, ro_bootstrap = b, ro_recovery = r\<rparr>))))))"

text \<open>\<open>parse_rollout\<close>: every failure is a \<open>ValueError\<close> (or the \<open>ValidationError\<close> that is one).\<close>

definition parse_rollout ::
  "(string \<Rightarrow> bool) \<Rightarrow> (string \<times> json) list \<Rightarrow> string \<Rightarrow> int \<Rightarrow> quota_exn + rollout" where
  "parse_rollout br raw rollout_id observed_at =
     bindE (ensure (rollout_id_ok rollout_id) ValueError) (\<lambda>_.
     bindE (case rollout_validate br (body_only raw) of None \<Rightarrow> Inl ValidationError | Some r \<Rightarrow> Inr r) (\<lambda>r.
     bindE (ensure (ro_id r = rollout_id) ValueError) (\<lambda>_.
     bindE (ensure (ro_coverageStart r \<le> observed_at) ValueError) (\<lambda>_. Inr r))))"

section \<open>Activation\<close>

datatype environment = LocalEnv | OtherEnv

datatype session_store = MemoryStore | CosmosStore

record settings =
  st_hard_quota_enabled :: bool
  st_env :: environment
  st_session_store :: session_store
  st_cosmos_endpoint :: string
  st_cosmos_database :: string
  st_rollout_id :: string

datatype activation_error =
    NeedsCosmosStore | InvalidRolloutId | RolloutAbsent | RolloutUnavailable | RolloutMismatch
  | ActivationLayout | LayoutUnavailable

text \<open>What the startup constructs: the local fake without a scope, or the Cosmos store with one.\<close>

datatype binding_store = LocalBinding | CosmosBinding cosmos_store

record admission_binding =
  ab_store :: binding_store
  ab_scope :: "int option"

definition LAYOUT_REVALIDATE_SECONDS :: int where "LAYOUT_REVALIDATE_SECONDS = 60"

definition read_rollout ::
  "(string \<Rightarrow> bool) \<Rightarrow> (string \<Rightarrow> item_response) \<Rightarrow> string \<Rightarrow> activation_error + rollout" where
  "read_rollout br items rollout_id =
     (if \<not> rollout_id_ok rollout_id then Inl InvalidRolloutId
      else case items rollout_id of
        ItemNotFound \<Rightarrow> Inl RolloutAbsent
      | ItemError \<Rightarrow> Inl RolloutUnavailable
      | Item it \<Rightarrow> (case bindE (coordination_time (ri_date it)) (parse_rollout br (ri_fields it) rollout_id) of
            Inl _ \<Rightarrow> Inl RolloutMismatch
          | Inr r \<Rightarrow> Inr r))"

definition approved_binding ::
  "(string \<Rightarrow> bool) \<Rightarrow> (string \<Rightarrow> item_response) \<Rightarrow> json response \<Rightarrow> json response \<Rightarrow> string
    \<Rightarrow> activation_error + admission_binding" where
  "approved_binding br items account container rollout_id =
     bindE (read_rollout br items rollout_id) (\<lambda>r.
     case account of
       ClientError \<Rightarrow> Inl LayoutUnavailable
     | Answer a \<Rightarrow>
         if \<not> account_layout_ok a then Inl ActivationLayout
         else case container of
           ClientError \<Rightarrow> Inl LayoutUnavailable
         | Answer c \<Rightarrow>
             if \<not> container_layout_ok c then Inl ActivationLayout
             else Inr \<lparr>ab_store = CosmosBinding \<lparr>cs_layout_ttl = LAYOUT_REVALIDATE_SECONDS,
                         cs_layout_checked = None\<rparr>, ab_scope = Some (ro_coverageStart r)\<rparr>)"

text \<open>\<open>build_admission_binding\<close>; the result says whether a connection was opened.\<close>

definition build_admission_binding ::
  "(string \<Rightarrow> bool) \<Rightarrow> settings \<Rightarrow> (string \<Rightarrow> item_response) \<Rightarrow> json response \<Rightarrow> json response
    \<Rightarrow> (activation_error + admission_binding option) \<times> bool" where
  "build_admission_binding br st items account container =
     (if \<not> st_hard_quota_enabled st then (Inr None, False)
      else if st_env st = LocalEnv \<and> st_session_store st = MemoryStore
      then (Inr (Some \<lparr>ab_store = LocalBinding, ab_scope = None\<rparr>), False)
      else if st_session_store st \<noteq> CosmosStore \<or> st_cosmos_endpoint st = [] then (Inl NeedsCosmosStore, False)
      else if \<not> rollout_id_ok (st_rollout_id st) then (Inl InvalidRolloutId, False)
      else (bindE (approved_binding br items account container (st_rollout_id st)) (\<lambda>b. Inr (Some b)), True))"

section \<open>Properties\<close>

lemma bind_SomeD: "Option.bind x f = Some y \<Longrightarrow> \<exists>z. x = Some z \<and> f z = Some y"
  by (cases x) auto

lemma rollout_validateD:
  assumes "rollout_validate br fs = Some r"
  shows "rollout_literals fs" "has_fields rollout_fields fs" "map_of fs ''id'' = Some (JStr (ro_id r))"
    "map_of fs ''coverageStart'' = Some (JInt (ro_coverageStart r))" "count_ok (ro_coverageStart r)"
    "evidence_reference br (ro_writerCutover r)" "evidence_reference br (ro_bootstrap r)"
    "evidence_reference br (ro_recovery r)"
proof -
  have s: "v = JStr x" if "dec_str v = Some x" for v x using that by (cases v) auto
  have i: "v = JInt x" if "dec_int v = Some x" for v x using that by (cases v) auto
  show "rollout_literals fs" "has_fields rollout_fields fs" "map_of fs ''id'' = Some (JStr (ro_id r))"
    "map_of fs ''coverageStart'' = Some (JInt (ro_coverageStart r))" "count_ok (ro_coverageStart r)"
    "evidence_reference br (ro_writerCutover r)" "evidence_reference br (ro_bootstrap r)"
    "evidence_reference br (ro_recovery r)"
    using assms
    by (auto simp: rollout_validate_def field_def dec_rollout_id_def dec_count_def dec_reference_def
        split: if_splits dest!: bind_SomeD dest: s i)
qed

text \<open>
  Hard admission is activated only by an approved record. With the flag off nothing is built
  and no connection is opened. A Cosmos binding is built only for the Cosmos session store, from
  the one record the configuration names, found in the control partition with every approval
  marker exactly as written and credential-free https evidence, whose cutover is not after the
  store clock of its read, and after both layouts were observed to be compatible; its scope is
  that cutover. The local fake is bound only in the local environment with the memory store, and
  then without a scope.
\<close>

theorem activation_needs_approval:
  assumes "build_admission_binding br st items account container = (Inr b, connected)"
  shows "case b of
      None \<Rightarrow> \<not> st_hard_quota_enabled st \<and> \<not> connected
    | Some bd \<Rightarrow> st_hard_quota_enabled st \<and> (case ab_store bd of
        LocalBinding \<Rightarrow> st_env st = LocalEnv \<and> st_session_store st = MemoryStore
          \<and> ab_scope bd = None \<and> \<not> connected
      | CosmosBinding cs \<Rightarrow> st_session_store st = CosmosStore
          \<and> (\<exists>it now fs start. items (st_rollout_id st) = Item it \<and> ri_date it = DateAt now
              \<and> fs = body_only (ri_fields it) \<and> map_of fs ''id'' = Some (JStr (st_rollout_id st))
              \<and> rollout_literals fs \<and> has_fields rollout_fields fs
              \<and> map_of fs ''coverageStart'' = Some (JInt start) \<and> count_ok start \<and> start \<le> now
              \<and> ab_scope bd = Some start \<and> mk_scope start = Inr start)
          \<and> (\<exists>a c. account = Answer a \<and> container = Answer c
              \<and> account_layout_ok a \<and> container_layout_ok c)
          \<and> new_cosmos_store LAYOUT_REVALIDATE_SECONDS = Inr cs)"
proof (cases b)
  case None
  then show ?thesis using assms
    by (auto simp: build_admission_binding_def bindE_Inr_iff split: if_splits)
next
  case (Some bd)
  show ?thesis
  proof (cases "ab_store bd")
    case LocalBinding
    then show ?thesis using assms Some
      by (cases account; cases container)
        (auto simp: build_admission_binding_def bindE_Inr_iff approved_binding_def split: if_splits)
  next
    case (CosmosBinding cs)
    then have g: "st_hard_quota_enabled st" "st_session_store st = CosmosStore"
      and ab: "approved_binding br items account container (st_rollout_id st) = Inr bd"
      using assms Some by (auto simp: build_admission_binding_def bindE_Inr_iff split: if_splits)
    from ab obtain r where r: "read_rollout br items (st_rollout_id st) = Inr r"
      by (auto simp: approved_binding_def bindE_Inr_iff)
    with ab CosmosBinding have lay: "\<exists>a c. account = Answer a \<and> container = Answer c
        \<and> account_layout_ok a \<and> container_layout_ok c"
      and bd: "ab_scope bd = Some (ro_coverageStart r)"
        "cs = \<lparr>cs_layout_ttl = LAYOUT_REVALIDATE_SECONDS, cs_layout_checked = None\<rparr>"
      by (auto simp: approved_binding_def split: response.splits if_splits)
    from r obtain it where it: "items (st_rollout_id st) = Item it"
      "bindE (coordination_time (ri_date it)) (parse_rollout br (ri_fields it) (st_rollout_id st)) = Inr r"
      by (auto simp: read_rollout_def split: if_splits item_response.splits sum.splits)
    then obtain now where now: "ri_date it = DateAt now"
      "parse_rollout br (ri_fields it) (st_rollout_id st) now = Inr r"
      by (cases "ri_date it") auto
    then have v: "rollout_validate br (body_only (ri_fields it)) = Some r"
      "ro_id r = st_rollout_id st" "ro_coverageStart r \<le> now"
      by (auto simp: parse_rollout_def bindE_Inr_iff split: option.splits)
    show ?thesis
      using Some CosmosBinding g lay bd it(1) now(1) v(2,3) rollout_validateD [OF v(1)]
      by (auto simp: mk_scope_def new_cosmos_store_def LAYOUT_REVALIDATE_SECONDS_def
          MAX_LAYOUT_TTL_SECONDS_def)
  qed
qed

definition demo_rollout_item :: raw_item where
  "demo_rollout_item = \<lparr>ri_fields = [(''id'', JStr ''r1''), (''userId'', JStr ''__ai4ia_hard_quota_control__''),
     (''kind'', JStr ''hard_quota_rollout_v1''), (''protocol'', JInt 1), (''state'', JStr ''approved''),
     (''policyVersion'', JStr ''rolling-dispatch-v1''), (''scope'', JStr ''request_count_only''),
     (''singleWriteRegion'', JBool True), (''noCoordinationExpiry'', JBool True),
     (''coverageStart'', JInt 400), (''writerCutoverEvidence'', JStr ''https://e.example/a''),
     (''bootstrapEvidence'', JStr ''https://e.example/b''),
     (''recoveryRetentionEvidence'', JStr ''https://e.example:443/c''), (''_etag'', JStr ''x'')],
     ri_date = DateAt 500\<rparr>"

definition demo_settings :: settings where
  "demo_settings = \<lparr>st_hard_quota_enabled = True, st_env = OtherEnv, st_session_store = CosmosStore,
     st_cosmos_endpoint = ''https://demo.documents.azure.com/'', st_cosmos_database = ''db'',
     st_rollout_id = ''r1''\<rparr>"

theorem activation_needs_approval_witness:
  "\<exists>bd. build_admission_binding (\<lambda>_. False) demo_settings (\<lambda>_. Item demo_rollout_item)
        (Answer demo_account) (Answer demo_container) = (Inr (Some bd), True)
     \<and> ab_scope bd = Some 400 \<and> mk_scope 400 = Inr 400"
proof -
  have "build_admission_binding (\<lambda>_. False) demo_settings (\<lambda>_. Item demo_rollout_item)
        (Answer demo_account) (Answer demo_container)
      = (Inr (Some \<lparr>ab_store = CosmosBinding \<lparr>cs_layout_ttl = 60, cs_layout_checked = None\<rparr>,
           ab_scope = Some 400\<rparr>), True)"
    by code_simp
  from activation_needs_approval [OF this] this show ?thesis by auto
qed

end
