(* ===== verification/Quota_Window.thy ===== *)
theory Quota_Window
  imports Quota_Ops
begin

text \<open>
  What admission guarantees over time. A ledger history is a run of atomic passes on one owner's
  document together with the log of the dispatches it granted. Over every history: an operation
  identity is granted at most one dispatch, for ever, and no minute contains more dispatches than
  the requests-per-minute cap, however reservations, expiries, settlements, releases and pruning
  interleave.
\<close>

section \<open>Histories\<close>

type_synonym dispatch_log = "(string \<times> int) list"

fun dispatch_events :: "request \<Rightarrow> reply \<Rightarrow> dispatch_log" where
  "dispatch_events (RDispatch res) (Record r) =
     [(rs_operationId r, case rs_dispatchedAt r of None \<Rightarrow> 0 | Some t \<Rightarrow> t)]"
| "dispatch_events req rep = []"

text \<open>
  With a \<open>cap\<close>, every reservation is asked for under a minute cap no larger than it; without
  one, nothing is asked of the requests.
\<close>

fun capped :: "int option \<Rightarrow> request \<Rightarrow> bool" where
  "capped (Some cap) (RReserve key dg sf bd lims) =
     (case lim_requestsPerMinute lims of None \<Rightarrow> False | Some c \<Rightarrow> c \<le> cap)"
| "capped cap _ = True"

definition upto_cap :: "int option \<Rightarrow> nat \<Rightarrow> bool" where
  "upto_cap cap n \<longleftrightarrow> (case cap of None \<Rightarrow> True | Some c \<Rightarrow> int n \<le> c)"

lemma upto_cap_le: "upto_cap cap n \<Longrightarrow> m \<le> n \<Longrightarrow> upto_cap cap m"
  by (auto simp: upto_cap_def split: option.splits)

inductive ledger :: "int option \<Rightarrow> string \<Rightarrow> int option \<Rightarrow> quota_state \<Rightarrow> dispatch_log \<Rightarrow> bool"
  for scope ow cap where
  bootstrap: "1 \<le> length ow \<Longrightarrow> length ow \<le> 128 \<Longrightarrow> is_hex 32 ep \<Longrightarrow> count_ok now \<Longrightarrow>
     ledger scope ow cap (fresh_state ow ep now) []"
| commit: "ledger scope ow cap s log \<Longrightarrow>
     attempt scope ow \<lparr>sn_state = s, sn_etag = etag, sn_now = now\<rparr> (change_of scope req) = Inr (s', rep) \<Longrightarrow>
     wf_request req \<Longrightarrow> count_ok now \<Longrightarrow> capped cap req \<Longrightarrow>
     ledger scope ow cap s' (log @ dispatch_events req rep)"

lemma ledger_good: "ledger scope ow cap s log \<Longrightarrow> good_state s \<and> qs_userId s = ow"
proof (induction rule: ledger.induct)
  case (bootstrap ep now)
  then have "good_state (fresh_state ow ep now)"
    using fresh_valid fresh_fits by (simp add: good_state_def)
  then show ?case by (simp add: fresh_state_def)
next
  case (commit s log etag now req s' rep)
  then show ?case using attempt_keeps [OF commit.hyps(2)] by simp
qed

section \<open>The invariant\<close>

text \<open>
  \<open>m\<close> is the document's map of entries. A logged dispatch is still on file with its time, or it
  was pruned: then its identity is below the replay floor and it left the minute window.
\<close>

definition on_file :: "(string \<rightharpoonup> reservation) \<Rightarrow> int \<Rightarrow> int \<Rightarrow> string \<Rightarrow> int \<Rightarrow> bool" where
  "on_file m floor obs k d \<longleftrightarrow> d \<le> obs \<and> (case m k of
     Some r \<Rightarrow> rs_dispatchedAt r = Some d
   | None \<Rightarrow> issued_of k < floor \<and> d < obs - MINUTE_SECONDS)"

definition recent :: "int \<Rightarrow> dispatch_log \<Rightarrow> string set" where
  "recent t log = {k. \<exists>d. (k, d) \<in> set log \<and> t \<le> d}"

definition within :: "int \<Rightarrow> dispatch_log \<Rightarrow> string set" where
  "within t log = {k. \<exists>d. (k, d) \<in> set log \<and> t \<le> d \<and> d \<le> t + MINUTE_SECONDS}"

definition reserved_keys :: "(string \<rightharpoonup> reservation) \<Rightarrow> string set" where
  "reserved_keys m = {k. \<exists>r. m k = Some r \<and> rs_phase r = Reserved}"

text \<open>What may still be, or has just been, dispatched.\<close>

definition pending :: "(string \<rightharpoonup> reservation) \<Rightarrow> int \<Rightarrow> dispatch_log \<Rightarrow> string set" where
  "pending m obs log = recent (obs - MINUTE_SECONDS) log \<union> reserved_keys m"

definition window_inv :: "int option \<Rightarrow> (string \<rightharpoonup> reservation) \<Rightarrow> int \<Rightarrow> int \<Rightarrow> dispatch_log \<Rightarrow> bool" where
  "window_inv cap m floor obs log \<longleftrightarrow>
     (\<forall>k d. (k, d) \<in> set log \<longrightarrow> on_file m floor obs k d)
   \<and> distinct (map fst log)
   \<and> (\<forall>t. upto_cap cap (card (within t log)))
   \<and> upto_cap cap (card (pending m obs log))"

lemma window_invD:
  assumes "window_inv cap m floor obs log"
  shows "(k, d) \<in> set log \<Longrightarrow> on_file m floor obs k d"
    "distinct (map fst log)" "upto_cap cap (card (within t log))"
    "upto_cap cap (card (pending m obs log))"
  using assms by (auto simp: window_inv_def)

lemma window_invI:
  "(\<And>k d. (k, d) \<in> set log \<Longrightarrow> on_file m floor obs k d) \<Longrightarrow> distinct (map fst log)
     \<Longrightarrow> (\<And>t. upto_cap cap (card (within t log))) \<Longrightarrow> upto_cap cap (card (pending m obs log))
     \<Longrightarrow> window_inv cap m floor obs log"
  by (simp add: window_inv_def)

lemma finite_recent [simp]: "finite (recent t log)"
  by (rule finite_subset [of _ "fst ` set log"]) (force simp: recent_def)+

lemma finite_reserved [simp]: "finite (dom m) \<Longrightarrow> finite (reserved_keys m)"
  by (rule finite_subset [of _ "dom m"]) (auto simp: reserved_keys_def)

lemma finite_pending [simp]: "finite (dom m) \<Longrightarrow> finite (pending m obs log)"
  by (simp add: pending_def)

lemma card_le_cap: "upto_cap cap (card B) \<Longrightarrow> A \<subseteq> B \<Longrightarrow> finite B \<Longrightarrow> upto_cap cap (card A)"
  using upto_cap_le [of cap "card B" "card A"] card_mono [of B A] by simp

text \<open>Steps that grant nothing: entries may leave, expire or be finished, the clock moves on.\<close>

lemma window_inv_quiet:
  assumes i: "window_inv cap m floor obs log" and fin: "finite (dom m)" and o: "obs \<le> obs'"
    and f: "\<And>k d. (k, d) \<in> set log \<Longrightarrow> on_file m floor obs k d \<Longrightarrow> on_file m' floor' obs' k d"
    and res: "reserved_keys m' \<subseteq> reserved_keys m"
  shows "window_inv cap m' floor' obs' log"
proof (rule window_invI)
  show "on_file m' floor' obs' k d" if "(k, d) \<in> set log" for k d
    using f [OF that] window_invD(1) [OF i that] by blast
  have "recent (obs' - MINUTE_SECONDS) log \<subseteq> recent (obs - MINUTE_SECONDS) log"
    using o by (fastforce simp: recent_def)
  then have "pending m' obs' log \<subseteq> pending m obs log"
    using res by (auto simp: pending_def)
  then show "upto_cap cap (card (pending m' obs' log))"
    using card_le_cap [OF window_invD(4) [OF i]] fin by simp
qed (use window_invD(2,3) [OF i] in auto)

text \<open>An identity that is not on file, or on file undispatched, was never granted a dispatch.\<close>

lemma never_granted:
  assumes i: "window_inv cap m floor obs log"
    and k: "case m k of None \<Rightarrow> floor \<le> issued_of k | Some r \<Rightarrow> rs_dispatchedAt r = None"
  shows "(k, d) \<notin> set log"
proof
  assume "(k, d) \<in> set log"
  from window_invD(1) [OF i this] k show False
    by (cases "m k") (simp_all add: on_file_def)
qed

lemma within_snoc:
  "within t (log @ [(k, d)]) =
     (if t \<le> d \<and> d \<le> t + MINUTE_SECONDS then insert k (within t log) else within t log)"
  by (auto simp: within_def)

lemma recent_snoc: "t \<le> d \<Longrightarrow> recent t (log @ [(k, d)]) = insert k (recent t log)"
  by (auto simp: recent_def)

text \<open>Granting a dispatch moves one reserved identity into the log.\<close>

lemma window_inv_dispatch:
  assumes i: "window_inv cap m floor obs log" and fin: "finite (dom m)"
    and k: "m k = Some r0" "rs_phase r0 = Reserved" "rs_dispatchedAt r0 = None"
    and r: "rs_phase r \<noteq> Reserved" "rs_dispatchedAt r = Some obs"
  shows "window_inv cap (m(k \<mapsto> r)) floor obs (log @ [(k, obs)])"
proof (rule window_invI)
  have new: "(k, d) \<notin> set log" for d using never_granted [OF i, of k] k by simp
  have pk: "k \<in> pending m obs log" using k by (auto simp: reserved_keys_def pending_def)
  note card = card_le_cap [OF window_invD(4) [OF i] _ finite_pending [OF fin]]
  show "on_file (m(k \<mapsto> r)) floor obs k' d" if "(k', d) \<in> set (log @ [(k, obs)])" for k' d
  proof (cases "k' = k")
    case True
    with that new have "d = obs" by auto
    with True r show ?thesis by (simp add: on_file_def)
  next
    case False
    with that have "(k', d) \<in> set log" by simp
    from window_invD(1) [OF i this] False show ?thesis by (simp add: on_file_def)
  qed
  have "k \<notin> fst ` set log" using new by auto
  then show "distinct (map fst (log @ [(k, obs)]))" using window_invD(2) [OF i] by simp
  show "upto_cap cap (card (within t (log @ [(k, obs)])))" for t
  proof (cases "t \<le> obs \<and> obs \<le> t + MINUTE_SECONDS")
    case True
    then have "obs - MINUTE_SECONDS \<le> t" by simp
    then have "within t log \<subseteq> pending m obs log"
      by (fastforce simp: within_def recent_def pending_def)
    then show ?thesis using True pk card by (simp add: within_snoc)
  next
    case False
    then have "within t (log @ [(k, obs)]) = within t log" unfolding within_snoc by (rule if_not_P)
    then show ?thesis using window_invD(3) [OF i] by simp
  qed
  have "reserved_keys (m(k \<mapsto> r)) \<subseteq> reserved_keys m"
    using r by (auto simp: reserved_keys_def split: if_splits)
  then have "pending (m(k \<mapsto> r)) obs (log @ [(k, obs)]) \<subseteq> pending m obs log"
    using pk by (auto simp: pending_def recent_snoc MINUTE_SECONDS_def)
  then show "upto_cap cap (card (pending (m(k \<mapsto> r)) obs (log @ [(k, obs)])))" by (rule card)
qed

text \<open>A new reservation is admitted only when everything that may count leaves it room.\<close>

lemma window_inv_reserve:
  assumes i: "window_inv cap m floor obs log" and fin: "finite (dom m)"
    and k: "m k = None" "floor \<le> issued_of k"
    and room: "upto_cap cap (Suc (card (pending m obs log)))"
    and r: "rs_dispatchedAt r = None"
  shows "window_inv cap (m(k \<mapsto> r)) floor obs log"
proof (rule window_invI)
  have new: "(k, d) \<notin> set log" for d using never_granted [OF i, of k] k by simp
  show "on_file (m(k \<mapsto> r)) floor obs k' d" if "(k', d) \<in> set log" for k' d
  proof -
    from that new have "k' \<noteq> k" by blast
    with window_invD(1) [OF i that] show ?thesis by (simp add: on_file_def)
  qed
  have "pending (m(k \<mapsto> r)) obs log \<subseteq> insert k (pending m obs log)"
    by (auto simp: pending_def reserved_keys_def split: if_splits)
  moreover have "upto_cap cap (card (insert k (pending m obs log)))"
    using room upto_cap_le [OF room] fin by (simp add: card_insert_if)
  ultimately show "upto_cap cap (card (pending (m(k \<mapsto> r)) obs log))"
    using card_le_cap [of cap "insert k (pending m obs log)"] fin by simp
qed (use window_invD(2,3) [OF i] in auto)

section \<open>Counting what the check counts\<close>

lemma sum_list_indicator:
  "sum_list (map (\<lambda>r. if P r then 1 else (0::int)) rs) = int (length (filter P rs))"
  by (induction rs) auto

definition live_count :: "int \<Rightarrow> reservation \<Rightarrow> bool" where
  "live_count now r \<longleftrightarrow> rs_phase r \<noteq> Released \<and> counts None now MINUTE_SECONDS r"

lemma charged_requests:
  assumes "valid_state s" "r \<in> snd ` set (qs_entries s)"
  shows "am_requests (rs_charged r) = (if rs_phase r \<noteq> Released then 1 else 0)"
  using assms valid_stateD(4) by (force simp: entry_valid_def entry_shape_ok_def Let_def)

lemma used_requests:
  assumes v: "valid_state s"
  shows "used_total DRequests MINUTE_SECONDS now None (map snd (qs_entries s))
       = int (length (filter (live_count now) (map snd (qs_entries s))))"
proof -
  let ?rs = "map snd (qs_entries s)" and ?c = "counts None now MINUTE_SECONDS"
  have "used_total DRequests MINUTE_SECONDS now None ?rs
      = sum_list (map (\<lambda>r. if rs_phase r \<noteq> Released then 1 else 0) (filter ?c ?rs))"
    unfolding used_total_def
    by (intro arg_cong [where f = sum_list] map_cong refl) (use charged_requests [OF v] in auto)
  also have "\<dots> = int (length (filter (\<lambda>r. rs_phase r \<noteq> Released) (filter ?c ?rs)))"
    by (rule sum_list_indicator)
  also have "filter (\<lambda>r. rs_phase r \<noteq> Released) (filter ?c ?rs) = filter (live_count now) ?rs"
    unfolding filter_filter by (rule filter_cong) (auto simp: live_count_def)
  finally show ?thesis .
qed

lemma length_filter_keys:
  assumes "distinct (map fst d)"
  shows "length (filter P (map snd d)) = card {k. \<exists>r. map_of d k = Some r \<and> P r}"
  using assms
proof (induction d)
  case (Cons p d)
  obtain k r where p: "p = (k, r)" by (cases p)
  let ?S = "{k. \<exists>r. map_of d k = Some r \<and> P r}"
  have k: "map_of d k = None" using Cons.prems p by (simp add: map_of_eq_None_iff)
  have "finite ?S" by (rule finite_subset [of _ "dom (map_of d)"]) (auto simp: finite_dom_map_of)
  moreover have "k \<notin> ?S" using k by simp
  moreover have "{k'. \<exists>r'. map_of (p # d) k' = Some r' \<and> P r'} = (if P r then insert k ?S else ?S)"
    using k p by auto
  moreover have "length (filter P (map snd d)) = card ?S" using Cons by simp
  ultimately show ?case using p by (simp only: list.map snd_conv filter.simps) simp
qed simp

section \<open>Every pass keeps the invariant\<close>

definition state_inv :: "int option \<Rightarrow> quota_state \<Rightarrow> dispatch_log \<Rightarrow> bool" where
  "state_inv cap s log \<longleftrightarrow>
     window_inv cap (map_of (qs_entries s)) (qs_replayFloor s) (qs_observedAt s) log"

lemma map_of_map_filter:
  assumes "distinct (map fst d)"
  shows "map_of (map (\<lambda>(k, r). (k, f r)) (filter P d)) k =
     (case map_of d k of None \<Rightarrow> None | Some r \<Rightarrow> if P (k, r) then Some (f r) else None)"
  using assms
proof (induction d)
  case (Cons p d)
  obtain k' r where p: "p = (k', r)" by (cases p)
  have "map_of d k' = None" using Cons.prems p by (simp add: map_of_eq_None_iff)
  with Cons p show ?case by (cases "k = k'") auto
qed simp

lemma reconciled_lookup:
  assumes "valid_state s"
  shows "map_of (qs_entries (reconciled scope s now)) k =
    (case map_of (qs_entries s) k of None \<Rightarrow> None
     | Some r \<Rightarrow> if prunable scope now (new_floor scope s now) (issued_of k) (expire now r) then None
                else Some (expire now r))"
  using map_of_map_filter valid_stateD(3) [OF assms]
  by (simp add: reconciled_def dict_ok_def map_of_map_filter split: option.splits)

lemma retention_minute: "MINUTE_SECONDS \<le> retention scope r"
  by (simp add: retention_def window_seconds)

lemma reconciled_inv:
  assumes v: "valid_state s" and o: "qs_observedAt s \<le> now" and i: "state_inv cap s log"
  shows "state_inv cap (reconciled scope s now) log"
  unfolding state_inv_def
proof (rule window_inv_quiet [OF i [unfolded state_inv_def]])
  let ?m = "map_of (qs_entries s)" and ?m' = "map_of (qs_entries (reconciled scope s now))"
  let ?fl = "new_floor scope s now"
  show "finite (dom ?m)" by (rule finite_dom_map_of)
  show "qs_observedAt s \<le> qs_observedAt (reconciled scope s now)" using o by (simp add: reconciled_def)
  show "reserved_keys ?m' \<subseteq> reserved_keys ?m"
    by (auto simp: reserved_keys_def reconciled_lookup [OF v] expire_phase split: option.splits if_splits)
  fix k d
  assume "(k, d) \<in> set log" and f: "on_file ?m (qs_replayFloor s) (qs_observedAt s) k d"
  have fl: "qs_replayFloor s \<le> ?fl" by (simp add: new_floor_def)
  show "on_file ?m' (qs_replayFloor (reconciled scope s now)) (qs_observedAt (reconciled scope s now)) k d"
  proof (cases "?m k")
    case None
    then show ?thesis using f o fl by (auto simp: on_file_def reconciled_lookup [OF v])
  next
    case (Some r)
    with f have d: "rs_dispatchedAt r = Some d" "d \<le> qs_observedAt s" by (auto simp: on_file_def)
    show ?thesis
    proof (cases "prunable scope now ?fl (issued_of k) (expire now r)")
      case False
      then show ?thesis using Some d o by (simp add: on_file_def reconciled_lookup [OF v])
    next
      case True
      have "entry_valid s k r" using valid_lookup [OF v Some] by simp
      then have p: "rs_phase r \<noteq> Reserved" and t: "\<And>t. rs_settledAt r = Some t \<Longrightarrow> d \<le> t"
        using d by (auto simp: entry_valid_def entry_phase_ok_def entry_time_ok_def)
      from True expire_not_reserved [OF p] obtain t where
        "issued_of k < ?fl" "rs_settledAt r = Some t" "t < now - retention scope r"
        by (auto simp: prunable_def split: option.splits)
      with t retention_minute [of scope r] have "d < now - MINUTE_SECONDS" by fastforce
      then show ?thesis
        using Some True d o \<open>issued_of k < ?fl\<close>
        by (simp add: on_file_def reconciled_lookup [OF v])
    qed
  qed
qed

text \<open>The room the check leaves is counted over everything that is pending.\<close>

lemma pending_counted:
  assumes v: "valid_state s" and i: "state_inv cap s log" and o: "qs_observedAt s = now"
  shows "int (card (pending (map_of (qs_entries s)) now log))
    \<le> used_total DRequests MINUTE_SECONDS now None (map snd (qs_entries s))"
proof -
  let ?m = "map_of (qs_entries s)"
  let ?live = "{k. \<exists>r. ?m k = Some r \<and> live_count now r}"
  have "k \<in> ?live" if k: "k \<in> recent (now - MINUTE_SECONDS) log" for k
  proof -
    from k obtain d where d: "(k, d) \<in> set log" "now - MINUTE_SECONDS \<le> d" by (auto simp: recent_def)
    have "on_file ?m (qs_replayFloor s) now k d"
      using window_invD(1) [OF i [unfolded state_inv_def] d(1)] o by simp
    with d(2) obtain r where r: "?m k = Some r" "rs_dispatchedAt r = Some d"
      by (auto simp: on_file_def split: option.splits)
    have e: "entry_phase_ok r" "entry_time_ok s r"
      using valid_lookup(1) [OF v r(1)] by (auto simp: entry_valid_def)
    have "live_count now r"
    proof (cases "protected r")
      case True
      then show ?thesis by (auto simp: live_count_def counts_def protected_def)
    next
      case False
      with e(1) r(2) have "rs_phase r = Settled"
        by (cases "rs_phase r") (auto simp: protected_def entry_phase_ok_def)
      with e r(2) d(2) show ?thesis
        by (auto simp: live_count_def counts_def entry_phase_ok_def entry_time_ok_def)
    qed
    with r show ?thesis by blast
  qed
  moreover have "reserved_keys ?m \<subseteq> ?live"
    by (auto simp: reserved_keys_def live_count_def counts_def protected_def)
  ultimately have "pending ?m now log \<subseteq> ?live" by (auto simp: pending_def)
  moreover have "finite ?live"
    by (rule finite_subset [of _ "dom ?m"]) (auto simp: finite_dom_map_of)
  ultimately have "card (pending ?m now log) \<le> card ?live" by (intro card_mono)
  also have "card ?live = length (filter (live_count now) (map snd (qs_entries s)))"
    using valid_stateD(3) [OF v] by (intro length_filter_keys [symmetric]) (simp add: dict_ok_def)
  finally show ?thesis using used_requests [OF v] by simp
qed

lemma reserve_room:
  assumes v: "valid_state s" and i: "state_inv cap s log" and o: "qs_observedAt s = now"
    and one: "am_requests a = 1" and cp: "capped cap (RReserve key dg sf bd lims)"
    and chk: "check_quota_limits scope s a lims now None = Inr ()"
  shows "upto_cap cap (Suc (card (pending (map_of (qs_entries s)) now log)))"
proof (cases cap)
  case (Some cap')
  then obtain c where c: "lim_requestsPerMinute lims = Some c" "c \<le> cap'"
    using cp by (auto split: option.splits)
  have "(RequestsPerMinute, DRequests, MINUTE_SECONDS) \<in> set WINDOWS" by (simp add: WINDOWS_def)
  from check_limits_windows [OF chk this] c(1) one
  have "used_total DRequests MINUTE_SECONDS now None (map snd (qs_entries s)) + 1 \<le> c"
    by (simp add: window_admits_def)
  with pending_counted [OF v i o] c(2) Some show ?thesis by (simp add: upto_cap_def)
qed (simp add: upto_cap_def)

text \<open>Writing back a record that was on file and stays as dispatched as it was.\<close>

lemma put_quiet_inv:
  assumes i: "state_inv cap s log" and m: "map_of (qs_entries s) k = Some r0"
    and r: "rs_operationId r = k" "rs_dispatchedAt r = rs_dispatchedAt r0" "rs_phase r \<noteq> Reserved"
    and s': "qs_entries s' = qs_entries (put_entry s r)" "qs_replayFloor s' = qs_replayFloor s"
      "qs_observedAt s' = qs_observedAt s"
  shows "state_inv cap s' log"
  unfolding state_inv_def s'
proof (rule window_inv_quiet [OF i [unfolded state_inv_def]])
  show "reserved_keys (map_of (qs_entries (put_entry s r))) \<subseteq> reserved_keys (map_of (qs_entries s))"
    using r by (auto simp: map_of_update reserved_keys_def split: if_splits)
  show "on_file (map_of (qs_entries (put_entry s r))) (qs_replayFloor s) (qs_observedAt s) k' d"
    if "on_file (map_of (qs_entries s)) (qs_replayFloor s) (qs_observedAt s) k' d" for k' d
    using that m r by (auto simp: map_of_update on_file_def)
qed (simp_all add: finite_dom_map_of)

lemma change_inv:
  assumes rdy: "ready s now" and i: "state_inv cap s log" and cp: "capped cap req"
    and c: "change_of scope req s now = Inr (s', rep)"
  shows "state_inv cap s' (log @ dispatch_events req rep)"
proof (cases req)
  case (RReserve key dg sf bd lims)
  with c obtain r where r: "reserve_change scope key dg sf bd lims s now = Inr (s', r)" by auto
  from r have g: "reserve_guards scope key sf bd lims s now = Inr ()"
    by (auto simp: reserve_change_def bindE_Inr_iff)
  show ?thesis
  proof (cases "map_of (qs_entries s) key")
    case None
    obtain ep iss where iss: "parse_operation_id key = Inr (ep, iss)" "qs_replayFloor s \<le> iss"
      using reserve_guardsD(1) [OF g] by blast
    from r g None have s': "s' = put_entry s (mk_reservation key dg sf bd now)"
      and chk: "check_quota_limits scope s (bd_amounts bd) lims now None = Inr ()"
      by (auto simp: reserve_change_def reserve_new_def bindE_Inr_iff Let_def)
    have "state_inv cap s' log"
      unfolding state_inv_def s' put_entry_fields map_of_update
      using window_inv_reserve [OF i [unfolded state_inv_def] finite_dom_map_of None] iss
        reserve_room [OF readyD(1) [OF rdy] i readyD(2) [OF rdy] reserve_guardsD(2) [OF g]
          cp [unfolded RReserve] chk]
        readyD(2) [OF rdy]
      by (simp add: issued_of_def)
    then show ?thesis using RReserve by simp
  next
    case (Some prior)
    then have "s' = s"
      using r g by (auto simp: reserve_change_def reserve_again_def bindE_Inr_iff split: if_splits)
    then show ?thesis using i RReserve by simp
  qed
next
  case (RDispatch res)
  with c obtain r where d: "dispatch_change res s now = Inr (s', r)" and rep: "rep = Record r" by auto
  from d obtain r0 where r0: "owned_record s res = Inr r0" "rs_phase r0 = Reserved"
    and s': "s' = put_entry s r" "r = r0\<lparr>rs_phase := Dispatched, rs_dispatchedAt := Some now\<rparr>"
    by (auto simp: dispatch_change_def bindE_Inr_iff Let_def)
  note m = owned_recordD(1) [OF r0(1)] and o = readyD(2) [OF rdy]
  note e = valid_lookup [OF readyD(1) [OF rdy] m]
  have "rs_dispatchedAt r0 = None" using e(1) r0(2) by (auto simp: entry_valid_def entry_phase_ok_def)
  then show ?thesis
    using window_inv_dispatch [OF i [unfolded state_inv_def] finite_dom_map_of m r0(2), of r] e(3) o
    by (simp add: state_inv_def s' map_of_update RDispatch rep)
next
  case (RSettle res out actual st)
  with c obtain r where d: "settle_change scope res out actual st s now = Inr (s', r)" by auto
  from d obtain r0 where r0: "owned_record s res = Inr r0"
    and cs: "s' = s \<or> rs_phase r0 = Dispatched \<and> settled_record scope out actual st now r0 = Inr r
      \<and> s' = (put_entry s r)\<lparr>qs_blocked := qs_blocked s \<or> exceeds_bound r\<rparr>"
    by (auto simp: settle_change_def bindE_Inr_iff Let_def split: option.splits if_splits)
  note m = owned_recordD(1) [OF r0]
  note e = valid_lookup(3) [OF readyD(1) [OF rdy] m]
  from cs show ?thesis
  proof (elim disjE conjE)
    assume st: "settled_record scope out actual st now r0 = Inr r"
      and s': "s' = (put_entry s r)\<lparr>qs_blocked := qs_blocked s \<or> exceeds_bound r\<rparr>"
    note sr = settled_recordD [OF st]
    have rk: "rs_operationId r = rs_operationId res" "rs_phase r \<noteq> Reserved" using sr(1,11) e by auto
    have "state_inv cap s' log" by (rule put_quiet_inv [OF i m rk(1) sr(7) rk(2)]) (simp_all add: s')
    then show ?thesis by (simp add: RSettle)
  qed (use i RSettle in simp)
next
  case (RRelease res)
  with c obtain r where d: "release_change res s now = Inr (s', r)" by auto
  from d obtain r0 where r0: "owned_record s res = Inr r0"
    and cs: "s' = s \<or> rs_phase r0 = Reserved \<and> s' = put_entry s r
      \<and> r = r0\<lparr>rs_phase := Released, rs_settledAt := Some now, rs_charged := zero_amounts\<rparr>"
    by (auto simp: release_change_def bindE_Inr_iff Let_def split: if_splits)
  note m = owned_recordD(1) [OF r0]
  note e = valid_lookup(3) [OF readyD(1) [OF rdy] m]
  from cs show ?thesis
  proof (elim disjE conjE)
    assume s': "s' = put_entry s r"
      "r = r0\<lparr>rs_phase := Released, rs_settledAt := Some now, rs_charged := zero_amounts\<rparr>"
    have rk: "rs_operationId r = rs_operationId res" "rs_dispatchedAt r = rs_dispatchedAt r0"
      "rs_phase r \<noteq> Reserved" using s'(2) e by auto
    have "state_inv cap s' log" by (rule put_quiet_inv [OF i m rk]) (simp_all only: s'(1) put_entry_fields)
    then show ?thesis by (simp add: RRelease)
  qed (use i RRelease in simp)
next
  case RReconcile
  then show ?thesis using c i by simp
qed

lemma fresh_inv: "upto_cap cap 0 \<Longrightarrow> state_inv cap (fresh_state ow ep now) []"
  by (auto simp: state_inv_def window_inv_def fresh_state_def within_def pending_def recent_def
      reserved_keys_def)

lemma ledger_inv:
  "ledger scope ow cap s log \<Longrightarrow> upto_cap cap 0 \<Longrightarrow> state_inv cap s log"
proof (induction rule: ledger.induct)
  case (bootstrap ep now)
  then show ?case by (simp add: fresh_inv)
next
  case (commit s log etag now req s' rep)
  have g: "valid_state s" using ledger_good [OF commit.hyps(1)] by (simp add: good_state_def)
  note d = attemptD [OF commit.hyps(2), simplified, OF valid_stateD(3) [OF g]]
  have o: "qs_observedAt s \<le> now" using validate_snapshotD(4) [OF d(2)] by simp
  from d(3) obtain u where u: "change_of scope req (reconciled scope s now) now = Inr (u, rep)"
    "s' = u\<lparr>qs_observedAt := now\<rparr>" by blast
  have "state_inv cap u (log @ dispatch_events req rep)"
    using change_inv [OF reconciled_ready [OF g o commit.hyps(4)] _ commit.hyps(5) u(1)]
      reconciled_inv [OF g o commit.IH [OF commit.prems]] by blast
  moreover have "qs_observedAt u = now"
  proof -
    have "keeps_valid (reconciled scope s now) u \<and> fits u"
      using ledger_good [OF commit.hyps(1)] fits_reconciled [OF g _ commit.hyps(4)]
      by (intro change_keeps [OF reconciled_ready [OF g o commit.hyps(4)] _ commit.hyps(3) u(1)])
        (simp add: good_state_def)
    then show ?thesis by (simp add: keeps_valid_def)
  qed
  ultimately show ?case using u(2) by (simp add: state_inv_def)
qed

section \<open>What every history guarantees\<close>

definition dispatches_in :: "int \<Rightarrow> dispatch_log \<Rightarrow> dispatch_log" where
  "dispatches_in t log = filter (\<lambda>(k, d). t \<le> d \<and> d \<le> t + MINUTE_SECONDS) log"

lemma dispatches_within:
  assumes "distinct (map fst log)"
  shows "length (dispatches_in t log) = card (within t log)"
proof -
  have "within t log = set (map fst (dispatches_in t log))"
    by (force simp: within_def dispatches_in_def)
  moreover have "distinct (map fst (dispatches_in t log))"
    using assms by (auto simp: dispatches_in_def distinct_map inj_on_def)
  ultimately show ?thesis by (metis distinct_card length_map)
qed

lemma ledger_minute:
  assumes "ledger scope ow (Some cap) s log" "0 \<le> cap"
  shows "int (length (dispatches_in t log)) \<le> cap"
proof -
  from ledger_inv [OF assms(1)] assms(2)
  have i: "window_inv (Some cap) (map_of (qs_entries s)) (qs_replayFloor s) (qs_observedAt s) log"
    by (simp add: upto_cap_def state_inv_def)
  then show ?thesis
    using window_invD(2,3) [OF i] by (simp add: dispatches_within upto_cap_def)
qed

lemma ledger_once: "ledger scope ow None s log \<Longrightarrow> distinct (map fst log)"
  using ledger_inv by (auto simp: state_inv_def window_inv_def upto_cap_def)

end
