(* ===== verification/Quota_Concurrent.thy ===== *)
theory Quota_Concurrent
  imports Quota_Window Quota_Demo
begin

text \<open>
  Many replicas at once. Each client of the store runs passes of \<open>_change\<close>: it reads a snapshot,
  computes, and later tries to replace the row; reads, replacements and crashes of all clients
  interleave in any order. The compare-and-swap contract alone makes every committed pass atomic,
  so each owner's row follows one history (\<open>ledger\<close>), and the guarantees over histories hold for
  the whole fleet.
\<close>

section \<open>Steps\<close>

record 's fleet =
  fl_store :: 's
  fl_pending :: "nat \<rightharpoonup> (string \<times> request \<times> snapshot)"
  fl_log :: "string \<Rightarrow> dispatch_log"

text \<open>
  \<open>fetch\<close> is the read of client \<open>c\<close>; \<open>win\<close> and \<open>lose\<close> are the two answers of its
  replacement; \<open>quit\<close> is a pass that raised, or a replica that died between the two.
\<close>

inductive fleet_step ::
  "('s \<Rightarrow> int \<Rightarrow> string \<Rightarrow> quota_exn + snapshot)
    \<Rightarrow> ('s \<Rightarrow> string \<Rightarrow> snapshot \<Rightarrow> quota_state \<Rightarrow> quota_exn + (bool \<times> 's))
    \<Rightarrow> int option \<Rightarrow> int option \<Rightarrow> 's fleet \<Rightarrow> 's fleet \<Rightarrow> bool"
  for rd rp scope cap where
  fetch: "rd (fl_store f) now ow = Inr sn \<Longrightarrow> count_ok now \<Longrightarrow> wf_request req \<Longrightarrow> capped cap req \<Longrightarrow>
     fleet_step rd rp scope cap f (f\<lparr>fl_pending := (fl_pending f)(c \<mapsto> (ow, req, sn))\<rparr>)"
| win: "fl_pending f c = Some (ow, req, sn) \<Longrightarrow>
     attempt scope ow sn (change_of scope req) = Inr (st, rep) \<Longrightarrow>
     rp (fl_store f) ow sn st = Inr (True, s') \<Longrightarrow>
     fleet_step rd rp scope cap f \<lparr>fl_store = s', fl_pending = (fl_pending f)(c := None),
       fl_log = (fl_log f)(ow := fl_log f ow @ dispatch_events req rep)\<rparr>"
| lose: "fl_pending f c = Some (ow, req, sn) \<Longrightarrow>
     attempt scope ow sn (change_of scope req) = Inr (st, rep) \<Longrightarrow>
     rp (fl_store f) ow sn st = Inr (False, s') \<Longrightarrow>
     fleet_step rd rp scope cap f (f\<lparr>fl_store := s', fl_pending := (fl_pending f)(c := None)\<rparr>)"
| quit: "fleet_step rd rp scope cap f (f\<lparr>fl_pending := (fl_pending f)(c := None)\<rparr>)"

text \<open>A fleet starts over rows that are freshly created documents, with nothing in flight.\<close>

definition fleet_start ::
  "('s \<Rightarrow> string \<Rightarrow> (quota_state \<times> nat) option) \<Rightarrow> 's fleet \<Rightarrow> bool" where
  "fleet_start row f \<longleftrightarrow> fl_pending f = (\<lambda>c. None) \<and> fl_log f = (\<lambda>ow. [])
     \<and> (\<forall>ow cur v. row (fl_store f) ow = Some (cur, v) \<longrightarrow>
          (\<exists>ep t. cur = fresh_state ow ep t \<and> 1 \<le> length ow \<and> length ow \<le> 128
             \<and> is_hex 32 ep \<and> count_ok t))"

inductive fleet_reach for rd rp row scope cap where
  start: "fleet_start row f \<Longrightarrow> fleet_reach rd rp row scope cap f"
| step: "fleet_reach rd rp row scope cap f \<Longrightarrow> fleet_step rd rp scope cap f g \<Longrightarrow>
     fleet_reach rd rp row scope cap g"

section \<open>Atomicity of the fleet\<close>

context cas_store begin

text \<open>
  A snapshot in flight is of a version not newer than the row's, and of the row itself when the
  versions agree.
\<close>

definition snapshot_ok :: "'s \<Rightarrow> string \<Rightarrow> snapshot \<Rightarrow> bool" where
  "snapshot_ok s ow sn \<longleftrightarrow> (\<exists>cur v w. row s ow = Some (cur, v) \<and> sn_etag sn = tag w \<and> w \<le> v
     \<and> (w = v \<longrightarrow> sn_state sn = cur))"

definition fleet_inv :: "int option \<Rightarrow> int option \<Rightarrow> 's fleet \<Rightarrow> bool" where
  "fleet_inv scope cap f \<longleftrightarrow>
     (\<forall>c ow req sn. fl_pending f c = Some (ow, req, sn) \<longrightarrow>
        snapshot_ok (fl_store f) ow sn \<and> count_ok (sn_now sn) \<and> wf_request req \<and> capped cap req)
   \<and> (\<forall>ow cur v. row (fl_store f) ow = Some (cur, v) \<longrightarrow> ledger scope ow cap cur (fl_log f ow))
   \<and> (\<forall>ow. row (fl_store f) ow = None \<longrightarrow> fl_log f ow = [])"

lemma snapshot_ok_frame:
  assumes "snapshot_ok s ow sn" "row s' = (row s)(ow' \<mapsto> (st, Suc v'))" "row s ow' = Some (cur', v')"
  shows "snapshot_ok s' ow sn"
proof -
  from assms(1) obtain cur v w where r: "row s ow = Some (cur, v)" "sn_etag sn = tag w" "w \<le> v"
    "w = v \<longrightarrow> sn_state sn = cur" unfolding snapshot_ok_def by blast
  show ?thesis
  proof (cases "ow = ow'")
    case True
    with r(1) assms(3) have "v' = v" by simp
    with True r(2,3) assms(2) show ?thesis
      unfolding snapshot_ok_def by (intro exI [of _ st] exI [of _ "Suc v"] exI [of _ w]) auto
  next
    case False
    with r assms(2) show ?thesis unfolding snapshot_ok_def by auto
  qed
qed

lemma fleet_inv_win:
  assumes inv: "fleet_inv scope cap f" and p: "fl_pending f c = Some (ow, req, sn)"
    and at: "attempt scope ow sn (change_of scope req) = Inr (st, rep)"
    and rp: "rp (fl_store f) ow sn st = Inr (True, s')"
  shows "fleet_inv scope cap \<lparr>fl_store = s', fl_pending = (fl_pending f)(c := None),
       fl_log = (fl_log f)(ow := fl_log f ow @ dispatch_events req rep)\<rparr>"
proof -
  from inv p have ok: "snapshot_ok (fl_store f) ow sn" "count_ok (sn_now sn)" "wf_request req" "capped cap req"
    by (auto simp: fleet_inv_def)
  obtain cur v where r: "row (fl_store f) ow = Some (cur, v)" "sn_etag sn = tag v"
    and s': "row s' = (row (fl_store f))(ow \<mapsto> (st, Suc v))" using rp_won [OF rp] by blast
  from ok(1) r have cur: "sn_state sn = cur" unfolding snapshot_ok_def by (auto dest: tag_inj)
  have l: "ledger scope ow cap cur (fl_log f ow)" using inv r(1) by (auto simp: fleet_inv_def)
  have "sn = \<lparr>sn_state = cur, sn_etag = sn_etag sn, sn_now = sn_now sn\<rparr>" using cur by simp
  with at have "attempt scope ow \<lparr>sn_state = cur, sn_etag = sn_etag sn, sn_now = sn_now sn\<rparr>
      (change_of scope req) = Inr (st, rep)" by simp
  from ledger.commit [OF l this ok(3,2,4)]
  have l': "ledger scope ow cap st (fl_log f ow @ dispatch_events req rep)" .
  have fr: "snapshot_ok s' ow' sn'" if "snapshot_ok (fl_store f) ow' sn'" for ow' sn'
    by (rule snapshot_ok_frame [OF that s' r(1)])
  show ?thesis
    unfolding fleet_inv_def
  proof (intro conjI allI impI)
    fix c' ow' req' sn'
    assume "fl_pending \<lparr>fl_store = s', fl_pending = (fl_pending f)(c := None),
       fl_log = (fl_log f)(ow := fl_log f ow @ dispatch_events req rep)\<rparr> c' = Some (ow', req', sn')"
    then have "fl_pending f c' = Some (ow', req', sn')" by (simp split: if_splits)
    then have a: "snapshot_ok (fl_store f) ow' sn' \<and> count_ok (sn_now sn') \<and> wf_request req' \<and> capped cap req'"
      using inv by (simp add: fleet_inv_def)
    then show "count_ok (sn_now sn')" "wf_request req'" "capped cap req'" by simp_all
    show "snapshot_ok (fl_store \<lparr>fl_store = s', fl_pending = (fl_pending f)(c := None),
       fl_log = (fl_log f)(ow := fl_log f ow @ dispatch_events req rep)\<rparr>) ow' sn'"
      using fr a by simp
  qed (use inv s' l' in \<open>auto simp: fleet_inv_def split: if_splits\<close>)
qed

lemma fleet_inv_step:
  assumes "fleet_step rd rp scope cap f g" "fleet_inv scope cap f"
  shows "fleet_inv scope cap g"
  using assms
proof (cases rule: fleet_step.cases)
  case (fetch now ow sn req c)
  obtain v where "row (fl_store f) ow = Some (sn_state sn, v)" "sn_etag sn = tag v" "sn_now sn = now"
    using rd_row [OF fetch(2)] by blast
  with fetch(3-5) have "snapshot_ok (fl_store f) ow sn \<and> count_ok (sn_now sn)"
    unfolding snapshot_ok_def by auto
  then show ?thesis using assms(2) fetch by (auto simp: fleet_inv_def)
next
  case (win c ow req sn st rep s')
  then show ?thesis using fleet_inv_win [OF assms(2)] by simp
next
  case (lose c ow req sn st rep s')
  then show ?thesis using assms(2) rp_lost [OF lose(4)] by (auto simp: fleet_inv_def)
next
  case (quit c)
  then show ?thesis using assms(2) by (auto simp: fleet_inv_def)
qed

lemma fleet_start_inv:
  assumes "fleet_start row f"
  shows "fleet_inv scope cap f"
proof -
  have "ledger scope ow cap cur []" if "row (fl_store f) ow = Some (cur, v)" for ow cur v
    using assms that unfolding fleet_start_def by (metis ledger.bootstrap)
  with assms show ?thesis by (simp add: fleet_start_def fleet_inv_def)
qed

theorem fleet_reach_inv: "fleet_reach rd rp row scope cap f \<Longrightarrow> fleet_inv scope cap f"
  by (induction rule: fleet_reach.induct) (auto intro: fleet_start_inv fleet_inv_step)

lemma fleet_ledger:
  assumes "fleet_reach rd rp row scope cap f" "fl_log f ow \<noteq> []"
  shows "\<exists>cur v. row (fl_store f) ow = Some (cur, v) \<and> ledger scope ow cap cur (fl_log f ow)"
proof (cases "row (fl_store f) ow")
  case None
  then show ?thesis using fleet_reach_inv [OF assms(1)] assms(2) by (simp add: fleet_inv_def)
next
  case (Some p)
  then show ?thesis using fleet_reach_inv [OF assms(1)] by (cases p) (auto simp: fleet_inv_def)
qed

text \<open>Whatever holds of every history of an owner holds of the fleet's.\<close>

lemma fleet_lift:
  assumes "fleet_reach rd rp row scope cap f" "P []"
    and "\<And>s log. ledger scope ow cap s log \<Longrightarrow> P log"
  shows "P (fl_log f ow)"
proof (cases "fl_log f ow = []")
  case True
  with assms(2) show ?thesis by simp
next
  case False
  from fleet_ledger [OF assms(1) this] assms(3) show ?thesis by blast
qed

end

section \<open>A fleet that contends\<close>

definition demo_rows :: local_rows where "demo_rows = [(demo_owner, demo_fresh, 1)]"

text \<open>The state of the fleet's store after version \<open>v\<close> was written, with the given log.\<close>

definition demo_fleet :: "quota_state \<Rightarrow> nat \<Rightarrow> (nat \<rightharpoonup> (string \<times> request \<times> snapshot)) \<Rightarrow> dispatch_log
    \<Rightarrow> local_rows fleet" where
  "demo_fleet s v pend log = \<lparr>fl_store = [(demo_owner, s, v)], fl_pending = pend,
     fl_log = (\<lambda>ow. if ow = demo_owner then log else [])\<rparr>"

abbreviation "local_reach \<equiv> fleet_reach local_read local_replace local_row"

lemma demo_fetch:
  assumes "local_reach None cap (demo_fleet s v pend log)" "count_ok now" "wf_request req" "capped cap req"
  shows "local_reach None cap (demo_fleet s v (pend(c \<mapsto> (demo_owner, req, demo_snap v s now))) log)"
proof -
  have "local_read (fl_store (demo_fleet s v pend log)) now demo_owner = Inr (demo_snap v s now)"
    by (simp add: demo_fleet_def local_read_def demo_snap_def)
  from fleet_reach.step [OF assms(1) fleet_step.fetch
      [where rd = local_read and f = "demo_fleet s v pend log" and c = c, OF this assms(2-4)]]
  show ?thesis by (simp add: demo_fleet_def)
qed

lemma demo_win:
  assumes r: "local_reach None cap (demo_fleet s v (\<lambda>_. None) log)"
    and at: "attempt None demo_owner (demo_snap v s now) (change_of None req) = Inr (st, rep)"
    and g: "good_state s" "wf_request req" "count_ok now" "capped cap req"
  shows "local_reach None cap (demo_fleet st (Suc v) (\<lambda>_. None) (log @ dispatch_events req rep))"
proof -
  let ?f = "demo_fleet s v (\<lambda>_. None) log" and ?sn = "demo_snap v s now"
  let ?g = "demo_fleet s v [0 \<mapsto> (demo_owner, req, ?sn)] log"
  have "good_state st \<and> qs_userId st = demo_owner"
    using attempt_keeps [OF at _ g(2)] g(1,3) by (simp add: demo_snap_def)
  moreover have "qs_userId s = demo_owner"
    using attemptD(2) [OF at] g(1) validate_snapshotD(2)
    by (fastforce simp: demo_snap_def good_state_def valid_state_def)
  ultimately have rp: "local_replace (fl_store ?g) demo_owner ?sn st
      = Inr (True, [(demo_owner, st, Suc v)])"
    using fits_document by (simp add: local_replace_def demo_fleet_def demo_snap_def good_state_def)
  have "fl_pending ?g 0 = Some (demo_owner, req, ?sn)" by (simp add: demo_fleet_def)
  from fleet_reach.step [OF demo_fetch [OF r g(3,2,4)] fleet_step.win
      [where rp = local_replace and f = ?g, OF this at rp]]
  show ?thesis by (simp add: demo_fleet_def fun_upd_def if_distrib cong: if_cong)
qed

lemma demo_reach:
  assumes "capped cap demo_reserve"
  shows "local_reach None cap (demo_fleet demo_dispatched 3 (\<lambda>_. None) [(demo_key, 102)])"
proof -
  have t: "count_ok 101" "count_ok 102" by (simp_all add: count_ok_def MAX_QUANTITY_def)
  have "\<exists>ep t. demo_fresh = fresh_state demo_owner ep t \<and> 1 \<le> length demo_owner
     \<and> length demo_owner \<le> 128 \<and> is_hex 32 ep \<and> count_ok t"
    unfolding demo_fresh_def
    by (rule exI [of _ "replicate 32 (CHR ''a'')"], rule exI [of _ 100]) code_simp
  then have "fleet_start local_row (demo_fleet demo_fresh 1 (\<lambda>_. None) [])"
    by (simp add: fleet_start_def demo_fleet_def local_row_def)
  then have "local_reach None cap (demo_fleet demo_fresh 1 (\<lambda>_. None) [])" by (rule fleet_reach.start)
  from demo_win [OF this demo_reserve_pass _ _ t(1) assms]
  have "local_reach None cap (demo_fleet demo_reserved 2 (\<lambda>_. None) [])"
    by (simp add: demo_reserve_def numeral_2_eq_2)
  from demo_win [OF this demo_dispatch_pass _ _ t(2)] show ?thesis
    by (simp add: demo_granted_def demo_record_def numeral_3_eq_3)
qed

section \<open>Properties\<close>

text \<open>
  C1: the minute cap holds for the whole fleet. However the reads, replacements, lost races and
  crashes of any number of replicas on any number of owners interleave, if every reservation is
  asked for under a requests-per-minute limit of at most \<open>cap\<close>, then for every owner no closed
  minute of the store's clock contains more than \<open>cap\<close> granted dispatches.
\<close>

theorem fleet_minute_cap:
  assumes "fleet_reach local_read local_replace local_row scope (Some cap) f" "0 \<le> cap"
  shows "int (length (dispatches_in t (fl_log f ow))) \<le> cap"
  using ledger_minute assms(2)
  by (intro local_store.fleet_lift [OF assms(1), where P = "\<lambda>l. int (length (dispatches_in t l)) \<le> cap"])
    (simp_all add: dispatches_in_def)

theorem fleet_minute_cap_witness: "int (length (dispatches_in 60 [(demo_key, 102)])) \<le> 2"
proof -
  have "capped (Some 2) demo_reserve" by (simp add: demo_reserve_def demo_limits_def)
  from fleet_minute_cap [OF demo_reach [OF this], of 60 demo_owner] show ?thesis
    by (simp add: demo_fleet_def)
qed

text \<open>
  C2: a dispatch is granted once, for ever and fleet-wide. Whatever the replicas do and whatever
  limits they ask under, each operation identity appears at most once among the dispatches an
  owner was granted, also after its record was settled and pruned: the replay floor keeps a
  forgotten identity from being reserved again.
\<close>

theorem fleet_dispatch_once:
  assumes "fleet_reach local_read local_replace local_row scope None f"
  shows "distinct (map fst (fl_log f ow))"
  by (rule local_store.fleet_lift [OF assms, where P = "\<lambda>l. distinct (map fst l)"])
    (simp_all add: ledger_once)

theorem fleet_dispatch_once_witness: "distinct (map fst [(demo_key, 102 :: int)])"
proof -
  have "capped None demo_reserve" by simp
  from fleet_dispatch_once [OF demo_reach [OF this], of demo_owner] show ?thesis
    by (simp add: demo_fleet_def)
qed

end
