(* ===== verification/Quota_Lifecycle.thy ===== *)
theory Quota_Lifecycle
  imports Quota_Concurrent
begin

text \<open>
  The life of one operation: its identity, its settlement, its replays, the fence an overrun
  raises, and the calls of the service over the local store.
\<close>

section \<open>Operation identities\<close>

lemma not_digit_dot [simp]: "\<not> is_digit (CHR ''.'')"
  by (simp add: is_digit_def char_code_def)

lemma list_all_takeWhile: "list_all P xs \<Longrightarrow> \<not> P c \<Longrightarrow> takeWhile P (xs @ c # ys) = xs \<and> dropWhile P (xs @ c # ys) = c # ys"
  by (induction xs) auto

lemma parse_operation_id_wf:
  assumes "is_hex 32 ep" "is_hex 64 h" "n < 10 ^ 16"
  shows "parse_operation_id (ep @ ''.'' @ show_nat n @ ''.'' @ h) = Inr (ep, int n)"
proof -
  have "1 \<le> length (show_nat n)" using show_nat_nonempty [of n] by (cases "show_nat n") auto
  moreover have "length (show_nat n) \<le> 16" using length_show_nat_less [OF assms(3)] by simp
  ultimately show ?thesis
    using assms(1,2) list_all_takeWhile [OF show_nat_digits, of "CHR ''.''" n h]
    by (simp add: parse_operation_id_def Let_def is_hex_def)
qed

text \<open>
  Operation identities are exact. For an epoch and a hash of their lengths and an issue time
  of at most sixteen digits, \<open>operation_id\<close> produces an identity that \<open>parse_operation_id\<close> reads
  back to the same epoch and time; two identities of one epoch differ whenever time or hash do.
\<close>

theorem operation_identity_exact:
  assumes "is_hex 32 ep" "\<And>k. is_hex 64 (sha k)" "0 \<le> t" "t < 10 ^ 16" "0 \<le> t'" "t' < 10 ^ 16"
  shows "\<exists>v. operation_id sha ep t key = Inr v \<and> parse_operation_id v = Inr (ep, t)
    \<and> (operation_id sha ep t' key' = Inr v \<longrightarrow> t' = t \<and> sha key' = sha key)"
proof -
  have p: "operation_id sha ep u x = Inr (ep @ ''.'' @ show_nat (nat u) @ ''.'' @ sha x)
      \<and> parse_operation_id (ep @ ''.'' @ show_nat (nat u) @ ''.'' @ sha x) = Inr (ep, u)"
    if "0 \<le> u" "u < 10 ^ 16" for u x
    using parse_operation_id_wf [OF assms(1,2), of "nat u" x] that
    by (simp add: operation_id_def show_int_def Let_def nat_less_iff)
  have "t' = t \<and> sha key' = sha key"
    if e: "ep @ ''.'' @ show_nat (nat t') @ ''.'' @ sha key' = ep @ ''.'' @ show_nat (nat t) @ ''.'' @ sha key"
  proof -
    have "t' = t" using p [OF assms(3,4), of key] p [OF assms(5,6), of key'] e by simp
    with e show ?thesis by simp
  qed
  with p [OF assms(3,4), of key] p [OF assms(5,6), of key'] show ?thesis by auto
qed

theorem operation_identity_exact_witness:
  "\<exists>v. operation_id (\<lambda>k. replicate 64 (CHR ''b'')) (replicate 32 (CHR ''a'')) 100 ''k'' = Inr v
    \<and> parse_operation_id v = Inr (replicate 32 (CHR ''a''), 100)"
proof -
  have "is_hex 32 (replicate 32 (CHR ''a''))" "is_hex 64 (replicate 64 (CHR ''b''))" by code_simp+
  from operation_identity_exact [OF this, of 100 100 "''k''"] show ?thesis by auto
qed

section \<open>Settlement\<close>

lemma unfinished_survives:
  assumes "valid_state s" "map_of (qs_entries s) k = Some r" "rs_phase r = Dispatched \<or> rs_phase r = Unknown"
  shows "map_of (qs_entries (reconciled scope s now)) k = Some r"
  using assms expire_not_reserved [of r]
  by (auto simp: reconciled_lookup prunable_def protected_def)

lemma attempt_change:
  assumes g: "good_state s" and o: "qs_observedAt s \<le> now" and e: "etag \<noteq> []"
  shows "attempt scope (qs_userId s) \<lparr>sn_state = s, sn_etag = etag, sn_now = now\<rparr> change =
    bindE (change (reconciled scope s now) now) (\<lambda>(u, r). Inr (u\<lparr>qs_observedAt := now\<rparr>, r))"
proof -
  have "valid_state s" "fits s" using g by (auto simp: good_state_def)
  moreover from this have "validate_snapshot (qs_userId s) \<lparr>sn_state = s, sn_etag = etag, sn_now = now\<rparr> = Inr ()"
    using fits_document o e by (simp add: validate_snapshot_def)
  ultimately show ?thesis using attempt_eq [of "\<lparr>sn_state = s, sn_etag = etag, sn_now = now\<rparr>"] by simp
qed

definition settlement_charge :: "reservation \<Rightarrow> outcome \<Rightarrow> amounts option \<Rightarrow> amounts" where
  "settlement_charge r out actual =
     (if has_complete_usage r (Some out) actual
      then (the actual)\<lparr>am_requests := am_requests (bound_amounts r),
                        am_compute := am_compute (bound_amounts r)\<rparr>
      else bound_amounts r)"

lemma settle_pass:
  assumes "good_state s" "map_of (qs_entries s) (rs_operationId res) = Some r"
    "rs_payloadDigest r = rs_payloadDigest res" "rs_phase r = Dispatched"
    "qs_observedAt s \<le> now" "count_ok now" "etag \<noteq> []"
    "wf_request (RSettle res out actual digest)"
  shows "\<exists>s' r'. attempt scope (qs_userId s) \<lparr>sn_state = s, sn_etag = etag, sn_now = now\<rparr>
      (change_of scope (RSettle res out actual digest)) = Inr (s', Record r')
    \<and> good_state s' \<and> map_of (qs_entries s') (rs_operationId res) = Some r'
    \<and> rs_phase r' \<in> {Settled, Unknown} \<and> rs_settlementDigest r' = Some digest
    \<and> rs_charged r' = settlement_charge r out actual
    \<and> qs_blocked s' = (qs_blocked s \<or> exceeds_bound r')"
proof -
  have v: "valid_state s" using assms(1) by (simp add: good_state_def)
  let ?s = "reconciled scope s now"
  have m: "map_of (qs_entries ?s) (rs_operationId res) = Some r"
    by (rule unfinished_survives [OF v assms(2)]) (simp add: assms(4))
  have own: "owned_record ?s res = Inr r" using m assms(3) by (simp add: owned_record_def)
  have e: "entry_valid s (rs_operationId res) r" "rs_operationId r = rs_operationId res"
    using valid_lookup [OF v assms(2)] by auto
  then have nd: "rs_settlementDigest r = None"
    using assms(4) by (simp add: entry_valid_def entry_phase_ok_def)
  obtain r' where r': "settled_record scope out actual digest now r = Inr r'"
    using settled_total by blast
  note d = settled_recordD [OF r']
  let ?s' = "(put_entry ?s r')\<lparr>qs_blocked := qs_blocked ?s \<or> exceeds_bound r', qs_observedAt := now\<rparr>"
  have at: "attempt scope (qs_userId s) \<lparr>sn_state = s, sn_etag = etag, sn_now = now\<rparr>
      (change_of scope (RSettle res out actual digest)) = Inr (?s', Record r')"
    unfolding attempt_change [OF assms(1,5,7)]
    using own nd assms(4) r' by (simp add: settle_change_def)
  have "good_state ?s'" using attempt_keeps [OF at _ assms(8)] assms(1,6) by simp
  moreover have "map_of (qs_entries ?s') (rs_operationId res) = Some r'"
    using d(1) e(2) by (simp add: map_of_update)
  moreover have "rs_charged r' = settlement_charge r out actual"
    using settled_charge [OF r'] by (simp add: settlement_charge_def)
  ultimately show ?thesis using at d by (intro exI conjI) auto
qed

text \<open>
  C4: admitted work can always be settled. On any well-kept document, however full, a
  dispatched operation is settled by one pass: it becomes settled or unknown, is charged the
  measured usage when that is complete and the whole reserved bound otherwise, the document
  stays within its capacity, and the owner is fenced exactly when the charge overran the bound.
\<close>

theorem dispatched_work_settles:
  assumes "good_state s" "map_of (qs_entries s) (rs_operationId res) = Some r"
    "rs_payloadDigest r = rs_payloadDigest res" "rs_phase r = Dispatched"
    "qs_observedAt s \<le> now" "count_ok now" "etag \<noteq> []"
    "wf_request (RSettle res out actual digest)"
  shows "\<exists>s' r'. attempt scope (qs_userId s) \<lparr>sn_state = s, sn_etag = etag, sn_now = now\<rparr>
      (change_of scope (RSettle res out actual digest)) = Inr (s', Record r')
    \<and> good_state s' \<and> map_of (qs_entries s') (rs_operationId res) = Some r'
    \<and> rs_phase r' \<in> {Settled, Unknown} \<and> rs_settlementDigest r' = Some digest
    \<and> rs_charged r' = settlement_charge r out actual
    \<and> qs_blocked s' = (qs_blocked s \<or> exceeds_bound r')"
  by (rule settle_pass [OF assms])

theorem dispatched_work_settles_witness:
  "\<exists>s' r'. attempt None (qs_userId demo_dispatched) \<lparr>sn_state = demo_dispatched, sn_etag = ''7'', sn_now = 500\<rparr>
      (change_of None (RSettle demo_granted OError None demo_digest)) = Inr (s', Record r')
    \<and> rs_charged r' = demo_amounts"
proof -
  have "map_of (qs_entries demo_dispatched) (rs_operationId demo_granted) = Some demo_granted"
    "rs_phase demo_granted = Dispatched" "qs_observedAt demo_dispatched \<le> 500"
    "settlement_charge demo_granted OError None = demo_amounts"
    "wf_request (RSettle demo_granted OError None demo_digest)"
    by code_simp+
  with dispatched_work_settles [OF demo_good(3), of demo_granted demo_granted 500 "''7''" OError None
      demo_digest None]
  show ?thesis by (auto simp: count_ok_def MAX_QUANTITY_def)
qed

text \<open>
  settlement is idempotent and can not be rewritten. Once an operation has a settlement and
  is still on file, settling it again returns the recorded result and changes nothing but the
  clock when the settlement is the same, and is refused when it differs.
\<close>

theorem settlement_is_final:
  assumes "good_state s" "qs_observedAt s \<le> now" "etag \<noteq> []"
    "map_of (qs_entries (reconciled scope s now)) (rs_operationId res) = Some r"
    "rs_payloadDigest r = rs_payloadDigest res" "rs_settlementDigest r = Some recorded"
  shows "attempt scope (qs_userId s) \<lparr>sn_state = s, sn_etag = etag, sn_now = now\<rparr>
      (change_of scope (RSettle res out actual digest))
    = (if digest = recorded then Inr (reconciled scope s now, Record r)
       else Inl (QuotaError SettlementChanged 409))"
proof -
  have own: "owned_record (reconciled scope s now) res = Inr r"
    using assms(4,5) by (simp add: owned_record_def)
  have "(reconciled scope s now)\<lparr>qs_observedAt := now\<rparr> = reconciled scope s now"
    by (simp add: reconciled_def)
  with own assms(6) show ?thesis
    by (simp add: attempt_change [OF assms(1-3)] settle_change_def)
qed

theorem settlement_is_final_witness:
  "attempt None (qs_userId demo_settled) \<lparr>sn_state = demo_settled, sn_etag = ''4'', sn_now = 120\<rparr>
      (change_of None (RSettle demo_granted OError None (replicate 64 (CHR ''e''))))
    = Inl (QuotaError SettlementChanged 409)"
proof -
  have "qs_observedAt demo_settled \<le> 120"
    "map_of (qs_entries (reconciled None demo_settled 120)) (rs_operationId demo_granted) = Some demo_finished"
    "rs_payloadDigest demo_finished = rs_payloadDigest demo_granted"
    "rs_settlementDigest demo_finished = Some demo_digest"
    "(replicate 64 (CHR ''e'') = demo_digest) = False"
    by code_simp+
  then show ?thesis
    using settlement_is_final [OF demo_good(4), of 120 "''4''" None demo_granted demo_finished
        demo_digest OError None "replicate 64 (CHR ''e'')"] by simp
qed

lemma blocked_refuses:
  assumes "qs_blocked s"
  shows "reserve_change scope key dg sf bd lims s now \<noteq> Inr x" "dispatch_change res s now \<noteq> Inr y"
  using assms
  by (simp_all add: reserve_change_def reserve_guards_def dispatch_change_def bindE_Inr_iff)

lemma owned_key:
  assumes v: "valid_state s" and o: "owned_record (reconciled scope s now) res = Inr r"
  shows "rs_operationId r \<in> fst ` set (qs_entries (reconciled scope s now))"
proof -
  note m = owned_recordD(1) [OF o]
  then obtain r0 where "map_of (qs_entries s) (rs_operationId res) = Some r0" "r = expire now r0"
    by (auto simp: reconciled_lookup [OF v] split: option.splits if_splits)
  then have "rs_operationId r = rs_operationId res" using valid_lookup(3) [OF v] by simp
  with map_of_key [OF m] show ?thesis by simp
qed

text \<open>
  An overrun fences the owner. Once a settled charge exceeded its bound, every later pass
  leaves the owner blocked, and none of them grants a dispatch or creates a reservation.
\<close>

theorem overrun_fences_owner:
  assumes "attempt scope ow sn (change_of scope req) = Inr (s', rep)" "dict_ok (sn_state sn)"
    "qs_blocked (sn_state sn)"
  shows "qs_blocked s' \<and> dispatch_events req rep = []
    \<and> fst ` set (qs_entries s') \<subseteq> fst ` set (qs_entries (sn_state sn))"
proof -
  let ?s = "reconciled scope (sn_state sn) (sn_now sn)"
  from attemptD(3) [OF assms(1,2)] obtain u where
    u: "change_of scope req ?s (sn_now sn) = Inr (u, rep)" "s' = u\<lparr>qs_observedAt := sn_now sn\<rparr>" by blast
  have b: "qs_blocked ?s" using assms(3) by simp
  have v: "valid_state (sn_state sn)" by (rule attemptD(1) [OF assms(1,2)])
  have "qs_blocked u \<and> dispatch_events req rep = [] \<and> fst ` set (qs_entries u) \<subseteq> fst ` set (qs_entries ?s)"
  proof (cases req)
    case (RSettle res out actual digest)
    then obtain r where c: "settle_change scope res out actual digest ?s (sn_now sn) = Inr (u, r)"
      using u(1) by auto
    then obtain r0 where r0: "owned_record ?s res = Inr r0"
      and cs: "u = ?s \<or> settled_record scope out actual digest (sn_now sn) r0 = Inr r
        \<and> u = (put_entry ?s r)\<lparr>qs_blocked := qs_blocked ?s \<or> exceeds_bound r\<rparr>"
      by (auto simp: settle_change_def bindE_Inr_iff Let_def split: option.splits if_splits)
    have "rs_operationId r \<in> fst ` set (qs_entries ?s)"
      if "settled_record scope out actual digest (sn_now sn) r0 = Inr r"
      using owned_key [OF v r0] settled_recordD(1) [OF that] by simp
    then show ?thesis using cs b RSettle by (elim disjE conjE) (simp_all add: keys_update insert_absorb)
  next
    case (RRelease res)
    then obtain r where c: "release_change res ?s (sn_now sn) = Inr (u, r)" using u(1) by auto
    then obtain r0 where r0: "owned_record ?s res = Inr r0"
      and cs: "u = ?s \<or> u = put_entry ?s r \<and> rs_operationId r = rs_operationId r0"
      by (auto simp: release_change_def bindE_Inr_iff Let_def split: if_splits)
    then show ?thesis using b owned_key [OF v r0] RRelease
      by (elim disjE conjE) (simp_all add: keys_update insert_absorb)
  next
    case RReconcile
    then show ?thesis using u(1) b by simp
  qed (use u(1) in \<open>simp_all add: blocked_refuses [OF b]\<close>)
  moreover from this have "fst ` set (qs_entries u) \<subseteq> fst ` set (qs_entries (sn_state sn))"
    by (intro subset_trans [OF _ reconciled_keys [of scope "sn_state sn" "sn_now sn"]]) simp
  ultimately show ?thesis using u(2) by simp
qed

definition demo_fenced :: quota_state where
  "demo_fenced = demo_settled\<lparr>qs_blocked := True\<rparr>"

theorem overrun_fences_owner_witness:
  "\<exists>s'. attempt None demo_owner (demo_snap 4 demo_fenced 120) (change_of None RReconcile) = Inr (s', State s')
    \<and> qs_blocked s' \<and> fst ` set (qs_entries s') \<subseteq> {demo_key}"
proof -
  have v: "valid_state demo_fenced"
    unfolding valid_state_def by (rule conjI) code_simp+
  have vs: "validate_snapshot demo_owner (demo_snap 4 demo_fenced 120) = Inr ()" by code_simp
  have at: "attempt None demo_owner (demo_snap 4 demo_fenced 120) (change_of None RReconcile)
      = Inr (reconciled None demo_fenced 120, State (reconciled None demo_fenced 120))"
    by (rule attemptI [OF v vs]) simp_all
  have "dict_ok (sn_state (demo_snap 4 demo_fenced 120))" "qs_blocked (sn_state (demo_snap 4 demo_fenced 120))"
    by code_simp+
  from overrun_fences_owner [OF at this] at show ?thesis
    by (simp add: demo_snap_def demo_fenced_def demo_settled_def)
qed

section \<open>Calls over the local store\<close>

lemma attempts_eq: "MAX_CAS_ATTEMPTS = Suc 15"
  by (simp add: MAX_CAS_ATTEMPTS_def)

text \<open>
  A call that returns has happened at once. When a call of \<open>_change\<close> over the local store
  returns a result, some pass of it applied its change to the row exactly as it was when the new
  state was written, under the row's own version, and wrote nothing else, whatever other callers
  wrote between its reads and its writes.
\<close>

theorem local_call_atomic:
  assumes "run_change local_read local_replace env clock scope ow change s = (Inr result, s')"
    "honest_env local_row env ow"
  shows "\<exists>s0 cur v st j. local_row s0 ow = Some (cur, v)
     \<and> attempt scope ow \<lparr>sn_state = cur, sn_etag = show_nat v, sn_now = clock j\<rparr> change = Inr (st, result)
     \<and> local_row s' = (local_row s0)(ow \<mapsto> (st, Suc v)) \<and> j < MAX_CAS_ATTEMPTS"
proof -
  from local_store.change_loop_atomic [OF assms(1) [unfolded run_change_def] assms(2)]
  obtain s0 now cur v st j where "local_row s0 ow = Some (cur, v)"
    "attempt scope ow \<lparr>sn_state = cur, sn_etag = show_nat v, sn_now = now\<rparr> change = Inr (st, result)"
    "local_row s' = (local_row s0)(ow \<mapsto> (st, Suc v))" "j < 0 + MAX_CAS_ATTEMPTS" "now = clock j"
    by blast
  then show ?thesis by (intro exI conjI) simp_all
qed

text \<open>
  an undisturbed call decides. Over the local store, with a well-kept document, a clock that
  did not go back and no interference, a call returns exactly what its change says about the
  reconciled document: the change's exception, with the store as it was, or its result, with the
  changed document stored under the next version.
\<close>

theorem local_call_decides:
  assumes "local_row s ow = Some (cur, v)" "good_state cur" "qs_userId cur = ow"
    "qs_observedAt cur \<le> clock 0" "count_ok (clock 0)" "wf_request req"
  shows "case change_of scope req (reconciled scope cur (clock 0)) (clock 0) of
      Inl e \<Rightarrow> run_change local_read local_replace (\<lambda>_ x. x) clock scope ow (change_of scope req) s = (Inl e, s)
    | Inr (st, rep) \<Rightarrow> \<exists>s'.
        run_change local_read local_replace (\<lambda>_ x. x) clock scope ow (change_of scope req) s = (Inr rep, s')
        \<and> local_row s' = (local_row s)(ow \<mapsto> (st\<lparr>qs_observedAt := clock 0\<rparr>, Suc v))"
  using local_live.change_loop_live [where k = 0 and clock = clock and env = "\<lambda>_ x. x" and m = 15,
      OF assms(1,2,5,3,4,6), of scope]
  by (simp only: run_change_def attempts_eq)

theorem local_call_decides_witness:
  "\<exists>s'. run_change local_read local_replace (\<lambda>_ x. x) (\<lambda>_. 101) None demo_owner
        (change_of None demo_reserve) demo_rows = (Inr (Record demo_record), s')
     \<and> local_row s' demo_owner = Some (demo_reserved, 2)"
proof -
  have "local_row demo_rows demo_owner = Some (demo_fresh, 1)" by code_simp
  moreover have "qs_userId demo_fresh = demo_owner" "qs_observedAt demo_fresh \<le> 101" by code_simp+
  moreover have "change_of None demo_reserve (reconciled None demo_fresh 101) 101
      = Inr (demo_reserved, Record demo_record)" by (rule demo_reserve_change)
  moreover have "demo_reserved\<lparr>qs_observedAt := 101\<rparr> = demo_reserved" by (simp add: demo_reserved_def)
  ultimately show ?thesis
    using local_call_decides [of demo_rows demo_owner demo_fresh 1 "\<lambda>_. 101" demo_reserve None]
    by (auto simp: count_ok_def MAX_QUANTITY_def)
qed

theorem local_call_atomic_witness:
  "\<exists>s' s0 cur v st j.
     run_change local_read local_replace (\<lambda>_ x. x) (\<lambda>_. 101) None demo_owner
        (change_of None demo_reserve) demo_rows = (Inr (Record demo_record), s')
   \<and> local_row s0 demo_owner = Some (cur, v)
   \<and> attempt None demo_owner \<lparr>sn_state = cur, sn_etag = show_nat v, sn_now = 101\<rparr> (change_of None demo_reserve)
       = Inr (st, Record demo_record)
   \<and> local_row s' = (local_row s0)(demo_owner \<mapsto> (st, Suc v)) \<and> j < MAX_CAS_ATTEMPTS"
proof -
  have "local_row demo_rows demo_owner = Some (demo_fresh, 1)" by code_simp
  moreover have "qs_userId demo_fresh = demo_owner" "qs_observedAt demo_fresh \<le> 101" by code_simp+
  ultimately obtain s' where s': "run_change local_read local_replace (\<lambda>_ x. x) (\<lambda>_. 101) None demo_owner
        (change_of None demo_reserve) demo_rows = (Inr (Record demo_record), s')"
    using local_live.change_loop_live [of demo_rows demo_owner demo_fresh 1 "\<lambda>_. 101" 0 demo_reserve
        "\<lambda>_ x. x" None 15] demo_reserve_change
    by (auto simp: run_change_def attempts_eq count_ok_def MAX_QUANTITY_def)
  moreover have "honest_env local_row (\<lambda>_ x. x) demo_owner" by (simp add: honest_env_def)
  ultimately show ?thesis using local_call_atomic [OF s'] by blast
qed

end
