(* ===== verification/Catalog.thy ===== *)
theory Catalog
  imports Json
begin

text \<open>
  \<open>catalog.py\<close> and \<open>model_traits.py\<close>: the model rows with their validators, the residency of a
  deployment, and the routing of a model to a deployment under the app-wide residency policy.
  The verdict of the actor's policy snapshot on a deployment (\<open>policy.context.model_allowed\<close>) is
  the argument \<open>allowed\<close>; rows are read as parsed fields, not as JSON text.
\<close>

section \<open>Traits by name\<close>

text \<open>\<open>\w\<close> on code points below 256, and a case-insensitive prefix ended by \<open>\b\<close>.\<close>

definition word_char :: "char \<Rightarrow> bool" where
  "word_char c \<longleftrightarrow> is_alnum c \<or> c = CHR ''_''
     \<or> char_code c \<in> {170, 178, 179, 181, 185, 186, 188, 189, 190}
     \<or> 192 \<le> char_code c \<and> char_code c \<noteq> 215 \<and> char_code c \<noteq> 247"

definition starts_word :: "string \<Rightarrow> string \<Rightarrow> bool" where
  "starts_word p s \<longleftrightarrow> lower (take (length p) s) = p
     \<and> (drop (length p) s = [] \<or> \<not> word_char (hd (drop (length p) s)))"

definition is_reasoning_deployment :: "string \<Rightarrow> bool" where
  "is_reasoning_deployment s \<longleftrightarrow>
     list_ex (\<lambda>p. starts_word p s) [''gpt-5'', ''gpt-6'', ''o1'', ''o3'', ''o4'', ''mai-thinking-1'']"

definition is_anthropic_messages_deployment :: "string \<Rightarrow> bool" where
  "is_anthropic_messages_deployment s \<longleftrightarrow> lower (take 7 s) = ''claude-''"

definition supports_sampling :: "string \<Rightarrow> bool" where
  "supports_sampling s \<longleftrightarrow> \<not> list_ex (\<lambda>p. starts_word p s)
     [''gpt-5'', ''gpt-6'', ''o1'', ''o3'', ''o4'', ''mai-thinking-1'', ''claude-opus-4-8'']"

definition reasoning_effort_options :: "string \<Rightarrow> string list" where
  "reasoning_effort_options s =
     (if \<not> is_reasoning_deployment s \<or> starts_word ''o1-mini'' s then []
      else [''low'', ''medium'', ''high''])"

section \<open>Deployments and their residency\<close>

definition GLOBAL_RESIDENCY :: string where "GLOBAL_RESIDENCY = ''global''"

definition ZONAL_RESIDENCY :: string where "ZONAL_RESIDENCY = ''zonal''"

definition RESIDENCY_POLICIES :: "string list" where
  "RESIDENCY_POLICIES = [GLOBAL_RESIDENCY, ZONAL_RESIDENCY, ''us'', ''eu'']"

record deployment_option =
  dp_region :: string
  dp_dataZone :: "string option"
  dp_sku :: string
  dp_deploymentName :: string
  dp_modelVersion :: "string option"

definition residency :: "deployment_option \<Rightarrow> string" where
  "residency o1 =
     (if dp_sku o1 = ''GlobalStandard'' then GLOBAL_RESIDENCY
      else case dp_dataZone o1 of
          None \<Rightarrow> GLOBAL_RESIDENCY
        | Some z \<Rightarrow> if z = [] then GLOBAL_RESIDENCY else lower (strip z))"

definition satisfies :: "deployment_option \<Rightarrow> string \<Rightarrow> bool" where
  "satisfies o1 policy =
     (if policy = GLOBAL_RESIDENCY then True
      else if policy = ZONAL_RESIDENCY then residency o1 \<noteq> GLOBAL_RESIDENCY
      else residency o1 = policy)"

section \<open>Model rows\<close>

record routing_model =
  rm_format :: string
  rm_name :: string
  rm_version :: string

record model_routing =
  mr_mode :: string
  mr_models :: "routing_model list"

record model_entry =
  me_id :: string
  me_displayName :: string
  me_category :: string
  me_format :: string
  me_runtimeEnabled :: bool
  me_api :: string
  me_routing :: "model_routing option"
  me_deploymentTarget :: string
  me_samplingSupported :: "bool option"
  me_samplingRequiresNoReasoning :: bool
  me_maxTokensParameter :: "string option"
  me_anthropicThinking :: "string option"
  me_defaultReasoningEffort :: "string option"
  me_requiredRealtimeProtocol :: "string option"
  me_contextWindow :: "int option"
  me_maxOutputTokens :: "int option"
  me_defaultMaxOutputTokens :: "int option"
  me_toolCalling :: "bool option"
  me_inputModalities :: "string list"
  me_imageSizes :: "string list option"
  me_imageQualities :: "string list option"
  me_imageEditing :: bool
  me_imageEditingDefault :: bool
  me_reasoningEffort :: "string list option"
  me_options :: "deployment_option list"

text \<open>The declared field constraints: literals and lengths.\<close>

definition one_of :: "string list \<Rightarrow> string option \<Rightarrow> bool" where
  "one_of vs x \<longleftrightarrow> (case x of None \<Rightarrow> True | Some v \<Rightarrow> v \<in> set vs)"

definition routing_ok :: "model_routing \<Rightarrow> bool" where
  "routing_ok r \<longleftrightarrow> mr_mode r \<in> {''balanced'', ''cost'', ''quality''}
     \<and> 1 \<le> length (mr_models r) \<and> length (mr_models r) \<le> 16
     \<and> list_all (\<lambda>m. 1 \<le> length (rm_name m) \<and> length (rm_name m) \<le> 128
          \<and> 1 \<le> length (rm_version m) \<and> length (rm_version m) \<le> 64) (mr_models r)"

definition entry_fields_ok :: "model_entry \<Rightarrow> bool" where
  "entry_fields_ok m \<longleftrightarrow>
     (case me_routing m of None \<Rightarrow> True | Some r \<Rightarrow> routing_ok r)
     \<and> me_deploymentTarget m \<in> {''source'', ''external-claude''}
     \<and> one_of [''max_tokens'', ''max_completion_tokens''] (me_maxTokensParameter m)
     \<and> one_of [''disabled'', ''adaptive''] (me_anthropicThinking m)
     \<and> one_of [''low'', ''medium'', ''high''] (me_defaultReasoningEffort m)
     \<and> one_of [''ga''] (me_requiredRealtimeProtocol m)
     \<and> (case me_defaultMaxOutputTokens m of None \<Rightarrow> True | Some n \<Rightarrow> 0 < n)"

definition CONVERSATIONAL_CATEGORIES :: "string list" where
  "CONVERSATIONAL_CATEGORIES = [''chat'', ''chat-fast'', ''reasoning'', ''reasoning-oss'', ''router'', ''research'']"

definition conversational :: "model_entry \<Rightarrow> bool" where
  "conversational m \<longleftrightarrow> me_category m \<in> set CONVERSATIONAL_CATEGORIES"

definition supportsSampling :: "model_entry \<Rightarrow> bool" where
  "supportsSampling m = (case me_samplingSupported m of Some b \<Rightarrow> b | None \<Rightarrow> supports_sampling (me_id m))"

definition reasoningEffortOptions :: "model_entry \<Rightarrow> string list" where
  "reasoningEffortOptions m =
     (case me_reasoningEffort m of Some vs \<Rightarrow> vs | None \<Rightarrow> reasoning_effort_options (me_id m))"

definition allows_sampling :: "model_entry \<Rightarrow> json option \<Rightarrow> bool" where
  "allows_sampling m params \<longleftrightarrow> supportsSampling m \<and> (\<not> me_samplingRequiresNoReasoning m
     \<or> (case params of None \<Rightarrow> False | Some p \<Rightarrow> obj_get p ''reasoning_effort'' = Some (JStr ''none'')))"

definition supportsTools :: "model_entry \<Rightarrow> bool" where
  "supportsTools m \<longleftrightarrow> conversational m \<and> me_toolCalling m \<noteq> Some False"

definition supports_realtime_protocol :: "model_entry \<Rightarrow> string \<Rightarrow> bool" where
  "supports_realtime_protocol m protocol \<longleftrightarrow>
     me_requiredRealtimeProtocol m = None \<or> me_requiredRealtimeProtocol m = Some protocol"

text \<open>An absent or zero number, an absent or empty text or list: Python's \<open>not x\<close>.\<close>

definition no_number :: "int option \<Rightarrow> bool" where
  "no_number x \<longleftrightarrow> x = None \<or> x = Some 0"

definition require_external_profile :: "model_entry \<Rightarrow> bool" where
  "require_external_profile m \<longleftrightarrow> \<not> (me_deploymentTarget m = ''external-claude'' \<and>
     (me_api m \<noteq> ''anthropic'' \<or> me_format m \<noteq> ''Anthropic''
      \<or> (me_anthropicThinking m, me_toolCalling m)
          \<notin> {(Some ''disabled'', Some True), (Some ''adaptive'', Some False)}
      \<or> me_samplingSupported m \<noteq> Some False
      \<or> me_reasoningEffort m = None \<or> me_reasoningEffort m = Some []
      \<or> (case me_reasoningEffort m of None \<Rightarrow> False
         | Some vs \<Rightarrow> list_ex (\<lambda>v. v \<notin> {''low'', ''medium'', ''high''}) vs)
      \<or> me_inputModalities m \<noteq> [''text'']
      \<or> no_number (me_contextWindow m) \<or> no_number (me_maxOutputTokens m)
      \<or> me_options m = []
      \<or> list_ex (\<lambda>o1. dp_region o1 \<noteq> ''eastus2'' \<or> dp_sku o1 \<notin> {''GlobalStandard'', ''DataZoneStandard''}
           \<or> dp_modelVersion o1 = None \<or> dp_modelVersion o1 = Some []) (me_options m)))"

definition external_profile :: "model_entry \<Rightarrow> bool" where
  "external_profile m \<longleftrightarrow> require_external_profile m
     \<and> \<not> ((me_api m = ''decision'' \<or> me_category m = ''decision'') \<and>
          (me_api m \<noteq> ''decision'' \<or> me_category m \<noteq> ''decision'' \<or> me_format m \<noteq> ''Microsoft''
           \<or> me_toolCalling m \<noteq> Some False \<or> me_samplingSupported m \<noteq> Some False
           \<or> me_inputModalities m \<noteq> [''text'', ''json'']))
     \<and> (case me_defaultReasoningEffort m of None \<Rightarrow> True
        | Some v \<Rightarrow> me_deploymentTarget m = ''external-claude'' \<and> v \<in> set (reasoningEffortOptions m))
     \<and> \<not> (me_samplingRequiresNoReasoning m \<and>
          (me_api m \<noteq> ''responses'' \<or> me_samplingSupported m \<noteq> Some True
           \<or> ''none'' \<notin> set (reasoningEffortOptions m)))
     \<and> \<not> (me_maxTokensParameter m \<noteq> None \<and> me_api m \<noteq> ''chat'')
     \<and> (case me_defaultMaxOutputTokens m of None \<Rightarrow> True
        | Some d \<Rightarrow> \<not> ((case me_maxOutputTokens m of None \<Rightarrow> True | Some n \<Rightarrow> n < d)
            \<or> (case me_contextWindow m of None \<Rightarrow> False | Some w \<Rightarrow> w \<le> d)))
     \<and> \<not> (me_imageEditing m \<and> (me_category m \<noteq> ''image'' \<or> me_api m \<noteq> ''chat'' \<or> me_format m \<noteq> ''OpenAI''))
     \<and> \<not> (me_imageEditingDefault m \<and> \<not> me_imageEditing m)"

definition realtime_protocol_ok :: "model_entry \<Rightarrow> bool" where
  "realtime_protocol_ok m \<longleftrightarrow> \<not> (me_requiredRealtimeProtocol m \<noteq> None \<and> me_category m \<noteq> ''realtime'')"

definition model_entry_ok :: "model_entry \<Rightarrow> bool" where
  "model_entry_ok m \<longleftrightarrow> entry_fields_ok m \<and> external_profile m \<and> realtime_protocol_ok m"

section \<open>The catalog\<close>

record model_catalog =
  mc_models :: "model_entry list"
  mc_residencyPolicy :: string

type_synonym allow = "string \<Rightarrow> deployment_option \<Rightarrow> bool"

definition cat_get :: "model_catalog \<Rightarrow> string \<Rightarrow> model_entry option" where
  "cat_get c model_id = find (\<lambda>m. me_id m = model_id) (mc_models c)"

definition for_deployment :: "model_catalog \<Rightarrow> string \<Rightarrow> model_entry option" where
  "for_deployment c deployment =
     find (\<lambda>m. list_ex (\<lambda>o1. dp_deploymentName o1 = deployment) (me_options m)) (mc_models c)"

definition eligible_options :: "allow \<Rightarrow> model_catalog \<Rightarrow> bool \<Rightarrow> model_entry \<Rightarrow> deployment_option list" where
  "eligible_options allowed c policy_filter m =
     (if \<not> me_runtimeEnabled m then []
      else filter (\<lambda>o1. satisfies o1 (mc_residencyPolicy c)
             \<and> (\<not> policy_filter \<or> allowed (me_category m) o1)) (me_options m))"

definition available :: "allow \<Rightarrow> model_catalog \<Rightarrow> model_entry \<Rightarrow> bool" where
  "available allowed c m \<longleftrightarrow> eligible_options allowed c True m \<noteq> []"

definition conversational_models :: "allow \<Rightarrow> model_catalog \<Rightarrow> model_entry list" where
  "conversational_models allowed c =
     filter (\<lambda>m. conversational m \<and> available allowed c m) (mc_models c)"

text \<open>An absent or empty constraint does not filter.\<close>

definition resolve_deployment ::
  "allow \<Rightarrow> model_catalog \<Rightarrow> string \<Rightarrow> string option \<Rightarrow> string option \<Rightarrow> bool \<Rightarrow> deployment_option option" where
  "resolve_deployment allowed c model_id region data_zone policy_filter =
     (case cat_get c model_id of
        None \<Rightarrow> None
      | Some m \<Rightarrow>
          if me_options m = [] then None
          else
            (let options = eligible_options allowed c policy_filter m;
                 in_region = (if region = None \<or> region = Some [] then options
                              else filter (\<lambda>o1. Some (dp_region o1) = region) options);
                 in_zone = (if data_zone = None \<or> data_zone = Some [] then in_region
                            else filter (\<lambda>o1. dp_dataZone o1 = data_zone) in_region)
             in if in_zone = [] then None else Some (hd in_zone)))"

text \<open>\<open>load_catalog\<close> on the rows of the catalog file.\<close>

definition load_catalog :: "model_entry list \<Rightarrow> string \<Rightarrow> bool \<Rightarrow> unit + model_catalog" where
  "load_catalog rows residency_setting claude_enabled =
     bindE (ensure (\<not> list_ex (\<lambda>m. me_api m = ''anthropic'' \<and> me_deploymentTarget m \<noteq> ''external-claude'') rows) ())
       (\<lambda>_.
     let policy = (if residency_setting \<in> set RESIDENCY_POLICIES then residency_setting else GLOBAL_RESIDENCY);
         models = filter (\<lambda>m. claude_enabled \<or> me_api m \<noteq> ''anthropic'') rows
     in bindE (ensure (list_all model_entry_ok models) ()) (\<lambda>_.
        Inr \<lparr>mc_models = models, mc_residencyPolicy = policy\<rparr>))"

section \<open>Lemmas\<close>

lemma eligible_iff:
  "o1 \<in> set (eligible_options allowed c pf m) \<longleftrightarrow> me_runtimeEnabled m \<and> o1 \<in> set (me_options m)
     \<and> satisfies o1 (mc_residencyPolicy c) \<and> (pf \<longrightarrow> allowed (me_category m) o1)"
  by (auto simp: eligible_options_def)

lemma cat_get_Some: "cat_get c i = Some m \<Longrightarrow> m \<in> set (mc_models c) \<and> me_id m = i"
  by (auto simp: cat_get_def find_Some_iff)

lemma resolve_Some:
  assumes "resolve_deployment allowed c i region zone pf = Some o1"
  obtains m where "cat_get c i = Some m" "o1 \<in> set (eligible_options allowed c pf m)"
    "region \<in> {None, Some []} \<or> region = Some (dp_region o1)"
    "zone \<in> {None, Some []} \<or> zone = dp_dataZone o1"
proof -
  have hd: "x = hd ys \<Longrightarrow> ys \<noteq> [] \<Longrightarrow> x \<in> set ys" for x and ys :: "deployment_option list" by simp
  from assms obtain m where m: "cat_get c i = Some m"
    by (auto simp: resolve_deployment_def split: option.splits)
  define r where "r = (if region = None \<or> region = Some [] then eligible_options allowed c pf m
      else filter (\<lambda>o1. Some (dp_region o1) = region) (eligible_options allowed c pf m))"
  define z where "z = (if zone = None \<or> zone = Some [] then r else filter (\<lambda>o1. dp_dataZone o1 = zone) r)"
  from assms m have "z \<noteq> []" "o1 = hd z"
    by (auto simp: resolve_deployment_def Let_def r_def z_def split: if_splits)
  then have o: "o1 \<in> set z" by simp
  then have "o1 \<in> set r" by (auto simp: z_def split: if_splits)
  with o m show ?thesis
    by (intro that [of m]) (auto simp: z_def r_def split: if_splits)
qed

lemma satisfies_bounded:
  "policy \<noteq> GLOBAL_RESIDENCY \<Longrightarrow> satisfies o1 policy \<Longrightarrow> residency o1 \<noteq> GLOBAL_RESIDENCY"
  by (auto simp: satisfies_def ZONAL_RESIDENCY_def GLOBAL_RESIDENCY_def split: if_splits)

lemma bounded_zone:
  "residency o1 \<noteq> GLOBAL_RESIDENCY \<Longrightarrow> dp_sku o1 \<noteq> ''GlobalStandard''
     \<and> (\<exists>z. dp_dataZone o1 = Some z \<and> z \<noteq> [] \<and> residency o1 = lower (strip z))"
  by (auto simp: residency_def split: option.splits if_splits)

section \<open>Properties\<close>

text \<open>
  Routing never leaves the residency envelope. Whatever region or data zone a caller asks
  for, a deployment that is returned belongs to the enabled model of that id, passed the actor's
  policy when it is filtered, meets every constraint asked for, and under a policy other than
  global its processing is bounded to a recorded data zone, the very zone of the policy unless
  that is the zonal one.
\<close>

theorem routing_stays_in_residency:
  assumes "resolve_deployment allowed c i region zone pf = Some o1"
  shows "(\<exists>m. cat_get c i = Some m \<and> me_runtimeEnabled m \<and> o1 \<in> set (me_options m)
        \<and> (pf \<longrightarrow> allowed (me_category m) o1))
    \<and> (region \<in> {None, Some []} \<or> region = Some (dp_region o1))
    \<and> (zone \<in> {None, Some []} \<or> zone = dp_dataZone o1)
    \<and> (mc_residencyPolicy c = GLOBAL_RESIDENCY \<or>
      dp_sku o1 \<noteq> ''GlobalStandard'' \<and> (\<exists>z. dp_dataZone o1 = Some z \<and> z \<noteq> []
        \<and> (mc_residencyPolicy c = ZONAL_RESIDENCY \<or> lower (strip z) = mc_residencyPolicy c)))"
proof -
  from assms obtain m where m: "cat_get c i = Some m" "o1 \<in> set (eligible_options allowed c pf m)"
    and g: "region \<in> {None, Some []} \<or> region = Some (dp_region o1)"
      "zone \<in> {None, Some []} \<or> zone = dp_dataZone o1"
    by (rule resolve_Some)
  have s: "satisfies o1 (mc_residencyPolicy c)" using m by (simp add: eligible_iff)
  have "mc_residencyPolicy c = GLOBAL_RESIDENCY \<or>
      dp_sku o1 \<noteq> ''GlobalStandard'' \<and> (\<exists>z. dp_dataZone o1 = Some z \<and> z \<noteq> []
        \<and> (mc_residencyPolicy c = ZONAL_RESIDENCY \<or> lower (strip z) = mc_residencyPolicy c))"
    using satisfies_bounded [OF _ s] bounded_zone [of o1] s by (auto simp: satisfies_def split: if_splits)
  with m g show ?thesis by (auto simp: eligible_iff)
qed

definition demo_sweden :: deployment_option where
  "demo_sweden = \<lparr>dp_region = ''swedencentral'', dp_dataZone = Some ''EU'', dp_sku = ''DataZoneStandard'',
     dp_deploymentName = ''gpt-5-swe'', dp_modelVersion = None\<rparr>"

definition demo_global :: deployment_option where
  "demo_global = demo_sweden\<lparr>dp_sku := ''GlobalStandard'', dp_deploymentName := ''gpt-5-glbl''\<rparr>"

definition demo_model :: model_entry where
  "demo_model = \<lparr>me_id = ''gpt-5'', me_displayName = ''GPT-5'', me_category = ''chat'', me_format = ''OpenAI'',
     me_runtimeEnabled = True, me_api = ''chat'', me_routing = None, me_deploymentTarget = ''source'',
     me_samplingSupported = None, me_samplingRequiresNoReasoning = False, me_maxTokensParameter = None,
     me_anthropicThinking = None, me_defaultReasoningEffort = None, me_requiredRealtimeProtocol = None,
     me_contextWindow = Some 1000, me_maxOutputTokens = Some 100, me_defaultMaxOutputTokens = None,
     me_toolCalling = None, me_inputModalities = [''text''], me_imageSizes = None, me_imageQualities = None,
     me_imageEditing = False, me_imageEditingDefault = False, me_reasoningEffort = None,
     me_options = [demo_global, demo_sweden]\<rparr>"

definition demo_catalog :: model_catalog where
  "demo_catalog = \<lparr>mc_models = [demo_model], mc_residencyPolicy = ''eu''\<rparr>"

lemma demo_resolves: "resolve_deployment (\<lambda>_ _. True) demo_catalog ''gpt-5'' None None True = Some demo_sweden"
  by code_simp

theorem routing_stays_in_residency_witness:
  "dp_sku demo_sweden \<noteq> ''GlobalStandard''
   \<and> resolve_deployment (\<lambda>_ _. True) demo_catalog ''gpt-5'' None None True = Some demo_sweden"
  using routing_stays_in_residency [OF demo_resolves] demo_resolves
  by (simp add: demo_catalog_def GLOBAL_RESIDENCY_def)

text \<open>
  Residency policies are nested. What a zone admits the zonal policy admits, what that
  admits the global one admits, the two zones share nothing, and a model is listed as available
  exactly when an unconstrained request for it is routed.
\<close>

theorem residency_policies_nested:
  "set (eligible_options allowed (c\<lparr>mc_residencyPolicy := ''us''\<rparr>) pf m)
     \<union> set (eligible_options allowed (c\<lparr>mc_residencyPolicy := ''eu''\<rparr>) pf m)
       \<subseteq> set (eligible_options allowed (c\<lparr>mc_residencyPolicy := ''zonal''\<rparr>) pf m)
   \<and> set (eligible_options allowed (c\<lparr>mc_residencyPolicy := ''zonal''\<rparr>) pf m)
       \<subseteq> set (eligible_options allowed (c\<lparr>mc_residencyPolicy := ''global''\<rparr>) pf m)
   \<and> set (eligible_options allowed (c\<lparr>mc_residencyPolicy := ''us''\<rparr>) pf m)
       \<inter> set (eligible_options allowed (c\<lparr>mc_residencyPolicy := ''eu''\<rparr>) pf m) = {}
   \<and> (resolve_deployment allowed c i None None True = None
        \<longleftrightarrow> (case cat_get c i of None \<Rightarrow> True | Some e \<Rightarrow> \<not> available allowed c e))"
proof -
  have "me_options e = [] \<Longrightarrow> eligible_options allowed c True e = []" for e
    by (simp add: eligible_options_def)
  then show ?thesis
    by (auto simp: eligible_iff satisfies_def GLOBAL_RESIDENCY_def ZONAL_RESIDENCY_def
        resolve_deployment_def available_def Let_def split: option.splits if_splits)
qed

text \<open>
  A catalog that loads serves Claude only through the reviewed external profile. With the
  provider switched off it holds no such row; switched on, every such row is text-only, in the
  one region, with a version per deployment and a context and output limit, and never samples.
\<close>

theorem loaded_claude_is_external:
  assumes "load_catalog rows r claude = Inr c" "m \<in> set (mc_models c)" "me_api m = ''anthropic''"
  shows "claude \<and> me_inputModalities m = [''text''] \<and> \<not> allows_sampling m params
    \<and> me_contextWindow m \<notin> {None, Some 0} \<and> me_maxOutputTokens m \<notin> {None, Some 0}
    \<and> (\<forall>o1 \<in> set (me_options m). dp_region o1 = ''eastus2'' \<and> dp_modelVersion o1 \<notin> {None, Some []})"
proof -
  from assms(1,2) have "m \<in> set rows" "claude \<or> me_api m \<noteq> ''anthropic''" and v: "model_entry_ok m"
    and e: "\<not> list_ex (\<lambda>m. me_api m = ''anthropic'' \<and> me_deploymentTarget m \<noteq> ''external-claude'') rows"
    by (auto simp: load_catalog_def Let_def bindE_Inr_iff list_all_iff)
  with assms(3) have "claude" "me_deploymentTarget m = ''external-claude''"
    by (auto simp: list_ex_iff)
  moreover have p: "require_external_profile m" using v by (simp add: model_entry_ok_def external_profile_def)
  ultimately show ?thesis
    unfolding require_external_profile_def
    by (auto simp: no_number_def list_ex_iff allows_sampling_def supportsSampling_def)
qed

definition demo_claude :: model_entry where
  "demo_claude = demo_model\<lparr>me_id := ''claude-opus'', me_api := ''anthropic'', me_format := ''Anthropic'',
     me_deploymentTarget := ''external-claude'', me_anthropicThinking := Some ''adaptive'',
     me_toolCalling := Some False, me_samplingSupported := Some False, me_reasoningEffort := Some [''low''],
     me_options := [demo_global\<lparr>dp_region := ''eastus2'', dp_modelVersion := Some ''1''\<rparr>]\<rparr>"

theorem loaded_claude_is_external_witness:
  "(\<exists>c. load_catalog [demo_model, demo_claude] ''mars'' True = Inr c \<and> mc_residencyPolicy c = ''global''
     \<and> demo_claude \<in> set (mc_models c)) \<and> \<not> allows_sampling demo_claude None"
proof -
  define c where "c = \<lparr>mc_models = [demo_model, demo_claude], mc_residencyPolicy = ''global''\<rparr>"
  have l: "load_catalog [demo_model, demo_claude] ''mars'' True = Inr c"
    unfolding c_def by code_simp
  have m: "demo_claude \<in> set (mc_models c)" by (simp add: c_def)
  have "\<not> allows_sampling demo_claude None"
    using loaded_claude_is_external [OF l m] by (simp add: demo_claude_def)
  with l m show ?thesis by (auto simp: c_def)
qed

end
