(* ===== verification/Decimals.thy ===== *)
theory Decimals
  imports Prelude "HOL-Library.Code_Target_Nat"
begin

text \<open>
  The part of \<open>decimal\<close> the cost calculators use: parsing, and products, sums, quotients and
  integral rounding in the default context (28 digits, half even). A finite nonnegative decimal
  is a coefficient and an exponent of ten. The exponent limits of the context (a million) are
  outside the model: no rate text of the code comes near them.
\<close>

record dec =
  dc_coef :: nat
  dc_exp :: int

definition mk_dec :: "nat \<Rightarrow> int \<Rightarrow> dec" where
  "mk_dec c e = \<lparr>dc_coef = c, dc_exp = e\<rparr>"

definition dec_of_nat :: "nat \<Rightarrow> dec" where
  "dec_of_nat n = mk_dec n 0"

text \<open>A parsed literal; a negative zero is not below zero.\<close>

datatype literal = Finite bool dec | NonFinite | Malformed

section \<open>Parsing\<close>

text \<open>\<open>[-+]?digits\<close> of an exponent; \<open>None\<close> when it is not one.\<close>

definition parse_exponent :: "string \<Rightarrow> int option" where
  "parse_exponent s =
     (let ds = (case s of [] \<Rightarrow> [] | c # cs \<Rightarrow> if c \<in> {CHR ''+'', CHR ''-''} then cs else s);
          n = int (nat_of_digits ds) in
      if ds \<noteq> [] \<and> list_all is_digit ds
      then Some (if s \<noteq> [] \<and> hd s = CHR ''-'' then - n else n) else None)"

definition parse_unsigned :: "bool \<Rightarrow> string \<Rightarrow> literal" where
  "parse_unsigned neg s =
     (let whole = takeWhile is_digit s; r1 = dropWhile is_digit s;
          dot = (r1 \<noteq> [] \<and> hd r1 = CHR ''.'');
          frac = (if dot then takeWhile is_digit (tl r1) else []);
          r2 = (if dot then dropWhile is_digit (tl r1) else r1);
          ex = (if r2 = [] then Some 0
                else if hd r2 = CHR ''e'' then parse_exponent (tl r2) else None)
      in if whole = [] \<and> frac = [] then Malformed
         else case ex of
           None \<Rightarrow> Malformed
         | Some e \<Rightarrow> Finite neg (mk_dec (nat_of_digits (whole @ frac)) (e - int (length frac))))"

definition is_nan_text :: "string \<Rightarrow> bool" where
  "is_nan_text s \<longleftrightarrow> (let t = (if s \<noteq> [] \<and> hd s = CHR ''s'' then tl s else s) in
     take 3 t = ''nan'' \<and> list_all is_digit (drop 3 t))"

definition parse_decimal :: "string \<Rightarrow> literal" where
  "parse_decimal text =
     (let s = lower (filter (\<lambda>c. c \<noteq> CHR ''_'') (strip text));
          signed = (s \<noteq> [] \<and> hd s \<in> {CHR ''+'', CHR ''-''});
          body = (if signed then tl s else s); neg = (s \<noteq> [] \<and> hd s = CHR ''-'')
      in if body = ''inf'' \<or> body = ''infinity'' \<or> is_nan_text body then NonFinite
         else parse_unsigned neg body)"

text \<open>A finite literal that is not below zero.\<close>

definition nonneg_literal :: "literal \<Rightarrow> dec option" where
  "nonneg_literal l = (case l of
     Finite neg d \<Rightarrow> if neg \<and> dc_coef d \<noteq> 0 then None else Some d
   | _ \<Rightarrow> None)"

section \<open>Arithmetic\<close>

definition PREC :: nat where "PREC = 28"

definition div_half_even :: "nat \<Rightarrow> nat \<Rightarrow> nat" where
  "div_half_even n m = (let q = n div m; r = n mod m in
     if 2 * r < m then q else if m < 2 * r then Suc q else if even q then q else Suc q)"

text \<open>Rounding to the precision of the context.\<close>

definition round_dec :: "dec \<Rightarrow> dec" where
  "round_dec d = (let n = length (show_nat (dc_coef d)) in
     if n \<le> PREC then d
     else mk_dec (div_half_even (dc_coef d) (10 ^ (n - PREC))) (dc_exp d + int (n - PREC)))"

definition dec_mult :: "dec \<Rightarrow> dec \<Rightarrow> dec" where
  "dec_mult a b = round_dec (mk_dec (dc_coef a * dc_coef b) (dc_exp a + dc_exp b))"

definition scaled :: "dec \<Rightarrow> int \<Rightarrow> nat" where
  "scaled d e = dc_coef d * 10 ^ nat (dc_exp d - e)"

definition exact_add :: "dec \<Rightarrow> dec \<Rightarrow> dec" where
  "exact_add a b = (let e = min (dc_exp a) (dc_exp b) in mk_dec (scaled a e + scaled b e) e)"

definition dec_add :: "dec \<Rightarrow> dec \<Rightarrow> dec" where
  "dec_add a b = round_dec (exact_add a b)"

text \<open>
  Division by a positive integer: enough digits for the precision and one more, made sticky when
  the quotient is inexact, then rounded.
\<close>

definition dec_div_nat :: "dec \<Rightarrow> nat \<Rightarrow> dec" where
  "dec_div_nat a n =
     (let shift = int (length (show_nat n)) - int (length (show_nat (dc_coef a))) + int PREC + 1;
          num = dc_coef a * 10 ^ nat shift; den = n * 10 ^ nat (- shift);
          q = num div den; r = num mod den;
          q' = (if r \<noteq> 0 \<and> q mod 5 = 0 then Suc q else q)
      in if dc_coef a = 0 then a else round_dec (mk_dec q' (dc_exp a - shift)))"

text \<open>\<open>to_integral_value\<close>, up and half up.\<close>

definition ceil_div :: "nat \<Rightarrow> nat \<Rightarrow> nat" where
  "ceil_div n m = (n + m - 1) div m"

definition dec_ceiling :: "dec \<Rightarrow> nat" where
  "dec_ceiling d = (if 0 \<le> dc_exp d then dc_coef d * 10 ^ nat (dc_exp d)
     else ceil_div (dc_coef d) (10 ^ nat (- dc_exp d)))"

definition dec_half_up :: "dec \<Rightarrow> nat" where
  "dec_half_up d = (if 0 \<le> dc_exp d then dc_coef d * 10 ^ nat (dc_exp d)
     else (2 * dc_coef d + 10 ^ nat (- dc_exp d)) div (2 * 10 ^ nat (- dc_exp d)))"

section \<open>Values\<close>

text \<open>The value of a decimal in units of \<open>10 ^ e\<close>, for an \<open>e\<close> not above its exponent.\<close>

lemma digits_small: "n < 10 ^ 28 \<Longrightarrow> length (show_nat n) \<le> PREC"
  using length_show_nat_less [of n 28] by (simp add: PREC_def)

lemma round_dec_exact: "dc_coef d < 10 ^ 28 \<Longrightarrow> round_dec d = d"
  using digits_small by (simp add: round_dec_def)

lemma ceil_div_iff:
  assumes "0 < m"
  shows "ceil_div n m \<le> c \<longleftrightarrow> n \<le> c * m"
proof -
  have "ceil_div n m \<le> c \<longleftrightarrow> (n + m - 1) div m < Suc c" by (simp add: ceil_div_def less_Suc_eq_le)
  also have "\<dots> \<longleftrightarrow> n + m - 1 < Suc c * m" using assms by (rule div_less_iff_less_mult)
  also have "\<dots> \<longleftrightarrow> n \<le> c * m" using assms by auto
  finally show ?thesis .
qed

lemma ceil_div_mono: "0 < m \<Longrightarrow> a \<le> b \<Longrightarrow> ceil_div a m \<le> ceil_div b m"
  unfolding ceil_div_def by (intro div_le_mono) simp

text \<open>The ceiling is the least integer whose value is not below.\<close>

lemma dec_ceiling_iff:
  "dec_ceiling d \<le> c \<longleftrightarrow> dc_coef d * 10 ^ nat (dc_exp d) \<le> c * 10 ^ nat (- dc_exp d)"
  by (simp add: dec_ceiling_def ceil_div_iff)

lemma dec_ceiling_mono: "dc_exp a = dc_exp b \<Longrightarrow> dc_coef a \<le> dc_coef b \<Longrightarrow> dec_ceiling a \<le> dec_ceiling b"
  by (simp add: dec_ceiling_def ceil_div_mono)

lemma mk_dec_simps [simp]: "dc_coef (mk_dec c e) = c" "dc_exp (mk_dec c e) = e"
  by (simp_all add: mk_dec_def)

lemma length_show_nat_step:
  "n < 10 \<Longrightarrow> length (show_nat n) = 1"
  "10 \<le> n \<Longrightarrow> length (show_nat n) = Suc (length (show_nat (n div 10)))"
  by (simp_all add: show_nat.simps [of n])

section \<open>Rounding is monotone\<close>

text \<open>
  Rounding as a function of the value alone: the number in any unit not above the exponent, to
  28 significant digits. It is monotone, hence so is every chain of rounded operations.
\<close>

definition sig28 :: "nat \<Rightarrow> nat" where
  "sig28 n = div_half_even n (10 ^ (length (show_nat n) - PREC)) * 10 ^ (length (show_nat n) - PREC)"

lemma show_nat_bounds: "n < 10 ^ length (show_nat n) \<and> (0 < n \<longrightarrow> 10 ^ (length (show_nat n) - 1) \<le> n)"
proof (induction n rule: show_nat.induct)
  case (1 n)
  show ?case
  proof (cases "n < 10")
    case False
    let ?k = "length (show_nat (n div 10))"
    from False have k: "length (show_nat n) = Suc ?k" by (simp add: length_show_nat_step)
    have "0 < ?k" by simp
    with 1 [OF False] False have u: "n div 10 < 10 ^ ?k" and l: "10 ^ (?k - 1) \<le> n div 10" by simp_all
    have "(10 :: nat) ^ ?k = 10 * 10 ^ (?k - 1)" using \<open>0 < ?k\<close> by (cases ?k) simp_all
    also have "\<dots> \<le> 10 * (n div 10)" using l by (rule mult_le_mono2)
    also have "\<dots> \<le> n" by simp
    finally have "10 ^ ?k \<le> n" .
    with u show ?thesis unfolding k by (simp add: div_less_iff_less_mult mult.commute)
  qed (simp add: length_show_nat_step)
qed

lemma length_show_scaled: "0 < n \<Longrightarrow> length (show_nat (n * 10 ^ j)) = length (show_nat n) + j"
proof (induction j)
  case (Suc j)
  then have "10 \<le> n * 10 ^ Suc j" "n * 10 ^ Suc j div 10 = n * 10 ^ j" by auto
  with Suc show ?case by (simp add: length_show_nat_step(2))
qed simp

lemma div_half_even_exact [simp]: "0 < m \<Longrightarrow> div_half_even (c * m) m = c"
  by (simp add: div_half_even_def)

lemma div_half_even_scale: "0 < j \<Longrightarrow> div_half_even (n * j) (m * j) = div_half_even n m"
  by (simp add: div_half_even_def Let_def mult_mod_left [symmetric] flip: mult.assoc)

lemma div_half_even_upper: assumes "0 < m" "n \<le> c * m" shows "div_half_even n m \<le> c"
proof (cases "n = c * m")
  case False
  with assms have "n div m < c" by (simp add: div_less_iff_less_mult)
  then show ?thesis by (simp add: div_half_even_def Let_def)
qed (use assms in simp)

lemma div_half_even_lower: assumes "0 < m" "c * m \<le> n" shows "c \<le> div_half_even n m"
proof -
  have "c \<le> n div m" using assms by (simp add: less_eq_div_iff_mult_less_eq)
  then show ?thesis by (simp add: div_half_even_def Let_def)
qed

lemma div_half_even_mono: assumes "0 < m" "a \<le> b" shows "div_half_even a m \<le> div_half_even b m"
proof (cases "a div m = b div m")
  case True
  have "a mod m = a - a div m * m" "b mod m = b - b div m * m"
    by (simp_all add: minus_div_mult_eq_mod)
  with True assms have "a mod m \<le> b mod m" by (simp add: diff_le_mono)
  with True show ?thesis by (simp add: div_half_even_def Let_def)
next
  case False
  with div_le_mono [OF assms(2), of m] have "a div m < b div m" by simp
  then show ?thesis by (simp add: div_half_even_def Let_def)
qed

lemma sig28_mono: assumes "a \<le> b" shows "sig28 a \<le> sig28 b"
proof -
  let ?ka = "length (show_nat a) - PREC" and ?kb = "length (show_nat b) - PREC"
  have k: "?ka \<le> ?kb" using length_show_nat_mono [OF assms] by (rule diff_le_mono)
  show ?thesis
  proof (cases "?ka = ?kb")
    case True
    then show ?thesis unfolding sig28_def using div_half_even_mono [OF _ assms] by simp
  next
    case False
    with k have kb: "?ka < ?kb" by simp
    then have lb: "length (show_nat b) = PREC + ?kb" by simp
    then have "0 < b" by (intro Nat.gr0I) (use kb in \<open>simp add: length_show_nat_step PREC_def\<close>)
    with show_nat_bounds [of b] have "10 ^ (length (show_nat b) - 1) \<le> b" by blast
    also have "length (show_nat b) - 1 = (PREC - 1) + ?kb" using lb by (simp add: PREC_def)
    finally have "10 ^ (PREC - 1) * 10 ^ ?kb \<le> b" by (simp add: power_add)
    then have lower: "10 ^ (PREC - 1) \<le> div_half_even b (10 ^ ?kb)"
      by (intro div_half_even_lower) simp_all
    have "a < 10 ^ length (show_nat a)" using show_nat_bounds by blast
    also have "\<dots> \<le> 10 ^ (PREC + ?ka)" by (intro power_increasing) simp_all
    finally have "a \<le> 10 ^ PREC * 10 ^ ?ka" by (simp add: power_add)
    then have "div_half_even a (10 ^ ?ka) \<le> 10 ^ PREC" by (intro div_half_even_upper) simp_all
    then have "sig28 a \<le> 10 ^ PREC * 10 ^ ?ka" by (simp add: sig28_def)
    also have "\<dots> = 10 ^ (PREC + ?ka)" by (simp add: power_add)
    also have "\<dots> \<le> 10 ^ (PREC - 1 + ?kb)" using kb by (intro power_increasing) (simp_all add: PREC_def)
    also have "\<dots> = 10 ^ (PREC - 1) * 10 ^ ?kb" by (simp add: power_add)
    also have "\<dots> \<le> sig28 b" unfolding sig28_def using lower by (intro mult_le_mono1)
    finally show ?thesis .
  qed
qed

lemma scaled_round: assumes "m \<le> dc_exp d" shows "scaled (round_dec d) m = sig28 (scaled d m)"
proof (cases "dc_coef d = 0")
  case True
  then have "round_dec d = d" by (simp add: round_dec_exact)
  with True show ?thesis by (simp add: scaled_def sig28_def div_half_even_def)
next
  case False
  let ?c = "dc_coef d" and ?j = "nat (dc_exp d - m)" and ?n = "length (show_nat (dc_coef d))"
  have len: "length (show_nat (?c * 10 ^ ?j)) = ?n + ?j" using False by (intro length_show_scaled) simp
  show ?thesis
  proof (cases "?n \<le> PREC")
    case True
    let ?k = "?n + ?j - PREC"
    have "10 ^ ?j = 10 ^ (?j - ?k) * (10 :: nat) ^ ?k" using True by (simp flip: power_add)
    then have "?c * 10 ^ ?j = ?c * 10 ^ (?j - ?k) * 10 ^ ?k" by simp
    then have "sig28 (?c * 10 ^ ?j) = ?c * 10 ^ ?j"
      unfolding sig28_def len by (metis div_half_even_exact zero_less_numeral zero_less_power)
    with True show ?thesis by (simp add: scaled_def round_dec_def)
  next
    case long: False
    then have k: "?n + ?j - PREC = ?n - PREC + ?j" by simp
    have e: "nat (dc_exp d + (int ?n - int PREC) - m) = ?n + ?j - PREC" using assms long by simp
    have "sig28 (?c * 10 ^ ?j) = div_half_even ?c (10 ^ (?n - PREC)) * 10 ^ (?n - PREC + ?j)"
      unfolding sig28_def len k by (simp add: power_add div_half_even_scale)
    with long show ?thesis by (simp add: scaled_def round_dec_def Let_def of_nat_diff e)
  qed
qed

lemma round_dec_exp: "dc_exp d \<le> dc_exp (round_dec d)"
  by (simp add: round_dec_def Let_def)

lemma scaled_add: assumes "m \<le> dc_exp a" "m \<le> dc_exp b"
  shows "scaled (exact_add a b) m = scaled a m + scaled b m" "m \<le> dc_exp (exact_add a b)"
proof -
  have *: "10 ^ nat (dc_exp d - min (dc_exp a) (dc_exp b)) * 10 ^ nat (min (dc_exp a) (dc_exp b) - m)
      = (10 :: nat) ^ nat (dc_exp d - m)" if "d = a \<or> d = b" for d
    using assms that by (subst power_add [symmetric], intro arg_cong [where f = "power 10"]) auto
  show "m \<le> dc_exp (exact_add a b)" using assms by (simp add: exact_add_def Let_def)
  show "scaled (exact_add a b) m = scaled a m + scaled b m"
    by (simp add: scaled_def exact_add_def Let_def add_mult_distrib mult.assoc *)
qed

lemma dec_ceiling_scaled:
  assumes "m \<le> dc_exp d" "m \<le> 0"
  shows "dec_ceiling d = ceil_div (scaled d m) (10 ^ nat (- m))"
proof -
  have "dec_ceiling d \<le> c \<longleftrightarrow> ceil_div (scaled d m) (10 ^ nat (- m)) \<le> c" for c
  proof -
    let ?x = "nat (min (dc_exp d) 0 - m)"
    have e: "nat (dc_exp d - m) = nat (dc_exp d) + ?x" "nat (- m) = nat (- dc_exp d) + ?x"
      using assms by auto
    have "dec_ceiling d \<le> c \<longleftrightarrow> dc_coef d * 10 ^ nat (dc_exp d) * 10 ^ ?x \<le> c * 10 ^ nat (- dc_exp d) * 10 ^ ?x"
      by (simp add: dec_ceiling_iff)
    also have "\<dots> \<longleftrightarrow> scaled d m \<le> c * 10 ^ nat (- m)"
      by (simp only: scaled_def e power_add mult.assoc)
    finally show ?thesis by (simp add: ceil_div_iff)
  qed
  then show ?thesis by (metis order_antisym order_refl)
qed

end
