(* ===== verification/Pricing.thy ===== *)
theory Pricing
  imports Decimals Json
begin

text \<open>
  \<open>usage/pricing.py\<close>: the price book's rate lookup, the ceiling calculator of frozen token rates,
  and the estimates of operations that are not priced by token. A rate of the book is kept as
  the text of its float, which is what the ceiling calculator parses; the float arithmetic of the
  telemetry estimate \<open>estimate\<close> is an argument.
\<close>

section \<open>Token rates\<close>

record price_rate =
  pr_input :: string
  pr_output :: string
  pr_cache :: "string option"

datatype schedule = Flat price_rate | Tiered int price_rate price_rate

record book =
  pb_rates :: "(string, schedule) dict"
  pb_scoped :: "(string, (string, schedule) dict) dict"
  pb_images :: "(string, json) dict"
  pb_documents :: "(string, json) dict"
  pb_avatars :: "(string, json) dict"
  pb_currency :: string
  pb_version :: "string option"

definition schedule_of :: "book \<Rightarrow> string \<Rightarrow> string option \<Rightarrow> schedule option" where
  "schedule_of b model deployment =
     (case map_of (pb_scoped b) model of
        Some m \<Rightarrow> map_of m (case deployment of None \<Rightarrow> [] | Some d \<Rightarrow> d)
      | None \<Rightarrow> map_of (pb_rates b) model)"

definition rate :: "book \<Rightarrow> string \<Rightarrow> string option \<Rightarrow> int option \<Rightarrow> price_rate option" where
  "rate b model deployment prompt =
     (case schedule_of b model deployment of
        None \<Rightarrow> None
      | Some (Flat r) \<Rightarrow> Some r
      | Some (Tiered bound short long) \<Rightarrow> (case prompt of
            None \<Rightarrow> None
          | Some p \<Rightarrow> if p < 0 then None else if bound < p then Some long else Some short))"

definition snapshot_token_prices :: "book \<Rightarrow> string option \<Rightarrow> string option \<Rightarrow> book" where
  "snapshot_token_prices b model deployment =
     \<lparr>pb_rates = (case model of None \<Rightarrow> [] | Some m \<Rightarrow>
          (case schedule_of b m deployment of None \<Rightarrow> [] | Some s \<Rightarrow> [(m, s)])),
      pb_scoped = [], pb_images = [], pb_documents = [], pb_avatars = [],
      pb_currency = pb_currency b, pb_version = pb_version b\<rparr>"

section \<open>The ceiling calculator\<close>

definition MAX_COST :: nat where "MAX_COST = 2 ^ 53 - 1"

definition token_cost :: "nat \<Rightarrow> nat \<Rightarrow> dec \<Rightarrow> dec \<Rightarrow> dec" where
  "token_cost p c ri ro = dec_add (dec_mult (dec_of_nat p) ri) (dec_mult (dec_of_nat c) ro)"

definition conservative_token_cost :: "int \<Rightarrow> int \<Rightarrow> string \<Rightarrow> string \<Rightarrow> int option" where
  "conservative_token_cost prompt completion input_rate output_rate =
     (if prompt < 0 \<or> completion < 0 then None
      else case (nonneg_literal (parse_decimal input_rate), nonneg_literal (parse_decimal output_rate)) of
        (Some ri, Some ro) \<Rightarrow>
          (let cost = dec_ceiling (token_cost (nat prompt) (nat completion) ri ro) in
           if cost \<le> MAX_COST then Some (int cost) else None)
      | _ \<Rightarrow> None)"

record cost_estimate =
  ce_micro :: "int option"
  ce_known :: bool
  ce_input :: "string option"
  ce_output :: "string option"
  ce_currency :: string
  ce_version :: "string option"

definition estimate_token_bound :: "book \<Rightarrow> string \<Rightarrow> int \<Rightarrow> int \<Rightarrow> cost_estimate" where
  "estimate_token_bound b model prompt completion =
     (let r = rate b model None (Some prompt);
          micro = (case r of None \<Rightarrow> None
            | Some x \<Rightarrow> if pb_currency b = ''USD'' \<and> pb_version b \<noteq> None \<and> pb_version b \<noteq> Some []
                        then conservative_token_cost prompt completion (pr_input x) (pr_output x) else None)
      in \<lparr>ce_micro = micro, ce_known = (micro \<noteq> None), ce_input = map_option pr_input r,
          ce_output = map_option pr_output r, ce_currency = pb_currency b, ce_version = pb_version b\<rparr>)"

section \<open>The telemetry estimate\<close>

text \<open>
  \<open>estimate\<close>; \<open>product\<close> is the rounded float sum of the uncached prompt, the cached prompt and
  the completion at the rate. An estimate with its reason for being unknown.
\<close>

record telemetry_estimate = cost_estimate +
  ce_reason :: "string option"

definition estimate ::
  "(int \<Rightarrow> int \<Rightarrow> int \<Rightarrow> price_rate \<Rightarrow> int) \<Rightarrow> book \<Rightarrow> string \<Rightarrow> int option \<Rightarrow> int option \<Rightarrow> string option
    \<Rightarrow> int option \<Rightarrow> int option \<Rightarrow> int option \<Rightarrow> bool \<Rightarrow> int \<Rightarrow> telemetry_estimate" where
  "estimate product b model prompt completion deployment cache_read cache_write summed mismatch calls =
     (let r = rate b model deployment (if calls = 1 then prompt else None);
          mismatch' = (mismatch \<or> (case (summed, prompt, completion) of
              (Some t, Some p, Some c) \<Rightarrow> t \<noteq> p + c | _ \<Rightarrow> False));
          cache_unknown = (case r of None \<Rightarrow> False | Some x \<Rightarrow> pr_cache x \<noteq> None
              \<and> (case cache_read of None \<Rightarrow> True | Some cr \<Rightarrow> cache_write \<noteq> Some 0
                   \<or> (case prompt of None \<Rightarrow> True | Some p \<Rightarrow> \<not> (0 \<le> cr \<and> cr \<le> p))));
          unknown = \<lparr>ce_micro = None, ce_known = False, ce_input = map_option pr_input r,
             ce_output = map_option pr_output r, ce_currency = pb_currency b, ce_version = pb_version b,
             ce_reason = (if mismatch' then Some ''usage_totals_mismatch'' else None)\<rparr>
      in case (r, prompt, completion) of
          (Some x, Some p, Some c) \<Rightarrow>
            if cache_unknown \<or> mismatch' then unknown
            else (let cached = (if pr_cache x \<noteq> None then the cache_read else 0) in
              \<lparr>ce_micro = Some (product (p - cached) cached c x), ce_known = True,
               ce_input = Some (pr_input x), ce_output = Some (pr_output x), ce_currency = pb_currency b,
               ce_version = pb_version b, ce_reason = None\<rparr>)
        | _ \<Rightarrow> unknown)"

section \<open>Operations\<close>

text \<open>\<open>str(value)\<close> of a rate entry; a container's text never parses as a number.\<close>

fun py_str :: "json \<Rightarrow> string" where
  "py_str (JStr s) = s"
| "py_str (JInt i) = show_int i"
| "py_str (JFloat r) = r"
| "py_str (JBool b) = (if b then ''True'' else ''False'')"
| "py_str JNull = ''None''"
| "py_str _ = ''[]''"

definition json_decimal :: "json \<Rightarrow> literal" where
  "json_decimal v = parse_decimal (py_str v)"

text \<open>The telemetry of an operation: its cost, basis and billed units (a float in the code).\<close>

record operation_estimate =
  oe_micro :: "int option"
  oe_known :: bool
  oe_basis :: "string option"
  oe_units :: "dec option"
  oe_unit :: "string option"
  oe_currency :: string
  oe_version :: "string option"

definition unknown_operation :: "book \<Rightarrow> operation_estimate" where
  "unknown_operation b = \<lparr>oe_micro = None, oe_known = False, oe_basis = None, oe_units = None,
     oe_unit = None, oe_currency = pb_currency b, oe_version = pb_version b\<rparr>"

definition to_micro_usd :: "dec \<Rightarrow> nat" where
  "to_micro_usd d = dec_half_up (dec_mult d (dec_of_nat 1000000))"

definition known_operation ::
  "book \<Rightarrow> bool \<Rightarrow> dec \<Rightarrow> string \<Rightarrow> int \<Rightarrow> string \<Rightarrow> operation_estimate" where
  "known_operation b neg cost basis units unit_name = \<lparr>
     oe_micro = Some (if neg then - int (to_micro_usd cost) else int (to_micro_usd cost)),
     oe_known = True, oe_basis = Some basis, oe_units = Some (dec_of_nat (nat units)), oe_unit = Some unit_name,
     oe_currency = pb_currency b, oe_version = pb_version b\<rparr>"

text \<open>
  \<open>estimate_avatar\<close>: one rate per avatar; absent, malformed, infinite or not positive is unknown.
\<close>

definition positive_literal :: "literal \<Rightarrow> dec option" where
  "positive_literal l = (case l of Finite neg d \<Rightarrow> if neg \<or> dc_coef d = 0 then None else Some d | _ \<Rightarrow> None)"

definition estimate_avatar :: "book \<Rightarrow> string \<Rightarrow> int \<Rightarrow> operation_estimate" where
  "estimate_avatar b model count =
     (case map_of (pb_avatars b) model of
        None \<Rightarrow> unknown_operation b
      | Some r \<Rightarrow>
          if count \<le> 0 \<or> obj_get r ''basis'' \<noteq> Some (JStr ''avatar'') then unknown_operation b
          else (case obj_get r ''perAvatarUsd'' of
              None \<Rightarrow> unknown_operation b
            | Some v \<Rightarrow> (case positive_literal (json_decimal v) of
                  None \<Rightarrow> unknown_operation b
                | Some d \<Rightarrow> known_operation b False (dec_mult d (dec_of_nat (nat count))) ''avatar'' count ''avatar'')))"

text \<open>\<open>estimate_avatar_seconds\<close>: live time billed per second from a per-minute price.\<close>

definition estimate_avatar_seconds :: "book \<Rightarrow> string \<Rightarrow> int \<Rightarrow> operation_estimate" where
  "estimate_avatar_seconds b model seconds =
     (case map_of (pb_avatars b) model of
        None \<Rightarrow> unknown_operation b
      | Some r \<Rightarrow>
          if seconds \<le> 0 \<or> obj_get r ''basis'' \<noteq> Some (JStr ''second'') then unknown_operation b
          else (case obj_get r ''perMinuteUsd'' of
              None \<Rightarrow> unknown_operation b
            | Some v \<Rightarrow> (case positive_literal (json_decimal v) of
                  None \<Rightarrow> unknown_operation b
                | Some d \<Rightarrow> known_operation b False
                    (dec_div_nat (dec_mult d (dec_of_nat (nat seconds))) 60) ''second'' seconds ''second'')))"

text \<open>
  \<open>estimate_pages\<close> checks neither sign nor finiteness: a rate that is not finite raises
  (\<open>Inl ()\<close>), a negative one is a negative cost.
\<close>

definition estimate_pages :: "book \<Rightarrow> string \<Rightarrow> int \<Rightarrow> unit + operation_estimate" where
  "estimate_pages b model pages =
     (case map_of (pb_documents b) model of
        None \<Rightarrow> Inr (unknown_operation b)
      | Some r \<Rightarrow>
          if pages \<le> 0 \<or> obj_get r ''basis'' \<noteq> Some (JStr ''page'') then Inr (unknown_operation b)
          else (case obj_get r ''perPageUsd'' of
              None \<Rightarrow> Inr (unknown_operation b)
            | Some v \<Rightarrow> (case json_decimal v of
                  Malformed \<Rightarrow> Inr (unknown_operation b)
                | NonFinite \<Rightarrow> Inl ()
                | Finite neg d \<Rightarrow> Inr (known_operation b neg (dec_mult d (dec_of_nat (nat pages)))
                    ''page'' pages ''page''))))"

section \<open>Lemmas\<close>

text \<open>
  The exact cost, in units of ten to the smaller exponent, and when the calculator computes it:
  while no product and no sum needs more than 28 digits.
\<close>

definition exact_cost :: "nat \<Rightarrow> nat \<Rightarrow> dec \<Rightarrow> dec \<Rightarrow> dec" where
  "exact_cost p c ri ro =
     exact_add (mk_dec (p * dc_coef ri) (dc_exp ri)) (mk_dec (c * dc_coef ro) (dc_exp ro))"

definition cost_fits :: "nat \<Rightarrow> nat \<Rightarrow> dec \<Rightarrow> dec \<Rightarrow> bool" where
  "cost_fits p c ri ro \<longleftrightarrow> p * dc_coef ri < 10 ^ 28 \<and> c * dc_coef ro < 10 ^ 28
     \<and> dc_coef (exact_cost p c ri ro) < 10 ^ 28"

lemma token_cost_exact: "cost_fits p c ri ro \<Longrightarrow> token_cost p c ri ro = exact_cost p c ri ro"
  by (simp add: cost_fits_def token_cost_def dec_mult_def dec_add_def dec_of_nat_def exact_cost_def
      round_dec_exact)

lemma exact_cost_exp: "dc_exp (exact_cost p c ri ro) = min (dc_exp ri) (dc_exp ro)"
  by (simp add: exact_cost_def exact_add_def Let_def)

lemma exact_cost_mono:
  "p \<le> p' \<Longrightarrow> c \<le> c' \<Longrightarrow> dc_coef (exact_cost p c ri ro) \<le> dc_coef (exact_cost p' c' ri ro)"
  by (simp add: exact_cost_def exact_add_def Let_def scaled_def add_mono mult_le_mono)

lemma cost_fits_mono: "cost_fits p' c' ri ro \<Longrightarrow> p \<le> p' \<Longrightarrow> c \<le> c' \<Longrightarrow> cost_fits p c ri ro"
  unfolding cost_fits_def
  by (meson exact_cost_mono le_less_trans mult_le_mono1)

definition frozen_rates :: "string \<Rightarrow> string \<Rightarrow> (dec \<times> dec) option" where
  "frozen_rates i out = (case (nonneg_literal (parse_decimal i), nonneg_literal (parse_decimal out)) of
     (Some ri, Some ro) \<Rightarrow> Some (ri, ro) | _ \<Rightarrow> None)"

lemma conservative_Some:
  "conservative_token_cost p c i out = Some n \<longleftrightarrow> 0 \<le> p \<and> 0 \<le> c \<and>
     (\<exists>ri ro. frozen_rates i out = Some (ri, ro)
        \<and> n = int (dec_ceiling (token_cost (nat p) (nat c) ri ro)) \<and> n \<le> int MAX_COST)"
  by (auto simp: conservative_token_cost_def frozen_rates_def Let_def split: option.splits)

lemma token_cost_scaled:
  assumes "m \<le> dc_exp ri" "m \<le> dc_exp ro"
  shows "scaled (token_cost p c ri ro) m =
      sig28 (sig28 (p * scaled ri m) + sig28 (c * scaled ro m))" "m \<le> dc_exp (token_cost p c ri ro)"
proof -
  have *: "scaled (dec_mult (dec_of_nat q) r) m = sig28 (q * scaled r m)" "m \<le> dc_exp (dec_mult (dec_of_nat q) r)"
    if "m \<le> dc_exp r" for q r
    using that round_dec_exp [of "mk_dec (q * dc_coef r) (dc_exp r)"]
    by (simp_all add: dec_mult_def dec_of_nat_def scaled_round) (simp_all add: scaled_def mult.assoc)
  show "scaled (token_cost p c ri ro) m = sig28 (sig28 (p * scaled ri m) + sig28 (c * scaled ro m))"
    "m \<le> dc_exp (token_cost p c ri ro)"
    using assms by (auto simp: token_cost_def dec_add_def scaled_round scaled_add *
        intro!: order_trans [OF _ round_dec_exp])
qed

text \<open>Rounding or not, more tokens never cost less.\<close>

lemma token_cost_mono:
  assumes "p \<le> p'" "c \<le> c'"
  shows "dec_ceiling (token_cost p c ri ro) \<le> dec_ceiling (token_cost p' c' ri ro)"
proof -
  define m where "m = min (min (dc_exp ri) (dc_exp ro)) 0"
  have m: "m \<le> dc_exp ri" "m \<le> dc_exp ro" "m \<le> 0" by (simp_all add: m_def)
  have "scaled (token_cost p c ri ro) m \<le> scaled (token_cost p' c' ri ro) m"
    unfolding token_cost_scaled(1) [OF m(1,2)] using assms by (intro sig28_mono add_mono mult_le_mono1)
  then show ?thesis
    by (simp add: dec_ceiling_scaled [OF token_cost_scaled(2) [OF m(1,2)] m(3)] ceil_div_mono)
qed

lemma conservative_mono:
  assumes "conservative_token_cost p c i out = Some n" "conservative_token_cost p' c' i out = Some n'"
    "p \<le> p'" "c \<le> c'"
  shows "n \<le> n'"
proof -
  have "nat p \<le> nat p'" "nat c \<le> nat c'" using assms(3,4) by (simp_all add: nat_mono)
  then show ?thesis using assms(1,2) by (auto simp: conservative_Some intro: token_cost_mono)
qed

lemma snapshot_rate:
  "rate (snapshot_token_prices b (Some m) d) m' d' prompt = (if m' = m then rate b m d prompt else None)"
  by (auto simp: schedule_of_def rate_def snapshot_token_prices_def split: option.splits schedule.splits)

section \<open>Properties\<close>

text \<open>
  The token cost is the exact ceiling. When the frozen rates parse and the cost needs at
  most 28 digits, the calculator answers the least whole number of micro-dollars that is not
  below the exact cost, and it answers nothing only if that exceeds the largest safe integer.
\<close>

theorem token_cost_is_ceiling:
  assumes "frozen_rates i out = Some (ri, ro)" "0 \<le> p" "0 \<le> c" "cost_fits (nat p) (nat c) ri ro"
  shows "let x = exact_cost (nat p) (nat c) ri ro in
    case conservative_token_cost p c i out of
      Some n \<Rightarrow> 0 \<le> n \<and> (\<forall>m. nat n \<le> m \<longleftrightarrow> dc_coef x * 10 ^ nat (dc_exp x) \<le> m * 10 ^ nat (- dc_exp x))
    | None \<Rightarrow> \<not> dc_coef x * 10 ^ nat (dc_exp x) \<le> MAX_COST * 10 ^ nat (- dc_exp x)"
proof -
  let ?x = "exact_cost (nat p) (nat c) ri ro"
  have t: "token_cost (nat p) (nat c) ri ro = ?x" by (rule token_cost_exact [OF assms(4)])
  show ?thesis
  proof (cases "conservative_token_cost p c i out")
    case None
    then have "\<not> dec_ceiling ?x \<le> MAX_COST"
      using assms t by (auto simp: conservative_token_cost_def frozen_rates_def Let_def
          split: option.splits if_splits)
    with None show ?thesis by (simp add: dec_ceiling_iff)
  next
    case (Some n)
    then have "n = int (dec_ceiling ?x)" using assms(1) t by (auto simp: conservative_Some)
    with Some show ?thesis by (simp add: dec_ceiling_iff)
  qed
qed

theorem token_cost_is_ceiling_witness:
  "conservative_token_cost 1001 7 ''0.15'' ''0.6'' = Some 155"
proof -
  have r: "frozen_rates ''0.15'' ''0.6'' = Some (mk_dec 15 (- 2), mk_dec 6 (- 1))" by code_simp
  have f: "cost_fits (nat 1001) (nat 7) (mk_dec 15 (- 2)) (mk_dec 6 (- 1))" by code_simp
  have x: "exact_cost (nat 1001) (nat 7) (mk_dec 15 (- 2)) (mk_dec 6 (- 1)) = mk_dec 15435 (- 2)" by code_simp
  have "conservative_token_cost 1001 7 ''0.15'' ''0.6'' \<noteq> None" by code_simp
  then obtain n where n: "conservative_token_cost 1001 7 ''0.15'' ''0.6'' = Some n" by blast
  from token_cost_is_ceiling [OF r _ _ f] n x
  have c: "0 \<le> n" "\<And>m. nat n \<le> m \<longleftrightarrow> 15435 \<le> m * (100 :: nat)" by simp_all
  have "nat n \<le> 155" "\<not> nat n \<le> 154" by (simp_all add: c(2))
  then have "n = 155" using c(1) by simp
  with n show ?thesis by simp
qed

text \<open>
  The 28-digit context can understate. For a token count and a rate that both pass every
  check of the code, rounding the product to 28 digits drops the fraction that should have
  raised the ceiling: the calculator answers one micro-dollar less than the exact cost.
\<close>

theorem token_cost_can_understate:
  "conservative_token_cost 2758491410958903 0 ''0.12345678901234567'' ''0.0'' = Some 340554492115121
   \<and> 340554492115121 * 10 ^ 17 < (2758491410958903 * 12345678901234567 :: nat)"
proof -
  have p: "nonneg_literal (parse_decimal ''0.12345678901234567'') = Some (mk_dec 12345678901234567 (- 17))"
    "nonneg_literal (parse_decimal ''0.0'') = Some (mk_dec 0 (- 1))"
    by code_simp+
  have m: "dec_mult (dec_of_nat 2758491410958903) (mk_dec 12345678901234567 (- 17))
      = mk_dec 3405544921151210000000000000 (- 13)"
    by (simp add: dec_mult_def dec_of_nat_def round_dec_def length_show_nat_step PREC_def
        div_half_even_def Let_def)
  have a: "dec_mult (dec_of_nat 0) (mk_dec 0 (- 1)) = mk_dec 0 (- 1)"
    by (simp add: dec_mult_def dec_of_nat_def round_dec_exact)
  have "token_cost 2758491410958903 0 (mk_dec 12345678901234567 (- 17)) (mk_dec 0 (- 1))
      = mk_dec 3405544921151210000000000000 (- 13)"
    unfolding token_cost_def m a
    by (simp add: dec_add_def exact_add_def scaled_def Let_def round_dec_exact)
  then show ?thesis
    by (simp add: conservative_token_cost_def p dec_ceiling_def ceil_div_def MAX_COST_def)
qed

text \<open>
  an operation without a sound rate is unknown, never free. An avatar, by count or by
  second, has a known cost only under a row of that basis whose rate parses to a finite number
  above zero, and for a positive quantity.
\<close>

theorem avatar_cost_known_iff:
  "(oe_known (estimate_avatar b m n) \<longleftrightarrow>
      0 < n \<and> (\<exists>r v d. map_of (pb_avatars b) m = Some r \<and> obj_get r ''basis'' = Some (JStr ''avatar'')
         \<and> obj_get r ''perAvatarUsd'' = Some v \<and> json_decimal v = Finite False d \<and> dc_coef d \<noteq> 0))
   \<and> (oe_known (estimate_avatar_seconds b m n) \<longleftrightarrow>
      0 < n \<and> (\<exists>r v d. map_of (pb_avatars b) m = Some r \<and> obj_get r ''basis'' = Some (JStr ''second'')
         \<and> obj_get r ''perMinuteUsd'' = Some v \<and> json_decimal v = Finite False d \<and> dc_coef d \<noteq> 0))"
  by (auto simp: estimate_avatar_def estimate_avatar_seconds_def unknown_operation_def known_operation_def
      positive_literal_def split: option.splits literal.splits if_splits)

end
