(* ===== verification/Quota_Coverage.thy ===== *)
theory Quota_Coverage
  imports Quota_Demo Catalog Pricing
begin

text \<open>
  \<open>hard_quota/coverage.py\<close>: which payloads and models have a token and dollar bound, the bound
  that is reserved for a dispatch, and the part of it a provider's usage object gives back. The
  payload is the JSON body as the transport will send it.
\<close>

section \<open>The attempt envelope\<close>

record attempt_envelope =
  env_version :: string
  env_max_attempts :: int

text \<open>\<open>[A-Za-z0-9_.:-]{1,96}\<close>, the shape of a version.\<close>

definition version_text :: "string \<Rightarrow> bool" where
  "version_text s \<longleftrightarrow> 1 \<le> length s \<and> length s \<le> 96
     \<and> list_all (\<lambda>c. is_alnum c \<or> c \<in> {CHR ''_'', CHR ''.'', CHR '':'', CHR ''-''}) s"

definition mk_envelope :: "string \<Rightarrow> int \<Rightarrow> quota_exn + attempt_envelope" where
  "mk_envelope version max_attempts =
     (if \<not> version_text version \<or> \<not> (1 \<le> max_attempts \<and> max_attempts \<le> 64) then Inl ValueError
      else Inr \<lparr>env_version = version, env_max_attempts = max_attempts\<rparr>)"

section \<open>Payloads\<close>

definition TEXT_KINDS :: "string list" where
  "TEXT_KINDS = [''text'', ''input_text'', ''output_text'', ''message'', ''function'', ''function_call'',
     ''function_call_output'', ''tool_use'', ''tool_result'', ''object'', ''string'', ''number'',
     ''integer'', ''boolean'', ''array'', ''null'']"

definition OPAQUE_KEYS :: "string list" where
  "OPAQUE_KEYS = [''audio'', ''image_url'', ''file_id'', ''file_data'', ''encrypted_content'']"

fun text_only :: "json \<Rightarrow> bool" where
  "text_only (JObj fs) =
     ((case map_of fs ''type'' of Some (JStr kind) \<Rightarrow> kind \<in> set TEXT_KINDS | _ \<Rightarrow> True)
      \<and> list_all (\<lambda>f. fst f \<notin> set OPAQUE_KEYS \<and> text_only (snd f)) fs)"
| "text_only (JArr vs) = list_all text_only vs"
| "text_only _ = True"

definition is_str :: "json \<Rightarrow> bool" where
  "is_str v = (case v of JStr _ \<Rightarrow> True | _ \<Rightarrow> False)"

text \<open>\<open>v == 1\<close>: an integer, a boolean and a float compare equal to it.\<close>

definition equals_one :: "json \<Rightarrow> bool" where
  "equals_one v \<longleftrightarrow> v \<in> {JInt 1, JBool True, JFloat ''1.0''}"

definition absent_or :: "(json \<Rightarrow> bool) \<Rightarrow> json \<Rightarrow> string \<Rightarrow> bool" where
  "absent_or p body key = (case obj_get body key of None \<Rightarrow> True | Some v \<Rightarrow> p v)"

text \<open>
  \<open>v not in {...}\<close> over a set of texts: a list or a dictionary is not hashable and raises
  (\<open>None\<close>), anything else but one of the texts is not in it.
\<close>

definition in_texts :: "string list \<Rightarrow> json option \<Rightarrow> bool option" where
  "in_texts ts v = (case v of
     Some (JArr _) \<Rightarrow> None | Some (JObj _) \<Rightarrow> None
   | Some (JStr s) \<Rightarrow> Some (s \<in> set ts) | _ \<Rightarrow> Some False)"

definition text_block :: "json \<Rightarrow> bool option" where
  "text_block b = (case b of
     JObj fs \<Rightarrow>
       if set (map fst fs) \<noteq> {''type'', ''text''} then Some False
       else (case in_texts [''text'', ''input_text'', ''output_text''] (map_of fs ''type'') of
           Some True \<Rightarrow> Some (case map_of fs ''text'' of Some v \<Rightarrow> is_str v | None \<Rightarrow> False)
         | r \<Rightarrow> r)
   | _ \<Rightarrow> Some False)"

text \<open>A Python loop over checks: the first that fails or raises decides.\<close>

fun all_checks :: "('a \<Rightarrow> bool option) \<Rightarrow> 'a list \<Rightarrow> bool option" where
  "all_checks p [] = Some True"
| "all_checks p (x # xs) = (case p x of Some True \<Rightarrow> all_checks p xs | r \<Rightarrow> r)"

definition text_message :: "json \<Rightarrow> bool option" where
  "text_message m = (case m of
     JObj fs \<Rightarrow>
       if \<not> set (map fst fs) \<subseteq> {''role'', ''content'', ''type'', ''name''} then Some False
       else (case in_texts [''system'', ''developer'', ''user'', ''assistant''] (map_of fs ''role'') of
           Some True \<Rightarrow>
             if \<not> absent_or (\<lambda>v. v = JStr ''message'') m ''type'' then Some False
             else (case map_of fs ''content'' of
                 Some (JStr _) \<Rightarrow> Some True
               | Some (JArr bs) \<Rightarrow> if bs = [] then Some False else all_checks text_block bs
               | _ \<Rightarrow> Some False)
         | r \<Rightarrow> r)
   | _ \<Rightarrow> Some False)"

definition text_messages :: "json option \<Rightarrow> bool option" where
  "text_messages ms = (case ms of
     Some (JArr vs) \<Rightarrow> if vs = [] then Some False else all_checks text_message vs
   | _ \<Rightarrow> Some False)"

definition ALLOWED_KEYS :: "string list" where
  "ALLOWED_KEYS = [''model'', ''messages'', ''input'', ''instructions'', ''system'', ''stream'',
     ''stream_options'', ''max_tokens'', ''max_completion_tokens'', ''max_output_tokens'',
     ''temperature'', ''top_p'', ''top_k'', ''presence_penalty'', ''frequency_penalty'', ''seed'',
     ''stop'', ''stop_sequences'', ''reasoning'', ''reasoning_effort'', ''text'',
     ''response_format'', ''store'', ''n'']"

definition text_inputs :: "json \<Rightarrow> bool" where
  "text_inputs body = (case obj_get body ''input'' of
     Some (JArr vs) \<Rightarrow> vs \<noteq> [] \<and> list_all is_str vs | _ \<Rightarrow> False)"

definition supported_attempt_payload :: "surface \<Rightarrow> (string \<times> json) list \<Rightarrow> bool option" where
  "supported_attempt_payload sf payload =
     (let body = JObj payload in
      if sf = SEmbedding
      then Some (set (map fst payload) \<subseteq> {''input'', ''model''} \<and> text_inputs body)
      else if sf \<noteq> SChat \<or> \<not> text_only body then Some False
      else if \<not> set (map fst payload) \<subseteq> set ALLOWED_KEYS then Some False
      else if \<not> absent_or (\<lambda>v. v = JBool False) body ''store'' \<or> \<not> absent_or equals_one body ''n''
      then Some False
      else text_messages (case map_of payload ''messages'' of Some v \<Rightarrow> Some v | None \<Rightarrow> map_of payload ''input''))"

section \<open>The reserved bound\<close>

definition model_for_deployment :: "allow \<Rightarrow> model_catalog \<Rightarrow> string option \<Rightarrow> model_entry option" where
  "model_for_deployment allowed c deployment =
     (case filter (\<lambda>m. list_ex (\<lambda>o1. Some (dp_deploymentName o1) = deployment)
                          (eligible_options allowed c True m)) (mc_models c) of
        [m] \<Rightarrow> Some m | _ \<Rightarrow> None)"

definition mk_bounds :: "bounds \<Rightarrow> quota_exn + bounds" where
  "mk_bounds b = bindE (ensure (bounds_ok b) ValidationError) (\<lambda>_. Inr b)"

definition request_bounds :: "surface \<Rightarrow> bounds" where
  "request_bounds sf = \<lparr>bd_amounts = default_amounts\<lparr>am_compute := compute_units sf\<rparr>,
     bd_basis = (if sf = SCompute then ComputeV1 else RequestV1), bd_priceVersion = None,
     bd_inputRate = None, bd_outputRate = None, bd_attemptVersion = None, bd_maxAttempts = None\<rparr>"

definition truthy :: "json \<Rightarrow> bool" where
  "truthy v = (case v of JNull \<Rightarrow> False | JBool b \<Rightarrow> b | JInt i \<Rightarrow> i \<noteq> 0
     | JFloat r \<Rightarrow> r \<notin> {''0.0'', ''-0.0''} | JStr s \<Rightarrow> s \<noteq> [] | JArr vs \<Rightarrow> vs \<noteq> [] | JObj fs \<Rightarrow> fs \<noteq> [])"

definition positive :: "int option \<Rightarrow> int option" where
  "positive x = (case x of None \<Rightarrow> None | Some n \<Rightarrow> if n \<le> 0 then None else Some n)"

text \<open>The first limit field that is present decides, and must be a positive integer in the model's limit.\<close>

fun requested_output :: "(string \<times> json) list \<Rightarrow> string list \<Rightarrow> int \<Rightarrow> int option" where
  "requested_output payload [] out = Some out"
| "requested_output payload (name # names) out =
     (case map_of payload name of
        None \<Rightarrow> requested_output payload names out
      | Some (JInt n) \<Rightarrow> if n \<le> 0 \<or> out < n then None else Some n
      | Some _ \<Rightarrow> None)"

text \<open>
  What one attempt may use at most, as prompt and completion tokens, when the payload and the
  model have such a bound at all.
\<close>

definition one_attempt ::
  "surface \<Rightarrow> (string \<times> json) list \<Rightarrow> model_entry \<Rightarrow> (int \<times> int \<times> basis) option" where
  "one_attempt sf payload m =
     (case positive (me_contextWindow m) of
        None \<Rightarrow> None
      | Some ctx \<Rightarrow>
          if sf = SEmbedding
          then (if me_category m \<noteq> ''embedding'' then None
                else case map_of payload ''input'' of
                    Some (JArr vs) \<Rightarrow> if vs = [] \<or> \<not> list_all is_str vs then None
                                     else Some (ctx * int (length vs), 0, CatalogEmbeddingV1)
                  | _ \<Rightarrow> None)
          else if \<not> conversational m \<or> \<not> text_only (JObj payload)
                  \<or> \<not> absent_or equals_one (JObj payload) ''n''
                  \<or> list_ex (\<lambda>k. case map_of payload k of None \<Rightarrow> False | Some v \<Rightarrow> truthy v)
                      [''background'', ''previous_response_id'', ''conversation'', ''prediction'', ''audio'']
          then None
          else (case positive (me_maxOutputTokens m) of
              None \<Rightarrow> None
            | Some out \<Rightarrow>
                (case requested_output payload
                        [''max_tokens'', ''max_completion_tokens'', ''max_output_tokens''] out of
                   None \<Rightarrow> None
                 | Some n \<Rightarrow> Some (ctx, n, CatalogTextV1))))"

definition finite_rate :: "string \<Rightarrow> bool" where
  "finite_rate r \<longleftrightarrow> nonneg_literal (parse_decimal r) \<noteq> None"

definition priced_bounds ::
  "book \<Rightarrow> string \<Rightarrow> string option \<Rightarrow> attempt_envelope \<Rightarrow> int \<Rightarrow> int \<Rightarrow> basis \<Rightarrow> quota_exn + bounds" where
  "priced_bounds pricing model deployment env prompt out basis =
     (let snap = snapshot_token_prices pricing (Some model) deployment;
          tokens = prompt + out;
          unpriced = \<lparr>bd_amounts = default_amounts\<lparr>am_tokens := Some tokens\<rparr>, bd_basis = basis,
             bd_priceVersion = None, bd_inputRate = None, bd_outputRate = None,
             bd_attemptVersion = Some (env_version env), bd_maxAttempts = Some (env_max_attempts env)\<rparr>
      in case (rate snap model None None, pb_version snap) of
           (Some r, Some version) \<Rightarrow>
             if pb_currency snap \<noteq> ''USD'' \<or> \<not> version_text version
                \<or> \<not> finite_rate (pr_input r) \<or> \<not> finite_rate (pr_output r)
             then mk_bounds unpriced
             else mk_bounds (unpriced\<lparr>
                 bd_amounts := (bd_amounts unpriced)\<lparr>am_microUsd := ce_micro (estimate_token_bound snap model prompt out)\<rparr>,
                 bd_priceVersion := Some version, bd_inputRate := Some (pr_input r),
                 bd_outputRate := Some (pr_output r)\<rparr>)
         | _ \<Rightarrow> mk_bounds unpriced)"

definition reservation_bounds ::
  "allow \<Rightarrow> surface \<Rightarrow> (string \<times> json) list \<Rightarrow> string option \<Rightarrow> model_catalog \<Rightarrow> book
    \<Rightarrow> attempt_envelope option \<Rightarrow> quota_exn + bounds" where
  "reservation_bounds allowed sf payload deployment c pricing attempts =
     bindE (mk_bounds (request_bounds sf)) (\<lambda>fallback.
     if sf \<notin> {SChat, SEmbedding} then Inr fallback
     else case (attempts, model_for_deployment allowed c deployment) of
         (Some env, Some m) \<Rightarrow>
           (case one_attempt sf payload m of
              None \<Rightarrow> Inr fallback
            | Some (prompt, out, basis) \<Rightarrow> priced_bounds pricing (me_id m) deployment env
                (prompt * env_max_attempts env) (out * env_max_attempts env) basis)
       | _ \<Rightarrow> Inr fallback)"

section \<open>The usage given back\<close>

definition usage_int :: "json \<Rightarrow> int option" where
  "usage_int v = (case v of JInt n \<Rightarrow> if count_ok n then Some n else None | _ \<Rightarrow> None)"

definition mk_amounts :: "amounts \<Rightarrow> quota_exn + amounts" where
  "mk_amounts a = bindE (ensure (amounts_ok a) ValidationError) (\<lambda>_. Inr a)"

text \<open>\<open>Inr None\<close> keeps the whole reservation charged.\<close>

definition actual_amounts :: "bounds \<Rightarrow> json option \<Rightarrow> quota_exn + amounts option" where
  "actual_amounts b raw =
     (let bound = bd_amounts b; back = (\<lambda>a. bindE (mk_amounts a) (\<lambda>x. Inr (Some x))) in
      if am_tokens bound = None \<and> am_microUsd bound = None
      then back (default_amounts\<lparr>am_compute := am_compute bound\<rparr>)
      else if bd_maxAttempts b \<noteq> Some 1 then Inr None
      else case raw of
          Some (JObj fs) \<Rightarrow>
            (case (Option.bind (map_of fs ''prompt_tokens'') usage_int,
                   Option.bind (map_of fs ''completion_tokens'') usage_int) of
               (Some prompt, Some completion) \<Rightarrow>
                 (let total = (case map_of fs ''total_tokens'' of
                        None \<Rightarrow> if count_ok (prompt + completion) then Some (prompt + completion) else None
                      | Some v \<Rightarrow> usage_int v)
                  in if total \<noteq> Some (prompt + completion) then Inr None
                     else (case (bd_inputRate b, bd_outputRate b) of
                         (Some ri, Some ro) \<Rightarrow>
                           (case conservative_token_cost prompt completion ri ro of
                              None \<Rightarrow> Inr None
                            | Some micro \<Rightarrow>
                                if \<not> count_ok micro then Inr None
                                else back \<lparr>am_requests = 1, am_tokens = total, am_microUsd = Some micro,
                                           am_compute = am_compute bound\<rparr>)
                       | _ \<Rightarrow> back \<lparr>am_requests = 1, am_tokens = total, am_microUsd = None,
                                     am_compute = am_compute bound\<rparr>))
             | _ \<Rightarrow> Inr None)
        | _ \<Rightarrow> Inr None)"

section \<open>Lemmas\<close>

lemma mk_bounds_Inr [simp]: "mk_bounds b = Inr b' \<longleftrightarrow> bounds_ok b \<and> b' = b"
  by (auto simp: mk_bounds_def bindE_Inr_iff)

lemma mk_bounds_Inl [simp]: "mk_bounds b = Inl e \<longleftrightarrow> \<not> bounds_ok b \<and> e = ValidationError"
  by (auto simp: mk_bounds_def bindE_Inl_iff)

lemma compute_units_ok [simp]: "count_ok (compute_units sf)" "count_ok 1" "count_ok 0"
  by (simp_all add: count_ok_def compute_units_def MAX_QUANTITY_def)

lemma request_bounds_ok [simp]: "bounds_ok (request_bounds sf)"
  by (simp add: bounds_ok_def request_bounds_def amounts_ok_def default_amounts_def dollar_bound_ok_def)

lemma positive_Some [simp]: "positive x = Some n \<longleftrightarrow> x = Some n \<and> 0 < n"
  by (auto simp: positive_def split: option.splits)

lemma requested_output_Some: "requested_output payload names out = Some n \<Longrightarrow> 0 < out \<Longrightarrow> 0 < n \<and> n \<le> out"
  by (induction payload names out rule: requested_output.induct) (auto split: option.splits json.splits if_splits)

lemma one_attempt_text:
  assumes "one_attempt sf payload m = Some (p, out, bs)" "sf \<noteq> SEmbedding"
  obtains top where "me_contextWindow m = Some p" "0 < p" "conversational m" "text_only (JObj payload)"
    "me_maxOutputTokens m = Some top" "0 < out" "out \<le> top" "bs = CatalogTextV1"
proof -
  from assms obtain top where t: "positive (me_contextWindow m) = Some p" "positive (me_maxOutputTokens m) = Some top"
    and r: "requested_output payload [''max_tokens'', ''max_completion_tokens'', ''max_output_tokens''] top = Some out"
    and rest: "conversational m" "text_only (JObj payload)" "bs = CatalogTextV1"
    unfolding one_attempt_def by (auto simp del: text_only.simps requested_output.simps positive_Some
        split: option.splits if_splits)
  from t requested_output_Some [OF r] rest show ?thesis by (intro that [of top]) simp_all
qed

lemma one_attempt_embedding:
  assumes "one_attempt SEmbedding payload m = Some (p, out, bs)"
  obtains ctx vs where "me_contextWindow m = Some ctx" "0 < ctx" "vs \<noteq> []"
    "map_of payload ''input'' = Some (JArr vs)" "p = ctx * int (length vs)" "out = 0" "bs = CatalogEmbeddingV1"
  using assms by (auto simp: one_attempt_def split: option.splits json.splits if_splits)

lemma one_attempt_positive:
  assumes "one_attempt sf payload m = Some (p, out, bs)"
  shows "0 < p \<and> 0 \<le> out"
proof (cases "sf = SEmbedding")
  case True
  with assms show ?thesis by (auto elim!: one_attempt_embedding)
next
  case False
  with assms show ?thesis by (auto elim!: one_attempt_text)
qed

lemma priced_bounds_shape:
  assumes "priced_bounds pricing m dep env p out bs = Inr b"
  shows "bounds_ok b" "am_requests (bd_amounts b) = 1" "am_compute (bd_amounts b) = 0"
    "am_tokens (bd_amounts b) = Some (p + out)" "bd_maxAttempts b = Some (env_max_attempts env)"
    "bd_attemptVersion b = Some (env_version env)" "bd_basis b = bs"
  using assms by (auto simp: priced_bounds_def Let_def default_amounts_def split: option.splits if_splits)

lemma priced_bounds_dollars:
  assumes "priced_bounds pricing m dep env p out bs = Inr b"
    "am_microUsd (bd_amounts b) = Some n" "bd_inputRate b = Some ri" "bd_outputRate b = Some ro"
  shows "\<exists>r. rate (snapshot_token_prices pricing (Some m) dep) m None None = Some r
    \<and> ri = pr_input r \<and> ro = pr_output r \<and> conservative_token_cost p out ri ro = Some n"
proof -
  have flat: "rate sn m None None = Some r \<Longrightarrow> rate sn m None (Some q) = Some r" for sn q r
    by (auto simp: rate_def split: option.splits schedule.splits)
  from assms show ?thesis
    by (auto simp: priced_bounds_def Let_def default_amounts_def estimate_token_bound_def flat
        split: option.splits if_splits)
qed

lemma reservation_bounds_cases:
  assumes "reservation_bounds allowed sf payload dep c pricing attempts = Inr b"
  obtains "b = request_bounds sf"
  | env m p out bs where "sf \<in> {SChat, SEmbedding}" "attempts = Some env"
      "model_for_deployment allowed c dep = Some m" "one_attempt sf payload m = Some (p, out, bs)"
      "priced_bounds pricing (me_id m) dep env (p * env_max_attempts env) (out * env_max_attempts env) bs = Inr b"
  using assms by (auto simp: reservation_bounds_def bindE_Inr_iff split: option.splits if_splits)

lemma usage_int_Some: "Option.bind x usage_int = Some n \<longleftrightarrow> x = Some (JInt n) \<and> count_ok n"
  by (cases x) (auto simp: usage_int_def split: json.splits)

definition settled_micro :: "bounds \<Rightarrow> int \<Rightarrow> int \<Rightarrow> int option option" where
  "settled_micro b p q = (case (bd_inputRate b, bd_outputRate b) of
     (Some ri, Some ro) \<Rightarrow> map_option Some (conservative_token_cost p q ri ro) | _ \<Rightarrow> Some None)"

lemma actual_tokens:
  assumes "actual_amounts b (Some (JObj fs)) = Inr (Some a)" "am_tokens (bd_amounts b) \<noteq> None"
  obtains p q where "map_of fs ''prompt_tokens'' = Some (JInt p)" "count_ok p"
    "map_of fs ''completion_tokens'' = Some (JInt q)" "count_ok q" "bd_maxAttempts b = Some 1"
    "am_tokens a = Some (p + q)" "settled_micro b p q = Some (am_microUsd a)"
proof -
  have one: "bd_maxAttempts b = Some 1"
    using assms by (auto simp: actual_amounts_def Let_def split: if_splits)
  obtain p q where p: "Option.bind (map_of fs ''prompt_tokens'') usage_int = Some p"
    and q: "Option.bind (map_of fs ''completion_tokens'') usage_int = Some q"
    using assms one by (auto simp: actual_amounts_def Let_def split: option.splits)
  define total where "total = (case map_of fs ''total_tokens'' of
      None \<Rightarrow> if count_ok (p + q) then Some (p + q) else None | Some v \<Rightarrow> usage_int v)"
  have t: "total = Some (p + q)"
    using assms one p q by (auto simp: actual_amounts_def Let_def total_def split: if_splits)
  have a: "am_tokens a = Some (p + q) \<and> settled_micro b p q = Some (am_microUsd a)"
    using assms one p q t
    by (auto simp: actual_amounts_def Let_def total_def [symmetric] settled_micro_def mk_amounts_def
        bindE_Inr_iff split: option.splits if_splits)
  from p q a one show ?thesis by (intro that [of p q]) (simp_all add: usage_int_Some)
qed

lemma actual_amounts_total:
  assumes "bounds_ok b"
  shows "\<exists>a. actual_amounts b raw = Inr a \<and> opt_ok amounts_ok a"
proof -
  have c: "count_ok (am_compute (bd_amounts b))" using assms by (simp add: bounds_ok_def amounts_ok_def)
  have t: "total = Some (p + q) \<Longrightarrow> (case x of None \<Rightarrow> if count_ok (p + q) then Some (p + q) else None
      | Some v \<Rightarrow> usage_int v) = total \<Longrightarrow> count_ok (p + q)" for total x p q
    by (auto simp: usage_int_def split: option.splits if_splits json.splits)
  show ?thesis
    using c by (auto simp: actual_amounts_def Let_def mk_amounts_def amounts_ok_def default_amounts_def
        dest: t split: option.splits json.splits if_splits)
qed

section \<open>Properties\<close>

text \<open>
  a reserved bound is sound. For every payload, model and price book the bound is a valid
  one for exactly one dispatch of its surface, so admission never refuses it for its shape; and
  it bounds tokens only under an attempt envelope, at the full bound of one attempt times the
  attempts of the envelope.
\<close>

theorem reserved_bound_is_sound:
  "case reservation_bounds allowed sf payload dep c pricing attempts of
     Inl e \<Rightarrow> e = ValidationError
   | Inr b \<Rightarrow> bounds_ok b \<and> am_requests (bd_amounts b) = 1 \<and> am_compute (bd_amounts b) = compute_units sf
       \<and> (b = request_bounds sf
          \<or> (\<exists>env m p out. attempts = Some env \<and> model_for_deployment allowed c dep = Some m
               \<and> one_attempt sf payload m = Some (p, out, bd_basis b) \<and> sf \<in> {SChat, SEmbedding}
               \<and> bd_maxAttempts b = Some (env_max_attempts env)
               \<and> am_tokens (bd_amounts b) = Some ((p + out) * env_max_attempts env)))
       \<and> reserve_guards scope key sf b lims s now
          \<notin> {Inl (quota_error NotOneDispatch), Inl (quota_error ComputeUnitsMismatch)}"
proof (cases "reservation_bounds allowed sf payload dep c pricing attempts")
  case (Inl e)
  then have "e = ValidationError"
    by (auto simp: reservation_bounds_def priced_bounds_def Let_def bindE_Inl_iff bindE_Inr_iff
        split: option.splits if_splits)
  with Inl show ?thesis by simp
next
  case (Inr b)
  have st: "bounds_ok b \<and> am_requests (bd_amounts b) = 1 \<and> am_compute (bd_amounts b) = compute_units sf
       \<and> (b = request_bounds sf
          \<or> (\<exists>env m p out. attempts = Some env \<and> model_for_deployment allowed c dep = Some m
               \<and> one_attempt sf payload m = Some (p, out, bd_basis b) \<and> sf \<in> {SChat, SEmbedding}
               \<and> bd_maxAttempts b = Some (env_max_attempts env)
               \<and> am_tokens (bd_amounts b) = Some ((p + out) * env_max_attempts env)))"
    using Inr
  proof (rule reservation_bounds_cases)
    assume "b = request_bounds sf"
    then show ?thesis using request_bounds_ok by (auto simp: request_bounds_def default_amounts_def)
  next
    fix env m p out bs
    assume h: "sf \<in> {SChat, SEmbedding}" "attempts = Some env" "model_for_deployment allowed c dep = Some m"
      "one_attempt sf payload m = Some (p, out, bs)"
      "priced_bounds pricing (me_id m) dep env (p * env_max_attempts env) (out * env_max_attempts env) bs = Inr b"
    show ?thesis using h(1-4) priced_bounds_shape [OF h(5)]
      by (auto simp: compute_units_def distrib_right)
  qed
  have "check_identity s key now \<notin> {Inl (quota_error NotOneDispatch), Inl (quota_error ComputeUnitsMismatch)}"
    by (auto simp: check_identity_def parse_operation_id_def Let_def bindE_Inl_iff split: if_splits)
  with st have "reserve_guards scope key sf b lims s now
      \<notin> {Inl (quota_error NotOneDispatch), Inl (quota_error ComputeUnitsMismatch)}"
    by (auto simp: reserve_guards_def bindE_Inl_iff)
  with Inr st show ?thesis by simp
qed

text \<open>
  C39: usage within the bound never fences the owner. When a single-attempt bound was reserved
  for a payload and the provider reports no more prompt and completion tokens than the bound
  allows, what the settlement charges exceeds neither the token nor the dollar bound, whatever
  the digits of the frozen rates.
\<close>

theorem usage_within_bound_is_covered:
  assumes "reservation_bounds allowed sf payload dep c pricing (Some env) = Inr b"
    and "model_for_deployment allowed c dep = Some m" "one_attempt sf payload m = Some (p, out, bs)"
    and "env_max_attempts env = 1" "sf \<in> {SChat, SEmbedding}"
    and "actual_amounts b (Some (JObj fs)) = Inr (Some a)"
    and "map_of fs ''prompt_tokens'' = Some (JInt up)" "up \<le> p"
    and "map_of fs ''completion_tokens'' = Some (JInt uc)" "uc \<le> out"
  shows "\<not> exceeds_bound (r\<lparr>rs_bounds := b, rs_charged := a\<rparr>)"
proof -
  have b: "priced_bounds pricing (me_id m) dep env p out bs = Inr b"
    using assms(1-5) by (auto simp: reservation_bounds_def bindE_Inr_iff)
  note shape = priced_bounds_shape [OF b]
  from actual_tokens [OF assms(6)] shape(4) assms(7,9)
  have t: "am_tokens a = Some (up + uc)" and d: "settled_micro b up uc = Some (am_microUsd a)"
    by auto
  have "\<not> above (am_tokens a) (am_tokens (bd_amounts b))"
    using shape(4) t assms(8,10) by (simp add: above_def)
  moreover have "\<not> above (am_microUsd a) (am_microUsd (bd_amounts b))"
  proof
    assume "above (am_microUsd a) (am_microUsd (bd_amounts b))"
    then obtain n k where n: "am_microUsd (bd_amounts b) = Some n" and k: "am_microUsd a = Some k" "n < k"
      by (auto simp: above_def split: option.splits)
    with d obtain ri ro where r: "bd_inputRate b = Some ri" "bd_outputRate b = Some ro"
        "conservative_token_cost up uc ri ro = Some k"
      by (auto simp: settled_micro_def split: option.splits)
    from priced_bounds_dollars [OF b n r(1,2)]
    have "conservative_token_cost p out ri ro = Some n" by blast
    from conservative_mono [OF r(3) this assms(8,10)] k(2) show False by simp
  qed
  ultimately show ?thesis by (simp add: exceeds_bound_def)
qed

definition demo_book :: book where
  "demo_book = \<lparr>pb_rates = [(''gpt-5'', Flat \<lparr>pr_input = ''1.25'', pr_output = ''10.0'', pr_cache = None\<rparr>)],
     pb_scoped = [], pb_images = [], pb_documents = [], pb_avatars = [], pb_currency = ''USD'',
     pb_version = Some ''2026-07''\<rparr>"

definition demo_payload :: "(string \<times> json) list" where
  "demo_payload = [(''model'', JStr ''gpt-5''),
     (''messages'', JArr [JObj [(''role'', JStr ''user''), (''content'', JStr ''hi'')]]),
     (''max_completion_tokens'', JInt 40)]"

definition demo_envelope :: attempt_envelope where
  "demo_envelope = \<lparr>env_version = ''ai4ia-one-attempt-v1'', env_max_attempts = 1\<rparr>"

definition demo_usage_object :: "(string \<times> json) list" where
  "demo_usage_object = [(''prompt_tokens'', JInt 9), (''completion_tokens'', JInt 40), (''total_tokens'', JInt 49)]"

definition demo_text_bounds :: bounds where
  "demo_text_bounds = \<lparr>bd_amounts = \<lparr>am_requests = 1, am_tokens = Some 1040, am_microUsd = Some 1650, am_compute = 0\<rparr>,
     bd_basis = CatalogTextV1, bd_priceVersion = Some ''2026-07'', bd_inputRate = Some ''1.25'',
     bd_outputRate = Some ''10.0'', bd_attemptVersion = Some ''ai4ia-one-attempt-v1'', bd_maxAttempts = Some 1\<rparr>"

lemma demo_bounds_reserved:
  "reservation_bounds (\<lambda>_ _. True) SChat demo_payload (Some ''gpt-5-swe'') demo_catalog demo_book
     (Some demo_envelope) = Inr demo_text_bounds"
  by code_simp

lemma demo_usage_back:
  "actual_amounts demo_text_bounds (Some (JObj demo_usage_object))
     = Inr (Some \<lparr>am_requests = 1, am_tokens = Some 49, am_microUsd = Some 412, am_compute = 0\<rparr>)"
  by code_simp

theorem usage_within_bound_is_covered_witness:
  "actual_amounts demo_text_bounds (Some (JObj demo_usage_object))
     = Inr (Some \<lparr>am_requests = 1, am_tokens = Some 49, am_microUsd = Some 412, am_compute = 0\<rparr>)
   \<and> \<not> exceeds_bound (demo_record\<lparr>rs_bounds := demo_text_bounds,
       rs_charged := \<lparr>am_requests = 1, am_tokens = Some 49, am_microUsd = Some 412, am_compute = 0\<rparr>\<rparr>)"
proof -
  have m: "model_for_deployment (\<lambda>_ _. True) demo_catalog (Some ''gpt-5-swe'') = Some demo_model" by code_simp
  have o: "one_attempt SChat demo_payload demo_model = Some (1000, 40, CatalogTextV1)" by code_simp
  have u: "map_of demo_usage_object ''prompt_tokens'' = Some (JInt 9)"
    "map_of demo_usage_object ''completion_tokens'' = Some (JInt 40)" by code_simp+
  show ?thesis
    using demo_usage_back usage_within_bound_is_covered [OF demo_bounds_reserved m o _ _ demo_usage_back u(1) _ u(2)]
    by (simp add: demo_envelope_def)
qed

text \<open>
  The two readings of a payload agree. A chat payload that the gateway's attempt check
  supports passes every payload condition of the bound, so for a conversational model with a
  context window and an output limit that covers the limit field, a token bound is reserved.
\<close>

theorem supported_payload_is_bounded:
  assumes "supported_attempt_payload SChat payload = Some True"
    and "conversational m" "me_contextWindow m = Some ctx" "0 < ctx"
    and "me_maxOutputTokens m = Some lim" "0 < lim"
    and "requested_output payload [''max_tokens'', ''max_completion_tokens'', ''max_output_tokens''] lim = Some n"
  shows "one_attempt SChat payload m = Some (ctx, n, CatalogTextV1)"
proof -
  from assms(1) have "text_only (JObj payload)" "absent_or equals_one (JObj payload) ''n''"
    and k: "set (map fst payload) \<subseteq> set ALLOWED_KEYS"
    by (auto simp: supported_attempt_payload_def Let_def simp del: text_only.simps split: if_splits)
  moreover have "map_of payload key = None"
    if "key \<in> {''background'', ''previous_response_id'', ''conversation'', ''prediction'', ''audio''}" for key
    using k that by (auto simp: map_of_eq_None_iff ALLOWED_KEYS_def)
  ultimately show ?thesis
    using assms(2-) by (simp add: one_attempt_def positive_def del: text_only.simps)
qed

theorem supported_payload_is_bounded_witness:
  "one_attempt SChat demo_payload demo_model = Some (1000, 40, CatalogTextV1)"
proof (rule supported_payload_is_bounded)
  show "supported_attempt_payload SChat demo_payload = Some True" by code_simp
  show "requested_output demo_payload [''max_tokens'', ''max_completion_tokens'', ''max_output_tokens''] 100 = Some 40"
    by code_simp
qed (code_simp, simp_all add: demo_model_def)

end
