(* ===== verification/Quota_Dispatch.thy ===== *)
theory Quota_Dispatch
  imports Quota_Lifecycle Quota_Coverage
begin

text \<open>
  \<open>hard_quota/dispatch.py\<close>: the seam every outbound metered call goes through. A claim reserves
  and dispatches under two policy reads, the body of the call runs with a lease, and whatever way
  it ends the reservation is settled from what the lease reports.

  What is outside is one argument: the answers of the entitlement store and of the authorisation
  (\<open>policy/dispatch.py\<close>) at each of their calls, the envelope a gateway attempt has bound, the
  clock, and what other replicas do to the store between and during its calls. The body of the
  caller is the list of its reports and the way it ends.
\<close>

section \<open>State\<close>

datatype failure = FQuota quota_exn | FEntitlement store_error | FCancelled | FTimeout | FOther

record admission_context =
  cx_owner :: string
  cx_root :: string
  cx_issued_at :: "int option"
  cx_sequence :: int
  cx_evidence :: "admission_evidence list"
  cx_evidence_count :: int

definition new_context :: "string \<Rightarrow> string \<Rightarrow> int option \<Rightarrow> admission_context" where
  "new_context owner root issued_at = \<lparr>cx_owner = owner, cx_root = root, cx_issued_at = issued_at,
     cx_sequence = 0, cx_evidence = [], cx_evidence_count = 0\<rparr>"

record 's controller =
  ct_enabled :: bool
  ct_store :: bool
  ct_read :: "'s \<Rightarrow> int \<Rightarrow> string \<Rightarrow> quota_exn + snapshot"
  ct_replace :: "'s \<Rightarrow> string \<Rightarrow> snapshot \<Rightarrow> quota_state \<Rightarrow> quota_exn + (bool \<times> 's)"
  ct_scope :: "int option"
  ct_catalog :: model_catalog
  ct_pricing :: book
  ct_attempts :: "attempt_envelope option"

record 's outside =
  os_sha :: "string \<Rightarrow> string"
  os_policy :: "failure + entitlement"
  os_latest :: "failure + entitlement"
  os_authorize :: "failure option"
  os_authorize_final :: "failure option"
  os_binding_enabled :: bool
  os_allowed :: allow
  os_envelope :: "attempt_envelope option"
  os_gap :: "nat \<Rightarrow> 's \<Rightarrow> 's"
  os_env :: "nat \<Rightarrow> nat \<Rightarrow> 's \<Rightarrow> 's"
  os_clock :: "nat \<Rightarrow> nat \<Rightarrow> int"

definition current_admission_evidence ::
  "(admission_context \<times> bool) option \<Rightarrow> string \<Rightarrow> admission_evidence list \<times> int option" where
  "current_admission_evidence current owner = (case current of
     None \<Rightarrow> ([], None)
   | Some (cx, enabled) \<Rightarrow> if cx_owner cx \<noteq> owner \<or> \<not> enabled then ([], None)
                          else (cx_evidence cx, Some (cx_evidence_count cx)))"

record lease =
  le_reservation :: "reservation option"
  le_outcome :: outcome
  le_usage :: "json option"
  le_completed :: bool
  le_payload :: "(string \<times> json) list"

definition new_lease :: "reservation option \<Rightarrow> (string \<times> json) list \<Rightarrow> lease" where
  "new_lease res payload = \<lparr>le_reservation = res, le_outcome = OError, le_usage = None,
     le_completed = False, le_payload = payload\<rparr>"

definition lease_report :: "lease \<Rightarrow> json option \<times> bool \<Rightarrow> lease" where
  "lease_report le rep = (let (usage, complete) = rep in
     le\<lparr>le_usage := (if usage = None then le_usage le else usage),
        le_completed := (le_completed le \<or> complete),
        le_outcome := (if complete then OComplete else le_outcome le)\<rparr>)"

definition lease_end :: "failure option \<Rightarrow> lease \<Rightarrow> lease" where
  "lease_end f le = (case f of
     Some FCancelled \<Rightarrow> le\<lparr>le_outcome := OCancelled, le_completed := False\<rparr>
   | Some FTimeout \<Rightarrow> le\<lparr>le_outcome := OTimeout, le_completed := False\<rparr>
   | _ \<Rightarrow> le)"

section \<open>The claim\<close>

definition dispatch_payload ::
  "string option \<Rightarrow> string option \<Rightarrow> (string \<times> json) list \<Rightarrow> json" where
  "dispatch_payload deployment tgt payload = JObj [(''deployment'', opt_json JStr deployment),
     (''target'', opt_json JStr tgt), (''body'', JObj payload)]"

text \<open>The second policy read, after coordination and right before egress is claimed.\<close>

definition claim_dispatch ::
  "'s controller \<Rightarrow> 's outside \<Rightarrow> string \<Rightarrow> entitlement \<Rightarrow> reservation \<Rightarrow> 's \<Rightarrow> (failure + reservation) \<times> 's" where
  "claim_dispatch ct out owner policy res s =
     (let s1 = os_gap out 2 s;
          give_back = (\<lambda>e. (case release (ct_read ct) (ct_replace ct) (os_env out 2) (os_clock out 2)
                                   (ct_scope ct) owner res s1 of
                              (Inl err, s2) \<Rightarrow> (Inl (FQuota err), s2)
                            | (Inr _, s2) \<Rightarrow> (Inl (FQuota e), s2)))
      in case os_latest out of
           Inl e \<Rightarrow> (Inl e, s1)
         | Inr latest \<Rightarrow>
             if lim_disabled latest then give_back (QuotaError AccountDisabled 403)
             else if latest \<noteq> policy then give_back (QuotaError PolicyChanged 409)
             else (case dispatch (ct_read ct) (ct_replace ct) (os_env out 2) (os_clock out 2)
                          (ct_scope ct) owner res s1 of
                 (Inl err, s2) \<Rightarrow> (Inl (FQuota err), s2)
               | (Inr r, s2) \<Rightarrow> (Inr r, s2)))"

text \<open>\<open>AdmissionController._attempts\<close>: a bound gateway attempt wins over the controller's envelope.\<close>

definition claim_attempts :: "'s controller \<Rightarrow> 's outside \<Rightarrow> attempt_envelope option" where
  "claim_attempts ct out = (case os_envelope out of Some e \<Rightarrow> Some e | None \<Rightarrow> ct_attempts ct)"

definition claim ::
  "'s controller \<Rightarrow> 's outside \<Rightarrow> admission_context \<Rightarrow> surface \<Rightarrow> (string \<times> json) list \<Rightarrow> string option
    \<Rightarrow> string option \<Rightarrow> 's \<Rightarrow> (failure + reservation option) \<times> admission_context \<times> 's" where
  "claim ct out cx sf payload deployment tgt s =
     (case os_policy out of
        Inl e \<Rightarrow> (Inl e, cx, s)
      | Inr policy \<Rightarrow>
          if lim_disabled policy then (Inl (FQuota (QuotaError AccountDisabled 403)), cx, s)
          else if \<not> ct_enabled ct then (Inr None, cx, s)
          else if \<not> ct_store ct then (Inl (FQuota (quota_error CoordinationUnavailable)), cx, s)
          else (let s0 = os_gap out 0 s in
            case ct_read ct s0 (os_clock out 0 0) (cx_owner cx) of
              Inl e \<Rightarrow> (Inl (FQuota e), cx, s0)
            | Inr sn \<Rightarrow>
                (let issued = (case cx_issued_at cx of Some t \<Rightarrow> t | None \<Rightarrow> sn_now sn);
                     cx1 = cx\<lparr>cx_issued_at := (if cx_issued_at cx = None \<and> ct_scope ct = None
                                                then Some issued else cx_issued_at cx),
                              cx_sequence := cx_sequence cx + 1\<rparr>
                 in case operation_id (os_sha out) (qs_epoch (sn_state sn)) issued
                           (cx_root cx @ '':'' @ show_int (cx_sequence cx1)) of
                      Inl e \<Rightarrow> (Inl (FQuota e), cx1, s0)
                    | Inr key \<Rightarrow>
                        (case reservation_bounds (os_allowed out) sf payload deployment (ct_catalog ct)
                                (ct_pricing ct) (claim_attempts ct out) of
                           Inl e \<Rightarrow> (Inl (FQuota e), cx1, s0)
                         | Inr bd \<Rightarrow>
                             (case reserve (ct_read ct) (ct_replace ct) (os_env out 1) (os_clock out 1)
                                     (os_sha out) (ct_scope ct) (cx_owner cx) key
                                     (dispatch_payload deployment tgt payload) sf bd policy (os_gap out 1 s0) of
                                (Inl e, s1) \<Rightarrow> (Inl (FQuota e), cx1, s1)
                              | (Inr res, s1) \<Rightarrow>
                                  (case claim_dispatch ct out (cx_owner cx) policy res s1 of
                                     (Inl e, s2) \<Rightarrow> (Inl e, cx1, s2)
                                   | (Inr r, s2) \<Rightarrow> (Inr (Some r), cx1, s2)))))))"

section \<open>The lease\<close>

text \<open>Evidence of a claim: counted always, kept while there is room; the index is where it is kept.\<close>

definition note_evidence ::
  "(string \<Rightarrow> string) \<Rightarrow> reservation \<Rightarrow> admission_context \<Rightarrow> admission_context \<times> nat option" where
  "note_evidence sha record cx =
     (let cx1 = cx\<lparr>cx_evidence_count := cx_evidence_count cx + 1\<rparr> in
      if length (cx_evidence cx) < MAX_ADMISSION_EVIDENCE
      then (cx1\<lparr>cx_evidence := cx_evidence cx @ [from_record sha record]\<rparr>, Some (length (cx_evidence cx)))
      else (cx1, None))"

text \<open>The \<open>finally\<close> of a lease: settle and put the evidence of the settlement in its place.\<close>

definition finish_lease ::
  "'s controller \<Rightarrow> 's outside \<Rightarrow> reservation \<Rightarrow> nat option \<Rightarrow> lease \<Rightarrow> admission_context \<Rightarrow> 's
    \<Rightarrow> (quota_exn + reservation) \<times> admission_context \<times> 's" where
  "finish_lease ct out record idx le cx s =
     (case (if le_completed le then actual_amounts (rs_bounds record) (le_usage le) else Inr None) of
        Inl e \<Rightarrow> (Inl e, cx, s)
      | Inr actual \<Rightarrow>
          (case settle (ct_read ct) (ct_replace ct) (os_env out 3) (os_clock out 3) (os_sha out) (ct_scope ct)
                  (cx_owner cx) record (le_outcome le) actual (os_gap out 3 s) of
             (Inl e, s1) \<Rightarrow> (Inl e, cx, s1)
           | (Inr settled, s1) \<Rightarrow>
               (Inr settled,
                (case idx of None \<Rightarrow> cx
                 | Some i \<Rightarrow> cx\<lparr>cx_evidence := (cx_evidence cx)[i := from_record (os_sha out) settled]\<rparr>),
                s1)))"

record body =
  bo_reports :: "(json option \<times> bool) list"
  bo_ending :: "failure option"

text \<open>
  What a dispatch comes to: the exception that leaves it, the lease the body ran with (none if it
  never ran), the settled record, the context and the store.
\<close>

record 's run =
  rn_error :: "failure option"
  rn_lease :: "lease option"
  rn_settled :: "reservation option"
  rn_context :: "admission_context option"
  rn_store :: 's

definition stopped :: "failure \<Rightarrow> admission_context option \<Rightarrow> 's \<Rightarrow> 's run" where
  "stopped e cx s = \<lparr>rn_error = Some e, rn_lease = None, rn_settled = None, rn_context = cx, rn_store = s\<rparr>"

text \<open>
  The \<open>try\<close> of the lease: the final authorisation, then the caller's own authorisation \<open>pre\<close> and
  its body, and on the way out the settlement, whose exception replaces the one in flight.
\<close>

definition run_lease ::
  "'s controller \<Rightarrow> 's outside \<Rightarrow> failure option \<Rightarrow> body \<Rightarrow> reservation option \<Rightarrow> nat option \<Rightarrow> lease
    \<Rightarrow> admission_context \<Rightarrow> 's \<Rightarrow> 's run" where
  "run_lease ct out pre b record idx le0 cx s =
     (let stop = (case os_authorize_final out of Some e \<Rightarrow> Some e | None \<Rightarrow> pre);
          le = (case stop of
                  Some e \<Rightarrow> lease_end (Some e) le0
                | None \<Rightarrow> lease_end (bo_ending b) (foldl lease_report le0 (bo_reports b)));
          failed = (case stop of Some e \<Rightarrow> Some e | None \<Rightarrow> bo_ending b);
          ran = (if stop = None then Some le else None)
      in case record of
           None \<Rightarrow> \<lparr>rn_error = failed, rn_lease = ran, rn_settled = None, rn_context = Some cx, rn_store = s\<rparr>
         | Some r \<Rightarrow>
             (case finish_lease ct out r idx le cx s of
                (Inl e, cx1, s1) \<Rightarrow> \<lparr>rn_error = Some (FQuota e), rn_lease = ran, rn_settled = None,
                   rn_context = Some cx1, rn_store = s1\<rparr>
              | (Inr settled, cx1, s1) \<Rightarrow> \<lparr>rn_error = failed, rn_lease = ran, rn_settled = Some settled,
                   rn_context = Some cx1, rn_store = s1\<rparr>))"

definition quota_dispatch ::
  "'s controller \<Rightarrow> 's outside \<Rightarrow> admission_context option \<Rightarrow> surface \<Rightarrow> (string \<times> json) list
    \<Rightarrow> string option \<Rightarrow> string option \<Rightarrow> bool \<Rightarrow> bool \<Rightarrow> failure option \<Rightarrow> body \<Rightarrow> 's \<Rightarrow> 's run" where
  "quota_dispatch ct out context_opt sf payload deployment tgt required policy_required pre b s =
     (let must_freeze = (policy_required \<or> context_opt \<noteq> None \<and> ct_enabled ct \<or> os_binding_enabled out) in
      if must_freeze \<and> has_nan (JObj payload) then stopped (FQuota ValueError) context_opt s
      else case os_authorize out of
          Some e \<Rightarrow> stopped e context_opt s
        | None \<Rightarrow>
            (case context_opt of
               None \<Rightarrow>
                 if required then stopped (FQuota (quota_error NoAuthenticatedOwner)) None s
                 else (case (case os_authorize_final out of Some e \<Rightarrow> Some e | None \<Rightarrow> pre) of
                     Some e \<Rightarrow> stopped e None s
                   | None \<Rightarrow> \<lparr>rn_error = bo_ending b,
                       rn_lease = Some (foldl lease_report (new_lease None payload) (bo_reports b)),
                       rn_settled = None, rn_context = None, rn_store = s\<rparr>)
             | Some cx \<Rightarrow>
                 if required \<and> \<not> ct_enabled ct
                 then stopped (FQuota (quota_error IncompatibleCoordination)) context_opt s
                 else (case claim ct out cx sf payload deployment tgt s of
                     (Inl e, cx1, s1) \<Rightarrow> stopped e (Some cx1) s1
                   | (Inr None, cx1, s1) \<Rightarrow>
                       run_lease ct out pre b None None (new_lease None payload) cx1 s1
                   | (Inr (Some r), cx1, s1) \<Rightarrow>
                       (let (cx2, idx) = note_evidence (os_sha out) r cx1 in
                        run_lease ct out pre b (Some r) idx (new_lease (Some r) payload) cx2 s1))))"

section \<open>Under a workflow\<close>

text \<open>
  A workflow ledger brackets the dispatch: a ticket before it, its own authorisation as the first
  thing inside the lease, and a report after it. \<open>wf_begin\<close> and \<open>wf_authorize\<close> are the exceptions of
  the first two; the report is a value of the result, \<open>None\<close> when no ticket was issued.
\<close>

record workflow_scope =
  wf_owner :: string
  wf_begin :: "failure option"
  wf_authorize :: "failure option"
  wf_after :: "failure option"

record workflow_report =
  wr_usage :: "json option"
  wr_completed :: bool
  wr_outcome :: outcome

text \<open>The outcome of the lease is taken over only when the body ended normally.\<close>

definition after_dispatch :: "body \<Rightarrow> 's run \<Rightarrow> workflow_report" where
  "after_dispatch b rn =
     \<lparr>wr_usage = (case rn_lease rn of None \<Rightarrow> None | Some le \<Rightarrow> le_usage le),
      wr_completed = (case rn_lease rn of None \<Rightarrow> False | Some le \<Rightarrow> le_completed le),
      wr_outcome = (case rn_error rn of
          Some FCancelled \<Rightarrow> OCancelled
        | Some FTimeout \<Rightarrow> OTimeout
        | _ \<Rightarrow> (case rn_lease rn of None \<Rightarrow> OError
                | Some le \<Rightarrow> if bo_ending b = None then le_outcome le else OError))\<rparr>"

definition admitted_dispatch ::
  "'s controller \<Rightarrow> 's outside \<Rightarrow> admission_context option \<Rightarrow> bool \<Rightarrow> workflow_scope option \<Rightarrow> surface
    \<Rightarrow> (string \<times> json) list \<Rightarrow> string option \<Rightarrow> string option \<Rightarrow> bool \<Rightarrow> bool \<Rightarrow> body \<Rightarrow> 's
    \<Rightarrow> 's run \<times> workflow_report option" where
  "admitted_dispatch ct out cx no_replay workflow sf payload deployment tgt required policy_required b s =
     (if no_replay \<and> (cx = None \<or> os_envelope out = None)
      then (stopped (FQuota (quota_error NoAttemptBinding)) cx s, None)
      else case workflow of
          None \<Rightarrow> (quota_dispatch ct out cx sf payload deployment tgt required policy_required None b s, None)
        | Some w \<Rightarrow>
            if cx \<noteq> None \<and> cx_owner (the cx) \<noteq> wf_owner w
            then (stopped (FQuota (quota_error WorkflowOwnerMismatch)) cx s, None)
            else if has_nan (JObj payload) then (stopped (FQuota ValueError) cx s, None)
            else (case wf_begin w of
                Some e \<Rightarrow> (stopped e cx s, None)
              | None \<Rightarrow>
                  (let rn = quota_dispatch ct out cx sf payload deployment tgt required policy_required
                              (wf_authorize w) b s
                   in (case wf_after w of None \<Rightarrow> rn | Some e \<Rightarrow> rn\<lparr>rn_error := Some e\<rparr>,
                       Some (after_dispatch b rn)))))"

section \<open>Lemmas\<close>

lemma change_loop_result:
  assumes "\<And>st now u r. change st now = Inr (u, r) \<Longrightarrow> P r"
    and "change_loop rd rp env clock scope ow change n k s = (Inr r, s')"
  shows "P r"
  using assms(2)
proof (induction n arbitrary: k s)
  case (Suc n)
  have at: "P x" if "attempt scope ow sn change = Inr (u, x)" for sn u x
    using that assms(1) by (auto simp: attempt_def Let_def bindE_Inr_iff)
  from Suc show ?case
    by (auto split: sum.splits prod.splits bool.splits dest: at)
qed simp

lemma reserve_result:
  assumes "reserve rd rp env clock sha scope ow key payload sf bd lims s = (Inr r, s')"
  shows "rs_payloadDigest r = sha (canonical_json (reserve_payload ow sf payload bd))"
proof -
  from assms obtain digest where d: "canonical_digest sha (reserve_payload ow sf payload bd) = Inr digest"
    and c: "change_loop rd rp env clock scope ow (reserve_change scope key digest sf bd lims) MAX_CAS_ATTEMPTS 0 s
        = (Inr r, s')"
    by (auto simp: reserve_def run_change_def split: sum.splits)
  have "rs_payloadDigest x = digest" if "reserve_change scope key digest sf bd lims st now = Inr (u, x)" for st now u x
    using that by (auto simp: reserve_change_def reserve_again_def reserve_new_def mk_reservation_def Let_def
        bindE_Inr_iff split: option.splits if_splits)
  from change_loop_result [of _ "\<lambda>x. rs_payloadDigest x = digest", OF this c] d show ?thesis
    by (auto simp: canonical_digest_def split: if_splits)
qed

lemma dispatch_result:
  assumes "dispatch rd rp env clock scope ow res s = (Inr r, s')"
  shows "rs_phase r = Dispatched \<and> rs_payloadDigest r = rs_payloadDigest res"
proof -
  have "rs_phase x = Dispatched \<and> rs_payloadDigest x = rs_payloadDigest res"
    if "dispatch_change res st now = Inr (u, x)" for st now u x
    using that by (auto simp: dispatch_change_def owned_record_def Let_def bindE_Inr_iff
        split: option.splits if_splits)
  from change_loop_result [of _ "\<lambda>x. rs_phase x = Dispatched \<and> rs_payloadDigest x = rs_payloadDigest res",
      OF this assms [unfolded dispatch_def run_change_def]]
  show ?thesis .
qed

text \<open>What a claim that grants rests on.\<close>

definition granted :: "'s controller \<Rightarrow> 's outside \<Rightarrow> string \<Rightarrow> surface \<Rightarrow> (string \<times> json) list
    \<Rightarrow> string option \<Rightarrow> string option \<Rightarrow> reservation \<Rightarrow> bool" where
  "granted ct out ow sf payload deployment tgt r \<longleftrightarrow> rs_phase r = Dispatched
     \<and> (\<exists>p bd. os_policy out = Inr p \<and> os_latest out = Inr p \<and> \<not> lim_disabled p
         \<and> reservation_bounds (os_allowed out) sf payload deployment (ct_catalog ct) (ct_pricing ct)
             (claim_attempts ct out) = Inr bd
         \<and> rs_payloadDigest r
             = os_sha out (canonical_json (reserve_payload ow sf (dispatch_payload deployment tgt payload) bd)))"

lemma claim_dispatch_Inr:
  assumes "claim_dispatch ct out ow policy res s = (Inr r, s')"
  shows "os_latest out = Inr policy \<and> \<not> lim_disabled policy \<and> rs_phase r = Dispatched
    \<and> rs_payloadDigest r = rs_payloadDigest res"
  using assms dispatch_result
  by (fastforce simp: claim_dispatch_def Let_def split: sum.splits prod.splits if_splits)

lemma claim_Some:
  assumes "claim ct out cx sf payload deployment tgt s = (Inr (Some r), cx1, s1)"
  shows "granted ct out (cx_owner cx) sf payload deployment tgt r" "ct_enabled ct" "cx_owner cx1 = cx_owner cx"
proof -
  have "granted ct out (cx_owner cx) sf payload deployment tgt r \<and> ct_enabled ct \<and> cx_owner cx1 = cx_owner cx"
    using assms
    by (auto simp: claim_def Let_def granted_def split: sum.splits prod.splits if_splits
        dest!: claim_dispatch_Inr reserve_result)
  then show "granted ct out (cx_owner cx) sf payload deployment tgt r" "ct_enabled ct" "cx_owner cx1 = cx_owner cx"
    by blast+
qed

lemma claim_None:
  assumes "claim ct out cx sf payload deployment tgt s = (Inr None, cx1, s1)"
  shows "\<not> ct_enabled ct"
  using assms by (auto simp: claim_def Let_def split: sum.splits prod.splits if_splits)

lemma lease_reports_keep:
  "le_reservation (foldl lease_report le reps) = le_reservation le
    \<and> le_payload (foldl lease_report le reps) = le_payload le"
  by (induction reps arbitrary: le) (auto simp: lease_report_def Let_def split: prod.splits)

lemma lease_end_keeps [simp]:
  "le_reservation (lease_end f le) = le_reservation le" "le_payload (lease_end f le) = le_payload le"
  by (auto simp: lease_end_def split: option.splits failure.splits)

lemma run_lease_ran:
  assumes "rn_lease (run_lease ct out pre b record idx le0 cx s) = Some le"
  shows "os_authorize_final out = None \<and> pre = None \<and> le_reservation le = le_reservation le0
    \<and> le_payload le = le_payload le0"
  using assms lease_reports_keep
  by (auto simp: run_lease_def Let_def split: option.splits sum.splits prod.splits if_splits)

lemma quota_dispatch_ran:
  assumes "rn_lease (quota_dispatch ct out cx sf payload deployment tgt required policy_required pre b s) = Some le"
  shows "os_authorize out = None \<and> os_authorize_final out = None \<and> pre = None \<and> le_payload le = payload
    \<and> (case cx of None \<Rightarrow> \<not> required \<and> le_reservation le = None
       | Some c \<Rightarrow> if ct_enabled ct
           then \<exists>r. le_reservation le = Some r \<and> granted ct out (cx_owner c) sf payload deployment tgt r
           else \<not> required \<and> le_reservation le = None)"
  using assms lease_reports_keep
  by (auto simp: quota_dispatch_def Let_def stopped_def new_lease_def
      split: option.splits sum.splits prod.splits if_splits
      dest!: run_lease_ran dest: claim_Some claim_None)

lemma attempt_untag:
  assumes "attempt scope ow sn (change_of scope (RSettle res out actual digest)) = Inr (st, Record r)"
  shows "attempt scope ow sn (settle_change scope res out actual digest) = Inr (st, r)"
  using assms by (auto simp: attempt_def Let_def bindE_Inr_iff)

lemma settlement_not_nan [simp]: "\<not> has_nan (settlement_json out actual)"
  by (cases actual) (auto simp: settlement_json_def amounts_json_def opt_json_def split: option.splits)

section \<open>Properties\<close>

text \<open>
  C37: no egress without admission. Whenever the body of a dispatch runs, both authorisations
  passed and it runs with exactly the payload given; with admission switched on it holds a
  dispatched reservation for that payload, deployment and target under its digest, granted under
  one enabled policy read before coordination and unchanged right before egress; and a site that
  requires admission never runs its body without it.
\<close>

theorem egress_needs_admission:
  "case rn_lease (fst (admitted_dispatch ct out cx no_replay workflow sf payload deployment tgt required
        policy_required b s)) of
     None \<Rightarrow> True
   | Some le \<Rightarrow> os_authorize out = None \<and> os_authorize_final out = None \<and> le_payload le = payload
       \<and> (case cx of None \<Rightarrow> \<not> required \<and> \<not> no_replay \<and> le_reservation le = None
          | Some c \<Rightarrow> if ct_enabled ct
              then \<exists>r. le_reservation le = Some r \<and> granted ct out (cx_owner c) sf payload deployment tgt r
              else \<not> required \<and> le_reservation le = None)"
proof (cases "rn_lease (fst (admitted_dispatch ct out cx no_replay workflow sf payload deployment tgt required
        policy_required b s))")
  case (Some le)
  then obtain pre where
    "rn_lease (quota_dispatch ct out cx sf payload deployment tgt required policy_required pre b s) = Some le"
    "cx = None \<longrightarrow> \<not> no_replay"
    by (auto simp: admitted_dispatch_def Let_def stopped_def split: option.splits if_splits)
  with quota_dispatch_ran [OF this(1)] Some show ?thesis by (auto split: option.splits)
qed simp


definition demo_hash :: "string \<Rightarrow> string" where
  "demo_hash t = replicate 64 (CHR ''d'')"

definition demo_controller :: "local_rows controller" where
  "demo_controller = \<lparr>ct_enabled = True, ct_store = True, ct_read = local_read, ct_replace = local_replace,
     ct_scope = None, ct_catalog = demo_catalog, ct_pricing = demo_book, ct_attempts = None\<rparr>"

definition demo_outside :: "local_rows outside" where
  "demo_outside = \<lparr>os_sha = demo_hash, os_policy = Inr (unlimited demo_owner 0), os_latest = Inr (unlimited demo_owner 0),
     os_authorize = None, os_authorize_final = None, os_binding_enabled = False, os_allowed = (\<lambda>_ _. True),
     os_envelope = None, os_gap = (\<lambda>_ x. x), os_env = (\<lambda>_ _ x. x), os_clock = (\<lambda>_ _. 110)\<rparr>"


end
