(* ===== verification/Wf_Models.thy ===== *)
theory Wf_Models
  imports Quota_Coverage
begin

text \<open>
  The durable state of workflow automation: the money of a run and of a dispatch
  (\<open>workflows/monetary_models.py\<close>) and the owner document with its run handles and effects
  (\<open>workflows/automation_models.py\<close>), with the validators that decide which documents are
  accounting. Times are integers (microseconds), a usage record is a value of type \<open>'u\<close> read
  through its owner, and SHA-256 is the parameter \<open>sha\<close>.
\<close>

section \<open>Bounds and identities\<close>

definition MAX_RUN_DISPATCHES :: int where "MAX_RUN_DISPATCHES = 128"

definition MAX_ACTIVE_RUNS :: nat where "MAX_ACTIVE_RUNS = 4"

definition MAX_RUN_HANDLES :: nat where "MAX_RUN_HANDLES = 512"

text \<open>\<open>AutomationError\<close> with its code; a record that pydantic refuses; a missing key.\<close>

datatype auto_exn = AutomationError string | InvalidRecord | MissingKey

definition auto_digest :: "(string \<Rightarrow> string) \<Rightarrow> json \<Rightarrow> auto_exn + string" where
  "auto_digest sha v =
     (if has_nan v then Inl (AutomationError ''invalid_json'')
      else if MAX_STATE_BYTES < length (canonical_json v) then Inl (AutomationError ''state_limit'')
      else Inr (sha (canonical_json v)))"

definition budget_identity ::
  "(string \<Rightarrow> string) \<Rightarrow> string \<Rightarrow> string \<Rightarrow> string \<Rightarrow> string \<Rightarrow> int \<Rightarrow> auto_exn + string" where
  "budget_identity sha owner epoch run fp lim = auto_digest sha
     (JArr [JStr ''workflow-usd-v1'', JStr owner, JStr epoch, JStr run, JStr fp, JInt lim])"

section \<open>Money\<close>

datatype money_reason = BoundExceeded | AccountingOverflow

record run_money =
  ma_budgetId :: string
  ma_limit :: int
  ma_revision :: int
  ma_settled :: int
  ma_held :: int
  ma_unknown :: int
  ma_compacted :: int
  ma_compactedReservations :: int
  ma_reservations :: int
  ma_blocked :: bool
  ma_reason :: "money_reason option"

definition money_fields_ok :: "run_money \<Rightarrow> bool" where
  "money_fields_ok m \<longleftrightarrow> is_hex 64 (ma_budgetId m)
     \<and> list_all count_ok [ma_limit m, ma_revision m, ma_settled m, ma_held m, ma_unknown m, ma_compacted m]
     \<and> 0 \<le> ma_compactedReservations m \<and> ma_compactedReservations m \<le> MAX_RUN_DISPATCHES
     \<and> 0 \<le> ma_reservations m \<and> ma_reservations m \<le> MAX_RUN_DISPATCHES"

definition coherent_totals :: "run_money \<Rightarrow> bool" where
  "coherent_totals m \<longleftrightarrow> ma_unknown m \<le> ma_held m \<and> ma_compacted m \<le> ma_settled m
     \<and> ma_compactedReservations m \<le> ma_reservations m \<and> ma_blocked m = (ma_reason m \<noteq> None)
     \<and> (ma_blocked m \<or> ma_settled m + ma_held m \<le> ma_limit m)"

definition run_money_ok :: "run_money \<Rightarrow> bool" where
  "run_money_ok m \<longleftrightarrow> money_fields_ok m \<and> coherent_totals m"

definition remaining_micro_usd :: "run_money \<Rightarrow> int" where
  "remaining_micro_usd m = max 0 (ma_limit m - ma_settled m - ma_held m)"

definition mk_money :: "run_money \<Rightarrow> auto_exn + run_money" where
  "mk_money m = bindE (ensure (run_money_ok m) InvalidRecord) (\<lambda>_. Inr m)"

definition new_money :: "string \<Rightarrow> int \<Rightarrow> auto_exn + run_money" where
  "new_money budget lim = mk_money \<lparr>ma_budgetId = budget, ma_limit = lim, ma_revision = 0, ma_settled = 0,
     ma_held = 0, ma_unknown = 0, ma_compacted = 0, ma_compactedReservations = 0, ma_reservations = 0,
     ma_blocked = False, ma_reason = None\<rparr>"

datatype money_phase = MHeld | MSettled | MUnknown

record dispatch_money =
  dm_budgetId :: string
  dm_budgetRevision :: int
  dm_bounds :: bounds
  dm_phase :: money_phase
  dm_charged :: int
  dm_settlementDigest :: "string option"
  dm_approvalSpendDigest :: "string option"

definition dispatch_money_ok :: "dispatch_money \<Rightarrow> bool" where
  "dispatch_money_ok d \<longleftrightarrow> is_hex 64 (dm_budgetId d) \<and> count_ok (dm_budgetRevision d)
     \<and> bounds_ok (dm_bounds d) \<and> count_ok (dm_charged d) \<and> opt_ok (is_hex 64) (dm_settlementDigest d)
     \<and> opt_ok (is_hex 64) (dm_approvalSpendDigest d)
     \<and> am_microUsd (bd_amounts (dm_bounds d)) \<noteq> None \<and> am_tokens (bd_amounts (dm_bounds d)) \<noteq> None
     \<and> am_requests (bd_amounts (dm_bounds d)) = 1 \<and> am_compute (bd_amounts (dm_bounds d)) = 0
     \<and> bd_maxAttempts (dm_bounds d) = Some 1
     \<and> bd_basis (dm_bounds d) \<in> {CatalogTextV1, CatalogEmbeddingV1}
     \<and> (dm_phase d = MHeld) = (dm_settlementDigest d = None)
     \<and> (dm_phase d \<in> {MHeld, MUnknown} \<longrightarrow> Some (dm_charged d) = am_microUsd (bd_amounts (dm_bounds d)))"

definition mk_dispatch_money :: "dispatch_money \<Rightarrow> auto_exn + dispatch_money" where
  "mk_dispatch_money d = bindE (ensure (dispatch_money_ok d) InvalidRecord) (\<lambda>_. Inr d)"

text \<open>What a reader is shown of the budget; \<open>capped\<close> is the mode.\<close>

record budget_view =
  bv_capped :: bool
  bv_budgetId :: "string option"
  bv_revision :: "int option"
  bv_limit :: "int option"
  bv_settled :: "int option"
  bv_held :: "int option"
  bv_unknown :: "int option"
  bv_remaining :: "int option"
  bv_blocked :: bool

definition budget_view_ok :: "budget_view \<Rightarrow> bool" where
  "budget_view_ok v \<longleftrightarrow> opt_ok (is_hex 64) (bv_budgetId v)
     \<and> list_all (opt_ok count_ok) [bv_revision v, bv_limit v, bv_settled v, bv_held v, bv_unknown v, bv_remaining v]
     \<and> (if \<not> bv_capped v
        then bv_budgetId v = None \<and> list_all (\<lambda>x. x = None)
            [bv_revision v, bv_limit v, bv_settled v, bv_held v, bv_unknown v, bv_remaining v] \<and> \<not> bv_blocked v
        else bv_budgetId v \<noteq> None \<and> list_all (\<lambda>x. x \<noteq> None)
            [bv_revision v, bv_limit v, bv_settled v, bv_held v, bv_unknown v, bv_remaining v]
          \<and> the (bv_unknown v) \<le> the (bv_held v)
          \<and> the (bv_remaining v) = max 0 (the (bv_limit v) - the (bv_settled v) - the (bv_held v)))"

definition view_of_account :: "run_money option \<Rightarrow> budget_view" where
  "view_of_account a = (case a of
     None \<Rightarrow> \<lparr>bv_capped = False, bv_budgetId = None, bv_revision = None, bv_limit = None, bv_settled = None,
       bv_held = None, bv_unknown = None, bv_remaining = None, bv_blocked = False\<rparr>
   | Some m \<Rightarrow> \<lparr>bv_capped = True, bv_budgetId = Some (ma_budgetId m), bv_revision = Some (ma_revision m),
       bv_limit = Some (ma_limit m), bv_settled = Some (ma_settled m), bv_held = Some (ma_held m),
       bv_unknown = Some (ma_unknown m), bv_remaining = Some (remaining_micro_usd m), bv_blocked = ma_blocked m\<rparr>)"

section \<open>The owner document\<close>

record run_handle =
  rh_runId :: string
  rh_sessionId :: string
  rh_checkpointId :: string
  rh_fingerprint :: string
  rh_workflowKey :: string
  rh_idempotencyKey :: string
  rh_createdAt :: int
  rh_active :: bool
  rh_terminal :: bool
  rh_modelCalls :: int
  rh_toolCalls :: int
  rh_dispatches :: int
  rh_operationFloor :: int
  rh_scheduleId :: "string option"
  rh_scheduleGeneration :: "int option"
  rh_money :: "run_money option"

definition handle_ok :: "run_handle \<Rightarrow> bool" where
  "handle_ok h \<longleftrightarrow> is_hex 64 (rh_fingerprint h) \<and> 0 \<le> rh_modelCalls h \<and> 0 \<le> rh_toolCalls h
     \<and> 0 \<le> rh_dispatches h \<and> - 1 \<le> rh_operationFloor h \<and> opt_ok run_money_ok (rh_money h)"

datatype category = CModel | CTool | CDispatch

datatype effect_state = EReserved | EDispatched | EComplete | EUnknown

record 'u effect_intent =
  ef_id :: string
  ef_runId :: string
  ef_sessionId :: string
  ef_operationId :: string
  ef_category :: category
  ef_payloadDigest :: string
  ef_state :: effect_state
  ef_startedAt :: int
  ef_resultDigest :: "string option"
  ef_usage :: "'u option"
  ef_delivered :: bool
  ef_money :: "dispatch_money option"

definition effect_ok :: "'u effect_intent \<Rightarrow> bool" where
  "effect_ok e \<longleftrightarrow> is_hex 64 (ef_payloadDigest e) \<and> opt_ok dispatch_money_ok (ef_money e)"

record 'u automation_owner =
  ao_id :: string
  ao_userId :: string
  ao_recordKind :: string
  ao_epoch :: string
  ao_revision :: int
  ao_requestFloor :: int
  ao_runs :: "(string, run_handle) dict"
  ao_schedules :: "string list"
  ao_effects :: "(string, 'u effect_intent) dict"

definition run_effects :: "'u automation_owner \<Rightarrow> string \<Rightarrow> 'u effect_intent list" where
  "run_effects ow run = filter (\<lambda>e. ef_runId e = run) (map snd (ao_effects ow))"

definition run_dispatches :: "'u automation_owner \<Rightarrow> string \<Rightarrow> 'u effect_intent list" where
  "run_dispatches ow run = filter (\<lambda>e. ef_runId e = run \<and> ef_category e = CDispatch) (map snd (ao_effects ow))"

definition charge_where :: "(dispatch_money \<Rightarrow> bool) \<Rightarrow> 'u effect_intent list \<Rightarrow> int" where
  "charge_where p es = sum_list (map (\<lambda>e. case ef_money e of
     None \<Rightarrow> 0 | Some d \<Rightarrow> if p d then dm_charged d else 0) es)"

text \<open>One run of \<open>validate_money_balances\<close>; the totals are what its loop adds up.\<close>

definition run_balanced :: "'u automation_owner \<Rightarrow> run_handle \<Rightarrow> bool" where
  "run_balanced ow h \<longleftrightarrow> (let ds = run_dispatches ow (rh_runId h) in
     case rh_money h of
       None \<Rightarrow> list_all (\<lambda>e. ef_money e = None) ds
     | Some a \<Rightarrow> distinct (map ef_operationId ds)
         \<and> list_all (\<lambda>e. case ef_money e of None \<Rightarrow> False
              | Some d \<Rightarrow> dm_budgetId d = ma_budgetId a
                  \<and> (if dm_phase d = MSettled then ef_state e = EComplete
                     else ef_state e \<in> {EReserved, EDispatched, EUnknown})) ds
         \<and> ma_settled a = ma_compacted a + charge_where (\<lambda>d. dm_phase d = MSettled) ds
         \<and> ma_held a = charge_where (\<lambda>d. dm_phase d \<noteq> MSettled) ds
         \<and> ma_unknown a = charge_where (\<lambda>d. dm_phase d = MUnknown) ds
         \<and> ma_reservations a = ma_compactedReservations a + int (length ds))"

definition money_balanced :: "'u automation_owner \<Rightarrow> bool" where
  "money_balanced ow \<longleftrightarrow> list_all (\<lambda>(k, h). run_balanced ow h) (ao_runs ow)"

definition owned_effects :: "(string \<Rightarrow> string) \<Rightarrow> ('u \<Rightarrow> string) \<Rightarrow> 'u automation_owner \<Rightarrow> bool" where
  "owned_effects sha usage_owner ow \<longleftrightarrow>
     length (filter (\<lambda>(k, h). rh_active h) (ao_runs ow)) \<le> MAX_ACTIVE_RUNS
     \<and> list_all (\<lambda>(k, h). k = rh_runId h \<and> (case rh_money h of None \<Rightarrow> True
          | Some m \<Rightarrow> budget_identity sha (ao_userId ow) (ao_epoch ow) (rh_runId h) (rh_fingerprint h) (ma_limit m)
                       = Inr (ma_budgetId m))) (ao_runs ow)
     \<and> list_all (\<lambda>(k, e). k = ef_id e \<and> ef_runId e \<in> fst ` set (ao_runs ow)
          \<and> (case ef_usage e of None \<Rightarrow> True | Some u \<Rightarrow> usage_owner u = ao_userId ow)
          \<and> (ef_money e = None \<or> ef_category e = CDispatch)) (ao_effects ow)
     \<and> money_balanced ow"

text \<open>\<open>AutomationOwner.model_validate\<close>: the field constraints and the validator.\<close>

definition owner_ok :: "(string \<Rightarrow> string) \<Rightarrow> ('u \<Rightarrow> string) \<Rightarrow> 'u automation_owner \<Rightarrow> bool" where
  "owner_ok sha usage_owner ow \<longleftrightarrow> 0 \<le> ao_revision ow
     \<and> length (ao_runs ow) \<le> MAX_RUN_HANDLES \<and> length (ao_schedules ow) \<le> 10
     \<and> length (ao_effects ow) \<le> 512
     \<and> list_all (\<lambda>(k, h). handle_ok h) (ao_runs ow) \<and> list_all (\<lambda>(k, e). effect_ok e) (ao_effects ow)
     \<and> owned_effects sha usage_owner ow"

section \<open>Lemmas\<close>

lemma mk_money_Inr [simp]: "mk_money m = Inr m' \<longleftrightarrow> run_money_ok m \<and> m' = m"
  by (auto simp: mk_money_def bindE_Inr_iff)

lemma mk_dispatch_money_Inr [simp]: "mk_dispatch_money d = Inr d' \<longleftrightarrow> dispatch_money_ok d \<and> d' = d"
  by (auto simp: mk_dispatch_money_def bindE_Inr_iff)

lemma charge_where_simps [simp]:
  "charge_where p [] = 0"
  "charge_where p (e # es) = (case ef_money e of None \<Rightarrow> 0 | Some d \<Rightarrow> if p d then dm_charged d else 0)
     + charge_where p es"
  by (simp_all add: charge_where_def)

lemma charge_where_append [simp]: "charge_where p (es @ fs) = charge_where p es + charge_where p fs"
  by (simp add: charge_where_def)

lemma view_of_account_ok: "opt_ok run_money_ok a \<Longrightarrow> budget_view_ok (view_of_account a)"
  by (cases a) (auto simp: budget_view_ok_def view_of_account_def run_money_ok_def money_fields_ok_def
      coherent_totals_def remaining_micro_usd_def count_ok_def)

end
