(* ===== verification/Wf_Ledger.thy ===== *)
theory Wf_Ledger
  imports Wf_Models
begin

text \<open>
  \<open>workflows/monetary_ledger.py\<close>: reserving, settling and compacting the money of a dispatch as
  changes of the owner document, the retirement of a run, and the fence every write of the
  document passes. \<open>rt\<close> is \<open>request_time\<close>, the instant an idempotency key carries.
\<close>

section \<open>Access\<close>

definition put_run :: "'u automation_owner \<Rightarrow> string \<Rightarrow> run_handle \<Rightarrow> 'u automation_owner" where
  "put_run ow k h = ow\<lparr>ao_runs := AList.update k h (ao_runs ow)\<rparr>"

definition put_effect :: "'u automation_owner \<Rightarrow> string \<Rightarrow> 'u effect_intent \<Rightarrow> 'u automation_owner" where
  "put_effect ow k e = ow\<lparr>ao_effects := AList.update k e (ao_effects ow)\<rparr>"

definition the_run :: "'u automation_owner \<Rightarrow> string \<Rightarrow> auto_exn + run_handle" where
  "the_run ow k = (case map_of (ao_runs ow) k of None \<Rightarrow> Inl MissingKey | Some h \<Rightarrow> Inr h)"

section \<open>Operations\<close>

definition can_retire_run :: "(string \<Rightarrow> int) \<Rightarrow> 'u automation_owner \<Rightarrow> run_handle \<Rightarrow> int \<Rightarrow> bool" where
  "can_retire_run rt ow run floor \<longleftrightarrow>
     rh_terminal run \<and> \<not> rh_active run \<and> rt (rh_idempotencyKey run) < floor
     \<and> (case rh_money run of None \<Rightarrow> True | Some m \<Rightarrow> ma_held m = 0)
     \<and> list_all (\<lambda>e. ef_state e = EComplete \<and> (ef_usage e = None \<or> ef_delivered e))
         (run_effects ow (rh_runId run))"

definition updated_account :: "run_money \<Rightarrow> auto_exn + run_money" where
  "updated_account m = mk_money (m\<lparr>ma_revision := ma_revision m + 1\<rparr>)"

definition reserve_money ::
  "'u automation_owner \<Rightarrow> string \<Rightarrow> bounds \<Rightarrow> string option \<Rightarrow> auto_exn + (dispatch_money \<times> 'u automation_owner)" where
  "reserve_money ow run_id bd approval =
     bindE (the_run ow run_id) (\<lambda>handle.
     case rh_money handle of
       None \<Rightarrow> Inl (AutomationError ''budget_missing'')
     | Some account \<Rightarrow>
         (case am_microUsd (bd_amounts bd) of
            None \<Rightarrow> Inl (AutomationError ''spend_unbounded'')
          | Some amount \<Rightarrow>
              if bd_maxAttempts bd \<noteq> Some 1 then Inl (AutomationError ''spend_unbounded'')
              else if rh_terminal handle \<or> \<not> rh_active handle \<or> ma_blocked account
              then Inl (AutomationError ''budget_stopped'')
              else if remaining_micro_usd account < amount then Inl (AutomationError ''spend_limit'')
              else bindE (mk_dispatch_money \<lparr>dm_budgetId = ma_budgetId account,
                       dm_budgetRevision = ma_revision account, dm_bounds = bd, dm_phase = MHeld,
                       dm_charged = amount, dm_settlementDigest = None, dm_approvalSpendDigest = approval\<rparr>)
                     (\<lambda>res.
                   bindE (updated_account (account\<lparr>ma_held := ma_held account + amount,
                       ma_reservations := ma_reservations account + 1\<rparr>)) (\<lambda>acc.
                   Inr (res, put_run ow run_id (handle\<lparr>rh_money := Some acc\<rparr>))))))"

definition settlement_identity ::
  "(string \<Rightarrow> string) \<Rightarrow> bool \<Rightarrow> json option \<Rightarrow> outcome \<Rightarrow> auto_exn + string" where
  "settlement_identity sha completed usage out = auto_digest sha (JObj [(''completed'', JBool completed),
     (''usage'', opt_json (\<lambda>v. v) usage), (''outcome'', JStr (outcome_name out))])"

text \<open>What a completed body charges, and the reason it blocks the run for.\<close>

definition settled_charge :: "run_money \<Rightarrow> amounts option \<Rightarrow> int option" where
  "settled_charge account actual =
     (case Option.bind actual am_microUsd of
        None \<Rightarrow> None
      | Some c \<Rightarrow> if MAX_QUANTITY < ma_settled account + c then None else Some c)"

definition overruns :: "dispatch_money \<Rightarrow> amounts option \<Rightarrow> bool" where
  "overruns res actual \<longleftrightarrow> (case actual of None \<Rightarrow> False
     | Some a \<Rightarrow> (case am_microUsd a of None \<Rightarrow> False | Some m \<Rightarrow> dm_charged res < m)
         \<or> above (am_tokens a) (am_tokens (bd_amounts (dm_bounds res))))"

definition settle_reason :: "run_money \<Rightarrow> dispatch_money \<Rightarrow> amounts option \<Rightarrow> money_reason option" where
  "settle_reason account res actual =
     (let r1 = (if Option.bind actual am_microUsd \<noteq> None \<and> settled_charge account actual = None
                then (case ma_reason account of None \<Rightarrow> Some AccountingOverflow | r \<Rightarrow> r)
                else ma_reason account)
      in if overruns res actual then (case r1 of None \<Rightarrow> Some BoundExceeded | r \<Rightarrow> r) else r1)"

definition receipt_amounts :: "bool \<Rightarrow> bounds \<Rightarrow> json option \<Rightarrow> quota_exn + amounts option" where
  "receipt_amounts completed bd usage = (if completed then actual_amounts bd usage else Inr None)"

text \<open>The reservation and the account as the settlement leaves them, before the account's reason.\<close>

definition settlement_result ::
  "run_money \<Rightarrow> dispatch_money \<Rightarrow> amounts option \<Rightarrow> string \<Rightarrow> dispatch_money \<times> run_money" where
  "settlement_result account res actual identity = (case settled_charge account actual of
     None \<Rightarrow> (res\<lparr>dm_phase := MUnknown, dm_settlementDigest := Some identity\<rparr>,
              account\<lparr>ma_unknown := ma_unknown account + dm_charged res\<rparr>)
   | Some c \<Rightarrow> (res\<lparr>dm_phase := MSettled, dm_charged := c, dm_settlementDigest := Some identity\<rparr>,
                account\<lparr>ma_settled := ma_settled account + c, ma_held := ma_held account - dm_charged res\<rparr>))"

definition settle_money ::
  "(string \<Rightarrow> string) \<Rightarrow> 'u automation_owner \<Rightarrow> 'u effect_intent \<Rightarrow> bool \<Rightarrow> json option \<Rightarrow> outcome
    \<Rightarrow> auto_exn + ('u effect_intent \<times> 'u automation_owner)" where
  "settle_money sha ow effect completed usage out =
     bindE (the_run ow (ef_runId effect)) (\<lambda>handle.
     case (ef_money effect, rh_money handle) of
       (Some res, Some account) \<Rightarrow>
         if dm_budgetId res \<noteq> ma_budgetId account then Inl (AutomationError ''budget_missing'')
         else bindE (settlement_identity sha completed usage out) (\<lambda>identity.
           if dm_phase res \<noteq> MHeld
           then (if dm_settlementDigest res = Some identity then Inr (effect, ow)
                 else Inl (AutomationError ''accounting_changed''))
           else case receipt_amounts completed (dm_bounds res) usage of
               Inl _ \<Rightarrow> Inl InvalidRecord
             | Inr actual \<Rightarrow>
                 (let reason = settle_reason account res actual;
                      (res1, acc1) = settlement_result account res actual identity
                  in bindE (updated_account (acc1\<lparr>ma_blocked := (reason \<noteq> None), ma_reason := reason\<rparr>)) (\<lambda>acc.
                     bindE (mk_dispatch_money res1) (\<lambda>res'.
                     Inr (effect\<lparr>ef_money := Some res'\<rparr>,
                          put_run ow (ef_runId effect) (handle\<lparr>rh_money := Some acc\<rparr>))))))
     | _ \<Rightarrow> Inl (AutomationError ''budget_missing''))"

definition compact_money :: "'u automation_owner \<Rightarrow> 'u effect_intent \<Rightarrow> auto_exn + 'u automation_owner" where
  "compact_money ow effect =
     (case ef_money effect of
        None \<Rightarrow> Inr ow
      | Some res \<Rightarrow>
          bindE (the_run ow (ef_runId effect)) (\<lambda>handle.
          case rh_money handle of
            None \<Rightarrow> Inl (AutomationError ''accounting_changed'')
          | Some account \<Rightarrow>
              if dm_phase res \<noteq> MSettled then Inl (AutomationError ''accounting_changed'')
              else bindE (updated_account (account\<lparr>ma_compacted := ma_compacted account + dm_charged res,
                     ma_compactedReservations := ma_compactedReservations account + 1\<rparr>)) (\<lambda>acc.
                   Inr (put_run ow (ef_runId effect) (handle\<lparr>rh_money := Some acc\<rparr>)))))"

section \<open>The fence of a write\<close>

definition account_may_become :: "run_handle \<Rightarrow> run_money \<Rightarrow> run_handle \<Rightarrow> run_money \<Rightarrow> bool" where
  "account_may_become old before new after \<longleftrightarrow>
     ma_budgetId before = ma_budgetId after \<and> ma_limit before = ma_limit after
     \<and> ma_revision before \<le> ma_revision after \<and> ma_settled before \<le> ma_settled after
     \<and> ma_compacted before \<le> ma_compacted after
     \<and> ma_compactedReservations before \<le> ma_compactedReservations after
     \<and> ma_reservations before \<le> ma_reservations after
     \<and> (rh_terminal old \<longrightarrow> rh_terminal new) \<and> (rh_active new \<longrightarrow> rh_active old)
     \<and> (ma_blocked before \<longrightarrow> ma_blocked after \<and> ma_reason after = ma_reason before)
     \<and> (before = after \<or> ma_revision after \<noteq> ma_revision before)"

definition run_may_become ::
  "(string \<Rightarrow> int) \<Rightarrow> 'u automation_owner \<Rightarrow> 'u automation_owner \<Rightarrow> string \<times> run_handle \<Rightarrow> auto_exn + unit" where
  "run_may_become rt prior updated ko =
     (let (run_id, old) = ko in
      case (rh_money old, map_of (ao_runs updated) run_id) of
        (None, None) \<Rightarrow> Inr ()
      | (None, Some new) \<Rightarrow> ensure (rh_money new = None) (AutomationError ''budget_changed'')
      | (Some before, None) \<Rightarrow>
          ensure (can_retire_run rt prior old (ao_requestFloor updated)) (AutomationError ''accounting_changed'')
      | (Some before, Some new) \<Rightarrow>
          ensure (case rh_money new of None \<Rightarrow> False | Some after \<Rightarrow> account_may_become old before new after)
            (AutomationError ''budget_changed''))"

definition effect_may_become ::
  "'u automation_owner \<Rightarrow> 'u automation_owner \<Rightarrow> string \<times> 'u effect_intent \<Rightarrow> auto_exn + unit" where
  "effect_may_become prior updated ke =
     (let (identity, old) = ke in
      case (ef_money old, map_of (ao_effects updated) identity) of
        (None, _) \<Rightarrow> Inr ()
      | (Some om, None) \<Rightarrow>
          ensure (dm_phase om = MSettled \<and> ef_state old = EComplete \<and> (ef_usage old = None \<or> ef_delivered old)
              \<and> (case map_of (ao_runs updated) (ef_runId old) of
                   None \<Rightarrow> True
                 | Some handle \<Rightarrow> (case map_of (ao_runs prior) (ef_runId old) of
                       None \<Rightarrow> False | Some was \<Rightarrow> rh_operationFloor was < rh_operationFloor handle)))
            (AutomationError ''accounting_changed'')
      | (Some om, Some new) \<Rightarrow>
          ensure (ef_payloadDigest new = ef_payloadDigest old \<and> ef_runId new = ef_runId old
              \<and> ef_operationId new = ef_operationId old
              \<and> (case ef_money new of None \<Rightarrow> False
                 | Some nm \<Rightarrow> dm_budgetId nm = dm_budgetId om \<and> dm_bounds nm = dm_bounds om
                     \<and> dm_budgetRevision nm = dm_budgetRevision om
                     \<and> dm_approvalSpendDigest nm = dm_approvalSpendDigest om
                     \<and> (dm_phase om = MHeld \<or> nm = om)))
            (AutomationError ''accounting_changed''))"

fun check_each :: "('a \<Rightarrow> auto_exn + unit) \<Rightarrow> 'a list \<Rightarrow> auto_exn + unit" where
  "check_each f [] = Inr ()"
| "check_each f (x # xs) = bindE (f x) (\<lambda>_. check_each f xs)"

definition validate_money_transition ::
  "(string \<Rightarrow> int) \<Rightarrow> 'u automation_owner \<Rightarrow> 'u automation_owner \<Rightarrow> auto_exn + unit" where
  "validate_money_transition rt prior updated =
     bindE (check_each (run_may_become rt prior updated) (ao_runs prior)) (\<lambda>_.
     check_each (effect_may_become prior updated) (ao_effects prior))"

lemma check_each_iff: "check_each f xs = Inr () \<longleftrightarrow> (\<forall>x \<in> set xs. f x = Inr ())"
  by (induction xs) (auto simp: bindE_Inr_iff)

end
