(* ===== verification/Usage_Native.thy ===== *)
theory Usage_Native
  imports Json
begin

text \<open>
  \<open>usage/native.py\<close>: the bounded numeric evidence of one model call as its provider reported it,
  its capture from an arbitrary response object, and the merge of the evidence of several calls
  into a prefix of at most eight. \<open>None\<close> in a batch is a call without an observation.
\<close>

section \<open>Evidence\<close>

definition MAX_NATIVE_USAGE_CALLS :: nat where "MAX_NATIVE_USAGE_CALLS = 8"

definition MAX_NATIVE_USAGE_VALUE :: int where "MAX_NATIVE_USAGE_VALUE = 2 ^ 53 - 1"

datatype native_api = NChat | NResponses

datatype native_status = Reported | Partial | Invalid | Unreported

fun native_fields :: "native_api \<Rightarrow> string list" where
  "native_fields NChat = [''prompt_tokens'', ''completion_tokens'', ''total_tokens'',
     ''prompt_tokens_details.text_tokens'', ''prompt_tokens_details.cached_tokens'',
     ''prompt_tokens_details.audio_tokens'', ''prompt_tokens_details.image_tokens'',
     ''completion_tokens_details.reasoning_tokens'', ''completion_tokens_details.audio_tokens'',
     ''completion_tokens_details.accepted_prediction_tokens'',
     ''completion_tokens_details.rejected_prediction_tokens'', ''cost_in_usd_ticks'']"
| "native_fields NResponses = [''input_tokens'', ''output_tokens'', ''total_tokens'',
     ''input_tokens_details.cached_tokens'', ''output_tokens_details.reasoning_tokens'',
     ''cost_in_usd_ticks'', ''cost_in_nano_usd'']"

record native_usage =
  nu_api :: native_api
  nu_status :: native_status
  nu_values :: "(string, int) dict"
  nu_invalid :: "string list"

definition native_ok :: "native_usage \<Rightarrow> bool" where
  "native_ok u \<longleftrightarrow>
     (let vals = map fst (nu_values u); invalid = nu_invalid u;
          expected = (if vals \<noteq> [] \<and> invalid \<noteq> [] then Partial else if vals \<noteq> [] then Reported
                      else if invalid \<noteq> [] then Invalid else nu_status u)
      in list_all (\<lambda>(k, v). 0 \<le> v \<and> v \<le> MAX_NATIVE_USAGE_VALUE) (nu_values u)
         \<and> length vals \<le> 12 \<and> length invalid \<le> 12
         \<and> list_all (\<lambda>f. f \<in> set (native_fields (nu_api u))) (vals @ invalid)
         \<and> distinct invalid \<and> list_all (\<lambda>f. f \<notin> set invalid) vals
         \<and> nu_status u = expected
         \<and> (vals @ invalid \<noteq> [] \<or> nu_status u \<in> {Invalid, Unreported}))"

record native_batch =
  nb_calls :: "native_usage option list"
  nb_totalCalls :: int
  nb_truncated :: bool

definition batch_ok :: "native_batch \<Rightarrow> bool" where
  "batch_ok b \<longleftrightarrow> 1 \<le> nb_totalCalls b \<and> nb_totalCalls b \<le> MAX_NATIVE_USAGE_VALUE
     \<and> int (length (nb_calls b)) = min (nb_totalCalls b) (int MAX_NATIVE_USAGE_CALLS)
     \<and> nb_truncated b = (int MAX_NATIVE_USAGE_CALLS < nb_totalCalls b)"

section \<open>Capture\<close>

text \<open>\<open>field.partition('.')\<close>: the root, and the child where there is a dot.\<close>

definition partition_dot :: "string \<Rightarrow> string \<times> string option" where
  "partition_dot s = (takeWhile (\<lambda>c. c \<noteq> CHR ''.'') s,
     case dropWhile (\<lambda>c. c \<noteq> CHR ''.'') s of [] \<Rightarrow> None | _ # rest \<Rightarrow> Some rest)"

datatype observation = Skipped | Counted int | Refused

definition observe_value :: "json \<Rightarrow> observation" where
  "observe_value v = (case v of JInt n \<Rightarrow> if 0 \<le> n \<and> n \<le> MAX_NATIVE_USAGE_VALUE then Counted n else Refused
                      | _ \<Rightarrow> Refused)"

text \<open>One turn of the loop of \<open>_capture\<close>.\<close>

definition observe_field :: "(string \<times> json) list \<Rightarrow> string \<Rightarrow> observation" where
  "observe_field raw fld = (case partition_dot fld of (root, child) \<Rightarrow>
     (case map_of raw root of
        None \<Rightarrow> Skipped
      | Some v \<Rightarrow> (case child of
            None \<Rightarrow> observe_value v
          | Some c \<Rightarrow> (case v of
                JObj sub \<Rightarrow> (case map_of sub c of None \<Rightarrow> Skipped | Some w \<Rightarrow> observe_value w)
              | _ \<Rightarrow> Refused))))"

fun capture_fields :: "(string \<times> json) list \<Rightarrow> string list \<Rightarrow> (string, int) dict \<times> string list" where
  "capture_fields raw [] = ([], [])"
| "capture_fields raw (f # fs) =
     (let (vals, invalid) = capture_fields raw fs in
      case observe_field raw f of
        Skipped \<Rightarrow> (vals, invalid)
      | Counted n \<Rightarrow> ((f, n) # vals, invalid)
      | Refused \<Rightarrow> (vals, f # invalid))"

definition capture :: "json \<Rightarrow> native_api \<Rightarrow> native_usage" where
  "capture raw api = (case raw of
     JObj fs \<Rightarrow> (let (vals, invalid) = capture_fields fs (native_fields api) in
       \<lparr>nu_api = api,
        nu_status = (if invalid \<noteq> [] \<and> vals \<noteq> [] then Partial else if invalid \<noteq> [] then Invalid
                     else if vals \<noteq> [] then Reported else Unreported),
        nu_values = vals, nu_invalid = invalid\<rparr>)
   | _ \<Rightarrow> \<lparr>nu_api = api, nu_status = (if raw = JNull then Unreported else Invalid),
           nu_values = [], nu_invalid = []\<rparr>)"

text \<open>\<open>capture_usage\<close>: the object handed on (a \<open>GatewayUsage\<close>) and its evidence.\<close>

definition capture_usage ::
  "json \<Rightarrow> native_api \<Rightarrow> (string \<times> json) list option \<Rightarrow> ((string \<times> json) list \<times> native_usage) option" where
  "capture_usage raw api mapped =
     (if raw = JNull then None
      else Some (case mapped of
             Some m \<Rightarrow> m
           | None \<Rightarrow> (case raw of JObj fs \<Rightarrow> fs
               | _ \<Rightarrow> [(''prompt_tokens'', JNull), (''completion_tokens'', JNull), (''total_tokens'', JNull)]),
         capture raw api))"

section \<open>Merge\<close>

text \<open>\<open>Inr None\<close>: neither side has evidence; \<open>Inl ()\<close>: the batch is refused by its validator.\<close>

definition batch_prefix :: "native_batch option \<Rightarrow> int \<Rightarrow> native_usage option list" where
  "batch_prefix b calls = (case b of Some x \<Rightarrow> nb_calls x
     | None \<Rightarrow> replicate (nat (min calls (int MAX_NATIVE_USAGE_CALLS))) None)"

definition merge_native_usage ::
  "native_batch option \<Rightarrow> int \<Rightarrow> native_batch option \<Rightarrow> int \<Rightarrow> unit + native_batch option" where
  "merge_native_usage l lc r rc =
     (if l = None \<and> r = None then Inr None
      else let total = lc + rc;
               b = \<lparr>nb_calls = take MAX_NATIVE_USAGE_CALLS (batch_prefix l lc @ batch_prefix r rc),
                    nb_totalCalls = total, nb_truncated = (int MAX_NATIVE_USAGE_CALLS < total)\<rparr>
           in bindE (ensure (batch_ok b) ()) (\<lambda>_. Inr (Some b)))"

section \<open>Lemmas\<close>

lemma capture_fields_sub:
  assumes "capture_fields raw fs = (vals, invalid)"
  shows "set (map fst vals) \<subseteq> set fs \<and> set invalid \<subseteq> set fs
    \<and> length vals + length invalid \<le> length fs
    \<and> (\<forall>(k, v) \<in> set vals. 0 \<le> v \<and> v \<le> MAX_NATIVE_USAGE_VALUE)"
  using assms
  by (induction fs arbitrary: vals invalid)
    (fastforce simp: observe_field_def observe_value_def
      split: prod.splits observation.splits option.splits json.splits if_splits)+

lemma capture_fields_disjoint:
  assumes "capture_fields raw fs = (vals, invalid)" "distinct fs"
  shows "distinct invalid \<and> distinct (map fst vals) \<and> set (map fst vals) \<inter> set invalid = {}"
  using assms
proof (induction fs arbitrary: vals invalid)
  case (Cons f fs)
  obtain vs bad where rest: "capture_fields raw fs = (vs, bad)" by fastforce
  have sub: "set (map fst vs) \<subseteq> set fs" "set bad \<subseteq> set fs"
    using capture_fields_sub [OF rest] by auto
  have "f \<notin> set fs" using Cons.prems(2) by simp
  moreover have "distinct bad \<and> distinct (map fst vs) \<and> (\<forall>p \<in> set vs. fst p \<notin> set bad)"
    using Cons.IH [OF rest] Cons.prems(2) by auto
  moreover have "\<forall>p \<in> set vs. fst p \<noteq> f" "f \<notin> set bad" using sub calculation(1) by auto
  ultimately show ?case
    using Cons.prems(1) rest sub by (cases "observe_field raw f") fastforce+
qed simp

lemma native_fields_shape: "distinct (native_fields api) \<and> length (native_fields api) \<le> 12"
  by (cases api) simp_all

section \<open>The evidence is always well formed\<close>

text \<open>
  whatever object a provider answers with - a missing one, one that is not an object, one
  whose counts are strings, floats, negative or too large - its capture is a record the validator
  of \<open>NativeUsage\<close> accepts: every kept count is within range and belongs to a field of the
  API, no field is both kept and refused, and the status says exactly which of the two happened.
\<close>

theorem capture_is_well_formed: "native_ok (capture raw api) \<and> nu_api (capture raw api) = api"
proof (cases "\<exists>fs. raw = JObj fs")
  case True
  then obtain fs where raw: "raw = JObj fs" by blast
  obtain vals invalid where c: "capture_fields fs (native_fields api) = (vals, invalid)" by fastforce
  note sub = capture_fields_sub [OF c] and dis = capture_fields_disjoint [OF c]
  have "length vals \<le> 12" "length invalid \<le> 12" using sub native_fields_shape [of api] by linarith+
  then show ?thesis
    using sub dis native_fields_shape [of api] raw c
    by (auto simp: native_ok_def capture_def list_all_iff Let_def)
next
  case False
  then show ?thesis by (cases raw) (auto simp: native_ok_def capture_def)
qed

text \<open>A merge of well-formed evidence of counted calls is well-formed evidence of their sum.\<close>

definition evidence_of :: "native_batch option \<Rightarrow> int \<Rightarrow> bool" where
  "evidence_of b calls \<longleftrightarrow> 0 \<le> calls \<and> (case b of None \<Rightarrow> True | Some x \<Rightarrow> batch_ok x \<and> nb_totalCalls x = calls)"

lemma length_batch_prefix:
  "evidence_of b calls \<Longrightarrow> int (length (batch_prefix b calls)) = min calls (int MAX_NATIVE_USAGE_CALLS)"
  by (cases b) (auto simp: evidence_of_def batch_prefix_def batch_ok_def MAX_NATIVE_USAGE_CALLS_def)

lemma capped_sum:
  "int a = min x 8 \<Longrightarrow> int b = min y 8 \<Longrightarrow> 0 \<le> x \<Longrightarrow> 0 \<le> y \<Longrightarrow> int (min (a + b) 8) = min (x + y) 8"
  by (auto simp: min_def split: if_splits)

lemma merge_evidence:
  assumes "evidence_of l lc" "evidence_of r rc" "lc + rc \<le> MAX_NATIVE_USAGE_VALUE"
  shows "\<exists>b. merge_native_usage l lc r rc = Inr b \<and> evidence_of b (lc + rc) \<and> (b = None \<longleftrightarrow> l = None \<and> r = None)"
proof (cases "l = None \<and> r = None")
  case False
  let ?b = "\<lparr>nb_calls = take MAX_NATIVE_USAGE_CALLS (batch_prefix l lc @ batch_prefix r rc),
    nb_totalCalls = lc + rc, nb_truncated = (int MAX_NATIVE_USAGE_CALLS < lc + rc)\<rparr>"
  have pos: "1 \<le> lc + rc" "0 \<le> lc" "0 \<le> rc"
    using False assms(1,2) by (auto simp: evidence_of_def batch_ok_def split: option.splits)
  have "int (length (nb_calls ?b)) = min (lc + rc) (int MAX_NATIVE_USAGE_CALLS)"
    using capped_sum [of "length (batch_prefix l lc)" lc "length (batch_prefix r rc)" rc]
      length_batch_prefix [OF assms(1)] length_batch_prefix [OF assms(2)] pos
    by (simp add: MAX_NATIVE_USAGE_CALLS_def)
  then have "batch_ok ?b" using pos assms(3) by (simp add: batch_ok_def)
  then have "merge_native_usage l lc r rc = Inr (Some ?b)"
    using False by (simp add: merge_native_usage_def Let_def)
  moreover have "evidence_of (Some ?b) (lc + rc)"
    using \<open>batch_ok ?b\<close> pos by (simp add: evidence_of_def)
  ultimately show ?thesis using False by auto
qed (use assms in \<open>auto simp: merge_native_usage_def evidence_of_def\<close>)

end
