(* ===== verification/Usage_Models.thy ===== *)
theory Usage_Models
  imports Usage_Native Catalog Pricing Quota_Models
begin

text \<open>
  The usage data of \<open>usage/models.py\<close>: the token counts of one model call and their aggregation
  over an agent turn, the ledger record, the projected row, and the summary of a list of records.
  A float (a price, a unit count) is its text or its integer; a time is in microseconds.
\<close>

section \<open>Token counts\<close>

record token_usage =
  tu_prompt :: int
  tu_completion :: int
  tu_total :: int
  tu_known :: bool
  tu_complete :: bool
  tu_calls :: int
  tu_totalMismatch :: bool
  tu_native :: "native_batch option"
  tu_cacheRead :: "int option"
  tu_cacheWrite :: "int option"

definition empty_usage :: token_usage where
  "empty_usage = \<lparr>tu_prompt = 0, tu_completion = 0, tu_total = 0, tu_known = False, tu_complete = True,
     tu_calls = 0, tu_totalMismatch = False, tu_native = None, tu_cacheRead = None, tu_cacheWrite = None\<rparr>"

text \<open>\<open>int(v)\<close>, \<open>None\<close> where it raises: a float is truncated, a text is a decimal numeral.\<close>

fun numeral_body :: "bool \<Rightarrow> string \<Rightarrow> bool" where
  "numeral_body after_digit [] = after_digit"
| "numeral_body after_digit (c # cs) =
     (if is_digit c then numeral_body True cs
      else c = CHR ''_'' \<and> after_digit \<and> cs \<noteq> [] \<and> is_digit (hd cs) \<and> numeral_body False cs)"

definition int_of_text :: "string \<Rightarrow> int option" where
  "int_of_text text =
     (let s = strip text; signed = (s \<noteq> [] \<and> hd s \<in> {CHR ''+'', CHR ''-''});
          body = (if signed then tl s else s); ds = filter is_digit body;
          n = int (nat_of_digits ds)
      in if body \<noteq> [] \<and> numeral_body False body \<and> length ds \<le> 4300
         then Some (if s \<noteq> [] \<and> hd s = CHR ''-'' then - n else n) else None)"

definition truncated :: "dec \<Rightarrow> nat" where
  "truncated d = (if 0 \<le> dc_exp d then dc_coef d * 10 ^ nat (dc_exp d)
                  else dc_coef d div 10 ^ nat (- dc_exp d))"

definition py_int :: "json \<Rightarrow> int option" where
  "py_int v = (case v of
     JInt n \<Rightarrow> Some n
   | JBool b \<Rightarrow> Some (if b then 1 else 0)
   | JFloat r \<Rightarrow> (case parse_decimal r of
         Finite neg d \<Rightarrow> Some (if neg then - int (truncated d) else int (truncated d))
       | _ \<Rightarrow> None)
   | JStr s \<Rightarrow> int_of_text s
   | _ \<Rightarrow> None)"

text \<open>\<open>v or 0\<close>\<close>

definition is_falsy :: "json \<Rightarrow> bool" where
  "is_falsy v \<longleftrightarrow> (case v of
     JNull \<Rightarrow> True
   | JBool b \<Rightarrow> \<not> b
   | JInt n \<Rightarrow> n = 0
   | JFloat r \<Rightarrow> (case parse_decimal r of Finite _ d \<Rightarrow> dc_coef d = 0 | _ \<Rightarrow> False)
   | JStr s \<Rightarrow> s = []
   | JArr vs \<Rightarrow> vs = []
   | JObj fs \<Rightarrow> fs = [])"

definition int_or_zero :: "json \<Rightarrow> int option" where
  "int_or_zero v = (if is_falsy v then Some 0 else py_int v)"

definition get_or_null :: "(string \<times> json) list \<Rightarrow> string \<Rightarrow> json" where
  "get_or_null fs k = (case map_of fs k of None \<Rightarrow> JNull | Some v \<Rightarrow> v)"

definition strict_int :: "json option \<Rightarrow> int option" where
  "strict_int v = (case v of Some (JInt n) \<Rightarrow> Some n | _ \<Rightarrow> None)"

definition single_call :: "native_usage option \<Rightarrow> native_batch option" where
  "single_call native = map_option (\<lambda>u. \<lparr>nb_calls = [Some u], nb_totalCalls = 1, nb_truncated = False\<rparr>) native"

definition unknown_call :: "native_usage option \<Rightarrow> token_usage" where
  "unknown_call native = empty_usage\<lparr>tu_complete := False, tu_calls := 1, tu_native := single_call native\<rparr>"

text \<open>\<open>native\<close> is the evidence a \<open>GatewayUsage\<close> carries beside its dictionary.\<close>

definition parse_usage :: "native_usage option \<Rightarrow> json option \<Rightarrow> token_usage" where
  "parse_usage native usage = (case usage of
     Some (JObj fs) \<Rightarrow>
       (let prompt = get_or_null fs ''prompt_tokens''; completion = get_or_null fs ''completion_tokens'';
            total = get_or_null fs ''total_tokens'' in
        if fs = [] \<or> (prompt = JNull \<and> completion = JNull \<and> total = JNull) then unknown_call native
        else (case (int_or_zero prompt, int_or_zero completion) of
            (Some p, Some c) \<Rightarrow>
              (case (if total \<noteq> JNull then py_int total else Some (p + c)) of
                 None \<Rightarrow> unknown_call native
               | Some t \<Rightarrow>
                   (let cache = get_or_null fs ''anthropic_cache'';
                        valid = (case (strict_int (obj_get cache ''read''), strict_int (obj_get cache ''write'')) of
                            (Some r, Some w) \<Rightarrow> if 0 \<le> r \<and> 0 \<le> w \<and> r + w \<le> p then Some (r, w) else None
                          | _ \<Rightarrow> None)
                    in \<lparr>tu_prompt = p, tu_completion = c, tu_total = t, tu_known = True, tu_complete = True,
                        tu_calls = 1, tu_totalMismatch = (t \<noteq> p + c), tu_native = single_call native,
                        tu_cacheRead = map_option fst valid, tu_cacheWrite = map_option snd valid\<rparr>))
          | _ \<Rightarrow> unknown_call native))
   | _ \<Rightarrow> unknown_call native)"

text \<open>The validator of \<open>TokenUsage\<close>, and the sum of two usages (\<open>Inl ()\<close>: refused).\<close>

definition token_usage_ok :: "token_usage \<Rightarrow> bool" where
  "token_usage_ok u \<longleftrightarrow> (case tu_native u of None \<Rightarrow> True | Some b \<Rightarrow> nb_totalCalls b = tu_calls u)"

definition add_cache :: "int \<Rightarrow> int option \<Rightarrow> int \<Rightarrow> int option \<Rightarrow> int option" where
  "add_cache lc l rc r = (if lc = 0 then r else if rc = 0 then l
     else case (l, r) of (Some x, Some y) \<Rightarrow> Some (x + y) | _ \<Rightarrow> None)"

definition add_usage :: "token_usage \<Rightarrow> token_usage \<Rightarrow> unit + token_usage" where
  "add_usage u v =
     bindE (merge_native_usage (tu_native u) (tu_calls u) (tu_native v) (tu_calls v)) (\<lambda>native.
     let s = \<lparr>tu_prompt = tu_prompt u + tu_prompt v, tu_completion = tu_completion u + tu_completion v,
              tu_total = tu_total u + tu_total v, tu_known = (tu_known u \<or> tu_known v),
              tu_complete = (tu_complete u \<and> tu_complete v \<and> (tu_calls v = 0 \<or> tu_known v)),
              tu_calls = tu_calls u + tu_calls v, tu_totalMismatch = (tu_totalMismatch u \<or> tu_totalMismatch v),
              tu_native = native,
              tu_cacheRead = add_cache (tu_calls u) (tu_cacheRead u) (tu_calls v) (tu_cacheRead v),
              tu_cacheWrite = add_cache (tu_calls u) (tu_cacheWrite u) (tu_calls v) (tu_cacheWrite v)\<rparr>
     in bindE (ensure (token_usage_ok s) ()) (\<lambda>_. Inr s))"

text \<open>An agent turn folds the usage of each of its calls into the empty usage.\<close>

fun add_calls :: "token_usage \<Rightarrow> token_usage list \<Rightarrow> unit + token_usage" where
  "add_calls acc [] = Inr acc"
| "add_calls acc (u # us) = bindE (add_usage acc u) (\<lambda>s. add_calls s us)"

section \<open>Records\<close>

datatype usage_status = UComplete | UCancelled | UError

definition CODE_INTERPRETER_PROVIDER :: string where
  "CODE_INTERPRETER_PROVIDER = ''azure_openai_code_interpreter''"

definition PHOTO_AVATAR_PROVIDER :: string where
  "PHOTO_AVATAR_PROVIDER = ''azure_speech_photo_avatar''"

definition CODE_INTERPRETER_TARGET :: string where "CODE_INTERPRETER_TARGET = ''code_interpreter''"

record usage_target =
  ut_provider :: string
  ut_deployment :: "string option"
  ut_target :: "string option"
  ut_region :: "string option"
  ut_dataZone :: "string option"

definition target_from_deployment :: "string \<Rightarrow> deployment_option \<Rightarrow> usage_target" where
  "target_from_deployment provider dep = \<lparr>ut_provider = provider, ut_deployment = Some (dp_deploymentName dep),
     ut_target = Some (dp_deploymentName dep), ut_region = Some (dp_region dep), ut_dataZone = dp_dataZone dep\<rparr>"

definition target_managed_service :: "string \<Rightarrow> string \<Rightarrow> string \<Rightarrow> string option \<Rightarrow> usage_target" where
  "target_managed_service provider target region zone = \<lparr>ut_provider = provider, ut_deployment = None,
     ut_target = Some target, ut_region = Some region, ut_dataZone = zone\<rparr>"

definition target_code_interpreter :: "string option \<Rightarrow> usage_target" where
  "target_code_interpreter deployment = \<lparr>ut_provider = CODE_INTERPRETER_PROVIDER,
     ut_deployment = (if deployment = Some [] then None else deployment),
     ut_target = Some CODE_INTERPRETER_TARGET, ut_region = None, ut_dataZone = None\<rparr>"

record usage_record =
  ur_id :: string
  ur_userId :: string
  ur_sessionId :: string
  ur_provider :: string
  ur_model :: string
  ur_deployment :: "string option"
  ur_target :: "string option"
  ur_region :: "string option"
  ur_dataZone :: "string option"
  ur_agent :: "string option"
  ur_status :: usage_status
  ur_providerCompleted :: bool
  ur_workflowDispatchClaimed :: bool
  ur_billable :: bool
  ur_usageKnown :: bool
  ur_usageComplete :: bool
  ur_calls :: int
  ur_promptTokens :: "int option"
  ur_completionTokens :: "int option"
  ur_totalTokens :: "int option"
  ur_nativeUsage :: "native_batch option"
  ur_billableUnits :: "int option"
  ur_billingUnit :: "string option"
  ur_imageSize :: "string option"
  ur_imageQuality :: "string option"
  ur_resourceRef :: "string option"
  ur_costKnown :: bool
  ur_costUnknownReason :: "string option"
  ur_estCostMicroUsd :: "int option"
  ur_currency :: string
  ur_priceInputPer1M :: "string option"
  ur_priceOutputPer1M :: "string option"
  ur_pricingBasis :: "string option"
  ur_priceVersion :: "string option"
  ur_correlationId :: "string option"
  ur_hardQuota :: "admission_evidence list"
  ur_hardQuotaCount :: "int option"
  ur_createdAt :: int

text \<open>A record with the defaults of its fields.\<close>

definition new_record :: "string \<Rightarrow> string \<Rightarrow> string \<Rightarrow> string \<Rightarrow> int \<Rightarrow> usage_record" where
  "new_record ident user session model now = \<lparr>ur_id = ident, ur_userId = user, ur_sessionId = session,
     ur_provider = ''azure_openai'', ur_model = model, ur_deployment = None, ur_target = None, ur_region = None,
     ur_dataZone = None, ur_agent = None, ur_status = UComplete, ur_providerCompleted = False,
     ur_workflowDispatchClaimed = False, ur_billable = False, ur_usageKnown = False, ur_usageComplete = True,
     ur_calls = 0, ur_promptTokens = None, ur_completionTokens = None, ur_totalTokens = None,
     ur_nativeUsage = None, ur_billableUnits = None, ur_billingUnit = None, ur_imageSize = None,
     ur_imageQuality = None, ur_resourceRef = None, ur_costKnown = False, ur_costUnknownReason = None,
     ur_estCostMicroUsd = None, ur_currency = ''USD'', ur_priceInputPer1M = None, ur_priceOutputPer1M = None,
     ur_pricingBasis = None, ur_priceVersion = None, ur_correlationId = None, ur_hardQuota = [],
     ur_hardQuotaCount = None, ur_createdAt = now\<rparr>"

text \<open>The fields a rollup reads (\<open>UsageRollupRow\<close>), and the projection of a record.\<close>

record rollup_row =
  rr_userId :: string
  rr_model :: string
  rr_provider :: string
  rr_status :: usage_status
  rr_billable :: bool
  rr_usageKnown :: bool
  rr_costKnown :: bool
  rr_createdAt :: int
  rr_providerCompleted :: bool
  rr_workflowDispatchClaimed :: bool
  rr_agent :: "string option"
  rr_deployment :: "string option"
  rr_region :: "string option"
  rr_dataZone :: "string option"
  rr_promptTokens :: "int option"
  rr_completionTokens :: "int option"
  rr_totalTokens :: "int option"
  rr_estCostMicroUsd :: "int option"

definition row_of_record :: "usage_record \<Rightarrow> rollup_row" where
  "row_of_record r = \<lparr>rr_userId = ur_userId r, rr_model = ur_model r, rr_provider = ur_provider r,
     rr_status = ur_status r, rr_billable = ur_billable r, rr_usageKnown = ur_usageKnown r,
     rr_costKnown = ur_costKnown r, rr_createdAt = ur_createdAt r,
     rr_providerCompleted = ur_providerCompleted r, rr_workflowDispatchClaimed = ur_workflowDispatchClaimed r,
     rr_agent = ur_agent r, rr_deployment = ur_deployment r, rr_region = ur_region r,
     rr_dataZone = ur_dataZone r, rr_promptTokens = ur_promptTokens r,
     rr_completionTokens = ur_completionTokens r, rr_totalTokens = ur_totalTokens r,
     rr_estCostMicroUsd = ur_estCostMicroUsd r\<rparr>"

definition cost_bearing_attempt :: "rollup_row \<Rightarrow> bool" where
  "cost_bearing_attempt r \<longleftrightarrow> rr_billable r \<or> rr_providerCompleted r \<or> rr_workflowDispatchClaimed r
     \<or> rr_provider r \<in> {CODE_INTERPRETER_PROVIDER, PHOTO_AVATAR_PROVIDER, ''microsoft_decision''}"

section \<open>The usage of an agent turn\<close>

text \<open>One parsed response is one call, complete exactly when it is known, and counts nothing when not.\<close>

definition one_call :: "token_usage \<Rightarrow> bool" where
  "one_call u \<longleftrightarrow> tu_calls u = 1 \<and> evidence_of (tu_native u) 1 \<and> tu_complete u = tu_known u
     \<and> (\<not> tu_known u \<longrightarrow> tu_prompt u = 0 \<and> tu_completion u = 0 \<and> tu_total u = 0)"

lemma single_call_evidence: "evidence_of (single_call native) 1"
  by (cases native) (auto simp: single_call_def evidence_of_def batch_ok_def MAX_NATIVE_USAGE_CALLS_def
      MAX_NATIVE_USAGE_VALUE_def)

lemma parse_one_call: "one_call (parse_usage native usage)"
proof -
  have "one_call (unknown_call native)"
    using single_call_evidence by (simp add: one_call_def unknown_call_def empty_usage_def)
  then show ?thesis
    using single_call_evidence
    by (auto simp: parse_usage_def Let_def one_call_def split: option.splits json.splits)
qed

text \<open>\<open>s\<close> is \<open>acc\<close> with the calls \<open>us\<close> folded in.\<close>

definition extends :: "token_usage \<Rightarrow> token_usage list \<Rightarrow> token_usage \<Rightarrow> bool" where
  "extends acc us s \<longleftrightarrow> evidence_of (tu_native s) (tu_calls s) \<and> tu_calls s = tu_calls acc + int (length us)
    \<and> tu_prompt s = tu_prompt acc + sum_list (map tu_prompt us)
    \<and> tu_completion s = tu_completion acc + sum_list (map tu_completion us)
    \<and> tu_total s = tu_total acc + sum_list (map tu_total us)
    \<and> tu_known s = (tu_known acc \<or> list_ex tu_known us)
    \<and> tu_complete s = (tu_complete acc \<and> list_all tu_known us)
    \<and> tu_totalMismatch s = (tu_totalMismatch acc \<or> list_ex tu_totalMismatch us)"

lemma add_usage_extends:
  assumes "evidence_of (tu_native acc) (tu_calls acc)" "one_call u" "tu_calls acc + 1 \<le> MAX_NATIVE_USAGE_VALUE"
  shows "\<exists>s. add_usage acc u = Inr s \<and> extends acc [u] s"
proof -
  obtain b where b: "merge_native_usage (tu_native acc) (tu_calls acc) (tu_native u) (tu_calls u) = Inr b"
    "evidence_of b (tu_calls acc + 1)"
    using merge_evidence [OF assms(1), of "tu_native u" 1] assms(2,3) by (auto simp: one_call_def)
  then have "case b of None \<Rightarrow> True | Some x \<Rightarrow> nb_totalCalls x = tu_calls acc + 1"
    by (auto simp: evidence_of_def split: option.splits)
  then show ?thesis
    using b assms(2) by (cases b) (simp_all add: add_usage_def one_call_def extends_def Let_def token_usage_ok_def)
qed

lemma add_calls_extends:
  assumes "evidence_of (tu_native acc) (tu_calls acc)" "list_all one_call us"
    "tu_calls acc + int (length us) \<le> MAX_NATIVE_USAGE_VALUE"
  shows "\<exists>s. add_calls acc us = Inr s \<and> extends acc us s"
  using assms
proof (induction us arbitrary: acc)
  case Nil
  then show ?case by (simp add: extends_def)
next
  case (Cons u us)
  have "one_call u" "list_all one_call us" "tu_calls acc + 1 \<le> MAX_NATIVE_USAGE_VALUE" using Cons.prems by auto
  then obtain s where s: "add_usage acc u = Inr s" "extends acc [u] s"
    using add_usage_extends [OF Cons.prems(1)] by blast
  then have "evidence_of (tu_native s) (tu_calls s)" "tu_calls s + int (length us) \<le> MAX_NATIVE_USAGE_VALUE"
    using Cons.prems(3) by (auto simp: extends_def)
  with Cons.IH \<open>list_all one_call us\<close> obtain t where "add_calls s us = Inr t" "extends s us t" by blast
  with s show ?case by (auto simp: extends_def)
qed


text \<open>A turn of two calls, the second of which reported nothing.\<close>

definition demo_responses :: "(native_usage option \<times> json option) list" where
  "demo_responses = [(Some (capture (JObj [(''prompt_tokens'', JInt 7)]) NChat),
       Some (JObj [(''prompt_tokens'', JInt 7), (''completion_tokens'', JStr ''1_0''), (''total_tokens'', JInt 18)])),
     (None, None)]"


end
