(* ===== verification/Usage_Rollup.thy ===== *)
theory Usage_Rollup
  imports Usage_Models "HOL-Library.Product_Lexorder"
begin

text \<open>
  The aggregations of the ledger: the per-user summary of \<open>usage/models.py\<close> and the reports of
  \<open>usage/aggregate.py\<close>. A report is one pass over the rows that keeps a dictionary of buckets in
  order of first appearance and sorts them at the end (\<open>sorted\<close> is stable, also in reverse).
\<close>

section \<open>Calendar days\<close>

text \<open>\<open>strftime('%Y-%m-%d')\<close> of an instant in UTC, for the years 1000 to 9999.\<close>

definition civil_of_days :: "int \<Rightarrow> int \<times> int \<times> int" where
  "civil_of_days days =
     (let z = days + 719468; era = z div 146097; doe = z mod 146097;
          yoe = (doe - doe div 1460 + doe div 36524 - doe div 146096) div 365;
          doy = doe - (365 * yoe + yoe div 4 - yoe div 100); mp = (5 * doy + 2) div 153;
          month = (if mp < 10 then mp + 3 else mp - 9)
      in (yoe + era * 400 + (if month \<le> 2 then 1 else 0), month, doy - (153 * mp + 2) div 5 + 1))"

definition two_digits :: "int \<Rightarrow> string" where
  "two_digits n = (if n < 10 then ''0'' else []) @ show_int n"

definition DAY_MICROS :: int where "DAY_MICROS = 86400000000"

definition utc_day :: "int \<Rightarrow> string" where
  "utc_day t = (case civil_of_days (t div DAY_MICROS) of
     (y, m, d) \<Rightarrow> show_int y @ ''-'' @ two_digits m @ ''-'' @ two_digits d)"

section \<open>Buckets\<close>

text \<open>One turn: the bucket of the key, created where absent, is updated in its place.\<close>

definition bump :: "('k \<Rightarrow> 'b) \<Rightarrow> ('b \<Rightarrow> 'b) \<Rightarrow> 'k \<Rightarrow> ('k, 'b) dict \<Rightarrow> ('k, 'b) dict" where
  "bump fresh f k d = AList.update k (f (case map_of d k of None \<Rightarrow> fresh k | Some b \<Rightarrow> b)) d"

fun group_by :: "('r \<Rightarrow> 'k) \<Rightarrow> ('k \<Rightarrow> 'b) \<Rightarrow> ('r \<Rightarrow> 'b \<Rightarrow> 'b) \<Rightarrow> ('k, 'b) dict \<Rightarrow> 'r list \<Rightarrow> ('k, 'b) dict" where
  "group_by key fresh step d [] = d"
| "group_by key fresh step d (r # rs) = group_by key fresh step (bump fresh (step r) (key r) d) rs"

definition zero_or :: "int option \<Rightarrow> int" where
  "zero_or x = (case x of None \<Rightarrow> 0 | Some n \<Rightarrow> n)"

definition known_tokens :: "rollup_row \<Rightarrow> int option \<Rightarrow> int" where
  "known_tokens r n = (if rr_usageKnown r then zero_or n else 0)"

text \<open>\<open>costKnown and estCostMicroUsd is not None\<close>, and what the row then adds.\<close>

definition has_cost :: "rollup_row \<Rightarrow> bool" where
  "has_cost r \<longleftrightarrow> rr_costKnown r \<and> rr_estCostMicroUsd r \<noteq> None"

definition row_cost :: "rollup_row \<Rightarrow> int" where
  "row_cost r = (if has_cost r then the (rr_estCostMicroUsd r) else 0)"

definition cost_missing :: "rollup_row \<Rightarrow> bool" where
  "cost_missing r \<longleftrightarrow> \<not> has_cost r \<and> cost_bearing_attempt r"

record model_bucket =
  mb_model :: string
  mb_requests :: int
  mb_promptTokens :: int
  mb_completionTokens :: int
  mb_totalTokens :: int
  mb_costMicroUsd :: int
  mb_costKnown :: bool

definition fresh_model :: "string \<Rightarrow> model_bucket" where
  "fresh_model m = \<lparr>mb_model = m, mb_requests = 0, mb_promptTokens = 0, mb_completionTokens = 0,
     mb_totalTokens = 0, mb_costMicroUsd = 0, mb_costKnown = True\<rparr>"

definition add_to_model :: "rollup_row \<Rightarrow> model_bucket \<Rightarrow> model_bucket" where
  "add_to_model r b = b\<lparr>mb_requests := mb_requests b + 1,
     mb_promptTokens := mb_promptTokens b + known_tokens r (rr_promptTokens r),
     mb_completionTokens := mb_completionTokens b + known_tokens r (rr_completionTokens r),
     mb_totalTokens := mb_totalTokens b + known_tokens r (rr_totalTokens r),
     mb_costMicroUsd := mb_costMicroUsd b + row_cost r,
     mb_costKnown := mb_costKnown b \<and> \<not> cost_missing r\<rparr>"

definition aggregate_by_model :: "rollup_row list \<Rightarrow> model_bucket list" where
  "aggregate_by_model rs =
     sort_key (\<lambda>b. - mb_totalTokens b) (map snd (group_by rr_model fresh_model add_to_model [] rs))"

record day_bucket =
  db_day :: string
  db_requests :: int
  db_totalTokens :: int
  db_costMicroUsd :: int

definition add_to_day :: "rollup_row \<Rightarrow> day_bucket \<Rightarrow> day_bucket" where
  "add_to_day r b = b\<lparr>db_requests := db_requests b + 1,
     db_totalTokens := db_totalTokens b + known_tokens r (rr_totalTokens r),
     db_costMicroUsd := db_costMicroUsd b + row_cost r\<rparr>"

definition fresh_day :: "string \<Rightarrow> day_bucket" where
  "fresh_day d = \<lparr>db_day = d, db_requests = 0, db_totalTokens = 0, db_costMicroUsd = 0\<rparr>"

definition aggregate_by_day :: "rollup_row list \<Rightarrow> day_bucket list" where
  "aggregate_by_day rs =
     sort_key db_day (map snd (group_by (\<lambda>r. utc_day (rr_createdAt r)) fresh_day add_to_day [] rs))"

record user_bucket =
  ub_userId :: string
  ub_requests :: int
  ub_erroredRequests :: int
  ub_promptTokens :: int
  ub_completionTokens :: int
  ub_totalTokens :: int
  ub_costMicroUsd :: int
  ub_costKnown :: bool
  ub_lastActiveAt :: "int option"

definition fresh_user :: "string \<Rightarrow> user_bucket" where
  "fresh_user u = \<lparr>ub_userId = u, ub_requests = 0, ub_erroredRequests = 0, ub_promptTokens = 0,
     ub_completionTokens = 0, ub_totalTokens = 0, ub_costMicroUsd = 0, ub_costKnown = True,
     ub_lastActiveAt = None\<rparr>"

definition add_to_user :: "rollup_row \<Rightarrow> user_bucket \<Rightarrow> user_bucket" where
  "add_to_user r b = b\<lparr>ub_requests := ub_requests b + 1,
     ub_erroredRequests := ub_erroredRequests b + (if rr_status r = UError then 1 else 0),
     ub_promptTokens := ub_promptTokens b + known_tokens r (rr_promptTokens r),
     ub_completionTokens := ub_completionTokens b + known_tokens r (rr_completionTokens r),
     ub_totalTokens := ub_totalTokens b + known_tokens r (rr_totalTokens r),
     ub_costMicroUsd := ub_costMicroUsd b + row_cost r,
     ub_costKnown := ub_costKnown b \<and> \<not> cost_missing r,
     ub_lastActiveAt := (case ub_lastActiveAt b of None \<Rightarrow> Some (rr_createdAt r)
        | Some t \<Rightarrow> if t < rr_createdAt r then Some (rr_createdAt r) else Some t)\<rparr>"

definition aggregate_by_user :: "rollup_row list \<Rightarrow> user_bucket list" where
  "aggregate_by_user rs = sort_key (\<lambda>b. (- ub_totalTokens b, - ub_requests b))
     (map snd (group_by rr_userId fresh_user add_to_user [] rs))"

text \<open>\<open>not rec.agent\<close>: the rows without an agent, or with an empty one, are skipped.\<close>

definition agent_of :: "rollup_row \<Rightarrow> string" where
  "agent_of r = (case rr_agent r of None \<Rightarrow> [] | Some a \<Rightarrow> a)"

record agent_bucket =
  ag_agent :: string
  ag_requests :: int
  ag_erroredRequests :: int
  ag_cancelledRequests :: int
  ag_totalTokens :: int
  ag_costMicroUsd :: int
  ag_users :: int

text \<open>The bucket of an agent and the set of its users (a list without duplicates).\<close>

definition fresh_agent :: "string \<Rightarrow> agent_bucket \<times> string list" where
  "fresh_agent a = (\<lparr>ag_agent = a, ag_requests = 0, ag_erroredRequests = 0, ag_cancelledRequests = 0,
     ag_totalTokens = 0, ag_costMicroUsd = 0, ag_users = 0\<rparr>, [])"

definition add_to_agent :: "rollup_row \<Rightarrow> agent_bucket \<times> string list \<Rightarrow> agent_bucket \<times> string list" where
  "add_to_agent r bu = (case bu of (b, users) \<Rightarrow>
     (b\<lparr>ag_requests := ag_requests b + 1,
        ag_erroredRequests := ag_erroredRequests b + (if rr_status r = UError then 1 else 0),
        ag_cancelledRequests := ag_cancelledRequests b + (if rr_status r = UCancelled then 1 else 0),
        ag_totalTokens := ag_totalTokens b + known_tokens r (rr_totalTokens r),
        ag_costMicroUsd := ag_costMicroUsd b + row_cost r\<rparr>,
      List.insert (rr_userId r) users))"

definition aggregate_agents :: "rollup_row list \<Rightarrow> agent_bucket list" where
  "aggregate_agents rs = sort_key (\<lambda>b. - ag_totalTokens b)
     (map (\<lambda>(a, b, users). b\<lparr>ag_users := int (length users)\<rparr>)
       (group_by agent_of fresh_agent add_to_agent [] (filter (\<lambda>r. agent_of r \<noteq> []) rs)))"

record user_agent_bucket =
  ua_userId :: string
  ua_agent :: string
  ua_requests :: int
  ua_totalTokens :: int
  ua_erroredRequests :: int

definition fresh_user_agent :: "string \<times> string \<Rightarrow> user_agent_bucket" where
  "fresh_user_agent k = \<lparr>ua_userId = fst k, ua_agent = snd k, ua_requests = 0, ua_totalTokens = 0,
     ua_erroredRequests = 0\<rparr>"

definition add_to_user_agent :: "rollup_row \<Rightarrow> user_agent_bucket \<Rightarrow> user_agent_bucket" where
  "add_to_user_agent r b = b\<lparr>ua_requests := ua_requests b + 1,
     ua_erroredRequests := ua_erroredRequests b + (if rr_status r = UError then 1 else 0),
     ua_totalTokens := ua_totalTokens b + known_tokens r (rr_totalTokens r)\<rparr>"

definition aggregate_user_agents :: "rollup_row list \<Rightarrow> user_agent_bucket list" where
  "aggregate_user_agents rs = sort_key (\<lambda>b. (- ua_totalTokens b, - ua_requests b))
     (map snd (group_by (\<lambda>r. (rr_userId r, agent_of r)) fresh_user_agent add_to_user_agent []
       (filter (\<lambda>r. agent_of r \<noteq> []) rs)))"

record dimension_bucket =
  di_key :: string
  di_requests :: int
  di_erroredRequests :: int
  di_totalTokens :: int
  di_costMicroUsd :: int
  di_costKnown :: bool

definition UNKNOWN_DIMENSION :: string where "UNKNOWN_DIMENSION = ''(unknown)''"

definition fresh_dimension :: "string \<Rightarrow> dimension_bucket" where
  "fresh_dimension k = \<lparr>di_key = k, di_requests = 0, di_erroredRequests = 0, di_totalTokens = 0,
     di_costMicroUsd = 0, di_costKnown = True\<rparr>"

definition add_to_dimension :: "rollup_row \<Rightarrow> dimension_bucket \<Rightarrow> dimension_bucket" where
  "add_to_dimension r b = b\<lparr>di_requests := di_requests b + 1,
     di_erroredRequests := di_erroredRequests b + (if rr_status r = UError then 1 else 0),
     di_totalTokens := di_totalTokens b + known_tokens r (rr_totalTokens r),
     di_costMicroUsd := di_costMicroUsd b + row_cost r,
     di_costKnown := di_costKnown b \<and> \<not> cost_missing r\<rparr>"

definition dimension_key :: "string option \<Rightarrow> string" where
  "dimension_key k = (case k of None \<Rightarrow> UNKNOWN_DIMENSION | Some s \<Rightarrow> if s = [] then UNKNOWN_DIMENSION else s)"

definition aggregate_dimension :: "rollup_row list \<Rightarrow> (rollup_row \<Rightarrow> string option) \<Rightarrow> dimension_bucket list" where
  "aggregate_dimension rs key_of = sort_key (\<lambda>b. (- di_requests b, - di_totalTokens b))
     (map snd (group_by (\<lambda>r. dimension_key (key_of r)) fresh_dimension add_to_dimension [] rs))"

definition status_name :: "usage_status \<Rightarrow> string" where
  "status_name st = (case st of UComplete \<Rightarrow> ''complete'' | UCancelled \<Rightarrow> ''cancelled'' | UError \<Rightarrow> ''error'')"

definition aggregate_by_region :: "rollup_row list \<Rightarrow> dimension_bucket list" where
  "aggregate_by_region rs = aggregate_dimension rs rr_region"

definition aggregate_by_data_zone :: "rollup_row list \<Rightarrow> dimension_bucket list" where
  "aggregate_by_data_zone rs = aggregate_dimension rs rr_dataZone"

definition aggregate_by_provider :: "rollup_row list \<Rightarrow> dimension_bucket list" where
  "aggregate_by_provider rs = aggregate_dimension rs (\<lambda>r. Some (rr_provider r))"

definition aggregate_by_deployment :: "rollup_row list \<Rightarrow> dimension_bucket list" where
  "aggregate_by_deployment rs = aggregate_dimension rs rr_deployment"

definition aggregate_by_status :: "rollup_row list \<Rightarrow> dimension_bucket list" where
  "aggregate_by_status rs = aggregate_dimension rs (\<lambda>r. Some (status_name (rr_status r)))"

section \<open>Summaries\<close>

record usage_summary =
  us_userId :: string
  us_sinceDays :: int
  us_fromTime :: int
  us_toTime :: int
  us_totalRequests :: int
  us_billableRequests :: int
  us_unknownUsageRequests :: int
  us_cancelledRequests :: int
  us_erroredRequests :: int
  us_computeExecutions :: int
  us_totalPromptTokens :: int
  us_totalCompletionTokens :: int
  us_totalTokens :: int
  us_totalCostMicroUsd :: int
  us_costUnknownRequests :: int
  us_byModel :: "model_bucket list"
  us_byDay :: "day_bucket list"

definition add_to_summary :: "rollup_row \<Rightarrow> usage_summary \<Rightarrow> usage_summary" where
  "add_to_summary r s = s\<lparr>us_totalRequests := us_totalRequests s + 1,
     us_computeExecutions := us_computeExecutions s + (if rr_provider r = CODE_INTERPRETER_PROVIDER then 1 else 0),
     us_cancelledRequests := us_cancelledRequests s + (if rr_status r = UCancelled then 1 else 0),
     us_erroredRequests := us_erroredRequests s + (if rr_status r = UError then 1 else 0),
     us_billableRequests := us_billableRequests s + (if rr_billable r then 1 else 0),
     us_unknownUsageRequests := us_unknownUsageRequests s + (if rr_usageKnown r then 0 else 1),
     us_totalPromptTokens := us_totalPromptTokens s + known_tokens r (rr_promptTokens r),
     us_totalCompletionTokens := us_totalCompletionTokens s + known_tokens r (rr_completionTokens r),
     us_totalTokens := us_totalTokens s + known_tokens r (rr_totalTokens r),
     us_totalCostMicroUsd := us_totalCostMicroUsd s + row_cost r,
     us_costUnknownRequests := us_costUnknownRequests s + (if cost_missing r then 1 else 0)\<rparr>"

text \<open>The one loop of \<open>summarize_records\<close> over the summary and its two dictionaries.\<close>

fun summarize_loop ::
  "usage_summary \<Rightarrow> (string, model_bucket) dict \<Rightarrow> (string, day_bucket) dict \<Rightarrow> rollup_row list
    \<Rightarrow> usage_summary \<times> (string, model_bucket) dict \<times> (string, day_bucket) dict" where
  "summarize_loop s bm bd [] = (s, bm, bd)"
| "summarize_loop s bm bd (r # rs) =
     summarize_loop (add_to_summary r s) (bump fresh_model (add_to_model r) (rr_model r) bm)
       (bump fresh_day (add_to_day r) (utc_day (rr_createdAt r)) bd) rs"

definition empty_summary :: "string \<Rightarrow> int \<Rightarrow> int \<Rightarrow> int \<Rightarrow> usage_summary" where
  "empty_summary user since_days from_time to_time = \<lparr>us_userId = user, us_sinceDays = since_days,
     us_fromTime = from_time, us_toTime = to_time, us_totalRequests = 0, us_billableRequests = 0,
     us_unknownUsageRequests = 0, us_cancelledRequests = 0, us_erroredRequests = 0, us_computeExecutions = 0,
     us_totalPromptTokens = 0, us_totalCompletionTokens = 0, us_totalTokens = 0, us_totalCostMicroUsd = 0,
     us_costUnknownRequests = 0, us_byModel = [], us_byDay = []\<rparr>"

definition summarize_records :: "string \<Rightarrow> usage_record list \<Rightarrow> int \<Rightarrow> int \<Rightarrow> int \<Rightarrow> usage_summary" where
  "summarize_records user records since_days from_time to_time =
     (case summarize_loop (empty_summary user since_days from_time to_time) [] [] (map row_of_record records) of
       (s, bm, bd) \<Rightarrow> s\<lparr>us_byModel := sort_key (\<lambda>b. - mb_totalTokens b) (map snd bm),
                       us_byDay := sort_key db_day (map snd bd)\<rparr>)"

text \<open>\<open>aggregate_summary\<close>; the error rate, a rounded quotient of two of its counts, is left out.\<close>

record org_summary =
  os_activeUsers :: int
  os_totalRequests :: int
  os_billableRequests :: int
  os_unknownUsageRequests :: int
  os_cancelledRequests :: int
  os_erroredRequests :: int
  os_totalPromptTokens :: int
  os_totalCompletionTokens :: int
  os_totalTokens :: int
  os_totalCostMicroUsd :: int
  os_costUnknownRequests :: int
  os_distinctModels :: int
  os_distinctAgents :: int
  os_distinctProviders :: int

definition empty_org :: org_summary where
  "empty_org = \<lparr>os_activeUsers = 0, os_totalRequests = 0, os_billableRequests = 0, os_unknownUsageRequests = 0,
     os_cancelledRequests = 0, os_erroredRequests = 0, os_totalPromptTokens = 0, os_totalCompletionTokens = 0,
     os_totalTokens = 0, os_totalCostMicroUsd = 0, os_costUnknownRequests = 0, os_distinctModels = 0,
     os_distinctAgents = 0, os_distinctProviders = 0\<rparr>"

definition add_to_org :: "rollup_row \<Rightarrow> org_summary \<Rightarrow> org_summary" where
  "add_to_org r s = s\<lparr>os_totalRequests := os_totalRequests s + 1,
     os_cancelledRequests := os_cancelledRequests s + (if rr_status r = UCancelled then 1 else 0),
     os_erroredRequests := os_erroredRequests s + (if rr_status r = UError then 1 else 0),
     os_billableRequests := os_billableRequests s + (if rr_billable r then 1 else 0),
     os_unknownUsageRequests := os_unknownUsageRequests s + (if rr_usageKnown r then 0 else 1),
     os_totalPromptTokens := os_totalPromptTokens s + known_tokens r (rr_promptTokens r),
     os_totalCompletionTokens := os_totalCompletionTokens s + known_tokens r (rr_completionTokens r),
     os_totalTokens := os_totalTokens s + known_tokens r (rr_totalTokens r),
     os_totalCostMicroUsd := os_totalCostMicroUsd s + row_cost r,
     os_costUnknownRequests := os_costUnknownRequests s + (if cost_missing r then 1 else 0)\<rparr>"

definition count_distinct :: "string list \<Rightarrow> int" where
  "count_distinct xs = int (length (remdups xs))"

definition aggregate_summary :: "rollup_row list \<Rightarrow> org_summary" where
  "aggregate_summary rs = (foldl (\<lambda>s r. add_to_org r s) empty_org rs)\<lparr>
     os_activeUsers := count_distinct (map rr_userId rs), os_distinctModels := count_distinct (map rr_model rs),
     os_distinctAgents := count_distinct (filter (\<lambda>a. a \<noteq> []) (map agent_of rs)),
     os_distinctProviders := count_distinct (map rr_provider rs)\<rparr>"

section \<open>The admin service\<close>

definition DEFAULT_ADMIN_DAYS :: int where "DEFAULT_ADMIN_DAYS = 30"
definition MAX_ADMIN_DAYS :: int where "MAX_ADMIN_DAYS = 90"
definition MAX_ADMIN_RECORDS :: nat where "MAX_ADMIN_RECORDS = 50000"
definition MAX_USER_PAGE_SIZE :: int where "MAX_USER_PAGE_SIZE = 200"

definition clamp_days :: "int option \<Rightarrow> int" where
  "clamp_days days = (case days of None \<Rightarrow> DEFAULT_ADMIN_DAYS | Some d \<Rightarrow> max 1 (min d MAX_ADMIN_DAYS))"

record admin_overview =
  ov_sinceDays :: int
  ov_fromTime :: int
  ov_toTime :: int
  ov_truncated :: bool
  ov_scannedRecords :: int
  ov_summary :: org_summary
  ov_byModel :: "model_bucket list"
  ov_byDay :: "day_bucket list"
  ov_totalUsers :: int
  ov_userLimit :: int
  ov_userOffset :: int
  ov_byUser :: "user_bucket list"
  ov_agents :: "agent_bucket list"
  ov_userAgents :: "user_agent_bucket list"
  ov_byRegion :: "dimension_bucket list"
  ov_byDataZone :: "dimension_bucket list"
  ov_byProvider :: "dimension_bucket list"
  ov_byDeployment :: "dimension_bucket list"
  ov_byStatus :: "dimension_bucket list"

text \<open>
  \<open>overview\<close>: one bounded scan (\<open>scan since now limit\<close>), every report folded out of it. Over
  rows none of the reports raises, so no section is partial.
\<close>

definition overview ::
  "(int \<Rightarrow> int \<Rightarrow> nat \<Rightarrow> rollup_row list) \<Rightarrow> nat \<Rightarrow> int \<Rightarrow> int option \<Rightarrow> int \<Rightarrow> int \<Rightarrow> admin_overview" where
  "overview scan max_records now days user_limit user_offset =
     (let d = clamp_days (if days = Some 0 then None else days); since = now - d * DAY_MICROS;
          rows = scan since now max_records; users = aggregate_by_user rows;
          lim = max 1 (min user_limit MAX_USER_PAGE_SIZE); off = max 0 user_offset
      in \<lparr>ov_sinceDays = d, ov_fromTime = since, ov_toTime = now,
          ov_truncated = (max_records \<le> length rows), ov_scannedRecords = int (length rows),
          ov_summary = aggregate_summary rows, ov_byModel = aggregate_by_model rows,
          ov_byDay = aggregate_by_day rows, ov_totalUsers = int (length users), ov_userLimit = lim,
          ov_userOffset = off, ov_byUser = take (nat lim) (drop (nat off) users),
          ov_agents = aggregate_agents rows, ov_userAgents = aggregate_user_agents rows,
          ov_byRegion = aggregate_by_region rows, ov_byDataZone = aggregate_by_data_zone rows,
          ov_byProvider = aggregate_by_provider rows, ov_byDeployment = aggregate_by_deployment rows,
          ov_byStatus = aggregate_by_status rows\<rparr>)"

section \<open>What grouping computes\<close>

text \<open>
  The bucket of a key is the fold of the rows of that key, in their order, over the fresh bucket;
  the keys are those of the rows.
\<close>

lemma group_by_append: "group_by key fresh step d (xs @ ys) = group_by key fresh step (group_by key fresh step d xs) ys"
  by (induction xs arbitrary: d) simp_all

lemma group_by_lookup:
  "map_of (group_by key fresh step d rs) k =
     (if filter (\<lambda>r. key r = k) rs = [] then map_of d k
      else Some (foldl (\<lambda>b r. step r b) (case map_of d k of None \<Rightarrow> fresh k | Some b \<Rightarrow> b)
             (filter (\<lambda>r. key r = k) rs)))"
  by (induction rs arbitrary: d) (auto simp: bump_def dict_simps split: option.splits)

lemma group_by_keys: "fst ` set (group_by key fresh step d rs) = fst ` set d \<union> key ` set rs"
  by (induction rs arbitrary: d) (auto simp: bump_def dict_simps)

lemma group_by_distinct: "distinct (map fst d) \<Longrightarrow> distinct (map fst (group_by key fresh step d rs))"
  by (induction rs arbitrary: d) (auto simp: bump_def)

lemma group_by_mem:
  assumes "(k, b) \<in> set (group_by key fresh step [] rs)"
  shows "b = foldl (\<lambda>b r. step r b) (fresh k) (filter (\<lambda>r. key r = k) rs)" "k \<in> key ` set rs"
proof -
  have d: "distinct (map fst (group_by key fresh step [] rs))" by (rule group_by_distinct) simp
  have k: "k \<in> key ` set rs" using assms group_by_keys [of key fresh step "[]" rs] by force
  then show "k \<in> key ` set rs" .
  have "filter (\<lambda>r. key r = k) rs \<noteq> []" using k by (auto simp: filter_empty_conv)
  with mem_map_of [OF d assms] group_by_lookup [of key fresh step "[]" rs k]
  show "b = foldl (\<lambda>b r. step r b) (fresh k) (filter (\<lambda>r. key r = k) rs)" by simp
qed

text \<open>A measure every turn raises by the weight of its row sums, over the buckets, to all weights.\<close>

lemma sum_update_dict:
  fixes m :: "'b \<Rightarrow> int"
  assumes "distinct (map fst d)"
  shows "sum_list (map (m \<circ> snd) (AList.update k v d)) =
     sum_list (map (m \<circ> snd) d) + m v - (case map_of d k of None \<Rightarrow> 0 | Some b \<Rightarrow> m b)"
  using assms by (induction d) (auto split: option.splits simp: rev_image_eqI dest: map_of_SomeD)

lemma group_by_sum:
  fixes m :: "'b \<Rightarrow> int"
  assumes "\<And>k. m (fresh k) = 0" "\<And>r b. m (step r b) = m b + w r" "distinct (map fst d)"
  shows "sum_list (map (m \<circ> snd) (group_by key fresh step d rs)) =
     sum_list (map (m \<circ> snd) d) + sum_list (map w rs)"
  using assms(3)
proof (induction rs arbitrary: d)
  case (Cons r rs)
  have "sum_list (map (m \<circ> snd) (bump fresh (step r) (key r) d)) = sum_list (map (m \<circ> snd) d) + w r"
    using sum_update_dict [OF Cons.prems, of m "key r"] assms(1,2)
    by (auto simp: bump_def split: option.splits)
  moreover have "distinct (map fst (bump fresh (step r) (key r) d))" using Cons.prems by (simp add: bump_def)
  ultimately show ?case using Cons.IH [of "bump fresh (step r) (key r) d"] by (simp add: comp_def)
qed simp

lemma sum_list_insort_key: "sum_list (map f (insort_key g x xs)) = f x + sum_list (map f xs :: int list)"
  by (induction xs) auto

lemma sum_list_sort_key: "sum_list (map f (sort_key g xs)) = sum_list (map f xs :: int list)"
  by (induction xs) (simp_all add: sum_list_insort_key)

lemma distinct_sort_map: "distinct (map f (sort_key g xs)) = distinct (map f xs)"
  by (simp add: distinct_map)

lemma map_snd_sum: "map m (map snd d) = map (m \<circ> snd) d"
  by simp

lemma fold_mono_field:
  assumes "\<And>r b. sel (step r b) = sel b"
  shows "sel (foldl (\<lambda>b r. step r b) b rs) = sel b"
  using assms by (induction rs arbitrary: b) simp_all

lemma fold_sum_field:
  fixes sel :: "'b \<Rightarrow> int"
  assumes "\<And>r b. sel (step r b) = sel b + w r"
  shows "sel (foldl (\<lambda>b r. step r b) b rs) = sel b + sum_list (map w rs)"
  using assms by (induction rs arbitrary: b) simp_all

lemma fold_conj_field:
  assumes "\<And>r b. sel (step r b) \<longleftrightarrow> sel b \<and> p r"
  shows "sel (foldl (\<lambda>b r. step r b) b rs) \<longleftrightarrow> sel b \<and> list_all p rs"
  using assms by (induction rs arbitrary: b) auto

lemmas bucket_sums = sum_list_sort_key map_snd_sum

lemma by_model_total:
  "sum_list (map mb_requests (aggregate_by_model rs)) = int (length rs)"
  "sum_list (map mb_totalTokens (aggregate_by_model rs)) = sum_list (map (\<lambda>r. known_tokens r (rr_totalTokens r)) rs)"
  "sum_list (map mb_costMicroUsd (aggregate_by_model rs)) = sum_list (map row_cost rs)"
  unfolding aggregate_by_model_def bucket_sums
  by (subst group_by_sum [where w = "\<lambda>_. 1"],
        simp_all add: fresh_model_def add_to_model_def sum_list_triv,
      subst group_by_sum [where w = "\<lambda>r. known_tokens r (rr_totalTokens r)"],
        simp_all add: fresh_model_def add_to_model_def,
      subst group_by_sum [where w = row_cost], simp_all add: fresh_model_def add_to_model_def)

lemma by_day_total:
  "sum_list (map db_requests (aggregate_by_day rs)) = int (length rs)"
  "sum_list (map db_totalTokens (aggregate_by_day rs)) = sum_list (map (\<lambda>r. known_tokens r (rr_totalTokens r)) rs)"
  "sum_list (map db_costMicroUsd (aggregate_by_day rs)) = sum_list (map row_cost rs)"
  unfolding aggregate_by_day_def bucket_sums
  by (subst group_by_sum [where w = "\<lambda>_. 1"],
        simp_all add: fresh_day_def add_to_day_def sum_list_triv,
      subst group_by_sum [where w = "\<lambda>r. known_tokens r (rr_totalTokens r)"],
        simp_all add: fresh_day_def add_to_day_def,
      subst group_by_sum [where w = row_cost], simp_all add: fresh_day_def add_to_day_def)

lemma summarize_loop_eq:
  "summarize_loop s bm bd rs = (foldl (\<lambda>s r. add_to_summary r s) s rs,
     group_by rr_model fresh_model add_to_model bm rs,
     group_by (\<lambda>r. utc_day (rr_createdAt r)) fresh_day add_to_day bd rs)"
  by (induction rs arbitrary: s bm bd) simp_all

section \<open>The reports are exact\<close>

text \<open>The weight a list of rows has in each column of a report.\<close>

definition tokens_of :: "rollup_row list \<Rightarrow> int" where
  "tokens_of rs = sum_list (map (\<lambda>r. known_tokens r (rr_totalTokens r)) rs)"

definition cost_of :: "rollup_row list \<Rightarrow> int" where
  "cost_of rs = sum_list (map row_cost rs)"

definition model_bucket_exact :: "rollup_row list \<Rightarrow> model_bucket \<Rightarrow> bool" where
  "model_bucket_exact rs b \<longleftrightarrow> (let own = filter (\<lambda>r. rr_model r = mb_model b) rs in
     own \<noteq> [] \<and> mb_requests b = int (length own) \<and> mb_totalTokens b = tokens_of own
     \<and> mb_costMicroUsd b = cost_of own \<and> mb_costKnown b = list_all (\<lambda>r. \<not> cost_missing r) own)"

lemma model_bucket_of_group:
  assumes "(k, b) \<in> set (group_by rr_model fresh_model add_to_model [] rs)"
  shows "mb_model b = k \<and> model_bucket_exact rs b"
proof -
  let ?own = "filter (\<lambda>r. rr_model r = k) rs"
  note b = group_by_mem [OF assms]
  have "mb_model b = k"
    unfolding b(1) by (subst fold_mono_field [where sel = mb_model]) (simp_all add: add_to_model_def fresh_model_def)
  moreover have "mb_requests b = int (length ?own)"
    unfolding b(1) by (subst fold_sum_field [where sel = mb_requests and w = "\<lambda>_. 1"])
      (simp_all add: add_to_model_def fresh_model_def sum_list_triv)
  moreover have "mb_totalTokens b = tokens_of ?own"
    unfolding b(1) by (subst fold_sum_field [where sel = mb_totalTokens and w = "\<lambda>r. known_tokens r (rr_totalTokens r)"])
      (simp_all add: add_to_model_def fresh_model_def tokens_of_def)
  moreover have "mb_costMicroUsd b = cost_of ?own"
    unfolding b(1) by (subst fold_sum_field [where sel = mb_costMicroUsd and w = row_cost])
      (simp_all add: add_to_model_def fresh_model_def cost_of_def)
  moreover have "mb_costKnown b = list_all (\<lambda>r. \<not> cost_missing r) ?own"
    unfolding b(1) by (subst fold_conj_field [where sel = mb_costKnown and p = "\<lambda>r. \<not> cost_missing r"])
      (simp_all add: add_to_model_def fresh_model_def)
  moreover have "?own \<noteq> []" using b(2) by (auto simp: filter_empty_conv)
  ultimately show ?thesis by (simp add: model_bucket_exact_def)
qed

text \<open>
  The report by model loses nothing and counts nothing twice. It has one bucket for each
  model of the rows and no other, in descending order of tokens; the bucket of a model holds
  exactly the requests, the known tokens and the known cost of that model's rows, and calls its
  cost known only if no row of the model has a cost that matters and is missing; and the buckets
  add up to the totals, as those of the report by day do.
\<close>

theorem reports_lose_nothing:
  "list_all (model_bucket_exact rs) (aggregate_by_model rs)
   \<and> distinct (map mb_model (aggregate_by_model rs))
   \<and> set (map mb_model (aggregate_by_model rs)) = rr_model ` set rs
   \<and> sorted (map (\<lambda>b. - mb_totalTokens b) (aggregate_by_model rs))
   \<and> sum_list (map mb_requests (aggregate_by_model rs)) = int (length rs)
   \<and> sum_list (map mb_totalTokens (aggregate_by_model rs)) = tokens_of rs
   \<and> sum_list (map mb_costMicroUsd (aggregate_by_model rs)) = cost_of rs
   \<and> sum_list (map db_requests (aggregate_by_day rs)) = int (length rs)
   \<and> sum_list (map db_totalTokens (aggregate_by_day rs)) = tokens_of rs
   \<and> sum_list (map db_costMicroUsd (aggregate_by_day rs)) = cost_of rs"
proof -
  let ?g = "group_by rr_model fresh_model add_to_model [] rs"
  have key: "mb_model b = k \<and> model_bucket_exact rs b" if "(k, b) \<in> set ?g" for k b
    using that by (rule model_bucket_of_group)
  then have names: "map mb_model (map snd ?g) = map fst ?g" by force
  have d: "distinct (map fst ?g)" by (rule group_by_distinct) simp
  have "list_all (model_bucket_exact rs) (aggregate_by_model rs)"
    using key by (force simp: aggregate_by_model_def list_all_iff)
  moreover have "distinct (map mb_model (aggregate_by_model rs))"
    using d unfolding names [symmetric] aggregate_by_model_def distinct_sort_map .
  moreover have "set (map mb_model (aggregate_by_model rs)) = rr_model ` set rs"
    using arg_cong [OF names, of set] group_by_keys [of rr_model fresh_model add_to_model "[]" rs]
    by (simp add: aggregate_by_model_def image_comp)
  ultimately show ?thesis
    using by_model_total [of rs] by_day_total [of rs]
    by (simp add: tokens_of_def cost_of_def aggregate_by_model_def)
qed

text \<open>The counts and totals the two kinds of summary share.\<close>

definition same_totals :: "usage_summary \<Rightarrow> org_summary \<Rightarrow> bool" where
  "same_totals u a \<longleftrightarrow> us_totalRequests u = os_totalRequests a \<and> us_billableRequests u = os_billableRequests a
    \<and> us_unknownUsageRequests u = os_unknownUsageRequests a \<and> us_cancelledRequests u = os_cancelledRequests a
    \<and> us_erroredRequests u = os_erroredRequests a \<and> us_totalPromptTokens u = os_totalPromptTokens a
    \<and> us_totalCompletionTokens u = os_totalCompletionTokens a \<and> us_totalTokens u = os_totalTokens a
    \<and> us_totalCostMicroUsd u = os_totalCostMicroUsd a \<and> us_costUnknownRequests u = os_costUnknownRequests a"

lemma same_totals_fold:
  "same_totals u a \<Longrightarrow> same_totals (foldl (\<lambda>s r. add_to_summary r s) u rs) (foldl (\<lambda>s r. add_to_org r s) a rs)"
  by (induction rs arbitrary: u a) (simp_all add: same_totals_def add_to_summary_def add_to_org_def)

text \<open>
  the summary a user is shown and the reports an administrator is shown, computed by separate
  loops, agree on the same rows: on every count and total they share, and on the breakdowns by
  model and by day.
\<close>

theorem user_and_admin_reports_agree:
  "(let u = summarize_records user records since_days from_time to_time; rows = map row_of_record records in
    same_totals u (aggregate_summary rows) \<and> us_byModel u = aggregate_by_model rows
    \<and> us_byDay u = aggregate_by_day rows)"
  using same_totals_fold [of "empty_summary user since_days from_time to_time" empty_org "map row_of_record records"]
  by (simp add: summarize_records_def summarize_loop_eq aggregate_summary_def aggregate_by_model_def
      aggregate_by_day_def Let_def same_totals_def empty_summary_def empty_org_def)

end
