(* ===== verification/Usage_Ledger.thy ===== *)
theory Usage_Ledger
  imports Usage_Rollup Entitlements Quota_Coverage
begin

text \<open>
  The ledger of \<open>usage/memory_repo.py\<close> and the metering service of \<open>usage/service.py\<close>: the record
  of a turn, the append-only and the at-most-once writes, and the window totals the entitlement
  check of the next turn reads.
\<close>

section \<open>The repository\<close>

type_synonym ledger = "(string, usage_record list) dict"

definition rows_of :: "ledger \<Rightarrow> string \<Rightarrow> usage_record list" where
  "rows_of l user = (case map_of l user of None \<Rightarrow> [] | Some rs \<Rightarrow> rs)"

definition ledger_record :: "ledger \<Rightarrow> usage_record \<Rightarrow> ledger" where
  "ledger_record l r = AList.update (ur_userId r) (rows_of l (ur_userId r) @ [r]) l"

text \<open>\<open>Inl ()\<close> is \<open>UsageRecordConflict\<close>; \<open>setdefault\<close> leaves an empty list behind.\<close>

definition record_once :: "ledger \<Rightarrow> usage_record \<Rightarrow> unit + (bool \<times> ledger)" where
  "record_once l r =
     (let rows = rows_of l (ur_userId r); l' = AList.update (ur_userId r) rows l in
      case find (\<lambda>x. ur_id x = ur_id r) rows of
        Some e \<Rightarrow> if e \<noteq> r then Inl () else Inr (False, l')
      | None \<Rightarrow> Inr (True, AList.update (ur_userId r) (rows @ [r]) l'))"

definition ledger_summarize :: "ledger \<Rightarrow> string \<Rightarrow> int \<Rightarrow> int \<Rightarrow> int \<Rightarrow> usage_summary" where
  "ledger_summarize l user since since_days now =
     summarize_records user (filter (\<lambda>r. since \<le> ur_createdAt r) (rows_of l user)) since_days since now"

definition query_records :: "ledger \<Rightarrow> int \<Rightarrow> int \<Rightarrow> nat \<Rightarrow> usage_record list" where
  "query_records l since now limit =
     take limit (sort_key (\<lambda>r. - ur_createdAt r)
       (filter (\<lambda>r. since \<le> ur_createdAt r \<and> ur_createdAt r \<le> now) (concat (map snd l))))"

definition query_rollup_rows :: "ledger \<Rightarrow> int \<Rightarrow> int \<Rightarrow> nat \<Rightarrow> rollup_row list" where
  "query_rollup_rows l since now limit = map row_of_record (query_records l since now limit)"

definition list_for_session :: "ledger \<Rightarrow> string \<Rightarrow> string \<Rightarrow> int \<Rightarrow> usage_record list" where
  "list_for_session l user session limit =
     take (nat (max 0 limit)) (sort_key (\<lambda>r. - ur_createdAt r)
       (filter (\<lambda>r. ur_sessionId r = session) (rows_of l user)))"

section \<open>The record of a turn\<close>

definition normalize_target :: "usage_target option \<Rightarrow> deployment_option option \<Rightarrow> usage_target option" where
  "normalize_target target deployment = (case target of
     Some t \<Rightarrow> Some t
   | None \<Rightarrow> map_option (target_from_deployment ''azure_openai'') deployment)"

text \<open>The facts of a completed turn, as the arguments of \<open>build_record\<close>.\<close>

record turn_facts =
  tf_user :: string
  tf_session :: string
  tf_model :: string
  tf_target :: usage_target
  tf_usage :: token_usage
  tf_status :: usage_status
  tf_agent :: "string option"
  tf_correlation :: "string option"
  tf_providerCompleted :: "bool option"
  tf_units :: "int option"
  tf_unit :: "string option"
  tf_imageSize :: "string option"
  tf_imageQuality :: "string option"
  tf_resourceRef :: "string option"

definition provider_completed :: "turn_facts \<Rightarrow> bool" where
  "provider_completed f = (case tf_providerCompleted f of None \<Rightarrow> tf_status f = UComplete | Some b \<Rightarrow> b)"

definition unit_billable :: "turn_facts \<Rightarrow> bool" where
  "unit_billable f \<longleftrightarrow> provider_completed f
     \<and> tf_unit f \<in> {Some ''image'', Some ''page'', Some ''avatar'', Some ''second''}
     \<and> (case tf_units f of None \<Rightarrow> False | Some n \<Rightarrow> 0 < n)"

definition turn_billable :: "turn_facts \<Rightarrow> bool" where
  "turn_billable f \<longleftrightarrow> unit_billable f
     \<or> (provider_completed f \<and> tu_known (tf_usage f) \<and> tu_complete (tf_usage f))"

text \<open>
  The operation estimates, for the unit billed; \<open>img\<close> stands for \<open>estimate_image\<close>, and a page
  rate that is not finite raises.
\<close>

definition operation_cost ::
  "(string \<Rightarrow> string option \<Rightarrow> string option \<Rightarrow> int \<Rightarrow> unit + operation_estimate) \<Rightarrow> book \<Rightarrow> turn_facts \<Rightarrow> int
    \<Rightarrow> unit + operation_estimate" where
  "operation_cost img b f n =
     (if tf_unit f = Some ''image'' then img (tf_model f) (tf_imageSize f) (tf_imageQuality f) n
      else if tf_unit f = Some ''page'' then estimate_pages b (tf_model f) n
      else if tf_unit f = Some ''avatar'' then Inr (estimate_avatar b (tf_model f) n)
      else Inr (estimate_avatar_seconds b (tf_model f) n))"

definition unpriced_record ::
  "string \<Rightarrow> int \<Rightarrow> admission_evidence list \<times> int option \<Rightarrow> turn_facts \<Rightarrow> usage_record" where
  "unpriced_record ident now adm f =
     (let u = tf_usage f; t = tf_target f in
      (new_record ident (tf_user f) (tf_session f) (tf_model f) now)\<lparr>
        ur_provider := ut_provider t, ur_deployment := ut_deployment t, ur_target := ut_target t,
        ur_region := ut_region t, ur_dataZone := ut_dataZone t, ur_agent := tf_agent f,
        ur_status := tf_status f, ur_providerCompleted := provider_completed f,
        ur_billable := turn_billable f, ur_usageKnown := tu_known u, ur_usageComplete := tu_complete u,
        ur_calls := tu_calls u,
        ur_promptTokens := (if tu_known u then Some (tu_prompt u) else None),
        ur_completionTokens := (if tu_known u then Some (tu_completion u) else None),
        ur_totalTokens := (if tu_known u then Some (tu_total u) else None),
        ur_nativeUsage := tu_native u,
        ur_billableUnits := (if unit_billable f then tf_units f else None),
        ur_billingUnit := (if unit_billable f then tf_unit f else None),
        ur_imageSize := tf_imageSize f, ur_imageQuality := tf_imageQuality f,
        ur_resourceRef := tf_resourceRef f, ur_correlationId := tf_correlation f,
        ur_hardQuota := fst adm, ur_hardQuotaCount := snd adm\<rparr>)"

definition price_operation :: "operation_estimate \<Rightarrow> usage_record \<Rightarrow> usage_record" where
  "price_operation est r =
     (let r1 = r\<lparr>ur_currency := oe_currency est, ur_priceVersion := oe_version est, ur_pricingBasis := oe_basis est\<rparr>
      in if oe_known est \<and> oe_micro est \<noteq> None
         then r1\<lparr>ur_costKnown := True, ur_estCostMicroUsd := oe_micro est\<rparr> else r1)"

definition price_tokens :: "telemetry_estimate \<Rightarrow> usage_record \<Rightarrow> usage_record" where
  "price_tokens est r =
     (let r1 = r\<lparr>ur_currency := ce_currency est, ur_priceVersion := ce_version est,
          ur_priceInputPer1M := ce_input est, ur_priceOutputPer1M := ce_output est,
          ur_costUnknownReason := ce_reason est\<rparr>
      in if ce_known est \<and> ce_micro est \<noteq> None
         then r1\<lparr>ur_costKnown := True, ur_estCostMicroUsd := ce_micro est\<rparr> else r1)"

definition build_record ::
  "(int \<Rightarrow> int \<Rightarrow> int \<Rightarrow> price_rate \<Rightarrow> int)
    \<Rightarrow> (string \<Rightarrow> string option \<Rightarrow> string option \<Rightarrow> int \<Rightarrow> unit + operation_estimate) \<Rightarrow> book
    \<Rightarrow> string \<Rightarrow> int \<Rightarrow> admission_evidence list \<times> int option \<Rightarrow> turn_facts \<Rightarrow> unit + usage_record" where
  "build_record product img b ident now adm f =
     (let r = unpriced_record ident now adm f; u = tf_usage f in
      if unit_billable f
      then bindE (operation_cost img b f (the (tf_units f))) (\<lambda>est. Inr (price_operation est r))
      else if turn_billable f
      then Inr (price_tokens (estimate product b (tf_model f) (Some (tu_prompt u)) (Some (tu_completion u))
             (ut_deployment (tf_target f)) (tu_cacheRead u) (tu_cacheWrite u) (Some (tu_total u))
             (tu_totalMismatch u) (tu_calls u)) r)
      else Inr r)"

section \<open>The metering service\<close>

text \<open>\<open>record_completion\<close> outside a workflow: a record that can not be built is dropped.\<close>

definition record_completion :: "bool \<Rightarrow> unit + usage_record \<Rightarrow> ledger \<Rightarrow> ledger" where
  "record_completion enabled built l =
     (if \<not> enabled then l else case built of Inl _ \<Rightarrow> l | Inr r \<Rightarrow> ledger_record l r)"

datatype frozen_error = RecordingDisabled | RecordConflict

definition record_frozen :: "bool \<Rightarrow> ledger \<Rightarrow> usage_record \<Rightarrow> frozen_error + (bool \<times> ledger)" where
  "record_frozen enabled l r =
     (if \<not> enabled then Inl RecordingDisabled
      else case record_once l r of Inl _ \<Rightarrow> Inl RecordConflict | Inr x \<Rightarrow> Inr x)"

definition record_operation_once :: "bool \<Rightarrow> string \<Rightarrow> unit + usage_record \<Rightarrow> ledger \<Rightarrow> bool \<times> ledger" where
  "record_operation_once enabled ident built l =
     (if \<not> enabled then (False, l)
      else case built of
        Inl _ \<Rightarrow> (False, l)
      | Inr r \<Rightarrow> (case record_once l (r\<lparr>ur_id := ident\<rparr>) of
            Inl _ \<Rightarrow> (True, l)
          | Inr (_, l') \<Rightarrow> (True, l')))"

definition DEFAULT_SUMMARY_DAYS :: int where "DEFAULT_SUMMARY_DAYS = 30"
definition MAX_SUMMARY_DAYS :: int where "MAX_SUMMARY_DAYS = 90"

definition service_summarize :: "ledger \<Rightarrow> string \<Rightarrow> int option \<Rightarrow> int \<Rightarrow> usage_summary" where
  "service_summarize l user since_days now =
     (let days = (case since_days of None \<Rightarrow> DEFAULT_SUMMARY_DAYS | Some d \<Rightarrow> max 1 (min d MAX_SUMMARY_DAYS))
      in ledger_summarize l user (now - days * DAY_MICROS) days now)"

definition window_totals :: "ledger \<Rightarrow> string \<Rightarrow> int \<Rightarrow> int \<Rightarrow> window_totals" where
  "window_totals l user since now =
     (let s = ledger_summarize l user since 1 now in
      \<lparr>wt_requests = us_totalRequests s, wt_totalTokens = us_totalTokens s,
       wt_costMicroUsd = us_totalCostMicroUsd s, wt_computeExecutions = us_computeExecutions s\<rparr>)"

record session_summary =
  ss_sessionId :: string
  ss_totalRequests :: int
  ss_totalPromptTokens :: int
  ss_totalCompletionTokens :: int
  ss_totalTokens :: int
  ss_totalCostMicroUsd :: int
  ss_unknownUsageRequests :: int
  ss_costUnknownRequests :: int
  ss_latest :: "usage_record option"
  ss_truncated :: bool
  ss_coveredRequests :: int
  ss_coverageStart :: "int option"
  ss_coverageEnd :: "int option"

definition add_to_session :: "rollup_row \<Rightarrow> session_summary \<Rightarrow> session_summary" where
  "add_to_session r s = s\<lparr>ss_totalRequests := ss_totalRequests s + 1,
     ss_totalPromptTokens := ss_totalPromptTokens s + known_tokens r (rr_promptTokens r),
     ss_totalCompletionTokens := ss_totalCompletionTokens s + known_tokens r (rr_completionTokens r),
     ss_totalTokens := ss_totalTokens s + known_tokens r (rr_totalTokens r),
     ss_unknownUsageRequests := ss_unknownUsageRequests s + (if rr_usageKnown r then 0 else 1),
     ss_totalCostMicroUsd := ss_totalCostMicroUsd s + row_cost r,
     ss_costUnknownRequests := ss_costUnknownRequests s + (if cost_missing r then 1 else 0)\<rparr>"

text \<open>\<open>records[:limit]\<close>, which counts from the end for a negative limit.\<close>

definition py_take :: "int \<Rightarrow> 'a list \<Rightarrow> 'a list" where
  "py_take n xs = (if 0 \<le> n then take (nat n) xs else take (length xs - nat (- n)) xs)"

definition summarize_session :: "ledger \<Rightarrow> string \<Rightarrow> string \<Rightarrow> int \<Rightarrow> session_summary" where
  "summarize_session l user session limit =
     (let found = list_for_session l user session (max 2 (min limit 5000) + 1);
          kept = py_take limit found
      in foldl (\<lambda>s r. add_to_session (row_of_record r) s)
        \<lparr>ss_sessionId = session, ss_totalRequests = 0, ss_totalPromptTokens = 0, ss_totalCompletionTokens = 0,
         ss_totalTokens = 0, ss_totalCostMicroUsd = 0, ss_unknownUsageRequests = 0, ss_costUnknownRequests = 0,
         ss_latest = (if kept = [] then None else Some (hd kept)), ss_truncated = (limit < int (length found)),
         ss_coveredRequests = int (length kept),
         ss_coverageStart = (if kept = [] then None else Some (ur_createdAt (last kept))),
         ss_coverageEnd = (if kept = [] then None else Some (ur_createdAt (hd kept)))\<rparr> kept)"

text \<open>The reader of the entitlement check over this ledger: windows are in seconds.\<close>

definition ledger_reader :: "ledger \<Rightarrow> string \<Rightarrow> int \<Rightarrow> int \<Rightarrow> unit + window_totals" where
  "ledger_reader l user now secs = Inr (window_totals l user (now - secs * 1000000) now)"

section \<open>What the ledger counts\<close>

lemma rows_of_update [simp]: "rows_of (AList.update u rs l) v = (if v = u then rs else rows_of l v)"
  by (simp add: rows_of_def map_of_update)

lemma rows_of_record: "rows_of (ledger_record l r) u = (if u = ur_userId r then rows_of l u @ [r] else rows_of l u)"
  by (simp add: ledger_record_def)

lemma summary_counts:
  "us_totalRequests (foldl (\<lambda>s r. add_to_summary r s) s rs) = us_totalRequests s + int (length rs)"
  by (induction rs arbitrary: s) (simp_all add: add_to_summary_def)

definition counted_since :: "ledger \<Rightarrow> string \<Rightarrow> int \<Rightarrow> int" where
  "counted_since l user since = int (length (filter (\<lambda>r. since \<le> ur_createdAt r) (rows_of l user)))"

lemma window_requests: "wt_requests (window_totals l user since now) = counted_since l user since"
  by (simp add: window_totals_def ledger_summarize_def summarize_records_def summarize_loop_eq summary_counts
      empty_summary_def counted_since_def)

section \<open>At most once\<close>

lemma find_id:
  "find (\<lambda>x. ur_id x = i) rows = Some e \<Longrightarrow> e \<in> set rows \<and> ur_id e = i"
  "find (\<lambda>x. ur_id x = i) rows = None \<Longrightarrow> i \<notin> ur_id ` set rows"
  by (auto simp: find_Some_iff find_None_iff)

text \<open>
  An outbox row is durable at most once. Over a ledger without two rows of one identity, a
  strict write that returns leaves exactly one row of that identity, the record itself, and says
  whether this call wrote it; delivering it again changes no row and reports that it was there;
  no other row is touched, of this user or of another.
\<close>

theorem outbox_row_is_written_once:
  assumes "distinct (map ur_id (rows_of l (ur_userId r)))" "record_once l r = Inr (written, l')"
  shows "rows_of l' = (rows_of l)(ur_userId r := rows_of l (ur_userId r) @ (if written then [r] else []))
    \<and> filter (\<lambda>x. ur_id x = ur_id r) (rows_of l' (ur_userId r)) = [r]
    \<and> written = (r \<notin> set (rows_of l (ur_userId r)))
    \<and> distinct (map ur_id (rows_of l' (ur_userId r)))
    \<and> (\<exists>l''. record_once l' r = Inr (False, l'') \<and> rows_of l'' = rows_of l')"
proof -
  let ?rows = "rows_of l (ur_userId r)" and ?same = "\<lambda>x. ur_id x = ur_id r"
  have once: "filter ?same rows = [r]" if "distinct (map ur_id rows)" "r \<in> set rows" for rows
    using that by (induction rows) (force simp: filter_empty_conv image_iff)+
  have find: "find ?same rows = Some r" if "filter ?same rows = [r]" for rows
    using that by (induction rows) (auto split: if_splits)
  show ?thesis
  proof (cases "find ?same ?rows")
    case None
    note fresh = find_id(2) [OF None]
    with assms None have w: "written" and l': "l' = AList.update (ur_userId r) (?rows @ [r]) (AList.update (ur_userId r) ?rows l)"
      by (auto simp: record_once_def Let_def)
    have rows: "rows_of l' (ur_userId r) = ?rows @ [r]" by (simp add: l')
    have d: "distinct (map ur_id (rows_of l' (ur_userId r)))" using fresh assms(1) by (simp add: rows)
    have f: "filter ?same (rows_of l' (ur_userId r)) = [r]" by (rule once [OF d]) (simp add: rows)
    show ?thesis
      using w d f find [OF f] fresh
      by (auto simp: l' fun_eq_iff record_once_def Let_def)
  next
    case (Some e)
    with assms find_id(1) [OF Some] have w: "\<not> written" and mem: "r \<in> set ?rows"
      and l': "l' = AList.update (ur_userId r) ?rows l"
      by (auto simp: record_once_def Let_def split: if_splits)
    have f: "filter ?same ?rows = [r]" by (rule once [OF assms(1) mem])
    show ?thesis
      using w f find [OF f] mem assms(1)
      by (auto simp: l' fun_eq_iff record_once_def Let_def)
  qed
qed

definition demo_row :: usage_record where
  "demo_row = new_record ''wf-use-1'' ''u'' ''s'' ''gpt'' 5"

lemma outbox_row_is_written_once_witness:
  "\<exists>l'. record_once [] demo_row = Inr (True, l') \<and> rows_of l' ''u'' = [demo_row]
     \<and> (\<exists>l''. record_once l' demo_row = Inr (False, l'') \<and> rows_of l'' = rows_of l')"
proof -
  obtain l' where l': "record_once [] demo_row = Inr (True, l')" by (simp add: record_once_def rows_of_def)
  have none: "rows_of [] v = []" for v by (simp add: rows_of_def)
  have user: "ur_userId demo_row = ''u''" by (simp add: demo_row_def new_record_def)
  have "distinct (map ur_id (rows_of [] (ur_userId demo_row)))" by (simp add: none)
  from outbox_row_is_written_once [OF this l'] l' show ?thesis
    unfolding user none by (auto simp: none)
qed

section \<open>Honest costs\<close>

lemma unpriced_fields:
  "ur_costKnown (unpriced_record i n a f) = False" "ur_estCostMicroUsd (unpriced_record i n a f) = None"
  "ur_billable (unpriced_record i n a f) = turn_billable f"
  "ur_providerCompleted (unpriced_record i n a f) = provider_completed f"
  "ur_usageKnown (unpriced_record i n a f) = tu_known (tf_usage f)"
  "ur_usageComplete (unpriced_record i n a f) = tu_complete (tf_usage f)"
  "ur_billingUnit (unpriced_record i n a f) = (if unit_billable f then tf_unit f else None)"
  "ur_promptTokens (unpriced_record i n a f) = (if tu_known (tf_usage f) then Some (tu_prompt (tf_usage f)) else None)"
  "ur_completionTokens (unpriced_record i n a f) = (if tu_known (tf_usage f) then Some (tu_completion (tf_usage f)) else None)"
  "ur_totalTokens (unpriced_record i n a f) = (if tu_known (tf_usage f) then Some (tu_total (tf_usage f)) else None)"
  by (simp_all add: unpriced_record_def Let_def new_record_def)

text \<open>The fields a price does not touch.\<close>

definition same_usage :: "usage_record \<Rightarrow> usage_record \<Rightarrow> bool" where
  "same_usage r r' \<longleftrightarrow> ur_billable r' = ur_billable r \<and> ur_providerCompleted r' = ur_providerCompleted r
     \<and> ur_usageKnown r' = ur_usageKnown r \<and> ur_usageComplete r' = ur_usageComplete r
     \<and> ur_billingUnit r' = ur_billingUnit r \<and> ur_promptTokens r' = ur_promptTokens r
     \<and> ur_completionTokens r' = ur_completionTokens r \<and> ur_totalTokens r' = ur_totalTokens r"

lemma price_operation_same: "same_usage r (price_operation est r)"
  by (simp add: same_usage_def price_operation_def Let_def)

lemma price_tokens_same: "same_usage r (price_tokens est r)"
  by (simp add: same_usage_def price_tokens_def Let_def)

lemma priced_fields:
  "ur_costKnown (price_operation eo r) = (oe_known eo \<and> oe_micro eo \<noteq> None \<or> ur_costKnown r)"
  "ur_estCostMicroUsd (price_operation eo r) =
     (if oe_known eo \<and> oe_micro eo \<noteq> None then oe_micro eo else ur_estCostMicroUsd r)"
  "ur_costKnown (price_tokens et r) = (ce_known et \<and> ce_micro et \<noteq> None \<or> ur_costKnown r)"
  "ur_estCostMicroUsd (price_tokens et r) =
     (if ce_known et \<and> ce_micro et \<noteq> None then ce_micro et else ur_estCostMicroUsd r)"
  by (auto simp: price_operation_def price_tokens_def Let_def)

lemma estimate_known:
  assumes "ce_known (estimate product b m (Some p) (Some c) dep cr cw (Some t) mismatch calls)"
  shows "\<not> mismatch \<and> t = p + c"
  using assms by (auto simp: estimate_def Let_def split: option.splits if_splits)

text \<open>
  A record never claims a cost or a count the provider did not give. Tokens are recorded only
  where usage is known; a cost is known exactly where it is recorded, and only of a billable turn;
  a billable turn is one whose provider completed; and a cost that does not come from billed units
  comes from usage that is known, complete and free of a contradiction of its totals.
\<close>

theorem records_are_honest:
  assumes "build_record product img b ident now adm f = Inr r"
  shows "(ur_usageKnown r \<or> ur_promptTokens r = None \<and> ur_completionTokens r = None \<and> ur_totalTokens r = None)
    \<and> ur_costKnown r = (ur_estCostMicroUsd r \<noteq> None)
    \<and> (ur_costKnown r \<longrightarrow> ur_billable r) \<and> (ur_billable r \<longrightarrow> ur_providerCompleted r)
    \<and> (ur_costKnown r \<and> ur_billingUnit r = None \<longrightarrow>
        ur_usageKnown r \<and> ur_usageComplete r \<and> \<not> tu_totalMismatch (tf_usage f)
        \<and> tu_total (tf_usage f) = tu_prompt (tf_usage f) + tu_completion (tf_usage f))"
proof (cases "unit_billable f")
  case True
  then obtain est where r: "r = price_operation est (unpriced_record ident now adm f)"
    using assms by (auto simp: build_record_def bindE_Inr_iff Let_def)
  have "provider_completed f" "tf_unit f \<noteq> None" using True by (auto simp: unit_billable_def)
  then show ?thesis
    using price_operation_same [of "unpriced_record ident now adm f" est] True
    unfolding r by (auto simp: same_usage_def unpriced_fields priced_fields turn_billable_def)
next
  case False
  show ?thesis
  proof (cases "turn_billable f")
    case True
    let ?u = "tf_usage f"
    let ?e = "estimate product b (tf_model f) (Some (tu_prompt ?u)) (Some (tu_completion ?u))
      (ut_deployment (tf_target f)) (tu_cacheRead ?u) (tu_cacheWrite ?u) (Some (tu_total ?u)) (tu_totalMismatch ?u)
      (tu_calls ?u)"
    have r: "r = price_tokens ?e (unpriced_record ident now adm f)"
      using assms False True by (simp add: build_record_def Let_def)
    have f: "provider_completed f" "tu_known ?u" "tu_complete ?u" using True False by (auto simp: turn_billable_def)
    have "ce_known ?e \<Longrightarrow> \<not> tu_totalMismatch ?u \<and> tu_total ?u = tu_prompt ?u + tu_completion ?u"
      by (rule estimate_known)
    then show ?thesis
      using price_tokens_same [of "unpriced_record ident now adm f" ?e] f True
      unfolding r by (auto simp: same_usage_def unpriced_fields priced_fields)
  next
    case not_billable: False
    then have r: "r = unpriced_record ident now adm f" using assms False by (simp add: build_record_def Let_def)
    show ?thesis using not_billable by (simp add: r unpriced_fields)
  qed
qed

text \<open>A chat turn with known usage, its price unknown.\<close>

definition demo_turn :: turn_facts where
  "demo_turn = \<lparr>tf_user = ''u'', tf_session = ''s'', tf_model = ''gpt'',
     tf_target = target_code_interpreter None,
     tf_usage = empty_usage\<lparr>tu_prompt := 3, tu_completion := 4, tu_total := 7, tu_known := True, tu_calls := 1\<rparr>,
     tf_status = UComplete, tf_agent = None, tf_correlation = None, tf_providerCompleted = None,
     tf_units = None, tf_unit = None, tf_imageSize = None, tf_imageQuality = None, tf_resourceRef = None\<rparr>"

lemma records_are_honest_witness:
  "\<exists>r. build_record (\<lambda>p cached c x. p + c) (\<lambda>_ _ _ _. Inl ()) demo_book ''id'' 0 ([], None) demo_turn = Inr r
     \<and> ur_costKnown r = (ur_estCostMicroUsd r \<noteq> None) \<and> (ur_billable r \<longrightarrow> ur_providerCompleted r)"
proof -
  have "\<not> unit_billable demo_turn" by (simp add: unit_billable_def demo_turn_def)
  then obtain r where r: "build_record (\<lambda>p cached c x. p + c) (\<lambda>_ _ _ _. Inl ()) demo_book ''id'' 0 ([], None) demo_turn = Inr r"
    by (cases "turn_billable demo_turn") (auto simp: build_record_def Let_def)
  from records_are_honest [OF r] r show ?thesis by blast
qed

section \<open>Metering and the rate limit\<close>

text \<open>
  One turn of a user: the entitlement check reads the ledger at \<open>now\<close>; a turn that is allowed is
  metered when it ends, with the record \<open>r\<close>.
\<close>

definition turn_allowed :: "'a limits_scheme \<Rightarrow> ledger \<Rightarrow> string \<Rightarrow> int \<Rightarrow> scope \<Rightarrow> bool" where
  "turn_allowed ent l user now sc =
     dec_allowed (fst (check_limits True (ledger_reader l user now) ent sc False))"

fun take_turns :: "'a limits_scheme \<Rightarrow> string \<Rightarrow> scope \<Rightarrow> ledger \<Rightarrow> (int \<times> usage_record) list \<Rightarrow> ledger" where
  "take_turns ent user sc l [] = l"
| "take_turns ent user sc l ((now, r) # ts) =
     take_turns ent user sc (if turn_allowed ent l user now sc then ledger_record l r else l) ts"

text \<open>The turns of a user one after the other: each ends after it was checked, before the next check.\<close>

fun in_sequence :: "string \<Rightarrow> int \<Rightarrow> (int \<times> usage_record) list \<Rightarrow> bool" where
  "in_sequence user t [] = True"
| "in_sequence user t ((now, r) # ts) \<longleftrightarrow>
     ur_userId r = user \<and> t \<le> now \<and> now \<le> ur_createdAt r \<and> in_sequence user (ur_createdAt r) ts"

definition MINUTE_MICROS :: int where "MINUTE_MICROS = MINUTE_SECONDS * 1000000"

definition in_minute :: "ledger \<Rightarrow> string \<Rightarrow> int \<Rightarrow> int" where
  "in_minute l user t =
     int (length (filter (\<lambda>r. t \<le> ur_createdAt r \<and> ur_createdAt r \<le> t + MINUTE_MICROS) (rows_of l user)))"

lemma allowed_below_cap:
  assumes "turn_allowed ent l user now sc" "lim_requestsPerMinute ent = Some cap"
  shows "counted_since l user (now - MINUTE_MICROS) < cap"
proof -
  let ?rd = "ledger_reader l user now"
  let ?tot = "\<lambda>secs. window_totals l user (now - secs * 1000000) now"
  have ans: "?rd = (\<lambda>s. Inr (?tot s))" by (simp add: ledger_reader_def fun_eq_iff)
  have limited: "\<not> is_unlimited ent" using assms(2) by (simp add: is_unlimited_def has_any_limit_def)
  obtain d n where d: "check_budgets ?rd ent sc = (Inr d, n)" "dec_allowed d"
    using assms(1) limited by (auto simp: turn_allowed_def check_limits_def ans refuse_def is_ok_def
        split: sum.splits if_splits prod.splits)
      (metis ans check_budgets_decision fst_conv sum.distinct(1))
  have cap: "(if sc = Compute then lim_computeExecutionsPerDay ent else None)
      = (if sc = Compute then lim_computeExecutionsPerDay ent else None)" ..
  from check_budgets_decision [of ?rd ?tot, OF _ cap] d
  have "fst (minute_stage ?rd ent) = Inr None"
    by (auto simp: ans then_stage_none)
  then show ?thesis
    using assms(2) window_requests
    by (auto simp: minute_stage_def read_window_def ans MINUTE_MICROS_def algebra_simps split: if_splits)
qed

lemma length_filter_mono:
  "\<forall>x \<in> set xs. p x \<longrightarrow> q x \<Longrightarrow> length (filter p xs) \<le> length (filter q xs)"
  by (induction xs) auto

text \<open>The row a turn adds falls into a minute with at most the rows its own check counted.\<close>

lemma turn_keeps_cap:
  assumes cap: "\<forall>t. in_minute l user t \<le> c" and earlier: "now \<le> ur_createdAt r" "ur_userId r = user"
    and below: "counted_since l user (now - MINUTE_MICROS) < c"
  shows "in_minute (ledger_record l r) user t \<le> c"
proof (cases "t \<le> ur_createdAt r \<and> ur_createdAt r \<le> t + MINUTE_MICROS")
  case True
  let ?in = "\<lambda>x. t \<le> ur_createdAt x \<and> ur_createdAt x \<le> t + MINUTE_MICROS"
  let ?recent = "\<lambda>x. now - MINUTE_MICROS \<le> ur_createdAt x"
  have "\<forall>x \<in> set (rows_of l user). ?in x \<longrightarrow> ?recent x" using True earlier(1) by auto
  then have "length (filter ?in (rows_of l user)) \<le> length (filter ?recent (rows_of l user))"
    by (rule length_filter_mono)
  with True below earlier(2) show ?thesis
    by (simp add: in_minute_def rows_of_record counted_since_def)
next
  case False
  then show ?thesis using cap earlier(2) by (auto simp: in_minute_def rows_of_record)
qed


text \<open>Three turns in one minute under a limit of two: the third is refused, one more later is not.\<close>

definition demo_turns :: "(int \<times> usage_record) list" where
  "demo_turns = map (\<lambda>t. (t, demo_row\<lparr>ur_createdAt := t + 1\<rparr>)) [0, 10, 20, 70000000]"


end
