(* ===== verification/Wf_Runs.thy ===== *)
theory Wf_Runs
  imports Wf_Ledger Usage_Ledger
begin

text \<open>
  The changes of the owner document of workflow automation, as the functions the code hands to
  \<open>mutate_owner\<close>: admitting, fencing and finishing a run and delivering its usage
  (\<open>workflows/automation_service.py\<close>), and the logical operations, the dispatches and the
  compaction of one durable turn (\<open>workflows/run_controller.py\<close>). A change reads the document and
  the store's clock and returns the new document or the error it raised; a dictionary keeps its
  insertion order. An assignment to a field of the document runs its validator.
\<close>

section \<open>Limits and contexts\<close>

definition MAX_STEPS :: int where "MAX_STEPS = 6"

record exec_limits =
  xl_maxApplicationDispatches :: int
  xl_maxModelCalls :: int
  xl_maxToolCalls :: int
  xl_maxOutputTokens :: int
  xl_maxRuntimeSeconds :: int
  xl_usdAppMeter :: bool
  xl_maxSpendMicroUsd :: "int option"

definition limits_ok :: "exec_limits \<Rightarrow> bool" where
  "limits_ok x \<longleftrightarrow> 1 \<le> xl_maxApplicationDispatches x \<and> xl_maxApplicationDispatches x \<le> MAX_RUN_DISPATCHES
     \<and> 1 \<le> xl_maxModelCalls x \<and> xl_maxModelCalls x \<le> MAX_STEPS * 3
     \<and> 0 \<le> xl_maxToolCalls x \<and> xl_maxToolCalls x \<le> MAX_STEPS * 8
     \<and> 1 \<le> xl_maxOutputTokens x \<and> xl_maxOutputTokens x \<le> 32768
     \<and> 1 \<le> xl_maxRuntimeSeconds x \<and> xl_maxRuntimeSeconds x \<le> 86400
     \<and> opt_ok (\<lambda>n. 0 \<le> n \<and> n \<le> 2 ^ 53 - 1) (xl_maxSpendMicroUsd x)
     \<and> xl_usdAppMeter x = (xl_maxSpendMicroUsd x \<noteq> None)"

text \<open>What the changes of a turn read of the checkpoint it runs under.\<close>

record run_ctx =
  rc_userId :: string
  rc_sessionId :: string
  rc_runId :: string
  rc_ownerEpoch :: string
  rc_fingerprint :: string
  rc_limits :: exec_limits
  rc_deadline :: int

definition stable_id :: "(string \<Rightarrow> string) \<Rightarrow> string \<Rightarrow> string list \<Rightarrow> auto_exn + string" where
  "stable_id sha owner parts = auto_digest sha (JArr (JStr owner # map JStr parts))"

text \<open>\<open>operation\<close>: the name of a model or tool operation of a turn, and its number.\<close>

definition operation :: "int \<Rightarrow> int \<Rightarrow> bool \<Rightarrow> int \<Rightarrow> string \<times> int" where
  "operation step iterations is_tool next_tool =
     (let ordinal = (if is_tool then next_tool else - 1) in
      (show_int step @ '':'' @ show_int iterations @ '':'' @ (if is_tool then ''tool'' else ''model'')
         @ '':'' @ show_int ordinal,
       step * 64 + iterations * 16 + ordinal + 1))"

type_synonym run_owner = "usage_record automation_owner"
type_synonym run_change = "run_owner \<Rightarrow> int \<Rightarrow> auto_exn + run_owner"

abbreviation refused :: "string \<Rightarrow> auto_exn + 'a" where
  "refused code \<equiv> Inl (AutomationError code)"

definition mk_effect :: "usage_record effect_intent \<Rightarrow> auto_exn + usage_record effect_intent" where
  "mk_effect e = bindE (ensure (effect_ok e) InvalidRecord) (\<lambda>_. Inr e)"

definition the_effect :: "run_owner \<Rightarrow> string \<Rightarrow> auto_exn + usage_record effect_intent" where
  "the_effect ow k = (case map_of (ao_effects ow) k of None \<Rightarrow> Inl MissingKey | Some e \<Rightarrow> Inr e)"

section \<open>The account of a run\<close>

definition run_account :: "(string \<Rightarrow> string) \<Rightarrow> run_owner \<Rightarrow> run_ctx \<Rightarrow> auto_exn + run_money option" where
  "run_account sha ow cx = (case map_of (ao_runs ow) (rc_runId cx) of
     None \<Rightarrow> refused ''budget_changed''
   | Some handle \<Rightarrow>
       if ao_userId ow \<noteq> rc_userId cx \<or> ao_epoch ow \<noteq> rc_ownerEpoch cx
          \<or> rh_fingerprint handle \<noteq> rc_fingerprint cx
       then refused ''budget_changed''
       else case xl_maxSpendMicroUsd (rc_limits cx) of
           None \<Rightarrow> if rh_money handle \<noteq> None then refused ''budget_changed'' else Inr None
         | Some lim \<Rightarrow> (case rh_money handle of
               None \<Rightarrow> refused ''budget_changed''
             | Some account \<Rightarrow>
                 if \<not> xl_usdAppMeter (rc_limits cx) \<or> ma_limit account \<noteq> lim then refused ''budget_changed''
                 else bindE (budget_identity sha (rc_userId cx) (rc_ownerEpoch cx) (rc_runId cx)
                          (rc_fingerprint cx) lim) (\<lambda>b.
                   if ma_budgetId account \<noteq> b then refused ''budget_changed'' else Inr (Some account))))"

text \<open>\<open>check_current\<close>, as far as it reads the document.\<close>

definition check_current :: "(string \<Rightarrow> string) \<Rightarrow> run_owner \<Rightarrow> run_ctx \<Rightarrow> int \<Rightarrow> auto_exn + unit" where
  "check_current sha ow cx now =
     bindE (the_run ow (rc_runId cx)) (\<lambda>handle.
     bindE (run_account sha ow cx) (\<lambda>account.
     if (case account of None \<Rightarrow> False | Some m \<Rightarrow> ma_blocked m) then refused ''budget_stopped''
     else if ao_epoch ow \<noteq> rc_ownerEpoch cx \<or> \<not> rh_active handle \<or> rh_terminal handle \<or> rc_deadline cx \<le> now
     then refused ''execution_revoked'' else Inr ()))"

section \<open>Runs\<close>

definition HORIZON_MICROS :: int where "HORIZON_MICROS = 30 * 86400 * 1000000"

definition owner_validated :: "(string \<Rightarrow> string) \<Rightarrow> run_owner \<Rightarrow> auto_exn + run_owner" where
  "owner_validated sha ow = bindE (ensure (owned_effects sha ur_userId ow) InvalidRecord) (\<lambda>_. Inr ow)"

definition removable_runs :: "(string \<Rightarrow> int) \<Rightarrow> run_owner \<Rightarrow> int \<Rightarrow> string list" where
  "removable_runs rt ow floor = map fst (filter (\<lambda>(k, h). can_retire_run rt ow h floor) (ao_runs ow))"

definition compact :: "(string \<Rightarrow> string) \<Rightarrow> (string \<Rightarrow> int) \<Rightarrow> run_change" where
  "compact sha rt ow now =
     (let floor = now - HORIZON_MICROS; gone = removable_runs rt ow floor in
      bindE (owner_validated sha (ow\<lparr>ao_runs := filter (\<lambda>(k, h). k \<notin> set gone) (ao_runs ow),
          ao_effects := filter (\<lambda>(k, e). ef_runId e \<notin> set gone) (ao_effects ow)\<rparr>)) (\<lambda>ow1.
      owner_validated sha (ow1\<lparr>ao_requestFloor := max (ao_requestFloor ow1) floor\<rparr>)))"

text \<open>The invocation a run is admitted for; \<open>an_checkpointId\<close> is \<open>checkpoint_id(run_id)\<close>.\<close>

record admission =
  an_runId :: string
  an_sessionId :: string
  an_checkpointId :: string
  an_fingerprint :: string
  an_workflowKey :: string
  an_key :: string
  an_issued :: int
  an_scheduleId :: "string option"
  an_scheduleGeneration :: "int option"
  an_executionOwner :: string
  an_maxSpend :: "int option"

definition mk_handle :: "run_handle \<Rightarrow> auto_exn + run_handle" where
  "mk_handle h = bindE (ensure (handle_ok h) InvalidRecord) (\<lambda>_. Inr h)"

definition claim_run :: "(string \<Rightarrow> string) \<Rightarrow> (string \<Rightarrow> int) \<Rightarrow> admission \<Rightarrow> run_change" where
  "claim_run sha rt an ow now =
     bindE (compact sha rt ow now) (\<lambda>v.
     case map_of (ao_runs v) (an_runId an) of
       Some existing \<Rightarrow>
         if rh_fingerprint existing \<noteq> an_fingerprint an \<or> rh_sessionId existing \<noteq> an_sessionId an
         then refused ''invocation_conflict'' else Inr v
     | None \<Rightarrow>
         if an_issued an < ao_requestFloor v then refused ''stale_invocation''
         else if 512 \<le> length (ao_runs v)
                 \<or> MAX_ACTIVE_RUNS \<le> length (filter (\<lambda>(k, h). rh_active h) (ao_runs v))
         then refused ''run_limit''
         else if list_ex (\<lambda>(k, h). rh_active h \<and> rh_workflowKey h = an_workflowKey an) (ao_runs v)
         then refused ''overlap_denied''
         else bindE (case an_maxSpend an of None \<Rightarrow> Inr None
                | Some lim \<Rightarrow> bindE (budget_identity sha (an_executionOwner an) (ao_epoch v) (an_runId an)
                      (an_fingerprint an) lim) (\<lambda>b. bindE (new_money b lim) (\<lambda>m. Inr (Some m)))) (\<lambda>money.
              bindE (mk_handle \<lparr>rh_runId = an_runId an, rh_sessionId = an_sessionId an,
                rh_checkpointId = an_checkpointId an, rh_fingerprint = an_fingerprint an,
                rh_workflowKey = an_workflowKey an, rh_idempotencyKey = an_key an, rh_createdAt = now,
                rh_active = True, rh_terminal = False, rh_modelCalls = 0, rh_toolCalls = 0, rh_dispatches = 0,
                rh_operationFloor = - 1, rh_scheduleId = an_scheduleId an,
                rh_scheduleGeneration = an_scheduleGeneration an, rh_money = money\<rparr>) (\<lambda>h.
              Inr (put_run v (an_runId an) h))))"

definition fence_run :: "string \<Rightarrow> run_change" where
  "fence_run run ow now = (case map_of (ao_runs ow) run of
     None \<Rightarrow> refused ''run_not_found''
   | Some h \<Rightarrow> Inr (put_run ow run (h\<lparr>rh_terminal := True\<rparr>)))"

definition outstanding :: "usage_record effect_intent \<Rightarrow> bool" where
  "outstanding e \<longleftrightarrow> ef_state e \<in> {EDispatched, EUnknown} \<or> (ef_usage e \<noteq> None \<and> \<not> ef_delivered e)"

definition finish_handle :: "string \<Rightarrow> run_change" where
  "finish_handle run ow now = bindE (the_run ow run) (\<lambda>h.
     Inr (put_run ow run (h\<lparr>rh_terminal := True, rh_active := list_ex outstanding (run_effects ow run)\<rparr>)))"

text \<open>\<open>flush_usage\<close>: which effects it delivers, and the mark of a delivered one.\<close>

definition to_deliver :: "run_owner \<Rightarrow> string \<Rightarrow> (string \<times> usage_record) list" where
  "to_deliver ow run = List.map_filter (\<lambda>e. case ef_usage e of None \<Rightarrow> None
     | Some u \<Rightarrow> if ef_runId e \<noteq> run \<or> ef_delivered e \<or> ef_state e \<notin> {EComplete, EUnknown} then None
                 else Some (ef_id e, u)) (map snd (ao_effects ow))"

definition mark_delivered :: "string \<Rightarrow> usage_record \<Rightarrow> run_change" where
  "mark_delivered identifier u ow now = (case map_of (ao_effects ow) identifier of
     None \<Rightarrow> refused ''accounting_changed''
   | Some latest \<Rightarrow> if ef_usage latest \<noteq> Some u then refused ''accounting_changed''
       else Inr (put_effect ow identifier (latest\<lparr>ef_delivered := True\<rparr>)))"

section \<open>Logical operations\<close>

definition reserve_effect :: "run_ctx \<Rightarrow> string \<Rightarrow> string \<Rightarrow> int \<Rightarrow> bool \<Rightarrow> string \<Rightarrow> run_change" where
  "reserve_effect cx identity op number is_tool fp ow now =
     bindE (the_run ow (rc_runId cx)) (\<lambda>handle.
     if rh_terminal handle \<or> \<not> rh_active handle \<or> number \<le> rh_operationFloor handle
     then refused ''operation_replayed''
     else case map_of (ao_effects ow) identity of
         Some prior \<Rightarrow> if ef_payloadDigest prior \<noteq> fp \<or> ef_state prior \<noteq> EReserved
           then refused ''outcome_unknown'' else Inr ow
       | None \<Rightarrow>
           if is_tool \<and> xl_maxToolCalls (rc_limits cx) \<le> rh_toolCalls handle then refused ''tool_limit''
           else bindE (mk_effect \<lparr>ef_id = identity, ef_runId = rc_runId cx, ef_sessionId = rc_sessionId cx,
                ef_operationId = op, ef_category = (if is_tool then CTool else CModel),
                ef_payloadDigest = fp, ef_state = EReserved, ef_startedAt = now,
                ef_resultDigest = None, ef_usage = None, ef_delivered = True, ef_money = None\<rparr>) (\<lambda>e.
             Inr (put_effect (if is_tool
                 then put_run ow (rc_runId cx) (handle\<lparr>rh_toolCalls := rh_toolCalls handle + 1\<rparr>) else ow)
               identity e)))"

definition dispatch_effect :: "run_ctx \<Rightarrow> string \<Rightarrow> string \<Rightarrow> run_change" where
  "dispatch_effect cx identity fp ow now =
     bindE (the_run ow (rc_runId cx)) (\<lambda>handle. bindE (the_effect ow identity) (\<lambda>effect.
     if rh_terminal handle \<or> ef_state effect \<noteq> EReserved \<or> ef_payloadDigest effect \<noteq> fp
     then refused ''outcome_unknown''
     else Inr (put_effect ow identity (effect\<lparr>ef_state := EDispatched\<rparr>))))"

text \<open>\<open>complete\<close>: whether a dispatch of the operation is unknown, the end of the logical effect, its floor.\<close>

definition operation_dispatches :: "run_owner \<Rightarrow> string \<Rightarrow> string \<Rightarrow> usage_record effect_intent list" where
  "operation_dispatches ow run op = filter (\<lambda>e. ef_operationId e = op) (run_dispatches ow run)"

definition outcome_unknown :: "run_owner \<Rightarrow> string \<Rightarrow> string \<Rightarrow> bool" where
  "outcome_unknown ow run op \<longleftrightarrow>
     list_ex (\<lambda>e. ef_state e \<in> {EDispatched, EUnknown}) (operation_dispatches ow run op)"

definition finish_effect :: "string \<Rightarrow> bool \<Rightarrow> string \<Rightarrow> run_change" where
  "finish_effect identity unknown result ow now = (case map_of (ao_effects ow) identity of
     None \<Rightarrow> refused ''operation_replayed''
   | Some e \<Rightarrow> if ef_state e \<noteq> EDispatched then refused ''operation_replayed''
       else Inr (put_effect ow identity (e\<lparr>ef_state := (if unknown then EUnknown else EComplete),
              ef_resultDigest := Some result\<rparr>)))"

definition compactible :: "string \<Rightarrow> string \<Rightarrow> usage_record effect_intent \<Rightarrow> bool" where
  "compactible run op e \<longleftrightarrow> ef_runId e = run \<and> ef_operationId e = op \<and> ef_state e = EComplete
     \<and> (ef_usage e = None \<or> ef_delivered e)"

fun compact_effects :: "(string \<times> usage_record effect_intent) list \<Rightarrow> run_owner \<Rightarrow> auto_exn + run_owner" where
  "compact_effects [] ow = Inr ow"
| "compact_effects ((k, e) # es) ow = bindE (compact_money ow e) (\<lambda>ow1.
     compact_effects es (ow1\<lparr>ao_effects := AList.delete k (ao_effects ow1)\<rparr>))"

definition floor_effects :: "string \<Rightarrow> string \<Rightarrow> int \<Rightarrow> run_change" where
  "floor_effects run op number ow now = bindE (the_run ow run) (\<lambda>h.
     compact_effects (filter (\<lambda>(k, e). compactible run op e) (ao_effects ow))
       (put_run ow run (h\<lparr>rh_operationFloor := max (rh_operationFloor h) number\<rparr>)))"

section \<open>Dispatches\<close>

text \<open>A request to egress: what \<open>before_dispatch\<close> has computed before it claims.\<close>

record egress =
  eg_identifier :: string
  eg_surface :: surface
  eg_operation :: string
  eg_payload :: "(string \<times> json) list"
  eg_deployment :: "string option"
  eg_target :: "string option"
  eg_bound :: "bounds option"
  eg_approval :: "string option"
  eg_descriptor :: usage_target
  eg_model :: string
  eg_prices :: book
  eg_workflow :: string

fun first_key :: "string list \<Rightarrow> (string \<times> json) list \<Rightarrow> json option" where
  "first_key [] payload = None"
| "first_key (k # ks) payload = (case map_of payload k of None \<Rightarrow> first_key ks payload | v \<Rightarrow> v)"

definition output_bounded :: "exec_limits \<Rightarrow> (string \<times> json) list \<Rightarrow> bool" where
  "output_bounded lims payload =
     (case first_key [''max_output_tokens'', ''max_completion_tokens'', ''max_tokens''] payload of
        Some (JInt n) \<Rightarrow> 0 < n \<and> n \<le> xl_maxOutputTokens lims
      | _ \<Rightarrow> False)"

definition claimed_usage :: "run_ctx \<Rightarrow> egress \<Rightarrow> int \<Rightarrow> usage_record" where
  "claimed_usage cx eg now =
     (let named = eg_surface eg \<in> {SChat, SEmbedding}; d = eg_descriptor eg; b = eg_prices eg;
          r = rate b (eg_model eg) None None in
      (new_record (''wf-use-'' @ eg_identifier eg) (rc_userId cx) (rc_sessionId cx)
          (if named then eg_model eg else surface_name (eg_surface eg)) now)\<lparr>
        ur_provider := (if named then ut_provider d else surface_name (eg_surface eg)),
        ur_deployment := ut_deployment d, ur_target := ut_target d, ur_region := ut_region d,
        ur_dataZone := ut_dataZone d, ur_agent := Some (''workflow:'' @ eg_workflow eg), ur_status := UError,
        ur_providerCompleted := False, ur_workflowDispatchClaimed := True, ur_calls := 1,
        ur_usageKnown := False, ur_usageComplete := False, ur_priceVersion := pb_version b,
        ur_currency := pb_currency b, ur_priceInputPer1M := map_option pr_input r,
        ur_priceOutputPer1M := map_option pr_output r\<rparr>)"

definition egress_digest :: "(string \<Rightarrow> string) \<Rightarrow> egress \<Rightarrow> auto_exn + string" where
  "egress_digest sha eg = auto_digest sha (JObj [(''surface'', JStr (surface_name (eg_surface eg))),
     (''payload'', JObj (eg_payload eg)), (''deployment'', opt_json JStr (eg_deployment eg)),
     (''target'', opt_json JStr (eg_target eg))])"

text \<open>The counters a claim takes: the model call of a chat request, then the dispatch.\<close>

definition count_dispatch :: "exec_limits \<Rightarrow> egress \<Rightarrow> run_handle \<Rightarrow> auto_exn + run_handle" where
  "count_dispatch lims eg h =
     (if xl_maxApplicationDispatches lims \<le> rh_dispatches h then refused ''dispatch_limit''
      else bindE (if eg_surface eg = SChat
          then (if xl_maxModelCalls lims \<le> rh_modelCalls h then refused ''model_limit''
                else if \<not> output_bounded lims (eg_payload eg) then refused ''output_limit''
                else Inr (h\<lparr>rh_modelCalls := rh_modelCalls h + 1\<rparr>))
          else Inr h) (\<lambda>h1. Inr (h1\<lparr>rh_dispatches := rh_dispatches h1 + 1\<rparr>)))"

definition claim_egress :: "(string \<Rightarrow> string) \<Rightarrow> run_ctx \<Rightarrow> egress \<Rightarrow> run_change" where
  "claim_egress sha cx eg ow now =
     bindE (the_run ow (rc_runId cx)) (\<lambda>handle.
     if rh_terminal handle \<or> \<not> rh_active handle \<or> map_of (ao_effects ow) (eg_identifier eg) \<noteq> None
     then refused ''operation_replayed''
     else if eg_bound eg \<noteq> None \<and> operation_dispatches ow (rc_runId cx) (eg_operation eg) \<noteq> []
     then refused ''operation_replayed''
     else bindE (count_dispatch (rc_limits cx) eg handle) (\<lambda>h.
       let ow1 = put_run ow (rc_runId cx) h in
       bindE (case eg_bound eg of None \<Rightarrow> Inr (None, ow1)
          | Some bd \<Rightarrow> bindE (reserve_money ow1 (rc_runId cx) bd (eg_approval eg)) (\<lambda>(m, ow2). Inr (Some m, ow2)))
         (\<lambda>(money, ow2).
       bindE (egress_digest sha eg) (\<lambda>dg.
       bindE (mk_effect \<lparr>ef_id = eg_identifier eg, ef_runId = rc_runId cx, ef_sessionId = rc_sessionId cx,
           ef_operationId = eg_operation eg, ef_category = CDispatch, ef_payloadDigest = dg,
           ef_state = EDispatched, ef_startedAt = now, ef_resultDigest = None,
           ef_usage = Some (claimed_usage cx eg now), ef_delivered = False, ef_money = money\<rparr>) (\<lambda>e.
       Inr (put_effect ow2 (eg_identifier eg) e))))))"

definition refuse_effect :: "(string \<Rightarrow> string) \<Rightarrow> run_ctx \<Rightarrow> string \<Rightarrow> string \<Rightarrow> string \<Rightarrow> run_change" where
  "refuse_effect sha cx identity op reason ow now = (case map_of (ao_effects ow) identity of
     None \<Rightarrow> refused ''accounting_changed''
   | Some logical \<Rightarrow>
       if ef_state logical \<noteq> EDispatched then refused ''accounting_changed''
       else if operation_dispatches ow (rc_runId cx) op \<noteq> [] then Inr ow
       else bindE (auto_digest sha (JObj [(''notDispatched'', JStr reason)])) (\<lambda>dg.
         Inr (put_effect ow identity (logical\<lparr>ef_state := EComplete, ef_resultDigest := Some dg\<rparr>))))"

text \<open>\<open>authorize_dispatch\<close>, after \<open>check_current\<close>; \<open>same\<close> is \<open>same_prices\<close> of the current book.\<close>

definition same_prices :: "book \<Rightarrow> string \<Rightarrow> string option \<Rightarrow> string option \<Rightarrow> string option \<Rightarrow> bool" where
  "same_prices b model version ri ro \<longleftrightarrow> pb_currency b = ''USD'' \<and> pb_version b = version
     \<and> (case rate b model None None of None \<Rightarrow> False
        | Some r \<Rightarrow> Some (pr_input r) = ri \<and> Some (pr_output r) = ro)"

definition authorize_egress :: "run_owner \<Rightarrow> run_ctx \<Rightarrow> book \<Rightarrow> string \<Rightarrow> auto_exn + unit" where
  "authorize_egress ow cx prices ticket =
     (if xl_maxSpendMicroUsd (rc_limits cx) = None then Inr ()
      else case map_of (ao_effects ow) ticket of
        None \<Rightarrow> refused ''accounting_changed''
      | Some e \<Rightarrow> (case (ef_money e, ef_usage e) of
            (Some m, Some u) \<Rightarrow>
              if dm_phase m \<noteq> MHeld then refused ''accounting_changed''
              else let bd = dm_bounds m in
                ensure (same_prices prices (ur_model u) (bd_priceVersion bd) (bd_inputRate bd) (bd_outputRate bd))
                  (AutomationError ''spend_quote_stale'')
          | _ \<Rightarrow> refused ''accounting_changed''))"

section \<open>The receipt of a dispatch\<close>

definition native_status_name :: "native_status \<Rightarrow> string" where
  "native_status_name st = (case st of Reported \<Rightarrow> ''reported'' | Partial \<Rightarrow> ''partial'' | Invalid \<Rightarrow> ''invalid''
     | Unreported \<Rightarrow> ''unreported'')"

definition native_json :: "native_batch \<Rightarrow> json" where
  "native_json b = JObj [(''calls'', JArr (map (opt_json (\<lambda>u. JObj
        [(''api'', JStr (if nu_api u = NChat then ''chat'' else ''responses'')),
         (''semantics'', JStr ''provider_reported''), (''status'', JStr (native_status_name (nu_status u))),
         (''values'', JObj (map (\<lambda>(k, n). (k, JInt n)) (nu_values u))),
         (''invalidFields'', JArr (map JStr (nu_invalid u)))])) (nb_calls b))),
     (''totalCalls'', JInt (nb_totalCalls b)), (''truncated'', JBool (nb_truncated b))]"

text \<open>A dispatch report: the provider's usage object, its native evidence, how the dispatch ended.\<close>

record receipt =
  re_usage :: "json option"
  re_native :: "native_usage option"
  re_completed :: bool
  re_outcome :: outcome

definition receipt_digest :: "(string \<Rightarrow> string) \<Rightarrow> receipt \<Rightarrow> auto_exn + string" where
  "receipt_digest sha re = auto_digest sha (JObj ([(''completed'', JBool (re_completed re)),
      (''outcome'', JStr (outcome_name (re_outcome re))), (''usage'', opt_json (\<lambda>v. v) (re_usage re))]
     @ (case tu_native (parse_usage (re_native re) (re_usage re)) of None \<Rightarrow> []
        | Some b \<Rightarrow> [(''nativeUsage'', native_json b)])))"

definition close_usage ::
  "(int \<Rightarrow> int \<Rightarrow> int \<Rightarrow> price_rate \<Rightarrow> int) \<Rightarrow> receipt \<Rightarrow> usage_record \<Rightarrow> usage_record" where
  "close_usage product re r =
     (let t = parse_usage (re_native re) (re_usage re);
          r1 = r\<lparr>ur_status := (if re_completed re then UComplete
                               else if re_outcome re = OCancelled then UCancelled else UError),
                 ur_providerCompleted := re_completed re, ur_usageKnown := tu_known t,
                 ur_usageComplete := tu_complete t,
                 ur_promptTokens := (if tu_known t then Some (tu_prompt t) else None),
                 ur_completionTokens := (if tu_known t then Some (tu_completion t) else None),
                 ur_totalTokens := (if tu_known t then Some (tu_total t) else None),
                 ur_nativeUsage := tu_native t,
                 ur_billable := (re_completed re \<and> tu_known t \<and> tu_complete t)\<rparr>
      in case (ur_priceInputPer1M r1, ur_priceOutputPer1M r1) of
          (Some ri, Some ro) \<Rightarrow>
            if ur_billable r1
            then let est = estimate product
                       \<lparr>pb_rates = [(ur_model r1, Flat \<lparr>pr_input = ri, pr_output = ro, pr_cache = None\<rparr>)],
                        pb_scoped = [], pb_images = [], pb_documents = [], pb_avatars = [],
                        pb_currency = ur_currency r1, pb_version = ur_priceVersion r1\<rparr>
                       (ur_model r1) (Some (tu_prompt t)) (Some (tu_completion t)) None None None
                       (Some (tu_total t)) (tu_totalMismatch t) 1
                 in r1\<lparr>ur_costKnown := ce_known est, ur_costUnknownReason := ce_reason est,
                       ur_estCostMicroUsd := ce_micro est, ur_pricingBasis := Some ''input_output_tokens''\<rparr>
            else r1
        | _ \<Rightarrow> r1)"

definition finish_dispatch ::
  "(string \<Rightarrow> string) \<Rightarrow> (int \<Rightarrow> int \<Rightarrow> int \<Rightarrow> price_rate \<Rightarrow> int) \<Rightarrow> run_ctx \<Rightarrow> string \<Rightarrow> receipt \<Rightarrow> run_change" where
  "finish_dispatch sha product cx ticket re ow now =
     bindE (receipt_digest sha re) (\<lambda>identity.
     case map_of (ao_effects ow) ticket of
       None \<Rightarrow> refused ''accounting_changed''
     | Some e \<Rightarrow>
         if ef_runId e \<noteq> rc_runId cx then refused ''accounting_changed''
         else if ef_state e \<noteq> EDispatched
         then (if ef_resultDigest e = Some identity then Inr ow else refused ''accounting_changed'')
         else case ef_usage e of
             None \<Rightarrow> refused ''accounting_changed''
           | Some u \<Rightarrow>
               (let e1 = e\<lparr>ef_usage := Some (close_usage product re u)\<rparr> in
                bindE (if ef_money e = None then Inr (e1, ow)
                       else settle_money sha ow e1 (re_completed re) (re_usage re) (re_outcome re)) (\<lambda>(e2, ow2).
                let settled = (case ef_money e2 of None \<Rightarrow> True | Some m \<Rightarrow> dm_phase m = MSettled) in
                Inr (put_effect ow2 ticket (e2\<lparr>
                    ef_state := (if re_completed re \<and> settled then EComplete else EUnknown),
                    ef_resultDigest := Some identity\<rparr>)))))"

end
