(* ===== verification/Wf_Books.thy ===== *)
theory Wf_Books
  imports Wf_Runs
begin

text \<open>
  The invariant of the owner document: its identities match, its accounts balance against its
  effects, and a run that is no longer active has nothing outstanding. Every change of the code
  keeps it, so no change is ever refused by the validator of the document, and each passes the
  fence every write runs (\<open>validate_money_transition\<close>).
\<close>

section \<open>Sums over a dictionary\<close>

definition fsum :: "('v \<Rightarrow> int) \<Rightarrow> ('k, 'v) dict \<Rightarrow> int" where
  "fsum f d = sum_list (map (f \<circ> snd) d)"

lemma fsum_simps [simp]: "fsum f [] = 0" "fsum f ((k, v) # d) = f v + fsum f d"
  by (simp_all add: fsum_def)

lemma fsum_update:
  "distinct (map fst d) \<Longrightarrow>
     fsum f (AList.update k v d) = fsum f d + f v - (case map_of d k of None \<Rightarrow> 0 | Some b \<Rightarrow> f b)"
  unfolding fsum_def by (rule sum_update_dict)

lemma fsum_delete:
  "distinct (map fst d) \<Longrightarrow>
     fsum f (AList.delete k d) = fsum f d - (case map_of d k of None \<Rightarrow> 0 | Some b \<Rightarrow> f b)"
proof (induction d)
  case (Cons p d)
  obtain k' v where p: "p = (k', v)" by fastforce
  have "map_of d k' = None" using Cons.prems p by (auto simp: map_of_eq_None_iff)
  with Cons p show ?case by auto
qed simp

lemma fsum_filter:
  "(\<And>k v. (k, v) \<in> set d \<Longrightarrow> \<not> p (k, v) \<Longrightarrow> f v = 0) \<Longrightarrow> fsum f (filter p d) = fsum f d"
  by (induction d) fastforce+

lemma fsum_zero: "(\<And>k v. (k, v) \<in> set d \<Longrightarrow> f v = 0) \<Longrightarrow> fsum f d = 0"
  by (induction d) fastforce+

lemma map_of_delete [dict_simps]: "map_of (AList.delete k d) = (map_of d)(k := None)"
  by (rule delete_conv')

lemma map_of_filter_keys:
  "distinct (map fst d) \<Longrightarrow> map_of (filter p d) k = (case map_of d k of None \<Rightarrow> None | Some v \<Rightarrow> if p (k, v) then Some v else None)"
  by (induction d) (auto split: option.splits dest: map_of_SomeD simp: rev_image_eqI)

lemma distinct_keys_filter: "distinct (map fst d) \<Longrightarrow> distinct (map fst (filter p d))"
  by (induction d) auto

section \<open>The tally of a run\<close>

definition mine :: "string \<Rightarrow> usage_record effect_intent \<Rightarrow> bool" where
  "mine run e \<longleftrightarrow> ef_runId e = run \<and> ef_category e = CDispatch"

definition charge :: "string \<Rightarrow> (money_phase \<Rightarrow> bool) \<Rightarrow> usage_record effect_intent \<Rightarrow> int" where
  "charge run p e = (if mine run e then (case ef_money e of None \<Rightarrow> 0 | Some d \<Rightarrow> if p (dm_phase d) then dm_charged d else 0)
     else 0)"

definition one_if_mine :: "string \<Rightarrow> usage_record effect_intent \<Rightarrow> int" where
  "one_if_mine run e = (if mine run e then 1 else 0)"

abbreviation spent :: "run_owner \<Rightarrow> string \<Rightarrow> (money_phase \<Rightarrow> bool) \<Rightarrow> int" where
  "spent ow run p \<equiv> fsum (charge run p) (ao_effects ow)"

abbreviation claimed :: "run_owner \<Rightarrow> string \<Rightarrow> int" where
  "claimed ow run \<equiv> fsum (one_if_mine run) (ao_effects ow)"

lemma charge_where_spent:
  "charge_where (\<lambda>d. p (dm_phase d)) (run_dispatches ow run) = spent ow run p"
proof -
  have "charge_where (\<lambda>d. p (dm_phase d)) (filter (\<lambda>e. ef_runId e = run \<and> ef_category e = CDispatch) (map snd d))
      = fsum (charge run p) d" for d :: "(string, usage_record effect_intent) dict"
    by (induction d) (auto simp: charge_def mine_def split: option.splits)
  then show ?thesis by (simp add: run_dispatches_def)
qed

lemma length_dispatches: "int (length (run_dispatches ow run)) = claimed ow run"
proof -
  have "int (length (filter (\<lambda>e. ef_runId e = run \<and> ef_category e = CDispatch) (map snd d))) = fsum (one_if_mine run) d"
    for d :: "(string, usage_record effect_intent) dict"
    by (induction d) (auto simp: one_if_mine_def mine_def)
  then show ?thesis by (simp add: run_dispatches_def)
qed

definition effect_of :: "run_owner \<Rightarrow> string \<Rightarrow> usage_record effect_intent \<Rightarrow> bool" where
  "effect_of ow k e \<longleftrightarrow> map_of (ao_effects ow) k = Some e"

text \<open>What one capped dispatch must look like beside its account.\<close>

definition backed :: "run_money \<Rightarrow> usage_record effect_intent \<Rightarrow> bool" where
  "backed a e \<longleftrightarrow> (case ef_money e of None \<Rightarrow> False
     | Some d \<Rightarrow> dm_budgetId d = ma_budgetId a
         \<and> (if dm_phase d = MSettled then ef_state e = EComplete
            else ef_state e \<in> {EReserved, EDispatched, EUnknown}))"

definition owns :: "run_owner \<Rightarrow> string \<Rightarrow> string \<Rightarrow> usage_record effect_intent \<Rightarrow> bool" where
  "owns ow run k e \<longleftrightarrow> effect_of ow k e \<and> mine run e"

definition claims_op :: "run_owner \<Rightarrow> string \<Rightarrow> string \<Rightarrow> string \<Rightarrow> bool" where
  "claims_op ow run k opn \<longleftrightarrow> (\<exists>e. owns ow run k e \<and> ef_operationId e = opn)"

definition tallied :: "run_owner \<Rightarrow> string \<Rightarrow> run_money option \<Rightarrow> bool" where
  "tallied ow run account \<longleftrightarrow> (case account of
     None \<Rightarrow> \<forall>k e. owns ow run k e \<longrightarrow> ef_money e = None
   | Some a \<Rightarrow> (\<forall>k k' opn. claims_op ow run k opn \<and> claims_op ow run k' opn \<longrightarrow> k = k')
       \<and> (\<forall>k e. owns ow run k e \<longrightarrow> backed a e)
       \<and> ma_settled a = ma_compacted a + spent ow run (\<lambda>p. p = MSettled)
       \<and> ma_held a = spent ow run (\<lambda>p. p \<noteq> MSettled)
       \<and> ma_unknown a = spent ow run (\<lambda>p. p = MUnknown)
       \<and> ma_reservations a = ma_compactedReservations a + claimed ow run)"

lemma distinct_operations_iff:
  assumes "distinct (map fst d)"
  shows "distinct (map ef_operationId (filter (mine run) (map snd d))) \<longleftrightarrow>
    (\<forall>k e k' e'. map_of d k = Some e \<and> map_of d k' = Some e' \<and> mine run e \<and> mine run e'
      \<and> ef_operationId e = ef_operationId e' \<longrightarrow> k = k')"
proof -
  let ?own = "filter (mine run \<circ> snd) d" and ?op = "\<lambda>p. ef_operationId (snd p)"
  have "map ef_operationId (filter (mine run) (map snd d)) = map ?op ?own"
    by (simp add: filter_map comp_def)
  moreover have "distinct ?own" using assms by (simp add: distinct_map)
  ultimately have "distinct (map ef_operationId (filter (mine run) (map snd d))) \<longleftrightarrow> inj_on ?op (set ?own)"
    by (simp add: distinct_map)
  also have "\<dots> \<longleftrightarrow> (\<forall>k e k' e'. (k, e) \<in> set d \<and> (k', e') \<in> set d \<and> mine run e \<and> mine run e'
      \<and> ef_operationId e = ef_operationId e' \<longrightarrow> (k, e) = (k', e'))"
    unfolding inj_on_def by (simp only: set_filter mem_Collect_eq Ball_def split_paired_All comp_apply snd_conv) blast
  also have "\<dots> \<longleftrightarrow> (\<forall>k e k' e'. map_of d k = Some e \<and> map_of d k' = Some e' \<and> mine run e \<and> mine run e'
      \<and> ef_operationId e = ef_operationId e' \<longrightarrow> (k, e) = (k', e'))"
    using assms by simp
  also have "\<dots> \<longleftrightarrow> (\<forall>k e k' e'. map_of d k = Some e \<and> map_of d k' = Some e' \<and> mine run e \<and> mine run e'
      \<and> ef_operationId e = ef_operationId e' \<longrightarrow> k = k')"
    by (metis option.inject prod.inject)
  finally show ?thesis .
qed

lemma run_balanced_iff:
  assumes "distinct (map fst (ao_effects ow))"
  shows "run_balanced ow h \<longleftrightarrow> tallied ow (rh_runId h) (rh_money h)"
proof -
  let ?ds = "run_dispatches ow (rh_runId h)"
  have mem: "e \<in> set ?ds \<longleftrightarrow> (\<exists>k. effect_of ow k e) \<and> mine (rh_runId h) e" for e
    using assms by (force simp: run_dispatches_def mine_def effect_of_def image_iff)
  have "distinct (map ef_operationId ?ds) \<longleftrightarrow> (\<forall>k e k' e'. effect_of ow k e \<and> effect_of ow k' e'
      \<and> mine (rh_runId h) e \<and> mine (rh_runId h) e' \<and> ef_operationId e = ef_operationId e' \<longrightarrow> k = k')"
    using distinct_operations_iff [OF assms, of "rh_runId h"]
    by (simp add: run_dispatches_def effect_of_def mine_def [abs_def])
  also have "\<dots> \<longleftrightarrow> (\<forall>k k' opn. claims_op ow (rh_runId h) k opn \<and> claims_op ow (rh_runId h) k' opn \<longrightarrow> k = k')"
    unfolding claims_op_def owns_def by metis
  finally have ops: "distinct (map ef_operationId ?ds) \<longleftrightarrow>
    (\<forall>k k' opn. claims_op ow (rh_runId h) k opn \<and> claims_op ow (rh_runId h) k' opn \<longrightarrow> k = k')" .
  have all: "list_all q ?ds \<longleftrightarrow> (\<forall>k e. owns ow (rh_runId h) k e \<longrightarrow> q e)" for q
    by (auto simp: list_all_iff mem owns_def)
  have backed: "(\<lambda>e. case ef_money e of None \<Rightarrow> False | Some d \<Rightarrow> dm_budgetId d = ma_budgetId a
      \<and> (if dm_phase d = MSettled then ef_state e = EComplete
         else ef_state e \<in> {EReserved, EDispatched, EUnknown})) = backed a" for a
    by (simp add: backed_def fun_eq_iff)
  show ?thesis
    unfolding run_balanced_def tallied_def Let_def ops length_dispatches [symmetric] backed all
      charge_where_spent [of "\<lambda>p. p = MSettled"] charge_where_spent [of "\<lambda>p. p \<noteq> MSettled"]
      charge_where_spent [of "\<lambda>p. p = MUnknown"]
    by (cases "rh_money h") simp_all
qed

section \<open>The invariant\<close>

definition run_of :: "run_owner \<Rightarrow> string \<Rightarrow> run_handle \<Rightarrow> bool" where
  "run_of ow k h \<longleftrightarrow> map_of (ao_runs ow) k = Some h"

definition active_runs :: "run_owner \<Rightarrow> int" where
  "active_runs ow = fsum (\<lambda>h. if rh_active h then 1 else 0) (ao_runs ow)"

definition scoped :: "(string \<Rightarrow> string) \<Rightarrow> run_owner \<Rightarrow> run_handle \<Rightarrow> bool" where
  "scoped sha ow h \<longleftrightarrow> (case rh_money h of None \<Rightarrow> True
     | Some m \<Rightarrow> budget_identity sha (ao_userId ow) (ao_epoch ow) (rh_runId h) (rh_fingerprint h) (ma_limit m)
                  = Inr (ma_budgetId m))"

definition quiet :: "run_owner \<Rightarrow> run_handle \<Rightarrow> bool" where
  "quiet ow h \<longleftrightarrow> rh_active h
     \<or> (rh_terminal h \<and> (\<forall>k e. effect_of ow k e \<and> ef_runId e = rh_runId h \<longrightarrow> \<not> outstanding e))"

definition run_kept :: "(string \<Rightarrow> string) \<Rightarrow> run_owner \<Rightarrow> string \<Rightarrow> run_handle \<Rightarrow> bool" where
  "run_kept sha ow k h \<longleftrightarrow> k = rh_runId h \<and> handle_ok h \<and> scoped sha ow h
     \<and> tallied ow (rh_runId h) (rh_money h) \<and> quiet ow h"

definition effect_kept :: "run_owner \<Rightarrow> string \<Rightarrow> usage_record effect_intent \<Rightarrow> bool" where
  "effect_kept ow k e \<longleftrightarrow> k = ef_id e \<and> map_of (ao_runs ow) (ef_runId e) \<noteq> None \<and> effect_ok e
     \<and> (case ef_usage e of None \<Rightarrow> True | Some u \<Rightarrow> ur_userId u = ao_userId ow)
     \<and> (ef_money e = None \<or> ef_category e = CDispatch)
     \<and> (ef_category e = CDispatch \<longrightarrow> ef_state e \<noteq> EReserved)"

definition books :: "(string \<Rightarrow> string) \<Rightarrow> run_owner \<Rightarrow> bool" where
  "books sha ow \<longleftrightarrow> distinct (map fst (ao_runs ow)) \<and> distinct (map fst (ao_effects ow))
     \<and> active_runs ow \<le> int MAX_ACTIVE_RUNS
     \<and> (\<forall>k h. run_of ow k h \<longrightarrow> run_kept sha ow k h)
     \<and> (\<forall>k e. effect_of ow k e \<longrightarrow> effect_kept ow k e)"

lemma booksD:
  assumes "books sha ow"
  shows "distinct (map fst (ao_runs ow))" "distinct (map fst (ao_effects ow))"
    "active_runs ow \<le> int MAX_ACTIVE_RUNS"
    "run_of ow k h \<Longrightarrow> run_kept sha ow k h" "effect_of ow k e \<Longrightarrow> effect_kept ow k e"
  using assms by (auto simp: books_def)

lemma active_runs_length: "int (length (filter (\<lambda>(k, h). rh_active h) (ao_runs ow))) = active_runs ow"
proof -
  have "int (length (filter (\<lambda>(k, h). rh_active h) d)) = fsum (\<lambda>h. if rh_active h then 1 else 0) d"
    for d :: "(string, run_handle) dict"
    by (induction d) auto
  then show ?thesis by (simp add: active_runs_def)
qed

text \<open>A document the invariant holds of is one the validator accepts.\<close>

lemma books_owned:
  assumes b: "books sha ow"
  shows "owned_effects sha ur_userId ow"
proof -
  have run: "run_kept sha ow k h" if "(k, h) \<in> set (ao_runs ow)" for k h
    using booksD(4) [OF b] booksD(1) [OF b] that by (simp add: run_of_def)
  have eff: "effect_kept ow k e" if "(k, e) \<in> set (ao_effects ow)" for k e
    using booksD(5) [OF b] booksD(2) [OF b] that by (simp add: effect_of_def)
  have present: "map_of (ao_runs ow) r \<noteq> None \<Longrightarrow> r \<in> fst ` set (ao_runs ow)" for r
    by (simp add: map_of_eq_None_iff)
  have "length (filter (\<lambda>(k, h). rh_active h) (ao_runs ow)) \<le> MAX_ACTIVE_RUNS"
    using booksD(3) [OF b] active_runs_length [of ow] by simp
  moreover have "list_all (\<lambda>(k, h). k = rh_runId h \<and> (case rh_money h of None \<Rightarrow> True
          | Some m \<Rightarrow> budget_identity sha (ao_userId ow) (ao_epoch ow) (rh_runId h) (rh_fingerprint h) (ma_limit m)
                       = Inr (ma_budgetId m))) (ao_runs ow)"
    using run by (auto simp: list_all_iff run_kept_def scoped_def)
  moreover have "list_all (\<lambda>(k, e). k = ef_id e \<and> ef_runId e \<in> fst ` set (ao_runs ow)
          \<and> (case ef_usage e of None \<Rightarrow> True | Some u \<Rightarrow> ur_userId u = ao_userId ow)
          \<and> (ef_money e = None \<or> ef_category e = CDispatch)) (ao_effects ow)"
    using eff present by (force simp: list_all_iff effect_kept_def)
  moreover have "money_balanced ow"
    using run by (auto simp: money_balanced_def list_all_iff run_kept_def run_balanced_iff [OF booksD(2) [OF b]])
  ultimately show ?thesis by (simp add: owned_effects_def)
qed

section \<open>Changes of one run\<close>

text \<open>What a change of the effects must leave alone for the accounts of the other runs to stand.\<close>

definition others_alone :: "string \<Rightarrow> (string, usage_record effect_intent) dict \<Rightarrow> (string, usage_record effect_intent) dict \<Rightarrow> bool" where
  "others_alone run d d' \<longleftrightarrow>
     (\<forall>k e. ef_runId e \<noteq> run \<longrightarrow> (map_of d' k = Some e \<longleftrightarrow> map_of d k = Some e))
     \<and> (\<forall>r p. r \<noteq> run \<longrightarrow> fsum (charge r p) d' = fsum (charge r p) d)
     \<and> (\<forall>r. r \<noteq> run \<longrightarrow> fsum (one_if_mine r) d' = fsum (one_if_mine r) d)"

lemma others_alone_refl [simp]: "others_alone run d d"
  by (simp add: others_alone_def)

lemma others_alone_trans: "others_alone run d d1 \<Longrightarrow> others_alone run d1 d2 \<Longrightarrow> others_alone run d d2"
  by (simp add: others_alone_def)

lemma not_mine: "ef_runId e \<noteq> r \<Longrightarrow> charge r p e = 0" "ef_runId e \<noteq> r \<Longrightarrow> one_if_mine r e = 0"
  by (simp_all add: charge_def one_if_mine_def mine_def)

lemma others_alone_update:
  assumes "distinct (map fst d)" "ef_runId e' = run" "\<forall>e. map_of d k = Some e \<longrightarrow> ef_runId e = run"
  shows "others_alone run d (AList.update k e' d)"
  using assms by (auto simp: others_alone_def fsum_update not_mine map_of_update split: option.splits if_splits)

lemma others_alone_delete:
  assumes "distinct (map fst d)" "\<forall>e. map_of d k = Some e \<longrightarrow> ef_runId e = run"
  shows "others_alone run d (AList.delete k d)"
  using assms by (auto simp: others_alone_def fsum_delete not_mine map_of_delete split: option.splits if_splits)

lemma tallied_eq:
  assumes "\<And>k e. owns ow' r k e = owns ow r k e" "\<And>p. spent ow' r p = spent ow r p" "claimed ow' r = claimed ow r"
  shows "tallied ow' r acc = tallied ow r acc"
  using assms by (cases acc) (simp_all add: tallied_def claims_op_def)

lemma tallied_cong: "ao_effects ow' = ao_effects ow \<Longrightarrow> tallied ow' r acc = tallied ow r acc"
  by (rule tallied_eq) (simp_all add: owns_def effect_of_def)

lemma tallied_others:
  assumes "others_alone run (ao_effects ow) (ao_effects ow')" "r \<noteq> run"
  shows "tallied ow' r acc = tallied ow r acc"
  using assms by (intro tallied_eq) (auto simp: others_alone_def owns_def effect_of_def mine_def)

text \<open>
  The one lemma every change rests on: a new handle of a run and new effects of that run, where
  the accounts of the other runs are left alone and this run's stands.
\<close>

definition rewrite :: "run_owner \<Rightarrow> string \<Rightarrow> run_handle \<Rightarrow> (string, usage_record effect_intent) dict \<Rightarrow> run_owner" where
  "rewrite ow run h' d' = ow\<lparr>ao_runs := AList.update run h' (ao_runs ow), ao_effects := d'\<rparr>"

lemma books_rewrite:
  assumes b: "books sha ow" and h: "run_of ow run h"
    and h': "rh_runId h' = run" "handle_ok h'" "scoped sha ow h'" "rh_active h' \<longrightarrow> rh_active h"
    and d': "distinct (map fst d')" "others_alone run (ao_effects ow) d'"
      "\<And>k e. map_of d' k = Some e \<Longrightarrow> effect_kept ow k e"
    and t: "tallied (rewrite ow run h' d') run (rh_money h')" and q: "quiet (rewrite ow run h' d') h'"
  shows "books sha (rewrite ow run h' d')"
proof -
  let ?o = "rewrite ow run h' d'"
  have runs: "run_of ?o k g \<longleftrightarrow> (if k = run then g = h' else run_of ow k g)" for k g
    by (auto simp: run_of_def rewrite_def map_of_update)
  have other: "run_kept sha ?o k g" if "run_of ow k g" "k \<noteq> run" for k g
  proof -
    have kept: "run_kept sha ow k g" using b that(1) by (rule booksD)
    then have ne: "rh_runId g \<noteq> run" using that(2) by (simp add: run_kept_def)
    have "others_alone run (ao_effects ow) (ao_effects ?o)" using d'(2) by (simp add: rewrite_def)
    moreover have "scoped sha ?o g = scoped sha ow g" by (simp add: scoped_def rewrite_def cong: option.case_cong)
    moreover have "quiet ?o g" if "quiet ow g"
      using that d'(2) ne by (auto simp: quiet_def effect_of_def rewrite_def others_alone_def)
    ultimately show ?thesis using kept tallied_others ne by (auto simp: run_kept_def)
  qed
  have "active_runs ?o = active_runs ow + (if rh_active h' then 1 else 0) - (if rh_active h then 1 else 0)"
    using h booksD(1) [OF b] by (simp add: active_runs_def rewrite_def fsum_update run_of_def)
  then have "active_runs ?o \<le> int MAX_ACTIVE_RUNS" using booksD(3) [OF b] h'(4) by (auto split: if_splits)
  moreover have "run_kept sha ?o k g" if "run_of ?o k g" for k g
  proof (cases "k = run")
    case True
    then have "g = h'" using that runs by simp
    moreover have "scoped sha ?o h'" using h'(3) by (simp add: scoped_def rewrite_def cong: option.case_cong)
    ultimately show ?thesis using True h' t q by (simp add: run_kept_def)
  next
    case False
    with that runs other show ?thesis by simp
  qed
  moreover have "effect_kept ?o k e" if "effect_of ?o k e" for k e
  proof -
    have "effect_kept ow k e" using that d'(3) by (simp add: effect_of_def rewrite_def)
    then show ?thesis by (simp add: effect_kept_def rewrite_def map_of_update cong: option.case_cong)
  qed
  moreover have "distinct (map fst (ao_runs ?o))" "distinct (map fst (ao_effects ?o))"
    using booksD(1) [OF b] d'(1) by (simp_all add: rewrite_def)
  ultimately show ?thesis by (auto simp: books_def)
qed

section \<open>The fence\<close>

text \<open>The part of \<open>_assert_owner\<close> a change answers for; the revision is written by the loop.\<close>

definition fenced :: "(string \<Rightarrow> int) \<Rightarrow> run_owner \<Rightarrow> run_owner \<Rightarrow> bool" where
  "fenced rt ow ow' \<longleftrightarrow> ao_id ow' = ao_id ow \<and> ao_userId ow' = ao_userId ow \<and> ao_epoch ow' = ao_epoch ow
     \<and> ao_recordKind ow' = ao_recordKind ow \<and> ao_requestFloor ow \<le> ao_requestFloor ow'
     \<and> validate_money_transition rt ow ow' = Inr ()"

lemma validate_iff:
  assumes "distinct (map fst (ao_runs ow))" "distinct (map fst (ao_effects ow))"
  shows "validate_money_transition rt ow ow' = Inr () \<longleftrightarrow>
    (\<forall>k h. run_of ow k h \<longrightarrow> run_may_become rt ow ow' (k, h) = Inr ())
    \<and> (\<forall>k e. effect_of ow k e \<longrightarrow> effect_may_become ow ow' (k, e) = Inr ())"
  using assms
  by (auto simp: validate_money_transition_def check_each_iff bindE_Inr_iff run_of_def effect_of_def)

lemma account_refl [simp]: "account_may_become h a h a"
  by (simp add: account_may_become_def)

lemma run_unchanged: "run_of ow' k h \<Longrightarrow> run_may_become rt ow ow' (k, h) = Inr ()"
  by (auto simp: run_may_become_def run_of_def split: option.splits)

lemma effect_unchanged: "effect_of ow' k e \<Longrightarrow> effect_may_become ow ow' (k, e) = Inr ()"
  by (auto simp: effect_may_become_def effect_of_def split: option.splits)

lemma effect_unpaid: "ef_money e = None \<Longrightarrow> effect_may_become ow ow' (k, e) = Inr ()"
  by (auto simp: effect_may_become_def)

definition handle_may_become :: "run_handle \<Rightarrow> run_handle \<Rightarrow> bool" where
  "handle_may_become h h' \<longleftrightarrow> (case (rh_money h, rh_money h') of
     (None, None) \<Rightarrow> True | (Some a, Some a') \<Rightarrow> account_may_become h a h' a' | _ \<Rightarrow> False)"

lemma fenced_rewrite:
  assumes b: "books sha ow" and h: "run_of ow run h" and m: "handle_may_become h h'"
    and e: "\<And>k e. effect_of ow k e \<Longrightarrow> map_of d' k \<noteq> Some e \<Longrightarrow> effect_may_become ow (rewrite ow run h' d') (k, e) = Inr ()"
  shows "fenced rt ow (rewrite ow run h' d')"
proof -
  let ?o = "rewrite ow run h' d'"
  have "run_may_become rt ow ?o (k, g) = Inr ()" if "run_of ow k g" for k g
  proof (cases "k = run")
    case True
    with that h have "g = h" by (simp add: run_of_def)
    then show ?thesis
      using m True by (auto simp: handle_may_become_def run_may_become_def rewrite_def map_of_update split: option.splits)
  next
    case False
    with that have "run_of ?o k g" by (simp add: run_of_def rewrite_def map_of_update)
    then show ?thesis by (rule run_unchanged)
  qed
  moreover have "effect_may_become ow ?o (k, g) = Inr ()" if "effect_of ow k g" for k g
  proof (cases "map_of d' k = Some g")
    case True
    then have "effect_of ?o k g" by (simp add: effect_of_def rewrite_def)
    then show ?thesis by (rule effect_unchanged)
  qed (use e that in blast)
  ultimately have "validate_money_transition rt ow ?o = Inr ()"
    using validate_iff [OF booksD(1,2) [OF b]] by blast
  then show ?thesis by (simp add: fenced_def rewrite_def)
qed

text \<open>What every change is shown to do: keep the books and pass the fence.\<close>

definition sound_change :: "(string \<Rightarrow> string) \<Rightarrow> (string \<Rightarrow> int) \<Rightarrow> run_owner \<Rightarrow> run_owner \<Rightarrow> bool" where
  "sound_change sha rt ow ow' \<longleftrightarrow> books sha ow' \<and> fenced rt ow ow'"

lemma put_run_rewrite: "put_run ow run h' = rewrite ow run h' (ao_effects ow)"
  by (simp add: put_run_def rewrite_def)

lemma put_effect_rewrite:
  assumes "run_of ow run h" "distinct (map fst (ao_runs ow))"
  shows "put_effect ow k e = rewrite ow run h (AList.update k e (ao_effects ow))"
proof -
  have "AList.update run h d = d" if "map_of d run = Some h" for d :: "(string, run_handle) dict"
    using that by (induction d) (auto split: if_splits)
  then show ?thesis using assms by (simp add: put_effect_def rewrite_def run_of_def)
qed

section \<open>A new handle\<close>

text \<open>A handle that keeps its identity and its account, and does not come to life again.\<close>

definition same_handle :: "run_handle \<Rightarrow> run_handle \<Rightarrow> bool" where
  "same_handle h h' \<longleftrightarrow> rh_runId h' = rh_runId h \<and> rh_fingerprint h' = rh_fingerprint h
     \<and> rh_money h' = rh_money h \<and> (rh_active h' \<longrightarrow> rh_active h) \<and> (rh_terminal h \<longrightarrow> rh_terminal h')"

lemma sound_handle:
  assumes b: "books sha ow" and h: "run_of ow run h" and s: "same_handle h h'" "handle_ok h'"
    and q: "rh_active h' \<or> rh_terminal h' \<and> (\<forall>k e. effect_of ow k e \<and> ef_runId e = run \<longrightarrow> \<not> outstanding e)"
  shows "sound_change sha rt ow (put_run ow run h')"
proof -
  have kept: "run_kept sha ow run h" using b h by (rule booksD)
  then have ids: "rh_runId h = run" "rh_runId h' = run" using s by (auto simp: run_kept_def same_handle_def)
  have "tallied (rewrite ow run h' (ao_effects ow)) run (rh_money h')"
    using kept s ids tallied_cong [of "rewrite ow run h' (ao_effects ow)" ow]
    by (simp add: run_kept_def same_handle_def rewrite_def)
  moreover have "scoped sha ow h'" using kept s by (simp add: run_kept_def same_handle_def scoped_def cong: option.case_cong)
  moreover have "quiet (rewrite ow run h' (ao_effects ow)) h'"
    using q ids by (auto simp: quiet_def effect_of_def rewrite_def)
  ultimately have "books sha (put_run ow run h')"
    unfolding put_run_rewrite using s ids booksD(2,5) [OF b]
    by (intro books_rewrite [OF b h]) (auto simp: same_handle_def effect_of_def)
  moreover have "handle_may_become h h'"
    using s by (auto simp: handle_may_become_def same_handle_def account_may_become_def split: option.splits)
  then have "fenced rt ow (put_run ow run h')"
    unfolding put_run_rewrite by (intro fenced_rewrite [OF b h]) (simp_all add: effect_of_def)
  ultimately show ?thesis by (simp add: sound_change_def)
qed

section \<open>New effects\<close>

text \<open>An effect that keeps its identity and its money.\<close>

definition same_effect :: "usage_record effect_intent \<Rightarrow> usage_record effect_intent \<Rightarrow> bool" where
  "same_effect e e' \<longleftrightarrow> ef_id e' = ef_id e \<and> ef_runId e' = ef_runId e \<and> ef_operationId e' = ef_operationId e
     \<and> ef_category e' = ef_category e \<and> ef_payloadDigest e' = ef_payloadDigest e \<and> ef_money e' = ef_money e
     \<and> ef_usage e' = ef_usage e"

lemma tallied_same:
  assumes d: "distinct (map fst (ao_effects ow))" and e: "effect_of ow k e" "same_effect e e'"
    and st: "mine run e \<longrightarrow> ef_state e' = ef_state e"
  shows "tallied (ow'\<lparr>ao_effects := AList.update k e' (ao_effects ow)\<rparr>) run acc = tallied ow run acc"
proof -
  let ?o = "ow'\<lparr>ao_effects := AList.update k e' (ao_effects ow)\<rparr>"
  have eff: "effect_of ?o j f \<longleftrightarrow> (if j = k then f = e' else effect_of ow j f)" for j f
    by (auto simp: effect_of_def map_of_update)
  have m: "mine run e' = mine run e" and eq: "ef_operationId e' = ef_operationId e" "ef_money e' = ef_money e"
    using e(2) by (auto simp: same_effect_def mine_def)
  have "charge run p e' = charge run p e" "one_if_mine run e' = one_if_mine run e" for p
    using m eq by (simp_all add: charge_def one_if_mine_def)
  then have sums: "spent ?o run p = spent ow run p" "claimed ?o run = claimed ow run" for p
    using e(1) by (simp_all add: fsum_update [OF d] effect_of_def)
  have bk: "mine run e \<Longrightarrow> backed a e' = backed a e" for a using eq st by (simp add: backed_def split: option.split)
  have own: "owns ?o run j f \<longleftrightarrow> (if j = k then f = e' \<and> mine run e else owns ow run j f)" for j f
    using m by (auto simp: owns_def eff)
  have own_e: "owns ow run k f \<longleftrightarrow> f = e \<and> mine run e" for f using e(1) by (auto simp: owns_def effect_of_def)
  have ops: "claims_op ?o run j opn = claims_op ow run j opn" for j opn
    using eq(1) by (cases "j = k") (auto simp: claims_op_def own own_e)
  have all: "(\<forall>j f. owns ?o run j f \<longrightarrow> q f) \<longleftrightarrow> (\<forall>j f. owns ow run j f \<longrightarrow> q f)" if "mine run e \<Longrightarrow> q e' = q e" for q
    unfolding own using that own_e by metis
  show ?thesis
    unfolding tallied_def ops sums
    using all [of "\<lambda>f. ef_money f = None"] all [of "backed a" for a] eq bk by (cases acc) simp_all
qed

end
