(* ===== verification/Wf_Changes.thy ===== *)
theory Wf_Changes
  imports Wf_Books
begin

text \<open>
  Changes of one run keep the books of the owner document and pass the fence: an effect that keeps
  its money, a new effect, and the claim of a dispatch with the hold of its bound.
\<close>

section \<open>Effects that keep their money\<close>

lemma effect_runD:
  assumes "books sha ow" "effect_of ow k e"
  shows "\<exists>h. run_of ow (ef_runId e) h \<and> rh_runId h = ef_runId e"
proof -
  obtain h where "run_of ow (ef_runId e) h"
    using booksD(5) [OF assms] by (auto simp: effect_kept_def run_of_def)
  with booksD(4) [OF assms(1) this] show ?thesis by (auto simp: run_kept_def)
qed

lemma sound_effect:
  assumes b: "books sha ow" and e: "effect_of ow k e" "same_effect e e'"
    and st: "ef_category e = CDispatch \<longrightarrow> ef_state e' = ef_state e"
    and out: "outstanding e' \<longrightarrow> outstanding e \<or> (\<exists>h. run_of ow (ef_runId e) h \<and> rh_active h)"
  shows "sound_change sha rt ow (put_effect ow k e')"
proof -
  let ?run = "ef_runId e" and ?d = "AList.update k e' (ao_effects ow)"
  obtain h where h: "run_of ow ?run h" "rh_runId h = ?run" using effect_runD [OF b e(1)] by blast
  have kept: "run_kept sha ow ?run h" using b h(1) by (rule booksD)
  have ek: "effect_kept ow k e" using b e(1) by (rule booksD)
  note put = put_effect_rewrite [OF h(1) booksD(1) [OF b], of k e']
  have d: "distinct (map fst (ao_effects ow))" using b by (rule booksD)
  have st': "mine ?run e \<longrightarrow> ef_state e' = ef_state e" using st by (simp add: mine_def)
  have run': "ef_runId e' = ?run" using e(2) by (simp add: same_effect_def)
  have "tallied (rewrite ow ?run h ?d) ?run (rh_money h) = tallied ow ?run (rh_money h)"
    using tallied_same [OF d e st', of "ow\<lparr>ao_runs := AList.update ?run h (ao_runs ow)\<rparr>"]
    by (simp add: rewrite_def)
  then have t: "tallied (rewrite ow ?run h ?d) ?run (rh_money h)" using kept h(2) by (simp add: run_kept_def)
  have q: "quiet (rewrite ow ?run h ?d) h"
    using kept out e(1) h(1)
    by (auto simp: run_kept_def quiet_def effect_of_def run_of_def rewrite_def map_of_update h(2))
  have ek': "effect_kept ow j f" if "map_of ?d j = Some f" for j f
  proof (cases "j = k")
    case True
    then have "f = e'" using that by (simp add: map_of_update)
    then show ?thesis using True ek e(2) st by (auto simp: effect_kept_def same_effect_def effect_ok_def)
  next
    case False
    with that show ?thesis using booksD(5) [OF b] by (simp add: map_of_update effect_of_def)
  qed
  have alone: "others_alone ?run (ao_effects ow) ?d"
    using d run' e(1) by (intro others_alone_update) (auto simp: effect_of_def)
  have "books sha (rewrite ow ?run h ?d)"
    using kept h(2) d by (intro books_rewrite [OF b h(1) _ _ _ _ _ alone ek' t q]) (auto simp: run_kept_def)
  moreover have "fenced rt ow (rewrite ow ?run h ?d)"
  proof (rule fenced_rewrite [OF b h(1)])
    show "handle_may_become h h" by (simp add: handle_may_become_def split: option.split)
    fix j f assume f: "effect_of ow j f" "map_of ?d j \<noteq> Some f"
    then have "j = k" "f = e" using e(1) by (auto simp: map_of_update effect_of_def split: if_splits)
    then show "effect_may_become ow (rewrite ow ?run h ?d) (j, f) = Inr ()"
      using e(2) by (auto simp: effect_may_become_def rewrite_def map_of_update same_effect_def split: option.splits)
  qed
  ultimately show ?thesis by (simp add: sound_change_def put)
qed

text \<open>A change of the effects of one run under a new handle of it, with its account.\<close>

lemma sound_rewrite:
  assumes b: "books sha ow" and h: "run_of ow run h"
    and h': "rh_runId h' = run" "handle_ok h'" "scoped sha ow h'" "rh_active h' \<longrightarrow> rh_active h"
      "handle_may_become h h'"
    and d': "distinct (map fst d')" "others_alone run (ao_effects ow) d'"
      "\<And>k e. map_of d' k = Some e \<Longrightarrow> effect_kept ow k e"
    and t: "tallied (rewrite ow run h' d') run (rh_money h')" and q: "quiet (rewrite ow run h' d') h'"
    and e: "\<And>k e. effect_of ow k e \<Longrightarrow> map_of d' k \<noteq> Some e \<Longrightarrow> effect_may_become ow (rewrite ow run h' d') (k, e) = Inr ()"
  shows "sound_change sha rt ow (rewrite ow run h' d')"
  using books_rewrite [OF b h h'(1-4) d' t q] fenced_rewrite [OF b h h'(5) e]
  by (simp add: sound_change_def)

text \<open>A new effect of a run, beside a new handle.\<close>

lemma effect_of_put:
  "effect_of (rewrite ow run h' (AList.update k e (ao_effects ow))) j f \<longleftrightarrow>
     (if j = k then f = e else effect_of ow j f)"
  by (auto simp: effect_of_def rewrite_def map_of_update)

lemma sound_new_effect:
  assumes b: "books sha ow" and h: "run_of ow run h" and fresh: "map_of (ao_effects ow) k = None"
    and h': "rh_runId h' = run" "handle_ok h'" "scoped sha ow h'" "rh_active h" "rh_active h'"
      "handle_may_become h h'"
    and e: "effect_kept ow k e" "ef_runId e = run"
    and t: "tallied (rewrite ow run h' (AList.update k e (ao_effects ow))) run (rh_money h')"
  shows "sound_change sha rt ow (rewrite ow run h' (AList.update k e (ao_effects ow)))"
proof (rule sound_rewrite [OF b h h'(1-3) _ h'(6) _ _ _ t])
  have d: "distinct (map fst (ao_effects ow))" using b by (rule booksD)
  show "distinct (map fst (AList.update k e (ao_effects ow)))" using d by simp
  show "others_alone run (ao_effects ow) (AList.update k e (ao_effects ow))"
    using d e(2) fresh by (intro others_alone_update) auto
  show "effect_kept ow j f" if "map_of (AList.update k e (ao_effects ow)) j = Some f" for j f
    using that e(1) booksD(5) [OF b] by (auto simp: map_of_update effect_of_def split: if_splits)
  show "effect_may_become ow (rewrite ow run h' (AList.update k e (ao_effects ow))) (j, f) = Inr ()"
    if "effect_of ow j f" "map_of (AList.update k e (ao_effects ow)) j \<noteq> Some f" for j f
    using that fresh by (auto simp: map_of_update effect_of_def split: if_splits)
qed (use h' in \<open>auto simp: quiet_def\<close>)

lemma sums_new_effect:
  assumes "books sha ow" "map_of (ao_effects ow) k = None"
  shows "spent (rewrite ow run h' (AList.update k e (ao_effects ow))) r p = spent ow r p + charge r p e"
    "claimed (rewrite ow run h' (AList.update k e (ao_effects ow))) r = claimed ow r + one_if_mine r e"
  using assms booksD(2) [OF assms(1)] by (simp_all add: rewrite_def fsum_update)

lemma tallied_unmine:
  assumes b: "books sha ow" and fresh: "map_of (ao_effects ow) k = None" and e: "\<not> mine run e"
  shows "tallied (rewrite ow r h' (AList.update k e (ao_effects ow))) run acc = tallied ow run acc"
proof -
  let ?o = "rewrite ow r h' (AList.update k e (ao_effects ow))"
  have "owns ?o run j f \<longleftrightarrow> owns ow run j f" for j f
    using e fresh unfolding owns_def effect_of_put by (auto simp: effect_of_def)
  moreover have "spent ?o run p = spent ow run p" "claimed ?o run = claimed ow run" for p
    unfolding sums_new_effect [OF b fresh] using e by (simp_all add: charge_def one_if_mine_def)
  ultimately show ?thesis by (rule tallied_eq)
qed

section \<open>Claims\<close>

lemma no_dispatches:
  assumes "operation_dispatches ow run opn = []"
  shows "\<not> claims_op ow run k opn"
proof
  assume "claims_op ow run k opn"
  then obtain e where "owns ow run k e" "ef_operationId e = opn" by (auto simp: claims_op_def)
  then have "e \<in> set (operation_dispatches ow run opn)"
    by (force simp: owns_def effect_of_def mine_def operation_dispatches_def run_dispatches_def dest: map_of_SomeD)
  with assms show False by simp
qed

text \<open>The account takes a hold, and the effects the dispatch it is for.\<close>

definition holds :: "run_money \<Rightarrow> int \<Rightarrow> run_money \<Rightarrow> bool" where
  "holds a amount a' \<longleftrightarrow> run_money_ok a' \<and> ma_budgetId a' = ma_budgetId a \<and> ma_limit a' = ma_limit a
     \<and> ma_revision a' = ma_revision a + 1 \<and> ma_settled a' = ma_settled a \<and> ma_held a' = ma_held a + amount
     \<and> ma_unknown a' = ma_unknown a \<and> ma_compacted a' = ma_compacted a
     \<and> ma_compactedReservations a' = ma_compactedReservations a \<and> ma_reservations a' = ma_reservations a + 1
     \<and> ma_blocked a' = ma_blocked a \<and> ma_reason a' = ma_reason a"

lemma updated_account_Inr: "updated_account m = Inr a \<longleftrightarrow> run_money_ok a \<and> a = m\<lparr>ma_revision := ma_revision m + 1\<rparr>"
  by (auto simp: updated_account_def)

lemma tallied_claim:
  assumes b: "books sha ow" and fresh: "map_of (ao_effects ow) k = None"
    and t: "tallied ow run (Some a)" and a': "holds a (dm_charged d) a'"
    and e: "mine run e" "ef_money e = Some d" "dm_phase d = MHeld" "backed a' e"
    and ops: "\<And>j. \<not> claims_op ow run j (ef_operationId e)"
  shows "tallied (rewrite ow r h' (AList.update k e (ao_effects ow))) run (Some a')"
proof -
  let ?o = "rewrite ow r h' (AList.update k e (ao_effects ow))"
  have own: "owns ?o run j f \<longleftrightarrow> (j = k \<and> f = e) \<or> owns ow run j f" for j f
    using e(1) fresh unfolding owns_def effect_of_put by (auto simp: effect_of_def)
  have cl: "claims_op ?o run j opn \<longleftrightarrow> (j = k \<and> opn = ef_operationId e) \<or> claims_op ow run j opn" for j opn
    by (auto simp: claims_op_def own)
  have bk: "backed a' f = backed a f" for f using a' by (simp add: backed_def holds_def cong: option.case_cong)
  have sums: "spent ?o run (\<lambda>p. p = MSettled) = spent ow run (\<lambda>p. p = MSettled)"
    "spent ?o run (\<lambda>p. p \<noteq> MSettled) = spent ow run (\<lambda>p. p \<noteq> MSettled) + dm_charged d"
    "spent ?o run (\<lambda>p. p = MUnknown) = spent ow run (\<lambda>p. p = MUnknown)" "claimed ?o run = claimed ow run + 1"
    unfolding sums_new_effect [OF b fresh] using e(1-3) by (simp_all add: charge_def one_if_mine_def)
  have one: "\<forall>j j' opn. claims_op ?o run j opn \<and> claims_op ?o run j' opn \<longrightarrow> j = j'"
    using t ops unfolding cl by (auto simp: tallied_def)
  have all: "\<forall>j f. owns ?o run j f \<longrightarrow> backed a' f"
    using t e(4) unfolding own by (auto simp: tallied_def bk)
  show ?thesis using t a' one all unfolding tallied_def sums by (simp add: holds_def)
qed

lemma claim_account:
  assumes "holds a amount a'" "rh_money h = Some a" "rh_active h'  = rh_active h" "rh_terminal h' = rh_terminal h"
    "rh_money h' = Some a'" "run_money_ok a" "0 \<le> amount"
  shows "handle_may_become h h'"
  using assms by (simp add: handle_may_become_def account_may_become_def holds_def)

lemma reserve_moneyD:
  assumes "reserve_money (put_run ow run h) run bd appr = Inr (d, ow')"
  shows "\<exists>a a'. rh_money h = Some a \<and> holds a (dm_charged d) a' \<and> dm_phase d = MHeld \<and> 0 \<le> dm_charged d
    \<and> dm_budgetId d = ma_budgetId a \<and> dispatch_money_ok d
    \<and> ow' = put_run ow run (h\<lparr>rh_money := Some a'\<rparr>)"
  using assms
  by (auto simp: reserve_money_def the_run_def put_run_def map_of_update bindE_Inr_iff holds_def updated_account_Inr
      dispatch_money_ok_def count_ok_def update_last split: option.splits if_splits)

lemma count_dispatchD:
  "count_dispatch lims eg h = Inr h' \<Longrightarrow> handle_ok h \<Longrightarrow> handle_ok h' \<and> rh_runId h' = rh_runId h
     \<and> rh_fingerprint h' = rh_fingerprint h \<and> rh_money h' = rh_money h \<and> rh_active h' = rh_active h
     \<and> rh_terminal h' = rh_terminal h \<and> rh_operationFloor h' = rh_operationFloor h"
  by (auto simp: count_dispatch_def bindE_Inr_iff handle_ok_def split: if_splits)

lemma claimed_usage_user [simp]: "ur_userId (claimed_usage cx eg now) = rc_userId cx"
  by (simp add: claimed_usage_def Let_def new_record_def)

lemma put_put: "put_effect (put_run ow run h') k e = rewrite ow run h' (AList.update k e (ao_effects ow))"
  by (simp add: put_effect_def put_run_def rewrite_def)

lemma sound_claim:
  assumes b: "books sha ow" and c: "claim_egress sha cx eg ow now = Inr ow'"
    and user: "rc_userId cx = ao_userId ow"
    and bound: "\<And>h. run_of ow (rc_runId cx) h \<Longrightarrow> eg_bound eg = None \<longleftrightarrow> rh_money h = None"
  shows "sound_change sha rt ow ow'"
proof -
  let ?run = "rc_runId cx" and ?k = "eg_identifier eg"
  from c obtain h where h: "run_of ow ?run h"
    by (auto simp: claim_egress_def bindE_Inr_iff the_run_def run_of_def split: option.splits)
  have kept: "run_kept sha ow ?run h" using b h by (rule booksD)
  then have hid: "rh_runId h = ?run" and hok: "handle_ok h" by (auto simp: run_kept_def)
  from c h have live: "rh_active h" and fresh: "map_of (ao_effects ow) ?k = None"
    and ops: "eg_bound eg \<noteq> None \<longrightarrow> operation_dispatches ow ?run (eg_operation eg) = []"
    by (auto simp: claim_egress_def bindE_Inr_iff the_run_def run_of_def split: if_splits)
  from c h obtain h1 money ow2 dg e where h1: "count_dispatch (rc_limits cx) eg h = Inr h1"
    and m: "(case eg_bound eg of None \<Rightarrow> Inr (None, put_run ow ?run h1)
        | Some bd \<Rightarrow> bindE (reserve_money (put_run ow ?run h1) ?run bd (eg_approval eg)) (\<lambda>(m, o2). Inr (Some m, o2)))
        = Inr (money, ow2)"
    and e: "e = \<lparr>ef_id = ?k, ef_runId = ?run, ef_sessionId = rc_sessionId cx,
           ef_operationId = eg_operation eg, ef_category = CDispatch, ef_payloadDigest = dg,
           ef_state = EDispatched, ef_startedAt = now, ef_resultDigest = None,
           ef_usage = Some (claimed_usage cx eg now), ef_delivered = False, ef_money = money\<rparr>" "effect_ok e"
    and ow': "ow' = put_effect ow2 ?k e"
    by (auto simp: claim_egress_def bindE_Inr_iff the_run_def run_of_def Let_def mk_effect_def split: if_splits)
  note h1D = count_dispatchD [OF h1 hok]
  have ek: "effect_kept ow ?k e" "ef_runId e = ?run"
    using e h user by (auto simp: effect_kept_def run_of_def)
  have mine: "mine ?run e" using e(1) by (simp add: mine_def)
  show ?thesis
  proof (cases "eg_bound eg")
    case None
    then have no: "rh_money h = None" "money = None" "ow2 = put_run ow ?run h1" using bound [OF h] m by auto
    have "tallied (rewrite ow ?run h1 (AList.update ?k e (ao_effects ow))) ?run (rh_money h1)"
      using kept no h1D hid e(1) fresh unfolding tallied_def owns_def effect_of_put run_kept_def
      by (auto simp: effect_of_def owns_def)
    then show ?thesis
      unfolding ow' no put_put using h1D hid live no
      by (intro sound_new_effect [OF b h fresh _ _ _ live _ _ ek])
        (auto simp: scoped_def handle_may_become_def)
  next
    case (Some bd)
    then obtain d where d: "reserve_money (put_run ow ?run h1) ?run bd (eg_approval eg) = Inr (d, ow2)" "money = Some d"
      using m by (auto simp: bindE_Inr_iff)
    obtain a a' where a: "rh_money h1 = Some a" "holds a (dm_charged d) a'" "dm_phase d = MHeld" "0 \<le> dm_charged d"
      "dm_budgetId d = ma_budgetId a" "ow2 = put_run ow ?run (h1\<lparr>rh_money := Some a'\<rparr>)"
      using reserve_moneyD [OF d(1)] by blast
    let ?h2 = "h1\<lparr>rh_money := Some a'\<rparr>"
    have ha: "rh_money h = Some a" using a(1) h1D by simp
    have tal: "tallied ow ?run (Some a)" using kept ha hid by (simp add: run_kept_def)
    have aok: "run_money_ok a" using hok ha by (simp add: handle_ok_def)
    have bk: "backed a' e" using e(1) d(2) a by (simp add: backed_def holds_def)
    have t: "tallied (rewrite ow ?run ?h2 (AList.update ?k e (ao_effects ow))) ?run (rh_money ?h2)"
      using tallied_claim [OF b fresh tal a(2) mine _ a(3) bk] no_dispatches [of ow ?run] ops Some e(1) d(2)
      by auto
    have hm: "handle_may_become h ?h2" using claim_account [OF a(2) ha] h1D aok a(4) by simp
    have ok2: "handle_ok ?h2" using h1D a(2) by (auto simp: handle_ok_def holds_def)
    have sc: "scoped sha ow ?h2" using kept ha h1D a(2) by (simp add: run_kept_def scoped_def holds_def)
    show ?thesis
      unfolding ow' a(6) put_put using h1D hid live
      by (intro sound_new_effect [OF b h fresh _ ok2 sc live _ hm ek t]) auto
  qed
qed

end
