(* ===== verification/Wf_Settle.thy ===== *)
theory Wf_Settle
  imports Wf_Changes
begin

text \<open>
  The receipt of a dispatch: what settling its hold does to the account and to the reservation,
  and that closing the effect under it keeps the books and passes the fence.
\<close>

section \<open>What a settlement does\<close>

text \<open>The account and the reservation after a settlement, for either of its two ends.\<close>

definition settles :: "run_money \<Rightarrow> dispatch_money \<Rightarrow> run_money \<Rightarrow> dispatch_money \<Rightarrow> bool" where
  "settles a d a' d' \<longleftrightarrow> run_money_ok a' \<and> dispatch_money_ok d' \<and> ma_budgetId a' = ma_budgetId a
     \<and> ma_limit a' = ma_limit a \<and> ma_revision a' = ma_revision a + 1 \<and> ma_compacted a' = ma_compacted a
     \<and> ma_compactedReservations a' = ma_compactedReservations a \<and> ma_reservations a' = ma_reservations a
     \<and> (ma_blocked a \<longrightarrow> ma_blocked a' \<and> ma_reason a' = ma_reason a)
     \<and> dm_budgetId d' = dm_budgetId d \<and> dm_bounds d' = dm_bounds d \<and> dm_budgetRevision d' = dm_budgetRevision d
     \<and> dm_approvalSpendDigest d' = dm_approvalSpendDigest d
     \<and> (dm_phase d' = MUnknown \<and> dm_charged d' = dm_charged d \<and> ma_settled a' = ma_settled a
          \<and> ma_held a' = ma_held a \<and> ma_unknown a' = ma_unknown a + dm_charged d
        \<or> dm_phase d' = MSettled \<and> ma_settled a' = ma_settled a + dm_charged d'
          \<and> ma_held a' = ma_held a - dm_charged d \<and> ma_unknown a' = ma_unknown a)"

text \<open>\<open>None\<close>: a receipt that was settled before and says the same.\<close>

lemma settle_moneyD:
  assumes s: "settle_money sha ow e completed usage out = Inr (e', ow')"
    and h: "run_of ow (ef_runId e) h" and ok: "opt_ok run_money_ok (rh_money h)"
  shows "\<exists>d a. ef_money e = Some d \<and> rh_money h = Some a \<and> dm_budgetId d = ma_budgetId a
    \<and> (if dm_phase d \<noteq> MHeld then e' = e \<and> ow' = ow
       else \<exists>a' d'. settles a d a' d' \<and> (dm_phase d' = MSettled \<longrightarrow> completed)
         \<and> (\<exists>x. receipt_amounts completed (dm_bounds d) usage = Inr x \<and> ma_reason a' = settle_reason a d x)
         \<and> e' = e\<lparr>ef_money := Some d'\<rparr>
         \<and> ow' = put_run ow (ef_runId e) (h\<lparr>rh_money := Some a'\<rparr>))"
proof -
  from s h obtain d a where d: "ef_money e = Some d" and a: "rh_money h = Some a"
    and budget: "dm_budgetId d = ma_budgetId a"
    by (auto simp: settle_money_def the_run_def run_of_def bindE_Inr_iff split: option.splits if_splits)
  show ?thesis
  proof (cases "dm_phase d = MHeld")
    case False
    then show ?thesis
      using s h d a budget
      by (auto simp: settle_money_def the_run_def run_of_def bindE_Inr_iff split: if_splits)
  next
    case True
    obtain x where x: "receipt_amounts completed (dm_bounds d) usage = Inr x"
      using s h d a budget True
      by (cases "receipt_amounts completed (dm_bounds d) usage")
        (auto simp: settle_money_def the_run_def run_of_def bindE_Inr_iff)
    from s h d a budget True x obtain identity res acc where
      r: "settlement_result a d x identity = (res, acc)" and
      acc: "run_money_ok (acc\<lparr>ma_blocked := settle_reason a d x \<noteq> None, ma_reason := settle_reason a d x,
               ma_revision := ma_revision acc + 1\<rparr>)" and
      res: "dispatch_money_ok res" and
      e': "e' = e\<lparr>ef_money := Some res\<rparr>" and
      ow': "ow' = put_run ow (ef_runId e) (h\<lparr>rh_money := Some (acc\<lparr>ma_blocked := settle_reason a d x \<noteq> None,
               ma_reason := settle_reason a d x, ma_revision := ma_revision acc + 1\<rparr>)\<rparr>)"
      by (auto simp: settle_money_def the_run_def run_of_def bindE_Inr_iff updated_account_Inr Let_def
          case_prod_beta) (metis prod.collapse)
    let ?a' = "acc\<lparr>ma_blocked := settle_reason a d x \<noteq> None, ma_reason := settle_reason a d x,
               ma_revision := ma_revision acc + 1\<rparr>"
    have aok: "run_money_ok a" using ok a by simp
    have stays: "ma_reason a \<noteq> None \<Longrightarrow> settle_reason a d x = ma_reason a"
      by (auto simp: settle_reason_def Let_def split: option.splits)
    have "settles a d ?a' res"
      using r acc res stays aok
      by (auto simp: settles_def settlement_result_def run_money_ok_def coherent_totals_def split: option.splits)
    moreover have "dm_phase res = MSettled \<longrightarrow> completed"
      using r x True
      by (auto simp: settlement_result_def settled_charge_def receipt_amounts_def split: option.splits if_splits)
    moreover have "ma_reason ?a' = settle_reason a d x" by simp
    ultimately have "\<exists>a' d'. settles a d a' d' \<and> (dm_phase d' = MSettled \<longrightarrow> completed)
         \<and> (\<exists>x. receipt_amounts completed (dm_bounds d) usage = Inr x \<and> ma_reason a' = settle_reason a d x)
         \<and> e' = e\<lparr>ef_money := Some d'\<rparr>
         \<and> ow' = put_run ow (ef_runId e) (h\<lparr>rh_money := Some a'\<rparr>)"
      using x e' ow' by blast
    with d a budget True show ?thesis by (intro exI [of _ d] exI [of _ a]) simp
  qed
qed

section \<open>Closing an effect\<close>

text \<open>\<open>e'\<close> is \<open>e\<close> with a new state, result, usage and money; the usage keeps its owner.\<close>

definition closes :: "usage_record effect_intent \<Rightarrow> usage_record effect_intent \<Rightarrow> bool" where
  "closes e e' \<longleftrightarrow> ef_id e' = ef_id e \<and> ef_runId e' = ef_runId e \<and> ef_operationId e' = ef_operationId e
     \<and> ef_category e' = ef_category e \<and> ef_payloadDigest e' = ef_payloadDigest e
     \<and> map_option ur_userId (ef_usage e') = map_option ur_userId (ef_usage e)"

lemma sums_close:
  assumes "books sha ow" "effect_of ow k e"
  shows "spent (rewrite ow run h' (AList.update k e' (ao_effects ow))) r p = spent ow r p + charge r p e' - charge r p e"
    "claimed (rewrite ow run h' (AList.update k e' (ao_effects ow))) r = claimed ow r + one_if_mine r e' - one_if_mine r e"
  using assms booksD(2) [OF assms(1)] by (simp_all add: rewrite_def fsum_update effect_of_def)

lemma tallied_close:
  assumes b: "books sha ow" and e: "effect_of ow k e" "closes e e'" "mine run e"
    and t: "tallied ow run (Some a)" and d: "ef_money e = Some d" "ef_money e' = Some d'"
    and bk: "backed a' e'" "\<And>f. backed a f \<Longrightarrow> backed a' f"
    and s: "ma_compacted a' = ma_compacted a" "ma_compactedReservations a' = ma_compactedReservations a"
      "ma_reservations a' = ma_reservations a"
    and sums: "ma_settled a' - ma_settled a = (if dm_phase d' = MSettled then dm_charged d' else 0)
         - (if dm_phase d = MSettled then dm_charged d else 0)"
      "ma_held a' - ma_held a = (if dm_phase d' \<noteq> MSettled then dm_charged d' else 0)
         - (if dm_phase d \<noteq> MSettled then dm_charged d else 0)"
      "ma_unknown a' - ma_unknown a = (if dm_phase d' = MUnknown then dm_charged d' else 0)
         - (if dm_phase d = MUnknown then dm_charged d else 0)"
  shows "tallied (rewrite ow r h' (AList.update k e' (ao_effects ow))) run (Some a')"
proof -
  let ?o = "rewrite ow r h' (AList.update k e' (ao_effects ow))"
  have m: "mine run e'" using e by (simp add: mine_def closes_def)
  have own: "owns ?o run j f \<longleftrightarrow> (if j = k then f = e' else owns ow run j f)" for j f
    using m unfolding owns_def effect_of_put by auto
  have own_e: "owns ow run k f \<longleftrightarrow> f = e" for f using e by (auto simp: owns_def effect_of_def)
  have ops: "claims_op ?o run j opn = claims_op ow run j opn" for j opn
    using e(2) by (cases "j = k") (auto simp: claims_op_def own own_e closes_def)
  have "\<forall>j f. owns ?o run j f \<longrightarrow> backed a' f"
    using t bk unfolding own by (auto simp: tallied_def)
  moreover have "charge run p e = (if p (dm_phase d) then dm_charged d else 0)"
    "charge run p e' = (if p (dm_phase d') then dm_charged d' else 0)" for p
    using m e(3) d by (simp_all add: charge_def)
  moreover have "one_if_mine run e' = one_if_mine run e" using m e(3) by (simp add: one_if_mine_def)
  ultimately show ?thesis
    using t s sums unfolding tallied_def ops sums_close [OF b e(1)] by simp
qed

lemma sound_close:
  assumes b: "books sha ow" and e: "effect_of ow k e" "closes e e'" "effect_kept ow k e'"
    and h: "run_of ow (ef_runId e) h" "rh_active h"
    and h': "rh_runId h' = ef_runId e" "handle_ok h'" "scoped sha ow h'" "rh_active h'" "handle_may_become h h'"
    and t: "tallied (rewrite ow (ef_runId e) h' (AList.update k e' (ao_effects ow))) (ef_runId e) (rh_money h')"
    and f: "effect_may_become ow (rewrite ow (ef_runId e) h' (AList.update k e' (ao_effects ow))) (k, e) = Inr ()"
  shows "sound_change sha rt ow (rewrite ow (ef_runId e) h' (AList.update k e' (ao_effects ow)))"
proof (rule sound_rewrite [OF b h(1) h'(1-3) _ h'(5) _ _ _ t])
  have d: "distinct (map fst (ao_effects ow))" using b by (rule booksD)
  show "distinct (map fst (AList.update k e' (ao_effects ow)))" using d by simp
  show "others_alone (ef_runId e) (ao_effects ow) (AList.update k e' (ao_effects ow))"
    using d e(1,2) by (intro others_alone_update) (auto simp: closes_def effect_of_def)
  show "effect_kept ow j g" if "map_of (AList.update k e' (ao_effects ow)) j = Some g" for j g
    using that e(3) booksD(5) [OF b] by (auto simp: map_of_update effect_of_def split: if_splits)
  show "effect_may_become ow (rewrite ow (ef_runId e) h' (AList.update k e' (ao_effects ow))) (j, g) = Inr ()"
    if "effect_of ow j g" "map_of (AList.update k e' (ao_effects ow)) j \<noteq> Some g" for j g
    using that f e(1) by (auto simp: map_of_update effect_of_def split: if_splits)
qed (use h h' in \<open>auto simp: quiet_def\<close>)

lemma close_usage_user [simp]: "ur_userId (close_usage product re u) = ur_userId u"
  by (simp add: close_usage_def Let_def split: option.splits)

lemma outstanding_active:
  assumes "books sha ow" "effect_of ow k e" "outstanding e" "run_of ow (ef_runId e) h"
  shows "rh_active h"
  using booksD(4) [OF assms(1,4)] assms(2,3) by (auto simp: run_kept_def quiet_def)

lemma settles_account:
  assumes "settles a d a' d'" "rh_money h = Some a" "dm_phase d = MHeld"
  shows "handle_may_become h (h\<lparr>rh_money := Some a'\<rparr>)"
proof -
  have "0 \<le> dm_charged d'" using assms(1) by (simp add: settles_def dispatch_money_ok_def count_ok_def)
  then show ?thesis
    using assms by (auto simp: handle_may_become_def account_may_become_def settles_def)
qed

text \<open>The run of a dispatch in flight, and the effect as its receipt leaves it.\<close>

lemma in_flight:
  assumes b: "books sha ow" and e: "effect_of ow k e" "ef_state e = EDispatched"
  shows "\<exists>h. run_of ow (ef_runId e) h \<and> rh_runId h = ef_runId e \<and> rh_active h \<and> handle_ok h \<and> scoped sha ow h
    \<and> tallied ow (ef_runId e) (rh_money h)
    \<and> (\<forall>f. put_effect ow k f = rewrite ow (ef_runId e) h (AList.update k f (ao_effects ow)))"
proof -
  obtain h where h: "run_of ow (ef_runId e) h" "rh_runId h = ef_runId e" using effect_runD [OF b e(1)] by blast
  have "run_kept sha ow (ef_runId e) h" using b h(1) by (rule booksD)
  moreover have "rh_active h" using outstanding_active [OF b e(1) _ h(1)] e(2) by (simp add: outstanding_def)
  ultimately show ?thesis
    using h put_effect_rewrite [OF h(1) booksD(1) [OF b]] by (auto simp: run_kept_def)
qed

definition received ::
  "(int \<Rightarrow> int \<Rightarrow> int \<Rightarrow> price_rate \<Rightarrow> int) \<Rightarrow> receipt \<Rightarrow> string \<Rightarrow> usage_record effect_intent \<Rightarrow> usage_record
    \<Rightarrow> dispatch_money option \<Rightarrow> usage_record effect_intent" where
  "received product re identity e u m = e\<lparr>ef_usage := Some (close_usage product re u), ef_money := m,
     ef_state := (if re_completed re \<and> (case m of None \<Rightarrow> True | Some d \<Rightarrow> dm_phase d = MSettled)
                  then EComplete else EUnknown), ef_resultDigest := Some identity\<rparr>"

lemma received_same:
  "ef_money e = m \<Longrightarrow> received product re i e u m = e\<lparr>ef_usage := Some (close_usage product re u),
     ef_state := (if re_completed re \<and> (case m of None \<Rightarrow> True | Some d \<Rightarrow> dm_phase d = MSettled)
                  then EComplete else EUnknown), ef_resultDigest := Some i\<rparr>"
  by (cases e) (simp add: received_def)

lemma received_closes: "ef_usage e = Some u \<Longrightarrow> closes e (received product re i e u m)"
  by (simp add: closes_def received_def)

lemma sound_receipt_unpaid:
  assumes b: "books sha ow" and e: "effect_of ow k e" "ef_state e = EDispatched" "ef_usage e = Some u"
    and none: "ef_money e = None"
  shows "sound_change sha rt ow (put_effect ow k (received product re i e u None))"
proof -
  let ?e' = "received product re i e u None" and ?run = "ef_runId e"
  obtain h where h: "run_of ow ?run h" "rh_runId h = ?run" "rh_active h" "handle_ok h" "scoped sha ow h"
    and tal: "tallied ow ?run (rh_money h)"
    and put: "\<And>f. put_effect ow k f = rewrite ow ?run h (AList.update k f (ao_effects ow))"
    using in_flight [OF b e(1,2)] by blast
  have ek: "effect_kept ow k ?e'"
    using booksD(5) [OF b e(1)] e(3) none by (simp add: effect_kept_def effect_ok_def received_def)
  have own: "owns (rewrite ow ?run h (AList.update k ?e' (ao_effects ow))) ?run j f \<longleftrightarrow>
      (if j = k then f = ?e' \<and> mine ?run e else owns ow ?run j f)" for j f
    unfolding owns_def effect_of_put by (auto simp: received_def mine_def)
  have t: "tallied (rewrite ow ?run h (AList.update k ?e' (ao_effects ow))) ?run (rh_money h)"
  proof (cases "rh_money h")
    case None
    with tal show ?thesis unfolding tallied_def own by (auto simp: received_def)
  next
    case (Some a)
    then have "owns ow ?run k e \<longrightarrow> backed a e" using tal by (simp add: tallied_def)
    then have "\<not> mine ?run e" using e(1) none by (simp add: owns_def backed_def)
    moreover have "\<not> mine ?run ?e'" using calculation by (simp add: mine_def received_def)
    moreover have "owns ow ?run k f \<longleftrightarrow> False" for f using calculation(1) e(1) by (auto simp: owns_def effect_of_def)
    ultimately show ?thesis
      using tal by (subst tallied_eq [of _ _ ow]) (auto simp: own sums_close [OF b e(1)] charge_def one_if_mine_def)
  qed
  have "handle_may_become h h" by (simp add: handle_may_become_def split: option.split)
  from sound_close [OF b e(1) received_closes [OF e(3)] ek h(1,3,2,4,5,3) this t effect_unpaid [OF none]]
  show ?thesis unfolding put by blast
qed

lemma sound_receipt_known:
  assumes b: "books sha ow" and e: "effect_of ow k e" "ef_state e = EDispatched" "ef_usage e = Some u"
    and d: "ef_money e = Some d" "dm_phase d \<noteq> MHeld"
    and a: "run_of ow (ef_runId e) h" "rh_money h = Some a"
  shows "sound_change sha rt ow (put_effect ow k (received product re i e u (Some d)))"
proof -
  let ?e' = "received product re i e u (Some d)" and ?run = "ef_runId e"
  have h: "rh_runId h = ?run" "rh_active h" "handle_ok h" "scoped sha ow h"
    and tal: "tallied ow ?run (Some a)"
    and put: "\<And>f. put_effect ow k f = rewrite ow ?run h (AList.update k f (ao_effects ow))"
    using in_flight [OF b e(1,2)] a by (auto simp: run_of_def)
  have kept: "effect_kept ow k e" using b e(1) by (rule booksD)
  then have m: "mine ?run e" using d(1) by (simp add: effect_kept_def mine_def)
  have bk: "backed a e" using tal m e(1) by (auto simp: tallied_def owns_def)
  with d(1) e(2) have ph: "dm_phase d \<noteq> MSettled" by (auto simp: backed_def split: if_splits)
  have ek: "effect_kept ow k ?e'" using kept e(3) d(1) by (simp add: effect_kept_def effect_ok_def received_def)
  have bk': "backed a ?e'" using bk d(1) ph by (simp add: backed_def received_def)
  have t: "tallied (rewrite ow ?run h (AList.update k ?e' (ao_effects ow))) ?run (rh_money h)"
    unfolding a(2)
    by (rule tallied_close [OF b e(1) received_closes [OF e(3)] m tal d(1) _ bk', of d])
      (simp_all add: received_def)
  have hm: "handle_may_become h h" by (simp add: handle_may_become_def split: option.split)
  have f: "effect_may_become ow (rewrite ow ?run h (AList.update k ?e' (ao_effects ow))) (k, e) = Inr ()"
    using d(1) by (simp add: effect_may_become_def rewrite_def map_of_update received_def)
  from sound_close [OF b e(1) received_closes [OF e(3)] ek a(1) h(2,1,3,4,2) hm t f]
  show ?thesis unfolding put .
qed

lemma sound_receipt_settled:
  assumes b: "books sha ow" and e: "effect_of ow k e" "ef_state e = EDispatched" "ef_usage e = Some u"
    and d: "ef_money e = Some d" "dm_phase d = MHeld"
    and a: "run_of ow (ef_runId e) h" "rh_money h = Some a" "dm_budgetId d = ma_budgetId a"
    and st: "settles a d a' d'" "dm_phase d' = MSettled \<longrightarrow> re_completed re"
  shows "sound_change sha rt ow (rewrite ow (ef_runId e) (h\<lparr>rh_money := Some a'\<rparr>)
    (AList.update k (received product re i e u (Some d')) (ao_effects ow)))"
proof -
  let ?e' = "received product re i e u (Some d')" and ?run = "ef_runId e" and ?h' = "h\<lparr>rh_money := Some a'\<rparr>"
  have h: "rh_runId h = ?run" "rh_active h" "handle_ok h" "scoped sha ow h" and tal: "tallied ow ?run (Some a)"
    using in_flight [OF b e(1,2)] a by (auto simp: run_of_def)
  have kept: "effect_kept ow k e" using b e(1) by (rule booksD)
  then have m: "mine ?run e" using d(1) by (simp add: effect_kept_def mine_def)
  have ek: "effect_kept ow k ?e'"
    using kept e(3) m st(1) by (simp add: effect_kept_def effect_ok_def received_def mine_def settles_def)
  have bk': "backed a' ?e'" using st a(3) by (auto simp: backed_def received_def settles_def)
  have bks: "backed a f \<Longrightarrow> backed a' f" for f
    using st(1) by (simp add: backed_def settles_def cong: option.case_cong)
  have t: "tallied (rewrite ow ?run ?h' (AList.update k ?e' (ao_effects ow))) ?run (rh_money ?h')"
    using tallied_close [OF b e(1) received_closes [OF e(3)] m tal d(1) _ bk' bks, of d'] st(1) d(2)
    by (auto simp: received_def settles_def)
  have h': "rh_runId ?h' = ?run" "handle_ok ?h'" "scoped sha ow ?h'" "rh_active ?h'"
    using h st(1) a(2) by (simp_all add: handle_ok_def settles_def scoped_def)
  have f: "effect_may_become ow (rewrite ow ?run ?h' (AList.update k ?e' (ao_effects ow))) (k, e) = Inr ()"
    using d st(1) by (simp add: effect_may_become_def rewrite_def map_of_update received_def settles_def)
  show ?thesis
    by (rule sound_close [OF b e(1) received_closes [OF e(3)] ek a(1) h(2) h' settles_account [OF st(1) a(2) d(2)] t f])
qed

text \<open>Which of the three a receipt that returns and changes the document is.\<close>

inductive receipt_step ::
  "(int \<Rightarrow> int \<Rightarrow> int \<Rightarrow> price_rate \<Rightarrow> int) \<Rightarrow> receipt \<Rightarrow> run_owner \<Rightarrow> string \<Rightarrow> usage_record effect_intent \<Rightarrow> run_owner \<Rightarrow> bool"
  for product re ow k e where
  unpaid: "ef_money e = None \<Longrightarrow> ef_usage e = Some u \<Longrightarrow>
     receipt_step product re ow k e (put_effect ow k (received product re i e u None))"
| known: "ef_money e = Some d \<Longrightarrow> ef_usage e = Some u \<Longrightarrow> dm_phase d \<noteq> MHeld \<Longrightarrow>
     run_of ow (ef_runId e) h \<Longrightarrow> rh_money h = Some a \<Longrightarrow>
     receipt_step product re ow k e (put_effect ow k (received product re i e u (Some d)))"
| settled: "ef_money e = Some d \<Longrightarrow> ef_usage e = Some u \<Longrightarrow> dm_phase d = MHeld \<Longrightarrow>
     run_of ow (ef_runId e) h \<Longrightarrow> rh_money h = Some a \<Longrightarrow> dm_budgetId d = ma_budgetId a \<Longrightarrow>
     settles a d a' d' \<Longrightarrow> dm_phase d' = MSettled \<longrightarrow> re_completed re \<Longrightarrow>
     receipt_amounts (re_completed re) (dm_bounds d) (re_usage re) = Inr x \<Longrightarrow>
     ma_reason a' = settle_reason a d x \<Longrightarrow>
     receipt_step product re ow k e (rewrite ow (ef_runId e) (h\<lparr>rh_money := Some a'\<rparr>)
       (AList.update k (received product re i e u (Some d')) (ao_effects ow)))"

lemma finish_dispatchD:
  assumes c: "finish_dispatch sha product cx ticket re ow now = Inr ow'" and b: "books sha ow"
  shows "ow' = ow \<or> (\<exists>e. effect_of ow ticket e \<and> ef_runId e = rc_runId cx \<and> ef_state e = EDispatched
    \<and> receipt_step product re ow ticket e ow')"
proof -
  from c obtain e where e: "effect_of ow ticket e" and run: "ef_runId e = rc_runId cx"
    by (auto simp: finish_dispatch_def bindE_Inr_iff effect_of_def split: option.splits if_splits)
  show ?thesis
  proof (cases "ef_state e = EDispatched")
    case False
    with c e show ?thesis
      by (auto simp: finish_dispatch_def bindE_Inr_iff effect_of_def split: if_splits)
  next
    case True
    obtain u where u: "ef_usage e = Some u"
      using c e run True by (cases "ef_usage e") (auto simp: finish_dispatch_def bindE_Inr_iff effect_of_def)
    let ?e1 = "e\<lparr>ef_usage := Some (close_usage product re u)\<rparr>"
    from c e run True u obtain i e2 ow2 where
      s: "(if ef_money e = None then Inr (?e1, ow)
          else settle_money sha ow ?e1 (re_completed re) (re_usage re) (re_outcome re)) = Inr (e2, ow2)"
      and ow': "ow' = put_effect ow2 ticket (e2\<lparr>ef_state := (if re_completed re \<and>
            (case ef_money e2 of None \<Rightarrow> True | Some m \<Rightarrow> dm_phase m = MSettled) then EComplete else EUnknown),
          ef_resultDigest := Some i\<rparr>)"
      by (auto simp: finish_dispatch_def bindE_Inr_iff effect_of_def Let_def)
    obtain h where h: "run_of ow (ef_runId e) h" "handle_ok h" using in_flight [OF b e True] by blast
    have "receipt_step product re ow ticket e ow'"
    proof (cases "ef_money e")
      case None
      with s have "e2 = ?e1" "ow2 = ow" by auto
      with ow' None have "ow' = put_effect ow ticket (received product re i e u None)"
        by (simp add: received_same)
      then show ?thesis using receipt_step.unpaid [OF None u] by simp
    next
      case (Some d)
      have s': "settle_money sha ow ?e1 (re_completed re) (re_usage re) (re_outcome re) = Inr (e2, ow2)"
        using s Some by simp
      have "run_of ow (ef_runId ?e1) h" "opt_ok run_money_ok (rh_money h)" using h by (simp_all add: handle_ok_def)
      note sm = settle_moneyD [OF s' this]
      obtain a where a: "rh_money h = Some a" "dm_budgetId d = ma_budgetId a" using sm Some by auto
      show ?thesis
      proof (cases "dm_phase d = MHeld")
        case False
        with sm Some ow' have "ow' = put_effect ow ticket (received product re i e u (Some d))"
          by (auto simp: received_same)
        then show ?thesis using receipt_step.known [OF Some u False h(1) a(1)] by simp
      next
        case held: True
        with sm Some a obtain a' d' x where st: "settles a d a' d'" "dm_phase d' = MSettled \<longrightarrow> re_completed re"
          "receipt_amounts (re_completed re) (dm_bounds d) (re_usage re) = Inr x" "ma_reason a' = settle_reason a d x"
          and e2: "e2 = ?e1\<lparr>ef_money := Some d'\<rparr>" "ow2 = put_run ow (ef_runId e) (h\<lparr>rh_money := Some a'\<rparr>)" by auto
        from e2 ow' have "ow' = rewrite ow (ef_runId e) (h\<lparr>rh_money := Some a'\<rparr>)
            (AList.update ticket (received product re i e u (Some d')) (ao_effects ow))"
          by (simp add: put_put received_def)
        then show ?thesis using receipt_step.settled [OF Some u held h(1) a st] by simp
      qed
    qed
    with e run True show ?thesis by blast
  qed
qed

lemma sound_receipt:
  assumes b: "books sha ow" and c: "finish_dispatch sha product cx ticket re ow now = Inr ow'"
  shows "sound_change sha rt ow ow' \<or> ow' = ow"
proof (cases "ow' = ow")
  case False
  with finish_dispatchD [OF c b] obtain e where e: "effect_of ow ticket e" "ef_state e = EDispatched"
    and r: "receipt_step product re ow ticket e ow'" by blast
  from r have "sound_change sha rt ow ow'"
  proof cases
    case (unpaid u i)
    with sound_receipt_unpaid [OF b e] show ?thesis by simp
  next
    case (known d u h a i)
    with sound_receipt_known [OF b e] show ?thesis by simp
  next
    case (settled d u h a a' d' x i)
    with sound_receipt_settled [OF b e, of u d h a a' d' re rt product i] show ?thesis by simp
  qed
  then show ?thesis ..
qed simp

end
