(* ===== verification/Wf_Retire.thy ===== *)
theory Wf_Retire
  imports Wf_Settle
begin

text \<open>
  Forgetting: the compaction of a finished operation into its account, and the retirement of runs
  past the recovery horizon with the admission of a new one.
\<close>

section \<open>Compacting one effect\<close>

lemma rewrite_rewrite [simp]: "rewrite (rewrite ow run h d) run h' d' = rewrite ow run h' d'"
  by (simp add: rewrite_def update_last)

lemma effect_of_delete:
  "effect_of (rewrite ow run h (AList.delete k (ao_effects ow))) j f \<longleftrightarrow> j \<noteq> k \<and> effect_of ow j f"
  by (auto simp: effect_of_def rewrite_def map_of_delete)

lemma sums_delete:
  assumes "books sha ow" "effect_of ow k e"
  shows "spent (rewrite ow run h (AList.delete k (ao_effects ow))) r p = spent ow r p - charge r p e"
    "claimed (rewrite ow run h (AList.delete k (ao_effects ow))) r = claimed ow r - one_if_mine r e"
  using assms booksD(2) [OF assms(1)] by (simp_all add: rewrite_def fsum_delete effect_of_def)

definition folds :: "run_money \<Rightarrow> int \<Rightarrow> run_money \<Rightarrow> bool" where
  "folds a amount a' \<longleftrightarrow> run_money_ok a'
     \<and> a' = a\<lparr>ma_compacted := ma_compacted a + amount,
            ma_compactedReservations := ma_compactedReservations a + 1, ma_revision := ma_revision a + 1\<rparr>"

text \<open>The account after folding in a settled dispatch that leaves the effects.\<close>

lemma tallied_delete:
  assumes b: "books sha ow" and e: "effect_of ow k e"
    and t: "tallied ow run acc"
    and c: "if mine run e \<and> acc \<noteq> None
      then (\<exists>a d a'. acc = Some a \<and> acc' = Some a' \<and> ef_money e = Some d \<and> dm_phase d = MSettled \<and> folds a (dm_charged d) a')
      else acc' = acc"
  shows "tallied (rewrite ow run h (AList.delete k (ao_effects ow))) run acc'"
proof -
  let ?o = "rewrite ow run h (AList.delete k (ao_effects ow))"
  have own: "owns ?o run j f \<longleftrightarrow> j \<noteq> k \<and> owns ow run j f" for j f
    unfolding owns_def effect_of_delete by auto
  have ops: "claims_op ?o run j opn \<longleftrightarrow> j \<noteq> k \<and> claims_op ow run j opn" for j opn
    by (auto simp: claims_op_def own)
  show ?thesis
  proof (cases "mine run e \<and> acc \<noteq> None")
    case True
    with c obtain a d a' where a: "acc = Some a" "acc' = Some a'" "ef_money e = Some d" "dm_phase d = MSettled"
      "folds a (dm_charged d) a'" by auto
    have f: "ma_settled a' = ma_settled a" "ma_held a' = ma_held a" "ma_unknown a' = ma_unknown a"
      "ma_compacted a' = ma_compacted a + dm_charged d" "ma_reservations a' = ma_reservations a"
      "ma_compactedReservations a' = ma_compactedReservations a + 1" "ma_budgetId a' = ma_budgetId a"
      using a(5) by (simp_all add: folds_def)
    have bk: "backed a' f = backed a f" for f using f by (simp add: backed_def cong: option.case_cong)
    have ch: "charge run p e = (if p MSettled then dm_charged d else 0)" "one_if_mine run e = 1" for p
      using True a by (simp_all add: charge_def one_if_mine_def)
    have sm: "ma_settled a = ma_compacted a + spent ow run (\<lambda>p. p = MSettled)"
      "ma_held a = spent ow run (\<lambda>p. p \<noteq> MSettled)" "ma_unknown a = spent ow run (\<lambda>p. p = MUnknown)"
      "ma_reservations a = ma_compactedReservations a + claimed ow run"
      and all: "\<forall>j j' opn. claims_op ow run j opn \<and> claims_op ow run j' opn \<longrightarrow> j = j'"
        "\<forall>j f. owns ow run j f \<longrightarrow> backed a f"
      using t unfolding a(1) tallied_def option.case by blast+
    have "\<forall>j j' opn. claims_op ?o run j opn \<and> claims_op ?o run j' opn \<longrightarrow> j = j'"
      using all(1) unfolding ops by blast
    moreover have "\<forall>j f. owns ?o run j f \<longrightarrow> backed a' f" using all(2) unfolding own bk by blast
    moreover have "ma_settled a' = ma_compacted a' + spent ?o run (\<lambda>p. p = MSettled)"
      "ma_held a' = spent ?o run (\<lambda>p. p \<noteq> MSettled)" "ma_unknown a' = spent ?o run (\<lambda>p. p = MUnknown)"
      "ma_reservations a' = ma_compactedReservations a' + claimed ?o run"
      unfolding sums_delete [OF b e] f ch sm by simp_all
    ultimately show ?thesis unfolding a(2) tallied_def option.case by blast
  next
    case False
    then have acc': "acc' = acc" using c by simp
    show ?thesis
    proof (cases acc)
      case None
      with t show ?thesis unfolding acc' tallied_def own by auto
    next
      case (Some a)
      with False have "\<not> mine run e" by simp
      then have z: "charge run p e = 0" "one_if_mine run e = 0" for p by (simp_all add: charge_def one_if_mine_def)
      have "\<forall>j j' opn. claims_op ow run j opn \<and> claims_op ow run j' opn \<longrightarrow> j = j'"
        "\<forall>j f. owns ow run j f \<longrightarrow> backed a f"
        and sm: "ma_settled a = ma_compacted a + spent ow run (\<lambda>p. p = MSettled)"
        "ma_held a = spent ow run (\<lambda>p. p \<noteq> MSettled)" "ma_unknown a = spent ow run (\<lambda>p. p = MUnknown)"
        "ma_reservations a = ma_compactedReservations a + claimed ow run"
        using t unfolding Some tallied_def option.case by blast+
      then have "\<forall>j j' opn. claims_op ?o run j opn \<and> claims_op ?o run j' opn \<longrightarrow> j = j'"
        "\<forall>j f. owns ?o run j f \<longrightarrow> backed a f" unfolding ops own by blast+
      moreover have "ma_settled a = ma_compacted a + spent ?o run (\<lambda>p. p = MSettled)"
        "ma_held a = spent ?o run (\<lambda>p. p \<noteq> MSettled)" "ma_unknown a = spent ?o run (\<lambda>p. p = MUnknown)"
        "ma_reservations a = ma_compactedReservations a + claimed ?o run"
        unfolding sums_delete [OF b e] z sm by simp_all
      ultimately show ?thesis unfolding acc' Some tallied_def option.case by blast
    qed
  qed
qed

text \<open>What one turn of the loop does to the run.\<close>

definition compacts :: "run_handle \<Rightarrow> run_handle \<Rightarrow> bool" where
  "compacts h h' \<longleftrightarrow> (\<exists>m. h' = h\<lparr>rh_money := m\<rparr>) \<and> handle_ok h' \<and> handle_may_become h h'"

lemma handle_may_refl [simp]: "handle_may_become h h"
  by (simp add: handle_may_become_def split: option.split)

lemma account_trans:
  "account_may_become h a h1 a1 \<Longrightarrow> account_may_become h1 a1 h2 a2 \<Longrightarrow> account_may_become h a h2 a2"
  by (auto simp: account_may_become_def)

lemma handle_may_trans: "handle_may_become h h1 \<Longrightarrow> handle_may_become h1 h2 \<Longrightarrow> handle_may_become h h2"
  by (auto simp: handle_may_become_def split: option.splits intro: account_trans)

lemma compact_turn:
  assumes b: "books sha ow" and h: "run_of ow run h" and e: "effect_of ow k e" "compactible run opn e"
    and c: "compact_money ow e = Inr ow1"
  shows "\<exists>h'. ow1\<lparr>ao_effects := AList.delete k (ao_effects ow1)\<rparr> = rewrite ow run h' (AList.delete k (ao_effects ow))
    \<and> compacts h h' \<and> books sha (rewrite ow run h' (AList.delete k (ao_effects ow)))
    \<and> (\<forall>d. ef_money e = Some d \<longrightarrow> dm_phase d = MSettled)"
proof -
  have kept: "run_kept sha ow run h" using b h by (rule booksD)
  then have hid: "rh_runId h = run" and hok: "handle_ok h" and sc: "scoped sha ow h"
    and tal: "tallied ow run (rh_money h)" and q: "quiet ow h" by (auto simp: run_kept_def)
  have run: "ef_runId e = run" using e(2) by (simp add: compactible_def)
  have ek: "effect_kept ow k e" using b e(1) by (rule booksD)
  have d: "distinct (map fst (ao_effects ow))" using b by (rule booksD)
  have rw: "books sha (rewrite ow run h' (AList.delete k (ao_effects ow)))"
    if h': "compacts h h'" "scoped sha ow h'" "tallied (rewrite ow run h' (AList.delete k (ao_effects ow))) run (rh_money h')"
    for h'
  proof (rule books_rewrite [OF b h _ _ h'(2) _ _ _ _ h'(3)])
    show "rh_runId h' = run" "handle_ok h'" "rh_active h' \<longrightarrow> rh_active h"
      using h'(1) hid by (auto simp: compacts_def)
    show "distinct (map fst (AList.delete k (ao_effects ow)))" using d by (rule distinct_delete)
    show "others_alone run (ao_effects ow) (AList.delete k (ao_effects ow))"
      using d e(1) run by (intro others_alone_delete) (auto simp: effect_of_def)
    show "effect_kept ow j f" if "map_of (AList.delete k (ao_effects ow)) j = Some f" for j f
      using that booksD(5) [OF b] by (auto simp: map_of_delete effect_of_def split: if_splits)
    show "quiet (rewrite ow run h' (AList.delete k (ao_effects ow))) h'"
      using q h'(1) unfolding quiet_def effect_of_delete by (auto simp: compacts_def)
  qed
  have put: "ow\<lparr>ao_effects := AList.delete k (ao_effects ow)\<rparr> = rewrite ow run h (AList.delete k (ao_effects ow))"
  proof -
    have "AList.update run h dd = dd" if "map_of dd run = Some h" for dd :: "(string, run_handle) dict"
      using that by (induction dd) (auto split: if_splits)
    then show ?thesis using h by (simp add: rewrite_def run_of_def)
  qed
  show ?thesis
  proof (cases "ef_money e")
    case None
    then have ow1: "ow1 = ow" using c by (simp add: compact_money_def)
    have "\<not> (mine run e \<and> rh_money h \<noteq> None)"
      using tal e(1) None by (force simp: tallied_def owns_def backed_def split: option.splits)
    then have "tallied (rewrite ow run h (AList.delete k (ao_effects ow))) run (rh_money h)"
      by (intro tallied_delete [OF b e(1) tal]) auto
    then have "books sha (rewrite ow run h (AList.delete k (ao_effects ow)))"
      using hok sc by (intro rw) (auto simp: compacts_def intro: exI [of _ "rh_money h"])
    then show ?thesis using None put hok by (auto simp: ow1 compacts_def intro!: exI [of _ h] exI [of _ "rh_money h"])
  next
    case (Some dm)
    have m: "mine run e" using ek Some run by (simp add: effect_kept_def mine_def)
    from c Some h run obtain a a' where a: "rh_money h = Some a" "dm_phase dm = MSettled" "folds a (dm_charged dm) a'"
      and ow1: "ow1 = put_run ow run (h\<lparr>rh_money := Some a'\<rparr>)"
      by (auto simp: compact_money_def the_run_def run_of_def bindE_Inr_iff updated_account_Inr folds_def
          split: option.splits if_splits)
    have "0 \<le> dm_charged dm" using ek Some by (simp add: effect_kept_def effect_ok_def dispatch_money_ok_def count_ok_def)
    then have "account_may_become h a (h\<lparr>rh_money := Some a'\<rparr>) a'" using a(3) by (simp add: account_may_become_def folds_def)
    then have cm: "compacts h (h\<lparr>rh_money := Some a'\<rparr>)"
      using hok a by (auto simp: compacts_def handle_may_become_def handle_ok_def folds_def)
    have "scoped sha ow (h\<lparr>rh_money := Some a'\<rparr>)" using sc a by (simp add: scoped_def folds_def)
    moreover have "tallied (rewrite ow run (h\<lparr>rh_money := Some a'\<rparr>) (AList.delete k (ao_effects ow))) run (Some a')"
      using m a Some by (intro tallied_delete [OF b e(1) tal]) auto
    ultimately have "books sha (rewrite ow run (h\<lparr>rh_money := Some a'\<rparr>) (AList.delete k (ao_effects ow)))"
      using cm by (intro rw) simp_all
    then show ?thesis
      using cm a(2) Some by (intro exI [of _ "h\<lparr>rh_money := Some a'\<rparr>"]) (simp add: ow1 put_run_def rewrite_def)
  qed
qed

section \<open>Compacting an operation\<close>

text \<open>Along the loop: the handle moved on, and an effect is as it was or was compactible and is gone.\<close>

lemma update_same: "map_of d k = Some v \<Longrightarrow> AList.update k v d = d"
  by (induction d) (auto split: if_splits)

definition compacts_to ::
  "string \<Rightarrow> string \<Rightarrow> run_owner \<Rightarrow> (string, usage_record effect_intent) dict \<Rightarrow> bool" where
  "compacts_to run opn ow d' \<longleftrightarrow> (\<forall>k e. effect_of ow k e \<longrightarrow> map_of d' k = Some e
       \<or> (map_of d' k = None \<and> compactible run opn e \<and> (\<forall>d. ef_money e = Some d \<longrightarrow> dm_phase d = MSettled)))
     \<and> (\<forall>k. map_of (ao_effects ow) k = None \<longrightarrow> map_of d' k = None)"

lemma compact_effects_run:
  assumes "books sha ow" "run_of ow run h" "distinct (map fst es)"
    "\<forall>(k, e) \<in> set es. effect_of ow k e \<and> compactible run opn e" "compact_effects es ow = Inr ow'"
  shows "\<exists>h' d'. ow' = rewrite ow run h' d' \<and> handle_may_become h h' \<and> rh_operationFloor h' = rh_operationFloor h
    \<and> books sha ow' \<and> compacts_to run opn ow d'"
  using assms
proof (induction es arbitrary: ow h)
  case Nil
  then have "ow = rewrite ow run h (ao_effects ow)" by (simp add: rewrite_def run_of_def update_same)
  then show ?case using Nil.prems(1,5)
    by (intro exI [of _ h] exI [of _ "ao_effects ow"]) (auto simp: effect_of_def compacts_to_def)
next
  case (Cons p es)
  obtain k e where p: "p = (k, e)" by fastforce
  then have e: "effect_of ow k e" "compactible run opn e" using Cons.prems(4) by auto
  from Cons.prems(5) p obtain ow1 where c: "compact_money ow e = Inr ow1"
    and rest: "compact_effects es (ow1\<lparr>ao_effects := AList.delete k (ao_effects ow1)\<rparr>) = Inr ow'"
    by (auto simp: bindE_Inr_iff)
  let ?d = "AList.delete k (ao_effects ow)"
  from compact_turn [OF Cons.prems(1,2) e c] obtain h1 where
    o1: "ow1\<lparr>ao_effects := AList.delete k (ao_effects ow1)\<rparr> = rewrite ow run h1 ?d"
    and h1: "compacts h h1" and b1: "books sha (rewrite ow run h1 ?d)"
    and ph: "\<forall>d. ef_money e = Some d \<longrightarrow> dm_phase d = MSettled" by blast
  let ?o1 = "rewrite ow run h1 ?d"
  have "run_of ?o1 run h1" by (simp add: run_of_def rewrite_def map_of_update)
  moreover have "\<forall>(j, f) \<in> set es. effect_of ?o1 j f \<and> compactible run opn f"
    using Cons.prems(3,4) p unfolding effect_of_delete by (auto simp: image_iff)
  moreover have "distinct (map fst es)" using Cons.prems(3) by simp
  moreover have "compact_effects es ?o1 = Inr ow'" using rest o1 by simp
  ultimately obtain h' d' where ih: "ow' = rewrite ?o1 run h' d'" "handle_may_become h1 h'"
    "rh_operationFloor h' = rh_operationFloor h1" "books sha ow'" "compacts_to run opn ?o1 d'"
    using Cons.IH [OF b1, of h1] by blast
  have "compacts_to run opn ow d'"
    unfolding compacts_to_def
  proof (intro conjI allI impI)
    fix j f assume f: "effect_of ow j f"
    show "map_of d' j = Some f \<or> (map_of d' j = None \<and> compactible run opn f \<and> (\<forall>d. ef_money f = Some d \<longrightarrow> dm_phase d = MSettled))"
    proof (cases "j = k")
      case True
      moreover have "map_of (ao_effects ?o1) k = None" by (simp add: rewrite_def map_of_delete)
      ultimately show ?thesis using f e ph ih(5) by (auto simp: effect_of_def compacts_to_def)
    next
      case False
      with f have "effect_of ?o1 j f" by (simp add: effect_of_delete)
      with ih(5) show ?thesis by (simp add: compacts_to_def)
    qed
  next
    fix j assume "map_of (ao_effects ow) j = None"
    then show "map_of d' j = None" using ih(5) by (simp add: compacts_to_def rewrite_def map_of_delete)
  qed
  moreover have "handle_may_become h h'" using h1 ih(2) by (auto simp: compacts_def intro: handle_may_trans)
  moreover have "rh_operationFloor h' = rh_operationFloor h" using h1 ih(3) by (auto simp: compacts_def)
  moreover have "ow' = rewrite ow run h' d'" using ih(1) by simp
  ultimately show ?case using ih(4) by blast
qed

lemma sound_floor:
  assumes b: "books sha ow" and c: "floor_effects run opn number ow now = Inr ow'"
    and new: "\<And>h. run_of ow run h \<Longrightarrow> rh_operationFloor h < number"
  shows "sound_change sha rt ow ow'"
proof -
  from c obtain h where h: "run_of ow run h"
    by (auto simp: floor_effects_def the_run_def run_of_def split: option.splits)
  let ?h = "h\<lparr>rh_operationFloor := max (rh_operationFloor h) number\<rparr>"
  let ?o = "put_run ow run ?h" and ?es = "filter (\<lambda>(k, e). compactible run opn e) (ao_effects ow)"
  have kept: "run_kept sha ow run h" using b h by (rule booksD)
  have "sound_change sha rt ow ?o"
    using kept by (intro sound_handle [OF b h]) (auto simp: same_handle_def handle_ok_def run_kept_def quiet_def)
  then have b0: "books sha ?o" by (simp add: sound_change_def)
  have d: "distinct (map fst (ao_effects ow))" using b by (rule booksD)
  have "run_of ?o run ?h" by (simp add: run_of_def put_run_def map_of_update)
  moreover have "distinct (map fst ?es)" using d by (rule distinct_keys_filter)
  moreover have "\<forall>(k, e) \<in> set ?es. effect_of ?o k e \<and> compactible run opn e"
    using d by (auto simp: effect_of_def put_run_def)
  moreover have "compact_effects ?es ?o = Inr ow'"
    using c h by (simp add: floor_effects_def the_run_def run_of_def)
  ultimately obtain h' d' where ow': "ow' = rewrite ?o run h' d'" and h': "handle_may_become ?h h'"
    "rh_operationFloor h' = rh_operationFloor ?h" and b': "books sha ow'" and t: "compacts_to run opn ?o d'"
    using compact_effects_run [OF b0] by blast
  have o': "ow' = rewrite ow run h' d'" unfolding ow' put_run_rewrite by simp
  have "handle_may_become h ?h"
    by (auto simp: handle_may_become_def account_may_become_def split: option.split)
  then have hm: "handle_may_become h h'" using h'(1) by (rule handle_may_trans)
  have "fenced rt ow (rewrite ow run h' d')"
  proof (rule fenced_rewrite [OF b h hm])
    fix k e assume e: "effect_of ow k e" "map_of d' k \<noteq> Some e"
    then have "map_of d' k = None" "compactible run opn e" "\<forall>d. ef_money e = Some d \<longrightarrow> dm_phase d = MSettled"
      using t by (auto simp: compacts_to_def effect_of_def put_run_def)
    then show "effect_may_become ow (rewrite ow run h' d') (k, e) = Inr ()"
      using h new [OF h] h'(2)
      by (auto simp: effect_may_become_def rewrite_def map_of_update compactible_def run_of_def split: option.split)
  qed
  with b' o' show ?thesis by (simp add: sound_change_def)
qed

section \<open>Retiring runs\<close>

definition retires :: "(string \<Rightarrow> int) \<Rightarrow> run_owner \<Rightarrow> int \<Rightarrow> string \<Rightarrow> bool" where
  "retires rt ow floor run \<longleftrightarrow> (\<exists>h. run_of ow run h \<and> can_retire_run rt ow h floor)"

lemma removable_runs_iff:
  "distinct (map fst (ao_runs ow)) \<Longrightarrow> run \<in> set (removable_runs rt ow floor) \<longleftrightarrow> retires rt ow floor run"
  by (force simp: removable_runs_def retires_def run_of_def)

text \<open>What is left after the runs behind a floor are gone.\<close>

definition swept :: "(string \<Rightarrow> int) \<Rightarrow> int \<Rightarrow> run_owner \<Rightarrow> run_owner \<Rightarrow> bool" where
  "swept rt floor ow v \<longleftrightarrow> ao_id v = ao_id ow \<and> ao_userId v = ao_userId ow \<and> ao_epoch v = ao_epoch ow
     \<and> ao_recordKind v = ao_recordKind ow \<and> ao_requestFloor v = max (ao_requestFloor ow) floor
     \<and> distinct (map fst (ao_runs v)) \<and> distinct (map fst (ao_effects v))
     \<and> (\<forall>k h. run_of v k h \<longleftrightarrow> run_of ow k h \<and> \<not> retires rt ow floor k)
     \<and> (\<forall>k e. effect_of v k e \<longleftrightarrow> effect_of ow k e \<and> \<not> retires rt ow floor (ef_runId e))"

lemma compactD:
  assumes b: "books sha ow" and c: "compact sha rt ow now = Inr v"
  shows "swept rt (now - HORIZON_MICROS) ow v"
    "v = ow\<lparr>ao_runs := filter (\<lambda>(k, h). \<not> retires rt ow (now - HORIZON_MICROS) k) (ao_runs ow),
        ao_effects := filter (\<lambda>(k, e). \<not> retires rt ow (now - HORIZON_MICROS) (ef_runId e)) (ao_effects ow),
        ao_requestFloor := max (ao_requestFloor ow) (now - HORIZON_MICROS)\<rparr>" (is "_ = ?v")
proof -
  show v: "v = ?v"
    using c removable_runs_iff [OF booksD(1) [OF b]]
    by (simp add: compact_def Let_def owner_validated_def bindE_Inr_iff)
  show "swept rt (now - HORIZON_MICROS) ow v"
    unfolding v using booksD(1,2) [OF b]
    by (auto simp: swept_def run_of_def effect_of_def map_of_filter_keys distinct_keys_filter
        simp del: map_of_eq_Some_iff split: option.splits)
qed

text \<open>An effect of a run that retires is complete and delivered, and a capped one is settled.\<close>

lemma retired_effect:
  assumes b: "books sha ow" and e: "effect_of ow k e" and r: "retires rt ow floor (ef_runId e)"
  shows "ef_state e = EComplete \<and> (ef_usage e = None \<or> ef_delivered e)"
    "ef_money e = Some d \<Longrightarrow> dm_phase d = MSettled"
proof -
  obtain h where h: "run_of ow (ef_runId e) h" "can_retire_run rt ow h floor" using r by (auto simp: retires_def)
  have kept: "run_kept sha ow (ef_runId e) h" using b h(1) by (rule booksD)
  have "e \<in> set (run_effects ow (rh_runId h))"
    using e kept by (force simp: run_effects_def run_kept_def effect_of_def dest: map_of_SomeD)
  with h(2) show s: "ef_state e = EComplete \<and> (ef_usage e = None \<or> ef_delivered e)"
    by (auto simp: can_retire_run_def list_all_iff)
  show "dm_phase d = MSettled" if paid: "ef_money e = Some d"
  proof -
    have "owns ow (ef_runId e) k e"
      using booksD(5) [OF b e] e paid by (simp add: effect_kept_def owns_def mine_def)
    moreover obtain a where "rh_money h = Some a" "\<forall>j f. owns ow (ef_runId e) j f \<longrightarrow> backed a f"
    proof (cases "rh_money h")
      case None
      then have "\<forall>j f. owns ow (ef_runId e) j f \<longrightarrow> ef_money f = None" using kept by (simp add: run_kept_def tallied_def)
      with calculation paid show ?thesis by auto
    next
      case (Some a)
      then have "tallied ow (ef_runId e) (Some a)" using kept by (simp add: run_kept_def)
      then show ?thesis using Some unfolding tallied_def option.case by (intro that) blast+
    qed
    ultimately have "backed a e" by blast
    with paid s show ?thesis by (auto simp: backed_def split: if_splits)
  qed
qed

lemma swept_owns: "swept rt floor ow v \<Longrightarrow> \<not> retires rt ow floor run \<Longrightarrow> owns v run k e = owns ow run k e"
  by (auto simp: swept_def owns_def mine_def)

lemma compact_tallied:
  assumes b: "books sha ow" and c: "compact sha rt ow now = Inr v" and r: "\<not> retires rt ow (now - HORIZON_MICROS) run"
  shows "tallied v run acc = tallied ow run acc"
proof (rule tallied_eq)
  note v = compactD [OF b c]
  show "owns v run k e = owns ow run k e" for k e using swept_owns [OF v(1) r] .
  show "spent v run p = spent ow run p" for p
    unfolding v(2) by simp (rule fsum_filter, use r in \<open>auto simp: charge_def mine_def\<close>)
  show "claimed v run = claimed ow run"
    unfolding v(2) by simp (rule fsum_filter, use r in \<open>auto simp: one_if_mine_def mine_def\<close>)
qed

lemma compact_books:
  assumes b: "books sha ow" and c: "compact sha rt ow now = Inr v"
  shows "books sha v"
proof -
  let ?f = "now - HORIZON_MICROS"
  note v = compactD [OF b c]
  have ids: "ao_userId v = ao_userId ow" "ao_epoch v = ao_epoch ow"
    and runs: "\<And>k h. run_of v k h \<longleftrightarrow> run_of ow k h \<and> \<not> retires rt ow ?f k"
    and effs: "\<And>k e. effect_of v k e \<longleftrightarrow> effect_of ow k e \<and> \<not> retires rt ow ?f (ef_runId e)"
    and dist: "distinct (map fst (ao_runs v))" "distinct (map fst (ao_effects v))"
    using v(1) by (auto simp: swept_def)
  have "active_runs v \<le> active_runs ow"
  proof -
    have "fsum (\<lambda>h. if rh_active h then 1 else 0) (filter p d) \<le> fsum (\<lambda>h. if rh_active h then 1 else 0) d"
      for p and d :: "(string, run_handle) dict"
      by (induction d) auto
    then show ?thesis by (simp add: active_runs_def v(2))
  qed
  then have "active_runs v \<le> int MAX_ACTIVE_RUNS" using booksD(3) [OF b] by simp
  moreover have "run_kept sha v k h" if "run_of v k h" for k h
  proof -
    have h: "run_of ow k h" "\<not> retires rt ow ?f k" using that runs by auto
    have kept: "run_kept sha ow k h" using b h(1) by (rule booksD)
    have "tallied v (rh_runId h) (rh_money h)"
      using kept h(2) compact_tallied [OF b c, of "rh_runId h" "rh_money h"] by (auto simp: run_kept_def)
    moreover have "quiet v h" using kept effs by (auto simp: run_kept_def quiet_def)
    moreover have "scoped sha v h" using kept by (simp add: run_kept_def scoped_def ids cong: option.case_cong)
    ultimately show ?thesis using kept by (simp add: run_kept_def)
  qed
  moreover have "effect_kept v k e" if "effect_of v k e" for k e
  proof -
    have e: "effect_of ow k e" "\<not> retires rt ow ?f (ef_runId e)" using that effs by auto
    have kept: "effect_kept ow k e" using b e(1) by (rule booksD)
    then obtain h where "run_of ow (ef_runId e) h" by (auto simp: effect_kept_def run_of_def)
    with e(2) runs have "run_of v (ef_runId e) h" by simp
    with kept show ?thesis by (auto simp: effect_kept_def run_of_def ids split: option.splits)
  qed
  ultimately show ?thesis using dist by (auto simp: books_def)
qed

text \<open>A write that sweeps, and perhaps adds a run whose identity was not among those swept.\<close>

lemma compact_fenced:
  assumes b: "books sha ow" and c: "compact sha rt ow now = Inr v"
    and w: "ao_effects w = ao_effects v" "ao_id w = ao_id v" "ao_userId w = ao_userId v" "ao_epoch w = ao_epoch v"
      "ao_recordKind w = ao_recordKind v" "ao_requestFloor w = ao_requestFloor v"
      "\<And>k h. run_of ow k h \<Longrightarrow> map_of (ao_runs w) k = map_of (ao_runs v) k"
  shows "fenced rt ow w"
proof -
  let ?f = "now - HORIZON_MICROS"
  have sw: "swept rt ?f ow v" using b c by (rule compactD)
  have "run_may_become rt ow w (k, h) = Inr ()" if h: "run_of ow k h" for k h
  proof (cases "retires rt ow ?f k")
    case True
    then have "can_retire_run rt ow h ?f" using h by (auto simp: retires_def run_of_def)
    then have "can_retire_run rt ow h (ao_requestFloor w)" using sw w(6) by (auto simp: can_retire_run_def swept_def)
    moreover have "map_of (ao_runs w) k = None"
      using sw True w(7) [OF h] by (cases "map_of (ao_runs v) k") (auto simp: swept_def run_of_def)
    ultimately show ?thesis by (simp add: run_may_become_def split: option.split)
  next
    case False
    with h sw have "run_of v k h" by (simp add: swept_def)
    with w(7) [OF h] have "run_of w k h" by (simp add: run_of_def)
    then show ?thesis by (rule run_unchanged)
  qed
  moreover have "effect_may_become ow w (k, e) = Inr ()" if e: "effect_of ow k e" for k e
  proof (cases "retires rt ow ?f (ef_runId e)")
    case True
    then obtain h where h: "run_of ow (ef_runId e) h" by (auto simp: retires_def)
    have "map_of (ao_runs w) (ef_runId e) = None"
      using sw True w(7) [OF h] by (cases "map_of (ao_runs v) (ef_runId e)") (auto simp: swept_def run_of_def)
    moreover have "map_of (ao_effects w) k = None"
      using sw True w(1) e by (cases "map_of (ao_effects w) k") (auto simp: swept_def effect_of_def)
    ultimately show ?thesis
      using retired_effect [OF b e True] by (auto simp: effect_may_become_def split: option.split)
  next
    case False
    with e sw w(1) have "effect_of w k e" by (simp add: swept_def effect_of_def)
    then show ?thesis by (rule effect_unchanged)
  qed
  ultimately have "validate_money_transition rt ow w = Inr ()"
    using validate_iff [OF booksD(1,2) [OF b]] by blast
  then show ?thesis using sw w by (simp add: fenced_def swept_def)
qed

lemma sound_compact:
  assumes "books sha ow" "compact sha rt ow now = Inr v"
  shows "sound_change sha rt ow v"
  using compact_books [OF assms] compact_fenced [OF assms] by (simp add: sound_change_def)

section \<open>Admission\<close>

lemma books_new_run:
  assumes b: "books sha v" and fresh: "map_of (ao_runs v) run = None"
    and room: "active_runs v < int MAX_ACTIVE_RUNS"
    and h: "rh_runId h = run" "handle_ok h" "scoped sha v h" "rh_active h"
      "\<forall>a. rh_money h = Some a \<longrightarrow> ma_settled a = 0 \<and> ma_held a = 0 \<and> ma_unknown a = 0 \<and> ma_compacted a = 0
         \<and> ma_compactedReservations a = 0 \<and> ma_reservations a = 0"
  shows "books sha (put_run v run h)"
proof -
  let ?o = "put_run v run h"
  have runs: "run_of ?o k g \<longleftrightarrow> (if k = run then g = h else run_of v k g)" for k g
    by (auto simp: run_of_def put_run_def map_of_update)
  have effs: "effect_of ?o k e = effect_of v k e" "ao_effects ?o = ao_effects v" for k e
    by (simp_all add: effect_of_def put_run_def)
  have none: "ef_runId e \<noteq> run" if "effect_of v k e" for k e
    using booksD(5) [OF b that] fresh by (auto simp: effect_kept_def)
  have "tallied ?o run (rh_money h)"
  proof -
    have "\<not> owns ?o run k e" for k e using none by (auto simp: owns_def effs mine_def)
    moreover have "spent ?o run p = 0" "claimed ?o run = 0" for p
      unfolding effs using none booksD(2) [OF b]
      by (auto intro!: fsum_zero not_mine simp: effect_of_def)
    ultimately show ?thesis using h(5) by (auto simp: tallied_def claims_op_def split: option.split)
  qed
  then have new: "run_kept sha ?o run h"
    using h by (simp add: run_kept_def quiet_def scoped_def put_run_def cong: option.case_cong)
  have "active_runs ?o \<le> int MAX_ACTIVE_RUNS"
    using room fresh booksD(1) [OF b] h(4) by (simp add: active_runs_def put_run_def fsum_update)
  moreover have "run_kept sha ?o k g" if "run_of ?o k g" for k g
  proof (cases "k = run")
    case False
    then have kept: "run_kept sha v k g" using that runs b by (simp add: booksD)
    moreover have "tallied ?o (rh_runId g) (rh_money g) = tallied v (rh_runId g) (rh_money g)"
      by (rule tallied_cong) (simp add: put_run_def)
    moreover have "scoped sha ?o g = scoped sha v g" by (simp add: scoped_def put_run_def cong: option.case_cong)
    ultimately show ?thesis by (simp add: run_kept_def quiet_def effs)
  qed (use that runs new in simp)
  moreover have "effect_kept ?o k e" if "effect_of ?o k e" for k e
  proof -
    have "effect_kept v k e" using booksD(5) [OF b] that effs by simp
    then show ?thesis by (auto simp: effect_kept_def put_run_def map_of_update split: option.splits)
  qed
  moreover have "distinct (map fst (ao_runs ?o))" "distinct (map fst (ao_effects ?o))"
    using booksD(1,2) [OF b] by (simp_all add: put_run_def)
  ultimately show ?thesis by (auto simp: books_def)
qed

lemma sound_claim_run:
  assumes b: "books sha ow" and c: "claim_run sha rt an ow now = Inr ow'"
    and owner: "an_executionOwner an = ao_userId ow"
    and key: "\<And>h. run_of ow (an_runId an) h \<Longrightarrow> rt (rh_idempotencyKey h) = an_issued an"
  shows "sound_change sha rt ow ow'"
proof -
  let ?f = "now - HORIZON_MICROS"
  from c obtain v where v: "compact sha rt ow now = Inr v" by (auto simp: claim_run_def bindE_Inr_iff)
  have bv: "books sha v" using b v by (rule compact_books)
  have sw: "swept rt ?f ow v" using b v by (rule compactD)
  show ?thesis
  proof (cases "map_of (ao_runs v) (an_runId an)")
    case (Some g)
    with c v have "ow' = v" by (auto simp: claim_run_def bindE_Inr_iff split: if_splits)
    with sound_compact [OF b v] show ?thesis by simp
  next
    case None
    with c v obtain money h where live: "\<not> an_issued an < ao_requestFloor v"
      "length (filter (\<lambda>(k, h). rh_active h) (ao_runs v)) < MAX_ACTIVE_RUNS"
      and m: "(case an_maxSpend an of None \<Rightarrow> Inr None
                | Some lim \<Rightarrow> bindE (budget_identity sha (an_executionOwner an) (ao_epoch v) (an_runId an)
                      (an_fingerprint an) lim) (\<lambda>b. bindE (new_money b lim) (\<lambda>m. Inr (Some m)))) = Inr money"
      and h: "handle_ok h" "rh_runId h = an_runId an" "rh_active h" "rh_money h = money"
        "rh_fingerprint h = an_fingerprint an"
      and ow': "ow' = put_run v (an_runId an) h"
      by (auto simp: claim_run_def bindE_Inr_iff mk_handle_def split: if_splits)
    have not_old: "\<not> run_of ow (an_runId an) g" for g
    proof
      assume g: "run_of ow (an_runId an) g"
      have "\<not> run_of v (an_runId an) g" using None by (simp add: run_of_def)
      with g sw have "retires rt ow ?f (an_runId an)" unfolding swept_def by blast
      then obtain g' where "run_of ow (an_runId an) g'" "can_retire_run rt ow g' ?f" by (auto simp: retires_def)
      with key [OF g] g have "an_issued an < ?f" by (simp add: run_of_def can_retire_run_def)
      with live(1) sw show False by (simp add: swept_def)
    qed
    have ids: "ao_userId v = ao_userId ow" "ao_epoch v = ao_epoch ow" using sw by (auto simp: swept_def)
    have "scoped sha v h"
      using m h owner by (auto simp: scoped_def ids bindE_Inr_iff new_money_def split: option.splits)
    moreover have "\<forall>a. rh_money h = Some a \<longrightarrow> ma_settled a = 0 \<and> ma_held a = 0 \<and> ma_unknown a = 0 \<and> ma_compacted a = 0
         \<and> ma_compactedReservations a = 0 \<and> ma_reservations a = 0"
      using m h(4) by (auto simp: bindE_Inr_iff new_money_def split: option.splits)
    ultimately have "books sha ow'"
      unfolding ow' using h live(2) active_runs_length [of v] by (intro books_new_run [OF bv None]) auto
    moreover have "fenced rt ow ow'"
      unfolding ow' by (rule compact_fenced [OF b v]) (auto simp: put_run_def map_of_update not_old)
    ultimately show ?thesis by (simp add: sound_change_def)
  qed
qed

end
