(* ===== verification/Wf_Safety.thy ===== *)
theory Wf_Safety
  imports Wf_Retire
begin

text \<open>
  The changes of the owner document as one type, the facts of its caller each rests on, and that
  every change keeps the books: what a change writes is a document the validator accepts and the
  fence of a write passes.
\<close>

section \<open>The changes\<close>

datatype owner_change =
    CClaim admission
  | CFence string
  | CFinish string
  | CDeliver string usage_record
  | CReserve run_ctx string string int bool string
  | CDispatchOp run_ctx string string
  | CFinishOp string bool string
  | CFloor string string int
  | CEgress run_ctx egress
  | CRefuse run_ctx string string string
  | CReceipt run_ctx string receipt

fun apply_change ::
  "(string \<Rightarrow> string) \<Rightarrow> (string \<Rightarrow> int) \<Rightarrow> (int \<Rightarrow> int \<Rightarrow> int \<Rightarrow> price_rate \<Rightarrow> int) \<Rightarrow> owner_change \<Rightarrow> run_change" where
  "apply_change sha rt product (CClaim an) ow now = claim_run sha rt an ow now"
| "apply_change sha rt product (CFence run) ow now = fence_run run ow now"
| "apply_change sha rt product (CFinish run) ow now = finish_handle run ow now"
| "apply_change sha rt product (CDeliver i u) ow now = mark_delivered i u ow now"
| "apply_change sha rt product (CReserve cx i opn n tool fp) ow now = reserve_effect cx i opn n tool fp ow now"
| "apply_change sha rt product (CDispatchOp cx i fp) ow now = dispatch_effect cx i fp ow now"
| "apply_change sha rt product (CFinishOp i unknown res) ow now = finish_effect i unknown res ow now"
| "apply_change sha rt product (CFloor run opn n) ow now = floor_effects run opn n ow now"
| "apply_change sha rt product (CEgress cx eg) ow now = claim_egress sha cx eg ow now"
| "apply_change sha rt product (CRefuse cx i opn reason) ow now = refuse_effect sha cx i opn reason ow now"
| "apply_change sha rt product (CReceipt cx ticket re) ow now = finish_dispatch sha product cx ticket re ow now"

text \<open>
  What the callers supply: a run's identity carries the time of its key, the identity of a logical
  operation is not that of a dispatch (both are digests, of lists of different lengths), a
  controller names its own run, a bound is computed for a capped run only, and the floor moves to
  an operation that was reserved above it.
\<close>

definition logical_only :: "run_owner \<Rightarrow> string \<Rightarrow> bool" where
  "logical_only ow i \<longleftrightarrow> (case map_of (ao_effects ow) i of None \<Rightarrow> True | Some e \<Rightarrow> ef_category e \<noteq> CDispatch)"

fun supplied :: "(string \<Rightarrow> int) \<Rightarrow> (string \<Rightarrow> int) \<Rightarrow> owner_change \<Rightarrow> run_owner \<Rightarrow> bool" where
  "supplied rt issued (CClaim an) ow \<longleftrightarrow> an_executionOwner an = ao_userId ow \<and> rt (an_key an) = an_issued an
     \<and> an_issued an = issued (an_runId an)"
| "supplied rt issued (CDispatchOp cx i fp) ow \<longleftrightarrow> (case map_of (ao_effects ow) i of None \<Rightarrow> True
     | Some e \<Rightarrow> ef_runId e = rc_runId cx)"
| "supplied rt issued (CFinishOp i unknown res) ow \<longleftrightarrow> logical_only ow i"
| "supplied rt issued (CRefuse cx i opn reason) ow \<longleftrightarrow> logical_only ow i"
| "supplied rt issued (CFloor run opn n) ow \<longleftrightarrow> (case map_of (ao_runs ow) run of None \<Rightarrow> True
     | Some h \<Rightarrow> rh_operationFloor h < n)"
| "supplied rt issued (CEgress cx eg) ow \<longleftrightarrow> rc_userId cx = ao_userId ow
     \<and> (case map_of (ao_runs ow) (rc_runId cx) of None \<Rightarrow> True
        | Some h \<Rightarrow> (eg_bound eg = None) = (rh_money h = None))"
| "supplied rt issued _ ow \<longleftrightarrow> True"

text \<open>The runs of a document are named for the time of their keys.\<close>

definition keyed :: "(string \<Rightarrow> int) \<Rightarrow> (string \<Rightarrow> int) \<Rightarrow> run_owner \<Rightarrow> bool" where
  "keyed rt issued ow \<longleftrightarrow> (\<forall>(k, h) \<in> set (ao_runs ow). rt (rh_idempotencyKey h) = issued k)"

section \<open>Each change keeps the books\<close>

lemma sound_fence_run:
  assumes b: "books sha ow" and c: "fence_run run ow now = Inr ow'"
  shows "sound_change sha rt ow ow'"
proof -
  from c obtain h where h: "run_of ow run h" and ow': "ow' = put_run ow run (h\<lparr>rh_terminal := True\<rparr>)"
    by (auto simp: fence_run_def run_of_def split: option.splits)
  have "run_kept sha ow run h" using b h by (rule booksD)
  then show ?thesis
    unfolding ow' by (intro sound_handle [OF b h]) (auto simp: same_handle_def handle_ok_def run_kept_def quiet_def)
qed

lemma sound_finish_handle:
  assumes b: "books sha ow" and c: "finish_handle run ow now = Inr ow'"
  shows "sound_change sha rt ow ow'"
proof -
  let ?out = "list_ex outstanding (run_effects ow run)"
  from c obtain h where h: "run_of ow run h"
    and ow': "ow' = put_run ow run (h\<lparr>rh_terminal := True, rh_active := ?out\<rparr>)"
    by (auto simp: finish_handle_def the_run_def run_of_def bindE_Inr_iff split: option.splits)
  have kept: "run_kept sha ow run h" using b h by (rule booksD)
  have out: "?out \<longleftrightarrow> (\<exists>k e. effect_of ow k e \<and> ef_runId e = run \<and> outstanding e)"
    using booksD(2) [OF b] by (force simp: list_ex_iff run_effects_def effect_of_def)
  have "?out \<longrightarrow> rh_active h" using kept unfolding out by (auto simp: run_kept_def quiet_def)
  then show ?thesis
    unfolding ow' using kept out
    by (intro sound_handle [OF b h]) (auto simp: same_handle_def handle_ok_def run_kept_def)
qed

lemma sound_mark_delivered:
  assumes b: "books sha ow" and c: "mark_delivered i u ow now = Inr ow'"
  shows "sound_change sha rt ow ow'"
proof -
  from c obtain e where e: "effect_of ow i e" and ow': "ow' = put_effect ow i (e\<lparr>ef_delivered := True\<rparr>)"
    by (auto simp: mark_delivered_def effect_of_def split: option.splits if_splits)
  show ?thesis unfolding ow'
    by (rule sound_effect [OF b e]) (auto simp: same_effect_def outstanding_def)
qed

lemma sound_dispatch_effect:
  assumes b: "books sha ow" and c: "dispatch_effect cx i fp ow now = Inr ow'" and s: "supplied rt issued (CDispatchOp cx i fp) ow"
  shows "sound_change sha rt ow ow'"
proof -
  from c obtain h e where h: "run_of ow (rc_runId cx) h" "\<not> rh_terminal h" and e: "effect_of ow i e" "ef_state e = EReserved"
    and ow': "ow' = put_effect ow i (e\<lparr>ef_state := EDispatched\<rparr>)"
    by (auto simp: dispatch_effect_def the_run_def the_effect_def run_of_def effect_of_def bindE_Inr_iff
        split: option.splits if_splits)
  have run: "ef_runId e = rc_runId cx" using s e by (simp add: effect_of_def)
  have "run_kept sha ow (rc_runId cx) h" using b h(1) by (rule booksD)
  then have "rh_active h" using h(2) by (auto simp: run_kept_def quiet_def)
  moreover have "ef_category e \<noteq> CDispatch" using booksD(5) [OF b e(1)] e(2) by (auto simp: effect_kept_def)
  ultimately show ?thesis
    unfolding ow' using h(1) run by (intro sound_effect [OF b e(1)]) (auto simp: same_effect_def)
qed

lemma sound_logical:
  assumes b: "books sha ow" and e: "effect_of ow i e" "logical_only ow i" "ef_state e = EDispatched"
  shows "sound_change sha rt ow (put_effect ow i (e\<lparr>ef_state := st, ef_resultDigest := r\<rparr>))"
  using e by (intro sound_effect [OF b e(1)])
    (auto simp: same_effect_def logical_only_def effect_of_def outstanding_def)

lemma sound_reserve_effect:
  assumes b: "books sha ow" and c: "reserve_effect cx i opn n tool fp ow now = Inr ow'"
  shows "sound_change sha rt ow ow' \<or> ow' = ow"
proof (cases "map_of (ao_effects ow) i")
  case (Some e)
  with c show ?thesis by (auto simp: reserve_effect_def bindE_Inr_iff split: if_splits)
next
  case None
  from c obtain h where h: "run_of ow (rc_runId cx) h"
    by (auto simp: reserve_effect_def the_run_def run_of_def bindE_Inr_iff split: option.splits)
  have kept: "run_kept sha ow (rc_runId cx) h" using b h by (rule booksD)
  let ?h = "if tool then h\<lparr>rh_toolCalls := rh_toolCalls h + 1\<rparr> else h"
  from c None h obtain e where live: "rh_active h" and e: "effect_ok e"
    "e = \<lparr>ef_id = i, ef_runId = rc_runId cx, ef_sessionId = rc_sessionId cx,
       ef_operationId = opn, ef_category = (if tool then CTool else CModel), ef_payloadDigest = fp,
       ef_state = EReserved, ef_startedAt = now, ef_resultDigest = None, ef_usage = None, ef_delivered = True,
       ef_money = None\<rparr>"
    and ow': "ow' = put_effect (if tool then put_run ow (rc_runId cx) ?h else ow) i e"
    by (auto simp: reserve_effect_def the_run_def run_of_def bindE_Inr_iff mk_effect_def split: if_splits)
  have eq: "ow' = rewrite ow (rc_runId cx) ?h (AList.update i e (ao_effects ow))"
    using put_effect_rewrite [OF h booksD(1) [OF b]] unfolding ow' by (simp add: put_put)
  have ek: "effect_kept ow i e" "ef_runId e = rc_runId cx" "\<not> mine (rc_runId cx) e"
    using e h by (auto simp: effect_kept_def run_of_def mine_def)
  have "tallied (rewrite ow (rc_runId cx) ?h (AList.update i e (ao_effects ow))) (rc_runId cx) (rh_money ?h)"
    using kept tallied_unmine [OF b None ek(3)] by (auto simp: run_kept_def)
  moreover have "handle_may_become h ?h" by (auto simp: handle_may_become_def account_may_become_def split: option.split)
  moreover have "scoped sha ow ?h" using kept by (simp add: run_kept_def scoped_def cong: option.case_cong)
  moreover have "handle_ok ?h" "rh_runId ?h = rc_runId cx" using kept by (auto simp: run_kept_def handle_ok_def)
  ultimately have "sound_change sha rt ow ow'"
    unfolding eq using live ek by (intro sound_new_effect [OF b h None]) auto
  then show ?thesis ..
qed

section \<open>Every change keeps the books\<close>

lemma change_is_sound:
  assumes b: "books sha ow" and k: "keyed rt issued ow" and s: "supplied rt issued c ow"
    and a: "apply_change sha rt product c ow now = Inr ow'"
  shows "sound_change sha rt ow ow' \<or> ow' = ow"
proof (cases c)
  case (CClaim an)
  have "rt (rh_idempotencyKey h) = an_issued an" if "run_of ow (an_runId an) h" for h
    using that k s CClaim by (auto simp: keyed_def run_of_def dest: map_of_SomeD)
  with CClaim a s show ?thesis by (intro disjI1 sound_claim_run [OF b, of rt an]) auto
next
  case (CFinishOp i unknown res)
  with a obtain e where "effect_of ow i e" "ef_state e = EDispatched"
    and "ow' = put_effect ow i (e\<lparr>ef_state := (if unknown then EUnknown else EComplete), ef_resultDigest := Some res\<rparr>)"
    by (auto simp: finish_effect_def effect_of_def split: option.splits if_splits)
  with CFinishOp s sound_logical [OF b] show ?thesis by simp
next
  case (CRefuse cx i opn reason)
  with a obtain e where e: "effect_of ow i e" "ef_state e = EDispatched"
    by (auto simp: refuse_effect_def effect_of_def split: option.splits if_splits)
  with CRefuse a have "ow' = ow \<or> (\<exists>dg. ow' = put_effect ow i (e\<lparr>ef_state := EComplete, ef_resultDigest := Some dg\<rparr>))"
    by (auto simp: refuse_effect_def effect_of_def bindE_Inr_iff split: if_splits)
  with CRefuse s e sound_logical [OF b e(1)] show ?thesis by auto
next
  case (CFloor run opn n)
  with a s show ?thesis by (intro disjI1 sound_floor [OF b, of run opn n now]) (auto simp: run_of_def)
next
  case (CEgress cx eg)
  with a s show ?thesis by (intro disjI1 sound_claim [OF b, of cx eg now]) (auto simp: run_of_def)
qed (use a s sound_fence_run [OF b] sound_finish_handle [OF b] sound_mark_delivered [OF b]
  sound_dispatch_effect [OF b] sound_reserve_effect [OF b] sound_receipt [OF b] in auto)

end
