(* ===== verification/Wf_Trace.thy ===== *)
theory Wf_Trace
  imports Wf_Safety
begin

text \<open>
  How the handles of an owner document move under a change that admits no run: keys stay, floors
  rise, an ended run stays ended, and only a receipt blocks an account.
\<close>

section \<open>How handles move\<close>

definition moves :: "bool \<Rightarrow> run_handle \<Rightarrow> run_handle \<Rightarrow> bool" where
  "moves receipt h h' \<longleftrightarrow> rh_idempotencyKey h' = rh_idempotencyKey h \<and> rh_workflowKey h' = rh_workflowKey h
     \<and> rh_operationFloor h \<le> rh_operationFloor h' \<and> (rh_active h' \<longrightarrow> rh_active h)
     \<and> (receipt \<or> map_option ma_blocked (rh_money h') = map_option ma_blocked (rh_money h))"

definition follows :: "bool \<Rightarrow> run_owner \<Rightarrow> run_owner \<Rightarrow> bool" where
  "follows receipt ow ow' \<longleftrightarrow> ao_requestFloor ow' = ao_requestFloor ow
     \<and> map fst (ao_runs ow') = map fst (ao_runs ow)
     \<and> (\<forall>k h'. run_of ow' k h' \<longrightarrow> (\<exists>h. run_of ow k h \<and> moves receipt h h'))"

lemma moves_refl [simp]: "moves receipt h h"
  by (simp add: moves_def)

lemma moves_trans: "moves receipt h h1 \<Longrightarrow> moves receipt h1 h2 \<Longrightarrow> moves receipt h h2"
  by (auto simp: moves_def)

lemma follows_refl [simp]: "follows receipt ow ow"
  by (auto simp: follows_def intro: exI [of _ "_ :: run_handle"])

lemma follows_trans: "follows receipt ow ow1 \<Longrightarrow> follows receipt ow1 ow2 \<Longrightarrow> follows receipt ow ow2"
  unfolding follows_def using moves_trans by metis

lemma follows_put_run:
  assumes "run_of ow run h" "moves receipt h h'"
  shows "follows receipt ow (put_run ow run h')"
proof -
  have "map fst (AList.update k v d) = map fst d" if "map_of d k = Some w" for k v w and d :: "(string, run_handle) dict"
    using that by (induction d) (auto split: if_splits)
  with assms show ?thesis by (auto simp: follows_def put_run_def run_of_def map_of_update)
qed

lemma follows_put_effect [simp]: "follows receipt ow (put_effect ow k e) = follows receipt ow ow"
  by (simp add: follows_def put_effect_def run_of_def)

lemma follows_effects [simp]: "follows receipt ow (ow1\<lparr>ao_effects := d\<rparr>) = follows receipt ow ow1"
  by (simp add: follows_def run_of_def)

lemma follows_put [intro]: "follows receipt ow ow1 \<Longrightarrow> follows receipt ow (put_effect ow1 k e)"
  by (simp add: follows_def put_effect_def run_of_def)

lemma follows_compact_money: "compact_money ow e = Inr ow' \<Longrightarrow> follows receipt ow ow'"
  by (auto simp: compact_money_def the_run_def run_of_def bindE_Inr_iff updated_account_Inr moves_def
      split: option.splits if_splits intro!: follows_put_run)

lemma follows_compact_effects: "compact_effects es ow = Inr ow' \<Longrightarrow> follows receipt ow ow'"
proof (induction es ow rule: compact_effects.induct)
  case (2 k e es ow)
  then obtain ow1 where o1: "compact_money ow e = Inr ow1"
    and rest: "compact_effects es (ow1\<lparr>ao_effects := AList.delete k (ao_effects ow1)\<rparr>) = Inr ow'"
    by (auto simp: bindE_Inr_iff)
  have "follows receipt ow (ow1\<lparr>ao_effects := AList.delete k (ao_effects ow1)\<rparr>)"
    using follows_compact_money [OF o1] by simp
  then show ?case using "2.IH" [OF rest] by (rule follows_trans)
qed simp

lemma count_dispatch_moves: "count_dispatch lims eg h = Inr h' \<Longrightarrow> moves receipt h h'"
  by (auto simp: count_dispatch_def bindE_Inr_iff moves_def split: if_splits)

lemma follows_claim:
  assumes "claim_egress sha cx eg ow now = Inr ow'"
  shows "follows receipt ow ow'"
proof -
  let ?run = "rc_runId cx"
  from assms obtain h where h: "run_of ow ?run h"
    by (auto simp: claim_egress_def bindE_Inr_iff the_run_def run_of_def split: option.splits)
  with assms obtain h1 money ow2 e where h1: "count_dispatch (rc_limits cx) eg h = Inr h1"
    and m: "(case eg_bound eg of None \<Rightarrow> Inr (None, put_run ow ?run h1)
        | Some bd \<Rightarrow> bindE (reserve_money (put_run ow ?run h1) ?run bd (eg_approval eg)) (\<lambda>(m, o2). Inr (Some m, o2)))
        = Inr (money, ow2)"
    and ow': "ow' = put_effect ow2 (eg_identifier eg) e"
    by (auto simp: claim_egress_def bindE_Inr_iff the_run_def run_of_def Let_def split: if_splits)
  have "follows receipt ow ow2"
  proof (cases "eg_bound eg")
    case None
    with m follows_put_run [OF h count_dispatch_moves [OF h1]] show ?thesis by simp
  next
    case (Some bd)
    with m obtain d where "reserve_money (put_run ow ?run h1) ?run bd (eg_approval eg) = Inr (d, ow2)"
      by (auto simp: bindE_Inr_iff)
    from reserve_moneyD [OF this] obtain a a' where "rh_money h1 = Some a" "holds a (dm_charged d) a'"
      and "ow2 = put_run ow ?run (h1\<lparr>rh_money := Some a'\<rparr>)" by (auto simp: put_run_def update_last)
    then show ?thesis
      using count_dispatch_moves [OF h1, of receipt] by (auto simp: moves_def holds_def intro!: follows_put_run [OF h])
  qed
  then show ?thesis unfolding ow' by (rule follows_put)
qed

lemma follows_receipt:
  assumes b: "books sha ow" and c: "finish_dispatch sha product cx ticket re ow now = Inr ow'"
  shows "follows True ow ow'"
  using finish_dispatchD [OF c b]
proof (elim disjE exE conjE)
  fix e assume e: "effect_of ow ticket e" "ef_state e = EDispatched" and "receipt_step product re ow ticket e ow'"
  from this(3) show ?thesis
  proof cases
    case (settled d u h a a' d' x i)
    then have "follows True ow (put_run ow (ef_runId e) (h\<lparr>rh_money := Some a'\<rparr>))"
      by (intro follows_put_run) (auto simp: moves_def)
    then show ?thesis unfolding settled put_put [symmetric] by (rule follows_put)
  qed auto
qed simp

lemma follows_finish:
  assumes b: "books sha ow" and c: "finish_handle run ow now = Inr ow'"
  shows "follows receipt ow ow'"
proof -
  let ?out = "list_ex outstanding (run_effects ow run)"
  from c obtain h where h: "run_of ow run h"
    and ow': "ow' = put_run ow run (h\<lparr>rh_terminal := True, rh_active := ?out\<rparr>)"
    by (auto simp: finish_handle_def the_run_def run_of_def bindE_Inr_iff split: option.splits)
  have "run_kept sha ow run h" using b h by (rule booksD)
  then have "?out \<longrightarrow> rh_active h"
    using booksD(2) [OF b] by (force simp: list_ex_iff run_effects_def effect_of_def run_kept_def quiet_def)
  then show ?thesis unfolding ow' by (intro follows_put_run [OF h]) (simp add: moves_def)
qed

definition is_receipt :: "owner_change \<Rightarrow> bool" where
  "is_receipt c \<longleftrightarrow> (case c of CReceipt _ _ _ \<Rightarrow> True | _ \<Rightarrow> False)"

definition is_claim :: "owner_change \<Rightarrow> bool" where
  "is_claim c \<longleftrightarrow> (case c of CClaim _ \<Rightarrow> True | _ \<Rightarrow> False)"

lemma change_follows:
  assumes b: "books sha ow" and a: "apply_change sha rt product c ow now = Inr ow'" and n: "\<not> is_claim c"
  shows "follows (is_receipt c) ow ow'"
proof (cases c)
  case (CFence run)
  with a show ?thesis
    by (auto simp: fence_run_def run_of_def moves_def split: option.splits intro!: follows_put_run)
next
  case (CReserve cx i opn m tool fp)
  with a show ?thesis
    by (auto simp: reserve_effect_def the_run_def run_of_def moves_def bindE_Inr_iff split: option.splits if_splits
        intro!: follows_put follows_put_run)
next
  case (CFloor run opn m)
  with a obtain h es where h: "run_of ow run h"
    and "compact_effects es (put_run ow run (h\<lparr>rh_operationFloor := max (rh_operationFloor h) m\<rparr>)) = Inr ow'"
    by (auto simp: floor_effects_def the_run_def run_of_def bindE_Inr_iff split: option.splits)
  with follows_compact_effects have "follows (is_receipt c) (put_run ow run (h\<lparr>rh_operationFloor := max (rh_operationFloor h) m\<rparr>)) ow'"
    by blast
  moreover have "follows (is_receipt c) ow (put_run ow run (h\<lparr>rh_operationFloor := max (rh_operationFloor h) m\<rparr>))"
    by (intro follows_put_run [OF h]) (simp add: moves_def)
  ultimately show ?thesis by (blast intro: follows_trans)
qed (use a n follows_finish [OF b] follows_claim follows_receipt [OF b] in
  \<open>auto simp: is_claim_def is_receipt_def mark_delivered_def dispatch_effect_def finish_effect_def refuse_effect_def
     bindE_Inr_iff split: option.splits if_splits\<close>)

end
