(* ===== verification/Schedule_Calendar.thy ===== *)
theory Schedule_Calendar
  imports Usage_Rollup Wf_Models
begin

text \<open>
  \<open>workflows/scheduling.py\<close>: wall-clock rules over an identified set of time zone rules. An instant
  is microseconds since 1970 in UTC, a wall-clock reading microseconds since 1970 without an offset,
  a day the number of days since 1970. What the standard library makes of a zone file is the record
  \<open>tz\<close>: the offset of a reading (for each \<open>fold\<close>) and of an instant; reading the file is the
  parameter \<open>zones\<close>. Readings and instants are within the range of \<open>datetime\<close>.
\<close>

section \<open>Rules\<close>

datatype frequency = Once | Daily | Weekly

record schedule_rule =
  sr_frequency :: frequency
  sr_timezone :: string
  sr_localTime :: int
  sr_timeAware :: bool
  sr_localDate :: "int option"
  sr_weekday :: "int option"
  sr_maxOccurrences :: int

definition zone_char :: "char \<Rightarrow> bool" where
  "zone_char c \<longleftrightarrow> is_alnum c \<or> c \<in> {CHR ''_'', CHR ''+'', CHR ''-''}"

text \<open>Non-empty names between single slashes; \<open>b\<close>: a name character came just before.\<close>

fun zone_name_from :: "bool \<Rightarrow> string \<Rightarrow> bool" where
  "zone_name_from b [] \<longleftrightarrow> b"
| "zone_name_from b (c # s) \<longleftrightarrow> (if c = CHR ''/'' then b \<and> zone_name_from False s else zone_char c \<and> zone_name_from True s)"

definition zone_name :: "string \<Rightarrow> bool" where
  "zone_name s = zone_name_from False s"

definition MINUTE_MICROS :: int where "MINUTE_MICROS = 60000000"

definition rule_ok :: "schedule_rule \<Rightarrow> bool" where
  "rule_ok r \<longleftrightarrow>
     length (sr_timezone r) \<in> {1..128}
     \<and> 0 \<le> sr_localTime r \<and> sr_localTime r < DAY_MICROS
     \<and> (\<forall>w \<in> set_option (sr_weekday r). 0 \<le> w \<and> w \<le> 6)
     \<and> 1 \<le> sr_maxOccurrences r \<and> sr_maxOccurrences r \<le> 366
     \<and> \<not> sr_timeAware r \<and> sr_localTime r mod MINUTE_MICROS = 0
     \<and> zone_name (sr_timezone r)
     \<and> (if sr_frequency r = Once
        then sr_localDate r \<noteq> None \<and> sr_weekday r = None \<and> sr_maxOccurrences r = 1
        else sr_localDate r = None)
     \<and> (sr_frequency r = Weekly) = (sr_weekday r \<noteq> None)"

section \<open>Zones and wall clocks\<close>

record tz =
  tz_version :: string
  tz_digest :: string
  tz_offset :: "int \<Rightarrow> bool \<Rightarrow> int"
  tz_utcoffset :: "int \<Rightarrow> int"

text \<open>\<open>astimezone(zone)\<close> of an instant, and \<open>astimezone(utc)\<close> of a reading with a \<open>fold\<close>.\<close>

definition wall :: "tz \<Rightarrow> int \<Rightarrow> int" where
  "wall z u = u + tz_utcoffset z u"

definition instant :: "tz \<Rightarrow> int \<Rightarrow> bool \<Rightarrow> int" where
  "instant z local late = local - tz_offset z local late"

text \<open>Monday is 0; the first day of 1970 was a Thursday.\<close>

definition weekday :: "int \<Rightarrow> int" where
  "weekday day = (day + 3) mod 7"

definition MAX_DAY :: int where "MAX_DAY = 2932896"

definition four_digits :: "int \<Rightarrow> string" where
  "four_digits n = replicate (4 - length (show_int n)) (CHR ''0'') @ show_int n"

text \<open>\<open>isoformat(timespec="minutes")\<close>.\<close>

definition iso_minutes :: "int \<Rightarrow> string" where
  "iso_minutes local = (case civil_of_days (local div DAY_MICROS) of
     (y, m, d) \<Rightarrow> let minute = local mod DAY_MICROS div MINUTE_MICROS in
       four_digits y @ ''-'' @ two_digits m @ ''-'' @ two_digits d @ ''T''
         @ two_digits (minute div 60) @ '':'' @ two_digits (minute mod 60))"

section \<open>Occurrences\<close>

record schedule_occurrence =
  oc_localSlot :: string
  oc_dueAt :: int
  oc_zoneVersion :: string
  oc_zoneDigest :: string

definition day_matches :: "schedule_rule \<Rightarrow> int \<Rightarrow> bool" where
  "day_matches r day \<longleftrightarrow>
     \<not> (sr_frequency r = Once \<and> Some day \<noteq> sr_localDate r)
     \<and> \<not> (sr_frequency r = Weekly \<and> Some (weekday day) \<noteq> sr_weekday r)"

definition slot_time :: "schedule_rule \<Rightarrow> int \<Rightarrow> int" where
  "slot_time r day = day * DAY_MICROS + sr_localTime r"

text \<open>The instants of a reading, one per \<open>fold\<close>; a reading that the clock skips has none.\<close>

definition instants_of :: "tz \<Rightarrow> int \<Rightarrow> int list" where
  "instants_of z local = filter (\<lambda>u. wall z u = local) [instant z local False, instant z local True]"

definition occurrence_in :: "tz \<Rightarrow> schedule_rule \<Rightarrow> int \<Rightarrow> schedule_occurrence option" where
  "occurrence_in z r day =
     (if \<not> day_matches r day then None
      else (let local = slot_time r day; candidates = instants_of z local in
            if candidates = [] then None
               else Some \<lparr>oc_localSlot = iso_minutes local, oc_dueAt = Min (set candidates),
                         oc_zoneVersion = tz_version z, oc_zoneDigest = tz_digest z\<rparr>))"

type_synonym zones = "string \<Rightarrow> auto_exn + tz"

definition expected_zone :: "zones \<Rightarrow> schedule_rule \<Rightarrow> string option \<Rightarrow> auto_exn + tz" where
  "expected_zone zones r expected = bindE (zones (sr_timezone r)) (\<lambda>z.
     if expected \<noteq> None \<and> expected \<noteq> Some (tz_digest z) then Inl (AutomationError ''timezone_changed'') else Inr z)"

definition occurrence :: "zones \<Rightarrow> schedule_rule \<Rightarrow> int \<Rightarrow> string option \<Rightarrow> auto_exn + schedule_occurrence option" where
  "occurrence zones r day expected = bindE (expected_zone zones r expected) (\<lambda>z. Inr (occurrence_in z r day))"

definition eligible :: "int \<Rightarrow> string option \<Rightarrow> schedule_occurrence option \<Rightarrow> bool" where
  "eligible moment after_slot c \<longleftrightarrow> (case c of
     None \<Rightarrow> False
   | Some oc \<Rightarrow> moment < oc_dueAt oc \<and> (case after_slot of None \<Rightarrow> True | Some s \<Rightarrow> s < oc_localSlot oc))"

fun search_days :: "zones \<Rightarrow> schedule_rule \<Rightarrow> int \<Rightarrow> string option \<Rightarrow> string \<Rightarrow> int \<Rightarrow> nat
    \<Rightarrow> auto_exn + schedule_occurrence option" where
  "search_days zones r moment after_slot identity day 0 = Inr None"
| "search_days zones r moment after_slot identity day (Suc n) =
     (if MAX_DAY < day then Inr None
      else bindE (occurrence zones r day (Some identity)) (\<lambda>c.
        if eligible moment after_slot c then Inr c
        else search_days zones r moment after_slot identity (day + 1) n))"

definition SEARCH_DAYS :: nat where "SEARCH_DAYS = 370"

definition next_occurrence :: "zones \<Rightarrow> schedule_rule \<Rightarrow> int \<Rightarrow> string option \<Rightarrow> string option
    \<Rightarrow> auto_exn + schedule_occurrence option" where
  "next_occurrence zones r moment after_slot expected = bindE (expected_zone zones r expected) (\<lambda>z.
     case (if sr_frequency r = Once then sr_localDate r else Some (wall z moment div DAY_MICROS)) of
       None \<Rightarrow> Inl (AutomationError ''invalid_schedule'')
     | Some first \<Rightarrow> search_days zones r moment after_slot (tz_digest z) first
                       (if sr_frequency r = Once then 1 else SEARCH_DAYS))"

definition first_occurrence :: "zones \<Rightarrow> schedule_rule \<Rightarrow> int \<Rightarrow> auto_exn + schedule_occurrence" where
  "first_occurrence zones r now = bindE (next_occurrence zones r now None None) (\<lambda>c.
     case c of None \<Rightarrow> Inl (AutomationError ''invalid_schedule'') | Some oc \<Rightarrow> Inr oc)"

section \<open>What an occurrence is\<close>

text \<open>
  What the standard library documents of a zone (PEP 495): the reading of an instant, with one of the
  two values of \<open>fold\<close>, is that instant again.
\<close>

definition zone_law :: "tz \<Rightarrow> bool" where
  "zone_law z \<longleftrightarrow> (\<forall>u. \<exists>late. instant z (wall z u) late = u)"

lemma mem_instants_of: "u \<in> set (instants_of z local) \<Longrightarrow> wall z u = local"
  by (auto simp: instants_of_def split: if_splits)

lemma occurrence_in_Some:
  assumes "occurrence_in z r day = Some oc"
  shows "day_matches r day \<and> wall z (oc_dueAt oc) = slot_time r day \<and> oc_localSlot oc = iso_minutes (slot_time r day)
    \<and> oc_zoneDigest oc = tz_digest z"
proof -
  let ?cs = "instants_of z (slot_time r day)"
  from assms have ne: "?cs \<noteq> []" and oc: "oc_dueAt oc = Min (set ?cs)" "oc_localSlot oc = iso_minutes (slot_time r day)"
    "oc_zoneDigest oc = tz_digest z" and m: "day_matches r day"
    unfolding occurrence_in_def Let_def by (simp_all split: if_splits) auto
  have "Min (set ?cs) \<in> set ?cs" using ne by (intro Min_in) auto
  with oc m show ?thesis by (simp add: mem_instants_of)
qed

lemma instant_is_candidate:
  assumes "zone_law z" "wall z u = local"
  shows "u \<in> set (instants_of z local)"
proof -
  from assms(1) obtain b where "instant z (wall z u) b = u" unfolding zone_law_def by blast
  then show ?thesis using assms(2) by (cases b) (auto simp: instants_of_def)
qed

lemma occurrence_in_least:
  assumes "zone_law z" "day_matches r day" "wall z u = slot_time r day"
  shows "\<exists>oc. occurrence_in z r day = Some oc \<and> oc_dueAt oc \<le> u"
proof -
  let ?cs = "instants_of z (slot_time r day)"
  from instant_is_candidate [OF assms(1,3)] have mem: "u \<in> set ?cs" .
  then have "?cs \<noteq> []" "Min (set ?cs) \<le> u" by auto
  then show ?thesis unfolding occurrence_in_def Let_def using assms(2) by simp
qed

lemma search_days_Some:
  assumes "search_days zones r moment after_slot identity day n = Inr (Some oc)"
  shows "\<exists>k < n. occurrence zones r (day + int k) (Some identity) = Inr (Some oc) \<and> eligible moment after_slot (Some oc)
    \<and> (\<forall>j < k. \<exists>c. occurrence zones r (day + int j) (Some identity) = Inr c \<and> \<not> eligible moment after_slot c)"
  using assms
proof (induction n arbitrary: day)
  case (Suc n)
  show ?case
  proof (cases "occurrence zones r day (Some identity)")
    case (Inl e)
    with Suc.prems show ?thesis by (simp split: if_splits)
  next
    case (Inr c)
    show ?thesis
    proof (cases "eligible moment after_slot c")
      case True
      with Suc.prems Inr have "c = Some oc" by (simp split: if_splits)
      with True Inr show ?thesis by (intro exI [of _ 0]) simp
    next
      case False
      with Suc.prems Inr have "search_days zones r moment after_slot identity (day + 1) n = Inr (Some oc)"
        by (simp split: if_splits)
      from Suc.IH [OF this] obtain k where k: "k < n"
        "occurrence zones r (day + 1 + int k) (Some identity) = Inr (Some oc)" "eligible moment after_slot (Some oc)"
        "\<forall>j < k. \<exists>c. occurrence zones r (day + 1 + int j) (Some identity) = Inr c \<and> \<not> eligible moment after_slot c"
        by blast
      have "\<exists>c. occurrence zones r (day + int j) (Some identity) = Inr c \<and> \<not> eligible moment after_slot c" if "j < Suc k" for j
      proof (cases j)
        case 0
        with Inr False show ?thesis by simp
      next
        case (Suc i)
        with k(4) that show ?thesis by (simp add: algebra_simps)
      qed
      with k(1-3) show ?thesis by (intro exI [of _ "Suc k"]) (simp add: algebra_simps)
    qed
  qed
qed simp

lemma search_days_None:
  assumes "search_days zones r moment after_slot identity day n = Inr None" "k < n" "day + int k \<le> MAX_DAY"
  shows "\<exists>c. occurrence zones r (day + int k) (Some identity) = Inr c \<and> \<not> eligible moment after_slot c"
  using assms
proof (induction n arbitrary: day k)
  case (Suc n)
  from Suc.prems(3) have d: "\<not> MAX_DAY < day" by simp
  show ?case
  proof (cases "occurrence zones r day (Some identity)")
    case (Inl e)
    with Suc.prems d show ?thesis by simp
  next
    case (Inr c)
    have ne: "\<not> eligible moment after_slot c"
    proof
      assume e: "eligible moment after_slot c"
      with Suc.prems(1) d Inr have "c = None" by simp
      with e show False by (simp add: eligible_def)
    qed
    with Suc.prems(1) d Inr have rest: "search_days zones r moment after_slot identity (day + 1) n = Inr None" by simp
    show ?thesis
    proof (cases k)
      case 0
      with Inr ne show ?thesis by simp
    next
      case (Suc j)
      with Suc.IH [OF rest, of j] Suc.prems(2,3) show ?thesis by (simp add: algebra_simps)
    qed
  qed
qed simp

text \<open>The next occurrence is later than the moment, and its slot later than the last one's.\<close>

lemma next_occurrence_later:
  assumes "next_occurrence zones r moment after_slot expected = Inr (Some oc)"
  shows "moment < oc_dueAt oc \<and> (\<forall>s. after_slot = Some s \<longrightarrow> s < oc_localSlot oc)
    \<and> (\<exists>z. zones (sr_timezone r) = Inr z \<and> oc_zoneDigest oc = tz_digest z)"
proof -
  from assms obtain z where x: "expected_zone zones r expected = Inr z"
    unfolding next_occurrence_def bindE_Inr_iff by blast
  then have z: "zones (sr_timezone r) = Inr z" by (auto simp: expected_zone_def bindE_Inr_iff split: if_splits)
  from assms x obtain first n where s: "search_days zones r moment after_slot (tz_digest z) first n = Inr (Some oc)"
    unfolding next_occurrence_def by (cases "if sr_frequency r = Once then sr_localDate r else Some (wall z moment div DAY_MICROS)") auto
  from search_days_Some [OF s] obtain k where "occurrence zones r (first + int k) (Some (tz_digest z)) = Inr (Some oc)"
    "eligible moment after_slot (Some oc)" by blast
  then show ?thesis using z by (auto simp: eligible_def occurrence_def expected_zone_def dest: occurrence_in_Some split: option.splits)
qed

end
