(* ===== verification/Wf_Store.thy ===== *)
theory Wf_Store
  imports Wf_Runs Schedule_Calendar
begin

text \<open>
  \<open>workflows/automation_store.py\<close>: the owner documents and the schedules of the in-memory store
  with the checks of a transition, and the loops of \<open>AutomationService\<close> that change a document
  through the store: \<open>owner\<close>, \<open>mutate_owner\<close> and the admission of a scheduled occurrence.

  The size of the JSON body of a document is the parameter \<open>sized\<close>, and what \<open>writable_body\<close> checks
  of a schedule the parameter \<open>sched_ok\<close>. Other clients act on the store between the calls of a
  loop: \<open>env i\<close> is what they do at the loop's \<open>i\<close>-th pause.
\<close>

section \<open>Documents\<close>

definition AUTOMATION_ID_PREFIX :: string where "AUTOMATION_ID_PREFIX = '':ai4ia:automation:v1:''"
definition AUTOMATION_OWNER_ID :: string where "AUTOMATION_OWNER_ID = AUTOMATION_ID_PREFIX @ ''owner''"
definition AUTOMATION_OWNER_KIND :: string where "AUTOMATION_OWNER_KIND = ''ai4ia.automation.owner.v1''"
definition AUTOMATION_SCHEDULE_KIND :: string where "AUTOMATION_SCHEDULE_KIND = ''ai4ia.automation.schedule.v1''"
definition MISSED_GRACE_MICROS :: int where "MISSED_GRACE_MICROS = 300 * 1000000"

datatype schedule_status =
    SchedulePending | ScheduleActive | ScheduleAcceptanceUnknown | SchedulePaused | ScheduleCompleted | ScheduleDisabled

datatype slot_outcome = SlotLaunched | SlotMissed | SlotOverlap | SlotBlocked

record schedule_history =
  sh_slot :: string
  sh_dueAt :: int
  sh_outcome :: slot_outcome
  sh_runId :: "string option"

text \<open>Of the frozen bundle a schedule carries, \<open>sc_bundle\<close> is the whole and \<open>sc_bundleDigest\<close> its digest.\<close>

record workflow_schedule =
  sc_id :: string
  sc_userId :: string
  sc_recordKind :: string
  sc_scheduleId :: string
  sc_generation :: int
  sc_revision :: int
  sc_lastWriteKey :: string
  sc_lastWriteDigest :: string
  sc_enabled :: bool
  sc_status :: schedule_status
  sc_reason :: "string option"
  sc_bundle :: json
  sc_bundleDigest :: string
  sc_input :: string
  sc_limits :: exec_limits
  sc_allowTools :: bool
  sc_allowAutomaticMemory :: bool
  sc_rule :: schedule_rule
  sc_next :: "schedule_occurrence option"
  sc_pendingSlot :: "schedule_occurrence option"
  sc_pendingKey :: "string option"
  sc_consumed :: int
  sc_lastSlot :: "string option"
  sc_controllerId :: string
  sc_history :: "schedule_history list"
  sc_createdAt :: int
  sc_updatedAt :: int

record 'v stored =
  st_value :: 'v
  st_etag :: string
  st_now :: int

record auto_store =
  as_owners :: "(string, run_owner) dict"
  as_schedules :: "(string \<times> string, workflow_schedule) dict"

definition new_owner :: "string \<Rightarrow> string \<Rightarrow> run_owner" where
  "new_owner user epoch = \<lparr>ao_id = AUTOMATION_OWNER_ID, ao_userId = user, ao_recordKind = AUTOMATION_OWNER_KIND,
     ao_epoch = epoch, ao_revision = 0, ao_requestFloor = 0, ao_runs = [], ao_schedules = [], ao_effects = []\<rparr>"

section \<open>Checks of a transition\<close>

definition assert_owner :: "(string \<Rightarrow> int) \<Rightarrow> run_owner \<Rightarrow> run_owner \<Rightarrow> auto_exn + unit" where
  "assert_owner rt prior v =
     (if ao_id v \<noteq> ao_id prior \<or> ao_userId v \<noteq> ao_userId prior \<or> ao_epoch v \<noteq> ao_epoch prior
         \<or> ao_recordKind v \<noteq> ao_recordKind prior \<or> ao_revision v \<noteq> ao_revision prior + 1
         \<or> ao_requestFloor v < ao_requestFloor prior
      then refused ''state_corrupt'' else validate_money_transition rt prior v)"

definition assert_schedule :: "run_owner \<Rightarrow> workflow_schedule \<Rightarrow> workflow_schedule option \<Rightarrow> auto_exn + unit" where
  "assert_schedule ow v prior =
     (if sc_userId v \<noteq> ao_userId ow \<or> sc_scheduleId v \<notin> set (ao_schedules ow) then refused ''state_corrupt''
      else case prior of
          None \<Rightarrow> Inr ()
        | Some p \<Rightarrow>
            if sc_id p \<noteq> sc_id v \<or> sc_scheduleId p \<noteq> sc_scheduleId v \<or> sc_revision v \<noteq> sc_revision p + 1
               \<or> sc_generation v < sc_generation p
               \<or> (sc_generation v = sc_generation p \<and> sc_consumed v < sc_consumed p)
            then refused ''state_corrupt'' else Inr ())"

definition writable_owner :: "(string \<Rightarrow> string) \<Rightarrow> (run_owner \<Rightarrow> bool) \<Rightarrow> run_owner \<Rightarrow> auto_exn + unit" where
  "writable_owner sha sized v = bindE (ensure (owner_ok sha ur_userId v) InvalidRecord) (\<lambda>_.
     ensure (sized v) (AutomationError ''state_limit''))"

section \<open>The in-memory store\<close>

definition store_read_owner :: "auto_store \<Rightarrow> string \<Rightarrow> int \<Rightarrow> run_owner stored option" where
  "store_read_owner s user now = map_option (\<lambda>v. \<lparr>st_value = v, st_etag = show_int (ao_revision v), st_now = now\<rparr>)
     (map_of (as_owners s) user)"

definition store_create_owner ::
  "(string \<Rightarrow> string) \<Rightarrow> (run_owner \<Rightarrow> bool) \<Rightarrow> auto_store \<Rightarrow> run_owner \<Rightarrow> auto_store \<times> (auto_exn + bool)" where
  "store_create_owner sha sized s v = (case writable_owner sha sized v of
     Inl e \<Rightarrow> (s, Inl e)
   | Inr _ \<Rightarrow>
       if ao_id v \<noteq> AUTOMATION_OWNER_ID \<or> ao_recordKind v \<noteq> AUTOMATION_OWNER_KIND then (s, refused ''state_corrupt'')
       else if map_of (as_owners s) (ao_userId v) \<noteq> None then (s, Inr False)
       else (s\<lparr>as_owners := AList.update (ao_userId v) v (as_owners s)\<rparr>, Inr True))"

definition store_write_owner ::
  "(string \<Rightarrow> string) \<Rightarrow> (string \<Rightarrow> int) \<Rightarrow> (run_owner \<Rightarrow> bool) \<Rightarrow> auto_store \<Rightarrow> run_owner stored \<Rightarrow> run_owner
    \<Rightarrow> auto_store \<times> (auto_exn + bool)" where
  "store_write_owner sha rt sized s prior v =
     (case bindE (assert_owner rt (st_value prior) v) (\<lambda>_. writable_owner sha sized v) of
        Inl e \<Rightarrow> (s, Inl e)
      | Inr _ \<Rightarrow> (case map_of (as_owners s) (ao_userId v) of
            None \<Rightarrow> (s, Inr False)
          | Some current \<Rightarrow>
              if current \<noteq> st_value prior \<or> show_int (ao_revision current) \<noteq> st_etag prior then (s, Inr False)
              else (s\<lparr>as_owners := AList.update (ao_userId v) v (as_owners s)\<rparr>, Inr True)))"

definition store_read_schedule :: "auto_store \<Rightarrow> string \<Rightarrow> string \<Rightarrow> int \<Rightarrow> workflow_schedule stored option" where
  "store_read_schedule s user schedule_id now =
     map_option (\<lambda>v. \<lparr>st_value = v, st_etag = show_int (sc_revision v), st_now = now\<rparr>)
       (map_of (as_schedules s) (user, schedule_id))"

definition store_write_schedule ::
  "(string \<Rightarrow> string) \<Rightarrow> (string \<Rightarrow> int) \<Rightarrow> (run_owner \<Rightarrow> bool) \<Rightarrow> (workflow_schedule \<Rightarrow> auto_exn + unit) \<Rightarrow> auto_store
    \<Rightarrow> run_owner stored \<Rightarrow> run_owner \<Rightarrow> workflow_schedule \<Rightarrow> workflow_schedule stored option \<Rightarrow> auto_store \<times> (auto_exn + bool)" where
  "store_write_schedule sha rt sized sched_ok s prior_owner ow v prior =
     (case bindE (assert_owner rt (st_value prior_owner) ow) (\<lambda>_.
           bindE (assert_schedule ow v (map_option st_value prior)) (\<lambda>_.
           bindE (ensure (sc_id v = AUTOMATION_ID_PREFIX @ ''schedule:'' @ sc_scheduleId v
               \<and> sc_recordKind v = AUTOMATION_SCHEDULE_KIND) (AutomationError ''state_corrupt'')) (\<lambda>_.
           bindE (writable_owner sha sized ow) (\<lambda>_. sched_ok v)))) of
        Inl e \<Rightarrow> (s, Inl e)
      | Inr _ \<Rightarrow>
          let key = (ao_userId ow, sc_scheduleId v) in
          if map_of (as_owners s) (ao_userId ow) \<noteq> Some (st_value prior_owner) then (s, Inr False)
          else if map_of (as_schedules s) key \<noteq> map_option st_value prior then (s, Inr False)
          else (s\<lparr>as_owners := AList.update (ao_userId ow) ow (as_owners s),
                  as_schedules := AList.update key v (as_schedules s)\<rparr>, Inr True))"

section \<open>The loops of the service\<close>

definition MUTATE_ATTEMPTS :: nat where "MUTATE_ATTEMPTS = 3"

text \<open>\<open>owner(create=True)\<close>; the epoch is the \<open>uuid4\<close> drawn for a new document.\<close>

definition service_owner ::
  "(string \<Rightarrow> string) \<Rightarrow> (run_owner \<Rightarrow> bool) \<Rightarrow> auto_store \<Rightarrow> string \<Rightarrow> string \<Rightarrow> int
    \<Rightarrow> auto_store \<times> (auto_exn + run_owner stored)" where
  "service_owner sha sized s user epoch now = (case store_read_owner s user now of
     Some st \<Rightarrow> (s, Inr st)
   | None \<Rightarrow> (case store_create_owner sha sized s (new_owner user epoch) of
         (s1, Inl e) \<Rightarrow> (s1, Inl e)
       | (s1, Inr _) \<Rightarrow> (case store_read_owner s1 user now of
             None \<Rightarrow> (s1, refused ''coordination_missing'')
           | Some st \<Rightarrow> (s1, Inr st))))"

text \<open>What a change leaves to be written: its result under the next revision, validated.\<close>

definition committed :: "(string \<Rightarrow> string) \<Rightarrow> run_change \<Rightarrow> run_owner stored \<Rightarrow> auto_exn + run_owner" where
  "committed sha change prior = bindE (change (st_value prior) (st_now prior)) (\<lambda>updated.
     owner_validated sha (updated\<lparr>ao_revision := ao_revision (st_value prior) + 1\<rparr>))"

fun mutate_loop ::
  "('s \<Rightarrow> string \<Rightarrow> int \<Rightarrow> run_owner stored option) \<Rightarrow> ('s \<Rightarrow> run_owner stored \<Rightarrow> run_owner \<Rightarrow> 's \<times> (auto_exn + bool))
    \<Rightarrow> (string \<Rightarrow> string) \<Rightarrow> (nat \<Rightarrow> 's \<Rightarrow> 's) \<Rightarrow> (nat \<Rightarrow> int) \<Rightarrow> run_change \<Rightarrow> string \<Rightarrow> nat \<Rightarrow> nat \<Rightarrow> 's
    \<Rightarrow> 's \<times> (auto_exn + run_owner stored)" where
  "mutate_loop rd wr sha env clock change user i 0 s = (s, refused ''coordination_contended'')"
| "mutate_loop rd wr sha env clock change user i (Suc n) s =
     (case rd s user (clock i) of
        None \<Rightarrow> (s, refused ''coordination_missing'')
      | Some prior \<Rightarrow> (case committed sha change prior of
            Inl e \<Rightarrow> (s, Inl e)
          | Inr updated \<Rightarrow> (case wr (env (2 * i) s) prior updated of
                (s1, Inl e) \<Rightarrow> (s1, Inl e)
              | (s1, Inr True) \<Rightarrow> (s1, Inr \<lparr>st_value = updated, st_etag = '''', st_now = st_now prior\<rparr>)
              | (s1, Inr False) \<Rightarrow> mutate_loop rd wr sha env clock change user (Suc i) n (env (2 * i + 1) s1))))"

definition mutate_owner where
  "mutate_owner sha rt sized env clock change user s =
     mutate_loop store_read_owner (store_write_owner sha rt sized) sha env clock change user 0 MUTATE_ATTEMPTS s"

text \<open>
  The loop of \<open>start\<close> for a scheduled occurrence: the run and the schedule in one write, while the
  schedule still authorizes the occurrence.
\<close>

definition occurrence_authorized :: "workflow_schedule \<Rightarrow> int option \<Rightarrow> string \<Rightarrow> string \<Rightarrow> int \<Rightarrow> auto_exn + unit" where
  "occurrence_authorized v generation key bundle now =
     (if \<not> sc_enabled v \<or> Some (sc_generation v) \<noteq> generation \<or> sc_pendingKey v \<noteq> Some key \<or> sc_bundleDigest v \<noteq> bundle
      then refused ''schedule_revoked''
      else case sc_pendingSlot v of
          None \<Rightarrow> refused ''occurrence_missed''
        | Some slot \<Rightarrow> ensure (now \<le> oc_dueAt slot + MISSED_GRACE_MICROS) (AutomationError ''occurrence_missed''))"

fun admit_loop ::
  "(string \<Rightarrow> string) \<Rightarrow> (string \<Rightarrow> int) \<Rightarrow> (run_owner \<Rightarrow> bool) \<Rightarrow> (workflow_schedule \<Rightarrow> auto_exn + unit) \<Rightarrow> (nat \<Rightarrow> auto_store \<Rightarrow> auto_store)
    \<Rightarrow> (nat \<Rightarrow> int) \<Rightarrow> admission \<Rightarrow> string \<Rightarrow> string \<Rightarrow> nat \<Rightarrow> nat \<Rightarrow> auto_store
    \<Rightarrow> auto_store \<times> (auto_exn + run_owner stored)" where
  "admit_loop sha rt sized sched_ok env clock an schedule_id bundle i 0 s = (s, refused ''schedule_changed'')"
| "admit_loop sha rt sized sched_ok env clock an schedule_id bundle i (Suc n) s =
     (case store_read_owner s (an_executionOwner an) (clock i) of
        None \<Rightarrow> (s, refused ''coordination_missing'')
      | Some prior \<Rightarrow>
          if map_of (ao_runs (st_value prior)) (an_runId an) \<noteq> None
          then mutate_owner sha rt sized (\<lambda>j. env (3 * i + 1 + j)) (\<lambda>j. clock (i + j))
                 (claim_run sha rt an) (an_executionOwner an) (env (3 * i) s)
          else case store_read_schedule (env (3 * i) s) (an_executionOwner an) schedule_id (clock i) of
              None \<Rightarrow> (env (3 * i) s, refused ''schedule_revoked'')
            | Some sched \<Rightarrow>
                (case bindE (occurrence_authorized (st_value sched) (an_scheduleGeneration an) (an_key an) bundle (st_now prior))
                    (\<lambda>_. committed sha (claim_run sha rt an) prior) of
                   Inl e \<Rightarrow> (env (3 * i) s, Inl e)
                 | Inr updated \<Rightarrow>
                     (case store_write_schedule sha rt sized sched_ok (env (3 * i + 1) (env (3 * i) s)) prior updated
                         ((st_value sched)\<lparr>sc_revision := sc_revision (st_value sched) + 1\<rparr>) (Some sched) of
                        (s1, Inl e) \<Rightarrow> (s1, Inl e)
                      | (s1, Inr True) \<Rightarrow> (s1, Inr \<lparr>st_value = updated, st_etag = '''', st_now = st_now prior\<rparr>)
                      | (s1, Inr False) \<Rightarrow>
                          admit_loop sha rt sized sched_ok env clock an schedule_id bundle (Suc i) n (env (3 * i + 2) s1))))"

definition admit_scheduled where
  "admit_scheduled sha rt sized sched_ok env clock an schedule_id bundle s =
     admit_loop sha rt sized sched_ok env clock an schedule_id bundle 0 MUTATE_ATTEMPTS s"

section \<open>The contract of a store\<close>

text \<open>
  What the service relies on of a store: a read is of the current document, a write that wins found
  its prior document current and put the new one in its place, one that does not changes nothing,
  and a write is lost only when the document has changed since it was read.
\<close>

text \<open>
  The result \<open>r\<close> of a loop that ended in \<open>s'\<close> as one step from \<open>t\<close>: a document that was written is
  the change of the one \<open>t\<close> held, and what raised wrote nothing.
\<close>

definition commits ::
  "('s \<Rightarrow> string \<Rightarrow> run_owner option) \<Rightarrow> (run_owner \<Rightarrow> run_owner \<Rightarrow> bool) \<Rightarrow> run_change \<Rightarrow> 's \<Rightarrow> 's \<Rightarrow> auto_exn + run_owner stored \<Rightarrow> bool" where
  "commits doc admits change t s' r \<longleftrightarrow> (case r of
     Inl e \<Rightarrow> s' = t
   | Inr st \<Rightarrow> \<exists>prior now upd. doc t (ao_userId (st_value st)) = Some prior \<and> change prior now = Inr upd
       \<and> st_value st = upd\<lparr>ao_revision := ao_revision prior + 1\<rparr> \<and> admits prior (st_value st)
       \<and> doc s' = (doc t)(ao_userId (st_value st) \<mapsto> st_value st))"

definition filed :: "('s \<Rightarrow> string \<Rightarrow> run_owner option) \<Rightarrow> string \<Rightarrow> 's \<Rightarrow> bool" where
  "filed doc user s \<longleftrightarrow> (\<forall>v. doc s user = Some v \<longrightarrow> ao_userId v = user)"

locale owner_store =
  fixes rd :: "'s \<Rightarrow> string \<Rightarrow> int \<Rightarrow> run_owner stored option"
    and wr :: "'s \<Rightarrow> run_owner stored \<Rightarrow> run_owner \<Rightarrow> 's \<times> (auto_exn + bool)"
    and doc :: "'s \<Rightarrow> string \<Rightarrow> run_owner option"
    and admits :: "run_owner \<Rightarrow> run_owner \<Rightarrow> bool"
  assumes read_doc: "rd s u t = Some p \<Longrightarrow> doc s u = Some (st_value p)"
    and won: "wr s p v = (s', Inr True) \<Longrightarrow> admits (st_value p) v \<and> doc s (ao_userId v) = Some (st_value p)
      \<and> doc s' = (doc s)(ao_userId v \<mapsto> v)"
    and lost: "wr s p v = (s', r) \<Longrightarrow> r \<noteq> Inr True \<Longrightarrow> s' = s"
    and free: "rd s u t = Some p \<Longrightarrow> doc s1 u = Some (st_value p) \<Longrightarrow> ao_userId v = u \<Longrightarrow> snd (wr s1 p v) \<noteq> Inr False"
    and uncontended: "snd (wr s p v) \<noteq> Inl (AutomationError ''coordination_contended'')"
begin

lemma loop_is_atomic:
  assumes "mutate_loop rd wr sha env clock change user i n s = (s', r)"
  shows "\<exists>k. commits doc admits change (fold env [2 * i..<k] s) s' r"
  using assms
proof (induction n arbitrary: i s)
  case 0
  then show ?case by (auto simp: commits_def intro: exI [of _ "2 * i"])
next
  case (Suc n)
  show ?case
  proof (cases "rd s user (clock i)")
    case None
    with Suc.prems show ?thesis by (auto simp: commits_def intro: exI [of _ "2 * i"])
  next
    case prior: (Some prior)
    show ?thesis
    proof (cases "committed sha change prior")
      case (Inl e)
      with prior Suc.prems show ?thesis by (auto simp: commits_def intro: exI [of _ "2 * i"])
    next
      case upd: (Inr updated)
      obtain s1 w where w: "wr (env (2 * i) s) prior updated = (s1, w)" by fastforce
      have one: "fold env [2 * i..<Suc (2 * i)] s = env (2 * i) s" by simp
      show ?thesis
      proof (cases w)
        case (Inl e)
        with prior upd w Suc.prems lost [OF w] have "s' = fold env [2 * i..<Suc (2 * i)] s" "r = Inl e" by simp_all
        then show ?thesis by (intro exI [of _ "Suc (2 * i)"]) (simp only: commits_def sum.case)
      next
        case (Inr b)
        show ?thesis
        proof (cases b)
          case True
          with Inr prior upd w Suc.prems have r: "s' = s1" "r = Inr \<lparr>st_value = updated, st_etag = '''', st_now = st_now prior\<rparr>"
            by simp_all
          from upd obtain u where "change (st_value prior) (st_now prior) = Inr u"
            "updated = u\<lparr>ao_revision := ao_revision (st_value prior) + 1\<rparr>"
            by (auto simp: committed_def owner_validated_def bindE_Inr_iff)
          with r won [of "env (2 * i) s" prior updated s1] w Inr True one show ?thesis
            by (intro exI [of _ "Suc (2 * i)"]) (auto simp: commits_def)
        next
          case False
          with Inr prior upd w Suc.prems lost [OF w]
          have rest: "mutate_loop rd wr sha env clock change user (Suc i) n (env (2 * i + 1) (env (2 * i) s)) = (s', r)"
            by simp
          have two: "fold env [2 * i..<max k (2 * Suc i)] s = fold env [2 * Suc i..<k] (env (2 * i + 1) (env (2 * i) s))" for k
          proof -
            have "[2 * i..<max k (2 * Suc i)] = 2 * i # (2 * i + 1) # [2 * Suc i..<k]"
              by (simp add: upt_conv_Cons max_def)
            then show ?thesis by simp
          qed
          from Suc.IH [OF rest] show ?thesis unfolding two [symmetric] by blast
        qed
      qed
    qed
  qed
qed

lemma loop_wins:
  assumes "i \<le> j" "j < i + n" and quiet: "\<And>t. doc (env (2 * j) t) user = doc t user"
    and filed: "filed doc user s" "\<And>k t. filed doc user t \<Longrightarrow> filed doc user (env k t)"
    and own: "\<And>v t u. change v t = Inr u \<Longrightarrow> ao_userId u = ao_userId v"
    and raises: "\<And>v t. change v t \<noteq> Inl (AutomationError ''coordination_contended'')"
  shows "snd (mutate_loop rd wr sha env clock change user i n s) \<noteq> Inl (AutomationError ''coordination_contended'')"
  using assms(1,2,4)
proof (induction n arbitrary: i s)
  case (Suc n)
  show ?case
  proof (cases "rd s user (clock i)")
    case prior: (Some prior)
    show ?thesis
    proof (cases "committed sha change prior")
      case (Inl e)
      with prior raises show ?thesis by (auto simp: committed_def owner_validated_def bindE_Inl_iff ensure_def split: sum.splits if_splits)
    next
      case upd: (Inr updated)
      obtain s1 w where w: "wr (env (2 * i) s) prior updated = (s1, w)" by fastforce
      have ne: "w \<noteq> Inl (AutomationError ''coordination_contended'')" using uncontended [of "env (2 * i) s" prior updated] w by simp
      show ?thesis
      proof (cases "w = Inr False")
        case True
        have "doc s user = Some (st_value prior)" using prior by (rule read_doc)
        moreover have "ao_userId updated = user"
          using upd own Suc.prems(3) calculation by (auto simp: filed_def committed_def owner_validated_def bindE_Inr_iff)
        ultimately have "i \<noteq> j" using free [OF prior, of "env (2 * i) s" updated] w True quiet by auto
        then have "Suc i \<le> j" "j < Suc i + n" using Suc.prems by auto
        moreover have "filed doc user (env (2 * i + 1) s1)"
          using Suc.prems(3) filed(2) lost [OF w] True by simp
        ultimately have "snd (mutate_loop rd wr sha env clock change user (Suc i) n (env (2 * i + 1) s1))
            \<noteq> Inl (AutomationError ''coordination_contended'')" by (rule Suc.IH)
        then show ?thesis using prior upd w True by simp
      next
        case False
        with ne prior upd w show ?thesis by (cases w) (auto split: bool.splits)
      qed
    qed
  qed simp
qed simp

end

text \<open>The in-memory store keeps the contract.\<close>

definition owner_admits :: "(string \<Rightarrow> string) \<Rightarrow> (string \<Rightarrow> int) \<Rightarrow> (run_owner \<Rightarrow> bool) \<Rightarrow> run_owner \<Rightarrow> run_owner \<Rightarrow> bool" where
  "owner_admits sha rt sized prior v \<longleftrightarrow> assert_owner rt prior v = Inr () \<and> writable_owner sha sized v = Inr ()"

lemma check_each_error: "check_each f xs = Inl e \<Longrightarrow> \<exists>x \<in> set xs. f x = Inl e"
  by (induction xs) (auto simp: bindE_Inl_iff)

lemma assert_owner_error:
  "assert_owner rt prior v = Inl e \<Longrightarrow>
     e \<in> {AutomationError ''state_corrupt'', AutomationError ''budget_changed'', AutomationError ''accounting_changed''}"
  by (auto simp: assert_owner_def validate_money_transition_def bindE_Inl_iff run_may_become_def effect_may_become_def ensure_def
      split: sum.splits if_splits option.splits dest!: check_each_error)

interpretation mem: owner_store store_read_owner "store_write_owner sha rt sized" "\<lambda>s. map_of (as_owners s)" "owner_admits sha rt sized"
proof
  show "snd (store_write_owner sha rt sized s p v) \<noteq> Inl (AutomationError ''coordination_contended'')" for s p v
    using assert_owner_error [of rt "st_value p" v]
    by (auto simp: store_write_owner_def writable_owner_def bindE_Inl_iff ensure_def split: sum.splits option.splits if_splits)
qed (auto simp: store_read_owner_def store_write_owner_def owner_admits_def map_of_update bindE_Inr_iff fun_eq_iff
    split: sum.splits option.splits if_splits)


section \<open>What a loop that returns has done\<close>

text \<open>
  C17: changing an owner document is one atomic step, whatever other clients do meanwhile. When
  \<open>mutate_owner\<close> returns a document, there was a moment at which the stored document was \<open>prior\<close>,
  the change applied to it gave what is stored, under the next revision, and nothing else of the
  owners changed; it passed the fence and the validator. When it raises, it has written nothing:
  the store is what the others made of it.
\<close>

theorem mutate_owner_is_atomic:
  assumes "mutate_owner sha rt sized env clock change user s = (s', r)"
  shows "\<exists>k. commits (\<lambda>s. map_of (as_owners s)) (owner_admits sha rt sized) change (fold env [0..<k] s) s' r"
  using mem.loop_is_atomic [of sha rt sized sha env clock change user 0 MUTATE_ATTEMPTS s s' r] assms
  by (simp add: mutate_owner_def)

text \<open>
  C18: three attempts are enough against a store that leaves the owner alone once. If during one of
  the attempts no other client writes this owner's document between the read and the write, the
  loop does not end as contended, however much the others interfere otherwise.
\<close>

theorem mutate_owner_gets_through:
  assumes "j < MUTATE_ATTEMPTS" "\<And>t. map_of (as_owners (env (2 * j) t)) user = map_of (as_owners t) user"
    and "filed (\<lambda>s. map_of (as_owners s)) user s"
    and "\<And>k t. filed (\<lambda>s. map_of (as_owners s)) user t \<Longrightarrow> filed (\<lambda>s. map_of (as_owners s)) user (env k t)"
    and "\<And>v t u. change v t = Inr u \<Longrightarrow> ao_userId u = ao_userId v"
    and "\<And>v t. change v t \<noteq> Inl (AutomationError ''coordination_contended'')"
  shows "snd (mutate_owner sha rt sized env clock change user s) \<noteq> Inl (AutomationError ''coordination_contended'')"
  unfolding mutate_owner_def
  by (rule mem.loop_wins [where j = j]) (use assms in simp_all)

definition demo_interference :: "nat \<Rightarrow> auto_store \<Rightarrow> auto_store" where
  "demo_interference i s = (if i = 0 then s\<lparr>as_owners := AList.update ''alice'' ((new_owner ''alice'' ''e1'')\<lparr>ao_revision := 1\<rparr>)
     (as_owners s)\<rparr> else s)"

definition demo_owners :: auto_store where
  "demo_owners = \<lparr>as_owners = [(''alice'', new_owner ''alice'' ''e1'')], as_schedules = []\<rparr>"

theorem mutate_owner_is_atomic_witness:
  "let m = mutate_owner (\<lambda>_. ''0'') (\<lambda>_. 0) (\<lambda>_. True) demo_interference (\<lambda>_. 5) (\<lambda>ow now. Inr ow) ''alice'' demo_owners in
    (\<exists>k. commits (\<lambda>s. map_of (as_owners s)) (owner_admits (\<lambda>_. ''0'') (\<lambda>_. 0) (\<lambda>_. True)) (\<lambda>ow now. Inr ow)
      (fold demo_interference [0..<k] demo_owners) (fst m) (snd m))
    \<and> map_of (map (\<lambda>(k, v). (k, ao_revision v)) (as_owners (fst m))) ''alice'' = Some 2"
proof -
  let ?m = "mutate_owner (\<lambda>_. ''0'') (\<lambda>_. 0) (\<lambda>_. True) demo_interference (\<lambda>_. 5) (\<lambda>ow now. Inr ow) ''alice'' demo_owners"
  have "map_of (map (\<lambda>(k, v). (k, ao_revision v)) (as_owners (fst ?m))) ''alice'' = Some 2" by code_simp
  then show ?thesis using mutate_owner_is_atomic [of _ _ _ _ _ _ _ _ "fst ?m" "snd ?m"] by (simp add: Let_def)
qed

theorem mutate_owner_gets_through_witness:
  "snd (mutate_owner (\<lambda>_. ''0'') (\<lambda>_. 0) (\<lambda>_. True) demo_interference (\<lambda>_. 5) (fence_run ''r'') ''alice'' demo_owners)
     \<noteq> Inl (AutomationError ''coordination_contended'')"
proof (rule mutate_owner_gets_through [of 1])
  show "fence_run ''r'' v t = Inr u \<Longrightarrow> ao_userId u = ao_userId v" for v t u
    by (auto simp: fence_run_def put_run_def split: option.splits)
  show "fence_run ''r'' v t \<noteq> Inl (AutomationError ''coordination_contended'')" for v t
    by (simp add: fence_run_def split: option.split)
qed (auto simp: MUTATE_ATTEMPTS_def demo_interference_def demo_owners_def filed_def new_owner_def map_of_update)

end
