(* ===== verification/Wf_Reach.thy ===== *)
theory Wf_Reach
  imports Wf_Trace Wf_Store
begin

text \<open>
  What holds of every owner document the changes can lead to: it is one the validator accepts and
  each further change passes the fence, no two runs of a workflow overlap, and an operation a run
  has passed is never reserved again.
\<close>

section \<open>Reachable documents\<close>

text \<open>\<open>ok\<close> is what is asked of the changes beyond what their callers supply.\<close>

inductive leads_to ::
  "(string \<Rightarrow> string) \<Rightarrow> (string \<Rightarrow> int) \<Rightarrow> (int \<Rightarrow> int \<Rightarrow> int \<Rightarrow> price_rate \<Rightarrow> int) \<Rightarrow> (string \<Rightarrow> int)
    \<Rightarrow> (owner_change \<Rightarrow> run_owner \<Rightarrow> bool) \<Rightarrow> run_owner \<Rightarrow> run_owner \<Rightarrow> bool"
  for sha rt product issued ok ow where
  start: "leads_to sha rt product issued ok ow ow"
| change: "leads_to sha rt product issued ok ow v \<Longrightarrow> supplied rt issued c v \<Longrightarrow> ok c v \<Longrightarrow>
    apply_change sha rt product c v now = Inr v' \<Longrightarrow>
    leads_to sha rt product issued ok ow (v'\<lparr>ao_revision := ao_revision v + 1\<rparr>)"

inductive_simps leads_to_start: "leads_to sha rt product issued ok ow ow"

section \<open>Writing the revision\<close>

lemma revision_alone [simp]:
  "run_of (ow\<lparr>ao_revision := n\<rparr>) = run_of ow" "effect_of (ow\<lparr>ao_revision := n\<rparr>) = effect_of ow"
  "keyed rt issued (ow\<lparr>ao_revision := n\<rparr>) = keyed rt issued ow"
  by (auto simp: fun_eq_iff run_of_def effect_of_def keyed_def)

lemma books_revision [simp]: "books sha (ow\<lparr>ao_revision := n\<rparr>) = books sha ow"
proof -
  have "owns (ow\<lparr>ao_revision := n\<rparr>) = owns ow" by (simp add: fun_eq_iff owns_def)
  moreover have "tallied (ow\<lparr>ao_revision := n\<rparr>) run acc = tallied ow run acc" for run acc
    by (rule tallied_eq) (simp_all add: calculation)
  moreover have "scoped sha (ow\<lparr>ao_revision := n\<rparr>) h = scoped sha ow h" for h
    by (simp add: scoped_def cong: option.case_cong)
  ultimately have "run_kept sha (ow\<lparr>ao_revision := n\<rparr>) k h = run_kept sha ow k h" for k h
    by (simp add: run_kept_def quiet_def)
  moreover have "effect_kept (ow\<lparr>ao_revision := n\<rparr>) k e = effect_kept ow k e" for k e
    by (simp add: effect_kept_def cong: option.case_cong)
  ultimately show ?thesis by (simp add: books_def active_runs_def)
qed

lemma fenced_revision: "fenced rt ow (ow'\<lparr>ao_revision := n\<rparr>) = fenced rt ow ow'"
proof -
  have "run_may_become rt ow (ow'\<lparr>ao_revision := n\<rparr>) = run_may_become rt ow ow'"
    "effect_may_become ow (ow'\<lparr>ao_revision := n\<rparr>) = effect_may_become ow ow'"
    by (simp_all add: fun_eq_iff run_may_become_def effect_may_become_def Let_def cong: option.case_cong)
  then show ?thesis by (simp add: fenced_def validate_money_transition_def)
qed

lemma fenced_refl: "books sha ow \<Longrightarrow> fenced rt ow ow"
  using validate_iff [OF booksD(1,2)] run_unchanged effect_unchanged by (auto simp: fenced_def)

lemma books_new_owner: "books sha (new_owner user epoch)"
  by (simp add: books_def new_owner_def run_of_def effect_of_def active_runs_def)

section \<open>Admissions\<close>

definition admits_run :: "admission \<Rightarrow> run_owner \<Rightarrow> run_owner \<Rightarrow> bool" where
  "admits_run an v ow' \<longleftrightarrow> (\<exists>h. ow' = put_run v (an_runId an) h \<and> map_of (ao_runs v) (an_runId an) = None
     \<and> rh_idempotencyKey h = an_key an \<and> rh_workflowKey h = an_workflowKey an
     \<and> (\<forall>a. rh_money h = Some a \<longrightarrow> \<not> ma_blocked a)
     \<and> ao_requestFloor v \<le> an_issued an
     \<and> (\<forall>k g. run_of v k g \<longrightarrow> \<not> (rh_active g \<and> rh_workflowKey g = an_workflowKey an)))"

lemma claim_runD:
  assumes b: "books sha ow" and c: "claim_run sha rt an ow now = Inr ow'"
  shows "\<exists>v. books sha v \<and> swept rt (now - HORIZON_MICROS) ow v \<and> (ow' = v \<or> admits_run an v ow')"
proof -
  from c obtain v where v: "compact sha rt ow now = Inr v" by (auto simp: claim_run_def bindE_Inr_iff)
  have "ow' = v \<or> admits_run an v ow'"
  proof (cases "map_of (ao_runs v) (an_runId an)")
    case (Some g)
    with c v show ?thesis by (auto simp: claim_run_def bindE_Inr_iff split: if_splits)
  next
    case None
    from c v None obtain money h where "ow' = put_run v (an_runId an) h" "rh_idempotencyKey h = an_key an"
      "rh_workflowKey h = an_workflowKey an" "rh_money h = money" "ao_requestFloor v \<le> an_issued an"
      and m: "(case an_maxSpend an of None \<Rightarrow> Inr None
                | Some lim \<Rightarrow> bindE (budget_identity sha (an_executionOwner an) (ao_epoch v) (an_runId an)
                      (an_fingerprint an) lim) (\<lambda>b. bindE (new_money b lim) (\<lambda>m. Inr (Some m)))) = Inr money"
      and o: "\<not> list_ex (\<lambda>(k, h). rh_active h \<and> rh_workflowKey h = an_workflowKey an) (ao_runs v)"
      by (auto simp: claim_run_def bindE_Inr_iff mk_handle_def split: if_splits)
    moreover have "\<not> ma_blocked a" if "money = Some a" for a
      using m that by (auto simp: bindE_Inr_iff new_money_def split: option.splits)
    moreover have "\<not> (rh_active g \<and> rh_workflowKey g = an_workflowKey an)" if "run_of v k g" for k g
      using o that by (auto simp: list_ex_iff run_of_def dest!: map_of_SomeD)
    ultimately show ?thesis using None by (auto simp: admits_run_def)
  qed
  with compactD(1) [OF b v] compact_books [OF b v] show ?thesis by blast
qed

text \<open>The handles after any change: one there before that moved, or the one a claim admits.\<close>

lemma change_of_handle:
  assumes b: "books sha ow" and a: "apply_change sha rt product c ow now = Inr ow'" and h: "run_of ow' k h'"
  shows "(\<exists>h. run_of ow k h \<and> moves (is_receipt c) h h')
    \<or> (\<exists>an v. c = CClaim an \<and> swept rt (now - HORIZON_MICROS) ow v \<and> admits_run an v ow' \<and> k = an_runId an)"
proof (cases "is_claim c")
  case False
  from change_follows [OF b a False] h show ?thesis by (auto simp: follows_def)
next
  case True
  then obtain an where c: "c = CClaim an" by (auto simp: is_claim_def split: owner_change.splits)
  with a have "claim_run sha rt an ow now = Inr ow'" by simp
  from claim_runD [OF b this] obtain v where v: "swept rt (now - HORIZON_MICROS) ow v" "ow' = v \<or> admits_run an v ow'"
    by blast
  show ?thesis
  proof (cases "ow' = v \<or> k \<noteq> an_runId an")
    case True
    with v h have "run_of v k h'" by (auto simp: admits_run_def put_run_def run_of_def map_of_update)
    with v(1) show ?thesis by (auto simp: swept_def intro: exI [of _ h'])
  next
    case False
    with v c show ?thesis by blast
  qed
qed

section \<open>The books of a reachable document\<close>

lemma keyed_run_of: "books sha ow \<Longrightarrow> keyed rt issued ow \<longleftrightarrow> (\<forall>k h. run_of ow k h \<longrightarrow> rt (rh_idempotencyKey h) = issued k)"
  using booksD(1) [of sha ow] by (auto simp: keyed_def run_of_def)

lemma change_books:
  assumes b: "books sha ow" and k: "keyed rt issued ow" and s: "supplied rt issued c ow"
    and a: "apply_change sha rt product c ow now = Inr ow'"
  shows "books sha ow'" "keyed rt issued ow'" "fenced rt ow ow'"
proof -
  from change_is_sound [OF b k s a] show b': "books sha ow'" and "fenced rt ow ow'"
    using fenced_refl [OF b] b by (auto simp: sound_change_def)
  have "rt (rh_idempotencyKey h') = issued r" if "run_of ow' r h'" for r h'
    using change_of_handle [OF b a that]
  proof (elim disjE exE conjE)
    fix h assume "run_of ow r h" "moves (is_receipt c) h h'"
    then show ?thesis using k keyed_run_of [OF b] by (simp add: moves_def)
  next
    fix an v assume "c = CClaim an" "admits_run an v ow'" "r = an_runId an"
    then show ?thesis using s that by (auto simp: admits_run_def put_run_def run_of_def map_of_update)
  qed
  then show "keyed rt issued ow'" using keyed_run_of [OF b'] by blast
qed

lemma leads_to_books:
  assumes "leads_to sha rt product issued ok ow v" "books sha ow" "keyed rt issued ow"
  shows "books sha v \<and> keyed rt issued v"
  using assms by (induction rule: leads_to.induct) (auto dest: change_books)

lemma leads_to_invariant:
  assumes "leads_to sha rt product issued ok (new_owner user epoch) ow" "keeps (new_owner user epoch)"
    and "\<And>v c now v'. books sha v \<Longrightarrow> keyed rt issued v \<Longrightarrow> keeps v \<Longrightarrow> supplied rt issued c v \<Longrightarrow> ok c v \<Longrightarrow>
      apply_change sha rt product c v now = Inr v' \<Longrightarrow> keeps (v'\<lparr>ao_revision := ao_revision v + 1\<rparr>)"
  shows "keeps ow"
proof -
  have "keeps ow \<and> books sha ow \<and> keyed rt issued ow"
    using assms(1)
  proof induction
    case start
    with assms(2) show ?case by (simp add: books_new_owner) (simp add: keyed_def new_owner_def)
  next
    case (change v c now v')
    with assms(3) [of v c now v'] change_books [of sha v rt issued c product now v'] show ?case by simp
  qed
  then show ?thesis ..
qed

lemma leads_to_new_owner:
  "leads_to sha rt product issued ok (new_owner user epoch) ow \<Longrightarrow> books sha ow \<and> keyed rt issued ow"
  by (erule leads_to_books) (rule books_new_owner, simp add: keyed_def new_owner_def)


section \<open>No two runs of a workflow overlap\<close>

definition no_overlap :: "run_owner \<Rightarrow> bool" where
  "no_overlap ow \<longleftrightarrow> (\<forall>k h j g. run_of ow k h \<and> run_of ow j g \<and> rh_active h \<and> rh_active g
     \<and> rh_workflowKey h = rh_workflowKey g \<longrightarrow> k = j)"

lemma change_no_overlap:
  assumes b: "books sha ow" and n: "no_overlap ow" and a: "apply_change sha rt product c ow now = Inr ow'"
  shows "no_overlap ow'"
proof (cases "is_claim c")
  case False
  from change_follows [OF b a False] have
    "\<exists>h0. run_of ow k h0 \<and> (rh_active h \<longrightarrow> rh_active h0) \<and> rh_workflowKey h = rh_workflowKey h0" if "run_of ow' k h" for k h
    using that by (fastforce simp: follows_def moves_def)
  with n show ?thesis unfolding no_overlap_def by metis
next
  case True
  then obtain an where c: "c = CClaim an" by (auto simp: is_claim_def split: owner_change.splits)
  with a have "claim_run sha rt an ow now = Inr ow'" by simp
  from claim_runD [OF b this] obtain v where v: "swept rt (now - HORIZON_MICROS) ow v" "ow' = v \<or> admits_run an v ow'"
    by blast
  have "no_overlap v" using n v(1) by (auto simp: no_overlap_def swept_def)
  with v(2) show ?thesis
    by (auto simp: no_overlap_def admits_run_def put_run_def run_of_def map_of_update split: if_splits)
qed


section \<open>A passed operation\<close>

definition passed :: "(string \<Rightarrow> int) \<Rightarrow> string \<Rightarrow> int \<Rightarrow> run_owner \<Rightarrow> bool" where
  "passed issued run n ow \<longleftrightarrow> (case map_of (ao_runs ow) run of
     None \<Rightarrow> issued run < ao_requestFloor ow
   | Some h \<Rightarrow> n \<le> rh_operationFloor h)"

lemma passed_revision [simp]: "passed issued run n (ow\<lparr>ao_revision := r\<rparr>) = passed issued run n ow"
  by (cases "map_of (ao_runs ow) run") (simp_all add: passed_def)

lemma change_passed:
  assumes b: "books sha ow" and k: "keyed rt issued ow" and s: "supplied rt issued c ow" and p: "passed issued run n ow"
    and a: "apply_change sha rt product c ow now = Inr ow'"
  shows "passed issued run n ow'"
proof (cases "is_claim c")
  case False
  note f = change_follows [OF b a False]
  show ?thesis
  proof (cases "map_of (ao_runs ow') run")
    case None
    with f have "map_of (ao_runs ow) run = None" by (simp add: follows_def map_of_eq_None_iff flip: set_map)
    with None f p show ?thesis by (simp add: passed_def follows_def)
  next
    case (Some h')
    with f obtain h where "run_of ow run h" "moves (is_receipt c) h h'" by (auto simp: follows_def run_of_def)
    with Some p show ?thesis by (auto simp: passed_def run_of_def moves_def)
  qed
next
  case True
  then obtain an where c: "c = CClaim an" by (auto simp: is_claim_def split: owner_change.splits)
  with a have "claim_run sha rt an ow now = Inr ow'" by simp
  from claim_runD [OF b this] obtain v where v: "swept rt (now - HORIZON_MICROS) ow v" "ow' = v \<or> admits_run an v ow'"
    by blast
  have pv: "passed issued run n v"
  proof (cases "map_of (ao_runs v) run")
    case (Some h)
    then have "run_of ow run h" using v(1) by (auto simp: swept_def run_of_def)
    with Some p show ?thesis by (simp add: passed_def run_of_def)
  next
    case none: None
    show ?thesis
    proof (cases "map_of (ao_runs ow) run")
      case None
      with none p v(1) show ?thesis by (simp add: passed_def swept_def)
    next
      case (Some h)
      from none have "\<not> run_of v run h" by (simp add: run_of_def)
      with Some v(1) have "retires rt ow (now - HORIZON_MICROS) run" unfolding swept_def run_of_def by blast
      then obtain g where "run_of ow run g" "can_retire_run rt ow g (now - HORIZON_MICROS)" by (auto simp: retires_def)
      then have "issued run < now - HORIZON_MICROS" using k keyed_run_of [OF b] by (simp add: can_retire_run_def)
      with none v(1) show ?thesis by (simp add: passed_def swept_def)
    qed
  qed
  show ?thesis
  proof (cases "ow' = v \<or> run \<noteq> an_runId an")
    case True
    with v(2) pv show ?thesis by (auto simp: admits_run_def passed_def put_run_def map_of_update split: option.splits)
  next
    case False
    with v(2) have "map_of (ao_runs v) run = None" "ao_requestFloor v \<le> an_issued an" by (auto simp: admits_run_def)
    moreover have "an_issued an = issued run" using s c False by simp
    ultimately show ?thesis using pv by (simp add: passed_def)
  qed
qed


end
