(* ===== verification/Wf_Spend.thy ===== *)
theory Wf_Spend
  imports Wf_Reach
begin

text \<open>
  The cap of a run: while every settled receipt stays within the bounds its dispatch was held for,
  no account is ever blocked, and what is settled and what is held stay within the limit.
\<close>

section \<open>Receipts within their bounds\<close>

text \<open>\<open>overruns\<close> is the test \<open>settle_money\<close> blocks a run for.\<close>

definition within_bounds :: "owner_change \<Rightarrow> run_owner \<Rightarrow> bool" where
  "within_bounds c ow \<longleftrightarrow> (case c of
     CReceipt cx ticket re \<Rightarrow> (case map_of (ao_effects ow) ticket of None \<Rightarrow> True
       | Some e \<Rightarrow> (case ef_money e of None \<Rightarrow> True
           | Some d \<Rightarrow> (case receipt_amounts (re_completed re) (dm_bounds d) (re_usage re) of
               Inl _ \<Rightarrow> True | Inr actual \<Rightarrow> \<not> overruns d actual)))
   | _ \<Rightarrow> True)"

lemma fsum_member:
  assumes "map_of d k = Some v" "\<And>k v. (k, v) \<in> set d \<Longrightarrow> 0 \<le> f v"
  shows "f v \<le> fsum f d"
  using assms
proof (induction d)
  case (Cons p d)
  obtain k' v' where p: "p = (k', v')" by fastforce
  have pos: "0 \<le> f w" if "(j, w) \<in> set d" for j w using Cons.prems(2) that by (meson list.set_intros(2))
  have "0 \<le> fsum f d" using pos by (induction d) fastforce+
  moreover have "0 \<le> f v'" using Cons.prems(2) [of k' v'] p by simp
  ultimately show ?case using Cons.IH pos Cons.prems(1) p by (fastforce split: if_splits)
qed simp

lemma held_covers:
  assumes b: "books sha ow" and e: "effect_of ow k e" and d: "ef_money e = Some d" "dm_phase d = MHeld"
    and h: "run_of ow (ef_runId e) h" "rh_money h = Some a"
  shows "dm_charged d \<le> ma_held a"
proof -
  have kept: "run_kept sha ow (ef_runId e) h" using b h(1) by (rule booksD)
  then have "tallied ow (ef_runId e) (Some a)" using h(2) by (simp add: run_kept_def)
  then have held: "ma_held a = spent ow (ef_runId e) (\<lambda>p. p \<noteq> MSettled)" unfolding tallied_def option.case by blast
  have "mine (ef_runId e) e" using booksD(5) [OF b e] d(1) by (simp add: effect_kept_def mine_def)
  then have "charge (ef_runId e) (\<lambda>p. p \<noteq> MSettled) e = dm_charged d" using d by (simp add: charge_def)
  moreover have "0 \<le> charge r p f" if "(j, f) \<in> set (ao_effects ow)" for r p j f
  proof -
    have "effect_kept ow j f" using booksD(5) [OF b, of j f] booksD(2) [OF b] that by (simp add: effect_of_def)
    then show ?thesis
      by (auto simp: charge_def effect_kept_def effect_ok_def dispatch_money_ok_def count_ok_def split: option.split)
  qed
  ultimately show ?thesis
    using fsum_member [of "ao_effects ow" k e "charge (ef_runId e) (\<lambda>p. p \<noteq> MSettled)"] e held
    by (simp add: effect_of_def)
qed

lemma no_reason:
  assumes "run_money_ok a" "\<not> ma_blocked a" "\<not> overruns d x" "dm_charged d \<le> ma_held a"
  shows "settle_reason a d x = None"
proof -
  have a: "ma_reason a = None" "ma_settled a + ma_held a \<le> MAX_QUANTITY"
    using assms(1,2) by (auto simp: run_money_ok_def coherent_totals_def money_fields_ok_def count_ok_def)
  have "settled_charge a x \<noteq> None" if "Option.bind x am_microUsd = Some c" for c
  proof -
    have "c \<le> dm_charged d" using that assms(3) by (auto simp: overruns_def bind_eq_Some_conv)
    then show ?thesis using that a(2) assms(4) by (simp add: settled_charge_def)
  qed
  then have "\<not> (Option.bind x am_microUsd \<noteq> None \<and> settled_charge a x = None)" by blast
  then show ?thesis using a(1) assms(3) by (simp add: settle_reason_def)
qed

section \<open>The cap\<close>

definition unblocked :: "run_owner \<Rightarrow> bool" where
  "unblocked ow \<longleftrightarrow> (\<forall>k h a. run_of ow k h \<and> rh_money h = Some a \<longrightarrow> \<not> ma_blocked a)"

lemma receipt_unblocked:
  assumes b: "books sha ow" and u: "unblocked ow" and w: "within_bounds (CReceipt cx ticket re) ow"
    and c: "finish_dispatch sha product cx ticket re ow now = Inr ow'"
  shows "unblocked ow'"
proof (cases "ow' = ow")
  case False
  with finish_dispatchD [OF c b] obtain e where e: "effect_of ow ticket e"
    and r: "receipt_step product re ow ticket e ow'" by blast
  from r show ?thesis
  proof cases
    case (settled d us h a a' d' x i)
    have "run_money_ok a" using booksD(4) [OF b settled(5)] settled(6) by (simp add: run_kept_def handle_ok_def)
    moreover have "\<not> ma_blocked a" using u settled(5,6) by (auto simp: unblocked_def)
    moreover have "\<not> overruns d x" using w e settled by (simp add: within_bounds_def effect_of_def)
    moreover have "dm_charged d \<le> ma_held a" using held_covers [OF b e] settled by simp
    ultimately have "ma_reason a' = None" using settled no_reason by simp
    moreover have "run_money_ok a'" using settled(8) by (simp add: settles_def)
    ultimately have "\<not> ma_blocked a'" by (simp add: run_money_ok_def coherent_totals_def)
    then show ?thesis using u unfolding settled
      by (auto simp: unblocked_def rewrite_def run_of_def map_of_update split: if_splits)
  qed (use u in \<open>auto simp: unblocked_def put_effect_def run_of_def\<close>)
qed (use u in simp)

lemma change_unblocked:
  assumes b: "books sha ow" and u: "unblocked ow" and w: "within_bounds c ow"
    and a: "apply_change sha rt product c ow now = Inr ow'"
  shows "unblocked ow'"
proof (cases "is_receipt c")
  case True
  then obtain cx ticket re where "c = CReceipt cx ticket re" by (auto simp: is_receipt_def split: owner_change.splits)
  with receipt_unblocked [OF b u] w a show ?thesis by simp
next
  case False
  show ?thesis
    unfolding unblocked_def
  proof (intro allI impI, elim conjE)
    fix k h' m assume h': "run_of ow' k h'" "rh_money h' = Some m"
    from change_of_handle [OF b a h'(1)] show "\<not> ma_blocked m"
    proof (elim disjE exE conjE)
      fix h assume "run_of ow k h" "moves (is_receipt c) h h'"
      with False h'(2) obtain a where "rh_money h = Some a" "ma_blocked a = ma_blocked m"
        by (cases "rh_money h") (auto simp: moves_def)
      with u \<open>run_of ow k h\<close> show ?thesis by (auto simp: unblocked_def)
    next
      fix an v assume "admits_run an v ow'" "k = an_runId an"
      with h' show ?thesis by (auto simp: admits_run_def put_run_def run_of_def map_of_update)
    qed
  qed
qed

text \<open>
  C7: a capped run never spends past its cap. Along any changes whose settled receipts stay within
  the bounds their dispatches were held for, every account has settled and held no more than the
  limit, and no run is ever blocked: the account a receipt settles cannot overflow, because the
  hold it replaces was already within the limit.
\<close>

theorem capped_runs_stay_within_their_cap:
  assumes "leads_to sha rt product issued within_bounds (new_owner user epoch) ow"
  shows "list_all (\<lambda>(k, h). case rh_money h of None \<Rightarrow> True
    | Some a \<Rightarrow> \<not> ma_blocked a \<and> ma_settled a + ma_held a \<le> ma_limit a) (ao_runs ow)"
proof -
  have u: "unblocked ow"
    using assms
  proof (rule leads_to_invariant)
    show "unblocked (new_owner user epoch)" by (simp add: unblocked_def run_of_def new_owner_def)
    show "unblocked (v'\<lparr>ao_revision := ao_revision v + 1\<rparr>)"
      if "books sha v" "unblocked v" "within_bounds c v" "apply_change sha rt product c v now = Inr v'" for v c now v'
      using change_unblocked [OF that] by (simp add: unblocked_def)
  qed
  have b: "books sha ow" using leads_to_new_owner [OF assms] ..
  have "\<not> ma_blocked a \<and> ma_settled a + ma_held a \<le> ma_limit a" if "(k, h) \<in> set (ao_runs ow)" "rh_money h = Some a" for k h a
  proof -
    have h: "run_of ow k h" using that(1) booksD(1) [OF b] by (simp add: run_of_def)
    then have "run_money_ok a" using booksD(4) [OF b h] that(2) by (simp add: run_kept_def handle_ok_def)
    with u h that(2) show ?thesis by (auto simp: unblocked_def run_money_ok_def coherent_totals_def)
  qed
  then show ?thesis by (fastforce simp: list_all_iff split: option.split)
qed

end
