(* ===== verification/Wf_Demo.thy ===== *)
theory Wf_Demo
  imports Wf_Spend
begin

text \<open>
  A run of one capped model call as a concrete sequence of changes, on which the properties of
  reachable documents are applied.
\<close>

section \<open>Sequences of changes\<close>

fun run_changes ::
  "(string \<Rightarrow> string) \<Rightarrow> (string \<Rightarrow> int) \<Rightarrow> (int \<Rightarrow> int \<Rightarrow> int \<Rightarrow> price_rate \<Rightarrow> int) \<Rightarrow> (string \<Rightarrow> int)
    \<Rightarrow> (owner_change \<Rightarrow> run_owner \<Rightarrow> bool) \<Rightarrow> (owner_change \<times> int) list \<Rightarrow> run_owner \<Rightarrow> run_owner option" where
  "run_changes sha rt product issued ok [] ow = Some ow"
| "run_changes sha rt product issued ok ((c, now) # cs) ow =
     (if supplied rt issued c ow \<and> ok c ow
      then case apply_change sha rt product c ow now of
          Inl e \<Rightarrow> None
        | Inr ow' \<Rightarrow> run_changes sha rt product issued ok cs (ow'\<lparr>ao_revision := ao_revision ow + 1\<rparr>)
      else None)"

lemma run_changes_lead:
  assumes "leads_to sha rt product issued ok ow v" "run_changes sha rt product issued ok cs v = Some w"
  shows "leads_to sha rt product issued ok ow w"
  using assms
proof (induction sha rt product issued ok cs v rule: run_changes.induct)
  case (2 sha rt product issued ok c now cs v)
  then show ?case by (auto split: if_splits sum.splits intro: leads_to.change)
qed simp

section \<open>One capped call\<close>

definition demo_sha :: "string \<Rightarrow> string" where "demo_sha s = replicate 64 CHR ''0''"

definition demo_ctx :: run_ctx where
  "demo_ctx = \<lparr>rc_userId = ''alice'', rc_sessionId = ''s1'', rc_runId = ''alice:r1'', rc_ownerEpoch = ''e1'',
     rc_fingerprint = demo_sha '''',
     rc_limits = \<lparr>xl_maxApplicationDispatches = 64, xl_maxModelCalls = 18, xl_maxToolCalls = 48, xl_maxOutputTokens = 1024,
       xl_maxRuntimeSeconds = 1800, xl_usdAppMeter = True, xl_maxSpendMicroUsd = Some 5000\<rparr>,
     rc_deadline = 1900\<rparr>"

definition demo_admission :: admission where
  "demo_admission = \<lparr>an_runId = ''alice:r1'', an_sessionId = ''s1'', an_checkpointId = ''c1'', an_fingerprint = demo_sha '''',
     an_workflowKey = ''w1'', an_key = ''k1'', an_issued = 100, an_scheduleId = None, an_scheduleGeneration = None,
     an_executionOwner = ''alice'', an_maxSpend = Some 5000\<rparr>"

definition demo_egress :: egress where
  "demo_egress = \<lparr>eg_identifier = ''d1'', eg_surface = SChat, eg_operation = ''0:0:model:-1'', eg_payload = demo_payload,
     eg_deployment = Some ''gpt-5-swe'', eg_target = None, eg_bound = Some demo_text_bounds, eg_approval = None,
     eg_descriptor = \<lparr>ut_provider = ''azure-openai'', ut_deployment = Some ''gpt-5-swe'', ut_target = Some ''gpt-5-swe'',
       ut_region = None, ut_dataZone = None\<rparr>,
     eg_model = ''gpt-5'', eg_prices = demo_book, eg_workflow = ''daily''\<rparr>"

definition demo_receipt :: receipt where
  "demo_receipt = \<lparr>re_usage = Some (JObj demo_usage_object), re_native = None, re_completed = True, re_outcome = OComplete\<rparr>"

definition demo_started :: "(owner_change \<times> int) list" where
  "demo_started = [(CClaim demo_admission, 100), (CReserve demo_ctx ''op1'' ''0:0:model:-1'' 0 False (demo_sha ''''), 101),
     (CDispatchOp demo_ctx ''op1'' (demo_sha ''''), 102), (CEgress demo_ctx demo_egress, 103)]"

definition demo_completed :: "(owner_change \<times> int) list" where
  "demo_completed = demo_started @ [(CReceipt demo_ctx ''d1'' demo_receipt, 104), (CFinishOp ''op1'' False (demo_sha ''''), 105)]"

definition demo_run :: "(owner_change \<times> int) list \<Rightarrow> run_owner option" where
  "demo_run cs = run_changes demo_sha (\<lambda>_. 100) (\<lambda>_ _ _ _. 0) (\<lambda>_. 100) within_bounds cs (new_owner ''alice'' ''e1'')"

lemma demo_leads:
  "demo_run cs = Some ow \<Longrightarrow> leads_to demo_sha (\<lambda>_. 100) (\<lambda>_ _ _ _. 0) (\<lambda>_. 100) within_bounds (new_owner ''alice'' ''e1'') ow"
  unfolding demo_run_def by (rule run_changes_lead [OF leads_to.start])

section \<open>The properties there\<close>

lemma demo_states: "demo_run demo_started \<noteq> None" "demo_run demo_completed \<noteq> None"
  by code_simp+




theorem capped_runs_stay_within_their_cap_witness:
  "case demo_run demo_completed of None \<Rightarrow> False | Some ow \<Rightarrow>
     map (\<lambda>(k, h). map_option (\<lambda>a. (ma_settled a, ma_held a, ma_limit a)) (rh_money h)) (ao_runs ow) = [Some (412, 0, 5000)]
     \<and> list_all (\<lambda>(k, h). case rh_money h of None \<Rightarrow> True
        | Some a \<Rightarrow> \<not> ma_blocked a \<and> ma_settled a + ma_held a \<le> ma_limit a) (ao_runs ow)"
proof -
  obtain ow where ow: "demo_run demo_completed = Some ow" using demo_states(2) by auto
  have "case demo_run demo_completed of None \<Rightarrow> False | Some ow \<Rightarrow>
     map (\<lambda>(k, h). map_option (\<lambda>a. (ma_settled a, ma_held a, ma_limit a)) (rh_money h)) (ao_runs ow) = [Some (412, 0, 5000)]"
    by code_simp
  with ow capped_runs_stay_within_their_cap [OF demo_leads [OF ow]] show ?thesis by simp
qed

end
