(* ===== verification/Agent_Redact.thy ===== *)
theory Agent_Redact
  imports Json
begin

text \<open>
  The redaction of \<open>agents/tools.py\<close>: four regular expressions applied in turn to any text that
  is logged or shown, and the recursive mask of JSON values under credential-named keys. Each
  expression is a matcher at one position (what it replaces and how many characters it consumes);
  \<open>scan\<close> is \<open>re.sub\<close>, which tries it at every position from the left. Strings hold code points
  below 256.
\<close>

definition REDACTED :: string where "REDACTED = ''***REDACTED***''"

section \<open>Character classes\<close>

text \<open>\<open>\w\<close>, \<open>\b\<close> and \<open>[A-Za-z0-9_-]\<close>.\<close>

definition re_word_char :: "char \<Rightarrow> bool" where
  "re_word_char c \<longleftrightarrow> is_alnum c \<or> c = CHR ''_'' \<or>
     (let n = char_code c in n = 170 \<or> n = 178 \<or> n = 179 \<or> n = 181 \<or> n = 185 \<or> n = 186
        \<or> 188 \<le> n \<and> n \<le> 190 \<or> 192 \<le> n \<and> n \<le> 214 \<or> 216 \<le> n \<and> n \<le> 246 \<or> 248 \<le> n)"

definition word_opt :: "char option \<Rightarrow> bool" where
  "word_opt c = (case c of None \<Rightarrow> False | Some d \<Rightarrow> re_word_char d)"

definition first_of :: "string \<Rightarrow> char option" where
  "first_of s = (case s of [] \<Rightarrow> None | c # _ \<Rightarrow> Some c)"

definition boundary :: "char option \<Rightarrow> char option \<Rightarrow> bool" where
  "boundary prev after \<longleftrightarrow> word_opt prev \<noteq> word_opt after"

definition token_char :: "char \<Rightarrow> bool" where
  "token_char c \<longleftrightarrow> is_alnum c \<or> c = CHR ''_'' \<or> c = CHR ''-''"

section \<open>Replacing every match\<close>

type_synonym matcher = "char option \<Rightarrow> string \<Rightarrow> (string \<times> nat) option"

function scan :: "matcher \<Rightarrow> char option \<Rightarrow> string \<Rightarrow> string" where
  "scan m prev [] = []"
| "scan m prev (c # cs) = (case m prev (c # cs) of
     None \<Rightarrow> c # scan m (Some c) cs
   | Some (r, n) \<Rightarrow> r @ scan m (Some ((c # cs) ! (n - 1))) (drop (n - 1) cs))"
  by pat_completeness auto

termination by (relation "measure (\<lambda>(m, prev, s). length s)") auto

definition starts :: "string \<Rightarrow> string \<Rightarrow> bool" where
  "starts p s \<longleftrightarrow> lower (take (length p) s) = p"

text \<open>\<open>_URL_USERINFO_RE\<close>: the credentials of a URL.\<close>

definition match_userinfo :: matcher where
  "match_userinfo prev s =
     (let p = (if starts ''https://'' s then 8 else if starts ''http://'' s then 7 else 0);
          run = takeWhile (\<lambda>c. c \<noteq> CHR ''/'' \<and> c \<noteq> CHR ''@'' \<and> \<not> is_space c) (drop p s);
          n = p + length run
      in if 0 < p \<and> run \<noteq> [] \<and> first_of (drop n s) = Some (CHR ''@'')
         then Some (take p s @ REDACTED @ ''@'', n + 1) else None)"

definition url_secret_params :: "string list" where
  "url_secret_params = [''sig'', ''signature'', ''code'', ''token'', ''access_token'', ''client_secret'',
     ''api_key'', ''api-key'', ''apikey'', ''subscription_key'', ''subscription-key'', ''subscriptionkey'',
     ''ocp-apim-subscription-key'']"

text \<open>\<open>_URL_SECRET_PARAM_RE\<close>: the signed parameters of a query or fragment.\<close>

definition quote_char :: char where "quote_char = char_of (34::nat)"

definition apostrophe :: char where "apostrophe = char_of (39::nat)"

definition match_param :: matcher where
  "match_param prev s =
     (let leads = (if first_of s \<in> {Some (CHR ''?''), Some (CHR ''&''), Some (CHR ''#'')} then [1] else [])
                    @ (if starts ''&amp;'' s then [5] else []);
          heads = concat (map (\<lambda>l. map (\<lambda>p. l + length p + 1)
                     (filter (\<lambda>p. starts (p @ ''='') (drop l s)) url_secret_params)) leads);
          value = (\<lambda>h. takeWhile (\<lambda>c. c \<noteq> CHR ''&'' \<and> c \<noteq> CHR ''#'' \<and> \<not> is_space c
                      \<and> c \<noteq> quote_char \<and> c \<noteq> apostrophe) (drop h s))
      in case filter (\<lambda>h. value h \<noteq> []) heads of
           [] \<Rightarrow> None
         | h # _ \<Rightarrow> Some (take h s @ REDACTED, h + length (value h)))"

definition secret_labels :: "string list" where
  "secret_labels = [''api_key'', ''api-key'', ''apikey'', ''subscription_key'', ''subscription-key'',
     ''subscriptionkey'', ''ocp-apim-subscription-key'', ''s7p-key'', ''secret'', ''token'', ''password'',
     ''passwd'', ''authorization'', ''client_secret'', ''client-secret'', ''clientsecret'']"

definition count_spaces :: "string \<Rightarrow> nat" where
  "count_spaces s = length (takeWhile is_space s)"

definition count_quote :: "string \<Rightarrow> nat" where
  "count_quote s = (if first_of s = Some quote_char then 1 else 0)"

text \<open>The separator \<open>"?\s*[=:]\s*"?\<close> of a label and its value: its length, if there is one.\<close>

definition separator :: "string \<Rightarrow> nat option" where
  "separator s =
     (let a = count_quote s; b = a + count_spaces (drop a s) in
      if first_of (drop b s) \<in> {Some (CHR ''=''), Some (CHR '':'')}
      then let c = b + 1 + count_spaces (drop (b + 1) s) in Some (c + count_quote (drop c s))
      else None)"

text \<open>\<open>_KV_SECRET_RE\<close>: a credential-named label, a separator and its value.\<close>

definition match_label :: matcher where
  "match_label prev s =
     (if \<not> boundary prev (first_of s) then None
      else (case filter (\<lambda>p. starts p s \<and> \<not> word_opt (first_of (drop (length p) s))) secret_labels of
          [] \<Rightarrow> None
        | p # _ \<Rightarrow>
            (case separator (drop (length p) s) of
               None \<Rightarrow> None
             | Some k \<Rightarrow>
                 (let h = length p + k;
                      value = takeWhile (\<lambda>c. c \<noteq> quote_char \<and> \<not> is_space c \<and> c \<noteq> CHR '','' \<and> c \<noteq> CHR '';''
                                \<and> c \<noteq> CHR ''}'') (drop h s)
                  in if value = [] then None else Some (take h s @ REDACTED, h + length value)))))"

text \<open>\<open>_LONG_TOKEN_RE\<close>: 32 or more token characters between word boundaries.\<close>

definition match_token :: matcher where
  "match_token prev s =
     (if \<not> boundary prev (first_of s) then None
      else (let run = length (takeWhile token_char s) in
            case filter (\<lambda>k. boundary (Some (s ! (k - 1))) (first_of (drop k s))) (rev [32..<run + 1]) of
              [] \<Rightarrow> None
            | k # _ \<Rightarrow> Some (REDACTED, k)))"

definition redact :: "string \<Rightarrow> string" where
  "redact text =
     scan match_token None (scan match_label None (scan match_param None (scan match_userinfo None text)))"

section \<open>JSON values\<close>

text \<open>\<open>_SECRET_KEY_RE.search\<close>: a key that names a credential anywhere in it.\<close>

definition secret_words :: "string list" where
  "secret_words = [''api_key'', ''api-key'', ''apikey'', ''secret'', ''token'', ''password'', ''passwd'',
     ''authorization'', ''credential'', ''signature'']"

fun secret_key_at :: "char option \<Rightarrow> string \<Rightarrow> bool" where
  "secret_key_at prev [] = False"
| "secret_key_at prev (c # cs) =
     (list_ex (\<lambda>w. starts w (c # cs)) secret_words
      \<or> \<not> word_opt prev \<and> starts ''sig'' (c # cs) \<and> \<not> word_opt (first_of (drop 3 (c # cs)))
      \<or> secret_key_at (Some c) cs)"

definition secret_key :: "string \<Rightarrow> bool" where
  "secret_key k = secret_key_at None k"

fun redact_obj :: "json \<Rightarrow> json" where
  "redact_obj (JObj fs) =
     JObj (map (\<lambda>(k, v). (k, if secret_key k then JStr REDACTED else redact_obj v)) fs)"
| "redact_obj (JArr vs) = JArr (map redact_obj vs)"
| "redact_obj (JStr s) = JStr (redact s)"
| "redact_obj v = v"

definition is_fully_masked :: "json \<Rightarrow> bool" where
  "is_fully_masked v \<longleftrightarrow> v = JStr REDACTED"

definition redact_known_secret :: "(string \<Rightarrow> string \<Rightarrow> string \<Rightarrow> string) \<Rightarrow> string \<Rightarrow> string option \<Rightarrow> string" where
  "redact_known_secret replace text secret = (case secret of
     None \<Rightarrow> text
   | Some s \<Rightarrow> if s = [] then text else replace text s REDACTED)"

text \<open>What the mask guarantees: below every credential-named key there is only the mask.\<close>

fun credentials_masked :: "json \<Rightarrow> bool" where
  "credentials_masked (JObj fs) \<longleftrightarrow>
     (\<forall>f \<in> set fs. (secret_key (fst f) \<longrightarrow> is_fully_masked (snd f)) \<and> credentials_masked (snd f))"
| "credentials_masked (JArr vs) \<longleftrightarrow> (\<forall>v \<in> set vs. credentials_masked v)"
| "credentials_masked _ \<longleftrightarrow> True"

lemma redact_obj_masks: "credentials_masked (redact_obj v)"
proof (induction v rule: redact_obj.induct)
  case (1 fs)
  then show ?case by (fastforce simp: is_fully_masked_def)
qed auto

lemma redact_obj_keys: "(case redact_obj (JObj fs) of JObj gs \<Rightarrow> map fst gs | _ \<Rightarrow> []) = map fst fs"
  by (simp add: case_prod_beta comp_def)

section \<open>Names that are safe to show\<close>

definition tool_name_text :: "string \<Rightarrow> bool" where
  "tool_name_text s \<longleftrightarrow> 1 \<le> length s \<and> length s \<le> 64 \<and> list_all token_char s"

definition safe_mcp_name :: "string \<Rightarrow> bool" where
  "safe_mcp_name s \<longleftrightarrow>
     (let rest = drop 4 s; server = takeWhile (\<lambda>c. c \<noteq> CHR ''/'') rest; tool = drop (length server + 1) rest in
      take 4 s = ''mcp:'' \<and> 1 \<le> length server \<and> length server \<le> 32
      \<and> list_all (\<lambda>c. token_char c \<or> c = CHR ''.'') server
      \<and> CHR ''/'' \<in> set rest \<and> tool_name_text tool)"

definition is_safe_tool_name :: "string \<Rightarrow> bool" where
  "is_safe_tool_name s \<longleftrightarrow> tool_name_text s \<or> safe_mcp_name s"

text \<open>No safe name carries a line break or any other character that could forge a log line.\<close>

lemma token_char_printable: "token_char c \<Longrightarrow> 33 \<le> char_code c \<and> char_code c \<le> 126"
  by (auto simp: token_char_def is_alnum_def is_digit_def char_code_def)

lemma safe_name_printable:
  assumes "is_safe_tool_name s"
  shows "\<forall>c \<in> set s. 33 \<le> char_code c \<and> char_code c \<le> 126"
proof (cases "tool_name_text s")
  case True
  then show ?thesis by (auto simp: tool_name_text_def list_all_iff dest: token_char_printable)
next
  case False
  with assms have m: "safe_mcp_name s" by (simp add: is_safe_tool_name_def)
  define rest where "rest = drop 4 s"
  define server where "server = takeWhile (\<lambda>c. c \<noteq> CHR ''/'') rest"
  define tool where "tool = drop (length server + 1) rest"
  have parts: "take 4 s = ''mcp:''" "list_all (\<lambda>c. token_char c \<or> c = CHR ''.'') server"
    "CHR ''/'' \<in> set rest" "tool_name_text tool"
    using m by (simp_all add: safe_mcp_name_def Let_def rest_def server_def tool_def)
  have slash: "dropWhile (\<lambda>c. c \<noteq> CHR ''/'') rest \<noteq> []"
    using parts(3) by (auto simp: dropWhile_eq_Nil_conv)
  have "hd (dropWhile (\<lambda>c. c \<noteq> CHR ''/'') rest) = CHR ''/''" using slash hd_dropWhile by blast
  moreover have "tl (dropWhile (\<lambda>c. c \<noteq> CHR ''/'') rest) = tool"
    by (simp add: tool_def server_def dropWhile_eq_drop drop_Suc tl_drop)
  ultimately have "dropWhile (\<lambda>c. c \<noteq> CHR ''/'') rest = CHR ''/'' # tool"
    using slash by (cases "dropWhile (\<lambda>c. c \<noteq> CHR ''/'') rest") auto
  then have "rest = server @ CHR ''/'' # tool"
    by (metis server_def takeWhile_dropWhile_id)
  then have "s = ''mcp:'' @ server @ CHR ''/'' # tool"
    using parts(1) by (metis append_take_drop_id rest_def)
  moreover have dot: "33 \<le> char_code (CHR ''.'') \<and> char_code (CHR ''.'') \<le> 126" by (simp add: char_code_def)
  moreover have "\<forall>c \<in> set server. 33 \<le> char_code c \<and> char_code c \<le> 126"
    using parts(2) dot token_char_printable unfolding list_all_iff by metis
  moreover have "\<forall>c \<in> set tool. 33 \<le> char_code c \<and> char_code c \<le> 126"
    using parts(4) by (auto simp: tool_name_text_def list_all_iff dest: token_char_printable)
  moreover have "\<forall>c \<in> set ''mcp:/''. 33 \<le> char_code c \<and> char_code c \<le> 126"
    by (simp add: char_code_def)
  ultimately show ?thesis by (auto simp del: set_simps simp: set_append) (auto)
qed

end
