(* ===== verification/Agent_Tools.thy ===== *)
theory Agent_Tools
  imports Agent_Redact
begin

text \<open>
  Tool governance: the safety contract of a tool and its registry (\<open>agents/tools.py\<close>), the
  classification of the synthetic capabilities (\<open>agents/synthetic_governance.py\<close>), and the
  executor's side (\<open>agents/tool_exec.py\<close>): the schema offered to the model, the validation of
  arguments, the per-turn budget and the tools a user may attach. \<open>tools_on\<close> is
  \<open>request_constraints.tools_allowed()\<close> and \<open>allowed_by_policy\<close> is \<open>policy.context.tool_allowed\<close>.
\<close>

section \<open>Contracts\<close>

datatype tool_risk = Safe | External | Destructive

datatype deny_reason =
    UnknownTool | Disabled | NotAllowlisted | MissingScopes | EgressBlocked | ApprovalRequired
  | Ungoverned | RequestRestricted

fun risk_value :: "tool_risk \<Rightarrow> string" where
  "risk_value Safe = ''safe''"
| "risk_value External = ''external''"
| "risk_value Destructive = ''destructive''"

fun deny_value :: "deny_reason \<Rightarrow> string" where
  "deny_value UnknownTool = ''unknown_tool''"
| "deny_value Disabled = ''disabled''"
| "deny_value NotAllowlisted = ''not_allowlisted''"
| "deny_value MissingScopes = ''missing_scopes''"
| "deny_value EgressBlocked = ''egress_blocked''"
| "deny_value ApprovalRequired = ''approval_required''"
| "deny_value Ungoverned = ''ungoverned''"
| "deny_value RequestRestricted = ''request_restricted''"

record tool_spec =
  ts_name :: string
  ts_description :: string
  ts_scopes :: "string set"
  ts_risk :: tool_risk
  ts_requires_approval :: bool
  ts_secret_refs :: "string set"
  ts_egress :: "string set"
  ts_enabled :: bool
  ts_injection_only :: bool

text \<open>A contract with the defaults of its fields.\<close>

definition plain_spec :: "string \<Rightarrow> string \<Rightarrow> tool_risk \<Rightarrow> bool \<Rightarrow> tool_spec" where
  "plain_spec name description risk injection_only =
     \<lparr>ts_name = name, ts_description = description, ts_scopes = {}, ts_risk = risk,
      ts_requires_approval = False, ts_secret_refs = {}, ts_egress = {}, ts_enabled = True,
      ts_injection_only = injection_only\<rparr>"

definition needs_approval :: "tool_spec \<Rightarrow> bool" where
  "needs_approval s \<longleftrightarrow> ts_requires_approval s \<or> ts_risk s = Destructive"

record auth_decision =
  ad_allowed :: bool
  ad_tool :: string
  ad_reason :: "deny_reason option"
  ad_missing :: "string set"
  ad_blocked :: "string set"

definition deny_with :: "string \<Rightarrow> deny_reason \<Rightarrow> auth_decision" where
  "deny_with name r = \<lparr>ad_allowed = False, ad_tool = name, ad_reason = Some r, ad_missing = {}, ad_blocked = {}\<rparr>"

definition allow_tool :: "string \<Rightarrow> auth_decision" where
  "allow_tool name = \<lparr>ad_allowed = True, ad_tool = name, ad_reason = None, ad_missing = {}, ad_blocked = {}\<rparr>"

section \<open>The registry\<close>

record registry =
  rg_tools :: "(string, tool_spec) dict"
  rg_allowlist :: "string set option"

definition new_registry :: "string set option \<Rightarrow> registry" where
  "new_registry allowlist = \<lparr>rg_tools = [], rg_allowlist = allowlist\<rparr>"

text \<open>\<open>Inl\<close> is the \<open>ValueError\<close> of a name registered twice.\<close>

definition register :: "registry \<Rightarrow> tool_spec \<Rightarrow> string + registry" where
  "register r s =
     (if ts_name s \<in> fst ` set (rg_tools r) then Inl (''tool already registered: '' @ ts_name s)
      else Inr (r\<lparr>rg_tools := AList.update (ts_name s) s (rg_tools r)\<rparr>))"

definition find_tool :: "registry \<Rightarrow> string \<Rightarrow> tool_spec option" where
  "find_tool r name = map_of (rg_tools r) name"

definition list_tools :: "registry \<Rightarrow> tool_spec list" where
  "list_tools r = sort_key ts_name (map snd (rg_tools r))"

definition is_allowlisted :: "registry \<Rightarrow> string \<Rightarrow> bool" where
  "is_allowlisted r name \<longleftrightarrow> (case rg_allowlist r of None \<Rightarrow> True | Some names \<Rightarrow> name \<in> names)"

definition authorize :: "bool \<Rightarrow> registry \<Rightarrow> string \<Rightarrow> string set \<Rightarrow> string set \<Rightarrow> bool \<Rightarrow> auth_decision" where
  "authorize tools_on r name granted hosts approved =
     (if \<not> tools_on then deny_with name RequestRestricted
      else (case find_tool r name of
        None \<Rightarrow> deny_with name UnknownTool
      | Some s \<Rightarrow>
          if \<not> ts_enabled s then deny_with name Disabled
          else if \<not> is_allowlisted r name then deny_with name NotAllowlisted
          else if ts_scopes s - granted \<noteq> {}
               then (deny_with name MissingScopes)\<lparr>ad_missing := ts_scopes s - granted\<rparr>
          else if ts_egress s \<noteq> {} \<and> hosts - ts_egress s \<noteq> {}
               then (deny_with name EgressBlocked)\<lparr>ad_blocked := hosts - ts_egress s\<rparr>
          else if needs_approval s \<and> \<not> approved then deny_with name ApprovalRequired
          else allow_tool name))"

text \<open>What an allowed decision means, independently of the order of the checks.\<close>

definition may_run :: "registry \<Rightarrow> string \<Rightarrow> string set \<Rightarrow> string set \<Rightarrow> bool" where
  "may_run r name granted hosts \<longleftrightarrow>
     (\<exists>s. find_tool r name = Some s \<and> ts_enabled s \<and> is_allowlisted r name \<and> ts_scopes s \<subseteq> granted
        \<and> (ts_egress s = {} \<or> hosts \<subseteq> ts_egress s))"

lemma authorize_iff:
  "ad_allowed (authorize tools_on r name granted hosts approved) \<longleftrightarrow>
     tools_on \<and> may_run r name granted hosts
     \<and> (\<exists>s. find_tool r name = Some s \<and> (needs_approval s \<longrightarrow> approved))"
  by (cases "find_tool r name") (auto simp: authorize_def may_run_def deny_with_def allow_tool_def)

lemma authorize_approved_iff:
  "ad_allowed (authorize tools_on r name granted hosts True) \<longleftrightarrow> tools_on \<and> may_run r name granted hosts"
  by (auto simp: authorize_iff may_run_def)

lemma denied_names_a_reason:
  "\<not> ad_allowed (authorize tools_on r name granted hosts approved)
     \<Longrightarrow> ad_reason (authorize tools_on r name granted hosts approved) \<noteq> None"
  by (cases "find_tool r name") (auto simp: authorize_def deny_with_def allow_tool_def split: if_splits)

lemma held_only_for_approval:
  "ad_reason (authorize tools_on r name granted hosts approved) = Some ApprovalRequired
     \<Longrightarrow> tools_on \<and> may_run r name granted hosts \<and> \<not> approved"
  by (cases "find_tool r name")
     (auto simp: authorize_def may_run_def deny_with_def allow_tool_def split: if_splits)

section \<open>The synthetic capabilities\<close>

definition search_descriptions :: "(string \<times> string) list" where
  "search_descriptions =
    [(''web_search'', ''Send a search query to the configured web search provider.''),
     (''news_search'', ''Send a news search query to the configured web search provider.''),
     (''video_search'', ''Send a video search query to the configured web search provider.''),
     (''image_search'', ''Send an image search query to the configured web search provider.''),
     (''classic_search'', ''Send a multi-answer search query to the configured WebIQ provider.''),
     (''finance_search'', ''Send a financial data query to the configured WebIQ provider.''),
     (''places_search'', ''Send a places query to the configured WebIQ provider.''),
     (''sports_search'', ''Send a sports query to the configured WebIQ provider.''),
     (''sonic_search'', ''Send a blended search query to the configured WebIQ provider.''),
     (''web_autosuggest'', ''Send a partial query to the configured WebIQ provider for suggestions.'')]"

definition read_only_descriptions :: "(string \<times> string) list" where
  "read_only_descriptions =
    [(''recall_memory'', ''Read your durable memory into this conversation.''),
     (''fetch_document'', ''Read one of your library documents into this conversation.''),
     (''process_document'', ''Extract structure from one of your stored documents.'')]"

definition synthetic_specs :: "tool_spec list" where
  "synthetic_specs =
     [plain_spec ''browse_url''
        ''Fetch a web page the model chose and read its contents back into the conversation.'' External False]
     @ map (\<lambda>(n, d). plain_spec n d External True) search_descriptions
     @ [plain_spec ''run_code''
          (''Run model-authored code over one of your documents in a sandboxed '' @
           ''container, and read the result back into the conversation.'') External False,
        plain_spec ''analyze_attachment''
          (''Upload an attachment to the APIM-fronted Foundry Code Interpreter sandbox, '' @
           ''run model-authored analysis over it, and read the result back.'') External False,
        plain_spec ''generate_image''
          ''Generate an image from a model-written prompt and attach it to the reply.'' External True,
        plain_spec ''edit_image''
          ''Edit an image already in this conversation and attach the result to the reply.'' External True,
        plain_spec ''remember_memory''
          ''Save a fact to your durable memory, where it will be recalled in future sessions.'' Destructive True,
        plain_spec ''export_document''
          ''Write model-adjusted content as a new version of one of your documents.'' Destructive True]
     @ map (\<lambda>(n, d). plain_spec n d Safe False) read_only_descriptions
     @ [plain_spec ''delegate_to_agent''
          ''Ask one of your linked agents to answer a self-contained sub-task.'' Safe False,
        plain_spec ''run_workflow''
          ''Run one of the user's saved safe workflows over a bounded input.'' Safe False]"

definition synthetic_spec :: "string \<Rightarrow> tool_spec option" where
  "synthetic_spec name = map_of (map (\<lambda>s. (ts_name s, s)) synthetic_specs) name"

lemma synthetic_spec_mem: "synthetic_spec n = Some s \<Longrightarrow> s \<in> set synthetic_specs \<and> ts_name s = n"
  by (auto simp: synthetic_spec_def dest!: map_of_SomeD)

lemma synthetic_specs_plain:
  "list_all (\<lambda>s. ts_enabled s \<and> ts_scopes s = {} \<and> ts_egress s = {} \<and> \<not> ts_requires_approval s) synthetic_specs"
  by (simp add: synthetic_specs_def plain_spec_def search_descriptions_def read_only_descriptions_def)

lemma synthetic_spec_plain:
  "synthetic_spec n = Some s \<Longrightarrow> ts_enabled s \<and> ts_scopes s = {} \<and> ts_egress s = {} \<and> \<not> ts_requires_approval s"
  using synthetic_specs_plain synthetic_spec_mem by (auto simp: list_all_iff)

section \<open>Execution\<close>

record tool_def =
  td_spec :: tool_spec
  td_parameters :: json
  td_metadata :: json

datatype arg_error = NotAnObject | MissingArgument string | WrongType string string

fun type_ok :: "json \<Rightarrow> string \<Rightarrow> bool" where
  "type_ok v t =
     (if t = ''string'' then (case v of JStr _ \<Rightarrow> True | _ \<Rightarrow> False)
      else if t = ''number'' then (case v of JInt _ \<Rightarrow> True | JFloat _ \<Rightarrow> True | _ \<Rightarrow> False)
      else if t = ''integer'' then (case v of JInt _ \<Rightarrow> True | _ \<Rightarrow> False)
      else if t = ''boolean'' then (case v of JBool _ \<Rightarrow> True | _ \<Rightarrow> False)
      else if t = ''object'' then (case v of JObj _ \<Rightarrow> True | _ \<Rightarrow> False)
      else if t = ''array'' then (case v of JArr _ \<Rightarrow> True | _ \<Rightarrow> False)
      else True)"

definition required_names :: "json \<Rightarrow> string list" where
  "required_names schema = (case obj_get schema ''required'' of
     Some (JArr vs) \<Rightarrow> concat (map (\<lambda>v. case v of JStr s \<Rightarrow> [s] | _ \<Rightarrow> []) vs) | _ \<Rightarrow> [])"

definition declared_type :: "json \<Rightarrow> string \<Rightarrow> string option" where
  "declared_type schema k = (case obj_get schema ''properties'' of
     Some props \<Rightarrow> (case obj_get props k of
        Some (JObj prop) \<Rightarrow> (case map_of prop ''type'' of Some (JStr t) \<Rightarrow> Some t | _ \<Rightarrow> None)
      | _ \<Rightarrow> None)
   | None \<Rightarrow> None)"

definition validate_args :: "json \<Rightarrow> json \<Rightarrow> arg_error list" where
  "validate_args schema args = (case args of
     JObj fs \<Rightarrow>
       map MissingArgument (filter (\<lambda>k. k \<notin> fst ` set fs) (required_names schema))
       @ concat (map (\<lambda>(k, v). case declared_type schema k of
             Some t \<Rightarrow> if type_ok v t then [] else [WrongType k t]
           | None \<Rightarrow> []) fs)
   | _ \<Rightarrow> [NotAnObject])"

text \<open>Valid arguments: an object with every required name, each declared property of its type.\<close>

lemma validate_args_ok_iff:
  "validate_args schema args = [] \<longleftrightarrow>
     (\<exists>fs. args = JObj fs \<and> (\<forall>k \<in> set (required_names schema). k \<in> fst ` set fs)
        \<and> (\<forall>(k, v) \<in> set fs. \<forall>t. declared_type schema k = Some t \<longrightarrow> type_ok v t))"
  by (cases args) (auto simp: validate_args_def filter_empty_conv simp del: type_ok.simps
      split: option.splits if_splits)

text \<open>\<open>take_turn_budget\<close> on the counter it uses; \<open>Inl\<close> is an unreadable counter.\<close>

definition take_turn_budget :: "(string, json) dict \<Rightarrow> string \<Rightarrow> int \<Rightarrow> unit + bool \<times> (string, json) dict" where
  "take_turn_budget counter key limit = (case map_of counter key of
     Some (JInt used) \<Rightarrow>
       if used < 0 then Inl ()
       else if used \<ge> limit then Inr (False, counter)
       else Inr (True, AList.update key (JInt (used + 1)) counter)
   | _ \<Rightarrow> Inl ())"

record tool_context =
  tc_scopes :: "string set"
  tc_approvals :: "string set"
  tc_hosts :: "string set"
  tc_aliases :: "(string, string) dict"
  tc_untrusted :: bool
  tc_invocations :: "string set"

definition canonical_tool_name :: "string \<Rightarrow> (string, string) dict \<Rightarrow> string" where
  "canonical_tool_name name aliases =
     (case filter (\<lambda>(durable, alias). alias = name) aliases of (durable, _) # _ \<Rightarrow> durable | [] \<Rightarrow> name)"

definition function_schema :: "string \<Rightarrow> string \<Rightarrow> json \<Rightarrow> json" where
  "function_schema name description parameters =
     JObj [(''type'', JStr ''function''),
           (''function'', JObj [(''name'', JStr name), (''description'', JStr description),
                              (''parameters'', parameters)])]"

definition schema_for ::
  "bool \<Rightarrow> (string \<Rightarrow> bool) \<Rightarrow> (string, tool_def) dict \<Rightarrow> registry \<Rightarrow> tool_context \<Rightarrow> string set
     \<Rightarrow> string list \<Rightarrow> json list" where
  "schema_for tools_on allowed_by_policy defs r ctx consented names =
     concat (map (\<lambda>name.
       if \<not> allowed_by_policy (canonical_tool_name name (tc_aliases ctx)) then []
       else (case map_of defs name of
          None \<Rightarrow> []
        | Some d \<Rightarrow>
            if ad_allowed (authorize tools_on r name (tc_scopes ctx) (tc_hosts ctx)
                             (name \<in> tc_approvals ctx \<or> name \<in> consented))
            then [function_schema name (ts_description (td_spec d)) (td_parameters d)] else []))
       names)"

definition offered_name :: "json \<Rightarrow> string" where
  "offered_name item = (case obj_get item ''function'' of
     Some f \<Rightarrow> (case obj_get f ''name'' of Some (JStr n) \<Rightarrow> n | _ \<Rightarrow> []) | None \<Rightarrow> [])"

lemma offered_name_schema [simp]: "offered_name (function_schema n d p) = n"
  by (simp add: offered_name_def function_schema_def)

text \<open>The model is offered only what it could run: registered, enabled, within scopes and hosts.\<close>

lemma schema_for_authorized:
  "item \<in> set (schema_for tools_on pol defs r ctx consented names) \<Longrightarrow>
     tools_on \<and> may_run r (offered_name item) (tc_scopes ctx) (tc_hosts ctx)
     \<and> offered_name item \<in> set names \<and> pol (canonical_tool_name (offered_name item) (tc_aliases ctx))"
  by (auto simp: schema_for_def authorize_iff split: if_splits option.splits)

section \<open>Tools a user may attach\<close>

definition USER_ATTACHABLE_TOOL_NAMES :: "string set" where
  "USER_ATTACHABLE_TOOL_NAMES = {''calculator'', ''get_current_time''}"

definition SELECTABLE_SYNTHETIC_TOOL_NAMES :: "string set" where
  "SELECTABLE_SYNTHETIC_TOOL_NAMES =
     {''generate_image'', ''edit_image'', ''process_document'', ''recall_memory'', ''remember_memory'', ''run_workflow''}"

definition attachable_tool_names :: "registry \<Rightarrow> (string, tool_def) dict \<Rightarrow> string set" where
  "attachable_tool_names r defs =
     SELECTABLE_SYNTHETIC_TOOL_NAMES \<union>
     set (filter (\<lambda>name. name \<in> USER_ATTACHABLE_TOOL_NAMES \<and>
        (case find_tool r name of
           None \<Rightarrow> False
         | Some s \<Rightarrow> ts_enabled s \<and> is_allowlisted r name \<and> ts_risk s = Safe \<and> \<not> needs_approval s
             \<and> ts_scopes s = {} \<and> ts_secret_refs s = {} \<and> ts_egress s = {})) (map fst defs))"

text \<open>An attachable registry tool runs in an agent turn's empty context, without any approval.\<close>

lemma attachable_runs_without_grants:
  assumes "name \<in> attachable_tool_names r defs" "name \<notin> SELECTABLE_SYNTHETIC_TOOL_NAMES"
  shows "ad_allowed (authorize True r name {} hosts False)"
  using assms
  by (auto simp: attachable_tool_names_def authorize_iff may_run_def needs_approval_def split: option.splits)

end
