(* ===== verification/Json_Text.thy ===== *)
theory Json_Text
  imports Json
begin

text \<open>
  \<open>json.dumps(value, ensure_ascii=False)\<close>, the encoding of argument identities and of prompt sizes,
  its length in UTF-8 bytes, and the fact the identities rest on: two values with the same text
  are the same value. Strings hold code points below 256.
\<close>

section \<open>Encoding\<close>

abbreviation backslash :: char where "backslash \<equiv> char_of (92::nat)"

abbreviation dquote :: char where "dquote \<equiv> char_of (34::nat)"

definition escape_text :: "char \<Rightarrow> string" where
  "escape_text c =
     (let n = char_code c in
      if n = 34 \<or> n = 92 then [backslash, c]
      else if n = 10 then [backslash, CHR ''n'']
      else if n = 13 then [backslash, CHR ''r'']
      else if n = 9 then [backslash, CHR ''t'']
      else if n = 12 then [backslash, CHR ''f'']
      else if n = 8 then [backslash, CHR ''b'']
      else if n < 32
           then [backslash, CHR ''u'', CHR ''0'', CHR ''0'', hex_digit (n div 16), hex_digit (n mod 16)]
      else [c])"

definition quote_text :: "string \<Rightarrow> string" where
  "quote_text s = dquote # concat (map escape_text s) @ [dquote]"

definition float_text :: "string \<Rightarrow> string" where
  "float_text r = (if r = ''nan'' then ''NaN'' else if r = ''inf'' then ''Infinity''
     else if r = ''-inf'' then ''-Infinity'' else r)"

fun dumps_text :: "string \<Rightarrow> string \<Rightarrow> json \<Rightarrow> string" where
  "dumps_text isep ksep JNull = ''null''"
| "dumps_text isep ksep (JBool b) = (if b then ''true'' else ''false'')"
| "dumps_text isep ksep (JInt i) = show_int i"
| "dumps_text isep ksep (JFloat r) = float_text r"
| "dumps_text isep ksep (JStr s) = quote_text s"
| "dumps_text isep ksep (JArr vs) = ''['' @ join isep (map (dumps_text isep ksep) vs) @ '']''"
| "dumps_text isep ksep (JObj fs) =
     ''{'' @ join isep (map (\<lambda>(k, v). quote_text k @ ksep @ dumps_text isep ksep v) fs) @ ''}''"

definition utf8_len :: "string \<Rightarrow> nat" where
  "utf8_len s = sum_list (map (\<lambda>c. if char_code c < 128 then 1 else 2) s)"

text \<open>The text of the \<open>repr\<close> of a float: special, or digits with a point or an exponent.\<close>

definition float_char :: "char \<Rightarrow> bool" where
  "float_char c \<longleftrightarrow> is_digit c \<or> c \<in> {CHR ''.'', CHR ''e'', CHR ''+'', CHR ''-''}"

definition float_repr :: "string \<Rightarrow> bool" where
  "float_repr r \<longleftrightarrow> r \<in> {''nan'', ''inf'', ''-inf''}
     \<or> list_all float_char r \<and> (CHR ''.'' \<in> set r \<or> CHR ''e'' \<in> set r)"

fun json_ok :: "json \<Rightarrow> bool" where
  "json_ok (JFloat r) \<longleftrightarrow> float_repr r"
| "json_ok (JArr vs) \<longleftrightarrow> (\<forall>v \<in> set vs. json_ok v)"
| "json_ok (JObj fs) \<longleftrightarrow> (\<forall>f \<in> set fs. json_ok (snd f))"
| "json_ok _ \<longleftrightarrow> True"

section \<open>Strings are read back uniquely\<close>

lemma char_code_inj: "char_code c = char_code d \<Longrightarrow> c = d"
  by (simp add: char_code_def)

lemma char_code_lits [simp]:
  "char_code dquote = 34" "char_code backslash = 92" "char_code (CHR ''n'') = 110"
  "char_code (CHR ''r'') = 114" "char_code (CHR ''t'') = 116" "char_code (CHR ''f'') = 102"
  "char_code (CHR ''b'') = 98" "char_code (CHR ''u'') = 117"
  by (simp_all add: char_code_def)

lemma escape_text_not_quote: "hd (escape_text c) \<noteq> dquote" "escape_text c \<noteq> []"
  by (auto simp: escape_text_def Let_def char_code_def)

text \<open>Each escape is determined by what follows its first character.\<close>

definition hex_val :: "char \<Rightarrow> nat" where
  "hex_val c = (let n = char_code c in if n < 58 then n - 48 else n - 87)"

lemma hex_val_digit: "d < 16 \<Longrightarrow> hex_val (hex_digit d) = d"
  by (simp add: hex_val_def hex_digit_def char_code_def)

fun unescape_head :: "string \<Rightarrow> nat \<times> string" where
  "unescape_head (c # d # s) =
     (if char_code c \<noteq> 92 then (char_code c, d # s)
      else let n = char_code d in
        if n = 110 then (10, s) else if n = 114 then (13, s) else if n = 116 then (9, s)
        else if n = 102 then (12, s) else if n = 98 then (8, s)
        else if n = 117 then (hex_val (s ! 2) * 16 + hex_val (s ! 3), drop 4 s)
        else (n, s))"
| "unescape_head s = (char_code (hd s), tl s)"

lemma unescape_escape:
  assumes "s \<noteq> []"
  shows "unescape_head (escape_text c @ s) = (char_code c, s)"
proof -
  obtain d t where s: "s = d # t" using assms by (cases s) auto
  define n where "n = char_code c"
  consider "n = 34" | "n = 92" | "n \<in> {8, 9, 10, 12, 13}" | "n < 32" "n \<notin> {8, 9, 10, 12, 13}"
    | "32 \<le> n" "n \<noteq> 34" "n \<noteq> 92" by force
  then show ?thesis
  proof cases
    case 4
    then have "n div 16 * 16 + n mod 16 = n" "n div 16 < 16" "n mod 16 < 16" by auto
    with 4 show ?thesis
      by (simp add: escape_text_def Let_def n_def [symmetric] hex_val_digit)
  qed (auto simp: escape_text_def Let_def n_def [symmetric] s)
qed

lemma escape_text_inj:
  "escape_text c @ s = escape_text d @ t \<Longrightarrow> s \<noteq> [] \<Longrightarrow> t \<noteq> [] \<Longrightarrow> c = d \<and> s = t"
proof -
  assume ne: "s \<noteq> []" "t \<noteq> []" and "escape_text c @ s = escape_text d @ t"
  then have "unescape_head (escape_text c @ s) = unescape_head (escape_text d @ t)" by simp
  with ne show ?thesis by (simp add: unescape_escape char_code_inj)
qed

lemma escapes_inj:
  "concat (map escape_text s) @ dquote # r = concat (map escape_text t) @ dquote # u \<Longrightarrow> s = t \<and> r = u"
proof (induction s arbitrary: t)
  case Nil
  show ?case
  proof (cases t)
    case (Cons d ds)
    with Nil have "hd (escape_text d) = dquote"
      using escape_text_not_quote [of d] by (cases "escape_text d") auto
    then show ?thesis using escape_text_not_quote by simp
  qed (use Nil in simp)
next
  case (Cons c s)
  show ?case
  proof (cases t)
    case Nil
    with Cons.prems have "hd (escape_text c) = dquote"
      using escape_text_not_quote [of c] by (cases "escape_text c") auto
    then show ?thesis using escape_text_not_quote by simp
  next
    case (Cons d ds)
    with Cons.prems have "escape_text c @ (concat (map escape_text s) @ dquote # r)
        = escape_text d @ (concat (map escape_text ds) @ dquote # u)" by simp
    from escape_text_inj [OF this] Cons Cons.IH show ?thesis by auto
  qed
qed

lemma quote_text_inj: "quote_text s @ r = quote_text t @ u \<Longrightarrow> s = t \<and> r = u"
  using escapes_inj [of s r t u] by (simp add: quote_text_def)

section \<open>Values are read back uniquely\<close>

definition delimiter :: "char \<Rightarrow> bool" where
  "delimiter c \<longleftrightarrow> char_code c \<in> {44, 93, 125}"

definition stops :: "string \<Rightarrow> bool" where
  "stops r \<longleftrightarrow> r = [] \<or> delimiter (hd r)"

lemma stops_simps [simp]: "stops []" "stops (c # r) = delimiter c"
  by (simp_all add: stops_def)

fun scalar :: "json \<Rightarrow> bool" where
  "scalar (JStr s) = False"
| "scalar (JArr vs) = False"
| "scalar (JObj fs) = False"
| "scalar v = True"

abbreviation compact_text :: "json \<Rightarrow> string" where "compact_text \<equiv> dumps_text '','' '':''"

definition int_char :: "char \<Rightarrow> bool" where
  "int_char c \<longleftrightarrow> is_digit c \<or> c = CHR ''-''"

lemma show_int_chars: "list_all int_char (show_int i)" "show_int i \<noteq> []"
  using show_nat_digits [of "nat i"] show_nat_digits [of "nat (- i)"]
  by (auto simp: show_int_def int_char_def list_all_iff)

lemma show_int_inj: "show_int i = show_int j \<Longrightarrow> i = j"
proof -
  have "hd (show_nat n) \<noteq> CHR ''-''" for n
    using show_nat_digits [of n] by (cases "show_nat n") (auto simp: is_digit_def char_code_def)
  then have minus: "CHR ''-'' # s \<noteq> show_nat n" for n s by (metis list.sel(1))
  assume "show_int i = show_int j"
  then show "i = j"
    using minus minus [symmetric] show_nat_inj [of "nat i" "nat j"] show_nat_inj [of "nat (- i)" "nat (- j)"]
    by (auto simp: show_int_def split: if_splits)
qed

lemma special_floats:
  "\<not> list_all float_char ''nan''" "\<not> list_all float_char ''inf''" "\<not> list_all float_char ''-inf''"
  "\<not> list_all float_char ''NaN''" "\<not> list_all float_char ''Infinity''" "\<not> list_all float_char ''-Infinity''"
  "\<not> list_all float_char ''null''" "\<not> list_all float_char ''true''" "\<not> list_all float_char ''false''"
  by (simp_all add: float_char_def is_digit_def char_code_def)

lemma special_ints:
  "\<not> list_all int_char ''NaN''" "\<not> list_all int_char ''Infinity''" "\<not> list_all int_char ''-Infinity''"
  "\<not> list_all int_char ''null''" "\<not> list_all int_char ''true''" "\<not> list_all int_char ''false''"
  by (simp_all add: int_char_def is_digit_def char_code_def)

lemma float_text_cases:
  assumes "float_repr r"
  shows "float_text r = r \<and> list_all float_char r \<and> (CHR ''.'' \<in> set r \<or> CHR ''e'' \<in> set r)
     \<or> r = ''nan'' \<and> float_text r = ''NaN'' \<or> r = ''inf'' \<and> float_text r = ''Infinity''
     \<or> r = ''-inf'' \<and> float_text r = ''-Infinity''"
  using assms special_floats unfolding float_repr_def float_text_def by auto

text \<open>The text of a float tells which float it is.\<close>

definition float_back :: "string \<Rightarrow> string" where
  "float_back t = (if t = ''NaN'' then ''nan'' else if t = ''Infinity'' then ''inf''
     else if t = ''-Infinity'' then ''-inf'' else t)"

lemma float_back_text:
  assumes "float_repr r"
  shows "float_back (float_text r) = r"
  using float_text_cases [OF assms]
proof (elim disjE)
  assume r: "float_text r = r \<and> list_all float_char r \<and> (CHR ''.'' \<in> set r \<or> CHR ''e'' \<in> set r)"
  then have "r \<noteq> ''NaN''" "r \<noteq> ''Infinity''" "r \<noteq> ''-Infinity''" using special_floats by metis+
  with r show ?thesis by (simp add: float_back_def)
qed (simp_all add: float_back_def float_text_def)

lemma float_text_inj: "float_repr r \<Longrightarrow> float_repr s \<Longrightarrow> float_text r = float_text s \<Longrightarrow> r = s"
  by (metis float_back_text)

lemma point_not_int: "CHR ''.'' \<in> set s \<or> CHR ''e'' \<in> set s \<Longrightarrow> \<not> list_all int_char s"
proof -
  have "\<not> int_char (CHR ''.'')" "\<not> int_char (CHR ''e'')" by (simp_all add: int_char_def is_digit_def char_code_def)
  then show "CHR ''.'' \<in> set s \<or> CHR ''e'' \<in> set s \<Longrightarrow> \<not> list_all int_char s" by (auto simp: list_all_iff)
qed

lemma float_not_int: "float_repr r \<Longrightarrow> float_text r \<noteq> show_int i"
  using float_text_cases [of r] show_int_chars(1) [of i] special_ints point_not_int by metis

lemma plain_chars:
  assumes "scalar v" "json_ok v" "c \<in> set (compact_text v)"
  shows "char_code c \<notin> {44, 93, 125, 34, 91, 123}"
proof (cases v)
  case (JInt i)
  then have "int_char c" using assms(3) show_int_chars [of i] by (auto simp: list_all_iff)
  then show ?thesis by (auto simp: int_char_def is_digit_def char_code_def)
next
  case (JFloat r)
  then have "float_char c \<or> c \<in> set ''NaN'' \<or> c \<in> set ''-Infinity''"
    using assms(2,3) float_text_cases [of r] by (auto simp: list_all_iff)
  then show ?thesis by (auto simp: float_char_def is_digit_def char_code_def)
qed (use assms in \<open>auto simp: char_code_def split: if_splits\<close>)

lemma compact_nonempty: "json_ok v \<Longrightarrow> compact_text v \<noteq> []"
  using show_int_chars by (cases v) (auto simp: quote_text_def float_text_def float_repr_def)

fun scalar_kind :: "json \<Rightarrow> nat" where
  "scalar_kind JNull = 0"
| "scalar_kind (JBool b) = (if b then 1 else 2)"
| "scalar_kind (JInt i) = 3"
| "scalar_kind (JFloat r) = 4"
| "scalar_kind _ = 5"

text \<open>The kind of a scalar, read from its text.\<close>

definition scalar_kind_of :: "string \<Rightarrow> nat" where
  "scalar_kind_of t = (if t = ''null'' then 0 else if t = ''true'' then 1 else if t = ''false'' then 2
     else if list_all int_char t then 3 else 4)"

lemma scalar_kind_text: "scalar v \<Longrightarrow> json_ok v \<Longrightarrow> scalar_kind_of (compact_text v) = scalar_kind v"
proof (cases v)
  case (JInt i)
  have "show_int i \<noteq> ''null''" "show_int i \<noteq> ''true''" "show_int i \<noteq> ''false''"
    using show_int_chars(1) [of i] special_ints by metis+
  with JInt show_int_chars(1) [of i] show ?thesis by (simp add: scalar_kind_of_def)
next
  case (JFloat r)
  assume "json_ok v"
  with JFloat have "float_repr r" by simp
  from float_text_cases [OF this] have "scalar_kind_of (float_text r) = 4"
  proof (elim disjE)
    assume r: "float_text r = r \<and> list_all float_char r \<and> (CHR ''.'' \<in> set r \<or> CHR ''e'' \<in> set r)"
    then have "r \<noteq> ''null''" "r \<noteq> ''true''" "r \<noteq> ''false''" using special_floats by metis+
    with r point_not_int [of r] show ?thesis by (simp add: scalar_kind_of_def)
  qed (simp_all add: scalar_kind_of_def float_text_def int_char_def is_digit_def char_code_def)
  with JFloat show ?thesis by simp
qed (auto simp: scalar_kind_of_def)

lemma scalar_inj:
  assumes "scalar v" "scalar w" "json_ok v" "json_ok w" "compact_text v = compact_text w"
  shows "v = w"
proof -
  have k: "scalar_kind v = scalar_kind w" using assms scalar_kind_text by metis
  show ?thesis
  proof (cases v)
    case (JInt i)
    with k assms show ?thesis by (cases w) (simp_all split: if_splits add: show_int_inj)
  next
    case (JFloat r)
    with k assms show ?thesis by (cases w) (simp_all split: if_splits add: float_text_inj)
  qed (use k assms in \<open>cases w; simp split: if_splits\<close>)+
qed

lemma scalar_text_end:
  assumes "scalar v" "scalar w" "json_ok v" "json_ok w" "stops r" "stops s"
    and eq: "compact_text v @ r = compact_text w @ s"
  shows "v = w \<and> r = s"
proof -
  have cut: "takeWhile (\<lambda>c. \<not> delimiter c) (compact_text u @ t) = compact_text u" if "scalar u" "json_ok u" "stops t" for u t
  proof -
    have "\<forall>c \<in> set (compact_text u). \<not> delimiter c" using that plain_chars by (auto simp: delimiter_def)
    then show ?thesis using that(3) by (cases t) (auto simp: takeWhile_append)
  qed
  from eq have "compact_text v = compact_text w" using cut assms by metis
  with assms eq show ?thesis by (auto dest: scalar_inj)
qed

section \<open>Containers\<close>

lemma join_Cons: "join sep (x # xs) = x @ concat (map (\<lambda>y. sep @ y) xs)"
  by (induction xs arbitrary: x) auto

lemma dumps_hd_delim: "json_ok v \<Longrightarrow> \<not> delimiter (hd (compact_text v))"
proof (cases "scalar v")
  case True
  assume ok: "json_ok v"
  then have "hd (compact_text v) \<in> set (compact_text v)" using compact_nonempty by simp
  with plain_chars [OF True ok] show ?thesis by (auto simp: delimiter_def)
next
  case False
  then show ?thesis by (cases v) (auto simp: quote_text_def delimiter_def char_code_def)
qed

text \<open>A sequence of texts, each read back uniquely and none starting with a delimiter.\<close>

definition reads_back :: "('a \<Rightarrow> string) \<Rightarrow> 'a set \<Rightarrow> 'a set \<Rightarrow> bool" where
  "reads_back f A B \<longleftrightarrow> (\<forall>x \<in> A. \<forall>y \<in> B. \<forall>r s. stops r \<longrightarrow> stops s \<longrightarrow> f x @ r = f y @ s \<longrightarrow> x = y \<and> r = s)"

lemma reads_backD:
  "reads_back f A B \<Longrightarrow> x \<in> A \<Longrightarrow> y \<in> B \<Longrightarrow> stops r \<Longrightarrow> stops s \<Longrightarrow> f x @ r = f y @ s \<Longrightarrow> x = y \<and> r = s"
  unfolding reads_back_def by blast

lemma reads_back_mono: "reads_back f A B \<Longrightarrow> A' \<subseteq> A \<Longrightarrow> B' \<subseteq> B \<Longrightarrow> reads_back f A' B'"
  unfolding reads_back_def by blast

definition rest_text :: "('a \<Rightarrow> string) \<Rightarrow> char \<Rightarrow> 'a list \<Rightarrow> string \<Rightarrow> string" where
  "rest_text f c xs r = concat (map (\<lambda>x. '','' @ f x) xs) @ c # r"

lemma rest_text_simps [simp]:
  "rest_text f c [] r = c # r" "rest_text f c (x # xs) r = CHR '','' # f x @ rest_text f c xs r"
  by (simp_all add: rest_text_def)

lemma rest_text_stops: "delimiter c \<Longrightarrow> stops (rest_text f c xs r)"
  by (cases xs) (simp_all add: delimiter_def char_code_def)

lemma tail_inj:
  assumes "delimiter c" "c \<noteq> CHR '',''"
  shows "reads_back f (set xs) (set ys) \<Longrightarrow> rest_text f c xs r = rest_text f c ys s \<Longrightarrow> xs = ys \<and> r = s"
proof (induction xs arbitrary: ys)
  case Nil
  then show ?case using assms(2) by (cases ys) auto
next
  case (Cons x xs)
  show ?case
  proof (cases ys)
    case Nil
    with Cons.prems assms(2) show ?thesis by auto
  next
    case ys: (Cons y zs)
    from Cons.prems(2) ys have "f x @ rest_text f c xs r = f y @ rest_text f c zs s" by simp
    from reads_backD [OF Cons.prems(1) _ _ rest_text_stops rest_text_stops this] assms(1) ys
    have xy: "x = y" "rest_text f c xs r = rest_text f c zs s" by auto
    have "xs = zs \<and> r = s"
      by (rule Cons.IH [OF reads_back_mono [OF Cons.prems(1)] xy(2)]) (use ys in auto)
    with xy ys show ?thesis by simp
  qed
qed

lemma join_rest: "join '','' (map f (x # xs)) @ c # r = f x @ rest_text f c xs r"
  by (simp add: join_Cons rest_text_def comp_def del: join.simps)

lemma join_inj:
  assumes rb: "reads_back f (set xs) (set ys)"
    and heads: "\<forall>x \<in> set xs \<union> set ys. f x \<noteq> [] \<and> \<not> delimiter (hd (f x))"
    and c: "delimiter c" "c \<noteq> CHR '',''"
    and eq: "join '','' (map f xs) @ c # r = join '','' (map f ys) @ c # s"
  shows "xs = ys \<and> r = s"
proof -
  have first: "hd (join '','' (map f (z # zs)) @ c # q) = hd (f z)" if "f z \<noteq> []" for z zs q
    using that by (simp only: join_rest) (cases "f z"; simp)
  show ?thesis
  proof (cases xs; cases ys)
    fix y zs assume xs: "xs = []" and ys: "ys = y # zs"
    with heads eq first [of y zs s] c(1) show ?thesis by (metis append_Nil join.simps(1) list.map(1) list.sel(1) list.set_intros(1) UnI2)
  next
    fix x zs assume xs: "xs = x # zs" and ys: "ys = []"
    with heads eq first [of x zs r] c(1) show ?thesis by (metis append_Nil join.simps(1) list.map(1) list.sel(1) list.set_intros(1) UnI1)
  next
    fix x xs' y ys' assume xs: "xs = x # xs'" and ys: "ys = y # ys'"
    from eq have "f x @ rest_text f c xs' r = f y @ rest_text f c ys' s" by (simp only: xs ys join_rest)
    from reads_backD [OF rb _ _ rest_text_stops rest_text_stops this] c(1) xs ys
    have xy: "x = y" "rest_text f c xs' r = rest_text f c ys' s" by auto
    have "xs' = ys' \<and> r = s"
      by (rule tail_inj [OF c reads_back_mono [OF rb] xy(2)]) (use xs ys in auto)
    with xy xs ys show ?thesis by simp
  qed (use eq in simp)
qed

definition field_text :: "string \<times> json \<Rightarrow> string" where
  "field_text f = quote_text (fst f) @ '':'' @ compact_text (snd f)"

lemma compact_obj: "compact_text (JObj fs) = ''{'' @ join '','' (map field_text fs) @ ''}''"
  by (simp add: field_text_def [abs_def] case_prod_unfold)

fun text_shape :: "json \<Rightarrow> nat" where
  "text_shape (JStr s) = 34"
| "text_shape (JArr vs) = 91"
| "text_shape (JObj fs) = 123"
| "text_shape v = 0"

lemma scalar_iff_shape: "scalar v \<longleftrightarrow> text_shape v = 0"
  by (cases v) auto

definition text_shape_of :: "string \<Rightarrow> nat" where
  "text_shape_of t = (let n = char_code (hd t) in if n \<in> {34, 91, 123} then n else 0)"

lemma text_shape_compact: "json_ok v \<Longrightarrow> text_shape_of (compact_text v @ r) = text_shape v"
proof (cases "scalar v")
  case True
  assume ok: "json_ok v"
  then have "hd (compact_text v) \<in> set (compact_text v)" using compact_nonempty by simp
  with plain_chars [OF True ok] ok True compact_nonempty show ?thesis
    by (auto simp: text_shape_of_def Let_def scalar_iff_shape)
next
  case False
  then show ?thesis by (cases v) (auto simp: text_shape_of_def Let_def quote_text_def char_code_def)
qed

lemma scalar_end:
  assumes "scalar v" "json_ok v" "json_ok w" "stops r" "stops s" "compact_text v @ r = compact_text w @ s"
  shows "v = w \<and> r = s"
proof -
  have "text_shape w = 0" using assms text_shape_compact scalar_iff_shape by metis
  then show ?thesis using assms scalar_text_end scalar_iff_shape by blast
qed

theorem compact_inj:
  "json_ok v \<Longrightarrow> json_ok w \<Longrightarrow> stops r \<Longrightarrow> stops s \<Longrightarrow> compact_text v @ r = compact_text w @ s \<Longrightarrow> v = w \<and> r = s"
proof (induction v arbitrary: w r s rule: json_ok.induct [case_names JFloat JArr JObj JNull JBool JInt JStr])
  case (JArr vs)
  then have "text_shape w = 91" by (metis text_shape_compact text_shape.simps(2))
  then obtain ws where w: "w = JArr ws" by (cases w) auto
  have "vs = ws \<and> r = s"
  proof (rule join_inj [where f = compact_text and c = "CHR '']''"])
    show "reads_back compact_text (set vs) (set ws)"
      unfolding reads_back_def
    proof (intro ballI allI impI)
      fix x y r' s'
      assume m: "x \<in> set vs" "y \<in> set ws" and st: "stops r'" "stops s'" and eq: "compact_text x @ r' = compact_text y @ s'"
      show "x = y \<and> r' = s'"
        by (rule JArr.IH [OF m(1) _ _ st eq]) (use JArr.prems(1,2) m w in auto)
    qed
    show "\<forall>x \<in> set vs \<union> set ws. compact_text x \<noteq> [] \<and> \<not> delimiter (hd (compact_text x))"
      using JArr.prems(1,2) w compact_nonempty dumps_hd_delim by auto
  qed (use JArr.prems(5) w in \<open>simp_all add: delimiter_def char_code_def\<close>)
  with w show ?case by simp
next
  case (JObj fs)
  then have "text_shape w = 123" by (metis text_shape_compact text_shape.simps(3))
  then obtain gs where w: "w = JObj gs" by (cases w) auto
  have "fs = gs \<and> r = s"
  proof (rule join_inj [where f = field_text and c = "CHR ''}''"])
    show "reads_back field_text (set fs) (set gs)"
      unfolding reads_back_def
    proof (intro ballI allI impI)
      fix x y r' s'
      assume m: "x \<in> set fs" "y \<in> set gs" and st: "stops r'" "stops s'"
        and eq: "field_text x @ r' = field_text y @ s'"
      from quote_text_inj [of "fst x" "'':'' @ compact_text (snd x) @ r'" "fst y" "'':'' @ compact_text (snd y) @ s'"] eq
      have "fst x = fst y" "compact_text (snd x) @ r' = compact_text (snd y) @ s'" by (simp_all add: field_text_def)
      moreover have "snd x = snd y \<and> r' = s'"
        by (rule JObj.IH [OF m(1) _ _ st \<open>compact_text (snd x) @ r' = compact_text (snd y) @ s'\<close>])
          (use JObj.prems(1,2) m w in auto)
      ultimately show "x = y \<and> r' = s'" by (simp add: prod_eq_iff)
    qed
    show "\<forall>x \<in> set fs \<union> set gs. field_text x \<noteq> [] \<and> \<not> delimiter (hd (field_text x))"
      by (simp add: field_text_def quote_text_def delimiter_def)
  qed (use JObj.prems(5) w in \<open>simp_all add: compact_obj delimiter_def char_code_def del: dumps_text.simps(7)\<close>)
  with w show ?case by simp
next
  case (JStr str)
  then have "text_shape w = 34" by (metis text_shape_compact text_shape.simps(1))
  then obtain t where w: "w = JStr t" by (cases w) auto
  with JStr.prems(5) have "quote_text str @ r = quote_text t @ s" by simp
  from quote_text_inj [OF this] w show ?case by simp
qed (rule scalar_end, simp, assumption+)+

lemma compact_eq_iff: "json_ok v \<Longrightarrow> json_ok w \<Longrightarrow> compact_text v = compact_text w \<longleftrightarrow> v = w"
  using compact_inj [of v w "[]" "[]"] by auto

end
