(* ===== verification/Agent_Approvals.thy ===== *)
theory Agent_Approvals
  imports Agent_Tools Json_Text
begin

text \<open>
  \<open>agents/approvals.py\<close>: the identity of one call, when a call needs a fresh human approval, what
  the human is shown, the collector of a turn's requests, and the durable one-time grant.
  \<open>sha\<close> is \<open>hashlib.sha256(text.encode()).hexdigest()\<close>; a time is in seconds; a grant and a
  request identity come from \<open>secrets\<close> and are parameters.
\<close>

definition APPROVAL_TTL_SECONDS :: int where "APPROVAL_TTL_SECONDS = 600"

definition MAX_APPROVAL_REQUESTS_PER_TURN :: nat where "MAX_APPROVAL_REQUESTS_PER_TURN = 4"

definition MAX_PREVIEW_ENTRIES :: nat where "MAX_PREVIEW_ENTRIES = 40"

definition MAX_PREVIEW_VALUE_CHARS :: nat where "MAX_PREVIEW_VALUE_CHARS = 200"

definition PREVIEW_VALUE_BUDGET :: nat where "PREVIEW_VALUE_BUDGET = 1600"

definition MIN_PREVIEW_VALUE_CHARS :: nat where "MIN_PREVIEW_VALUE_CHARS = 24"

definition MAX_PURPOSE_CHARS :: nat where "MAX_PURPOSE_CHARS = 240"

definition MAX_LABEL_CHARS :: nat where "MAX_LABEL_CHARS = 120"

text \<open>The ellipsis U+2026 is no code point of these strings: one character stands for it.\<close>

definition ELLIPSIS :: string where "ELLIPSIS = [char_of (127::nat)]"

datatype approval_policy = PolicyOff | PolicyTainted | PolicyAlways

section \<open>The identity of a call\<close>

definition canonical_arguments :: "json option \<Rightarrow> string" where
  "canonical_arguments args = dumps_text '','' '':''
     (sort_keys (case args of None \<Rightarrow> JObj [] | Some v \<Rightarrow> v))"

definition arguments_digest :: "(string \<Rightarrow> string) \<Rightarrow> json option \<Rightarrow> string" where
  "arguments_digest sha args = sha (canonical_arguments args)"

definition NUL :: char where "NUL = char_of (0::nat)"

definition approval_key :: "string \<Rightarrow> string \<Rightarrow> string" where
  "approval_key tool digest = tool @ NUL # digest"

lemma json_ok_sort_keys: "json_ok v \<Longrightarrow> json_ok (sort_keys v)"
proof (induction v rule: json_ok.induct)
  case (3 fs)
  then show ?case by (auto simp: case_prod_unfold)
qed auto

text \<open>Equal canonical texts are equal argument objects, up to the order of their keys.\<close>

lemma canonical_arguments_iff:
  assumes "json_ok a" "json_ok b"
  shows "canonical_arguments (Some a) = canonical_arguments (Some b) \<longleftrightarrow> sort_keys a = sort_keys b"
  using assms by (simp add: canonical_arguments_def compact_eq_iff json_ok_sort_keys)

lemma approval_key_inj:
  assumes "NUL \<notin> set d" "NUL \<notin> set e"
  shows "approval_key t d = approval_key u e \<longleftrightarrow> t = u \<and> d = e"
proof
  assume eq: "approval_key t d = approval_key u e"
  then have rv: "rev d @ NUL # rev t = rev e @ NUL # rev u"
    by (metis approval_key_def append.assoc append_Cons append_Nil rev.simps(2) rev_append)
  have cut: "takeWhile (\<lambda>c. c \<noteq> NUL) (rev x @ NUL # y) = rev x" if "NUL \<notin> set x" for x y
    using that by (simp add: takeWhile_append takeWhile_eq_all_conv)
  have "rev d = rev e" using rv cut assms by metis
  with rv show "t = u \<and> d = e" by simp
qed simp

section \<open>When a call needs a fresh approval\<close>

definition requires_invocation_approval :: "tool_spec \<Rightarrow> approval_policy \<Rightarrow> bool \<Rightarrow> bool" where
  "requires_invocation_approval s policy untrusted =
     (if policy = PolicyOff then False
      else if \<not> (ts_risk s = External \<or> ts_risk s = Destructive) then False
      else if policy = PolicyAlways \<and> \<not> ts_injection_only s then True
      else untrusted)"

text \<open>Only a turn without untrusted content relaxes the gate, and only where the contract says so.\<close>

lemma gate_monotone:
  "requires_invocation_approval s policy False \<Longrightarrow> requires_invocation_approval s policy True"
  by (auto simp: requires_invocation_approval_def split: if_splits)

lemma tainted_gate_iff:
  "requires_invocation_approval s policy True \<longleftrightarrow> policy \<noteq> PolicyOff \<and> ts_risk s \<noteq> Safe"
  by (cases "ts_risk s") (auto simp: requires_invocation_approval_def)

section \<open>What the human is shown\<close>

text \<open>\<open>" ".join(text.split())\<close>.\<close>

function words_of :: "string \<Rightarrow> string list" where
  "words_of s = (let t = dropWhile is_space s in
     if t = [] then [] else takeWhile (\<lambda>c. \<not> is_space c) t # words_of (dropWhile (\<lambda>c. \<not> is_space c) t))"
  by auto

termination
proof (relation "measure length")
  fix s t :: string
  assume t: "t = dropWhile is_space s" "t \<noteq> []"
  then have "\<not> is_space (hd t)" using hd_dropWhile by blast
  then have "length (dropWhile (\<lambda>c. \<not> is_space c) t) < length t"
    using t(2) by (cases t) (auto simp: length_dropWhile_le less_Suc_eq_le)
  also have "length t \<le> length s" using t(1) by (simp add: length_dropWhile_le)
  finally show "(dropWhile (\<lambda>c. \<not> is_space c) t, s) \<in> measure length" by simp
qed simp

declare words_of.simps [simp del]

definition collapse :: "string \<Rightarrow> string" where
  "collapse s = join '' '' (words_of s)"

text \<open>\<open>repr\<close> of a string.\<close>

definition repr_char :: "char \<Rightarrow> char \<Rightarrow> string" where
  "repr_char q c =
     (let n = char_code c in
      if c = q \<or> n = 92 then [backslash, c]
      else if n = 10 then [backslash, CHR ''n'']
      else if n = 13 then [backslash, CHR ''r'']
      else if n = 9 then [backslash, CHR ''t'']
      else if n < 32 \<or> 127 \<le> n \<and> n \<le> 160 \<or> n = 173
           then [backslash, CHR ''x'', hex_digit (n div 16), hex_digit (n mod 16)]
      else [c])"

definition py_repr :: "string \<Rightarrow> string" where
  "py_repr s = (let q = (if apostrophe \<in> set s \<and> dquote \<notin> set s then dquote else apostrophe)
     in q # concat (map (repr_char q) s) @ [q])"

definition preview_value :: "json \<Rightarrow> nat \<Rightarrow> string \<times> bool" where
  "preview_value v limit =
     (let text = (case v of JStr s \<Rightarrow> s | _ \<Rightarrow> dumps_text '', '' '': '' v); collapsed = collapse text in
      if limit < length collapsed then (take limit collapsed @ ELLIPSIS, True) else (collapsed, False))"

definition hex4 :: "char \<Rightarrow> string" where
  "hex4 c = (let n = char_code c in [CHR ''0'', CHR ''0'', hex_digit (n div 16), hex_digit (n mod 16)])"

definition shorten_label :: "(string \<Rightarrow> string) \<Rightarrow> string \<Rightarrow> string \<Rightarrow> string" where
  "shorten_label sha label seed =
     (let suffix = take 10 (sha seed) in
      take (MAX_LABEL_CHARS - length suffix - 2) label @ ELLIPSIS @ ''#'' @ suffix)"

definition preview_label :: "(string \<Rightarrow> string) \<Rightarrow> string \<Rightarrow> string" where
  "preview_label sha raw =
     (let rendered = (if raw = [] then ''<empty-key>''
            else if raw \<noteq> collapse raw
                 then concat (map (\<lambda>c. if is_space c then [backslash, CHR ''u''] @ hex4 c else [c]) raw)
            else raw)
      in if length rendered \<le> MAX_LABEL_CHARS then rendered else shorten_label sha rendered raw)"

record argument_preview =
  ap_shown :: "(string, string) dict"
  ap_masked :: "string set"
  ap_elided :: "string set"
  ap_omitted :: nat

definition preview_truncated :: "argument_preview \<Rightarrow> bool" where
  "preview_truncated p \<longleftrightarrow> 0 < ap_omitted p"

definition per_value_chars :: "nat \<Rightarrow> nat" where
  "per_value_chars n = (if n = 0 then MAX_PREVIEW_VALUE_CHARS
     else max MIN_PREVIEW_VALUE_CHARS (min MAX_PREVIEW_VALUE_CHARS (PREVIEW_VALUE_BUDGET div n)))"

text \<open>One key of the loop; the label changes once more when it is already shown.\<close>

definition show_key :: "(string \<Rightarrow> string) \<Rightarrow> nat \<Rightarrow> argument_preview \<Rightarrow> string \<times> json \<Rightarrow> argument_preview" where
  "show_key sha per_value p entry =
     (let key = fst entry;
          label0 = preview_label sha key;
          label = (if label0 \<in> fst ` set (ap_shown p) then shorten_label sha label0 (py_repr key) else label0);
          (value, was_cut) = preview_value (snd entry) per_value
      in p\<lparr>ap_shown := AList.update label value (ap_shown p),
           ap_masked := (if is_fully_masked (snd entry) then insert label (ap_masked p) else ap_masked p),
           ap_elided := (if \<not> is_fully_masked (snd entry) \<and> was_cut then insert label (ap_elided p)
                         else ap_elided p)\<rparr>)"

definition build_preview :: "(string \<Rightarrow> string) \<Rightarrow> (string \<times> json) list \<Rightarrow> argument_preview" where
  "build_preview sha source =
     (let redacted = map (\<lambda>(k, v). (k, if secret_key k then JStr REDACTED else redact_obj v)) source;
          entries = sort_key fst redacted;
          visible = take MAX_PREVIEW_ENTRIES entries;
          overflow = drop MAX_PREVIEW_ENTRIES entries
      in foldl (show_key sha (per_value_chars (length visible)))
           \<lparr>ap_shown = [], ap_masked = {}, ap_elided = {}, ap_omitted = length overflow\<rparr> visible)"

definition bounded_purpose :: "string \<Rightarrow> string" where
  "bounded_purpose text =
     (let collapsed = collapse (redact text) in
      if MAX_PURPOSE_CHARS < length collapsed then take MAX_PURPOSE_CHARS collapsed @ ELLIPSIS else collapsed)"

definition UNKNOWN_TOOL :: string where "UNKNOWN_TOOL = ''unknown_tool''"

fun safe_label :: "string option list \<Rightarrow> string" where
  "safe_label [] = UNKNOWN_TOOL"
| "safe_label (None # cs) = safe_label cs"
| "safe_label (Some c # cs) = (if c \<noteq> [] \<and> is_safe_tool_name c then c else safe_label cs)"

lemma safe_label_safe: "is_safe_tool_name (safe_label cs)"
proof (induction cs rule: safe_label.induct)
  case 1
  then show ?case
    by (simp add: UNKNOWN_TOOL_def is_safe_tool_name_def tool_name_text_def token_char_def is_alnum_def
        is_digit_def char_code_def)
qed simp_all

section \<open>The requests of a turn\<close>

record approval_draft =
  dr_tool :: string
  dr_label :: string
  dr_host :: "string option"
  dr_purpose :: string
  dr_risk :: string
  dr_digest :: string
  dr_preview :: argument_preview

definition draft_key :: "approval_draft \<Rightarrow> string" where
  "draft_key d = approval_key (dr_tool d) (dr_digest d)"

definition draft_for_call ::
  "(string \<Rightarrow> string) \<Rightarrow> tool_spec \<Rightarrow> string \<Rightarrow> string option \<Rightarrow> (string \<times> json) list \<Rightarrow> string option \<Rightarrow> approval_draft" where
  "draft_for_call sha s tool label args digest =
     (let hosts = sorted_list_of_set (ts_egress s) in
      \<lparr>dr_tool = tool, dr_label = safe_label [label, Some tool],
       dr_host = (case hosts of [h] \<Rightarrow> Some h | _ \<Rightarrow> None),
       dr_purpose = bounded_purpose (ts_description s), dr_risk = risk_value (ts_risk s),
       dr_digest = (case digest of Some d \<Rightarrow> d | None \<Rightarrow> arguments_digest sha (Some (JObj args))),
       dr_preview = build_preview sha args\<rparr>)"

record approval_sink =
  sk_limit :: nat
  sk_drafts :: "approval_draft list"
  sk_seen :: "string set"
  sk_dropped :: nat

definition new_sink :: "int \<Rightarrow> approval_sink" where
  "new_sink limit = \<lparr>sk_limit = nat (max 0 limit), sk_drafts = [], sk_seen = {}, sk_dropped = 0\<rparr>"

definition request_approval :: "approval_draft \<Rightarrow> approval_sink \<Rightarrow> bool \<times> approval_sink" where
  "request_approval d k =
     (if draft_key d \<in> sk_seen k then (False, k)
      else if sk_limit k \<le> length (sk_drafts k) then (False, k\<lparr>sk_dropped := sk_dropped k + 1\<rparr>)
      else (True, k\<lparr>sk_seen := insert (draft_key d) (sk_seen k), sk_drafts := sk_drafts k @ [d]\<rparr>))"

definition sink_ok :: "approval_sink \<Rightarrow> bool" where
  "sink_ok k \<longleftrightarrow> length (sk_drafts k) \<le> sk_limit k \<and> distinct (map draft_key (sk_drafts k))
     \<and> sk_seen k = draft_key ` set (sk_drafts k)"

lemma new_sink_ok: "sink_ok (new_sink n)"
  by (simp add: sink_ok_def new_sink_def)

lemma request_ok: "sink_ok k \<Longrightarrow> sink_ok (snd (request_approval d k)) \<and> sk_limit (snd (request_approval d k)) = sk_limit k"
  by (auto simp: request_approval_def sink_ok_def)

section \<open>The durable record and its grant\<close>

record pending_approval =
  pa_id :: string
  pa_tool :: string
  pa_label :: string
  pa_host :: "string option"
  pa_purpose :: string
  pa_risk :: string
  pa_digest :: string
  pa_preview :: "(string, string) dict"
  pa_masked :: "string list"
  pa_elided :: "string list"
  pa_omitted :: nat
  pa_grantHash :: string
  pa_consumed :: bool
  pa_expiresAt :: int
  pa_createdAt :: int
  pa_messageId :: "string option"
  pa_operationId :: "string option"

definition approval_expired :: "pending_approval \<Rightarrow> int \<Rightarrow> bool" where
  "approval_expired r now \<longleftrightarrow> now \<ge> pa_expiresAt r"

definition pending_key :: "pending_approval \<Rightarrow> string" where
  "pending_key r = approval_key (pa_tool r) (pa_digest r)"

definition mint_pending_approval ::
  "(string \<Rightarrow> string) \<Rightarrow> string \<Rightarrow> string \<Rightarrow> approval_draft \<Rightarrow> int \<Rightarrow> int \<Rightarrow> pending_approval" where
  "mint_pending_approval sha ident grant d now ttl =
     \<lparr>pa_id = ident, pa_tool = dr_tool d, pa_label = dr_label d, pa_host = dr_host d,
      pa_purpose = dr_purpose d, pa_risk = dr_risk d, pa_digest = dr_digest d,
      pa_preview = ap_shown (dr_preview d), pa_masked = sorted_list_of_set (ap_masked (dr_preview d)),
      pa_elided = sorted_list_of_set (ap_elided (dr_preview d)), pa_omitted = ap_omitted (dr_preview d),
      pa_grantHash = sha grant, pa_consumed = False, pa_expiresAt = now + max 1 ttl,
      pa_createdAt = now, pa_messageId = None, pa_operationId = None\<rparr>"

datatype approval_denied = UnknownRequest | BadGrant | Expired | AlreadyUsed

text \<open>\<open>consume_grant\<close>: \<open>Inr\<close> carries the record whose call may run.\<close>

definition consume_grant ::
  "(string \<Rightarrow> string) \<Rightarrow> pending_approval option \<Rightarrow> string option \<Rightarrow> int \<Rightarrow> approval_denied + pending_approval" where
  "consume_grant sha rec grant now = (case rec of
     None \<Rightarrow> Inl UnknownRequest
   | Some r \<Rightarrow>
       (case grant of
          None \<Rightarrow> Inl BadGrant
        | Some g \<Rightarrow>
            if g = [] then Inl BadGrant
            else if sha g \<noteq> pa_grantHash r then Inl BadGrant
            else if pa_consumed r then Inl AlreadyUsed
            else if approval_expired r now then Inl Expired
            else Inr r))"

lemma consume_grant_iff:
  "consume_grant sha rec grant now = Inr r \<longleftrightarrow>
     rec = Some r \<and> (\<exists>g. grant = Some g \<and> g \<noteq> [] \<and> sha g = pa_grantHash r)
     \<and> \<not> pa_consumed r \<and> now < pa_expiresAt r"
  by (auto simp: consume_grant_def approval_expired_def split: option.splits)

text \<open>A minted record is redeemed by its own grant, within its time and before it is consumed.\<close>

lemma minted_grant_redeems:
  assumes "grant \<noteq> []" "now \<le> later" "later < now + max 1 ttl"
  shows "consume_grant sha (Some (mint_pending_approval sha ident grant d now ttl)) (Some grant) later
     = Inr (mint_pending_approval sha ident grant d now ttl)"
  using assms by (simp add: consume_grant_iff mint_pending_approval_def)

end
