(* ===== verification/Agent_Context.thy ===== *)
theory Agent_Context
  imports Agent_Approvals Usage_Models "HOL-Library.Multiset"
begin

text \<open>
  \<open>agents/prompt_budget.py\<close>: the size of a prompt in bytes and the eviction of old turns. A message
  is its dictionary. The dictionary of outstanding call identities to counts is the list of those
  identities (an identity as often as its count). Eviction keeps the system messages, the whole
  current turn and the newest complete earlier turns that fit.
\<close>

type_synonym message = "(string \<times> json) list"

definition FALLBACK_CONTEXT_WINDOW_TOKENS :: int where "FALLBACK_CONTEXT_WINDOW_TOKENS = 192000"

definition TOOL_CONTEXT_RESERVE_TOKENS :: int where "TOOL_CONTEXT_RESERVE_TOKENS = 4096"

definition MESSAGE_ENVELOPE_RESERVE_BYTES :: nat where "MESSAGE_ENVELOPE_RESERVE_BYTES = 32"

section \<open>Sizes\<close>

text \<open>
  \<open>max_tokens\<close> as the request carries it: a number, a text, or something else. \<open>None\<close> is the
  \<open>OverflowError\<close> of an infinite number, which the code does not catch.
\<close>

definition agent_requested_output :: "json option \<Rightarrow> int \<Rightarrow> int option" where
  "agent_requested_output v default_max = (case v of
     Some (JBool b) \<Rightarrow> Some 1
   | Some (JInt i) \<Rightarrow> Some (max 1 i)
   | Some (JFloat r) \<Rightarrow>
       if r = ''inf'' \<or> r = ''-inf'' then None
       else (case py_int (JFloat r) of Some i \<Rightarrow> Some (max 1 i) | None \<Rightarrow> Some default_max)
   | Some (JStr s) \<Rightarrow> (case py_int (JStr s) of Some i \<Rightarrow> Some (max 1 i) | None \<Rightarrow> Some default_max)
   | _ \<Rightarrow> Some default_max)"

definition prompt_byte_budget :: "int option \<Rightarrow> message \<Rightarrow> int \<Rightarrow> int option" where
  "prompt_byte_budget context_window params default_max =
     (let context = (case context_window of Some c \<Rightarrow> if c = 0 then FALLBACK_CONTEXT_WINDOW_TOKENS else c
                     | None \<Rightarrow> FALLBACK_CONTEXT_WINDOW_TOKENS) in
      map_option (\<lambda>out. let reserved = min (max 0 (context - 1)) (out + TOOL_CONTEXT_RESERVE_TOKENS)
                        in max 1 (context - reserved))
        (agent_requested_output (map_of params ''max_tokens'') default_max))"

lemma prompt_byte_budget_positive: "prompt_byte_budget c p d = Some b \<Longrightarrow> 1 \<le> b"
  by (auto simp: prompt_byte_budget_def Let_def)

definition serialized_budget_bytes :: "json \<Rightarrow> nat" where
  "serialized_budget_bytes v = utf8_len (dumps_text '','' '':'' v)"

text \<open>\<open>str\<close> of a content that is no string: the \<open>repr\<close> of its value.\<close>

fun repr_json :: "json \<Rightarrow> string" where
  "repr_json JNull = ''None''"
| "repr_json (JBool b) = (if b then ''True'' else ''False'')"
| "repr_json (JInt i) = show_int i"
| "repr_json (JFloat r) = r"
| "repr_json (JStr s) = py_repr s"
| "repr_json (JArr vs) = ''['' @ join '', '' (map repr_json vs) @ '']''"
| "repr_json (JObj fs) = ''{'' @ join '', '' (map (\<lambda>(k, v). py_repr k @ '': '' @ repr_json v) fs) @ ''}''"

definition content_text :: "json \<Rightarrow> string" where
  "content_text v = (if is_falsy v then [] else (case v of JStr s \<Rightarrow> s | _ \<Rightarrow> repr_json v))"

definition message_budget_bytes :: "message \<Rightarrow> nat" where
  "message_budget_bytes m =
     (let extra = filter (\<lambda>f. fst f \<notin> {''role'', ''content''}) m in
      utf8_len (content_text (get_or_null m ''content'')) + MESSAGE_ENVELOPE_RESERVE_BYTES
      + (if extra = [] then 0 else serialized_budget_bytes (JObj extra)))"

definition total_bytes :: "message list \<Rightarrow> nat" where
  "total_bytes ms = sum_list (map message_budget_bytes ms)"

lemma total_bytes_simps [simp]:
  "total_bytes [] = 0" "total_bytes (m # ms) = message_budget_bytes m + total_bytes ms"
  "total_bytes (ms @ ns) = total_bytes ms + total_bytes ns"
  by (simp_all add: total_bytes_def)

section \<open>Roles and the tool protocol\<close>

definition has_role :: "string \<Rightarrow> message \<Rightarrow> bool" where
  "has_role r m \<longleftrightarrow> get_or_null m ''role'' = JStr r"

fun dict_of :: "json \<Rightarrow> message" where
  "dict_of (JObj fs) = fs"
| "dict_of _ = []"

definition calls_of :: "message \<Rightarrow> message list" where
  "calls_of m = (case get_or_null m ''tool_calls'' of JArr cs \<Rightarrow> map dict_of cs | _ \<Rightarrow> [])"

datatype budget_error =
    NoCurrentUser | InvalidCurrentUser | MissingResults | OrphanResult | InvalidMessage | OverBudget

fun protocol :: "json list \<Rightarrow> message list \<Rightarrow> budget_error + json list" where
  "protocol ids [] = Inr ids"
| "protocol ids (m # ms) =
     (if has_role ''assistant'' m \<and> calls_of m \<noteq> []
      then (if ids \<noteq> [] then Inl MissingResults
            else protocol (map (\<lambda>c. get_or_null c ''id'') (calls_of m)) ms)
      else if has_role ''tool'' m
      then (let cid = get_or_null m ''tool_call_id'' in
            if cid \<notin> set ids then Inl OrphanResult else protocol (remove1 cid ids) ms)
      else Inl InvalidMessage)"

lemma protocol_append: "protocol ids (ms @ ns) = bindE (protocol ids ms) (\<lambda>ids'. protocol ids' ns)"
  by (induction ids ms rule: protocol.induct) (auto simp: Let_def)

section \<open>Which messages stay\<close>

definition current_user :: "message list \<Rightarrow> nat option" where
  "current_user ms = (case filter (\<lambda>i. has_role ''user'' (ms ! i)) (rev [0..<length ms]) of
     [] \<Rightarrow> None | i # _ \<Rightarrow> Some i)"

definition fixed_index :: "message list \<Rightarrow> nat \<Rightarrow> nat \<Rightarrow> bool" where
  "fixed_index ms cu i \<longleftrightarrow> has_role ''system'' (ms ! i) \<or> cu \<le> i"

definition fixed_indexes :: "message list \<Rightarrow> nat \<Rightarrow> nat list" where
  "fixed_indexes ms cu = filter (fixed_index ms cu) [0..<length ms]"

definition history_indexes :: "message list \<Rightarrow> nat \<Rightarrow> nat list" where
  "history_indexes ms cu = filter (\<lambda>i. \<not> fixed_index ms cu i) [0..<cu]"

definition bytes_at :: "message list \<Rightarrow> nat list \<Rightarrow> nat" where
  "bytes_at ms is = sum_list (map (\<lambda>i. message_budget_bytes (ms ! i)) is)"

text \<open>A group starts at a user message and reaches to the next one.\<close>

definition add_to_groups :: "message list \<Rightarrow> nat list list \<Rightarrow> nat \<Rightarrow> nat list list" where
  "add_to_groups ms groups i =
     (if has_role ''user'' (ms ! i) \<or> groups = [] then groups @ [[i]]
      else butlast groups @ [last groups @ [i]])"

definition history_groups :: "message list \<Rightarrow> nat list \<Rightarrow> nat list list" where
  "history_groups ms is = foldl (add_to_groups ms) [] is"

text \<open>Newest group first, until one does not fit.\<close>

fun keep_groups :: "message list \<Rightarrow> int \<Rightarrow> int \<Rightarrow> nat list list \<Rightarrow> nat list list" where
  "keep_groups ms budget used [] = []"
| "keep_groups ms budget used (g # gs) =
     (let size = int (bytes_at ms g) in
      if used + size > budget then [] else g # keep_groups ms budget (used + size) gs)"

definition kept_history :: "message list \<Rightarrow> int \<Rightarrow> int \<Rightarrow> nat \<Rightarrow> nat list" where
  "kept_history ms budget used cu =
     concat (keep_groups ms budget used (rev (history_groups ms (history_indexes ms cu))))"

definition bound_agent_context ::
  "message list \<Rightarrow> nat \<Rightarrow> int \<Rightarrow> nat \<Rightarrow> budget_error + message list \<times> nat \<times> nat" where
  "bound_agent_context ms cu budget extra =
     (if ms = [] then Inr ([], 0, 0)
      else if \<not> cu < length ms then Inl NoCurrentUser
      else if \<not> has_role ''user'' (ms ! cu) then Inl InvalidCurrentUser
      else bindE (protocol [] (drop (Suc cu) ms)) (\<lambda>ids.
        if ids \<noteq> [] then Inl MissingResults
        else (let fixed = fixed_indexes ms cu; used = int extra + int (bytes_at ms fixed) in
          if used > budget then Inl OverBudget
          else (let kept = kept_history ms budget used cu in
            Inr (nths ms (set fixed \<union> set kept), length (history_indexes ms cu) - length kept, 0)))))"

definition bound_payload_history ::
  "message list \<Rightarrow> int \<Rightarrow> nat \<Rightarrow> budget_error + message list \<times> nat \<times> nat" where
  "bound_payload_history ms budget extra =
     (if ms = [] then (if int extra > budget then Inl OverBudget else Inr ([], 0, 0))
      else (let cu = (case current_user ms of Some i \<Rightarrow> i | None \<Rightarrow> length ms - 1);
                fixed = fixed_indexes ms cu; used = int extra + int (bytes_at ms fixed) in
        if used > budget then Inl OverBudget
        else (let kept = kept_history ms budget used cu;
                  dropped = filter (\<lambda>i. i \<notin> set kept) (history_indexes ms cu) in
          Inr (nths ms (set fixed \<union> set kept), length dropped, bytes_at ms dropped))))"

section \<open>What eviction keeps\<close>

lemma concat_history_groups: "concat (history_groups ms is) = is"
proof -
  have "concat (foldl (add_to_groups ms) gs is) = concat gs @ is" for gs
  proof (induction "is" arbitrary: gs)
    case (Cons i js)
    have "concat (add_to_groups ms gs i) = concat gs @ [i]"
      by (cases gs rule: rev_cases) (auto simp: add_to_groups_def)
    with Cons show ?case by simp
  qed simp
  from this [of "[]"] show ?thesis by (simp add: history_groups_def)
qed

lemma keep_groups_prefix: "\<exists>k. keep_groups ms budget used gs = take k gs"
proof (induction gs arbitrary: used)
  case (Cons g gs)
  show ?case
  proof (cases "used + int (bytes_at ms g) > budget")
    case True
    then show ?thesis by (intro exI [of _ 0]) (simp add: Let_def)
  next
    case False
    with Cons [of "used + int (bytes_at ms g)"] obtain k
      where "keep_groups ms budget (used + int (bytes_at ms g)) gs = take k gs" by blast
    with False show ?thesis by (intro exI [of _ "Suc k"]) (simp add: Let_def)
  qed
qed simp

lemma bytes_at_simps [simp]:
  "bytes_at ms [] = 0" "bytes_at ms (i # is) = message_budget_bytes (ms ! i) + bytes_at ms is"
  "bytes_at ms (is @ js) = bytes_at ms is + bytes_at ms js"
  by (simp_all add: bytes_at_def)

lemma keep_groups_fit: "used \<le> budget \<Longrightarrow> used + int (bytes_at ms (concat (keep_groups ms budget used gs))) \<le> budget"
proof (induction gs arbitrary: used)
  case (Cons g gs)
  show ?case
  proof (cases "used + int (bytes_at ms g) > budget")
    case False
    with Cons.IH [of "used + int (bytes_at ms g)"] show ?thesis by (simp add: Let_def algebra_simps)
  qed (use Cons.prems in \<open>simp add: Let_def\<close>)
qed simp

lemma kept_history_sub:
  "set (kept_history ms budget used cu) \<subseteq> set (history_indexes ms cu)" "distinct (kept_history ms budget used cu)"
proof -
  let ?g = "rev (history_groups ms (history_indexes ms cu))"
  obtain k where k: "kept_history ms budget used cu = concat (take k ?g)"
    using keep_groups_prefix by (metis kept_history_def)
  have set: "set (concat ?g) = set (history_indexes ms cu)"
    using concat_history_groups [of ms "history_indexes ms cu"] by (metis set_concat set_rev)
  have "mset (concat (rev gs)) = mset (concat gs)" for gs :: "nat list list"
    by (induction gs) (simp_all add: add.commute)
  then have "mset (concat ?g) = mset (history_indexes ms cu)"
    using concat_history_groups [of ms "history_indexes ms cu"] by metis
  then have "distinct (concat ?g)"
    by (metis distinct_filter distinct_upt history_indexes_def mset_eq_imp_distinct_iff)
  moreover have split: "concat ?g = concat (take k ?g) @ concat (drop k ?g)"
    by (metis append_take_drop_id concat_append)
  ultimately show "distinct (kept_history ms budget used cu)" by (simp add: k)
  show "set (kept_history ms budget used cu) \<subseteq> set (history_indexes ms cu)"
    using set split k by (metis UnCI set_append subsetI)
qed

lemma total_bytes_nths: "total_bytes (nths ms A) = bytes_at ms (filter (\<lambda>i. i \<in> A) [0..<length ms])"
proof -
  have z: "zip ms [0..<length ms] = map (\<lambda>i. (ms ! i, i)) [0..<length ms]"
    by (rule nth_equalityI) auto
  show ?thesis by (simp add: nths_def z total_bytes_def bytes_at_def filter_map comp_def)
qed

lemma bytes_at_set: "distinct is \<Longrightarrow> bytes_at ms is = (\<Sum>i \<in> set is. message_budget_bytes (ms ! i))"
  by (simp add: bytes_at_def sum_list_distinct_conv_sum_set)

lemma selected_bytes:
  assumes "distinct is" "set is \<subseteq> set (history_indexes ms cu)" "cu < length ms"
  shows "total_bytes (nths ms (set (fixed_indexes ms cu) \<union> set is)) = bytes_at ms (fixed_indexes ms cu) + bytes_at ms is"
proof -
  let ?F = "set (fixed_indexes ms cu)"
  have disj: "?F \<inter> set is = {}"
    using assms(2) by (auto simp: fixed_indexes_def history_indexes_def)
  have bound: "?F \<union> set is \<subseteq> {0..<length ms}"
    using assms(2,3) by (auto simp: fixed_indexes_def history_indexes_def)
  then have "set (filter (\<lambda>i. i \<in> ?F \<union> set is) [0..<length ms]) = ?F \<union> set is" by auto
  then have "total_bytes (nths ms (?F \<union> set is)) = (\<Sum>i \<in> ?F \<union> set is. message_budget_bytes (ms ! i))"
    by (simp add: total_bytes_nths bytes_at_set)
  also have "\<dots> = bytes_at ms (fixed_indexes ms cu) + bytes_at ms is"
    using assms(1) disj by (simp add: sum.union_disjoint bytes_at_set fixed_indexes_def)
  finally show ?thesis .
qed

text \<open>When eviction succeeds, the result fits and ends with the whole current turn.\<close>

lemma bound_agent_context_fits:
  assumes "bound_agent_context ms cu budget extra = Inr (ms', dropped, z)" "ms \<noteq> []"
  shows "int extra + int (total_bytes ms') \<le> budget"
proof -
  let ?used = "int extra + int (bytes_at ms (fixed_indexes ms cu))"
  let ?kept = "kept_history ms budget ?used cu"
  from assms have cu: "cu < length ms" and fits: "?used \<le> budget"
    and ms': "ms' = nths ms (set (fixed_indexes ms cu) \<union> set ?kept)"
    by (auto simp: bound_agent_context_def Let_def bindE_Inr_iff split: if_splits)
  have "?used + int (bytes_at ms ?kept) \<le> budget"
    using keep_groups_fit [OF fits] by (simp add: kept_history_def)
  then show ?thesis
    using selected_bytes [OF kept_history_sub(2) kept_history_sub(1) cu] by (simp add: ms')
qed

lemma bound_agent_context_shape:
  assumes "bound_agent_context ms cu budget extra = Inr (ms', dropped, z)" "ms \<noteq> []"
  shows "\<exists>A. ms' = nths (take cu ms) A @ drop cu ms \<and> {i. i < cu \<and> has_role ''system'' (ms ! i)} \<subseteq> A
     \<and> cu < length ms \<and> has_role ''user'' (ms ! cu) \<and> protocol [] (drop (Suc cu) ms) = Inr []"
proof -
  let ?used = "int extra + int (bytes_at ms (fixed_indexes ms cu))"
  let ?A = "set (fixed_indexes ms cu) \<union> set (kept_history ms budget ?used cu)"
  from assms have cu: "cu < length ms" "has_role ''user'' (ms ! cu)" "protocol [] (drop (Suc cu) ms) = Inr []"
    and ms': "ms' = nths ms ?A"
    by (auto simp: bound_agent_context_def Let_def bindE_Inr_iff split: if_splits)
  have "nths ms ?A = nths (take cu ms @ drop cu ms) ?A" by simp
  also have "\<dots> = nths (take cu ms) ?A @ nths (drop cu ms) {j. j + cu \<in> ?A}"
    using cu(1) by (simp add: nths_append del: append_take_drop_id)
  also have "nths (drop cu ms) {j. j + cu \<in> ?A} = drop cu ms"
    using cu(1) by (intro nths_all) (auto simp: fixed_indexes_def fixed_index_def)
  finally have "ms' = nths (take cu ms) ?A @ drop cu ms" by (simp add: ms')
  moreover have "{i. i < cu \<and> has_role ''system'' (ms ! i)} \<subseteq> ?A"
    using cu(1) by (auto simp: fixed_indexes_def fixed_index_def)
  ultimately show ?thesis using cu by blast
qed

text \<open>Only the budget stops a well-formed conversation.\<close>

lemma bound_agent_context_only_budget:
  assumes "cu < length ms" "has_role ''user'' (ms ! cu)" "protocol [] (drop (Suc cu) ms) = Inr []"
    and "bound_agent_context ms cu budget extra = Inl e"
  shows "e = OverBudget"
  using assms by (auto simp: bound_agent_context_def Let_def split: if_splits)

end
