(* ===== verification/Agent_Turn.thy ===== *)
theory Agent_Turn
  imports Agent_Context
begin

text \<open>
  One agent turn: \<open>run_agent_turn\<close> of \<open>agents/runtime.py\<close> with the execution layer it calls
  (\<open>ToolExecutor.execute\<close>) and the consent contract (\<open>agents/consent.py\<close>), for turns that are not
  resumable (no checkpoint) and not streamed. The world outside the loop is a record of answers:
  each answer is a function of the trace of what the turn has asked and run so far, so that
  permissions, registry, consent and results may change at any time. \<open>Inl\<close> is a turn that ends
  by an exception, with the state it leaves.
\<close>

definition MAX_TOOL_CALLS :: nat where "MAX_TOOL_CALLS = 8"

definition MAX_TOOL_RESULT_BYTES :: nat where "MAX_TOOL_RESULT_BYTES = 8192"

definition DEFAULT_MAX_OUTPUT_TOKENS :: int where "DEFAULT_MAX_OUTPUT_TOKENS = 1024"

definition MAX_CONTRACT_BYTES :: nat where "MAX_CONTRACT_BYTES = 262144"

definition RESPONSES_OUTPUT_ITEMS_KEY :: string where
  "RESPONSES_OUTPUT_ITEMS_KEY = ''_responses_output_items''"

definition APPROVAL_HELD_MESSAGE :: string where
  "APPROVAL_HELD_MESSAGE =
     ''This call was not executed. It requires the user's explicit approval for '' @
     ''these exact arguments, and the blocked call has been recorded for review. Do '' @
     ''not retry it in this turn and do not attempt a different tool to achieve '' @
     ''the same effect. Tell the user plainly what you need approved and why.''"

section \<open>The contract of a tool\<close>

definition spec_json :: "tool_spec \<Rightarrow> json" where
  "spec_json s = JObj
     [(''name'', JStr (ts_name s)), (''description'', JStr (ts_description s)),
      (''scopes'', JArr (map JStr (sorted_list_of_set (ts_scopes s)))),
      (''risk'', JStr (risk_value (ts_risk s))), (''requires_approval'', JBool (ts_requires_approval s)),
      (''secret_refs'', JArr (map JStr (sorted_list_of_set (ts_secret_refs s)))),
      (''egress_allowlist'', JArr (map JStr (sorted_list_of_set (ts_egress s)))),
      (''enabled'', JBool (ts_enabled s)), (''injection_only_risk'', JBool (ts_injection_only s))]"

text \<open>\<open>tool_contract_hash\<close>; \<open>None\<close> is the \<open>ValueError\<close> of a contract that is too large.\<close>

definition tool_contract_hash ::
  "(string \<Rightarrow> string) \<Rightarrow> tool_spec \<Rightarrow> json \<Rightarrow> string option \<Rightarrow> json \<Rightarrow> string option" where
  "tool_contract_hash sha s parameters description metadata =
     (let encoded = canonical_json (JObj
        [(''version'', JInt 1), (''spec'', spec_json s), (''parameters'', parameters),
         (''description'', JStr (case description of Some d \<Rightarrow> d | None \<Rightarrow> ts_description s)),
         (''metadata'', metadata)])
      in if MAX_CONTRACT_BYTES < length encoded then None else Some (sha encoded))"

section \<open>The world of a turn\<close>

datatype approval_source = BySession | ByRun | ByInvocation | NotRequired | ByOperator

datatype consent_scope = SessionScope | RunScope

record consent_decision =
  cd_approved :: bool
  cd_scope :: "consent_scope option"
  cd_consent_id :: "string option"
  cd_reason :: "string option"

definition no_decision :: consent_decision where
  "no_decision = \<lparr>cd_approved = False, cd_scope = None, cd_consent_id = None, cd_reason = None\<rparr>"

datatype consent_answer = Decided consent_decision | ConsentFails | ConsentCancelled

record model_reply =
  mr_content :: string
  mr_calls :: "message list"
  mr_items :: "json list"
  mr_incomplete :: bool
  mr_reason :: "string option"
  mr_usage :: "json option"

datatype model_answer = Answer model_reply | ModelFails | ModelCancelled

text \<open>
  How a tool ends: its value, a refusal by the application policy, a consent withdrawn at dispatch,
  invalid arguments, any other exception, a cancellation, or the failure of a nested turn with the
  tokens it used.
\<close>

datatype tool_outcome =
    Gave json
  | PolicyRefused string
  | ConsentWithdrawn string
  | ArgumentsInvalid string
  | Broke string
  | Interrupted "token_usage option"
  | NestedFailed token_usage

datatype turn_event =
    Asked "message list" "json list"
  | Consulted string bool
  | Checked
  | Ran string message tool_spec "approval_source option"
  | Returned string

type_synonym trace = "turn_event list"

record turn_env =
  te_sha :: "string \<Rightarrow> string"
  te_loads :: "string \<Rightarrow> string + json"
  te_scope :: string
  te_tools_on :: bool
  te_still :: "trace \<Rightarrow> bool"
  te_tool_allowed :: "string \<Rightarrow> bool"
  te_require :: "trace \<Rightarrow> string \<Rightarrow> string option \<Rightarrow> string option"
  te_registry :: "trace \<Rightarrow> registry"
  te_defs :: "trace \<Rightarrow> (string, tool_def) dict"
  te_consent :: "(trace \<Rightarrow> string \<Rightarrow> string \<Rightarrow> consent_answer) option"
  te_model :: "trace \<Rightarrow> message list \<Rightarrow> json list \<Rightarrow> model_answer"
  te_handle :: "trace \<Rightarrow> string \<Rightarrow> message \<Rightarrow> tool_outcome"
  te_extra :: "trace \<Rightarrow> string \<Rightarrow> message \<Rightarrow> tool_outcome"
  te_handlers :: "string list"
  te_extra_tools :: "json list"
  te_ctx :: tool_context
  te_policy :: approval_policy
  te_retain :: bool

section \<open>The state of a turn\<close>

datatype step_kind = ToolResult | ToolDenied | ToolError | Delegate | FinalStep

record agent_step =
  as_kind :: step_kind
  as_tool :: "string option"
  as_arguments :: "json option"
  as_result :: "json option"
  as_detail :: "string option"
  as_approval :: "approval_source option"
  as_consent_id :: "string option"
  as_call_id :: json
  as_operation_id :: "string option"

record turn =
  tn_convo :: "message list"
  tn_user :: nat
  tn_schema :: "json list"
  tn_steps :: "agent_step list"
  tn_iterations :: nat
  tn_used :: nat
  tn_untrusted :: bool
  tn_unspent :: "string set"
  tn_denied :: "string set"
  tn_force :: bool
  tn_usage :: token_usage
  tn_requests :: "message list list"
  tn_effective :: "message list"
  tn_texts :: "string list"
  tn_models :: nat
  tn_dropped :: nat
  tn_sink :: "approval_sink option"
  tn_trace :: trace

text \<open>What setup fixes for the whole turn.\<close>

record turn_setup =
  sp_contracts :: "(string, string) dict"
  sp_functions :: "(string, json) dict"
  sp_labels :: "(string, string) dict"
  sp_budget :: int

datatype turn_failure =
    ContextBudget budget_error | ModelCall | ToolsOff | ConsentUnavailable | NestedTurn
  | UsageInvalid | Uncaught string

text \<open>
  \<open>Raised\<close>: the exception itself leaves the turn. \<open>RunFailed\<close> and \<open>RunCancelled\<close>: wrapped with the
  partial result. \<open>RunFailed\<close> carries tokens that are only in the partial result.
\<close>

datatype stop = Raised turn_failure | RunFailed turn_failure "token_usage option" | RunCancelled

type_synonym 'a step_result = "stop \<times> turn + 'a"

definition log_event :: "turn_event \<Rightarrow> turn \<Rightarrow> turn" where
  "log_event e st = st\<lparr>tn_trace := tn_trace st @ [e]\<rparr>"

definition say :: "message \<Rightarrow> turn \<Rightarrow> turn" where
  "say m st = st\<lparr>tn_convo := tn_convo st @ [m]\<rparr>"

definition add_step :: "agent_step \<Rightarrow> turn \<Rightarrow> turn" where
  "add_step s st = st\<lparr>tn_steps := tn_steps st @ [s]\<rparr>"

section \<open>Answers to the model\<close>

text \<open>The text is ASCII, so its characters are its bytes.\<close>

definition truncate_result :: "string \<Rightarrow> string" where
  "truncate_result text =
     (if length text \<le> MAX_TOOL_RESULT_BYTES then text
      else take MAX_TOOL_RESULT_BYTES text @ ''...[truncated]'')"

definition tool_content :: "json \<Rightarrow> string \<Rightarrow> message" where
  "tool_content call_id content =
     [(''role'', JStr ''tool''), (''tool_call_id'', call_id), (''content'', JStr content)]"

definition tool_message :: "json \<Rightarrow> json \<Rightarrow> message" where
  "tool_message call_id payload = tool_content call_id (truncate_result (dumps_default payload))"

definition error_payload :: "string \<Rightarrow> string \<Rightarrow> json" where
  "error_payload kind text = JObj [(''error'', JObj [(''type'', JStr kind), (''message'', JStr text)])]"

text \<open>\<open>_model_visible_result\<close>: what the model reads and what the receipt records.\<close>

definition model_visible_result :: "turn_env \<Rightarrow> json \<Rightarrow> string \<times> json" where
  "model_visible_result env v =
     (let serialized = truncate_result (dumps_default v) in
      (serialized, case te_loads env serialized of Inr w \<Rightarrow> w | Inl _ \<Rightarrow> JStr serialized))"

definition observable_messages :: "message list \<Rightarrow> message list" where
  "observable_messages ms = map (filter (\<lambda>f. fst f \<noteq> RESPONSES_OUTPUT_ITEMS_KEY)) ms"

section \<open>One tool call\<close>

text \<open>The variables of the call being answered.\<close>

record call_ctx =
  cc_operation :: string
  cc_id :: json
  cc_name :: string
  cc_safe :: string
  cc_arguments :: json
  cc_parsed :: message
  cc_approval :: "approval_source option"
  cc_consent :: "string option"

definition tool_step :: "call_ctx \<Rightarrow> step_kind \<Rightarrow> json option \<Rightarrow> string option \<Rightarrow> agent_step" where
  "tool_step cc kind result detail =
     \<lparr>as_kind = kind, as_tool = Some (cc_safe cc), as_arguments = Some (redact_obj (cc_arguments cc)),
      as_result = result, as_detail = detail, as_approval = cc_approval cc, as_consent_id = cc_consent cc,
      as_call_id = cc_id cc, as_operation_id = Some (cc_operation cc)\<rparr>"

definition answer_error :: "call_ctx \<Rightarrow> string \<Rightarrow> string \<Rightarrow> string \<Rightarrow> turn \<Rightarrow> turn" where
  "answer_error cc kind text detail st =
     add_step (tool_step cc ToolError None (Some detail)) (say (tool_message (cc_id cc) (error_payload kind text)) st)"

text \<open>A tool denied twice ends the offer of tools.\<close>

definition mark_denied :: "string \<Rightarrow> turn \<Rightarrow> turn" where
  "mark_denied name st = st\<lparr>tn_force := tn_force st \<or> name \<in> tn_denied st, tn_denied := insert name (tn_denied st)\<rparr>"

definition deny_call :: "call_ctx \<Rightarrow> string \<Rightarrow> turn \<Rightarrow> turn" where
  "deny_call cc reason st = mark_denied (cc_name cc)
     (add_step (tool_step cc ToolDenied None (Some reason))
       (say (tool_message (cc_id cc) (error_payload ''authorization_denied'' reason)) st))"

definition hold_for_approval :: "turn_env \<Rightarrow> turn_setup \<Rightarrow> call_ctx \<Rightarrow> tool_spec \<Rightarrow> string \<Rightarrow> turn \<Rightarrow> turn" where
  "hold_for_approval env sp cc s digest st =
     (let draft = draft_for_call (te_sha env) s (cc_name cc) (map_of (sp_labels sp) (cc_name cc))
                    (cc_parsed cc) (Some digest);
          st1 = st\<lparr>tn_sink := map_option (\<lambda>k. snd (request_approval draft k)) (tn_sink st)\<rparr>
      in mark_denied (cc_name cc)
           (add_step (tool_step cc ToolDenied None (Some (deny_value ApprovalRequired)))
             (say (tool_message (cc_id cc) (error_payload (deny_value ApprovalRequired) APPROVAL_HELD_MESSAGE)) st1)))"

text \<open>\<open>before_tool\<close>: the last look at the conversation's switch.\<close>

definition before_tool :: "turn_env \<Rightarrow> turn \<Rightarrow> turn step_result" where
  "before_tool env st =
     (let st1 = log_event Checked st in
      if te_still env (tn_trace st) then Inr st1 else Inl (RunFailed ToolsOff None, st1))"

definition arg_error_text :: "arg_error \<Rightarrow> string" where
  "arg_error_text e = (case e of
     NotAnObject \<Rightarrow> ''arguments must be a JSON object''
   | MissingArgument k \<Rightarrow> ''missing required argument: '' @ k
   | WrongType k t \<Rightarrow> ''argument '' @ py_repr k @ '' must be of type '' @ t)"

text \<open>\<open>ToolExecutor.execute\<close>: the outcome and the state after it; \<open>Ran\<close> marks the handler's entry.\<close>

definition execute :: "turn_env \<Rightarrow> call_ctx \<Rightarrow> tool_spec \<Rightarrow> turn \<Rightarrow> (tool_outcome \<times> turn) option" where
  "execute env cc s st0 =
     (let name = cc_name cc; st = log_event Checked st0 in
      if \<not> te_still env (tn_trace st0) then Some (Broke ''Tools are disabled for this request.'', st)
      else (case map_of (te_defs env (tn_trace st)) name of
        None \<Rightarrow> Some (Broke (''unknown tool: '' @ name), st)
      | Some d \<Rightarrow>
          (let errors = validate_args (td_parameters d) (JObj (cc_parsed cc)) in
           if errors \<noteq> [] then Some (ArgumentsInvalid (join ''; '' (map arg_error_text errors)), st)
           else (case tool_contract_hash (te_sha env) (td_spec d) (td_parameters d)
                        (Some (ts_description (td_spec d))) (td_metadata d) of
               None \<Rightarrow> None
             | Some digest \<Rightarrow>
                 (case te_require env (tn_trace st) (canonical_tool_name name (tc_aliases (te_ctx env))) (Some digest) of
                    Some reason \<Rightarrow> Some (PolicyRefused reason, st)
                  | None \<Rightarrow>
                      (let st1 = log_event (Ran name (cc_parsed cc) s (cc_approval cc)) st in
                       Some (te_handle env (tn_trace st1) name (cc_parsed cc), st1)))))))"

definition run_synthetic :: "turn_env \<Rightarrow> turn_setup \<Rightarrow> call_ctx \<Rightarrow> tool_spec \<Rightarrow> turn \<Rightarrow> tool_outcome \<times> turn" where
  "run_synthetic env sp cc s st =
     (case te_require env (tn_trace st) (canonical_tool_name (cc_name cc) (tc_aliases (te_ctx env)))
             (map_of (sp_contracts sp) (cc_name cc)) of
        Some reason \<Rightarrow> (PolicyRefused reason, st)
      | None \<Rightarrow>
          (let st1 = log_event (Ran (cc_name cc) (cc_parsed cc) s (cc_approval cc)) st in
           (te_extra env (tn_trace st1) (cc_name cc) (cc_parsed cc), st1)))"

text \<open>What the loop makes of an outcome; \<open>kind\<close> is the step of a value.\<close>

definition settle_outcome :: "turn_env \<Rightarrow> call_ctx \<Rightarrow> step_kind \<Rightarrow> tool_outcome \<Rightarrow> turn \<Rightarrow> turn step_result" where
  "settle_outcome env cc kind out st = (case out of
     Gave v \<Rightarrow>
       (let (visible, recorded) = model_visible_result env v in
        Inr (add_step (tool_step cc kind (Some (redact_obj recorded)) None)
               (say (tool_content (cc_id cc) visible)
                 ((log_event (Returned (cc_name cc)) st)\<lparr>tn_untrusted := True\<rparr>))))
   | PolicyRefused reason \<Rightarrow> Inr (deny_call cc reason st)
   | ConsentWithdrawn reason \<Rightarrow> Inr (deny_call cc reason st)
   | ArgumentsInvalid text \<Rightarrow> Inr (answer_error cc ''validation_error'' (redact text) ''validation_error'' st)
   | Broke text \<Rightarrow> Inr (answer_error cc ''execution_error'' (redact text) ''execution_error'' st)
   | Interrupted used \<Rightarrow>
       (let st1 = add_step (tool_step cc ToolError None (Some ''cancelled'')) st in
        (case used of
           None \<Rightarrow> Inl (RunCancelled, st1)
         | Some u \<Rightarrow> (case add_usage (tn_usage st1) u of
               Inr used_all \<Rightarrow> Inl (RunCancelled, st1\<lparr>tn_usage := used_all\<rparr>)
             | Inl _ \<Rightarrow> Inl (Raised UsageInvalid, st1))))
   | NestedFailed used \<Rightarrow>
       Inl (RunFailed NestedTurn (Some used), add_step (tool_step cc ToolError None (Some ''delegate_failed'')) st))"

text \<open>
  Which exceptions each route tells apart: a registry tool knows no nested turn, and a synthetic
  capability treats an argument or consent error like any other. A nested failure is that of a
  delegated agent.
\<close>

fun registry_outcome :: "tool_outcome \<Rightarrow> tool_outcome" where
  "registry_outcome (Interrupted used) = Interrupted None"
| "registry_outcome (NestedFailed used) = Broke ''agent model round trip failed''"
| "registry_outcome out = out"

fun synthetic_outcome :: "tool_outcome \<Rightarrow> tool_outcome" where
  "synthetic_outcome (ConsentWithdrawn reason) = Broke reason"
| "synthetic_outcome (ArgumentsInvalid text) = Broke text"
| "synthetic_outcome out = out"

text \<open>An approval is spent before the handler is entered.\<close>

definition spend :: "bool \<Rightarrow> string \<Rightarrow> turn \<Rightarrow> turn" where
  "spend invocation_approved key st =
     (if invocation_approved then st\<lparr>tn_unspent := tn_unspent st - {key}\<rparr> else st)"

definition synthetic_contract :: "turn_env \<Rightarrow> turn_setup \<Rightarrow> string \<Rightarrow> json \<Rightarrow> string option option" where
  "synthetic_contract env sp name f = map_option (\<lambda>s.
     tool_contract_hash (te_sha env) s
       (case obj_get f ''parameters'' of Some p \<Rightarrow> if is_falsy p then JObj [] else p | None \<Rightarrow> JObj [])
       (case obj_get f ''description'' of Some (JStr d) \<Rightarrow> Some d | _ \<Rightarrow> None) (JObj []))
     (synthetic_spec name)"

definition dispatch_synthetic ::
  "turn_env \<Rightarrow> turn_setup \<Rightarrow> call_ctx \<Rightarrow> tool_spec \<Rightarrow> bool \<Rightarrow> string \<Rightarrow> turn \<Rightarrow> turn step_result" where
  "dispatch_synthetic env sp cc s invocation_approved key st =
     (case map_of (sp_functions sp) (cc_name cc) of
        None \<Rightarrow> Inl (Raised (Uncaught ''KeyError''), st)
      | Some f \<Rightarrow>
          (case synthetic_contract env sp (cc_name cc) f of
             Some None \<Rightarrow> Inl (Raised (Uncaught ''ValueError''), st)
           | contract \<Rightarrow>
               if contract = None \<or> contract \<noteq> Some (map_of (sp_contracts sp) (cc_name cc))
               then Inr (deny_call cc ''tool_contract_changed'' st)
               else bindE (before_tool env (spend invocation_approved key st)) (\<lambda>st1.
                 let (out, st2) = run_synthetic env sp cc s st1
                 in settle_outcome env cc Delegate (synthetic_outcome out) st2)))"

text \<open>\<open>current_registry_contract\<close>: \<open>Inl\<close> is the exception of a contract that is too large.\<close>

definition current_registry_contract :: "turn_env \<Rightarrow> trace \<Rightarrow> string \<Rightarrow> unit + string option" where
  "current_registry_contract env tr name =
     (case (map_of (te_defs env tr) name, find_tool (te_registry env tr) name) of
        (Some d, Some s) \<Rightarrow>
          (case tool_contract_hash (te_sha env) s (td_parameters d) (Some (ts_description (td_spec d)))
                  (td_metadata d) of None \<Rightarrow> Inl () | Some h \<Rightarrow> Inr (Some h))
      | _ \<Rightarrow> Inr None)"

definition dispatch_registry ::
  "turn_env \<Rightarrow> turn_setup \<Rightarrow> call_ctx \<Rightarrow> tool_spec \<Rightarrow> bool \<Rightarrow> string \<Rightarrow> turn \<Rightarrow> turn step_result" where
  "dispatch_registry env sp cc s invocation_approved key st =
     (case current_registry_contract env (tn_trace st) (cc_name cc) of
        Inl _ \<Rightarrow> Inl (Raised (Uncaught ''ValueError''), st)
      | Inr contract \<Rightarrow>
          if contract \<noteq> map_of (sp_contracts sp) (cc_name cc)
          then Inr (deny_call cc ''tool_contract_changed'' st)
          else bindE (before_tool env (spend invocation_approved key st)) (\<lambda>st1.
            case execute env cc s st1 of
              None \<Rightarrow> Inr (answer_error cc ''execution_error''
                        (redact ''Tool consent contract is too large.'') ''execution_error'' (log_event Checked st1))
            | Some (out, st2) \<Rightarrow> settle_outcome env cc ToolResult (registry_outcome out) st2))"

text \<open>What allowed the call, for the receipt.\<close>

definition approval_of ::
  "approval_policy \<Rightarrow> tool_spec \<Rightarrow> consent_decision \<Rightarrow> bool \<Rightarrow> bool \<Rightarrow> approval_source option" where
  "approval_of policy s decision needs invocation_approved =
     (let risky = (ts_risk s \<noteq> Safe \<or> needs_approval s) in
      if policy = PolicyOff \<and> risky then Some ByOperator
      else if cd_approved decision \<and> risky
           then map_option (\<lambda>c. case c of SessionScope \<Rightarrow> BySession | RunScope \<Rightarrow> ByRun) (cd_scope decision)
      else if invocation_approved then Some ByInvocation
      else if \<not> needs then Some NotRequired
      else None)"

text \<open>The per-invocation gate, and the two dispatch routes behind it.\<close>

definition gate_call ::
  "turn_env \<Rightarrow> turn_setup \<Rightarrow> call_ctx \<Rightarrow> tool_spec \<Rightarrow> consent_decision \<Rightarrow> turn \<Rightarrow> turn step_result" where
  "gate_call env sp cc0 s decision st =
     (let name = cc_name cc0;
          needs = requires_invocation_approval s (te_policy env) (tn_untrusted st);
          digest = (if needs then arguments_digest (te_sha env) (Some (JObj (cc_parsed cc0))) else []);
          key = (if needs then approval_key name digest else []);
          invocation_approved = (needs \<and> key \<in> tn_unspent st);
          approved_call = (invocation_approved \<or> cd_approved decision);
          cc = cc0\<lparr>cc_approval := approval_of (te_policy env) s decision needs invocation_approved,
                   cc_consent := cd_consent_id decision\<rparr>
      in if name \<in> set (te_handlers env)
         then (if needs \<and> \<not> approved_call then Inr (hold_for_approval env sp cc s digest st)
               else dispatch_synthetic env sp cc s invocation_approved key st)
         else (let verdict = authorize (te_tools_on env) (te_registry env (tn_trace st)) name
                     (tc_scopes (te_ctx env)) (tc_hosts (te_ctx env))
                     (name \<in> tc_approvals (te_ctx env) \<or> approved_call) in
           if (ad_allowed verdict \<and> needs \<and> \<not> approved_call)
              \<or> (\<not> ad_allowed verdict \<and> ad_reason verdict = Some ApprovalRequired \<and> needs)
           then Inr (hold_for_approval env sp cc s digest st)
           else if \<not> ad_allowed verdict
                then Inr (deny_call cc (case ad_reason verdict of Some r \<Rightarrow> deny_value r | None \<Rightarrow> ''denied'') st)
                else dispatch_registry env sp cc s invocation_approved key st))"

text \<open>The consent of the conversation or run, asked afresh for every call.\<close>

definition consult ::
  "turn_env \<Rightarrow> turn_setup \<Rightarrow> call_ctx \<Rightarrow> tool_spec \<Rightarrow> turn \<Rightarrow> turn step_result" where
  "consult env sp cc s st = (case te_consent env of
     None \<Rightarrow> gate_call env sp cc s no_decision st
   | Some ask \<Rightarrow>
       (case map_of (sp_contracts sp) (cc_name cc) of
          None \<Rightarrow> Inl (RunFailed ConsentUnavailable None,
                    add_step (tool_step cc ToolError None (Some ''consent_unavailable'')) st)
        | Some contract \<Rightarrow>
            (case ask (tn_trace st) (cc_name cc) contract of
               ConsentCancelled \<Rightarrow> Inl (RunCancelled, add_step (tool_step cc ToolError None (Some ''cancelled'')) st)
             | ConsentFails \<Rightarrow> Inl (RunFailed ConsentUnavailable None,
                    add_step (tool_step cc ToolError None (Some ''consent_unavailable'')) st)
             | Decided d \<Rightarrow>
                 (let st1 = log_event (Consulted (cc_name cc) (cd_approved d)) st;
                      cc1 = cc\<lparr>cc_consent := cd_consent_id d\<rparr> in
                  case cd_reason d of
                    Some reason \<Rightarrow>
                      if reason \<noteq> ''consent_not_granted'' then Inr (deny_call cc1 reason st1)
                      else gate_call env sp cc1 s d st1
                  | None \<Rightarrow> gate_call env sp cc1 s d st1))))"

definition offered_names :: "json list \<Rightarrow> string set" where
  "offered_names schema = offered_name ` set schema"

text \<open>
  The structural checks: the contract that governs the call, its scopes and hosts, and whether the
  model was offered it. A call without a contract is refused: \<open>ungoverned\<close> when a synthetic
  capability has none, \<open>unknown_tool\<close> otherwise.
\<close>

definition govern_call :: "turn_env \<Rightarrow> turn_setup \<Rightarrow> call_ctx \<Rightarrow> turn \<Rightarrow> turn step_result" where
  "govern_call env sp cc st =
     (let name = cc_name cc; synthetic = (name \<in> set (te_handlers env));
          reg = te_registry env (tn_trace st);
          unapproved = cc\<lparr>cc_approval := Some NotRequired\<rparr> in
      case (if synthetic then synthetic_spec name else find_tool reg name) of
        None \<Rightarrow>
          if synthetic then Inr (deny_call unapproved (deny_value Ungoverned) st)
          else Inr (deny_call unapproved
                 (if te_tools_on env then deny_value UnknownTool else deny_value RequestRestricted) st)
      | Some s \<Rightarrow>
          (let governance = (if synthetic then \<lparr>rg_tools = [(name, s)], rg_allowlist = None\<rparr> else reg);
               structural = authorize (te_tools_on env) governance name
                              (tc_scopes (te_ctx env)) (tc_hosts (te_ctx env)) True in
           if \<not> ad_allowed structural
           then Inr (deny_call cc (case ad_reason structural of Some r \<Rightarrow> deny_value r | None \<Rightarrow> ''denied'') st)
           else if name \<notin> offered_names (tn_schema st) then Inr (deny_call cc ''not_offered'' st)
           else consult env sp cc s st))"

text \<open>\<open>json.loads\<close> of the arguments the model wrote, which must be an object.\<close>

definition parse_arguments :: "turn_env \<Rightarrow> string \<Rightarrow> string + message" where
  "parse_arguments env raw =
     (if strip raw = [] then Inr []
      else (case te_loads env raw of
        Inl text \<Rightarrow> Inl text
      | Inr (JObj fs) \<Rightarrow> Inr fs
      | Inr _ \<Rightarrow> Inl ''arguments must be a JSON object''))"

definition answer_call :: "turn_env \<Rightarrow> turn_setup \<Rightarrow> nat \<Rightarrow> message \<Rightarrow> turn \<Rightarrow> turn step_result" where
  "answer_call env sp index call st =
     (let f = dict_of (get_or_null call ''function'');
          name = (case get_or_null f ''name'' of JStr n \<Rightarrow> n | _ \<Rightarrow> []);
          raw = (case get_or_null f ''arguments'' of JStr [] \<Rightarrow> ''{}'' | JStr r \<Rightarrow> r | _ \<Rightarrow> ''{}'');
          known = (name \<in> set (te_handlers env) \<or> find_tool (te_registry env (tn_trace st)) name \<noteq> None);
          cc = \<lparr>cc_operation = te_scope env @ '':'' @ show_nat (tn_iterations st) @ '':'' @ show_nat index,
                cc_id = get_or_null call ''id'', cc_name = name,
                cc_safe = (if known \<and> is_safe_tool_name name then name else UNKNOWN_TOOL),
                cc_arguments = JStr raw, cc_parsed = [], cc_approval = None, cc_consent = None\<rparr>;
          st1 = st\<lparr>tn_used := tn_used st + 1\<rparr>
      in if tn_used st1 > MAX_TOOL_CALLS
         then Inr ((answer_error cc ''budget_exceeded'' ''tool budget exhausted'' ''budget_exceeded'' st1)\<lparr>tn_force := True\<rparr>)
         else (case parse_arguments env raw of
             Inl text \<Rightarrow> Inr (answer_error cc ''invalid_arguments'' (redact text) ''invalid_arguments'' st1)
           | Inr parsed \<Rightarrow> govern_call env sp (cc\<lparr>cc_arguments := JObj parsed, cc_parsed := parsed\<rparr>) st1))"

fun answer_calls :: "turn_env \<Rightarrow> turn_setup \<Rightarrow> nat \<Rightarrow> message list \<Rightarrow> turn \<Rightarrow> turn step_result" where
  "answer_calls env sp i [] st = Inr st"
| "answer_calls env sp i (c # cs) st = bindE (answer_call env sp i c st) (answer_calls env sp (Suc i) cs)"

section \<open>One model call\<close>

definition done_something :: "turn \<Rightarrow> bool" where
  "done_something st \<longleftrightarrow> tn_models st > 0 \<or> tu_calls (tn_usage st) \<noteq> 0 \<or> tn_steps st \<noteq> []"

definition schema_bytes :: "json list \<Rightarrow> nat" where
  "schema_bytes schema = (if schema = [] then 0
     else serialized_budget_bytes (JObj [(''tools'', JArr schema), (''tool_choice'', JStr ''auto'')]))"

definition call_model :: "turn_env \<Rightarrow> turn_setup \<Rightarrow> json list \<Rightarrow> turn \<Rightarrow> (model_reply \<times> turn) step_result" where
  "call_model env sp schema st =
     (case bound_agent_context (tn_convo st) (tn_user st) (sp_budget sp) (schema_bytes schema) of
        Inl e \<Rightarrow> Inl (if done_something st then RunFailed (ContextBudget e) None else Raised (ContextBudget e), st)
      | Inr (convo, dropped, _) \<Rightarrow>
          (let seen = observable_messages convo;
               st1 = st\<lparr>tn_convo := convo, tn_user := (case current_user convo of Some i \<Rightarrow> i | None \<Rightarrow> tn_user st),
                        tn_dropped := tn_dropped st + dropped,
                        tn_effective := (if tn_effective st = [] then seen else tn_effective st),
                        tn_requests := tn_requests st @ [seen]\<rparr>;
               st2 = log_event (Asked convo schema) st1
           in case te_model env (tn_trace st2) convo schema of
                ModelCancelled \<Rightarrow> Inl (RunCancelled, st2)
              | ModelFails \<Rightarrow>
                  Inl (if te_retain env \<or> done_something st2 then RunFailed ModelCall None else Raised ModelCall, st2)
              | Answer reply \<Rightarrow>
                  (let st3 = st2\<lparr>tn_models := tn_models st2 + 1\<rparr> in
                   case add_usage (tn_usage st3) (parse_usage None (mr_usage reply)) of
                     Inl _ \<Rightarrow> Inl (RunFailed UsageInvalid None, st3)
                   | Inr used_all \<Rightarrow>
                       Inr (reply, st3\<lparr>tn_usage := used_all, tn_texts := tn_texts st3 @ [mr_content reply]\<rparr>))))"

section \<open>The loop\<close>

record turn_result =
  tr_text :: string
  tr_incomplete :: bool
  tr_reason :: "string option"
  tr_turn :: turn

definition final_step :: "string option \<Rightarrow> agent_step" where
  "final_step detail =
     \<lparr>as_kind = FinalStep, as_tool = None, as_arguments = None, as_result = None, as_detail = detail,
      as_approval = None, as_consent_id = None, as_call_id = JNull, as_operation_id = None\<rparr>"

definition finish_turn :: "string option \<Rightarrow> model_reply \<Rightarrow> turn \<Rightarrow> turn_result" where
  "finish_turn detail reply st =
     \<lparr>tr_text = mr_content reply, tr_incomplete = mr_incomplete reply,
      tr_reason = (if mr_incomplete reply then mr_reason reply else None),
      tr_turn = add_step (final_step detail) st\<rparr>"

definition assistant_message :: "model_reply \<Rightarrow> message" where
  "assistant_message reply =
     [(''role'', JStr ''assistant''),
      (''content'', if mr_content reply = [] then JNull else JStr (mr_content reply)),
      (''tool_calls'', JArr (map JObj (mr_calls reply)))]
     @ (if mr_items reply = [] then [] else [(RESPONSES_OUTPUT_ITEMS_KEY, JArr (mr_items reply))])"

definition next_iteration :: "turn \<Rightarrow> turn" where
  "next_iteration st = st\<lparr>tn_iterations := tn_iterations st + 1\<rparr>"

text \<open>The answer after the last iteration: tools are not offered any more.\<close>

definition run_tail :: "turn_env \<Rightarrow> turn_setup \<Rightarrow> turn \<Rightarrow> turn_result step_result" where
  "run_tail env sp st = bindE (call_model env sp [] (next_iteration st)) (\<lambda>(reply, st1).
     Inr (finish_turn (Some (if mr_incomplete reply then ''incomplete'' else ''max_iters'')) reply st1))"

text \<open>\<open>n\<close> is what is left of \<open>max_iters\<close>.\<close>

fun run_loop :: "turn_env \<Rightarrow> turn_setup \<Rightarrow> nat \<Rightarrow> turn \<Rightarrow> turn_result step_result" where
  "run_loop env sp 0 st = run_tail env sp st"
| "run_loop env sp (Suc n) st =
     bindE (call_model env sp (tn_schema st) (next_iteration st)) (\<lambda>(reply, st1).
       if mr_incomplete reply then Inr (finish_turn (Some ''incomplete'') reply st1)
       else if mr_calls reply = [] then Inr (finish_turn None reply st1)
       else bindE (answer_calls env sp 0 (mr_calls reply)
                     ((say (assistant_message reply) st1)\<lparr>tn_force := False\<rparr>)) (\<lambda>st2.
         run_loop env sp n (if tn_force st2 then st2\<lparr>tn_schema := []\<rparr> else st2)))"

section \<open>Setup\<close>

definition resolve_names :: "(string, string) dict \<Rightarrow> string list \<Rightarrow> string list" where
  "resolve_names aliases names =
     map (\<lambda>n. case map_of aliases n of Some a \<Rightarrow> a | None \<Rightarrow> n) names"

text \<open>The tools a standing consent lets the model see.\<close>

fun consented_names :: "turn_env \<Rightarrow> string list \<Rightarrow> turn_event list \<Rightarrow> string set \<Rightarrow> stop + string set \<times> trace" where
  "consented_names env [] tr acc = Inr (acc, tr)"
| "consented_names env (n # ns) tr acc =
     (case (te_consent env, map_of (te_defs env tr) n, find_tool (te_registry env tr) n) of
        (Some ask, Some d, Some s) \<Rightarrow>
          if ad_allowed (authorize (te_tools_on env) (te_registry env tr) n
               (tc_scopes (te_ctx env)) (tc_hosts (te_ctx env)) True)
          then (case tool_contract_hash (te_sha env) s (td_parameters d) (Some (ts_description (td_spec d)))
                       (td_metadata d) of
             None \<Rightarrow> Inl (Raised (Uncaught ''ValueError''))
           | Some h \<Rightarrow>
               (case ask tr n h of
                  Decided c \<Rightarrow> consented_names env ns (tr @ [Consulted n (cd_approved c)])
                                 (if cd_approved c then insert n acc else acc)
                | ConsentFails \<Rightarrow> Inl (Raised ConsentUnavailable)
                | ConsentCancelled \<Rightarrow> Inl (Raised (Uncaught ''CancelledError''))))
          else consented_names env ns tr acc
      | _ \<Rightarrow> consented_names env ns tr acc)"

definition offered_contract :: "turn_env \<Rightarrow> trace \<Rightarrow> json \<Rightarrow> (string \<times> string option) option" where
  "offered_contract env tr item =
     (let f = (case obj_get item ''function'' of Some v \<Rightarrow> v | None \<Rightarrow> JObj []) in
      case obj_get f ''name'' of
        Some (JStr name) \<Rightarrow>
          map_option (\<lambda>s. (name, tool_contract_hash (te_sha env) s
             (case obj_get f ''parameters'' of Some p \<Rightarrow> if is_falsy p then JObj [] else p | None \<Rightarrow> JObj [])
             (case obj_get f ''description'' of Some (JStr d) \<Rightarrow> Some d | _ \<Rightarrow> None)
             (case map_of (te_defs env tr) name of Some d \<Rightarrow> td_metadata d | None \<Rightarrow> JObj [])))
          (if name \<in> set (te_handlers env) then synthetic_spec name else find_tool (te_registry env tr) name)
      | _ \<Rightarrow> None)"

fun collect_contracts :: "turn_env \<Rightarrow> trace \<Rightarrow> json list \<Rightarrow> (string, string) dict \<Rightarrow> stop + (string, string) dict" where
  "collect_contracts env tr [] acc = Inr acc"
| "collect_contracts env tr (i # is) acc = (case offered_contract env tr i of
     None \<Rightarrow> collect_contracts env tr is acc
   | Some (n, Some h) \<Rightarrow> collect_contracts env tr is (AList.update n h acc)
   | Some (n, None) \<Rightarrow> Inl (Raised (Uncaught ''ValueError'')))"

definition functions_of :: "json list \<Rightarrow> (string, json) dict" where
  "functions_of schema = foldl (\<lambda>d i. case obj_get i ''function'' of
      Some (JObj f) \<Rightarrow> (case map_of f ''name'' of Some (JStr n) \<Rightarrow> AList.update n (JObj f) d | _ \<Rightarrow> d)
    | _ \<Rightarrow> d) [] schema"

definition start_turn ::
  "turn_env \<Rightarrow> message list \<Rightarrow> nat \<Rightarrow> json list \<Rightarrow> approval_sink option \<Rightarrow> trace \<Rightarrow> turn" where
  "start_turn env messages cu schema sink tr =
     \<lparr>tn_convo = messages, tn_user = cu, tn_schema = schema, tn_steps = [], tn_iterations = 0, tn_used = 0,
      tn_untrusted = tc_untrusted (te_ctx env), tn_unspent = tc_invocations (te_ctx env), tn_denied = {},
      tn_force = False, tn_usage = empty_usage, tn_requests = [], tn_effective = [], tn_texts = [],
      tn_models = 0, tn_dropped = 0, tn_sink = sink, tn_trace = tr\<rparr>"

definition turn_setup_of ::
  "turn_env \<Rightarrow> json list \<Rightarrow> (string, string) dict \<Rightarrow> int \<Rightarrow> turn_setup" where
  "turn_setup_of env schema contracts b =
     \<lparr>sp_contracts = contracts, sp_functions = functions_of schema,
      sp_labels = map (\<lambda>(n, a). (a, n)) (tc_aliases (te_ctx env)), sp_budget = b\<rparr>"

text \<open>\<open>budget\<close> is \<open>prompt_budget_bytes\<close>; without one it follows from the request's parameters.\<close>

definition effective_budget :: "int option \<Rightarrow> message \<Rightarrow> stop + int" where
  "effective_budget budget params =
     (if budget = None \<or> budget = Some 0
      then (case prompt_byte_budget None params DEFAULT_MAX_OUTPUT_TOKENS of
              None \<Rightarrow> Inl (Raised (Uncaught ''OverflowError''))
            | Some b \<Rightarrow> Inr (b + TOOL_CONTEXT_RESERVE_TOKENS))
      else Inr (the budget))"

definition prepare_turn ::
  "turn_env \<Rightarrow> message list \<Rightarrow> string list \<Rightarrow> message \<Rightarrow> int option
     \<Rightarrow> stop + nat \<times> json list \<times> turn_setup \<times> trace" where
  "prepare_turn env messages tool_names params budget =
     (case current_user messages of
        None \<Rightarrow> Inl (Raised (ContextBudget NoCurrentUser))
      | Some cu \<Rightarrow>
          (let names = resolve_names (tc_aliases (te_ctx env)) tool_names in
           bindE (consented_names env names [] {}) (\<lambda>(consented, tr).
             let offered = schema_for (te_tools_on env) (te_tool_allowed env) (te_defs env tr) (te_registry env tr)
                             (te_ctx env) consented names;
                 schema = filter (\<lambda>i. te_tool_allowed env
                              (canonical_tool_name (offered_name i) (tc_aliases (te_ctx env))))
                            (if te_tools_on env then offered @ te_extra_tools env else []) in
             if set (map fst (te_defs env tr)) \<inter> set (te_handlers env) \<noteq> {}
             then Inl (Raised (Uncaught ''ValueError''))
             else bindE (collect_contracts env tr schema []) (\<lambda>contracts.
                  bindE (effective_budget budget params) (\<lambda>b.
                    Inr (cu, schema, turn_setup_of env schema contracts b, tr))))))"

definition run_agent_turn ::
  "turn_env \<Rightarrow> message list \<Rightarrow> string list \<Rightarrow> message \<Rightarrow> int option \<Rightarrow> nat \<Rightarrow> approval_sink option
     \<Rightarrow> stop \<times> turn option + turn_result" where
  "run_agent_turn env messages tool_names params budget max_iters sink =
     (case prepare_turn env messages tool_names params budget of
        Inl s \<Rightarrow> Inl (s, None)
      | Inr (cu, schema, sp, tr) \<Rightarrow>
          (case run_loop env sp max_iters (start_turn env messages cu schema sink tr) of
             Inl (s, st) \<Rightarrow> Inl (s, Some st)
           | Inr r \<Rightarrow> Inr r))"

text \<open>The state a turn leaves, however it ends.\<close>

definition left_state :: "turn step_result \<Rightarrow> turn" where
  "left_state r = (case r of Inl (_, st) \<Rightarrow> st | Inr st \<Rightarrow> st)"

definition end_state :: "turn_result step_result \<Rightarrow> turn" where
  "end_state r = (case r of Inl (_, st) \<Rightarrow> st | Inr res \<Rightarrow> tr_turn res)"

end
