(* ===== verification/Agent_Safety.thy ===== *)
theory Agent_Safety
  imports Agent_Turn
begin

text \<open>
  What a turn guarantees whatever the world answers, by invariants of its trace and its state:
  a tool runs only when it was just offered and its contract authorised it; a gated call runs only
  on consent or on an approval of exactly its arguments, each approval once; the numbers of runs and
  of model requests are bounded; every request carries a conversation in which each tool call is
  answered exactly once.
\<close>

section \<open>Facts about traces\<close>

definition is_run :: "turn_event \<Rightarrow> bool" where
  "is_run e \<longleftrightarrow> (case e of Ran n a s src \<Rightarrow> True | _ \<Rightarrow> False)"

definition is_asked :: "turn_event \<Rightarrow> bool" where
  "is_asked e \<longleftrightarrow> (case e of Asked ms sc \<Rightarrow> True | _ \<Rightarrow> False)"

definition is_returned :: "turn_event \<Rightarrow> bool" where
  "is_returned e \<longleftrightarrow> (case e of Returned n \<Rightarrow> True | _ \<Rightarrow> False)"

lemma event_kinds [simp]:
  "is_run (Ran n a s src)" "\<not> is_run (Asked ms sc)" "\<not> is_run (Consulted n b)" "\<not> is_run Checked" "\<not> is_run (Returned n)"
  "is_asked (Asked ms sc)" "\<not> is_asked (Ran n a s src)" "\<not> is_asked (Consulted n b)" "\<not> is_asked Checked"
  "\<not> is_asked (Returned n)"
  "is_returned (Returned n)" "\<not> is_returned (Ran n a s src)" "\<not> is_returned (Consulted n b)"
  "\<not> is_returned Checked" "\<not> is_returned (Asked ms sc)"
  by (simp_all add: is_run_def is_asked_def is_returned_def)

definition runs :: "trace \<Rightarrow> nat" where
  "runs tr = length (filter is_run tr)"

definition asked :: "trace \<Rightarrow> trace" where
  "asked tr = filter is_asked tr"

definition requests :: "trace \<Rightarrow> nat" where
  "requests tr = length (asked tr)"

definition returned :: "trace \<Rightarrow> bool" where
  "returned tr \<longleftrightarrow> list_ex is_returned tr"

text \<open>The tools of the last request.\<close>

fun last_offer :: "trace \<Rightarrow> json list \<Rightarrow> json list" where
  "last_offer [] sc = sc"
| "last_offer (Asked ms sc' # tr) sc = last_offer tr sc'"
| "last_offer (e # tr) sc = last_offer tr sc"

lemma last_offer_append [simp]: "last_offer (tr @ tr') sc = last_offer tr' (last_offer tr sc)"
  by (induction tr sc rule: last_offer.induct) auto

lemma last_offer_quiet: "\<not> is_asked e \<Longrightarrow> last_offer [e] sc = sc"
  by (cases e) auto

text \<open>A property of every run and of what came before it.\<close>

definition every_run :: "(trace \<Rightarrow> string \<Rightarrow> message \<Rightarrow> tool_spec \<Rightarrow> approval_source option \<Rightarrow> bool) \<Rightarrow> trace \<Rightarrow> bool" where
  "every_run P tr \<longleftrightarrow> (\<forall>pre n a s src post. tr = pre @ Ran n a s src # post \<longrightarrow> P pre n a s src)"

lemma every_run_Nil [simp]: "every_run P []"
  by (simp add: every_run_def)

lemma every_run_snoc:
  "every_run P (tr @ [e]) \<longleftrightarrow> every_run P tr \<and> (case e of Ran n a s src \<Rightarrow> P tr n a s src | _ \<Rightarrow> True)"
proof
  assume l: "every_run P (tr @ [e])"
  have "P pre n a s src" if "tr = pre @ Ran n a s src # post" for pre n a s src post
    using l that unfolding every_run_def by (metis append.assoc append_Cons)
  moreover have "P tr n a s src" if "e = Ran n a s src" for n a s src
    using l that unfolding every_run_def by blast
  ultimately show "every_run P tr \<and> (case e of Ran n a s src \<Rightarrow> P tr n a s src | _ \<Rightarrow> True)"
    unfolding every_run_def by (auto split: turn_event.split)
next
  assume r: "every_run P tr \<and> (case e of Ran n a s src \<Rightarrow> P tr n a s src | _ \<Rightarrow> True)"
  show "every_run P (tr @ [e])"
    unfolding every_run_def
  proof (intro allI impI)
    fix pre n a s src post
    assume eq: "tr @ [e] = pre @ Ran n a s src # post"
    show "P pre n a s src"
    proof (cases post rule: rev_cases)
      case Nil
      with eq have "tr = pre" "e = Ran n a s src" by auto
      with r show ?thesis by simp
    next
      case (snoc ps q)
      with eq have "(pre @ Ran n a s src # ps) @ [q] = tr @ [e]" by simp
      then have "tr = pre @ Ran n a s src # ps" by simp
      with r show ?thesis unfolding every_run_def by blast
    qed
  qed
qed

lemma every_run_quiet: "\<not> is_run e \<Longrightarrow> every_run P (tr @ [e]) \<longleftrightarrow> every_run P tr"
  by (cases e) (auto simp: every_run_snoc)

lemma every_runD: "every_run P (pre @ Ran n a s src # post) \<Longrightarrow> P pre n a s src"
  unfolding every_run_def by blast

text \<open>The approvals that runs were allowed by.\<close>

definition run_key :: "(string \<Rightarrow> string) \<Rightarrow> string \<Rightarrow> message \<Rightarrow> string" where
  "run_key sha n a = approval_key n (arguments_digest sha (Some (JObj a)))"

fun spent_keys :: "(string \<Rightarrow> string) \<Rightarrow> trace \<Rightarrow> string list" where
  "spent_keys sha [] = []"
| "spent_keys sha (Ran n a s (Some ByInvocation) # tr) = run_key sha n a # spent_keys sha tr"
| "spent_keys sha (e # tr) = spent_keys sha tr"

lemma spent_keys_append [simp]: "spent_keys sha (tr @ tr') = spent_keys sha tr @ spent_keys sha tr'"
  by (induction sha tr rule: spent_keys.induct) auto

lemma spent_keys_quiet: "\<not> is_run e \<Longrightarrow> spent_keys sha [e] = []"
  by (cases e) auto

lemma spent_keys_run:
  "spent_keys sha [Ran n a s src] = (if src = Some ByInvocation then [run_key sha n a] else [])"
  by (cases src; cases "the src") auto

section \<open>What a run is allowed by\<close>

text \<open>
  The tool was offered in the last request, and its contract -- the table's for a synthetic
  capability, the registry's at some moment of the turn for any other tool -- authorised the caller.
\<close>

definition authorised_run :: "turn_env \<Rightarrow> trace \<Rightarrow> string \<Rightarrow> message \<Rightarrow> tool_spec \<Rightarrow> approval_source option \<Rightarrow> bool" where
  "authorised_run env pre n a s src \<longleftrightarrow>
     n \<in> offered_names (last_offer pre []) \<and> te_tools_on env \<and>
     (if n \<in> set (te_handlers env) then synthetic_spec n = Some s
      else (\<exists>k \<le> length pre. let r = te_registry env (take k pre) in
              find_tool r n = Some s \<and> may_run r n (tc_scopes (te_ctx env)) (tc_hosts (te_ctx env))))"

text \<open>
  A call whose contract asks for a fresh approval -- given the untrusted content the turn has read
  so far -- ran on the conversation's consent or on an approval of its own.
\<close>

definition approved_run :: "turn_env \<Rightarrow> trace \<Rightarrow> string \<Rightarrow> message \<Rightarrow> tool_spec \<Rightarrow> approval_source option \<Rightarrow> bool" where
  "approved_run env pre n a s src \<longleftrightarrow>
     (requires_invocation_approval s (te_policy env) (tc_untrusted (te_ctx env) \<or> returned pre) \<longrightarrow>
        src = Some ByInvocation \<or> src \<in> {Some BySession, Some ByRun, None} \<and> Consulted n True \<in> set pre)"

definition safe_state :: "turn_env \<Rightarrow> turn \<Rightarrow> bool" where
  "safe_state env st \<longleftrightarrow>
     every_run (authorised_run env) (tn_trace st) \<and> every_run (approved_run env) (tn_trace st)
     \<and> (tn_untrusted st \<longleftrightarrow> tc_untrusted (te_ctx env) \<or> returned (tn_trace st))
     \<and> distinct (spent_keys (te_sha env) (tn_trace st))
     \<and> set (spent_keys (te_sha env) (tn_trace st)) \<subseteq> tc_invocations (te_ctx env)
     \<and> tn_unspent st \<subseteq> tc_invocations (te_ctx env) - set (spent_keys (te_sha env) (tn_trace st))"

text \<open>While calls are answered, the offer is the one the model was last asked with.\<close>

definition offer_current :: "turn \<Rightarrow> bool" where
  "offer_current st \<longleftrightarrow> last_offer (tn_trace st) [] = tn_schema st"

abbreviation answering :: "turn_env \<Rightarrow> turn \<Rightarrow> bool" where
  "answering env st \<equiv> safe_state env st \<and> offer_current st"

lemma answering_cong:
  "tn_trace st' = tn_trace st \<Longrightarrow> tn_untrusted st' = tn_untrusted st \<Longrightarrow> tn_unspent st' = tn_unspent st
    \<Longrightarrow> tn_schema st' = tn_schema st \<Longrightarrow> answering env st' \<longleftrightarrow> answering env st"
  by (simp add: safe_state_def offer_current_def)

lemma returned_snoc [simp]: "returned (tr @ [e]) \<longleftrightarrow> returned tr \<or> is_returned e"
  by (simp add: returned_def)

text \<open>An event that is neither a request, a run nor a result changes nothing.\<close>

lemma answering_log:
  assumes "\<not> is_run e" "\<not> is_asked e" "\<not> is_returned e"
  shows "answering env (log_event e st) \<longleftrightarrow> answering env st"
  using assms
  by (simp add: safe_state_def offer_current_def log_event_def every_run_quiet spent_keys_quiet last_offer_quiet)

lemma leaf_updates [simp]:
  "tn_trace (say m st) = tn_trace st" "tn_untrusted (say m st) = tn_untrusted st"
  "tn_unspent (say m st) = tn_unspent st" "tn_schema (say m st) = tn_schema st" "tn_used (say m st) = tn_used st"
  "tn_convo (say m st) = tn_convo st @ [m]" "tn_user (say m st) = tn_user st"
  "tn_iterations (say m st) = tn_iterations st"
  "tn_trace (add_step x st) = tn_trace st" "tn_untrusted (add_step x st) = tn_untrusted st"
  "tn_unspent (add_step x st) = tn_unspent st" "tn_schema (add_step x st) = tn_schema st"
  "tn_used (add_step x st) = tn_used st" "tn_convo (add_step x st) = tn_convo st"
  "tn_user (add_step x st) = tn_user st" "tn_iterations (add_step x st) = tn_iterations st"
  "tn_trace (mark_denied n st) = tn_trace st" "tn_untrusted (mark_denied n st) = tn_untrusted st"
  "tn_unspent (mark_denied n st) = tn_unspent st" "tn_schema (mark_denied n st) = tn_schema st"
  "tn_used (mark_denied n st) = tn_used st" "tn_convo (mark_denied n st) = tn_convo st"
  "tn_user (mark_denied n st) = tn_user st" "tn_iterations (mark_denied n st) = tn_iterations st"
  "tn_trace (log_event e st) = tn_trace st @ [e]" "tn_untrusted (log_event e st) = tn_untrusted st"
  "tn_unspent (log_event e st) = tn_unspent st" "tn_schema (log_event e st) = tn_schema st"
  "tn_used (log_event e st) = tn_used st" "tn_convo (log_event e st) = tn_convo st"
  "tn_user (log_event e st) = tn_user st" "tn_iterations (log_event e st) = tn_iterations st"
  "tn_trace (spend b k st) = tn_trace st" "tn_untrusted (spend b k st) = tn_untrusted st"
  "tn_schema (spend b k st) = tn_schema st" "tn_used (spend b k st) = tn_used st"
  "tn_convo (spend b k st) = tn_convo st" "tn_user (spend b k st) = tn_user st"
  "tn_iterations (spend b k st) = tn_iterations st"
  by (simp_all add: say_def add_step_def mark_denied_def log_event_def spend_def)

section \<open>What answering a call does\<close>

definition answers :: "json \<Rightarrow> message \<Rightarrow> bool" where
  "answers cid m \<longleftrightarrow> has_role ''tool'' m \<and> get_or_null m ''tool_call_id'' = cid"

lemma tool_content_answers [simp]: "answers cid (tool_content cid t)" "answers cid (tool_message cid p)"
  by (simp_all add: answers_def tool_message_def tool_content_def has_role_def get_or_null_def)

text \<open>A stop for the prompt budget, which only a model request makes.\<close>

fun budget_stop :: "stop \<Rightarrow> budget_error option" where
  "budget_stop (Raised (ContextBudget e)) = Some e"
| "budget_stop (RunFailed (ContextBudget e) used) = Some e"
| "budget_stop s = None"

definition no_budget_stop :: "'a step_result \<Rightarrow> bool" where
  "no_budget_stop r \<longleftrightarrow> (case r of Inl (s, st) \<Rightarrow> budget_stop s = None | Inr x \<Rightarrow> True)"

lemma no_budget_stop_simps [simp]:
  "no_budget_stop (Inl (s, st)) \<longleftrightarrow> budget_stop s = None" "no_budget_stop (Inr x)"
  by (simp_all add: no_budget_stop_def)

text \<open>
  The effect of one stage: the state stays safe, at most \<open>c\<close> runs are added, nothing is asked of
  the model, and a stage that succeeds adds exactly one message, which answers the call.
\<close>

definition settled :: "turn_env \<Rightarrow> nat \<Rightarrow> json \<Rightarrow> turn \<Rightarrow> turn step_result \<Rightarrow> bool" where
  "settled env c cid st r \<longleftrightarrow>
     (let st' = left_state r in
      answering env st' \<and> runs (tn_trace st') \<le> runs (tn_trace st) + c
      \<and> asked (tn_trace st') = asked (tn_trace st)
      \<and> tn_used st' = tn_used st \<and> tn_iterations st' = tn_iterations st \<and> tn_user st' = tn_user st
      \<and> tn_schema st' = tn_schema st \<and> no_budget_stop r
      \<and> (is_ok r \<longrightarrow> (\<exists>m. tn_convo st' = tn_convo st @ [m] \<and> answers cid m)))"

lemma runs_simps [simp]:
  "runs [] = 0" "runs (tr @ tr') = runs tr + runs tr'" "runs [e] = (if is_run e then 1 else 0)"
  "asked [] = []" "asked (tr @ tr') = asked tr @ asked tr'" "asked [e] = (if is_asked e then [e] else [])"
  "requests [] = 0" "requests (tr @ tr') = requests tr + requests tr'" "requests [e] = (if is_asked e then 1 else 0)"
  by (simp_all add: runs_def requests_def asked_def)

lemma left_state_simps [simp]: "left_state (Inl (x, st)) = st" "left_state (Inr st) = st"
  by (simp_all add: left_state_def)

text \<open>A stage that starts from a state with the same conversation and only quiet events more.\<close>

lemma settled_from:
  assumes "settled env c cid st1 r" "runs (tn_trace st1) \<le> runs (tn_trace st) + d"
    and "asked (tn_trace st1) = asked (tn_trace st)" "tn_used st1 = tn_used st"
    and "tn_iterations st1 = tn_iterations st" "tn_user st1 = tn_user st" "tn_schema st1 = tn_schema st"
    and "tn_convo st1 = tn_convo st"
  shows "settled env (c + d) cid st r"
  using assms by (auto simp: settled_def Let_def)

lemma settled_deny: "answering env st \<Longrightarrow> settled env c (cc_id cc) st (Inr (deny_call cc reason st))"
  by (simp add: settled_def deny_call_def safe_state_def offer_current_def)

lemma settled_error: "answering env st \<Longrightarrow> settled env c (cc_id cc) st (Inr (answer_error cc k t d st))"
  by (simp add: settled_def answer_error_def safe_state_def offer_current_def)

lemma settled_hold: "answering env st \<Longrightarrow> settled env c (cc_id cc) st (Inr (hold_for_approval env sp cc s digest st))"
  by (simp add: settled_def hold_for_approval_def Let_def safe_state_def offer_current_def)

lemma settled_stop:
  "answering env st' \<Longrightarrow> tn_trace st' = tn_trace st \<Longrightarrow> tn_used st' = tn_used st
     \<Longrightarrow> tn_iterations st' = tn_iterations st \<Longrightarrow> tn_user st' = tn_user st \<Longrightarrow> tn_schema st' = tn_schema st
     \<Longrightarrow> budget_stop x = None \<Longrightarrow> settled env c cid st (Inl (x, st'))"
  by (simp add: settled_def)

lemma answering_returned:
  assumes "answering env st"
  shows "answering env ((log_event (Returned n) st)\<lparr>tn_untrusted := True\<rparr>)"
  using assms
  by (simp add: safe_state_def offer_current_def log_event_def every_run_quiet spent_keys_quiet last_offer_quiet)

lemma settled_outcome:
  assumes "answering env st"
  shows "settled env c (cc_id cc) st (settle_outcome env cc kind out st)"
proof (cases out)
  case (Gave v)
  have "settled env c (cc_id cc) st (Inr (add_step x (say (tool_content (cc_id cc) visible)
      ((log_event (Returned (cc_name cc)) st)\<lparr>tn_untrusted := True\<rparr>))))" for x visible
    using answering_returned [OF assms, of "cc_name cc"]
    by (simp add: settled_def safe_state_def offer_current_def)
  then show ?thesis by (simp add: settle_outcome_def Gave split_beta)
next
  case (Interrupted used)
  show ?thesis
    using assms by (auto simp: settle_outcome_def Interrupted Let_def safe_state_def offer_current_def
        intro!: settled_stop split: option.splits sum.splits)
next
  case (NestedFailed u)
  show ?thesis
    using assms by (auto simp: settle_outcome_def NestedFailed safe_state_def offer_current_def intro!: settled_stop)
qed (simp_all add: settle_outcome_def settled_deny settled_error assms)

section \<open>Runs\<close>

text \<open>What the gate has established when a call is dispatched.\<close>

definition cleared :: "turn_env \<Rightarrow> call_ctx \<Rightarrow> tool_spec \<Rightarrow> bool \<Rightarrow> string \<Rightarrow> turn \<Rightarrow> bool" where
  "cleared env cc s granted key st \<longleftrightarrow>
     (requires_invocation_approval s (te_policy env) (tn_untrusted st) \<longrightarrow>
        cc_approval cc = Some ByInvocation
        \<or> cc_approval cc \<in> {Some BySession, Some ByRun, None} \<and> Consulted (cc_name cc) True \<in> set (tn_trace st))
     \<and> (cc_approval cc = Some ByInvocation \<longrightarrow>
          granted \<and> key = run_key (te_sha env) (cc_name cc) (cc_parsed cc) \<and> key \<in> tn_unspent st)"

text \<open>After the approval is spent and the switch was read once more.\<close>

definition run_ready :: "turn_env \<Rightarrow> call_ctx \<Rightarrow> tool_spec \<Rightarrow> turn \<Rightarrow> bool" where
  "run_ready env cc s st \<longleftrightarrow> answering env st
     \<and> authorised_run env (tn_trace st) (cc_name cc) (cc_parsed cc) s (cc_approval cc)
     \<and> approved_run env (tn_trace st) (cc_name cc) (cc_parsed cc) s (cc_approval cc)
     \<and> (cc_approval cc = Some ByInvocation \<longrightarrow>
          run_key (te_sha env) (cc_name cc) (cc_parsed cc)
            \<in> tc_invocations (te_ctx env) - set (spent_keys (te_sha env) (tn_trace st)) - tn_unspent st)"

lemma authorised_run_quiet:
  assumes "\<not> is_asked e" "authorised_run env tr n a s src"
  shows "authorised_run env (tr @ [e]) n a s src"
proof (cases "n \<in> set (te_handlers env)")
  case False
  with assms(2) obtain k where "k \<le> length tr" "find_tool (te_registry env (take k tr)) n = Some s"
    "may_run (te_registry env (take k tr)) n (tc_scopes (te_ctx env)) (tc_hosts (te_ctx env))"
    by (auto simp: authorised_run_def Let_def)
  then show ?thesis
    using assms False by (auto simp: authorised_run_def Let_def last_offer_quiet intro!: exI [of _ k])
qed (use assms in \<open>simp add: authorised_run_def last_offer_quiet\<close>)

lemma ready_log:
  assumes "\<not> is_run e" "\<not> is_asked e" "\<not> is_returned e" "run_ready env cc s st"
  shows "run_ready env cc s (log_event e st)"
  using assms answering_log [OF assms(1-3), of env st] authorised_run_quiet [OF assms(2)]
  by (auto simp: run_ready_def approved_run_def spent_keys_quiet)

lemma answering_run:
  assumes "run_ready env cc s st"
  shows "answering env (log_event (Ran (cc_name cc) (cc_parsed cc) s (cc_approval cc)) st)"
  using assms
  by (auto simp: run_ready_def safe_state_def offer_current_def every_run_snoc spent_keys_run)

lemma settled_run:
  assumes "run_ready env cc s st"
  shows "settled env 1 (cc_id cc) st
     (settle_outcome env cc kind out (log_event (Ran (cc_name cc) (cc_parsed cc) s (cc_approval cc)) st))"
  using settled_from [OF settled_outcome [OF answering_run [OF assms], where c = 0], of st 1] by simp

lemma ready_after_spend:
  assumes "answering env st" "cleared env cc s granted key st"
    and "authorised_run env (tn_trace st) (cc_name cc) (cc_parsed cc) s (cc_approval cc)"
  shows "run_ready env cc s (spend granted key st)"
proof -
  have "answering env (spend granted key st)"
    using assms(1) by (auto simp: safe_state_def offer_current_def spend_def)
  moreover have "approved_run env (tn_trace st) (cc_name cc) (cc_parsed cc) s (cc_approval cc)"
    using assms(1,2) by (auto simp: approved_run_def cleared_def safe_state_def)
  moreover have "run_key (te_sha env) (cc_name cc) (cc_parsed cc)
       \<in> tc_invocations (te_ctx env) - set (spent_keys (te_sha env) (tn_trace st)) - tn_unspent (spend granted key st)"
    if "cc_approval cc = Some ByInvocation"
    using assms(1,2) that by (auto simp: cleared_def safe_state_def spend_def)
  ultimately show ?thesis using assms(3) by (simp add: run_ready_def)
qed

lemma settled_execute:
  assumes "run_ready env cc s st" "execute env cc s st = Some (out, st')"
  shows "settled env 1 (cc_id cc) st (settle_outcome env cc kind (f out) st')"
proof -
  let ?c = "log_event Checked st"
  have c: "run_ready env cc s ?c" by (rule ready_log) (use assms(1) in simp_all)
  have quiet: "settled env 1 (cc_id cc) st (settle_outcome env cc kind o' ?c)" for o'
    using settled_from [OF settled_outcome [of env ?c 1 cc kind o'], of st 0] c by (simp add: run_ready_def)
  have ran: "settled env 1 (cc_id cc) st
      (settle_outcome env cc kind o' (log_event (Ran (cc_name cc) (cc_parsed cc) s (cc_approval cc)) ?c))" for o'
    using settled_from [OF settled_run [OF c, of kind o'], of st 0] by simp
  from assms(2) show ?thesis
    using quiet ran by (auto simp: execute_def Let_def split: if_splits option.splits)
qed

section \<open>The stages of a call\<close>

lemma settled_before_tool:
  assumes "run_ready env cc s (spend g key st)" "tn_convo (spend g key st) = tn_convo st"
    and "\<And>st1. run_ready env cc s st1 \<Longrightarrow> tn_convo st1 = tn_convo st \<Longrightarrow> tn_used st1 = tn_used st
        \<Longrightarrow> tn_iterations st1 = tn_iterations st \<Longrightarrow> tn_user st1 = tn_user st \<Longrightarrow> tn_schema st1 = tn_schema st
        \<Longrightarrow> runs (tn_trace st1) = runs (tn_trace st) \<Longrightarrow> asked (tn_trace st1) = asked (tn_trace st)
        \<Longrightarrow> settled env 1 cid st (k st1)"
  shows "settled env 1 cid st (bindE (before_tool env (spend g key st)) k)"
proof (cases "te_still env (tn_trace (spend g key st))")
  case True
  have "run_ready env cc s (log_event Checked (spend g key st))"
    by (rule ready_log) (use assms(1) in simp_all)
  from assms(3) [OF this] True show ?thesis by (simp add: before_tool_def)
next
  case False
  have "answering env (log_event Checked (spend g key st))"
    by (subst answering_log) (use assms(1) in \<open>simp_all add: run_ready_def\<close>)
  with False show ?thesis by (simp add: before_tool_def settled_def)
qed

lemma settled_transfer:
  "settled env c cid st1 r \<Longrightarrow> tn_convo st1 = tn_convo st \<Longrightarrow> tn_used st1 = tn_used st
     \<Longrightarrow> tn_iterations st1 = tn_iterations st \<Longrightarrow> tn_user st1 = tn_user st \<Longrightarrow> tn_schema st1 = tn_schema st
     \<Longrightarrow> runs (tn_trace st1) = runs (tn_trace st) \<Longrightarrow> asked (tn_trace st1) = asked (tn_trace st)
     \<Longrightarrow> settled env c cid st r"
  using settled_from [of env c cid st1 r st 0] by simp

lemma settled_synthetic_run:
  assumes "run_ready env cc s st" "run_synthetic env sp cc s st = (out, st')"
  shows "settled env 1 (cc_id cc) st (settle_outcome env cc kind (f out) st')"
proof (cases "te_require env (tn_trace st) (canonical_tool_name (cc_name cc) (tc_aliases (te_ctx env)))
             (map_of (sp_contracts sp) (cc_name cc))")
  case None
  with assms(2) have "st' = log_event (Ran (cc_name cc) (cc_parsed cc) s (cc_approval cc)) st"
    by (auto simp: run_synthetic_def Let_def)
  with settled_run [OF assms(1)] show ?thesis by simp
next
  case (Some reason)
  with assms(2) have "st' = st" by (auto simp: run_synthetic_def)
  with assms(1) show ?thesis by (simp add: settled_outcome run_ready_def)
qed

lemma settled_dispatch_synthetic:
  assumes "answering env st" "cleared env cc s g key st"
    and "authorised_run env (tn_trace st) (cc_name cc) (cc_parsed cc) s (cc_approval cc)"
  shows "settled env 1 (cc_id cc) st (dispatch_synthetic env sp cc s g key st)"
proof -
  have r: "run_ready env cc s (spend g key st)" by (rule ready_after_spend [OF assms])
  have run: "settled env 1 (cc_id cc) st (bindE (before_tool env (spend g key st)) (\<lambda>st1.
       let (out, st2) = run_synthetic env sp cc s st1
       in settle_outcome env cc Delegate (synthetic_outcome out) st2))"
  proof (rule settled_before_tool [OF r])
    fix st1
    assume "run_ready env cc s st1" "tn_convo st1 = tn_convo st" "tn_used st1 = tn_used st"
      "tn_iterations st1 = tn_iterations st" "tn_user st1 = tn_user st" "tn_schema st1 = tn_schema st"
      "runs (tn_trace st1) = runs (tn_trace st)" "asked (tn_trace st1) = asked (tn_trace st)"
    then show "settled env 1 (cc_id cc) st (let (out, st2) = run_synthetic env sp cc s st1
       in settle_outcome env cc Delegate (synthetic_outcome out) st2)"
      using settled_transfer [OF settled_synthetic_run]
      by (cases "run_synthetic env sp cc s st1") simp
  qed simp
  have stop: "settled env 1 (cc_id cc) st (Inl (x, st))" if "budget_stop x = None" for x
    using assms(1) that by (intro settled_stop) simp_all
  show ?thesis
    unfolding dispatch_synthetic_def
    using stop run settled_deny [OF assms(1), of 1 cc] by (simp split: option.split)
qed

lemma settled_dispatch_registry:
  assumes "answering env st" "cleared env cc s g key st"
    and "authorised_run env (tn_trace st) (cc_name cc) (cc_parsed cc) s (cc_approval cc)"
  shows "settled env 1 (cc_id cc) st (dispatch_registry env sp cc s g key st)"
proof -
  have r: "run_ready env cc s (spend g key st)" by (rule ready_after_spend [OF assms])
  have run: "settled env 1 (cc_id cc) st (bindE (before_tool env (spend g key st)) (\<lambda>st1.
       case execute env cc s st1 of
         None \<Rightarrow> Inr (answer_error cc ''execution_error''
                        (redact ''Tool consent contract is too large.'') ''execution_error'' (log_event Checked st1))
       | Some (out, st2) \<Rightarrow> settle_outcome env cc ToolResult (registry_outcome out) st2))"
  proof (rule settled_before_tool [OF r])
    fix st1
    assume a: "run_ready env cc s st1" "tn_convo st1 = tn_convo st" "tn_used st1 = tn_used st"
      "tn_iterations st1 = tn_iterations st" "tn_user st1 = tn_user st" "tn_schema st1 = tn_schema st"
      "runs (tn_trace st1) = runs (tn_trace st)" "asked (tn_trace st1) = asked (tn_trace st)"
    have "answering env (log_event Checked st1)"
      by (subst answering_log) (use a(1) in \<open>simp_all add: run_ready_def\<close>)
    then have "settled env 1 (cc_id cc) (log_event Checked st1) (Inr (answer_error cc k t d (log_event Checked st1)))"
      for k t d by (rule settled_error)
    then have "settled env 1 (cc_id cc) st (Inr (answer_error cc k t d (log_event Checked st1)))" for k t d
      by (rule settled_transfer) (use a in simp_all)
    moreover have "settled env 1 (cc_id cc) st (settle_outcome env cc ToolResult (registry_outcome out) st2)"
      if "execute env cc s st1 = Some (out, st2)" for out st2
      by (rule settled_transfer [OF settled_execute [OF a(1) that]]) (use a in simp_all)
    ultimately show "settled env 1 (cc_id cc) st (case execute env cc s st1 of
         None \<Rightarrow> Inr (answer_error cc ''execution_error''
                        (redact ''Tool consent contract is too large.'') ''execution_error'' (log_event Checked st1))
       | Some (out, st2) \<Rightarrow> settle_outcome env cc ToolResult (registry_outcome out) st2)"
      by (auto split: option.split)
  qed simp
  have stop: "settled env 1 (cc_id cc) st (Inl (x, st))" if "budget_stop x = None" for x
    using assms(1) that by (intro settled_stop) simp_all
  show ?thesis
    unfolding dispatch_registry_def
    using stop run settled_deny [OF assms(1), of 1 cc] by (simp split: sum.split)
qed

text \<open>The gate clears only consented calls, calls with an unspent approval, and calls that need none.\<close>

lemma approval_of_gated:
  assumes "requires_invocation_approval s policy untrusted" "granted \<or> cd_approved d"
  shows "approval_of policy s d True granted \<in>
     (if cd_approved d then {Some BySession, Some ByRun, None} else {Some ByInvocation})"
  using assms
  by (cases "cd_scope d") (auto simp: approval_of_def requires_invocation_approval_def Let_def
      split: if_splits consent_scope.splits)

lemma approval_of_invocation: "approval_of policy s d needs granted = Some ByInvocation \<Longrightarrow> granted"
  by (cases "cd_scope d") (auto simp: approval_of_def Let_def split: if_splits consent_scope.splits)

definition governed :: "turn_env \<Rightarrow> turn \<Rightarrow> string \<Rightarrow> tool_spec \<Rightarrow> bool" where
  "governed env st n s \<longleftrightarrow> authorised_run env (tn_trace st) n [] s None"

lemma governed_authorised: "governed env st n s \<Longrightarrow> authorised_run env (tn_trace st) n a s src"
  by (simp add: governed_def authorised_run_def)

lemma governed_log: "governed env st n s \<Longrightarrow> \<not> is_asked e \<Longrightarrow> governed env (log_event e st) n s"
  by (simp add: governed_def authorised_run_quiet)

lemma settled_gate:
  assumes "answering env st" "governed env st (cc_name cc) s"
    and "cd_approved d \<longrightarrow> Consulted (cc_name cc) True \<in> set (tn_trace st)"
  shows "settled env 1 (cc_id cc) st (gate_call env sp cc s d st)"
proof -
  define needs where "needs = requires_invocation_approval s (te_policy env) (tn_untrusted st)"
  define digest where "digest = (if needs then arguments_digest (te_sha env) (Some (JObj (cc_parsed cc))) else [])"
  define key where "key = (if needs then approval_key (cc_name cc) digest else [])"
  define granted where "granted = (needs \<and> key \<in> tn_unspent st)"
  define cc' where "cc' = cc\<lparr>cc_approval := approval_of (te_policy env) s d needs granted, cc_consent := cd_consent_id d\<rparr>"
  have id: "cc_id cc' = cc_id cc" "cc_name cc' = cc_name cc" "cc_parsed cc' = cc_parsed cc"
    by (simp_all add: cc'_def)
  have clear: "cleared env cc' s granted key st" if "needs \<longrightarrow> granted \<or> cd_approved d"
  proof -
    have "cc_approval cc' = Some ByInvocation \<longrightarrow>
        granted \<and> key = run_key (te_sha env) (cc_name cc) (cc_parsed cc) \<and> key \<in> tn_unspent st"
      by (auto simp: cc'_def granted_def key_def digest_def run_key_def dest: approval_of_invocation)
    moreover have "needs \<longrightarrow> cc_approval cc' = Some ByInvocation
        \<or> cc_approval cc' \<in> {Some BySession, Some ByRun, None} \<and> Consulted (cc_name cc) True \<in> set (tn_trace st)"
      using approval_of_gated [of s "te_policy env" "tn_untrusted st" granted d] that assms(3)
      by (auto simp: needs_def [symmetric] cc'_def split: if_splits)
    ultimately show ?thesis unfolding cleared_def id needs_def by blast
  qed
  have auth: "authorised_run env (tn_trace st) (cc_name cc') (cc_parsed cc') s (cc_approval cc')"
    using governed_authorised [OF assms(2)] by (simp add: id)
  have hold: "settled env 1 (cc_id cc) st (Inr (hold_for_approval env sp cc' s digest st))"
    using settled_hold [OF assms(1), of 1 cc'] by (simp add: id)
  have den: "settled env 1 (cc_id cc) st (Inr (deny_call cc' reason st))" for reason
    using settled_deny [OF assms(1), of 1 cc'] by (simp add: id)
  have syn: "settled env 1 (cc_id cc) st (dispatch_synthetic env sp cc' s granted key st)"
    if "needs \<longrightarrow> granted \<or> cd_approved d"
    using settled_dispatch_synthetic [OF assms(1) clear [OF that] auth] by (simp add: id)
  have reg: "settled env 1 (cc_id cc) st (dispatch_registry env sp cc' s granted key st)"
    if "needs \<longrightarrow> granted \<or> cd_approved d"
    using settled_dispatch_registry [OF assms(1) clear [OF that] auth] by (simp add: id)
  show ?thesis
    unfolding gate_call_def Let_def needs_def [symmetric] digest_def [symmetric] key_def [symmetric]
      granted_def [symmetric] cc'_def [symmetric]
    using hold den syn reg by auto
qed

lemma settled_consult:
  assumes "answering env st" "governed env st (cc_name cc) s"
  shows "settled env 1 (cc_id cc) st (consult env sp cc s st)"
proof (cases "te_consent env")
  case None
  then show ?thesis using settled_gate [OF assms, of no_decision] by (simp add: consult_def no_decision_def)
next
  case (Some ask)
  have stop: "settled env 1 (cc_id cc) st (Inl (x, add_step y st))" if "budget_stop x = None" for x y
    using assms(1) that by (intro settled_stop) (simp_all add: safe_state_def offer_current_def)
  show ?thesis
  proof (cases "map_of (sp_contracts sp) (cc_name cc)")
    case None
    with Some stop show ?thesis by (simp add: consult_def)
  next
    case contract: (Some c)
    show ?thesis
    proof (cases "ask (tn_trace st) (cc_name cc) c")
      case (Decided d)
      define st1 where "st1 = log_event (Consulted (cc_name cc) (cd_approved d)) st"
      define cc1 where "cc1 = cc\<lparr>cc_consent := cd_consent_id d\<rparr>"
      have cc1: "cc_id cc1 = cc_id cc" "cc_name cc1 = cc_name cc" by (simp_all add: cc1_def)
      have a1: "answering env st1" unfolding st1_def by (subst answering_log) (use assms(1) in simp_all)
      have same: "tn_convo st1 = tn_convo st" "tn_used st1 = tn_used st" "tn_iterations st1 = tn_iterations st"
        "tn_user st1 = tn_user st" "tn_schema st1 = tn_schema st" "runs (tn_trace st1) = runs (tn_trace st)"
        "asked (tn_trace st1) = asked (tn_trace st)" by (simp_all add: st1_def)
      have "governed env st1 (cc_name cc1) s"
        using governed_log [OF assms(2), of "Consulted (cc_name cc) (cd_approved d)"] by (simp add: cc1 st1_def)
      moreover have "cd_approved d \<longrightarrow> Consulted (cc_name cc1) True \<in> set (tn_trace st1)"
        by (simp add: cc1 st1_def)
      ultimately have "settled env 1 (cc_id cc1) st1 (gate_call env sp cc1 s d st1)"
        by (rule settled_gate [OF a1])
      then have g: "settled env 1 (cc_id cc) st (gate_call env sp cc1 s d st1)"
        unfolding cc1 by (rule settled_transfer) (fact same)+
      have "settled env 1 (cc_id cc) st (Inr (deny_call cc1 reason st1))" for reason
        using settled_deny [OF a1, of 1 cc1] unfolding cc1 by (rule settled_transfer) (fact same)+
      with g show ?thesis
        by (simp add: consult_def Some contract Decided Let_def st1_def [symmetric] cc1_def [symmetric]
            split: option.split)
    qed (use Some contract stop in \<open>simp_all add: consult_def\<close>)
  qed
qed

lemma settled_govern:
  assumes "answering env st"
  shows "settled env 1 (cc_id cc) st (govern_call env sp cc st)"
proof -
  define synthetic where "synthetic = (cc_name cc \<in> set (te_handlers env))"
  define reg where "reg = te_registry env (tn_trace st)"
  have den: "settled env 1 (cc_id cc) st (Inr (deny_call (cc\<lparr>cc_approval := x\<rparr>) reason st))"
    "settled env 1 (cc_id cc) st (Inr (deny_call cc reason st))" for x reason
    using settled_deny [OF assms, of 1 "cc\<lparr>cc_approval := x\<rparr>"] settled_deny [OF assms, of 1 cc] by simp_all
  show ?thesis
  proof (cases "if synthetic then synthetic_spec (cc_name cc) else find_tool reg (cc_name cc)")
    case None
    with den show ?thesis
      by (simp add: govern_call_def Let_def synthetic_def [symmetric] reg_def [symmetric])
  next
    case (Some s)
    define gov where "gov = (if synthetic then \<lparr>rg_tools = [(cc_name cc, s)], rg_allowlist = None\<rparr> else reg)"
    define v where "v = authorize (te_tools_on env) gov (cc_name cc) (tc_scopes (te_ctx env)) (tc_hosts (te_ctx env)) True"
    have "governed env st (cc_name cc) s" if "ad_allowed v" "cc_name cc \<in> offered_names (tn_schema st)"
      using that Some
      using assms
      by (auto simp: governed_def authorised_run_def offer_current_def v_def gov_def authorize_approved_iff
          synthetic_def reg_def Let_def intro!: exI [of _ "length (tn_trace st)"] split: if_splits)
    then show ?thesis
      using den settled_consult [OF assms, of cc s] Some
      by (simp add: govern_call_def Let_def synthetic_def [symmetric] reg_def [symmetric] gov_def [symmetric]
          v_def [symmetric])
  qed
qed

end
