(* ===== verification/Agent_Guarantees.thy ===== *)
theory Agent_Guarantees
  imports Agent_Safety
begin

text \<open>
  The guarantees of a whole turn: the stages of \<open>Agent_Safety\<close> composed over the calls of a reply, the
  model requests and the loop.
\<close>

section \<open>All calls of a reply\<close>

definition within_budget :: "turn \<Rightarrow> bool" where
  "within_budget st \<longleftrightarrow> runs (tn_trace st) \<le> tn_used st \<and> runs (tn_trace st) \<le> MAX_TOOL_CALLS"

text \<open>What answering calls leaves alone, whatever happens.\<close>

definition same_round :: "turn \<Rightarrow> turn \<Rightarrow> bool" where
  "same_round st st' \<longleftrightarrow> tn_iterations st' = tn_iterations st \<and> tn_user st' = tn_user st
     \<and> tn_schema st' = tn_schema st \<and> asked (tn_trace st') = asked (tn_trace st)"

lemma same_round_trans: "same_round a b \<Longrightarrow> same_round b c \<Longrightarrow> same_round a c"
  by (simp add: same_round_def)

lemma answer_call_effect:
  fixes sp i c
  assumes "answering env st" "within_budget st"
  defines "r \<equiv> answer_call env sp i c st"
  shows "answering env (left_state r) \<and> within_budget (left_state r) \<and> same_round st (left_state r) \<and> no_budget_stop r
    \<and> (is_ok r \<longrightarrow> (\<exists>m. tn_convo (left_state r) = tn_convo st @ [m] \<and> answers (get_or_null c ''id'') m))"
proof -
  define st1 where "st1 = st\<lparr>tn_used := tn_used st + 1\<rparr>"
  have a1: "answering env st1" using assms(1) by (simp add: st1_def safe_state_def offer_current_def)
  have quiet: "answering env (left_state r) \<and> within_budget (left_state r) \<and> same_round st (left_state r) \<and> no_budget_stop r
    \<and> (is_ok r \<longrightarrow> (\<exists>m. tn_convo (left_state r) = tn_convo st @ [m] \<and> answers (get_or_null c ''id'') m))"
    if "settled env n (get_or_null c ''id'') st1 r" "n = 0 \<or> n = 1 \<and> tn_used st1 \<le> MAX_TOOL_CALLS" for n
    using that assms(2) by (auto simp: settled_def Let_def st1_def within_budget_def same_round_def)
  have force: "settled env 0 cid st1 (Inr (st2\<lparr>tn_force := True\<rparr>))" if "settled env 0 cid st1 (Inr st2)" for st2 cid
    using that by (simp add: settled_def safe_state_def offer_current_def)
  have "\<exists>cc raw. cc_id cc = get_or_null c ''id'' \<and> r =
      (if tn_used st1 > MAX_TOOL_CALLS
       then Inr ((answer_error cc ''budget_exceeded'' ''tool budget exhausted'' ''budget_exceeded'' st1)\<lparr>tn_force := True\<rparr>)
       else (case parse_arguments env raw of
           Inl why \<Rightarrow> Inr (answer_error cc ''invalid_arguments'' (redact why) ''invalid_arguments'' st1)
         | Inr parsed \<Rightarrow> govern_call env sp (cc\<lparr>cc_arguments := JObj parsed, cc_parsed := parsed\<rparr>) st1))"
    unfolding r_def answer_call_def Let_def st1_def [symmetric]
    by (rule exI, rule exI, rule conjI [rotated], rule refl, simp)
  then obtain cc raw where cc: "cc_id cc = get_or_null c ''id''" and r: "r =
      (if tn_used st1 > MAX_TOOL_CALLS
       then Inr ((answer_error cc ''budget_exceeded'' ''tool budget exhausted'' ''budget_exceeded'' st1)\<lparr>tn_force := True\<rparr>)
       else (case parse_arguments env raw of
           Inl why \<Rightarrow> Inr (answer_error cc ''invalid_arguments'' (redact why) ''invalid_arguments'' st1)
         | Inr parsed \<Rightarrow> govern_call env sp (cc\<lparr>cc_arguments := JObj parsed, cc_parsed := parsed\<rparr>) st1))"
    by blast
  show ?thesis
  proof (cases "tn_used st1 > MAX_TOOL_CALLS")
    case True
    have "settled env 0 (get_or_null c ''id'') st1 r"
      using force [OF settled_error [OF a1, of 0 cc]] True by (simp add: r cc)
    then show ?thesis by (rule quiet) simp
  next
    case False
    have "settled env 1 (get_or_null c ''id'') st1 r"
    proof (cases "parse_arguments env raw")
      case (Inl why)
      with False settled_error [OF a1, of 1 cc] show ?thesis by (simp add: r cc)
    next
      case (Inr parsed)
      with False settled_govern [OF a1, of "cc\<lparr>cc_arguments := JObj parsed, cc_parsed := parsed\<rparr>"]
      show ?thesis by (simp add: r cc)
    qed
    then show ?thesis by (rule quiet) (use False in simp)
  qed
qed

lemma answer_calls_effect:
  fixes sp i cs
  assumes "answering env st" "within_budget st"
  defines "r \<equiv> answer_calls env sp i cs st"
  shows "answering env (left_state r) \<and> within_budget (left_state r) \<and> same_round st (left_state r) \<and> no_budget_stop r
    \<and> (is_ok r \<longrightarrow> (\<exists>ms. tn_convo (left_state r) = tn_convo st @ ms
        \<and> list_all2 (\<lambda>c m. answers (get_or_null c ''id'') m) cs ms))"
  using assms(1,2) unfolding r_def
proof (induction cs arbitrary: i st)
  case Nil
  then show ?case by (simp add: same_round_def)
next
  case (Cons c cs)
  note eff = answer_call_effect [OF Cons.prems, of sp i c]
  show ?case
  proof (cases "answer_call env sp i c st")
    case (Inl p)
    with eff show ?thesis by (cases p) simp
  next
    case (Inr st1)
    with eff obtain m where m: "tn_convo st1 = tn_convo st @ [m]" "answers (get_or_null c ''id'') m"
      and st1: "answering env st1" "within_budget st1" "same_round st st1" by auto
    from Cons.IH [OF st1(1,2), of "Suc i"] m st1(3) Inr show ?thesis
      by (auto simp: bindE.simps intro: same_round_trans intro!: exI [of _ "m # _"])
  qed
qed

section \<open>Conversations\<close>

lemma has_role_unique: "has_role a m \<Longrightarrow> has_role b m \<Longrightarrow> a = b"
  by (simp add: has_role_def)

lemma protocol_no_user: "protocol ids ms = Inr ids' \<Longrightarrow> m \<in> set ms \<Longrightarrow> \<not> has_role ''user'' m"
proof (induction ids ms rule: protocol.induct)
  case (2 ids x ms)
  then show ?case
    by (auto simp: Let_def dest: has_role_unique split: if_splits)
qed simp

lemma current_user_last:
  assumes "has_role ''user'' u" "\<And>m. m \<in> set rest \<Longrightarrow> \<not> has_role ''user'' m"
  shows "current_user (pre @ u # rest) = Some (length pre)"
proof -
  let ?ms = "pre @ u # rest" and ?k = "length pre"
  have "[0..<length ?ms] = [0..<?k] @ ?k # [Suc ?k..<length ?ms]"
    by (metis add_Suc_right le_add1 length_Cons length_append upt_add_eq_append upt_conv_Cons zero_less_Suc
        less_add_same_cancel1 le0 add_0)
  moreover have "filter (\<lambda>i. has_role ''user'' (?ms ! i)) (rev [Suc ?k..<length ?ms]) = []"
  proof -
    have none: "\<not> has_role ''user'' (?ms ! i)" if "Suc ?k \<le> i" "i < length ?ms" for i
    proof -
      have "?ms ! i = rest ! (i - Suc ?k)" "i - Suc ?k < length rest"
        using that by (auto simp: nth_append nth_Cons' Suc_le_eq)
      then show ?thesis using assms(2) nth_mem by metis
    qed
    show ?thesis unfolding filter_empty_conv set_rev set_upt
      by (intro ballI none) simp_all
  qed
  ultimately show ?thesis using assms(1) by (simp add: current_user_def)
qed

text \<open>After the current user message every tool call so far is answered exactly once.\<close>

definition well_formed :: "message list \<Rightarrow> nat \<Rightarrow> bool" where
  "well_formed ms cu \<longleftrightarrow> cu < length ms \<and> has_role ''user'' (ms ! cu) \<and> protocol [] (drop (Suc cu) ms) = Inr []"

lemma well_formed_split:
  assumes "well_formed ms cu"
  obtains pre u rest where "ms = pre @ u # rest" "cu = length pre" "has_role ''user'' u" "protocol [] rest = Inr []"
  using assms that [of "take cu ms" "ms ! cu" "drop (Suc cu) ms"]
  by (simp add: well_formed_def Cons_nth_drop_Suc)

lemma well_formed_append:
  "has_role ''user'' u \<Longrightarrow> well_formed (pre @ u # rest) (length pre) \<longleftrightarrow> protocol [] rest = Inr []"
  by (simp add: well_formed_def)

lemma well_formed_current: "well_formed ms cu \<Longrightarrow> current_user ms = Some cu"
  by (elim well_formed_split) (simp add: current_user_last protocol_no_user)

text \<open>A reply that calls tools, followed by their answers in order, keeps the conversation well formed.\<close>

lemma protocol_answers:
  "list_all2 (\<lambda>c m. answers (get_or_null c ''id'') m) cs ms
     \<Longrightarrow> protocol (map (\<lambda>c. get_or_null c ''id'') cs) ms = Inr []"
proof (induction cs ms rule: list_all2_induct)
  case (Cons c cs m ms)
  then have "has_role ''tool'' m" "get_or_null m ''tool_call_id'' = get_or_null c ''id''"
    by (simp_all add: answers_def)
  moreover from this have "\<not> has_role ''assistant'' m" using has_role_unique by force
  ultimately show ?case using Cons.IH by simp
qed simp

lemma assistant_message_calls:
  "has_role ''assistant'' (assistant_message reply)" "calls_of (assistant_message reply) = mr_calls reply"
proof -
  show "has_role ''assistant'' (assistant_message reply)"
    by (simp add: assistant_message_def has_role_def get_or_null_def)
  have "map dict_of (map JObj cs) = cs" for cs by (induction cs) simp_all
  then show "calls_of (assistant_message reply) = mr_calls reply"
    by (simp add: assistant_message_def calls_of_def get_or_null_def)
qed

lemma well_formed_round:
  assumes "well_formed ms cu" "mr_calls reply \<noteq> []"
    and "list_all2 (\<lambda>c m. answers (get_or_null c ''id'') m) (mr_calls reply) as"
  shows "well_formed (ms @ assistant_message reply # as) cu"
proof -
  from assms(1) obtain pre u rest where ms: "ms = pre @ u # rest" "cu = length pre" "has_role ''user'' u"
    "protocol [] rest = Inr []" by (rule well_formed_split)
  have "protocol [] (rest @ assistant_message reply # as) = Inr []"
    using ms(4) assms(2) protocol_answers [OF assms(3)]
    by (simp add: protocol_append assistant_message_calls)
  then show ?thesis by (simp add: ms(1,2) well_formed_append [OF ms(3)])
qed

lemma well_formed_bound:
  assumes "well_formed ms cu" "bound_agent_context ms cu b extra = Inr (ms', dropped, z)"
  shows "well_formed ms' (the (current_user ms')) \<and> current_user ms' \<noteq> None"
proof -
  have ne: "ms \<noteq> []" using assms(1) by (auto simp: well_formed_def)
  from bound_agent_context_shape [OF assms(2) ne] obtain A where ms': "ms' = nths (take cu ms) A @ drop cu ms" by blast
  have "drop cu ms = ms ! cu # drop (Suc cu) ms" using assms(1) by (simp add: well_formed_def Cons_nth_drop_Suc)
  with ms' have ms': "ms' = nths (take cu ms) A @ ms ! cu # drop (Suc cu) ms" by simp
  then have w: "well_formed ms' (length (nths (take cu ms) A))"
    using assms(1) by (auto simp: ms' well_formed_def)
  then show ?thesis by (simp add: well_formed_current)
qed

text \<open>Every request carries a well-formed conversation that fits the budget with its tools.\<close>

definition request_ok :: "int \<Rightarrow> turn_event \<Rightarrow> bool" where
  "request_ok b e \<longleftrightarrow> (case e of
     Asked ms sc \<Rightarrow> (\<exists>cu. current_user ms = Some cu \<and> well_formed ms cu)
                   \<and> int (schema_bytes sc) + int (total_bytes ms) \<le> b
   | _ \<Rightarrow> True)"

definition talking :: "turn_setup \<Rightarrow> turn \<Rightarrow> bool" where
  "talking sp st \<longleftrightarrow> well_formed (tn_convo st) (tn_user st) \<and> list_all (request_ok (sp_budget sp)) (asked (tn_trace st))"

section \<open>Model requests\<close>

definition model_state :: "(model_reply \<times> turn) step_result \<Rightarrow> turn" where
  "model_state r = (case r of Inl (_, st) \<Rightarrow> st | Inr (_, st) \<Rightarrow> st)"

lemma safe_state_asked:
  assumes "safe_state env st"
  shows "safe_state env (log_event (Asked ms sc) st)"
  using assms by (simp add: safe_state_def log_event_def every_run_quiet spent_keys_quiet)

lemma safe_state_cong:
  "tn_trace st' = tn_trace st \<Longrightarrow> tn_untrusted st' = tn_untrusted st \<Longrightarrow> tn_unspent st' = tn_unspent st
    \<Longrightarrow> safe_state env st' \<longleftrightarrow> safe_state env st"
  by (simp add: safe_state_def)

text \<open>The state the model is asked in.\<close>

definition asked_state :: "message list \<Rightarrow> nat \<Rightarrow> json list \<Rightarrow> turn \<Rightarrow> turn" where
  "asked_state convo dropped schema st = log_event (Asked convo schema)
     (st\<lparr>tn_convo := convo, tn_user := (case current_user convo of Some i \<Rightarrow> i | None \<Rightarrow> tn_user st),
         tn_dropped := tn_dropped st + dropped,
         tn_effective := (if tn_effective st = [] then observable_messages convo else tn_effective st),
         tn_requests := tn_requests st @ [observable_messages convo]\<rparr>)"

lemma asked_state_simps [simp]:
  "tn_trace (asked_state convo dropped schema st) = tn_trace st @ [Asked convo schema]"
  "tn_used (asked_state convo dropped schema st) = tn_used st"
  "tn_iterations (asked_state convo dropped schema st) = tn_iterations st"
  "tn_schema (asked_state convo dropped schema st) = tn_schema st"
  "tn_convo (asked_state convo dropped schema st) = convo"
  "tn_user (asked_state convo dropped schema st) = (case current_user convo of Some i \<Rightarrow> i | None \<Rightarrow> tn_user st)"
  by (simp_all add: asked_state_def)

lemma call_model_ask:
  assumes "bound_agent_context (tn_convo st) (tn_user st) (sp_budget sp) (schema_bytes schema) = Inr (convo, dropped, z)"
  shows "call_model env sp schema st = (let st2 = asked_state convo dropped schema st in
     case te_model env (tn_trace st2) convo schema of
       ModelCancelled \<Rightarrow> Inl (RunCancelled, st2)
     | ModelFails \<Rightarrow>
         Inl (if te_retain env \<or> done_something st2 then RunFailed ModelCall None else Raised ModelCall, st2)
     | Answer reply \<Rightarrow>
         (let st3 = st2\<lparr>tn_models := tn_models st2 + 1\<rparr> in
          case add_usage (tn_usage st3) (parse_usage None (mr_usage reply)) of
            Inl _ \<Rightarrow> Inl (RunFailed UsageInvalid None, st3)
          | Inr used_all \<Rightarrow>
              Inr (reply, st3\<lparr>tn_usage := used_all, tn_texts := tn_texts st3 @ [mr_content reply]\<rparr>)))"
  by (simp only: call_model_def assms sum.case prod.case Let_def asked_state_def)

lemma safe_state_updates [simp]:
  "safe_state env (st\<lparr>tn_models := a\<rparr>) \<longleftrightarrow> safe_state env st"
  "safe_state env (st\<lparr>tn_usage := u\<rparr>) \<longleftrightarrow> safe_state env st"
  "safe_state env (st\<lparr>tn_texts := t\<rparr>) \<longleftrightarrow> safe_state env st"
  by (simp_all add: safe_state_def)

lemma call_model_effect:
  fixes sp schema
  assumes "safe_state env st" "within_budget st"
  defines "st' \<equiv> model_state (call_model env sp schema st)"
  shows "safe_state env st' \<and> within_budget st' \<and> tn_iterations st' = tn_iterations st
    \<and> tn_schema st' = tn_schema st \<and> requests (tn_trace st') \<le> Suc (requests (tn_trace st))
    \<and> (is_ok (call_model env sp schema st) \<longrightarrow> last_offer (tn_trace st') [] = schema)"
proof (cases "bound_agent_context (tn_convo st) (tn_user st) (sp_budget sp) (schema_bytes schema)")
  case (Inl e)
  then show ?thesis using assms(1,2) by (simp add: st'_def call_model_def model_state_def)
next
  case (Inr p)
  obtain convo dropped z where p: "p = (convo, dropped, z)" by (cases p)
  define st2 where "st2 = asked_state convo dropped schema st"
  have t2: "tn_trace st2 = tn_trace st @ [Asked convo schema]" "tn_used st2 = tn_used st"
    "tn_iterations st2 = tn_iterations st" "tn_schema st2 = tn_schema st"
    by (simp_all add: st2_def)
  have s2: "safe_state env st2"
    unfolding st2_def asked_state_def
    by (rule safe_state_asked) (subst safe_state_cong [of _ st], use assms(1) in simp_all)
  have w2: "within_budget (st2\<lparr>tn_models := a\<rparr>)" "within_budget (st2\<lparr>tn_models := a, tn_usage := u, tn_texts := t\<rparr>)"
    "within_budget st2" for a u t
    using assms(2) by (simp_all add: within_budget_def t2)
  note call = call_model_ask [OF Inr [unfolded p], of env, folded st2_def]
  show ?thesis
  proof (cases "te_model env (tn_trace st2) convo schema")
    case (Answer reply)
    show ?thesis
    proof (cases "add_usage (tn_usage st2) (parse_usage None (mr_usage reply))")
      case (Inl u)
      then show ?thesis using s2 w2 by (simp add: st'_def call Answer [unfolded t2(1)] Inl Let_def model_state_def t2)
    next
      case (Inr u)
      then show ?thesis using s2 w2 by (simp add: st'_def call Answer [unfolded t2(1)] Inr Let_def model_state_def t2)
    qed
  next
    case ModelFails
    then show ?thesis using s2 w2 by (simp add: st'_def call ModelFails [unfolded t2(1)] Let_def model_state_def t2)
  next
    case ModelCancelled
    then show ?thesis using s2 w2 by (simp add: st'_def call ModelCancelled [unfolded t2(1)] Let_def model_state_def t2)
  qed
qed

section \<open>The whole turn\<close>

text \<open>\<open>n\<close> iterations and the tail ask at most \<open>n + 1\<close> times.\<close>

lemma run_loop_effect:
  assumes "safe_state env st" "within_budget st"
  shows "safe_state env (end_state (run_loop env sp n st)) \<and> within_budget (end_state (run_loop env sp n st))
    \<and> requests (tn_trace (end_state (run_loop env sp n st))) \<le> requests (tn_trace st) + Suc n"
  using assms
proof (induction n arbitrary: st)
  case 0
  have "safe_state env (next_iteration st)" "within_budget (next_iteration st)"
    using 0 by (simp_all add: next_iteration_def safe_state_def within_budget_def)
  from call_model_effect [OF this, of sp "[]"] show ?case
    by (cases "call_model env sp [] (next_iteration st)")
       (auto simp: run_tail_def model_state_def end_state_def finish_turn_def next_iteration_def
          safe_state_def within_budget_def)
next
  case (Suc n)
  have st0: "safe_state env (next_iteration st)" "within_budget (next_iteration st)"
    "requests (tn_trace (next_iteration st)) = requests (tn_trace st)" "tn_schema (next_iteration st) = tn_schema st"
    using Suc.prems by (simp_all add: next_iteration_def safe_state_def within_budget_def)
  note eff = call_model_effect [OF st0(1,2), of sp "tn_schema st"]
  show ?case
  proof (cases "call_model env sp (tn_schema st) (next_iteration st)")
    case (Inl p)
    with eff st0 show ?thesis by (cases p) (auto simp: model_state_def end_state_def)
  next
    case (Inr p)
    obtain reply st1 where p: "p = (reply, st1)" by (cases p)
    from eff Inr p st0 have st1: "safe_state env st1" "within_budget st1" "tn_schema st1 = tn_schema st"
      "requests (tn_trace st1) \<le> Suc (requests (tn_trace st))" "last_offer (tn_trace st1) [] = tn_schema st"
      by (simp_all add: model_state_def)
    have fin: "safe_state env (add_step x st1) \<and> within_budget (add_step x st1)
        \<and> requests (tn_trace (add_step x st1)) \<le> requests (tn_trace st) + Suc (Suc n)" for x
      using st1 by (simp add: safe_state_def within_budget_def)
    define st2 where "st2 = (say (assistant_message reply) st1)\<lparr>tn_force := False\<rparr>"
    have st2: "answering env st2" "within_budget st2" "requests (tn_trace st2) = requests (tn_trace st1)"
      using st1 by (simp_all add: st2_def safe_state_def within_budget_def offer_current_def)
    note eff2 = answer_calls_effect [OF st2(1,2), of sp 0 "mr_calls reply"]
    show ?thesis
    proof (cases "mr_incomplete reply \<or> mr_calls reply = []")
      case True
      with fin Inr p show ?thesis by (auto simp: end_state_def finish_turn_def)
    next
      case False
      show ?thesis
      proof (cases "answer_calls env sp 0 (mr_calls reply) st2")
        case (Inl q)
        with eff2 st2 st1(4) False Inr p show ?thesis
          by (cases q) (auto simp: end_state_def st2_def [symmetric] same_round_def requests_def)
      next
        case ok: (Inr st3)
        define st4 where "st4 = (if tn_force st3 then st3\<lparr>tn_schema := []\<rparr> else st3)"
        from eff2 ok have st3: "answering env st3" "within_budget st3" "same_round st2 st3" by simp_all
        have st4: "safe_state env st4" "within_budget st4" "requests (tn_trace st4) = requests (tn_trace st2)"
          using st3 by (simp_all add: st4_def safe_state_def within_budget_def same_round_def requests_def)
        have loop: "run_loop env sp (Suc n) st = run_loop env sp n st4"
          using False Inr p ok by (simp add: st2_def [symmetric] st4_def)
        show ?thesis using Suc.IH [OF st4(1,2)] st4(3) st2(3) st1(4) unfolding loop by simp
      qed
    qed
  qed
qed

section \<open>Conversations of the whole turn\<close>

lemma talking_cong:
  "tn_convo st' = tn_convo st \<Longrightarrow> tn_user st' = tn_user st \<Longrightarrow> tn_trace st' = tn_trace st
    \<Longrightarrow> talking sp st' \<longleftrightarrow> talking sp st"
  by (simp add: talking_def)

lemma call_model_talking:
  fixes schema env
  assumes "talking sp st"
  defines "r \<equiv> call_model env sp schema st"
  shows "list_all (request_ok (sp_budget sp)) (asked (tn_trace (model_state r)))
    \<and> (\<forall>s st'. r = Inl (s, st') \<longrightarrow> budget_stop s \<in> {None, Some OverBudget})
    \<and> (is_ok r \<longrightarrow> talking sp (model_state r))"
proof (cases "bound_agent_context (tn_convo st) (tn_user st) (sp_budget sp) (schema_bytes schema)")
  case (Inl e)
  moreover have "e = OverBudget"
    using bound_agent_context_only_budget [OF _ _ _ Inl] assms(1) by (simp add: talking_def well_formed_def)
  ultimately show ?thesis using assms(1) by (simp add: r_def call_model_def model_state_def talking_def)
next
  case (Inr p)
  obtain convo dropped z where p: "p = (convo, dropped, z)" by (cases p)
  define st2 where "st2 = asked_state convo dropped schema st"
  have wf: "well_formed convo (the (current_user convo))" "current_user convo \<noteq> None"
    using well_formed_bound [OF _ Inr [unfolded p]] assms(1) by (auto simp: talking_def)
  have "tn_convo st \<noteq> []" using assms(1) by (auto simp: talking_def well_formed_def)
  then have "request_ok (sp_budget sp) (Asked convo schema)"
    using wf bound_agent_context_fits [OF Inr [unfolded p]] by (auto simp: request_ok_def)
  then have t2: "talking sp st2" using wf assms(1) by (auto simp: talking_def st2_def)
  have upd: "talking sp (st2\<lparr>tn_models := a\<rparr>)" "talking sp (st2\<lparr>tn_models := a, tn_usage := u, tn_texts := t\<rparr>)" for a u t
    using t2 by (simp_all add: talking_def)
  have req: "list_all (request_ok (sp_budget sp)) (asked (tn_trace x))" if "talking sp x" for x
    using that by (simp add: talking_def)
  note call = call_model_ask [OF Inr [unfolded p], of env, folded st2_def]
  show ?thesis
  proof (cases "te_model env (tn_trace st2) convo schema")
    case (Answer reply)
    show ?thesis
    proof (cases "add_usage (tn_usage st2) (parse_usage None (mr_usage reply))")
      case (Inl u)
      then show ?thesis using upd [THEN req] by (simp add: r_def call Answer Let_def model_state_def)
    next
      case (Inr u)
      then show ?thesis using upd upd [THEN req] by (simp add: r_def call Answer Let_def model_state_def)
    qed
  qed (use t2 [THEN req] in \<open>simp_all add: r_def call Let_def model_state_def\<close>)
qed

lemma run_loop_talking:
  fixes n
  assumes "safe_state env st" "within_budget st" "talking sp st"
  defines "r \<equiv> run_loop env sp n st"
  shows "list_all (request_ok (sp_budget sp)) (asked (tn_trace (end_state r)))
    \<and> (\<forall>s st'. r = Inl (s, st') \<longrightarrow> budget_stop s \<in> {None, Some OverBudget})"
  using assms(1-3) unfolding r_def
proof (induction n arbitrary: st)
  case 0
  have "talking sp (next_iteration st)" using 0 by (simp add: next_iteration_def talking_def)
  from call_model_talking [OF this, of env "[]"] show ?case
    by (cases "call_model env sp [] (next_iteration st)")
       (auto simp: run_tail_def model_state_def end_state_def finish_turn_def)
next
  case (Suc n)
  have st0: "safe_state env (next_iteration st)" "within_budget (next_iteration st)" "talking sp (next_iteration st)"
    using Suc.prems by (simp_all add: next_iteration_def safe_state_def within_budget_def talking_def)
  note eff = call_model_effect [OF st0(1,2), of sp "tn_schema st"]
  note conv = call_model_talking [OF st0(3), of env "tn_schema st"]
  show ?case
  proof (cases "call_model env sp (tn_schema st) (next_iteration st)")
    case (Inl p)
    with conv show ?thesis by (cases p) (auto simp: model_state_def end_state_def)
  next
    case (Inr p)
    obtain reply st1 where p: "p = (reply, st1)" by (cases p)
    from eff conv Inr p have st1: "safe_state env st1" "within_budget st1" "talking sp st1"
      "last_offer (tn_trace st1) [] = tn_schema st" "tn_schema st1 = tn_schema st"
      by (simp_all add: model_state_def next_iteration_def)
    define st2 where "st2 = (say (assistant_message reply) st1)\<lparr>tn_force := False\<rparr>"
    have st2: "answering env st2" "within_budget st2" "asked (tn_trace st2) = asked (tn_trace st1)"
      "tn_convo st2 = tn_convo st1 @ [assistant_message reply]" "tn_user st2 = tn_user st1"
      using st1 by (simp_all add: st2_def safe_state_def within_budget_def offer_current_def)
    note eff2 = answer_calls_effect [OF st2(1,2), of sp 0 "mr_calls reply"]
    show ?thesis
    proof (cases "mr_incomplete reply \<or> mr_calls reply = []")
      case True
      with st1(3) Inr p show ?thesis by (auto simp: end_state_def finish_turn_def talking_def)
    next
      case False
      show ?thesis
      proof (cases "answer_calls env sp 0 (mr_calls reply) st2")
        case (Inl q)
        with eff2 st2 st1(3) False Inr p show ?thesis
          by (cases q) (auto simp: end_state_def st2_def [symmetric] same_round_def talking_def)
      next
        case ok: (Inr st3)
        define st4 where "st4 = (if tn_force st3 then st3\<lparr>tn_schema := []\<rparr> else st3)"
        from eff2 ok have st3: "answering env st3" "within_budget st3" "same_round st2 st3"
          "\<exists>ms. tn_convo st3 = tn_convo st2 @ ms \<and> list_all2 (\<lambda>c m. answers (get_or_null c ''id'') m) (mr_calls reply) ms"
          by simp_all
        have "talking sp st3"
          using st3(3,4) st2(3-5) st1(3) False
          by (auto simp: talking_def same_round_def intro: well_formed_round)
        with st3 have st4: "safe_state env st4" "within_budget st4" "talking sp st4"
          by (simp_all add: st4_def safe_state_def within_budget_def talking_def)
        have loop: "run_loop env sp (Suc n) st = run_loop env sp n st4"
          using False Inr p ok by (simp add: st2_def [symmetric] st4_def)
        show ?thesis using Suc.IH [OF st4] unfolding loop by simp
      qed
    qed
  qed
qed

end
