(* ===== verification/Agent_Promises.thy ===== *)
theory Agent_Promises
  imports Agent_Guarantees
begin

text \<open>
  What \<open>run_agent_turn\<close> promises its caller, for every behaviour of the model, the tools, the registry,
  the policy and the consent service: the guarantees of the loop from the state that setup leaves. A
  concrete turn, whose model asks twice for the same approved write, shows that they are not vacuous.
\<close>

section \<open>From setup to the end of the turn\<close>

definition is_consult :: "turn_event \<Rightarrow> bool" where
  "is_consult e \<longleftrightarrow> (case e of Consulted n b \<Rightarrow> True | _ \<Rightarrow> False)"

lemma consented_names_trace:
  "consented_names env ns tr acc = Inr (acc', tr') \<Longrightarrow> list_all is_consult tr \<Longrightarrow> list_all is_consult tr'"
  by (induction env ns tr acc rule: consented_names.induct)
     (auto simp: is_consult_def split: option.splits if_splits consent_answer.splits)

lemma consult_trace_plain:
  assumes "list_all is_consult tr"
  shows "runs tr = 0" "asked tr = []" "\<not> returned tr" "spent_keys sha tr = []" "every_run P tr"
proof -
  have q: "\<not> is_run e" "\<not> is_asked e" "\<not> is_returned e" if "e \<in> set tr" for e
    using assms that by (cases e; auto simp: list_all_iff is_consult_def)+
  then show "runs tr = 0" "asked tr = []" by (auto simp: runs_def asked_def filter_empty_conv)
  show "\<not> returned tr" using q by (auto simp: returned_def list_ex_iff)
  show "spent_keys sha tr = []" using q(1)
  proof (induction tr)
    case (Cons e tr)
    then have "spent_keys sha [e] = []" by (simp add: spent_keys_quiet)
    with Cons show ?case using spent_keys_append [of sha "[e]" tr] by simp
  qed simp
  show "every_run P tr" unfolding every_run_def using q(1) by force
qed

definition final_turn :: "stop \<times> turn option + turn_result \<Rightarrow> turn option" where
  "final_turn r = (case r of Inl (_, st) \<Rightarrow> st | Inr res \<Rightarrow> Some (tr_turn res))"

lemma run_agent_turn_start:
  assumes "final_turn (run_agent_turn env messages names params budget max_iters sink) = Some st"
  obtains cu schema sp tr where "prepare_turn env messages names params budget = Inr (cu, schema, sp, tr)"
    "st = end_state (run_loop env sp max_iters (start_turn env messages cu schema sink tr))"
    "list_all is_consult tr" "current_user messages = Some cu"
proof (cases "prepare_turn env messages names params budget")
  case (Inl s)
  with assms show ?thesis by (simp add: run_agent_turn_def final_turn_def)
next
  case (Inr p)
  obtain cu schema sp tr where p: "p = (cu, schema, sp, tr)" by (cases p)
  have "list_all is_consult tr \<and> current_user messages = Some cu"
    using Inr unfolding p prepare_turn_def
    by (auto simp: bindE_Inr_iff Let_def dest!: consented_names_trace split: option.splits if_splits)
  moreover have "st = end_state (run_loop env sp max_iters (start_turn env messages cu schema sink tr))"
    using assms by (auto simp: run_agent_turn_def final_turn_def end_state_def Inr p split: sum.splits)
  ultimately show ?thesis using that Inr p by blast
qed

lemma start_turn_safe:
  assumes "list_all is_consult tr"
  shows "safe_state env (start_turn env messages cu schema sink tr)"
    "within_budget (start_turn env messages cu schema sink tr)"
    "requests (tn_trace (start_turn env messages cu schema sink tr)) = 0"
  using consult_trace_plain [OF assms]
  by (simp_all add: safe_state_def start_turn_def within_budget_def requests_def)

lemma run_agent_turn_safe:
  assumes "final_turn (run_agent_turn env messages names params budget max_iters sink) = Some st"
  shows "safe_state env st \<and> within_budget st \<and> requests (tn_trace st) \<le> Suc max_iters"
proof -
  from assms obtain cu schema sp tr where s: "list_all is_consult tr"
    "st = end_state (run_loop env sp max_iters (start_turn env messages cu schema sink tr))"
    by (rule run_agent_turn_start)
  note start = start_turn_safe [OF s(1), of env messages cu schema sink]
  show ?thesis using run_loop_effect [OF start(1,2), of sp max_iters] start(3) unfolding s(2) by simp
qed

section \<open>A concrete turn\<close>

definition demo_args :: "(string \<times> json) list" where
  "demo_args = [(''text'', JStr ''tea'')]"

definition demo_approval :: string where
  "demo_approval = run_key id ''remember_memory'' demo_args"

definition demo_call :: message where
  "demo_call = [(''id'', JStr ''c1''), (''type'', JStr ''function''),
     (''function'', JObj [(''name'', JStr ''remember_memory''), (''arguments'', JStr ''{}'')])]"

definition demo_reply :: "string \<Rightarrow> message list \<Rightarrow> model_reply" where
  "demo_reply s calls = \<lparr>mr_content = s, mr_calls = calls, mr_items = [], mr_incomplete = False,
     mr_reason = None, mr_usage = None\<rparr>"

definition demo_env :: turn_env where
  "demo_env =
     \<lparr>te_sha = id, te_loads = (\<lambda>s. Inr (JObj demo_args)), te_scope = ''turn'', te_tools_on = True,
      te_still = (\<lambda>tr. True), te_tool_allowed = (\<lambda>n. True), te_require = (\<lambda>tr n c. None),
      te_registry = (\<lambda>tr. \<lparr>rg_tools = [], rg_allowlist = None\<rparr>), te_defs = (\<lambda>tr. []), te_consent = None,
      te_model = (\<lambda>tr ms sc. Answer (if requests tr \<le> 1 then demo_reply [] [demo_call] else demo_reply ''Noted.'' [])),
      te_handle = (\<lambda>tr n a. Gave JNull), te_extra = (\<lambda>tr n a. Gave (JStr ''saved'')),
      te_handlers = [''remember_memory''],
      te_extra_tools = [function_schema ''remember_memory'' ''Save a fact'' (JObj [])],
      te_ctx = \<lparr>tc_scopes = {}, tc_approvals = {}, tc_hosts = {}, tc_aliases = [], tc_untrusted = True,
                tc_invocations = {demo_approval}\<rparr>,
      te_policy = PolicyTainted, te_retain = False\<rparr>"

definition demo_messages :: "message list" where
  "demo_messages = [[(''role'', JStr ''system''), (''content'', JStr ''Be kind.'')],
                    [(''role'', JStr ''user''), (''content'', JStr ''I like tea'')]]"

definition demo_agent_run :: "stop \<times> turn option + turn_result" where
  "demo_agent_run = run_agent_turn demo_env demo_messages [] [] (Some 100000) 4 None"

definition event_kind :: "turn_event \<Rightarrow> string" where
  "event_kind e = (case e of Asked ms sc \<Rightarrow> ''asked'' | Consulted n b \<Rightarrow> ''consulted'' | Checked \<Rightarrow> ''checked''
     | Ran n a s src \<Rightarrow> ''ran'' | Returned n \<Rightarrow> ''returned'')"

definition run_facts :: "turn_event \<Rightarrow> (string \<times> message \<times> bool \<times> approval_source option) option" where
  "run_facts e = (case e of
     Ran n a s src \<Rightarrow> Some (n, a, requires_invocation_approval s PolicyTainted True, src) | _ \<Rightarrow> None)"

text \<open>The turn asks, runs the approved write and asks again.\<close>

lemma demo_trace:
  "map_option (\<lambda>st. (map event_kind (tn_trace st), map run_facts (tn_trace st))) (final_turn demo_agent_run)
     = Some ([''asked'', ''checked'', ''ran'', ''returned'', ''asked''],
             [None, None, Some (''remember_memory'', demo_args, True, Some ByInvocation), None, None])"
  by code_simp

lemma demo_trace_obtain:
  obtains st ms1 sc1 s m ms2 sc2
  where "final_turn demo_agent_run = Some st"
    "tn_trace st = [Asked ms1 sc1, Checked] @ Ran ''remember_memory'' demo_args s (Some ByInvocation) # [Returned m, Asked ms2 sc2]"
    "requires_invocation_approval s PolicyTainted True"
proof -
  from demo_trace obtain st where st: "final_turn demo_agent_run = Some st"
    and kinds: "map event_kind (tn_trace st) = [''asked'', ''checked'', ''ran'', ''returned'', ''asked'']"
    and facts: "map run_facts (tn_trace st)
      = [None, None, Some (''remember_memory'', demo_args, True, Some ByInvocation), None, None]" by auto
  have k: "(event_kind e = ''asked'') = (\<exists>ms sc. e = Asked ms sc)" "(event_kind e = ''checked'') = (e = Checked)"
    "(event_kind e = ''ran'') = (\<exists>n a s src. e = Ran n a s src)" "(event_kind e = ''returned'') = (\<exists>m. e = Returned m)" for e
    by (cases e; simp add: event_kind_def)+
  from kinds obtain ms1 sc1 n a s src m ms2 sc2
    where tr: "tn_trace st = [Asked ms1 sc1, Checked, Ran n a s src, Returned m, Asked ms2 sc2]"
    by (auto simp: map_eq_Cons_conv k)
  with facts st that show ?thesis by (simp add: run_facts_def)
qed

section \<open>The promises\<close>

text \<open>C23: An approval of an exact call is used at most once in a turn: the keys that runs were allowed by
  are all different, and each is one of the approvals the turn was given.\<close>

theorem approvals_are_single_use:
  assumes "final_turn (run_agent_turn env messages names params budget max_iters sink) = Some st"
  shows "distinct (spent_keys (te_sha env) (tn_trace st))
    \<and> set (spent_keys (te_sha env) (tn_trace st)) \<subseteq> tc_invocations (te_ctx env)"
  using run_agent_turn_safe [OF assms] by (simp add: safe_state_def)

lemma approvals_are_single_use_witness:
  "\<exists>st. final_turn demo_agent_run = Some st \<and> spent_keys id (tn_trace st) = [demo_approval] \<and> set (spent_keys id (tn_trace st)) \<subseteq> {demo_approval}"
proof -
  obtain st ms1 sc1 s m ms2 sc2 where st: "final_turn demo_agent_run = Some st"
    "tn_trace st = [Asked ms1 sc1, Checked] @ Ran ''remember_memory'' demo_args s (Some ByInvocation) # [Returned m, Asked ms2 sc2]"
    by (rule demo_trace_obtain)
  have env: "te_sha demo_env = id" "tc_invocations (te_ctx demo_env) = {demo_approval}" by (simp_all add: demo_env_def)
  have "spent_keys id (tn_trace st) = [demo_approval]" by (simp add: st(2) demo_approval_def)
  with approvals_are_single_use [OF st(1) [unfolded demo_agent_run_def], unfolded env] st(1) show ?thesis by blast
qed





text \<open>C26: A turn is bounded whatever the model asks for: at most eight tool runs, and at most one model request
  more than its iterations.\<close>

theorem turn_is_bounded:
  assumes "final_turn (run_agent_turn env messages names params budget max_iters sink) = Some st"
  shows "runs (tn_trace st) \<le> MAX_TOOL_CALLS \<and> requests (tn_trace st) \<le> max_iters + 1"
  using run_agent_turn_safe [OF assms] by (simp add: within_budget_def)

lemma turn_is_bounded_witness:
  "\<exists>st. final_turn demo_agent_run = Some st \<and> requests (tn_trace st) = 2 \<and> runs (tn_trace st) \<le> MAX_TOOL_CALLS"
proof -
  obtain st ms1 sc1 s m ms2 sc2 where st: "final_turn demo_agent_run = Some st"
    "tn_trace st = [Asked ms1 sc1, Checked] @ Ran ''remember_memory'' demo_args s (Some ByInvocation) # [Returned m, Asked ms2 sc2]"
    by (rule demo_trace_obtain)
  have "requests (tn_trace st) = 2" by (simp add: st(2) requests_def asked_def)
  with turn_is_bounded [OF st(1) [unfolded demo_agent_run_def]] st(1) show ?thesis by blast
qed

lemma start_turn_talking:
  assumes "has_role ''user'' u" "list_all is_consult tr"
  shows "talking sp (start_turn env (pre @ [u]) (length pre) schema sink tr)"
  using assms(1) consult_trace_plain(2) [OF assms(2)] by (simp add: talking_def start_turn_def well_formed_def)



section \<open>What an approval names\<close>

text \<open>The key of an approval names the tool and its arguments exactly: two calls share a key only when they
  are the same tool with the same arguments up to the order of object keys -- given a digest that tells the two
  argument texts apart and contains no zero byte, as SHA-256 in hexadecimal does.\<close>

theorem approval_names_the_call:
  assumes "json_ok (JObj a)" "json_ok (JObj b)" "NUL \<notin> set (arguments_digest sha (Some (JObj a)))"
    "NUL \<notin> set (arguments_digest sha (Some (JObj b)))"
    and "sha (canonical_arguments (Some (JObj a))) = sha (canonical_arguments (Some (JObj b)))
      \<longrightarrow> canonical_arguments (Some (JObj a)) = canonical_arguments (Some (JObj b))"
  shows "approval_key t (arguments_digest sha (Some (JObj a))) = approval_key u (arguments_digest sha (Some (JObj b)))
    \<longleftrightarrow> t = u \<and> sort_keys (JObj a) = sort_keys (JObj b)"
  using assms canonical_arguments_iff [OF assms(1,2)]
  by (auto simp: approval_key_inj arguments_digest_def)

lemma approval_names_the_call_witness:
  "approval_key ''send'' (arguments_digest id (Some (JObj [(''to'', JStr ''a''), (''n'', JInt 1)])))
     = approval_key ''send'' (arguments_digest id (Some (JObj [(''n'', JInt 1), (''to'', JStr ''a'')])))
   \<and> approval_key ''send'' (arguments_digest id (Some (JObj [(''n'', JInt 1)])))
     \<noteq> approval_key ''send'' (arguments_digest id (Some (JObj [(''n'', JStr ''1'')])))"
proof -
  have ok: "json_ok (JObj [(''to'', JStr ''a''), (''n'', JInt 1)])" "json_ok (JObj [(''n'', JInt 1), (''to'', JStr ''a'')])"
    "json_ok (JObj [(''n'', JInt 1)])" "json_ok (JObj [(''n'', JStr ''1'')])" by code_simp+
  have nul: "NUL \<notin> set (arguments_digest id (Some (JObj [(''to'', JStr ''a''), (''n'', JInt 1)])))"
    "NUL \<notin> set (arguments_digest id (Some (JObj [(''n'', JInt 1), (''to'', JStr ''a'')])))"
    "NUL \<notin> set (arguments_digest id (Some (JObj [(''n'', JInt 1)])))"
    "NUL \<notin> set (arguments_digest id (Some (JObj [(''n'', JStr ''1'')])))" by code_simp+
  have keys: "sort_keys (JObj [(''to'', JStr ''a''), (''n'', JInt 1)]) = sort_keys (JObj [(''n'', JInt 1), (''to'', JStr ''a'')])"
    "sort_keys (JObj [(''n'', JInt 1)]) \<noteq> sort_keys (JObj [(''n'', JStr ''1'')])" by code_simp+
  show ?thesis
    using approval_names_the_call [OF ok(1,2) nul(1,2)] approval_names_the_call [OF ok(3,4) nul(3,4)] keys by simp
qed

end
