(* ===== verification/Library_Chunking.thy ===== *)
theory Library_Chunking
  imports Json
begin

text \<open>
  \<open>library/chunking.py\<close>: the heading-aware splitter of Markdown for retrieval. A document is cut
  into paragraphs, paragraphs are packed into spans of at most \<open>max_chars\<close> characters (a longer one
  is wrapped hard), and each span becomes a chunk that repeats the tail of the one before. Strings
  hold code points below 256.
\<close>

section \<open>Lines\<close>

text \<open>\<open>str.splitlines(keepends=True)\<close>.\<close>

definition line_break :: "char \<Rightarrow> bool" where
  "line_break c \<longleftrightarrow> (let n = char_code c in 10 \<le> n \<and> n \<le> 13 \<or> 28 \<le> n \<and> n \<le> 30 \<or> n = 133)"

fun line_length :: "string \<Rightarrow> nat" where
  "line_length [] = 0"
| "line_length [c] = 1"
| "line_length (c # d # s) =
     (if char_code c = 13 \<and> char_code d = 10 then 2
      else if line_break c then 1 else Suc (line_length (d # s)))"

lemma line_length_bounds: "s \<noteq> [] \<Longrightarrow> 0 < line_length s \<and> line_length s \<le> length s"
  by (induction s rule: line_length.induct) auto

function split_lines :: "string \<Rightarrow> string list" where
  "split_lines s = (if s = [] then [] else take (line_length s) s # split_lines (drop (line_length s) s))"
  by auto

termination
  by (relation "measure length") (use line_length_bounds in auto)

declare split_lines.simps [simp del]

lemma concat_split_lines: "concat (split_lines s) = s"
  by (induction s rule: split_lines.induct) (simp add: split_lines.simps)

lemma split_lines_nonempty: "l \<in> set (split_lines s) \<Longrightarrow> l \<noteq> []"
proof (induction s rule: split_lines.induct)
  case (1 s)
  show ?case
  proof (cases "s = []")
    case False
    with 1 line_length_bounds [of s] show ?thesis by (auto simp: split_lines.simps [of s])
  qed (use 1 in \<open>simp add: split_lines.simps\<close>)
qed

section \<open>Paragraphs\<close>

type_synonym span = "nat \<times> nat"

record para_state =
  ps_spans :: "span list"
  ps_start :: "nat option"
  ps_pos :: nat

definition para_line :: "para_state \<Rightarrow> string \<Rightarrow> para_state" where
  "para_line st line =
     (let st1 = (if strip line = []
                 then (case ps_start st of
                         Some b \<Rightarrow> st\<lparr>ps_spans := ps_spans st @ [(b, ps_pos st)], ps_start := None\<rparr>
                       | None \<Rightarrow> st)
                 else (if ps_start st = None then st\<lparr>ps_start := Some (ps_pos st)\<rparr> else st))
      in st1\<lparr>ps_pos := ps_pos st + length line\<rparr>)"

definition paragraph_spans :: "string \<Rightarrow> span list" where
  "paragraph_spans text =
     (let st = foldl para_line \<lparr>ps_spans = [], ps_start = None, ps_pos = 0\<rparr> (split_lines text) in
      case ps_start st of Some b \<Rightarrow> ps_spans st @ [(b, ps_pos st)] | None \<Rightarrow> ps_spans st)"

definition slice :: "string \<Rightarrow> nat \<Rightarrow> nat \<Rightarrow> string" where
  "slice text b e = take (e - b) (drop b text)"

definition heading_of :: "string \<Rightarrow> string option" where
  "heading_of segment =
     (let s = strip segment in
      if s \<noteq> [] \<and> hd s = CHR ''#''
      then (let t = strip (dropWhile (\<lambda>c. c = CHR ''#'') s) in if t = [] then None else Some t)
      else None)"

section \<open>Packing\<close>

type_synonym headed_span = "nat \<times> nat \<times> string option"

function hard_wrap :: "nat \<Rightarrow> nat \<Rightarrow> nat \<Rightarrow> string option \<Rightarrow> headed_span list" where
  "hard_wrap m pos e h =
     (if pos < e \<and> 0 < m then (pos, min (pos + m) e, h) # hard_wrap m (min (pos + m) e) e h else [])"
  by auto

termination by (relation "measure (\<lambda>(m, pos, e, h). e - pos)") auto

declare hard_wrap.simps [simp del]

record pack_state =
  pk_spans :: "headed_span list"
  pk_heading :: "string option"
  pk_cur :: "headed_span option"

definition flush_pack :: "pack_state \<Rightarrow> pack_state" where
  "flush_pack st = st\<lparr>pk_spans := pk_spans st @ (case pk_cur st of Some sp \<Rightarrow> [sp] | None \<Rightarrow> []), pk_cur := None\<rparr>"

definition pack_paragraph :: "string \<Rightarrow> nat \<Rightarrow> pack_state \<Rightarrow> span \<Rightarrow> pack_state" where
  "pack_paragraph text m st0 sp =
     (let (s, e) = sp;
          st = (case heading_of (slice text s e) of Some h \<Rightarrow> st0\<lparr>pk_heading := Some h\<rparr> | None \<Rightarrow> st0);
          fresh = Some (s, e, pk_heading st)
      in if m < e - s
         then (let st1 = flush_pack st in st1\<lparr>pk_spans := pk_spans st1 @ hard_wrap m s e (pk_heading st)\<rparr>)
         else (case pk_cur st of
             None \<Rightarrow> st\<lparr>pk_cur := fresh\<rparr>
           | Some (cs, ce, ch) \<Rightarrow>
               if e - cs \<le> m then st\<lparr>pk_cur := Some (cs, e, ch)\<rparr>
               else (flush_pack st)\<lparr>pk_cur := fresh\<rparr>))"

definition primary_spans :: "string \<Rightarrow> nat \<Rightarrow> headed_span list" where
  "primary_spans text m =
     pk_spans (flush_pack (foldl (pack_paragraph text m) \<lparr>pk_spans = [], pk_heading = None, pk_cur = None\<rparr>
        (paragraph_spans text)))"

section \<open>Chunks\<close>

record chunk =
  ck_index :: nat
  ck_text :: string
  ck_start :: nat
  ck_end :: nat
  ck_heading :: "string option"

text \<open>\<open>previous[-overlap:]\<close>, the separator and the primary text.\<close>

definition last_chars :: "nat \<Rightarrow> string \<Rightarrow> string" where
  "last_chars n s = drop (length s - n) s"

definition with_overlap :: "nat \<Rightarrow> string \<Rightarrow> string \<Rightarrow> string" where
  "with_overlap n prev primary =
     (let prefix = (if 0 < n \<and> prev \<noteq> [] then last_chars n prev else []) in
      if prefix = [] then primary
      else prefix @ (if last prefix = char_of (10::nat) then [] else [char_of (10::nat)]) @ primary)"

definition emit_chunk :: "string \<Rightarrow> nat \<Rightarrow> chunk list \<times> string \<Rightarrow> headed_span \<Rightarrow> chunk list \<times> string" where
  "emit_chunk text n acc sp =
     (let (chunks, prev) = acc; (s, e, h) = sp; primary = strip (slice text s e) in
      if primary = [] then acc
      else (chunks @ [\<lparr>ck_index = length chunks, ck_text = with_overlap n prev primary,
                        ck_start = s, ck_end = e, ck_heading = h\<rparr>], primary))"

definition chunk_markdown :: "string \<Rightarrow> int \<Rightarrow> int \<Rightarrow> chunk list" where
  "chunk_markdown text max_chars overlap =
     (if strip text = [] then []
      else (let m = max 1 max_chars; n = max 0 (min overlap (m - 1)) in
        fst (foldl (emit_chunk text (nat n)) ([], []) (primary_spans text (nat m)))))"

section \<open>Spans in order\<close>

text \<open>Non-empty spans, one after the other, between two positions.\<close>

fun chain :: "nat \<Rightarrow> span list \<Rightarrow> nat \<Rightarrow> bool" where
  "chain lo [] hi \<longleftrightarrow> lo \<le> hi"
| "chain lo ((s, e) # xs) hi \<longleftrightarrow> lo \<le> s \<and> s < e \<and> chain e xs hi"

lemma chain_append: "chain lo (xs @ ys) hi \<longleftrightarrow> (\<exists>mid. chain lo xs mid \<and> chain mid ys hi)"
proof (induction lo xs hi rule: chain.induct)
  case (1 lo hi)
  have "\<exists>mid\<ge>lo. chain mid ys hi" if "chain lo ys hi" using that by blast
  moreover have "chain lo ys hi" if "lo \<le> mid" "chain mid ys hi" for mid
    using that by (cases ys) auto
  ultimately show ?case by auto
qed auto

lemma chain_le: "chain lo xs hi \<Longrightarrow> lo \<le> hi"
  by (induction lo xs hi rule: chain.induct) auto

lemma chain_mono: "chain lo xs hi \<Longrightarrow> hi \<le> hi' \<Longrightarrow> chain lo xs hi'"
  by (induction lo xs hi rule: chain.induct) auto

lemma chain_snoc: "chain lo (xs @ [(s, e)]) hi \<longleftrightarrow> chain lo xs s \<and> s < e \<and> e \<le> hi"
  using chain_mono by (auto simp: chain_append)

lemma chain_mem: "chain lo xs hi \<Longrightarrow> (s, e) \<in> set xs \<Longrightarrow> lo \<le> s \<and> s < e \<and> e \<le> hi"
  by (induction lo xs hi rule: chain.induct) (auto dest: chain_le)

text \<open>Of a chain, no two spans overlap, and a later one is further right.\<close>

lemma chain_ordered:
  assumes "chain lo xs hi" "i < j" "j < length xs"
  shows "snd (xs ! i) \<le> fst (xs ! j)"
proof -
  have "xs = take j xs @ xs ! j # drop (Suc j) xs" using assms(3) by (simp add: id_take_nth_drop)
  then have "chain lo (take j xs @ [xs ! j] @ drop (Suc j) xs) hi" using assms(1) by simp
  then obtain mid where "chain lo (take j xs) mid" "mid \<le> fst (xs ! j)"
    by (cases "xs ! j") (auto simp: chain_append)
  moreover have "xs ! i \<in> set (take j xs)" using assms(2,3) by (auto simp: in_set_conv_nth intro!: exI [of _ i])
  ultimately show ?thesis using chain_mem [of lo "take j xs" mid "fst (xs ! i)" "snd (xs ! i)"] by auto
qed

definition covers :: "span list \<Rightarrow> nat \<Rightarrow> bool" where
  "covers xs p \<longleftrightarrow> (\<exists>(s, e) \<in> set xs. s \<le> p \<and> p < e)"

lemma covers_simps [simp]:
  "covers [] p \<longleftrightarrow> False" "covers ((s, e) # xs) p \<longleftrightarrow> s \<le> p \<and> p < e \<or> covers xs p"
  "covers (xs @ ys) p \<longleftrightarrow> covers xs p \<or> covers ys p"
  by (auto simp: covers_def)


section \<open>The paragraphs\<close>

lemma strip_Nil_iff: "strip s = [] \<longleftrightarrow> (\<forall>c \<in> set s. is_space c)"
proof -
  have "set s = set (takeWhile is_space s) \<union> set (dropWhile is_space s)"
    by (metis set_append takeWhile_dropWhile_id)
  then show ?thesis by (auto simp: strip_def dest: set_takeWhileD)
qed

definition para_inv :: "string \<Rightarrow> para_state \<Rightarrow> bool" where
  "para_inv done st \<longleftrightarrow>
     ps_pos st = length done
     \<and> chain 0 (ps_spans st) (case ps_start st of Some b \<Rightarrow> b | None \<Rightarrow> length done)
     \<and> (\<forall>b. ps_start st = Some b \<longrightarrow> b < length done)
     \<and> (\<forall>p < length done. \<not> is_space (done ! p) \<longrightarrow>
          covers (ps_spans st) p \<or> (\<exists>b. ps_start st = Some b \<and> b \<le> p))"

lemma para_line_inv:
  assumes "para_inv done st" "line \<noteq> []"
  shows "para_inv (done @ line) (para_line st line)"
proof (cases "strip line = []")
  case True
  have blank: "is_space ((done @ line) ! p)" if "length done \<le> p" "p < length (done @ line)" for p
    using True that by (auto simp: strip_Nil_iff nth_append)
  show ?thesis
  proof (cases "ps_start st")
    case None
    with assms True blank show ?thesis
      by (auto simp: para_inv_def para_line_def nth_append not_less elim: chain_mono)
  next
    case (Some b)
    with assms(1) have "chain 0 (ps_spans st) b" "b < length done" "ps_pos st = length done"
      by (auto simp: para_inv_def)
    then have c: "chain 0 (ps_spans st @ [(b, ps_pos st)]) (length (done @ line))"
      by (simp add: chain_snoc)
    have "covers (ps_spans st @ [(b, ps_pos st)]) p" if "p < length (done @ line)" "\<not> is_space ((done @ line) ! p)" for p
    proof (cases "p < length done")
      case True
      with that assms(1) Some show ?thesis by (auto simp: para_inv_def nth_append)
    next
      case False
      with that blank [of p] show ?thesis by simp
    qed
    with c Some True assms(1) show ?thesis by (auto simp: para_inv_def para_line_def)
  qed
next
  case False
  show ?thesis
  proof (cases "ps_start st")
    case None
    with assms False show ?thesis by (auto simp: para_inv_def para_line_def nth_append)
  next
    case (Some b)
    with assms False show ?thesis by (auto simp: para_inv_def para_line_def nth_append)
  qed
qed

lemma para_lines_inv:
  "para_inv done st \<Longrightarrow> [] \<notin> set lines \<Longrightarrow> para_inv (done @ concat lines) (foldl para_line st lines)"
proof (induction lines arbitrary: "done" st)
  case (Cons l ls)
  then have "para_inv (done @ l) (para_line st l)" by (intro para_line_inv) auto
  from Cons.IH [OF this] Cons.prems show ?case by simp
qed simp

lemma paragraph_spans_ok:
  "chain 0 (paragraph_spans doc) (length doc)"
  "p < length doc \<Longrightarrow> \<not> is_space (doc ! p) \<Longrightarrow> covers (paragraph_spans doc) p"
proof -
  define st where "st = foldl para_line \<lparr>ps_spans = [], ps_start = None, ps_pos = 0\<rparr> (split_lines doc)"
  have "para_inv ([] @ concat (split_lines doc)) st"
    unfolding st_def
    by (rule para_lines_inv) (auto simp: para_inv_def dest: split_lines_nonempty)
  then have inv: "para_inv doc st" by (simp add: concat_split_lines)
  have eq: "paragraph_spans doc = (case ps_start st of Some b \<Rightarrow> ps_spans st @ [(b, ps_pos st)] | None \<Rightarrow> ps_spans st)"
    unfolding paragraph_spans_def st_def Let_def ..
  show "chain 0 (paragraph_spans doc) (length doc)"
    using inv by (auto simp: eq para_inv_def chain_snoc split: option.splits)
  show "covers (paragraph_spans doc) p" if "p < length doc" "\<not> is_space (doc ! p)"
    using inv that by (auto simp: eq para_inv_def split: option.splits)
qed


section \<open>The packing\<close>

abbreviation sp_of :: "headed_span \<Rightarrow> span" where
  "sp_of x \<equiv> (fst x, fst (snd x))"

abbreviation spans_of :: "headed_span list \<Rightarrow> span list" where
  "spans_of xs \<equiv> map sp_of xs"

definition short :: "nat \<Rightarrow> headed_span list \<Rightarrow> bool" where
  "short m xs \<longleftrightarrow> (\<forall>(s, e, h) \<in> set xs. e \<le> s + m)"

lemma short_simps [simp]:
  "short m []" "short m ((s, e, h) # xs) \<longleftrightarrow> e \<le> s + m \<and> short m xs" "short m (xs @ ys) \<longleftrightarrow> short m xs \<and> short m ys"
  by (auto simp: short_def case_prod_beta)

lemma hard_wrap_ok:
  assumes "0 < m" "pos \<le> e"
  shows "chain pos (spans_of (hard_wrap m pos e h)) e" "short m (hard_wrap m pos e h)"
    "covers (spans_of (hard_wrap m pos e h)) p \<longleftrightarrow> pos \<le> p \<and> p < e"
  using assms
proof (induction m pos e h rule: hard_wrap.induct)
  case (1 m pos e h)
  {
    case 1
    then show ?case using "1.IH" (1) by (auto simp: hard_wrap.simps [of m pos])
  next
    case 2
    then show ?case using "1.IH" (2) by (auto simp: hard_wrap.simps [of m pos])
  next
    case 3
    then show ?case using "1.IH" (3) by (auto simp: hard_wrap.simps [of m pos])
  }
qed

definition pack_all :: "pack_state \<Rightarrow> headed_span list" where
  "pack_all st = pk_spans st @ (case pk_cur st of Some sp \<Rightarrow> [sp] | None \<Rightarrow> [])"

lemma flush_pack_simps [simp]:
  "pk_spans (flush_pack st) = pack_all st" "pk_cur (flush_pack st) = None" "pk_heading (flush_pack st) = pk_heading st"
  by (simp_all add: flush_pack_def pack_all_def)

lemma pack_paragraph_ok:
  fixes doc
  assumes "chain 0 (spans_of (pack_all st)) hi" "short m (pack_all st)" "hi \<le> s" "s < e" "0 < m"
  defines "st' \<equiv> pack_paragraph doc m st (s, e)"
  shows "chain 0 (spans_of (pack_all st')) e \<and> short m (pack_all st')
    \<and> (\<forall>p. covers (spans_of (pack_all st)) p \<or> s \<le> p \<and> p < e \<longrightarrow> covers (spans_of (pack_all st')) p)"
proof -
  define st1 where "st1 = (case heading_of (slice doc s e) of Some h \<Rightarrow> st\<lparr>pk_heading := Some h\<rparr> | None \<Rightarrow> st)"
  have same: "pk_spans st1 = pk_spans st" "pk_cur st1 = pk_cur st" "pack_all st1 = pack_all st"
    by (simp_all add: st1_def pack_all_def split: option.splits)
  note hw = hard_wrap_ok [OF assms(5), of s e "pk_heading st1"]
  have c: "chain 0 (spans_of (pack_all st)) s" using assms(1,3) by (rule chain_mono)
  show ?thesis
  proof (cases "m < e - s")
    case True
    then have "pack_all st' = pack_all st @ hard_wrap m s e (pk_heading st1)"
      by (simp add: st'_def pack_paragraph_def st1_def [symmetric] pack_all_def [of "_ \<lparr>pk_spans := _\<rparr>"] same)
    with c assms(2,4) hw show ?thesis by (auto simp: chain_append)
  next
    case False
    show ?thesis
    proof (cases "pk_cur st")
      case None
      with False have "pack_all st' = pack_all st @ [(s, e, pk_heading st1)]"
        by (simp add: st'_def pack_paragraph_def st1_def [symmetric] pack_all_def same)
      with c assms(2,4) False show ?thesis by (auto simp: chain_snoc)
    next
      case (Some x)
      obtain cs ce ch where x: "x = (cs, ce, ch)" by (cases x)
      show ?thesis
      proof (cases "e - cs \<le> m")
        case True
        with False Some x have "pack_all st' = pk_spans st @ [(cs, e, ch)]"
          by (simp add: st'_def pack_paragraph_def st1_def [symmetric] pack_all_def same)
        with c assms(2,4) True Some x show ?thesis by (auto simp: chain_snoc pack_all_def)
      next
        case far: False
        with False Some x have "pack_all st' = pack_all st @ [(s, e, pk_heading st1)]"
          by (simp add: st'_def pack_paragraph_def st1_def [symmetric] same)
             (simp add: pack_all_def same)
        with c assms(2,4) False show ?thesis by (auto simp: chain_snoc)
      qed
    qed
  qed
qed

lemma pack_paragraphs_ok:
  fixes doc
  assumes "chain 0 (spans_of (pack_all st)) lo" "short m (pack_all st)" "chain lo ps hi" "0 < m"
  defines "st' \<equiv> foldl (pack_paragraph doc m) st ps"
  shows "chain 0 (spans_of (pack_all st')) hi \<and> short m (pack_all st')
    \<and> (\<forall>p. covers (spans_of (pack_all st)) p \<or> covers ps p \<longrightarrow> covers (spans_of (pack_all st')) p)"
  using assms(1,2,3) unfolding st'_def
proof (induction ps arbitrary: st lo)
  case Nil
  then show ?case by (auto elim: chain_mono)
next
  case (Cons q ps)
  obtain s e where q: "q = (s, e)" by (cases q)
  with Cons.prems have b: "lo \<le> s" "s < e" "chain e ps hi" by simp_all
  note step = pack_paragraph_ok [OF Cons.prems(1,2) b(1,2) assms(4), where doc = doc]
  show ?case
    using Cons.IH [of "pack_paragraph doc m st (s, e)" e] step b(3) by (auto simp: q)
qed

lemma primary_spans_ok:
  assumes "0 < m"
  shows "chain 0 (spans_of (primary_spans doc m)) (length doc)" "short m (primary_spans doc m)"
    "p < length doc \<Longrightarrow> \<not> is_space (doc ! p) \<Longrightarrow> covers (spans_of (primary_spans doc m)) p"
proof -
  define st0 where "st0 = \<lparr>pk_spans = [], pk_heading = None, pk_cur = None\<rparr>"
  have z: "pack_all st0 = []" by (simp add: st0_def pack_all_def)
  have a: "chain 0 (spans_of (pack_all st0)) 0" "short m (pack_all st0)" by (simp_all add: z)
  note ok = pack_paragraphs_ok [OF a paragraph_spans_ok(1) assms, where doc = doc]
  have eq: "primary_spans doc m = pack_all (foldl (pack_paragraph doc m) st0 (paragraph_spans doc))"
    by (simp add: primary_spans_def st0_def)
  show "chain 0 (spans_of (primary_spans doc m)) (length doc)" "short m (primary_spans doc m)"
    using ok by (simp_all add: eq)
  show "covers (spans_of (primary_spans doc m)) p" if "p < length doc" "\<not> is_space (doc ! p)"
    using ok paragraph_spans_ok(2) [OF that] by (simp add: eq)
qed

section \<open>The chunks\<close>

definition chunk_span :: "chunk \<Rightarrow> span" where
  "chunk_span c = (ck_start c, ck_end c)"

text \<open>Chunks, their numbers and their own doc (what follows the overlap).\<close>

definition chunks_of_text :: "string \<Rightarrow> nat \<Rightarrow> chunk list \<Rightarrow> bool" where
  "chunks_of_text doc n cs \<longleftrightarrow> (\<forall>i < length cs. ck_index (cs ! i) = i \<and>
     (\<exists>pre. ck_text (cs ! i) = pre @ strip (slice doc (ck_start (cs ! i)) (ck_end (cs ! i))) \<and> length pre \<le> Suc n))"

lemma with_overlap_shape: "\<exists>pre. with_overlap n prev primary = pre @ primary \<and> length pre \<le> Suc n"
  by (auto simp: with_overlap_def Let_def last_chars_def)

lemma chain_weaken: "chain lo xs hi \<Longrightarrow> lo' \<le> lo \<Longrightarrow> chain lo' xs hi"
  by (cases xs) auto

lemma emit_chunks_ok:
  fixes sps prev
  assumes "chain 0 (map chunk_span cs) lo" "chunks_of_text doc n cs" "\<forall>c \<in> set cs. ck_end c \<le> ck_start c + m"
    and "chain lo (spans_of sps) hi" "short m sps" "\<forall>(s, e, h) \<in> set sps. e \<le> length doc"
  defines "cs' \<equiv> fst (foldl (emit_chunk doc n) (cs, prev) sps)"
  shows "chain 0 (map chunk_span cs') hi \<and> chunks_of_text doc n cs' \<and> (\<forall>c \<in> set cs'. ck_end c \<le> ck_start c + m)
    \<and> (\<forall>p. covers (map chunk_span cs) p \<or> covers (spans_of sps) p \<and> \<not> is_space (doc ! p) \<longrightarrow> covers (map chunk_span cs') p)"
  using assms(1-6) unfolding cs'_def
proof (induction sps arbitrary: cs prev lo)
  case Nil
  then show ?case by (auto elim: chain_mono)
next
  case (Cons x sps)
  obtain s e h where x: "x = (s, e, h)" by (cases x)
  with Cons.prems have b: "lo \<le> s" "s < e" "chain e (spans_of sps) hi" "e \<le> s + m" "short m sps"
    "\<forall>(s, e, h) \<in> set sps. e \<le> length doc" "e \<le> length doc" by simp_all
  define primary where "primary = strip (slice doc s e)"
  show ?case
  proof (cases "primary = []")
    case True
    have blank: "is_space (doc ! p)" if "s \<le> p" "p < e" for p
    proof -
      have "doc ! p = slice doc s e ! (p - s)" "p - s < length (slice doc s e)"
        using that b(7) by (simp_all add: slice_def)
      then show ?thesis using True nth_mem unfolding primary_def strip_Nil_iff by metis
    qed
    have "lo \<le> e" using b by simp
    then have c: "chain 0 (map chunk_span cs) e" using Cons.prems(1) by (rule chain_mono [rotated])
    have skip: "emit_chunk doc n (cs, prev) x = (cs, prev)"
      using True by (simp add: emit_chunk_def x primary_def)
    from Cons.IH [OF c Cons.prems(2,3) b(3,5,6), of prev] blank show ?thesis
      by (simp only: foldl_Cons skip) (auto simp: x)
  next
    case False
    define c where "c = \<lparr>ck_index = length cs, ck_text = with_overlap n prev primary, ck_start = s, ck_end = e, ck_heading = h\<rparr>"
    have emit: "emit_chunk doc n (cs, prev) x = (cs @ [c], primary)"
      using False by (simp add: emit_chunk_def x primary_def c_def Let_def)
    have cs: "chunk_span c = (s, e)" by (simp add: chunk_span_def c_def)
    have ch: "chain 0 (map chunk_span (cs @ [c])) e"
      using chain_mono [OF Cons.prems(1) b(1)] b(2) unfolding map_append list.map cs by (simp add: chain_snoc)
    have tx: "chunks_of_text doc n (cs @ [c])"
      using Cons.prems(2) with_overlap_shape [of n prev primary]
      by (auto simp: chunks_of_text_def nth_append less_Suc_eq c_def primary_def)
    have sz: "\<forall>c \<in> set (cs @ [c]). ck_end c \<le> ck_start c + m" using Cons.prems(3) b(4) by (simp add: c_def)
    have cov: "covers (map chunk_span (cs @ [c])) p \<longleftrightarrow> covers (map chunk_span cs) p \<or> s \<le> p \<and> p < e" for p
      by (simp add: chunk_span_def c_def)
    from Cons.IH [OF ch tx sz b(3,5,6), of primary] show ?thesis
      by (simp only: foldl_Cons emit) (auto simp: cs x)
  qed
qed

lemma chunk_markdown_ok:
  fixes doc m n
  defines "cs \<equiv> chunk_markdown doc m n"
  shows "chain 0 (map chunk_span cs) (length doc)" "\<forall>c \<in> set cs. ck_end c \<le> ck_start c + nat (max 1 m)"
    "chunks_of_text doc (nat (min n (m - 1))) cs"
    "p < length doc \<Longrightarrow> \<not> is_space (doc ! p) \<Longrightarrow> covers (map chunk_span cs) p"
proof -
  define k where "k = nat (max 1 m)"
  define o' where "o' = nat (max 0 (min n (max 1 m - 1)))"
  have o': "nat (min n (m - 1)) = o'" by (auto simp: o'_def min_def max_def)
  have k: "0 < k" by (simp add: k_def)
  note sp = primary_spans_ok [OF k, where doc = doc]
  have ends: "\<forall>(s, e, h) \<in> set (primary_spans doc k). e \<le> length doc"
    using chain_mem [OF sp(1)] by force
  have i: "chain 0 (map chunk_span []) 0" "chunks_of_text doc o' []" "\<forall>c \<in> set []. ck_end c \<le> ck_start c + k"
    by (simp_all add: chunks_of_text_def)
  note em = emit_chunks_ok [OF i sp(1,2) ends, of "[]"]
  have all: "chain 0 (map chunk_span cs) (length doc) \<and> chunks_of_text doc o' cs
      \<and> (\<forall>c \<in> set cs. ck_end c \<le> ck_start c + k)
      \<and> (\<forall>p. p < length doc \<and> \<not> is_space (doc ! p) \<longrightarrow> covers (map chunk_span cs) p)"
  proof (cases "strip doc = []")
    case True
    then show ?thesis by (auto simp: cs_def chunk_markdown_def chunks_of_text_def strip_Nil_iff)
  next
    case False
    then have "cs = fst (foldl (emit_chunk doc o') ([], []) (primary_spans doc k))"
      by (simp add: cs_def chunk_markdown_def Let_def k_def o'_def)
    with em sp(3) show ?thesis by auto
  qed
  then show "chain 0 (map chunk_span cs) (length doc)" "\<forall>c \<in> set cs. ck_end c \<le> ck_start c + nat (max 1 m)"
    "chunks_of_text doc (nat (min n (m - 1))) cs"
    "p < length doc \<Longrightarrow> \<not> is_space (doc ! p) \<Longrightarrow> covers (map chunk_span cs) p"
    by (auto simp: k_def o')
qed


section \<open>What a retrieval index can rely on\<close>



end
