(* ===== verification/Library_Media.thy ===== *)
theory Library_Media
  imports Library_Chunking Usage_Models
begin

text \<open>
  The audio and video half of \<open>library/chunking.py\<close>: transcript phrases packed into chunks that are
  grounded on their time and speaker, time labels, and the timeline of scene markers. A content of
  the analyzer is its JSON value; a float is its decimal text (exact for the millisecond offsets
  below 2^53 that a float can tell apart).
\<close>

section \<open>Times\<close>

definition whole_dec :: "dec \<Rightarrow> bool" where
  "whole_dec d \<longleftrightarrow> 0 \<le> dc_exp d \<or> dc_coef d mod 10 ^ nat (- dc_exp d) = 0"

definition as_int_ms :: "json \<Rightarrow> int option" where
  "as_int_ms v = (case v of
     JInt n \<Rightarrow> Some n
   | JFloat r \<Rightarrow> (case parse_decimal r of
         Finite neg d \<Rightarrow> if whole_dec d then py_int (JFloat r) else None
       | _ \<Rightarrow> None)
   | _ \<Rightarrow> None)"

definition clock_field :: "nat \<Rightarrow> string" where
  "clock_field n = (if n < 10 then CHR ''0'' # show_nat n else show_nat n)"

definition format_timestamp :: "json \<Rightarrow> string" where
  "format_timestamp v = (case as_int_ms v of
     None \<Rightarrow> []
   | Some ms \<Rightarrow>
       if ms < 0 then []
       else (let seconds = nat ms div 1000; hours = seconds div 3600; rest = seconds mod 3600 in
         if hours \<noteq> 0
         then show_nat hours @ '':'' @ clock_field (rest div 60) @ '':'' @ clock_field (rest mod 60)
         else show_nat (rest div 60) @ '':'' @ clock_field (rest mod 60)))"

section \<open>Phrases\<close>

definition phrase_text :: "(string \<times> json) list \<Rightarrow> string" where
  "phrase_text ph = (case get_or_null ph ''text'' of JStr t \<Rightarrow> t | _ \<Rightarrow> [])"

fun valid_phrase :: "json \<Rightarrow> bool" where
  "valid_phrase (JObj ph) \<longleftrightarrow> strip (phrase_text ph) \<noteq> []"
| "valid_phrase _ \<longleftrightarrow> False"

fun phrase_fields :: "json \<Rightarrow> (string \<times> json) list" where
  "phrase_fields (JObj fs) = fs"
| "phrase_fields _ = []"

definition valid_phrases :: "json \<Rightarrow> (string \<times> json) list list" where
  "valid_phrases v = (case v of JArr vs \<Rightarrow> map phrase_fields (filter valid_phrase vs) | _ \<Rightarrow> [])"

definition phrase_speaker :: "(string \<times> json) list \<Rightarrow> string option" where
  "phrase_speaker ph = (case get_or_null ph ''speaker'' of
     JStr s \<Rightarrow> if strip s \<noteq> [] then Some (strip s) else None
   | _ \<Rightarrow> None)"

record packed =
  pd_text :: string
  pd_start :: "int option"
  pd_end :: "int option"
  pd_speaker :: "string option"

text \<open>The variables of the packing loop; \<open>vp_speakers\<close> is a set held as a list without repeats.\<close>

record voice_pack =
  vp_out :: "packed list"
  vp_texts :: "string list"
  vp_start :: "int option"
  vp_end :: "int option"
  vp_speakers :: "string list"
  vp_length :: nat

definition flush_voice :: "voice_pack \<Rightarrow> voice_pack" where
  "flush_voice st =
     \<lparr>vp_out = vp_out st @ (if vp_texts st = [] then [] else
        [\<lparr>pd_text = join '' '' (vp_texts st), pd_start = vp_start st, pd_end = vp_end st,
          pd_speaker = (case vp_speakers st of [s] \<Rightarrow> Some s | _ \<Rightarrow> None)\<rparr>]),
      vp_texts = [], vp_start = None, vp_end = None, vp_speakers = [], vp_length = 0\<rparr>"

function pieces :: "nat \<Rightarrow> string \<Rightarrow> string list" where
  "pieces m t = (if t = [] \<or> m = 0 then [] else take m t # pieces m (drop m t))"
  by auto

termination by (relation "measure (\<lambda>(m, t). length t)") auto

declare pieces.simps [simp del]

definition pack_phrase :: "nat \<Rightarrow> voice_pack \<Rightarrow> (string \<times> json) list \<Rightarrow> voice_pack" where
  "pack_phrase m st ph =
     (let t = strip (phrase_text ph);
          p_start = as_int_ms (get_or_null ph ''startTimeMs'');
          p_end = as_int_ms (get_or_null ph ''endTimeMs'');
          p_speaker = phrase_speaker ph
      in if t = [] then st
         else if m < length t
         then (let st1 = flush_voice st in
               st1\<lparr>vp_out := vp_out st1 @ map (\<lambda>piece.
                 \<lparr>pd_text = piece, pd_start = p_start, pd_end = p_end, pd_speaker = p_speaker\<rparr>) (pieces m t)\<rparr>)
         else (let st1 = (if vp_texts st \<noteq> [] \<and> m < vp_length st + 1 + length t then flush_voice st else st);
                   fresh = (vp_texts st1 = []) in
               st1\<lparr>vp_start := (if fresh then p_start else vp_start st1),
                   vp_end := (if p_end \<noteq> None then p_end else vp_end st1),
                   vp_texts := vp_texts st1 @ [t],
                   vp_length := vp_length st1 + (if fresh then 0 else 1) + length t,
                   vp_speakers := (case p_speaker of Some s \<Rightarrow> List.insert s (vp_speakers st1)
                                   | None \<Rightarrow> vp_speakers st1)\<rparr>))"

definition no_voice :: voice_pack where
  "no_voice = \<lparr>vp_out = [], vp_texts = [], vp_start = None, vp_end = None, vp_speakers = [], vp_length = 0\<rparr>"

definition pack_phrases :: "nat \<Rightarrow> (string \<times> json) list list \<Rightarrow> packed list" where
  "pack_phrases m phrases = vp_out (flush_voice (foldl (pack_phrase m) no_voice phrases))"

section \<open>Chunks of audio and video\<close>

text \<open>\<open>av_place\<close> is the place in the Markdown of a segment without phrases.\<close>

record av_chunk =
  av_index :: nat
  av_text :: string
  av_start :: "int option"
  av_end :: "int option"
  av_speaker :: "string option"
  av_segment :: "nat option"
  av_place :: "(nat \<times> nat \<times> string option) option"

definition emit_av :: "nat \<Rightarrow> nat option \<Rightarrow> av_chunk list \<times> string \<Rightarrow> packed \<Rightarrow> av_chunk list \<times> string" where
  "emit_av n segment acc p =
     (let (chunks, prev) = acc; primary = strip (pd_text p) in
      if primary = [] then acc
      else (chunks @ [\<lparr>av_index = length chunks, av_text = with_overlap n prev primary, av_start = pd_start p,
              av_end = pd_end p, av_speaker = pd_speaker p, av_segment = segment, av_place = None\<rparr>], primary))"

definition markdown_av :: "nat \<Rightarrow> nat option \<Rightarrow> int option \<Rightarrow> int option \<Rightarrow> chunk \<Rightarrow> av_chunk" where
  "markdown_av i segment b e c =
     \<lparr>av_index = i, av_text = ck_text c, av_start = b, av_end = e, av_speaker = None, av_segment = segment,
      av_place = Some (ck_start c, ck_end c, ck_heading c)\<rparr>"

definition av_content :: "int \<Rightarrow> int \<Rightarrow> bool \<Rightarrow> av_chunk list \<Rightarrow> nat \<times> json \<Rightarrow> av_chunk list" where
  "av_content m n multi chunks entry =
     (case snd entry of
        JObj fs \<Rightarrow>
          (let segment = (if multi then Some (fst entry) else None);
               phrases = valid_phrases (get_or_null fs ''transcriptPhrases'')
           in if phrases \<noteq> []
              then fst (foldl (emit_av (nat n) segment) (chunks, []) (pack_phrases (nat m) phrases))
              else (case get_or_null fs ''markdown'' of
                  JStr md \<Rightarrow>
                    if strip md = [] then chunks
                    else (let b = as_int_ms (get_or_null fs ''startTimeMs'');
                              e = as_int_ms (get_or_null fs ''endTimeMs'') in
                      chunks @ map (\<lambda>(i, c). markdown_av i segment b e c)
                                 (enumerate (length chunks) (chunk_markdown md m n)))
                | _ \<Rightarrow> chunks))
      | _ \<Rightarrow> chunks)"

definition chunk_audiovisual :: "json list \<Rightarrow> int \<Rightarrow> int \<Rightarrow> av_chunk list" where
  "chunk_audiovisual contents max_chars overlap =
     (if contents = [] then []
      else (let m = max 1 max_chars; n = max 0 (min overlap (m - 1)) in
        foldl (av_content m n (1 < length contents)) [] (enumerate 0 contents)))"

section \<open>The timeline\<close>

definition MAX_MARKERS_PER_SEGMENT :: nat where "MAX_MARKERS_PER_SEGMENT = 2000"

definition marker_times :: "json \<Rightarrow> int list" where
  "marker_times v = (case v of
     JArr vs \<Rightarrow> take MAX_MARKERS_PER_SEGMENT (sorted_list_of_set (set
        (filter (\<lambda>t. 0 \<le> t) (concat (map (\<lambda>x. case as_int_ms x of Some t \<Rightarrow> [t] | None \<Rightarrow> []) vs)))))
   | _ \<Rightarrow> [])"

record media_segment =
  ms_index :: nat
  ms_start :: "int option"
  ms_end :: "int option"
  ms_keyframes :: "int list"
  ms_shots :: "int list"

definition later :: "int option \<Rightarrow> int option \<Rightarrow> int option" where
  "later duration candidate = (case candidate of
     None \<Rightarrow> duration
   | Some c \<Rightarrow> (case duration of None \<Rightarrow> Some c | Some d \<Rightarrow> if d < c then Some c else Some d))"

definition last_of :: "int list \<Rightarrow> int option" where
  "last_of xs = (if xs = [] then None else Some (last xs))"

definition segment_of :: "nat \<Rightarrow> (string \<times> json) list \<Rightarrow> media_segment" where
  "segment_of i fs =
     \<lparr>ms_index = i, ms_start = as_int_ms (get_or_null fs ''startTimeMs''),
      ms_end = as_int_ms (get_or_null fs ''endTimeMs''),
      ms_keyframes = marker_times (get_or_null fs ''keyFrameTimesMs''),
      ms_shots = marker_times (get_or_null fs ''cameraShotTimesMs'')\<rparr>"

definition candidates :: "media_segment \<Rightarrow> int option list" where
  "candidates s = [ms_end s, ms_start s, last_of (ms_keyframes s), last_of (ms_shots s)]"

definition timeline_step ::
  "int option \<times> media_segment list \<Rightarrow> nat \<times> json \<Rightarrow> int option \<times> media_segment list" where
  "timeline_step acc entry = (case snd entry of
     JObj fs \<Rightarrow>
       (let s = segment_of (fst entry) fs in
        if ms_start s = None \<and> ms_end s = None \<and> ms_keyframes s = [] \<and> ms_shots s = [] then acc
        else (foldl later (fst acc) (candidates s), snd acc @ [s]))
   | _ \<Rightarrow> acc)"

definition media_timeline :: "json list \<Rightarrow> int option \<times> media_segment list" where
  "media_timeline contents = foldl timeline_step (None, []) (enumerate 0 contents)"


section \<open>Time labels\<close>

text \<open>A label read back: minutes and seconds, or hours, minutes and seconds.\<close>

fun clock_char :: "nat \<times> nat \<Rightarrow> char \<Rightarrow> nat \<times> nat" where
  "clock_char (a, n) c = (if c = CHR '':'' then (60 * (a + n), 0) else (a, 10 * n + digit_val c))"

definition read_clock :: "string \<Rightarrow> nat" where
  "read_clock s = (let (a, n) = foldl clock_char (0, 0) s in a + n)"

lemma clock_digits: "list_all is_digit ds \<Longrightarrow> foldl clock_char (a, 0) ds = (a, nat_of_digits ds)"
proof (induction ds rule: rev_induct)
  case (snoc d ds)
  then have "d \<noteq> CHR '':''" by (auto simp: is_digit_def char_code_def)
  with snoc show ?case by simp
qed (simp add: nat_of_digits_def)

lemma clock_show [simp]: "foldl clock_char (a, 0) (show_nat k) = (a, k)"
  by (simp add: clock_digits show_nat_digits)

lemma clock_two [simp]: "foldl clock_char (a, 0) (clock_field k) = (a, k)"
proof -
  have "clock_char (a, 0) (CHR ''0'') = (a, 0)" by (simp add: digit_val_def char_code_def)
  then show ?thesis by (simp add: clock_field_def)
qed

text \<open>A time label names the whole second of its offset: reading it back gives the offset in
  seconds, with hours written only when there are any.\<close>

theorem timestamp_roundtrip:
  "read_clock (format_timestamp (JInt (int ms))) = ms div 1000"
proof -
  define s where "s = ms div 1000"
  have r: "60 * (s mod 3600 div 60) + s mod 3600 mod 60 = s mod 3600" "3600 * (s div 3600) + s mod 3600 = s"
    by (rule mult_div_mod_eq)+
  then have h: "60 * (60 * (s div 3600)) + 60 * (s mod 3600 div 60) + s mod 3600 mod 60 = s" by linarith
  have z: "60 * (s mod 3600 div 60) + s mod 3600 mod 60 = s" if "s div 3600 = 0" using r that by linarith
  show ?thesis
  proof (cases "s div 3600 = 0")
    case True
    with z have "read_clock (show_nat (s mod 3600 div 60) @ '':'' @ clock_field (s mod 3600 mod 60)) = s"
      by (simp only: read_clock_def foldl_append foldl_Cons foldl_Nil clock_show clock_two clock_char.simps Let_def
          prod.case if_True refl add_0)
    with True show ?thesis by (simp only: format_timestamp_def as_int_ms_def json.case option.case Let_def) (simp add: s_def)
  next
    case False
    with h have "read_clock (show_nat (s div 3600) @ '':'' @ clock_field (s mod 3600 div 60) @ '':''
        @ clock_field (s mod 3600 mod 60)) = s"
      by (simp only: read_clock_def foldl_append foldl_Cons foldl_Nil clock_show clock_two clock_char.simps Let_def
          prod.case if_True refl add_0 distrib_left mult.assoc)
    with False show ?thesis by (simp only: format_timestamp_def as_int_ms_def json.case option.case Let_def) (simp add: s_def)
  qed
qed

section \<open>Packing loses no speech\<close>

definition letters :: "string \<Rightarrow> string" where
  "letters s = filter (\<lambda>c. \<not> is_space c) s"

lemma letters_append [simp]: "letters (s @ t) = letters s @ letters t"
  by (simp add: letters_def)

lemma letters_dropWhile: "letters (dropWhile is_space s) = letters s"
  by (induction s) (auto simp: letters_def)

lemma letters_strip [simp]: "letters (strip s) = letters s"
proof -
  have "letters (rev s) = rev (letters s)" for s by (simp add: letters_def rev_filter)
  then show ?thesis by (simp add: strip_def letters_dropWhile)
qed

lemma letters_join [simp]: "letters (join '' '' xs) = letters (concat xs)"
proof -
  have "letters (CHR '' '' # s) = letters s" for s by (simp add: letters_def is_space_def char_code_def)
  then show ?thesis by (induction "'' ''" xs rule: join.induct) simp_all
qed

lemma length_join_snoc:
  "length (join '' '' (xs @ [t])) = length (join '' '' xs) + (if xs = [] then 0 else 1) + length t"
proof (induction "'' ''" xs rule: join.induct)
  case (3 x y xs)
  then show ?case by (cases xs) auto
qed auto

lemma pieces_ok: "0 < m \<Longrightarrow> concat (pieces m t) = t" "p \<in> set (pieces m t) \<Longrightarrow> length p \<le> m"
proof -
  show "concat (pieces m t) = t" if "0 < m" for m
    using that by (induction m t rule: pieces.induct) (simp add: pieces.simps)
  show "length p \<le> m" if "p \<in> set (pieces m t)" for m
    using that
  proof (induction m t rule: pieces.induct)
    case (1 m t)
    then show ?case by (cases "t = [] \<or> m = 0") (auto simp: pieces.simps [of m t])
  qed
qed

definition voice_inv :: "nat \<Rightarrow> string \<Rightarrow> voice_pack \<Rightarrow> bool" where
  "voice_inv m said st \<longleftrightarrow>
     letters (concat (map pd_text (vp_out st)) @ concat (vp_texts st)) = letters said
     \<and> vp_length st = length (join '' '' (vp_texts st)) \<and> vp_length st \<le> m
     \<and> (\<forall>p \<in> set (vp_out st). length (pd_text p) \<le> m)"

lemma flush_voice_inv: "voice_inv m said st \<Longrightarrow> voice_inv m said (flush_voice st)"
  by (auto simp: voice_inv_def flush_voice_def)

lemma pack_phrase_inv:
  assumes "voice_inv m said st" "0 < m"
  shows "voice_inv m (said @ phrase_text ph) (pack_phrase m st ph)"
proof -
  define t where "t = strip (phrase_text ph)"
  have lt: "letters (phrase_text ph) = letters t" by (simp add: t_def)
  show ?thesis
  proof (cases "t = []")
    case True
    with assms lt show ?thesis by (simp add: pack_phrase_def t_def [symmetric] voice_inv_def letters_def)
  next
    case False
    show ?thesis
    proof (cases "m < length t")
      case long: True
      with False flush_voice_inv [OF assms(1)] lt pieces_ok [where m = m] assms(2) show ?thesis
        by (auto simp: pack_phrase_def t_def [symmetric] Let_def voice_inv_def comp_def flush_voice_def)
    next
      case short: False
      define st1 where "st1 = (if vp_texts st \<noteq> [] \<and> m < vp_length st + 1 + length t then flush_voice st else st)"
      have i1: "voice_inv m said st1" using assms(1) flush_voice_inv by (simp add: st1_def)
      have room: "vp_length st1 + (if vp_texts st1 = [] then 0 else 1) + length t \<le> m"
        using short assms(1) by (auto simp: st1_def flush_voice_def voice_inv_def)
      have "voice_inv m (said @ phrase_text ph) (st1\<lparr>vp_start := a, vp_end := b, vp_texts := vp_texts st1 @ [t],
          vp_length := vp_length st1 + (if vp_texts st1 = [] then 0 else 1) + length t, vp_speakers := c\<rparr>)" for a b c
        using i1 room lt by (simp add: voice_inv_def length_join_snoc)
      then show ?thesis
        by (simp only: pack_phrase_def Let_def t_def [symmetric] st1_def [symmetric] False short if_False)
    qed
  qed
qed

lemma pack_phrases_inv:
  "voice_inv m said st \<Longrightarrow> 0 < m \<Longrightarrow> voice_inv m (said @ concat (map phrase_text phs)) (foldl (pack_phrase m) st phs)"
proof (induction phs arbitrary: said st)
  case (Cons ph phs)
  from Cons.IH [OF pack_phrase_inv [OF Cons.prems] Cons.prems(2)] show ?case by simp
qed simp

text \<open>Packing a transcript keeps every non-blank character, in order, and no packed text is longer
  than the limit.\<close>

theorem packing_keeps_speech:
  assumes "0 < m"
  shows "letters (concat (map pd_text (pack_phrases m phrases))) = letters (concat (map phrase_text phrases))
    \<and> (\<forall>p \<in> set (pack_phrases m phrases). length (pd_text p) \<le> m)"
proof -
  have "voice_inv m [] no_voice" by (simp add: voice_inv_def no_voice_def letters_def)
  from flush_voice_inv [OF pack_phrases_inv [OF this assms, of phrases]]
  show ?thesis by (simp add: voice_inv_def pack_phrases_def flush_voice_def)
qed

lemma packing_keeps_speech_witness:
  "letters (concat (map pd_text (pack_phrases 5
      [[(''text'', JStr ''good day'')], [(''text'', JStr ''to'')], [(''text'', JStr ''us'')]]))) = ''gooddaytous''"
  using packing_keeps_speech [of 5 "[[(''text'', JStr ''good day'')], [(''text'', JStr ''to'')], [(''text'', JStr ''us'')]]"]
  by (simp add: phrase_text_def get_or_null_def) code_simp

text \<open>A phrase without a speaker is packed under the speaker of the others.\<close>

lemma unlabelled_phrase_is_attributed:
  "pack_phrases 20 [[(''text'', JStr ''yes''), (''speaker'', JStr ''A'')], [(''text'', JStr ''no'')]]
     = [\<lparr>pd_text = ''yes no'', pd_start = None, pd_end = None, pd_speaker = Some ''A''\<rparr>]"
  by code_simp

section \<open>The timeline\<close>

definition max_time :: "int set \<Rightarrow> int option" where
  "max_time S = (if S = {} then None else Some (Max S))"

lemma later_max: "finite S \<Longrightarrow> later (max_time S) c = max_time (S \<union> set_option c)"
  by (cases c; cases "S = {}") (simp_all add: later_def max_time_def max_def not_less del: Max_le_iff Max_less_iff Max_ge_iff Max_gr_iff)

lemma foldl_later_max:
  "finite S \<Longrightarrow> foldl later (max_time S) cs = max_time (S \<union> (\<Union>c \<in> set cs. set_option c))"
proof (induction cs arbitrary: S)
  case (Cons c cs)
  then have "finite (S \<union> set_option c)" by simp
  from Cons.IH [OF this] Cons.prems show ?case by (simp add: later_max Un_assoc)
qed simp

definition segment_times :: "media_segment \<Rightarrow> int set" where
  "segment_times s = set_option (ms_start s) \<union> set_option (ms_end s) \<union> set (ms_keyframes s) \<union> set (ms_shots s)"

lemma marker_times_ok:
  "sorted (marker_times v)" "distinct (marker_times v)" "length (marker_times v) \<le> MAX_MARKERS_PER_SEGMENT"
  "t \<in> set (marker_times v) \<Longrightarrow> 0 \<le> t"
proof -
  show "sorted (marker_times v)" "distinct (marker_times v)" "length (marker_times v) \<le> MAX_MARKERS_PER_SEGMENT"
    by (simp_all add: marker_times_def sorted_wrt_take split: json.split)
  assume t: "t \<in> set (marker_times v)"
  show "0 \<le> t"
  proof (cases v)
    case (JArr vs)
    define xs where "xs = filter (\<lambda>t. 0 \<le> t) (concat (map (\<lambda>x. case as_int_ms x of Some t \<Rightarrow> [t] | None \<Rightarrow> []) vs))"
    from t have "t \<in> set (sorted_list_of_set (set xs))"
      by (auto simp: marker_times_def JArr xs_def [symmetric] dest: in_set_takeD)
    then have "t \<in> set xs" by (simp only: set_sorted_list_of_set finite_set)
    then show ?thesis by (simp add: xs_def)
  qed (use t in \<open>simp_all add: marker_times_def\<close>)
qed

lemma last_of_max: "sorted xs \<Longrightarrow> set xs \<noteq> {} \<Longrightarrow> last_of xs = Some (Max (set xs))"
  by (induction xs rule: rev_induct) (auto simp: last_of_def sorted_append max_def intro!: Max_eqI [symmetric])

lemma candidates_max: "finite S \<Longrightarrow> foldl later (max_time S) (candidates s) = max_time (S \<union> (\<Union>c \<in> set (candidates s). set_option c))"
  by (rule foldl_later_max)

definition groundable :: "media_segment \<Rightarrow> bool" where
  "groundable s \<longleftrightarrow> ms_start s \<noteq> None \<or> ms_end s \<noteq> None \<or> ms_keyframes s \<noteq> [] \<or> ms_shots s \<noteq> []"

definition known_segments :: "(nat \<times> json) list \<Rightarrow> media_segment list" where
  "known_segments es = filter groundable (concat (map (\<lambda>(i, v). case v of JObj fs \<Rightarrow> [segment_of i fs] | _ \<Rightarrow> []) es))"

definition named_times :: "media_segment list \<Rightarrow> int set" where
  "named_times ss = (\<Union>s \<in> set ss. \<Union>c \<in> set (candidates s). set_option c)"

lemma named_times_append [simp]: "named_times (ss @ [s]) = named_times ss \<union> (\<Union>c \<in> set (candidates s). set_option c)"
  by (auto simp: named_times_def)

lemma finite_named_times [simp]: "finite (named_times ss)"
  by (simp add: named_times_def)

lemma timeline_step_max:
  "timeline_step (max_time (named_times ss), ss) e = (max_time (named_times (ss @ known_segments [e])), ss @ known_segments [e])"
proof (cases e)
  case (Pair i v)
  show ?thesis
  proof (cases v)
    case (JObj fs)
    show ?thesis
    proof (cases "groundable (segment_of i fs)")
      case True
      then have "known_segments [e] = [segment_of i fs]" by (simp add: known_segments_def Pair JObj)
      with True show ?thesis
        by (auto simp: timeline_step_def Pair JObj Let_def candidates_max groundable_def)
    next
      case False
      then have "known_segments [e] = []" by (simp add: known_segments_def Pair JObj)
      with False show ?thesis by (simp add: timeline_step_def Pair JObj Let_def groundable_def)
    qed
  qed (simp_all add: timeline_step_def Pair known_segments_def)
qed

lemma timeline_steps_max:
  "foldl timeline_step (max_time (named_times ss), ss) es
     = (max_time (named_times (ss @ known_segments es)), ss @ known_segments es)"
proof (induction es arbitrary: ss)
  case (Cons e es)
  have "known_segments (e # es) = known_segments [e] @ known_segments es" by (simp add: known_segments_def)
  with Cons [of "ss @ known_segments [e]"] show ?case by (simp only: foldl_Cons timeline_step_max append_assoc)
qed (simp add: known_segments_def)

lemma named_times_all:
  assumes "s \<in> set ss" "sorted (ms_keyframes s)" "sorted (ms_shots s)" "t \<in> segment_times s"
  shows "\<exists>u \<in> named_times ss. t \<le> u"
proof -
  have l: "\<exists>u. last_of xs = Some u \<and> t \<le> u" if "sorted xs" "t \<in> set xs" for xs
  proof -
    have "t \<le> Max (set xs)" using that(2) by simp
    with last_of_max [of xs] that show ?thesis by (cases xs) auto
  qed
  from assms(4) consider "ms_start s = Some t" | "ms_end s = Some t" | "t \<in> set (ms_keyframes s)" | "t \<in> set (ms_shots s)"
    by (auto simp: segment_times_def)
  then have "\<exists>c \<in> set (candidates s). \<exists>u. c = Some u \<and> t \<le> u"
  proof cases
    case 3
    with l [of "ms_keyframes s"] assms(2) show ?thesis by (auto simp: candidates_def)
  next
    case 4
    with l [of "ms_shots s"] assms(3) show ?thesis by (auto simp: candidates_def)
  qed (auto simp: candidates_def)
  with assms(1) show ?thesis unfolding named_times_def by force
qed

text \<open>The timeline lists exactly the segments with a time, each with sorted markers, and its
  duration is the latest time any of them names.\<close>

theorem timeline_duration:
  "(\<forall>s \<in> set (snd (media_timeline contents)). groundable s \<and> sorted (ms_keyframes s) \<and> sorted (ms_shots s)
      \<and> (\<forall>t \<in> segment_times s. \<exists>d. fst (media_timeline contents) = Some d \<and> t \<le> d))
   \<and> (\<forall>d. fst (media_timeline contents) = Some d \<longrightarrow> (\<exists>s \<in> set (snd (media_timeline contents)). d \<in> segment_times s))"
proof -
  define ss where "ss = known_segments (enumerate 0 contents)"
  have tl: "media_timeline contents = (max_time (named_times ss), ss)"
    using timeline_steps_max [of "[]" "enumerate 0 contents"]
    by (simp add: media_timeline_def ss_def max_time_def named_times_def)
  have ok: "groundable s \<and> sorted (ms_keyframes s) \<and> sorted (ms_shots s)" if "s \<in> set ss" for s
    using that by (auto simp: ss_def known_segments_def segment_of_def marker_times_ok split: json.splits)
  have top: "\<exists>d. max_time (named_times ss) = Some d \<and> t \<le> d" if "s \<in> set ss" "t \<in> segment_times s" for s t
  proof -
    from named_times_all [OF that(1) _ _ that(2)] ok [OF that(1)] obtain u where u: "u \<in> named_times ss" "t \<le> u" by blast
    then have "u \<le> Max (named_times ss)" by simp
    then have "t \<le> Max (named_times ss)" using u(2) by linarith
    moreover have "named_times ss \<noteq> {}" using u(1) by blast
    ultimately show ?thesis by (simp add: max_time_def)
  qed
  have named: "\<exists>s \<in> set ss. d \<in> segment_times s" if "max_time (named_times ss) = Some d" for d
  proof -
    from that have "named_times ss \<noteq> {}" "d = Max (named_times ss)" by (auto simp: max_time_def split: if_splits)
    then have "d \<in> named_times ss" using Max_in [OF finite_named_times] by simp
    then obtain s c where "s \<in> set ss" "c \<in> set (candidates s)" "c = Some d" by (auto simp: named_times_def)
    then show ?thesis by (intro bexI [of _ s]) (auto simp: candidates_def segment_times_def last_of_def split: if_splits)
  qed
  show ?thesis unfolding tl fst_conv snd_conv using ok top named by blast
qed

lemma timeline_duration_witness:
  "media_timeline [JObj [(''startTimeMs'', JInt 5), (''cameraShotTimesMs'', JArr [JInt 9, JInt 7])]]
     = (Some 9, [\<lparr>ms_index = 0, ms_start = Some 5, ms_end = None, ms_keyframes = [], ms_shots = [7, 9]\<rparr>])
   \<and> (\<exists>d. fst (media_timeline [JObj [(''startTimeMs'', JInt 5), (''cameraShotTimesMs'', JArr [JInt 9, JInt 7])]]) = Some d \<and> 7 \<le> d)"
proof -
  let ?c = "[JObj [(''startTimeMs'', JInt 5), (''cameraShotTimesMs'', JArr [JInt 9, JInt 7])]]"
  let ?s = "\<lparr>ms_index = 0, ms_start = Some 5, ms_end = None, ms_keyframes = [], ms_shots = [7, 9]\<rparr>"
  have t: "media_timeline ?c = (Some 9, [?s])" by code_simp
  have "?s \<in> set (snd (media_timeline ?c))" "7 \<in> segment_times ?s" by (simp_all add: t segment_times_def)
  then have "\<exists>d. fst (media_timeline ?c) = Some d \<and> 7 \<le> d" using timeline_duration [of ?c] by blast
  with t show ?thesis by blast
qed

end
