(* ===== verification/Schedule_Service.thy ===== *)
theory Schedule_Service
  imports Wf_Store
begin

text \<open>
  \<open>workflows/schedule_service.py\<close>: saving, acknowledging, disabling and pausing a schedule, and the
  controller's tick that claims an occurrence, launches its run and consumes it. Every write is the
  conditional write of the store, so another client may act at each \<open>await\<close>: \<open>sw_others n\<close> is what
  the others do before the \<open>n\<close>-th call, and the clock, the zone files and the launch of a run may
  answer differently each time.
\<close>

definition MAX_SCHEDULES :: nat where "MAX_SCHEDULES = 10"

definition MAX_SCHEDULE_HISTORY :: nat where "MAX_SCHEDULE_HISTORY = 20"

section \<open>Changes of a schedule\<close>

definition last_items :: "nat \<Rightarrow> 'a list \<Rightarrow> 'a list" where
  "last_items n xs = drop (length xs - n) xs"

definition next_slot :: "zones \<Rightarrow> workflow_schedule \<Rightarrow> int \<Rightarrow> auto_exn + workflow_schedule" where
  "next_slot zones v now =
     (case (case sc_pendingSlot v of Some s \<Rightarrow> Some s | None \<Rightarrow> sc_next v) of
        None \<Rightarrow> refused ''schedule_corrupt''
      | Some slot \<Rightarrow>
          bindE (if sc_consumed v + 1 < sr_maxOccurrences (sc_rule v)
                 then next_occurrence zones (sc_rule v) (oc_dueAt slot) (Some (oc_localSlot slot)) (Some (oc_zoneDigest slot))
                 else Inr None) (\<lambda>following.
            Inr (v\<lparr>sc_consumed := sc_consumed v + 1, sc_lastSlot := Some (oc_localSlot slot), sc_next := following,
                   sc_pendingSlot := None, sc_pendingKey := None,
                   sc_history := last_items MAX_SCHEDULE_HISTORY (sc_history v),
                   sc_status := (if following = None then ScheduleCompleted else sc_status v),
                   sc_enabled := (if following = None then False else sc_enabled v),
                   sc_updatedAt := now\<rparr>)))"

definition record_slot :: "schedule_occurrence \<Rightarrow> slot_outcome \<Rightarrow> string option \<Rightarrow> workflow_schedule \<Rightarrow> workflow_schedule" where
  "record_slot slot outcome run v = v\<lparr>sc_history := sc_history v @
     [\<lparr>sh_slot = oc_localSlot slot, sh_dueAt = oc_dueAt slot, sh_outcome = outcome, sh_runId = run\<rparr>]\<rparr>"

text \<open>The occurrences that passed while nobody ticked; \<open>n\<close> is what is left of the loop.\<close>

fun miss_slots :: "zones \<Rightarrow> int \<Rightarrow> nat \<Rightarrow> workflow_schedule \<Rightarrow> auto_exn + workflow_schedule" where
  "miss_slots zones now 0 v = Inr v"
| "miss_slots zones now (Suc n) v = (case sc_next v of
     None \<Rightarrow> Inr v
   | Some slot \<Rightarrow>
       if now \<le> oc_dueAt slot + MISSED_GRACE_MICROS then Inr v
       else bindE (next_slot zones (record_slot slot SlotMissed None v) now) (miss_slots zones now n))"

definition six_digits :: "int \<Rightarrow> string" where
  "six_digits n = replicate (6 - length (show_int n)) (CHR ''0'') @ show_int n"

text \<open>\<open>isoformat()\<close> of an instant in UTC, without its offset.\<close>

definition iso_instant :: "int \<Rightarrow> string" where
  "iso_instant u = iso_minutes u @ '':'' @ two_digits (u mod MINUTE_MICROS div 1000000)
     @ (if u mod 1000000 = 0 then [] else ''.'' @ six_digits (u mod 1000000))"

definition occurrence_key ::
  "(string \<Rightarrow> string) \<Rightarrow> string \<Rightarrow> string \<Rightarrow> int \<Rightarrow> schedule_occurrence \<Rightarrow> auto_exn + string" where
  "occurrence_key sha owner schedule_id generation slot =
     bindE (stable_id sha owner [schedule_id, show_int generation, oc_localSlot slot,
              iso_instant (oc_dueAt slot) @ ''+00:00'']) (\<lambda>h.
       Inr (iso_instant (oc_dueAt slot) @ ''Z~'' @ take 32 h))"

text \<open>The claim of a tick: the occurrence that is due, or the ones that were missed.\<close>

definition claim_slot ::
  "(string \<Rightarrow> string) \<Rightarrow> zones \<Rightarrow> string \<Rightarrow> string \<Rightarrow> int \<Rightarrow> int \<Rightarrow> schedule_occurrence \<Rightarrow> workflow_schedule
    \<Rightarrow> auto_exn + workflow_schedule" where
  "claim_slot sha zones owner schedule_id generation now slot v =
     bindE (if now > oc_dueAt slot + MISSED_GRACE_MICROS
            then miss_slots zones now (nat (sr_maxOccurrences (sc_rule v) - sc_consumed v)) v
            else bindE (occurrence_key sha owner schedule_id generation slot) (\<lambda>key.
                   Inr (v\<lparr>sc_pendingSlot := Some slot, sc_pendingKey := Some key\<rparr>))) (\<lambda>u.
       Inr (u\<lparr>sc_revision := sc_revision u + 1, sc_status := (if sc_enabled u then ScheduleActive else ScheduleCompleted)\<rparr>))"

text \<open>The end of a tick: the outcome of the claimed occurrence is recorded and the next one set.\<close>

definition finish_slot ::
  "zones \<Rightarrow> int \<Rightarrow> schedule_occurrence \<Rightarrow> slot_outcome \<Rightarrow> string option \<Rightarrow> workflow_schedule \<Rightarrow> auto_exn + workflow_schedule" where
  "finish_slot zones now slot outcome run v =
     bindE (next_slot zones (record_slot slot outcome run v) now) (\<lambda>u. Inr (u\<lparr>sc_revision := sc_revision u + 1\<rparr>))"

definition paused :: "string \<Rightarrow> workflow_schedule \<Rightarrow> workflow_schedule" where
  "paused reason v = v\<lparr>sc_status := SchedulePaused, sc_reason := Some reason, sc_revision := sc_revision v + 1\<rparr>"

definition disabled :: "int \<Rightarrow> workflow_schedule \<Rightarrow> workflow_schedule" where
  "disabled now v = v\<lparr>sc_enabled := False, sc_status := ScheduleDisabled, sc_reason := Some ''owner_disabled'',
     sc_revision := sc_revision v + 1, sc_updatedAt := now\<rparr>"

definition acknowledged :: "schedule_status \<Rightarrow> string option \<Rightarrow> workflow_schedule \<Rightarrow> workflow_schedule" where
  "acknowledged status reason v = v\<lparr>sc_status := status, sc_reason := reason, sc_revision := sc_revision v + 1\<rparr>"

section \<open>Requests\<close>

text \<open>
  What \<open>save\<close> is asked for. \<open>sq_admitted\<close> is the answer of the access checks and of the spend profile,
  \<open>sq_issued\<close> the time its key carries, \<open>sq_digest\<close> the digest of the request.
\<close>

record schedule_request =
  sq_bundle :: json
  sq_bundleDigest :: string
  sq_text :: string
  sq_limits :: exec_limits
  sq_rule :: schedule_rule
  sq_key :: string
  sq_issued :: "auto_exn + int"
  sq_admitted :: "auto_exn + unit"
  sq_digest :: string
  sq_tools :: bool
  sq_memory :: bool
  sq_scheduleId :: "string option"
  sq_expectedRevision :: "int option"

definition saved ::
  "zones \<Rightarrow> string \<Rightarrow> string \<Rightarrow> schedule_request \<Rightarrow> int \<Rightarrow> workflow_schedule option \<Rightarrow> auto_exn + workflow_schedule" where
  "saved zones owner identifier rq now before =
     (let generation = (case before of Some b \<Rightarrow> sc_generation b + 1 | None \<Rightarrow> 1) in
      bindE (first_occurrence zones (sq_rule rq) now) (\<lambda>slot.
        Inr \<lparr>sc_id = AUTOMATION_ID_PREFIX @ ''schedule:'' @ identifier, sc_userId = owner,
             sc_recordKind = AUTOMATION_SCHEDULE_KIND, sc_scheduleId = identifier, sc_generation = generation,
             sc_revision = (case before of Some b \<Rightarrow> sc_revision b + 1 | None \<Rightarrow> 0),
             sc_lastWriteKey = sq_key rq, sc_lastWriteDigest = sq_digest rq, sc_enabled = True,
             sc_status = SchedulePending, sc_reason = None, sc_bundle = sq_bundle rq,
             sc_bundleDigest = sq_bundleDigest rq, sc_input = strip (sq_text rq), sc_limits = sq_limits rq,
             sc_allowTools = sq_tools rq, sc_allowAutomaticMemory = sq_memory rq, sc_rule = sq_rule rq,
             sc_next = Some slot, sc_pendingSlot = None, sc_pendingKey = None, sc_consumed = 0, sc_lastSlot = None,
             sc_controllerId = owner @ '':schedule-'' @ identifier @ ''-'' @ show_int generation,
             sc_history = [], sc_createdAt = (case before of Some b \<Rightarrow> sc_createdAt b | None \<Rightarrow> now),
             sc_updatedAt = now\<rparr>))"

section \<open>The world of the service\<close>

datatype host_answer = HostStarted | HostAcceptanceUnknown | HostRejected | HostFails

text \<open>\<open>sw_start\<close>: the run's identity and whether its acceptance is unknown, or the error that \<open>start\<close> raises.\<close>

record schedule_world =
  sw_sha :: "string \<Rightarrow> string"
  sw_rt :: "string \<Rightarrow> int"
  sw_sized :: "run_owner \<Rightarrow> bool"
  sw_writable :: "workflow_schedule \<Rightarrow> auto_exn + unit"
  sw_others :: "nat \<Rightarrow> auto_store \<Rightarrow> auto_store"
  sw_clock :: "nat \<Rightarrow> int"
  sw_zones :: "nat \<Rightarrow> zones"
  sw_enabled :: "auto_exn + unit"
  sw_tools_current :: "auto_exn + unit"
  sw_host :: "host_answer option"
  sw_start :: "nat \<Rightarrow> workflow_schedule \<Rightarrow> auto_store \<Rightarrow> auto_store \<times> (auto_exn + string \<times> bool)"

text \<open>The store and the number of calls so far.\<close>

type_synonym point = "auto_store \<times> nat"
type_synonym 'a act = "point \<Rightarrow> point \<times> (auto_exn + 'a)"

definition pure_act :: "'a \<Rightarrow> 'a act" where "pure_act x p = (p, Inr x)"

definition fail_act :: "string \<Rightarrow> 'a act" where "fail_act code p = (p, refused code)"

definition lift_act :: "(nat \<Rightarrow> auto_exn + 'a) \<Rightarrow> 'a act" where "lift_act r p = (p, r (snd p))"

definition bind_act :: "'a act \<Rightarrow> ('a \<Rightarrow> 'b act) \<Rightarrow> 'b act" where
  "bind_act m f p = (case m p of (q, Inl e) \<Rightarrow> (q, Inl e) | (q, Inr x) \<Rightarrow> f x q)"

definition await :: "schedule_world \<Rightarrow> point \<Rightarrow> point" where
  "await w p = (sw_others w (snd p) (fst p), Suc (snd p))"

definition get_owner :: "schedule_world \<Rightarrow> string \<Rightarrow> (run_owner stored) act" where
  "get_owner w user p = (let q = await w p in
     (q, case store_read_owner (fst q) user (sw_clock w (snd q)) of
           None \<Rightarrow> refused ''coordination_missing'' | Some st \<Rightarrow> Inr st))"

definition get_schedule :: "schedule_world \<Rightarrow> string \<Rightarrow> string \<Rightarrow> (workflow_schedule stored option) act" where
  "get_schedule w user schedule_id p = (let q = await w p in
     (q, Inr (store_read_schedule (fst q) user schedule_id (sw_clock w (snd q)))))"

definition put_schedule ::
  "schedule_world \<Rightarrow> run_owner stored \<Rightarrow> run_owner \<Rightarrow> workflow_schedule \<Rightarrow> workflow_schedule stored option \<Rightarrow> bool act" where
  "put_schedule w prior_owner ow v prior p = (let q = await w p in
     case store_write_schedule (sw_sha w) (sw_rt w) (sw_sized w) (sw_writable w) (fst q) prior_owner ow v prior of
       (s, r) \<Rightarrow> ((s, snd q), r))"

definition next_owner :: "run_owner stored \<Rightarrow> run_owner" where
  "next_owner st = (st_value st)\<lparr>ao_revision := ao_revision (st_value st) + 1\<rparr>"

definition required_schedule ::
  "schedule_world \<Rightarrow> string \<Rightarrow> string \<Rightarrow> (workflow_schedule stored) act" where
  "required_schedule w user schedule_id = bind_act (get_schedule w user schedule_id) (\<lambda>r.
     case r of None \<Rightarrow> fail_act ''schedule_missing'' | Some st \<Rightarrow> pure_act st)"

section \<open>Pausing, disabling, acknowledging\<close>

fun pause_loop :: "schedule_world \<Rightarrow> string \<Rightarrow> string \<Rightarrow> int \<Rightarrow> string \<Rightarrow> nat \<Rightarrow> unit act" where
  "pause_loop w user schedule_id generation reason 0 = fail_act ''schedule_changed''"
| "pause_loop w user schedule_id generation reason (Suc n) =
     bind_act (get_owner w user) (\<lambda>owner.
     bind_act (required_schedule w user schedule_id) (\<lambda>prior.
       if sc_generation (st_value prior) \<noteq> generation \<or> \<not> sc_enabled (st_value prior) then pure_act ()
       else bind_act (put_schedule w owner (next_owner owner) (paused reason (st_value prior)) (Some prior)) (\<lambda>won.
         if won then pure_act () else pause_loop w user schedule_id generation reason n)))"

definition pause_schedule :: "schedule_world \<Rightarrow> string \<Rightarrow> string \<Rightarrow> int \<Rightarrow> string \<Rightarrow> unit act" where
  "pause_schedule w user schedule_id generation reason = pause_loop w user schedule_id generation reason 3"

fun disable_loop :: "schedule_world \<Rightarrow> string \<Rightarrow> string \<Rightarrow> int \<Rightarrow> nat \<Rightarrow> workflow_schedule act" where
  "disable_loop w user schedule_id revision 0 = fail_act ''schedule_changed''"
| "disable_loop w user schedule_id revision (Suc n) =
     bind_act (get_owner w user) (\<lambda>owner.
     bind_act (required_schedule w user schedule_id) (\<lambda>prior.
       if sc_revision (st_value prior) \<noteq> revision then fail_act ''schedule_changed''
       else (let updated = disabled (st_now owner) (st_value prior) in
         bind_act (put_schedule w owner (next_owner owner) updated (Some prior)) (\<lambda>won.
           if won then pure_act updated else disable_loop w user schedule_id revision n))))"

definition disable_schedule :: "schedule_world \<Rightarrow> string \<Rightarrow> string \<Rightarrow> int \<Rightarrow> workflow_schedule act" where
  "disable_schedule w user schedule_id revision = disable_loop w user schedule_id revision 3"

definition awaiting_start :: "schedule_status \<Rightarrow> bool" where
  "awaiting_start st \<longleftrightarrow> st = SchedulePending \<or> st = ScheduleAcceptanceUnknown"

fun acknowledge_loop ::
  "schedule_world \<Rightarrow> workflow_schedule \<Rightarrow> schedule_status \<Rightarrow> string option \<Rightarrow> nat \<Rightarrow> workflow_schedule act" where
  "acknowledge_loop w v status reason 0 = fail_act ''schedule_changed''"
| "acknowledge_loop w v status reason (Suc n) =
     bind_act (get_owner w (sc_userId v)) (\<lambda>owner.
     bind_act (required_schedule w (sc_userId v) (sc_scheduleId v)) (\<lambda>current.
       if sc_generation (st_value current) \<noteq> sc_generation v \<or> \<not> awaiting_start (sc_status (st_value current))
       then pure_act (st_value current)
       else (let updated = acknowledged status reason (st_value current) in
         bind_act (put_schedule w owner (next_owner owner) updated (Some current)) (\<lambda>won.
           if won then pure_act updated else acknowledge_loop w v status reason n))))"

definition ensure_started :: "schedule_world \<Rightarrow> workflow_schedule \<Rightarrow> workflow_schedule act" where
  "ensure_started w v =
     (if \<not> sc_enabled v \<or> \<not> awaiting_start (sc_status v) then pure_act v
      else bind_act (lift_act (\<lambda>n. sw_tools_current w)) (\<lambda>_.
        case sw_host w of
          None \<Rightarrow> fail_act ''automation_unavailable''
        | Some HostFails \<Rightarrow> fail_act ''host_failure''
        | Some HostStarted \<Rightarrow> acknowledge_loop w v ScheduleActive None 3
        | Some HostAcceptanceUnknown \<Rightarrow> acknowledge_loop w v ScheduleAcceptanceUnknown (Some ''scheduler_ack_unknown'') 3
        | Some HostRejected \<Rightarrow> acknowledge_loop w v SchedulePaused (Some ''scheduler_rejected'') 3))"


section \<open>Saving\<close>

definition FIVE_MINUTES :: int where "FIVE_MINUTES = 300 * 1000000"

definition THIRTY_DAYS :: int where "THIRTY_DAYS = 30 * DAY_MICROS"

text \<open>The same request again: nothing but what it asked for may be stored.\<close>

definition same_request :: "schedule_request \<Rightarrow> workflow_schedule \<Rightarrow> bool" where
  "same_request rq v \<longleftrightarrow> sc_rule v = sq_rule rq \<and> sc_input v = strip (sq_text rq) \<and> sc_limits v = sq_limits rq
     \<and> sc_bundleDigest v = sq_bundleDigest rq"

definition with_schedule :: "string \<Rightarrow> run_owner \<Rightarrow> auto_exn + run_owner" where
  "with_schedule identifier ow =
     (if identifier \<in> set (ao_schedules ow) then Inr ow
      else if MAX_SCHEDULES \<le> length (ao_schedules ow) then refused ''schedule_limit''
      else Inr (ow\<lparr>ao_schedules := ao_schedules ow @ [identifier]\<rparr>))"

fun save_loop :: "schedule_world \<Rightarrow> string \<Rightarrow> string \<Rightarrow> schedule_request \<Rightarrow> nat \<Rightarrow> workflow_schedule act" where
  "save_loop w user identifier rq 0 = fail_act ''schedule_changed''"
| "save_loop w user identifier rq (Suc n) =
     bind_act (get_owner w user) (\<lambda>owner.
     bind_act (get_schedule w user identifier) (\<lambda>prior.
       let before = map_option st_value prior in
       if (case before of Some b \<Rightarrow> sc_lastWriteKey b = sq_key rq | None \<Rightarrow> False)
       then (if sc_lastWriteDigest (the before) \<noteq> sq_digest rq then fail_act ''schedule_changed''
             else ensure_started w (the before))
       else if sq_scheduleId rq \<noteq> None
            \<and> (before = None \<or> Some (sc_revision (the before)) \<noteq> sq_expectedRevision rq)
       then fail_act ''schedule_changed''
       else if before \<noteq> None \<and> sq_scheduleId rq = None
       then (if \<not> same_request rq (the before) then fail_act ''schedule_changed'' else ensure_started w (the before))
       else bind_act (lift_act (\<lambda>n. with_schedule identifier (st_value owner))) (\<lambda>ow.
            bind_act (lift_act (\<lambda>n. saved (sw_zones w n) user identifier rq (st_now owner) before)) (\<lambda>v.
            bind_act (put_schedule w owner (ow\<lparr>ao_revision := ao_revision ow + 1\<rparr>) v prior) (\<lambda>won.
              if won then ensure_started w v else save_loop w user identifier rq n)))))"

definition make_owner :: "schedule_world \<Rightarrow> string \<Rightarrow> string \<Rightarrow> (run_owner stored) act" where
  "make_owner w user epoch p = (let q = await w p in
     case service_owner (sw_sha w) (sw_sized w) (fst q) user epoch (sw_clock w (snd q)) of
       (s, r) \<Rightarrow> ((s, snd q), r))"

definition save_schedule :: "schedule_world \<Rightarrow> string \<Rightarrow> string \<Rightarrow> schedule_request \<Rightarrow> workflow_schedule act" where
  "save_schedule w user epoch rq =
     bind_act (lift_act (\<lambda>n. sw_enabled w)) (\<lambda>_.
     bind_act (lift_act (\<lambda>n. sq_issued rq)) (\<lambda>issued.
     bind_act (lift_act (\<lambda>n. sq_admitted rq)) (\<lambda>_.
     bind_act (make_owner w user epoch) (\<lambda>current.
       if issued > st_now current + FIVE_MINUTES \<or> issued < st_now current - THIRTY_DAYS
       then fail_act ''stale_invocation''
       else bind_act (lift_act (\<lambda>n. case sq_scheduleId rq of
              Some i \<Rightarrow> Inr i
            | None \<Rightarrow> bindE (stable_id (sw_sha w) user [''schedule'', sq_key rq]) (\<lambda>h. Inr (take 32 h)))) (\<lambda>identifier.
         if strip (sq_text rq) = [] \<or> 8000 < length (sq_text rq) then fail_act ''invalid_input''
         else save_loop w user identifier rq 3)))))"

section \<open>The tick of a controller\<close>

datatype tick_answer = TickStatus bool schedule_status | TickWait bool "int option"

definition tick_wait :: "workflow_schedule \<Rightarrow> tick_answer" where
  "tick_wait v = TickWait (\<not> sc_enabled v) (map_option oc_dueAt (sc_next v))"

definition pause_tick :: "schedule_world \<Rightarrow> string \<Rightarrow> string \<Rightarrow> int \<Rightarrow> string \<Rightarrow> tick_answer act" where
  "pause_tick w user schedule_id generation reason =
     bind_act (pause_schedule w user schedule_id generation reason) (\<lambda>_. pure_act (TickStatus True SchedulePaused))"

text \<open>The end of the tick: the outcome is recorded unless the claim is gone.\<close>

fun finish_loop ::
  "schedule_world \<Rightarrow> string \<Rightarrow> string \<Rightarrow> int \<Rightarrow> workflow_schedule \<Rightarrow> schedule_occurrence \<Rightarrow> slot_outcome \<Rightarrow> string option \<Rightarrow> nat
    \<Rightarrow> tick_answer act" where
  "finish_loop w user schedule_id generation v slot outcome run 0 = fail_act ''schedule_changed''"
| "finish_loop w user schedule_id generation v slot outcome run (Suc n) =
     bind_act (get_owner w user) (\<lambda>owner.
     bind_act (required_schedule w user schedule_id) (\<lambda>current.
       let c = st_value current in
       if sc_generation c \<noteq> generation \<or> sc_pendingKey c \<noteq> sc_pendingKey v
       then pure_act (TickStatus (sc_generation c \<noteq> generation) (sc_status c))
       else bind_act (lift_act (\<lambda>n. finish_slot (sw_zones w n) (st_now owner) slot outcome run c)) (\<lambda>updated.
            bind_act (put_schedule w owner (next_owner owner) updated (Some current)) (\<lambda>won.
              if won then pure_act (tick_wait updated)
              else finish_loop w user schedule_id generation v slot outcome run n))))"

text \<open>The launch of the claimed occurrence and what follows from its answer.\<close>

definition call_start :: "schedule_world \<Rightarrow> workflow_schedule \<Rightarrow> (auto_exn + string \<times> bool) act" where
  "call_start w v p = (let q = await w p in case sw_start w (snd q) v (fst q) of (s, r) \<Rightarrow> ((s, snd q), Inr r))"

definition launch_slot :: "schedule_world \<Rightarrow> string \<Rightarrow> string \<Rightarrow> int \<Rightarrow> int \<Rightarrow> workflow_schedule \<Rightarrow> tick_answer act" where
  "launch_slot w user schedule_id generation now v =
     (case (sc_pendingSlot v, sc_pendingKey v) of
        (Some slot, Some key) \<Rightarrow>
          bind_act (call_start w v) (\<lambda>r. case r of
            Inr (run, unknown) \<Rightarrow>
              if unknown then pure_act (TickWait False (Some (now + 30 * 1000000)))
              else finish_loop w user schedule_id generation v slot SlotLaunched (Some run) 3
          | Inl (AutomationError code) \<Rightarrow>
              if code = ''overlap_denied'' then finish_loop w user schedule_id generation v slot SlotOverlap None 3
              else if code = ''occurrence_missed'' then finish_loop w user schedule_id generation v slot SlotMissed None 3
              else pause_tick w user schedule_id generation code
          | Inl e \<Rightarrow> (\<lambda>p. (p, Inl e)))
      | _ \<Rightarrow> fail_act ''schedule_corrupt'')"

definition stopped :: "workflow_schedule \<Rightarrow> bool" where
  "stopped v \<longleftrightarrow> \<not> sc_enabled v \<or> sc_status v \<in> {SchedulePaused, ScheduleCompleted, ScheduleDisabled}"

fun tick_loop :: "schedule_world \<Rightarrow> string \<Rightarrow> string \<Rightarrow> int \<Rightarrow> nat \<Rightarrow> tick_answer act" where
  "tick_loop w user schedule_id generation 0 = fail_act ''schedule_changed''"
| "tick_loop w user schedule_id generation (Suc n) =
     bind_act (get_owner w user) (\<lambda>owner.
     bind_act (required_schedule w user schedule_id) (\<lambda>prior.
       let v = st_value prior; now = st_now owner in
       if sc_generation v \<noteq> generation \<or> stopped v then pure_act (TickStatus True (sc_status v))
       else (case sc_next v of
          None \<Rightarrow> fail_act ''schedule_corrupt''
        | Some slot \<Rightarrow>
            bind_act (lift_act (\<lambda>n. sw_zones w n (sr_timezone (sc_rule v)))) (\<lambda>z.
              if tz_digest z \<noteq> oc_zoneDigest slot then pause_tick w user schedule_id generation ''timezone_changed''
              else if sc_pendingSlot v = None \<and> now < oc_dueAt slot
              then pure_act (TickWait False (Some (oc_dueAt slot)))
              else if sc_pendingSlot v = None
              then bind_act (lift_act (\<lambda>n. claim_slot (sw_sha w) (sw_zones w n) user schedule_id generation now slot v)) (\<lambda>updated.
                   bind_act (put_schedule w owner (next_owner owner) updated (Some prior)) (\<lambda>won.
                     if \<not> won then tick_loop w user schedule_id generation n
                     else if sc_pendingSlot updated = None then pure_act (tick_wait updated)
                     else launch_slot w user schedule_id generation now updated))
              else launch_slot w user schedule_id generation now v))))"

definition tick :: "schedule_world \<Rightarrow> string \<Rightarrow> string \<Rightarrow> int \<Rightarrow> tick_answer act" where
  "tick w user schedule_id generation p = (case sw_enabled w of
     Inl (AutomationError code) \<Rightarrow> pause_tick w user schedule_id generation code p
   | Inl e \<Rightarrow> (p, Inl e)
   | Inr _ \<Rightarrow> tick_loop w user schedule_id generation 3 p)"

end
