(* ===== verification/Schedule_Safety.thy ===== *)
theory Schedule_Safety
  imports Schedule_Service
begin

text \<open>
  The life of a schedule document: every write of the service is one of a few changes of the current
  document, and along any sequence of them an edition of a schedule claims each occurrence at most
  once, in order, when it is due, and no more of them than its rule allows.
\<close>

section \<open>The changes of a document\<close>

inductive sched_change :: "workflow_schedule \<Rightarrow> workflow_schedule \<Rightarrow> bool" where
  admitted: "sched_change v (v\<lparr>sc_revision := sc_revision v + 1\<rparr>)"
| pausing: "sc_enabled v \<Longrightarrow> sched_change v (paused reason v)"
| disabling: "sched_change v (disabled now v)"
| acknowledging: "awaiting_start (sc_status v) \<Longrightarrow> sched_change v (acknowledged status reason v)"
| claiming: "\<not> stopped v \<Longrightarrow> sc_next v = Some slot \<Longrightarrow> sc_pendingSlot v = None \<Longrightarrow> oc_dueAt slot \<le> now
    \<Longrightarrow> claim_slot sha zones owner ident (sc_generation v) now slot v = Inr v' \<Longrightarrow> sched_change v v'"
| finishing: "sc_pendingKey v \<noteq> None \<Longrightarrow> finish_slot zones now slot outcome run v = Inr v' \<Longrightarrow> sched_change v v'"
| editing: "rule_ok (sq_rule rq) \<Longrightarrow> saved zones owner ident rq now (Some v) = Inr v' \<Longrightarrow> sched_change v v'"

definition created :: "workflow_schedule \<Rightarrow> bool" where
  "created v \<longleftrightarrow> (\<exists>zones owner ident rq now. rule_ok (sq_rule rq) \<and> saved zones owner ident rq now None = Inr v)"

text \<open>The claims so far: edition, due time and the time of the claim.\<close>

type_synonym claim_log = "(int \<times> int \<times> int) list"

definition new_claim :: "int \<Rightarrow> workflow_schedule \<Rightarrow> workflow_schedule \<Rightarrow> claim_log" where
  "new_claim now v v' = (case (sc_pendingSlot v, sc_pendingSlot v') of
     (None, Some slot) \<Rightarrow> [(sc_generation v', oc_dueAt slot, now)] | _ \<Rightarrow> [])"

text \<open>A change that claims does so at the time its tick read.\<close>

inductive sched_log :: "workflow_schedule \<Rightarrow> claim_log \<Rightarrow> bool" where
  begins: "created v \<Longrightarrow> sched_log v []"
| claims: "sched_log v L \<Longrightarrow> \<not> stopped v \<Longrightarrow> sc_next v = Some slot \<Longrightarrow> sc_pendingSlot v = None \<Longrightarrow> oc_dueAt slot \<le> now
    \<Longrightarrow> claim_slot sha zones owner ident (sc_generation v) now slot v = Inr v' \<Longrightarrow> sched_log v' (L @ new_claim now v v')"
| changes: "sched_log v L \<Longrightarrow> sched_change v v' \<Longrightarrow> sc_pendingSlot v' = None \<or> sc_pendingSlot v' = sc_pendingSlot v
    \<Longrightarrow> sched_log v' L"

definition dues :: "int \<Rightarrow> claim_log \<Rightarrow> int list" where
  "dues g L = map (\<lambda>c. fst (snd c)) (filter (\<lambda>c. fst c = g) L)"

lemma dues_simps [simp]:
  "dues g [] = []" "dues g (L @ M) = dues g L @ dues g M"
  "dues g [(h, d, t)] = (if h = g then [d] else [])"
  by (simp_all add: dues_def)

section \<open>The fields a change keeps\<close>

definition limit_of :: "workflow_schedule \<Rightarrow> int" where
  "limit_of v = sr_maxOccurrences (sc_rule v)"

lemma next_slot_fields:
  assumes "next_slot zones v now = Inr u"
  shows "sc_generation u = sc_generation v" "sc_rule u = sc_rule v" "sc_pendingSlot u = None" "sc_pendingKey u = None"
    "sc_consumed u = sc_consumed v + 1" "sc_next u \<noteq> None \<longrightarrow> sc_consumed u < limit_of u"
    "(case sc_pendingSlot v of Some s \<Rightarrow> Some s | None \<Rightarrow> sc_next v) = Some slot
       \<Longrightarrow> sc_next u = Some s' \<Longrightarrow> oc_dueAt slot < oc_dueAt s'"
  using assms
  by (auto simp: next_slot_def bindE_Inr_iff limit_of_def dest!: next_occurrence_later split: option.splits if_splits)

lemma record_slot_fields [simp]:
  "sc_generation (record_slot slot x run v) = sc_generation v" "sc_rule (record_slot slot x run v) = sc_rule v"
  "sc_pendingSlot (record_slot slot x run v) = sc_pendingSlot v" "sc_pendingKey (record_slot slot x run v) = sc_pendingKey v"
  "sc_consumed (record_slot slot x run v) = sc_consumed v" "sc_next (record_slot slot x run v) = sc_next v"
  by (simp_all add: record_slot_def)

lemma miss_slots_fields:
  assumes "miss_slots zones now n v = Inr u" "sc_pendingSlot v = None" "sc_pendingKey v = None"
    "sc_next v \<noteq> None \<longrightarrow> sc_consumed v < limit_of v" "sc_consumed v \<le> limit_of v"
  shows "sc_generation u = sc_generation v \<and> sc_rule u = sc_rule v \<and> sc_pendingSlot u = None \<and> sc_pendingKey u = None
    \<and> sc_consumed v \<le> sc_consumed u \<and> sc_consumed u \<le> limit_of u
    \<and> (sc_next u \<noteq> None \<longrightarrow> sc_consumed u < limit_of u)
    \<and> (\<forall>s'. sc_next u = Some s' \<longrightarrow> (\<exists>s. sc_next v = Some s \<and> oc_dueAt s \<le> oc_dueAt s'))"
  using assms
proof (induction n arbitrary: v)
  case (Suc n)
  show ?case
  proof (cases "sc_next v")
    case None
    with Suc.prems show ?thesis by simp
  next
    case (Some slot)
    show ?thesis
    proof (cases "now \<le> oc_dueAt slot + MISSED_GRACE_MICROS")
      case True
      with Suc.prems Some show ?thesis by simp
    next
      case False
      with Suc.prems(1) Some obtain x where x: "next_slot zones (record_slot slot SlotMissed None v) now = Inr x"
        and u: "miss_slots zones now n x = Inr u" by (auto simp: bindE_Inr_iff)
      note f = next_slot_fields [OF x]
      have lim: "limit_of x = limit_of v" using f(2) by (simp add: limit_of_def)
      have c: "sc_consumed x \<le> limit_of x" using f(5) Suc.prems(4) Some lim by simp
      have up: "oc_dueAt slot < oc_dueAt s'" if "sc_next x = Some s'" for s'
        using f(7) [of slot s'] that Some Suc.prems(2) by simp
      from Suc.IH [OF u f(3,4,6) c] f(1,2,5) up Some show ?thesis
        by (auto simp: lim)
    qed
  qed
qed simp

definition sched_inv :: "workflow_schedule \<Rightarrow> claim_log \<Rightarrow> bool" where
  "sched_inv v L \<longleftrightarrow>
     (sc_pendingSlot v = None \<longleftrightarrow> sc_pendingKey v = None)
     \<and> (\<forall>s. sc_pendingSlot v = Some s \<longrightarrow> sc_next v = Some s)
     \<and> sc_consumed v \<le> limit_of v \<and> (sc_next v \<noteq> None \<longrightarrow> sc_consumed v < limit_of v)
     \<and> limit_of v \<le> 366
     \<and> (\<forall>(g, d, t) \<in> set L. g \<le> sc_generation v \<and> d \<le> t \<and> t \<le> d + MISSED_GRACE_MICROS)
     \<and> (\<forall>g. sorted_wrt (<) (dues g L) \<and> length (dues g L) \<le> 366)
     \<and> int (length (dues (sc_generation v) L)) \<le> sc_consumed v + (if sc_pendingSlot v = None then 0 else 1)
     \<and> (\<forall>s. \<forall>d \<in> set (dues (sc_generation v) L). sc_next v = Some s \<longrightarrow>
          (if sc_pendingSlot v = None then d < oc_dueAt s else d \<le> oc_dueAt s))"

text \<open>A change that touches none of the fields the invariant reads.\<close>

lemma sched_inv_same:
  assumes "sched_inv v L" "sc_pendingSlot v' = sc_pendingSlot v" "sc_pendingKey v' = sc_pendingKey v"
    "sc_next v' = sc_next v" "sc_consumed v' = sc_consumed v" "sc_rule v' = sc_rule v" "sc_generation v' = sc_generation v"
  shows "sched_inv v' L"
  using assms(1) unfolding sched_inv_def limit_of_def assms(2-7) .

lemma saved_fields:
  assumes "saved zones owner ident rq now before = Inr v"
  shows "sc_pendingSlot v = None" "sc_pendingKey v = None" "sc_consumed v = 0" "sc_rule v = sq_rule rq"
    "sc_generation v = (case before of Some b \<Rightarrow> sc_generation b + 1 | None \<Rightarrow> 1)"
  using assms by (auto simp: saved_def Let_def bindE_Inr_iff split: option.splits)

lemma dues_fresh: "(\<And>c. c \<in> set L \<Longrightarrow> fst c < g) \<Longrightarrow> dues g L = []"
  by (auto simp: dues_def filter_empty_conv)

lemma sched_inv_saved:
  assumes "saved zones owner ident rq now before = Inr v" "rule_ok (sq_rule rq)"
    and "case before of Some b \<Rightarrow> sched_inv b L | None \<Rightarrow> L = []"
  shows "sched_inv v L"
proof -
  note f = saved_fields [OF assms(1)]
  have lim: "1 \<le> limit_of v" "limit_of v \<le> 366" using assms(2) f(4) by (simp_all add: limit_of_def rule_ok_def)
  have old: "(\<forall>(g, d, t) \<in> set L. g < sc_generation v \<and> d \<le> t \<and> t \<le> d + MISSED_GRACE_MICROS)
      \<and> (\<forall>g. sorted_wrt (<) (dues g L) \<and> length (dues g L) \<le> 366)"
  proof (cases before)
    case None
    with assms(3) show ?thesis by simp
  next
    case (Some b)
    with assms(3) f(5) show ?thesis by (fastforce simp: sched_inv_def)
  qed
  then have "dues (sc_generation v) L = []" by (intro dues_fresh) auto
  with f lim old show ?thesis by (fastforce simp: sched_inv_def)
qed

lemma next_slot_finishes:
  assumes "sched_inv v L" "sc_pendingSlot v = Some s" "next_slot zones v' now = Inr u"
    and "sc_pendingSlot v' = sc_pendingSlot v" "sc_next v' = sc_next v" "sc_consumed v' = sc_consumed v"
    and "sc_rule v' = sc_rule v" "sc_generation v' = sc_generation v"
  shows "sched_inv u L"
proof -
  note f = next_slot_fields [OF assms(3)]
  from assms(1,2) have n: "sc_next v = Some s" "sc_consumed v < limit_of v"
    "int (length (dues (sc_generation v) L)) \<le> sc_consumed v + 1"
    "\<forall>d \<in> set (dues (sc_generation v) L). d \<le> oc_dueAt s" by (auto simp: sched_inv_def)
  have up: "oc_dueAt s < oc_dueAt s'" if "sc_next u = Some s'" for s'
    using f(7) [of s s'] that assms(2,4) by simp
  have lim: "limit_of u = limit_of v" using f(2) assms(7) by (simp add: limit_of_def)
  have "\<forall>s'. \<forall>d \<in> set (dues (sc_generation v) L). sc_next u = Some s' \<longrightarrow> d < oc_dueAt s'"
    using n(4) up by fastforce
  with assms(1) f n lim assms(6,8) show ?thesis by (simp add: sched_inv_def)
qed

lemma claim_slot_inv:
  assumes "sched_inv v L" "sc_next v = Some slot" "sc_pendingSlot v = None" "oc_dueAt slot \<le> now"
    and "claim_slot sha zones owner ident (sc_generation v) now slot v = Inr v'"
  shows "sched_inv v' (L @ new_claim now v v')"
proof (cases "now > oc_dueAt slot + MISSED_GRACE_MICROS")
  case True
  with assms(5) obtain u where u: "miss_slots zones now (nat (limit_of v - sc_consumed v)) v = Inr u"
    and v': "v' = u\<lparr>sc_revision := sc_revision u + 1, sc_status := (if sc_enabled u then ScheduleActive else ScheduleCompleted)\<rparr>"
    by (auto simp: claim_slot_def bindE_Inr_iff limit_of_def)
  have pre: "sc_pendingKey v = None" "sc_next v \<noteq> None \<longrightarrow> sc_consumed v < limit_of v" "sc_consumed v \<le> limit_of v"
    using assms(1,3) by (auto simp: sched_inv_def)
  note f = miss_slots_fields [OF u assms(3) pre]
  have "sched_inv u L"
    using assms(1,2,3) f unfolding sched_inv_def by (fastforce simp: limit_of_def)
  moreover have "new_claim now v v' = []" using f by (simp add: new_claim_def v' assms(3))
  ultimately show ?thesis using sched_inv_same [of u L v'] by (simp add: v')
next
  case False
  with assms(5) obtain key where v': "v' = v\<lparr>sc_pendingSlot := Some slot, sc_pendingKey := Some key,
      sc_revision := sc_revision v + 1, sc_status := (if sc_enabled v then ScheduleActive else ScheduleCompleted)\<rparr>"
    by (auto simp: claim_slot_def bindE_Inr_iff)
  have c: "new_claim now v v' = [(sc_generation v, oc_dueAt slot, now)]" by (simp add: new_claim_def v' assms(3))
  have lt: "\<forall>d \<in> set (dues (sc_generation v) L). d < oc_dueAt slot"
    "int (length (dues (sc_generation v) L)) \<le> sc_consumed v" "sc_consumed v < limit_of v" "limit_of v \<le> 366"
    using assms(1,2,3) by (auto simp: sched_inv_def)
  have srt: "sorted_wrt (<) (dues g (L @ new_claim now v v')) \<and> length (dues g (L @ new_claim now v v')) \<le> 366" for g
    using assms(1) lt by (auto simp: sched_inv_def c sorted_wrt_append)
  have len: "int (length (dues (sc_generation v') (L @ new_claim now v v'))) \<le> sc_consumed v' + 1"
    using lt(2) unfolding c by (simp add: v')
  have le: "\<forall>d \<in> set (dues (sc_generation v') (L @ new_claim now v v')). d \<le> oc_dueAt slot"
    using lt(1) unfolding c by (fastforce simp: v')
  have ent: "\<forall>(g, d, t) \<in> set (L @ new_claim now v v'). g \<le> sc_generation v' \<and> d \<le> t \<and> t \<le> d + MISSED_GRACE_MICROS"
    using assms(1,4) False unfolding c by (auto simp: sched_inv_def v')
  show ?thesis
    unfolding sched_inv_def using srt len le ent assms(2) lt(3,4) by (simp add: v' limit_of_def)
qed

lemma sched_change_inv:
  assumes "sched_change v v'" "sched_inv v L" "sc_pendingSlot v' = None \<or> sc_pendingSlot v' = sc_pendingSlot v"
  shows "sched_inv v' L"
  using assms
proof (cases rule: sched_change.cases)
  case (claiming slot now sha zones owner ident)
  from claim_slot_inv [OF assms(2) claiming(2-5)] have "sched_inv v' (L @ new_claim now v v')" .
  moreover have "new_claim now v v' = []" using assms(3) claiming(3) by (auto simp: new_claim_def)
  ultimately show ?thesis by simp
next
  case (finishing zones now slot outcome run)
  then obtain u where u: "next_slot zones (record_slot slot outcome run v) now = Inr u" "v' = u\<lparr>sc_revision := sc_revision u + 1\<rparr>"
    by (auto simp: finish_slot_def bindE_Inr_iff)
  from finishing(1) assms(2) obtain s where "sc_pendingSlot v = Some s" by (auto simp: sched_inv_def)
  from next_slot_finishes [OF assms(2) this u(1)] have "sched_inv u L" by simp
  then show ?thesis using sched_inv_same [of u L v'] u(2) by simp
next
  case (editing rq zones owner ident now)
  then show ?thesis using sched_inv_saved [OF editing(2,1), of L] assms(2) by simp
qed (auto simp: paused_def disabled_def acknowledged_def intro: sched_inv_same [OF assms(2)])

lemma sched_log_inv: "sched_log v L \<Longrightarrow> sched_inv v L"
proof (induction rule: sched_log.induct)
  case (begins v)
  then show ?case using sched_inv_saved [where before = None and L = "[]"] by (auto simp: created_def)
next
  case (claims v L slot now sha zones owner ident v')
  then show ?case using claim_slot_inv by blast
next
  case (changes v L v')
  then show ?case using sched_change_inv by blast
qed

end
