(* ===== verification/Schedule_Steps.thy ===== *)
theory Schedule_Steps
  imports Schedule_Safety
begin

text \<open>
  The service works on its store by the changes of a document alone: each of its operations takes the
  store through steps in which every schedule is kept, created or changed by one \<open>sched_change\<close>,
  whatever the others do between its calls, as long as they keep to such steps too. The admission of a
  scheduled run, which \<open>start\<close> performs, is one of the others and keeps to them.
\<close>

section \<open>Steps of the store\<close>

definition stored_schedule :: "auto_store \<Rightarrow> string \<times> string \<Rightarrow> workflow_schedule option" where
  "stored_schedule s k = map_of (as_schedules s) k"

definition may_follow :: "workflow_schedule option \<Rightarrow> workflow_schedule \<Rightarrow> bool" where
  "may_follow before v \<longleftrightarrow> (case before of None \<Rightarrow> created v | Some b \<Rightarrow> sched_change b v)"

definition sched_step :: "auto_store \<Rightarrow> auto_store \<Rightarrow> bool" where
  "sched_step s t \<longleftrightarrow> (\<forall>k. stored_schedule t k = stored_schedule s k
     \<or> (\<exists>v. stored_schedule t k = Some v \<and> may_follow (stored_schedule s k) v))"

definition sched_steps :: "auto_store \<Rightarrow> auto_store \<Rightarrow> bool" where
  "sched_steps s t \<longleftrightarrow> sched_step\<^sup>*\<^sup>* s t"

lemma sched_steps_refl [simp, intro]: "sched_steps s s"
  by (simp add: sched_steps_def)

lemma sched_steps_trans [trans]: "sched_steps r s \<Longrightarrow> sched_steps s t \<Longrightarrow> sched_steps r t"
  unfolding sched_steps_def by (rule rtranclp_trans)

lemma sched_steps_same: "as_schedules t = as_schedules s \<Longrightarrow> sched_steps s t"
  unfolding sched_steps_def by (rule r_into_rtranclp) (simp add: sched_step_def stored_schedule_def)

lemma sched_steps_update:
  assumes "as_schedules t = AList.update k v (as_schedules s)" "may_follow (stored_schedule s k) v"
  shows "sched_steps s t"
  unfolding sched_steps_def using assms
  by (intro r_into_rtranclp) (auto simp: sched_step_def stored_schedule_def map_of_update)

text \<open>What a step leaves of a schedule follows from what it was by changes.\<close>

lemma sched_steps_change:
  assumes "sched_steps s t" "stored_schedule s k = Some v"
  shows "\<exists>v'. stored_schedule t k = Some v' \<and> sched_change\<^sup>*\<^sup>* v v'"
  using assms(1) unfolding sched_steps_def
proof (induction rule: rtranclp_induct)
  case base
  with assms(2) show ?case by auto
next
  case (step t u)
  then obtain v' where v': "stored_schedule t k = Some v'" "sched_change\<^sup>*\<^sup>* v v'" by auto
  from step(2) have "stored_schedule u k = stored_schedule t k
      \<or> (\<exists>w. stored_schedule u k = Some w \<and> may_follow (stored_schedule t k) w)"
    unfolding sched_step_def by blast
  with v'(1) have "stored_schedule u k = Some v' \<or> (\<exists>w. stored_schedule u k = Some w \<and> sched_change v' w)"
    by (simp add: may_follow_def)
  with v'(2) show ?case by (auto intro: rtranclp.rtrancl_into_rtrancl)
qed

lemma store_write_schedule_steps:
  assumes "store_write_schedule sha rt sized ok s po ow v prior = (t, r)" "may_follow (map_option st_value prior) v"
  shows "sched_steps s t"
proof (cases "r = Inr True \<and> stored_schedule s (ao_userId ow, sc_scheduleId v) = map_option st_value prior")
  case True
  with assms(1) have "as_schedules t = AList.update (ao_userId ow, sc_scheduleId v) v (as_schedules s)"
    by (auto simp: store_write_schedule_def Let_def split: sum.splits if_splits)
  then show ?thesis using True assms(2) by (auto intro: sched_steps_update)
next
  case False
  with assms(1) have "t = s"
    by (auto simp: store_write_schedule_def Let_def stored_schedule_def split: sum.splits if_splits)
  then show ?thesis by simp
qed

lemma store_write_owner_steps: "store_write_owner sha rt sized s p v = (t, r) \<Longrightarrow> sched_steps s t"
  by (rule sched_steps_same) (auto simp: store_write_owner_def split: sum.splits option.splits if_splits)

lemma service_owner_steps: "service_owner sha sized s user epoch now = (t, r) \<Longrightarrow> sched_steps s t"
  by (rule sched_steps_same)
    (auto simp: service_owner_def store_create_owner_def split: sum.splits option.splits if_splits prod.splits)

section \<open>The admission of a scheduled run\<close>

lemma mutate_loop_steps:
  assumes "\<And>i s. sched_steps s (env i s)"
  shows "sched_steps s (fst (mutate_loop store_read_owner (store_write_owner sha rt sized) sha env clock change user i n s))"
proof (induction n arbitrary: i s)
  case (Suc n)
  show ?case
  proof (cases "store_read_owner s user (clock i)")
    case prior: (Some prior)
    show ?thesis
    proof (cases "committed sha change prior")
      case upd: (Inr updated)
      obtain s1 w where w: "store_write_owner sha rt sized (env (2 * i) s) prior updated = (s1, w)" by fastforce
      have here: "sched_steps s s1" using assms store_write_owner_steps [OF w] by (rule sched_steps_trans)
      have "sched_steps s1 (fst (mutate_loop store_read_owner (store_write_owner sha rt sized) sha env clock change user
          (Suc i) n (env (2 * i + 1) s1)))"
        using assms Suc.IH by (rule sched_steps_trans)
      from sched_steps_trans [OF here this] here prior upd w show ?thesis
        by (simp split: sum.split bool.split)
    qed (simp add: prior)
  qed simp
qed simp

lemma admit_loop_steps:
  assumes env: "\<And>i s. sched_steps s (env i s)"
  shows "sched_steps s (fst (admit_loop sha rt sized ok env clock an sid bundle i n s))"
proof (induction n arbitrary: i s)
  case (Suc n)
  have e0: "sched_steps s (env (3 * i) s)" by (rule env)
  show ?case
  proof (cases "store_read_owner s (an_executionOwner an) (clock i)")
    case prior: (Some prior)
    show ?thesis
    proof (cases "map_of (ao_runs (st_value prior)) (an_runId an) \<noteq> None")
      case True
      have "sched_steps (env (3 * i) s) (fst (mutate_owner sha rt sized (\<lambda>j. env (3 * i + 1 + j)) (\<lambda>j. clock (i + j))
          (claim_run sha rt an) (an_executionOwner an) (env (3 * i) s)))"
        unfolding mutate_owner_def by (rule mutate_loop_steps) (rule env)
      with e0 True prior show ?thesis by (simp add: sched_steps_trans)
    next
      case fresh: False
      show ?thesis
      proof (cases "store_read_schedule (env (3 * i) s) (an_executionOwner an) sid (clock i)")
        case None
        with e0 fresh prior show ?thesis by simp
      next
        case sched: (Some sched)
        show ?thesis
        proof (cases "bindE (occurrence_authorized (st_value sched) (an_scheduleGeneration an) (an_key an) bundle (st_now prior))
            (\<lambda>_. committed sha (claim_run sha rt an) prior)")
          case (Inl e)
          with e0 fresh prior sched show ?thesis by simp
        next
          case upd: (Inr updated)
          define t where "t = env (3 * i + 1) (env (3 * i) s)"
          obtain s1 w where w: "store_write_schedule sha rt sized ok t prior updated
              ((st_value sched)\<lparr>sc_revision := sc_revision (st_value sched) + 1\<rparr>) (Some sched) = (s1, w)" by fastforce
          have "sched_steps t s1"
            by (rule store_write_schedule_steps [OF w]) (simp add: may_follow_def sched_change.admitted)
          then have here: "sched_steps s s1" unfolding t_def using env sched_steps_trans by blast
          have "sched_steps s1 (fst (admit_loop sha rt sized ok env clock an sid bundle (Suc i) n (env (3 * i + 2) s1)))"
            using env Suc.IH by (rule sched_steps_trans)
          from sched_steps_trans [OF here this] here fresh prior sched upd w show ?thesis
            by (simp add: t_def split: sum.split bool.split)
        qed
      qed
    qed
  qed simp
qed simp

lemma admit_scheduled_steps:
  "(\<And>i s. sched_steps s (env i s)) \<Longrightarrow> sched_steps s (fst (admit_scheduled sha rt sized ok env clock an sid bundle s))"
  unfolding admit_scheduled_def by (rule admit_loop_steps)

section \<open>The operations of the service\<close>

text \<open>The others keep to the steps, and so does the launch of a run.\<close>

definition others_keep :: "schedule_world \<Rightarrow> bool" where
  "others_keep w \<longleftrightarrow> (\<forall>n s. sched_steps s (sw_others w n s)) \<and> (\<forall>n v s. sched_steps s (fst (sw_start w n v s)))"

definition keeps :: "'a act \<Rightarrow> bool" where
  "keeps m \<longleftrightarrow> (\<forall>p. sched_steps (fst p) (fst (fst (m p))))"

lemma keepsD: "keeps m \<Longrightarrow> sched_steps (fst p) (fst (fst (m p)))"
  unfolding keeps_def by blast

named_theorems keeps_intros

lemma keeps_pure [keeps_intros]: "keeps (pure_act x)"
  by (simp add: keeps_def pure_act_def)

lemma keeps_fail [keeps_intros]: "keeps (fail_act code)"
  by (simp add: keeps_def fail_act_def)

lemma keeps_bind:
  assumes "keeps m" "\<And>x. keeps (f x)"
  shows "keeps (bind_act m f)"
  unfolding keeps_def
proof
  fix p
  obtain q r where m: "m p = (q, r)" by fastforce
  from keepsD [OF assms(1), of p] m have q: "sched_steps (fst p) (fst q)" by simp
  show "sched_steps (fst p) (fst (fst (bind_act m f p)))"
  proof (cases r)
    case (Inl e)
    with m q show ?thesis by (simp add: bind_act_def)
  next
    case (Inr x)
    from sched_steps_trans [OF q keepsD [OF assms(2)]] Inr m show ?thesis by (simp add: bind_act_def)
  qed
qed

lemma keeps_lift [keeps_intros]: "(\<And>n x. r n = Inr x \<Longrightarrow> keeps (f x)) \<Longrightarrow> keeps (bind_act (lift_act r) f)"
  unfolding keeps_def bind_act_def lift_act_def by (auto split: sum.split)


lemma keeps_await: "others_keep w \<Longrightarrow> sched_steps (fst p) (fst (await w p))"
  by (simp add: await_def others_keep_def)

lemma keeps_get_owner: "others_keep w \<Longrightarrow> keeps (get_owner w user)"
  unfolding keeps_def get_owner_def Let_def fst_conv by (blast intro: keeps_await)

lemma keeps_get_schedule: "others_keep w \<Longrightarrow> keeps (get_schedule w user i)"
  unfolding keeps_def get_schedule_def Let_def fst_conv by (blast intro: keeps_await)

lemma keeps_put_schedule:
  assumes "others_keep w" "may_follow (map_option st_value prior) v"
  shows "keeps (put_schedule w po ow v prior)"
  unfolding keeps_def
proof
  fix p
  obtain s r where s: "store_write_schedule (sw_sha w) (sw_rt w) (sw_sized w) (sw_writable w) (fst (await w p)) po ow v prior = (s, r)"
    by fastforce
  from sched_steps_trans [OF keeps_await [OF assms(1)] store_write_schedule_steps [OF s assms(2)]]
  show "sched_steps (fst p) (fst (fst (put_schedule w po ow v prior p)))" by (simp add: put_schedule_def Let_def s)
qed

lemma keeps_make_owner:
  assumes "others_keep w"
  shows "keeps (make_owner w user epoch)"
  unfolding keeps_def
proof
  fix p
  obtain s r where s: "service_owner (sw_sha w) (sw_sized w) (fst (await w p)) user epoch (sw_clock w (snd (await w p))) = (s, r)"
    by fastforce
  from sched_steps_trans [OF keeps_await [OF assms(1)] service_owner_steps [OF s]]
  show "sched_steps (fst p) (fst (fst (make_owner w user epoch p)))" by (simp add: make_owner_def Let_def s)
qed

lemma keeps_call_start:
  assumes "others_keep w"
  shows "keeps (call_start w v)"
  unfolding keeps_def
proof
  fix p
  have "sched_steps (fst (await w p)) (fst (sw_start w (snd (await w p)) v (fst (await w p))))"
    using assms by (simp add: others_keep_def)
  from sched_steps_trans [OF keeps_await [OF assms] this]
  show "sched_steps (fst p) (fst (fst (call_start w v p)))" by (simp add: call_start_def Let_def case_prod_beta)
qed

lemma keeps_required: "others_keep w \<Longrightarrow> keeps (required_schedule w user i)"
  unfolding required_schedule_def
  by (rule keeps_bind) (auto intro: keeps_get_schedule keeps_pure keeps_fail split: option.split)

lemma keeps_pause: "others_keep w \<Longrightarrow> keeps (pause_loop w user i g reason n)"
  by (induction n)
    (auto intro!: keeps_intros keeps_bind keeps_get_owner keeps_required keeps_put_schedule sched_change.pausing
      simp: may_follow_def split: bool.split)

lemma keeps_disable: "others_keep w \<Longrightarrow> keeps (disable_loop w user i r n)"
  by (induction n)
    (auto intro!: keeps_intros keeps_bind keeps_get_owner keeps_required keeps_put_schedule sched_change.disabling
      simp: may_follow_def Let_def split: bool.split)

lemma keeps_pause_schedule: "others_keep w \<Longrightarrow> keeps (pause_schedule w user i g reason)"
  unfolding pause_schedule_def by (rule keeps_pause)

lemma keeps_disable_schedule: "others_keep w \<Longrightarrow> keeps (disable_schedule w user i r)"
  unfolding disable_schedule_def by (rule keeps_disable)

lemma keeps_acknowledge: "others_keep w \<Longrightarrow> keeps (acknowledge_loop w v status reason n)"
  by (induction n)
    (auto intro!: keeps_intros keeps_bind keeps_get_owner keeps_required keeps_put_schedule sched_change.acknowledging
      simp: may_follow_def Let_def split: bool.split)

lemma keeps_ensure_started: "others_keep w \<Longrightarrow> keeps (ensure_started w v)"
  unfolding ensure_started_def
  by (auto intro!: keeps_intros keeps_acknowledge split: option.split host_answer.split)

lemma keeps_save_loop: "others_keep w \<Longrightarrow> rule_ok (sq_rule rq) \<Longrightarrow> keeps (save_loop w user i rq n)"
proof (induction n)
  case (Suc n)
  have put: "keeps (put_schedule w owner ow v prior)"
    if "saved zones user i rq now (map_option st_value prior) = Inr v" for zones now owner ow v prior
  proof (rule keeps_put_schedule [OF Suc.prems(1)], cases prior)
    case None
    with that have "saved zones user i rq now None = Inr v" by simp
    with Suc.prems(2) have "created v" unfolding created_def by blast
    with None show "may_follow (map_option st_value prior) v" by (simp add: may_follow_def)
  next
    case (Some p)
    with that Suc.prems(2) sched_change.editing show "may_follow (map_option st_value prior) v"
      by (auto simp: may_follow_def)
  qed
  from Suc show ?case
    by (auto intro!: keeps_intros keeps_bind keeps_get_owner keeps_get_schedule put keeps_ensure_started
        simp: Let_def split: bool.split option.split)
qed (auto intro: keeps_intros)

lemma keeps_save: "others_keep w \<Longrightarrow> rule_ok (sq_rule rq) \<Longrightarrow> keeps (save_schedule w user epoch rq)"
  unfolding save_schedule_def
  by (intro keeps_lift keeps_bind keeps_make_owner)
    (auto intro!: keeps_intros keeps_save_loop)

lemma keeps_pause_tick: "others_keep w \<Longrightarrow> keeps (pause_tick w user i g reason)"
  unfolding pause_tick_def by (intro keeps_bind keeps_pause_schedule keeps_pure)

lemma keeps_finish:
  "others_keep w \<Longrightarrow> sc_pendingKey v \<noteq> None \<Longrightarrow> keeps (finish_loop w user i g v slot outcome run n)"
proof (induction n)
  case (Suc n)
  have put: "keeps (put_schedule w owner ow u (Some prior))"
    if "finish_slot zones now slot outcome run (st_value prior) = Inr u" "sc_pendingKey (st_value prior) = sc_pendingKey v"
    for zones now owner ow u prior
    using that Suc.prems
    by (intro keeps_put_schedule) (auto simp: may_follow_def intro: sched_change.finishing)
  from Suc show ?case
    by (auto intro!: keeps_intros keeps_bind keeps_get_owner keeps_required put simp: Let_def split: bool.split)
qed (auto intro: keeps_intros)

lemma keeps_error: "keeps (\<lambda>p. (p, Inl e))"
  by (simp add: keeps_def)

lemma keeps_launch: "others_keep w \<Longrightarrow> keeps (launch_slot w user i g now v)"
  unfolding launch_slot_def
  by (auto intro!: keeps_intros keeps_bind keeps_call_start keeps_finish keeps_pause_tick keeps_error
      split: option.split sum.split auto_exn.split)

lemma keeps_claim:
  assumes "others_keep w" "claim_slot sha zones user i g now slot (st_value prior) = Inr u" "g = sc_generation (st_value prior)"
    "\<not> stopped (st_value prior)" "sc_next (st_value prior) = Some slot" "sc_pendingSlot (st_value prior) = None"
    "oc_dueAt slot \<le> now"
  shows "keeps (put_schedule w owner ow u (Some prior))"
  using sched_change.claiming [OF assms(4-7)] assms(2,3)
  by (intro keeps_put_schedule [OF assms(1)]) (auto simp: may_follow_def)

lemma keeps_tick_loop: "others_keep w \<Longrightarrow> keeps (tick_loop w user i g n)"
proof (induction n)
  case (Suc n)
  have claim: "keeps (bind_act (lift_act (\<lambda>m. claim_slot (sw_sha w) (sw_zones w m) user i (sc_generation (st_value prior)) now slot
        (st_value prior))) (\<lambda>u. bind_act (put_schedule w owner ow u (Some prior)) (f u)))"
    if "\<not> stopped (st_value prior)" "sc_next (st_value prior) = Some slot"
      "sc_pendingSlot (st_value prior) = None" "\<not> now < oc_dueAt slot" "\<And>u won. keeps (f u won)" for owner ow prior now slot f
    by (intro keeps_lift keeps_bind, rule keeps_claim [OF Suc.prems]) (use that in auto)
  have zone: "keeps (bind_act (lift_act (\<lambda>m. sw_zones w m name)) f)" if "\<And>z. keeps (f z)" for name f
    by (intro keeps_lift that)
  show ?case
    using Suc.IH [OF Suc.prems] unfolding tick_loop.simps Let_def
    by (intro keeps_bind keeps_get_owner keeps_required Suc.prems)
      (auto intro!: claim zone keeps_pure keeps_fail keeps_pause_tick keeps_launch Suc.prems split: option.split)
qed (auto intro: keeps_intros)

lemma keeps_tick: "others_keep w \<Longrightarrow> keeps (tick w user i g)"
  using keepsD [OF keeps_pause_tick] keepsD [OF keeps_tick_loop]
  by (auto simp: keeps_def tick_def split: sum.split auto_exn.split)

end
