(* ===== verification/Schedule_Promises.thy ===== *)
theory Schedule_Promises
  imports Schedule_Steps
begin

text \<open>
  What the schedules promise: when an occurrence is due, which one is next, and that the controller
  claims each at most once, in order and on time, whoever else writes to the store. The examples are
  a schedule at 02:30 in a zone whose clock is put forward on 29 March 2026 and back on 25 October.
\<close>

section \<open>The claims of a document that follows\<close>

lemma sched_change_pending:
  assumes "sched_change v v'" "sc_pendingSlot v' \<noteq> None" "sc_pendingSlot v' \<noteq> sc_pendingSlot v"
  shows "\<exists>sha zones owner ident now slot. \<not> stopped v \<and> sc_next v = Some slot \<and> sc_pendingSlot v = None
    \<and> oc_dueAt slot \<le> now \<and> claim_slot sha zones owner ident (sc_generation v) now slot v = Inr v'"
  using assms
proof (cases rule: sched_change.cases)
  case (claiming slot now sha zones owner ident)
  then show ?thesis by blast
next
  case (finishing zones now slot outcome run)
  then show ?thesis using assms(2)
    by (auto simp: finish_slot_def bindE_Inr_iff dest: next_slot_fields(3))
next
  case (editing rq zones owner ident now)
  then show ?thesis using assms(2) saved_fields(1) [OF editing(2)] by simp
qed (use assms(3) in \<open>auto simp: paused_def disabled_def acknowledged_def\<close>)

lemma sched_log_change: "sched_log v L \<Longrightarrow> sched_change v v' \<Longrightarrow> \<exists>M. sched_log v' (L @ M)"
proof (cases "sc_pendingSlot v' = None \<or> sc_pendingSlot v' = sc_pendingSlot v")
  case True
  assume "sched_log v L" "sched_change v v'"
  from sched_log.changes [OF this True] show ?thesis by (intro exI [of _ "[]"]) simp
next
  case False
  assume log: "sched_log v L" and step: "sched_change v v'"
  from False have ne: "sc_pendingSlot v' \<noteq> None" "sc_pendingSlot v' \<noteq> sc_pendingSlot v" by auto
  from sched_change_pending [OF step ne] obtain sha zones owner ident now slot where
    c: "\<not> stopped v" "sc_next v = Some slot" "sc_pendingSlot v = None" "oc_dueAt slot \<le> now"
    "claim_slot sha zones owner ident (sc_generation v) now slot v = Inr v'" by blast
  from sched_log.claims [OF log c] show ?thesis by blast
qed

lemma sched_log_changes: "sched_change\<^sup>*\<^sup>* v v' \<Longrightarrow> sched_log v L \<Longrightarrow> \<exists>M. sched_log v' (L @ M)"
proof (induction rule: rtranclp_induct)
  case base
  then show ?case by (intro exI [of _ "[]"]) simp
next
  case (step y z)
  then obtain M where "sched_log y (L @ M)" by blast
  from sched_log_change [OF this step(2)] show ?case by auto
qed

text \<open>The claims of each edition: due times in order, each claimed from its due time for five minutes.\<close>

definition orderly :: "claim_log \<Rightarrow> bool" where
  "orderly L \<longleftrightarrow> (\<forall>g. sorted_wrt (<) (dues g L) \<and> length (dues g L) \<le> 366)
     \<and> (\<forall>(g, d, t) \<in> set L. d \<le> t \<and> t \<le> d + MISSED_GRACE_MICROS)"

lemma sched_log_orderly: "sched_log v L \<Longrightarrow> orderly L"
  using sched_log_inv by (fastforce simp: orderly_def sched_inv_def)

lemma sched_log_limit:
  assumes "sched_log v L"
  shows "int (length (dues (sc_generation v) L)) \<le> sr_maxOccurrences (sc_rule v)"
proof -
  from sched_log_inv [OF assms] show ?thesis
    by (cases "sc_pendingSlot v") (auto simp: sched_inv_def limit_of_def)
qed

section \<open>An example\<close>

definition SPRING :: int where "SPRING = 20541 * DAY_MICROS + 3600000000"

definition AUTUMN :: int where "AUTUMN = 20751 * DAY_MICROS + 3600000000"

definition demo_zone :: tz where
  "demo_zone = \<lparr>tz_version = ''system-tzif'', tz_digest = ''d1'',
     tz_offset = (\<lambda>local late.
       if local < SPRING + 3600000000 then 3600000000
       else if local < SPRING + 7200000000 then (if late then 7200000000 else 3600000000)
       else if local < AUTUMN + 3600000000 then 7200000000
       else if local < AUTUMN + 7200000000 then (if late then 3600000000 else 7200000000)
       else 3600000000),
     tz_utcoffset = (\<lambda>u. if SPRING \<le> u \<and> u < AUTUMN then 7200000000 else 3600000000)\<rparr>"

definition demo_rule :: schedule_rule where
  "demo_rule = \<lparr>sr_frequency = Daily, sr_timezone = ''Europe/Berlin'', sr_localTime = 9000000000,
     sr_timeAware = False, sr_localDate = None, sr_weekday = None, sr_maxOccurrences = 3\<rparr>"

definition demo_zones :: zones where "demo_zones name = Inr demo_zone"

lemma demo_zone_law: "zone_law demo_zone"
  unfolding zone_law_def
proof
  fix u
  let ?b = "AUTUMN \<le> u"
  have "instant demo_zone (wall demo_zone u) ?b = u"
    by (auto simp: instant_def wall_def demo_zone_def SPRING_def AUTUMN_def DAY_MICROS_def)
  then show "\<exists>late. instant demo_zone (wall demo_zone u) late = u" by blast
qed

section \<open>When an occurrence is due\<close>

text \<open>
  C29: an occurrence is due at the earliest instant at which the zone's clock shows the rule's day and
  time. Of a reading the clock shows twice it is the first, and where the clock never shows it, or
  the rule does not cover the day, there is no occurrence. An occurrence found names the version and
  digest of the zone rules it was computed from.
\<close>

theorem occurrence_is_the_first_reading:
  assumes "zones (sr_timezone r) = Inr z" "zone_law z" "expected = None \<or> expected = Some (tz_digest z)"
  shows "case occurrence zones r day expected of
      Inl e \<Rightarrow> False
    | Inr None \<Rightarrow> day_matches r day \<longrightarrow> (\<forall>u. wall z u \<noteq> slot_time r day)
    | Inr (Some oc) \<Rightarrow> day_matches r day \<and> wall z (oc_dueAt oc) = slot_time r day
        \<and> (\<forall>u. wall z u = slot_time r day \<longrightarrow> oc_dueAt oc \<le> u) \<and> oc_zoneDigest oc = tz_digest z"
proof -
  from assms have o: "occurrence zones r day expected = Inr (occurrence_in z r day)"
    by (auto simp: occurrence_def expected_zone_def)
  show ?thesis
  proof (cases "occurrence_in z r day")
    case None
    then show ?thesis using occurrence_in_least [OF assms(2)] by (fastforce simp: o)
  next
    case (Some oc)
    then show ?thesis using occurrence_in_Some [OF Some] occurrence_in_least [OF assms(2)] by (fastforce simp: o)
  qed
qed

theorem occurrence_is_the_first_reading_witness:
  "occurrence demo_zones demo_rule 20541 None = Inr None \<and> (\<forall>u. wall demo_zone u \<noteq> slot_time demo_rule 20541)
   \<and> (\<exists>oc. occurrence demo_zones demo_rule 20751 None = Inr (Some oc) \<and> oc_dueAt oc = AUTUMN - 1800000000
      \<and> wall demo_zone (AUTUMN + 1800000000) = wall demo_zone (oc_dueAt oc))"
proof -
  have gap: "occurrence demo_zones demo_rule 20541 None = Inr None" by code_simp
  have twice: "map_sum id (map_option oc_dueAt) (occurrence demo_zones demo_rule 20751 None) = Inr (Some (AUTUMN - 1800000000))"
    "wall demo_zone (AUTUMN + 1800000000) = wall demo_zone (AUTUMN - 1800000000)" by code_simp+
  have "day_matches demo_rule 20541" by code_simp
  with occurrence_is_the_first_reading [of demo_zones demo_rule demo_zone None 20541] gap
  have "\<forall>u. wall demo_zone u \<noteq> slot_time demo_rule 20541"
    by (simp add: demo_zones_def demo_zone_law)
  moreover from twice obtain oc where "occurrence demo_zones demo_rule 20751 None = Inr (Some oc)"
    "oc_dueAt oc = AUTUMN - 1800000000" by (cases "occurrence demo_zones demo_rule 20751 None") auto
  ultimately show ?thesis using gap twice(2) by simp
qed

text \<open>
  C30: the next occurrence is the first eligible one. It lies after the moment asked for, its slot comes
  after the last one's, and no earlier day from the first day searched has an occurrence that does.
\<close>

theorem next_occurrence_is_the_first_eligible:
  assumes "next_occurrence zones r moment after_slot expected = Inr (Some oc)"
  shows "moment < oc_dueAt oc \<and> (\<forall>s. after_slot = Some s \<longrightarrow> s < oc_localSlot oc)
    \<and> (\<exists>z k. zones (sr_timezone r) = Inr z
        \<and> (let first = (if sr_frequency r = Once then the (sr_localDate r) else wall z moment div DAY_MICROS) in
            occurrence zones r (first + int k) (Some (tz_digest z)) = Inr (Some oc)
            \<and> (\<forall>j < k. \<exists>c. occurrence zones r (first + int j) (Some (tz_digest z)) = Inr c
                \<and> \<not> eligible moment after_slot c)))"
proof -
  from assms obtain z where x: "expected_zone zones r expected = Inr z"
    unfolding next_occurrence_def bindE_Inr_iff by blast
  then have z: "zones (sr_timezone r) = Inr z" by (auto simp: expected_zone_def bindE_Inr_iff split: if_splits)
  let ?first = "if sr_frequency r = Once then the (sr_localDate r) else wall z moment div DAY_MICROS"
  from assms x have "search_days zones r moment after_slot (tz_digest z) ?first (if sr_frequency r = Once then 1 else SEARCH_DAYS)
      = Inr (Some oc)"
    unfolding next_occurrence_def
    by (cases "sr_frequency r = Once"; cases "sr_localDate r") (simp_all only: bindE.simps simp_thms if_True if_False option.case option.sel, simp_all)
  from search_days_Some [OF this] obtain k where
    "occurrence zones r (?first + int k) (Some (tz_digest z)) = Inr (Some oc)"
    "\<forall>j < k. \<exists>c. occurrence zones r (?first + int j) (Some (tz_digest z)) = Inr c \<and> \<not> eligible moment after_slot c"
    by blast
  with next_occurrence_later [OF assms] z show ?thesis unfolding Let_def by blast
qed

theorem next_occurrence_is_the_first_eligible_witness:
  "\<exists>oc. next_occurrence demo_zones demo_rule (AUTUMN - 86400000000) None None = Inr (Some oc)
     \<and> oc_localSlot oc = ''2026-10-25T02:30'' \<and> AUTUMN - 86400000000 < oc_dueAt oc"
proof -
  have "map_sum id (map_option oc_localSlot) (next_occurrence demo_zones demo_rule (AUTUMN - 86400000000) None None)
      = Inr (Some ''2026-10-25T02:30'')" by code_simp
  then obtain oc where oc: "next_occurrence demo_zones demo_rule (AUTUMN - 86400000000) None None = Inr (Some oc)"
    "oc_localSlot oc = ''2026-10-25T02:30''"
    by (cases "next_occurrence demo_zones demo_rule (AUTUMN - 86400000000) None None") auto
  with next_occurrence_is_the_first_eligible [OF oc(1)] show ?thesis by blast
qed

section \<open>What the service does to a schedule\<close>


definition demo_request :: schedule_request where
  "demo_request = \<lparr>sq_bundle = JNull, sq_bundleDigest = ''b1'', sq_text = ''report'',
     sq_limits = \<lparr>xl_maxApplicationDispatches = 8, xl_maxModelCalls = 4, xl_maxToolCalls = 0, xl_maxOutputTokens = 1024,
       xl_maxRuntimeSeconds = 600, xl_usdAppMeter = False, xl_maxSpendMicroUsd = None\<rparr>,
     sq_rule = demo_rule, sq_key = ''k1'', sq_issued = Inr 0, sq_admitted = Inr (), sq_digest = ''q1'', sq_tools = False,
     sq_memory = False, sq_scheduleId = None, sq_expectedRevision = None\<rparr>"

definition demo_schedule :: workflow_schedule where
  "demo_schedule = projr (saved demo_zones ''alice'' ''s1'' demo_request (AUTUMN - 86400000000) None)"

definition demo_schedules :: point where
  "demo_schedules = (\<lparr>as_owners = [(''alice'', (new_owner ''alice'' ''e1'')\<lparr>ao_schedules := [''s1'']\<rparr>)],
     as_schedules = [((''alice'', ''s1''), demo_schedule)]\<rparr>, 0)"

text \<open>The clock is a minute past the occurrence; the run is launched.\<close>

definition demo_service :: schedule_world where
  "demo_service = \<lparr>sw_sha = (\<lambda>_. replicate 64 CHR ''0''), sw_rt = (\<lambda>_. 0), sw_sized = (\<lambda>_. True), sw_writable = (\<lambda>_. Inr ()),
     sw_others = (\<lambda>_ s. s), sw_clock = (\<lambda>_. AUTUMN - 1740000000), sw_zones = (\<lambda>_. demo_zones), sw_enabled = Inr (),
     sw_tools_current = Inr (), sw_host = Some HostStarted, sw_start = (\<lambda>_ _ s. (s, Inr (''alice:r1'', False)))\<rparr>"

lemma demo_others_keep: "others_keep demo_service"
  by (simp add: others_keep_def demo_service_def)

lemma demo_rule_ok: "rule_ok demo_rule"
  by code_simp

lemma demo_schedule_saved: "saved demo_zones ''alice'' ''s1'' demo_request (AUTUMN - 86400000000) None = Inr demo_schedule"
proof -
  have "isl (saved demo_zones ''alice'' ''s1'' demo_request (AUTUMN - 86400000000) None) = False" by code_simp
  then show ?thesis by (simp add: demo_schedule_def sum.collapse(2))
qed

lemma demo_schedule_log: "sched_log demo_schedule []"
proof (rule sched_log.begins)
  have "rule_ok (sq_rule demo_request)" by (simp add: demo_request_def demo_rule_ok)
  with demo_schedule_saved show "created demo_schedule" unfolding created_def by blast
qed

definition demo_ticked :: auto_store where
  "demo_ticked = fst (fst (tick demo_service ''alice'' ''s1'' 1 demo_schedules))"

lemma demo_ticked_schedule:
  "map_option (\<lambda>v. (sc_consumed v, sc_lastSlot v, map_option oc_localSlot (sc_next v))) (stored_schedule demo_ticked (''alice'', ''s1''))
     = Some (1, Some ''2026-10-25T02:30'', Some ''2026-10-26T02:30'')"
  by code_simp




end
