(* ===== verification/Policy_Models.thy ===== *)
theory Policy_Models
  imports Json_Text Entitlements Catalog
begin

text \<open>
  \<open>policy/models.py\<close>, \<open>auth/policy_claims.py\<close>, \<open>auth/identity.py\<close> and \<open>auth/userid.py\<close>: the evidence a
  validated token carries, the group policy with its validators and its digest, and the values a
  decision is made of. Parsing the JSON text of the policy into these fields is the parameter
  \<open>decode\<close>, the hash of the digest the parameter \<open>sha\<close>, and \<open>uuid5\<close> the parameter \<open>uuid\<close>.
\<close>

section \<open>The evidence of a token\<close>

datatype claim_kind = Roles | Groups

definition MAX_ROLES :: nat where "MAX_ROLES = 128"

definition MAX_GROUPS :: nat where "MAX_GROUPS = 200"

definition MAX_ROLE_LENGTH :: nat where "MAX_ROLE_LENGTH = 256"

definition hex_char :: "char \<Rightarrow> bool" where
  "hex_char c \<longleftrightarrow> is_digit c \<or> c \<in> set ''abcdefABCDEF''"

definition group_id :: "string \<Rightarrow> bool" where
  "group_id s \<longleftrightarrow> length s = 36
     \<and> list_all (\<lambda>i. if i \<in> {8, 13, 18, 23} then s ! i = CHR ''-'' else hex_char (s ! i)) [0..<36]"

definition is_printable :: "string \<Rightarrow> bool" where
  "is_printable s \<longleftrightarrow> list_all (\<lambda>c. let n = char_code c in 32 \<le> n \<and> n \<le> 126 \<or> 161 \<le> n \<and> n \<noteq> 173) s"

record policy_claims =
  pc_roles :: "string list"
  pc_groups :: "string list"
  pc_roles_complete :: bool
  pc_groups_complete :: bool
  pc_roles_present :: bool
  pc_groups_present :: bool
  pc_expires_at :: "int option"

definition claim_text_ok :: "bool \<Rightarrow> string list \<Rightarrow> string \<Rightarrow> bool" where
  "claim_text_ok groups seen v \<longleftrightarrow> v \<noteq> [] \<and> length v \<le> MAX_ROLE_LENGTH \<and> v = strip v \<and> is_printable v
     \<and> (groups \<longrightarrow> group_id v) \<and> v \<notin> set seen"

fun claim_values_from :: "bool \<Rightarrow> string list \<Rightarrow> json list \<Rightarrow> string list \<times> bool" where
  "claim_values_from groups seen [] = (seen, True)"
| "claim_values_from groups seen (JStr v # vs) =
     (if claim_text_ok groups seen v then claim_values_from groups (seen @ [v]) vs else ([], False))"
| "claim_values_from groups seen (_ # vs) = ([], False)"

definition claim_values :: "bool \<Rightarrow> json \<Rightarrow> string list \<times> bool" where
  "claim_values groups raw = (case raw of
     JArr vs \<Rightarrow> if length vs > (if groups then MAX_GROUPS else MAX_ROLES) then ([], False) else claim_values_from groups [] vs
   | _ \<Rightarrow> ([], False))"

definition claim_of :: "bool \<Rightarrow> string \<Rightarrow> (string, json) dict \<Rightarrow> string list \<times> bool" where
  "claim_of groups name claims = (case map_of claims name of None \<Rightarrow> ([], True) | Some raw \<Rightarrow> claim_values groups raw)"

text \<open>\<open>_claim_names\<close> is present and is not a dictionary without this name: the claim lives elsewhere.\<close>

definition claim_is_remote :: "string \<Rightarrow> (string, json) dict \<Rightarrow> bool" where
  "claim_is_remote name claims = (case map_of claims ''_claim_names'' of
     None \<Rightarrow> False
   | Some (JObj fs) \<Rightarrow> map_of fs name \<noteq> None
   | Some _ \<Rightarrow> True)"

definition token_expiry :: "(string, json) dict \<Rightarrow> int option" where
  "token_expiry claims = (case map_of claims ''exp'' of
     Some (JInt n) \<Rightarrow> if 0 < n \<and> n < 253402300800 then Some n else None
   | _ \<Rightarrow> None)"

definition verified_policy_claims :: "(string, json) dict \<Rightarrow> policy_claims" where
  "verified_policy_claims claims =
     (let roles = (if claim_is_remote ''roles'' claims then ([], False) else claim_of False ''roles'' claims);
          groups = (if map_of claims ''hasgroups'' \<noteq> None \<or> map_of claims ''_claim_sources'' \<noteq> None
                      \<or> claim_is_remote ''groups'' claims
                    then ([], False) else claim_of True ''groups'' claims);
          expiry = token_expiry claims
      in \<lparr>pc_roles = fst roles, pc_groups = fst groups,
          pc_roles_complete = (snd roles \<and> expiry \<noteq> None), pc_groups_complete = (snd groups \<and> expiry \<noteq> None),
          pc_roles_present = (map_of claims ''roles'' \<noteq> None), pc_groups_present = (map_of claims ''groups'' \<noteq> None),
          pc_expires_at = expiry\<rparr>)"

section \<open>The principal\<close>

record authenticated_user =
  au_internal_user_id :: string
  au_subject :: string
  au_issuer :: string
  au_tenant_id :: "string option"
  au_provider :: string
  au_email :: "string option"
  au_claims :: "(string, json) dict"
  au_policy_claims :: "policy_claims option"

text \<open>What the policy reads of the settings.\<close>

record policy_settings =
  ps_group_policy_enabled :: bool
  ps_group_policy_json :: "string option"
  ps_admin_subjects :: "string list"
  ps_admin_emails :: "string list"
  ps_auth_provider_is_spoofable :: bool
  ps_allowed_tenants :: "string list"
  ps_env :: string
  ps_asset_publishing_enabled :: bool
  ps_realtime_enabled :: bool
  ps_realtime_protocol :: string
  ps_voice_providers :: "string list"
  ps_hard_quota_enabled :: bool

definition has_admin_role :: "authenticated_user \<Rightarrow> bool" where
  "has_admin_role u \<longleftrightarrow> (case map_of (au_claims u) ''roles'' of Some (JArr vs) \<Rightarrow> JStr ''admin'' \<in> set vs | _ \<Rightarrow> False)"

definition identity_is_admin :: "authenticated_user \<Rightarrow> policy_settings \<Rightarrow> bool" where
  "identity_is_admin u st \<longleftrightarrow> au_subject u \<in> set (ps_admin_subjects st)
     \<or> (case au_email u of Some e \<Rightarrow> e \<noteq> [] \<and> lower e \<in> set (ps_admin_emails st) | None \<Rightarrow> False)
     \<or> has_admin_role u"

definition admin_is_unrestricted :: "authenticated_user \<Rightarrow> policy_settings \<Rightarrow> bool" where
  "admin_is_unrestricted u st \<longleftrightarrow> \<not> ps_auth_provider_is_spoofable st \<and> identity_is_admin u st"

definition canonical_identity :: "string \<Rightarrow> string \<Rightarrow> string \<Rightarrow> string option \<Rightarrow> string" where
  "canonical_identity provider issuer subject tenant_id =
     join ''|'' [provider, issuer, (case tenant_id of None \<Rightarrow> [] | Some t \<Rightarrow> t), subject]"

definition internal_user_id :: "(string \<Rightarrow> string) \<Rightarrow> string \<Rightarrow> string \<Rightarrow> string \<Rightarrow> string option \<Rightarrow> string" where
  "internal_user_id uuid provider issuer subject tenant_id = uuid (canonical_identity provider issuer subject tenant_id)"

section \<open>The group policy\<close>

definition MAX_POLICY_BYTES :: nat where "MAX_POLICY_BYTES = 64 * 1024"

definition MAX_MAPPINGS :: nat where "MAX_MAPPINGS = 128"

definition DOCUMENT_FEATURES :: "string list" where
  "DOCUMENT_FEATURES = [''read'', ''upload'', ''process'', ''compute'', ''export'', ''share'', ''annotate'', ''memory'',
     ''analyzers'', ''index'']"

definition DOCUMENT_TOOL_FEATURES :: "(string, string) dict" where
  "DOCUMENT_TOOL_FEATURES = [(''fetch_document'', ''read''), (''run_code'', ''compute''), (''export_document'', ''export''),
     (''analyze_attachment'', ''compute''), (''process_document'', ''process'')]"

definition PUBLICATION_ACTIONS :: "string list" where
  "PUBLICATION_ACTIONS = [''submit'', ''review'', ''consume'']"

definition AVATAR_ACTIONS :: "string list" where
  "AVATAR_ACTIONS = [''create'', ''use'']"

definition ADMIN_OPERATIONS :: "string list" where
  "ADMIN_OPERATIONS = [''admin.usage.read'', ''admin.directory.read'', ''admin.entitlements.read'',
     ''admin.entitlements.write'', ''admin.metrics.resources.read'', ''admin.metrics.operations.read'',
     ''admin.metrics.security.read'', ''admin.metrics.websearch.read'', ''admin.mcp.inspect'', ''admin.mcp.refresh'']"

record domain_rule =
  dr_allow :: "string list"
  dr_deny :: "string list"
  dr_restrict :: "string list option"

record claim_rule = domain_rule +
  cr_claim :: claim_kind
  cr_value :: string

record domain_policy =
  dm_default :: domain_rule
  dm_mappings :: "claim_rule list"

record spend_mapping =
  sm_claim :: claim_kind
  sm_value :: string
  sm_limits :: limits

record spend_policy =
  sl_default :: limits
  sl_mappings :: "spend_mapping list"

record actor_restrictions =
  ar_models :: "string list"
  ar_spend :: limits

record canary_actor =
  ca_tenantId :: string
  ca_subject :: string
  ca_restrictions :: "actor_restrictions option"

record policy_config =
  pg_domains :: "(string, domain_policy) dict"
  pg_spend :: "spend_policy option"
  pg_adminCeiling :: "string list"
  pg_canaryActor :: "canary_actor option"
  pg_evaluationActor :: "canary_actor option"
  pg_realtimeCanaryActor :: "canary_actor option"

datatype restricted_profile = MonitorCanary | AuthoredEvaluation | RealtimeSetup

definition actor_for :: "policy_config \<Rightarrow> restricted_profile \<Rightarrow> canary_actor option" where
  "actor_for cfg p = (case p of
     MonitorCanary \<Rightarrow> pg_canaryActor cfg
   | AuthoredEvaluation \<Rightarrow> pg_evaluationActor cfg
   | RealtimeSetup \<Rightarrow> pg_realtimeCanaryActor cfg)"

definition actors_of :: "policy_config \<Rightarrow> canary_actor list" where
  "actors_of cfg = concat (map (\<lambda>a. case a of None \<Rightarrow> [] | Some m \<Rightarrow> [m])
     [pg_canaryActor cfg, pg_evaluationActor cfg, pg_realtimeCanaryActor cfg])"

section \<open>Validators\<close>

definition exact_text :: "string \<Rightarrow> bool" where
  "exact_text v \<longleftrightarrow> v = strip v \<and> is_printable v"

definition policy_value :: "string \<Rightarrow> bool" where
  "policy_value v \<longleftrightarrow> 1 \<le> length v \<and> length v \<le> 256"

definition exact_values :: "string list \<Rightarrow> bool" where
  "exact_values vs \<longleftrightarrow> length vs \<le> 128 \<and> list_all policy_value vs \<and> distinct vs
     \<and> list_all (\<lambda>v. exact_text v \<and> CHR ''*'' \<notin> set v) vs"

definition domain_rule_ok :: "'a domain_rule_scheme \<Rightarrow> bool" where
  "domain_rule_ok r \<longleftrightarrow> exact_values (dr_allow r) \<and> exact_values (dr_deny r)
     \<and> (case dr_restrict r of None \<Rightarrow> True | Some vs \<Rightarrow> exact_values vs)"

definition exact_claim :: "claim_kind \<Rightarrow> string \<Rightarrow> bool" where
  "exact_claim c v \<longleftrightarrow> policy_value v \<and> exact_text v \<and> (c = Groups \<longrightarrow> group_id v)"

definition limit_values :: "'a limits_scheme \<Rightarrow> int option list" where
  "limit_values l = [lim_requestsPerMinute l, lim_tokensPerDay l, lim_costPerDayMicroUsd l, lim_tokensPerMonth l,
     lim_costPerMonthMicroUsd l, lim_computeExecutionsPerDay l]"

definition spend_limits_ok :: "limits \<Rightarrow> bool" where
  "spend_limits_ok l \<longleftrightarrow> list_all (\<lambda>v. case v of None \<Rightarrow> True | Some n \<Rightarrow> 0 \<le> n) (limit_values l)"

text \<open>\<open>LIMIT_FIELDS[:-1]\<close>: every numeric limit but the compute allowance.\<close>

definition chat_limits :: "'a limits_scheme \<Rightarrow> int option list" where
  "chat_limits l = butlast (limit_values l)"

definition actor_ok :: "canary_actor \<Rightarrow> bool" where
  "actor_ok a \<longleftrightarrow> policy_value (ca_tenantId a) \<and> exact_text (ca_tenantId a)
     \<and> policy_value (ca_subject a) \<and> exact_text (ca_subject a)
     \<and> (case ca_restrictions a of None \<Rightarrow> True
        | Some r \<Rightarrow> exact_values (ar_models r) \<and> spend_limits_ok (ar_spend r)
            \<and> list_ex (\<lambda>v. v \<noteq> None) (chat_limits (ar_spend r)))"

definition rules_of :: "domain_policy \<Rightarrow> domain_rule list" where
  "rules_of d = dm_default d # map domain_rule.truncate (dm_mappings d)"

definition rule_values :: "domain_rule \<Rightarrow> string list" where
  "rule_values r = dr_allow r @ dr_deny r @ (case dr_restrict r of None \<Rightarrow> [] | Some vs \<Rightarrow> vs)"

definition known_values :: "string \<Rightarrow> string list option" where
  "known_values name = map_of [(''zones'', [''global'', ''zonal'', ''us'', ''eu'']), (''documents'', DOCUMENT_FEATURES),
     (''publication'', PUBLICATION_ACTIONS), (''admin'', ADMIN_OPERATIONS), (''avatars'', AVATAR_ACTIONS)] name"

definition POLICY_DOMAINS :: "string list" where
  "POLICY_DOMAINS = [''models'', ''zones'', ''tools'', ''documents'', ''publication'', ''admin'', ''avatars'']"

definition domain_ok :: "string \<Rightarrow> domain_policy \<Rightarrow> bool" where
  "domain_ok name d \<longleftrightarrow> name \<in> set POLICY_DOMAINS \<and> length (dm_mappings d) \<le> MAX_MAPPINGS
     \<and> domain_rule_ok (dm_default d)
     \<and> list_all (\<lambda>m. domain_rule_ok m \<and> exact_claim (cr_claim m) (cr_value m)) (dm_mappings d)
     \<and> distinct (map (\<lambda>m. (cr_claim m, cr_value m)) (dm_mappings d))
     \<and> (case known_values name of None \<Rightarrow> True
        | Some known \<Rightarrow> list_all (\<lambda>r. set (rule_values r) \<subseteq> set known) (rules_of d))"

definition spend_ok :: "spend_policy \<Rightarrow> bool" where
  "spend_ok s \<longleftrightarrow> spend_limits_ok (sl_default s) \<and> length (sl_mappings s) \<le> MAX_MAPPINGS
     \<and> list_all (\<lambda>m. spend_limits_ok (sm_limits m) \<and> exact_claim (sm_claim m) (sm_value m)) (sl_mappings s)
     \<and> distinct (map (\<lambda>m. (sm_claim m, sm_value m)) (sl_mappings s))"

definition policy_ok :: "policy_config \<Rightarrow> bool" where
  "policy_ok cfg \<longleftrightarrow>
     list_all actor_ok (actors_of cfg)
     \<and> distinct (map (\<lambda>a. (ca_tenantId a, ca_subject a)) (actors_of cfg))
     \<and> sum_list (map (\<lambda>d. length (dm_mappings (snd d))) (pg_domains cfg))
        + (case pg_spend cfg of None \<Rightarrow> 0 | Some s \<Rightarrow> length (sl_mappings s)) \<le> MAX_MAPPINGS
     \<and> list_all policy_value (pg_adminCeiling cfg) \<and> length (pg_adminCeiling cfg) \<le> 128
     \<and> distinct (pg_adminCeiling cfg) \<and> set (pg_adminCeiling cfg) \<subseteq> set ADMIN_OPERATIONS
     \<and> distinct (map fst (pg_domains cfg)) \<and> list_all (\<lambda>(name, d). domain_ok name d) (pg_domains cfg)
     \<and> (case pg_spend cfg of None \<Rightarrow> True | Some s \<Rightarrow> spend_ok s)"

text \<open>\<open>parse_policy_config\<close>: \<open>None\<close> is its \<open>ValueError\<close>.\<close>

definition parse_policy_config :: "(string \<Rightarrow> policy_config option) \<Rightarrow> string \<Rightarrow> policy_config option" where
  "parse_policy_config decode raw =
     (if raw = [] \<or> MAX_POLICY_BYTES < utf8_len raw then None
      else case decode raw of None \<Rightarrow> None | Some cfg \<Rightarrow> if policy_ok cfg then Some cfg else None)"

section \<open>The digest of a policy\<close>

definition claim_name :: "claim_kind \<Rightarrow> string" where
  "claim_name c = (case c of Roles \<Rightarrow> ''roles'' | Groups \<Rightarrow> ''groups'')"

definition values_json :: "string list \<Rightarrow> json" where
  "values_json vs = JArr (map JStr vs)"

definition rule_fields :: "'a domain_rule_scheme \<Rightarrow> (string \<times> json) list" where
  "rule_fields r = [(''allow'', values_json (dr_allow r)), (''deny'', values_json (dr_deny r)),
     (''restrict'', opt_json values_json (dr_restrict r))]"

definition limits_json :: "limits \<Rightarrow> json" where
  "limits_json l = JObj [(''disabled'', JBool (lim_disabled l)),
     (''requestsPerMinute'', opt_json JInt (lim_requestsPerMinute l)), (''tokensPerDay'', opt_json JInt (lim_tokensPerDay l)),
     (''costPerDayMicroUsd'', opt_json JInt (lim_costPerDayMicroUsd l)),
     (''tokensPerMonth'', opt_json JInt (lim_tokensPerMonth l)),
     (''costPerMonthMicroUsd'', opt_json JInt (lim_costPerMonthMicroUsd l)),
     (''computeExecutionsPerDay'', opt_json JInt (lim_computeExecutionsPerDay l)), (''note'', opt_json JStr (lim_note l))]"

definition domain_json :: "domain_policy \<Rightarrow> json" where
  "domain_json d = JObj [(''default'', JObj (rule_fields (dm_default d))),
     (''mappings'', JArr (map (\<lambda>m. JObj (rule_fields m
        @ [(''claim'', JStr (claim_name (cr_claim m))), (''value'', JStr (cr_value m))])) (dm_mappings d)))]"

definition spend_json :: "spend_policy \<Rightarrow> json" where
  "spend_json s = JObj [(''default'', limits_json (sl_default s)),
     (''mappings'', JArr (map (\<lambda>m. JObj [(''claim'', JStr (claim_name (sm_claim m))), (''value'', JStr (sm_value m)),
        (''limits'', limits_json (sm_limits m))]) (sl_mappings s)))]"

text \<open>An actor without restrictions is dumped without the field.\<close>

definition actor_json :: "canary_actor \<Rightarrow> json" where
  "actor_json a = JObj ([(''tenantId'', JStr (ca_tenantId a)), (''subject'', JStr (ca_subject a))]
     @ (case ca_restrictions a of None \<Rightarrow> []
        | Some r \<Rightarrow> [(''restrictions'', JObj [(''models'', values_json (ar_models r)), (''spend'', limits_json (ar_spend r))])]))"

definition policy_json :: "policy_config \<Rightarrow> json" where
  "policy_json cfg = JObj [(''version'', JInt 1),
     (''domains'', JObj (map (\<lambda>(name, d). (name, domain_json d)) (pg_domains cfg))),
     (''spend'', opt_json spend_json (pg_spend cfg)), (''adminCeiling'', values_json (pg_adminCeiling cfg)),
     (''canaryActor'', opt_json actor_json (pg_canaryActor cfg)),
     (''evaluationActor'', opt_json actor_json (pg_evaluationActor cfg)),
     (''realtimeCanaryActor'', opt_json actor_json (pg_realtimeCanaryActor cfg))]"

definition policy_digest :: "(string \<Rightarrow> string) \<Rightarrow> policy_config \<Rightarrow> string" where
  "policy_digest sha cfg = sha (canonical_json (policy_json cfg))"

section \<open>Snapshots and decisions\<close>

record resolved_domain =
  rd_allowed :: "string set"
  rd_denied :: "string set"
  rd_restricted :: "string set option"
  rd_invalid :: bool
  rd_unavailable :: bool

text \<open>\<open>ep_binding\<close> is the identity of the service object that resolved the policy.\<close>

record effective_policy =
  ep_owner_id :: string
  ep_interactive :: bool
  ep_digest :: string
  ep_domains :: "(string, resolved_domain) dict"
  ep_limits :: entitlement
  ep_limits_unavailable :: bool
  ep_spend_invalid :: bool
  ep_spend_unattended :: bool
  ep_user :: "authenticated_user option"
  ep_binding :: nat

record policy_request =
  pq_operation :: string
  pq_model_id :: "string option"
  pq_deployment :: "deployment_option option"
  pq_tool_name :: "string option"
  pq_legacy_admin :: bool

datatype policy_outcome = PolicyAllow | PolicyDeny | PolicyUnavailable

datatype policy_reason =
    Allowed | PolicyDenied | PolicyIsUnavailable | ReauthenticationRequired | ClaimEvidenceInvalid | OwnerMismatch
  | AccountDisabled | FeatureDisabled | ModelUnavailable | SurfaceUnsupported | CanaryUnconfigured | CanaryIncompatible

record policy_decision =
  pd_outcome :: policy_outcome
  pd_reason :: policy_reason
  pd_code :: "int option"
  pd_retry_after_seconds :: "int option"

definition decision_of :: "policy_outcome \<Rightarrow> policy_reason \<Rightarrow> policy_decision" where
  "decision_of outcome reason = \<lparr>pd_outcome = outcome, pd_reason = reason, pd_code = None, pd_retry_after_seconds = None\<rparr>"

definition pd_allowed :: "policy_decision \<Rightarrow> bool" where
  "pd_allowed d \<longleftrightarrow> pd_outcome d = PolicyAllow"

text \<open>The status of a \<open>PolicyError\<close>: an own code of zero counts as none.\<close>

definition error_status :: "policy_decision \<Rightarrow> int" where
  "error_status d = (case pd_code d of
     Some c \<Rightarrow> if c \<noteq> 0 then c else if pd_outcome d = PolicyUnavailable then 503 else 403
   | None \<Rightarrow> if pd_outcome d = PolicyUnavailable then 503 else 403)"

end
