(* ===== verification/Policy_Service.thy ===== *)
theory Policy_Service
  imports Policy_Models
begin

text \<open>
  \<open>policy/service.py\<close>: the composition of a group policy for a principal, the decision of a request and
  its authorization. A \<open>policy_host\<close> is the service at one moment: its settings and catalog, the
  policy it last parsed, the clock, and what the entitlement store and the ledger answer there. A
  coroutine is given the host at each of its awaits, in order, as a function from the number of the
  moment, so everything may change while it waits. \<open>ph_model_allowed\<close> is what the task's binding says
  of a deployment.
\<close>

record policy_host =
  ph_settings :: policy_settings
  ph_catalog :: model_catalog
  ph_entitlements_enabled :: bool
  ph_binding :: nat
  ph_raw :: "string option"
  ph_config :: "policy_config option"
  ph_now :: int
  ph_admission :: "string \<Rightarrow> store_error + entitlement"
  ph_ledger :: "string \<Rightarrow> int \<Rightarrow> unit + window_totals"
  ph_model_allowed :: allow
  ph_decode :: "string \<Rightarrow> policy_config option"
  ph_sha :: "string \<Rightarrow> string"
  ph_uuid :: "string \<Rightarrow> string"
  ph_guard :: "restricted_profile \<Rightarrow> (string \<Rightarrow> string \<Rightarrow> json \<Rightarrow> bool) option"

text \<open>\<open>Inl\<close> is the decision a raised \<open>PolicyError\<close> carries.\<close>

type_synonym 'a policy_result = "policy_decision + 'a"

definition policy_raise :: "policy_outcome \<Rightarrow> policy_reason \<Rightarrow> 'a policy_result" where
  "policy_raise outcome reason = Inl (decision_of outcome reason)"

definition policy_enabled :: "policy_host \<Rightarrow> bool" where
  "policy_enabled h \<longleftrightarrow> ps_group_policy_enabled (ph_settings h)"

section \<open>Composition\<close>

definition min_limit :: "int option list \<Rightarrow> int option" where
  "min_limit vs = (let ms = concat (map (\<lambda>v. case v of None \<Rightarrow> [] | Some n \<Rightarrow> [n]) vs) in
     if ms = [] then None else Some (Min (set ms)))"

definition minimum_limits :: "entitlement \<Rightarrow> limits list \<Rightarrow> entitlement" where
  "minimum_limits base rs =
     (let vs = limits.truncate base # rs; least = (\<lambda>f. min_limit (map f vs)) in
      base\<lparr>lim_disabled := list_ex lim_disabled vs, lim_requestsPerMinute := least lim_requestsPerMinute,
        lim_tokensPerDay := least lim_tokensPerDay, lim_costPerDayMicroUsd := least lim_costPerDayMicroUsd,
        lim_tokensPerMonth := least lim_tokensPerMonth, lim_costPerMonthMicroUsd := least lim_costPerMonthMicroUsd,
        lim_computeExecutionsPerDay := least lim_computeExecutionsPerDay\<rparr>)"

definition expand_value :: "string \<Rightarrow> string \<Rightarrow> string set" where
  "expand_value domain v = (if domain \<noteq> ''zones'' then {v}
     else if v = ''global'' then {''global'', ''us'', ''eu''} else if v = ''zonal'' then {''us'', ''eu''} else {v})"

definition expanded :: "string \<Rightarrow> string list \<Rightarrow> string set" where
  "expanded domain vs = (\<Union>v \<in> set vs. expand_value domain v)"

definition evidence_of :: "authenticated_user option \<Rightarrow> policy_claims option" where
  "evidence_of user = (case user of
     Some u \<Rightarrow> if au_provider u = ''entra'' then au_policy_claims u else None | None \<Rightarrow> None)"

definition claim_texts :: "policy_claims \<Rightarrow> claim_kind \<Rightarrow> string list" where
  "claim_texts e c = (case c of Roles \<Rightarrow> pc_roles e | Groups \<Rightarrow> pc_groups e)"

definition claim_complete :: "policy_claims \<Rightarrow> claim_kind \<Rightarrow> bool" where
  "claim_complete e c = (case c of Roles \<Rightarrow> pc_roles_complete e | Groups \<Rightarrow> pc_groups_complete e)"

definition claim_present :: "policy_claims \<Rightarrow> claim_kind \<Rightarrow> bool" where
  "claim_present e c = (case c of Roles \<Rightarrow> pc_roles_present e | Groups \<Rightarrow> pc_groups_present e)"

definition matched :: "claim_kind \<Rightarrow> string \<Rightarrow> authenticated_user option \<Rightarrow> bool" where
  "matched c v user \<longleftrightarrow> (case evidence_of user of None \<Rightarrow> False | Some e \<Rightarrow> v \<in> set (claim_texts e c))"

text \<open>\<open>negative\<close>: the rule takes something away, so that an absent claim proves nothing.\<close>

definition complete_for :: "claim_kind \<Rightarrow> bool \<Rightarrow> authenticated_user option \<Rightarrow> bool" where
  "complete_for c negative user \<longleftrightarrow> (case evidence_of user of
     None \<Rightarrow> False | Some e \<Rightarrow> claim_complete e c \<and> (negative \<longrightarrow> claim_present e c))"

definition rule_complete :: "claim_rule \<Rightarrow> authenticated_user option \<Rightarrow> bool" where
  "rule_complete m user = complete_for (cr_claim m) (dr_deny m \<noteq> [] \<or> dr_restrict m \<noteq> None) user"

definition spend_complete :: "spend_mapping \<Rightarrow> authenticated_user option \<Rightarrow> bool" where
  "spend_complete m user = complete_for (sm_claim m) (lim_disabled (sm_limits m) \<or> has_any_limit (sm_limits m)) user"

definition active_rules :: "domain_policy \<Rightarrow> authenticated_user option \<Rightarrow> domain_rule list" where
  "active_rules d user = dm_default d
     # map domain_rule.truncate (filter (\<lambda>m. matched (cr_claim m) (cr_value m) user) (dm_mappings d))"

text \<open>The second loop of \<open>_compose\<close>: what is allowed and restricted so far.\<close>

fun restrict_rules :: "string \<Rightarrow> domain_rule list \<Rightarrow> string set \<times> string set option \<Rightarrow> string set \<times> string set option" where
  "restrict_rules name [] acc = acc"
| "restrict_rules name (r # rs) (allowed, restricted) = (case dr_restrict r of
     None \<Rightarrow> restrict_rules name rs (allowed, restricted)
   | Some vs \<Rightarrow> restrict_rules name rs (allowed \<inter> expanded name vs,
       Some (case restricted of None \<Rightarrow> expanded name vs | Some t \<Rightarrow> t \<inter> expanded name vs)))"

definition compose_domain :: "string \<Rightarrow> domain_policy \<Rightarrow> authenticated_user option \<Rightarrow> resolved_domain" where
  "compose_domain name d user =
     (let rules = active_rules d user;
          allowed = (\<Union>r \<in> set rules. expanded name (dr_allow r));
          denied = (\<Union>r \<in> set rules. expanded name (dr_deny r));
          reduced = restrict_rules name rules (allowed, None)
      in \<lparr>rd_allowed = fst reduced - denied, rd_denied = denied, rd_restricted = snd reduced,
          rd_invalid = (user \<noteq> None \<and> list_ex (\<lambda>m. \<not> rule_complete m user) (dm_mappings d)),
          rd_unavailable = (user = None \<and> dm_mappings d \<noteq> [])\<rparr>)"

section \<open>The configuration\<close>

definition policy_unavailable :: policy_decision where
  "policy_unavailable = decision_of PolicyUnavailable PolicyIsUnavailable"

definition unknown_categories :: "model_catalog \<Rightarrow> policy_config \<Rightarrow> bool" where
  "unknown_categories c cfg \<longleftrightarrow>
     (let known = me_category ` set (mc_models c) in
       (case map_of (pg_domains cfg) ''models'' of None \<Rightarrow> False
        | Some d \<Rightarrow> list_ex (\<lambda>r. \<not> set (rule_values r) \<subseteq> known) (rules_of d))
       \<or> list_ex (\<lambda>a. case ca_restrictions a of None \<Rightarrow> False | Some r \<Rightarrow> \<not> set (ar_models r) \<subseteq> known) (actors_of cfg))"

definition raw_policy :: "policy_host \<Rightarrow> string" where
  "raw_policy h = (case ps_group_policy_json (ph_settings h) of None \<Rightarrow> [] | Some s \<Rightarrow> s)"

definition configuration :: "policy_host \<Rightarrow> policy_config policy_result" where
  "configuration h =
     (if Some (raw_policy h) = ph_raw h \<and> ph_config h \<noteq> None then Inr (the (ph_config h))
      else case parse_policy_config (ph_decode h) (raw_policy h) of
          None \<Rightarrow> Inl policy_unavailable
        | Some cfg \<Rightarrow> if unknown_categories (ph_catalog h) cfg then Inl policy_unavailable else Inr cfg)"

text \<open>What the call leaves in the service.\<close>

definition after_configuration :: "policy_host \<Rightarrow> policy_host" where
  "after_configuration h = (case configuration h of
     Inl _ \<Rightarrow> h | Inr cfg \<Rightarrow> h\<lparr>ph_raw := Some (raw_policy h), ph_config := Some cfg\<rparr>)"

definition known_configuration :: "policy_host \<Rightarrow> bool \<Rightarrow> policy_config option policy_result" where
  "known_configuration h cached =
     (if cached \<or> \<not> policy_enabled h then Inr (ph_config h) else bindE (configuration h) (\<lambda>c. Inr (Some c)))"

definition marker_owner :: "(string \<Rightarrow> string) \<Rightarrow> canary_actor \<Rightarrow> string" where
  "marker_owner uuid a = internal_user_id uuid ''entra''
     (''https://login.microsoftonline.com/'' @ ca_tenantId a @ ''/v2.0'') (ca_subject a) (Some (ca_tenantId a))"

definition owner_of_profile :: "(string \<Rightarrow> string) \<Rightarrow> policy_config option \<Rightarrow> restricted_profile \<Rightarrow> string option" where
  "owner_of_profile uuid cfg p = (case cfg of None \<Rightarrow> None | Some c \<Rightarrow> map_option (marker_owner uuid) (actor_for c p))"

definition profile_of_owner :: "(string \<Rightarrow> string) \<Rightarrow> policy_config option \<Rightarrow> string \<Rightarrow> restricted_profile option" where
  "profile_of_owner uuid cfg owner =
     find (\<lambda>p. owner_of_profile uuid cfg p = Some owner) [MonitorCanary, AuthoredEvaluation, RealtimeSetup]"

definition profile_owner :: "policy_host \<Rightarrow> bool \<Rightarrow> restricted_profile \<Rightarrow> string option policy_result" where
  "profile_owner h cached p = bindE (known_configuration h cached) (\<lambda>c. Inr (owner_of_profile (ph_uuid h) c p))"

definition canary_owner :: "policy_host \<Rightarrow> bool \<Rightarrow> string option policy_result" where
  "canary_owner h cached = profile_owner h cached MonitorCanary"

definition restricted_profile_of :: "policy_host \<Rightarrow> bool \<Rightarrow> string \<Rightarrow> restricted_profile option policy_result" where
  "restricted_profile_of h cached owner =
     bindE (known_configuration h cached) (\<lambda>c. Inr (profile_of_owner (ph_uuid h) c owner))"

definition restrictions_of_actor :: "(string \<Rightarrow> string) \<Rightarrow> policy_config \<Rightarrow> authenticated_user option \<Rightarrow> actor_restrictions option" where
  "restrictions_of_actor uuid cfg user = (case user of
     None \<Rightarrow> None
   | Some u \<Rightarrow>
       if au_provider u \<noteq> ''entra'' then None
       else (case find (\<lambda>a. au_tenant_id u = Some (ca_tenantId a) \<and> au_subject u = ca_subject a
                     \<and> au_internal_user_id u = marker_owner uuid a) (actors_of cfg) of
               None \<Rightarrow> None | Some a \<Rightarrow> ca_restrictions a))"

definition actor_restriction_digest :: "policy_host \<Rightarrow> authenticated_user \<Rightarrow> bool \<Rightarrow> string option policy_result" where
  "actor_restriction_digest h u cached = bindE (known_configuration h cached) (\<lambda>c. Inr (case c of
     None \<Rightarrow> None
   | Some cfg \<Rightarrow> if restrictions_of_actor (ph_uuid h) cfg (Some u) \<noteq> None then Some (policy_digest (ph_sha h) cfg) else None))"

section \<open>Identity and domains\<close>

definition identity_of :: "policy_host \<Rightarrow> authenticated_user option \<Rightarrow> string \<Rightarrow> policy_decision option" where
  "identity_of h user owner = (case user of
     None \<Rightarrow> None
   | Some u \<Rightarrow>
       if au_internal_user_id u \<noteq> owner then Some (decision_of PolicyDeny OwnerMismatch)
       else if au_provider u = ''entra'' then
         (if (case au_tenant_id u of None \<Rightarrow> True | Some t \<Rightarrow> t \<notin> set (ps_allowed_tenants (ph_settings h)))
             \<or> (case au_policy_claims u of None \<Rightarrow> True | Some e \<Rightarrow>
                  (case pc_expires_at e of None \<Rightarrow> True | Some t \<Rightarrow> t \<le> ph_now h))
          then Some (decision_of PolicyUnavailable ReauthenticationRequired) else None)
       else if ps_env (ph_settings h) \<noteq> ''local'' then Some (decision_of PolicyDeny ClaimEvidenceInvalid) else None)"

definition identity_decision :: "policy_host \<Rightarrow> effective_policy \<Rightarrow> policy_decision option" where
  "identity_decision h p = identity_of h (ep_user p) (ep_owner_id p)"

definition reduce_domain :: "bool \<Rightarrow> string set \<Rightarrow> resolved_domain option \<Rightarrow> resolved_domain" where
  "reduce_domain invalid values base = (case base of
     None \<Rightarrow> \<lparr>rd_allowed = values, rd_denied = {}, rd_restricted = Some values, rd_invalid = invalid, rd_unavailable = False\<rparr>
   | Some d \<Rightarrow> d\<lparr>rd_allowed := rd_allowed d \<inter> values,
       rd_restricted := Some (case rd_restricted d of None \<Rightarrow> values | Some t \<Rightarrow> t \<inter> values), rd_invalid := invalid\<rparr>)"

definition evidence_incomplete :: "policy_host \<Rightarrow> (string, resolved_domain) dict \<Rightarrow> authenticated_user option \<Rightarrow> bool" where
  "evidence_incomplete h domains user \<longleftrightarrow>
     (case user of None \<Rightarrow> True
      | Some u \<Rightarrow> (case au_policy_claims u of None \<Rightarrow> True
          | Some e \<Rightarrow> \<not> (pc_roles_complete e \<and> pc_groups_complete e))
        \<or> list_ex (\<lambda>(n, d). rd_invalid d \<or> rd_unavailable d) domains
        \<or> identity_of h user (au_internal_user_id u) \<noteq> None)"

definition policy_domains :: "policy_host \<Rightarrow> policy_config \<Rightarrow> authenticated_user option \<Rightarrow> (string, resolved_domain) dict" where
  "policy_domains h cfg user =
     (let domains = map (\<lambda>(name, d). (name, compose_domain name d user)) (pg_domains cfg) in
      case restrictions_of_actor (ph_uuid h) cfg user of
        None \<Rightarrow> domains
      | Some r \<Rightarrow>
          (let invalid = evidence_incomplete h domains user in
           fold (\<lambda>(name, values) ds. AList.update name (reduce_domain invalid values (map_of ds name)) ds)
             [(''models'', set (ar_models r)), (''tools'', {}), (''documents'', {})] domains))"

definition domain_allows :: "resolved_domain option \<Rightarrow> string \<Rightarrow> bool" where
  "domain_allows d v \<longleftrightarrow> (case d of None \<Rightarrow> True
     | Some x \<Rightarrow> \<not> rd_invalid x \<and> \<not> rd_unavailable x \<and> v \<in> rd_allowed x)"

definition allows_model_snapshot ::
  "policy_host \<Rightarrow> authenticated_user option \<Rightarrow> string \<Rightarrow> deployment_option \<Rightarrow> bool policy_result" where
  "allows_model_snapshot h user category dp =
     (if \<not> policy_enabled h
      then (case user of None \<Rightarrow> Inr True | Some u \<Rightarrow> bindE (actor_restriction_digest h u False) (\<lambda>d. Inr (d = None)))
      else bindE (configuration h) (\<lambda>cfg. let ds = policy_domains h cfg user in
        Inr (domain_allows (map_of ds ''models'') category \<and> domain_allows (map_of ds ''zones'') (residency dp))))"

definition allows_tool_snapshot :: "policy_host \<Rightarrow> authenticated_user option \<Rightarrow> string \<Rightarrow> bool policy_result" where
  "allows_tool_snapshot h user name =
     (if \<not> policy_enabled h
      then (case user of None \<Rightarrow> Inr True | Some u \<Rightarrow> bindE (actor_restriction_digest h u False) (\<lambda>d. Inr (d = None)))
      else bindE (configuration h) (\<lambda>cfg. let ds = policy_domains h cfg user in
        Inr (domain_allows (map_of ds ''tools'') name
          \<and> (case map_of DOCUMENT_TOOL_FEATURES name of None \<Rightarrow> True
             | Some f \<Rightarrow> domain_allows (map_of ds ''documents'') f))))"

section \<open>Resolution\<close>

text \<open>The admission read answers at the later moment; the exemption of an admin needs no read.\<close>

definition owner_limits ::
  "policy_host \<Rightarrow> policy_host \<Rightarrow> string \<Rightarrow> authenticated_user option \<Rightarrow> store_error + entitlement" where
  "owner_limits h h' owner user = (case user of
     Some u \<Rightarrow> if au_internal_user_id u = owner \<and> admin_is_unrestricted u (ph_settings h)
               then Inr (unrestricted_admin (ph_now h)) else ph_admission h' owner
   | None \<Rightarrow> ph_admission h' owner)"

definition spend_limits :: "spend_policy option \<Rightarrow> authenticated_user option \<Rightarrow> limits list" where
  "spend_limits sp user = (case sp of
     None \<Rightarrow> []
   | Some s \<Rightarrow> sl_default s # map sm_limits (filter (\<lambda>m. matched (sm_claim m) (sm_value m) user) (sl_mappings s)))"

definition resolve_policy ::
  "policy_host \<Rightarrow> policy_host \<Rightarrow> string \<Rightarrow> authenticated_user option \<Rightarrow> effective_policy policy_result" where
  "resolve_policy h h' owner user =
     (let read = owner_limits h h' owner user;
          base = (case read of Inl _ \<Rightarrow> unlimited owner (ph_now h) | Inr e \<Rightarrow> e);
          failed = (case read of Inl _ \<Rightarrow> True | Inr _ \<Rightarrow> False);
          empty = \<lparr>ep_owner_id = owner, ep_interactive = (user \<noteq> None), ep_digest = ''off'', ep_domains = [],
                   ep_limits = base, ep_limits_unavailable = failed, ep_spend_invalid = False,
                   ep_spend_unattended = False, ep_user = user, ep_binding = ph_binding h\<rparr>
      in if \<not> policy_enabled h then Inr empty
         else bindE (configuration h) (\<lambda>cfg.
           let mappings = (case pg_spend cfg of None \<Rightarrow> [] | Some s \<Rightarrow> sl_mappings s);
               spend = (case pg_spend cfg of None \<Rightarrow> base
                        | Some s \<Rightarrow> minimum_limits base (spend_limits (Some s) user));
               actor = (case restrictions_of_actor (ph_uuid h) cfg user of None \<Rightarrow> spend
                        | Some r \<Rightarrow> minimum_limits spend [ar_spend r])
           in Inr (empty\<lparr>ep_digest := policy_digest (ph_sha h) cfg, ep_limits := actor,
                ep_spend_invalid := (user \<noteq> None \<and> list_ex (\<lambda>m. \<not> spend_complete m user) mappings),
                ep_spend_unattended := (user = None \<and> mappings \<noteq> []),
                ep_domains := policy_domains h' cfg user\<rparr>)))"

definition resolve_user ::
  "policy_host \<Rightarrow> policy_host \<Rightarrow> authenticated_user \<Rightarrow> string option \<Rightarrow> effective_policy policy_result" where
  "resolve_user h h' u expected_owner =
     (if expected_owner \<noteq> None \<and> expected_owner \<noteq> Some (au_internal_user_id u)
      then policy_raise PolicyDeny OwnerMismatch
      else resolve_policy h h' (au_internal_user_id u) (Some u))"

definition resolve_unattended :: "policy_host \<Rightarrow> policy_host \<Rightarrow> string \<Rightarrow> effective_policy policy_result" where
  "resolve_unattended h h' owner =
     (if owner = [] \<or> 256 < length owner then policy_raise PolicyDeny OwnerMismatch
      else resolve_policy h h' owner None)"

section \<open>Decisions\<close>

definition answer :: "bool \<Rightarrow> policy_decision" where
  "answer ok = (if ok then decision_of PolicyAllow Allowed else decision_of PolicyDeny PolicyDenied)"

definition decide_domain ::
  "policy_host \<Rightarrow> effective_policy \<Rightarrow> string \<Rightarrow> string \<Rightarrow> bool \<Rightarrow> policy_decision policy_result" where
  "decide_domain h p name v legacy = (case map_of (ep_domains p) name of
     None \<Rightarrow> Inr (answer ((name \<noteq> ''admin'' \<or> legacy) \<and> \<not> (name = ''publication'' \<and> v \<noteq> ''consume'')))
   | Some d \<Rightarrow>
       if rd_unavailable d then Inr (decision_of PolicyUnavailable ReauthenticationRequired)
       else if rd_invalid d then Inr (decision_of PolicyDeny ClaimEvidenceInvalid)
       else (let ok = v \<notin> rd_denied d \<and> (legacy \<or> v \<in> rd_allowed d)
                      \<and> (case rd_restricted d of None \<Rightarrow> True | Some t \<Rightarrow> v \<in> t)
             in if name = ''admin'' \<and> \<not> legacy
                then (if ok then bindE (configuration h) (\<lambda>cfg. Inr (answer (v \<in> set (pg_adminCeiling cfg))))
                      else Inr (answer False))
                else Inr (answer ok)))"

definition METERED_OPERATIONS :: "string list" where
  "METERED_OPERATIONS = [''model.invoke'', ''tool.invoke'', ''document.process'', ''document.compute'', ''avatar.create'']"

definition consumption_state :: "policy_host \<Rightarrow> effective_policy \<Rightarrow> policy_decision" where
  "consumption_state h p =
     (if ep_binding p \<noteq> ph_binding h then policy_unavailable
      else case identity_decision h p of
          Some d \<Rightarrow> d
        | None \<Rightarrow>
            if lim_disabled (ep_limits p) then decision_of PolicyDeny AccountDisabled
            else if ep_spend_unattended p then decision_of PolicyUnavailable ReauthenticationRequired
            else if ep_spend_invalid p then decision_of PolicyDeny ClaimEvidenceInvalid
            else if ep_limits_unavailable p then policy_unavailable
            else decision_of PolicyAllow Allowed)"

definition starts :: "string \<Rightarrow> string \<Rightarrow> bool" where
  "starts prefix s \<longleftrightarrow> take (length prefix) s = prefix"

text \<open>\<open>operation.split(".", 1)[1]\<close>, of an operation with a dot.\<close>

definition after_dot :: "string \<Rightarrow> string" where
  "after_dot s = tl (dropWhile (\<lambda>c. c \<noteq> CHR ''.'') s)"

text \<open>The checks of a step, in order: the first that does not allow is the answer.\<close>

fun first_refusal :: "policy_decision policy_result list \<Rightarrow> policy_decision \<Rightarrow> policy_decision policy_result" where
  "first_refusal [] final = Inr final"
| "first_refusal (r # rs) final = bindE r (\<lambda>d. if pd_allowed d then first_refusal rs final else Inr d)"

definition model_checks :: "policy_host \<Rightarrow> effective_policy \<Rightarrow> policy_request \<Rightarrow> bool \<Rightarrow> policy_decision policy_result list" where
  "model_checks h p rq realtime_setup =
     (case (cat_get (ph_catalog h) (case pq_model_id rq of None \<Rightarrow> [] | Some m \<Rightarrow> m), pq_deployment rq) of
        (Some entry, Some dp) \<Rightarrow>
          (if dp \<notin> set (eligible_options (ph_model_allowed h) (ph_catalog h) True entry)
           then [Inr (decision_of PolicyDeny ModelUnavailable)]
           else (if realtime_setup \<and> me_category entry \<noteq> ''realtime'' then [Inr (decision_of PolicyDeny CanaryIncompatible)] else [])
             @ [decide_domain h p ''models'' (me_category entry) False, decide_domain h p ''zones'' (residency dp) False])
      | _ \<Rightarrow> [Inr (decision_of PolicyDeny ModelUnavailable)])"

definition tool_checks :: "policy_host \<Rightarrow> effective_policy \<Rightarrow> policy_request \<Rightarrow> policy_decision policy_result list" where
  "tool_checks h p rq = (case pq_tool_name rq of
     Some name \<Rightarrow> if name = [] then [Inr (answer False)]
       else decide_domain h p ''tools'' name False
         # (case map_of DOCUMENT_TOOL_FEATURES name of None \<Rightarrow> [] | Some f \<Rightarrow> [decide_domain h p ''documents'' f False])
   | None \<Rightarrow> [Inr (answer False)])"

definition decide :: "policy_host \<Rightarrow> effective_policy \<Rightarrow> policy_request \<Rightarrow> policy_decision policy_result" where
  "decide h p rq =
     (if ep_binding p \<noteq> ph_binding h then Inr policy_unavailable
      else if \<not> policy_enabled h
      then bindE (restricted_profile_of h True (ep_owner_id p)) (\<lambda>profile.
             Inr (if profile \<noteq> None then decision_of PolicyUnavailable CanaryUnconfigured else decision_of PolicyAllow Allowed))
      else case identity_decision h p of
          Some d \<Rightarrow> Inr d
        | None \<Rightarrow> bindE (restricted_profile_of h False (ep_owner_id p)) (\<lambda>profile.
            let operation = pq_operation rq in
            if profile = Some RealtimeSetup \<and> operation \<noteq> ''model.invoke''
            then Inr (decision_of PolicyDeny CanaryIncompatible)
            else if profile \<noteq> None \<and> ep_user p = None
            then Inr (decision_of PolicyUnavailable ReauthenticationRequired)
            else if profile \<noteq> None \<and> operation \<in> {''tool.invoke'', ''document.process'', ''document.compute'', ''avatar.create'', ''avatar.use''}
            then Inr (decision_of PolicyDeny CanaryIncompatible)
            else if starts ''admin.'' operation then decide_domain h p ''admin'' operation (pq_legacy_admin rq)
            else if starts ''publication.'' operation
            then (if \<not> ps_asset_publishing_enabled (ph_settings h) then Inr (decision_of PolicyDeny FeatureDisabled)
                  else decide_domain h p ''publication'' (after_dot operation) False)
            else first_refusal
              ((if starts ''document.'' operation then [decide_domain h p ''documents'' (after_dot operation) False] else [])
                @ (if starts ''avatar.'' operation then [decide_domain h p ''avatars'' (after_dot operation) False] else [])
                @ (if operation = ''tool.invoke'' then tool_checks h p rq else [])
                @ (if operation = ''model.invoke'' then model_checks h p rq (profile = Some RealtimeSetup) else []))
              (if operation \<in> set METERED_OPERATIONS then consumption_state h p else decision_of PolicyAllow Allowed)))"

section \<open>Authorization\<close>

text \<open>\<open>_authorize_current\<close>: \<open>h\<close> while the snapshot is decided, \<open>h'\<close> after the ledger has been read.\<close>

definition authorize_current ::
  "policy_host \<Rightarrow> policy_host \<Rightarrow> effective_policy \<Rightarrow> policy_request \<Rightarrow> policy_decision policy_result" where
  "authorize_current h h' p rq = bindE (decide h p rq) (\<lambda>d.
     if \<not> pd_allowed d \<or> \<not> policy_enabled h \<or> pq_operation rq \<notin> set METERED_OPERATIONS then Inr d
     else (let budget = fst (check_limits (ph_entitlements_enabled h) (ph_ledger h' (ep_owner_id p)) (ep_limits p)
                  (if pq_operation rq = ''document.compute'' then Compute else Chat) True)
           in if \<not> dec_allowed budget
              then Inr (decision_of (if dec_code budget = 503 then PolicyUnavailable else PolicyDeny)
                          (if dec_code budget = 503 then PolicyIsUnavailable else PolicyDenied)
                        \<lparr>pd_code := Some (dec_code budget), pd_retry_after_seconds := dec_retry_after budget\<rparr>)
              else case identity_decision h' p of Some i \<Rightarrow> Inr i | None \<Rightarrow> Inr d))"

definition authorize_policy ::
  "(nat \<Rightarrow> policy_host) \<Rightarrow> effective_policy \<Rightarrow> policy_request \<Rightarrow> policy_decision policy_result" where
  "authorize_policy w p rq =
     (if ep_binding p \<noteq> ph_binding (w 0) then Inr policy_unavailable
      else bindE (resolve_policy (w 0) (w 1) (ep_owner_id p) (ep_user p)) (\<lambda>current. authorize_current (w 1) (w 2) current rq))"

text \<open>\<open>require\<close> raises every decision that does not allow.\<close>

definition demand :: "policy_decision policy_result \<Rightarrow> unit policy_result" where
  "demand r = bindE r (\<lambda>d. if pd_allowed d then Inr () else Inl d)"

definition require :: "(nat \<Rightarrow> policy_host) \<Rightarrow> effective_policy \<Rightarrow> policy_request \<Rightarrow> unit policy_result" where
  "require w p rq = demand (authorize_policy w p rq)"

section \<open>Restricted actors\<close>

definition canary_envelope :: "policy_host \<Rightarrow> effective_policy \<Rightarrow> restricted_profile \<Rightarrow> policy_decision policy_result" where
  "canary_envelope h p profile = bindE (configuration h) (\<lambda>cfg.
     case (ep_user p, actor_for cfg profile) of
       (Some u, Some expected) \<Rightarrow>
         if au_provider u \<noteq> ''entra'' \<or> au_tenant_id u \<noteq> Some (ca_tenantId expected) \<or> au_subject u \<noteq> ca_subject expected
         then Inr (decision_of PolicyDeny OwnerMismatch)
         else (case identity_decision h p of
           Some d \<Rightarrow> Inr d
         | None \<Rightarrow>
             if (case au_policy_claims u of None \<Rightarrow> True | Some e \<Rightarrow> \<not> (pc_roles_complete e \<and> pc_groups_complete e))
             then Inr (decision_of PolicyUnavailable ClaimEvidenceInvalid)
             else if identity_is_admin u (ph_settings h) then Inr (decision_of PolicyDeny CanaryIncompatible)
             else first_refusal
               (map (\<lambda>op. bindE (decide_domain h p ''admin'' op False) (\<lambda>d.
                    Inr (if pd_allowed d then decision_of PolicyDeny CanaryIncompatible else decision_of PolicyAllow Allowed)))
                  ADMIN_OPERATIONS
                @ map (\<lambda>op. bindE (decide_domain h p ''publication'' op False) (\<lambda>d.
                    Inr (if pd_allowed d then decision_of PolicyDeny CanaryIncompatible else decision_of PolicyAllow Allowed)))
                  [''submit'', ''review'']
                @ [Inr (if list_ex (\<lambda>n. case map_of (ep_domains p) n of None \<Rightarrow> True | Some d \<Rightarrow> rd_invalid d \<or> rd_unavailable d)
                            [''models'', ''tools'', ''documents'']
                        then decision_of PolicyUnavailable CanaryIncompatible
                        else let models = rd_allowed (the (map_of (ep_domains p) ''models'')) in
                          if rd_allowed (the (map_of (ep_domains p) ''tools'')) \<noteq> {}
                             \<or> rd_allowed (the (map_of (ep_domains p) ''documents'')) \<noteq> {}
                             \<or> \<not> models \<subset> me_category ` set (mc_models (ph_catalog h))
                             \<or> profile = RealtimeSetup \<and> models \<noteq> {''realtime''}
                          then decision_of PolicyDeny CanaryIncompatible
                          else if ep_limits_unavailable p then policy_unavailable
                          else if \<not> list_ex (\<lambda>v. v \<noteq> None) (chat_limits (ep_limits p)) \<or> \<not> ph_entitlements_enabled h
                          then decision_of PolicyDeny CanaryIncompatible
                          else if ps_hard_quota_enabled (ph_settings h) then decision_of PolicyUnavailable SurfaceUnsupported
                          else decision_of PolicyAllow Allowed)])
               (consumption_state h p))
     | _ \<Rightarrow> Inr (decision_of PolicyDeny OwnerMismatch))"

definition same_policy :: "effective_policy \<Rightarrow> effective_policy \<Rightarrow> bool" where
  "same_policy p q \<longleftrightarrow> ep_digest p = ep_digest q \<and> ep_limits p = ep_limits q"

text \<open>The moments of the probe: resolution, its decision, the authorization, and the second resolution.\<close>

definition restricted_probe ::
  "(nat \<Rightarrow> policy_host) \<Rightarrow> authenticated_user \<Rightarrow> string \<Rightarrow> deployment_option \<Rightarrow> restricted_profile \<Rightarrow> policy_decision policy_result" where
  "restricted_probe w u model_id dp profile =
     (if \<not> policy_enabled (w 0) then Inr (decision_of PolicyUnavailable CanaryUnconfigured)
      else bindE (configuration (w 0)) (\<lambda>cfg. case actor_for cfg profile of
        None \<Rightarrow> Inr (decision_of PolicyUnavailable CanaryUnconfigured)
      | Some expected \<Rightarrow>
          if profile = RealtimeSetup \<and> (\<not> ps_realtime_enabled (ph_settings (w 0))
               \<or> ps_realtime_protocol (ph_settings (w 0)) \<noteq> ''ga''
               \<or> ''azure_openai'' \<notin> set (ps_voice_providers (ph_settings (w 0))))
          then Inr (decision_of PolicyUnavailable FeatureDisabled)
          else if au_provider u \<noteq> ''entra'' \<or> au_tenant_id u \<noteq> Some (ca_tenantId expected) \<or> au_subject u \<noteq> ca_subject expected
               \<or> au_internal_user_id u \<noteq> marker_owner (ph_uuid (w 0)) expected
          then Inr (decision_of PolicyDeny OwnerMismatch)
          else bindE (resolve_user (w 0) (w 1) u None) (\<lambda>actor.
               bindE (canary_envelope (w 1) actor profile) (\<lambda>envelope.
               if \<not> pd_allowed envelope then Inr envelope
               else (let rq = \<lparr>pq_operation = ''model.invoke'', pq_model_id = Some model_id, pq_deployment = Some dp,
                              pq_tool_name = None, pq_legacy_admin = False\<rparr> in
                 bindE (authorize_policy (\<lambda>i. w (i + 1)) actor rq) (\<lambda>d.
                 if \<not> pd_allowed d then Inr d
                 else bindE (resolve_user (w 3) (w 4) u None) (\<lambda>latest.
                   if \<not> same_policy latest actor then Inr (decision_of PolicyUnavailable CanaryIncompatible)
                   else bindE (canary_envelope (w 4) latest profile) (\<lambda>envelope.
                     if pd_allowed envelope then decide (w 4) latest rq else Inr envelope))))))))"

definition guard_canary_dispatch ::
  "(nat \<Rightarrow> policy_host) \<Rightarrow> effective_policy \<Rightarrow> string \<Rightarrow> string option \<Rightarrow> json \<Rightarrow> bool \<Rightarrow> restricted_profile \<Rightarrow> unit policy_result" where
  "guard_canary_dispatch w p surface deployment payload bound_required profile =
     bindE (profile_owner (w 0) False profile) (\<lambda>current_owner.
       if \<not> bound_required \<and> Some (ep_owner_id p) \<noteq> current_owner then Inr ()
       else if Some (ep_owner_id p) \<noteq> current_owner \<or> ep_user p = None then policy_raise PolicyUnavailable CanaryUnconfigured
       else if surface \<noteq> (if profile = RealtimeSetup then ''realtime'' else ''chat'') \<or> deployment = None
       then policy_raise PolicyDeny CanaryIncompatible
       else bindE (demand (canary_envelope (w 0) p profile)) (\<lambda>_.
         case ph_guard (w 0) profile of
           None \<Rightarrow> policy_raise PolicyUnavailable CanaryIncompatible
         | Some guard \<Rightarrow>
             if \<not> guard (ep_owner_id p) (the deployment) payload then policy_raise PolicyDeny CanaryIncompatible
             else bindE (resolve_user (w 1) (w 2) (the (ep_user p)) None) (\<lambda>latest.
                  bindE (profile_owner (w 2) False profile) (\<lambda>owner.
                    if \<not> same_policy latest p \<or> owner \<noteq> Some (ep_owner_id p)
                    then policy_raise PolicyUnavailable CanaryIncompatible
                    else if identity_decision (w 2) latest \<noteq> None
                    then policy_raise PolicyUnavailable ReauthenticationRequired
                    else Inr ()))))"

end
