(* ===== verification/Policy_Context.thy ===== *)
theory Policy_Context
  imports Policy_Service
begin

text \<open>
  \<open>policy/context.py\<close>, \<open>policy/dispatch.py\<close> and \<open>policy/routes.py\<close>: the policy binding of a task, the check
  in front of an operation, the seam in front of every outbound call and the operations of a route.
  The check of a publication's source (\<open>xc_source\<close>, when one is bound) and of its frozen requests
  (\<open>xc_publication\<close>) are parameters; their refusals are carried as decisions.
\<close>

section \<open>The binding of a task\<close>

record policy_binding =
  pb_service :: nat
  pb_owner_id :: string
  pb_user :: "authenticated_user option"
  pb_canary_required :: bool
  pb_restricted_profile :: "restricted_profile option"
  pb_actor_policy_digest :: "string option"
  pb_configuration_error :: "policy_decision option"

record execution_checks =
  xc_source :: "nat \<Rightarrow> unit policy_result"
  xc_publication :: "policy_request \<Rightarrow> unit policy_result"

definition require_configuration :: "policy_binding \<Rightarrow> unit policy_result" where
  "require_configuration b = (case pb_configuration_error b of None \<Rightarrow> Inr () | Some d \<Rightarrow> Inl d)"

definition actor_policy_current :: "policy_host \<Rightarrow> policy_binding \<Rightarrow> bool policy_result" where
  "actor_policy_current h b = (case pb_restricted_profile b of
     None \<Rightarrow> Inr True
   | Some profile \<Rightarrow>
       if \<not> policy_enabled h then Inr False
       else bindE (profile_owner h False profile) (\<lambda>owner.
         if owner \<noteq> Some (pb_owner_id b) then Inr False
         else case pb_actor_policy_digest b of
             None \<Rightarrow> Inr True
           | Some d \<Rightarrow> bindE (configuration h) (\<lambda>cfg. Inr (d = policy_digest (ph_sha h) cfg))))"

definition resolve_binding :: "policy_host \<Rightarrow> policy_host \<Rightarrow> policy_binding \<Rightarrow> effective_policy policy_result" where
  "resolve_binding h h' b = bindE (require_configuration b) (\<lambda>_.
     bindE (actor_policy_current h b) (\<lambda>current.
       if \<not> current then policy_raise PolicyUnavailable CanaryUnconfigured
       else case pb_user b of
           Some u \<Rightarrow> resolve_user h h' u (Some (pb_owner_id b))
         | None \<Rightarrow> resolve_unattended h h' (pb_owner_id b)))"

text \<open>
  \<open>bind_authenticated\<close>: a configuration that cannot be read is kept in the binding, for every
  protected consumer; the restrictions last known still apply. What was read is cached.
\<close>

definition last_configuration :: "policy_host \<Rightarrow> policy_config option" where
  "last_configuration h = (if policy_enabled h then ph_config (after_configuration h) else ph_config h)"

definition bind_authenticated :: "policy_host \<Rightarrow> authenticated_user \<Rightarrow> policy_binding policy_result" where
  "bind_authenticated h u =
     (let cfg = last_configuration h; owner = au_internal_user_id u;
          binding = \<lparr>pb_service = ph_binding h, pb_owner_id = owner, pb_user = Some u,
            pb_canary_required = (owner_of_profile (ph_uuid h) cfg MonitorCanary = Some owner),
            pb_restricted_profile = profile_of_owner (ph_uuid h) cfg owner,
            pb_actor_policy_digest = None, pb_configuration_error = None\<rparr>
      in case actor_restriction_digest h u False of
          Inr d \<Rightarrow> Inr (binding\<lparr>pb_actor_policy_digest := d\<rparr>)
        | Inl e \<Rightarrow> if e \<noteq> policy_unavailable then Inl e
            else bindE (actor_restriction_digest h u True) (\<lambda>d.
              Inr (binding\<lparr>pb_actor_policy_digest := d, pb_configuration_error := Some e\<rparr>)))"

definition bind_unattended :: "policy_host \<Rightarrow> string \<Rightarrow> policy_binding policy_result" where
  "bind_unattended h owner = bindE (canary_owner h False) (\<lambda>canary. bindE (restricted_profile_of h False owner) (\<lambda>profile.
     Inr \<lparr>pb_service = ph_binding h, pb_owner_id = owner, pb_user = None, pb_canary_required = (canary = Some owner),
          pb_restricted_profile = profile, pb_actor_policy_digest = None, pb_configuration_error = None\<rparr>))"

definition bound_unrestricted_admin :: "policy_host \<Rightarrow> policy_binding option \<Rightarrow> string \<Rightarrow> bool" where
  "bound_unrestricted_admin h binding owner = (case binding of
     None \<Rightarrow> False
   | Some b \<Rightarrow> (case pb_user b of
         None \<Rightarrow> False
       | Some u \<Rightarrow> pb_owner_id b = owner \<and> au_internal_user_id u = owner \<and> admin_is_unrestricted u (ph_settings h)))"

text \<open>\<open>model_allowed\<close> and \<open>tool_allowed\<close> differ in the snapshot they ask.\<close>

definition snapshot_allowed ::
  "policy_host \<Rightarrow> policy_binding option \<Rightarrow> (authenticated_user option \<Rightarrow> bool policy_result) \<Rightarrow> bool policy_result" where
  "snapshot_allowed h binding snapshot = (case binding of
     None \<Rightarrow> Inr True
   | Some b \<Rightarrow> bindE (require_configuration b) (\<lambda>_.
       bindE (if pb_actor_policy_digest b \<noteq> None then actor_policy_current h b else Inr True) (\<lambda>current.
         if \<not> current then Inr False else snapshot (pb_user b))))"

definition model_allowed :: "policy_host \<Rightarrow> policy_binding option \<Rightarrow> string \<Rightarrow> deployment_option \<Rightarrow> bool policy_result" where
  "model_allowed h binding category dp =
     snapshot_allowed h binding (\<lambda>user. allows_model_snapshot h user category dp)"

definition tool_allowed :: "policy_host \<Rightarrow> policy_binding option \<Rightarrow> string \<Rightarrow> bool policy_result" where
  "tool_allowed h binding name = snapshot_allowed h binding (\<lambda>user. allows_tool_snapshot h user name)"

section \<open>The check in front of an operation\<close>

fun all_pass :: "unit policy_result list \<Rightarrow> unit policy_result" where
  "all_pass [] = Inr ()"
| "all_pass (r # rs) = bindE r (\<lambda>_. all_pass rs)"

definition bound_profile :: "policy_host \<Rightarrow> policy_binding \<Rightarrow> restricted_profile option policy_result" where
  "bound_profile h b = (case pb_restricted_profile b of
     Some p \<Rightarrow> Inr (Some p) | None \<Rightarrow> restricted_profile_of h True (pb_owner_id b))"

text \<open>\<open>_finish_policy_check\<close>: \<open>h\<close> is the host after the source check, the \<open>n\<close>-th await of the task.\<close>

definition finish_policy_check ::
  "policy_host \<Rightarrow> execution_checks \<Rightarrow> nat \<Rightarrow> effective_policy option \<Rightarrow> policy_request list \<Rightarrow> unit policy_result" where
  "finish_policy_check h x n effective rqs = bindE (xc_source x n) (\<lambda>_.
     bindE (case effective of
         None \<Rightarrow> Inr ()
       | Some p \<Rightarrow>
           if \<not> policy_enabled h then Inl policy_unavailable
           else bindE (configuration h) (\<lambda>cfg.
             if ep_digest p \<noteq> policy_digest (ph_sha h) cfg then Inl policy_unavailable
             else case identity_decision h p of None \<Rightarrow> Inr () | Some d \<Rightarrow> Inl d)) (\<lambda>_.
       all_pass (map (xc_publication x) rqs)))"

definition start_policy_check :: "policy_host \<Rightarrow> policy_binding \<Rightarrow> unit policy_result" where
  "start_policy_check h b = bindE (require_configuration b) (\<lambda>_. bindE (bound_profile h b) (\<lambda>profile.
     if profile \<noteq> None \<and> \<not> policy_enabled h then policy_raise PolicyUnavailable CanaryUnconfigured else Inr ()))"

text \<open>The moments of \<open>require_policy\<close>: 0 and 1 resolve, 1 to 3 authorize, 4 is after the source check.\<close>

definition require_policy ::
  "(nat \<Rightarrow> policy_host) \<Rightarrow> execution_checks \<Rightarrow> policy_binding option \<Rightarrow> policy_request \<Rightarrow> string option \<Rightarrow> unit policy_result" where
  "require_policy w x binding rq owner_id = (case binding of
     None \<Rightarrow> Inr ()
   | Some b \<Rightarrow>
       if owner_id \<noteq> None \<and> owner_id \<noteq> Some (pb_owner_id b) then policy_raise PolicyDeny OwnerMismatch
       else bindE (start_policy_check (w 0) b) (\<lambda>_.
         if \<not> policy_enabled (w 0) then finish_policy_check (w 1) x 0 None [rq]
         else bindE (resolve_binding (w 0) (w 1) b) (\<lambda>p.
              bindE (require (\<lambda>i. w (i + 1)) p rq) (\<lambda>_. finish_policy_check (w 4) x 3 (Some p) [rq]))))"

fun authorize_all :: "(nat \<Rightarrow> policy_host) \<Rightarrow> effective_policy \<Rightarrow> policy_request list \<Rightarrow> unit policy_result" where
  "authorize_all w p [] = Inr ()"
| "authorize_all w p (rq # rqs) =
     bindE (demand (authorize_current (w 0) (w 1) p rq)) (\<lambda>_. authorize_all (\<lambda>i. w (i + 1)) p rqs)"

text \<open>\<open>require_policies\<close>; \<open>service\<close> is the identity of the caller's service and whether it is enabled.\<close>

definition require_policies ::
  "(nat \<Rightarrow> policy_host) \<Rightarrow> execution_checks \<Rightarrow> policy_binding option \<Rightarrow> policy_request list \<Rightarrow> (nat \<times> bool) option
    \<Rightarrow> (effective_policy \<Rightarrow> unit policy_result) \<Rightarrow> unit policy_result" where
  "require_policies w x binding rqs service validate =
     (if (case service of None \<Rightarrow> False
          | Some (s, on) \<Rightarrow> on \<and> (case binding of None \<Rightarrow> True | Some b \<Rightarrow> pb_service b \<noteq> s))
      then policy_raise PolicyUnavailable ReauthenticationRequired
      else case binding of
          None \<Rightarrow> Inr ()
        | Some b \<Rightarrow> bindE (start_policy_check (w 0) b) (\<lambda>_.
            if \<not> policy_enabled (w 0) then finish_policy_check (w 1) x 0 None rqs
            else bindE (resolve_binding (w 0) (w 1) b) (\<lambda>p.
                 bindE (validate p) (\<lambda>_.
                 bindE (authorize_all (\<lambda>i. w (i + 1)) p rqs) (\<lambda>_.
                   finish_policy_check (w (length rqs + 2)) x (length rqs + 1) (Some p) rqs)))))"

definition require_bound_policy ::
  "(nat \<Rightarrow> policy_host) \<Rightarrow> execution_checks \<Rightarrow> policy_binding option \<Rightarrow> nat \<times> bool \<Rightarrow> policy_request \<Rightarrow> unit policy_result" where
  "require_bound_policy w x binding service rq =
     (if snd service \<and> (case binding of None \<Rightarrow> True | Some b \<Rightarrow> pb_service b \<noteq> fst service)
      then policy_raise PolicyUnavailable ReauthenticationRequired else require_policy w x binding rq None)"

section \<open>The seam in front of an outbound call\<close>

definition plain_request :: "string \<Rightarrow> policy_request" where
  "plain_request operation = \<lparr>pq_operation = operation, pq_model_id = None, pq_deployment = None, pq_tool_name = None,
     pq_legacy_admin = False\<rparr>"

definition model_request :: "string \<Rightarrow> deployment_option \<Rightarrow> policy_request" where
  "model_request model_id dp = (plain_request ''model.invoke'')\<lparr>pq_model_id := Some model_id, pq_deployment := Some dp\<rparr>"

definition tool_request :: "string option \<Rightarrow> policy_request" where
  "tool_request name = (plain_request ''tool.invoke'')\<lparr>pq_tool_name := name\<rparr>"

definition avatar_creation_zone_scoped :: "effective_policy \<Rightarrow> bool" where
  "avatar_creation_zone_scoped p \<longleftrightarrow> map_of (ep_domains p) ''zones'' \<noteq> None"

definition deployments_named :: "model_catalog \<Rightarrow> string \<Rightarrow> (model_entry \<times> deployment_option) list" where
  "deployments_named c name = concat (map (\<lambda>m. map (\<lambda>o1. (m, o1))
     (filter (\<lambda>o1. dp_deploymentName o1 = name) (me_options m))) (mc_models c))"

text \<open>A call: the surface it uses, the deployment it names, and the body it will send.\<close>

record outbound_call =
  ob_surface :: string
  ob_deployment :: "string option"
  ob_required :: bool
  ob_expected_owner :: "string option"
  ob_service :: "(nat \<times> bool) option"
  ob_payload :: json
  ob_final :: bool

definition refuse_zoned :: "bool \<Rightarrow> unit policy_result" where
  "refuse_zoned zoned = (if zoned then policy_raise PolicyUnavailable SurfaceUnsupported else Inr ())"

definition authorize_surface ::
  "(nat \<Rightarrow> policy_host) \<Rightarrow> execution_checks \<Rightarrow> policy_binding \<Rightarrow> effective_policy \<Rightarrow> string option \<Rightarrow> string \<Rightarrow> unit policy_result" where
  "authorize_surface w x b actor tool surface =
     (let zoned = avatar_creation_zone_scoped actor; ask = (\<lambda>rq. require_policy w x (Some b) rq None) in
      if surface = ''document'' \<or> surface = ''compute'' then
        bindE (ask (plain_request (if surface = ''document'' then ''document.process'' else ''document.compute''))) (\<lambda>_.
          refuse_zoned (zoned \<or> surface = ''document'' \<and> map_of (ep_domains actor) ''models'' \<noteq> None))
      else if surface = ''avatar'' then bindE (ask (plain_request ''avatar.create'')) (\<lambda>_. refuse_zoned zoned)
      else if surface = ''avatar_live'' then bindE (ask (plain_request ''avatar.use'')) (\<lambda>_. refuse_zoned zoned)
      else if surface = ''mcp'' \<or> surface = ''external_tool'' \<or> surface = ''web_search'' then
        (case tool of
           Some name \<Rightarrow> ask (tool_request (Some name))
         | None \<Rightarrow> if map_of (ep_domains actor) ''tools'' \<noteq> None then policy_raise PolicyUnavailable SurfaceUnsupported
             else ask (tool_request (Some ''unscoped_service'')))
      else if surface = ''realtime'' \<and> map_of (ep_domains actor) ''models'' = None \<and> \<not> zoned
      then ask (tool_request (Some ''unscoped_service''))
      else policy_raise PolicyUnavailable SurfaceUnsupported)"

text \<open>\<open>authorize_dispatch\<close>: moments 0 and 1 resolve the actor, 1 to 5 are the check's, the guard's follow.\<close>

definition authorize_dispatch ::
  "(nat \<Rightarrow> policy_host) \<Rightarrow> execution_checks \<Rightarrow> policy_binding option \<Rightarrow> string option \<Rightarrow> outbound_call \<Rightarrow> unit policy_result" where
  "authorize_dispatch w x binding tool c =
     (if (ob_required c \<or> (case ob_service c of None \<Rightarrow> False | Some (s, on) \<Rightarrow> on))
         \<and> (case binding of None \<Rightarrow> True | Some b \<Rightarrow> (case ob_service c of None \<Rightarrow> False | Some (s, on) \<Rightarrow> pb_service b \<noteq> s))
      then policy_raise PolicyUnavailable ReauthenticationRequired
      else case binding of
          None \<Rightarrow> Inr ()
        | Some b \<Rightarrow>
            if ob_expected_owner c \<noteq> None \<and> ob_expected_owner c \<noteq> Some (pb_owner_id b) then policy_raise PolicyDeny OwnerMismatch
            else if \<not> policy_enabled (w 0)
            then (if pb_restricted_profile b \<noteq> None then policy_raise PolicyUnavailable CanaryUnconfigured
                  else require_policy w x (Some b) (tool_request tool) None)
            else bindE (resolve_binding (w 0) (w 1) b) (\<lambda>actor.
              bindE (case pb_restricted_profile b of
                  Some p \<Rightarrow> Inr (Some p) | None \<Rightarrow> restricted_profile_of (w 1) False (ep_owner_id actor)) (\<lambda>profile.
              if profile \<noteq> None \<and> ob_surface c \<noteq> (if profile = Some RealtimeSetup then ''realtime'' else ''chat'')
              then policy_raise PolicyDeny CanaryIncompatible
              else case ob_deployment c of
                  None \<Rightarrow> authorize_surface (\<lambda>i. w (i + 1)) x b actor tool (ob_surface c)
                | Some name \<Rightarrow> (case deployments_named (ph_catalog (w 1)) name of
                    [(m, o1)] \<Rightarrow>
                      bindE (require_policy (\<lambda>i. w (i + 1)) x (Some b) (model_request (me_id m) o1) None) (\<lambda>_.
                        case profile of
                          Some p \<Rightarrow> if ob_final c
                            then bindE (resolve_binding (w 5) (w 6) b) (\<lambda>latest.
                                   guard_canary_dispatch (\<lambda>i. w (i + 6)) latest (ob_surface c) (Some name) (ob_payload c) True p)
                            else Inr ()
                        | None \<Rightarrow> Inr ())
                  | _ \<Rightarrow> policy_raise PolicyDeny ModelUnavailable))))"

section \<open>Routes\<close>

definition LIBRARY_OPERATIONS :: "(string, string list) dict" where
  "LIBRARY_OPERATIONS =
    [(''library_summary'', [''document.read'']), (''list_documents'', [''document.read'']),
     (''upload_document'', [''document.upload'']), (''get_document_analysis'', [''document.read'']),
     (''get_document'', [''document.read'']), (''list_document_versions'', [''document.read'']),
     (''download_document_version'', [''document.export'']), (''get_media_timeline'', [''document.read'']),
     (''stream_document_media'', [''document.read'']), (''get_document_index'', [''document.index'']),
     (''reindex_document'', [''document.index'', ''document.process'']),
     (''reindex_all_documents'', [''document.index'', ''document.process'']),
     (''save_document_to_memory'', [''document.memory'']), (''list_shared_with_me'', [''document.read'']),
     (''get_document_shares'', [''document.share'']), (''set_document_shares'', [''document.share'']),
     (''list_annotations'', [''document.annotate'']), (''create_annotation'', [''document.annotate'']),
     (''update_annotation'', [''document.annotate'']), (''list_analyzers'', [''document.analyzers'']),
     (''get_analyzer'', [''document.analyzers'']), (''create_analyzer'', [''document.analyzers''])]"

definition LIBRARY_CLEANUP :: "string list" where
  "LIBRARY_CLEANUP = [''purge_document_chunks'', ''delete_document'', ''forget_document_from_memory'',
     ''revoke_document_share'', ''delete_annotation'', ''delete_analyzer'']"

definition PHOTO_AVATAR_OPERATIONS :: "(string, string list) dict" where
  "PHOTO_AVATAR_OPERATIONS = [(''create_photo_avatar'', [''avatar.create'']), (''get_photo_avatar_preview'', [''avatar.use''])]"

definition PHOTO_AVATAR_UNGRANTED :: "string list" where
  "PHOTO_AVATAR_UNGRANTED = [''get_photo_avatar_config'', ''list_photo_avatars'', ''get_photo_avatar'',
     ''delete_photo_avatar'', ''report_photo_avatar'']"

definition ADMIN_ROUTE_OPERATIONS :: "(string, string list) dict" where
  "ADMIN_ROUTE_OPERATIONS =
    [(''usage_summary'', [''admin.usage.read'']), (''usage_by_model'', [''admin.usage.read'']),
     (''usage_by_day'', [''admin.usage.read'']), (''usage_agents'', [''admin.usage.read'']),
     (''usage_user_agents'', [''admin.usage.read'']), (''usage_distributions'', [''admin.usage.read'']),
     (''usage_overview'', [''admin.usage.read'', ''admin.entitlements.read'']),
     (''usage_by_user'', [''admin.usage.read'', ''admin.entitlements.read'']),
     (''metrics_resources'', [''admin.metrics.resources.read'']), (''metrics_operations'', [''admin.metrics.operations.read'']),
     (''metrics_security'', [''admin.metrics.security.read'']), (''metrics_web_search'', [''admin.metrics.websearch.read'']),
     (''metrics_official_mcp'', [''admin.mcp.inspect'']), (''list_overrides'', [''admin.entitlements.read'']),
     (''get_user_entitlement'', [''admin.entitlements.read'']), (''set_user_entitlement'', [''admin.entitlements.write'']),
     (''clear_user_entitlement'', [''admin.entitlements.write''])]"

text \<open>The flags are the query parameters of that name, after their validation.\<close>

definition admin_operations :: "string \<Rightarrow> string \<Rightarrow> bool \<Rightarrow> bool \<Rightarrow> string list policy_result" where
  "admin_operations module name identify refresh =
     (if module \<notin> {''admin_usage'', ''entitlements''} then policy_raise PolicyDeny SurfaceUnsupported
      else case map_of ADMIN_ROUTE_OPERATIONS name of
          None \<Rightarrow> policy_raise PolicyDeny SurfaceUnsupported
        | Some ops \<Rightarrow> Inr (ops @ (if identify then [''admin.directory.read''] else [])
            @ (if name = ''metrics_official_mcp'' \<and> refresh then [''admin.mcp.refresh''] else [])))"

definition route_operations :: "string \<Rightarrow> string \<Rightarrow> string list policy_result" where
  "route_operations module name =
     (if module = ''library'' then
        (if name \<in> set LIBRARY_CLEANUP then Inr []
         else case map_of LIBRARY_OPERATIONS name of None \<Rightarrow> policy_raise PolicyDeny SurfaceUnsupported | Some ops \<Rightarrow> Inr ops)
      else if module = ''documents'' then
        (if name = ''upload_document'' then Inr [''document.upload'']
         else if name = ''list_documents'' then Inr [''document.read'']
         else if name = ''delete_document'' then Inr [] else policy_raise PolicyDeny SurfaceUnsupported)
      else if module = ''docprocessing'' then Inr [''document.export'']
      else if module = ''photo_avatars'' then
        (if name \<in> set PHOTO_AVATAR_UNGRANTED then Inr []
         else case map_of PHOTO_AVATAR_OPERATIONS name of None \<Rightarrow> policy_raise PolicyDeny SurfaceUnsupported | Some ops \<Rightarrow> Inr ops)
      else Inr [])"

fun require_each ::
  "(nat \<Rightarrow> policy_host) \<Rightarrow> execution_checks \<Rightarrow> policy_binding \<Rightarrow> string list \<Rightarrow> unit policy_result" where
  "require_each w x b [] = Inr ()"
| "require_each w x b (op # ops) = bindE (require_policy w x (Some b) (plain_request op) (Some (pb_owner_id b)))
     (\<lambda>_. require_each (\<lambda>i. w (i + 4)) x b ops)"

definition authorize_http_operation ::
  "(nat \<Rightarrow> policy_host) \<Rightarrow> execution_checks \<Rightarrow> policy_binding option \<Rightarrow> string \<Rightarrow> string \<Rightarrow> unit policy_result" where
  "authorize_http_operation w x binding module name = (case binding of
     None \<Rightarrow> Inr ()
   | Some b \<Rightarrow> bindE (bound_profile (w 0) b) (\<lambda>profile.
       if \<not> policy_enabled (w 0) \<and> profile = None \<and> pb_configuration_error b = None then Inr ()
       else bindE (route_operations module name) (\<lambda>ops. require_each w x b ops)))"

end
