(* ===== verification/Policy_Safety.thy ===== *)
theory Policy_Safety
  imports Policy_Context
begin

text \<open>
  What the policy grants, stated over the rules of the configuration, and that the decisions of the
  service are exactly that: \<open>permits\<close> for one domain, \<open>grants\<close> for a domain of a configuration. An
  actor's restrictions only take away from it, and the tightest of the limits applies.
\<close>

section \<open>One domain\<close>

definition permits :: "string \<Rightarrow> domain_policy \<Rightarrow> authenticated_user option \<Rightarrow> string \<Rightarrow> bool" where
  "permits name d user v \<longleftrightarrow>
     (\<exists>r \<in> set (active_rules d user). v \<in> expanded name (dr_allow r))
     \<and> (\<forall>r \<in> set (active_rules d user). v \<notin> expanded name (dr_deny r)
          \<and> (\<forall>vs. dr_restrict r = Some vs \<longrightarrow> v \<in> expanded name vs))"

definition evidenced :: "domain_policy \<Rightarrow> authenticated_user option \<Rightarrow> bool" where
  "evidenced d user \<longleftrightarrow> (if user = None then dm_mappings d = [] else \<forall>m \<in> set (dm_mappings d). rule_complete m user)"

definition grants :: "policy_config \<Rightarrow> authenticated_user option \<Rightarrow> string \<Rightarrow> string \<Rightarrow> bool" where
  "grants cfg user name v \<longleftrightarrow> (case map_of (pg_domains cfg) name of
     None \<Rightarrow> name = ''publication'' \<longrightarrow> v = ''consume''
   | Some d \<Rightarrow> evidenced d user \<and> permits name d user v)"

definition within_restriction :: "string set option \<Rightarrow> string \<Rightarrow> bool" where
  "within_restriction r v \<longleftrightarrow> (case r of None \<Rightarrow> True | Some t \<Rightarrow> v \<in> t)"

lemma within_restriction_simps [simp]: "within_restriction None v" "within_restriction (Some t) v \<longleftrightarrow> v \<in> t"
  by (simp_all add: within_restriction_def)

lemma restrict_rules_members:
  "(v \<in> fst (restrict_rules name rs (a, r)) \<longleftrightarrow>
      v \<in> a \<and> (\<forall>x \<in> set rs. \<forall>vs. dr_restrict x = Some vs \<longrightarrow> v \<in> expanded name vs))
   \<and> (within_restriction (snd (restrict_rules name rs (a, r))) v \<longleftrightarrow>
      within_restriction r v \<and> (\<forall>x \<in> set rs. \<forall>vs. dr_restrict x = Some vs \<longrightarrow> v \<in> expanded name vs))"
proof (induction rs arbitrary: a r)
  case (Cons x rs)
  then show ?case
    by (cases "dr_restrict x") (auto simp: within_restriction_def split: option.splits)
qed simp

lemma compose_domain_exact:
  "rd_allowed (compose_domain name d user) = {v. permits name d user v}"
  "v \<notin> rd_denied (compose_domain name d user) \<and> v \<in> rd_allowed (compose_domain name d user)
     \<and> within_restriction (rd_restricted (compose_domain name d user)) v \<longleftrightarrow> permits name d user v"
  "rd_unavailable (compose_domain name d user) \<longleftrightarrow> user = None \<and> dm_mappings d \<noteq> []"
  "rd_invalid (compose_domain name d user) \<longleftrightarrow> user \<noteq> None \<and> \<not> (\<forall>m \<in> set (dm_mappings d). rule_complete m user)"
proof -
  show "rd_allowed (compose_domain name d user) = {v. permits name d user v}"
    by (auto simp: compose_domain_def Let_def restrict_rules_members permits_def)
  then show "v \<notin> rd_denied (compose_domain name d user) \<and> v \<in> rd_allowed (compose_domain name d user)
     \<and> within_restriction (rd_restricted (compose_domain name d user)) v \<longleftrightarrow> permits name d user v"
    by (auto simp: compose_domain_def Let_def restrict_rules_members permits_def)
qed (auto simp: compose_domain_def Let_def list_ex_iff)

lemma compose_usable:
  "\<not> rd_unavailable (compose_domain name d user) \<and> \<not> rd_invalid (compose_domain name d user) \<longleftrightarrow> evidenced d user"
  by (auto simp: compose_domain_exact evidenced_def)

section \<open>The domains of a principal\<close>

lemma map_of_map_pair: "map_of (map (\<lambda>(k, v). (k, f k v)) xs) k = map_option (f k) (map_of xs k)"
  by (induction xs) auto

lemma plain_domain:
  "restrictions_of_actor (ph_uuid h) cfg user = None \<Longrightarrow>
     map_of (policy_domains h cfg user) name = map_option (\<lambda>d. compose_domain name d user) (map_of (pg_domains cfg) name)"
  by (simp add: policy_domains_def Let_def map_of_map_pair)

definition restricted_values :: "actor_restrictions \<Rightarrow> string \<Rightarrow> string set option" where
  "restricted_values r name = map_of [(''models'', set (ar_models r)), (''tools'', {}), (''documents'', {})] name"

lemma restricted_domain:
  assumes "restrictions_of_actor (ph_uuid h) cfg user = Some r"
  shows "\<exists>invalid. map_of (policy_domains h cfg user) name =
     (let base = map_option (\<lambda>d. compose_domain name d user) (map_of (pg_domains cfg) name) in
      case restricted_values r name of None \<Rightarrow> base | Some vs \<Rightarrow> Some (reduce_domain invalid vs base))
    \<and> (\<not> invalid \<longrightarrow> (\<forall>n d. map_of (pg_domains cfg) n = Some d \<longrightarrow> evidenced d user))"
proof -
  let ?ds = "map (\<lambda>(name, d). (name, compose_domain name d user)) (pg_domains cfg)"
  define invalid where "invalid = evidence_incomplete h ?ds user"
  obtain u where u: "user = Some u" using assms by (cases user) (auto simp: restrictions_of_actor_def)
  have "evidenced d user" if "\<not> invalid" "map_of (pg_domains cfg) n = Some d" for n d
  proof -
    from that(2) have "(n, d) \<in> set (pg_domains cfg)" by (rule map_of_SomeD)
    then have "(n, compose_domain n d user) \<in> set ?ds" by force
    with that(1) u compose_usable [of n d user] show ?thesis
      by (auto simp: invalid_def evidence_incomplete_def list_ex_iff)
  qed
  moreover have "map_of (policy_domains h cfg user) name =
     (let base = map_option (\<lambda>d. compose_domain name d user) (map_of (pg_domains cfg) name) in
      case restricted_values r name of None \<Rightarrow> base | Some vs \<Rightarrow> Some (reduce_domain invalid vs base))"
    using assms
    by (simp add: policy_domains_def Let_def invalid_def [symmetric] map_of_map_pair restricted_values_def map_of_update)
  ultimately show ?thesis by blast
qed

definition usable :: "resolved_domain option \<Rightarrow> string \<Rightarrow> string \<Rightarrow> bool" where
  "usable d name v \<longleftrightarrow> (case d of
     None \<Rightarrow> name = ''publication'' \<longrightarrow> v = ''consume''
   | Some x \<Rightarrow> \<not> rd_unavailable x \<and> \<not> rd_invalid x \<and> v \<notin> rd_denied x \<and> v \<in> rd_allowed x
       \<and> within_restriction (rd_restricted x) v)"

lemma decide_domain_usable:
  assumes "name \<noteq> ''admin''"
  shows "\<exists>d. decide_domain h p name v False = Inr d \<and> (pd_allowed d \<longleftrightarrow> usable (map_of (ep_domains p) name) name v)"
  using assms
  by (auto simp: decide_domain_def usable_def answer_def pd_allowed_def decision_of_def within_restriction_def Let_def
      split: option.splits)

lemma policy_domains_usable:
  assumes "name \<noteq> ''admin''"
  shows "usable (map_of (policy_domains h cfg user) name) name v \<Longrightarrow> grants cfg user name v"
    and "usable (map_of (policy_domains h cfg user) name) name v \<Longrightarrow> restrictions_of_actor (ph_uuid h) cfg user = Some r
      \<Longrightarrow> restricted_values r name = Some vs \<Longrightarrow> v \<in> vs"
    and "restrictions_of_actor (ph_uuid h) cfg user = None
      \<Longrightarrow> usable (map_of (policy_domains h cfg user) name) name v \<longleftrightarrow> grants cfg user name v"
proof -
  have base: "usable (map_option (\<lambda>d. compose_domain name d user) (map_of (pg_domains cfg) name)) name v \<longleftrightarrow> grants cfg user name v"
    using compose_domain_exact(2) [of v name _ user] compose_usable [of name _ user]
    by (auto simp: usable_def grants_def split: option.splits)
  show plain: "restrictions_of_actor (ph_uuid h) cfg user = None
      \<Longrightarrow> usable (map_of (policy_domains h cfg user) name) name v \<longleftrightarrow> grants cfg user name v"
    by (simp add: plain_domain base)
  {
    fix r
    assume u: "usable (map_of (policy_domains h cfg user) name) name v"
      and r: "restrictions_of_actor (ph_uuid h) cfg user = Some r"
    from restricted_domain [OF r, of name] obtain invalid where
      m: "map_of (policy_domains h cfg user) name =
        (let base = map_option (\<lambda>d. compose_domain name d user) (map_of (pg_domains cfg) name) in
         case restricted_values r name of None \<Rightarrow> base | Some vs \<Rightarrow> Some (reduce_domain invalid vs base))"
      and i: "\<not> invalid \<longrightarrow> (\<forall>n d. map_of (pg_domains cfg) n = Some d \<longrightarrow> evidenced d user)" by blast
    have "grants cfg user name v \<and> (\<forall>vs. restricted_values r name = Some vs \<longrightarrow> v \<in> vs)"
    proof (cases "restricted_values r name")
      case None
      with u m base show ?thesis by simp
    next
      case (Some vs)
      then have np: "name \<noteq> ''publication''" by (auto simp: restricted_values_def split: if_splits)
      show ?thesis
      proof (cases "map_of (pg_domains cfg) name")
        case None
        with u m Some np show ?thesis by (simp add: usable_def reduce_domain_def grants_def within_restriction_def)
      next
        case (Some d)
        with u m \<open>restricted_values r name = Some vs\<close>
        have "\<not> invalid" "v \<in> vs" "v \<in> rd_allowed (compose_domain name d user)"
          by (auto simp: usable_def reduce_domain_def)
        with i Some \<open>restricted_values r name = Some vs\<close> show ?thesis
          by (auto simp: grants_def compose_domain_exact)
      qed
    qed
  }
  note restricted = this
  show "usable (map_of (policy_domains h cfg user) name) name v \<Longrightarrow> grants cfg user name v"
    using plain restricted by (cases "restrictions_of_actor (ph_uuid h) cfg user") auto
  show "usable (map_of (policy_domains h cfg user) name) name v \<Longrightarrow> restrictions_of_actor (ph_uuid h) cfg user = Some r
      \<Longrightarrow> restricted_values r name = Some vs \<Longrightarrow> v \<in> vs"
    using restricted by blast
qed

section \<open>Limits\<close>

lemma over_min_limit: "over (min_limit vs) n \<longleftrightarrow> (\<exists>v \<in> set vs. over v n)"
proof -
  define ms where "ms = concat (map (\<lambda>v. case v of None \<Rightarrow> [] | Some n \<Rightarrow> [n]) vs)"
  have mem: "m \<in> set ms \<longleftrightarrow> Some m \<in> set vs" for m
    unfolding ms_def by (induction vs) (auto split: option.splits)
  have least: "min_limit vs = (if ms = [] then None else Some (Min (set ms)))"
    by (simp add: min_limit_def ms_def [symmetric] Let_def)
  have "over (min_limit vs) n \<longleftrightarrow> (\<exists>m \<in> set ms. m \<le> n)"
  proof (cases "ms = []")
    case True
    then show ?thesis by (simp add: least over_def)
  next
    case False
    then show ?thesis by (simp add: least over_def Min_le_iff)
  qed
  also have "\<dots> \<longleftrightarrow> (\<exists>v \<in> set vs. over v n)"
    by (auto simp: mem over_def split: option.splits)
  finally show ?thesis .
qed

definition budget_open :: "(int \<Rightarrow> window_totals) \<Rightarrow> 'a limits_scheme \<Rightarrow> scope \<Rightarrow> bool" where
  "budget_open tot l sc \<longleftrightarrow>
     \<not> over (lim_requestsPerMinute l) (wt_requests (tot MINUTE_SECONDS))
     \<and> \<not> over (lim_tokensPerDay l) (wt_totalTokens (tot DAY_SECONDS))
     \<and> \<not> over (lim_costPerDayMicroUsd l) (wt_costMicroUsd (tot DAY_SECONDS))
     \<and> (sc = Compute \<longrightarrow> \<not> over (lim_computeExecutionsPerDay l) (wt_computeExecutions (tot DAY_SECONDS)))
     \<and> \<not> over (lim_tokensPerMonth l) (wt_totalTokens (tot MONTH_SECONDS))
     \<and> \<not> over (lim_costPerMonthMicroUsd l) (wt_costMicroUsd (tot MONTH_SECONDS))"

lemma check_budgets_open:
  "\<exists>d. fst (check_budgets (\<lambda>s. Inr (tot s)) l sc) = Inr d \<and> (dec_allowed d \<longleftrightarrow> budget_open tot l sc)"
proof -
  let ?rd = "\<lambda>s. Inr (tot s)" and ?cap = "if sc = Compute then lim_computeExecutionsPerDay l else None"
  have ans: "?rd s = Inr (tot s)" for s by simp
  have cap: "over ?cap n \<longleftrightarrow> sc = Compute \<and> over (lim_computeExecutionsPerDay l) n" for n
    by (simp add: over_def)
  from check_budgets_decision [of ?rd tot ?cap sc l, OF ans refl] show ?thesis
    unfolding then_stage_none minute_stage_none [of ?rd tot, OF ans] day_stage_none [of ?rd tot, OF ans]
      month_stage_none [of ?rd tot, OF ans] budget_open_def cap
    by blast
qed

lemma minimum_limits_open:
  "budget_open tot (minimum_limits base rs) sc \<longleftrightarrow> (\<forall>l \<in> set (limits.truncate base # rs). budget_open tot l sc)"
proof -
  have f: "lim_requestsPerMinute (minimum_limits base rs) = min_limit (map lim_requestsPerMinute (limits.truncate base # rs))"
    "lim_tokensPerDay (minimum_limits base rs) = min_limit (map lim_tokensPerDay (limits.truncate base # rs))"
    "lim_costPerDayMicroUsd (minimum_limits base rs) = min_limit (map lim_costPerDayMicroUsd (limits.truncate base # rs))"
    "lim_tokensPerMonth (minimum_limits base rs) = min_limit (map lim_tokensPerMonth (limits.truncate base # rs))"
    "lim_costPerMonthMicroUsd (minimum_limits base rs) = min_limit (map lim_costPerMonthMicroUsd (limits.truncate base # rs))"
    "lim_computeExecutionsPerDay (minimum_limits base rs) = min_limit (map lim_computeExecutionsPerDay (limits.truncate base # rs))"
    by (simp_all add: minimum_limits_def Let_def)
  show ?thesis unfolding budget_open_def f over_min_limit set_map by blast
qed

section \<open>Decisions that allow\<close>

lemma pd_allowed_simps [simp]:
  "pd_allowed (decision_of PolicyAllow r)" "\<not> pd_allowed (decision_of PolicyDeny r)"
  "\<not> pd_allowed (decision_of PolicyUnavailable r)" "pd_allowed (answer b) \<longleftrightarrow> b" "\<not> pd_allowed policy_unavailable"
  by (simp_all add: pd_allowed_def decision_of_def answer_def policy_unavailable_def)

lemma first_refusal_allowed:
  assumes "first_refusal rs final = Inr d" "pd_allowed d"
  shows "d = final \<and> (\<forall>r \<in> set rs. \<exists>x. r = Inr x \<and> pd_allowed x)"
  using assms by (induction rs) (auto simp: bindE_Inr_iff split: if_splits)

lemma pd_allowed_budget [simp]:
  "pd_allowed (decision_of outcome r\<lparr>pd_code := x, pd_retry_after_seconds := y\<rparr>) \<longleftrightarrow> outcome = PolicyAllow"
  by (simp add: pd_allowed_def decision_of_def)

lemma policy_raise_Inr [simp]: "policy_raise outcome reason \<noteq> Inr x"
  by (simp add: policy_raise_def)

lemma identity_refuses: "identity_decision h p = Some d \<Longrightarrow> \<not> pd_allowed d"
  by (auto simp: identity_decision_def identity_of_def split: option.splits if_splits)

lemma usable_decision:
  "decide_domain h p name v False = Inr d \<Longrightarrow> pd_allowed d \<Longrightarrow> name \<noteq> ''admin'' \<Longrightarrow> usable (map_of (ep_domains p) name) name v"
  using decide_domain_usable [of name h p v] by auto

lemma resolve_policy_fields:
  assumes "resolve_policy h h' owner user = Inr p"
  shows "ep_user p = user" "ep_owner_id p = owner" "ep_binding p = ph_binding h"
    "policy_enabled h \<Longrightarrow> \<exists>cfg. configuration h = Inr cfg \<and> ep_domains p = policy_domains h' cfg user
       \<and> ep_digest p = policy_digest (ph_sha h) cfg"
  using assms by (auto simp: resolve_policy_def Let_def bindE_Inr_iff split: if_splits)

lemma operations_apart [simp]:
  "\<not> starts ''admin.'' ''model.invoke''" "\<not> starts ''publication.'' ''model.invoke''"
  "\<not> starts ''document.'' ''model.invoke''" "\<not> starts ''avatar.'' ''model.invoke''"
  "\<not> starts ''admin.'' ''tool.invoke''" "\<not> starts ''publication.'' ''tool.invoke''"
  "\<not> starts ''document.'' ''tool.invoke''" "\<not> starts ''avatar.'' ''tool.invoke''"
  by (simp_all add: starts_def)

text \<open>The prefixes of the operations exclude each other.\<close>

lemma starts_document:
  assumes "starts ''document.'' op"
  shows "\<not> starts ''admin.'' op" "\<not> starts ''publication.'' op" "op \<noteq> ''tool.invoke''" "op \<noteq> ''model.invoke''"
proof -
  have hd: "take 1 s = take 1 op" if "starts s' op" "take 1 s' = take 1 s" "s' \<noteq> []" for s s'
  proof -
    have "take 1 (take (length s') op) = take 1 s'" using that(1) by (simp add: starts_def)
    then show ?thesis using that(2,3) by (cases s') simp_all
  qed
  from hd [OF assms, of "''document.''"] have d: "take 1 op = ''d''" by simp
  show "\<not> starts ''admin.'' op" using hd [of "''admin.''" "''admin.''"] d by auto
  show "\<not> starts ''publication.'' op" using hd [of "''publication.''" "''publication.''"] d by auto
  show "op \<noteq> ''tool.invoke''" "op \<noteq> ''model.invoke''" using d by auto
qed

lemma decide_checks:
  assumes "decide h p rq = Inr d" "pd_allowed d" "policy_enabled h"
    and "\<not> starts ''admin.'' (pq_operation rq)" "\<not> starts ''publication.'' (pq_operation rq)"
  shows "identity_decision h p = None
    \<and> (pq_operation rq \<in> set METERED_OPERATIONS \<longrightarrow> pd_allowed (consumption_state h p))
    \<and> (starts ''document.'' (pq_operation rq) \<longrightarrow> usable (map_of (ep_domains p) ''documents'') ''documents'' (after_dot (pq_operation rq)))
    \<and> (pq_operation rq = ''tool.invoke'' \<longrightarrow> (\<exists>name. pq_tool_name rq = Some name \<and> usable (map_of (ep_domains p) ''tools'') ''tools'' name))
    \<and> (pq_operation rq = ''model.invoke'' \<longrightarrow> (\<exists>m o1. cat_get (ph_catalog h) (case pq_model_id rq of None \<Rightarrow> [] | Some m \<Rightarrow> m) = Some m
        \<and> pq_deployment rq = Some o1 \<and> o1 \<in> set (eligible_options (ph_model_allowed h) (ph_catalog h) True m)
        \<and> usable (map_of (ep_domains p) ''models'') ''models'' (me_category m)
        \<and> usable (map_of (ep_domains p) ''zones'') ''zones'' (residency o1)))"
proof -
  define F where "F profile = first_refusal
       ((if starts ''document.'' (pq_operation rq) then [decide_domain h p ''documents'' (after_dot (pq_operation rq)) False] else [])
        @ (if starts ''avatar.'' (pq_operation rq) then [decide_domain h p ''avatars'' (after_dot (pq_operation rq)) False] else [])
        @ (if pq_operation rq = ''tool.invoke'' then tool_checks h p rq else [])
        @ (if pq_operation rq = ''model.invoke'' then model_checks h p rq (profile = Some RealtimeSetup) else []))
       (if pq_operation rq \<in> set METERED_OPERATIONS then consumption_state h p else decision_of PolicyAllow Allowed)" for profile
  have bound: "ep_binding p = ph_binding h" using assms(1,2)
    by (cases "ep_binding p = ph_binding h") (auto simp: decide_def)
  have id: "identity_decision h p = None"
    using assms(1-3) bound by (cases "identity_decision h p") (auto simp: decide_def dest: identity_refuses)
  from assms(1) bound id assms(3) have "bindE (restricted_profile_of h False (ep_owner_id p)) (\<lambda>profile.
      if profile = Some RealtimeSetup \<and> pq_operation rq \<noteq> ''model.invoke'' then Inr (decision_of PolicyDeny CanaryIncompatible)
      else if profile \<noteq> None \<and> ep_user p = None then Inr (decision_of PolicyUnavailable ReauthenticationRequired)
      else if profile \<noteq> None \<and> pq_operation rq \<in> {''tool.invoke'', ''document.process'', ''document.compute'', ''avatar.create'', ''avatar.use''}
      then Inr (decision_of PolicyDeny CanaryIncompatible) else F profile) = Inr d"
    unfolding decide_def Let_def F_def [symmetric] by (simp add: assms(4,5) cong: if_cong)
  then obtain profile where f: "F profile = Inr d"
    using assms(2) unfolding bindE_Inr_iff by (auto split: if_splits)
  note f = f [unfolded F_def]
  from first_refusal_allowed [OF f assms(2)]
  have final: "d = (if pq_operation rq \<in> set METERED_OPERATIONS then consumption_state h p else decision_of PolicyAllow Allowed)"
    and doc: "starts ''document.'' (pq_operation rq) \<Longrightarrow> \<exists>x. decide_domain h p ''documents'' (after_dot (pq_operation rq)) False = Inr x \<and> pd_allowed x"
    and tool: "pq_operation rq = ''tool.invoke'' \<Longrightarrow> \<forall>r \<in> set (tool_checks h p rq). \<exists>x. r = Inr x \<and> pd_allowed x"
    and model: "pq_operation rq = ''model.invoke'' \<Longrightarrow>
      \<forall>r \<in> set (model_checks h p rq (profile = Some RealtimeSetup)). \<exists>x. r = Inr x \<and> pd_allowed x"
    by (simp_all add: ball_Un)
  have "\<exists>name. pq_tool_name rq = Some name \<and> usable (map_of (ep_domains p) ''tools'') ''tools'' name"
    if "pq_operation rq = ''tool.invoke''"
    using tool [OF that] by (auto simp: tool_checks_def dest: usable_decision split: option.splits if_splits)
  moreover have "\<exists>m o1. cat_get (ph_catalog h) (case pq_model_id rq of None \<Rightarrow> [] | Some m \<Rightarrow> m) = Some m
        \<and> pq_deployment rq = Some o1 \<and> o1 \<in> set (eligible_options (ph_model_allowed h) (ph_catalog h) True m)
        \<and> usable (map_of (ep_domains p) ''models'') ''models'' (me_category m)
        \<and> usable (map_of (ep_domains p) ''zones'') ''zones'' (residency o1)"
    if "pq_operation rq = ''model.invoke''"
    using model [OF that] by (auto simp: model_checks_def dest: usable_decision split: option.splits if_splits)
  ultimately show ?thesis using id final doc assms(2) by (auto dest: usable_decision split: if_splits)
qed

text \<open>What an authorization that allows rests on: the configuration read for it, and the principal then.\<close>

lemma authorize_policy_allowed:
  assumes "authorize_policy w p rq = Inr d" "pd_allowed d" "\<And>i. policy_enabled (w i)"
    and "\<not> starts ''admin.'' (pq_operation rq)" "\<not> starts ''publication.'' (pq_operation rq)"
  shows "\<exists>cfg current. configuration (w 0) = Inr cfg \<and> resolve_policy (w 0) (w 1) (ep_owner_id p) (ep_user p) = Inr current
    \<and> ep_domains current = policy_domains (w 1) cfg (ep_user p) \<and> ep_digest current = policy_digest (ph_sha (w 0)) cfg
    \<and> decide (w 1) current rq = Inr d"
proof -
  from assms(1,2) obtain current where c: "resolve_policy (w 0) (w 1) (ep_owner_id p) (ep_user p) = Inr current"
    and a: "authorize_current (w 1) (w 2) current rq = Inr d"
    by (auto simp: authorize_policy_def bindE_Inr_iff split: if_splits)
  from a assms(2) have "decide (w 1) current rq = Inr d"
    by (auto simp: authorize_current_def bindE_Inr_iff Let_def dest: identity_refuses split: if_splits option.splits)
  with c resolve_policy_fields(4) [OF c assms(3)] show ?thesis by blast
qed

lemma resolve_binding_fields:
  assumes "resolve_binding h h' b = Inr p"
  shows "ep_user p = pb_user b" "ep_owner_id p = pb_owner_id b"
  using assms
  by (auto simp: resolve_binding_def bindE_Inr_iff resolve_user_def resolve_unattended_def
      dest: resolve_policy_fields split: if_splits option.splits)

lemma require_policy_passed:
  assumes "require_policy w x (Some b) rq o1 = Inr ()" "\<And>i. policy_enabled (w i)"
  shows "\<exists>p d cfg. resolve_binding (w 0) (w 1) b = Inr p \<and> authorize_policy (\<lambda>i. w (i + 1)) p rq = Inr d \<and> pd_allowed d
    \<and> configuration (w 4) = Inr cfg \<and> ep_digest p = policy_digest (ph_sha (w 4)) cfg \<and> identity_decision (w 4) p = None"
  using assms
  by (auto simp: require_policy_def require_def demand_def finish_policy_check_def bindE_Inr_iff
      split: if_splits option.splits)

end
