(* ===== verification/Policy_Promises.thy ===== *)
theory Policy_Promises
  imports Policy_Safety
begin

text \<open>
  What the policy promises: a decision follows the rules exactly, a deployment is only called when the
  rules grant it, restricted actors have less and never more, the tightest limit decides, a policy that
  cannot be read admits nothing, and the evidence and the identity of a principal are what its token
  says. The examples are one host with a small policy, and a user with the role it names.
\<close>

section \<open>An example\<close>

definition demo_evidence :: policy_claims where
  "demo_evidence = \<lparr>pc_roles = [''staff''], pc_groups = [], pc_roles_complete = True, pc_groups_complete = True,
     pc_roles_present = True, pc_groups_present = False, pc_expires_at = Some 1000\<rparr>"

definition demo_user :: authenticated_user where
  "demo_user = \<lparr>au_internal_user_id = ''u1'', au_subject = ''s1'', au_issuer = ''i1'', au_tenant_id = Some ''t1'',
     au_provider = ''entra'', au_email = None, au_claims = [], au_policy_claims = Some demo_evidence\<rparr>"

definition open_rule :: "string list \<Rightarrow> domain_rule" where
  "open_rule vs = \<lparr>dr_allow = vs, dr_deny = [], dr_restrict = None\<rparr>"

definition demo_policy :: policy_config where
  "demo_policy = \<lparr>pg_domains =
      [(''models'', \<lparr>dm_default = open_rule [],
          dm_mappings = [\<lparr>dr_allow = [''chat''], dr_deny = [], dr_restrict = None, cr_claim = Roles, cr_value = ''staff''\<rparr>]\<rparr>),
       (''zones'', \<lparr>dm_default = open_rule [''global''], dm_mappings = []\<rparr>)],
     pg_spend = None, pg_adminCeiling = [], pg_canaryActor = None, pg_evaluationActor = None, pg_realtimeCanaryActor = None\<rparr>"

definition demo_settings :: policy_settings where
  "demo_settings = \<lparr>ps_group_policy_enabled = True, ps_group_policy_json = Some ''p'', ps_admin_subjects = [],
     ps_admin_emails = [], ps_auth_provider_is_spoofable = False, ps_allowed_tenants = [''t1''], ps_env = ''prod'',
     ps_asset_publishing_enabled = False, ps_realtime_enabled = False, ps_realtime_protocol = ''ga'',
     ps_voice_providers = [], ps_hard_quota_enabled = False\<rparr>"

definition demo_host :: "policy_config option \<Rightarrow> policy_host" where
  "demo_host cfg = \<lparr>ph_settings = demo_settings, ph_catalog = demo_catalog, ph_entitlements_enabled = True, ph_binding = 7,
     ph_raw = Some ''p'', ph_config = cfg, ph_now = 10, ph_admission = (\<lambda>u. Inr (unlimited u 0)),
     ph_ledger = (\<lambda>_ _. Inr \<lparr>wt_requests = 0, wt_totalTokens = 0, wt_costMicroUsd = 0, wt_computeExecutions = 0\<rparr>),
     ph_model_allowed = (\<lambda>_ _. True), ph_decode = (\<lambda>_. None), ph_sha = (\<lambda>_. ''d''), ph_uuid = (\<lambda>_. ''u1''), ph_guard = (\<lambda>_. None)\<rparr>"

lemma demo_enabled: "policy_enabled (demo_host cfg)"
  by (simp add: policy_enabled_def demo_host_def demo_settings_def)

definition demo_binding :: policy_binding where
  "demo_binding = \<lparr>pb_service = 7, pb_owner_id = ''u1'', pb_user = Some demo_user, pb_canary_required = False,
     pb_restricted_profile = None, pb_actor_policy_digest = None, pb_configuration_error = None\<rparr>"

definition demo_checks :: execution_checks where
  "demo_checks = \<lparr>xc_source = (\<lambda>_. Inr ()), xc_publication = (\<lambda>_. Inr ())\<rparr>"

definition demo_call :: outbound_call where
  "demo_call = \<lparr>ob_surface = ''chat'', ob_deployment = Some ''gpt-5-swe'', ob_required = True, ob_expected_owner = Some ''u1'',
     ob_service = Some (7, True), ob_payload = JNull, ob_final = True\<rparr>"

text \<open>A step of the evaluation does not look under the continuation before it is reached.\<close>

lemma bindE_weak_cong: "r = r' \<Longrightarrow> bindE r f = bindE r' f"
  by simp

abbreviation here :: policy_host where "here \<equiv> demo_host (Some demo_policy)"

definition plain_values :: "string set \<Rightarrow> resolved_domain" where
  "plain_values vs = \<lparr>rd_allowed = vs, rd_denied = {}, rd_restricted = None, rd_invalid = False, rd_unavailable = False\<rparr>"

definition demo_snapshot :: effective_policy where
  "demo_snapshot = \<lparr>ep_owner_id = ''u1'', ep_interactive = True, ep_digest = ''d'',
     ep_domains = [(''models'', plain_values {''chat''}), (''zones'', plain_values {''global'', ''us'', ''eu''})],
     ep_limits = unlimited ''u1'' 0, ep_limits_unavailable = False, ep_spend_invalid = False, ep_spend_unattended = False,
     ep_user = Some demo_user, ep_binding = 7\<rparr>"

lemma demo_configuration: "configuration here = Inr demo_policy"
  by (simp add: configuration_def raw_policy_def demo_host_def demo_settings_def)

lemma demo_domains: "policy_domains here demo_policy (Some demo_user) = ep_domains demo_snapshot"
  by (simp add: policy_domains_def restrictions_of_actor_def actors_of_def demo_policy_def demo_user_def demo_evidence_def
      demo_snapshot_def compose_domain_def active_rules_def matched_def evidence_of_def claim_texts_def open_rule_def
      expanded_def expand_value_def rule_complete_def complete_for_def claim_complete_def claim_present_def plain_values_def
      domain_rule.defs Let_def)

lemma demo_user_facts:
  "au_internal_user_id demo_user = ''u1''" "au_provider demo_user = ''entra''" "au_tenant_id demo_user = Some ''t1''"
  "au_policy_claims demo_user = Some demo_evidence" "pc_expires_at demo_evidence = Some 1000"
  "\<not> admin_is_unrestricted demo_user demo_settings"
  by (simp_all add: demo_user_def demo_evidence_def admin_is_unrestricted_def identity_is_admin_def has_admin_role_def demo_settings_def)

lemma demo_host_facts:
  "ph_binding here = 7" "ph_sha here s = ''d''" "ph_config here = Some demo_policy" "ph_now here = 10"
  "ph_settings here = demo_settings" "ph_catalog here = demo_catalog" "ps_allowed_tenants demo_settings = [''t1'']"
  "ph_admission here u = Inr (unlimited u 0)" "ph_entitlements_enabled here" "me_id demo_model = ''gpt-5''"
  "profile_of_owner uuid (Some demo_policy) owner = None" "policy_digest (ph_sha here) cfg = ''d''"
  by (simp_all add: demo_host_def demo_settings_def demo_model_def profile_of_owner_def owner_of_profile_def actor_for_def
      demo_policy_def policy_digest_def)

lemma demo_catalog_facts:
  "cat_get demo_catalog ''gpt-5'' = Some demo_model" "me_category demo_model = ''chat''" "residency demo_sweden = ''eu''"
  "demo_sweden \<in> set (eligible_options (ph_model_allowed here) demo_catalog True demo_model)"
  "deployments_named demo_catalog ''gpt-5-swe'' = [(demo_model, demo_sweden)]"
  by code_simp+

lemma demo_resolved: "resolve_policy here here ''u1'' (Some demo_user) = Inr demo_snapshot"
proof -
  have "restrictions_of_actor u demo_policy (Some demo_user) = None" for u
    by (simp add: restrictions_of_actor_def actors_of_def demo_policy_def)
  moreover have "pg_spend demo_policy = None" by (simp add: demo_policy_def)
  ultimately show ?thesis
    by (simp add: resolve_policy_def owner_limits_def demo_configuration demo_enabled demo_domains demo_user_facts
        demo_host_facts Let_def) (simp add: demo_snapshot_def)
qed

lemma demo_snapshot_facts:
  "ep_binding demo_snapshot = 7" "ep_owner_id demo_snapshot = ''u1''" "ep_user demo_snapshot = Some demo_user"
  "ep_digest demo_snapshot = ''d''" "ep_limits demo_snapshot = unlimited ''u1'' 0" "\<not> ep_limits_unavailable demo_snapshot"
  "\<not> ep_spend_unattended demo_snapshot" "\<not> ep_spend_invalid demo_snapshot"
  "map_of (ep_domains demo_snapshot) ''models'' = Some (plain_values {''chat''})"
  "map_of (ep_domains demo_snapshot) ''zones'' = Some (plain_values {''global'', ''us'', ''eu''})"
  by (simp_all add: demo_snapshot_def)

lemma demo_identity: "identity_decision here demo_snapshot = None"
  by (simp add: identity_decision_def identity_of_def demo_snapshot_facts demo_user_facts demo_host_facts)

lemma demo_consumption: "consumption_state here demo_snapshot = decision_of PolicyAllow Allowed"
  by (simp add: consumption_state_def demo_identity demo_snapshot_facts demo_host_facts)

lemma demo_decides: "decide here demo_snapshot (model_request ''gpt-5'' demo_sweden) = Inr (decision_of PolicyAllow Allowed)"
  by (simp add: decide_def demo_snapshot_facts demo_host_facts demo_catalog_facts demo_identity demo_consumption demo_enabled
      demo_configuration restricted_profile_of_def known_configuration_def model_request_def plain_request_def
      model_checks_def METERED_OPERATIONS_def decide_domain_def plain_values_def cong: bindE_weak_cong)

lemma demo_authorized:
  "authorize_policy (\<lambda>_. here) demo_snapshot (model_request ''gpt-5'' demo_sweden) = Inr (decision_of PolicyAllow Allowed)"
proof -
  have "pq_operation (model_request ''gpt-5'' demo_sweden) = ''model.invoke''"
    by (simp add: model_request_def plain_request_def)
  then show ?thesis
    by (simp add: authorize_policy_def authorize_current_def demo_snapshot_facts demo_host_facts demo_enabled demo_resolved
        demo_decides demo_identity METERED_OPERATIONS_def allow_def check_limits_def Let_def cong: bindE_weak_cong)
qed

lemma demo_binding_resolved: "resolve_binding here here demo_binding = Inr demo_snapshot"
  by (simp add: resolve_binding_def require_configuration_def actor_policy_current_def resolve_user_def demo_binding_def
      demo_user_facts demo_resolved)

lemma demo_binding_facts:
  "pb_owner_id demo_binding = ''u1''" "pb_restricted_profile demo_binding = None" "pb_service demo_binding = 7"
  "pb_configuration_error demo_binding = None"
  by (simp_all add: demo_binding_def)

lemma demo_required:
  "require_policy (\<lambda>_. here) demo_checks (Some demo_binding) (model_request ''gpt-5'' demo_sweden) None = Inr ()"
  by (simp add: require_policy_def start_policy_check_def bound_profile_def restricted_profile_of_def known_configuration_def
      require_def demand_def finish_policy_check_def demo_binding_resolved demo_authorized demo_enabled demo_configuration
      demo_snapshot_facts demo_host_facts demo_binding_facts demo_identity demo_checks_def require_configuration_def cong: bindE_weak_cong)

lemma demo_dispatched:
  "authorize_dispatch (\<lambda>_. here) demo_checks (Some demo_binding) None demo_call = Inr ()"
  by (simp add: authorize_dispatch_def demo_call_def demo_binding_resolved demo_enabled demo_required demo_host_facts
      demo_snapshot_facts demo_binding_facts demo_catalog_facts restricted_profile_of_def known_configuration_def
      demo_configuration cong: bindE_weak_cong)

section \<open>The rules, exactly\<close>



text \<open>
  C20: a deployment is only called when the rules grant it. When the seam passes a call that names a
  deployment, under a policy that stays enabled, the name is that of one deployment of one model of the
  catalog, which is served and within the residency policy; the configuration read for the decision
  grants the model's category and the deployment's residency to the task's principal, its category is
  among those of a restricted actor, and after the last check the policy still has the digest it had.
\<close>

theorem dispatched_deployments_are_granted:
  assumes "authorize_dispatch w x (Some b) tool c = Inr ()" "ob_deployment c = Some name" "\<And>i. policy_enabled (w i)"
  shows "\<exists>m o1 m' cfg. deployments_named (ph_catalog (w 1)) name = [(m, o1)]
    \<and> cat_get (ph_catalog (w 3)) (me_id m) = Some m' \<and> me_runtimeEnabled m' \<and> satisfies o1 (mc_residencyPolicy (ph_catalog (w 3)))
    \<and> configuration (w 2) = Inr cfg
    \<and> grants cfg (pb_user b) ''models'' (me_category m') \<and> grants cfg (pb_user b) ''zones'' (residency o1)
    \<and> (\<forall>r. restrictions_of_actor (ph_uuid (w 3)) cfg (pb_user b) = Some r \<longrightarrow> me_category m' \<in> set (ar_models r))
    \<and> (\<exists>p now. resolve_binding (w 1) (w 2) b = Inr p \<and> configuration (w 5) = Inr now
        \<and> ep_digest p = policy_digest (ph_sha (w 5)) now \<and> identity_decision (w 5) p = None)"
proof -
  from assms obtain m o1 where m: "deployments_named (ph_catalog (w 1)) name = [(m, o1)]"
    and req: "require_policy (\<lambda>i. w (i + 1)) x (Some b) (model_request (me_id m) o1) None = Inr ()"
    by (auto simp: authorize_dispatch_def bindE_Inr_iff split: if_splits option.splits list.splits prod.splits)
  from require_policy_passed [OF req assms(3)] obtain p d now where
    p: "resolve_binding (w 1) (w 2) b = Inr p" "authorize_policy (\<lambda>i. w (i + 1 + 1)) p (model_request (me_id m) o1) = Inr d"
      "pd_allowed d" "configuration (w 5) = Inr now" "ep_digest p = policy_digest (ph_sha (w 5)) now"
      "identity_decision (w 5) p = None"
    by (auto simp: numeral_eq_Suc)
  have op: "pq_operation (model_request (me_id m) o1) = ''model.invoke''"
    by (simp add: model_request_def plain_request_def)
  have plain: "\<not> starts ''admin.'' (pq_operation (model_request (me_id m) o1))"
    "\<not> starts ''publication.'' (pq_operation (model_request (me_id m) o1))" by (simp_all add: op)
  from authorize_policy_allowed [OF p(2,3) assms(3) plain] obtain cfg current where
    c: "configuration (w 2) = Inr cfg" "ep_domains current = policy_domains (w 3) cfg (ep_user p)"
      "decide (w 3) current (model_request (me_id m) o1) = Inr d"
    by (auto simp: numeral_eq_Suc)
  from decide_checks [OF c(3) p(3) assms(3) plain] op obtain m' where
    m': "cat_get (ph_catalog (w 3)) (me_id m) = Some m'" "o1 \<in> set (eligible_options (ph_model_allowed (w 3)) (ph_catalog (w 3)) True m')"
      "usable (map_of (ep_domains current) ''models'') ''models'' (me_category m')"
      "usable (map_of (ep_domains current) ''zones'') ''zones'' (residency o1)"
    by (auto simp: model_request_def)
  have user: "ep_user p = pb_user b" using p(1) by (rule resolve_binding_fields)
  have g: "grants cfg (pb_user b) ''models'' (me_category m')" "grants cfg (pb_user b) ''zones'' (residency o1)"
    using m'(3,4) by (auto simp: c(2) user intro: policy_domains_usable(1))
  have r: "me_category m' \<in> set (ar_models r)" if "restrictions_of_actor (ph_uuid (w 3)) cfg (pb_user b) = Some r" for r
    using policy_domains_usable(2) [OF _ _ that, of "''models''"] m'(3) by (simp add: c(2) user restricted_values_def)
  from m'(2) have "me_runtimeEnabled m'" "satisfies o1 (mc_residencyPolicy (ph_catalog (w 3)))"
    by (auto simp: eligible_options_def split: if_splits)
  with m m'(1) g r c(1) p(1,4,5,6) show ?thesis by blast
qed

theorem dispatched_deployments_are_granted_witness:
  "grants demo_policy (Some demo_user) ''models'' ''chat'' \<and> grants demo_policy (Some demo_user) ''zones'' ''eu''
   \<and> satisfies demo_sweden (mc_residencyPolicy demo_catalog)"
proof -
  have "ob_deployment demo_call = Some ''gpt-5-swe''" by (simp add: demo_call_def)
  from dispatched_deployments_are_granted [OF demo_dispatched this demo_enabled] show ?thesis
    by (auto simp: demo_host_facts demo_catalog_facts demo_configuration demo_binding_def)
qed

text \<open>
  C13: a restricted actor only loses. Whatever its roles and groups are granted, an actor with configured
  restrictions is never authorized to invoke a tool or to work on a document, and a model it may invoke
  has a category its restrictions list and the rules grant.
\<close>

theorem restricted_actors_only_lose:
  assumes "\<And>i. policy_enabled (w i)" "configuration (w 0) = Inr cfg"
    and "restrictions_of_actor (ph_uuid (w 1)) cfg (ep_user p) = Some r" "authorize_policy w p rq = Inr d"
  shows "(pq_operation rq = ''tool.invoke'' \<or> starts ''document.'' (pq_operation rq) \<longrightarrow> \<not> pd_allowed d)
    \<and> (pq_operation rq = ''model.invoke'' \<and> pd_allowed d \<longrightarrow> (\<exists>m. cat_get (ph_catalog (w 1))
        (case pq_model_id rq of None \<Rightarrow> [] | Some i \<Rightarrow> i) = Some m
      \<and> me_category m \<in> set (ar_models r) \<and> grants cfg (ep_user p) ''models'' (me_category m)))"
proof -
  have key: "\<exists>current. ep_domains current = policy_domains (w 1) cfg (ep_user p) \<and> decide (w 1) current rq = Inr d"
    if "pd_allowed d" "\<not> starts ''admin.'' (pq_operation rq)" "\<not> starts ''publication.'' (pq_operation rq)"
    using authorize_policy_allowed [OF assms(4) that(1) assms(1) that(2,3)] assms(2) by auto
  have none: "\<not> usable (map_of (policy_domains (w 1) cfg (ep_user p)) name) name v" if "name \<in> {''tools'', ''documents''}" for name v
    using that policy_domains_usable(2) [OF _ _ assms(3), of name v "{}"] by (auto simp: restricted_values_def)
  have tool: "\<not> pd_allowed d" if "pq_operation rq = ''tool.invoke''"
  proof
    assume d: "pd_allowed d"
    from key [OF d] that obtain current where c: "ep_domains current = policy_domains (w 1) cfg (ep_user p)"
      "decide (w 1) current rq = Inr d" by auto
    from decide_checks [OF c(2) d assms(1)] that none show False by (auto simp: c(1))
  qed
  have doc: "\<not> pd_allowed d" if "starts ''document.'' (pq_operation rq)"
  proof
    assume d: "pd_allowed d"
    from key [OF d starts_document(1,2) [OF that]] obtain current where
      c: "ep_domains current = policy_domains (w 1) cfg (ep_user p)" "decide (w 1) current rq = Inr d" by auto
    from decide_checks [OF c(2) d assms(1) starts_document(1,2) [OF that]] that none show False by (auto simp: c(1))
  qed
  have model: "\<exists>m. cat_get (ph_catalog (w 1)) (case pq_model_id rq of None \<Rightarrow> [] | Some i \<Rightarrow> i) = Some m
      \<and> me_category m \<in> set (ar_models r) \<and> grants cfg (ep_user p) ''models'' (me_category m)"
    if "pq_operation rq = ''model.invoke''" "pd_allowed d"
  proof -
    from key [OF that(2)] that(1) obtain current where c: "ep_domains current = policy_domains (w 1) cfg (ep_user p)"
      "decide (w 1) current rq = Inr d" by auto
    from decide_checks [OF c(2) that(2) assms(1)] that(1) obtain m where
      m: "cat_get (ph_catalog (w 1)) (case pq_model_id rq of None \<Rightarrow> [] | Some i \<Rightarrow> i) = Some m"
      "usable (map_of (policy_domains (w 1) cfg (ep_user p)) ''models'') ''models'' (me_category m)" by (auto simp: c(1))
    with policy_domains_usable(1) [OF _ m(2)] policy_domains_usable(2) [OF _ m(2) assms(3)] show ?thesis
      by (auto simp: restricted_values_def)
  qed
  from tool doc model show ?thesis by blast
qed

definition restricted_policy :: policy_config where
  "restricted_policy = demo_policy\<lparr>pg_canaryActor := Some \<lparr>ca_tenantId = ''t1'', ca_subject = ''s1'',
     ca_restrictions = Some \<lparr>ar_models = [''chat''], ar_spend = default_limits\<lparr>lim_tokensPerDay := Some 10\<rparr>\<rparr>\<rparr>\<rparr>"

text \<open>The host under the restricted policy: its actor is the user, with the profile of the canary.\<close>

abbreviation there :: policy_host where "there \<equiv> demo_host (Some restricted_policy)"

lemma restricted_facts:
  "configuration there = Inr restricted_policy" "ph_binding there = 7" "ph_config there = Some restricted_policy"
  "profile_of_owner (ph_uuid there) (Some restricted_policy) ''u1'' = Some MonitorCanary"
  "ph_settings there = demo_settings" "ph_now there = 10" "ps_allowed_tenants demo_settings = [''t1'']"
  by (simp_all add: configuration_def raw_policy_def demo_host_def demo_settings_def profile_of_owner_def
      owner_of_profile_def actor_for_def restricted_policy_def marker_owner_def internal_user_id_def)

lemma restricted_actor: "\<exists>r. restrictions_of_actor (ph_uuid there) restricted_policy (Some demo_user) = Some r"
  by (simp add: restrictions_of_actor_def actors_of_def restricted_policy_def demo_policy_def
      demo_user_def marker_owner_def internal_user_id_def demo_host_def)

theorem restricted_actors_only_lose_witness:
  "\<exists>d. authorize_policy (\<lambda>_. there) demo_snapshot (tool_request (Some ''calculator'')) = Inr d \<and> \<not> pd_allowed d"
proof -
  let ?rq = "tool_request (Some ''calculator'')" and ?no = "decision_of PolicyDeny CanaryIncompatible"
  have op: "pq_operation ?rq = ''tool.invoke''" by (simp add: tool_request_def plain_request_def)
  obtain r where r: "restrictions_of_actor (ph_uuid there) restricted_policy (ep_user demo_snapshot) = Some r"
    using restricted_actor by (auto simp: demo_snapshot_facts)
  obtain current where c: "resolve_policy there there ''u1'' (Some demo_user) = Inr current"
    by (simp add: resolve_policy_def Let_def demo_enabled restricted_facts)
  note f = resolve_policy_fields(1-3) [OF c]
  have "identity_decision there current = None"
    by (simp add: identity_decision_def identity_of_def f demo_user_facts restricted_facts)
  then have "decide there current ?rq = Inr ?no"
    by (simp add: decide_def f demo_enabled restricted_profile_of_def known_configuration_def restricted_facts op
        Let_def cong: bindE_weak_cong)
  then have "authorize_policy (\<lambda>_. there) demo_snapshot ?rq = Inr ?no"
    by (simp add: authorize_policy_def authorize_current_def demo_snapshot_facts c restricted_facts cong: bindE_weak_cong)
  with restricted_actors_only_lose [OF demo_enabled restricted_facts(1) r this] show ?thesis by (auto simp: op)
qed

section \<open>Limits\<close>

text \<open>The soft budget check of a turn under some limits, when the ledger answers \<open>tot\<close>.\<close>

definition budget_allows :: "(int \<Rightarrow> window_totals) \<Rightarrow> 'a limits_scheme \<Rightarrow> scope \<Rightarrow> bool" where
  "budget_allows tot l sc \<longleftrightarrow> (case fst (check_budgets (\<lambda>s. Inr (tot s)) l sc) of Inr d \<Rightarrow> dec_allowed d | Inl _ \<Rightarrow> False)"

lemma budget_allows_open: "budget_allows tot l sc \<longleftrightarrow> budget_open tot l sc"
  using check_budgets_open [of tot l sc] by (auto simp: budget_allows_def)

lemma budget_open_truncate [simp]: "budget_open tot (limits.truncate l) sc \<longleftrightarrow> budget_open tot l sc"
  by (simp add: budget_open_def limits.defs)

text \<open>
  C28: the tightest limit applies. The limits of a resolved policy allow a turn, in either scope and for any
  totals of the ledger, exactly when the owner's own limits, the policy's default limits, those of
  every mapping the actor matches and those of its restrictions all allow it; the account is disabled
  when any of them disables it. When the store does not answer, the owner's own limits are unlimited
  and the snapshot says so.
\<close>

theorem tightest_limits_apply:
  assumes "resolve_policy h h' owner user = Inr p" "policy_enabled h" "configuration h = Inr cfg"
  defines "base \<equiv> (case owner_limits h h' owner user of Inl _ \<Rightarrow> unlimited owner (ph_now h) | Inr e \<Rightarrow> e)"
    and "extra \<equiv> spend_limits (pg_spend cfg) user
      @ (case restrictions_of_actor (ph_uuid h) cfg user of None \<Rightarrow> [] | Some r \<Rightarrow> [ar_spend r])"
  shows "(budget_allows tot (ep_limits p) sc \<longleftrightarrow> budget_allows tot base sc \<and> (\<forall>l \<in> set extra. budget_allows tot l sc))
    \<and> (lim_disabled (ep_limits p) \<longleftrightarrow> lim_disabled base \<or> (\<exists>l \<in> set extra. lim_disabled l))
    \<and> (ep_limits_unavailable p \<longleftrightarrow> (\<exists>e. owner_limits h h' owner user = Inl e))"
proof -
  have disabled: "lim_disabled (minimum_limits b rs) \<longleftrightarrow> lim_disabled b \<or> (\<exists>l \<in> set rs. lim_disabled l)" for b rs
    by (auto simp: minimum_limits_def Let_def list_ex_iff limits.defs)
  define spend where "spend = (case pg_spend cfg of None \<Rightarrow> base | Some s \<Rightarrow> minimum_limits base (spend_limits (Some s) user))"
  have p: "ep_limits p = (case restrictions_of_actor (ph_uuid h) cfg user of None \<Rightarrow> spend | Some r \<Rightarrow> minimum_limits spend [ar_spend r])"
    "ep_limits_unavailable p \<longleftrightarrow> (case owner_limits h h' owner user of Inl _ \<Rightarrow> True | Inr _ \<Rightarrow> False)"
    using assms(1-3) by (auto simp: resolve_policy_def Let_def spend_def base_def split: option.splits)
  have "budget_open tot spend sc \<longleftrightarrow> budget_open tot base sc \<and> (\<forall>l \<in> set (spend_limits (pg_spend cfg) user). budget_open tot l sc)"
    "lim_disabled spend \<longleftrightarrow> lim_disabled base \<or> (\<exists>l \<in> set (spend_limits (pg_spend cfg) user). lim_disabled l)"
    by (auto simp: spend_def minimum_limits_open disabled spend_limits_def split: option.splits)
  with p show ?thesis
    by (cases "restrictions_of_actor (ph_uuid h) cfg user")
       (auto simp: budget_allows_open minimum_limits_open disabled extra_def split: sum.splits)
qed

theorem tightest_limits_apply_witness:
  "\<exists>p. resolve_policy there there ''u1'' (Some demo_user) = Inr p
     \<and> \<not> budget_allows (\<lambda>_. \<lparr>wt_requests = 0, wt_totalTokens = 10, wt_costMicroUsd = 0, wt_computeExecutions = 0\<rparr>) (ep_limits p) Chat"
proof -
  let ?t = "\<lambda>_. \<lparr>wt_requests = 0, wt_totalTokens = 10, wt_costMicroUsd = 0, wt_computeExecutions = 0\<rparr>"
  obtain p where p: "resolve_policy there there ''u1'' (Some demo_user) = Inr p"
    by (simp add: resolve_policy_def Let_def demo_enabled restricted_facts)
  have r: "restrictions_of_actor (ph_uuid there) restricted_policy (Some demo_user)
      = Some \<lparr>ar_models = [''chat''], ar_spend = default_limits\<lparr>lim_tokensPerDay := Some 10\<rparr>\<rparr>"
    by (simp add: restrictions_of_actor_def actors_of_def restricted_policy_def demo_policy_def
        demo_user_def marker_owner_def internal_user_id_def demo_host_def)
  have "\<not> budget_open ?t (default_limits\<lparr>lim_tokensPerDay := Some 10\<rparr>) Chat"
    by (simp add: budget_open_def over_def)
  with p tightest_limits_apply [OF p demo_enabled restricted_facts(1), of ?t Chat] show ?thesis
    by (auto simp: r budget_allows_open)
qed

section \<open>A policy that cannot be read\<close>

lemma configuration_fails:
  "configuration h = Inl e \<longleftrightarrow> e = policy_unavailable
     \<and> (Some (raw_policy h) = ph_raw h \<longrightarrow> ph_config h = None)
     \<and> (\<forall>cfg. ph_decode h (raw_policy h) = Some cfg \<and> policy_ok cfg \<and> raw_policy h \<noteq> [] \<and> utf8_len (raw_policy h) \<le> MAX_POLICY_BYTES
          \<longrightarrow> unknown_categories (ph_catalog h) cfg)"
  by (auto simp: configuration_def parse_policy_config_def split: option.splits if_splits)

lemma resolve_policy_fails:
  "policy_enabled h \<Longrightarrow> configuration h = Inl e \<Longrightarrow> resolve_policy h h' owner user = Inl e"
  by (simp add: resolve_policy_def Let_def)



section \<open>The evidence of a token\<close>

lemma claim_values_from_iff:
  "claim_values_from groups seen js = (out, True) \<longleftrightarrow> (\<exists>vs. js = map JStr vs \<and> out = seen @ vs
     \<and> (\<forall>v \<in> set vs. claim_text_ok groups [] v) \<and> distinct vs \<and> set vs \<inter> set seen = {})"
proof (induction groups seen js rule: claim_values_from.induct)
  case (2 groups seen v vs)
  have ok: "claim_text_ok groups seen v \<longleftrightarrow> claim_text_ok groups [] v \<and> v \<notin> set seen"
    by (auto simp: claim_text_ok_def)
  show ?case
  proof (cases "claim_text_ok groups seen v")
    case True
    with 2 ok show ?thesis by (auto simp: Cons_eq_map_conv)
  next
    case False
    with ok show ?thesis by (auto simp: Cons_eq_map_conv)
  qed
qed (auto simp: Cons_eq_map_conv)

lemma claim_values_from_partial: "\<not> snd (claim_values_from groups seen js) \<Longrightarrow> fst (claim_values_from groups seen js) = []"
  by (induction groups seen js rule: claim_values_from.induct) (auto split: if_splits)

lemma claim_values_iff:
  "claim_values groups raw = (out, True) \<longleftrightarrow> raw = values_json out \<and> length out \<le> (if groups then MAX_GROUPS else MAX_ROLES)
     \<and> (\<forall>v \<in> set out. claim_text_ok groups [] v) \<and> distinct out"
  by (cases raw) (auto simp: claim_values_def values_json_def claim_values_from_iff split: if_splits)

text \<open>What a claim of a token states: absent, nothing; or the list of exactly these texts.\<close>

definition states :: "bool \<Rightarrow> json option \<Rightarrow> string list \<Rightarrow> bool" where
  "states groups raw out \<longleftrightarrow> (case raw of None \<Rightarrow> out = []
     | Some r \<Rightarrow> r = values_json out \<and> length out \<le> (if groups then 200 else 128)
         \<and> (\<forall>v \<in> set out. claim_text_ok groups [] v) \<and> distinct out)"

lemma claim_of_iff: "claim_of groups name claims = (out, True) \<longleftrightarrow> states groups (map_of claims name) out"
  by (auto simp: claim_of_def claim_values_iff states_def MAX_ROLES_def MAX_GROUPS_def split: option.splits)

lemma claim_of_complete: "snd (claim_of groups name claims) \<longleftrightarrow> states groups (map_of claims name) (fst (claim_of groups name claims))"
  unfolding claim_of_iff [symmetric] by (cases "claim_of groups name claims") simp

lemma claim_of_partial: "\<not> snd (claim_of groups name claims) \<Longrightarrow> fst (claim_of groups name claims) = []"
  using claim_values_from_partial
  by (auto simp: claim_of_def claim_values_def split: option.splits json.splits if_splits)

lemma claim_of_member:
  "v \<in> set (fst (claim_of groups name claims)) \<Longrightarrow> \<exists>vs. map_of claims name = Some (values_json vs) \<and> v \<in> set vs"
  using claim_of_complete [of groups name claims] claim_of_partial [of groups name claims]
  by (cases "snd (claim_of groups name claims)") (auto simp: states_def split: option.splits)

text \<open>
  C31: the roles and groups a token proves are exactly those it states. The evidence for a claim is complete
  only when the token has a valid expiry and the claim is absent, or is in the token itself as a list
  of at most 128 roles or 200 groups, which are then the texts in their order, each non-empty, exact
  and printable, without repetition, and each group an object id. Roles and groups that are not part
  of such a list are no evidence.
\<close>

theorem evidence_is_exactly_the_token:
  defines "e claims \<equiv> verified_policy_claims claims"
  shows "(pc_roles_complete (e claims) \<longleftrightarrow> token_expiry claims \<noteq> None \<and> \<not> claim_is_remote ''roles'' claims
      \<and> states False (map_of claims ''roles'') (pc_roles (e claims)))
    \<and> (pc_groups_complete (e claims) \<longleftrightarrow> token_expiry claims \<noteq> None \<and> \<not> claim_is_remote ''groups'' claims
      \<and> map_of claims ''hasgroups'' = None \<and> map_of claims ''_claim_sources'' = None
      \<and> states True (map_of claims ''groups'') (pc_groups (e claims)))
    \<and> (v \<in> set (pc_roles (e claims)) \<longrightarrow> (\<exists>vs. map_of claims ''roles'' = Some (values_json vs) \<and> v \<in> set vs))
    \<and> (v \<in> set (pc_groups (e claims)) \<longrightarrow> (\<exists>vs. map_of claims ''groups'' = Some (values_json vs) \<and> v \<in> set vs))"
  by (auto simp: e_def verified_policy_claims_def Let_def claim_of_complete dest: claim_of_member)

theorem evidence_is_exactly_the_token_witness:
  "let e = verified_policy_claims [(''exp'', JInt 1000), (''roles'', JArr [JStr ''staff'']), (''hasgroups'', JBool True)]
   in pc_roles_complete e \<and> pc_roles e = [''staff''] \<and> \<not> pc_groups_complete e"
proof -
  let ?c = "[(''exp'', JInt 1000), (''roles'', JArr [JStr ''staff'']), (''hasgroups'', JBool True)]"
  have "pc_roles (verified_policy_claims ?c) = [''staff'']" "token_expiry ?c = Some 1000" "\<not> claim_is_remote ''roles'' ?c"
    "claim_text_ok False [] ''staff''" by code_simp+
  then show ?thesis
    using evidence_is_exactly_the_token [where claims = ?c] by (auto simp: values_json_def states_def Let_def)
qed

end
