(* ===== verification/Publish_Models.thy ===== *)
theory Publish_Models
  imports Policy_Service Quota_Models
begin

text \<open>
  \<open>publishing/models.py\<close> and \<open>refs.py\<close>, with the definitions they publish (\<open>agents/user_agents.py\<close>,
  \<open>workflows/models.py\<close>, \<open>agents/agent_catalog.py\<close>) and the access rule of \<open>library/access.py\<close>: the
  records of a publication with their validators, what their digests are taken of, and who may read a
  record. A time is its ISO text. A definition read from a document keeps whether it carried its kind.
\<close>

definition MAX_PUBLICATION_BYTES :: nat where "MAX_PUBLICATION_BYTES = 128 * 1024"

definition MAX_VERSIONS_PER_ASSET :: int where "MAX_VERSIONS_PER_ASSET = 20"

definition MAX_VERSIONS_PER_OWNER :: int where "MAX_VERSIONS_PER_OWNER = 1000"

definition CONTROL_RECORD_PREFIX :: string where "CONTROL_RECORD_PREFIX = '':ai4ia:''"

text \<open>What a call of the service raises: its own error, a refusal of the policy, a value that does not validate.\<close>

datatype pub_exn = PublicationError string int | PolicyRaised policy_decision | InvalidRecord | InvalidBatch

type_synonym 'a pub = "pub_exn + 'a"

definition not_found :: pub_exn where "not_found = PublicationError ''publication_not_found'' 404"

definition unavailable :: pub_exn where "unavailable = PublicationError ''publication_unavailable'' 503"

definition conflict :: "string \<Rightarrow> pub_exn" where "conflict reason = PublicationError reason 409"

definition exact_digest :: "(string \<Rightarrow> string) \<Rightarrow> json \<Rightarrow> string pub" where
  "exact_digest sha v = (let encoded = canonical_json v in
     if MAX_PUBLICATION_BYTES < length encoded then Inl (PublicationError ''publication_too_large'' 422) else Inr (sha encoded))"

definition first_uses :: "'a list \<Rightarrow> 'a list" where
  "first_uses vs = rev (remdups (rev vs))"

lemma set_first_uses [simp]: "set (first_uses vs) = set vs" "distinct (first_uses vs)"
  by (simp_all add: first_uses_def)

section \<open>References\<close>

datatype asset_kind = AgentAsset | WorkflowAsset

definition kind_name :: "asset_kind \<Rightarrow> string" where
  "kind_name k = (case k of AgentAsset \<Rightarrow> ''agent'' | WorkflowAsset \<Rightarrow> ''workflow'')"

record asset_ref =
  ref_kind :: asset_kind
  ref_ownerId :: string
  ref_assetId :: string
  ref_version :: int
  ref_digest :: string

definition asset_ref_ok :: "asset_ref \<Rightarrow> bool" where
  "asset_ref_ok r \<longleftrightarrow> 1 \<le> length (ref_ownerId r) \<and> length (ref_ownerId r) \<le> 256 \<and> is_hex 32 (ref_assetId r)
     \<and> 1 \<le> ref_version r \<and> ref_version r \<le> 2 ^ 31 - 1 \<and> is_hex 64 (ref_digest r)"

definition ref_json :: "asset_ref \<Rightarrow> json" where
  "ref_json r = JObj [(''kind'', JStr (kind_name (ref_kind r))), (''ownerId'', JStr (ref_ownerId r)),
     (''assetId'', JStr (ref_assetId r)), (''version'', JInt (ref_version r)), (''digest'', JStr (ref_digest r))]"

definition publication_handle :: "string \<Rightarrow> string" where
  "publication_handle asset_id = ''pub.'' @ take 28 asset_id"

section \<open>Definitions\<close>

text \<open>\<open>NAME_RE\<close>: \<open>^[a-z](?:[a-z0-9_.-]{0,30}[a-z0-9_])?$\<close>.\<close>

definition name_ok :: "string \<Rightarrow> bool" where
  "name_ok s \<longleftrightarrow> (let lo = (\<lambda>c. 97 \<le> char_code c \<and> char_code c \<le> 122); inner = (\<lambda>c. lo c \<or> is_digit c \<or> c = CHR ''_'')
     in s \<noteq> [] \<and> length s \<le> 32 \<and> lo (hd s) \<and> list_all (\<lambda>c. inner c \<or> c = CHR ''.'' \<or> c = CHR ''-'') (tl s)
        \<and> (length s = 1 \<or> inner (last s)))"

record user_agent =
  uag_id :: string
  uag_userId :: string
  uag_name :: string
  uag_displayName :: string
  uag_description :: string
  uag_systemPrompt :: string
  uag_defaultModel :: "string option"
  uag_tools :: "string list"
  uag_links :: "string list"
  uag_enabled :: bool
  uag_createdAt :: string
  uag_updatedAt :: string
  uag_revision :: int
  uag_incarnation :: "string option"
  uag_recordKind :: "string option"

definition AGENT_DEFINITION_KIND :: string where "AGENT_DEFINITION_KIND = ''ai4ia.agent.definition.v1''"

definition WORKFLOW_DEFINITION_KIND :: string where "WORKFLOW_DEFINITION_KIND = ''ai4ia.workflow.definition.v1''"

definition strings_json :: "string list \<Rightarrow> json" where
  "strings_json vs = JArr (map JStr vs)"

text \<open>The compatible record: a definition of revision zero omits it, and its kind unless it carried one.\<close>

definition compatible_fields :: "int \<Rightarrow> string option \<Rightarrow> string \<Rightarrow> (string \<times> json) list" where
  "compatible_fields revision record_kind default_kind =
     (if revision \<noteq> 0 then [(''revision'', JInt revision)] else [])
     @ (case record_kind of Some k \<Rightarrow> [(''recordKind'', JStr k)]
        | None \<Rightarrow> if revision \<noteq> 0 then [(''recordKind'', JStr default_kind)] else [])"

definition optional_field :: "string \<Rightarrow> ('a \<Rightarrow> json) \<Rightarrow> 'a option \<Rightarrow> (string \<times> json) list" where
  "optional_field name enc v = (case v of None \<Rightarrow> [] | Some x \<Rightarrow> [(name, enc x)])"

definition agent_json :: "user_agent \<Rightarrow> json" where
  "agent_json a = JObj ([(''id'', JStr (uag_id a)), (''userId'', JStr (uag_userId a)), (''name'', JStr (uag_name a)),
     (''displayName'', JStr (uag_displayName a)), (''description'', JStr (uag_description a)),
     (''systemPrompt'', JStr (uag_systemPrompt a)), (''defaultModel'', opt_json JStr (uag_defaultModel a)),
     (''tools'', strings_json (uag_tools a)), (''links'', strings_json (uag_links a)), (''enabled'', JBool (uag_enabled a)),
     (''createdAt'', JStr (uag_createdAt a)), (''updatedAt'', JStr (uag_updatedAt a))]
     @ compatible_fields (uag_revision a) (uag_recordKind a) AGENT_DEFINITION_KIND
     @ optional_field ''incarnation'' JStr (uag_incarnation a))"

record workflow_step =
  stp_agent :: string
  stp_instruction :: string
  stp_extraTools :: "string list"

record workflow_definition =
  wfd_id :: string
  wfd_userId :: string
  wfd_name :: string
  wfd_displayName :: string
  wfd_description :: string
  wfd_steps :: "workflow_step list"
  wfd_enabled :: bool
  wfd_createdAt :: string
  wfd_updatedAt :: string
  wfd_revision :: int
  wfd_incarnation :: "string option"
  wfd_recordKind :: "string option"
  wfd_sourceVersion :: "asset_ref option"

definition step_json :: "workflow_step \<Rightarrow> json" where
  "step_json s = JObj [(''agent'', JStr (stp_agent s)), (''instruction'', JStr (stp_instruction s)),
     (''extraTools'', strings_json (stp_extraTools s))]"

definition workflow_json :: "workflow_definition \<Rightarrow> json" where
  "workflow_json w = JObj ([(''id'', JStr (wfd_id w)), (''userId'', JStr (wfd_userId w)), (''name'', JStr (wfd_name w)),
     (''displayName'', JStr (wfd_displayName w)), (''description'', JStr (wfd_description w)),
     (''steps'', JArr (map step_json (wfd_steps w))), (''enabled'', JBool (wfd_enabled w)),
     (''createdAt'', JStr (wfd_createdAt w)), (''updatedAt'', JStr (wfd_updatedAt w))]
     @ compatible_fields (wfd_revision w) (wfd_recordKind w) WORKFLOW_DEFINITION_KIND
     @ optional_field ''incarnation'' JStr (wfd_incarnation w) @ optional_field ''sourceVersion'' ref_json (wfd_sourceVersion w))"

datatype pub_source = AgentSource user_agent | WorkflowSource workflow_definition

definition src_user :: "pub_source \<Rightarrow> string" where
  "src_user d = (case d of AgentSource a \<Rightarrow> uag_userId a | WorkflowSource w \<Rightarrow> wfd_userId w)"

definition src_name :: "pub_source \<Rightarrow> string" where
  "src_name d = (case d of AgentSource a \<Rightarrow> uag_name a | WorkflowSource w \<Rightarrow> wfd_name w)"

definition src_id :: "pub_source \<Rightarrow> string" where
  "src_id d = (case d of AgentSource a \<Rightarrow> uag_id a | WorkflowSource w \<Rightarrow> wfd_id w)"

definition src_revision :: "pub_source \<Rightarrow> int" where
  "src_revision d = (case d of AgentSource a \<Rightarrow> uag_revision a | WorkflowSource w \<Rightarrow> wfd_revision w)"

definition src_enabled :: "pub_source \<Rightarrow> bool" where
  "src_enabled d = (case d of AgentSource a \<Rightarrow> uag_enabled a | WorkflowSource w \<Rightarrow> wfd_enabled w)"

definition src_incarnation :: "pub_source \<Rightarrow> string option" where
  "src_incarnation d = (case d of AgentSource a \<Rightarrow> uag_incarnation a | WorkflowSource w \<Rightarrow> wfd_incarnation w)"

definition src_json :: "pub_source \<Rightarrow> json" where
  "src_json d = (case d of AgentSource a \<Rightarrow> agent_json a | WorkflowSource w \<Rightarrow> workflow_json w)"

definition src_kind :: "pub_source \<Rightarrow> asset_kind" where
  "src_kind d = (case d of AgentSource a \<Rightarrow> AgentAsset | WorkflowSource w \<Rightarrow> WorkflowAsset)"

text \<open>\<open>is_definition\<close>: the owner and kind of the document, under its own name.\<close>

definition record_kind_ok :: "pub_source \<Rightarrow> bool" where
  "record_kind_ok d = (case d of
     AgentSource a \<Rightarrow> uag_recordKind a \<in> {None, Some AGENT_DEFINITION_KIND}
   | WorkflowSource w \<Rightarrow> wfd_recordKind w \<in> {None, Some WORKFLOW_DEFINITION_KIND})"

definition is_definition :: "pub_source \<Rightarrow> string \<Rightarrow> asset_kind \<Rightarrow> string \<Rightarrow> bool" where
  "is_definition d owner kind name \<longleftrightarrow> take (length CONTROL_RECORD_PREFIX) (src_id d) \<noteq> CONTROL_RECORD_PREFIX
     \<and> name_ok (src_id d) \<and> src_name d = src_id d \<and> src_id d = name \<and> src_user d = owner
     \<and> src_kind d = kind \<and> record_kind_ok d"

section \<open>Curated agents\<close>

record agent_spec =
  agt_name :: string
  agt_displayName :: string
  agt_description :: string
  agt_systemPrompt :: string
  agt_defaultModel :: "string option"
  agt_tools :: "string list"
  agt_links :: "string list"
  agt_enabled :: bool
  agt_sourceVersion :: "asset_ref option"
  agt_publishedModes :: "string list option"

definition curated_json :: "agent_spec \<Rightarrow> json" where
  "curated_json a = JObj ([(''name'', JStr (agt_name a)), (''displayName'', JStr (agt_displayName a)),
     (''description'', JStr (agt_description a)), (''systemPrompt'', JStr (agt_systemPrompt a)),
     (''defaultModel'', opt_json JStr (agt_defaultModel a)), (''tools'', strings_json (agt_tools a)),
     (''links'', strings_json (agt_links a)), (''enabled'', JBool (agt_enabled a))]
     @ optional_field ''sourceVersion'' ref_json (agt_sourceVersion a)
     @ optional_field ''publishedModes'' strings_json (agt_publishedModes a))"

record agent_catalog =
  agc_agents :: "agent_spec list"
  agc_conflicts :: "string list"

definition agents_get :: "agent_catalog \<Rightarrow> string \<Rightarrow> agent_spec option" where
  "agents_get c name = (if name = [] \<or> lower name \<in> set (agc_conflicts c) then None
     else find (\<lambda>a. lower (agt_name a) = lower name) (agc_agents c))"

definition to_spec :: "user_agent \<Rightarrow> agent_spec" where
  "to_spec a = \<lparr>agt_name = uag_name a, agt_displayName = uag_displayName a, agt_description = uag_description a,
     agt_systemPrompt = uag_systemPrompt a, agt_defaultModel = uag_defaultModel a, agt_tools = uag_tools a,
     agt_links = uag_links a, agt_enabled = uag_enabled a, agt_sourceVersion = None, agt_publishedModes = None\<rparr>"

section \<open>Audiences\<close>

datatype pub_visibility = VisiblePrivate | VisibleShared | VisiblePublic

definition visibility_name :: "pub_visibility \<Rightarrow> string" where
  "visibility_name v = (case v of VisiblePrivate \<Rightarrow> ''private'' | VisibleShared \<Rightarrow> ''shared'' | VisiblePublic \<Rightarrow> ''public'')"

record publication_audience =
  aud_visibility :: pub_visibility
  aud_acl :: "string list"
  aud_groupAcl :: "string list"

definition normalize_principal :: "string option \<Rightarrow> string" where
  "normalize_principal email = lower (strip (case email of None \<Rightarrow> [] | Some e \<Rightarrow> e))"

definition before_at :: "string \<Rightarrow> string" where "before_at s = takeWhile (\<lambda>c. c \<noteq> CHR ''@'') s"

definition after_at :: "string \<Rightarrow> string" where "after_at s = tl (dropWhile (\<lambda>c. c \<noteq> CHR ''@'') s)"

definition valid_grantee_email :: "string \<Rightarrow> bool" where
  "valid_grantee_email v \<longleftrightarrow> v \<noteq> [] \<and> CHR '' '' \<notin> set v \<and> length (filter (\<lambda>c. c = CHR ''@'') v) = 1
     \<and> before_at v \<noteq> [] \<and> CHR ''.'' \<in> set (after_at v) \<and> hd (after_at v) \<noteq> CHR ''.'' \<and> last (after_at v) \<noteq> CHR ''.''"

text \<open>The lengths are checked before the addresses are normalised; repetitions keep their first place.\<close>

definition clean_audience :: "'a publication_audience_scheme \<Rightarrow> 'a publication_audience_scheme option" where
  "clean_audience a = (let cleaned = first_uses (map (\<lambda>e. normalize_principal (Some e)) (aud_acl a)) in
     if length (aud_acl a) \<le> 100 \<and> length (aud_groupAcl a) \<le> 100
        \<and> list_all (\<lambda>e. valid_grantee_email e \<and> length e \<le> 254) cleaned
        \<and> distinct (aud_groupAcl a) \<and> list_all group_id (aud_groupAcl a)
        \<and> (aud_visibility a \<noteq> VisibleShared \<longrightarrow> cleaned = [] \<and> aud_groupAcl a = [])
     then Some (a\<lparr>aud_acl := cleaned\<rparr>) else None)"

definition audience_fields :: "'a publication_audience_scheme \<Rightarrow> (string \<times> json) list" where
  "audience_fields a = [(''visibility'', JStr (visibility_name (aud_visibility a))), (''acl'', strings_json (aud_acl a)),
     (''groupAcl'', strings_json (aud_groupAcl a))]"

text \<open>\<open>can_access\<close>, on a record with a tenant.\<close>

definition can_access ::
  "string \<Rightarrow> string \<Rightarrow> string \<Rightarrow> 'a publication_audience_scheme \<Rightarrow> string option \<Rightarrow> string option \<Rightarrow> string list \<Rightarrow> bool" where
  "can_access user_id owner tenant a email tenant_id groups \<longleftrightarrow>
     (case tenant_id of None \<Rightarrow> False | Some t \<Rightarrow> t \<noteq> [] \<and> tenant = t)
     \<and> (owner = user_id \<or> aud_visibility a = VisiblePublic
        \<or> aud_visibility a = VisibleShared
          \<and> (normalize_principal email \<noteq> [] \<and> normalize_principal email \<in> set (aud_acl a)
             \<or> set groups \<inter> set (aud_groupAcl a) \<noteq> {}))"

section \<open>Versions\<close>

datatype execution_mode = ModeChat | ModeDelegation | ModeWorkflow | ModeWorkflowTool | ModeVoice

definition mode_name :: "execution_mode \<Rightarrow> string" where
  "mode_name m = (case m of ModeChat \<Rightarrow> ''chat'' | ModeDelegation \<Rightarrow> ''delegation'' | ModeWorkflow \<Rightarrow> ''workflow''
     | ModeWorkflowTool \<Rightarrow> ''workflow_tool'' | ModeVoice \<Rightarrow> ''voice'')"

datatype narrowing_reason = EmptyDocumentScope | RequestToolsDisabled

definition reason_name :: "narrowing_reason \<Rightarrow> string" where
  "reason_name r = (case r of EmptyDocumentScope \<Rightarrow> ''empty_document_scope'' | RequestToolsDisabled \<Rightarrow> ''request_tools_disabled'')"

datatype skill_mode = SkillsVersioned | SkillsExcluded

definition skill_name :: "skill_mode \<Rightarrow> string" where
  "skill_name m = (case m of SkillsVersioned \<Rightarrow> ''versioned'' | SkillsExcluded \<Rightarrow> ''excluded'')"

record published_tool =
  ptl_name :: string
  ptl_alias :: string
  ptl_contractDigest :: string
  ptl_parametersDigest :: string
  ptl_description :: string
  ptl_descriptionTruncated :: bool
  ptl_risk :: string
  ptl_scopes :: "string list"
  ptl_egress :: "string list"
  ptl_resources :: "json list"

definition tool_json :: "published_tool \<Rightarrow> json" where
  "tool_json t = JObj [(''name'', JStr (ptl_name t)), (''alias'', JStr (ptl_alias t)),
     (''contractDigest'', JStr (ptl_contractDigest t)), (''parametersDigest'', JStr (ptl_parametersDigest t)),
     (''description'', JStr (ptl_description t)), (''descriptionTruncated'', JBool (ptl_descriptionTruncated t)),
     (''risk'', JStr (ptl_risk t)), (''scopes'', strings_json (ptl_scopes t)), (''egress'', strings_json (ptl_egress t)),
     (''resources'', JArr (ptl_resources t))]"

record bundle_requirements =
  req_required :: "string list"
  req_optional :: "(string, narrowing_reason list) dict"

definition requirements_json :: "bundle_requirements \<Rightarrow> json" where
  "requirements_json r = JObj [(''required'', strings_json (req_required r)),
     (''optional'', JObj (map (\<lambda>(name, rs). (name, strings_json (map reason_name rs))) (req_optional r)))]"

definition requirements_ok :: "bundle_requirements \<Rightarrow> bool" where
  "requirements_ok r \<longleftrightarrow> length (req_required r) \<le> 128 \<and> length (req_optional r) \<le> 128 \<and> distinct (req_required r)
     \<and> set (req_required r) \<inter> fst ` set (req_optional r) = {}"

text \<open>\<open>bdl_skillsExcluded\<close>: the one exclusion there is, \<open>skills_excluded_by_author\<close>.\<close>

record tool_bundle =
  bdl_mode :: execution_mode
  bdl_tools :: "published_tool list"
  bdl_digest :: string
  bdl_environmentDigest :: string
  bdl_requirements :: "(string, bundle_requirements) dict"
  bdl_skillsExcluded :: bool

definition exclusions_json :: "bool \<Rightarrow> json" where
  "exclusions_json excluded = strings_json (if excluded then [''skills_excluded_by_author''] else [])"

definition bundle_json :: "tool_bundle \<Rightarrow> json" where
  "bundle_json b = JObj [(''mode'', JStr (mode_name (bdl_mode b))), (''tools'', JArr (map tool_json (bdl_tools b))),
     (''digest'', JStr (bdl_digest b)), (''environmentDigest'', JStr (bdl_environmentDigest b)),
     (''requirements'', JObj (map (\<lambda>(k, r). (k, requirements_json r)) (bdl_requirements b))),
     (''exclusions'', exclusions_json (bdl_skillsExcluded b))]"

record effective_subset =
  sub_profileDigest :: string
  sub_effectiveDigest :: string
  sub_scope :: string
  sub_contracts :: "(string, string) dict"
  sub_narrowing :: "narrowing_reason list"
  sub_skillsExcluded :: bool

record published_model =
  pml_modelId :: string
  pml_api :: string
  pml_category :: string
  pml_option :: deployment_option
  pml_requiredRealtimeProtocol :: "string option"
  pml_runtimeEnabled :: bool

definition option_json :: "deployment_option \<Rightarrow> json" where
  "option_json d = JObj [(''region'', JStr (dp_region d)), (''dataZone'', opt_json JStr (dp_dataZone d)),
     (''sku'', JStr (dp_sku d)), (''deploymentName'', JStr (dp_deploymentName d)),
     (''modelVersion'', opt_json JStr (dp_modelVersion d)), (''residency'', JStr (residency d))]"

definition model_json :: "published_model \<Rightarrow> json" where
  "model_json m = JObj [(''modelId'', JStr (pml_modelId m)), (''api'', JStr (pml_api m)), (''category'', JStr (pml_category m)),
     (''option'', option_json (pml_option m)),
     (''requiredRealtimeProtocol'', opt_json JStr (pml_requiredRealtimeProtocol m)), (''runtimeEnabled'', JBool (pml_runtimeEnabled m))]"

definition declared_version :: "published_model \<Rightarrow> bool" where
  "declared_version m \<longleftrightarrow> dp_modelVersion (pml_option m) \<noteq> None \<and> dp_modelVersion (pml_option m) \<noteq> Some []"

text \<open>A dependency has exactly one source: a published version or a curated agent by its digest.\<close>

datatype dependency_source = PublishedDependency asset_ref | CuratedDependency string

record dependency_binding =
  dpd_name :: string
  dpd_source :: dependency_source

definition dependency_json :: "dependency_binding \<Rightarrow> json" where
  "dependency_json d = JObj [(''name'', JStr (dpd_name d)),
     (''published'', (case dpd_source d of PublishedDependency r \<Rightarrow> ref_json r | CuratedDependency _ \<Rightarrow> JNull)),
     (''curatedDigest'', (case dpd_source d of PublishedDependency _ \<Rightarrow> JNull | CuratedDependency s \<Rightarrow> JStr s))]"

record publication_version =
  ver_id :: string
  ver_userId :: string
  ver_tenantId :: string
  ver_kind :: asset_kind
  ver_assetId :: string
  ver_version :: int
  ver_digest :: string
  ver_source :: pub_source
  ver_sourceDigest :: string
  ver_audience :: publication_audience
  ver_modelBindings :: "published_model list"
  ver_profiles :: "(execution_mode, tool_bundle) dict"
  ver_dependencies :: "dependency_binding list"
  ver_reviewConsent :: bool
  ver_operatorReviewConsent :: bool
  ver_reviewerUserId :: "string option"
  ver_submittedAt :: string
  ver_policyDigest :: string
  ver_skillMode :: skill_mode

definition version_ok :: "publication_version \<Rightarrow> bool" where
  "version_ok v \<longleftrightarrow> 1 \<le> ver_version v \<and> ver_version v \<le> MAX_VERSIONS_PER_ASSET \<and> is_hex 64 (ver_digest v)
     \<and> is_hex 64 (ver_sourceDigest v) \<and> clean_audience (ver_audience v) = Some (ver_audience v)
     \<and> ver_modelBindings v \<noteq> [] \<and> length (ver_modelBindings v) \<le> 128 \<and> list_all declared_version (ver_modelBindings v)
     \<and> ver_profiles v \<noteq> [] \<and> length (ver_profiles v) \<le> 5
     \<and> list_all (\<lambda>(m, b). list_all (\<lambda>(k, r). requirements_ok r) (bdl_requirements b) \<and> length (bdl_requirements b) \<le> 6
          \<and> length (bdl_tools b) \<le> 128) (ver_profiles v)
     \<and> length (ver_dependencies v) \<le> 6"

definition version_reference :: "publication_version \<Rightarrow> asset_ref" where
  "version_reference v = \<lparr>ref_kind = ver_kind v, ref_ownerId = ver_userId v, ref_assetId = ver_assetId v,
     ref_version = ver_version v, ref_digest = ver_digest v\<rparr>"

definition version_fields :: "publication_version \<Rightarrow> (string \<times> json) list" where
  "version_fields v = [(''id'', JStr (ver_id v)), (''userId'', JStr (ver_userId v)), (''tenantId'', JStr (ver_tenantId v)),
     (''recordKind'', JStr ''ai4ia.publication.version.v1''), (''kind'', JStr (kind_name (ver_kind v))),
     (''assetId'', JStr (ver_assetId v)), (''version'', JInt (ver_version v)),
     (''digest'', JStr (ver_digest v)), (''source'', src_json (ver_source v)),
     (''sourceDigest'', JStr (ver_sourceDigest v)), (''audience'', JObj (audience_fields (ver_audience v))),
     (''modelBindings'', JArr (map model_json (ver_modelBindings v))),
     (''profiles'', JObj (map (\<lambda>(m, b). (mode_name m, bundle_json b)) (ver_profiles v))),
     (''dependencies'', JArr (map dependency_json (ver_dependencies v))), (''reviewConsent'', JBool (ver_reviewConsent v)),
     (''operatorReviewConsent'', JBool (ver_operatorReviewConsent v)), (''reviewerUserId'', opt_json JStr (ver_reviewerUserId v)),
     (''submittedAt'', JStr (ver_submittedAt v)), (''policyDigest'', JStr (ver_policyDigest v)),
     (''skillMode'', JStr (skill_name (ver_skillMode v)))]"

text \<open>The digest is taken of the dump without the digest.\<close>

definition version_json :: "publication_version \<Rightarrow> json" where
  "version_json v = JObj (filter (\<lambda>(name, _). name \<noteq> ''digest'') (version_fields v))"

definition version_digest :: "(string \<Rightarrow> string) \<Rightarrow> publication_version \<Rightarrow> string pub" where
  "version_digest sha v = exact_digest sha (version_json v)"

section \<open>Heads and reviews\<close>

record publication_head = publication_audience +
  hed_id :: string
  hed_userId :: string
  hed_tenantId :: string
  hed_kind :: asset_kind
  hed_sourceName :: string
  hed_sourceIncarnation :: "string option"
  hed_assetId :: string
  hed_handle :: string
  hed_revision :: int
  hed_versionCount :: int
  hed_activeVersion :: "int option"
  hed_pendingVersion :: "int option"
  hed_deleted :: bool
  hed_reviewConsent :: bool
  hed_operatorReviewConsent :: bool
  hed_reviewerUserId :: "string option"

definition head_ok :: "publication_head \<Rightarrow> bool" where
  "head_ok h \<longleftrightarrow> 1 \<le> hed_revision h \<and> 0 \<le> hed_versionCount h \<and> hed_versionCount h \<le> MAX_VERSIONS_PER_ASSET
     \<and> clean_audience h = Some h"

datatype review_outcome = ReviewApproved | ReviewRejected

datatype review_authority = ByReviewer | ByOperator

record review_decision =
  rvw_id :: string
  rvw_userId :: string
  rvw_tenantId :: string
  rvw_source :: asset_ref
  rvw_decision :: review_outcome
  rvw_reviewerId :: string
  rvw_authority :: review_authority
  rvw_reviewedAt :: string
  rvw_note :: string
  rvw_digest :: string

definition review_json :: "review_decision \<Rightarrow> json" where
  "review_json r = JObj [(''id'', JStr (rvw_id r)), (''userId'', JStr (rvw_userId r)), (''tenantId'', JStr (rvw_tenantId r)),
     (''recordKind'', JStr ''ai4ia.publication.review.v1''), (''source'', ref_json (rvw_source r)),
     (''decision'', JStr (case rvw_decision r of ReviewApproved \<Rightarrow> ''approved'' | ReviewRejected \<Rightarrow> ''rejected'')),
     (''reviewerId'', JStr (rvw_reviewerId r)),
     (''authority'', JStr (case rvw_authority r of ByReviewer \<Rightarrow> ''reviewer'' | ByOperator \<Rightarrow> ''operator'')),
     (''reviewedAt'', JStr (rvw_reviewedAt r)), (''note'', JStr (rvw_note r))]"

definition review_digest :: "(string \<Rightarrow> string) \<Rightarrow> review_decision \<Rightarrow> string pub" where
  "review_digest sha r = exact_digest sha (review_json r)"

section \<open>Requests\<close>

record publication_submit =
  sbm_expectedRevision :: int
  sbm_audience :: publication_audience
  sbm_modelIds :: "string list"
  sbm_modes :: "execution_mode list"
  sbm_reviewConsent :: bool
  sbm_operatorReviewConsent :: bool
  sbm_reviewerUserId :: "string option"
  sbm_skillMode :: skill_mode

definition submit_ok :: "publication_submit \<Rightarrow> bool" where
  "submit_ok r \<longleftrightarrow> 0 \<le> sbm_expectedRevision r \<and> clean_audience (sbm_audience r) = Some (sbm_audience r)
     \<and> 1 \<le> length (sbm_modelIds r) \<and> length (sbm_modelIds r) \<le> 32 \<and> 1 \<le> length (sbm_modes r) \<and> length (sbm_modes r) \<le> 5
     \<and> (case sbm_reviewerUserId r of None \<Rightarrow> True | Some u \<Rightarrow> 1 \<le> length u \<and> length u \<le> 256)
     \<and> sbm_reviewConsent r \<and> aud_visibility (sbm_audience r) \<noteq> VisiblePrivate
     \<and> (aud_visibility (sbm_audience r) = VisibleShared \<longrightarrow> aud_acl (sbm_audience r) \<noteq> [] \<or> aud_groupAcl (sbm_audience r) \<noteq> [])
     \<and> distinct (sbm_modelIds r) \<and> distinct (sbm_modes r)"

record review_request =
  rvq_source :: asset_ref
  rvq_expectedHeadRevision :: int
  rvq_decision :: review_outcome
  rvq_note :: string

record activation_request =
  acq_source :: asset_ref
  acq_expectedHeadRevision :: int

record resolved_publication =
  rsp_version :: publication_version
  rsp_approval :: review_decision
  rsp_headRevision :: int

end
