(* ===== verification/Publish_Store.thy ===== *)
theory Publish_Store
  imports Publish_Models
begin

text \<open>
  \<open>publishing/store.py\<close>: the records of an owner, with conditional batches. A row is what the
  validator of its kind reads from the body; a body no validator accepts is an \<open>OtherRow\<close>. An etag is
  the number of the write that made the row. What every writer guarantees is \<open>later_records\<close>: an etag names
  one row for ever, and a version or a review, once written, stays as it is.
\<close>

section \<open>Rows\<close>

datatype pub_row =
    DefinitionRow pub_source
  | HeadRow publication_head
  | VersionRow publication_version
  | ReviewRow review_decision
  | BudgetRow string json string
  | OtherRow string string

definition publication_head_id :: "string \<Rightarrow> string" where
  "publication_head_id name = CONTROL_RECORD_PREFIX @ ''publication:head:'' @ name"

definition BUDGET_ID :: string where "BUDGET_ID = CONTROL_RECORD_PREFIX @ ''publication:budget:v1''"

definition version_id :: "string \<Rightarrow> int \<Rightarrow> string" where
  "version_id asset version = CONTROL_RECORD_PREFIX @ ''publication:version:'' @ asset @ '':'' @ show_int version"

definition review_id :: "string \<Rightarrow> int \<Rightarrow> string" where
  "review_id asset version = CONTROL_RECORD_PREFIX @ ''publication:review:'' @ asset @ '':'' @ show_int version"

fun row_id :: "pub_row \<Rightarrow> string" where
  "row_id (DefinitionRow d) = src_id d"
| "row_id (HeadRow h) = hed_id h"
| "row_id (VersionRow v) = ver_id v"
| "row_id (ReviewRow r) = rvw_id r"
| "row_id (BudgetRow owner count kind) = BUDGET_ID"
| "row_id (OtherRow owner identifier) = identifier"

fun row_owner :: "pub_row \<Rightarrow> string" where
  "row_owner (DefinitionRow d) = src_user d"
| "row_owner (HeadRow h) = hed_userId h"
| "row_owner (VersionRow v) = ver_userId v"
| "row_owner (ReviewRow r) = rvw_userId r"
| "row_owner (BudgetRow owner count kind) = owner"
| "row_owner (OtherRow owner identifier) = owner"

type_synonym row_snapshot = "pub_row \<times> nat"

record pub_records =
  pst_items :: "(string \<times> string, row_snapshot) dict"
  pst_sequence :: nat

definition new_records :: pub_records where
  "new_records = \<lparr>pst_items = [], pst_sequence = 0\<rparr>"

section \<open>Operations\<close>

definition rec_read :: "pub_records \<Rightarrow> string \<Rightarrow> string \<Rightarrow> row_snapshot option" where
  "rec_read s owner identifier = map_of (pst_items s) (owner, identifier)"

definition validate_batch ::
  "string \<Rightarrow> (string, row_snapshot option) dict \<Rightarrow> (string, pub_row option) dict \<Rightarrow> bool" where
  "validate_batch owner expected changes \<longleftrightarrow>
     owner \<noteq> [] \<and> 1 \<le> length expected \<and> length expected \<le> 100 \<and> fst ` set changes \<subseteq> fst ` set expected
     \<and> list_all (\<lambda>(identifier, before).
          (case before of None \<Rightarrow> True | Some (row, _) \<Rightarrow> row_id row = identifier \<and> row_owner row = owner)
          \<and> (case map_of changes identifier of
               Some (Some body) \<Rightarrow> row_id body = identifier \<and> row_owner body = owner
             | _ \<Rightarrow> before \<noteq> None)) expected"

definition put_row :: "string \<Rightarrow> string \<Rightarrow> pub_row \<Rightarrow> pub_records \<Rightarrow> pub_records" where
  "put_row owner identifier row s =
     s\<lparr>pst_sequence := pst_sequence s + 1,
       pst_items := AList.update (owner, identifier) (row, pst_sequence s + 1) (pst_items s)\<rparr>"

definition drop_row :: "string \<Rightarrow> string \<Rightarrow> pub_records \<Rightarrow> pub_records" where
  "drop_row owner identifier s = s\<lparr>pst_items := AList.delete (owner, identifier) (pst_items s)\<rparr>"

text \<open>The row a batch leaves: the change, or the row that was expected, written again.\<close>

definition batch_row :: "(string, pub_row option) dict \<Rightarrow> string \<Rightarrow> row_snapshot option \<Rightarrow> pub_row option" where
  "batch_row changes identifier before = (case map_of changes identifier of
     Some body \<Rightarrow> body | None \<Rightarrow> map_option fst before)"

fun apply_batch ::
  "string \<Rightarrow> (string, pub_row option) dict \<Rightarrow> (string, row_snapshot option) dict \<Rightarrow> pub_records \<Rightarrow> pub_records" where
  "apply_batch owner changes [] s = s"
| "apply_batch owner changes ((identifier, before) # rest) s = apply_batch owner changes rest
     (case batch_row changes identifier before of
        None \<Rightarrow> drop_row owner identifier s | Some row \<Rightarrow> put_row owner identifier row s)"

definition rec_atomic ::
  "pub_records \<Rightarrow> string \<Rightarrow> (string, row_snapshot option) dict \<Rightarrow> (string, pub_row option) dict \<Rightarrow> (bool \<times> pub_records) pub" where
  "rec_atomic s owner expected changes =
     (if \<not> validate_batch owner expected changes then Inl InvalidBatch
      else if list_all (\<lambda>(identifier, before). map_option snd (rec_read s owner identifier) = map_option snd before) expected
      then Inr (True, apply_batch owner changes expected s)
      else Inr (False, s))"

definition rec_put :: "pub_records \<Rightarrow> string \<Rightarrow> pub_row \<Rightarrow> pub_records pub" where
  "rec_put s owner row = (if row_owner row \<noteq> owner then Inl InvalidBatch else Inr (put_row owner (row_id row) row s))"

text \<open>The queries of the service ask for heads.\<close>

record head_query =
  hqy_owner_id :: "string option"
  hqy_tenant_id :: "string option"
  hqy_handle :: "string option"
  hqy_viewer_id :: "string option"
  hqy_email :: "string option"
  hqy_groups :: "string list"
  hqy_active_only :: bool
  hqy_review_for :: "string option"
  hqy_operator_only :: bool
  hqy_limit :: nat

definition plain_query :: head_query where
  "plain_query = \<lparr>hqy_owner_id = None, hqy_tenant_id = None, hqy_handle = None, hqy_viewer_id = None, hqy_email = None,
     hqy_groups = [], hqy_active_only = False, hqy_review_for = None, hqy_operator_only = False, hqy_limit = 101\<rparr>"

definition asks :: "'a option \<Rightarrow> 'a \<Rightarrow> bool" where
  "asks wanted v \<longleftrightarrow> wanted = None \<or> wanted = Some v"

definition head_matches :: "head_query \<Rightarrow> publication_head \<Rightarrow> bool" where
  "head_matches q h \<longleftrightarrow>
     asks (hqy_owner_id q) (hed_userId h) \<and> asks (hqy_tenant_id q) (hed_tenantId h) \<and> asks (hqy_handle q) (hed_handle h)
     \<and> (hqy_active_only q \<longrightarrow> hed_activeVersion h \<noteq> None)
     \<and> (case hqy_viewer_id q of None \<Rightarrow> True | Some viewer \<Rightarrow>
          hed_userId h = viewer \<or> aud_visibility h = VisiblePublic
          \<or> aud_visibility h = VisibleShared
            \<and> ((case hqy_email q of None \<Rightarrow> False | Some e \<Rightarrow> e \<in> set (aud_acl h)) \<or> set (hqy_groups q) \<inter> set (aud_groupAcl h) \<noteq> {}))
     \<and> (case hqy_review_for q of None \<Rightarrow> True | Some reviewer \<Rightarrow>
          hed_pendingVersion h \<noteq> None \<and> hed_userId h \<noteq> reviewer \<and> hed_reviewConsent h
          \<and> hed_reviewerUserId h \<in> {None, Some reviewer} \<and> (hqy_operator_only q \<longrightarrow> hed_operatorReviewConsent h))"

definition heads_of :: "pub_records \<Rightarrow> publication_head list" where
  "heads_of s = concat (map (\<lambda>(k, row, e). case row of HeadRow h \<Rightarrow> [h] | _ \<Rightarrow> []) (pst_items s))"

definition rec_query :: "pub_records \<Rightarrow> head_query \<Rightarrow> publication_head list pub" where
  "rec_query s q = (if hqy_limit q < 1 \<or> 1001 < hqy_limit q then Inl InvalidBatch
     else Inr (take (hqy_limit q) (sort_key hed_userId (sort_key hed_id (filter (head_matches q) (heads_of s))))))"

section \<open>Definitions\<close>

definition replace_definition :: "pub_records \<Rightarrow> pub_records \<Rightarrow> pub_source \<Rightarrow> int option \<Rightarrow> bool \<Rightarrow> (bool \<times> pub_records) pub" where
  "replace_definition s s' body expected_revision create =
     (let before = rec_read s (src_user body) (src_id body) in
      if (if create then before \<noteq> None
          else case (expected_revision, before) of
            (Some n, Some (DefinitionRow d, _)) \<Rightarrow> src_revision d \<noteq> n \<or> src_revision body \<noteq> n + 1
          | _ \<Rightarrow> True)
      then Inr (False, s')
      else rec_atomic s' (src_user body) [(src_id body, before)] [(src_id body, Some (DefinitionRow body))])"

text \<open>The head of a deleted definition is closed with it; it keeps its audience.\<close>

definition closed_head :: "publication_head \<Rightarrow> publication_head" where
  "closed_head h = h\<lparr>hed_activeVersion := None, hed_pendingVersion := None, hed_deleted := True,
     hed_revision := hed_revision h + 1\<rparr>"

text \<open>The definition is read in \<open>s\<close>, its head in \<open>s'\<close>, and the batch is applied to \<open>s''\<close>.\<close>

definition delete_definition ::
  "pub_records \<Rightarrow> pub_records \<Rightarrow> pub_records \<Rightarrow> string \<Rightarrow> string \<Rightarrow> (bool \<times> pub_records) pub" where
  "delete_definition s s' s'' owner name =
     (case rec_read s owner name of
        None \<Rightarrow> Inr (True, s'')
      | Some before \<Rightarrow>
          (let head_id = publication_head_id name in
           case rec_read s' owner head_id of
             None \<Rightarrow> rec_atomic s'' owner [(name, Some before)] [(name, None)]
           | Some (HeadRow h, e) \<Rightarrow> rec_atomic s'' owner [(name, Some before), (head_id, Some (HeadRow h, e))]
               [(name, None), (head_id, Some (HeadRow (closed_head h)))]
           | Some _ \<Rightarrow> Inl InvalidRecord))"

section \<open>What every writer guarantees\<close>

definition wf_records :: "pub_records \<Rightarrow> bool" where
  "wf_records s \<longleftrightarrow> distinct (map fst (pst_items s))
     \<and> (\<forall>k row e. map_of (pst_items s) k = Some (row, e) \<longrightarrow> e \<le> pst_sequence s)"

fun permanent :: "pub_row \<Rightarrow> bool" where
  "permanent (VersionRow v) \<longleftrightarrow> True"
| "permanent (ReviewRow r) \<longleftrightarrow> True"
| "permanent _ \<longleftrightarrow> False"

definition later_records :: "pub_records \<Rightarrow> pub_records \<Rightarrow> bool" where
  "later_records s s' \<longleftrightarrow> pst_sequence s \<le> pst_sequence s'
     \<and> (\<forall>k row e. map_of (pst_items s') k = Some (row, e) \<and> e \<le> pst_sequence s \<longrightarrow> map_of (pst_items s) k = Some (row, e))
     \<and> (\<forall>k row e. map_of (pst_items s) k = Some (row, e) \<and> permanent row \<longrightarrow> (\<exists>e'. map_of (pst_items s') k = Some (row, e')))"

lemma later_records_refl [simp]: "later_records s s"
  by (auto simp: later_records_def)

lemma later_recordsD:
  assumes "later_records s s'"
  shows "pst_sequence s \<le> pst_sequence s'"
    and "map_of (pst_items s') k = Some (row, e) \<Longrightarrow> e \<le> pst_sequence s \<Longrightarrow> map_of (pst_items s) k = Some (row, e)"
    and "map_of (pst_items s) k = Some (row, e) \<Longrightarrow> permanent row \<Longrightarrow> \<exists>e'. map_of (pst_items s') k = Some (row, e')"
proof -
  note a = assms [unfolded later_records_def]
  show "pst_sequence s \<le> pst_sequence s'" by (rule a [THEN conjunct1])
  show "map_of (pst_items s') k = Some (row, e) \<Longrightarrow> e \<le> pst_sequence s \<Longrightarrow> map_of (pst_items s) k = Some (row, e)"
    by (rule a [THEN conjunct2, THEN conjunct1, rule_format]) (rule conjI)
  show "map_of (pst_items s) k = Some (row, e) \<Longrightarrow> permanent row \<Longrightarrow> \<exists>e'. map_of (pst_items s') k = Some (row, e')"
    by (rule a [THEN conjunct2, THEN conjunct2, rule_format]) (rule conjI)
qed

lemma later_records_trans:
  assumes "later_records s s'" "later_records s' s''"
  shows "later_records s s''"
  unfolding later_records_def
proof (intro conjI allI impI)
  show "pst_sequence s \<le> pst_sequence s''" using later_recordsD(1) [OF assms(1)] later_recordsD(1) [OF assms(2)] by simp
next
  fix k row e assume k: "map_of (pst_items s'') k = Some (row, e) \<and> e \<le> pst_sequence s"
  with later_recordsD(1) [OF assms(1)] have "e \<le> pst_sequence s'" by simp
  from later_recordsD(2) [OF assms(2) k [THEN conjunct1] this] have "map_of (pst_items s') k = Some (row, e)" .
  from later_recordsD(2) [OF assms(1) this k [THEN conjunct2]] show "map_of (pst_items s) k = Some (row, e)" .
next
  fix k row e assume k: "map_of (pst_items s) k = Some (row, e) \<and> permanent row"
  from later_recordsD(3) [OF assms(1) k [THEN conjunct1] k [THEN conjunct2]] obtain e' where "map_of (pst_items s') k = Some (row, e')" by blast
  from later_recordsD(3) [OF assms(2) this k [THEN conjunct2]] show "\<exists>e'. map_of (pst_items s'') k = Some (row, e')" .
qed

text \<open>An earlier reading with the etag of the present row is the present row.\<close>

lemma later_records_snapshot:
  assumes "later_records s s'" "wf_records s" "rec_read s owner i = Some (row, e)" "rec_read s' owner i = Some (row', e)"
  shows "row' = row"
proof -
  have "e \<le> pst_sequence s" using assms(2,3) by (auto simp: wf_records_def rec_read_def)
  with later_recordsD(2) [OF assms(1)] assms(3,4) show ?thesis by (fastforce simp: rec_read_def)
qed

lemma later_records_permanent:
  "later_records s s' \<Longrightarrow> rec_read s owner i = Some (row, e) \<Longrightarrow> permanent row \<Longrightarrow> \<exists>e'. rec_read s' owner i = Some (row, e')"
  unfolding rec_read_def by (rule later_recordsD(3))

section \<open>Batches\<close>

lemma read_put_row:
  "rec_read (put_row owner i row s) owner' i' = (if (owner', i') = (owner, i) then Some (row, pst_sequence s + 1) else rec_read s owner' i')"
  by (auto simp: rec_read_def put_row_def map_of_update)

lemma read_drop_row:
  "rec_read (drop_row owner i s) owner' i' = (if (owner', i') = (owner, i) then None else rec_read s owner' i')"
  by (auto simp: rec_read_def drop_row_def delete_conv')

lemma wf_put_row: "wf_records s \<Longrightarrow> wf_records (put_row owner i row s)"
  by (fastforce simp: wf_records_def put_row_def map_of_update)

lemma wf_drop_row: "wf_records s \<Longrightarrow> wf_records (drop_row owner i s)"
  by (auto simp: wf_records_def drop_row_def delete_conv' distinct_delete split: if_splits)

lemma wf_apply_batch: "wf_records s \<Longrightarrow> wf_records (apply_batch owner changes expected s)"
  by (induction owner changes expected s rule: apply_batch.induct) (auto simp: wf_put_row wf_drop_row split: option.splits)

lemma sequence_apply_batch: "pst_sequence s \<le> pst_sequence (apply_batch owner changes expected s)"
proof (induction owner changes expected s rule: apply_batch.induct)
  case (2 owner changes ident before rest s)
  then show ?case
    by (cases "batch_row changes ident before") (auto simp: put_row_def drop_row_def)
qed simp

text \<open>After a batch each expected record is the row it leaves, and every other record is as before.\<close>

lemma read_apply_batch:
  assumes "distinct (map fst expected)"
  shows "(owner' = owner \<longrightarrow> i \<notin> fst ` set expected) \<Longrightarrow> rec_read (apply_batch owner changes expected s) owner' i = rec_read s owner' i"
    and "(i, before) \<in> set expected \<Longrightarrow>
      map_option fst (rec_read (apply_batch owner changes expected s) owner i) = batch_row changes i before
      \<and> (\<forall>row e. rec_read (apply_batch owner changes expected s) owner i = Some (row, e) \<longrightarrow> pst_sequence s < e)"
proof -
  have same: "(owner' = owner \<longrightarrow> i \<notin> fst ` set expected) \<Longrightarrow> rec_read (apply_batch owner changes expected s) owner' i = rec_read s owner' i"
    for owner' i owner changes expected s
    by (induction owner changes expected s rule: apply_batch.induct)
       (auto simp: read_put_row read_drop_row split: option.splits)
  then show "(owner' = owner \<longrightarrow> i \<notin> fst ` set expected) \<Longrightarrow> rec_read (apply_batch owner changes expected s) owner' i = rec_read s owner' i" .
  show "(i, before) \<in> set expected \<Longrightarrow>
      map_option fst (rec_read (apply_batch owner changes expected s) owner i) = batch_row changes i before
      \<and> (\<forall>row e. rec_read (apply_batch owner changes expected s) owner i = Some (row, e) \<longrightarrow> pst_sequence s < e)"
    using assms
  proof (induction owner changes expected s rule: apply_batch.induct)
    case (2 owner changes ident b rest s)
    let ?s = "case batch_row changes ident b of None \<Rightarrow> drop_row owner ident s | Some row \<Rightarrow> put_row owner ident row s"
    have seq: "pst_sequence s \<le> pst_sequence ?s" by (auto simp: drop_row_def put_row_def split: option.splits)
    show ?case
    proof (cases "i = ident")
      case True
      with 2(2,3) have "b = before" "ident \<notin> fst ` set rest" by force+
      with True same [of owner owner ident rest changes ?s] show ?thesis
        by (auto simp: read_put_row read_drop_row split: option.splits)
    next
      case False
      with 2(2,3) 2(1) seq show ?thesis by fastforce
    qed
  qed simp
qed

section \<open>Writing what was read\<close>

text \<open>
  The contract of a conditional store, and what a client has of it: when a batch is applied that expects
  what the client has read before, the records it expects are still the ones it read.
\<close>

locale conditional_store =
  fixes read_at :: "'s \<Rightarrow> string \<Rightarrow> string \<Rightarrow> ('row \<times> 'etag) option"
    and write_batch :: "'s \<Rightarrow> string \<Rightarrow> (string \<times> ('row \<times> 'etag) option) list \<Rightarrow> (string \<times> 'row option) list \<Rightarrow> 'e + bool \<times> 's"
    and sound :: "'s \<Rightarrow> bool"
    and later :: "'s \<Rightarrow> 's \<Rightarrow> bool"
  assumes lost: "write_batch s owner expected changes = Inr (False, s') \<Longrightarrow> s' = s"
    and matched: "write_batch s owner expected changes = Inr (True, s') \<Longrightarrow> (i, before) \<in> set expected
      \<Longrightarrow> map_option snd (read_at s owner i) = map_option snd before"
    and same_etag: "later s0 s \<Longrightarrow> sound s0 \<Longrightarrow> read_at s0 owner i = Some (row, e) \<Longrightarrow> read_at s owner i = Some (row', e) \<Longrightarrow> row' = row"
    and sound_write: "sound s \<Longrightarrow> write_batch s owner expected changes = Inr (ok, s') \<Longrightarrow> sound s'"
begin

lemma unchanged_since_read:
  assumes "sound s0" "later s0 s" "write_batch s owner expected changes = Inr (True, s')" "(i, read_at s0 owner i) \<in> set expected"
  shows "read_at s owner i = read_at s0 owner i"
proof (cases "read_at s0 owner i")
  case None
  with matched [OF assms(3,4)] show ?thesis by simp
next
  case (Some r)
  obtain row e where r: "r = (row, e)" by fastforce
  with matched [OF assms(3,4)] Some obtain row' where "read_at s owner i = Some (row', e)"
    by (cases "read_at s owner i") auto
  with same_etag [OF assms(2,1)] Some r show ?thesis by simp
qed

end

interpretation cs: conditional_store rec_read rec_atomic wf_records later_records
proof
  show "later_records s0 s \<Longrightarrow> wf_records s0 \<Longrightarrow> rec_read s0 owner i = Some (row, e) \<Longrightarrow> rec_read s owner i = Some (row', e) \<Longrightarrow> row' = row"
    for s0 s owner i row e row' by (rule later_records_snapshot)
qed (auto simp: rec_atomic_def list_all_iff intro: wf_apply_batch split: if_splits)

section \<open>The rows without their etags\<close>

type_synonym view = "string \<times> string \<Rightarrow> pub_row option"

definition row_view :: "pub_records \<Rightarrow> view" where
  "row_view s = (\<lambda>(owner, i). map_option fst (rec_read s owner i))"

definition batch_view :: "string \<Rightarrow> (string, pub_row option) dict \<Rightarrow> view \<Rightarrow> view" where
  "batch_view owner changes V = (\<lambda>(o', i). if o' = owner then (case map_of changes i of Some r \<Rightarrow> r | None \<Rightarrow> V (o', i)) else V (o', i))"

lemma row_view_Some: "row_view s (owner, i) = Some row \<longleftrightarrow> (\<exists>e. rec_read s owner i = Some (row, e))"
  by (auto simp: row_view_def)

lemma atomic_effect:
  assumes "rec_atomic s owner expected changes = Inr (True, s')" "distinct (map fst expected)" "wf_records s"
    and "\<And>i before. (i, before) \<in> set expected \<Longrightarrow> rec_read s owner i = before"
    and "\<And>i row. row_view s (owner, i) = Some row \<Longrightarrow> permanent row \<Longrightarrow> map_of changes i \<in> {None, Some (Some row)}"
  shows "wf_records s'" "later_records s s'" "row_view s' = batch_view owner changes (row_view s)"
    and "map_of changes i = Some (Some row) \<Longrightarrow> row_id row = i \<and> row_owner row = owner"
proof -
  from assms(1) have s': "s' = apply_batch owner changes expected s" and v: "validate_batch owner expected changes"
    by (auto simp: rec_atomic_def split: if_splits)
  show wf: "wf_records s'" using assms(3) by (simp add: s' wf_apply_batch)
  have key: "rec_read s' o' i = rec_read s o' i \<or> o' = owner \<and> (\<exists>before. (i, before) \<in> set expected)" for o' i
    using read_apply_batch(1) [OF assms(2), of o' owner i changes s] by (force simp: s')
  have expected: "map_option fst (rec_read s' owner i) = (case map_of changes i of Some r \<Rightarrow> r | None \<Rightarrow> map_option fst (rec_read s owner i))
      \<and> (\<forall>row e. rec_read s' owner i = Some (row, e) \<longrightarrow> pst_sequence s < e)" if "(i, before) \<in> set expected" for i before
    using read_apply_batch(2) [OF assms(2) that, of owner changes s] assms(4) [OF that]
    by (simp add: s' batch_row_def cong: option.case_cong)
  show view: "row_view s' = batch_view owner changes (row_view s)"
  proof (rule ext, clarify)
    fix o' i
    have "map_of changes i = None" if "\<nexists>before. (i, before) \<in> set expected"
      using v that by (force simp: validate_batch_def map_of_eq_None_iff)
    with key [of o' i] expected [of i] show "row_view s' (o', i) = batch_view owner changes (row_view s) (o', i)"
      by (cases "\<exists>before. (i, before) \<in> set expected") (auto simp: row_view_def batch_view_def)
  qed
  show "later_records s s'"
    unfolding later_records_def
  proof (intro conjI allI impI)
    show "pst_sequence s \<le> pst_sequence s'" by (simp add: s' sequence_apply_batch)
  next
    fix k row e assume k: "map_of (pst_items s') k = Some (row, e) \<and> e \<le> pst_sequence s"
    obtain o' i where "k = (o', i)" by fastforce
    with k key [of o' i] expected show "map_of (pst_items s) k = Some (row, e)"
      by (fastforce simp: rec_read_def)
  next
    fix k row e assume k: "map_of (pst_items s) k = Some (row, e) \<and> permanent row"
    obtain o' i where [simp]: "k = (o', i)" by fastforce
    from k have "row_view s (o', i) = Some row" by (auto simp: row_view_def rec_read_def)
    with assms(5) k have "batch_view owner changes (row_view s) (o', i) = Some row"
      by (fastforce simp: batch_view_def)
    then have "row_view s' (o', i) = Some row" by (simp add: view)
    then show "\<exists>e'. map_of (pst_items s') k = Some (row, e')" by (auto simp: row_view_Some rec_read_def)
  qed
  show "map_of changes i = Some (Some row) \<Longrightarrow> row_id row = i \<and> row_owner row = owner"
  proof -
    assume c: "map_of changes i = Some (Some row)"
    then have "i \<in> fst ` set changes" by (force dest: map_of_SomeD)
    with v obtain before where "(i, before) \<in> set expected" by (force simp: validate_batch_def)
    with v c show ?thesis by (fastforce simp: validate_batch_def list_all_iff)
  qed
qed

end
