(* ===== verification/Publish_Service.thy ===== *)
theory Publish_Service
  imports Publish_Store
begin

text \<open>
  \<open>publishing/service.py\<close> and the parts of \<open>compiler.py\<close> that bind models and dependencies. A call of
  the service is a task: it sees the world as it is at each of its moments, in order (\<open>pub_world\<close>: the
  policy host, the two stores, the curated agents), and answers a result and the number of moments it
  has gone through. A read sees the store of its moment; a batch is applied to the store of its moment,
  and the answer of a write carries the store it leaves. The tool profile of a mode, which discovers
  the schemas of remote servers, is the parameter \<open>pmt_profile\<close>, the digest of the environment
  \<open>pmt_environment\<close>, and the documents a session selects \<open>pmt_document_scope\<close>.
\<close>

section \<open>Tasks\<close>

record pub_moment =
  pmt_host :: policy_host
  pmt_agents :: pub_records
  pmt_workflows :: pub_records
  pmt_curated :: agent_catalog
  pmt_fresh :: string
  pmt_now :: string
  pmt_environment :: string
  pmt_document_scope :: "string \<Rightarrow> string \<Rightarrow> string list option pub"
  pmt_profile :: "effective_policy \<Rightarrow> pub_source \<Rightarrow> execution_mode \<Rightarrow> string \<Rightarrow> agent_spec list \<Rightarrow> skill_mode \<Rightarrow> tool_bundle pub"

type_synonym pub_world = "nat \<Rightarrow> pub_moment"

type_synonym 'a task = "pub_world \<Rightarrow> nat \<Rightarrow> 'a pub \<times> nat"

definition done_with :: "'a pub \<Rightarrow> 'a task" where
  "done_with r = (\<lambda>w n. (r, n))"

text \<open>What the code does between two awaits, and what it awaits.\<close>

definition at_once :: "(pub_moment \<Rightarrow> 'a pub) \<Rightarrow> 'a task" where
  "at_once f = (\<lambda>w n. (f (w n), n))"

definition await_one :: "(pub_moment \<Rightarrow> 'a pub) \<Rightarrow> 'a task" where
  "await_one f = (\<lambda>w n. (f (w n), n + 1))"

definition bindT :: "'a task \<Rightarrow> ('a \<Rightarrow> 'b task) \<Rightarrow> 'b task" where
  "bindT t f = (\<lambda>w n. case t w n of (Inl e, k) \<Rightarrow> (Inl e, k) | (Inr x, k) \<Rightarrow> f x w k)"

definition guardT :: "bool \<Rightarrow> pub_exn \<Rightarrow> unit task" where
  "guardT ok e = done_with (ensure ok e)"

fun for_each :: "('a \<Rightarrow> 'b task) \<Rightarrow> 'a list \<Rightarrow> 'b list task" where
  "for_each f [] = done_with (Inr [])"
| "for_each f (x # xs) = bindT (f x) (\<lambda>y. bindT (for_each f xs) (\<lambda>ys. done_with (Inr (y # ys))))"

definition records_of :: "asset_kind \<Rightarrow> pub_moment \<Rightarrow> pub_records" where
  "records_of kind m = (case kind of AgentAsset \<Rightarrow> pmt_agents m | WorkflowAsset \<Rightarrow> pmt_workflows m)"

definition read_row :: "asset_kind \<Rightarrow> string \<Rightarrow> string \<Rightarrow> row_snapshot option task" where
  "read_row kind owner name = await_one (\<lambda>m. Inr (rec_read (records_of kind m) owner name))"

text \<open>The end of every write: the batch is applied, or the call refuses.\<close>

definition commit ::
  "asset_kind \<Rightarrow> string \<Rightarrow> (string, row_snapshot option) dict \<Rightarrow> (string, pub_row option) dict \<Rightarrow> string \<Rightarrow> publication_head
    \<Rightarrow> (publication_head \<times> pub_records) task" where
  "commit kind owner expected changes reason head = await_one (\<lambda>m.
     bindE (rec_atomic (records_of kind m) owner expected changes) (\<lambda>(ok, s').
       if ok then Inr (head, s') else Inl (conflict reason)))"

definition policy_raises :: "'a policy_result \<Rightarrow> 'a pub" where
  "policy_raises r = (case r of Inl d \<Rightarrow> Inl (PolicyRaised d) | Inr x \<Rightarrow> Inr x)"

section \<open>The actor\<close>

definition publishing_enabled :: "pub_moment \<Rightarrow> bool" where
  "publishing_enabled m \<longleftrightarrow> ps_asset_publishing_enabled (ph_settings (pmt_host m)) \<and> policy_enabled (pmt_host m)"

datatype pub_operation = OpSubmit | OpReview | OpConsume

definition pub_request :: "pub_operation \<Rightarrow> policy_request" where
  "pub_request op = \<lparr>pq_operation = (case op of OpSubmit \<Rightarrow> ''publication.submit'' | OpReview \<Rightarrow> ''publication.review''
     | OpConsume \<Rightarrow> ''publication.consume''), pq_model_id = None, pq_deployment = None, pq_tool_name = None, pq_legacy_admin = False\<rparr>"

text \<open>The policy's own tasks: \<open>resolve\<close> takes two of its moments, \<open>authorize\<close> and \<open>require\<close> three; the last is not over.\<close>

definition policy_resolve :: "authenticated_user \<Rightarrow> string \<Rightarrow> effective_policy task" where
  "policy_resolve u owner = (\<lambda>w n. (policy_raises (resolve_user (pmt_host (w n)) (pmt_host (w (n + 1))) u (Some owner)), n + 1))"

definition policy_authorize :: "effective_policy \<Rightarrow> policy_request \<Rightarrow> policy_decision task" where
  "policy_authorize p rq = (\<lambda>w n. (policy_raises (authorize_policy (\<lambda>i. pmt_host (w (n + i))) p rq), n + 2))"

definition policy_require :: "effective_policy \<Rightarrow> policy_request \<Rightarrow> unit task" where
  "policy_require p rq = (\<lambda>w n. (policy_raises (require (\<lambda>i. pmt_host (w (n + i))) p rq), n + 2))"

definition reauthentication :: pub_exn where
  "reauthentication = PolicyRaised (decision_of PolicyUnavailable ReauthenticationRequired)"

definition pub_actor :: "effective_policy \<Rightarrow> pub_operation option \<Rightarrow> effective_policy task" where
  "pub_actor actor operation =
     bindT (at_once (\<lambda>m. ensure (publishing_enabled m) (PublicationError ''publication_disabled'' 404))) (\<lambda>_.
       case ep_user actor of
         None \<Rightarrow> done_with (Inl reauthentication)
       | Some u \<Rightarrow>
           if au_provider u \<noteq> ''entra'' then done_with (Inl reauthentication)
           else bindT (policy_resolve u (ep_owner_id actor)) (\<lambda>fresh.
             bindT (at_once (\<lambda>m. case identity_decision (pmt_host m) fresh of None \<Rightarrow> Inr () | Some d \<Rightarrow> Inl (PolicyRaised d))) (\<lambda>_.
             bindT (case operation of None \<Rightarrow> done_with (Inr ()) | Some op \<Rightarrow> policy_require fresh (pub_request op)) (\<lambda>_.
               done_with (Inr fresh)))))"

definition tenant_of :: "effective_policy \<Rightarrow> string pub" where
  "tenant_of actor = (case ep_user actor of
     None \<Rightarrow> Inl reauthentication
   | Some u \<Rightarrow> (case au_tenant_id u of None \<Rightarrow> Inl reauthentication | Some t \<Rightarrow> if t = [] then Inl reauthentication else Inr t))"

definition groups_of :: "effective_policy \<Rightarrow> string list" where
  "groups_of actor = (case ep_user actor of
     None \<Rightarrow> []
   | Some u \<Rightarrow> (case au_policy_claims u of None \<Rightarrow> [] | Some e \<Rightarrow> if pc_groups_complete e then pc_groups e else []))"

definition email_of :: "effective_policy \<Rightarrow> string option" where
  "email_of actor = (case ep_user actor of None \<Rightarrow> None | Some u \<Rightarrow> au_email u)"

section \<open>Reading\<close>

definition get_definition :: "string \<Rightarrow> asset_kind \<Rightarrow> string \<Rightarrow> (row_snapshot \<times> pub_source) task" where
  "get_definition owner kind name =
     (if \<not> name_ok name then done_with (Inl not_found)
      else bindT (read_row kind owner name) (\<lambda>row_snapshot. done_with (case row_snapshot of
             Some (DefinitionRow d, e) \<Rightarrow> if is_definition d owner kind name then Inr ((DefinitionRow d, e), d) else Inl not_found
           | _ \<Rightarrow> Inl not_found)))"

definition load_head :: "row_snapshot option \<Rightarrow> publication_head pub" where
  "load_head row_snapshot = (case row_snapshot of
     None \<Rightarrow> Inl not_found
   | Some (HeadRow h, _) \<Rightarrow> if head_ok h then Inr h else Inl unavailable
   | Some _ \<Rightarrow> Inl unavailable)"

definition check_version :: "(string \<Rightarrow> string) \<Rightarrow> asset_ref \<Rightarrow> publication_version \<Rightarrow> unit pub" where
  "check_version sha ref v =
     (if version_reference v \<noteq> ref then Inl (conflict ''publication_version_changed'')
      else bindE (version_digest sha v) (\<lambda>d.
        if d \<noteq> ref_digest ref \<or> src_user (ver_source v) \<noteq> ref_ownerId ref then Inl (conflict ''publication_version_changed'')
        else bindE (exact_digest sha (src_json (ver_source v))) (\<lambda>s.
          if ver_sourceDigest v \<noteq> s \<or> src_kind (ver_source v) \<noteq> ref_kind ref then Inl (conflict ''publication_version_changed'')
          else Inr ())))"

definition get_version :: "(string \<Rightarrow> string) \<Rightarrow> asset_ref \<Rightarrow> publication_version task" where
  "get_version sha ref =
     bindT (read_row (ref_kind ref) (ref_ownerId ref) (version_id (ref_assetId ref) (ref_version ref))) (\<lambda>row_snapshot.
       done_with (case row_snapshot of
         None \<Rightarrow> Inl not_found
       | Some (VersionRow v, _) \<Rightarrow> if version_ok v then bindE (check_version sha ref v) (\<lambda>_. Inr v) else Inl unavailable
       | Some _ \<Rightarrow> Inl unavailable))"

definition check_review :: "(string \<Rightarrow> string) \<Rightarrow> asset_ref \<Rightarrow> review_decision \<Rightarrow> unit pub" where
  "check_review sha ref r =
     (if rvw_source r \<noteq> ref \<or> rvw_userId r \<noteq> ref_ownerId ref \<or> rvw_reviewerId r = ref_ownerId ref then Inl unavailable
      else bindE (review_digest sha r) (\<lambda>d. ensure (rvw_digest r = d) unavailable))"

definition get_review :: "(string \<Rightarrow> string) \<Rightarrow> asset_ref \<Rightarrow> review_decision task" where
  "get_review sha ref =
     bindT (read_row (ref_kind ref) (ref_ownerId ref) (review_id (ref_assetId ref) (ref_version ref))) (\<lambda>row_snapshot.
       done_with (case row_snapshot of
         None \<Rightarrow> Inl (conflict ''publication_not_reviewed'')
       | Some (ReviewRow r, _) \<Rightarrow> bindE (check_review sha ref r) (\<lambda>_. Inr r)
       | Some _ \<Rightarrow> Inl InvalidRecord))"

section \<open>Catalogs\<close>

definition run_query :: "asset_kind \<Rightarrow> head_query \<Rightarrow> publication_head list task" where
  "run_query kind q = bindT (await_one (\<lambda>m. rec_query (records_of kind m) q)) (\<lambda>heads.
     done_with (if list_all head_ok heads then Inr heads else Inl unavailable))"

definition owner_heads :: "effective_policy \<Rightarrow> asset_kind \<Rightarrow> publication_head list task" where
  "owner_heads actor0 kind = bindT (pub_actor actor0 None) (\<lambda>actor.
     run_query kind (plain_query\<lparr>hqy_owner_id := Some (ep_owner_id actor)\<rparr>))"

definition owner_head :: "effective_policy \<Rightarrow> asset_kind \<Rightarrow> string \<Rightarrow> publication_head option task" where
  "owner_head actor0 kind name = bindT (pub_actor actor0 None) (\<lambda>actor.
     bindT (read_row kind (ep_owner_id actor) (publication_head_id name)) (\<lambda>row.
       case row of
         None \<Rightarrow> done_with (Inr None)
       | Some _ \<Rightarrow> bindT (done_with (load_head row)) (\<lambda>head. bindT (done_with (tenant_of actor)) (\<lambda>tenant.
           done_with (if hed_tenantId head \<noteq> tenant then Inl not_found else Inr (Some head))))))"

definition head_visible :: "effective_policy \<Rightarrow> string option \<Rightarrow> string \<Rightarrow> publication_head \<Rightarrow> bool" where
  "head_visible actor email tenant h \<longleftrightarrow> can_access (ep_owner_id actor) (hed_userId h) (hed_tenantId h) h
     email (Some tenant) (groups_of actor)"

definition published_catalog :: "effective_policy \<Rightarrow> asset_kind \<Rightarrow> string option \<Rightarrow> publication_head list task" where
  "published_catalog actor0 kind handle = bindT (pub_actor actor0 (Some OpConsume)) (\<lambda>actor.
     bindT (done_with (tenant_of actor)) (\<lambda>tenant.
     bindT (run_query kind (plain_query\<lparr>hqy_tenant_id := Some tenant, hqy_handle := handle,
         hqy_viewer_id := Some (ep_owner_id actor), hqy_email := Some (normalize_principal (email_of actor)),
         hqy_groups := groups_of actor, hqy_active_only := True\<rparr>)) (\<lambda>heads.
       done_with (Inr (filter (\<lambda>h. \<not> hed_deleted h \<and> hed_activeVersion h \<noteq> None \<and> head_visible actor (Some (normalize_principal (email_of actor))) tenant h) heads)))))"

definition head_reference :: "(string \<Rightarrow> string) \<Rightarrow> publication_head \<Rightarrow> bool \<Rightarrow> asset_ref task" where
  "head_reference sha head pending = (case (if pending then hed_pendingVersion head else hed_activeVersion head) of
     None \<Rightarrow> done_with (Inl not_found)
   | Some number \<Rightarrow> bindT (read_row (hed_kind head) (hed_userId head) (version_id (hed_assetId head) number)) (\<lambda>row.
       case row of
         None \<Rightarrow> done_with (Inl unavailable)
       | Some (VersionRow v, _) \<Rightarrow> if \<not> version_ok v then done_with (Inl InvalidRecord)
           else bindT (get_version sha (version_reference v)) (\<lambda>_. done_with (Inr (version_reference v)))
       | Some _ \<Rightarrow> done_with (Inl InvalidRecord)))"

definition review_inbox :: "effective_policy \<Rightarrow> asset_kind \<Rightarrow> bool \<Rightarrow> publication_head list task" where
  "review_inbox actor0 kind operator_authorized = bindT (pub_actor actor0 None) (\<lambda>actor.
     bindT (policy_authorize actor (pub_request OpReview)) (\<lambda>role.
       if \<not> pd_allowed role \<and> \<not> operator_authorized
       then done_with (Inl (PublicationError ''publication_review_not_authorized'' 403))
       else bindT (done_with (tenant_of actor)) (\<lambda>tenant.
         run_query kind (plain_query\<lparr>hqy_tenant_id := Some tenant, hqy_review_for := Some (ep_owner_id actor),
           hqy_operator_only := \<not> pd_allowed role\<rparr>))))"

section \<open>Resolution\<close>

definition resolve_marker :: "asset_ref \<Rightarrow> string" where
  "resolve_marker ref = kind_name (ref_kind ref) @ '':'' @ ref_ownerId ref @ '':'' @ ref_assetId ref @ '':'' @ show_int (ref_version ref)"

definition cycle_found :: pub_exn where "cycle_found = conflict ''publication_dependency_cycle''"

definition child_mode :: "asset_kind \<Rightarrow> execution_mode" where
  "child_mode kind = (case kind of AgentAsset \<Rightarrow> ModeDelegation | WorkflowAsset \<Rightarrow> ModeWorkflow)"

definition curated_unchanged :: "(string \<Rightarrow> string) \<Rightarrow> agent_catalog \<Rightarrow> string \<Rightarrow> string \<Rightarrow> bool \<Rightarrow> agent_spec pub" where
  "curated_unchanged sha agents name digest must_be_enabled = (case agents_get agents name of
     None \<Rightarrow> Inl (conflict ''publication_dependency_changed'')
   | Some a \<Rightarrow> if must_be_enabled \<and> \<not> agt_enabled a then Inl (conflict ''publication_dependency_changed'')
       else bindE (exact_digest sha (curated_json a)) (\<lambda>d.
         if d \<noteq> digest then Inl (conflict ''publication_dependency_changed'') else Inr a))"

text \<open>The body of \<open>resolve_for_execution\<close> after the cycle check; \<open>again\<close> resolves a dependency.\<close>

definition resolve_body ::
  "(string \<Rightarrow> string) \<Rightarrow> (asset_ref \<Rightarrow> execution_mode \<Rightarrow> resolved_publication task) \<Rightarrow> effective_policy \<Rightarrow> asset_ref
    \<Rightarrow> execution_mode \<Rightarrow> resolved_publication task" where
  "resolve_body sha again actor ref mode =
     bindT (get_version sha ref) (\<lambda>version.
     bindT (read_row (ref_kind ref) (ref_ownerId ref) (publication_head_id (src_name (ver_source version)))) (\<lambda>row.
     bindT (done_with (load_head row)) (\<lambda>head.
     bindT (if hed_deleted head \<or> hed_assetId head \<noteq> ref_assetId ref \<or> hed_activeVersion head \<noteq> Some (ref_version ref)
              \<or> ver_tenantId version \<noteq> hed_tenantId head
            then done_with (Inl not_found)
            else bindT (done_with (tenant_of actor)) (\<lambda>tenant.
              done_with (ensure (head_visible actor (email_of actor) tenant head) not_found))) (\<lambda>_.
     bindT (get_definition (ref_ownerId ref) (ref_kind ref) (src_name (ver_source version))) (\<lambda>(_, current).
     bindT (guardT (src_enabled current \<and> src_incarnation current = hed_sourceIncarnation head)
              (conflict ''publication_version_changed'')) (\<lambda>_.
     bindT (guardT (mode \<in> fst ` set (ver_profiles version)) (conflict ''publication_mode_not_reviewed'')) (\<lambda>_.
     bindT (get_review sha ref) (\<lambda>review.
     bindT (guardT (rvw_decision review = ReviewApproved \<and> rvw_tenantId review = ver_tenantId version)
              (conflict ''publication_not_approved'')) (\<lambda>_.
     bindT (for_each (\<lambda>d. case dpd_source d of
              PublishedDependency child \<Rightarrow> bindT (again child (child_mode (ref_kind ref))) (\<lambda>_. done_with (Inr ()))
            | CuratedDependency digest \<Rightarrow> at_once (\<lambda>m. bindE (curated_unchanged sha (pmt_curated m) (dpd_name d) digest True)
                (\<lambda>_. Inr ()))) (ver_dependencies version)) (\<lambda>_.
       done_with (Inr \<lparr>rsp_version = version, rsp_approval = review, rsp_headRevision = hed_revision head\<rparr>)))))))))))"

text \<open>\<open>resolve_level d seen\<close> resolves with \<open>seen\<close> in progress, of which sixteen are too many: \<open>d\<close> are left.\<close>

primrec resolve_level ::
  "nat \<Rightarrow> (string \<Rightarrow> string) \<Rightarrow> string list \<Rightarrow> effective_policy \<Rightarrow> asset_ref \<Rightarrow> execution_mode \<Rightarrow> resolved_publication task" where
  "resolve_level 0 sha seen actor0 ref mode = bindT (pub_actor actor0 (Some OpConsume)) (\<lambda>actor. done_with (Inl cycle_found))"
| "resolve_level (Suc d) sha seen actor0 ref mode = bindT (pub_actor actor0 (Some OpConsume)) (\<lambda>actor.
     if resolve_marker ref \<in> set seen then done_with (Inl cycle_found)
     else resolve_body sha (\<lambda>child m. resolve_level d sha (resolve_marker ref # seen) actor child m) actor ref mode)"

definition MAX_RESOLVING :: nat where "MAX_RESOLVING = 16"

definition resolve_for_execution ::
  "(string \<Rightarrow> string) \<Rightarrow> effective_policy \<Rightarrow> asset_ref \<Rightarrow> execution_mode \<Rightarrow> resolved_publication task" where
  "resolve_for_execution sha actor ref mode = resolve_level MAX_RESOLVING sha [] actor ref mode"

definition resolve_handle ::
  "(string \<Rightarrow> string) \<Rightarrow> effective_policy \<Rightarrow> asset_kind \<Rightarrow> string \<Rightarrow> execution_mode option \<Rightarrow> resolved_publication option task" where
  "resolve_handle sha actor kind handle mode = bindT (published_catalog actor kind (Some handle)) (\<lambda>heads.
     case heads of
       [] \<Rightarrow> done_with (Inr None)
     | [head] \<Rightarrow> bindT (read_row kind (hed_userId head) (version_id (hed_assetId head)
           (case hed_activeVersion head of None \<Rightarrow> 0 | Some n \<Rightarrow> n))) (\<lambda>row.
         case row of
           None \<Rightarrow> done_with (Inl unavailable)
         | Some (VersionRow v, _) \<Rightarrow> if \<not> version_ok v then done_with (Inl InvalidRecord)
             else bindT (resolve_for_execution sha actor (version_reference v)
                 (case mode of Some m \<Rightarrow> m | None \<Rightarrow> fst (hd (ver_profiles v)))) (\<lambda>r. done_with (Inr (Some r)))
         | Some _ \<Rightarrow> done_with (Inl InvalidRecord))
     | _ \<Rightarrow> done_with (Inl (conflict ''publication_handle_conflict'')))"

section \<open>Compilation\<close>

definition unsupported :: "string \<Rightarrow> pub_exn" where "unsupported reason = PublicationError reason 422"

definition source_agents :: "pub_source \<Rightarrow> string list" where
  "source_agents d = (case d of AgentSource a \<Rightarrow> uag_links a | WorkflowSource w \<Rightarrow> map stp_agent (wfd_steps w))"

definition published_dependency ::
  "(string \<Rightarrow> string) \<Rightarrow> effective_policy \<Rightarrow> pub_source \<Rightarrow> string \<Rightarrow> (dependency_binding \<times> agent_spec) task" where
  "published_dependency sha actor source name =
     bindT (resolve_handle sha actor AgentAsset name (Some (child_mode (src_kind source)))) (\<lambda>resolved.
       done_with (case resolved of
         None \<Rightarrow> Inl (unsupported ''publication_private_reference_unsupported'')
       | Some r \<Rightarrow> (case ver_source (rsp_version r) of
             AgentSource a \<Rightarrow> (let ref = version_reference (rsp_version r) in
               Inr (\<lparr>dpd_name = name, dpd_source = PublishedDependency ref\<rparr>,
                 (to_spec a)\<lparr>agt_name := name, agt_sourceVersion := Some ref\<rparr>))
           | WorkflowSource _ \<Rightarrow> Inl (unsupported ''publication_private_reference_unsupported''))))"

definition bind_dependency ::
  "(string \<Rightarrow> string) \<Rightarrow> effective_policy \<Rightarrow> pub_source \<Rightarrow> string \<Rightarrow> (dependency_binding \<times> agent_spec) task" where
  "bind_dependency sha actor source name =
     bindT (at_once (\<lambda>m. Inr (agents_get (pmt_curated m) name))) (\<lambda>curated.
       case curated of
         None \<Rightarrow> published_dependency sha actor source name
       | Some a \<Rightarrow> if agt_enabled a
           then done_with (bindE (exact_digest sha (curated_json a)) (\<lambda>d. Inr (\<lparr>dpd_name = name, dpd_source = CuratedDependency d\<rparr>, a)))
           else published_dependency sha actor source name)"

text \<open>The models of a version: the deployments each model may be served by.\<close>

definition model_binding :: "string \<Rightarrow> model_entry \<Rightarrow> deployment_option \<Rightarrow> published_model" where
  "model_binding identifier entry option = \<lparr>pml_modelId = identifier, pml_api = me_api entry, pml_category = me_category entry,
     pml_option = option, pml_requiredRealtimeProtocol = me_requiredRealtimeProtocol entry, pml_runtimeEnabled = me_runtimeEnabled entry\<rparr>"

fun bind_options ::
  "policy_host \<Rightarrow> effective_policy \<Rightarrow> string \<Rightarrow> model_entry \<Rightarrow> bool \<Rightarrow> deployment_option list \<Rightarrow> published_model list pub" where
  "bind_options h actor identifier entry check_policy [] = Inr []"
| "bind_options h actor identifier entry check_policy (option # options) =
     bindE (if check_policy then policy_raises (decide h actor \<lparr>pq_operation = ''model.invoke'', pq_model_id = Some identifier,
              pq_deployment = Some option, pq_tool_name = None, pq_legacy_admin = False\<rparr>)
            else Inr (decision_of PolicyAllow Allowed)) (\<lambda>d.
       if \<not> pd_allowed d then bind_options h actor identifier entry check_policy options
       else if dp_modelVersion option = None \<or> dp_modelVersion option = Some []
       then Inl (unsupported ''publication_model_version_unknown'')
       else bindE (bind_options h actor identifier entry check_policy options) (\<lambda>bs. Inr (model_binding identifier entry option # bs)))"

fun bind_models :: "policy_host \<Rightarrow> effective_policy \<Rightarrow> bool \<Rightarrow> string list \<Rightarrow> published_model list pub" where
  "bind_models h actor check_policy [] = Inr []"
| "bind_models h actor check_policy (identifier # ids) = (case cat_get (ph_catalog h) identifier of
     None \<Rightarrow> Inl (unsupported ''publication_model_unavailable'')
   | Some entry \<Rightarrow> bindE (bind_options h actor identifier entry check_policy
         (eligible_options (ph_model_allowed h) (ph_catalog h) check_policy entry)) (\<lambda>bs.
       if bs = [] then Inl (unsupported ''publication_model_unavailable'')
       else bindE (bind_models h actor check_policy ids) (\<lambda>rest. Inr (bs @ rest))))"

definition default_model :: "pub_source \<Rightarrow> string option" where
  "default_model d = (case d of AgentSource a \<Rightarrow> uag_defaultModel a | WorkflowSource _ \<Rightarrow> None)"

definition compile_mode ::
  "effective_policy \<Rightarrow> pub_source \<Rightarrow> agent_spec list \<Rightarrow> skill_mode \<Rightarrow> string list \<Rightarrow> execution_mode \<Rightarrow> (execution_mode \<times> tool_bundle) task" where
  "compile_mode actor source composed skills model_ids mode =
     bindT (await_one (\<lambda>m. pmt_profile m actor source mode (hd model_ids) composed skills)) (\<lambda>profile.
     bindT (for_each (\<lambda>identifier. bindT (await_one (\<lambda>m. pmt_profile m actor source mode identifier composed skills)) (\<lambda>other.
         guardT (bdl_digest other = bdl_digest profile) (unsupported ''publication_model_specific_tool_contract''))) (tl model_ids)) (\<lambda>_.
       done_with (Inr (mode, profile))))"

record compilation =
  cmp_models :: "published_model list"
  cmp_profiles :: "(execution_mode, tool_bundle) dict"
  cmp_dependencies :: "dependency_binding list"

definition compile_source ::
  "(string \<Rightarrow> string) \<Rightarrow> effective_policy \<Rightarrow> pub_source \<Rightarrow> string list \<Rightarrow> execution_mode list \<Rightarrow> bool \<Rightarrow> skill_mode \<Rightarrow> compilation task" where
  "compile_source sha actor source model_ids modes check_policy skills =
     bindT (for_each (bind_dependency sha actor source) (first_uses (source_agents source))) (\<lambda>deps.
     bindT (at_once (\<lambda>m. bind_models (pmt_host m) actor check_policy model_ids)) (\<lambda>models.
     bindT (guardT (case default_model source of None \<Rightarrow> True | Some m \<Rightarrow> m \<in> set model_ids)
              (unsupported ''publication_default_model_not_reviewed'')) (\<lambda>_.
     bindT (for_each (compile_mode actor source (map snd deps) skills model_ids) modes) (\<lambda>profiles.
       done_with (Inr \<lparr>cmp_models = models, cmp_profiles = fold (\<lambda>(m, b). AList.update m b) profiles [],
                       cmp_dependencies = map fst deps\<rparr>)))))"

text \<open>Two sets of profiles are equal when their dumps are, up to the order of keys.\<close>

definition same_profiles :: "(execution_mode, tool_bundle) dict \<Rightarrow> (execution_mode, tool_bundle) dict \<Rightarrow> bool" where
  "same_profiles ps qs \<longleftrightarrow> sort_keys (JObj (map (\<lambda>(m, b). (mode_name m, bundle_json b)) ps))
     = sort_keys (JObj (map (\<lambda>(m, b). (mode_name m, bundle_json b)) qs))"

definition check_compilation :: "(string \<Rightarrow> string) \<Rightarrow> effective_policy \<Rightarrow> publication_version \<Rightarrow> bool \<Rightarrow> unit task" where
  "check_compilation sha actor v check_policy =
     bindT (compile_source sha actor (ver_source v) (first_uses (map pml_modelId (ver_modelBindings v))) (map fst (ver_profiles v))
         check_policy (ver_skillMode v)) (\<lambda>c.
       guardT (set (ver_modelBindings v) \<subseteq> set (cmp_models c) \<and> same_profiles (cmp_profiles c) (ver_profiles v)
         \<and> cmp_dependencies c = ver_dependencies v) (conflict ''publication_contract_changed''))"

section \<open>Submission\<close>

definition budget_count :: "row_snapshot option \<Rightarrow> json" where
  "budget_count row = (case row of None \<Rightarrow> JInt 0 | Some (BudgetRow _ count _, _) \<Rightarrow> count | Some _ \<Rightarrow> JNull)"

definition PUBLICATION_BUDGET_KIND :: string where "PUBLICATION_BUDGET_KIND = ''ai4ia.publication.budget.v1''"

text \<open>\<open>None\<close>: the budget is used up or not one.\<close>

definition budget_room :: "row_snapshot option \<Rightarrow> int option" where
  "budget_room row = (case budget_count row of
     JInt n \<Rightarrow> if 0 \<le> n \<and> n < MAX_VERSIONS_PER_OWNER
         \<and> (case row of Some (BudgetRow _ _ kind, _) \<Rightarrow> kind = PUBLICATION_BUDGET_KIND | _ \<Rightarrow> True)
       then Some n else None
   | _ \<Rightarrow> None)"

definition fresh_head :: "string \<Rightarrow> string \<Rightarrow> string \<Rightarrow> asset_kind \<Rightarrow> string \<Rightarrow> pub_source \<Rightarrow> publication_head option \<Rightarrow> publication_head" where
  "fresh_head owner tenant name kind asset source previous =
     \<lparr>aud_visibility = VisiblePrivate, aud_acl = [], aud_groupAcl = [], hed_id = publication_head_id name, hed_userId = owner,
      hed_tenantId = tenant, hed_kind = kind, hed_sourceName = name, hed_sourceIncarnation = src_incarnation source,
      hed_assetId = asset, hed_handle = ''pending'',
      hed_revision = (case previous of None \<Rightarrow> 1 | Some h \<Rightarrow> hed_revision h + 1),
      hed_versionCount = 0, hed_activeVersion = None, hed_pendingVersion = None, hed_deleted = False,
      hed_reviewConsent = False, hed_operatorReviewConsent = False, hed_reviewerUserId = None\<rparr>"

definition continues_head :: "pub_source \<Rightarrow> publication_head option \<Rightarrow> bool" where
  "continues_head source previous \<longleftrightarrow> (case previous of None \<Rightarrow> False
     | Some h \<Rightarrow> \<not> hed_deleted h \<and> hed_sourceIncarnation h = src_incarnation source)"

definition draft_version ::
  "string \<Rightarrow> string \<Rightarrow> asset_kind \<Rightarrow> string \<Rightarrow> int \<Rightarrow> pub_source \<Rightarrow> string \<Rightarrow> publication_submit \<Rightarrow> compilation \<Rightarrow> string \<Rightarrow> string
    \<Rightarrow> publication_version" where
  "draft_version owner tenant kind asset number source source_digest rq c submitted policy =
     \<lparr>ver_id = version_id asset number, ver_userId = owner, ver_tenantId = tenant, ver_kind = kind, ver_assetId = asset,
      ver_version = number, ver_digest = replicate 64 (CHR ''0''), ver_source = source, ver_sourceDigest = source_digest,
      ver_audience = sbm_audience rq, ver_modelBindings = cmp_models c, ver_profiles = cmp_profiles c,
      ver_dependencies = cmp_dependencies c, ver_reviewConsent = sbm_reviewConsent rq,
      ver_operatorReviewConsent = sbm_operatorReviewConsent rq, ver_reviewerUserId = sbm_reviewerUserId rq,
      ver_submittedAt = submitted, ver_policyDigest = policy, ver_skillMode = sbm_skillMode rq\<rparr>"

definition seal_version :: "(string \<Rightarrow> string) \<Rightarrow> publication_version \<Rightarrow> publication_version pub" where
  "seal_version sha v = (if \<not> version_ok v then Inl InvalidRecord
     else bindE (version_digest sha v) (\<lambda>d. let sealed = v\<lparr>ver_digest := d\<rparr> in
       if MAX_PUBLICATION_BYTES - 4096 < utf8_len (compact_text (JObj (version_fields sealed)))
       then Inl (PublicationError ''publication_too_large'' 422) else Inr sealed))"

definition pending_head :: "publication_head \<Rightarrow> bool \<Rightarrow> int \<Rightarrow> publication_submit \<Rightarrow> publication_head" where
  "pending_head head same number rq = head\<lparr>hed_handle := publication_handle (hed_assetId head), hed_versionCount := number,
     hed_pendingVersion := Some number, hed_reviewConsent := True, hed_operatorReviewConsent := sbm_operatorReviewConsent rq,
     hed_reviewerUserId := sbm_reviewerUserId rq, hed_revision := (if same then hed_revision head + 1 else hed_revision head)\<rparr>"

definition audience_authorized :: "effective_policy \<Rightarrow> publication_audience \<Rightarrow> bool" where
  "audience_authorized actor a \<longleftrightarrow> aud_groupAcl a = []
     \<or> (case ep_user actor of None \<Rightarrow> False | Some u \<Rightarrow> (case au_policy_claims u of None \<Rightarrow> False
          | Some e \<Rightarrow> pc_groups_complete e \<and> set (aud_groupAcl a) \<subseteq> set (pc_groups e)))"

definition submit_publication ::
  "(string \<Rightarrow> string) \<Rightarrow> effective_policy \<Rightarrow> asset_kind \<Rightarrow> string \<Rightarrow> publication_submit \<Rightarrow> (publication_head \<times> pub_records) task" where
  "submit_publication sha actor0 kind name rq =
     bindT (pub_actor actor0 (Some OpSubmit)) (\<lambda>actor.
     bindT (done_with (tenant_of actor)) (\<lambda>tenant. let owner = ep_owner_id actor; head_id = publication_head_id name in
     bindT (get_definition owner kind name) (\<lambda>(before, source).
     bindT (guardT (src_revision source = sbm_expectedRevision rq \<and> src_enabled source) (conflict ''publication_source_changed'')) (\<lambda>_.
     bindT (guardT (sbm_reviewerUserId rq \<noteq> Some owner) (unsupported ''publication_independent_reviewer_required'')) (\<lambda>_.
     bindT (guardT (audience_authorized actor (sbm_audience rq)) (PublicationError ''publication_audience_not_authorized'' 403)) (\<lambda>_.
     bindT (read_row kind owner head_id) (\<lambda>old_head.
     bindT (done_with (case old_head of None \<Rightarrow> Inr None | Some _ \<Rightarrow> bindE (load_head old_head) (\<lambda>h. Inr (Some h)))) (\<lambda>previous.
     bindT (at_once (\<lambda>m. Inr (if continues_head source previous then the previous
         else fresh_head owner tenant name kind (pmt_fresh m) source previous))) (\<lambda>head.
     bindT (guardT (hed_versionCount head < MAX_VERSIONS_PER_ASSET) (conflict ''publication_version_limit'')) (\<lambda>_.
     bindT (read_row kind owner BUDGET_ID) (\<lambda>budget.
     case budget_room budget of
       None \<Rightarrow> done_with (Inl (conflict ''publication_owner_version_limit''))
     | Some count \<Rightarrow>
         bindT (compile_source sha actor source (sbm_modelIds rq) (sbm_modes rq) True (sbm_skillMode rq)) (\<lambda>c.
         bindT (at_once (\<lambda>m. bindE (exact_digest sha (src_json source)) (\<lambda>source_digest.
             seal_version sha (draft_version owner tenant kind (hed_assetId head) (hed_versionCount head + 1) source source_digest
               rq c (pmt_now m) (ep_digest actor))))) (\<lambda>version.
         bindT (pub_actor actor (Some OpSubmit)) (\<lambda>_.
           let updated = pending_head head (continues_head source previous) (hed_versionCount head + 1) rq in
           commit kind owner [(name, Some before), (head_id, old_head), (ver_id version, None), (BUDGET_ID, budget)]
             [(head_id, Some (HeadRow updated)), (ver_id version, Some (VersionRow version)),
              (BUDGET_ID, Some (BudgetRow owner (JInt (count + 1)) PUBLICATION_BUDGET_KIND))]
             ''publication_source_changed'' updated))))))))))))))"

section \<open>Review\<close>

definition review_source ::
  "(string \<Rightarrow> string) \<Rightarrow> effective_policy \<Rightarrow> asset_ref \<Rightarrow> bool
    \<Rightarrow> (publication_head \<times> publication_version \<times> review_authority) task" where
  "review_source sha actor0 ref operator_authorized =
     bindT (pub_actor actor0 None) (\<lambda>actor.
     bindT (get_version sha ref) (\<lambda>version.
     bindT (read_row (ref_kind ref) (ref_ownerId ref) (publication_head_id (src_name (ver_source version)))) (\<lambda>row.
     bindT (done_with (load_head row)) (\<lambda>head.
     bindT (guardT (\<not> hed_deleted head \<and> hed_assetId head = ref_assetId ref \<and> hed_pendingVersion head = Some (ref_version ref)) not_found) (\<lambda>_.
     bindT (done_with (tenant_of actor)) (\<lambda>tenant.
     bindT (guardT (hed_tenantId head = tenant \<and> ver_tenantId version = hed_tenantId head \<and> ver_reviewConsent version
         \<and> ep_owner_id actor \<noteq> ref_ownerId ref
         \<and> (case ver_reviewerUserId version of None \<Rightarrow> True | Some r \<Rightarrow> r = ep_owner_id actor)) not_found) (\<lambda>_.
     bindT (policy_authorize actor (pub_request OpReview)) (\<lambda>role.
       if \<not> pd_allowed role \<and> \<not> (operator_authorized \<and> ver_operatorReviewConsent version) then done_with (Inl not_found)
       else done_with (Inr (head, version, if pd_allowed role then ByReviewer else ByOperator))))))))))"

definition draft_review ::
  "publication_head \<Rightarrow> int \<Rightarrow> review_request \<Rightarrow> string \<Rightarrow> review_authority \<Rightarrow> string \<Rightarrow> review_decision" where
  "draft_review head number rq reviewer authority reviewed = \<lparr>rvw_id = review_id (hed_assetId head) number, rvw_userId = hed_userId head,
     rvw_tenantId = hed_tenantId head, rvw_source = rvq_source rq, rvw_decision = rvq_decision rq, rvw_reviewerId = reviewer,
     rvw_authority = authority, rvw_reviewedAt = reviewed, rvw_note = rvq_note rq, rvw_digest = replicate 64 (CHR ''0'')\<rparr>"

definition decide_review ::
  "(string \<Rightarrow> string) \<Rightarrow> effective_policy \<Rightarrow> review_request \<Rightarrow> bool \<Rightarrow> (publication_head \<times> pub_records) task" where
  "decide_review sha actor rq operator_authorized =
     bindT (review_source sha actor (rvq_source rq) operator_authorized) (\<lambda>(head, version, authority).
     let kind = ref_kind (rvq_source rq) in
     bindT (guardT (hed_revision head = rvq_expectedHeadRevision rq) (conflict ''publication_version_changed'')) (\<lambda>_.
     bindT (read_row kind (hed_userId head) (hed_id head)) (\<lambda>head_before.
     bindT (get_definition (hed_userId head) (hed_kind head) (hed_sourceName head)) (\<lambda>(source_before, source).
     bindT (done_with (exact_digest sha (src_json source))) (\<lambda>source_digest.
     bindT (guardT (source_digest = ver_sourceDigest version) (conflict ''publication_source_changed'')) (\<lambda>_.
     bindT (if rvq_decision rq = ReviewApproved then check_compilation sha actor version False else done_with (Inr ())) (\<lambda>_.
     bindT (at_once (\<lambda>m. let draft = draft_review head (ver_version version) rq (ep_owner_id actor) authority (pmt_now m) in
         bindE (review_digest sha draft) (\<lambda>d. Inr (draft\<lparr>rvw_digest := d\<rparr>)))) (\<lambda>review.
     bindT (review_source sha actor (rvq_source rq) operator_authorized) (\<lambda>_.
     bindT (case head_before of None \<Rightarrow> done_with (Inl (conflict ''publication_version_changed''))
            | Some _ \<Rightarrow> bindT (done_with (load_head head_before)) (\<lambda>h. guardT (h = head) (conflict ''publication_version_changed''))) (\<lambda>_.
       let updated = head\<lparr>hed_revision := hed_revision head + 1\<rparr> in
       commit kind (hed_userId head)
         [(hed_id head, head_before), (hed_sourceName head, Some source_before), (rvw_id review, None)]
         [(hed_id head, Some (HeadRow updated)), (rvw_id review, Some (ReviewRow review))]
         ''publication_version_changed'' updated))))))))))"

section \<open>Activation and withdrawal\<close>

definition active_head :: "publication_head \<Rightarrow> publication_version \<Rightarrow> publication_head" where
  "active_head head v = head\<lparr>aud_visibility := aud_visibility (ver_audience v), aud_acl := aud_acl (ver_audience v),
     aud_groupAcl := aud_groupAcl (ver_audience v), hed_activeVersion := Some (ver_version v), hed_pendingVersion := None,
     hed_revision := hed_revision head + 1\<rparr>"

definition activate_publication ::
  "(string \<Rightarrow> string) \<Rightarrow> effective_policy \<Rightarrow> asset_kind \<Rightarrow> string \<Rightarrow> activation_request \<Rightarrow> (publication_head \<times> pub_records) task" where
  "activate_publication sha actor0 kind name rq =
     bindT (pub_actor actor0 (Some OpSubmit)) (\<lambda>actor. let ref = acq_source rq; owner = ep_owner_id actor in
     bindT (guardT (ref_ownerId ref = owner \<and> ref_kind ref = kind) not_found) (\<lambda>_.
     bindT (get_version sha ref) (\<lambda>version.
     bindT (read_row kind owner (publication_head_id name)) (\<lambda>head_before.
     bindT (done_with (load_head head_before)) (\<lambda>head.
     bindT (get_definition owner kind name) (\<lambda>(source_before, source).
     bindT (guardT (hed_revision head = acq_expectedHeadRevision rq \<and> \<not> hed_deleted head \<and> hed_assetId head = ref_assetId ref
         \<and> hed_pendingVersion head = Some (ref_version ref) \<and> src_name (ver_source version) = name)
         (conflict ''publication_source_changed'')) (\<lambda>_.
     bindT (done_with (tenant_of actor)) (\<lambda>tenant.
     bindT (guardT (hed_tenantId head = tenant \<and> src_incarnation source = hed_sourceIncarnation head \<and> src_enabled source)
         (conflict ''publication_source_changed'')) (\<lambda>_.
     bindT (done_with (exact_digest sha (src_json source))) (\<lambda>source_digest.
     bindT (guardT (source_digest = ver_sourceDigest version) (conflict ''publication_source_changed'')) (\<lambda>_.
     bindT (get_review sha ref) (\<lambda>review.
     bindT (guardT (rvw_decision review = ReviewApproved) (conflict ''publication_not_approved'')) (\<lambda>_.
     bindT (check_compilation sha actor version True) (\<lambda>_.
     bindT (pub_actor actor (Some OpSubmit)) (\<lambda>_.
       let updated = active_head head version in
       commit kind owner [(name, Some source_before), (hed_id head, head_before)] [(hed_id head, Some (HeadRow updated))]
         ''publication_source_changed'' updated)))))))))))))))"

definition withdrawn_head :: "publication_head \<Rightarrow> publication_head" where
  "withdrawn_head h = h\<lparr>hed_activeVersion := None, hed_pendingVersion := None, aud_visibility := VisiblePrivate, aud_acl := [],
     aud_groupAcl := [], hed_revision := hed_revision h + 1\<rparr>"

definition withdraw_publication ::
  "effective_policy \<Rightarrow> asset_kind \<Rightarrow> string \<Rightarrow> int \<Rightarrow> (publication_head \<times> pub_records) task" where
  "withdraw_publication actor0 kind name expected_revision =
     bindT (pub_actor actor0 None) (\<lambda>actor. let owner = ep_owner_id actor in
     bindT (read_row kind owner (publication_head_id name)) (\<lambda>before.
     bindT (done_with (load_head before)) (\<lambda>head.
     bindT (guardT (hed_revision head = expected_revision) (conflict ''publication_version_changed'')) (\<lambda>_.
     bindT (done_with (tenant_of actor)) (\<lambda>tenant.
     bindT (guardT (hed_tenantId head = tenant) (conflict ''publication_version_changed'')) (\<lambda>_.
       commit kind owner [(hed_id head, before)] [(hed_id head, Some (HeadRow (withdrawn_head head)))]
         ''publication_version_changed'' (withdrawn_head head)))))))"

section \<open>Execution\<close>

definition model_reviewed :: "publication_version \<Rightarrow> string \<Rightarrow> deployment_option \<Rightarrow> bool" where
  "model_reviewed v model_id deployment \<longleftrightarrow>
     list_ex (\<lambda>m. pml_modelId m = model_id \<and> pml_option m = deployment) (ver_modelBindings v)"

definition recheck_body ::
  "(string \<Rightarrow> string) \<Rightarrow> (asset_ref \<Rightarrow> execution_mode \<Rightarrow> string \<Rightarrow> unit task) \<Rightarrow> effective_policy \<Rightarrow> asset_ref
    \<Rightarrow> execution_mode \<Rightarrow> string \<Rightarrow> string \<Rightarrow> deployment_option \<Rightarrow> publication_version \<Rightarrow> unit task" where
  "recheck_body sha again actor ref mode implemented model_id deployment version =
     bindT (policy_require actor \<lparr>pq_operation = ''model.invoke'', pq_model_id = Some model_id, pq_deployment = Some deployment,
         pq_tool_name = None, pq_legacy_admin = False\<rparr>) (\<lambda>_.
     bindT (guardT (model_reviewed version model_id deployment) (conflict ''publication_model_not_reviewed'')) (\<lambda>_.
     bindT (at_once (\<lambda>m. ensure (mode = ModeVoice \<longrightarrow> list_all (\<lambda>b. pml_modelId b = model_id
           \<longrightarrow> pml_requiredRealtimeProtocol b \<in> {None, Some (ps_realtime_protocol (ph_settings (pmt_host m)))}) (ver_modelBindings version))
         (conflict ''publication_realtime_protocol_changed''))) (\<lambda>_.
     bindT (check_compilation sha actor version False) (\<lambda>_.
     bindT (guardT (map_option bdl_digest (map_of (ver_profiles version) mode) = Some implemented) (conflict ''publication_contract_changed'')) (\<lambda>_.
     bindT (for_each (\<lambda>d. case dpd_source d of
              CuratedDependency _ \<Rightarrow> done_with (Inr ())
            | PublishedDependency child \<Rightarrow> bindT (get_version sha child) (\<lambda>v.
                case map_of (ver_profiles v) (child_mode (ref_kind ref)) of
                  None \<Rightarrow> done_with (Inl InvalidRecord)
                | Some b \<Rightarrow> again child (child_mode (ref_kind ref)) (bdl_digest b))) (ver_dependencies version)) (\<lambda>_.
     bindT (resolve_for_execution sha actor ref mode) (\<lambda>_. done_with (Inr ()))))))))"

primrec recheck_level ::
  "nat \<Rightarrow> (string \<Rightarrow> string) \<Rightarrow> string list \<Rightarrow> effective_policy \<Rightarrow> asset_ref \<Rightarrow> execution_mode \<Rightarrow> string \<Rightarrow> string \<Rightarrow> deployment_option
    \<Rightarrow> unit task" where
  "recheck_level 0 sha seen actor ref mode implemented model_id deployment =
     bindT (resolve_for_execution sha actor ref mode) (\<lambda>_. done_with (Inl cycle_found))"
| "recheck_level (Suc d) sha seen actor ref mode implemented model_id deployment =
     bindT (resolve_for_execution sha actor ref mode) (\<lambda>resolved.
       if resolve_marker ref \<in> set seen then done_with (Inl cycle_found)
       else recheck_body sha (\<lambda>child m digest. recheck_level d sha (resolve_marker ref # seen) actor child m digest model_id deployment)
         actor ref mode implemented model_id deployment (rsp_version resolved))"

definition recheck_execution ::
  "(string \<Rightarrow> string) \<Rightarrow> effective_policy \<Rightarrow> asset_ref \<Rightarrow> execution_mode \<Rightarrow> string \<Rightarrow> string \<Rightarrow> deployment_option \<Rightarrow> unit task" where
  "recheck_execution sha actor ref mode implemented model_id deployment =
     recheck_level MAX_RESOLVING sha [] actor ref mode implemented model_id deployment"

definition agent_projection :: "resolved_publication \<Rightarrow> string \<Rightarrow> agent_spec pub" where
  "agent_projection resolved handle = (case ver_source (rsp_version resolved) of
     WorkflowSource _ \<Rightarrow> Inl (conflict ''publication_kind_mismatch'')
   | AgentSource a \<Rightarrow> Inr ((to_spec a)\<lparr>agt_name := handle, agt_sourceVersion := Some (version_reference (rsp_version resolved)),
       agt_publishedModes := Some (map (mode_name \<circ> fst) (ver_profiles (rsp_version resolved)))\<rparr>))"

definition dependency_catalog :: "(string \<Rightarrow> string) \<Rightarrow> effective_policy \<Rightarrow> publication_version \<Rightarrow> agent_spec list task" where
  "dependency_catalog sha actor version = for_each (\<lambda>d. case dpd_source d of
       PublishedDependency ref \<Rightarrow> bindT (resolve_for_execution sha actor ref (child_mode (ver_kind version))) (\<lambda>resolved.
         done_with (agent_projection resolved (dpd_name d)))
     | CuratedDependency digest \<Rightarrow> at_once (\<lambda>m. curated_unchanged sha (pmt_curated m) (dpd_name d) digest False))
     (ver_dependencies version)"

text \<open>\<open>validate_subset\<close>: the contracts a turn really offers, of those reviewed for its scope.\<close>

definition supported_reasons :: "bool \<Rightarrow> bool \<Rightarrow> narrowing_reason set" where
  "supported_reasons empty_document_scope tools_disabled =
     (if empty_document_scope then {EmptyDocumentScope} else {}) \<union> (if tools_disabled then {RequestToolsDisabled} else {})"

fun narrow :: "bundle_requirements \<Rightarrow> narrowing_reason set \<Rightarrow> string list \<Rightarrow> narrowing_reason list \<Rightarrow> narrowing_reason list pub" where
  "narrow req supported [] ns = Inr ns"
| "narrow req supported (name # names) ns =
     (let reasons = (case map_of (req_optional req) name of None \<Rightarrow> {} | Some rs \<Rightarrow> set rs \<inter> supported) in
      if reasons = {} then Inl (PublicationError ''publication_optional_contract_unavailable'' 503)
      else narrow req supported names
        (ns @ filter (\<lambda>r. r \<in> reasons \<and> r \<notin> set ns) [EmptyDocumentScope, RequestToolsDisabled]))"

definition subset_json :: "tool_bundle \<Rightarrow> string \<Rightarrow> (string, string) dict \<Rightarrow> narrowing_reason list \<Rightarrow> json" where
  "subset_json bundle scope contracts ns = JObj [(''profile'', JStr (bdl_digest bundle)), (''scope'', JStr scope),
     (''contracts'', JObj (map (\<lambda>(k, d). (k, JStr d)) contracts)), (''narrowing'', strings_json (map reason_name ns)),
     (''exclusions'', exclusions_json (bdl_skillsExcluded bundle))]"

definition reviewed_contract :: "tool_bundle \<Rightarrow> string \<Rightarrow> string option" where
  "reviewed_contract bundle alias = map_of (rev (map (\<lambda>t. (ptl_alias t, ptl_contractDigest t)) (bdl_tools bundle))) alias"

definition validate_subset ::
  "(string \<Rightarrow> string) \<Rightarrow> tool_bundle \<Rightarrow> string \<Rightarrow> (string, string) dict \<Rightarrow> bool \<Rightarrow> bool \<Rightarrow> effective_subset pub" where
  "validate_subset sha bundle scope contracts empty_document_scope tools_disabled =
     (case map_of (bdl_requirements bundle) scope of
        None \<Rightarrow> Inl (conflict ''publication_mode_not_reviewed'')
      | Some req \<Rightarrow>
          if \<not> set (map fst contracts) \<subseteq> set (req_required req) \<union> set (map fst (req_optional req))
             \<or> \<not> list_all (\<lambda>(name, d). reviewed_contract bundle name = Some d) contracts
             \<or> \<not> set (req_required req) \<subseteq> set (map fst contracts)
          then Inl (conflict ''publication_contract_changed'')
          else bindE (narrow req (supported_reasons empty_document_scope tools_disabled)
              (sort (filter (\<lambda>name. name \<notin> set (map fst contracts)) (map fst (req_optional req)))) []) (\<lambda>ns.
            bindE (exact_digest sha (subset_json bundle scope contracts ns)) (\<lambda>d.
              Inr \<lparr>sub_profileDigest = bdl_digest bundle, sub_effectiveDigest = d, sub_scope = scope, sub_contracts = contracts,
                   sub_narrowing = ns, sub_skillsExcluded = bdl_skillsExcluded bundle\<rparr>)))"

end
