(* ===== verification/Publish_Execution.thy ===== *)
theory Publish_Execution
  imports Publish_Service
begin

text \<open>
  \<open>publishing/execution.py\<close>: a run of a published version. Before every protected operation the run is
  verified again, the tools it offers are held against the reviewed contracts, and each request against
  the reviewed models and the offer. The run bound to the task is an argument, its update an answer.
\<close>

record publication_execution =
  exe_actor :: effective_policy
  exe_resolved :: resolved_publication
  exe_mode :: execution_mode
  exe_model_id :: string
  exe_deployment :: deployment_option
  exe_session_id :: "string option"
  exe_document_scope :: "string list option"
  exe_scope :: string
  exe_actual :: "effective_subset option"
  exe_tools_disabled :: bool
  exe_expected_subset_digest :: "string option"

definition exe_ref :: "publication_execution \<Rightarrow> asset_ref" where
  "exe_ref e = version_reference (rsp_version (exe_resolved e))"

definition exe_bundle :: "publication_execution \<Rightarrow> tool_bundle pub" where
  "exe_bundle e = (case map_of (ver_profiles (rsp_version (exe_resolved e))) (exe_mode e) of None \<Rightarrow> Inl InvalidRecord | Some b \<Rightarrow> Inr b)"

definition derive_scope :: "string \<Rightarrow> publication_execution \<Rightarrow> publication_execution" where
  "derive_scope scope e = e\<lparr>exe_scope := scope, exe_actual := None\<rparr>"

definition require_tool :: "effective_policy \<Rightarrow> published_tool \<Rightarrow> unit task" where
  "require_tool actor t = policy_require actor \<lparr>pq_operation = ''tool.invoke'', pq_model_id = None, pq_deployment = None,
     pq_tool_name = Some (ptl_name t), pq_legacy_admin = False\<rparr>"

definition verify_execution :: "(string \<Rightarrow> string) \<Rightarrow> publication_execution \<Rightarrow> unit task" where
  "verify_execution sha e =
     bindT (case exe_session_id e of
         None \<Rightarrow> done_with (Inr ())
       | Some session \<Rightarrow> bindT (await_one (\<lambda>m. pmt_document_scope m (ep_owner_id (exe_actor e)) session)) (\<lambda>scope.
           guardT (scope = exe_document_scope e) (conflict ''publication_document_scope_changed''))) (\<lambda>_.
     bindT (done_with (exe_bundle e)) (\<lambda>bundle.
     bindT (recheck_execution sha (exe_actor e) (exe_ref e) (exe_mode e) (bdl_digest bundle) (exe_model_id e) (exe_deployment e)) (\<lambda>_.
       case map_of (bdl_requirements bundle) (exe_scope e) of
         None \<Rightarrow> done_with (Inr ())
       | Some req \<Rightarrow> bindT (for_each (require_tool (exe_actor e))
           (filter (\<lambda>t. ptl_alias t \<in> set (req_required req)) (bdl_tools bundle))) (\<lambda>_. done_with (Inr ())))))"

definition execution_subset :: "(string \<Rightarrow> string) \<Rightarrow> publication_execution \<Rightarrow> (string, string) dict \<Rightarrow> effective_subset pub" where
  "execution_subset sha e contracts = bindE (exe_bundle e) (\<lambda>bundle.
     validate_subset sha bundle (exe_scope e) contracts (exe_document_scope e = Some []) (exe_tools_disabled e))"

text \<open>Equality of two subsets: their contracts are a dictionary.\<close>

definition same_subset :: "effective_subset \<Rightarrow> effective_subset \<Rightarrow> bool" where
  "same_subset a b \<longleftrightarrow> a\<lparr>sub_contracts := []\<rparr> = b\<lparr>sub_contracts := []\<rparr> \<and> set (sub_contracts a) = set (sub_contracts b)"

definition observe_offers ::
  "(string \<Rightarrow> string) \<Rightarrow> (string, string) dict \<Rightarrow> string list \<Rightarrow> publication_execution \<Rightarrow> publication_execution task" where
  "observe_offers sha contracts offered e =
     bindT (guardT (set offered = set (map fst contracts)) (conflict ''publication_ungoverned_offer'')) (\<lambda>_.
     bindT (verify_execution sha e) (\<lambda>_.
     bindT (done_with (execution_subset sha e contracts)) (\<lambda>sb.
     bindT (guardT (case exe_actual e of None \<Rightarrow> True | Some before \<Rightarrow> same_subset before sb) (conflict ''publication_effective_subset_changed'')) (\<lambda>_.
     bindT (guardT (exe_expected_subset_digest e = None \<or> exe_expected_subset_digest e = Some (sub_effectiveDigest sb))
              (conflict ''publication_approval_subset_changed'')) (\<lambda>_.
       done_with (Inr (e\<lparr>exe_actual := Some sb\<rparr>)))))))"

definition require_toolless_offer :: "(string \<Rightarrow> string) \<Rightarrow> publication_execution \<Rightarrow> unit pub" where
  "require_toolless_offer sha e = (case execution_subset sha e [] of
     Inr _ \<Rightarrow> Inr ()
   | Inl x \<Rightarrow> (case x of
       PublicationError reason _ \<Rightarrow>
         if reason \<in> {''publication_optional_contract_unavailable'', ''publication_contract_changed''}
         then Inl (unsupported ''publication_model_tools_unsupported'') else Inl x
     | _ \<Rightarrow> Inl x))"

text \<open>\<open>check_request\<close>: \<open>contract\<close> is the digest of the tool's contract the request carries, if any.\<close>

definition check_publication_request ::
  "string \<Rightarrow> policy_request \<Rightarrow> string option \<Rightarrow> publication_execution \<Rightarrow> unit pub" where
  "check_publication_request environment rq contract e = bindE (exe_bundle e) (\<lambda>bundle.
     if environment \<noteq> bdl_environmentDigest bundle then Inl (conflict ''publication_environment_changed'')
     else if pq_operation rq = ''model.invoke''
         \<and> \<not> list_ex (\<lambda>b. Some (pml_modelId b) = pq_model_id rq \<and> Some (pml_option b) = pq_deployment rq)
               (ver_modelBindings (rsp_version (exe_resolved e)))
     then Inl (conflict ''publication_model_not_reviewed'')
     else if pq_operation rq = ''tool.invoke'' then
       (case contract of
          None \<Rightarrow> Inr ()
        | Some digest \<Rightarrow> (case exe_actual e of
            None \<Rightarrow> Inl (conflict ''publication_offer_not_bound'')
          | Some sb \<Rightarrow> ensure (list_ex (\<lambda>t. Some (ptl_name t) = pq_tool_name rq
                \<and> map_of (sub_contracts sb) (ptl_alias t) = Some digest) (bdl_tools bundle))
              (conflict ''publication_contract_changed'')))
     else Inr ())"

record publication_evidence =
  evd_source :: asset_ref
  evd_approvedProfileDigest :: string
  evd_effectiveSubsetDigest :: "string option"
  evd_approvalDigest :: string
  evd_mode :: string
  evd_scope :: string
  evd_narrowing :: "narrowing_reason list"
  evd_skillsExcluded :: bool

definition execution_evidence :: "publication_execution \<Rightarrow> publication_evidence pub" where
  "execution_evidence e = bindE (exe_bundle e) (\<lambda>bundle.
     Inr \<lparr>evd_source = exe_ref e, evd_approvedProfileDigest = bdl_digest bundle,
       evd_effectiveSubsetDigest = map_option sub_effectiveDigest (exe_actual e),
       evd_approvalDigest = rvw_digest (rsp_approval (exe_resolved e)), evd_mode = mode_name (exe_mode e),
       evd_scope = exe_scope e, evd_narrowing = (case exe_actual e of None \<Rightarrow> [] | Some sb \<Rightarrow> sub_narrowing sb),
       evd_skillsExcluded = bdl_skillsExcluded bundle\<rparr>)"

text \<open>\<open>prepare_execution\<close>: \<open>actor\<close> resolves the binding of the task, when it is the service's.\<close>

definition prepare_execution ::
  "(string \<Rightarrow> string) \<Rightarrow> effective_policy task option \<Rightarrow> asset_ref \<Rightarrow> execution_mode \<Rightarrow> string \<Rightarrow> deployment_option
    \<Rightarrow> (string \<times> string list option) option \<Rightarrow> string \<Rightarrow> bool \<Rightarrow> publication_execution task" where
  "prepare_execution sha binding ref mode model_id deployment session scope tools_disabled = (case binding of
     None \<Rightarrow> done_with (Inl reauthentication)
   | Some resolve \<Rightarrow>
       bindT resolve (\<lambda>actor.
       bindT (resolve_for_execution sha actor ref mode) (\<lambda>resolved.
       let e = \<lparr>exe_actor = actor, exe_resolved = resolved, exe_mode = mode, exe_model_id = model_id, exe_deployment = deployment,
            exe_session_id = map_option fst session, exe_document_scope = (case session of None \<Rightarrow> None | Some (_, docs) \<Rightarrow> docs),
            exe_scope = scope, exe_actual = None, exe_tools_disabled = tools_disabled, exe_expected_subset_digest = None\<rparr>
       in bindT (verify_execution sha e) (\<lambda>_. done_with (Inr e)))))"

end
