(* ===== verification/Publish_Tasks.thy ===== *)
theory Publish_Tasks
  imports Publish_Execution Policy_Safety
begin

text \<open>
  Reasoning about the tasks of the publication service: what an answer rests on, read backwards through
  the steps of a task; that a task goes forward in time; and what each read has seen, at which moment.
\<close>

section \<open>Tasks, backwards\<close>

named_theorems task_simps "what an answer of a task rests on"

lemma bindT_Inr [task_simps]:
  "bindT t f w n = (Inr y, k) \<longleftrightarrow> (\<exists>x j. t w n = (Inr x, j) \<and> f x w j = (Inr y, k))"
  by (auto simp: bindT_def split: prod.splits sum.splits)

lemma done_with_Inr [task_simps]: "done_with r w n = (Inr y, k) \<longleftrightarrow> r = Inr y \<and> k = n"
  by (auto simp: done_with_def)

lemma at_once_Inr [task_simps]: "at_once f w n = (Inr y, k) \<longleftrightarrow> f (w n) = Inr y \<and> k = n"
  by (auto simp: at_once_def)

lemma await_one_Inr [task_simps]: "await_one f w n = (Inr y, k) \<longleftrightarrow> f (w n) = Inr y \<and> k = Suc n"
  by (auto simp: await_one_def)

lemma guardT_Inr [task_simps]: "guardT ok e w n = (Inr y, k) \<longleftrightarrow> ok \<and> k = n"
  by (auto simp: guardT_def done_with_def ensure_def)

lemma read_row_Inr [task_simps]:
  "read_row kind owner i w n = (Inr y, k) \<longleftrightarrow> y = rec_read (records_of kind (w n)) owner i \<and> k = Suc n"
  by (auto simp: read_row_def await_one_def)

lemma commit_Inr [task_simps]:
  "commit kind owner expected changes reason head w n = (Inr (h, s'), k) \<longleftrightarrow>
     h = head \<and> k = Suc n \<and> rec_atomic (records_of kind (w n)) owner expected changes = Inr (True, s')"
  by (auto simp: commit_def await_one_def bindE_Inr_iff split: if_splits)

section \<open>Tasks go forward\<close>

definition forward :: "'a task \<Rightarrow> bool" where
  "forward t \<longleftrightarrow> (\<forall>w n. n \<le> snd (t w n))"

named_theorems forward_intros "tasks that go forward"

lemma forwardD: "forward t \<Longrightarrow> t w n = (r, k) \<Longrightarrow> n \<le> k"
  by (metis forward_def snd_conv)

lemma forward_basic [forward_intros]:
  "forward (done_with r)" "forward (at_once f)" "forward (await_one f)" "forward (guardT ok e)"
  "forward (read_row kind owner i)" "forward (commit kind owner expected changes reason head)"
  "forward (policy_resolve u owner)" "forward (policy_authorize p rq)" "forward (policy_require p rq)"
  by (simp_all add: forward_def done_with_def at_once_def await_one_def guardT_def read_row_def commit_def
      policy_resolve_def policy_authorize_def policy_require_def)

lemma forward_bindT [forward_intros]:
  assumes "forward t" "\<And>x. forward (f x)"
  shows "forward (bindT t f)"
  unfolding forward_def
proof (intro allI)
  fix w n
  obtain r j where t: "t w n = (r, j)" by fastforce
  with assms(1) have "n \<le> j" by (rule forwardD)
  with assms(2) show "n \<le> snd (bindT t f w n)"
    by (cases r) (auto simp: bindT_def t forward_def intro: order_trans)
qed

lemma forward_for_each [forward_intros]: "(\<And>x. forward (f x)) \<Longrightarrow> forward (for_each f xs)"
  by (induction xs) (auto intro: forward_intros)

lemma forward_actor [forward_intros]: "forward (pub_actor actor op)"
  by (auto simp: pub_actor_def intro!: forward_intros split: option.splits)

lemma forward_reads [forward_intros]:
  "forward (get_definition owner kind name)" "forward (get_version sha ref)" "forward (get_review sha ref)"
  by (auto simp: get_definition_def get_version_def get_review_def intro!: forward_intros)

lemma forward_review_source [forward_intros]: "forward (review_source sha actor ref op)"
  by (auto simp: review_source_def intro!: forward_intros)

lemma forward_resolve_body:
  "(\<And>c m. forward (again c m)) \<Longrightarrow> forward (resolve_body sha again actor ref mode)"
  by (auto simp: resolve_body_def intro!: forward_intros split: prod.splits dependency_source.splits)

lemma forward_resolve_level [forward_intros]: "forward (resolve_level d sha seen actor ref mode)"
proof (induction d arbitrary: seen actor ref mode)
  case (Suc d)
  then show ?case by (auto intro!: forward_intros forward_resolve_body)
qed (auto intro!: forward_intros)

lemma forward_resolve [forward_intros]: "forward (resolve_for_execution sha actor ref mode)"
  unfolding resolve_for_execution_def by (rule forward_intros)

lemma forward_handle [forward_intros]: "forward (resolve_handle sha actor kind handle mode)"
  by (auto simp: resolve_handle_def published_catalog_def run_query_def intro!: forward_intros
      split: list.splits option.splits pub_row.splits)

lemma forward_compile [forward_intros]: "forward (compile_source sha actor source ids modes cp skills)"
  by (auto simp: compile_source_def bind_dependency_def published_dependency_def compile_mode_def intro!: forward_intros
      split: option.splits)

lemma forward_check_compilation [forward_intros]: "forward (check_compilation sha actor v cp)"
  by (auto simp: check_compilation_def intro!: forward_intros)

section \<open>What the reads answer\<close>

lemma actor_answer:
  assumes "pub_actor actor op w n = (Inr fresh, k)"
  shows "n \<le> k \<and> ep_owner_id fresh = ep_owner_id actor \<and> ep_user fresh = ep_user actor \<and> publishing_enabled (w n)
    \<and> (\<exists>u. ep_user actor = Some u \<and> au_provider u = ''entra'' \<and> au_internal_user_id u = ep_owner_id actor)
    \<and> (\<forall>x. op = Some x \<longrightarrow> (\<exists>d. authorize_policy (\<lambda>i. pmt_host (w (Suc n + i))) fresh (pub_request x) = Inr d \<and> pd_allowed d))"
proof -
  from assms obtain u where u: "ep_user actor = Some u" "publishing_enabled (w n)" "au_provider u = ''entra''"
    by (auto simp: pub_actor_def task_simps split: option.splits if_splits)
  from assms u obtain j where r: "policy_resolve u (ep_owner_id actor) w n = (Inr fresh, j)"
    and q: "(case op of None \<Rightarrow> done_with (Inr ()) | Some x \<Rightarrow> policy_require fresh (pub_request x)) w j = (Inr (), k)"
    by (auto simp: pub_actor_def task_simps split: if_splits option.splits)
  from r have j: "j = Suc n" and "resolve_user (pmt_host (w n)) (pmt_host (w (n + 1))) u (Some (ep_owner_id actor)) = Inr fresh"
    by (auto simp: policy_resolve_def policy_raises_def split: sum.splits)
  then have "resolve_policy (pmt_host (w n)) (pmt_host (w (n + 1))) (au_internal_user_id u) (Some u) = Inr fresh"
    "au_internal_user_id u = ep_owner_id actor"
    by (auto simp: resolve_user_def split: if_splits)
  with resolve_policy_fields(1,2) have f: "ep_owner_id fresh = ep_owner_id actor" "ep_user fresh = Some u" by metis+
  from q j have "n \<le> k" "op = Some x \<Longrightarrow> \<exists>d. authorize_policy (\<lambda>i. pmt_host (w (Suc n + i))) fresh (pub_request x) = Inr d \<and> pd_allowed d" for x
    by (auto simp: done_with_def policy_require_def policy_raises_def require_def demand_def bindE_Inr_iff
        split: option.splits sum.splits if_splits)
  with f u \<open>au_internal_user_id u = ep_owner_id actor\<close> show ?thesis by auto
qed

lemma version_answer:
  assumes "get_version sha ref w n = (Inr v, k)"
  shows "k = Suc n \<and> (\<exists>e. rec_read (records_of (ref_kind ref) (w n)) (ref_ownerId ref)
        (version_id (ref_assetId ref) (ref_version ref)) = Some (VersionRow v, e))
    \<and> version_ok v \<and> version_reference v = ref \<and> version_digest sha v = Inr (ref_digest ref) \<and> src_user (ver_source v) = ref_ownerId ref"
  using assms
  by (auto simp: get_version_def task_simps check_version_def bindE_Inr_iff split: option.splits pub_row.splits if_splits)

lemma review_answer:
  assumes "get_review sha ref w n = (Inr r, k)"
  shows "k = Suc n \<and> (\<exists>e. rec_read (records_of (ref_kind ref) (w n)) (ref_ownerId ref)
        (review_id (ref_assetId ref) (ref_version ref)) = Some (ReviewRow r, e))
    \<and> rvw_source r = ref \<and> rvw_userId r = ref_ownerId ref \<and> rvw_reviewerId r \<noteq> ref_ownerId ref
    \<and> review_digest sha r = Inr (rvw_digest r)"
  using assms
  by (auto simp: get_review_def task_simps check_review_def bindE_Inr_iff split: option.splits pub_row.splits if_splits)

lemma definition_answer:
  assumes "get_definition owner kind name w n = (Inr (before, d), k)"
  shows "k = Suc n \<and> is_definition d owner kind name
    \<and> (\<exists>e. before = (DefinitionRow d, e) \<and> rec_read (records_of kind (w n)) owner name = Some (DefinitionRow d, e))"
  using assms
  by (auto simp: get_definition_def task_simps split: option.splits pub_row.splits if_splits)

lemma load_head_Inr: "load_head row = Inr h \<longleftrightarrow> (\<exists>e. row = Some (HeadRow h, e)) \<and> head_ok h"
  by (auto simp: load_head_def split: option.splits pub_row.splits)

section \<open>The steps of a write\<close>

text \<open>An answer is taken apart step by step: a step that answers a pair first, then any other.\<close>

lemma bindT_InrE:
  assumes "bindT t f w n = (Inr y, k)"
  obtains x j where "t w n = (Inr x, j)" "f x w j = (Inr y, k)"
  using assms by (auto simp: bindT_Inr)

lemma bindT_pairE:
  assumes "bindT t (case_prod f) w n = (Inr y, k)"
  obtains a b j where "t w n = (Inr (a, b), j)" "f a b w j = (Inr y, k)"
  using assms by (auto simp: bindT_Inr)

lemma bindT_tripleE:
  assumes "bindT t (\<lambda>(a, b, c). f a b c) w n = (Inr y, k)"
  obtains a b c j where "t w n = (Inr (a, b, c), j)" "f a b c w j = (Inr y, k)"
  using assms by (auto simp: bindT_Inr)

lemma forward_unless_rejected:
  "(if b then check_compilation sha actor v cp else done_with r) w n = (r', k) \<Longrightarrow> n \<le> k"
  by (cases b) (auto dest: forwardD [OF forward_check_compilation] simp: done_with_def)

lemmas answers = actor_answer version_answer definition_answer review_answer load_head_Inr [THEN iffD1]
  forwardD [OF forward_check_compilation] forwardD [OF forward_compile] forward_unless_rejected

lemma authorize_answer:
  "policy_authorize p rq w n = (Inr d, k) \<Longrightarrow> k = n + 2 \<and> authorize_policy (\<lambda>i. pmt_host (w (n + i))) p rq = Inr d"
  by (auto simp: policy_authorize_def policy_raises_def split: sum.splits)

lemma review_source_answer:
  assumes "review_source sha actor0 ref operator w n = (Inr (head, v, authority), k)"
  shows "\<exists>a. k = Suc (Suc (Suc (Suc a))) \<and> n \<le> a
    \<and> (\<exists>e. rec_read (records_of (ref_kind ref) (w a)) (ref_ownerId ref) (version_id (ref_assetId ref) (ref_version ref)) = Some (VersionRow v, e))
    \<and> (\<exists>e. rec_read (records_of (ref_kind ref) (w (Suc a))) (ref_ownerId ref) (publication_head_id (src_name (ver_source v))) = Some (HeadRow head, e))
    \<and> version_reference v = ref \<and> version_ok v \<and> head_ok head \<and> \<not> hed_deleted head
    \<and> hed_assetId head = ref_assetId ref \<and> hed_pendingVersion head = Some (ref_version ref) \<and> ver_tenantId v = hed_tenantId head
    \<and> ver_reviewConsent v \<and> ep_owner_id actor0 \<noteq> ref_ownerId ref \<and> ver_reviewerUserId v \<in> {None, Some (ep_owner_id actor0)}
    \<and> (authority = ByOperator \<longrightarrow> operator \<and> ver_operatorReviewConsent v)
    \<and> (authority = ByReviewer \<longrightarrow> (\<exists>actor d. ep_user actor = ep_user actor0
         \<and> authorize_policy (\<lambda>x. pmt_host (w (Suc (Suc (a + x))))) actor (pub_request OpReview) = Inr d \<and> pd_allowed d))"
  using assms unfolding review_source_def Let_def
  apply (elim bindT_pairE bindT_InrE)
  apply (simp only: task_simps)
  apply (elim conjE)
  apply hypsubst
  apply (drule answers authorize_answer)+
  apply (elim conjE exE)
  apply hypsubst
  apply (simp add: task_simps split: if_splits option.splits)
   apply auto
  done

end
