(* ===== verification/Publish_Safety.thy ===== *)
theory Publish_Safety
  imports Publish_Tasks
begin

text \<open>
  What a write of the publication service rests on, and the invariant of its stores. \<open>pub_batch\<close> is a
  write with everything it was based on, each from some earlier store; \<open>lawful\<close> is a world whose store
  changes by the calls of the service and of the definitions alone, interleaved in any way. In all its
  stores every version an asset offers was reviewed and approved by someone else than its owner, and is
  offered to the audience that was reviewed.
\<close>

section \<open>Writes\<close>

definition read_in :: "pub_records set \<Rightarrow> string \<Rightarrow> string \<Rightarrow> row_snapshot option \<Rightarrow> bool" where
  "read_in S owner i before \<longleftrightarrow> (\<exists>s \<in> S. rec_read s owner i = before)"

definition previous_head :: "row_snapshot option \<Rightarrow> publication_head option \<Rightarrow> bool" where
  "previous_head row previous \<longleftrightarrow> (case previous of None \<Rightarrow> row = None | Some p \<Rightarrow> load_head row = Inr p)"

definition submitted_head ::
  "string \<Rightarrow> string \<Rightarrow> string \<Rightarrow> asset_kind \<Rightarrow> string \<Rightarrow> pub_source \<Rightarrow> publication_head option \<Rightarrow> publication_head" where
  "submitted_head owner tenant name kind asset source previous =
     (if continues_head source previous then the previous else fresh_head owner tenant name kind asset source previous)"

inductive pub_batch :: "(string \<Rightarrow> string) \<Rightarrow> asset_kind \<Rightarrow> pub_records set \<Rightarrow> pub_records \<Rightarrow> pub_records \<Rightarrow> bool"
  for sha kind S s s' where
  submitting: "read_in S owner name (Some (DefinitionRow source, e)) \<Longrightarrow> is_definition source owner kind name
    \<Longrightarrow> previous_head old_head previous \<Longrightarrow> read_in S owner (publication_head_id name) old_head
    \<Longrightarrow> head = submitted_head owner tenant name kind asset source previous \<Longrightarrow> hed_versionCount head < MAX_VERSIONS_PER_ASSET
    \<Longrightarrow> budget_room budget = Some count \<Longrightarrow> read_in S owner BUDGET_ID budget
    \<Longrightarrow> seal_version sha (draft_version owner tenant kind (hed_assetId head) (hed_versionCount head + 1) source source_digest
          rq c submitted policy) = Inr v
    \<Longrightarrow> submit_ok rq \<Longrightarrow> sbm_reviewerUserId rq \<noteq> Some owner
    \<Longrightarrow> rec_atomic s owner
          [(name, Some (DefinitionRow source, e)), (publication_head_id name, old_head), (ver_id v, None), (BUDGET_ID, budget)]
          [(publication_head_id name, Some (HeadRow (pending_head head same (hed_versionCount head + 1) rq))),
           (ver_id v, Some (VersionRow v)), (BUDGET_ID, Some (BudgetRow owner (JInt (count + 1)) PUBLICATION_BUDGET_KIND))]
        = Inr (True, s') \<Longrightarrow> pub_batch sha kind S s s'"
| reviewing: "review_digest sha draft = Inr d \<Longrightarrow> draft = draft_review head (ver_version v) rq reviewer authority reviewed
    \<Longrightarrow> rvq_source rq = ref \<Longrightarrow> read_in S (ref_ownerId ref) (version_id (ref_assetId ref) (ref_version ref)) (Some (VersionRow v, e))
    \<Longrightarrow> version_reference v = ref \<Longrightarrow> ref_kind ref = kind
    \<Longrightarrow> read_in S (ref_ownerId ref) (publication_head_id (src_name (ver_source v))) (Some (HeadRow head, e'))
    \<Longrightarrow> hed_assetId head = ref_assetId ref \<Longrightarrow> ver_tenantId v = hed_tenantId head
    \<Longrightarrow> reviewer \<noteq> ref_ownerId ref \<Longrightarrow> ver_reviewerUserId v \<in> {None, Some reviewer}
    \<Longrightarrow> (authority = ByOperator \<longrightarrow> ver_operatorReviewConsent v)
    \<Longrightarrow> read_in S (hed_userId head) (hed_id head) (Some (HeadRow head, e''))
    \<Longrightarrow> (hed_kind head = kind \<longrightarrow> read_in S (hed_userId head) (hed_sourceName head) (Some (DefinitionRow source, e''')))
    \<Longrightarrow> is_definition source (hed_userId head) (hed_kind head) (hed_sourceName head)
    \<Longrightarrow> rec_atomic s (hed_userId head)
          [(hed_id head, Some (HeadRow head, e'')), (hed_sourceName head, Some (DefinitionRow source, e''')),
           (rvw_id draft, None)]
          [(hed_id head, Some (HeadRow (head\<lparr>hed_revision := revision\<rparr>))), (rvw_id draft, Some (ReviewRow (draft\<lparr>rvw_digest := d\<rparr>)))]
        = Inr (True, s') \<Longrightarrow> pub_batch sha kind S s s'"
| activating: "read_in S (ref_ownerId ref) (version_id (ref_assetId ref) (ref_version ref)) (Some (VersionRow v, e))
    \<Longrightarrow> version_reference v = ref \<Longrightarrow> ref_ownerId ref = owner \<Longrightarrow> src_name (ver_source v) = name
    \<Longrightarrow> read_in S owner (publication_head_id name) (Some (HeadRow head, e'))
    \<Longrightarrow> hed_assetId head = ref_assetId ref \<Longrightarrow> \<not> hed_deleted head
    \<Longrightarrow> read_in S owner name (Some (DefinitionRow source, e'')) \<Longrightarrow> is_definition source owner kind name
    \<Longrightarrow> read_in S (ref_ownerId ref) (review_id (ref_assetId ref) (ref_version ref)) (Some (ReviewRow r, e'''))
    \<Longrightarrow> rvw_source r = ref \<Longrightarrow> rvw_decision r = ReviewApproved
    \<Longrightarrow> rec_atomic s owner [(name, Some (DefinitionRow source, e'')), (hed_id head, Some (HeadRow head, e'))]
          [(hed_id head, Some (HeadRow (active_head head v)))] = Inr (True, s') \<Longrightarrow> pub_batch sha kind S s s'"
| withdrawing: "read_in S owner (publication_head_id name) (Some (HeadRow head, e))
    \<Longrightarrow> rec_atomic s owner [(hed_id head, Some (HeadRow head, e))]
          [(hed_id head, Some (HeadRow (withdrawn_head head)))] = Inr (True, s') \<Longrightarrow> pub_batch sha kind S s s'"

text \<open>The stores a call may have read, which began at moment \<open>n\<close> and wrote at \<open>m\<close>.\<close>

definition stores :: "pub_world \<Rightarrow> asset_kind \<Rightarrow> nat \<Rightarrow> pub_records set" where
  "stores w kind m = {records_of kind (w j) |j. j \<le> m}"

lemma read_in_stores: "j \<le> m \<Longrightarrow> rec_read (records_of kind (w j)) owner i = before \<Longrightarrow> read_in (stores w kind m) owner i before"
  by (auto simp: read_in_def stores_def)

lemma read_in_stores_of:
  "rec_read (records_of k (w j)) owner i = before \<Longrightarrow> j \<le> m \<Longrightarrow> k = kind \<longrightarrow> read_in (stores w kind m) owner i before"
  by (auto intro: read_in_stores)

lemma withdraw_batch:
  assumes "withdraw_publication actor0 kind name revision w n = (Inr (h, s'), Suc m)"
  shows "pub_batch sha kind (stores w kind m) (records_of kind (w m)) s'"
  using assms unfolding withdraw_publication_def Let_def
  apply (elim bindT_pairE bindT_InrE)
  apply (simp only: task_simps)
  apply (elim conjE)
  apply hypsubst
  apply (drule answers)+
  apply (elim conjE exE)
  apply (rule withdrawing, rule read_in_stores)
    prefer 2 apply assumption
   apply auto
  done

lemma activate_batch:
  assumes "activate_publication sha actor0 kind name rq w n = (Inr (h, s'), Suc m)"
  shows "pub_batch sha kind (stores w kind m) (records_of kind (w m)) s'"
  using assms unfolding activate_publication_def Let_def
  apply (elim bindT_pairE bindT_InrE)
  apply (simp only: task_simps)
  apply (elim conjE)
  apply hypsubst
  apply (drule answers)+
  apply (elim conjE exE)
  apply hypsubst
  apply (rule activating)
              apply ((rule read_in_stores [rotated], assumption, linarith) | assumption | rule refl)+
  apply simp
  done

lemma review_batch:
  assumes "decide_review sha actor rq operator w n = (Inr (h, s'), Suc m)"
  shows "pub_batch sha (ref_kind (rvq_source rq)) (stores w (ref_kind (rvq_source rq)) m) (records_of (ref_kind (rvq_source rq)) (w m)) s'"
  using assms unfolding decide_review_def Let_def
  apply (elim bindT_tripleE bindT_pairE bindT_InrE)
  apply (simp only: task_simps)
  apply (elim conjE)
  apply hypsubst
  apply (simp only: task_simps split: option.splits)
   apply simp
  apply (elim exE conjE)
  apply hypsubst
  apply (simp only: bindE_Inr_iff)
  apply (drule answers review_source_answer)+
  apply (drule forwardD [OF forward_review_source])
  apply (elim conjE exE)
  apply (simp only: option.inject sum.inject)
  apply hypsubst
  apply (rule reviewing)
                 apply ((rule read_in_stores [rotated] read_in_stores_of, assumption, linarith) | assumption | rule refl | blast)+
  apply simp
  done

lemma previous_Inr:
  "(case row of None \<Rightarrow> Inr None | Some _ \<Rightarrow> bindE (load_head row) (\<lambda>h. Inr (Some h))) = Inr previous \<longleftrightarrow> previous_head row previous"
  by (cases row; cases previous) (auto simp: previous_head_def bindE_Inr_iff load_head_def split: if_splits pub_row.splits)

lemma submit_batch:
  assumes "submit_publication sha actor0 kind name rq w n = (Inr (h, s'), Suc m)" "submit_ok rq"
  shows "pub_batch sha kind (stores w kind m) (records_of kind (w m)) s'"
  using assms unfolding submit_publication_def Let_def
  apply (elim bindT_tripleE bindT_pairE bindT_InrE)
  apply (simp only: task_simps previous_Inr)
  apply (elim conjE)
  apply hypsubst
  apply (simp only: task_simps split: option.split_asm)
   apply simp
  apply (elim exE conjE)
  apply hypsubst
  apply (simp only: bindE_Inr_iff)
  apply (elim exE conjE)
  apply (simp only: submitted_head_def [symmetric] sum.inject)
  apply hypsubst
  apply (drule answers)+
  apply (elim conjE exE)
  apply hypsubst
  apply (rule submitting)
             apply ((rule read_in_stores [rotated], (assumption | rule refl), linarith) | assumption | rule refl)+
  apply simp
  done

section \<open>The invariant\<close>

text \<open>What is offered was approved: an active head names a stored version and the approval of exactly it.\<close>

definition offers :: "view \<Rightarrow> string \<Rightarrow> publication_head \<Rightarrow> int \<Rightarrow> bool" where
  "offers V owner h n \<longleftrightarrow> (\<exists>v r. V (owner, version_id (hed_assetId h) n) = Some (VersionRow v)
     \<and> V (owner, review_id (hed_assetId h) n) = Some (ReviewRow r)
     \<and> ver_assetId v = hed_assetId h \<and> ver_version v = n \<and> rvw_source r = version_reference v \<and> rvw_decision r = ReviewApproved
     \<and> publication_audience.truncate h = publication_audience.truncate (ver_audience v))"

fun row_sound :: "(string \<Rightarrow> string) \<Rightarrow> asset_kind \<Rightarrow> view \<Rightarrow> pub_row \<Rightarrow> bool" where
  "row_sound sha kind V (VersionRow v) \<longleftrightarrow> ver_kind v = kind \<and> ver_id v = version_id (ver_assetId v) (ver_version v)
     \<and> version_digest sha v = Inr (ver_digest v) \<and> ver_reviewConsent v \<and> ver_reviewerUserId v \<noteq> Some (ver_userId v)
     \<and> aud_visibility (ver_audience v) \<noteq> VisiblePrivate"
| "row_sound sha kind V (ReviewRow r) \<longleftrightarrow> rvw_id r = review_id (ref_assetId (rvw_source r)) (ref_version (rvw_source r))
     \<and> ref_ownerId (rvw_source r) = rvw_userId r \<and> rvw_reviewerId r \<noteq> rvw_userId r
     \<and> (\<exists>v. V (rvw_userId r, version_id (ref_assetId (rvw_source r)) (ref_version (rvw_source r))) = Some (VersionRow v)
          \<and> version_reference v = rvw_source r \<and> ver_tenantId v = rvw_tenantId r
          \<and> ver_reviewerUserId v \<in> {None, Some (rvw_reviewerId r)}
          \<and> (rvw_authority r = ByOperator \<longrightarrow> ver_operatorReviewConsent v))"
| "row_sound sha kind V (HeadRow h) \<longleftrightarrow> hed_kind h = kind
     \<and> (case hed_activeVersion h of None \<Rightarrow> aud_visibility h = VisiblePrivate \<or> hed_deleted h
        | Some n \<Rightarrow> \<not> hed_deleted h \<and> offers V (hed_userId h) h n)"
| "row_sound sha kind V _ \<longleftrightarrow> True"

definition pub_inv :: "(string \<Rightarrow> string) \<Rightarrow> asset_kind \<Rightarrow> view \<Rightarrow> bool" where
  "pub_inv sha kind V \<longleftrightarrow> (\<forall>owner i row. V (owner, i) = Some row \<longrightarrow> row_id row = i \<and> row_owner row = owner \<and> row_sound sha kind V row)"

lemma pub_invD:
  assumes "pub_inv sha kind V" "V (owner, i) = Some row"
  shows "row_id row = i" "row_owner row = owner" "row_sound sha kind V row"
  using assms unfolding pub_inv_def by blast+

text \<open>Permanent rows keep every other row sound.\<close>

definition keeps_permanent :: "view \<Rightarrow> view \<Rightarrow> bool" where
  "keeps_permanent V V' \<longleftrightarrow> (\<forall>k row. V k = Some row \<and> permanent row \<longrightarrow> V' k = Some row)"

lemma offers_kept: "offers V owner h n \<Longrightarrow> keeps_permanent V V' \<Longrightarrow> offers V' owner h n"
  unfolding offers_def keeps_permanent_def by fastforce

lemma row_sound_kept: "row_sound sha kind V row \<Longrightarrow> keeps_permanent V V' \<Longrightarrow> row_sound sha kind V' row"
proof (induction sha kind V row rule: row_sound.induct)
  case (2 sha kind V r)
  then show ?case by (fastforce simp: keeps_permanent_def)
next
  case (3 sha kind V h)
  then show ?case by (auto intro: offers_kept split: option.splits)
qed auto

text \<open>A batch keeps the invariant when what it writes is sound and nothing permanent is overwritten.\<close>

lemma batch_keeps_inv:
  assumes "pub_inv sha kind (row_view s)" "wf_records s"
    and "rec_atomic s owner expected changes = Inr (True, s')" "distinct (map fst expected)"
    and "\<And>i before. (i, before) \<in> set expected \<Longrightarrow> rec_read s owner i = before"
    and "\<And>i before row. (i, before) \<in> set expected \<Longrightarrow> row_view s (owner, i) = Some row \<Longrightarrow> permanent row \<Longrightarrow> map_of changes i = None"
    and "\<And>i row. map_of changes i = Some (Some row) \<Longrightarrow> keeps_permanent (row_view s) (row_view s')
      \<Longrightarrow> row_view s' (owner, i) = Some row \<Longrightarrow> row_sound sha kind (row_view s') row"
  shows "pub_inv sha kind (row_view s') \<and> wf_records s' \<and> later_records s s'"
proof -
  have inside: "map_of changes i = None \<or> (\<exists>before. (i, before) \<in> set expected)" for i
  proof -
    from assms(3) have "fst ` set changes \<subseteq> fst ` set expected"
      by (auto simp: rec_atomic_def validate_batch_def split: if_splits)
    then show ?thesis by (force simp: map_of_eq_None_iff)
  qed
  have perm: "map_of changes i \<in> {None, Some (Some row)}" if "row_view s (owner, i) = Some row" "permanent row" for i row
    using inside [of i] assms(6) [OF _ that] by blast
  have e: "wf_records s'" "later_records s s'" and view: "row_view s' = batch_view owner changes (row_view s)"
    by (rule atomic_effect [OF assms(3,4,2)], (erule assms(5) | erule (1) perm)+)+
  have written: "row_id row = i \<and> row_owner row = owner" if "map_of changes i = Some (Some row)" for i row
    by (rule atomic_effect(4) [OF assms(3,4,2) _ _ that], (erule assms(5) | erule (1) perm)+)
  have kept: "keeps_permanent (row_view s) (row_view s')"
    unfolding keeps_permanent_def view
  proof (intro allI impI)
    fix k row assume k: "row_view s k = Some row \<and> permanent row"
    obtain o' i where "k = (o', i)" by fastforce
    with k perm [of i row] show "batch_view owner changes (row_view s) k = Some row" by (auto simp: batch_view_def)
  qed
  have "row_id row = i \<and> row_owner row = o' \<and> row_sound sha kind (row_view s') row" if r: "row_view s' (o', i) = Some row" for o' i row
  proof (cases "o' = owner \<and> map_of changes i \<noteq> None")
    case True
    with r have c: "map_of changes i = Some (Some row)" by (auto simp: view batch_view_def)
    with True written [OF c] assms(7) [OF c kept] r show ?thesis by auto
  next
    case False
    with r have "row_view s (o', i) = Some row" by (auto simp: view batch_view_def split: if_splits)
    from pub_invD [OF assms(1) this] show ?thesis using row_sound_kept [OF _ kept] by blast
  qed
  then show ?thesis using e by (auto simp: pub_inv_def)
qed

section \<open>Identifiers\<close>

lemma ids_apart [simp]:
  "publication_head_id name \<noteq> version_id a n" "version_id a n \<noteq> publication_head_id name"
  "publication_head_id name \<noteq> review_id a n" "review_id a n \<noteq> publication_head_id name"
  "publication_head_id name \<noteq> BUDGET_ID" "BUDGET_ID \<noteq> publication_head_id name"
  "version_id a n \<noteq> review_id b m" "review_id b m \<noteq> version_id a n"
  "version_id a n \<noteq> BUDGET_ID" "BUDGET_ID \<noteq> version_id a n"
  by (simp_all add: publication_head_id_def version_id_def review_id_def BUDGET_ID_def CONTROL_RECORD_PREFIX_def)

lemma names_apart:
  assumes "name_ok name"
  shows "name \<noteq> publication_head_id x" "name \<noteq> version_id a n" "name \<noteq> review_id a n" "name \<noteq> BUDGET_ID"
    "publication_head_id x \<noteq> name" "version_id a n \<noteq> name" "review_id a n \<noteq> name" "BUDGET_ID \<noteq> name"
  using assms
  by (auto simp: publication_head_id_def version_id_def review_id_def BUDGET_ID_def CONTROL_RECORD_PREFIX_def name_ok_def
      char_code_def Let_def)

lemma is_definition_name: "is_definition d owner kind name \<Longrightarrow> name_ok name \<and> src_id d = name \<and> src_user d = owner"
  unfolding is_definition_def by blast

section \<open>Every write keeps the invariant\<close>

definition past :: "(string \<Rightarrow> string) \<Rightarrow> asset_kind \<Rightarrow> pub_records set \<Rightarrow> pub_records \<Rightarrow> bool" where
  "past sha kind S s \<longleftrightarrow> (\<forall>t \<in> S. wf_records t \<and> later_records t s \<and> pub_inv sha kind (row_view t))"

lemma past_current:
  assumes "past sha kind S s" "rec_atomic s owner expected changes = Inr (True, s')" "read_in S owner i before" "(i, before) \<in> set expected"
  shows "rec_read s owner i = before"
proof -
  from assms(1,3) obtain t where t: "rec_read t owner i = before" "wf_records t" "later_records t s"
    by (auto simp: read_in_def past_def)
  with cs.unchanged_since_read [OF t(2,3) assms(2)] assms(4) show ?thesis by simp
qed

lemma past_absent:
  "rec_atomic s owner expected changes = Inr (True, s') \<Longrightarrow> (i, None) \<in> set expected \<Longrightarrow> rec_read s owner i = None"
  using cs.matched by fastforce

lemma past_lasting:
  assumes "past sha kind S s" "read_in S owner i (Some (row, e))" "permanent row"
  shows "row_view s (owner, i) = Some row"
  using assms later_records_permanent by (fastforce simp: past_def read_in_def row_view_Some)

lemma past_row:
  assumes "past sha kind S s" "read_in S owner i (Some (row, e))"
  shows "row_id row = i" "row_owner row = owner" "\<exists>V. row_sound sha kind V row"
proof -
  from assms obtain t where "row_view t (owner, i) = Some row" "pub_inv sha kind (row_view t)"
    by (auto simp: past_def read_in_def row_view_Some)
  from pub_invD [OF this(2,1)] show "row_id row = i" "row_owner row = owner" "\<exists>V. row_sound sha kind V row" by auto
qed

lemma seal_version_fields:
  assumes "seal_version sha draft = Inr v"
  shows "\<exists>d. version_digest sha draft = Inr d \<and> v = draft\<lparr>ver_digest := d\<rparr>"
  using assms by (auto simp: seal_version_def bindE_Inr_iff Let_def split: if_splits)

lemma digest_of_sealed [simp]: "version_digest sha (v\<lparr>ver_digest := d\<rparr>) = version_digest sha v"
  by (simp add: version_digest_def version_json_def version_fields_def)

lemma budget_room_row: "budget_room budget = Some count \<Longrightarrow> budget = None \<or> (\<exists>owner c k e. budget = Some (BudgetRow owner c k, e))"
  by (auto simp: budget_room_def budget_count_def split: option.splits pub_row.splits)

text \<open>A head that changes neither what is active nor its audience is as sound as before.\<close>

lemma head_sound_same:
  assumes "row_sound sha kind V (HeadRow h)" "keeps_permanent V V'"
    and "hed_kind h' = hed_kind h" "hed_activeVersion h' = hed_activeVersion h" "hed_deleted h' = hed_deleted h"
    "hed_userId h' = hed_userId h" "hed_assetId h' = hed_assetId h"
    "publication_audience.truncate h' = publication_audience.truncate h"
  shows "row_sound sha kind V' (HeadRow h')"
proof -
  from row_sound_kept [OF assms(1,2)] have "row_sound sha kind V' (HeadRow h)" .
  moreover from assms(8) have "aud_visibility h' = aud_visibility h" by (simp add: publication_audience.defs)
  ultimately show ?thesis using assms(3-8) by (auto simp: offers_def split: option.splits)
qed

lemma past_batch:
  assumes "pub_inv sha kind (row_view s)" "wf_records s" "past sha kind S s"
    and "rec_atomic s owner expected changes = Inr (True, s')" "distinct (map fst expected)"
    and "\<And>i before. (i, before) \<in> set expected \<Longrightarrow> before = None \<or> read_in S owner i before \<and> \<not> permanent (fst (the before))"
    and "\<And>i row. map_of changes i = Some (Some row) \<Longrightarrow> keeps_permanent (row_view s) (row_view s')
      \<Longrightarrow> row_view s' (owner, i) = Some row \<Longrightarrow> row_sound sha kind (row_view s') row"
  shows "pub_inv sha kind (row_view s') \<and> wf_records s' \<and> later_records s s'"
proof (rule batch_keeps_inv [OF assms(1,2,4,5)])
  show current: "rec_read s owner i = before" if "(i, before) \<in> set expected" for i before
    using assms(6) [OF that] past_current [OF assms(3,4) _ that] past_absent [OF assms(4), of i] that by (cases before) auto
  show "map_of changes i = None" if "(i, before) \<in> set expected" "row_view s (owner, i) = Some row" "permanent row" for i before row
    using assms(6) [OF that(1)] current [OF that(1)] that(2,3) by (auto simp: row_view_def)
qed (rule assms(7))

lemma withdrawing_keeps:
  assumes "pub_inv sha kind (row_view s)" "wf_records s" "past sha kind S s"
    and "read_in S owner (publication_head_id name) (Some (HeadRow head, e))"
    and "rec_atomic s owner [(hed_id head, Some (HeadRow head, e))]
          [(hed_id head, Some (HeadRow (withdrawn_head head)))] = Inr (True, s')"
  shows "pub_inv sha kind (row_view s') \<and> wf_records s' \<and> later_records s s'"
proof -
  from past_row [OF assms(3,4)] have "hed_id head = publication_head_id name" "hed_kind head = kind" by auto
  with assms(4) show ?thesis
    by (intro past_batch [OF assms(1-3,5)]) (auto simp: withdrawn_head_def split: if_splits)
qed

lemma activating_keeps:
  assumes "pub_inv sha kind (row_view s)" "wf_records s" "past sha kind S s"
    and version: "read_in S owner (version_id (ref_assetId ref) (ref_version ref)) (Some (VersionRow v, e))" "version_reference v = ref"
    and head: "read_in S owner (publication_head_id name) (Some (HeadRow head, e'))" "hed_assetId head = ref_assetId ref"
      "\<not> hed_deleted head"
    and source: "read_in S owner name (Some (DefinitionRow source, e''))" "is_definition source owner kind name"
    and review: "read_in S owner (review_id (ref_assetId ref) (ref_version ref)) (Some (ReviewRow r, e'''))"
      "rvw_source r = ref" "rvw_decision r = ReviewApproved"
    and batch: "rec_atomic s owner [(name, Some (DefinitionRow source, e'')), (hed_id head, Some (HeadRow head, e'))]
          [(hed_id head, Some (HeadRow (active_head head v)))] = Inr (True, s')"
  shows "pub_inv sha kind (row_view s') \<and> wf_records s' \<and> later_records s s'"
proof -
  from past_row [OF assms(3) head(1)]
  have h: "hed_id head = publication_head_id name" "hed_kind head = kind" "hed_userId head = owner" by auto
  have v: "ver_assetId v = ref_assetId ref" "ver_version v = ref_version ref"
    using version(2) by (auto simp: version_reference_def)
  note lasting = past_lasting [OF assms(3) version(1)] past_lasting [OF assms(3) review(1)]
  show ?thesis
  proof (rule past_batch [OF assms(1-3) batch])
    show "distinct (map fst [(name, Some (DefinitionRow source, e'')), (hed_id head, Some (HeadRow head, e'))])"
      using names_apart [of name] is_definition_name [OF source(2)] by (simp add: h)
    fix i row assume c: "map_of [(hed_id head, Some (HeadRow (active_head head v)))] i = Some (Some row)"
      and kept: "keeps_permanent (row_view s) (row_view s')"
    from lasting kept have "row_view s' (owner, version_id (ref_assetId ref) (ref_version ref)) = Some (VersionRow v)"
      "row_view s' (owner, review_id (ref_assetId ref) (ref_version ref)) = Some (ReviewRow r)"
      by (auto simp: keeps_permanent_def)
    with c show "row_sound sha kind (row_view s') row"
      using h v head review version(2)
      by (auto simp: active_head_def offers_def publication_audience.defs split: if_splits)
  qed (use head(1) source(1) h in \<open>auto\<close>)
qed

lemma reviewing_keeps:
  assumes "pub_inv sha kind (row_view s)" "wf_records s" "past sha kind S s"
    and draft: "draft = draft_review head (ver_version v) rq reviewer authority reviewed" "rvq_source rq = ref"
    and version: "read_in S (ref_ownerId ref) (version_id (ref_assetId ref) (ref_version ref)) (Some (VersionRow v, e))"
      "version_reference v = ref"
    and head: "read_in S (ref_ownerId ref) (publication_head_id name) (Some (HeadRow head, e'))"
      "read_in S (hed_userId head) (hed_id head) (Some (HeadRow head, e''))"
      "hed_assetId head = ref_assetId ref" "ver_tenantId v = hed_tenantId head"
    and reviewer: "reviewer \<noteq> ref_ownerId ref" "ver_reviewerUserId v \<in> {None, Some reviewer}"
      "authority = ByOperator \<longrightarrow> ver_operatorReviewConsent v"
    and source: "hed_kind head = kind \<longrightarrow> read_in S (hed_userId head) (hed_sourceName head) (Some (DefinitionRow source, e'''))"
      "is_definition source (hed_userId head) (hed_kind head) (hed_sourceName head)"
    and batch: "rec_atomic s (hed_userId head)
          [(hed_id head, Some (HeadRow head, e'')), (hed_sourceName head, Some (DefinitionRow source, e''')), (rvw_id draft, None)]
          [(hed_id head, Some (HeadRow (head\<lparr>hed_revision := revision\<rparr>))), (rvw_id draft, Some (ReviewRow (draft\<lparr>rvw_digest := d\<rparr>)))]
        = Inr (True, s')"
  shows "pub_inv sha kind (row_view s') \<and> wf_records s' \<and> later_records s s'"
proof -
  from past_row [OF assms(3) head(1)]
  have h: "hed_id head = publication_head_id name" "hed_kind head = kind" "hed_userId head = ref_ownerId ref" by auto
  have v: "ver_assetId v = ref_assetId ref" "ver_version v = ref_version ref"
    using version(2) by (auto simp: version_reference_def)
  have i: "rvw_id draft = review_id (ref_assetId ref) (ref_version ref)" by (simp add: draft(1) draft_review_def head(3) v)
  have current: "row_view s (hed_userId head, hed_id head) = Some (HeadRow head)"
    using past_current [OF assms(3) batch head(2)] by (simp add: row_view_def)
  show ?thesis
  proof (rule past_batch [OF assms(1-3) batch])
    show "distinct (map fst [(hed_id head, Some (HeadRow head, e'')), (hed_sourceName head, Some (DefinitionRow source, e''')), (rvw_id draft, None)])"
      using names_apart [of "hed_sourceName head"] is_definition_name [OF source(2)] by (simp add: h i)
    fix i' row assume c: "map_of [(hed_id head, Some (HeadRow (head\<lparr>hed_revision := revision\<rparr>))),
        (rvw_id draft, Some (ReviewRow (draft\<lparr>rvw_digest := d\<rparr>)))] i' = Some (Some row)"
      and kept: "keeps_permanent (row_view s) (row_view s')"
    have "row_sound sha kind (row_view s') (HeadRow (head\<lparr>hed_revision := revision\<rparr>))"
      by (rule head_sound_same [OF pub_invD(3) [OF assms(1) current] kept]) (simp_all add: publication_audience.defs)
    moreover have "row_view s' (ref_ownerId ref, version_id (ref_assetId ref) (ref_version ref)) = Some (VersionRow v)"
      using past_lasting [OF assms(3) version(1)] kept by (auto simp: keeps_permanent_def)
    ultimately show "row_sound sha kind (row_view s') row"
      using c h(3) i head(3,4) v reviewer version(2)
      by (auto simp: draft(1) draft(2) draft_review_def split: if_splits)
  qed (use head(2) source(1) h in \<open>auto\<close>)
qed

lemma submitting_keeps:
  assumes "pub_inv sha kind (row_view s)" "wf_records s" "past sha kind S s"
    and source: "read_in S owner name (Some (DefinitionRow source, e))" "is_definition source owner kind name"
    and head: "previous_head old_head previous" "read_in S owner (publication_head_id name) old_head"
      "head = submitted_head owner tenant name kind asset source previous"
    and budget: "budget_room budget = Some count" "read_in S owner BUDGET_ID budget"
    and version: "seal_version sha (draft_version owner tenant kind (hed_assetId head) number source source_digest
          rq c submitted policy) = Inr v" "submit_ok rq" "sbm_reviewerUserId rq \<noteq> Some owner"
    and batch: "rec_atomic s owner
          [(name, Some (DefinitionRow source, e)), (publication_head_id name, old_head), (ver_id v, None), (BUDGET_ID, budget)]
          [(publication_head_id name, Some (HeadRow (pending_head head same number rq))),
           (ver_id v, Some (VersionRow v)), (BUDGET_ID, Some (BudgetRow owner (JInt (count + 1)) PUBLICATION_BUDGET_KIND))]
        = Inr (True, s')"
  shows "pub_inv sha kind (row_view s') \<and> wf_records s' \<and> later_records s s'"
proof -
  from seal_version_fields [OF version(1)] obtain d where
    v: "version_digest sha (draft_version owner tenant kind (hed_assetId head) number source source_digest rq c submitted policy) = Inr d"
      "v = (draft_version owner tenant kind (hed_assetId head) number source source_digest rq c submitted policy)\<lparr>ver_digest := d\<rparr>"
    by blast
  then have i: "ver_id v = version_id (hed_assetId head) number" by (simp add: draft_version_def)
  have "version_digest sha v = Inr (ver_digest v)" using v(1) by (simp add: v(2))
  then have sound: "row_sound sha kind V (VersionRow v)" for V
    using version(2,3) by (simp add: draft_version_def submit_ok_def v(2))
  have "row_view s (owner, publication_head_id name) = Some (HeadRow p)" if "previous = Some p" for p
    using past_current [OF assms(3) batch head(2)] head(1) that by (auto simp: previous_head_def load_head_Inr row_view_def)
  then have old: "row_sound sha kind (row_view s) (HeadRow p)" if "previous = Some p" for p
    using pub_invD(3) [OF assms(1)] that by blast
  have new: "row_sound sha kind (row_view s') (HeadRow (pending_head head same number rq))"
    if kept: "keeps_permanent (row_view s) (row_view s')"
  proof (cases "continues_head source previous")
    case True
    then obtain p where p: "previous = Some p" by (auto simp: continues_head_def split: option.splits)
    with True have "head = p" by (simp add: head(3) submitted_head_def)
    then show ?thesis
      by (intro head_sound_same [OF old [OF p] kept]) (simp_all add: pending_head_def publication_audience.defs)
  next
    case False
    then show ?thesis by (simp add: head(3) submitted_head_def pending_head_def fresh_head_def)
  qed
  show ?thesis
  proof (rule past_batch [OF assms(1-3) batch])
    show "distinct (map fst [(name, Some (DefinitionRow source, e)), (publication_head_id name, old_head), (ver_id v, None), (BUDGET_ID, budget)])"
      using names_apart [of name] is_definition_name [OF source(2)] by (simp add: i)
    show "before = None \<or> read_in S owner i before \<and> \<not> permanent (fst (the before))"
      if "(i, before) \<in> set [(name, Some (DefinitionRow source, e)), (publication_head_id name, old_head), (ver_id v, None), (BUDGET_ID, budget)]"
      for i before
      using that source(1) head(1,2) budget budget_room_row [OF budget(1)]
      by (auto simp: previous_head_def load_head_Inr split: option.splits)
  qed (use new sound in \<open>auto split: if_splits\<close>)
qed

lemma pub_batch_keeps:
  assumes "pub_batch sha kind S s s'" "pub_inv sha kind (row_view s)" "wf_records s" "past sha kind S s"
  shows "pub_inv sha kind (row_view s') \<and> wf_records s' \<and> later_records s s'"
  using assms(1)
proof cases
  case submitting
  then show ?thesis by (intro submitting_keeps [OF assms(2-4)])
next
  case reviewing
  then show ?thesis by (intro reviewing_keeps [OF assms(2-4)])
next
  case activating
  then show ?thesis by (intro activating_keeps [OF assms(2-4)]) auto
next
  case withdrawing
  then show ?thesis by (intro withdrawing_keeps [OF assms(2-4)])
qed

end
