(* ===== verification/Publish_Worlds.thy ===== *)
theory Publish_Worlds
  imports Publish_Safety
begin

text \<open>
  Worlds in which the store of a kind changes by the calls of the publication service and of the
  definition stores alone: \<open>written\<close> names the call that made the change of a moment. A call may have
  run alongside any others: what it saw of the world is the world at moments in order. In all of the
  stores of such a world the invariant holds, and each follows from those before it.
\<close>

section \<open>Definitions\<close>

lemma row_at_name:
  assumes "pub_inv sha kind (row_view s)" "row_view s (owner, name) = Some row" "name_ok name"
  shows "\<not> permanent row"
proof
  assume "permanent row"
  moreover note pub_invD [OF assms(1,2)]
  ultimately show False using names_apart [OF assms(3)] by (cases row) auto
qed

lemma replace_keeps:
  assumes "pub_inv sha kind (row_view s)" "wf_records s" "past sha kind S s"
    and "is_definition body (src_user body) kind (src_id body)" "t \<in> S"
    and batch: "replace_definition t s body expected_revision create = Inr (ok, s')"
  shows "pub_inv sha kind (row_view s') \<and> wf_records s' \<and> later_records s s'"
proof (cases ok)
  case False
  with batch assms(1,2) show ?thesis
    by (auto simp: replace_definition_def rec_atomic_def Let_def split: if_splits)
next
  case True
  from batch True have atomic: "rec_atomic s (src_user body) [(src_id body, rec_read t (src_user body) (src_id body))]
      [(src_id body, Some (DefinitionRow body))] = Inr (True, s')"
    and old: "rec_read t (src_user body) (src_id body) = None
      \<or> (\<exists>d e. rec_read t (src_user body) (src_id body) = Some (DefinitionRow d, e))"
    by (auto simp: replace_definition_def Let_def split: if_splits option.splits pub_row.splits)
  show ?thesis
    by (rule past_batch [OF assms(1-3) atomic]) (use old assms(5) in \<open>auto simp: read_in_def split: if_splits\<close>)
qed

lemma delete_keeps:
  assumes "pub_inv sha kind (row_view s)" "wf_records s" "past sha kind S s"
    and "name_ok name" "t \<in> S" "t' \<in> S"
    and batch: "delete_definition t t' s owner name = Inr (ok, s')"
  shows "pub_inv sha kind (row_view s') \<and> wf_records s' \<and> later_records s s'"
proof (cases "rec_read t owner name = None \<or> \<not> ok")
  case True
  with batch assms(1,2) show ?thesis
    by (auto simp: delete_definition_def rec_atomic_def Let_def split: if_splits option.splits pub_row.splits)
next
  case False
  then obtain row e where r: "rec_read t owner name = Some (row, e)" by auto
  then have lasting: "\<not> permanent row"
    using row_at_name [of sha kind t owner name row] assms(3-5) by (auto simp: past_def row_view_Some)
  show ?thesis
  proof (cases "rec_read t' owner (publication_head_id name)")
    case None
    with batch False r have "rec_atomic s owner [(name, Some (row, e))] [(name, None)] = Inr (True, s')"
      by (auto simp: delete_definition_def)
    then show ?thesis
      by (rule past_batch [OF assms(1-3)]) (use r lasting assms(5) in \<open>auto simp: read_in_def split: if_splits\<close>)
  next
    case (Some hr)
    with batch False r obtain h e' where h: "rec_read t' owner (publication_head_id name) = Some (HeadRow h, e')"
      and atomic: "rec_atomic s owner [(name, Some (row, e)), (publication_head_id name, Some (HeadRow h, e'))]
          [(name, None), (publication_head_id name, Some (HeadRow (closed_head h)))] = Inr (True, s')"
      by (auto simp: delete_definition_def Let_def split: pub_row.splits prod.splits)
    have "read_in S owner (publication_head_id name) (Some (HeadRow h, e'))"
      using h assms(6) by (auto simp: read_in_def)
    from past_row [OF assms(3) this] have "hed_kind h = kind" by auto
    then show ?thesis
      by (intro past_batch [OF assms(1-3) atomic])
         (use r h lasting assms(5,6) names_apart [OF assms(4)] in \<open>auto simp: read_in_def closed_head_def split: if_splits\<close>)
  qed
qed

lemma put_keeps:
  assumes "pub_inv sha kind (row_view s)" "wf_records s"
    and "is_definition body owner kind (src_id body)" "rec_put s owner (DefinitionRow body) = Inr s'"
  shows "pub_inv sha kind (row_view s') \<and> wf_records s' \<and> later_records s s'"
proof -
  let ?i = "src_id body"
  from assms(4) have s': "s' = put_row owner ?i (DefinitionRow body) s" "src_user body = owner"
    by (auto simp: rec_put_def split: if_splits)
  have name: "name_ok ?i" using is_definition_name [OF assms(3)] by blast
  have view: "row_view s' k = (if k = (owner, ?i) then Some (DefinitionRow body) else row_view s k)" for k
    by (cases k) (auto simp: row_view_def s' read_put_row)
  have kept: "keeps_permanent (row_view s) (row_view s')"
    using row_at_name [OF assms(1) _ name] by (auto simp: keeps_permanent_def view)
  have "pub_inv sha kind (row_view s')"
    unfolding pub_inv_def view
    using row_sound_kept [OF pub_invD(3) [OF assms(1)] kept] pub_invD(1,2) [OF assms(1)] s'(2)
    by (auto simp: view [abs_def] split: if_splits)
  moreover have "later_records s s'"
    unfolding later_records_def
  proof (intro conjI allI impI)
    fix k row e assume k: "map_of (pst_items s) k = Some (row, e) \<and> permanent row"
    obtain o' i where [simp]: "k = (o', i)" by fastforce
    from k have "row_view s (o', i) = Some row" by (auto simp: row_view_Some rec_read_def)
    with k kept have "row_view s' (o', i) = Some row" by (auto simp: keeps_permanent_def)
    then show "\<exists>e'. map_of (pst_items s') k = Some (row, e')" by (auto simp: row_view_Some rec_read_def)
  qed (auto simp: s' put_row_def map_of_update split: if_splits)
  ultimately show ?thesis using assms(2) by (simp add: s' wf_put_row)
qed

section \<open>Worlds\<close>

inductive written :: "(string \<Rightarrow> string) \<Rightarrow> asset_kind \<Rightarrow> pub_world \<Rightarrow> nat \<Rightarrow> bool"
  for sha kind w i where
  by_none: "records_of kind (w (Suc i)) = records_of kind (w i) \<Longrightarrow> written sha kind w i"
| by_submit: "mono f \<Longrightarrow> f m = i \<Longrightarrow> submit_ok rq
    \<Longrightarrow> submit_publication sha actor kind name rq (w \<circ> f) n = (Inr (h, records_of kind (w (Suc i))), Suc m) \<Longrightarrow> written sha kind w i"
| by_review: "mono f \<Longrightarrow> f m = i \<Longrightarrow> ref_kind (rvq_source rr) = kind
    \<Longrightarrow> decide_review sha actor rr operator (w \<circ> f) n = (Inr (h, records_of kind (w (Suc i))), Suc m) \<Longrightarrow> written sha kind w i"
| by_activate: "mono f \<Longrightarrow> f m = i
    \<Longrightarrow> activate_publication sha actor kind name ar (w \<circ> f) n = (Inr (h, records_of kind (w (Suc i))), Suc m) \<Longrightarrow> written sha kind w i"
| by_withdraw: "mono f \<Longrightarrow> f m = i
    \<Longrightarrow> withdraw_publication actor kind name revision (w \<circ> f) n = (Inr (h, records_of kind (w (Suc i))), Suc m) \<Longrightarrow> written sha kind w i"
| by_replace: "j \<le> i \<Longrightarrow> is_definition body (src_user body) kind (src_id body)
    \<Longrightarrow> replace_definition (records_of kind (w j)) (records_of kind (w i)) body expected_revision create
          = Inr (ok, records_of kind (w (Suc i))) \<Longrightarrow> written sha kind w i"
| by_put: "is_definition body owner kind (src_id body)
    \<Longrightarrow> rec_put (records_of kind (w i)) owner (DefinitionRow body) = Inr (records_of kind (w (Suc i))) \<Longrightarrow> written sha kind w i"
| by_delete: "j \<le> i \<Longrightarrow> j' \<le> i \<Longrightarrow> name_ok name
    \<Longrightarrow> delete_definition (records_of kind (w j)) (records_of kind (w j')) (records_of kind (w i)) owner name
          = Inr (ok, records_of kind (w (Suc i))) \<Longrightarrow> written sha kind w i"

definition lawful :: "(string \<Rightarrow> string) \<Rightarrow> asset_kind \<Rightarrow> pub_world \<Rightarrow> bool" where
  "lawful sha kind w \<longleftrightarrow> records_of kind (w 0) = new_records \<and> (\<forall>i. written sha kind w i)"

lemma stores_through:
  assumes "mono f" "past sha kind (stores w kind (f m)) s"
  shows "past sha kind (stores (w \<circ> f) kind m) s"
proof -
  have "stores (w \<circ> f) kind m \<subseteq> stores w kind (f m)"
    using monoD [OF assms(1)] by (auto simp: stores_def)
  with assms(2) show ?thesis unfolding past_def by blast
qed

lemma written_keeps:
  assumes "written sha kind w i" "past sha kind (stores w kind i) (records_of kind (w i))"
  shows "pub_inv sha kind (row_view (records_of kind (w (Suc i)))) \<and> wf_records (records_of kind (w (Suc i)))
    \<and> later_records (records_of kind (w i)) (records_of kind (w (Suc i)))"
proof -
  have inv: "pub_inv sha kind (row_view (records_of kind (w i)))" "wf_records (records_of kind (w i))"
    using assms(2) by (auto simp: past_def stores_def)
  have at: "records_of kind (w j) \<in> stores w kind i" if "j \<le> i" for j using that by (auto simp: stores_def)
  from assms(1) show ?thesis
  proof cases
    case by_none
    then show ?thesis using inv by simp
  next
    case (by_submit f m rq actor name n h)
    with pub_batch_keeps [OF submit_batch [OF by_submit(4,3)]] stores_through [OF by_submit(1), of sha kind w m] inv assms(2)
    show ?thesis by simp
  next
    case (by_review f m rr actor operator n h)
    with pub_batch_keeps [OF review_batch [OF by_review(4)]] stores_through [OF by_review(1), of sha kind w m] inv assms(2)
    show ?thesis by simp
  next
    case (by_activate f m actor name ar n h)
    with pub_batch_keeps [OF activate_batch [OF by_activate(3)]] stores_through [OF by_activate(1), of sha kind w m] inv assms(2)
    show ?thesis by simp
  next
    case (by_withdraw f m actor name revision n h)
    with pub_batch_keeps [OF withdraw_batch [OF by_withdraw(3)]] stores_through [OF by_withdraw(1), of sha kind w m] inv assms(2)
    show ?thesis by simp
  next
    case (by_replace j body expected_revision create ok)
    show ?thesis by (rule replace_keeps [OF inv assms(2) by_replace(2) at [OF by_replace(1)] by_replace(3)])
  next
    case (by_put body owner)
    then show ?thesis by (intro put_keeps [OF inv])
  next
    case (by_delete j j' name owner ok)
    show ?thesis by (rule delete_keeps [OF inv assms(2) by_delete(3) at [OF by_delete(1)] at [OF by_delete(2)] by_delete(4)])
  qed
qed

lemma new_records_inv: "pub_inv sha kind (row_view new_records)" "wf_records new_records"
  by (simp_all add: pub_inv_def row_view_def rec_read_def new_records_def wf_records_def)

lemma lawful_past:
  assumes "lawful sha kind w"
  shows "past sha kind (stores w kind i) (records_of kind (w i))"
proof (induction i)
  case 0
  from assms show ?case using new_records_inv by (simp add: past_def stores_def lawful_def)
next
  case (Suc i)
  from assms have "written sha kind w i" by (simp add: lawful_def)
  from written_keeps [OF this Suc] have new: "pub_inv sha kind (row_view (records_of kind (w (Suc i))))"
    "wf_records (records_of kind (w (Suc i)))" "later_records (records_of kind (w i)) (records_of kind (w (Suc i)))" by auto
  show ?case
    unfolding past_def
  proof
    fix t assume "t \<in> stores w kind (Suc i)"
    then obtain j where j: "j \<le> Suc i" "t = records_of kind (w j)" by (auto simp: stores_def)
    show "wf_records t \<and> later_records t (records_of kind (w (Suc i))) \<and> pub_inv sha kind (row_view t)"
    proof (cases "j = Suc i")
      case True
      with j(2) new show ?thesis by simp
    next
      case False
      with j have "t \<in> stores w kind i" by (auto simp: stores_def)
      with Suc have "wf_records t" "later_records t (records_of kind (w i))" "pub_inv sha kind (row_view t)" by (auto simp: past_def)
      with later_records_trans new(3) show ?thesis by blast
    qed
  qed
qed

lemma lawful_inv:
  assumes "lawful sha kind w"
  shows "pub_inv sha kind (row_view (records_of kind (w i)))" "wf_records (records_of kind (w i))"
    and "j \<le> i \<Longrightarrow> later_records (records_of kind (w j)) (records_of kind (w i))"
  using lawful_past [OF assms, of i] by (auto simp: past_def stores_def)

end
