(* ===== verification/Publish_Resolve.thy ===== *)
theory Publish_Resolve
  imports Publish_Worlds
begin

text \<open>
  What a resolution has seen: \<open>offered\<close> says that within a span of moments a version was read whole, its
  head was active on exactly it and open to the actor, its approval was read whole, and the policy
  admitted the actor; \<open>vouched\<close> that this holds of everything the version depends on, to any depth. And
  what a run has bound: \<open>run_sound\<close>, with what its requests are held against.
\<close>

section \<open>Resolutions\<close>

definition seen_within :: "nat \<Rightarrow> nat \<Rightarrow> (nat \<Rightarrow> bool) \<Rightarrow> bool" where
  "seen_within lo hi P \<longleftrightarrow> (\<exists>a. lo \<le> a \<and> a \<le> hi \<and> P a)"

lemma seen_withinI: "P a \<Longrightarrow> lo \<le> a \<Longrightarrow> a \<le> hi \<Longrightarrow> seen_within lo hi P"
  by (auto simp: seen_within_def)

lemma seen_within_wider: "seen_within lo hi P \<Longrightarrow> lo' \<le> lo \<Longrightarrow> hi \<le> hi' \<Longrightarrow> seen_within lo' hi' P"
  unfolding seen_within_def by (meson le_trans)

definition reads_at :: "pub_world \<Rightarrow> asset_ref \<Rightarrow> string \<Rightarrow> pub_row \<Rightarrow> nat \<Rightarrow> bool" where
  "reads_at w ref i row a \<longleftrightarrow> (\<exists>e. rec_read (records_of (ref_kind ref) (w a)) (ref_ownerId ref) i = Some (row, e))"

definition open_to :: "effective_policy \<Rightarrow> asset_ref \<Rightarrow> publication_version \<Rightarrow> publication_head \<Rightarrow> bool" where
  "open_to actor ref v h \<longleftrightarrow> hed_assetId h = ref_assetId ref \<and> hed_activeVersion h = Some (ref_version ref) \<and> \<not> hed_deleted h
     \<and> hed_tenantId h = ver_tenantId v
     \<and> (\<exists>tenant. tenant_of actor = Inr tenant \<and> head_visible actor (email_of actor) tenant h)"

definition consumes :: "effective_policy \<Rightarrow> pub_world \<Rightarrow> nat \<Rightarrow> bool" where
  "consumes actor w a \<longleftrightarrow> (\<exists>p d. ep_user p = ep_user actor \<and> ep_owner_id p = ep_owner_id actor
     \<and> authorize_policy (\<lambda>i. pmt_host (w (Suc a + i))) p (pub_request OpConsume) = Inr d \<and> pd_allowed d)"

definition whole :: "(string \<Rightarrow> string) \<Rightarrow> asset_ref \<Rightarrow> publication_version \<Rightarrow> review_decision \<Rightarrow> bool" where
  "whole sha ref v r \<longleftrightarrow> version_reference v = ref \<and> version_digest sha v = Inr (ref_digest ref) \<and> src_user (ver_source v) = ref_ownerId ref
     \<and> rvw_source r = ref \<and> rvw_decision r = ReviewApproved \<and> rvw_reviewerId r \<noteq> ref_ownerId ref
     \<and> rvw_tenantId r = ver_tenantId v \<and> review_digest sha r = Inr (rvw_digest r)"

definition offered ::
  "(string \<Rightarrow> string) \<Rightarrow> effective_policy \<Rightarrow> pub_world \<Rightarrow> nat \<Rightarrow> nat \<Rightarrow> asset_ref \<Rightarrow> publication_version \<Rightarrow> review_decision \<Rightarrow> bool" where
  "offered sha actor w lo hi ref v r \<longleftrightarrow> whole sha ref v r
     \<and> seen_within lo hi (reads_at w ref (version_id (ref_assetId ref) (ref_version ref)) (VersionRow v))
     \<and> seen_within lo hi (reads_at w ref (review_id (ref_assetId ref) (ref_version ref)) (ReviewRow r))
     \<and> (\<exists>h. open_to actor ref v h \<and> seen_within lo hi (reads_at w ref (publication_head_id (src_name (ver_source v))) (HeadRow h)))
     \<and> seen_within lo hi (consumes actor w)"

definition published_children :: "publication_version \<Rightarrow> asset_ref set" where
  "published_children v = {ref. \<exists>d \<in> set (ver_dependencies v). dpd_source d = PublishedDependency ref}"

definition curated_same :: "(string \<Rightarrow> string) \<Rightarrow> pub_world \<Rightarrow> nat \<Rightarrow> nat \<Rightarrow> publication_version \<Rightarrow> bool" where
  "curated_same sha w lo hi v \<longleftrightarrow> (\<forall>d \<in> set (ver_dependencies v). \<forall>digest. dpd_source d = CuratedDependency digest
     \<longrightarrow> seen_within lo hi (\<lambda>a. \<exists>x. agents_get (pmt_curated (w a)) (dpd_name d) = Some x \<and> agt_enabled x
          \<and> exact_digest sha (curated_json x) = Inr digest))"

inductive vouched :: "(string \<Rightarrow> string) \<Rightarrow> effective_policy \<Rightarrow> pub_world \<Rightarrow> nat \<Rightarrow> nat \<Rightarrow> asset_ref \<Rightarrow> bool"
  for sha actor w lo hi where
  vouched: "offered sha actor w lo hi ref v r \<Longrightarrow> curated_same sha w lo hi v
    \<Longrightarrow> (\<And>child. child \<in> published_children v \<Longrightarrow> vouched sha actor w lo hi child) \<Longrightarrow> vouched sha actor w lo hi ref"

definition same_principal :: "effective_policy \<Rightarrow> effective_policy \<Rightarrow> bool" where
  "same_principal p q \<longleftrightarrow> ep_user p = ep_user q \<and> ep_owner_id p = ep_owner_id q"

lemma principal_facts:
  assumes "same_principal p q"
  shows "open_to p = open_to q" "consumes p = consumes q"
  using assms
  by (auto simp: same_principal_def tenant_of_def email_of_def head_visible_def groups_of_def open_to_def consumes_def fun_eq_iff)

lemma offered_wider:
  assumes "offered sha actor w lo hi ref v r" "lo' \<le> lo" "hi \<le> hi'" "same_principal actor actor'"
  shows "offered sha actor' w lo' hi' ref v r"
  using assms(1) seen_within_wider [OF _ assms(2,3)] unfolding offered_def principal_facts [OF assms(4)] by blast

lemma vouched_wider:
  assumes "vouched sha actor w lo hi ref" "lo' \<le> lo" "hi \<le> hi'" "same_principal actor actor'"
  shows "vouched sha actor' w lo' hi' ref"
  using assms(1)
proof induction
  case (vouched ref v r)
  have "curated_same sha w lo' hi' v"
    using vouched(2) seen_within_wider [OF _ assms(2,3)] unfolding curated_same_def by blast
  from vouched.vouched [OF offered_wider [OF vouched(1) assms(2-4)] this vouched(4)] show ?case .
qed

lemma for_each_answers:
  assumes "for_each f xs w n = (Inr ys, k)" "\<And>x. forward (f x)" "x \<in> set xs"
  shows "\<exists>y a b. n \<le> a \<and> a \<le> b \<and> b \<le> k \<and> f x w a = (Inr y, b)"
  using assms(1,3)
proof (induction xs arbitrary: n ys)
  case (Cons z zs)
  from Cons.prems(1) obtain y zs' j where z: "f z w n = (Inr y, j)" "for_each f zs w j = (Inr zs', k)"
    by (auto simp: task_simps)
  have j: "n \<le> j" "j \<le> k"
    using forwardD [OF assms(2) z(1)] forwardD [OF forward_for_each [of f, OF assms(2)] z(2)] by auto
  show ?case
  proof (cases "x = z")
    case True
    with z(1) j show ?thesis by blast
  next
    case False
    with Cons.IH [OF z(2)] Cons.prems(2) j(1) show ?thesis by (auto intro: le_trans)
  qed
qed simp

text \<open>The answer of a resolution, one level at a time.\<close>

lemma curated_answer:
  "curated_unchanged sha agents name digest True = Inr x \<Longrightarrow>
    agents_get agents name = Some x \<and> agt_enabled x \<and> exact_digest sha (curated_json x) = Inr digest"
  by (auto simp: curated_unchanged_def bindE_Inr_iff split: option.splits if_splits)

lemma resolve_body_answer:
  assumes "resolve_body sha again actor ref mode w n = (Inr r, k)" "\<And>c m. forward (again c m)" "seen_within lo k (consumes actor w)" "lo \<le> n"
  shows "n \<le> k \<and> offered sha actor w lo k ref (rsp_version r) (rsp_approval r) \<and> mode \<in> fst ` set (ver_profiles (rsp_version r))
    \<and> curated_same sha w lo k (rsp_version r)
    \<and> (\<forall>child \<in> published_children (rsp_version r). \<exists>m y a b. n \<le> a \<and> b \<le> k \<and> again child m w a = (Inr y, b))"
proof -
  let ?each = "\<lambda>d. case dpd_source d of
      PublishedDependency child \<Rightarrow> bindT (again child (child_mode (ref_kind ref))) (\<lambda>_. done_with (Inr ()))
    | CuratedDependency digest \<Rightarrow> at_once (\<lambda>m. bindE (curated_unchanged sha (pmt_curated m) (dpd_name d) digest True) (\<lambda>_. Inr ()))"
  have each: "forward (?each d)" for d
    by (auto intro!: forward_intros assms(2) split: dependency_source.splits)
  from assms(1) obtain v j h before source j' review j'' ys tenant where
    v: "get_version sha ref w n = (Inr v, j)"
    and h: "load_head (rec_read (records_of (ref_kind ref) (w j)) (ref_ownerId ref) (publication_head_id (src_name (ver_source v)))) = Inr h"
    and ok: "\<not> hed_deleted h" "hed_assetId h = ref_assetId ref" "hed_activeVersion h = Some (ref_version ref)" "ver_tenantId v = hed_tenantId h"
      "tenant_of actor = Inr tenant" "head_visible actor (email_of actor) tenant h"
    and source: "get_definition (ref_ownerId ref) (ref_kind ref) (src_name (ver_source v)) w (Suc j) = (Inr (before, source), j')"
    and mode: "mode \<in> fst ` set (ver_profiles v)"
    and review: "get_review sha ref w j' = (Inr review, j'')" "rvw_decision review = ReviewApproved" "rvw_tenantId review = ver_tenantId v"
    and deps: "for_each ?each (ver_dependencies v) w j'' = (Inr ys, k)"
    and r: "r = \<lparr>rsp_version = v, rsp_approval = review, rsp_headRevision = hed_revision h\<rparr>"
    unfolding resolve_body_def
    by (elim bindT_pairE bindT_InrE) (auto simp: task_simps ensure_def split: if_splits)
  have times: "j = Suc n" "j' = Suc (Suc j)" "j'' = Suc j'"
    using version_answer [OF v] definition_answer [OF source] review_answer [OF review(1)] by auto
  from forwardD [OF forward_for_each [of ?each, OF each] deps] have k: "j'' \<le> k" .
  from version_answer [OF v] have vs: "reads_at w ref (version_id (ref_assetId ref) (ref_version ref)) (VersionRow v) n"
    "version_reference v = ref" "version_digest sha v = Inr (ref_digest ref)" "src_user (ver_source v) = ref_ownerId ref"
    by (auto simp: reads_at_def)
  from review_answer [OF review(1)] have rs: "reads_at w ref (review_id (ref_assetId ref) (ref_version ref)) (ReviewRow review) j'"
    "rvw_source review = ref" "rvw_reviewerId review \<noteq> ref_ownerId ref" "review_digest sha review = Inr (rvw_digest review)"
    by (auto simp: reads_at_def)
  from h have hs: "reads_at w ref (publication_head_id (src_name (ver_source v))) (HeadRow h) j"
    by (auto simp: reads_at_def load_head_Inr)
  have "open_to actor ref v h" using ok by (auto simp: open_to_def)
  moreover have "whole sha ref v review" using vs rs review by (simp add: whole_def)
  moreover have "seen_within lo k (reads_at w ref (version_id (ref_assetId ref) (ref_version ref)) (VersionRow v))"
    by (rule seen_withinI [where a = n]) (use vs(1) assms(4) k times in auto)
  moreover have "seen_within lo k (reads_at w ref (review_id (ref_assetId ref) (ref_version ref)) (ReviewRow review))"
    by (rule seen_withinI [where a = j']) (use rs(1) assms(4) k times in auto)
  moreover have "seen_within lo k (reads_at w ref (publication_head_id (src_name (ver_source v))) (HeadRow h))"
    by (rule seen_withinI [where a = j]) (use hs assms(4) k times in auto)
  ultimately have "offered sha actor w lo k ref v review"
    using assms(3) unfolding offered_def by blast
  moreover have "curated_same sha w lo k v"
    unfolding curated_same_def
  proof (intro ballI allI impI)
    fix d digest assume d: "d \<in> set (ver_dependencies v)" "dpd_source d = CuratedDependency digest"
    from for_each_answers [OF deps each d(1)] obtain y a b where "j'' \<le> a" "a \<le> b" "b \<le> k" "?each d w a = (Inr y, b)"
      by blast
    with d(2) assms(4) times show "seen_within lo k (\<lambda>a. \<exists>x. agents_get (pmt_curated (w a)) (dpd_name d) = Some x \<and> agt_enabled x
          \<and> exact_digest sha (curated_json x) = Inr digest)"
      by (auto simp: task_simps bindE_Inr_iff dest!: curated_answer intro!: seen_withinI [of _ a])
  qed
  moreover have "\<exists>m y a b. n \<le> a \<and> b \<le> k \<and> again child m w a = (Inr y, b)" if "child \<in> published_children v" for child
  proof -
    from that obtain d where d: "d \<in> set (ver_dependencies v)" "dpd_source d = PublishedDependency child"
      by (auto simp: published_children_def)
    from for_each_answers [OF deps each d(1)] obtain y a b where ab: "j'' \<le> a" "b \<le> k" "?each d w a = (Inr y, b)"
      by blast
    from ab(3) d(2) obtain y' where "again child (child_mode (ref_kind ref)) w a = (Inr y', b)"
      by (auto simp: task_simps)
    moreover have "n \<le> a" using ab(1) times by simp
    ultimately show ?thesis using ab(2) by blast
  qed
  ultimately show ?thesis using k times mode by (simp add: r)
qed

lemma resolve_level_answer:
  assumes "resolve_level d sha seen actor ref mode w n = (Inr r, k)"
  shows "offered sha actor w n k ref (rsp_version r) (rsp_approval r) \<and> mode \<in> fst ` set (ver_profiles (rsp_version r))
    \<and> vouched sha actor w n k ref"
  using assms
proof (induction d arbitrary: seen actor ref mode n r k)
  case 0
  then show ?case by (auto simp: task_simps)
next
  case (Suc d)
  from Suc.prems obtain fresh j where fresh: "pub_actor actor (Some OpConsume) w n = (Inr fresh, j)"
    and body: "resolve_body sha (\<lambda>child m. resolve_level d sha (resolve_marker ref # seen) fresh child m) fresh ref mode w j = (Inr r, k)"
    by (auto simp: task_simps split: if_splits)
  from actor_answer [OF fresh] have same: "same_principal fresh actor" "n \<le> j" and c: "consumes fresh w n"
    by (auto simp: same_principal_def consumes_def)
  have "j \<le> k" using forwardD [OF forward_resolve_body body] forward_resolve_level by blast
  with c same(2) have "seen_within n k (consumes fresh w)" by (intro seen_withinI [where a = n]) auto
  from resolve_body_answer [OF body forward_resolve_level this same(2)]
  have a: "offered sha fresh w n k ref (rsp_version r) (rsp_approval r)" "mode \<in> fst ` set (ver_profiles (rsp_version r))"
    "curated_same sha w n k (rsp_version r)"
    and children: "\<forall>child \<in> published_children (rsp_version r). \<exists>m y a b. j \<le> a \<and> b \<le> k
      \<and> resolve_level d sha (resolve_marker ref # seen) fresh child m w a = (Inr y, b)" by blast+
  have "vouched sha fresh w n k child" if child: "child \<in> published_children (rsp_version r)" for child
  proof -
    from children child obtain m y a b where ab: "j \<le> a" "b \<le> k"
      "resolve_level d sha (resolve_marker ref # seen) fresh child m w a = (Inr y, b)" by blast
    from Suc.IH [OF ab(3)] have "vouched sha fresh w a b child" by blast
    then show ?thesis by (rule vouched_wider) (use ab same in \<open>auto simp: same_principal_def\<close>)
  qed
  with a(1,3) have "vouched sha fresh w n k ref" by (rule vouched.vouched)
  with offered_wider [OF a(1) _ _ same(1)] vouched_wider [OF _ _ _ same(1)] a(2) show ?case by blast
qed

end
