(* ===== verification/Publish_Runs.thy ===== *)
theory Publish_Runs
  imports Publish_Resolve
begin

text \<open>What a run of a published version rests on when it has bound its offer, and what its requests are held against.\<close>

section \<open>Subsets\<close>

definition missing :: "bundle_requirements \<Rightarrow> (string, string) dict \<Rightarrow> string set" where
  "missing req contracts = fst ` set (req_optional req) - fst ` set contracts"

definition excused :: "bundle_requirements \<Rightarrow> narrowing_reason set \<Rightarrow> string \<Rightarrow> narrowing_reason set" where
  "excused req supported name = (case map_of (req_optional req) name of None \<Rightarrow> {} | Some rs \<Rightarrow> set rs \<inter> supported)"

lemma narrowing_reasons: "set [EmptyDocumentScope, RequestToolsDisabled] = UNIV"
  using narrowing_reason.exhaust by auto

lemma narrow_answer:
  "narrow req supported names ns = Inr ns' \<Longrightarrow>
    (\<forall>name \<in> set names. excused req supported name \<noteq> {}) \<and> set ns' = set ns \<union> (\<Union>name \<in> set names. excused req supported name)"
proof (induction req supported names ns rule: narrow.induct)
  case (2 req supported name names ns)
  let ?r = "excused req supported name"
  from 2(2) have r: "?r \<noteq> {}"
    and rest: "narrow req supported names (ns @ filter (\<lambda>r. r \<in> ?r \<and> r \<notin> set ns) [EmptyDocumentScope, RequestToolsDisabled]) = Inr ns'"
    by (simp_all only: narrow.simps Let_def excused_def [symmetric] split: if_splits) (simp_all add: excused_def)
  have "set (ns @ filter (\<lambda>r. r \<in> ?r \<and> r \<notin> set ns) [EmptyDocumentScope, RequestToolsDisabled]) = set ns \<union> ?r"
    by (simp only: set_append set_filter narrowing_reasons) blast
  with 2(1) r rest show ?case by (simp only: excused_def) auto
qed simp

lemma subset_answer:
  assumes "validate_subset sha profile scope contracts no_documents no_tools = Inr sb"
  shows "\<exists>req. map_of (bdl_requirements profile) scope = Some req
    \<and> set (req_required req) \<subseteq> fst ` set contracts \<and> fst ` set contracts \<subseteq> set (req_required req) \<union> fst ` set (req_optional req)
    \<and> (\<forall>(name, d) \<in> set contracts. reviewed_contract profile name = Some d)
    \<and> (\<forall>name \<in> missing req contracts. excused req (supported_reasons no_documents no_tools) name \<noteq> {})
    \<and> set (sub_narrowing sb) = (\<Union>name \<in> missing req contracts. excused req (supported_reasons no_documents no_tools) name)
    \<and> sub_contracts sb = contracts \<and> sub_scope sb = scope \<and> sub_profileDigest sb = bdl_digest profile"
proof -
  from assms obtain req ns d where req: "map_of (bdl_requirements profile) scope = Some req"
    "set (map fst contracts) \<subseteq> set (req_required req) \<union> set (map fst (req_optional req))"
    "list_all (\<lambda>(name, d). reviewed_contract profile name = Some d) contracts"
    "set (req_required req) \<subseteq> set (map fst contracts)"
    and ns: "narrow req (supported_reasons no_documents no_tools) (sort (filter (\<lambda>name. name \<notin> set (map fst contracts)) (map fst (req_optional req)))) []
        = Inr ns"
    and sb: "sb = \<lparr>sub_profileDigest = bdl_digest profile, sub_effectiveDigest = d, sub_scope = scope, sub_contracts = contracts,
        sub_narrowing = ns, sub_skillsExcluded = bdl_skillsExcluded profile\<rparr>"
    by (auto simp: validate_subset_def bindE_Inr_iff split: option.splits if_splits)
  have "set (sort (filter (\<lambda>name. name \<notin> set (map fst contracts)) (map fst (req_optional req)))) = missing req contracts"
    by (auto simp: missing_def)
  from narrow_answer [OF ns, unfolded this]
  have "\<forall>name \<in> missing req contracts. excused req (supported_reasons no_documents no_tools) name \<noteq> {}"
    "set ns = (\<Union>name \<in> missing req contracts. excused req (supported_reasons no_documents no_tools) name)"
    by (blast, simp)
  with req show ?thesis
    by (intro exI [of _ req]) (simp add: sb list_all_iff)
qed

section \<open>Runs\<close>

lemma recheck_answer:
  assumes "recheck_execution sha actor ref mode implemented model_id deployment w n = (Inr u, k)"
  shows "\<exists>r j. resolve_for_execution sha actor ref mode w n = (Inr r, j) \<and> j \<le> k"
proof -
  obtain d where depth: "MAX_RESOLVING = Suc d" by (simp add: MAX_RESOLVING_def numeral_eq_Suc)
  have level: "forward (recheck_level d sha seen actor ref mode implemented model_id deployment)" for d seen ref mode implemented
  proof (induction d arbitrary: seen ref mode implemented)
    case (Suc d)
    then show ?case
      by (auto simp: recheck_body_def intro!: forward_intros split: dependency_source.splits option.splits)
  qed (auto intro!: forward_intros)
  from assms obtain r j where r: "resolve_for_execution sha actor ref mode w n = (Inr r, j)"
    and rest: "(if resolve_marker ref \<in> set [] then done_with (Inl cycle_found)
       else recheck_body sha (\<lambda>child m digest. recheck_level d sha (resolve_marker ref # []) actor child m digest model_id deployment)
         actor ref mode implemented model_id deployment (rsp_version r)) w j = (Inr u, k)"
    unfolding recheck_execution_def depth by (auto simp: bindT_Inr)
  have "forward (recheck_body sha (\<lambda>child m digest. recheck_level d sha (resolve_marker ref # []) actor child m digest model_id deployment)
         actor ref mode implemented model_id deployment (rsp_version r))"
    by (auto simp: recheck_body_def intro!: forward_intros level split: dependency_source.splits option.splits)
  with rest have "j \<le> k" by (auto dest: forwardD)
  with r show ?thesis by blast
qed

lemma forward_scope: "forward (case exe_session_id e of None \<Rightarrow> done_with (Inr ())
    | Some session \<Rightarrow> bindT (await_one (\<lambda>m. pmt_document_scope m (ep_owner_id (exe_actor e)) session)) (\<lambda>scope.
        guardT (scope = exe_document_scope e) (conflict ''publication_document_scope_changed'')))"
  by (auto intro!: forward_intros split: option.split)

lemma verify_answer:
  assumes "verify_execution sha e w n = (Inr (), k)"
  shows "n \<le> k \<and> vouched sha (exe_actor e) w n k (exe_ref e)"
proof -
  from assms obtain u a profile u' j where a: "(case exe_session_id e of None \<Rightarrow> done_with (Inr ())
      | Some session \<Rightarrow> bindT (await_one (\<lambda>m. pmt_document_scope m (ep_owner_id (exe_actor e)) session)) (\<lambda>scope.
          guardT (scope = exe_document_scope e) (conflict ''publication_document_scope_changed''))) w n = (Inr u, a)"
    and "exe_bundle e = Inr profile"
    and r: "recheck_execution sha (exe_actor e) (exe_ref e) (exe_mode e) (bdl_digest profile) (exe_model_id e) (exe_deployment e) w a = (Inr u', j)"
    and rest: "(case map_of (bdl_requirements profile) (exe_scope e) of
         None \<Rightarrow> done_with (Inr ())
       | Some req \<Rightarrow> bindT (for_each (require_tool (exe_actor e))
           (filter (\<lambda>t. ptl_alias t \<in> set (req_required req)) (bdl_tools profile))) (\<lambda>_. done_with (Inr ()))) w j = (Inr (), k)"
    unfolding verify_execution_def bindT_Inr done_with_Inr by blast
  have "forward (case map_of (bdl_requirements profile) (exe_scope e) of
         None \<Rightarrow> done_with (Inr ())
       | Some req \<Rightarrow> bindT (for_each (require_tool (exe_actor e))
           (filter (\<lambda>t. ptl_alias t \<in> set (req_required req)) (bdl_tools profile))) (\<lambda>_. done_with (Inr ())))"
    by (auto simp: require_tool_def intro!: forward_intros split: option.split)
  with rest have "j \<le> k" by (rule forwardD [rotated])
  moreover have "n \<le> a" using forwardD [OF forward_scope a] .
  moreover from recheck_answer [OF r] obtain rs b where b: "resolve_for_execution sha (exe_actor e) (exe_ref e) (exe_mode e) w a = (Inr rs, b)" "b \<le> j"
    by blast
  moreover have "a \<le> b" using forwardD [OF forward_resolve b(1)] .
  moreover have "vouched sha (exe_actor e) w a b (exe_ref e)"
    using resolve_level_answer b(1) unfolding resolve_for_execution_def by blast
  ultimately show ?thesis by (auto intro: vouched_wider simp: same_principal_def)
qed

lemma observe_answer:
  assumes "observe_offers sha contracts names e w n = (Inr e', k)"
  shows "set names = fst ` set contracts \<and> vouched sha (exe_actor e) w n k (exe_ref e)
    \<and> (\<exists>profile sb. exe_bundle e = Inr profile \<and> e' = e\<lparr>exe_actual := Some sb\<rparr>
        \<and> validate_subset sha profile (exe_scope e) contracts (exe_document_scope e = Some []) (exe_tools_disabled e) = Inr sb)"
proof -
  from assms obtain sb where o: "set names = fst ` set contracts" and v: "verify_execution sha e w n = (Inr (), k)"
    and sb: "execution_subset sha e contracts = Inr sb" "e' = e\<lparr>exe_actual := Some sb\<rparr>"
    by (auto simp: observe_offers_def task_simps)
  from sb(1) obtain profile where "exe_bundle e = Inr profile"
    "validate_subset sha profile (exe_scope e) contracts (exe_document_scope e = Some []) (exe_tools_disabled e) = Inr sb"
    by (auto simp: execution_subset_def bindE_Inr_iff)
  with o verify_answer [OF v] sb(2) show ?thesis by blast
qed

lemma bundle_answer:
  "exe_bundle e = Inr profile \<longleftrightarrow> map_of (ver_profiles (rsp_version (exe_resolved e))) (exe_mode e) = Some profile"
  by (auto simp: exe_bundle_def split: option.splits)

lemma request_answer:
  assumes "check_publication_request environment rq contract e = Inr ()" "exe_bundle e = Inr profile"
  shows "environment = bdl_environmentDigest profile"
    and "pq_operation rq = ''model.invoke'' \<Longrightarrow> \<exists>b \<in> set (ver_modelBindings (rsp_version (exe_resolved e))).
      pq_model_id rq = Some (pml_modelId b) \<and> pq_deployment rq = Some (pml_option b)"
    and "pq_operation rq = ''tool.invoke'' \<Longrightarrow> contract = Some digest \<Longrightarrow> \<exists>sb t. exe_actual e = Some sb \<and> t \<in> set (bdl_tools profile)
      \<and> pq_tool_name rq = Some (ptl_name t) \<and> map_of (sub_contracts sb) (ptl_alias t) = Some digest"
  using assms
  by (auto simp: check_publication_request_def list_ex_iff ensure_def split: if_splits option.splits dest!: sym [of "Some _"])

end
