(* ===== verification/Json_Size.thy ===== *)
theory Json_Size
  imports Json_Text "HOL-Library.Multiset"
begin

text \<open>A bound on the length of an encoded value that does not need the encoding: six characters for each of a string's.\<close>

fun size_bound :: "json \<Rightarrow> nat" where
  "size_bound JNull = 4"
| "size_bound (JBool b) = 5"
| "size_bound (JInt i) = length (show_int i)"
| "size_bound (JFloat r) = length r + 9"
| "size_bound (JStr s) = 6 * length s + 2"
| "size_bound (JArr vs) = 2 + sum_list (map (\<lambda>v. size_bound v + 1) vs)"
| "size_bound (JObj fs) = 2 + sum_list (map (\<lambda>f. 6 * length (fst f) + size_bound (snd f) + 4) fs)"

lemma length_join_bound: "length (join [c] xs) \<le> sum_list (map (\<lambda>x. length x + 1) xs)"
  by (induction "[c]" xs rule: join.induct) auto

lemma length_escape: "length (escape_char c) \<le> 6" "length (escape_text c) \<le> 6"
  by (simp_all add: escape_char_def escape_text_def Let_def)

lemma length_escapes: "length (concat (map escape_char s)) \<le> 6 * length s" "length (concat (map escape_text s)) \<le> 6 * length s"
  by (induction s) (use length_escape in \<open>auto simp: add_mono\<close>)

lemma length_quotes: "length (quote s) \<le> 6 * length s + 2" "length (quote_text s) \<le> 6 * length s + 2"
  using length_escapes [of s] by (simp_all add: quote_def quote_text_def)

lemma sum_list_bound: "(\<And>x. x \<in> set xs \<Longrightarrow> f x \<le> g x) \<Longrightarrow> sum_list (map f xs) \<le> (sum_list (map g xs) :: nat)"
  by (rule sum_list_mono)

lemma length_dumps: "length (dumps [c] [d] v) \<le> size_bound v"
proof (induction v rule: size_bound.induct)
  case (6 vs)
  have "length (join [c] (map (dumps [c] [d]) vs)) \<le> sum_list (map (\<lambda>v. size_bound v + 1) vs)"
    by (rule order_trans [OF length_join_bound]) (auto simp: comp_def intro!: sum_list_bound 6)
  then show ?case by simp
next
  case (7 fs)
  have "length (join [c] (map (\<lambda>(k, v). quote k @ [d] @ dumps [c] [d] v) fs))
      \<le> sum_list (map (\<lambda>f. 6 * length (fst f) + size_bound (snd f) + 4) fs)"
  proof (rule order_trans [OF length_join_bound], unfold map_map, rule sum_list_bound)
    fix f assume f: "f \<in> set fs"
    from 7 [OF f] length_quotes(1) [of "fst f"]
    show "((\<lambda>x. length x + 1) \<circ> (\<lambda>(k, v). quote k @ [d] @ dumps [c] [d] v)) f \<le> 6 * length (fst f) + size_bound (snd f) + 4"
      by (simp add: case_prod_beta)
  qed
  then show ?case by simp
qed (use length_quotes in auto)

lemma length_dumps_text: "length (dumps_text [c] [d] v) \<le> size_bound v"
proof (induction v rule: size_bound.induct)
  case (6 vs)
  have "length (join [c] (map (dumps_text [c] [d]) vs)) \<le> sum_list (map (\<lambda>v. size_bound v + 1) vs)"
    by (rule order_trans [OF length_join_bound]) (auto simp: comp_def intro!: sum_list_bound 6)
  then show ?case by simp
next
  case (7 fs)
  have "length (join [c] (map (\<lambda>(k, v). quote_text k @ [d] @ dumps_text [c] [d] v) fs))
      \<le> sum_list (map (\<lambda>f. 6 * length (fst f) + size_bound (snd f) + 4) fs)"
  proof (rule order_trans [OF length_join_bound], unfold map_map, rule sum_list_bound)
    fix f assume f: "f \<in> set fs"
    from 7 [OF f] length_quotes(2) [of "fst f"]
    show "((\<lambda>x. length x + 1) \<circ> (\<lambda>(k, v). quote_text k @ [d] @ dumps_text [c] [d] v)) f \<le> 6 * length (fst f) + size_bound (snd f) + 4"
      by (simp add: case_prod_beta)
  qed
  then show ?case by simp
qed (use length_quotes in \<open>auto simp: float_text_def\<close>)

lemma sum_list_sorted: "sum_list (map f (sort_key k xs)) = (sum_list (map f xs) :: nat)"
  by (metis mset_map mset_sort sum_mset_sum_list)

lemma size_bound_sorted: "size_bound (sort_keys v) = size_bound v"
proof (induction v rule: size_bound.induct)
  case (6 vs)
  then have "map (\<lambda>v. size_bound (sort_keys v) + 1) vs = map (\<lambda>v. size_bound v + 1) vs" by simp
  then show ?case by (simp only: sort_keys.simps size_bound.simps map_map comp_def)
next
  case (7 fs)
  then have "map (\<lambda>f. 6 * length (fst f) + size_bound (sort_keys (snd f)) + 4) fs
      = map (\<lambda>f. 6 * length (fst f) + size_bound (snd f) + 4) fs" by simp
  then show ?case by (simp only: sort_keys.simps size_bound.simps sum_list_sorted map_map comp_def case_prod_beta fst_conv snd_conv)
qed simp_all

lemma length_canonical: "length (canonical_json v) \<le> size_bound v"
  using length_dumps [of "CHR '',''" "CHR '':''" "sort_keys v"] by (simp add: canonical_json_def size_bound_sorted)

lemma utf8_compact: "utf8_len (compact_text v) \<le> 2 * size_bound v"
proof -
  have "utf8_len s \<le> 2 * length s" for s by (induction s) (auto simp: utf8_len_def)
  from this [of "compact_text v"] length_dumps_text [of "CHR '',''" "CHR '':''" v] show ?thesis by simp
qed

end
