(* ===== verification/Publish_Demo.thy ===== *)
theory Publish_Demo
  imports Publish_Resolve Json_Size
begin

text \<open>
  A small world in which an agent is saved, submitted, approved by another user and activated, each in
  one moment, and stays active: its stores, and the calls that lead from each to the next.
\<close>

section \<open>The host\<close>

definition ex_option :: deployment_option where
  "ex_option = \<lparr>dp_region = ''swc'', dp_dataZone = Some ''EU'', dp_sku = ''DataZoneStandard'', dp_deploymentName = ''m-swe'',
     dp_modelVersion = Some ''1''\<rparr>"

definition ex_model :: model_entry where
  "ex_model = demo_model\<lparr>me_id := ''m'', me_options := [ex_option]\<rparr>"

definition ex_policy :: policy_config where
  "ex_policy = \<lparr>pg_domains = [(''publication'',
      \<lparr>dm_default = \<lparr>dr_allow = [''submit'', ''review'', ''consume''], dr_deny = [], dr_restrict = None\<rparr>, dm_mappings = []\<rparr>)],
     pg_spend = None, pg_adminCeiling = [], pg_canaryActor = None, pg_evaluationActor = None, pg_realtimeCanaryActor = None\<rparr>"

definition ex_settings :: policy_settings where
  "ex_settings = \<lparr>ps_group_policy_enabled = True, ps_group_policy_json = Some ''p'', ps_admin_subjects = [],
     ps_admin_emails = [], ps_auth_provider_is_spoofable = False, ps_allowed_tenants = [''t1''], ps_env = ''prod'',
     ps_asset_publishing_enabled = True, ps_realtime_enabled = False, ps_realtime_protocol = ''ga'',
     ps_voice_providers = [], ps_hard_quota_enabled = False\<rparr>"

definition ex_host :: policy_host where
  "ex_host = \<lparr>ph_settings = ex_settings, ph_catalog = \<lparr>mc_models = [ex_model], mc_residencyPolicy = ''eu''\<rparr>,
     ph_entitlements_enabled = True, ph_binding = 7, ph_raw = Some ''p'', ph_config = Some ex_policy, ph_now = 10,
     ph_admission = (\<lambda>u. Inr (unlimited u 0)),
     ph_ledger = (\<lambda>_ _. Inr \<lparr>wt_requests = 0, wt_totalTokens = 0, wt_costMicroUsd = 0, wt_computeExecutions = 0\<rparr>),
     ph_model_allowed = (\<lambda>_ _. True), ph_decode = (\<lambda>_. None), ph_sha = (\<lambda>_. ''d''), ph_uuid = (\<lambda>_. ''u1''), ph_guard = (\<lambda>_. None)\<rparr>"

definition ex_evidence :: policy_claims where
  "ex_evidence = \<lparr>pc_roles = [], pc_groups = [], pc_roles_complete = True, pc_groups_complete = True,
     pc_roles_present = True, pc_groups_present = True, pc_expires_at = Some 1000\<rparr>"

definition ex_user :: "string \<Rightarrow> authenticated_user" where
  "ex_user i = \<lparr>au_internal_user_id = i, au_subject = i, au_issuer = ''i1'', au_tenant_id = Some ''t1'',
     au_provider = ''entra'', au_email = None, au_claims = [], au_policy_claims = Some ex_evidence\<rparr>"

definition ex_actor :: "string \<Rightarrow> effective_policy" where
  "ex_actor i = \<lparr>ep_owner_id = i, ep_interactive = True, ep_digest = ''d'',
     ep_domains = [(''publication'', \<lparr>rd_allowed = {''submit'', ''review'', ''consume''}, rd_denied = {}, rd_restricted = None,
        rd_invalid = False, rd_unavailable = False\<rparr>)],
     ep_limits = unlimited i 0, ep_limits_unavailable = False, ep_spend_invalid = False, ep_spend_unattended = False,
     ep_user = Some (ex_user i), ep_binding = 7\<rparr>"

lemma ex_host_facts:
  "ph_binding ex_host = 7" "ph_sha ex_host s = ''d''" "ph_settings ex_host = ex_settings" "policy_enabled ex_host"
  "ps_asset_publishing_enabled ex_settings" "configuration ex_host = Inr ex_policy" "policy_digest (ph_sha ex_host) cfg = ''d''"
  "profile_of_owner uuid (Some ex_policy) owner = None" "pg_spend ex_policy = None"
  by (simp_all add: ex_host_def ex_settings_def policy_enabled_def configuration_def raw_policy_def policy_digest_def
      profile_of_owner_def owner_of_profile_def actor_for_def ex_policy_def)

lemma ex_actor_facts:
  "ep_owner_id (ex_actor i) = i" "ep_user (ex_actor i) = Some (ex_user i)" "ep_binding (ex_actor i) = 7" "ep_digest (ex_actor i) = ''d''"
  "au_provider (ex_user i) = ''entra''" "au_internal_user_id (ex_user i) = i" "au_tenant_id (ex_user i) = Some ''t1''"
  "au_policy_claims (ex_user i) = Some ex_evidence" "au_email (ex_user i) = None"
  by (simp_all add: ex_actor_def ex_user_def)

lemma ex_no_restrictions: "restrictions_of_actor uuid ex_policy u = None"
  by (simp add: restrictions_of_actor_def actors_of_def ex_policy_def split: option.split)

lemma ex_domains: "policy_domains ex_host ex_policy (Some (ex_user i)) = ep_domains (ex_actor i)"
  by (simp add: policy_domains_def ex_no_restrictions)
     (auto simp: ex_policy_def ex_actor_def compose_domain_def active_rules_def expanded_def expand_value_def Let_def)

lemma ex_resolved: "resolve_policy ex_host ex_host i (Some (ex_user i)) = Inr (ex_actor i)"
  by (simp add: resolve_policy_def ex_host_facts ex_no_restrictions ex_domains owner_limits_def admin_is_unrestricted_def
      identity_is_admin_def has_admin_role_def Let_def)
     (simp add: ex_actor_def ex_host_def ex_settings_def ex_user_def ex_evidence_def)

lemma ex_identity: "identity_decision ex_host (ex_actor i) = None"
  by (simp add: identity_decision_def identity_of_def ex_actor_facts)
     (simp add: ex_host_def ex_settings_def ex_evidence_def)

lemma ex_decides: "decide ex_host (ex_actor i) (pub_request op) = Inr (decision_of PolicyAllow Allowed)"
  by (cases op)
     (simp_all add: decide_def ex_host_facts ex_actor_facts ex_identity restricted_profile_of_def known_configuration_def
       pub_request_def starts_def after_dot_def decide_domain_def, simp_all add: ex_actor_def answer_def)

lemma ex_allowed [simp]: "pd_allowed (decision_of PolicyAllow Allowed)"
  by (simp add: pd_allowed_def decision_of_def)

lemma ex_authorized: "authorize_policy (\<lambda>_. ex_host) (ex_actor i) (pub_request op) = Inr (decision_of PolicyAllow Allowed)"
proof -
  have "pq_operation (pub_request op) \<notin> set METERED_OPERATIONS"
    by (cases op) (simp_all add: METERED_OPERATIONS_def pub_request_def)
  then show ?thesis
    by (simp add: authorize_policy_def authorize_current_def ex_host_facts ex_actor_facts ex_resolved ex_decides)
qed

section \<open>The moments\<close>

definition ex_name :: string where "ex_name = ''echo''"

definition ex_source :: pub_source where
  "ex_source = AgentSource \<lparr>uag_id = ex_name, uag_userId = ''u1'', uag_name = ex_name, uag_displayName = ''E'', uag_description = [],
     uag_systemPrompt = ''s'', uag_defaultModel = None, uag_tools = [], uag_links = [], uag_enabled = True, uag_createdAt = ''t'',
     uag_updatedAt = ''t'', uag_revision = 1, uag_incarnation = Some ''i'', uag_recordKind = None\<rparr>"

definition ex_digest :: string where "ex_digest = replicate 64 (CHR ''a'')"

definition ex_sha :: "string \<Rightarrow> string" where "ex_sha s = ex_digest"

definition ex_tool :: "string \<Rightarrow> published_tool" where
  "ex_tool a = \<lparr>ptl_name = ''tool_'' @ a, ptl_alias = a, ptl_contractDigest = ex_digest, ptl_parametersDigest = ex_digest,
     ptl_description = [], ptl_descriptionTruncated = False, ptl_risk = ''read'', ptl_scopes = [], ptl_egress = [], ptl_resources = []\<rparr>"

definition ex_requirements :: bundle_requirements where
  "ex_requirements = \<lparr>req_required = [''t''], req_optional = [(''o'', [RequestToolsDisabled])]\<rparr>"

definition ex_bundle :: tool_bundle where
  "ex_bundle = \<lparr>bdl_mode = ModeChat, bdl_tools = [ex_tool ''t'', ex_tool ''o''], bdl_digest = ex_digest, bdl_environmentDigest = ex_digest,
     bdl_requirements = [(''chat'', ex_requirements)], bdl_skillsExcluded = False\<rparr>"

definition ex_asset :: string where "ex_asset = replicate 32 (CHR ''b'')"

definition ex_moment :: "pub_records \<Rightarrow> pub_moment" where
  "ex_moment s = \<lparr>pmt_host = ex_host, pmt_agents = s, pmt_workflows = new_records,
     pmt_curated = \<lparr>agc_agents = [], agc_conflicts = []\<rparr>, pmt_fresh = ex_asset, pmt_now = ''t'', pmt_environment = ex_digest,
     pmt_document_scope = (\<lambda>_ _. Inr None), pmt_profile = (\<lambda>_ _ _ _ _ _. Inr ex_bundle)\<rparr>"

definition ex_at :: "pub_records \<Rightarrow> pub_world" where "ex_at s = (\<lambda>_. ex_moment s)"

lemma ex_at [simp]: "ex_at s n = ex_moment s" by (simp add: ex_at_def)

lemma ex_moment_facts:
  "pmt_host (ex_moment s) = ex_host" "records_of AgentAsset (ex_moment s) = s" "pmt_curated (ex_moment s) = \<lparr>agc_agents = [], agc_conflicts = []\<rparr>"
  "pmt_fresh (ex_moment s) = ex_asset" "pmt_now (ex_moment s) = ''t''" "pmt_profile (ex_moment s) p d m i as k = Inr ex_bundle"
  "publishing_enabled (ex_moment s)"
  by (simp_all add: ex_moment_def records_of_def publishing_enabled_def ex_host_facts)

lemma ex_pub_actor:
  "pub_actor (ex_actor i) op (ex_at s) n = (Inr (ex_actor i), (case op of None \<Rightarrow> Suc n | Some _ \<Rightarrow> Suc (Suc (Suc n))))"
  by (cases op)
     (simp_all add: pub_actor_def bindT_def at_once_def done_with_def ensure_def ex_moment_facts ex_actor_facts policy_resolve_def
       resolve_user_def ex_resolved policy_raises_def ex_identity policy_require_def require_def demand_def ex_authorized)

lemma ex_tenant: "tenant_of (ex_actor i) = Inr ''t1''"
  by (simp add: tenant_of_def ex_actor_facts)

lemma ex_name_ok: "name_ok ex_name" "is_definition ex_source ''u1'' AgentAsset ex_name"
  "src_user ex_source = ''u1''" "src_id ex_source = ex_name" "src_name ex_source = ex_name" "src_kind ex_source = AgentAsset"
  "src_revision ex_source = 1" "src_enabled ex_source" "src_incarnation ex_source = Some ''i''" "default_model ex_source = None"
  "source_agents ex_source = []"
  by code_simp+

section \<open>The rows\<close>

definition ex_models :: "published_model list" where "ex_models = [model_binding ''m'' ex_model ex_option]"

definition ex_compilation :: compilation where
  "ex_compilation = \<lparr>cmp_models = ex_models, cmp_profiles = [(ModeChat, ex_bundle)], cmp_dependencies = []\<rparr>"

definition ex_request :: publication_submit where
  "ex_request = \<lparr>sbm_expectedRevision = 1, sbm_audience = \<lparr>aud_visibility = VisiblePublic, aud_acl = [], aud_groupAcl = []\<rparr>,
     sbm_modelIds = [''m''], sbm_modes = [ModeChat], sbm_reviewConsent = True, sbm_operatorReviewConsent = False,
     sbm_reviewerUserId = None, sbm_skillMode = SkillsExcluded\<rparr>"

definition ex_version :: publication_version where
  "ex_version = (draft_version ''u1'' ''t1'' AgentAsset ex_asset 1 ex_source ex_digest ex_request ex_compilation ''t'' ''d'')
     \<lparr>ver_digest := ex_digest\<rparr>"

definition ex_ref :: asset_ref where "ex_ref = version_reference ex_version"

lemma exact_digest_small: "size_bound v \<le> 100000 \<Longrightarrow> exact_digest ex_sha v = Inr ex_digest"
  using length_canonical [of v] by (simp add: exact_digest_def MAX_PUBLICATION_BYTES_def ex_sha_def Let_def)

lemma ex_texts: "show_nat (Suc 0) = ''1''" "residency ex_option = ''eu''" "is_hex 64 ex_digest"
  by code_simp+

lemma ex_source_size: "size_bound (src_json ex_source) \<le> 10000"
  by (simp add: src_json_def ex_source_def agent_json_def compatible_fields_def optional_field_def strings_json_def show_int_def
      ex_name_def AGENT_DEFINITION_KIND_def ex_texts)

lemma ex_model_size: "size_bound (model_json (model_binding ''m'' ex_model ex_option)) \<le> 2000"
  by (simp add: model_json_def option_json_def ex_model_def model_binding_def demo_model_def ex_texts)
     (simp add: ex_option_def)

lemma ex_bundle_size: "size_bound (bundle_json ex_bundle) \<le> 9000"
  by (simp add: bundle_json_def ex_bundle_def ex_requirements_def ex_tool_def tool_json_def reason_name_def requirements_json_def exclusions_json_def strings_json_def ex_digest_def mode_name_def)

lemma ex_version_size: "size_bound (JObj (version_fields ex_version)) \<le> 50000" "size_bound (version_json ex_version) \<le> 50000"
  using ex_source_size ex_model_size ex_bundle_size
  by (simp_all add: version_json_def version_fields_def ex_version_def draft_version_def ex_request_def ex_compilation_def
      audience_fields_def version_id_def CONTROL_RECORD_PREFIX_def ex_asset_def ex_digest_def show_int_def mode_name_def
      visibility_name_def strings_json_def skill_name_def ex_models_def kind_name_def ex_texts)

lemma ex_audience: "clean_audience (sbm_audience ex_request) = Some (sbm_audience ex_request)"
  by (simp add: clean_audience_def ex_request_def Let_def first_uses_def)

lemma ex_draft_ok: "version_ok (draft_version ''u1'' ''t1'' AgentAsset ex_asset 1 ex_source ex_digest ex_request ex_compilation ''t'' ''d'')"
  "version_ok ex_version"
proof -
  have "is_hex 64 (replicate 64 (CHR ''0''))" by code_simp
  then show "version_ok (draft_version ''u1'' ''t1'' AgentAsset ex_asset 1 ex_source ex_digest ex_request ex_compilation ''t'' ''d'')"
    "version_ok ex_version"
    using ex_audience
    by (simp_all add: version_ok_def ex_version_def draft_version_def ex_compilation_def ex_texts MAX_VERSIONS_PER_ASSET_def
        ex_models_def ex_bundle_def ex_requirements_def requirements_ok_def declared_version_def model_binding_def ex_option_def)
qed

lemma ex_digests:
  "exact_digest ex_sha (src_json ex_source) = Inr ex_digest"
  "version_digest ex_sha ex_version = Inr ex_digest"
  using ex_source_size ex_version_size by (simp_all add: version_digest_def exact_digest_small)

lemma ex_sealed:
  "seal_version ex_sha (draft_version ''u1'' ''t1'' AgentAsset ex_asset 1 ex_source ex_digest ex_request ex_compilation ''t'' ''d'') = Inr ex_version"
proof -
  let ?draft = "draft_version ''u1'' ''t1'' AgentAsset ex_asset 1 ex_source ex_digest ex_request ex_compilation ''t'' ''d''"
  have d: "ex_version = ?draft\<lparr>ver_digest := ex_digest\<rparr>" by (simp add: ex_version_def)
  have "version_digest ex_sha ?draft = Inr ex_digest" using ex_digests(2) by (simp add: d)
  moreover have "utf8_len (compact_text (JObj (version_fields ex_version))) \<le> MAX_PUBLICATION_BYTES - 4096"
    using utf8_compact [of "JObj (version_fields ex_version)"] ex_version_size(1) by (simp add: MAX_PUBLICATION_BYTES_def)
  ultimately show ?thesis by (simp add: seal_version_def ex_draft_ok d [symmetric] not_less)
qed

section \<open>The calls\<close>

lemma bindT_run: "t w n = (Inr x, k) \<Longrightarrow> bindT t f w n = f x w k"
  by (simp add: bindT_def)

lemma ex_invokes: "decide ex_host (ex_actor i) \<lparr>pq_operation = ''model.invoke'', pq_model_id = Some ''m'', pq_deployment = Some ex_option,
    pq_tool_name = None, pq_legacy_admin = False\<rparr> = Inr (decision_of PolicyAllow Allowed)"
proof -
  have m: "cat_get (ph_catalog ex_host) ''m'' = Some ex_model"
    "ex_option \<in> set (eligible_options (ph_model_allowed ex_host) (ph_catalog ex_host) True ex_model)"
    by code_simp+
  have "consumption_state ex_host (ex_actor i) = decision_of PolicyAllow Allowed"
    by (simp add: consumption_state_def ex_actor_facts ex_host_facts ex_identity) (simp add: ex_actor_def unlimited_def default_limits_def limits.defs)
  then show ?thesis
    by (simp add: decide_def ex_host_facts ex_actor_facts ex_identity restricted_profile_of_def known_configuration_def starts_def
        model_checks_def m METERED_OPERATIONS_def)
       (simp add: decide_domain_def ex_actor_def answer_def)
qed

lemma ex_bound: "bind_models ex_host (ex_actor i) cp [''m''] = Inr ex_models"
proof -
  have m: "cat_get (ph_catalog ex_host) ''m'' = Some ex_model"
    "eligible_options (ph_model_allowed ex_host) (ph_catalog ex_host) cp ex_model = [ex_option]" for cp
    by (cases cp; code_simp)+
  have v: "dp_modelVersion ex_option = Some ''1''" by (simp add: ex_option_def)
  show ?thesis by (cases cp) (simp_all add: m v ex_invokes policy_raises_def ex_models_def)
qed

lemma ex_compile:
  "compile_source ex_sha (ex_actor i) ex_source [''m''] [ModeChat] cp k (ex_at s) n = (Inr ex_compilation, Suc n)"
  by (simp add: compile_source_def compile_mode_def bindT_run done_with_def at_once_def await_one_def guardT_def ensure_def ex_moment_facts
      ex_name_ok ex_bound first_uses_def ex_compilation_def
      del: bind_models.simps)

lemma ex_version_facts:
  "ver_source ex_version = ex_source" "ver_modelBindings ex_version = ex_models" "ver_profiles ex_version = [(ModeChat, ex_bundle)]"
  "ver_dependencies ex_version = []" "ver_skillMode ex_version = SkillsExcluded" "ver_sourceDigest ex_version = ex_digest"
  "ver_id ex_version = version_id ex_asset 1" "ver_version ex_version = 1" "ver_tenantId ex_version = ''t1''" "ver_reviewConsent ex_version"
  "ver_reviewerUserId ex_version = None" "ver_userId ex_version = ''u1''"
  "ver_audience ex_version = \<lparr>aud_visibility = VisiblePublic, aud_acl = [], aud_groupAcl = []\<rparr>"
  "ref_ownerId ex_ref = ''u1''" "ref_assetId ex_ref = ex_asset" "ref_version ex_ref = 1" "ref_kind ex_ref = AgentAsset" "ref_digest ex_ref = ex_digest"
  "version_reference ex_version = ex_ref"
  by (simp_all add: ex_version_def draft_version_def ex_compilation_def ex_request_def ex_ref_def version_reference_def)

lemma ex_compiled: "check_compilation ex_sha (ex_actor i) ex_version cp (ex_at s) n = (Inr (), Suc n)"
proof -
  have "first_uses (map pml_modelId ex_models) = [''m'']" by (simp add: first_uses_def ex_models_def model_binding_def)
  then show ?thesis
    by (simp add: check_compilation_def bindT_run ex_compile ex_version_facts guardT_def done_with_def ensure_def)
       (simp add: ex_compilation_def same_profiles_def)
qed

section \<open>The stores\<close>

definition ex_pending :: publication_head where
  "ex_pending = pending_head (fresh_head ''u1'' ''t1'' ex_name AgentAsset ex_asset ex_source None) False 1 ex_request"

definition ex_reviewed :: publication_head where "ex_reviewed = ex_pending\<lparr>hed_revision := 2\<rparr>"

definition ex_active :: publication_head where "ex_active = active_head ex_reviewed ex_version"

definition ex_review_request :: review_request where
  "ex_review_request = \<lparr>rvq_source = ex_ref, rvq_expectedHeadRevision = 1, rvq_decision = ReviewApproved, rvq_note = []\<rparr>"

definition ex_review :: review_decision where
  "ex_review = (draft_review ex_pending 1 ex_review_request ''u2'' ByReviewer ''t'')\<lparr>rvw_digest := ex_digest\<rparr>"

abbreviation ex_head_id :: string where "ex_head_id \<equiv> publication_head_id ex_name"

abbreviation ex_version_id :: string where "ex_version_id \<equiv> version_id ex_asset 1"

abbreviation ex_review_id :: string where "ex_review_id \<equiv> review_id ex_asset 1"

definition ex_saved :: pub_records where "ex_saved = put_row ''u1'' ex_name (DefinitionRow ex_source) new_records"

definition ex_submitted :: pub_records where
  "ex_submitted = put_row ''u1'' BUDGET_ID (BudgetRow ''u1'' (JInt 1) PUBLICATION_BUDGET_KIND)
     (put_row ''u1'' ex_version_id (VersionRow ex_version) (put_row ''u1'' ex_head_id (HeadRow ex_pending)
       (put_row ''u1'' ex_name (DefinitionRow ex_source) ex_saved)))"

definition ex_approved :: pub_records where
  "ex_approved = put_row ''u1'' ex_review_id (ReviewRow ex_review) (put_row ''u1'' ex_name (DefinitionRow ex_source)
     (put_row ''u1'' ex_head_id (HeadRow ex_reviewed) ex_submitted))"

definition ex_offered :: pub_records where
  "ex_offered = put_row ''u1'' ex_head_id (HeadRow ex_active) (put_row ''u1'' ex_name (DefinitionRow ex_source) ex_approved)"

lemma ex_ids [simp]:
  "ex_name \<noteq> ex_head_id" "ex_name \<noteq> ex_version_id" "ex_name \<noteq> ex_review_id" "ex_name \<noteq> BUDGET_ID"
  "ex_head_id \<noteq> ex_name" "ex_version_id \<noteq> ex_name" "ex_review_id \<noteq> ex_name" "BUDGET_ID \<noteq> ex_name"
  "ex_review_id \<noteq> BUDGET_ID"
  using names_apart [OF ex_name_ok(1)]
  by (simp_all add: review_id_def BUDGET_ID_def)

lemma read_new [simp]: "rec_read new_records owner i = None"
  by (simp add: rec_read_def new_records_def)

lemmas ex_stores = ex_saved_def ex_submitted_def ex_approved_def ex_offered_def read_put_row

lemma ex_replace:
  "replace_definition new_records new_records ex_source None True = Inr (True, ex_saved)"
  by (simp add: replace_definition_def rec_atomic_def validate_batch_def ex_name_ok ex_saved_def batch_row_def)

lemma read_row_run: "read_row kind owner i w n = (Inr (rec_read (records_of kind (w n)) owner i), Suc n)"
  by (simp add: read_row_def await_one_def)

lemma definition_run:
  "rec_read s ''u1'' ex_name = Some (DefinitionRow ex_source, e) \<Longrightarrow>
    get_definition ''u1'' AgentAsset ex_name (ex_at s) n = (Inr ((DefinitionRow ex_source, e), ex_source), Suc n)"
  by (simp add: get_definition_def ex_name_ok bindT_run read_row_run ex_moment_facts done_with_def)

lemma commit_run:
  "rec_atomic (records_of kind (w n)) owner expected changes = Inr (True, s') \<Longrightarrow>
    commit kind owner expected changes reason head w n = (Inr (head, s'), Suc n)"
  by (simp add: commit_def await_one_def)

lemmas task_runs = bindT_run done_with_def at_once_def guardT_def ensure_def read_row_run definition_run ex_pub_actor ex_tenant ex_moment_facts
  ex_actor_facts

lemma ex_request_facts:
  "sbm_expectedRevision ex_request = 1" "sbm_reviewerUserId ex_request = None" "aud_groupAcl (sbm_audience ex_request) = []"
  "sbm_modelIds ex_request = [''m'']" "sbm_modes ex_request = [ModeChat]" "sbm_skillMode ex_request = SkillsExcluded"
  by (simp_all add: ex_request_def)

lemma ex_fresh_facts:
  "hed_versionCount (fresh_head ''u1'' ''t1'' ex_name AgentAsset ex_asset ex_source None) = 0"
  "hed_assetId (fresh_head ''u1'' ''t1'' ex_name AgentAsset ex_asset ex_source None) = ex_asset"
  "hed_id ex_pending = ex_head_id" "hed_userId ex_pending = ''u1''" "continues_head ex_source None = False"
  by (simp_all add: fresh_head_def ex_pending_def pending_head_def continues_head_def)

lemma ex_submits:
  "\<exists>m. submit_publication ex_sha (ex_actor ''u1'') AgentAsset ex_name ex_request (ex_at ex_saved) 0 = (Inr (ex_pending, ex_submitted), Suc m)"
proof -
  have row: "rec_read ex_saved ''u1'' ex_name = Some (DefinitionRow ex_source, Suc 0)"
    by (simp add: ex_saved_def read_put_row new_records_def)
  have absent: "rec_read ex_saved ''u1'' ex_head_id = None" "rec_read ex_saved ''u1'' BUDGET_ID = None" "rec_read ex_saved ''u1'' ex_version_id = None"
    by (simp_all add: ex_saved_def read_put_row)
  have room: "budget_room None = Some 0" by (simp add: budget_room_def budget_count_def MAX_VERSIONS_PER_OWNER_def)
  have batch: "rec_atomic ex_saved ''u1'' [(ex_name, Some (DefinitionRow ex_source, Suc 0)), (ex_head_id, None), (ex_version_id, None), (BUDGET_ID, None)]
      [(ex_head_id, Some (HeadRow ex_pending)), (ex_version_id, Some (VersionRow ex_version)),
       (BUDGET_ID, Some (BudgetRow ''u1'' (JInt 1) PUBLICATION_BUDGET_KIND))] = Inr (True, ex_submitted)"
    by (simp add: rec_atomic_def validate_batch_def row absent ex_name_ok ex_version_facts ex_fresh_facts batch_row_def ex_submitted_def)
  show ?thesis
    by (simp add: submit_publication_def task_runs row absent room ex_name_ok ex_request_facts audience_authorized_def ex_fresh_facts
        MAX_VERSIONS_PER_ASSET_def ex_compile ex_digests ex_sealed ex_version_facts commit_run batch ex_pending_def [symmetric] Let_def)
qed

lemma ex_head_ok: "head_ok ex_pending" "head_ok ex_reviewed" "head_ok ex_active"
  by (simp_all add: head_ok_def ex_reviewed_def ex_active_def active_head_def ex_pending_def pending_head_def fresh_head_def
      MAX_VERSIONS_PER_ASSET_def clean_audience_def first_uses_def ex_version_facts Let_def)

lemma ex_pending_facts:
  "\<not> hed_deleted ex_pending" "hed_assetId ex_pending = ex_asset" "hed_pendingVersion ex_pending = Some 1" "hed_tenantId ex_pending = ''t1''"
  "hed_revision ex_pending = 1" "hed_kind ex_pending = AgentAsset" "hed_sourceName ex_pending = ex_name"
  "hed_sourceIncarnation ex_pending = Some ''i''"
  by (simp_all add: ex_pending_def pending_head_def fresh_head_def ex_name_ok)

lemma version_run:
  "rec_read s ''u1'' ex_version_id = Some (VersionRow ex_version, e) \<Longrightarrow> get_version ex_sha ex_ref (ex_at s) n = (Inr ex_version, Suc n)"
  by (simp add: get_version_def task_runs ex_version_facts ex_draft_ok check_version_def ex_digests ex_name_ok)

lemma load_head_run: "head_ok h \<Longrightarrow> load_head (Some (HeadRow h, e)) = Inr h"
  by (simp add: load_head_def)

lemma ex_review_source:
  assumes "rec_read s ''u1'' ex_version_id = Some (VersionRow ex_version, e)" "rec_read s ''u1'' ex_head_id = Some (HeadRow ex_pending, e')"
  shows "\<exists>m. review_source ex_sha (ex_actor ''u2'') ex_ref False (ex_at s) n = (Inr (ex_pending, ex_version, ByReviewer), m)"
  using assms
  by (simp add: review_source_def task_runs version_run ex_version_facts ex_name_ok load_head_run ex_head_ok ex_pending_facts
      policy_authorize_def ex_authorized policy_raises_def)

lemma ex_review_size: "size_bound (review_json ((draft_review ex_pending 1 ex_review_request ''u2'' ByReviewer ''t''))) \<le> 10000"
  by (simp add: review_json_def draft_review_def ex_review_request_def ref_json_def ex_version_facts ex_fresh_facts ex_pending_facts review_id_def
      CONTROL_RECORD_PREFIX_def ex_asset_def ex_digest_def show_int_def ex_texts kind_name_def)

lemma ex_review_digest:
  "review_digest ex_sha (draft_review ex_pending 1 ex_review_request ''u2'' ByReviewer ''t'') = Inr ex_digest"
  "review_digest ex_sha ex_review = Inr ex_digest"
proof -
  have "review_json ex_review = review_json (draft_review ex_pending 1 ex_review_request ''u2'' ByReviewer ''t'')"
    by (simp add: review_json_def ex_review_def)
  then show "review_digest ex_sha (draft_review ex_pending 1 ex_review_request ''u2'' ByReviewer ''t'') = Inr ex_digest"
    "review_digest ex_sha ex_review = Inr ex_digest"
    using ex_review_size by (simp_all add: review_digest_def exact_digest_small)
qed

lemma ex_review_facts:
  "rvq_source ex_review_request = ex_ref" "rvq_expectedHeadRevision ex_review_request = 1" "rvq_decision ex_review_request = ReviewApproved"
  "rvw_id ex_review = ex_review_id" "rvw_userId ex_review = ''u1''" "rvw_source ex_review = ex_ref" "rvw_decision ex_review = ReviewApproved"
  "rvw_reviewerId ex_review = ''u2''" "rvw_tenantId ex_review = ''t1''" "rvw_digest ex_review = ex_digest"
  by (simp_all add: ex_review_request_def ex_review_def draft_review_def ex_pending_facts ex_fresh_facts)

lemma ex_reviews:
  "\<exists>m. decide_review ex_sha (ex_actor ''u2'') ex_review_request False (ex_at ex_submitted) 0 = (Inr (ex_reviewed, ex_approved), Suc m)"
proof -
  obtain a b c where rows: "rec_read ex_submitted ''u1'' ex_name = Some (DefinitionRow ex_source, a)"
    "rec_read ex_submitted ''u1'' ex_head_id = Some (HeadRow ex_pending, b)"
    "rec_read ex_submitted ''u1'' ex_version_id = Some (VersionRow ex_version, c)"
    and absent: "rec_read ex_submitted ''u1'' ex_review_id = None"
    by (simp add: ex_stores)
  from ex_review_source [OF rows(3,2), of 0] obtain m where r: "review_source ex_sha (ex_actor ''u2'') ex_ref False (ex_at ex_submitted) 0
      = (Inr (ex_pending, ex_version, ByReviewer), m)" by blast
  from ex_review_source [OF rows(3,2), of "Suc (Suc (Suc m))"] obtain m' where r': "review_source ex_sha (ex_actor ''u2'') ex_ref False (ex_at ex_submitted)
      (Suc (Suc (Suc m))) = (Inr (ex_pending, ex_version, ByReviewer), m')" by blast
  have batch: "rec_atomic ex_submitted ''u1'' [(ex_head_id, Some (HeadRow ex_pending, b)), (ex_name, Some (DefinitionRow ex_source, a)), (ex_review_id, None)]
      [(ex_head_id, Some (HeadRow ex_reviewed)), (ex_review_id, Some (ReviewRow ex_review))] = Inr (True, ex_approved)"
    by (simp add: rec_atomic_def validate_batch_def rows absent ex_name_ok ex_fresh_facts ex_review_facts batch_row_def ex_approved_def)
       (simp add: ex_reviewed_def ex_fresh_facts)
  show ?thesis
    by (simp add: decide_review_def task_runs r ex_review_facts ex_version_facts ex_pending_facts ex_fresh_facts rows ex_digests ex_compiled
        ex_review_digest r' load_head_run ex_head_ok Let_def ex_review_def [symmetric] commit_run batch ex_reviewed_def [symmetric] ex_name_ok)
qed

definition ex_activation :: activation_request where
  "ex_activation = \<lparr>acq_source = ex_ref, acq_expectedHeadRevision = 2\<rparr>"

lemma ex_reviewed_facts:
  "\<not> hed_deleted ex_reviewed" "hed_assetId ex_reviewed = ex_asset" "hed_pendingVersion ex_reviewed = Some 1" "hed_tenantId ex_reviewed = ''t1''"
  "hed_revision ex_reviewed = 2" "hed_sourceIncarnation ex_reviewed = Some ''i''" "hed_id ex_reviewed = ex_head_id"
  "hed_userId ex_reviewed = ''u1''"
  by (simp_all add: ex_reviewed_def ex_pending_facts ex_fresh_facts)

lemma review_run:
  "rec_read s ''u1'' ex_review_id = Some (ReviewRow ex_review, e) \<Longrightarrow> get_review ex_sha ex_ref (ex_at s) n = (Inr ex_review, Suc n)"
  by (simp add: get_review_def task_runs ex_version_facts check_review_def ex_review_digest ex_review_facts)

lemma ex_activates:
  "\<exists>m. activate_publication ex_sha (ex_actor ''u1'') AgentAsset ex_name ex_activation (ex_at ex_approved) 0 = (Inr (ex_active, ex_offered), Suc m)"
proof -
  obtain a b c d where rows: "rec_read ex_approved ''u1'' ex_name = Some (DefinitionRow ex_source, a)"
    "rec_read ex_approved ''u1'' ex_head_id = Some (HeadRow ex_reviewed, b)"
    "rec_read ex_approved ''u1'' ex_version_id = Some (VersionRow ex_version, c)"
    "rec_read ex_approved ''u1'' ex_review_id = Some (ReviewRow ex_review, d)"
    by (simp add: ex_stores)
  have "hed_id ex_active = ex_head_id" "hed_userId ex_active = ''u1''"
    by (simp_all add: ex_active_def active_head_def ex_reviewed_facts)
  then have batch: "rec_atomic ex_approved ''u1'' [(ex_name, Some (DefinitionRow ex_source, a)), (ex_head_id, Some (HeadRow ex_reviewed, b))]
      [(ex_head_id, Some (HeadRow ex_active))] = Inr (True, ex_offered)"
    by (simp add: rec_atomic_def validate_batch_def rows ex_name_ok ex_reviewed_facts batch_row_def ex_offered_def)
  show ?thesis
    by (simp add: activate_publication_def task_runs ex_activation_def ex_version_facts version_run rows review_run load_head_run ex_head_ok
        ex_reviewed_facts ex_review_facts ex_digests ex_compiled ex_name_ok Let_def commit_run batch ex_active_def [symmetric])
qed

section \<open>The world\<close>

definition ex_world :: pub_world where
  "ex_world n = ex_moment (if n = 0 then new_records else if n = 1 then ex_saved else if n = 2 then ex_submitted
     else if n = 3 then ex_approved else ex_offered)"

lemma ex_world_const: "(ex_world \<circ> (\<lambda>_. i)) = ex_at (records_of AgentAsset (ex_world i))"
  by (simp add: fun_eq_iff ex_at_def ex_world_def ex_moment_facts)

lemma ex_request_ok: "submit_ok ex_request"
  using ex_audience by (simp add: submit_ok_def ex_request_def)

lemma mono_const: "mono (\<lambda>_ :: nat. i :: nat)" by (simp add: mono_def)

lemma ex_lawful: "lawful ex_sha AgentAsset ex_world"
proof -
  note at = ex_world_def ex_moment_facts
  have "written ex_sha AgentAsset ex_world i" for i
  proof -
    consider "i = 0" | "i = 1" | "i = 2" | "i = 3" | "4 \<le> i" by linarith
    then show ?thesis
    proof cases
      case 1
      show ?thesis
        by (rule by_replace [where j = 0 and body = ex_source and expected_revision = None and create = True and ok = True])
           (simp_all add: 1 at ex_name_ok ex_replace)
    next
      case 2
      from ex_submits obtain m where "submit_publication ex_sha (ex_actor ''u1'') AgentAsset ex_name ex_request (ex_world \<circ> (\<lambda>_. 1)) 0
          = (Inr (ex_pending, records_of AgentAsset (ex_world 2)), Suc m)" by (auto simp: ex_world_const at)
      then show ?thesis using 2 by (intro by_submit [where f = "\<lambda>_. 1", OF mono_const _ ex_request_ok]) (simp_all add: numeral_eq_Suc)
    next
      case 3
      from ex_reviews obtain m where "decide_review ex_sha (ex_actor ''u2'') ex_review_request False (ex_world \<circ> (\<lambda>_. 2)) 0
          = (Inr (ex_reviewed, records_of AgentAsset (ex_world 3)), Suc m)" by (auto simp: ex_world_const at)
      then show ?thesis using 3
        by (intro by_review [where f = "\<lambda>_. 2" and rr = ex_review_request, OF mono_const])
           (simp_all add: numeral_eq_Suc ex_review_facts ex_version_facts)
    next
      case 4
      from ex_activates obtain m where "activate_publication ex_sha (ex_actor ''u1'') AgentAsset ex_name ex_activation (ex_world \<circ> (\<lambda>_. 3)) 0
          = (Inr (ex_active, records_of AgentAsset (ex_world 4)), Suc m)" by (auto simp: ex_world_const at)
      then show ?thesis using 4 by (intro by_activate [where f = "\<lambda>_. 3", OF mono_const]) (simp_all add: numeral_eq_Suc)
    next
      case 5
      then show ?thesis by (intro by_none) (simp add: at)
    qed
  qed
  then show ?thesis by (simp add: lawful_def at)
qed

section \<open>A resolution\<close>

lemma ex_active_facts:
  "\<not> hed_deleted ex_active" "hed_assetId ex_active = ex_asset" "hed_activeVersion ex_active = Some 1" "hed_tenantId ex_active = ''t1''"
  "hed_revision ex_active = 3" "hed_sourceIncarnation ex_active = Some ''i''" "aud_visibility ex_active = VisiblePublic"
  by (simp_all add: ex_active_def active_head_def ex_reviewed_facts ex_version_facts)

lemma ex_rows:
  "\<exists>e. rec_read ex_offered ''u1'' ex_name = Some (DefinitionRow ex_source, e)"
  "\<exists>e. rec_read ex_offered ''u1'' ex_head_id = Some (HeadRow ex_active, e)"
  "\<exists>e. rec_read ex_offered ''u1'' ex_version_id = Some (VersionRow ex_version, e)"
  "\<exists>e. rec_read ex_offered ''u1'' ex_review_id = Some (ReviewRow ex_review, e)"
  by (simp_all add: ex_stores)

definition ex_resolved_publication :: resolved_publication where
  "ex_resolved_publication = \<lparr>rsp_version = ex_version, rsp_approval = ex_review, rsp_headRevision = 3\<rparr>"

lemma ex_resolves:
  "\<exists>m. resolve_for_execution ex_sha (ex_actor ''u3'') ex_ref ModeChat (ex_at ex_offered) n = (Inr ex_resolved_publication, m)"
proof -
  obtain a b c d where rows: "rec_read ex_offered ''u1'' ex_name = Some (DefinitionRow ex_source, a)"
    "rec_read ex_offered ''u1'' ex_head_id = Some (HeadRow ex_active, b)"
    "rec_read ex_offered ''u1'' ex_version_id = Some (VersionRow ex_version, c)"
    "rec_read ex_offered ''u1'' ex_review_id = Some (ReviewRow ex_review, d)"
    using ex_rows by blast
  obtain d' where depth: "MAX_RESOLVING = Suc d'" by (simp add: MAX_RESOLVING_def numeral_eq_Suc)
  show ?thesis
    unfolding resolve_for_execution_def depth
    by (simp add: resolve_body_def task_runs version_run review_run rows load_head_run ex_head_ok ex_active_facts
        ex_version_facts ex_name_ok ex_review_facts head_visible_def can_access_def ex_resolved_publication_def)
qed

end
