(* ===== verification/Publish_Promises.thy ===== *)
theory Publish_Promises
  imports Publish_Runs Publish_Demo
begin

text \<open>
  What publication promises: whatever is offered was approved by another than its owner, what a call
  resolves is approved to its last dependency, a run binds only the reviewed contracts and leaves out
  none without a reason, and its requests stay within what it bound. The examples are the small world of
  the saved, approved and activated agent and a run of it.
\<close>

section \<open>A run\<close>

definition ex_run :: publication_execution where
  "ex_run = \<lparr>exe_actor = ex_actor ''u3'', exe_resolved = ex_resolved_publication, exe_mode = ModeChat, exe_model_id = ''m'',
     exe_deployment = ex_option, exe_session_id = None, exe_document_scope = None, exe_scope = ''chat'', exe_actual = None,
     exe_tools_disabled = True, exe_expected_subset_digest = None\<rparr>"

definition ex_contracts :: "(string, string) dict" where "ex_contracts = [(''t'', ex_digest)]"

lemma ex_metered:
  assumes "pq_operation rq \<in> set METERED_OPERATIONS" "pq_operation rq \<noteq> ''document.compute''"
    and "decide ex_host (ex_actor i) rq = Inr (decision_of PolicyAllow Allowed)"
  shows "policy_require (ex_actor i) rq (ex_at s) n = (Inr (), Suc (Suc n))"
proof -
  have l: "ep_limits (ex_actor i) = unlimited i 0" "ph_entitlements_enabled ex_host"
    by (simp_all add: ex_actor_def ex_host_def)
  have "authorize_policy (\<lambda>_. ex_host) (ex_actor i) rq = Inr (decision_of PolicyAllow Allowed)"
    using assms by (simp add: authorize_policy_def authorize_current_def ex_host_facts ex_actor_facts ex_resolved ex_identity l
      allow_def check_limits_def Let_def)
  then show ?thesis by (simp add: policy_require_def policy_raises_def require_def demand_def ex_moment_facts)
qed

lemma ex_model_required:
  "policy_require (ex_actor i) \<lparr>pq_operation = ''model.invoke'', pq_model_id = Some ''m'', pq_deployment = Some ex_option,
    pq_tool_name = None, pq_legacy_admin = False\<rparr> (ex_at s) n = (Inr (), Suc (Suc n))"
  by (rule ex_metered [OF _ _ ex_invokes]) (simp_all add: METERED_OPERATIONS_def)

lemma ex_tool_required: "require_tool (ex_actor i) (ex_tool ''t'') (ex_at s) n = (Inr (), Suc (Suc n))"
proof -
  have "consumption_state ex_host (ex_actor i) = decision_of PolicyAllow Allowed"
    by (simp add: consumption_state_def ex_actor_facts ex_host_facts ex_identity)
       (simp add: ex_actor_def unlimited_def default_limits_def limits.defs)
  moreover have "map_of DOCUMENT_TOOL_FEATURES (''tool_t'') = None" by code_simp
  ultimately have "decide ex_host (ex_actor i) \<lparr>pq_operation = ''tool.invoke'', pq_model_id = None, pq_deployment = None,
      pq_tool_name = Some (''tool_t''), pq_legacy_admin = False\<rparr> = Inr (decision_of PolicyAllow Allowed)"
    by (simp add: decide_def ex_host_facts ex_actor_facts ex_identity restricted_profile_of_def known_configuration_def starts_def
        tool_checks_def METERED_OPERATIONS_def)
       (simp add: decide_domain_def ex_actor_def answer_def)
  from ex_metered [OF _ _ this] show ?thesis
    by (simp add: require_tool_def ex_tool_def METERED_OPERATIONS_def)
qed

lemma ex_bundle_facts:
  "bdl_digest ex_bundle = ex_digest" "map_of (bdl_requirements ex_bundle) ''chat'' = Some ex_requirements"
  "filter (\<lambda>t. ptl_alias t \<in> set (req_required ex_requirements)) (bdl_tools ex_bundle) = [ex_tool ''t'']"
  "exe_bundle ex_run = Inr ex_bundle" "exe_ref ex_run = ex_ref"
  by (simp_all add: ex_bundle_def ex_requirements_def ex_tool_def exe_bundle_def ex_run_def ex_resolved_publication_def ex_version_facts
      exe_ref_def)

lemma ex_rechecks: "\<exists>m. recheck_execution ex_sha (ex_actor ''u3'') ex_ref ModeChat ex_digest ''m'' ex_option (ex_at ex_offered) n = (Inr (), m)"
proof -
  obtain d where depth: "MAX_RESOLVING = Suc d" by (simp add: MAX_RESOLVING_def numeral_eq_Suc)
  from ex_resolves obtain j where j: "resolve_for_execution ex_sha (ex_actor ''u3'') ex_ref ModeChat (ex_at ex_offered) n
    = (Inr ex_resolved_publication, j)" by blast
  from ex_resolves obtain j' where j': "resolve_for_execution ex_sha (ex_actor ''u3'') ex_ref ModeChat (ex_at ex_offered) (Suc (Suc (Suc j)))
    = (Inr ex_resolved_publication, j')" by blast
  have r: "rsp_version ex_resolved_publication = ex_version" by (simp add: ex_resolved_publication_def)
  have m: "model_reviewed ex_version ''m'' ex_option"
    by (simp add: model_reviewed_def ex_version_facts ex_models_def model_binding_def)
  show ?thesis
    unfolding recheck_execution_def depth
    by (simp add: recheck_body_def task_runs j r ex_model_required m ex_compiled ex_version_facts ex_bundle_facts j')
qed

lemma ex_verifies: "\<exists>m. verify_execution ex_sha ex_run (ex_at ex_offered) n = (Inr (), m)"
proof -
  from ex_rechecks obtain j where j: "recheck_execution ex_sha (ex_actor ''u3'') ex_ref ModeChat ex_digest ''m'' ex_option (ex_at ex_offered) n
    = (Inr (), j)" by blast
  have e: "exe_session_id ex_run = None" "exe_actor ex_run = ex_actor ''u3''" "exe_mode ex_run = ModeChat" "exe_model_id ex_run = ''m''"
    "exe_deployment ex_run = ex_option" "exe_scope ex_run = ''chat''"
    by (simp_all add: ex_run_def)
  show ?thesis
    by (simp add: verify_execution_def e ex_bundle_facts task_runs j ex_tool_required)
qed

definition ex_subset :: effective_subset where
  "ex_subset = \<lparr>sub_profileDigest = ex_digest, sub_effectiveDigest = ex_digest, sub_scope = ''chat'', sub_contracts = ex_contracts,
     sub_narrowing = [RequestToolsDisabled], sub_skillsExcluded = False\<rparr>"

lemma ex_validates: "validate_subset ex_sha ex_bundle ''chat'' ex_contracts False True = Inr ex_subset"
proof -
  have "reviewed_contract ex_bundle ''t'' = Some ex_digest"
    by (simp add: reviewed_contract_def ex_bundle_def ex_tool_def)
  moreover have "size_bound (subset_json ex_bundle ''chat'' ex_contracts [RequestToolsDisabled]) \<le> 100000"
    by (simp add: subset_json_def ex_bundle_def ex_contracts_def ex_digest_def strings_json_def reason_name_def exclusions_json_def)
  ultimately show ?thesis
    using exact_digest_small
    by (simp add: validate_subset_def ex_bundle_facts ex_requirements_def ex_contracts_def supported_reasons_def ex_subset_def)
       (simp add: ex_bundle_def)
qed

lemma ex_observes:
  "\<exists>m. observe_offers ex_sha ex_contracts [''t''] ex_run (ex_at ex_offered) 0 = (Inr (ex_run\<lparr>exe_actual := Some ex_subset\<rparr>), m)"
proof -
  from ex_verifies obtain j where j: "verify_execution ex_sha ex_run (ex_at ex_offered) 0 = (Inr (), j)" by blast
  have "execution_subset ex_sha ex_run ex_contracts = Inr ex_subset"
    using ex_validates by (simp add: execution_subset_def ex_bundle_facts) (simp add: ex_run_def)
  then show ?thesis
    by (simp add: observe_offers_def task_runs j) (simp add: ex_contracts_def ex_run_def)
qed

section \<open>Whatever is offered was approved\<close>

text \<open>
  C8: publications are approved. In every store of a world whose store changes only by the calls of the
  service and of the definitions, however they interleave, an active head stands for a version that is
  stored whole, was approved by another than its owner - the reviewer it names, if it names one, and an
  operator only where it consents - and is offered to exactly the audience that was reviewed; and both
  version and approval are in every later store as they are.
\<close>

theorem publications_are_approved:
  assumes "lawful sha kind w" "rec_read (records_of kind (w i)) owner name = Some (HeadRow h, e)" "hed_activeVersion h = Some n"
  shows "\<exists>v r. (\<forall>j \<ge> i. \<exists>e. rec_read (records_of kind (w j)) owner (version_id (hed_assetId h) n) = Some (VersionRow v, e))
    \<and> (\<forall>j \<ge> i. \<exists>e. rec_read (records_of kind (w j)) owner (review_id (hed_assetId h) n) = Some (ReviewRow r, e))
    \<and> \<not> hed_deleted h \<and> ver_userId v = owner \<and> ver_assetId v = hed_assetId h \<and> ver_version v = n
    \<and> version_digest sha v = Inr (ver_digest v)
    \<and> rvw_source r = version_reference v \<and> rvw_decision r = ReviewApproved \<and> rvw_tenantId r = ver_tenantId v
    \<and> rvw_reviewerId r \<noteq> owner \<and> ver_reviewerUserId v \<in> {None, Some (rvw_reviewerId r)}
    \<and> (rvw_authority r = ByOperator \<longrightarrow> ver_operatorReviewConsent v)
    \<and> publication_audience.truncate h = publication_audience.truncate (ver_audience v) \<and> aud_visibility h \<noteq> VisiblePrivate"
proof -
  let ?V = "row_view (records_of kind (w i))"
  note inv = lawful_inv(1) [OF assms(1), of i]
  have h: "?V (owner, name) = Some (HeadRow h)" using assms(2) by (simp add: row_view_def)
  from pub_invD [OF inv h] assms(3) obtain v r where active: "\<not> hed_deleted h"
    "?V (owner, version_id (hed_assetId h) n) = Some (VersionRow v)" "?V (owner, review_id (hed_assetId h) n) = Some (ReviewRow r)"
    "ver_assetId v = hed_assetId h" "ver_version v = n" "rvw_source r = version_reference v" "rvw_decision r = ReviewApproved"
    "publication_audience.truncate h = publication_audience.truncate (ver_audience v)"
    by (auto simp: offers_def)
  note vs = pub_invD [OF inv active(2)] and rs = pub_invD [OF inv active(3)]
  have ref: "ref_assetId (rvw_source r) = hed_assetId h" "ref_version (rvw_source r) = n" "rvw_userId r = owner"
    using active rs by (auto simp: version_reference_def)
  with rs(3) active(2) have reviewed: "rvw_reviewerId r \<noteq> owner" "rvw_tenantId r = ver_tenantId v"
    "ver_reviewerUserId v \<in> {None, Some (rvw_reviewerId r)}" "rvw_authority r = ByOperator \<longrightarrow> ver_operatorReviewConsent v"
    by auto
  have later: "\<exists>e. rec_read (records_of kind (w j)) owner k = Some (row, e)" if "?V (owner, k) = Some row" "permanent row" "i \<le> j" for j k row
    using later_records_permanent [OF lawful_inv(3) [OF assms(1) that(3)]] that(1,2) by (auto simp: row_view_Some)
  have "aud_visibility h = aud_visibility (ver_audience v)" using active(8) by (simp add: publication_audience.defs)
  with vs(2,3) active reviewed later show ?thesis by (intro exI [of _ v] exI [of _ r]) simp
qed

theorem publications_are_approved_witness:
  "\<exists>v (r :: review_decision) e. rec_read ex_offered ''u1'' ex_version_id = Some (VersionRow v, e) \<and> ver_userId v = ''u1''
    \<and> rvw_source r = version_reference v \<and> rvw_decision r = ReviewApproved \<and> rvw_reviewerId r \<noteq> ''u1''"
proof -
  have s: "records_of AgentAsset (ex_world 4) = ex_offered" by (simp add: ex_world_def ex_moment_facts)
  obtain e where "rec_read (records_of AgentAsset (ex_world 4)) ''u1'' ex_head_id = Some (HeadRow ex_active, e)"
    using ex_rows(2) by (auto simp: s)
  from publications_are_approved [OF ex_lawful this ex_active_facts(3)] obtain v and r :: review_decision where
    v: "\<forall>j \<ge> 4. \<exists>e. rec_read (records_of AgentAsset (ex_world j)) ''u1'' (version_id (hed_assetId ex_active) 1) = Some (VersionRow v, e)"
    and r: "ver_userId v = ''u1''" "rvw_source r = version_reference v" "rvw_decision r = ReviewApproved" "rvw_reviewerId r \<noteq> ''u1''"
    by - (elim exE conjE, rule that, assumption+)
  from v have "\<exists>e. rec_read ex_offered ''u1'' ex_version_id = Some (VersionRow v, e)"
    using s ex_active_facts(2) by (metis order_refl)
  with r show ?thesis by blast
qed

section \<open>What a call resolves is approved to its last dependency\<close>

text \<open>
  C9: resolved publications are vouched for. When the service resolves a version for an execution, then
  during the call the version and the approval of exactly it, by another than its owner, were read whole,
  its head was active on exactly it and open to the actor, and the policy admitted the actor to consume;
  its curated agents were enabled and as they had been reviewed; and the same holds of every version it
  depends on, to any depth. The mode is among those reviewed.
\<close>

theorem resolved_publications_are_vouched:
  assumes "resolve_for_execution sha actor ref mode w n = (Inr r, k)"
  shows "offered sha actor w n k ref (rsp_version r) (rsp_approval r) \<and> mode \<in> fst ` set (ver_profiles (rsp_version r))
    \<and> vouched sha actor w n k ref"
  using assms unfolding resolve_for_execution_def by (rule resolve_level_answer)

theorem resolved_publications_are_vouched_witness:
  "\<exists>k. offered ex_sha (ex_actor ''u3'') (ex_at ex_offered) 0 k ex_ref ex_version ex_review
    \<and> vouched ex_sha (ex_actor ''u3'') (ex_at ex_offered) 0 k ex_ref"
proof -
  from ex_resolves obtain k where "resolve_for_execution ex_sha (ex_actor ''u3'') ex_ref ModeChat (ex_at ex_offered) 0
    = (Inr ex_resolved_publication, k)" by blast
  from resolved_publications_are_vouched [OF this] show ?thesis
    by (auto simp: ex_resolved_publication_def)
qed

section \<open>A run binds only what was reviewed\<close>

text \<open>
  C10: offers are reviewed. A run binds an offer only when the tools on offer are those of the contracts,
  every contract is the reviewed one, every required tool of the scope is offered and none beyond the
  required and the optional; each optional tool left out is excused by a reason that holds for the turn,
  and exactly these reasons are recorded; and the version was vouched for again during the call.
\<close>

theorem offers_are_reviewed:
  assumes "observe_offers sha contracts names e w n = (Inr e', k)"
  shows "\<exists>profile req sb. map_of (ver_profiles (rsp_version (exe_resolved e))) (exe_mode e) = Some profile
    \<and> map_of (bdl_requirements profile) (exe_scope e) = Some req
    \<and> set names = fst ` set contracts \<and> set (req_required req) \<subseteq> set names
    \<and> set names \<subseteq> set (req_required req) \<union> fst ` set (req_optional req)
    \<and> (\<forall>(name, d) \<in> set contracts. reviewed_contract profile name = Some d)
    \<and> (let supported = supported_reasons (exe_document_scope e = Some []) (exe_tools_disabled e) in
        (\<forall>name \<in> missing req contracts. excused req supported name \<noteq> {})
        \<and> set (sub_narrowing sb) = (\<Union>name \<in> missing req contracts. excused req supported name))
    \<and> e' = e\<lparr>exe_actual := Some sb\<rparr> \<and> sub_contracts sb = contracts \<and> vouched sha (exe_actor e) w n k (exe_ref e)"
proof -
  from observe_answer [OF assms] obtain profile sb where o: "set names = fst ` set contracts" "vouched sha (exe_actor e) w n k (exe_ref e)"
    "exe_bundle e = Inr profile" "e' = e\<lparr>exe_actual := Some sb\<rparr>"
    and sb: "validate_subset sha profile (exe_scope e) contracts (exe_document_scope e = Some []) (exe_tools_disabled e) = Inr sb"
    by blast
  from subset_answer [OF sb] o show ?thesis
    unfolding bundle_answer Let_def by (intro exI [of _ profile]) metis
qed

theorem offers_are_reviewed_witness:
  "\<exists>k. vouched ex_sha (ex_actor ''u3'') (ex_at ex_offered) 0 k ex_ref \<and> missing ex_requirements ex_contracts = {''o''}
    \<and> excused ex_requirements (supported_reasons False True) ''o'' \<noteq> {}"
proof -
  from ex_observes obtain k where
    k: "observe_offers ex_sha ex_contracts [''t''] ex_run (ex_at ex_offered) 0 = (Inr (ex_run\<lparr>exe_actual := Some ex_subset\<rparr>), k)" by blast
  have m: "missing ex_requirements ex_contracts = {''o''}"
    by (simp add: missing_def ex_requirements_def ex_contracts_def)
  have e: "exe_actor ex_run = ex_actor ''u3''" "ver_profiles (rsp_version (exe_resolved ex_run)) = [(ModeChat, ex_bundle)]" "exe_mode ex_run = ModeChat"
    "exe_scope ex_run = ''chat''" "exe_document_scope ex_run = None" "exe_tools_disabled ex_run = True"
    by (simp_all add: ex_run_def ex_resolved_publication_def ex_version_facts)
  from offers_are_reviewed [OF k, unfolded e Let_def ex_bundle_facts(5)] obtain profile req where
    "map_of [(ModeChat, ex_bundle)] ModeChat = Some profile" "map_of (bdl_requirements profile) ''chat'' = Some req"
    "\<forall>name \<in> missing req ex_contracts. excused req (supported_reasons (None = Some ([] :: string list)) True) name \<noteq> {}"
    "vouched ex_sha (ex_actor ''u3'') (ex_at ex_offered) 0 k ex_ref"
    by - (elim exE conjE, rule that, assumption+)
  then show ?thesis using m ex_bundle_facts(2) by auto
qed



end
