(* ===== verification/Spec2Isabelle.thy ===== *)
theory Spec2Isabelle
  imports Quota_Resolve Quota_Rollout Quota_Dispatch Wf_Demo Agent_Promises Library_Media Schedule_Promises Policy_Promises
    Publish_Promises
begin

text \<open>
  Verification development of the AI4IA API (\<open>app/api/src/ai4ia_api\<close>): the parts that decide
  whether a model call may be made, what it costs, and what a durable workflow may spend.

  The program. A chat turn or a workflow step asks to send a metered request to a model gateway.
  The soft check (\<open>entitlements\<close>) reads the user's policy and the usage ledger and refuses a
  turn whose window is full. Under hard admission (\<open>hard_quota\<close>) every outbound request first
  reserves its bound in a document per owner, under compare-and-swap, claims it as dispatched, and
  settles it with what the provider reports; \<open>catalog.py\<close> decides which deployment serves a model
  under the residency policy, and \<open>usage/pricing.py\<close> with \<open>hard_quota/coverage.py\<close> what the request
  may cost at most. Every turn ends as a row of the ledger (\<open>usage\<close>), which the reports fold. A
  durable workflow (\<open>workflows\<close>) keeps an owner document of runs, operations and dispatches, with an
  account per run when it has a dollar cap; its rows reach the ledger through an outbox.

  Theories and the code they model.
  \<^item> \<open>Prelude\<close>, \<open>Json\<close>, \<open>Url\<close>, \<open>Decimals\<close>: results as sums (\<open>Inl\<close> the exception), dictionaries as
    association lists in insertion order, the text and number functions of the standard library that
    the code uses (\<open>json.dumps\<close>, \<open>urlsplit\<close>, \<open>decimal\<close> with 28 digits).
  \<^item> \<open>Entitlements\<close>: \<open>entitlements/models.py\<close>, \<open>service.py\<close>, \<open>memory_store.py\<close>. Policies, their cached
    resolution with the outage rules, and the decision of a turn.
  \<^item> \<open>Quota_Models\<close>, \<open>Quota_Codec\<close>, \<open>Quota_Store\<close>, \<open>Quota_Service\<close>: \<open>hard_quota/models.py\<close>, \<open>store.py\<close>,
    \<open>service.py\<close>: the document of an owner with its validators and its strict decoder, the store
    contract (a locale, interpreted by the local store), the window check, every operation and the
    loop. \<open>Quota_Validity\<close>, \<open>Quota_Capacity\<close>, \<open>Quota_Ops\<close>, \<open>Quota_Window\<close>, \<open>Quota_Concurrent\<close> and
    \<open>Quota_Lifecycle\<close> prove them: the validator as an invariant, the size envelope that leaves room for
    a settlement, what one pass does, and histories of any number of replicas that read, race, lose
    and crash. \<open>Quota_Demo\<close> is a concrete owner.
  \<^item> \<open>Quota_Cosmos\<close>, \<open>Quota_Operator\<close>, \<open>Quota_Resolve\<close>, \<open>Quota_Rollout\<close>, \<open>Quota_Dispatch\<close>: the production
    store adapter over a container (its answers are a parameter), the operator tool, the activation
    record and the seam every outbound call goes through.
  \<^item> \<open>Catalog\<close>, \<open>Pricing\<close>, \<open>Quota_Coverage\<close>: routing under residency, the cost calculators, and the
    reserved bound of a payload.
  \<^item> \<open>Usage_Native\<close>, \<open>Usage_Models\<close>, \<open>Usage_Rollup\<close>, \<open>Usage_Ledger\<close>: \<open>usage/native.py\<close>, \<open>models.py\<close>,
    \<open>aggregate.py\<close>, \<open>memory_repo.py\<close> and \<open>service.py\<close>: what is captured of a provider's usage object, the
    usage of a turn, the record and its cost, the ledger and the reports.
  \<^item> \<open>Wf_Models\<close>, \<open>Wf_Ledger\<close>, \<open>Wf_Runs\<close>, \<open>Wf_Store\<close>: \<open>workflows/monetary_models.py\<close>,
    \<open>monetary_ledger.py\<close>, \<open>automation_models.py\<close>, \<open>automation_service.py\<close>, \<open>run_controller.py\<close> and
    \<open>automation_store.py\<close>: the owner document with its validators, every change the code hands to
    \<open>mutate_owner\<close>, the fence of a write, the store and its loops. \<open>Wf_Books\<close> states the invariant
    (identities, balances, what is active), \<open>Wf_Changes\<close>, \<open>Wf_Settle\<close> and \<open>Wf_Retire\<close> show that each
    change keeps it and passes the fence, \<open>Wf_Safety\<close> collects the changes, \<open>Wf_Trace\<close> and \<open>Wf_Reach\<close>
    follow sequences of them, \<open>Wf_Spend\<close> the cap, and \<open>Wf_Demo\<close> is one capped call.
  \<^item> \<open>Schedule_Calendar\<close>, \<open>Schedule_Service\<close>: \<open>workflows/scheduling.py\<close> and
    \<open>schedule_service.py\<close>: wall-clock rules, their occurrences and the controller that claims and
    launches them. \<open>Schedule_Safety\<close> gives the life of one schedule document and the log of its claims,
    \<open>Schedule_Steps\<close> shows that every operation of the service keeps to it, whoever else writes, and
    \<open>Schedule_Promises\<close> states the properties.
  \<^item> \<open>Policy_Models\<close>, \<open>Policy_Service\<close>, \<open>Policy_Context\<close>: \<open>policy/models.py\<close>, \<open>service.py\<close>,
    \<open>context.py\<close>, \<open>dispatch.py\<close> and \<open>routes.py\<close>, with \<open>auth/policy_claims.py\<close>, \<open>identity.py\<close> and
    \<open>userid.py\<close>: the evidence of a token, the group policy, its composition for a principal, the
    decision of a request and the checks in front of an operation and of an outbound call.
    \<open>Policy_Safety\<close> states what the rules grant and relates the decisions to it, \<open>Policy_Promises\<close>
    states the properties.
  \<^item> \<open>Json_Text\<close>, \<open>Agent_Redact\<close>, \<open>Agent_Tools\<close>, \<open>Agent_Approvals\<close>, \<open>Agent_Context\<close>, \<open>Agent_Turn\<close>:
    \<open>agents/tools.py\<close> with its redaction, \<open>synthetic_governance.py\<close>, \<open>tool_exec.py\<close>,
    \<open>approvals.py\<close>, \<open>prompt_budget.py\<close> and the buffered turn of \<open>runtime.py\<close> with the consent contract
    of \<open>consent.py\<close>: the tool registry and its contracts, the identity of a call and its
    approval, the context kept within the window, and the loop of model requests and tool runs.
    \<open>Agent_Safety\<close> and \<open>Agent_Guarantees\<close> follow its trace, \<open>Agent_Promises\<close> states the properties.
  \<^item> \<open>Publish_Models\<close>, \<open>Publish_Store\<close>, \<open>Publish_Service\<close>, \<open>Publish_Execution\<close>: \<open>publishing/models.py\<close>,
    \<open>refs.py\<close>, \<open>store.py\<close>, \<open>service.py\<close>, \<open>execution.py\<close> and the binding of \<open>compiler.py\<close>, with the records
    of agents and workflows and \<open>library/access.py\<close>: the conditional store (a locale, interpreted by the
    local store), every operation of the service as a task over the moments of a world, and a run of a
    published version. \<open>Publish_Tasks\<close> reads the answer of a task backwards, \<open>Publish_Safety\<close> says what
    a write rests on and that it keeps the invariant, \<open>Publish_Worlds\<close> that all stores have it,
    \<open>Publish_Resolve\<close> and \<open>Publish_Runs\<close> what a resolution and a run have seen; \<open>Publish_Demo\<close> is a
    concrete world, evaluated with the size bounds of \<open>Json_Size\<close>, and \<open>Publish_Promises\<close> states the
    properties.
  \<^item> \<open>Library_Chunking\<close>, \<open>Library_Media\<close>: \<open>library/chunking.py\<close>: the chunks of a document and of a
    transcript with its time labels.

  What is shown, in the order of importance. Hard admission: under every interleaving no minute
  holds more dispatches than the cap, an identity is dispatched at most once, the document stays
  valid and settleable, and the check admits exactly what has room. Workflow automation: no change
  is refused as corrupt, a capped run stays within its cap, a passed operation never repeats, runs of
  a workflow never overlap, and a change is one atomic step under interference. Agents: a gated call
  runs only when it was approved and once per approval, only tools that were offered and whose
  contract authorises them run, every model request is well formed and a turn is bounded. Policy: an
  outbound call goes to a deployment the rules grant, a domain decides exactly by its rules, a
  restricted actor only loses, the tightest limit applies, and a policy that cannot be read refuses
  everything. Schedules: an occurrence is due at the first instant that shows its wall time, and each
  is claimed at most once, in order and on time. Publishing: whatever is offered was approved by
  another than its owner and is offered to the audience that was reviewed, under every interleaving;
  what a call resolves is approved to its last dependency; a run binds only reviewed contracts and its
  requests stay within them. Then the soft policy, the persisted decoder and the
  production adapter, the operator tool, the records of usage, the bounds and costs of a call,
  residency and the chunks of a text. Lemmas beside the properties state more: atomic calls and the
  overrun fence (\<open>Quota_Lifecycle\<close>), the guarded write (\<open>Quota_Cosmos\<close>), activation
  (\<open>Quota_Rollout\<close>), the exact cost (\<open>Pricing\<close>), the reports (\<open>Usage_Rollup\<close>).

  Conventions. Times are integers: seconds in hard admission and the entitlement windows,
  microseconds in the ledger and in workflow automation. Strings are lists of characters below code
  point 256. Python integers are \<open>int\<close>, so nothing wraps; the limits of the code (\<open>2 ^ 53 - 1\<close> for a
  quantity, 512 entries, 128 dispatches) are checks of the model as of the code. Loops are recursion:
  the retry loops carry the code's attempts as their fuel (\<open>MAX_CAS_ATTEMPTS\<close> 16, the resolution 8,
  \<open>MUTATE_ATTEMPTS\<close> 3), which is the number of tries and not a bound of the model. Other clients are
  functions on the store applied at the pauses of a loop.

  Parameters. SHA-256, the clocks and random identities, the answers of Cosmos DB, the verdicts of
  the policy service, the product of floats in the telemetry estimate and the image estimate, the time
  an idempotency key carries and the JSON size of an automation document are arguments of the
  definitions that use them. So are the rules of the time zones (with \<open>zone_law\<close>, that each instant is
  one of the two readings of its wall time), the moments of the policy host (what settings,
  configuration, entitlement store and ledger are at each await), the parsing of the policy text into
  its fields, \<open>uuid5\<close>, the checks of a publication as the policy sees them, the tool profile of a
  published mode (\<open>pmt_profile\<close>: it discovers the schemas of remote servers), the fresh asset identifier,
  the environment digest and the documents a session selects, and the world of an agent's turn: the answers of
  the model, the handlers of the tools, and their safety verdicts.

  Not modelled. HTTP routes, streaming and realtime relays, the gateway client, the streaming turn of
  the runtime with its checkpoints, receipts and safety signals, consent, MCP, memory, sessions,
  the document library beyond chunking, the worker of the durable runner, the Cosmos adapters of the
  ledger, of automation and of publications, the lengths of the text fields of a published tool,
  configuration and telemetry, the web client, the proxy,
  infrastructure and scripts. Most of it is calls into frameworks and services; what the modelled parts
  take from it is a parameter. The error rate of the admin summary, a rounded quotient of two modelled
  counts, is left out.
\<close>

end
